(* ===== verification/Prelude.thy ===== *)
theory Prelude
  imports
    "HOL-Library.Word"
    "HOL-Library.List_Lexorder"
    "HOL-Library.Char_ord"
begin

text \<open>
  What the component theories share: the identifiers of the runtime (the
  \<^verbatim>\<open>uuid_newtype!\<close> macro of \<^verbatim>\<open>runtime/state.rs\<close>), the values of
  \<^verbatim>\<open>serde_json::Value\<close>, the two map types of the Rust standard library as association
  lists, and the interface of keyed stores with the lemmas every client of a map uses.
\<close>

section \<open>Automation collections\<close>

named_theorems store_simps \<open>lookup, update and enumeration of the keyed stores\<close>
named_theorems auth_simps \<open>frame and effect facts of the runtime authority\<close>
named_theorems flow_simps \<open>frame and effect facts of the flow runtime\<close>

section \<open>Identifiers\<close>

text \<open>
  A UUID is read as the number its 128 bits denote; the code only compares, orders and prints
  it. Drawing a fresh one (\<^verbatim>\<open>Uuid::new_v4\<close>) is an argument of the operation that draws it.
  The macro \<^verbatim>\<open>uuid_newtype!\<close> generates one newtype per name; the phantom parameter \<open>'tag\<close>
  keeps the generated types apart, as the macro does.
\<close>

type_synonym uuid = nat
type_synonym u8 = "8 word"
type_synonym u16 = "16 word"
type_synonym u32 = "32 word"
type_synonym u64 = "64 word"

datatype 'tag uuid_newtype = UuidNewtype (uuid_of: uuid)

instantiation uuid_newtype :: (type) linorder
begin

definition less_eq_uuid_newtype :: "'a uuid_newtype \<Rightarrow> 'a uuid_newtype \<Rightarrow> bool" where
  "less_eq_uuid_newtype x y = (uuid_of x \<le> uuid_of y)"

definition less_uuid_newtype :: "'a uuid_newtype \<Rightarrow> 'a uuid_newtype \<Rightarrow> bool" where
  "less_uuid_newtype x y = (uuid_of x < uuid_of y)"

instance
proof
  fix x y z :: "'a uuid_newtype"
  show "(x < y) = (x \<le> y \<and> \<not> y \<le> x)"
    by (auto simp: less_eq_uuid_newtype_def less_uuid_newtype_def)
  show "x \<le> x" by (simp add: less_eq_uuid_newtype_def)
  show "x \<le> y \<Longrightarrow> y \<le> z \<Longrightarrow> x \<le> z" by (simp add: less_eq_uuid_newtype_def)
  show "x \<le> y \<Longrightarrow> y \<le> x \<Longrightarrow> x = y"
    by (simp add: less_eq_uuid_newtype_def uuid_newtype.expand)
  show "x \<le> y \<or> y \<le> x" by (auto simp: less_eq_uuid_newtype_def)
qed

end

lemma uuid_newtype_less [simp]: "(UuidNewtype a < (UuidNewtype b :: 'a uuid_newtype)) = (a < b)"
  by (simp add: less_uuid_newtype_def)

lemma uuid_newtype_less_eq [simp]: "(UuidNewtype a \<le> (UuidNewtype b :: 'a uuid_newtype)) = (a \<le> b)"
  by (simp add: less_eq_uuid_newtype_def)

text \<open>The newtypes over \<^verbatim>\<open>String\<close> (session ids, memory namespace ids) likewise.\<close>

datatype 'tag string_newtype = StringNewtype (string_of_id: string)

instantiation string_newtype :: (type) linorder
begin

definition less_eq_string_newtype :: "'a string_newtype \<Rightarrow> 'a string_newtype \<Rightarrow> bool" where
  "less_eq_string_newtype x y = (string_of_id x \<le> string_of_id y)"

definition less_string_newtype :: "'a string_newtype \<Rightarrow> 'a string_newtype \<Rightarrow> bool" where
  "less_string_newtype x y = (string_of_id x < string_of_id y)"

instance
proof
  fix x y z :: "'a string_newtype"
  show "(x < y) = (x \<le> y \<and> \<not> y \<le> x)"
    by (auto simp: less_eq_string_newtype_def less_string_newtype_def)
  show "x \<le> x" by (simp add: less_eq_string_newtype_def)
  show "x \<le> y \<Longrightarrow> y \<le> z \<Longrightarrow> x \<le> z" by (simp add: less_eq_string_newtype_def)
  show "x \<le> y \<Longrightarrow> y \<le> x \<Longrightarrow> x = y"
    by (simp add: less_eq_string_newtype_def string_newtype.expand)
  show "x \<le> y \<or> y \<le> x" by (auto simp: less_eq_string_newtype_def)
qed

end

lemma string_newtype_less [simp]:
  "(StringNewtype a < (StringNewtype b :: 'a string_newtype)) = (a < b)"
  by (simp add: less_string_newtype_def)

lemma string_newtype_less_eq [simp]:
  "(StringNewtype a \<le> (StringNewtype b :: 'a string_newtype)) = (a \<le> b)"
  by (simp add: less_eq_string_newtype_def)

section \<open>JSON values\<close>

text \<open>
  \<^verbatim>\<open>serde_json::Value\<close>: a number is an unsigned, a negative or a floating-point one
  (kept as its 64 bits), an object is a list of members in the order the map yields them.
\<close>

datatype json_number = PosInt u64 | NegInt u64 | Float u64

datatype json =
  JNull
| JBool bool
| JNumber json_number
| JString string
| JArray "json list"
| JObject "(string \<times> json) list"

text \<open>\<^verbatim>\<open>Value::get\<close> with a string key, and \<^verbatim>\<open>Value::as_str\<close>.\<close>

fun json_get :: "json \<Rightarrow> string \<Rightarrow> json option" where
  "json_get (JObject ms) k = map_of ms k"
| "json_get _ _ = None"

fun json_as_str :: "json \<Rightarrow> string option" where
  "json_as_str (JString s) = Some s"
| "json_as_str _ = None"

fun json_as_array :: "json \<Rightarrow> json list option" where
  "json_as_array (JArray xs) = Some xs"
| "json_as_array _ = None"

fun json_is_object :: "json \<Rightarrow> bool" where
  "json_is_object (JObject _) = True"
| "json_is_object _ = False"

fun json_as_u64 :: "json \<Rightarrow> u64 option" where
  "json_as_u64 (JNumber (PosInt n)) = Some n"
| "json_as_u64 _ = None"

section \<open>Keyed stores\<close>

declare map_of_eq_Some_iff [simp del]

text \<open>
  The contract every map of the code honours: a lookup after an insertion sees the inserted
  value at its key and the old map everywhere else.
\<close>

locale keyed_store =
  fixes get :: "'m \<Rightarrow> 'k \<Rightarrow> 'v option"
    and put :: "'k \<Rightarrow> 'v \<Rightarrow> 'm \<Rightarrow> 'm"
  assumes get_put: "get (put k v m) = (get m)(k \<mapsto> v)"
begin

lemma get_put_same: "get (put k v m) k = Some v"
  by (simp add: get_put)

lemma get_put_other: "k' \<noteq> k \<Longrightarrow> get (put k v m) k' = get m k'"
  by (simp add: get_put)

lemma dom_put: "dom (get (put k v m)) = insert k (dom (get m))"
  by (simp add: get_put)

lemma get_put_put: "get (put k v (put k w m)) = get (put k v m)"
  by (simp add: get_put)

lemma put_commute: "k \<noteq> k' \<Longrightarrow> get (put k v (put k' w m)) = get (put k' w (put k v m))"
  by (simp add: get_put fun_upd_twist)

lemma put_same_value: "get m k = Some v \<Longrightarrow> get (put k v m) = get m"
  by (simp add: get_put fun_upd_idem)

lemma ran_put_subset: "ran (get (put k v m)) \<subseteq> insert v (ran (get m))"
  by (auto simp: get_put ran_def)

lemma all_put:
  assumes "\<And>k' v'. get m k' = Some v' \<Longrightarrow> P k' v'" and "P k v"
    and "get (put k v m) k' = Some v'"
  shows "P k' v'"
  using assms by (auto simp: get_put split: if_splits)

end

subsection \<open>BTreeMap: sorted association lists\<close>

fun bt_put :: "'k::linorder \<Rightarrow> 'v \<Rightarrow> ('k \<times> 'v) list \<Rightarrow> ('k \<times> 'v) list" where
  "bt_put k v [] = [(k, v)]"
| "bt_put k v ((k', v') # m) =
     (if k < k' then (k, v) # (k', v') # m
      else if k = k' then (k, v) # m
      else (k', v') # bt_put k v m)"

lemma bt_put_end: "\<forall>b \<in> set m. fst b < k \<Longrightarrow> bt_put k v m = m @ [(k, v)]"
  by (induction m) auto

definition bt_sorted :: "('k::linorder \<times> 'v) list \<Rightarrow> bool" where
  "bt_sorted m \<longleftrightarrow> sorted_wrt (<) (map fst m)"

text \<open>\<^verbatim>\<open>get_mut\<close> followed by an update of the value found; nothing when the key is absent.\<close>

definition bt_modify :: "'k::linorder \<Rightarrow> ('v \<Rightarrow> 'v) \<Rightarrow> ('k \<times> 'v) list \<Rightarrow> ('k \<times> 'v) list" where
  "bt_modify k f m = (case map_of m k of None \<Rightarrow> m | Some v \<Rightarrow> bt_put k (f v) m)"

lemma map_of_bt_put: "map_of (bt_put k v m) = (map_of m)(k \<mapsto> v)"
  by (induction k v m rule: bt_put.induct) (auto simp: fun_eq_iff)

interpretation bt: keyed_store map_of bt_put
  by unfold_locales (rule map_of_bt_put)

lemmas bt_put_simps [store_simps] = bt.get_put

lemma set_keys_bt_put [store_simps]: "fst ` set (bt_put k v m) = insert k (fst ` set m)"
  using bt.dom_put [of k v m] by (simp add: dom_map_of_conv_image_fst)

lemma set_bt_put: "set (bt_put k v m) \<subseteq> insert (k, v) (set m)"
  by (induction k v m rule: bt_put.induct) auto

lemma bt_modify_values:
  assumes "x \<in> snd ` set (bt_modify k f m)"
  shows "x \<in> snd ` set m \<or> x \<in> f ` snd ` set m"
proof (cases "map_of m k")
  case None
  with assms show ?thesis by (simp add: bt_modify_def)
next
  case (Some v)
  then have "v \<in> snd ` set m" by (force dest: map_of_SomeD)
  moreover from assms obtain j where "(j, x) \<in> set (bt_modify k f m)" by force
  then have "(j, x) = (k, f v) \<or> (j, x) \<in> set m"
    using Some set_bt_put [of k "f v" m] by (auto simp: bt_modify_def)
  ultimately show ?thesis by force
qed

lemma bt_sorted_put: "bt_sorted m \<Longrightarrow> bt_sorted (bt_put k v m)"
proof (induction k v m rule: bt_put.induct)
  case (2 k v k' v' m)
  have keys: "fst ` set (bt_put k v m) = insert k (fst ` set m)"
    by (rule set_keys_bt_put)
  show ?case
  proof (cases "k' < k")
    case True
    with 2 have "bt_sorted (bt_put k v m)" by (simp add: bt_sorted_def)
    with True "2.prems" keys show ?thesis by (auto simp: bt_sorted_def)
  next
    case False
    with "2.prems" show ?thesis by (fastforce simp: bt_sorted_def)
  qed
qed (simp add: bt_sorted_def)

lemma bt_sorted_distinct: "bt_sorted m \<Longrightarrow> distinct (map fst m)"
  unfolding bt_sorted_def by (induction m) auto

lemma map_of_bt_modify: "map_of (bt_modify k f m) k' =
    (if k' = k then map_option f (map_of m k) else map_of m k')"
  by (simp add: bt_modify_def store_simps split: option.split)

lemma bt_sorted_modify: "bt_sorted m \<Longrightarrow> bt_sorted (bt_modify k f m)"
  by (simp add: bt_modify_def bt_sorted_put split: option.split)

text \<open>\<^verbatim>\<open>values_mut\<close>: every value is updated in place, the keys stay.\<close>

definition bt_map_values :: "('v \<Rightarrow> 'w) \<Rightarrow> ('k \<times> 'v) list \<Rightarrow> ('k \<times> 'w) list" where
  "bt_map_values f m = map (\<lambda>(k, v). (k, f v)) m"

lemma map_of_bt_map_values [store_simps]:
  "map_of (bt_map_values f m) k = map_option f (map_of m k)"
  by (induction m) (auto simp: bt_map_values_def)

lemma bt_sorted_map_values: "bt_sorted (bt_map_values f m) = bt_sorted m"
proof -
  have "map fst (bt_map_values f m) = map fst m"
    by (induction m) (auto simp: bt_map_values_def)
  then show ?thesis by (simp add: bt_sorted_def)
qed

subsection \<open>HashMap: association lists in iteration order\<close>

text \<open>
  A \<^verbatim>\<open>HashMap\<close> that the code iterates over is the list of its entries in its iteration
  order, which Rust leaves unspecified: theorems quantify over the list. Inserting replaces
  the value of a present key and adds a new entry otherwise. A hash map the code only looks
  up and updates is a function \<open>'k \<rightharpoonup> 'v\<close>.
\<close>

fun hm_put :: "'k \<Rightarrow> 'v \<Rightarrow> ('k \<times> 'v) list \<Rightarrow> ('k \<times> 'v) list" where
  "hm_put k v [] = [(k, v)]"
| "hm_put k v ((k', v') # m) = (if k = k' then (k, v) # m else (k', v') # hm_put k v m)"

definition hm_remove :: "'k \<Rightarrow> ('k \<times> 'v) list \<Rightarrow> ('k \<times> 'v) list" where
  "hm_remove k m = filter (\<lambda>(k', _). k' \<noteq> k) m"

lemma map_of_hm_put: "map_of (hm_put k v m) = (map_of m)(k \<mapsto> v)"
  by (induction k v m rule: hm_put.induct) (auto simp: fun_eq_iff)

interpretation hm: keyed_store map_of hm_put
  by unfold_locales (rule map_of_hm_put)

lemmas hm_put_simps [store_simps] = hm.get_put

lemma set_keys_hm_put [store_simps]: "fst ` set (hm_put k v m) = insert k (fst ` set m)"
  using hm.dom_put [of k v m] by (simp add: dom_map_of_conv_image_fst)

lemma distinct_hm_put: "distinct (map fst m) \<Longrightarrow> distinct (map fst (hm_put k v m))"
proof (induction k v m rule: hm_put.induct)
  case (2 k v k' v' m)
  then show ?case using set_keys_hm_put [of k v m] by (auto split: if_splits)
qed simp

lemma hm_put_fresh: "k \<notin> fst ` set m \<Longrightarrow> hm_put k v m = m @ [(k, v)]"
  by (induction k v m rule: hm_put.induct) auto

lemma map_of_hm_remove [store_simps]: "map_of (hm_remove k m) = (map_of m)(k := None)"
  by (induction m) (auto simp: hm_remove_def fun_eq_iff)

lemma distinct_hm_remove: "distinct (map fst m) \<Longrightarrow> distinct (map fst (hm_remove k m))"
  by (induction m) (auto simp: hm_remove_def)

text \<open>The pattern \<^verbatim>\<open>entry(k).or_default()\<close> followed by an update, on function maps.\<close>

definition upd_default :: "'k \<Rightarrow> 'v \<Rightarrow> ('v \<Rightarrow> 'v) \<Rightarrow> ('k \<rightharpoonup> 'v) \<Rightarrow> ('k \<rightharpoonup> 'v)" where
  "upd_default k d f m = m(k \<mapsto> f (case m k of None \<Rightarrow> d | Some v \<Rightarrow> v))"

lemma upd_default_apply [store_simps]:
  "upd_default k d f m k' =
     (if k' = k then Some (f (case m k of None \<Rightarrow> d | Some v \<Rightarrow> v)) else m k')"
  by (simp add: upd_default_def)

section \<open>Strings\<close>

text \<open>\<^verbatim>\<open>str::starts_with\<close> and \<^verbatim>\<open>str::contains\<close> on the bytes of the strings.\<close>

fun str_starts_with :: "string \<Rightarrow> string \<Rightarrow> bool" where
  "str_starts_with s [] = True"
| "str_starts_with [] (p # ps) = False"
| "str_starts_with (c # s) (p # ps) = (c = p \<and> str_starts_with s ps)"

fun str_contains :: "string \<Rightarrow> string \<Rightarrow> bool" where
  "str_contains [] p = str_starts_with [] p"
| "str_contains (c # s) p = (str_starts_with (c # s) p \<or> str_contains s p)"

lemma str_starts_with_iff: "str_starts_with s p \<longleftrightarrow> (\<exists>t. s = p @ t)"
  by (induction s p rule: str_starts_with.induct) auto

lemma str_contains_iff: "str_contains s p \<longleftrightarrow> (\<exists>a b. s = a @ p @ b)"
proof (induction s)
  case Nil
  then show ?case by (auto simp: str_starts_with_iff)
next
  case (Cons c s)
  show ?case
  proof
    assume "str_contains (c # s) p"
    then consider "str_starts_with (c # s) p" | "str_contains s p" by auto
    then show "\<exists>a b. c # s = a @ p @ b"
    proof cases
      case 1
      then show ?thesis by (metis append_Nil str_starts_with_iff)
    next
      case 2
      with Cons.IH show ?thesis by (metis append_Cons)
    qed
  next
    assume "\<exists>a b. c # s = a @ p @ b"
    then obtain a b where ab: "c # s = a @ p @ b" by blast
    show "str_contains (c # s) p"
    proof (cases a)
      case Nil
      with ab have "str_starts_with (c # s) p" by (auto simp: str_starts_with_iff)
      then show ?thesis by simp
    next
      case (Cons x a')
      with ab have "s = a' @ p @ b" by simp
      with Cons.IH show ?thesis by auto
    qed
  qed
qed

text \<open>
  \<^verbatim>\<open>str::trim\<close> on UTF-8: the encodings of the characters with the \<^verbatim>\<open>White_Space\<close> property are
  stripped from both ends.
\<close>

definition white_space_ascii :: "string list" where
  "white_space_ascii = map (\<lambda>c. [c]) [CHR 0x09, CHR 0x0A, CHR 0x0B, CHR 0x0C, CHR 0x0D, CHR '' '']"

definition white_space_wide :: "string list" where
  "white_space_wide =
     [[CHR 0xC2, CHR 0x85], [CHR 0xC2, CHR 0xA0], [CHR 0xE1, CHR 0x9A, CHR 0x80],
      [CHR 0xE2, CHR 0x80, CHR 0x80], [CHR 0xE2, CHR 0x80, CHR 0x81], [CHR 0xE2, CHR 0x80, CHR 0x82],
      [CHR 0xE2, CHR 0x80, CHR 0x83], [CHR 0xE2, CHR 0x80, CHR 0x84], [CHR 0xE2, CHR 0x80, CHR 0x85],
      [CHR 0xE2, CHR 0x80, CHR 0x86], [CHR 0xE2, CHR 0x80, CHR 0x87], [CHR 0xE2, CHR 0x80, CHR 0x88],
      [CHR 0xE2, CHR 0x80, CHR 0x89], [CHR 0xE2, CHR 0x80, CHR 0x8A], [CHR 0xE2, CHR 0x80, CHR 0xA8],
      [CHR 0xE2, CHR 0x80, CHR 0xA9], [CHR 0xE2, CHR 0x80, CHR 0xAF], [CHR 0xE2, CHR 0x81, CHR 0x9F],
      [CHR 0xE3, CHR 0x80, CHR 0x80]]"

function strip_front :: "string list \<Rightarrow> string \<Rightarrow> string" where
  "strip_front ws s =
     (case List.find (\<lambda>w. w \<noteq> [] \<and> str_starts_with s w) ws of
        None \<Rightarrow> s
      | Some w \<Rightarrow> strip_front ws (drop (length w) s))"
  by pat_completeness auto
termination
proof (relation "measure (\<lambda>(ws, s). length s)", goal_cases)
  case (2 ws s w)
  then have "w \<noteq> []" "str_starts_with s w" by (auto simp: find_Some_iff)
  then show ?case by (auto simp: str_starts_with_iff)
qed simp

declare strip_front.simps [simp del]

definition str_trim :: "string \<Rightarrow> string" where
  "str_trim s =
     (let ws = white_space_ascii @ white_space_wide
      in rev (strip_front (map rev ws) (rev (strip_front ws s))))"

text \<open>\<^verbatim>\<open>slice::join\<close>, the decimal \<^verbatim>\<open>Display\<close> of an unsigned number, and \<^verbatim>\<open>chars().take(n)\<close> on UTF-8.\<close>

fun str_join :: "string \<Rightarrow> string list \<Rightarrow> string" where
  "str_join sep [] = []"
| "str_join sep [s] = s"
| "str_join sep (s # t # ts) = s @ sep @ str_join sep (t # ts)"

fun show_nat :: "nat \<Rightarrow> string" where
  "show_nat n = (if n < 10 then [char_of (48 + n)] else show_nat (n div 10) @ [char_of (48 + n mod 10)])"

declare show_nat.simps [simp del]

definition utf8_continues :: "char \<Rightarrow> bool" where
  "utf8_continues c = (128 \<le> (of_char c :: nat) \<and> (of_char c :: nat) < 192)"

fun utf8_take :: "nat \<Rightarrow> string \<Rightarrow> string" where
  "utf8_take n [] = []"
| "utf8_take n (c # s) =
     (if utf8_continues c then c # utf8_take n s
      else case n of 0 \<Rightarrow> [] | Suc m \<Rightarrow> c # utf8_take m s)"

section \<open>Building JSON values\<close>

text \<open>\<^verbatim>\<open>json!\<close> of an object, whose map is sorted; and numbers.\<close>

definition json_object :: "(string \<times> json) list \<Rightarrow> json" where
  "json_object kvs = JObject (foldl (\<lambda>m (k, v). bt_put k v m) [] kvs)"

definition json_u32 :: "u32 \<Rightarrow> json" where
  "json_u32 n = JNumber (PosInt (ucast n))"

definition json_u64 :: "u64 \<Rightarrow> json" where
  "json_u64 n = JNumber (PosInt n)"

fun json_as_bool :: "json \<Rightarrow> bool option" where
  "json_as_bool (JBool b) = Some b"
| "json_as_bool _ = None"

text \<open>Indexing with a string key, which is null where there is no member.\<close>

definition json_index :: "json \<Rightarrow> string \<Rightarrow> json" where
  "json_index j k = (case json_get j k of None \<Rightarrow> JNull | Some v \<Rightarrow> v)"

end
