(* ===== verification/CronyGraph.thy ===== *)
theory CronyGraph
  imports Prelude
begin

text \<open>
  The directed-graph primitives of \<^verbatim>\<open>crates/cronygraph/src/graph.rs\<close>: the graph with its
  insertion-ordered adjacency, the lookups, the iterative three-colour cycle check and Kahn's
  topological order. The lemmas show that the cycle check decides whether the edge relation has
  a cycle, that the order of Kahn's algorithm is a topological one, and that none of the
  \<^verbatim>\<open>unwrap\<close> and the unsigned subtraction of that algorithm can fail on a graph built with the
  graph's own operations.
\<close>

section \<open>The graph\<close>

datatype node_tag = NodeTag

type_synonym node_id = "node_tag uuid_newtype"

datatype 'e edge = Edge (target: node_id) (payload: 'e)

text \<open>Both hash maps are iterated over, so they are lists in iteration order.\<close>

record ('n, 'e) graph =
  nodes :: "(node_id \<times> 'n) list"
  adjacency :: "(node_id \<times> 'e edge list) list"

datatype graph_error = UnknownNode node_id | Cycle

definition new_graph :: "('n, 'e) graph" where
  "new_graph = \<lparr>nodes = [], adjacency = []\<rparr>"

definition graph_len :: "('n, 'e) graph \<Rightarrow> nat" where
  "graph_len g = length (nodes g)"

definition graph_is_empty :: "('n, 'e) graph \<Rightarrow> bool" where
  "graph_is_empty g = (nodes g = [])"

text \<open>\<^verbatim>\<open>NodeId::new\<close> is the argument \<open>nid\<close>.\<close>

definition add_node :: "node_id \<Rightarrow> 'n \<Rightarrow> ('n, 'e) graph \<Rightarrow> ('n, 'e) graph" where
  "add_node nid p g =
     g\<lparr>nodes := hm_put nid p (nodes g), adjacency := hm_put nid [] (adjacency g)\<rparr>"

definition insert_node_with_id ::
    "node_id \<Rightarrow> 'n \<Rightarrow> ('n, 'e) graph \<Rightarrow> 'n option \<times> ('n, 'e) graph" where
  "insert_node_with_id nid p g =
     (map_of (nodes g) nid,
      g\<lparr>adjacency := (case map_of (adjacency g) nid of
                        None \<Rightarrow> hm_put nid [] (adjacency g) | Some _ \<Rightarrow> adjacency g),
        nodes := hm_put nid p (nodes g)\<rparr>)"

definition add_edge ::
    "node_id \<Rightarrow> node_id \<Rightarrow> 'e \<Rightarrow> ('n, 'e) graph \<Rightarrow> graph_error + ('n, 'e) graph" where
  "add_edge src tgt p g =
     (if map_of (nodes g) src = None then Inl (UnknownNode src)
      else if map_of (nodes g) tgt = None then Inl (UnknownNode tgt)
      else Inr (g\<lparr>adjacency :=
        hm_put src ((case map_of (adjacency g) src of None \<Rightarrow> [] | Some es \<Rightarrow> es) @ [Edge tgt p])
          (adjacency g)\<rparr>))"

definition node :: "('n, 'e) graph \<Rightarrow> node_id \<Rightarrow> 'n option" where
  "node g nid = map_of (nodes g) nid"

text \<open>\<^verbatim>\<open>node_mut\<close> hands out the stored payload for an update in place.\<close>

definition node_mut :: "('n \<Rightarrow> 'n) \<Rightarrow> ('n, 'e) graph \<Rightarrow> node_id \<Rightarrow> ('n, 'e) graph" where
  "node_mut f g nid = (case map_of (nodes g) nid of
     None \<Rightarrow> g | Some p \<Rightarrow> g\<lparr>nodes := hm_put nid (f p) (nodes g)\<rparr>)"

definition graph_contains :: "('n, 'e) graph \<Rightarrow> node_id \<Rightarrow> bool" where
  "graph_contains g nid = (map_of (nodes g) nid \<noteq> None)"

definition edges_from :: "('n, 'e) graph \<Rightarrow> node_id \<Rightarrow> 'e edge list" where
  "edges_from g nid = (case map_of (adjacency g) nid of None \<Rightarrow> [] | Some es \<Rightarrow> es)"

definition successors :: "('n, 'e) graph \<Rightarrow> node_id \<Rightarrow> node_id list" where
  "successors g nid = map target (edges_from g nid)"

definition node_ids :: "('n, 'e) graph \<Rightarrow> node_id list" where
  "node_ids g = map fst (nodes g)"

text \<open>The edge relation, the specification the traversals are measured against.\<close>

definition edge_rel :: "('n, 'e) graph \<Rightarrow> (node_id \<times> node_id) set" where
  "edge_rel g = {(u, v). v \<in> set (successors g u)}"

text \<open>
  What every operation keeps: both maps have one entry per key, exactly the declared nodes have
  an adjacency entry, and edges lead to declared nodes.
\<close>

definition wf_graph :: "('n, 'e) graph \<Rightarrow> bool" where
  "wf_graph g \<longleftrightarrow> distinct (map fst (nodes g)) \<and> distinct (map fst (adjacency g)) \<and>
     dom (map_of (adjacency g)) = dom (map_of (nodes g)) \<and>
     (\<forall>u es. map_of (adjacency g) u = Some es \<longrightarrow>
        (\<forall>e \<in> set es. target e \<in> dom (map_of (nodes g))))"

lemma wf_new_graph: "wf_graph new_graph"
  by (simp add: wf_graph_def new_graph_def)

lemma wf_add_node: "wf_graph g \<Longrightarrow> wf_graph (add_node nid p g)"
  by (auto simp: wf_graph_def add_node_def distinct_hm_put hm.dom_put hm.get_put
      split: if_splits)

lemma wf_insert_node_with_id: "wf_graph g \<Longrightarrow> wf_graph (snd (insert_node_with_id nid p g))"
  by (auto simp: wf_graph_def insert_node_with_id_def distinct_hm_put hm.dom_put hm.get_put
      split: if_splits option.splits)

lemma wf_add_edge:
  assumes wf: "wf_graph g" and ok: "add_edge src tgt p g = Inr g'"
  shows "wf_graph g'"
proof -
  let ?es = "(case map_of (adjacency g) src of None \<Rightarrow> [] | Some es \<Rightarrow> es) @ [Edge tgt p]"
  from ok have src: "src \<in> dom (map_of (nodes g))" and tgt: "tgt \<in> dom (map_of (nodes g))"
    and g': "g' = g\<lparr>adjacency := hm_put src ?es (adjacency g)\<rparr>"
    by (auto simp: add_edge_def domIff simp del: not_None_eq split: if_splits)
  have "\<forall>e \<in> set ?es. target e \<in> dom (map_of (nodes g))"
    using wf tgt by (cases "map_of (adjacency g) src") (auto simp: wf_graph_def)
  with wf src show ?thesis
    by (simp add: g' wf_graph_def distinct_hm_put hm.dom_put hm.get_put insert_absorb)
qed

lemma edge_in_nodes:
  assumes "wf_graph g" and "(u, v) \<in> edge_rel g"
  shows "u \<in> set (node_ids g)" and "v \<in> set (node_ids g)"
proof -
  from assms(2) have "\<exists>es. map_of (adjacency g) u = Some es \<and> v \<in> target ` set es"
    by (cases "map_of (adjacency g) u") (auto simp: edge_rel_def successors_def edges_from_def)
  then obtain es where es: "map_of (adjacency g) u = Some es" and v: "v \<in> target ` set es"
    by blast
  with assms(1) have "u \<in> dom (map_of (nodes g))" "v \<in> dom (map_of (nodes g))"
    unfolding wf_graph_def by (blast, fastforce)
  then show "u \<in> set (node_ids g)" and "v \<in> set (node_ids g)"
    by (simp_all add: node_ids_def dom_map_of_conv_image_fst)
qed

lemma finite_edge_rel: "wf_graph g \<Longrightarrow> finite (edge_rel g)"
  by (rule finite_subset [where B = "set (node_ids g) \<times> set (node_ids g)"])
    (auto dest: edge_in_nodes)

lemma successors_add_edge:
  assumes "add_edge src tgt p g = Inr g'"
  shows "successors g' u = (if u = src then successors g u @ [tgt] else successors g u)"
  using assms
  by (auto simp: add_edge_def successors_def edges_from_def store_simps
      split: if_splits option.splits)

section \<open>Cycle detection\<close>

text \<open>
  \<^verbatim>\<open>has_cycle\<close>: an iterative depth-first search with three colours. The stack holds a node and
  the index of its next outgoing edge; its top is the head of the list.
\<close>

datatype color = White | Grey | Black

definition color_at :: "(node_id \<rightharpoonup> color) \<Rightarrow> node_id \<Rightarrow> color" where
  "color_at c n = (case c n of None \<Rightarrow> White | Some x \<Rightarrow> x)"

definition edge_targets :: "('n, 'e) graph \<Rightarrow> node_id set" where
  "edge_targets g = (\<Union>(u, es) \<in> set (adjacency g). target ` set es)"

lemma finite_edge_targets: "finite (edge_targets g)"
  by (auto simp: edge_targets_def)

lemma edge_target_in: "i < length (edges_from g n) \<Longrightarrow> target (edges_from g n ! i) \<in> edge_targets g"
  by (cases "map_of (adjacency g) n")
    (force simp: edges_from_def edge_targets_def dest: map_of_SomeD)+

definition white_count :: "('n, 'e) graph \<Rightarrow> (node_id \<rightharpoonup> color) \<Rightarrow> nat" where
  "white_count g c = card {v \<in> edge_targets g. color_at c v = White}"

lemma color_at_upd [simp]: "color_at (c(n \<mapsto> x)) m = (if m = n then x else color_at c m)"
  by (simp add: color_at_def)

lemma white_count_le: "x \<noteq> White \<Longrightarrow> white_count g (c(n \<mapsto> x)) \<le> white_count g c"
  unfolding white_count_def
  by (rule card_mono) (auto simp: finite_edge_targets)

lemma white_count_less:
  assumes "n \<in> edge_targets g" and "color_at c n = White" and "x \<noteq> White"
  shows "white_count g (c(n \<mapsto> x)) < white_count g c"
  unfolding white_count_def using assms
  by (intro psubset_card_mono) (auto simp: finite_edge_targets)

function (sequential) cycle_walk ::
    "('n, 'e) graph \<Rightarrow> (node_id \<rightharpoonup> color) \<Rightarrow> (node_id \<times> nat) list \<Rightarrow> bool \<times> (node_id \<rightharpoonup> color)"
where
  "cycle_walk g c [] = (False, c)"
| "cycle_walk g c ((n, i) # st) =
     (let es = edges_from g n in
      if length es \<le> i then cycle_walk g (c(n \<mapsto> Black)) st
      else (let nxt = target (es ! i) in
        case color_at c nxt of
          Grey \<Rightarrow> (True, c)
        | White \<Rightarrow> cycle_walk g (c(nxt \<mapsto> Grey)) ((nxt, 0) # (n, Suc i) # st)
        | Black \<Rightarrow> cycle_walk g c ((n, Suc i) # st)))"
  by pat_completeness auto
termination
proof (relation "measures [\<lambda>(g, c, st). white_count g c,
      \<lambda>(g, c, st). (\<Sum>(n, i) \<leftarrow> st. length (edges_from g n) - i), \<lambda>(g, c, st). length st]",
    goal_cases)
  case (2 g c n i st es)
  then show ?case using white_count_le [of Black g c n] by (auto simp: le_less)
next
  case (3 g c n i st es nxt)
  then show ?case using white_count_less [of "target (es ! i)" g c Grey] edge_target_in [of i g n]
    by simp
next
  case (4 g c n i st es nxt)
  then show ?case by simp
qed simp

fun cycle_from_starts ::
    "('n, 'e) graph \<Rightarrow> (node_id \<rightharpoonup> color) \<Rightarrow> node_id list \<Rightarrow> bool" where
  "cycle_from_starts g c [] = False"
| "cycle_from_starts g c (s # ss) =
     (if color_at c s \<noteq> White then cycle_from_starts g c ss
      else (case cycle_walk g (c(s \<mapsto> Grey)) [(s, 0)] of
              (True, _) \<Rightarrow> True
            | (False, c') \<Rightarrow> cycle_from_starts g c' ss))"

definition has_cycle :: "('n, 'e) graph \<Rightarrow> bool" where
  "has_cycle g = cycle_from_starts g (\<lambda>n. map_option (\<lambda>_. White) (map_of (nodes g) n)) (node_ids g)"

subsection \<open>The search decides cyclicity\<close>

text \<open>
  Each stack entry has an edge to the entry above it, and every edge it has already looked at
  leads to a black node or to the entry above.
\<close>

fun stack_ok ::
    "('n, 'e) graph \<Rightarrow> (node_id \<rightharpoonup> color) \<Rightarrow> node_id option \<Rightarrow> (node_id \<times> nat) list \<Rightarrow> bool" where
  "stack_ok g c up [] = True"
| "stack_ok g c up ((n, i) # st) \<longleftrightarrow>
     (\<forall>k < i. k < length (edges_from g n) \<longrightarrow>
        color_at c (target (edges_from g n ! k)) = Black \<or>
        up = Some (target (edges_from g n ! k))) \<and>
     (\<forall>m. up = Some m \<longrightarrow> (n, m) \<in> edge_rel g) \<and>
     stack_ok g c (Some n) st"

text \<open>Black nodes are finished: all they reach is black, and none lies on a cycle.\<close>

definition black_ok :: "('n, 'e) graph \<Rightarrow> (node_id \<rightharpoonup> color) \<Rightarrow> bool" where
  "black_ok g c \<longleftrightarrow> (\<forall>b. color_at c b = Black \<longrightarrow>
     (\<forall>v. (b, v) \<in> edge_rel g \<longrightarrow> color_at c v = Black) \<and> (b, b) \<notin> (edge_rel g)\<^sup>+)"

definition cycle_inv ::
    "('n, 'e) graph \<Rightarrow> (node_id \<rightharpoonup> color) \<Rightarrow> (node_id \<times> nat) list \<Rightarrow> bool" where
  "cycle_inv g c st \<longleftrightarrow> stack_ok g c None st \<and> black_ok g c \<and> distinct (map fst st) \<and>
     (\<forall>n. color_at c n = Grey \<longleftrightarrow> n \<in> fst ` set st)"

lemma edge_rel_nth: "i < length (edges_from g n) \<Longrightarrow> (n, target (edges_from g n ! i)) \<in> edge_rel g"
  by (auto simp: edge_rel_def successors_def)

lemma edge_rel_obtain:
  assumes "(n, v) \<in> edge_rel g"
  obtains k where "k < length (edges_from g n)" "v = target (edges_from g n ! k)"
  using assms by (auto simp: edge_rel_def successors_def in_set_conv_nth)

lemma black_reach: "(b, v) \<in> (edge_rel g)\<^sup>* \<Longrightarrow> black_ok g c \<Longrightarrow> color_at c b = Black \<Longrightarrow> color_at c v = Black"
  by (induction rule: rtrancl_induct) (auto simp: black_ok_def)

lemma stack_ok_recolor:
  "stack_ok g c up st \<Longrightarrow> (\<And>v. color_at c v = Black \<Longrightarrow> color_at c' v = Black) \<Longrightarrow> stack_ok g c' up st"
  by (induction st arbitrary: up) fastforce+

lemma stack_reaches_top:
  "stack_ok g c up ((n, i) # st) \<Longrightarrow> m \<in> fst ` set ((n, i) # st) \<Longrightarrow> (m, n) \<in> (edge_rel g)\<^sup>*"
proof (induction st arbitrary: up n i)
  case (Cons e st)
  obtain n' i' where e: "e = (n', i')" by force
  show ?case
  proof (cases "m = n")
    case False
    with Cons e have "(m, n') \<in> (edge_rel g)\<^sup>*" and "(n', n) \<in> edge_rel g" by auto
    then show ?thesis by simp
  qed simp
qed simp

lemma stack_ok_pop:
  assumes "stack_ok g c (Some n) st" and "color_at c' n = Black"
    and "\<And>v. color_at c v = Black \<Longrightarrow> color_at c' v = Black"
  shows "stack_ok g c' None st"
proof (cases st)
  case (Cons e st')
  obtain m j where "e = (m, j)" by force
  with Cons assms show ?thesis
    using stack_ok_recolor [of g c "Some m" st' c'] by fastforce
qed simp

lemma black_ok_finish:
  assumes "black_ok g c" and succs: "\<And>v. (n, v) \<in> edge_rel g \<Longrightarrow> color_at c v = Black"
    and "color_at c n \<noteq> Black"
  shows "black_ok g (c(n \<mapsto> Black))"
proof -
  have "(n, n) \<notin> (edge_rel g)\<^sup>+"
  proof
    assume "(n, n) \<in> (edge_rel g)\<^sup>+"
    then obtain v where "(n, v) \<in> edge_rel g" "(v, n) \<in> (edge_rel g)\<^sup>*" by (meson tranclD)
    with succs black_reach assms(1) have "color_at c n = Black" by metis
    with assms(3) show False ..
  qed
  with assms show ?thesis by (auto simp: black_ok_def)
qed

text \<open>What a call of the walk promises: a cycle it reports exists, and otherwise it finishes
  everything it has coloured.\<close>

definition walk_post ::
    "('n, 'e) graph \<Rightarrow> (node_id \<rightharpoonup> color) \<Rightarrow> bool \<times> (node_id \<rightharpoonup> color) \<Rightarrow> bool" where
  "walk_post g c r \<longleftrightarrow> (fst r \<longrightarrow> \<not> acyclic (edge_rel g)) \<and>
    (\<not> fst r \<longrightarrow> cycle_inv g (snd r) [] \<and>
      (\<forall>v. color_at c v \<noteq> White \<longrightarrow> color_at (snd r) v \<noteq> White))"

lemma walk_post_weaken:
  "walk_post g c' r \<Longrightarrow> (\<And>v. color_at c v \<noteq> White \<Longrightarrow> color_at c' v \<noteq> White) \<Longrightarrow> walk_post g c r"
  by (auto simp: walk_post_def)

lemma cycle_walk_correct: "cycle_inv g c st \<Longrightarrow> walk_post g c (cycle_walk g c st)"
proof (induction g c st rule: cycle_walk.induct)
  case (1 g c)
  then show ?case by (simp add: walk_post_def)
next
  case (2 g c n i st)
  let ?es = "edges_from g n"
  have inv: "stack_ok g c None ((n, i) # st)" "black_ok g c" "distinct (map fst ((n, i) # st))"
    "\<And>m. color_at c m = Grey \<longleftrightarrow> m \<in> fst ` set ((n, i) # st)"
    using "2.prems" by (auto simp: cycle_inv_def)
  have grey: "color_at c n = Grey" using inv(4) by simp
  show ?case
  proof (cases "length ?es \<le> i")
    case True
    let ?c = "c(n \<mapsto> Black)"
    have "color_at c v = Black" if "(n, v) \<in> edge_rel g" for v
      using that True inv(1) by (auto elim!: edge_rel_obtain)
    then have "black_ok g ?c" using inv(2) grey by (intro black_ok_finish) auto
    moreover have "stack_ok g ?c None st"
      using inv(1) by (intro stack_ok_pop [of g c n]) auto
    ultimately have "cycle_inv g ?c st"
      using inv(3,4) by (auto simp: cycle_inv_def)
    then have "walk_post g ?c (cycle_walk g ?c st)" by (rule "2.IH"(1) [OF refl True])
    then have "walk_post g c (cycle_walk g ?c st)" by (rule walk_post_weaken) simp
    with True show ?thesis by simp
  next
    case False
    let ?nxt = "target (?es ! i)"
    have edge: "(n, ?nxt) \<in> edge_rel g" using False by (intro edge_rel_nth) simp
    show ?thesis
    proof (cases "color_at c ?nxt")
      case Grey
      then have "(?nxt, n) \<in> (edge_rel g)\<^sup>*"
        using stack_reaches_top [OF inv(1)] inv(4) by blast
      with edge have "(n, n) \<in> (edge_rel g)\<^sup>+" by (meson rtrancl_into_trancl2)
      then have "\<not> acyclic (edge_rel g)" by (auto simp: acyclic_def)
      with False Grey show ?thesis by (simp add: Let_def walk_post_def)
    next
      case White
      let ?c = "c(?nxt \<mapsto> Grey)" and ?st = "(?nxt, 0) # (n, Suc i) # st"
      have black: "color_at ?c v = Black" if "color_at c v = Black" for v
        using that White by auto
      have "stack_ok g ?c None ?st"
        using inv(1) edge black stack_ok_recolor [of g c "Some n" st ?c]
        by (auto simp: less_Suc_eq simp del: color_at_upd)
      moreover have "black_ok g ?c" using inv(2) White by (fastforce simp: black_ok_def)
      moreover have "?nxt \<notin> fst ` set ((n, i) # st)"
        using White inv(4) by (metis color.distinct(1))
      ultimately have "cycle_inv g ?c ?st"
        using inv(3,4) White by (auto simp: cycle_inv_def)
      then have "walk_post g ?c (cycle_walk g ?c ?st)" by (rule "2.IH"(2) [OF refl False refl White])
      then have "walk_post g c (cycle_walk g ?c ?st)" by (rule walk_post_weaken) simp
      with False White show ?thesis by (simp add: Let_def)
    next
      case Black
      then have "stack_ok g c None ((n, Suc i) # st)" using inv(1) by (auto simp: less_Suc_eq)
      with inv have "cycle_inv g c ((n, Suc i) # st)" by (auto simp: cycle_inv_def)
      then have "walk_post g c (cycle_walk g c ((n, Suc i) # st))"
        by (rule "2.IH"(3) [OF refl False refl Black])
      with False Black show ?thesis by (simp add: Let_def)
    qed
  qed
qed

lemma cycle_from_starts_correct:
  assumes "cycle_inv g c []"
    and "\<forall>u v. (u, v) \<in> edge_rel g \<longrightarrow> u \<in> set ss \<or> color_at c u = Black"
  shows "cycle_from_starts g c ss \<longleftrightarrow> \<not> acyclic (edge_rel g)"
  using assms
proof (induction ss arbitrary: c)
  case Nil
  have "(b, b) \<notin> (edge_rel g)\<^sup>+" for b
  proof
    assume b: "(b, b) \<in> (edge_rel g)\<^sup>+"
    then obtain v where "(b, v) \<in> edge_rel g" by (meson tranclD)
    with Nil have "color_at c b = Black" by auto
    with Nil b show False by (auto simp: cycle_inv_def black_ok_def)
  qed
  then show ?case by (simp add: acyclic_def)
next
  case (Cons s ss)
  have black: "color_at c v \<noteq> White \<Longrightarrow> color_at c v = Black" for v
    using Cons.prems(1) by (cases "color_at c v") (auto simp: cycle_inv_def)
  show ?case
  proof (cases "color_at c s = White")
    case False
    with Cons black show ?thesis by auto
  next
    case True
    let ?c = "c(s \<mapsto> Grey)"
    have "black_ok g ?c" using Cons.prems(1) True by (fastforce simp: cycle_inv_def black_ok_def)
    then have inv: "cycle_inv g ?c [(s, 0)]"
      using Cons.prems(1) by (auto simp: cycle_inv_def)
    obtain found c' where walk: "cycle_walk g ?c [(s, 0)] = (found, c')" by force
    show ?thesis
    proof (cases found)
      case True
      with cycle_walk_correct [OF inv] walk \<open>color_at c s = White\<close> show ?thesis
        by (simp add: walk_post_def)
    next
      case False
      with cycle_walk_correct [OF inv] walk have inv': "cycle_inv g c' []"
        and grow: "\<And>v. color_at ?c v \<noteq> White \<Longrightarrow> color_at c' v \<noteq> White"
        by (simp_all add: walk_post_def)
      have black': "color_at c' v \<noteq> White \<Longrightarrow> color_at c' v = Black" for v
        using inv' by (cases "color_at c' v") (auto simp: cycle_inv_def)
      have "u \<in> set ss \<or> color_at c' u = Black" if "(u, v) \<in> edge_rel g" for u v
        using that Cons.prems(2) grow [of u] black' [of u] by auto
      with Cons.IH [OF inv'] walk False True show ?thesis by simp
    qed
  qed
qed

text \<open>Whatever the iteration order of the node map, \<open>has_cycle\<close> decides cyclicity.\<close>

lemma has_cycle_iff: "wf_graph g \<Longrightarrow> has_cycle g \<longleftrightarrow> \<not> acyclic (edge_rel g)"
  unfolding has_cycle_def
proof (rule cycle_from_starts_correct)
  show "cycle_inv g (\<lambda>n. map_option (\<lambda>_. White) (map_of (nodes g) n)) []"
    by (auto simp: cycle_inv_def black_ok_def color_at_def split: option.splits)
qed (auto dest: edge_in_nodes)

section \<open>Topological order\<close>

text \<open>
  \<^verbatim>\<open>topological_order\<close>, Kahn's algorithm. \<open>None\<close> stands for a panic: the \<^verbatim>\<open>unwrap\<close> of a
  missing in-degree or the subtraction that would leave the range of \<^verbatim>\<open>usize\<close>.
\<close>

definition bump_indegree :: "(node_id \<times> nat) list \<Rightarrow> 'e edge \<Rightarrow> (node_id \<times> nat) list" where
  "bump_indegree d e =
     hm_put (target e) ((case map_of d (target e) of None \<Rightarrow> 0 | Some n \<Rightarrow> n) + 1) d"

definition indegrees :: "('n, 'e) graph \<Rightarrow> (node_id \<times> nat) list" where
  "indegrees g = foldl (\<lambda>d (_, es). foldl bump_indegree d es)
     (map (\<lambda>(n, _). (n, 0)) (nodes g)) (adjacency g)"

fun relax_edges ::
    "'e edge list \<Rightarrow> (node_id \<times> nat) list \<Rightarrow> node_id list \<Rightarrow> ((node_id \<times> nat) list \<times> node_id list) option"
where
  "relax_edges [] d q = Some (d, q)"
| "relax_edges (e # es) d q =
     (case map_of d (target e) of
        None \<Rightarrow> None
      | Some 0 \<Rightarrow> None
      | Some (Suc n) \<Rightarrow>
          relax_edges es (hm_put (target e) n d) (if n = 0 then q @ [target e] else q))"

function (sequential) kahn_loop ::
    "('n, 'e) graph \<Rightarrow> (node_id \<times> nat) list \<Rightarrow> node_id list \<Rightarrow> node_id set \<Rightarrow> node_id list
      \<Rightarrow> node_id list option"
where
  "kahn_loop g d [] visited order = Some order"
| "kahn_loop g d (n # ready) visited order =
     (if n \<in> visited then kahn_loop g d ready visited order
      else (case relax_edges (edges_from g n) d ready of
              None \<Rightarrow> None
            | Some (d', ready') \<Rightarrow> kahn_loop g d' ready' (insert n visited) (order @ [n])))"
  by pat_completeness auto
termination
proof (relation "measures [\<lambda>(g, d, ready, visited, order). card (fst ` set (adjacency g) - visited),
      \<lambda>(g, d, ready, visited, order). length ready]", goal_cases)
  case (3 g d n ready visited order r d' ready')
  show ?case
  proof (cases "n \<in> fst ` set (adjacency g)")
    case True
    with 3 have "fst ` set (adjacency g) - insert n visited \<subset> fst ` set (adjacency g) - visited"
      by blast
    then have "card (fst ` set (adjacency g) - insert n visited) < card (fst ` set (adjacency g) - visited)"
      by (intro psubset_card_mono) auto
    then show ?thesis by simp
  next
    case False
    then have "edges_from g n = []"
      by (metis edges_from_def map_of_eq_None_iff option.simps(4))
    moreover have "fst ` set (adjacency g) - insert n visited = fst ` set (adjacency g) - visited"
      using False by blast
    ultimately show ?thesis using 3 by auto
  qed
qed auto

definition topological_order :: "('n, 'e) graph \<Rightarrow> (graph_error + node_id list) option" where
  "topological_order g =
     (let d = indegrees g; ready = map fst (filter (\<lambda>(_, k). k = 0) d) in
      case kahn_loop g d ready {} [] of
        None \<Rightarrow> None
      | Some order \<Rightarrow>
          Some (if length order \<noteq> length (nodes g) then Inl Cycle else Inr order))"

subsection \<open>In-degrees\<close>

lemma map_of_bump_indegree:
  "map_of (bump_indegree d e) v =
     (if v = target e then Some (Suc (case map_of d v of None \<Rightarrow> 0 | Some n \<Rightarrow> n)) else map_of d v)"
  by (simp add: bump_indegree_def store_simps)

lemma map_of_bump_indegrees:
  "map_of (foldl bump_indegree d es) v =
     (case map_of d v of
        Some n \<Rightarrow> Some (n + count_list (map target es) v)
      | None \<Rightarrow> if v \<in> target ` set es then Some (count_list (map target es) v) else None)"
proof (induction es arbitrary: d)
  case Nil
  then show ?case by (simp split: option.split)
next
  case (Cons e es)
  have "v \<notin> target ` set es \<Longrightarrow> count_list (map target es) v = 0"
    by (simp add: count_list_0_iff)
  then show ?case
    by (auto simp: Cons.IH map_of_bump_indegree split: option.split)
qed

definition edges_into :: "('n, 'e) graph \<Rightarrow> node_id set \<Rightarrow> node_id \<Rightarrow> nat" where
  "edges_into g us v = (\<Sum>u \<in> us. count_list (successors g u) v)"

lemma edges_into_0: "finite us \<Longrightarrow> edges_into g us v = 0 \<longleftrightarrow> (\<forall>u \<in> us. (u, v) \<notin> edge_rel g)"
  by (simp add: edges_into_def edge_rel_def count_list_0_iff)

lemma map_of_indegree_fold:
  "map_of (foldl (\<lambda>d (_, es). foldl bump_indegree d es) d adj) v = Some n \<Longrightarrow> map_of d v = Some k \<Longrightarrow>
     n = k + (\<Sum>(u, es) \<leftarrow> adj. count_list (map target es) v)"
proof (induction adj arbitrary: d k)
  case (Cons a adj)
  obtain u es where a: "a = (u, es)" by force
  have "map_of (foldl bump_indegree d es) v = Some (k + count_list (map target es) v)"
    using Cons.prems(2) by (simp add: map_of_bump_indegrees)
  with Cons a show ?case by fastforce
qed simp

lemma dom_indegree_fold:
  "dom (map_of (foldl (\<lambda>d (_, es). foldl bump_indegree d es) d adj)) =
     dom (map_of d) \<union> (\<Union>(u, es) \<in> set adj. target ` set es)"
proof (induction adj arbitrary: d)
  case (Cons a adj)
  obtain u es where a: "a = (u, es)" by force
  have "dom (map_of (foldl bump_indegree d es)) = dom (map_of d) \<union> target ` set es"
    by (auto simp: map_of_bump_indegrees dom_def split: option.splits)
  then show ?case by (auto simp: Cons.IH a)
qed simp

lemma successors_of_entry:
  "wf_graph g \<Longrightarrow> (u, es) \<in> set (adjacency g) \<Longrightarrow> successors g u = map target es"
  by (simp add: successors_def edges_from_def wf_graph_def)

lemma adjacency_sum:
  assumes "wf_graph g"
  shows "(\<Sum>(u, es) \<leftarrow> adjacency g. count_list (map target es) v) = edges_into g (set (node_ids g)) v"
proof -
  let ?f = "\<lambda>u. count_list (successors g u) v"
  have "(\<Sum>(u, es) \<leftarrow> adjacency g. count_list (map target es) v) = (\<Sum>u \<leftarrow> map fst (adjacency g). ?f u)"
    using assms by (auto simp: successors_of_entry o_def intro!: arg_cong [where f = sum_list])
  also have "\<dots> = (\<Sum>u \<in> set (map fst (adjacency g)). ?f u)"
    using assms by (intro sum_list_distinct_conv_sum_set) (simp add: wf_graph_def)
  also have "set (map fst (adjacency g)) = set (node_ids g)"
    using assms by (simp add: wf_graph_def node_ids_def dom_map_of_conv_image_fst)
  finally show ?thesis by (simp add: edges_into_def)
qed

lemma map_of_zeroes: "map_of (map (\<lambda>(n, _). (n, 0)) m) v = (if v \<in> fst ` set m then Some (0::nat) else None)"
  by (induction m) auto

lemma indegrees_spec:
  assumes wf: "wf_graph g"
  shows "dom (map_of (indegrees g)) = set (node_ids g)"
    and "v \<in> set (node_ids g) \<Longrightarrow> map_of (indegrees g) v = Some (edges_into g (set (node_ids g)) v)"
proof -
  let ?d = "map (\<lambda>(n, _). (n, 0::nat)) (nodes g)"
  have "(\<Union>(u, es) \<in> set (adjacency g). target ` set es) \<subseteq> set (node_ids g)"
  proof (clarsimp)
    fix u es e
    assume "(u, es) \<in> set (adjacency g)" "e \<in> set es"
    with wf have "(u, target e) \<in> edge_rel g" by (simp add: edge_rel_def successors_of_entry)
    with wf show "target e \<in> set (node_ids g)" by (auto dest: edge_in_nodes)
  qed
  moreover have "dom (map_of ?d) = set (node_ids g)"
    by (simp add: set_eq_iff domIff map_of_zeroes node_ids_def)
  ultimately show dom: "dom (map_of (indegrees g)) = set (node_ids g)"
    by (auto simp: indegrees_def dom_indegree_fold)
  assume v: "v \<in> set (node_ids g)"
  with dom obtain n where n: "map_of (indegrees g) v = Some n" by blast
  moreover from v have "map_of ?d v = Some 0" by (simp add: map_of_zeroes node_ids_def)
  ultimately have "n = (\<Sum>(u, es) \<leftarrow> adjacency g. count_list (map target es) v)"
    unfolding indegrees_def by (metis add_0 map_of_indegree_fold)
  with n show "map_of (indegrees g) v = Some (edges_into g (set (node_ids g)) v)"
    by (simp add: adjacency_sum [OF wf])
qed

subsection \<open>The loop computes a topological order\<close>

lemma relax_edges_spec:
  assumes "\<And>v. v \<in> target ` set es \<Longrightarrow> \<exists>n. map_of d v = Some n \<and> count_list (map target es) v \<le> n"
  shows "\<exists>d' q'. relax_edges es d q = Some (d', q') \<and>
    (\<forall>v. map_of d' v = map_option (\<lambda>n. n - count_list (map target es) v) (map_of d v)) \<and>
    set q' = set q \<union> {v \<in> target ` set es. map_of d' v = Some 0}"
  using assms
proof (induction es arbitrary: d q)
  case Nil
  then show ?case by (simp add: option.map_ident)
next
  case (Cons e es)
  let ?t = "target e"
  from Cons.prems [of ?t] obtain m where m: "map_of d ?t = Some (Suc m)" "count_list (map target es) ?t \<le> m"
    by (auto simp: Suc_le_eq dest!: less_imp_Suc_add)
  let ?d = "hm_put ?t m d" and ?q = "if m = 0 then q @ [?t] else q"
  have "\<exists>n. map_of ?d v = Some n \<and> count_list (map target es) v \<le> n" if "v \<in> target ` set es" for v
    using that Cons.prems [of v] m by (auto simp: store_simps)
  from Cons.IH [of ?d ?q, OF this] obtain d' q' where
    IH: "relax_edges es ?d ?q = Some (d', q')"
      "\<And>v. map_of d' v = map_option (\<lambda>n. n - count_list (map target es) v) (map_of ?d v)"
      "set q' = set ?q \<union> {v \<in> target ` set es. map_of d' v = Some 0}" by blast
  have "map_of d' v = map_option (\<lambda>n. n - count_list (map target (e # es)) v) (map_of d v)" for v
    using IH(2) [of v] m by (auto simp: store_simps)
  moreover have "set q' = set q \<union> {v \<in> target ` set (e # es). map_of d' v = Some 0}"
  proof -
    have "?t \<in> target ` set es \<or> (map_of d' ?t = Some 0) = (m = 0)"
      using IH(2) [of ?t] by (auto simp: store_simps count_list_0_iff [THEN iffD2])
    moreover have "m = 0 \<Longrightarrow> map_of d' ?t = Some 0"
      using IH(2) [of ?t] by (simp add: store_simps)
    ultimately show ?thesis using IH(3) by auto
  qed
  ultimately show ?case using IH(1) m by auto
qed

text \<open>Every predecessor of an element comes before it.\<close>

definition topo_sorted :: "(node_id \<times> node_id) set \<Rightarrow> node_id list \<Rightarrow> bool" where
  "topo_sorted r vs \<longleftrightarrow> (\<forall>xs v ys. vs = xs @ v # ys \<longrightarrow> (\<forall>u. (u, v) \<in> r \<longrightarrow> u \<in> set xs))"

lemma topo_sorted_snoc:
  "topo_sorted r vs \<Longrightarrow> (\<And>u. (u, v) \<in> r \<Longrightarrow> u \<in> set vs) \<Longrightarrow> topo_sorted r (vs @ [v])"
  unfolding topo_sorted_def
  by (metis append_butlast_last_id butlast.simps(2) butlast_append last_snoc list.distinct(1)
      snoc_eq_iff_butlast)

lemma takeWhile_neq: "x \<notin> set xs \<Longrightarrow> takeWhile (\<lambda>y. y \<noteq> x) (xs @ x # ys) = xs"
  by (induction xs) auto

lemma topo_sorted_acyclic:
  assumes "topo_sorted r vs" and fld: "snd ` r \<subseteq> set vs"
  shows "acyclic r"
proof -
  let ?ix = "\<lambda>v. length (takeWhile (\<lambda>x. x \<noteq> v) vs)"
  have "?ix u < ?ix v" if "(u, v) \<in> r" for u v
  proof -
    from that fld have "v \<in> set vs" by force
    then obtain xs ys where vs: "vs = xs @ v # ys" "v \<notin> set xs" by (meson split_list_first)
    with assms(1) that have "u \<in> set xs" unfolding topo_sorted_def by blast
    then obtain as bs where xs: "xs = as @ u # bs" "u \<notin> set as" by (meson split_list_first)
    have "?ix v = length xs" using vs by (simp add: takeWhile_neq)
    moreover have "?ix u = length as" using vs(1) xs by (simp add: takeWhile_neq)
    ultimately show ?thesis using xs(1) by simp
  qed
  then have "r \<subseteq> measure ?ix" by auto
  then show ?thesis by (meson wf_acyclic wf_measure wf_subset)
qed

definition kahn_inv ::
    "('n, 'e) graph \<Rightarrow> (node_id \<times> nat) list \<Rightarrow> node_id list \<Rightarrow> node_id set \<Rightarrow> node_id list \<Rightarrow> bool"
where
  "kahn_inv g d ready visited order \<longleftrightarrow>
     set order = visited \<and> distinct order \<and> visited \<subseteq> set (node_ids g) \<and> set ready \<subseteq> set (node_ids g) \<and>
     dom (map_of d) = set (node_ids g) \<and>
     (\<forall>v \<in> set (node_ids g). map_of d v = Some (edges_into g (set (node_ids g) - visited) v)) \<and>
     (\<forall>v \<in> set (node_ids g) - visited. v \<in> set ready \<longleftrightarrow> map_of d v = Some 0) \<and>
     (\<forall>v \<in> set ready. map_of d v = Some 0) \<and> topo_sorted (edge_rel g) order"

lemma kahn_step:
  assumes wf: "wf_graph g" and inv: "kahn_inv g d (n # ready) visited order" and new: "n \<notin> visited"
  shows "\<exists>d' ready'. relax_edges (edges_from g n) d ready = Some (d', ready') \<and>
    kahn_inv g d' ready' (insert n visited) (order @ [n])"
proof -
  let ?N = "set (node_ids g)"
  note I = inv [unfolded kahn_inv_def]
  have order: "set order = visited" "distinct order" "visited \<subseteq> ?N" "n \<in> ?N" "set ready \<subseteq> ?N"
    "topo_sorted (edge_rel g) order" "dom (map_of d) = ?N" using I by simp_all
  have deg: "map_of d v = Some (edges_into g (?N - visited) v)" if "v \<in> ?N" for v
    using I that by blast
  have queued: "v \<in> set (n # ready) \<longleftrightarrow> map_of d v = Some 0" if "v \<in> ?N - visited" for v
    using I that by blast
  have zero: "map_of d v = Some 0" if "v \<in> set (n # ready)" for v
    using I that by blast
  have split: "edges_into g (?N - visited) v = count_list (successors g n) v + edges_into g (?N - insert n visited) v" for v
  proof -
    have "?N - insert n visited = (?N - visited) - {n}" by blast
    with order(4) new show ?thesis by (simp add: edges_into_def sum.remove)
  qed
  have "\<exists>k. map_of d v = Some k \<and> count_list (map target (edges_from g n)) v \<le> k"
    if "v \<in> target ` set (edges_from g n)" for v
  proof -
    from that have "(n, v) \<in> edge_rel g" by (simp add: edge_rel_def successors_def)
    with wf have "v \<in> ?N" by (rule edge_in_nodes)
    with deg split show ?thesis by (simp add: successors_def)
  qed
  from relax_edges_spec [where es = "edges_from g n" and d = d and q = ready, OF this]
  obtain d' ready' where
    R1: "relax_edges (edges_from g n) d ready = Some (d', ready')" and
    R2: "\<forall>v. map_of d' v =
      map_option (\<lambda>k. k - count_list (map target (edges_from g n)) v) (map_of d v)" and
    R3: "set ready' = set ready \<union> {v \<in> target ` set (edges_from g n). map_of d' v = Some 0}"
    by blast
  have R2: "map_of d' v = map_option (\<lambda>k. k - count_list (successors g n) v) (map_of d v)" for v
    using R2 by (simp add: successors_def)
  have d': "map_of d' v = Some (edges_into g (?N - insert n visited) v)" if "v \<in> ?N" for v
    using that R2 [of v] deg [of v] split [of v] by simp
  have targets: "target ` set (edges_from g n) \<subseteq> ?N"
    using wf by (auto simp: edge_rel_def successors_def dest!: edge_in_nodes(2) [of g n])
  have mono: "map_of d v = Some 0 \<Longrightarrow> map_of d' v = Some 0" for v
    using R2 [of v] by simp
  have preds: "u \<in> set order" if "(u, n) \<in> edge_rel g" for u
  proof -
    have "edges_into g (?N - visited) n = 0" using zero [of n] deg [OF order(4)] by simp
    with that wf order(1) show ?thesis by (auto simp: edges_into_0 dest: edge_in_nodes)
  qed
  have ready': "v \<in> set ready' \<longleftrightarrow> map_of d' v = Some 0" if "v \<in> ?N - insert n visited" for v
  proof
    assume "v \<in> set ready'"
    then show "map_of d' v = Some 0" using R3 zero mono by auto
  next
    assume d'0: "map_of d' v = Some 0"
    show "v \<in> set ready'"
    proof (cases "v \<in> target ` set (edges_from g n)")
      case True
      with d'0 R3 show ?thesis by simp
    next
      case False
      then have "count_list (successors g n) v = 0" by (simp add: successors_def count_list_0_iff)
      with d'0 R2 [of v] have "map_of d v = Some 0" by auto
      with queued [of v] that have "v \<in> set ready" by auto
      with R3 show ?thesis by simp
    qed
  qed
  have "dom (map_of d') = ?N" using order(7) R2 by (auto simp: dom_def)
  moreover have "\<forall>v \<in> set ready'. map_of d' v = Some 0" using R3 zero mono by auto
  moreover have "set ready' \<subseteq> ?N" using R3 order(5) targets by auto
  moreover have "topo_sorted (edge_rel g) (order @ [n])"
    using order(6) preds by (intro topo_sorted_snoc)
  ultimately have "kahn_inv g d' ready' (insert n visited) (order @ [n])"
    using order(1-4) new d' ready' by (auto simp: kahn_inv_def)
  with R1 show ?thesis by blast
qed

lemma kahn_loop_correct:
  assumes "wf_graph g" and "kahn_inv g d ready visited order"
  shows "\<exists>order' d'. kahn_loop g d ready visited order = Some order' \<and> kahn_inv g d' [] (set order') order'"
  using assms
proof (induction g d ready visited order rule: kahn_loop.induct)
  case (1 g d visited order)
  then show ?case by (auto simp: kahn_inv_def)
next
  case (2 g d n ready visited order)
  show ?case
  proof (cases "n \<in> visited")
    case True
    with "2.prems"(2) have "kahn_inv g d ready visited order" by (auto simp: kahn_inv_def)
    with "2.IH"(1) [OF True "2.prems"(1)] True show ?thesis by simp
  next
    case False
    from kahn_step [OF "2.prems" False] obtain d' ready' where
      R: "relax_edges (edges_from g n) d ready = Some (d', ready')"
        "kahn_inv g d' ready' (insert n visited) (order @ [n])" by blast
    from "2.IH"(2) [OF False R(1) refl "2.prems"(1) R(2)] R(1) False show ?thesis by simp
  qed
qed

lemma no_source_cyclic:
  assumes "finite r" and "a \<in> A" and "\<And>v. v \<in> A \<Longrightarrow> \<exists>u \<in> A. (u, v) \<in> r"
  shows "\<not> acyclic r"
proof
  assume "acyclic r"
  with assms(1) have "wf r" by (rule finite_acyclic_wf)
  with assms(2) obtain z where "z \<in> A" "\<And>y. (y, z) \<in> r \<Longrightarrow> y \<notin> A" by (metis wfE_min)
  with assms(3) show False by blast
qed

lemma topological_order_correct:
  assumes wf: "wf_graph g"
  shows "\<exists>r. topological_order g = Some r \<and>
    (case r of
       Inl e \<Rightarrow> e = Cycle \<and> \<not> acyclic (edge_rel g)
     | Inr order \<Rightarrow> acyclic (edge_rel g) \<and> distinct order \<and> set order = set (node_ids g) \<and>
         topo_sorted (edge_rel g) order)"
proof -
  let ?N = "set (node_ids g)" and ?d = "indegrees g"
  let ?ready = "map fst (filter (\<lambda>(_, k). k = 0) ?d)"
  have dist: "distinct (map fst ?d)"
  proof -
    have "distinct (map fst (foldl bump_indegree d es))" if "distinct (map fst d)" for d and es :: "'b edge list"
      using that by (induction es arbitrary: d) (auto simp: bump_indegree_def intro!: distinct_hm_put)
    then have "distinct (map fst (foldl (\<lambda>d (_, es). foldl bump_indegree d es) d adj))"
      if "distinct (map fst d)" for d and adj :: "(node_id \<times> 'b edge list) list"
      using that by (induction adj arbitrary: d) auto
    moreover have "map fst (map (\<lambda>(n, _). (n, 0::nat)) (nodes g)) = map fst (nodes g)" by auto
    ultimately show ?thesis using wf unfolding indegrees_def wf_graph_def by metis
  qed
  have ready: "v \<in> set ?ready \<longleftrightarrow> map_of ?d v = Some 0" for v
    using dist by (force dest: map_of_SomeD intro: map_of_is_SomeI)
  have "kahn_inv g ?d ?ready {} []"
    unfolding kahn_inv_def using indegrees_spec [OF wf] ready
    by (auto simp: topo_sorted_def domI simp del: set_map)
  from kahn_loop_correct [OF wf this] obtain order d' where
    loop: "kahn_loop g ?d ?ready {} [] = Some order" and inv: "kahn_inv g d' [] (set order) order" by blast
  have order: "distinct order" "set order \<subseteq> ?N" "topo_sorted (edge_rel g) order"
    using inv by (auto simp: kahn_inv_def)
  have len: "length order = length (nodes g) \<longleftrightarrow> set order = ?N"
  proof -
    have "card ?N = length (nodes g)"
      using wf by (metis distinct_card length_map node_ids_def wf_graph_def)
    then show ?thesis using order(1,2) by (metis List.finite_set card_subset_eq distinct_card)
  qed
  show ?thesis
  proof (cases "set order = ?N")
    case True
    then have "snd ` edge_rel g \<subseteq> set order" using wf by (auto dest: edge_in_nodes)
    with order(3) have "acyclic (edge_rel g)" by (rule topo_sorted_acyclic)
    with True loop len order show ?thesis by (simp add: topological_order_def Let_def)
  next
    case False
    with order(2) obtain a where a: "a \<in> ?N - set order" by blast
    have "\<exists>u \<in> ?N - set order. (u, v) \<in> edge_rel g" if "v \<in> ?N - set order" for v
    proof -
      from inv that have "edges_into g (?N - set order) v \<noteq> 0" by (auto simp: kahn_inv_def)
      then show ?thesis by (auto simp: edges_into_0)
    qed
    with a finite_edge_rel [OF wf] have "\<not> acyclic (edge_rel g)"
      by (intro no_source_cyclic [of "edge_rel g" a "?N - set order"])
    with False loop len show ?thesis by (simp add: topological_order_def Let_def)
  qed
qed

end
