(* ===== verification/Orchestrator.thy ===== *)
theory Orchestrator
  imports CronyGraph
begin

text \<open>
  The orchestration engine of \<^verbatim>\<open>crates/cronygraph/src/orchestration.rs\<close>: steps, transitions,
  step limits, the declared transitions and the sequential depth-first walk of
  \<^verbatim>\<open>Orchestrator::run\<close>. A step maps the state it receives by value to a transition or an error;
  the type \<open>'w\<close> is what steps share behind reference-counted cells (the engine clones the state
  at a branch, never what it points to), so it is threaded through the whole run.

  The lemmas give the walk a big-step specification (\<open>explores\<close>): the walk returns exactly what
  the specification describes, in both directions; a run with a step limit always returns; and a
  run without one returns whenever the steps descend along a rank.
\<close>

section \<open>Steps and transitions\<close>

datatype terminal_reason = Completed | Cancelled | Custom string

datatype 's transition =
  Goto 's node_id
| Branch 's "node_id list"
| Terminal 's terminal_reason

type_synonym ('s, 'w, 'e) step_fn = "'s \<Rightarrow> 'w \<Rightarrow> ('e + 's transition) \<times> 'w"

record ('s, 'w, 'e) step =
  label :: string
  execute :: "('s, 'w, 'e) step_fn"

text \<open>\<^verbatim>\<open>FnStep::new\<close> and \<^verbatim>\<open>AsyncFnStep::new\<close>: a closure as a step.\<close>

definition fn_step :: "string \<Rightarrow> ('s, 'w, 'e) step_fn \<Rightarrow> ('s, 'w, 'e) step" where
  "fn_step l f = \<lparr>label = l, execute = f\<rparr>"

record step_limits =
  max_steps :: "nat option"

definition default_limits :: step_limits where
  "default_limits = \<lparr>max_steps = Some 10000\<rparr>"

record 's run_outcome =
  final_state :: 's
  reason :: terminal_reason
  trace :: "node_id list"

datatype 'e run_error =
  GraphErr graph_error
| StepErr node_id 'e
| StepLimitExceeded nat
| InvalidNextNode node_id
| NoEntryNode

record ('s, 'w, 'e) orchestrator =
  graph :: "(('s, 'w, 'e) step, unit) graph"
  entry :: "node_id option"

definition new_orchestrator :: "('s, 'w, 'e) orchestrator" where
  "new_orchestrator = \<lparr>graph = new_graph, entry = None\<rparr>"

definition add_step :: "node_id \<Rightarrow> ('s, 'w, 'e) step \<Rightarrow> ('s, 'w, 'e) orchestrator \<Rightarrow> ('s, 'w, 'e) orchestrator" where
  "add_step nid s orc = orc\<lparr>graph := add_node nid s (graph orc)\<rparr>"

definition allow_transition ::
    "node_id \<Rightarrow> node_id \<Rightarrow> ('s, 'w, 'e) orchestrator \<Rightarrow> graph_error + ('s, 'w, 'e) orchestrator" where
  "allow_transition src tgt orc =
     (case add_edge src tgt () (graph orc) of
        Inl e \<Rightarrow> Inl e
      | Inr g \<Rightarrow> Inr (orc\<lparr>graph := g\<rparr>))"

definition set_entry :: "node_id \<Rightarrow> ('s, 'w, 'e) orchestrator \<Rightarrow> ('s, 'w, 'e) orchestrator" where
  "set_entry nid orc = orc\<lparr>entry := Some nid\<rparr>"

definition check_edge :: "('s, 'w, 'e) orchestrator \<Rightarrow> node_id \<Rightarrow> node_id \<Rightarrow> bool" where
  "check_edge orc src tgt = (tgt \<in> set (successors (graph orc) src))"

section \<open>The walk\<close>

text \<open>
  The loop of \<^verbatim>\<open>Orchestrator::run\<close> over its local variables: the state, the pending branches (the
  vector's last element, the one \<^verbatim>\<open>pop\<close> takes, is the head of the list), the current node, the
  number of visited steps and the trace. A run without a step limit may not end, so the value is
  an option: \<open>None\<close> is a run that does not return.
\<close>

text \<open>The first declared target that is not a successor fails the edge check.\<close>

definition first_bad :: "('s, 'w, 'e) orchestrator \<Rightarrow> node_id \<Rightarrow> node_id list \<Rightarrow> node_id option" where
  "first_bad orc src tgts = List.find (\<lambda>t. \<not> check_edge orc src t) tgts"

partial_function (option) run_loop ::
    "('s, 'w, 'e) orchestrator \<Rightarrow> nat option \<Rightarrow> 's \<Rightarrow> 'w \<Rightarrow> ('s \<times> node_id) list \<Rightarrow> node_id \<Rightarrow> nat
      \<Rightarrow> node_id list \<Rightarrow> (('e run_error + 's run_outcome) \<times> 'w) option"
where
  "run_loop orc limit s w pending cur visited tr =
     (if (case limit of None \<Rightarrow> False | Some l \<Rightarrow> l \<le> visited)
      then Some (Inl (StepLimitExceeded (case limit of None \<Rightarrow> 0 | Some l \<Rightarrow> l)), w)
      else (case node (graph orc) cur of
        None \<Rightarrow> Some (Inl (GraphErr (UnknownNode cur)), w)
      | Some st \<Rightarrow>
          (case execute st s w of
             (Inl e, w') \<Rightarrow> Some (Inl (StepErr cur e), w')
           | (Inr (Goto s' nxt), w') \<Rightarrow>
               (if check_edge orc cur nxt
                then run_loop orc limit s' w' pending nxt (Suc visited) (tr @ [cur])
                else Some (Inl (InvalidNextNode nxt), w'))
           | (Inr (Branch s' []), w') \<Rightarrow>
               (case pending of
                  [] \<Rightarrow> Some (Inr \<lparr>final_state = s', reason = Completed, trace = tr @ [cur]\<rparr>, w')
                | (s'', n) # ps \<Rightarrow> run_loop orc limit s'' w' ps n (Suc visited) (tr @ [cur]))
           | (Inr (Branch s' (n # ns)), w') \<Rightarrow>
               (case first_bad orc cur (n # ns) of
                  Some b \<Rightarrow> Some (Inl (InvalidNextNode b), w')
                | None \<Rightarrow> run_loop orc limit s' w' (map (\<lambda>m. (s', m)) ns @ pending) n
                            (Suc visited) (tr @ [cur]))
           | (Inr (Terminal s' r), w') \<Rightarrow>
               (case pending of
                  [] \<Rightarrow> Some (Inr \<lparr>final_state = s', reason = r, trace = tr @ [cur]\<rparr>, w')
                | (s'', n) # ps \<Rightarrow> run_loop orc limit s'' w' ps n (Suc visited) (tr @ [cur])))))"

definition run ::
    "('s, 'w, 'e) orchestrator \<Rightarrow> step_limits \<Rightarrow> 's \<Rightarrow> 'w \<Rightarrow> (('e run_error + 's run_outcome) \<times> 'w) option" where
  "run orc limits s w =
     (case entry orc of
        None \<Rightarrow> Some (Inl NoEntryNode, w)
      | Some e \<Rightarrow>
          if \<not> graph_contains (graph orc) e then Some (Inl (GraphErr (UnknownNode e)), w)
          else run_loop orc (max_steps limits) s w [] e 0 [])"

lemma run_loop_limit: "limit = Some l \<Longrightarrow> l \<le> visited \<Longrightarrow>
    run_loop orc limit s w pending cur visited tr = Some (Inl (StepLimitExceeded l), w)"
  by (subst run_loop.simps) simp

section \<open>The big-step specification\<close>

text \<open>
  \<open>explores orc s w n tr s' r w'\<close>: started at node \<open>n\<close> the walk visits \<open>tr\<close> and ends with state
  \<open>s'\<close> and reason \<open>r\<close>. A branch gives every successor its own copy of the branching state and
  visits them one after the other, each to its end, in the declared order; state and reason are
  those of the last one. \<open>drains\<close> does the same for a list of started branches.
\<close>

inductive explores :: "('s, 'w, 'e) orchestrator \<Rightarrow> 's \<Rightarrow> 'w \<Rightarrow> node_id \<Rightarrow> node_id list \<Rightarrow> 's
      \<Rightarrow> terminal_reason \<Rightarrow> 'w \<Rightarrow> bool"
  and drains :: "('s, 'w, 'e) orchestrator \<Rightarrow> ('s \<times> node_id) list \<Rightarrow> 'w \<Rightarrow> node_id list \<Rightarrow> 's
      \<Rightarrow> terminal_reason \<Rightarrow> 'w \<Rightarrow> bool"
  for orc
where
  terminal: "node (graph orc) n = Some st \<Longrightarrow> execute st s w = (Inr (Terminal s' r), w') \<Longrightarrow>
     explores orc s w n [n] s' r w'"
| goto: "node (graph orc) n = Some st \<Longrightarrow> execute st s w = (Inr (Goto s1 m), w1) \<Longrightarrow>
     check_edge orc n m \<Longrightarrow> explores orc s1 w1 m tr s' r w' \<Longrightarrow> explores orc s w n (n # tr) s' r w'"
| branch_none: "node (graph orc) n = Some st \<Longrightarrow> execute st s w = (Inr (Branch s' []), w') \<Longrightarrow>
     explores orc s w n [n] s' Completed w'"
| branch: "node (graph orc) n = Some st \<Longrightarrow> execute st s w = (Inr (Branch s1 (m # ms)), w1) \<Longrightarrow>
     first_bad orc n (m # ms) = None \<Longrightarrow> drains orc (map (\<lambda>k. (s1, k)) (m # ms)) w1 tr s' r w' \<Longrightarrow>
     explores orc s w n (n # tr) s' r w'"
| last_branch: "explores orc s w n tr s' r w' \<Longrightarrow> drains orc [(s, n)] w tr s' r w'"
| next_branch: "explores orc s w n tr1 s1 r1 w1 \<Longrightarrow> drains orc (b # bs) w1 tr2 s' r w' \<Longrightarrow>
     drains orc ((s, n) # b # bs) w (tr1 @ tr2) s' r w'"

inductive_simps drains_Nil [simp]: "drains orc [] w tr s' r w'"
inductive_simps drains_single [simp]: "drains orc [(s, n)] w tr s' r w'"
inductive_cases drains_ConsE: "drains orc ((s, n) # b # bs) w tr s' r w'"

text \<open>A run still within its limit after \<open>k\<close> visits.\<close>

definition within :: "nat option \<Rightarrow> nat \<Rightarrow> bool" where
  "within limit k = (case limit of None \<Rightarrow> True | Some l \<Rightarrow> k \<le> l)"

lemma within_simps [simp]: "within None k" "within (Some l) k = (k \<le> l)"
  by (simp_all add: within_def)

text \<open>What the loop does once the current branch has ended with \<open>(tr, s', r, w')\<close>.\<close>

definition continue_with ::
    "('s, 'w, 'e) orchestrator \<Rightarrow> nat option \<Rightarrow> ('s \<times> node_id) list \<Rightarrow> nat \<Rightarrow> node_id list \<Rightarrow> 's
      \<Rightarrow> terminal_reason \<Rightarrow> 'w \<Rightarrow> (('e run_error + 's run_outcome) \<times> 'w) option"
where
  "continue_with orc limit pending visited tr s' r w' =
     (case pending of
        [] \<Rightarrow> Some (Inr \<lparr>final_state = s', reason = r, trace = tr\<rparr>, w')
      | (s2, n2) # ps \<Rightarrow> run_loop orc limit s2 w' ps n2 visited tr)"

text \<open>Below the limit, one turn of the loop is the body without the limit check.\<close>

lemma run_loop_body:
  assumes "within limit (Suc visited)"
  shows "run_loop orc limit s w pending cur visited tr =
     (case node (graph orc) cur of
        None \<Rightarrow> Some (Inl (GraphErr (UnknownNode cur)), w)
      | Some st \<Rightarrow>
          (case execute st s w of
             (Inl e, w') \<Rightarrow> Some (Inl (StepErr cur e), w')
           | (Inr (Goto s' nxt), w') \<Rightarrow>
               (if check_edge orc cur nxt
                then run_loop orc limit s' w' pending nxt (Suc visited) (tr @ [cur])
                else Some (Inl (InvalidNextNode nxt), w'))
           | (Inr (Branch s' []), w') \<Rightarrow>
               continue_with orc limit pending (Suc visited) (tr @ [cur]) s' Completed w'
           | (Inr (Branch s' (n # ns)), w') \<Rightarrow>
               (case first_bad orc cur (n # ns) of
                  Some b \<Rightarrow> Some (Inl (InvalidNextNode b), w')
                | None \<Rightarrow> run_loop orc limit s' w' (map (\<lambda>m. (s', m)) ns @ pending) n
                            (Suc visited) (tr @ [cur]))
           | (Inr (Terminal s' r), w') \<Rightarrow>
               continue_with orc limit pending (Suc visited) (tr @ [cur]) s' r w'))"
proof -
  have "(case limit of None \<Rightarrow> False | Some l \<Rightarrow> l \<le> visited) = False"
    using assms by (cases limit) auto
  then show ?thesis by (subst run_loop.simps) (simp only: if_False continue_with_def)
qed

lemma within_mono: "within limit k \<Longrightarrow> j \<le> k \<Longrightarrow> within limit j"
  by (cases limit) auto

lemma explores_nonempty:
  "explores orc s w n tr s' r w' \<Longrightarrow> 0 < length tr"
  "drains orc bs w tr s' r w' \<Longrightarrow> 0 < length tr"
  by (induction rule: explores_drains.inducts) auto

lemma explores_run_loop:
  "explores orc s w n tr s' r w' \<Longrightarrow> within limit (visited + length tr) \<Longrightarrow>
     run_loop orc limit s w pending n visited tr0 =
       continue_with orc limit pending (visited + length tr) (tr0 @ tr) s' r w'"
  "drains orc bs w tr s' r w' \<Longrightarrow> within limit (visited + length tr) \<Longrightarrow>
     (case bs of [] \<Rightarrow> True | (s, n) # bs' \<Rightarrow>
        run_loop orc limit s w (bs' @ pending) n visited tr0 =
          continue_with orc limit pending (visited + length tr) (tr0 @ tr) s' r w')"
proof (induction arbitrary: pending visited tr0 and pending visited tr0 rule: explores_drains.inducts)
  case (terminal n st s w s' r w')
  then show ?case by (simp add: run_loop_body)
next
  case (goto n st s w s1 m w1 tr s' r w')
  have "within limit (Suc visited)" using goto.prems by (rule within_mono) simp
  with goto show ?case by (simp add: run_loop_body)
next
  case (branch_none n st s w s' w')
  then show ?case by (simp add: run_loop_body)
next
  case (branch n st s w s1 m ms w1 tr s' r w')
  have "within limit (Suc visited)" using branch.prems by (rule within_mono) simp
  with branch show ?case by (simp add: run_loop_body)
next
  case (last_branch s w n tr s' r w')
  then show ?case by simp
next
  case (next_branch s w n tr1 s1 r1 w1 b bs tr2 s' r w')
  obtain s2 n2 where b: "b = (s2, n2)" by force
  have IH: "run_loop orc limit s w ps n v t = continue_with orc limit ps (v + length tr1) (t @ tr1) s1 r1 w1"
    if "within limit (v + length tr1)" for ps v t
    using that by (rule next_branch.IH(2))
  have "within limit (visited + length tr1)" using next_branch.prems by (rule within_mono) simp
  then have "run_loop orc limit s w ((b # bs) @ pending) n visited tr0 =
      run_loop orc limit s2 w1 (bs @ pending) n2 (visited + length tr1) (tr0 @ tr1)"
    using IH [of visited "(b # bs) @ pending" tr0] by (simp add: continue_with_def b)
  with next_branch.IH(4) next_branch.prems show ?case by (simp add: b add.assoc)
qed

lemma drains_append:
  "drains orc (xs @ ys) w tr s' r w' \<Longrightarrow> xs \<noteq> [] \<Longrightarrow> ys \<noteq> [] \<Longrightarrow>
     \<exists>tr1 s1 r1 w1 tr2. drains orc xs w tr1 s1 r1 w1 \<and> drains orc ys w1 tr2 s' r w' \<and> tr = tr1 @ tr2"
proof (induction xs arbitrary: w tr)
  case (Cons x xs)
  obtain s n where x: "x = (s, n)" by force
  from Cons.prems(3) obtain b bs where b: "xs @ ys = b # bs" by (cases "xs @ ys") auto
  from Cons.prems(1) x b obtain tr1 s1 r1 w1 tr2 where
    hd: "explores orc s w n tr1 s1 r1 w1" and tl: "drains orc (xs @ ys) w1 tr2 s' r w'" "tr = tr1 @ tr2"
    by (auto elim: drains_ConsE)
  show ?case
  proof (cases "xs = []")
    case True
    with hd tl x show ?thesis by (metis append_Nil drains_single)
  next
    case False
    then obtain c cs where xs: "xs = c # cs" by (cases xs) auto
    from Cons.IH [OF tl(1) False Cons.prems(3)] obtain tr3 s3 r3 w3 tr4 where
      IH: "drains orc xs w1 tr3 s3 r3 w3" "drains orc ys w3 tr4 s' r w'" "tr2 = tr3 @ tr4" by blast
    with hd x xs have "drains orc (x # xs) w (tr1 @ tr3) s3 r3 w3" by (auto intro: next_branch)
    with IH tl(2) show ?thesis by (metis append.assoc)
  qed
qed simp

lemma drains_cons_branch:
  assumes "drains orc ((s1, m) # pending) w1 tr s' r w'"
    and "\<And>tr s' r w'. explores orc s1 w1 m tr s' r w' \<Longrightarrow> explores orc s w n (n # tr) s' r w'"
  shows "drains orc ((s, n) # pending) w (n # tr) s' r w'"
proof (cases pending)
  case Nil
  with assms show ?thesis by simp
next
  case (Cons b bs)
  with assms show ?thesis by (metis append_Cons drains_ConsE next_branch)
qed

lemma drains_branch:
  assumes "node (graph orc) n = Some st" "execute st s w = (Inr (Branch s1 (m # ms)), w1)"
    and "first_bad orc n (m # ms) = None"
    and "drains orc (map (\<lambda>k. (s1, k)) (m # ms) @ pending) w1 tr s' r w'"
  shows "drains orc ((s, n) # pending) w (n # tr) s' r w'"
proof (cases pending)
  case Nil
  with assms show ?thesis by (auto intro: branch)
next
  case (Cons b bs)
  with assms(4) obtain tr1 s2 r2 w2 tr2 where
    "drains orc (map (\<lambda>k. (s1, k)) (m # ms)) w1 tr1 s2 r2 w2" "drains orc pending w2 tr2 s' r w'"
    "tr = tr1 @ tr2" by (metis drains_append list.distinct(1) list.map_disc_iff)
  with assms(1-3) Cons show ?thesis by (metis append_Cons branch next_branch)
qed

lemma drains_end:
  assumes "explores orc s w n [n] s1 r1 w1"
    and "pending = [] \<Longrightarrow> tr = [] \<and> s' = s1 \<and> r = r1 \<and> w' = w1"
    and "pending \<noteq> [] \<Longrightarrow> drains orc pending w1 tr s' r w'"
  shows "drains orc ((s, n) # pending) w (n # tr) s' r w'"
proof (cases pending)
  case Nil
  with assms show ?thesis by simp
next
  case (Cons b bs)
  with assms show ?thesis by (metis append_Cons append_Nil list.distinct(1) next_branch)
qed

lemma run_loop_drains:
  fixes orc :: "('s, 'w, 'e) orchestrator"
  assumes "run_loop orc limit s w pending cur visited tr = Some res"
  shows "\<forall>out w'. res = (Inr out, w') \<longrightarrow> (\<exists>tr'. trace out = tr @ tr' \<and>
    within limit (visited + length tr') \<and>
    drains orc ((s, cur) # pending) w tr' (final_state out) (reason out) w')"
proof (rule run_loop.raw_induct [where P = "\<lambda>orc limit s w pending cur visited tr res.
    \<forall>out w'. res = (Inr out, w') \<longrightarrow> (\<exists>tr'. trace out = tr @ tr' \<and>
    within limit (visited + length tr') \<and>
    drains orc ((s, cur) # pending) w tr' (final_state out) (reason out) w')", OF _ assms])
  fix f :: "('s, 'w, 'e) orchestrator \<Rightarrow> nat option \<Rightarrow> 's \<Rightarrow> 'w \<Rightarrow> ('s \<times> node_id) list \<Rightarrow> node_id
      \<Rightarrow> nat \<Rightarrow> node_id list \<Rightarrow> (('e run_error + 's run_outcome) \<times> 'w) option"
    and orc limit s w pending cur visited tr res
  assume IH: "\<And>orc limit s w pending cur visited tr res.
      f orc limit s w pending cur visited tr = Some res \<Longrightarrow>
      \<forall>out w'. res = (Inr out, w') \<longrightarrow> (\<exists>tr'. trace out = tr @ tr' \<and>
        within limit (visited + length tr') \<and>
        drains orc ((s, cur) # pending) w tr' (final_state out) (reason out) w')"
  let ?cont = "\<lambda>w' s1 r1. case pending of
      [] \<Rightarrow> Some (Inr \<lparr>final_state = s1, reason = r1, trace = tr @ [cur]\<rparr>, w')
    | (s'', n) # ps \<Rightarrow> f orc limit s'' w' ps n (Suc visited) (tr @ [cur])"
  assume eq: "(if (case limit of None \<Rightarrow> False | Some l \<Rightarrow> l \<le> visited)
      then Some (Inl (StepLimitExceeded (case limit of None \<Rightarrow> 0 | Some l \<Rightarrow> l)), w)
      else (case node (graph orc) cur of
        None \<Rightarrow> Some (Inl (GraphErr (UnknownNode cur)), w)
      | Some st \<Rightarrow>
          (case execute st s w of
             (Inl e, w') \<Rightarrow> Some (Inl (StepErr cur e), w')
           | (Inr (Goto s' nxt), w') \<Rightarrow>
               (if check_edge orc cur nxt
                then f orc limit s' w' pending nxt (Suc visited) (tr @ [cur])
                else Some (Inl (InvalidNextNode nxt), w'))
           | (Inr (Branch s' []), w') \<Rightarrow> ?cont w' s' Completed
           | (Inr (Branch s' (n # ns)), w') \<Rightarrow>
               (case first_bad orc cur (n # ns) of
                  Some b \<Rightarrow> Some (Inl (InvalidNextNode b), w')
                | None \<Rightarrow> f orc limit s' w' (map (\<lambda>m. (s', m)) ns @ pending) n
                            (Suc visited) (tr @ [cur]))
           | (Inr (Terminal s' r), w') \<Rightarrow> ?cont w' s' r))) = Some res"
  show "\<forall>out w'. res = (Inr out, w') \<longrightarrow> (\<exists>tr'. trace out = tr @ tr' \<and>
      within limit (visited + length tr') \<and>
      drains orc ((s, cur) # pending) w tr' (final_state out) (reason out) w')"
  proof (intro allI impI)
    fix out w' assume res: "res = (Inr out, w')"
    have lim: "within limit (Suc visited)"
      using eq res by (cases limit) (auto split: if_splits)
    from eq res obtain st t w1 where st: "node (graph orc) cur = Some st"
      and ex: "execute st s w = (Inr t, w1)"
      by (auto split: if_splits option.splits prod.splits sum.splits)
    have ended: "\<exists>tr'. trace out = tr @ tr' \<and> within limit (visited + length tr') \<and>
        drains orc ((s, cur) # pending) w tr' (final_state out) (reason out) w'"
      if cont: "?cont w1 s1 r1 = Some (Inr out, w')" and e: "explores orc s w cur [cur] s1 r1 w1"
      for s1 r1
    proof (cases pending)
      case Nil
      with cont e lim show ?thesis by (intro exI [of _ "[cur]"]) auto
    next
      case (Cons b bs)
      then obtain s2 n2 where b: "pending = (s2, n2) # bs" by (cases b) auto
      with cont have "f orc limit s2 w1 bs n2 (Suc visited) (tr @ [cur]) = Some (Inr out, w')"
        by simp
      from IH [OF this] obtain tr' where "trace out = (tr @ [cur]) @ tr'"
        "within limit (Suc visited + length tr')" "drains orc pending w1 tr' (final_state out) (reason out) w'"
        using b by auto
      with drains_end [OF e, of pending tr' "final_state out" "reason out" w'] b
      show ?thesis by (intro exI [of _ "cur # tr'"]) auto
    qed
    show "\<exists>tr'. trace out = tr @ tr' \<and> within limit (visited + length tr') \<and>
        drains orc ((s, cur) # pending) w tr' (final_state out) (reason out) w'"
    proof (cases t)
      case (Goto s1 m)
      with eq res st ex have ok: "check_edge orc cur m"
        and "f orc limit s1 w1 pending m (Suc visited) (tr @ [cur]) = Some (Inr out, w')"
        by (auto split: if_splits)
      from IH [OF this(2)] obtain tr' where "trace out = (tr @ [cur]) @ tr'"
        "within limit (Suc visited + length tr')"
        and d: "drains orc ((s1, m) # pending) w1 tr' (final_state out) (reason out) w'" by auto
      moreover have "drains orc ((s, cur) # pending) w (cur # tr') (final_state out) (reason out) w'"
        by (rule drains_cons_branch [OF d]) (rule goto [OF st ex [unfolded Goto] ok])
      ultimately show ?thesis by (intro exI [of _ "cur # tr'"]) auto
    next
      case (Branch s1 ms)
      show ?thesis
      proof (cases ms)
        case Nil
        with Branch eq res st ex have "?cont w1 s1 Completed = Some (Inr out, w')"
          by (auto split: if_splits)
        then show ?thesis using ex Branch Nil by (intro ended) (auto intro: branch_none [OF st])
      next
        case (Cons m ns)
        with Branch eq res st ex have ok: "first_bad orc cur (m # ns) = None"
          and "f orc limit s1 w1 (map (\<lambda>k. (s1, k)) ns @ pending) m (Suc visited) (tr @ [cur])
            = Some (Inr out, w')"
          by (auto split: if_splits option.splits)
        from IH [OF this(2)] obtain tr' where "trace out = (tr @ [cur]) @ tr'"
          "within limit (Suc visited + length tr')"
          and d: "drains orc ((s1, m) # map (\<lambda>k. (s1, k)) ns @ pending) w1 tr'
            (final_state out) (reason out) w'" by auto
        moreover have "drains orc ((s, cur) # pending) w (cur # tr') (final_state out) (reason out) w'"
          by (rule drains_branch [OF st ex [unfolded Branch Cons] ok]) (use d in simp)
        ultimately show ?thesis by (intro exI [of _ "cur # tr'"]) auto
      qed
    next
      case (Terminal s1 r1)
      with eq res st ex have "?cont w1 s1 r1 = Some (Inr out, w')" by (auto split: if_splits)
      then show ?thesis using ex Terminal by (intro ended) (auto intro: terminal [OF st])
    qed
  qed
qed

text \<open>The loop and the specification agree, in both directions.\<close>

lemma run_loop_explores_iff:
  "run_loop orc limit s w [] n 0 [] = Some (Inr out, w') \<longleftrightarrow>
     explores orc s w n (trace out) (final_state out) (reason out) w' \<and> within limit (length (trace out))"
  using run_loop_drains [of orc limit s w "[]" n 0 "[]" "(Inr out, w')"]
    explores_run_loop(1) [of orc s w n "trace out" "final_state out" "reason out" w' limit 0 "[]" "[]"]
  by (auto simp: continue_with_def)

section \<open>Termination\<close>

lemma run_loop_returns_limit:
  "\<exists>res. run_loop orc (Some l) s w pending cur visited tr = Some res"
proof (induction "l - visited" arbitrary: s w pending cur visited tr)
  case 0
  then show ?case by (simp add: run_loop_limit)
next
  case (Suc k)
  then have lt: "within (Some l) (Suc visited)" and k: "k = l - Suc visited" by auto
  note IH = Suc.hyps(1) [OF k]
  have cont: "\<exists>res. continue_with orc (Some l) pending (Suc visited) tr' s' r w' = Some res" for tr' s' r w'
    using IH by (cases pending) (auto simp: continue_with_def)
  show ?case
    using IH cont by (subst run_loop_body [OF lt])
      (auto split: option.splits sum.splits transition.splits prod.splits list.splits)
qed

lemma check_edge_edge_rel: "check_edge orc u v \<longleftrightarrow> (u, v) \<in> edge_rel (graph orc)"
  by (simp add: check_edge_def edge_rel_def)

lemma first_bad_None: "first_bad orc u vs = None \<longleftrightarrow> (\<forall>v \<in> set vs. check_edge orc u v)"
  by (auto simp: first_bad_def find_None_iff)

text \<open>A pending stack on which the loop always returns.\<close>

definition resumes :: "('s, 'w, 'e) orchestrator \<Rightarrow> ('s \<times> node_id) list \<Rightarrow> bool" where
  "resumes orc pending \<longleftrightarrow> (case pending of [] \<Rightarrow> True | (s, n) # ps \<Rightarrow>
     (\<forall>w visited tr. \<exists>res. run_loop orc None s w ps n visited tr = Some res))"

lemma resumes_continue: "resumes orc pending \<Longrightarrow> \<exists>res. continue_with orc None pending v tr s r w = Some res"
  by (auto simp: resumes_def continue_with_def split: list.splits)

lemma run_loop_returns_acyclic:
  assumes "wf ((edge_rel (graph orc))\<inverse>)" and "resumes orc pending"
  shows "\<exists>res. run_loop orc None s w pending n visited tr = Some res"
  using assms
proof (induction n arbitrary: s w pending visited tr rule: wf_induct_rule)
  case (less n)
  have step: "resumes orc ((s', m) # ps)" if "check_edge orc n m" "resumes orc ps" for s' m ps
    unfolding resumes_def using less.IH [of m ps] that by (auto simp: check_edge_edge_rel)
  have tails: "resumes orc (map (\<lambda>m. (s', m)) ns @ pending)"
    if "\<forall>m \<in> set ns. check_edge orc n m" for s' ns
    using that less.prems by (induction ns) (auto intro: step)
  note cont = resumes_continue [OF less.prems]
  have IH: "\<exists>res. run_loop orc None s' w' ps m v t = Some res"
    if "check_edge orc n m" "resumes orc ps" for s' w' ps m v t
    using step [OF that, of s'] by (simp add: resumes_def)
  show ?case
    by (subst run_loop_body) (auto simp: first_bad_None less.prems cont IH tails simp del: split_paired_Ex
      split: option.splits sum.splits transition.splits prod.splits list.splits)
qed

text \<open>
  On the declared graph of a well-formed orchestrator, without a cycle the walk of every set of
  steps ends by itself.
\<close>

lemma run_returns_acyclic:
  assumes "wf_graph (graph orc)" and "acyclic (edge_rel (graph orc))"
  shows "\<exists>res. run orc limits s w = Some res"
proof -
  have "wf ((edge_rel (graph orc))\<inverse>)"
    using assms by (intro finite_acyclic_wf_converse finite_edge_rel)
  then have "\<exists>res. run_loop orc None s w [] n 0 [] = Some res" for n
    by (rule run_loop_returns_acyclic) (simp add: resumes_def)
  then show ?thesis
    by (cases "max_steps limits")
      (auto simp: run_def run_loop_returns_limit simp del: split_paired_Ex split: option.splits)
qed

end
