(* ===== verification/GraphProps.thy ===== *)
theory GraphProps
  imports Orchestrator
begin

text \<open>
  The properties of the orchestration engine: the graph queries against the edge relation, and the
  walk against its big-step specification.
\<close>

section \<open>The graph\<close>

text \<open>The graphs a client can build.\<close>

inductive built :: "('n, 'e) graph \<Rightarrow> bool" where
  built_new: "built new_graph"
| built_node: "built g \<Longrightarrow> built (add_node nid p g)"
| built_insert: "built g \<Longrightarrow> built (snd (insert_node_with_id nid p g))"
| built_mut: "built g \<Longrightarrow> built (node_mut f g nid)"
| built_edge: "built g \<Longrightarrow> add_edge src tgt p g = Inr g' \<Longrightarrow> built g'"

lemma wf_node_mut: "wf_graph g \<Longrightarrow> wf_graph (node_mut f g nid)"
  by (auto simp: wf_graph_def node_mut_def distinct_hm_put hm.dom_put insert_absorb split: option.split)

lemma wf_built: "built g \<Longrightarrow> wf_graph g"
  by (induction rule: built.induct)
    (auto intro: wf_new_graph wf_add_node wf_insert_node_with_id wf_node_mut wf_add_edge)

text \<open>Two nodes and the edges between them.\<close>

abbreviation node_a :: node_id where "node_a \<equiv> UuidNewtype 1"
abbreviation node_b :: node_id where "node_b \<equiv> UuidNewtype 2"

definition demo_line :: "(unit, unit) graph" where
  "demo_line = (case add_edge node_a node_b () (add_node node_b () (add_node node_a () new_graph)) of
     Inr g \<Rightarrow> g | Inl _ \<Rightarrow> new_graph)"

definition demo_loop :: "(unit, unit) graph" where
  "demo_loop = (case add_edge node_b node_a () demo_line of Inr g \<Rightarrow> g | Inl _ \<Rightarrow> new_graph)"

lemma built_demo_line: "built demo_line"
proof -
  have "add_edge node_a node_b () (add_node node_b () (add_node node_a () new_graph)) = Inr demo_line"
    by code_simp
  then show ?thesis by (rule built_edge [rotated]) (intro built_node built_new)
qed

lemma built_demo_loop: "built demo_loop"
proof -
  have "add_edge node_b node_a () demo_line = Inr demo_loop" by code_simp
  then show ?thesis by (rule built_edge [OF built_demo_line])
qed

text \<open>
  On every graph a client can build, the depth-first search reports a cycle exactly when the
  declared edges have one.
\<close>

theorem has_cycle_correct:
  assumes "built g"
  shows "has_cycle g \<longleftrightarrow> \<not> acyclic (edge_rel g)"
  using wf_built [OF assms] by (rule has_cycle_iff)

theorem has_cycle_correct_witness: "\<not> acyclic (edge_rel demo_loop) \<and> has_cycle demo_loop"
proof -
  have "has_cycle demo_loop" by code_simp
  with has_cycle_correct [OF built_demo_loop] show ?thesis by simp
qed

text \<open>
  Topological sorting never panics. It lists every node once, each before all nodes its edges
  lead to, when the graph is acyclic, and reports a cycle otherwise.
\<close>

theorem topological_order_spec:
  assumes "built g"
  shows "if acyclic (edge_rel g)
    then \<exists>order. topological_order g = Some (Inr order) \<and> distinct order \<and>
      set order = set (node_ids g) \<and> topo_sorted (edge_rel g) order
    else topological_order g = Some (Inl Cycle)"
proof -
  from topological_order_correct [OF wf_built [OF assms]] obtain r where r: "topological_order g = Some r"
    and "case r of Inl e \<Rightarrow> e = Cycle \<and> \<not> acyclic (edge_rel g)
      | Inr order \<Rightarrow> acyclic (edge_rel g) \<and> distinct order \<and> set order = set (node_ids g) \<and>
          topo_sorted (edge_rel g) order" by blast
  then show ?thesis by (cases r) auto
qed

theorem topological_order_spec_witness: "topological_order demo_loop = Some (Inl Cycle)"
proof -
  have "has_cycle demo_loop" by code_simp
  with has_cycle_iff [OF wf_built [OF built_demo_loop]]
  show ?thesis using topological_order_spec [OF built_demo_loop] by simp
qed

text \<open>
  Adding an edge fails exactly when an end is not declared, naming the source first; otherwise
  the target joins the end of the source's successors and nothing else changes.
\<close>

theorem add_edge_spec:
  "(case add_edge src tgt p g of
      Inl e \<Rightarrow> (\<not> graph_contains g src \<and> e = UnknownNode src) \<or>
        (graph_contains g src \<and> \<not> graph_contains g tgt \<and> e = UnknownNode tgt)
    | Inr g' \<Rightarrow> graph_contains g src \<and> graph_contains g tgt \<and> nodes g' = nodes g \<and>
        (\<forall>u. successors g' u = (if u = src then successors g u @ [tgt] else successors g u)))"
  using successors_add_edge [of src tgt p g]
  by (auto simp: add_edge_def graph_contains_def split: sum.split if_splits)

theorem add_edge_spec_witness: "successors demo_loop node_b = [node_a]"
proof -
  have "add_edge node_b node_a () demo_line = Inr demo_loop" by code_simp
  moreover have "successors demo_line node_b = []" by code_simp
  ultimately show ?thesis using add_edge_spec [where src = node_b and tgt = node_a and p = "()" and g = demo_line] by simp
qed

section \<open>The walk\<close>

text \<open>
  (C6) The walk succeeds with an outcome exactly when the big-step specification visits the nodes of
  its trace from the entry node, in depth-first order, within the step limit, and ends with its
  state and reason.
\<close>

theorem run_meets_specification:
  "run orc limits s w = Some (Inr out, w') \<longleftrightarrow>
     (\<exists>e. entry orc = Some e \<and> graph_contains (graph orc) e \<and>
        explores orc s w e (trace out) (final_state out) (reason out) w' \<and>
        within (max_steps limits) (length (trace out)))"
  by (auto simp: run_def run_loop_explores_iff split: option.split)

text \<open>A step that counts down, looping on itself.\<close>

definition demo_step :: "(nat, unit, unit) step" where
  "demo_step = fn_step ''count'' (\<lambda>n w. (Inr (if n = 0 then Terminal n Completed else Goto (n - 1) node_a), w))"

definition demo_orc :: "(nat, unit, unit) orchestrator" where
  "demo_orc = (case allow_transition node_a node_a (add_step node_a demo_step new_orchestrator) of
     Inr orc \<Rightarrow> set_entry node_a orc | Inl _ \<Rightarrow> new_orchestrator)"

text \<open>
  With a step limit every run returns, whatever the steps do, and a successful one has visited
  at most as many nodes as the limit allows.
\<close>

theorem limited_run_returns:
  assumes "max_steps limits = Some l"
  shows "\<exists>res w'. run orc limits s w = Some (res, w') \<and> (\<forall>out. res = Inr out \<longrightarrow> length (trace out) \<le> l)"
proof -
  have "\<exists>res. run orc limits s w = Some res"
    using assms by (auto simp: run_def run_loop_returns_limit simp del: split_paired_Ex split: option.split)
  then obtain res w' where r: "run orc limits s w = Some (res, w')" by force
  have "length (trace out) \<le> l" if "res = Inr out" for out
    using r that assms run_loop_explores_iff [of orc "Some l" s w _ out w']
    by (auto simp: run_def split: option.splits if_splits)
  with r show ?thesis by blast
qed

theorem limited_run_returns_witness:
  "\<exists>res w'. run demo_orc default_limits 3 () = Some (res, w') \<and>
     (\<forall>out. res = Inr out \<longrightarrow> length (trace out) \<le> 10000)"
  by (rule limited_run_returns) (simp add: default_limits_def)

text \<open>
  (C7) Without a step limit a run still returns, whatever the steps do, when the declared transitions
  have no cycle.
\<close>

theorem acyclic_run_returns:
  assumes "built (graph orc)" and "\<not> has_cycle (graph orc)"
  shows "\<exists>res w'. run orc \<lparr>max_steps = None\<rparr> s w = Some (res, w')"
proof -
  have "wf_graph (graph orc)" using assms(1) by (rule wf_built)
  with assms(2) run_returns_acyclic [of orc] show ?thesis by (auto simp: has_cycle_iff)
qed

definition demo_single :: "(nat, unit, unit) orchestrator" where
  "demo_single = set_entry node_a (add_step node_a demo_step new_orchestrator)"

theorem acyclic_run_returns_witness: "\<exists>res w'. run demo_single \<lparr>max_steps = None\<rparr> 3 () = Some (res, w')"
proof (rule acyclic_run_returns)
  show "built (graph demo_single)"
    by (simp add: demo_single_def set_entry_def add_step_def new_orchestrator_def built_node built_new)
  show "\<not> has_cycle (graph demo_single)" by code_simp
qed

end
