(* ===== verification/RuntimeState.thy ===== *)
theory RuntimeState
  imports Prelude
begin

text \<open>
  The data the runtime owns (\<^verbatim>\<open>crates/cronymax/src/runtime/state.rs\<close> and the chat messages of
  \<^verbatim>\<open>llm/messages.rs\<close>), the schema migration, and the two persistence backends of
  \<^verbatim>\<open>runtime/persistence.rs\<close> behind the interface \<open>persistence\<close>: a successful save is what the
  next load returns, a failed one leaves the journal as it was.

  Every \<^verbatim>\<open>BTreeMap\<close> is a sorted association list, times are \<open>int\<close> (milliseconds), \<^verbatim>\<open>usize\<close> is
  \<open>nat\<close>, and fixed-width counters are words.
\<close>

section \<open>Identifiers\<close>

datatype space_tag = SpaceTag
datatype run_tag = RunTag
datatype agent_tag = AgentTag
datatype review_tag = ReviewTag
datatype task_tag = TaskTag
datatype session_tag = SessionTag
datatype memory_namespace_tag = MemoryNamespaceTag

type_synonym space_id = "space_tag uuid_newtype"
type_synonym run_id = "run_tag uuid_newtype"
type_synonym agent_id = "agent_tag uuid_newtype"
type_synonym review_id = "review_tag uuid_newtype"
type_synonym task_id = "task_tag uuid_newtype"
type_synonym session_id = "session_tag string_newtype"
type_synonym memory_namespace_id = "memory_namespace_tag string_newtype"

section \<open>Chat messages\<close>

datatype chat_role = System | User | Assistant | Tool

record tool_call =
  call_id :: string
  call_name :: string
  call_arguments :: string

record chat_message =
  msg_role :: chat_role
  msg_content :: "string option"
  msg_tool_calls :: "tool_call list"
  msg_tool_call_id :: "string option"
  msg_name :: "string option"

definition msg_system :: "string \<Rightarrow> chat_message" where
  "msg_system text = \<lparr>msg_role = System, msg_content = Some text, msg_tool_calls = [],
     msg_tool_call_id = None, msg_name = None\<rparr>"

definition msg_user :: "string \<Rightarrow> chat_message" where
  "msg_user text = \<lparr>msg_role = User, msg_content = Some text, msg_tool_calls = [],
     msg_tool_call_id = None, msg_name = None\<rparr>"

definition msg_assistant_text :: "string \<Rightarrow> chat_message" where
  "msg_assistant_text text = \<lparr>msg_role = Assistant, msg_content = Some text, msg_tool_calls = [],
     msg_tool_call_id = None, msg_name = None\<rparr>"

definition msg_assistant_tool_calls :: "tool_call list \<Rightarrow> chat_message" where
  "msg_assistant_tool_calls calls = \<lparr>msg_role = Assistant, msg_content = None,
     msg_tool_calls = calls, msg_tool_call_id = None, msg_name = None\<rparr>"

definition msg_tool_result :: "string \<Rightarrow> string \<Rightarrow> string \<Rightarrow> chat_message" where
  "msg_tool_result cid nm text = \<lparr>msg_role = Tool, msg_content = Some text, msg_tool_calls = [],
     msg_tool_call_id = Some cid, msg_name = Some nm\<rparr>"

section \<open>Sessions, spaces, agents, memory\<close>

record fork_point =
  fork_message_idx :: nat
  fork_run_id :: "run_id option"
  fork_created_at_ms :: int

record session =
  session_id :: session_id
  session_space_id :: space_id
  session_name :: "string option"
  session_agent_id :: "agent_id option"
  session_thread :: "chat_message list"
  session_run_ids :: "run_id list"
  session_flow_run_ids :: "string list"
  read_namespace :: "memory_namespace_id option"
  write_namespace :: "memory_namespace_id option"
  parent_session_id :: "session_id option"
  session_fork_point :: "fork_point option"
  session_created_at_ms :: int
  session_updated_at_ms :: int
  manually_named :: bool

record space =
  space_id :: space_id
  space_name :: string
  compaction_threshold_pct :: u8
  compaction_recency_turns :: nat

record agent =
  agent_id :: agent_id
  agent_space_id :: space_id
  agent_name :: string
  agent_payload :: json

record memory_entry =
  entry_key :: string
  entry_value :: json
  entry_updated_at_ms :: int

record memory_namespace =
  namespace_id :: memory_namespace_id
  namespace_entries :: "(string \<times> memory_entry) list"

section \<open>Runs\<close>

datatype run_status =
  Pending
| Running
| Paused
| AwaitingReview
| Succeeded
| Failed string
| Cancelled

fun is_active :: "run_status \<Rightarrow> bool" where
  "is_active run_status.Pending = True"
| "is_active run_status.Running = True"
| "is_active _ = False"

fun is_terminal :: "run_status \<Rightarrow> bool" where
  "is_terminal run_status.Succeeded = True"
| "is_terminal (run_status.Failed _) = True"
| "is_terminal run_status.Cancelled = True"
| "is_terminal _ = False"

record history_entry =
  recorded_at_ms :: int
  history_payload :: json

record produced_doc =
  doc_type :: string
  doc_path :: string
  doc_revision :: u32

datatype permission_state = Pending | Approved | Rejected | Deferred

record resolved_review =
  resolved_review_id :: review_id
  resolved_request :: json
  resolved_decision :: permission_state
  resolved_notes :: "string option"
  resolved_at_ms :: int

record file_change =
  change_path :: string
  change_additions :: int
  change_deletions :: int

record run =
  run_id :: run_id
  run_space_id :: space_id
  run_agent_id :: "agent_id option"
  run_session_id :: "session_id option"
  run_flow_run_id :: "string option"
  run_status :: run_status
  run_spec :: json
  run_history :: "history_entry list"
  run_created_at_ms :: int
  run_updated_at_ms :: int
  run_goal :: "string option"
  run_parent_run_id :: "run_id option"
  run_produces :: "produced_doc list"
  run_resolved_reviews :: "resolved_review list"
  run_file_changes :: "file_change list"

record pending_review =
  review_id :: review_id
  review_run_id :: run_id
  review_request :: json
  review_state :: permission_state
  review_notes :: "string option"
  review_created_at_ms :: int
  review_updated_at_ms :: int

section \<open>Tasks\<close>

datatype task_status = Pending | Running | Completed | Failed

record task =
  task_id :: task_id
  task_parent_id :: "task_id option"
  task_label :: string
  task_agent_id :: "agent_id option"
  task_flow_id :: "string option"
  task_status :: task_status
  task_output :: "json option"
  task_created_at_ms :: int

record task_tree =
  tree_tasks :: "(task_id \<times> task) list"

definition new_task_tree :: task_tree where
  "new_task_tree = \<lparr>tree_tasks = []\<rparr>"

section \<open>The snapshot\<close>

record snapshot =
  schema_version :: u32
  spaces :: "(space_id \<times> space) list"
  agents :: "(agent_id \<times> agent) list"
  sessions :: "(session_id \<times> session) list"
  runs :: "(run_id \<times> run) list"
  memory :: "(memory_namespace_id \<times> memory_namespace) list"
  reviews :: "(review_id \<times> pending_review) list"
  task_trees :: "(run_id \<times> task_tree) list"

definition SNAPSHOT_SCHEMA_VERSION :: u32 where
  "SNAPSHOT_SCHEMA_VERSION = 5"

definition default_snapshot :: snapshot where
  "default_snapshot = \<lparr>schema_version = SNAPSHOT_SCHEMA_VERSION, spaces = [], agents = [],
     sessions = [], runs = [], memory = [], reviews = [], task_trees = []\<rparr>"

datatype migration_error = FromFuture u32 u32

text \<open>One arm of \<^verbatim>\<open>migrate_snapshot\<close>: a snapshot of version \<open>v\<close> becomes one of version \<open>v + 1\<close>.\<close>

definition migrate_arm :: "u32 \<Rightarrow> snapshot \<Rightarrow> snapshot" where
  "migrate_arm v snap = (if schema_version snap = v then snap\<lparr>schema_version := v + 1\<rparr> else snap)"

definition migrate_snapshot :: "snapshot \<Rightarrow> migration_error + snapshot" where
  "migrate_snapshot snap =
     (if SNAPSHOT_SCHEMA_VERSION < schema_version snap
      then Inl (FromFuture (schema_version snap) SNAPSHOT_SCHEMA_VERSION)
      else Inr (migrate_arm 4 (migrate_arm 3 (migrate_arm 2 (migrate_arm 1 (migrate_arm 0 snap))))))"

lemma migrate_arm_data: "(migrate_arm v snap)\<lparr>schema_version := n\<rparr> = snap\<lparr>schema_version := n\<rparr>"
  by (simp add: migrate_arm_def)

lemma migrate_arm_version:
  "schema_version (migrate_arm v snap) = (if schema_version snap = v then v + 1 else schema_version snap)"
  by (simp add: migrate_arm_def)

lemma u32_le_5: "(v :: u32) \<le> 5 \<Longrightarrow> v = 0 \<or> v = 1 \<or> v = 2 \<or> v = 3 \<or> v = 4 \<or> v = 5"
proof -
  assume "v \<le> 5"
  then have "unat v \<le> 5" by (simp add: word_le_nat_alt)
  then have "unat v \<in> {0, 1, 2, 3, 4, 5}" by auto
  then show ?thesis by (auto simp: unat_arith_simps)
qed

lemma migrate_snapshot_eq:
  "migrate_snapshot snap =
     (if SNAPSHOT_SCHEMA_VERSION < schema_version snap
      then Inl (FromFuture (schema_version snap) SNAPSHOT_SCHEMA_VERSION)
      else Inr (snap\<lparr>schema_version := SNAPSHOT_SCHEMA_VERSION\<rparr>))"
proof (cases "SNAPSHOT_SCHEMA_VERSION < schema_version snap")
  case False
  then have "schema_version snap \<le> 5" by (simp add: SNAPSHOT_SCHEMA_VERSION_def)
  from u32_le_5 [OF this] have ver:
    "schema_version (migrate_arm 4 (migrate_arm 3 (migrate_arm 2 (migrate_arm 1 (migrate_arm 0 snap))))) = 5"
    by (elim disjE) (simp_all add: migrate_arm_version)
  let ?m = "migrate_arm 4 (migrate_arm 3 (migrate_arm 2 (migrate_arm 1 (migrate_arm 0 snap))))"
  have "?m\<lparr>schema_version := 5\<rparr> = snap\<lparr>schema_version := 5\<rparr>" by (simp only: migrate_arm_data)
  moreover have "?m\<lparr>schema_version := 5\<rparr> = ?m" using ver by (intro snapshot.equality) simp_all
  ultimately have "?m = snap\<lparr>schema_version := SNAPSHOT_SCHEMA_VERSION\<rparr>"
    by (simp add: SNAPSHOT_SCHEMA_VERSION_def)
  with False show ?thesis by (simp add: migrate_snapshot_def)
qed (simp add: migrate_snapshot_def)

lemma migrate_snapshot_current:
  "schema_version snap = SNAPSHOT_SCHEMA_VERSION \<Longrightarrow> migrate_snapshot snap = Inr snap"
  by (simp add: migrate_snapshot_eq)

section \<open>Persistence\<close>

datatype ('io, 'serde) persistence_error = Io 'io | Serde 'serde | Migration migration_error

text \<open>The error conversion of the \<^verbatim>\<open>?\<close> operator after \<^verbatim>\<open>migrate_snapshot\<close>.\<close>

definition load_migrated :: "snapshot \<Rightarrow> ('io, 'serde) persistence_error + snapshot" where
  "load_migrated snap = (case migrate_snapshot snap of Inl e \<Rightarrow> Inl (Migration e) | Inr s \<Rightarrow> Inr s)"

text \<open>
  The contract of the \<^verbatim>\<open>Persistence\<close> trait towards the authority. \<open>norm\<close> is what a backend
  does not write down.
\<close>

locale persistence =
  fixes load :: "'p \<Rightarrow> ('io, 'serde) persistence_error + snapshot"
    and save :: "snapshot \<Rightarrow> 'p \<Rightarrow> ('io, 'serde) persistence_error option \<times> 'p"
    and norm :: "snapshot \<Rightarrow> snapshot"
  assumes save_ok: "save snap p = (None, p') \<Longrightarrow> load p' = load_migrated (norm snap)"
    and save_err: "save snap p = (Some e, p') \<Longrightarrow> load p' = load p"
    and norm_version: "schema_version (norm snap) = schema_version snap"
begin

lemma load_after_save:
  assumes "save snap p = (None, p')" and "schema_version snap = SNAPSHOT_SCHEMA_VERSION"
  shows "load p' = Inr (norm snap)"
  using save_ok [OF assms(1)] assms(2)
  by (simp add: load_migrated_def migrate_snapshot_current norm_version)

text \<open>After any sequence of saves a load sees the last successful one.\<close>

fun save_all :: "snapshot list \<Rightarrow> 'p \<Rightarrow> snapshot option \<times> 'p" where
  "save_all [] p = (None, p)"
| "save_all (s # ss) p = (case save s p of (r, p') \<Rightarrow> case save_all ss p' of
     (Some l, q) \<Rightarrow> (Some l, q)
   | (None, q) \<Rightarrow> (if r = None then Some s else None, q))"

lemma load_save_all:
  "save_all ss p = (l, q) \<Longrightarrow> load q = (case l of None \<Rightarrow> load p | Some s \<Rightarrow> load_migrated (norm s))"
proof (induction ss arbitrary: p l q)
  case (Cons s ss)
  obtain r p' where r: "save s p = (r, p')" by fastforce
  obtain l' q' where l': "save_all ss p' = (l', q')" by fastforce
  have head: "load p' = (if r = None then load_migrated (norm s) else load p)"
    using save_ok [of s p p'] save_err [of s p _ p'] r by (cases r) auto
  show ?case using Cons.prems r l' head Cons.IH [OF l'] by (auto split: option.splits if_splits)
qed simp

end

subsection \<open>In-memory persistence\<close>

record in_memory_persistence =
  mem_state :: snapshot
  save_count :: nat

definition default_in_memory_persistence :: in_memory_persistence where
  "default_in_memory_persistence = \<lparr>mem_state = default_snapshot, save_count = 0\<rparr>"

definition mem_load :: "in_memory_persistence \<Rightarrow> ('io, 'serde) persistence_error + snapshot" where
  "mem_load p = load_migrated (mem_state p)"

definition mem_save :: "snapshot \<Rightarrow> in_memory_persistence
    \<Rightarrow> ('io, 'serde) persistence_error option \<times> in_memory_persistence" where
  "mem_save snap p = (None, p\<lparr>mem_state := snap, save_count := save_count p + 1\<rparr>)"

interpretation mem: persistence mem_load mem_save "\<lambda>snap. snap"
  by unfold_locales (auto simp: mem_load_def mem_save_def)

subsection \<open>JSON file persistence\<close>

text \<open>
  The directory of the journal holds the journal and the temporary file beside it. How each
  system call of one save ends is an argument; the bytes a failing write leaves behind are part
  of its outcome.
\<close>

record 'b disk =
  disk_file :: "'b option"
  disk_tmp :: "'b option"

record ('io, 'b) save_io =
  io_open :: "'io option"
  io_write :: "('io \<times> 'b) option"
  io_sync :: "'io option"
  io_rename :: "'io option"

text \<open>
  \<^verbatim>\<open>JsonFilePersistence::load\<close>. \<open>rd\<close> is a read error other than a missing file; \<open>dec\<close> is
  \<^verbatim>\<open>serde_json::from_slice\<close>.
\<close>

definition json_load :: "('b \<Rightarrow> 'serde + snapshot) \<Rightarrow> 'io option \<Rightarrow> 'b disk
    \<Rightarrow> ('io, 'serde) persistence_error + snapshot" where
  "json_load dec rd d =
     (case rd of
        Some e \<Rightarrow> Inl (Io e)
      | None \<Rightarrow>
          (case disk_file d of
             None \<Rightarrow> load_migrated default_snapshot
           | Some bytes \<Rightarrow>
               (case dec bytes of Inl e \<Rightarrow> Inl (Serde e) | Inr snap \<Rightarrow> load_migrated snap)))"

text \<open>
  \<^verbatim>\<open>JsonFilePersistence::save\<close>: the result and the disk after each system call that changed it,
  the last one first. \<open>enc\<close> is \<^verbatim>\<open>serde_json::to_vec_pretty\<close>, \<open>empty_file\<close> the empty file.
\<close>

definition json_save_trace :: "(snapshot \<Rightarrow> 'serde + 'b) \<Rightarrow> 'b \<Rightarrow> ('io, 'b) save_io \<Rightarrow> snapshot \<Rightarrow> 'b disk
    \<Rightarrow> ('io, 'serde) persistence_error option \<times> 'b disk list" where
  "json_save_trace enc empty_file io snap d =
     (case enc snap of
        Inl e \<Rightarrow> (Some (Serde e), [d])
      | Inr bytes \<Rightarrow>
          (case io_open io of
             Some e \<Rightarrow> (Some (Io e), [d])
           | None \<Rightarrow>
               let d1 = d\<lparr>disk_tmp := Some empty_file\<rparr> in
               (case io_write io of
                  Some (e, part) \<Rightarrow> (Some (Io e), [d1\<lparr>disk_tmp := Some part\<rparr>, d1, d])
                | None \<Rightarrow>
                    let d2 = d1\<lparr>disk_tmp := Some bytes\<rparr> in
                    (case io_sync io of
                       Some e \<Rightarrow> (Some (Io e), [d2, d1, d])
                     | None \<Rightarrow>
                         (case io_rename io of
                            Some e \<Rightarrow> (Some (Io e), [d2, d1, d])
                          | None \<Rightarrow> (None, [d2\<lparr>disk_file := disk_tmp d2, disk_tmp := None\<rparr>, d2, d1, d]))))))"

text \<open>The backend as a store: the disk and how the system calls of the saves to come will end.\<close>

type_synonym ('io, 'b) json_store = "'b disk \<times> (nat \<Rightarrow> ('io, 'b) save_io) \<times> nat"

definition json_store_load :: "('b \<Rightarrow> 'serde + snapshot) \<Rightarrow> ('io, 'b) json_store
    \<Rightarrow> ('io, 'serde) persistence_error + snapshot" where
  "json_store_load dec = (\<lambda>(d, ios, n). json_load dec None d)"

definition json_save :: "(snapshot \<Rightarrow> 'serde + 'b) \<Rightarrow> 'b \<Rightarrow> snapshot \<Rightarrow> ('io, 'b) json_store
    \<Rightarrow> ('io, 'serde) persistence_error option \<times> ('io, 'b) json_store" where
  "json_save enc empty_file snap = (\<lambda>(d, ios, n).
     case json_save_trace enc empty_file (ios n) snap d of
       (r, ds) \<Rightarrow> (r, hd ds, ios, Suc n))"

text \<open>
  What the file keeps of a snapshot: \<^verbatim>\<open>memory\<close> is marked \<^verbatim>\<open>skip_serializing\<close>, an
  \<^verbatim>\<open>output\<close> of \<^verbatim>\<open>null\<close> is read back as no output, and a JSON value is the value \<open>vn\<close> that parsing
  its printed form gives (\<^verbatim>\<open>serde_json\<close> need not read a float back to the last bit). Everything else is kept. This is
  what the code relies on from serde, for the snapshots that it can write.
\<close>

definition stored_run :: "(json \<Rightarrow> json) \<Rightarrow> run \<Rightarrow> run" where
  "stored_run vn r = r\<lparr>run_spec := vn (run_spec r),
     run_history := map (\<lambda>h. h\<lparr>history_payload := vn (history_payload h)\<rparr>) (run_history r),
     run_resolved_reviews := map (\<lambda>v. v\<lparr>resolved_request := vn (resolved_request v)\<rparr>) (run_resolved_reviews r)\<rparr>"

definition stored_task :: "(json \<Rightarrow> json) \<Rightarrow> task \<Rightarrow> task" where
  "stored_task vn t = t\<lparr>task_output := (case task_output t of None \<Rightarrow> None | Some v \<Rightarrow> if vn v = JNull then None else Some (vn v))\<rparr>"

definition as_stored :: "(json \<Rightarrow> json) \<Rightarrow> snapshot \<Rightarrow> snapshot" where
  "as_stored vn snap = snap\<lparr>memory := [],
     agents := map (map_prod id (\<lambda>a. a\<lparr>agent_payload := vn (agent_payload a)\<rparr>)) (agents snap),
     runs := map (map_prod id (stored_run vn)) (runs snap),
     reviews := map (map_prod id (\<lambda>v. v\<lparr>review_request := vn (review_request v)\<rparr>)) (reviews snap),
     task_trees := map (map_prod id (\<lambda>t. t\<lparr>tree_tasks := map (map_prod id (stored_task vn)) (tree_tasks t)\<rparr>)) (task_trees snap)\<rparr>"

definition serde_roundtrip :: "(json \<Rightarrow> json) \<Rightarrow> (snapshot \<Rightarrow> 'serde + 'b) \<Rightarrow> ('b \<Rightarrow> 'serde + snapshot) \<Rightarrow> bool" where
  "serde_roundtrip vn enc dec \<longleftrightarrow> (\<forall>snap bytes. enc snap = Inr bytes \<longrightarrow> dec bytes = Inr (as_stored vn snap))"

lemma json_save_trace_ok:
  assumes "json_save_trace enc empty_file io snap d = (None, ds)"
  shows "\<exists>bytes. enc snap = Inr bytes \<and> disk_file (hd ds) = Some bytes"
  using assms by (auto simp: json_save_trace_def Let_def split: sum.splits option.splits)

lemma json_save_trace_err:
  assumes "json_save_trace enc empty_file io snap d = (Some e, ds)"
  shows "disk_file (hd ds) = disk_file d"
  using assms by (auto simp: json_save_trace_def Let_def split: sum.splits option.splits)

text \<open>With serde's round trip the file backend is a persistence backend too.\<close>

lemma json_persistence:
  assumes rt: "serde_roundtrip vn enc dec"
  shows "persistence (json_store_load dec :: ('io, 'b) json_store \<Rightarrow> _) (json_save enc empty_file) (as_stored vn)"
proof unfold_locales
  fix snap and p p' :: "('io, 'b) json_store"
  obtain d ios n where p: "p = (d, ios, n)" by (cases p)
  obtain r ds where r: "json_save_trace enc empty_file (ios n) snap d = (r, ds)" by fastforce
  show "json_store_load dec p' = load_migrated (as_stored vn snap)"
    if "json_save enc empty_file snap p = (None, p')"
  proof -
    from that p r have r': "json_save_trace enc empty_file (ios n) snap d = (None, ds)"
      and p': "p' = (hd ds, ios, Suc n)" by (simp_all add: json_save_def)
    from json_save_trace_ok [OF r'] obtain bytes where
      "enc snap = Inr bytes" "disk_file (hd ds) = Some bytes" by blast
    with rt p' show ?thesis by (simp add: serde_roundtrip_def json_load_def json_store_load_def)
  qed
  show "json_store_load dec p' = json_store_load dec p"
    if "json_save enc empty_file snap p = (Some e, p')" for e
  proof -
    from that p r have r': "json_save_trace enc empty_file (ios n) snap d = (Some e, ds)"
      and p': "p' = (hd ds, ios, Suc n)" by (simp_all add: json_save_def)
    from json_save_trace_err [OF r'] p' p show ?thesis by (simp add: json_load_def json_store_load_def)
  qed
qed (simp add: as_stored_def)

end
