(* ===== verification/Events.thy ===== *)
theory Events
  imports Prelude
begin

text \<open>
  The events of \<^verbatim>\<open>protocol/events.rs\<close> and their fan-out to the subscriptions of
  \<^verbatim>\<open>runtime/authority.rs\<close>. A subscription owns the sending end of an unbounded channel: the
  model keeps what was sent through it, in order, and whether its receiver is still there. The
  two emitters of the code differ only in the topics they match; the interface \<open>fanout\<close> is what
  they share.
\<close>

section \<open>Events\<close>

datatype log_level = LogTrace | LogDebug | LogInfo | LogWarn | LogError

datatype runtime_event_payload =
  EvRunStatus (ev_run: string) (ev_status: string) (ev_agent: "string option")
    (ev_flow_run: "string option") (ev_detail: "json option")
| EvTrace (ev_run: string) json
| EvToken (ev_run: string) string string
| EvThinkingToken (ev_run: string) string string
| EvPermissionRequest (ev_run: string) string json
| EvLog log_level string string
| EvRaw json
| EvFileEdited (ev_run: string) "string option" string string
| EvGitCommitCreated (ev_run: string) "string option" string string "string list"
| EvGitPushed (ev_run: string) "string option" string string nat
| EvTaskStarted (ev_run: string) string
| EvTaskCompleted (ev_run: string) string bool
| EvSessionRenamed string string bool
| EvCriticResult (ev_run: string) string bool string u32 u32

record runtime_event =
  sequence :: u64
  emitted_at_ms :: int
  payload :: runtime_event_payload

section \<open>Subscriptions\<close>

datatype subscription_tag = SubscriptionTag
type_synonym subscription_id = "subscription_tag uuid_newtype"

record subscription =
  sub_topic :: string
  sub_sent :: "runtime_event list"
  rx_alive :: bool
  next_seq :: u64

type_synonym subscriptions = "(subscription_id \<times> subscription) list"

definition new_subscription :: "string \<Rightarrow> subscription" where
  "new_subscription topic = \<lparr>sub_topic = topic, sub_sent = [], rx_alive = True, next_seq = 0\<rparr>"

definition sub_matches :: "subscription \<Rightarrow> string \<Rightarrow> bool" where
  "sub_matches s topic = (sub_topic s = ''*'' \<or> sub_topic s = topic)"

text \<open>The body of the walk for a matching subscription whose receiver is there.\<close>

definition deliver :: "int \<Rightarrow> runtime_event_payload \<Rightarrow> subscription \<Rightarrow> subscription" where
  "deliver now p s = s\<lparr>sub_sent := sub_sent s @ [\<lparr>sequence = next_seq s, emitted_at_ms = now, payload = p\<rparr>],
     next_seq := next_seq s + 1\<rparr>"

text \<open>
  The walk over the subscriptions: matching ones whose receiver is gone are collected in \<open>dead\<close>.
\<close>

fun emit_walk :: "(subscription \<Rightarrow> bool) \<Rightarrow> int \<Rightarrow> runtime_event_payload \<Rightarrow> subscriptions
    \<Rightarrow> subscriptions \<times> subscription_id list" where
  "emit_walk wants now p [] = ([], [])"
| "emit_walk wants now p ((i, s) # subs) =
     (case emit_walk wants now p subs of (rest, dead) \<Rightarrow>
        if \<not> wants s then ((i, s) # rest, dead)
        else if rx_alive s then ((i, deliver now p s) # rest, dead)
        else ((i, s) # rest, i # dead))"

definition emit_locked :: "string \<Rightarrow> int \<Rightarrow> runtime_event_payload \<Rightarrow> subscriptions \<Rightarrow> subscriptions" where
  "emit_locked topic now p subs =
     (case emit_walk (\<lambda>s. sub_matches s topic) now p subs of (subs', dead) \<Rightarrow> fold hm_remove dead subs')"

definition emit_scoped :: "string list \<Rightarrow> int \<Rightarrow> runtime_event_payload \<Rightarrow> subscriptions \<Rightarrow> subscriptions" where
  "emit_scoped topics now p subs =
     (case emit_walk (\<lambda>s. sub_topic s = ''*'' \<or> sub_topic s \<in> set topics) now p subs of
        (subs', dead) \<Rightarrow> fold hm_remove dead subs')"

section \<open>The contract of an emitter\<close>

text \<open>What one emission does to a subscription.\<close>

definition fan_one :: "(subscription \<Rightarrow> bool) \<Rightarrow> int \<Rightarrow> runtime_event_payload \<Rightarrow> subscription \<Rightarrow> subscription option" where
  "fan_one wants now p s =
     (if \<not> wants s then Some s else if rx_alive s then Some (deliver now p s) else None)"

lemma emit_walk_keys: "map fst (fst (emit_walk wants now p subs)) = map fst subs"
  by (induction subs) (auto split: prod.splits)

lemma emit_walk_dead: "set (snd (emit_walk wants now p subs)) \<subseteq> fst ` set subs"
  by (induction subs) (auto split: prod.splits if_splits)

lemma emit_walk_dead_iff:
  assumes "distinct (map fst subs)" and "map_of subs i = Some s"
  shows "i \<in> set (snd (emit_walk wants now p subs)) \<longleftrightarrow> wants s \<and> \<not> rx_alive s"
  using assms
proof (induction subs)
  case (Cons e subs)
  obtain j t where e: "e = (j, t)" by force
  have "i \<notin> set (snd (emit_walk wants now p subs))" if "i \<notin> fst ` set subs"
    using emit_walk_dead [of wants now p subs] that by blast
  with Cons e show ?case
    by (cases "i = j") (auto simp: split_def)
qed simp

lemma emit_walk_lookup:
  assumes "map_of subs i = Some s"
  shows "map_of (fst (emit_walk wants now p subs)) i =
    Some (if wants s \<and> rx_alive s then deliver now p s else s)"
  using assms by (induction subs) (auto simp: split_def split: if_splits)

lemma map_of_fold_remove: "map_of (fold hm_remove is m) i = (if i \<in> set is then None else map_of m i)"
  by (induction "is" arbitrary: m) (auto simp: store_simps)

lemma distinct_fold_remove: "distinct (map fst m) \<Longrightarrow> distinct (map fst (fold hm_remove is m))"
  by (induction "is" arbitrary: m) (auto intro: distinct_hm_remove)

definition fan_spec :: "(subscription \<Rightarrow> bool) \<Rightarrow> int \<Rightarrow> runtime_event_payload \<Rightarrow> subscriptions \<Rightarrow> subscriptions \<Rightarrow> bool" where
  "fan_spec wants now p subs subs' \<longleftrightarrow> distinct (map fst subs') \<and>
     (\<forall>i. map_of subs' i = Option.bind (map_of subs i) (fan_one wants now p))"

lemma emit_walk_fan_spec:
  assumes "distinct (map fst subs)" and "emit_walk wants now p subs = (subs', dead)"
  shows "fan_spec wants now p subs (fold hm_remove dead subs')"
proof -
  have dead: "dead = snd (emit_walk wants now p subs)" and subs': "subs' = fst (emit_walk wants now p subs)"
    using assms(2) by simp_all
  have "map_of (fold hm_remove dead subs') i = Option.bind (map_of subs i) (fan_one wants now p)" for i
  proof (cases "map_of subs i")
    case None
    then have "i \<notin> fst ` set subs'"
      using arg_cong [OF emit_walk_keys [of wants now p subs], of set]
      by (simp add: subs' map_of_eq_None_iff)
    then have "map_of subs' i = None" by (simp add: map_of_eq_None_iff)
    with None show ?thesis by (simp add: map_of_fold_remove)
  next
    case (Some s)
    have "map_of subs' i = Some (if wants s \<and> rx_alive s then deliver now p s else s)"
      unfolding subs' by (rule emit_walk_lookup [OF Some])
    moreover have "i \<in> set dead \<longleftrightarrow> wants s \<and> \<not> rx_alive s"
      unfolding dead by (rule emit_walk_dead_iff [OF assms(1) Some])
    ultimately show ?thesis using Some by (simp add: map_of_fold_remove fan_one_def)
  qed
  moreover have "distinct (map fst subs')"
    using assms(1) emit_walk_keys [of wants now p subs] by (simp add: subs')
  ultimately show ?thesis by (simp add: fan_spec_def distinct_fold_remove)
qed

locale fanout =
  fixes emit :: "'t \<Rightarrow> int \<Rightarrow> runtime_event_payload \<Rightarrow> subscriptions \<Rightarrow> subscriptions"
    and wants :: "'t \<Rightarrow> subscription \<Rightarrow> bool"
  assumes emit_fan: "distinct (map fst subs) \<Longrightarrow> fan_spec (wants t) now p subs (emit t now p subs)"
begin

lemma emit_distinct: "distinct (map fst subs) \<Longrightarrow> distinct (map fst (emit t now p subs))"
  using emit_fan by (simp add: fan_spec_def)

lemma emit_lookup: "distinct (map fst subs) \<Longrightarrow>
    map_of (emit t now p subs) i = Option.bind (map_of subs i) (fan_one (wants t) now p)"
  using emit_fan by (simp add: fan_spec_def)

text \<open>A live subscriber of the topic gets the event exactly once, numbered next.\<close>

lemma emit_delivers:
  assumes "distinct (map fst subs)" and "map_of subs i = Some s" and "wants t s" and "rx_alive s"
  shows "\<exists>s'. map_of (emit t now p subs) i = Some s' \<and>
    sub_sent s' = sub_sent s @ [\<lparr>sequence = next_seq s, emitted_at_ms = now, payload = p\<rparr>] \<and>
    next_seq s' = next_seq s + 1"
  using assms by (simp add: emit_lookup fan_one_def deliver_def)

text \<open>Everyone else is left alone, and nobody is added.\<close>

lemma emit_skips:
  assumes "distinct (map fst subs)" and "map_of subs i = Some s" and "\<not> wants t s"
  shows "map_of (emit t now p subs) i = Some s"
  using assms by (simp add: emit_lookup fan_one_def)

lemma emit_adds_none: "distinct (map fst subs) \<Longrightarrow> dom (map_of (emit t now p subs)) \<subseteq> dom (map_of subs)"
  by (auto simp: emit_lookup bind_eq_Some_conv)

text \<open>A subscriber of the topic whose receiver is gone is dropped.\<close>

lemma emit_reaps:
  assumes "distinct (map fst subs)" and "map_of subs i = Some s" and "wants t s" and "\<not> rx_alive s"
  shows "map_of (emit t now p subs) i = None"
  using assms by (simp add: emit_lookup fan_one_def)

text \<open>Emissions keep any invariant of subscriptions that a delivery keeps.\<close>

lemma emit_invariant:
  assumes "distinct (map fst subs)" and "\<And>j r. map_of subs j = Some r \<Longrightarrow> I r"
    and "\<And>r. I r \<Longrightarrow> I (deliver now p r)" and "map_of (emit t now p subs) i = Some s"
  shows "I s"
  using assms by (auto simp: emit_lookup bind_eq_Some_conv fan_one_def split: if_splits)

end

interpretation locked: fanout emit_locked "\<lambda>topic s. sub_matches s topic"
  by unfold_locales (auto simp: emit_locked_def split: prod.split intro: emit_walk_fan_spec)

interpretation scoped: fanout emit_scoped "\<lambda>topics s. sub_topic s = ''*'' \<or> sub_topic s \<in> set topics"
  by unfold_locales (auto simp: emit_scoped_def split: prod.split intro: emit_walk_fan_spec)

section \<open>Sequence numbers\<close>

text \<open>The events of a subscription are numbered from zero without a gap.\<close>

definition sub_numbered :: "subscription \<Rightarrow> bool" where
  "sub_numbered s \<longleftrightarrow> next_seq s = of_nat (length (sub_sent s)) \<and>
     map sequence (sub_sent s) = map of_nat [0..<length (sub_sent s)]"

definition subs_ok :: "subscriptions \<Rightarrow> bool" where
  "subs_ok subs \<longleftrightarrow> distinct (map fst subs) \<and> (\<forall>i s. map_of subs i = Some s \<longrightarrow> sub_numbered s)"

lemma sub_numbered_new: "sub_numbered (new_subscription topic)"
  by (simp add: sub_numbered_def new_subscription_def)

lemma sub_numbered_deliver: "sub_numbered s \<Longrightarrow> sub_numbered (deliver now p s)"
  by (simp add: sub_numbered_def deliver_def)

lemma subs_ok_locked: "subs_ok subs \<Longrightarrow> subs_ok (emit_locked topic now p subs)"
  unfolding subs_ok_def
  by (metis locked.emit_distinct locked.emit_invariant sub_numbered_deliver)

lemma subs_ok_scoped: "subs_ok subs \<Longrightarrow> subs_ok (emit_scoped topics now p subs)"
  unfolding subs_ok_def
  by (metis scoped.emit_distinct scoped.emit_invariant sub_numbered_deliver)

lemma subs_ok_put: "subs_ok subs \<Longrightarrow> sub_numbered s \<Longrightarrow> subs_ok (hm_put i s subs)"
  by (auto simp: subs_ok_def distinct_hm_put store_simps)

lemma subs_ok_remove: "subs_ok subs \<Longrightarrow> subs_ok (hm_remove i subs)"
  by (auto simp: subs_ok_def distinct_hm_remove store_simps split: if_splits)

end
