(* ===== verification/Authority.thy ===== *)
theory Authority
  imports RuntimeState Events
begin

text \<open>
  The runtime authority (\<^verbatim>\<open>runtime/authority.rs\<close>): the state behind its mutex and one definition
  per operation. An operation returns its result and the state it leaves; one critical section of
  the code is one definition, so an operation that takes the lock twice is the composition of two
  of them. A state-changing operation mutates the snapshot first and saves it afterwards: a failed
  save returns the error, keeps the mutation and emits nothing.

  Arguments stand for what the code draws from outside: fresh identifiers, the first clock reading
  \<open>now\<close> of the operation and the clock \<open>ms\<close> of its emissions. The environment holds the
  persistence backend and the display form of UUIDs.
\<close>

section \<open>State\<close>

record ('p, 'e) auth_env =
  env_load :: "'p \<Rightarrow> 'e + snapshot"
  env_save :: "snapshot \<Rightarrow> 'p \<Rightarrow> 'e option \<times> 'p"
  env_disp :: "uuid \<Rightarrow> string"

datatype 'e authority_error =
  UnknownSpace space_id
| UnknownRun run_id
| UnknownReview review_id
| UnknownSession session_id
| InvalidTransition run_id run_status string
| ReviewAlreadyResolved
| Persistence 'e

record review_resolution =
  res_decision :: permission_state
  res_notes :: "string option"

text \<open>
  \<open>pending_resolutions\<close> has the reviews whose oneshot sender is registered, \<open>completions\<close> what
  was sent through them, in order.
\<close>

record 'p authority =
  snap :: snapshot
  subs :: subscriptions
  pending_resolutions :: "review_id set"
  completions :: "(review_id \<times> review_resolution) list"
  flow_sessions :: "string \<rightharpoonup> string"
  live_task_trees :: "run_id \<rightharpoonup> task_tree"
  store :: 'p

type_synonym ('p, 'e, 'a) auth_result = "('e authority_error + 'a) \<times> 'p authority"

section \<open>Persistence and events\<close>

definition persist :: "('p, 'e) auth_env \<Rightarrow> 'p authority \<Rightarrow> 'e option \<times> 'p authority" where
  "persist E a = (case env_save E (snap a) (store a) of (r, p) \<Rightarrow> (r, a\<lparr>store := p\<rparr>))"

text \<open>\<^verbatim>\<open>self.persistence.save(..)?\<close> followed by the rest of the operation.\<close>

definition persist_then :: "('p, 'e) auth_env \<Rightarrow> ('p authority \<Rightarrow> ('p, 'e, 'a) auth_result) \<Rightarrow> 'p authority
    \<Rightarrow> ('p, 'e, 'a) auth_result" where
  "persist_then E k a =
     (case persist E a of (Some e, a') \<Rightarrow> (Inl (Persistence e), a') | (None, a') \<Rightarrow> k a')"

text \<open>\<^verbatim>\<open>let _ = self.persistence.save(..)\<close>.\<close>

definition persist_quietly :: "('p, 'e) auth_env \<Rightarrow> 'p authority \<Rightarrow> 'p authority" where
  "persist_quietly E a = snd (persist E a)"

definition emit_on :: "string \<Rightarrow> int \<Rightarrow> runtime_event_payload \<Rightarrow> 'p authority \<Rightarrow> 'p authority" where
  "emit_on topic ms p a = a\<lparr>subs := emit_locked topic ms p (subs a)\<rparr>"

definition emit_topics :: "string list \<Rightarrow> int \<Rightarrow> runtime_event_payload \<Rightarrow> 'p authority \<Rightarrow> 'p authority" where
  "emit_topics topics ms p a = a\<lparr>subs := emit_scoped topics ms p (subs a)\<rparr>"

fun status_label :: "run_status \<Rightarrow> string" where
  "status_label run_status.Pending = ''pending''"
| "status_label run_status.Running = ''running''"
| "status_label run_status.Paused = ''paused''"
| "status_label run_status.AwaitingReview = ''awaiting_review''"
| "status_label run_status.Succeeded = ''succeeded''"
| "status_label (run_status.Failed _) = ''failed''"
| "status_label run_status.Cancelled = ''cancelled''"

fun permission_label :: "permission_state \<Rightarrow> string" where
  "permission_label permission_state.Pending = ''pending''"
| "permission_label Approved = ''approved''"
| "permission_label Rejected = ''rejected''"
| "permission_label Deferred = ''deferred''"

definition show_id :: "('p, 'e) auth_env \<Rightarrow> 'tag uuid_newtype \<Rightarrow> string" where
  "show_id E i = env_disp E (uuid_of i)"

definition run_topic :: "('p, 'e) auth_env \<Rightarrow> run_id \<Rightarrow> string" where
  "run_topic E i = ''run:'' @ show_id E i"

definition run_topics :: "('p, 'e) auth_env \<Rightarrow> run_id \<Rightarrow> session_id option \<Rightarrow> string list" where
  "run_topics E i sid = [run_topic E i] @
     (case sid of None \<Rightarrow> [] | Some s \<Rightarrow> [''session:'' @ string_of_id s])"

definition flow_run_topics :: "string \<Rightarrow> string option \<Rightarrow> string list" where
  "flow_run_topics frid sid = [''flow_run:'' @ frid] @
     (case sid of None \<Rightarrow> [] | Some s \<Rightarrow> [''session:'' @ s])"

text \<open>The agent an event names: the run's agent id, or the name in its spec.\<close>

definition spec_agent_name :: "json \<Rightarrow> string option" where
  "spec_agent_name spec = Option.bind (json_get spec ''agent_name'') json_as_str"

definition event_agent :: "('p, 'e) auth_env \<Rightarrow> run \<Rightarrow> string option" where
  "event_agent E r = (case run_agent_id r of Some i \<Rightarrow> Some (show_id E i) | None \<Rightarrow> spec_agent_name (run_spec r))"

section \<open>Updates of the snapshot\<close>

definition upd_run :: "run_id \<Rightarrow> (run \<Rightarrow> run) \<Rightarrow> 'p authority \<Rightarrow> 'p authority" where
  "upd_run i f a = a\<lparr>snap := (snap a)\<lparr>runs := bt_modify i f (runs (snap a))\<rparr>\<rparr>"

definition upd_session :: "session_id \<Rightarrow> (session \<Rightarrow> session) \<Rightarrow> 'p authority \<Rightarrow> 'p authority" where
  "upd_session i f a = a\<lparr>snap := (snap a)\<lparr>sessions := bt_modify i f (sessions (snap a))\<rparr>\<rparr>"

definition upd_review :: "review_id \<Rightarrow> (pending_review \<Rightarrow> pending_review) \<Rightarrow> 'p authority \<Rightarrow> 'p authority" where
  "upd_review i f a = a\<lparr>snap := (snap a)\<lparr>reviews := bt_modify i f (reviews (snap a))\<rparr>\<rparr>"

definition get_run :: "'p authority \<Rightarrow> run_id \<Rightarrow> run option" where
  "get_run a i = map_of (runs (snap a)) i"

definition get_session :: "'p authority \<Rightarrow> session_id \<Rightarrow> session option" where
  "get_session a i = map_of (sessions (snap a)) i"

definition get_review :: "'p authority \<Rightarrow> review_id \<Rightarrow> pending_review option" where
  "get_review a i = map_of (reviews (snap a)) i"

section \<open>Construction\<close>

definition fresh_authority :: "snapshot \<Rightarrow> 'p \<Rightarrow> 'p authority" where
  "fresh_authority s p = \<lparr>snap = s, subs = [], pending_resolutions = {}, completions = [],
     flow_sessions = Map.empty, live_task_trees = Map.empty, store = p\<rparr>"

definition abandon_run :: "int \<Rightarrow> run \<Rightarrow> run" where
  "abandon_run now r =
     (case run_status r of
        run_status.Running \<Rightarrow> r\<lparr>run_status := run_status.Paused, run_updated_at_ms := now\<rparr>
      | run_status.Pending \<Rightarrow> r\<lparr>run_status := run_status.Paused, run_updated_at_ms := now\<rparr>
      | run_status.AwaitingReview \<Rightarrow> r\<lparr>run_status := run_status.Paused, run_updated_at_ms := now\<rparr>
      | _ \<Rightarrow> r)"

definition is_abandoned :: "run \<Rightarrow> bool" where
  "is_abandoned r = (case run_status r of
      run_status.Running \<Rightarrow> True | run_status.Pending \<Rightarrow> True | run_status.AwaitingReview \<Rightarrow> True | _ \<Rightarrow> False)"

definition recover_snapshot :: "int \<Rightarrow> snapshot \<Rightarrow> snapshot" where
  "recover_snapshot now s = s\<lparr>runs := bt_map_values (abandon_run now) (runs s), reviews := []\<rparr>"

definition rehydrate :: "('p, 'e) auth_env \<Rightarrow> int \<Rightarrow> 'p \<Rightarrow> ('e authority_error + 'p authority) \<times> 'p" where
  "rehydrate E now p =
     (case env_load E p of
        Inl e \<Rightarrow> (Inl (Persistence e), p)
      | Inr s \<Rightarrow>
          let abandoned = length (filter (\<lambda>(_, r). is_abandoned r) (runs s));
              stale = length (reviews s);
              s' = recover_snapshot now s
          in if 0 < abandoned \<or> 0 < stale
             then (case env_save E s' p of
                     (Some e, p') \<Rightarrow> (Inl (Persistence e), p')
                   | (None, p') \<Rightarrow> (Inr (fresh_authority s' p'), p'))
             else (Inr (fresh_authority s' p), p))"

definition in_memory :: "in_memory_persistence authority" where
  "in_memory = fresh_authority default_snapshot default_in_memory_persistence"

section \<open>Queries\<close>

definition space_id_for_session :: "'p authority \<Rightarrow> session_id \<Rightarrow> space_id option" where
  "space_id_for_session a sid = map_option session_space_id (get_session a sid)"

definition get_space_snapshot :: "('p, 'e) auth_env \<Rightarrow> 'p authority \<Rightarrow> string \<Rightarrow> run list \<times> pending_review list" where
  "get_space_snapshot E a sp =
     (let rs = filter (\<lambda>r. show_id E (run_space_id r) = sp) (map snd (runs (snap a)));
          ids = set (map run_id rs)
      in (rs, filter (\<lambda>rv. review_run_id rv \<in> ids \<and> review_state rv = permission_state.Pending)
                (map snd (reviews (snap a)))))"

definition session_thread_of :: "'p authority \<Rightarrow> session_id \<Rightarrow> chat_message list option" where
  "session_thread_of a sid = map_option session_thread (get_session a sid)"

definition run_id_for_review :: "'p authority \<Rightarrow> review_id \<Rightarrow> run_id option" where
  "run_id_for_review a rid = map_option review_run_id (get_review a rid)"

definition run_status_of :: "'p authority \<Rightarrow> run_id \<Rightarrow> 'e authority_error + run_status" where
  "run_status_of a i = (case get_run a i of None \<Rightarrow> Inl (UnknownRun i) | Some r \<Rightarrow> Inr (run_status r))"

definition run_history_of :: "'p authority \<Rightarrow> run_id \<Rightarrow> 'e authority_error + history_entry list" where
  "run_history_of a i = (case get_run a i of None \<Rightarrow> Inl (UnknownRun i) | Some r \<Rightarrow> Inr (run_history r))"

definition resolve_session :: "'p authority \<Rightarrow> string \<Rightarrow> string option" where
  "resolve_session a frid = flow_sessions a frid"

definition get_task_tree :: "'p authority \<Rightarrow> run_id \<Rightarrow> task_tree option" where
  "get_task_tree a i = live_task_trees a i"

text \<open>The first non-blank user turn of an unnamed session; the empty string when there is none.\<close>

fun first_user_text :: "chat_message list \<Rightarrow> string option" where
  "first_user_text [] = None"
| "first_user_text (m # ms) =
     (if msg_role m = User then
        (case msg_content m of
           None \<Rightarrow> first_user_text ms
         | Some t \<Rightarrow> (if str_trim t \<noteq> [] then Some (str_trim t) else first_user_text ms))
      else first_user_text ms)"

definition session_needs_naming :: "'p authority \<Rightarrow> session_id \<Rightarrow> string option" where
  "session_needs_naming a sid =
     (case get_session a sid of
        None \<Rightarrow> None
      | Some s \<Rightarrow>
          if session_name s \<noteq> None \<or> manually_named s then None
          else (case first_user_text (session_thread s) of Some t \<Rightarrow> Some t | None \<Rightarrow> Some []))"

section \<open>Spaces, agents, sessions\<close>

definition upsert_space :: "('p, 'e) auth_env \<Rightarrow> space \<Rightarrow> 'p authority \<Rightarrow> ('p, 'e, unit) auth_result" where
  "upsert_space E sp a =
     persist_then E (\<lambda>a. (Inr (), a))
       (a\<lparr>snap := (snap a)\<lparr>spaces := bt_put (space_id sp) sp (spaces (snap a))\<rparr>\<rparr>)"

definition upsert_agent :: "('p, 'e) auth_env \<Rightarrow> agent \<Rightarrow> 'p authority \<Rightarrow> ('p, 'e, unit) auth_result" where
  "upsert_agent E ag a =
     (if map_of (spaces (snap a)) (agent_space_id ag) = None then (Inl (UnknownSpace (agent_space_id ag)), a)
      else persist_then E (\<lambda>a. (Inr (), a))
        (a\<lparr>snap := (snap a)\<lparr>agents := bt_put (agent_id ag) ag (agents (snap a))\<rparr>\<rparr>))"

definition new_session :: "session_id \<Rightarrow> space_id \<Rightarrow> string option \<Rightarrow> int \<Rightarrow> session" where
  "new_session sid sp nm now = \<lparr>session_id = sid, session_space_id = sp, session_name = nm,
     session_agent_id = None, session_thread = [], session_run_ids = [], session_flow_run_ids = [],
     read_namespace = None, write_namespace = None, parent_session_id = None,
     session_fork_point = None, session_created_at_ms = now, session_updated_at_ms = now,
     manually_named = False\<rparr>"

definition get_or_create_session :: "('p, 'e) auth_env \<Rightarrow> int \<Rightarrow> session_id \<Rightarrow> space_id \<Rightarrow> string option
    \<Rightarrow> 'p authority \<Rightarrow> ('p, 'e, chat_message list) auth_result" where
  "get_or_create_session E now sid sp nm a =
     (if map_of (spaces (snap a)) sp = None then (Inl (UnknownSpace sp), a)
      else
        let s = (case get_session a sid of Some s \<Rightarrow> s | None \<Rightarrow> new_session sid sp nm now);
            a' = (if get_session a sid = None
                  then a\<lparr>snap := (snap a)\<lparr>sessions := bt_put sid s (sessions (snap a))\<rparr>\<rparr> else a)
        in persist_then E (\<lambda>a. (Inr (session_thread s), a)) a')"

text \<open>The body of the guarded push onto \<^verbatim>\<open>run_ids\<close>.\<close>

definition push_run_id :: "int \<Rightarrow> run_id \<Rightarrow> session \<Rightarrow> session" where
  "push_run_id now i s =
     (if i \<in> set (session_run_ids s) then s
      else s\<lparr>session_run_ids := session_run_ids s @ [i], session_updated_at_ms := now\<rparr>)"

definition attach_run_to_session :: "('p, 'e) auth_env \<Rightarrow> int \<Rightarrow> session_id \<Rightarrow> run_id \<Rightarrow> 'p authority
    \<Rightarrow> ('p, 'e, unit) auth_result" where
  "attach_run_to_session E now sid i a =
     persist_then E (\<lambda>a. (Inr (), a)) (upd_session sid (push_run_id now i) a)"

definition attach_flow_run_to_session :: "('p, 'e) auth_env \<Rightarrow> int \<Rightarrow> session_id \<Rightarrow> string \<Rightarrow> 'p authority
    \<Rightarrow> 'p authority" where
  "attach_flow_run_to_session E now sid frid a =
     (case get_session a sid of
        None \<Rightarrow> a
      | Some s \<Rightarrow>
          if frid \<in> set (session_flow_run_ids s) then a
          else persist_quietly E (upd_session sid (\<lambda>s. s\<lparr>
            session_flow_run_ids := session_flow_run_ids s @ [frid], session_updated_at_ms := now\<rparr>) a))"

definition rename_session :: "('p, 'e) auth_env \<Rightarrow> int \<Rightarrow> int \<Rightarrow> session_id \<Rightarrow> string \<Rightarrow> 'p authority
    \<Rightarrow> ('p, 'e, unit) auth_result" where
  "rename_session E now ms sid nm a =
     (case get_session a sid of
        None \<Rightarrow> (Inl (UnknownSession sid), a)
      | Some _ \<Rightarrow>
          persist_then E (\<lambda>a. (Inr (), emit_on ''*'' ms (EvSessionRenamed (string_of_id sid) nm True) a))
            (upd_session sid (\<lambda>s. s\<lparr>session_name := Some nm, manually_named := True,
               session_updated_at_ms := now\<rparr>) a))"

definition auto_name_session :: "('p, 'e) auth_env \<Rightarrow> int \<Rightarrow> int \<Rightarrow> session_id \<Rightarrow> string \<Rightarrow> 'p authority
    \<Rightarrow> 'p authority" where
  "auto_name_session E now ms sid nm a =
     (case get_session a sid of
        None \<Rightarrow> a
      | Some s \<Rightarrow>
          if manually_named s then a
          else emit_on ''*'' ms (EvSessionRenamed (string_of_id sid) nm False)
            (persist_quietly E (upd_session sid (\<lambda>s. s\<lparr>session_name := Some nm,
               session_updated_at_ms := now\<rparr>) a)))"

definition set_session_fork_point :: "('p, 'e) auth_env \<Rightarrow> int \<Rightarrow> session_id \<Rightarrow> session_id \<Rightarrow> fork_point
    \<Rightarrow> 'p authority \<Rightarrow> 'p authority" where
  "set_session_fork_point E now sid parent fp a =
     (case get_session a sid of
        None \<Rightarrow> a
      | Some _ \<Rightarrow> persist_quietly E (upd_session sid (\<lambda>s. s\<lparr>parent_session_id := Some parent,
          session_fork_point := Some fp, session_updated_at_ms := now\<rparr>) a))"

definition flush_thread :: "('p, 'e) auth_env \<Rightarrow> int \<Rightarrow> session_id \<Rightarrow> chat_message list \<Rightarrow> 'p authority
    \<Rightarrow> ('p, 'e, unit) auth_result" where
  "flush_thread E now sid th a =
     (case get_session a sid of
        None \<Rightarrow> (Inr (), a)
      | Some _ \<Rightarrow> persist_then E (\<lambda>a. (Inr (), a))
          (upd_session sid (\<lambda>s. s\<lparr>session_thread := th, session_updated_at_ms := now\<rparr>) a))"

definition update_session_namespaces :: "('p, 'e) auth_env \<Rightarrow> int \<Rightarrow> session_id \<Rightarrow> string
    \<Rightarrow> memory_namespace_id \<Rightarrow> 'p authority \<Rightarrow> bool \<times> 'p authority" where
  "update_session_namespaces E now sid tgt ns a =
     (case get_session a sid of
        None \<Rightarrow> (False, a)
      | Some _ \<Rightarrow>
          (True, persist_quietly E (upd_session sid (\<lambda>s.
             (if tgt = ''read'' then s\<lparr>read_namespace := Some ns\<rparr>
              else if tgt = ''write'' then s\<lparr>write_namespace := Some ns\<rparr>
              else s\<lparr>read_namespace := Some ns, write_namespace := Some ns\<rparr>)
             \<lparr>session_updated_at_ms := now\<rparr>) a)))"

section \<open>Subscriptions\<close>

definition subscribe :: "subscription_id \<Rightarrow> string \<Rightarrow> 'p authority \<Rightarrow> 'p authority" where
  "subscribe i topic a = a\<lparr>subs := hm_put i (new_subscription topic) (subs a)\<rparr>"

definition unsubscribe :: "subscription_id \<Rightarrow> 'p authority \<Rightarrow> bool \<times> 'p authority" where
  "unsubscribe i a = (map_of (subs a) i \<noteq> None, a\<lparr>subs := hm_remove i (subs a)\<rparr>)"

text \<open>The holder of a receiver drops it.\<close>

definition drop_receiver :: "subscription_id \<Rightarrow> 'p authority \<Rightarrow> 'p authority" where
  "drop_receiver i a =
     (case map_of (subs a) i of
        None \<Rightarrow> a
      | Some s \<Rightarrow> a\<lparr>subs := hm_put i (s\<lparr>rx_alive := False\<rparr>) (subs a)\<rparr>)"

section \<open>Run lifecycle\<close>

definition new_run :: "run_id \<Rightarrow> space_id \<Rightarrow> agent_id option \<Rightarrow> json \<Rightarrow> session_id option \<Rightarrow> int \<Rightarrow> run" where
  "new_run i sp ag spec sid now = \<lparr>run_id = i, run_space_id = sp, run_agent_id = ag,
     run_session_id = sid, run_flow_run_id = None, run_status = run_status.Pending, run_spec = spec,
     run_history = [], run_created_at_ms = now, run_updated_at_ms = now, run_goal = None,
     run_parent_run_id = None, run_produces = [], run_resolved_reviews = [], run_file_changes = []\<rparr>"

text \<open>\<open>i\<close> is the id drawn for the run, or for the placeholder of the unknown-agent error.\<close>

definition start_run_with_session :: "('p, 'e) auth_env \<Rightarrow> int \<Rightarrow> int \<Rightarrow> run_id \<Rightarrow> space_id
    \<Rightarrow> agent_id option \<Rightarrow> json \<Rightarrow> session_id option \<Rightarrow> 'p authority \<Rightarrow> ('p, 'e, run_id) auth_result" where
  "start_run_with_session E now ms i sp ag spec sid a =
     (if map_of (spaces (snap a)) sp = None then (Inl (UnknownSpace sp), a)
      else if (case ag of None \<Rightarrow> False | Some g \<Rightarrow> map_of (agents (snap a)) g = None)
      then (Inl (InvalidTransition i run_status.Pending ''start with unknown agent''), a)
      else
        let a1 = (case sid of None \<Rightarrow> a | Some s \<Rightarrow> upd_session s (push_run_id now i) a);
            a2 = a1\<lparr>snap := (snap a1)\<lparr>runs := bt_put i (new_run i sp ag spec sid now) (runs (snap a1))\<rparr>\<rparr>
        in persist_then E (\<lambda>a. (Inr i, emit_topics (run_topics E i sid) ms
             (EvRunStatus (show_id E i) ''pending'' (spec_agent_name spec) None None) a)) a2)"

definition start_run :: "('p, 'e) auth_env \<Rightarrow> int \<Rightarrow> int \<Rightarrow> run_id \<Rightarrow> space_id \<Rightarrow> agent_id option \<Rightarrow> json
    \<Rightarrow> 'p authority \<Rightarrow> ('p, 'e, run_id) auth_result" where
  "start_run E now ms i sp ag spec a = start_run_with_session E now ms i sp ag spec None a"

definition set_run_flow_id :: "('p, 'e) auth_env \<Rightarrow> int \<Rightarrow> run_id \<Rightarrow> string \<Rightarrow> 'p authority \<Rightarrow> 'p authority" where
  "set_run_flow_id E now i frid a =
     (case get_run a i of
        None \<Rightarrow> a
      | Some _ \<Rightarrow> persist_quietly E (upd_run i (\<lambda>r. r\<lparr>run_flow_run_id := Some frid,
          run_updated_at_ms := now\<rparr>) a))"

definition set_run_goal :: "('p, 'e) auth_env \<Rightarrow> int \<Rightarrow> run_id \<Rightarrow> string option \<Rightarrow> 'p authority
    \<Rightarrow> ('p, 'e, unit) auth_result" where
  "set_run_goal E now i goal a =
     (case get_run a i of
        None \<Rightarrow> (Inl (UnknownRun i), a)
      | Some _ \<Rightarrow> persist_then E (\<lambda>a. (Inr (), a))
          (upd_run i (\<lambda>r. r\<lparr>run_goal := goal, run_updated_at_ms := now\<rparr>) a))"

definition append_produced_doc :: "('p, 'e) auth_env \<Rightarrow> int \<Rightarrow> run_id \<Rightarrow> produced_doc \<Rightarrow> 'p authority
    \<Rightarrow> 'p authority" where
  "append_produced_doc E now i doc a =
     (case get_run a i of
        None \<Rightarrow> a
      | Some _ \<Rightarrow> persist_quietly E (upd_run i (\<lambda>r. r\<lparr>run_produces := run_produces r @ [doc],
          run_updated_at_ms := now\<rparr>) a))"

definition failure_detail :: "run_status \<Rightarrow> json option" where
  "failure_detail st = (case st of
     run_status.Failed m \<Rightarrow> (if m \<noteq> [] then Some (JObject [(''message'', JString m)]) else None)
   | _ \<Rightarrow> None)"

definition transition_run :: "('p, 'e) auth_env \<Rightarrow> int \<Rightarrow> int \<Rightarrow> run_id \<Rightarrow> string
    \<Rightarrow> (run_status \<Rightarrow> run_status option) \<Rightarrow> 'p authority \<Rightarrow> ('p, 'e, unit) auth_result" where
  "transition_run E now ms i act decide a =
     (case get_run a i of
        None \<Rightarrow> (Inl (UnknownRun i), a)
      | Some r \<Rightarrow>
          (case decide (run_status r) of
             None \<Rightarrow> (Inl (InvalidTransition i (run_status r) act), a)
           | Some nxt \<Rightarrow>
               persist_then E (\<lambda>a. (Inr (), emit_topics (run_topics E i (run_session_id r)) ms
                   (EvRunStatus (show_id E i) (status_label nxt) (event_agent E r) (run_flow_run_id r)
                      (failure_detail nxt)) a))
                 (upd_run i (\<lambda>r. r\<lparr>run_status := nxt, run_updated_at_ms := now\<rparr>) a)))"

fun cancel_decide :: "run_status \<Rightarrow> run_status option" where
  "cancel_decide run_status.Succeeded = None"
| "cancel_decide (run_status.Failed _) = None"
| "cancel_decide run_status.Cancelled = None"
| "cancel_decide _ = Some run_status.Cancelled"

fun pause_decide :: "run_status \<Rightarrow> run_status option" where
  "pause_decide run_status.Running = Some run_status.Paused"
| "pause_decide run_status.Pending = Some run_status.Paused"
| "pause_decide _ = None"

fun resume_decide :: "run_status \<Rightarrow> run_status option" where
  "resume_decide run_status.Paused = Some run_status.Running"
| "resume_decide run_status.AwaitingReview = Some run_status.Running"
| "resume_decide _ = None"

fun mark_running_decide :: "run_status \<Rightarrow> run_status option" where
  "mark_running_decide run_status.Pending = Some run_status.Running"
| "mark_running_decide run_status.Paused = Some run_status.Running"
| "mark_running_decide run_status.AwaitingReview = Some run_status.Running"
| "mark_running_decide _ = None"

definition cancel_run :: "('p, 'e) auth_env \<Rightarrow> int \<Rightarrow> int \<Rightarrow> run_id \<Rightarrow> 'p authority \<Rightarrow> ('p, 'e, unit) auth_result" where
  "cancel_run E now ms i a = transition_run E now ms i ''cancel'' cancel_decide a"

definition pause_run :: "('p, 'e) auth_env \<Rightarrow> int \<Rightarrow> int \<Rightarrow> run_id \<Rightarrow> 'p authority \<Rightarrow> ('p, 'e, unit) auth_result" where
  "pause_run E now ms i a = transition_run E now ms i ''pause'' pause_decide a"

definition resume_run :: "('p, 'e) auth_env \<Rightarrow> int \<Rightarrow> int \<Rightarrow> run_id \<Rightarrow> 'p authority \<Rightarrow> ('p, 'e, unit) auth_result" where
  "resume_run E now ms i a = transition_run E now ms i ''resume'' resume_decide a"

text \<open>
  The three operations of the agent loop read the status in a critical section of its own and act
  in a second one: \<open>*_commit\<close> is the second.
\<close>

definition mark_running_commit :: "('p, 'e) auth_env \<Rightarrow> int \<Rightarrow> int \<Rightarrow> run_id \<Rightarrow> 'p authority
    \<Rightarrow> ('p, 'e, unit) auth_result" where
  "mark_running_commit E now ms i a = transition_run E now ms i ''mark_running'' mark_running_decide a"

definition complete_commit :: "('p, 'e) auth_env \<Rightarrow> int \<Rightarrow> int \<Rightarrow> run_id \<Rightarrow> 'p authority
    \<Rightarrow> ('p, 'e, unit) auth_result" where
  "complete_commit E now ms i a = transition_run E now ms i ''complete'' (\<lambda>_. Some run_status.Succeeded) a"

definition fail_commit :: "('p, 'e) auth_env \<Rightarrow> int \<Rightarrow> int \<Rightarrow> run_id \<Rightarrow> string \<Rightarrow> 'p authority
    \<Rightarrow> ('p, 'e, unit) auth_result" where
  "fail_commit E now ms i msg a = transition_run E now ms i ''fail'' (\<lambda>_. Some (run_status.Failed msg)) a"

definition mark_run_running :: "('p, 'e) auth_env \<Rightarrow> int \<Rightarrow> int \<Rightarrow> run_id \<Rightarrow> 'p authority
    \<Rightarrow> ('p, 'e, unit) auth_result" where
  "mark_run_running E now ms i a =
     (case run_status_of a i of
        Inl e \<Rightarrow> (Inl e, a)
      | Inr st \<Rightarrow> if st = run_status.Running then (Inr (), a) else mark_running_commit E now ms i a)"

definition complete_run :: "('p, 'e) auth_env \<Rightarrow> int \<Rightarrow> int \<Rightarrow> run_id \<Rightarrow> 'p authority
    \<Rightarrow> ('p, 'e, unit) auth_result" where
  "complete_run E now ms i a =
     (case run_status_of a i of
        Inl e \<Rightarrow> (Inl e, a)
      | Inr st \<Rightarrow> if is_terminal st then (Inr (), a) else complete_commit E now ms i a)"

definition fail_run :: "('p, 'e) auth_env \<Rightarrow> int \<Rightarrow> int \<Rightarrow> run_id \<Rightarrow> string \<Rightarrow> 'p authority
    \<Rightarrow> ('p, 'e, unit) auth_result" where
  "fail_run E now ms i msg a =
     (case run_status_of a i of
        Inl e \<Rightarrow> (Inl e, a)
      | Inr st \<Rightarrow> if is_terminal st then (Inr (), a) else fail_commit E now ms i msg a)"

definition push_history :: "int \<Rightarrow> json \<Rightarrow> run \<Rightarrow> run" where
  "push_history now p r = r\<lparr>run_history := run_history r @ [\<lparr>recorded_at_ms = now, history_payload = p\<rparr>],
     run_updated_at_ms := now\<rparr>"

definition post_input :: "('p, 'e) auth_env \<Rightarrow> int \<Rightarrow> int \<Rightarrow> run_id \<Rightarrow> json \<Rightarrow> 'p authority
    \<Rightarrow> ('p, 'e, unit) auth_result" where
  "post_input E now ms i p a =
     (case get_run a i of
        None \<Rightarrow> (Inl (UnknownRun i), a)
      | Some r \<Rightarrow>
          if is_terminal (run_status r) then (Inl (InvalidTransition i (run_status r) ''post_input''), a)
          else persist_then E (\<lambda>a. (Inr (), emit_topics (run_topics E i (run_session_id r)) ms
              (EvTrace (show_id E i) (JObject [(''kind'', JString ''user_input''), (''payload'', p)])) a))
            (upd_run i (push_history now p) a))"

definition append_history :: "('p, 'e) auth_env \<Rightarrow> int \<Rightarrow> run_id \<Rightarrow> json \<Rightarrow> 'p authority
    \<Rightarrow> ('p, 'e, unit) auth_result" where
  "append_history E now i p a =
     (case get_run a i of
        None \<Rightarrow> (Inl (UnknownRun i), a)
      | Some _ \<Rightarrow> persist_then E (\<lambda>a. (Inr (), a)) (upd_run i (push_history now p) a))"

section \<open>Reviews\<close>

definition open_review :: "('p, 'e) auth_env \<Rightarrow> int \<Rightarrow> (nat \<Rightarrow> int) \<Rightarrow> review_id \<Rightarrow> run_id \<Rightarrow> json \<Rightarrow> 'p authority
    \<Rightarrow> ('p, 'e, review_id) auth_result" where
  "open_review E now ms rid i req a =
     (case get_run a i of
        None \<Rightarrow> (Inl (UnknownRun i), a)
      | Some r \<Rightarrow>
          if is_terminal (run_status r) then (Inl (InvalidTransition i (run_status r) ''open_review''), a)
          else
            let a1 = upd_run i (\<lambda>r. r\<lparr>run_status := run_status.AwaitingReview, run_updated_at_ms := now\<rparr>) a;
                rv = \<lparr>review_id = rid, review_run_id = i, review_request = req,
                  review_state = permission_state.Pending, review_notes = None,
                  review_created_at_ms = now, review_updated_at_ms = now\<rparr>;
                a2 = a1\<lparr>snap := (snap a1)\<lparr>reviews := bt_put rid rv (reviews (snap a1))\<rparr>\<rparr>;
                topics = run_topics E i (run_session_id r)
            in persist_then E (\<lambda>a. (Inr rid,
                 emit_topics topics (ms 1) (EvPermissionRequest (show_id E i) (show_id E rid) req)
                   (emit_topics topics (ms 0) (EvRunStatus (show_id E i) ''awaiting_review''
                      (event_agent E r) (run_flow_run_id r) None) a))) a2)"

definition resolve_review :: "('p, 'e) auth_env \<Rightarrow> int \<Rightarrow> (nat \<Rightarrow> int) \<Rightarrow> run_id \<Rightarrow> review_id
    \<Rightarrow> permission_state \<Rightarrow> string option \<Rightarrow> 'p authority \<Rightarrow> ('p, 'e, unit) auth_result" where
  "resolve_review E now ms i rid d notes a =
     (if d = permission_state.Pending
      then (Inl (InvalidTransition i run_status.AwaitingReview ''resolve_review with Pending''), a)
      else (case get_review a rid of
        None \<Rightarrow> (Inl (UnknownReview rid), a)
      | Some rv \<Rightarrow>
          if review_run_id rv \<noteq> i then (Inl (UnknownReview rid), a)
          else if review_state rv \<noteq> permission_state.Pending then (Inl ReviewAlreadyResolved, a)
          else
            let a1 = upd_review rid (\<lambda>v. v\<lparr>review_state := d, review_notes := notes,
                       review_updated_at_ms := now\<rparr>) a
            in (case get_run a1 i of
              None \<Rightarrow> (Inl (UnknownRun i), a1)
            | Some r \<Rightarrow>
                let a2 = upd_run i (\<lambda>r.
                      (if d = Approved
                       then r\<lparr>run_status := run_status.Running, run_updated_at_ms := now\<rparr>
                       else r\<lparr>run_updated_at_ms := now\<rparr>)
                      \<lparr>run_resolved_reviews := run_resolved_reviews r @
                         [\<lparr>resolved_review_id = rid, resolved_request = review_request rv,
                           resolved_decision = d, resolved_notes = notes, resolved_at_ms = now\<rparr>]\<rparr>) a1;
                    topics = run_topics E i (run_session_id r)
                in persist_then E (\<lambda>a.
                     let a3 = emit_topics topics (ms 0) (EvTrace (show_id E i) (JObject
                           [(''decision'', JString (permission_label d)),
                            (''kind'', JString ''review_resolved''),
                            (''review_id'', JString (show_id E rid))])) a;
                         a4 = (if d = Approved then emit_topics topics (ms 1)
                             (EvRunStatus (show_id E i) ''running'' (event_agent E r) (run_flow_run_id r) None) a3
                           else a3);
                         a5 = (if rid \<in> pending_resolutions a4
                           then a4\<lparr>pending_resolutions := pending_resolutions a4 - {rid},
                             completions := completions a4 @ [(rid, \<lparr>res_decision = d, res_notes = notes\<rparr>)]\<rparr>
                           else a4)
                     in (Inr (), a5)) a2)))"

text \<open>The second critical section of \<^verbatim>\<open>open_review_with_completion\<close>.\<close>

definition register_completion :: "review_id \<Rightarrow> 'p authority \<Rightarrow> 'p authority" where
  "register_completion rid a = a\<lparr>pending_resolutions := insert rid (pending_resolutions a)\<rparr>"

definition open_review_with_completion :: "('p, 'e) auth_env \<Rightarrow> int \<Rightarrow> (nat \<Rightarrow> int) \<Rightarrow> review_id \<Rightarrow> run_id
    \<Rightarrow> json \<Rightarrow> 'p authority \<Rightarrow> ('p, 'e, review_id) auth_result" where
  "open_review_with_completion E now ms rid i req a =
     (case open_review E now ms rid i req a of
        (Inl e, a') \<Rightarrow> (Inl e, a')
      | (Inr rid', a') \<Rightarrow> (Inr rid', register_completion rid' a'))"

section \<open>Emission\<close>

definition emit_for_run :: "('p, 'e) auth_env \<Rightarrow> int \<Rightarrow> run_id \<Rightarrow> runtime_event_payload \<Rightarrow> 'p authority
    \<Rightarrow> 'p authority" where
  "emit_for_run E ms i p a =
     emit_topics (run_topics E i (Option.bind (get_run a i) run_session_id)) ms p a"

definition emit :: "int \<Rightarrow> string \<Rightarrow> runtime_event_payload \<Rightarrow> 'p authority \<Rightarrow> 'p authority" where
  "emit ms topic p a = emit_on topic ms p a"

definition emit_many :: "int \<Rightarrow> string list \<Rightarrow> runtime_event_payload \<Rightarrow> 'p authority \<Rightarrow> 'p authority" where
  "emit_many ms topics p a = emit_topics topics ms p a"

definition emit_log :: "int \<Rightarrow> string \<Rightarrow> log_level \<Rightarrow> string \<Rightarrow> 'p authority \<Rightarrow> 'p authority" where
  "emit_log ms tgt lvl msg a = emit_on ''*'' ms (EvLog lvl tgt msg) a"

section \<open>Session routing and memory\<close>

definition bind_session :: "string \<Rightarrow> string \<Rightarrow> 'p authority \<Rightarrow> 'p authority" where
  "bind_session frid sid a = a\<lparr>flow_sessions := (flow_sessions a)(frid \<mapsto> sid)\<rparr>"

fun seed_flow_sessions :: "(string \<times> string) list \<Rightarrow> 'p authority \<Rightarrow> 'p authority" where
  "seed_flow_sessions [] a = a"
| "seed_flow_sessions ((frid, sid) # ps) a =
     seed_flow_sessions ps
       (if flow_sessions a frid = None then a\<lparr>flow_sessions := (flow_sessions a)(frid \<mapsto> sid)\<rparr> else a)"

definition put_memory :: "('p, 'e) auth_env \<Rightarrow> memory_namespace_id \<Rightarrow> memory_entry \<Rightarrow> 'p authority
    \<Rightarrow> ('p, 'e, unit) auth_result" where
  "put_memory E ns entr a =
     (let n = (case map_of (memory (snap a)) ns of Some n \<Rightarrow> n
                 | None \<Rightarrow> \<lparr>namespace_id = ns, namespace_entries = []\<rparr>);
          n' = n\<lparr>namespace_entries := bt_put (entry_key entr) entr (namespace_entries n)\<rparr>
      in persist_then E (\<lambda>a. (Inr (), a))
           (a\<lparr>snap := (snap a)\<lparr>memory := bt_put ns n' (memory (snap a))\<rparr>\<rparr>))"

section \<open>Task trees\<close>

definition tree_put :: "task \<Rightarrow> task_tree option \<Rightarrow> task_tree" where
  "tree_put t tree =
     (let tr = (case tree of None \<Rightarrow> new_task_tree | Some tr \<Rightarrow> tr)
      in tr\<lparr>tree_tasks := bt_put (task_id t) t (tree_tasks tr)\<rparr>)"

definition tree_finish :: "task_id \<Rightarrow> task_status \<Rightarrow> json option \<Rightarrow> task_tree \<Rightarrow> task_tree" where
  "tree_finish tid st out tree = tree\<lparr>tree_tasks :=
     bt_modify tid (\<lambda>t. t\<lparr>task_status := st, task_output := out\<rparr>) (tree_tasks tree)\<rparr>"

definition start_child_task :: "('p, 'e) auth_env \<Rightarrow> int \<Rightarrow> int \<Rightarrow> task_id \<Rightarrow> run_id \<Rightarrow> task_id option
    \<Rightarrow> string \<Rightarrow> agent_id option \<Rightarrow> string option \<Rightarrow> 'p authority \<Rightarrow> ('p, 'e, task_id) auth_result" where
  "start_child_task E now ms tid i parent lbl ag fid a =
     (let t = \<lparr>task_id = tid, task_parent_id = parent, task_label = lbl, task_agent_id = ag,
            task_flow_id = fid, task_status = task_status.Running, task_output = None,
            task_created_at_ms = now\<rparr>;
          a1 = a\<lparr>live_task_trees := (live_task_trees a)(i \<mapsto> tree_put t (live_task_trees a i))\<rparr>;
          a2 = a1\<lparr>snap := (snap a1)\<lparr>task_trees :=
                 bt_put i (tree_put t (map_of (task_trees (snap a1)) i)) (task_trees (snap a1))\<rparr>\<rparr>
      in persist_then E (\<lambda>a. (Inr tid,
           emit_topics (run_topics E i (Option.bind (get_run a i) run_session_id)) ms
             (EvTaskStarted (show_id E i) (show_id E tid)) a)) a2)"

definition complete_child_task :: "('p, 'e) auth_env \<Rightarrow> int \<Rightarrow> run_id \<Rightarrow> task_id \<Rightarrow> json option \<Rightarrow> bool
    \<Rightarrow> 'p authority \<Rightarrow> ('p, 'e, unit) auth_result" where
  "complete_child_task E ms i tid out success a =
     (let st = (if success then task_status.Completed else task_status.Failed);
          a1 = (case live_task_trees a i of
                  None \<Rightarrow> a
                | Some tree \<Rightarrow> a\<lparr>live_task_trees := (live_task_trees a)(i \<mapsto> tree_finish tid st out tree)\<rparr>);
          a2 = a1\<lparr>snap := (snap a1)\<lparr>task_trees := bt_modify i (tree_finish tid st out) (task_trees (snap a1))\<rparr>\<rparr>
      in persist_then E (\<lambda>a. (Inr (),
           emit_topics (run_topics E i (Option.bind (get_run a i) run_session_id)) ms
             (EvTaskCompleted (show_id E i) (show_id E tid) success) a)) a2)"

end
