(* ===== verification/AuthoritySteps.thy ===== *)
theory AuthoritySteps
  imports Authority
begin

text \<open>
  The authority as a state machine: one operation per critical section, in any order and from any
  caller, and what every operation keeps. The snapshot changes only by the atomic changes of
  \<open>snap_change\<close>; the invariants are proved once per atomic change.
\<close>

section \<open>Operations as steps\<close>

datatype auth_op =
  OpUpsertSpace space
| OpUpsertAgent agent
| OpGetOrCreateSession int session_id space_id "string option"
| OpAttachRun int session_id run_id
| OpAttachFlowRun int session_id string
| OpRenameSession int int session_id string
| OpAutoName int int session_id string
| OpForkPoint int session_id session_id fork_point
| OpFlushThread int session_id "chat_message list"
| OpNamespaces int session_id string memory_namespace_id
| OpSubscribe subscription_id string
| OpUnsubscribe subscription_id
| OpDropReceiver subscription_id
| OpStartRun int int run_id space_id "agent_id option" json "session_id option"
| OpSetFlowId int run_id string
| OpSetGoal int run_id "string option"
| OpAppendDoc int run_id produced_doc
| OpCancel int int run_id
| OpPause int int run_id
| OpResume int int run_id
| OpMarkRunning int int run_id
| OpComplete int int run_id
| OpFail int int run_id string
| OpPostInput int int run_id json
| OpAppendHistory int run_id json
| OpOpenReview int "nat \<Rightarrow> int" review_id run_id json
| OpResolveReview int "nat \<Rightarrow> int" run_id review_id permission_state "string option"
| OpRegisterCompletion review_id
| OpEmitForRun int run_id runtime_event_payload
| OpEmit int string runtime_event_payload
| OpEmitMany int "string list" runtime_event_payload
| OpEmitLog int string log_level string
| OpBindSession string string
| OpSeedSessions "(string \<times> string) list"
| OpPutMemory memory_namespace_id memory_entry
| OpStartTask int int task_id run_id "task_id option" string "agent_id option" "string option"
| OpCompleteTask int run_id task_id "json option" bool

fun auth_exec :: "('p, 'e) auth_env \<Rightarrow> auth_op \<Rightarrow> 'p authority \<Rightarrow> 'p authority" where
  "auth_exec E (OpUpsertSpace sp) a = snd (upsert_space E sp a)"
| "auth_exec E (OpUpsertAgent ag) a = snd (upsert_agent E ag a)"
| "auth_exec E (OpGetOrCreateSession now sid sp nm) a = snd (get_or_create_session E now sid sp nm a)"
| "auth_exec E (OpAttachRun now sid i) a = snd (attach_run_to_session E now sid i a)"
| "auth_exec E (OpAttachFlowRun now sid frid) a = attach_flow_run_to_session E now sid frid a"
| "auth_exec E (OpRenameSession now ms sid nm) a = snd (rename_session E now ms sid nm a)"
| "auth_exec E (OpAutoName now ms sid nm) a = auto_name_session E now ms sid nm a"
| "auth_exec E (OpForkPoint now sid parent fp) a = set_session_fork_point E now sid parent fp a"
| "auth_exec E (OpFlushThread now sid th) a = snd (flush_thread E now sid th a)"
| "auth_exec E (OpNamespaces now sid tgt ns) a = snd (update_session_namespaces E now sid tgt ns a)"
| "auth_exec E (OpSubscribe k topic) a = subscribe k topic a"
| "auth_exec E (OpUnsubscribe k) a = snd (unsubscribe k a)"
| "auth_exec E (OpDropReceiver k) a = drop_receiver k a"
| "auth_exec E (OpStartRun now ms i sp ag spec sid) a = snd (start_run_with_session E now ms i sp ag spec sid a)"
| "auth_exec E (OpSetFlowId now i frid) a = set_run_flow_id E now i frid a"
| "auth_exec E (OpSetGoal now i goal) a = snd (set_run_goal E now i goal a)"
| "auth_exec E (OpAppendDoc now i doc) a = append_produced_doc E now i doc a"
| "auth_exec E (OpCancel now ms i) a = snd (cancel_run E now ms i a)"
| "auth_exec E (OpPause now ms i) a = snd (pause_run E now ms i a)"
| "auth_exec E (OpResume now ms i) a = snd (resume_run E now ms i a)"
| "auth_exec E (OpMarkRunning now ms i) a = snd (mark_running_commit E now ms i a)"
| "auth_exec E (OpComplete now ms i) a = snd (complete_commit E now ms i a)"
| "auth_exec E (OpFail now ms i msg) a = snd (fail_commit E now ms i msg a)"
| "auth_exec E (OpPostInput now ms i p) a = snd (post_input E now ms i p a)"
| "auth_exec E (OpAppendHistory now i p) a = snd (append_history E now i p a)"
| "auth_exec E (OpOpenReview now ms rid i req) a = snd (open_review E now ms rid i req a)"
| "auth_exec E (OpResolveReview now ms i rid d notes) a = snd (resolve_review E now ms i rid d notes a)"
| "auth_exec E (OpRegisterCompletion rid) a = register_completion rid a"
| "auth_exec E (OpEmitForRun ms i p) a = emit_for_run E ms i p a"
| "auth_exec E (OpEmit ms topic p) a = emit ms topic p a"
| "auth_exec E (OpEmitMany ms topics p) a = emit_many ms topics p a"
| "auth_exec E (OpEmitLog ms tgt lvl msg) a = emit_log ms tgt lvl msg a"
| "auth_exec E (OpBindSession frid sid) a = bind_session frid sid a"
| "auth_exec E (OpSeedSessions ps) a = seed_flow_sessions ps a"
| "auth_exec E (OpPutMemory ns entr) a = snd (put_memory E ns entr a)"
| "auth_exec E (OpStartTask now ms tid i parent lbl ag fid) a = snd (start_child_task E now ms tid i parent lbl ag fid a)"
| "auth_exec E (OpCompleteTask ms i tid out success) a = snd (complete_child_task E ms i tid out success a)"

text \<open>The identifiers an operation draws are new.\<close>

fun op_fresh :: "auth_op \<Rightarrow> 'p authority \<Rightarrow> bool" where
  "op_fresh (OpStartRun now ms i sp ag spec sid) a = (get_run a i = None)"
| "op_fresh (OpOpenReview now ms rid i req) a =
     (get_review a rid = None \<and> rid \<notin> fst ` set (completions a) \<and>
      (\<forall>r \<in> snd ` set (runs (snap a)). rid \<notin> resolved_review_id ` set (run_resolved_reviews r)))"
| "op_fresh _ a = True"

inductive auth_steps :: "('p, 'e) auth_env \<Rightarrow> 'p authority \<Rightarrow> auth_op list \<Rightarrow> 'p authority \<Rightarrow> bool"
  for E where
  auth_steps_Nil: "auth_steps E a [] a"
| auth_steps_Cons: "op_fresh x a \<Longrightarrow> auth_steps E (auth_exec E x a) xs b \<Longrightarrow> auth_steps E a (x # xs) b"

inductive_simps auth_steps_Nil_iff [simp]: "auth_steps E a [] b"
inductive_simps auth_steps_Cons_iff [simp]: "auth_steps E a (x # xs) b"

lemma auth_steps_invariant:
  assumes "auth_steps E a xs b" and "I a"
    and "\<And>a x. I a \<Longrightarrow> op_fresh x a \<Longrightarrow> I (auth_exec E x a)"
  shows "I b"
  using assms by (induction rule: auth_steps.induct) blast+

section \<open>Frame lemmas\<close>

lemma persist_snd [auth_simps]:
  "snd (persist E a) = a\<lparr>store := snd (env_save E (snap a) (store a))\<rparr>"
  by (simp add: persist_def split: prod.split)

lemma persist_fst [auth_simps]: "fst (persist E a) = fst (env_save E (snap a) (store a))"
  by (simp add: persist_def split: prod.split)

lemma persist_then_snd [auth_simps]:
  "snd (persist_then E k a) =
     (if fst (env_save E (snap a) (store a)) = None
      then snd (k (a\<lparr>store := snd (env_save E (snap a) (store a))\<rparr>))
      else a\<lparr>store := snd (env_save E (snap a) (store a))\<rparr>)"
  by (auto simp: persist_then_def persist_def split: prod.split option.split)

lemma persist_quietly_eq [auth_simps]:
  "persist_quietly E a = a\<lparr>store := snd (env_save E (snap a) (store a))\<rparr>"
  by (simp add: persist_quietly_def persist_snd)

lemma emit_topics_frame [auth_simps]:
  "snap (emit_topics topics ms p a) = snap a"
  "store (emit_topics topics ms p a) = store a"
  "pending_resolutions (emit_topics topics ms p a) = pending_resolutions a"
  "completions (emit_topics topics ms p a) = completions a"
  "live_task_trees (emit_topics topics ms p a) = live_task_trees a"
  "flow_sessions (emit_topics topics ms p a) = flow_sessions a"
  by (simp_all add: emit_topics_def)

lemma emit_on_frame [auth_simps]:
  "snap (emit_on topic ms p a) = snap a"
  "store (emit_on topic ms p a) = store a"
  "pending_resolutions (emit_on topic ms p a) = pending_resolutions a"
  "completions (emit_on topic ms p a) = completions a"
  "live_task_trees (emit_on topic ms p a) = live_task_trees a"
  "flow_sessions (emit_on topic ms p a) = flow_sessions a"
  by (simp_all add: emit_on_def)

lemma upd_frame [auth_simps]:
  "snap (upd_run i f a) = (snap a)\<lparr>runs := bt_modify i f (runs (snap a))\<rparr>"
  "store (upd_run i f a) = store a" "subs (upd_run i f a) = subs a"
  "pending_resolutions (upd_run i f a) = pending_resolutions a"
  "completions (upd_run i f a) = completions a"
  "snap (upd_session k g a) = (snap a)\<lparr>sessions := bt_modify k g (sessions (snap a))\<rparr>"
  "store (upd_session k g a) = store a" "subs (upd_session k g a) = subs a"
  "pending_resolutions (upd_session k g a) = pending_resolutions a"
  "completions (upd_session k g a) = completions a"
  "snap (upd_review j h a) = (snap a)\<lparr>reviews := bt_modify j h (reviews (snap a))\<rparr>"
  "store (upd_review j h a) = store a" "subs (upd_review j h a) = subs a"
  "pending_resolutions (upd_review j h a) = pending_resolutions a"
  "completions (upd_review j h a) = completions a"
  by (simp_all add: upd_run_def upd_session_def upd_review_def)

lemma seed_frame [auth_simps]:
  "snap (seed_flow_sessions ps a) = snap a" "store (seed_flow_sessions ps a) = store a"
  "subs (seed_flow_sessions ps a) = subs a"
  "pending_resolutions (seed_flow_sessions ps a) = pending_resolutions a"
  "completions (seed_flow_sessions ps a) = completions a"
  by (induction ps a rule: seed_flow_sessions.induct) simp_all

lemmas op_defs =
  upsert_space_def upsert_agent_def get_or_create_session_def attach_run_to_session_def
  attach_flow_run_to_session_def rename_session_def auto_name_session_def set_session_fork_point_def
  flush_thread_def update_session_namespaces_def subscribe_def unsubscribe_def drop_receiver_def
  start_run_with_session_def set_run_flow_id_def set_run_goal_def append_produced_doc_def
  transition_run_def cancel_run_def pause_run_def resume_run_def mark_running_commit_def
  complete_commit_def fail_commit_def post_input_def append_history_def open_review_def
  resolve_review_def register_completion_def emit_for_run_def emit_def emit_many_def emit_log_def
  bind_session_def put_memory_def start_child_task_def complete_child_task_def Let_def

section \<open>Subscriptions\<close>

lemma subs_ok_emit_on: "subs_ok (subs a) \<Longrightarrow> subs_ok (subs (emit_on topic ms p a))"
  by (simp add: emit_on_def subs_ok_locked)

lemma subs_ok_emit_topics: "subs_ok (subs a) \<Longrightarrow> subs_ok (subs (emit_topics topics ms p a))"
  by (simp add: emit_topics_def subs_ok_scoped)

lemma subs_ok_drop: "subs_ok m \<Longrightarrow> map_of m i = Some s \<Longrightarrow> subs_ok (hm_put i (s\<lparr>rx_alive := False\<rparr>) m)"
  by (rule subs_ok_put) (auto simp: subs_ok_def sub_numbered_def)

lemma subs_ok_exec: "subs_ok (subs a) \<Longrightarrow> subs_ok (subs (auth_exec E x a))"
  by (cases x) (auto simp: op_defs auth_simps sub_numbered_new split: option.split
    intro!: subs_ok_emit_on subs_ok_emit_topics subs_ok_put subs_ok_remove subs_ok_drop)

section \<open>Atomic changes of the snapshot\<close>

text \<open>How a session may be rewritten: its identity and space stay, its run lists stay distinct.\<close>

definition session_edit :: "(session \<Rightarrow> session) \<Rightarrow> bool" where
  "session_edit f \<longleftrightarrow> (\<forall>s. session_id (f s) = session_id s \<and> session_space_id (f s) = session_space_id s \<and>
     (distinct (session_run_ids s) \<longrightarrow> distinct (session_run_ids (f s))))"

text \<open>How a run may be rewritten by all but the review operations.\<close>

definition run_edit :: "(run \<Rightarrow> run) \<Rightarrow> bool" where
  "run_edit f \<longleftrightarrow> (\<forall>r. run_id (f r) = run_id r \<and> run_space_id (f r) = run_space_id r \<and>
     run_resolved_reviews (f r) = run_resolved_reviews r)"

definition is_resolution :: "review_id \<Rightarrow> pending_review \<Rightarrow> resolved_review \<Rightarrow> bool" where
  "is_resolution rid rv e \<longleftrightarrow> resolved_review_id e = rid \<and> resolved_decision e = review_state rv \<and>
     resolved_notes e = review_notes rv \<and> resolved_request e = review_request rv"

text \<open>
  One constructor per kind of mutation. A resolution updates the review and its run's trail in the
  same critical section, so it is one change.
\<close>

inductive snap_change :: "snapshot \<Rightarrow> snapshot \<Rightarrow> bool" where
  ch_space: "space_id sp = k \<Longrightarrow> snap_change s (s\<lparr>spaces := bt_put k sp (spaces s)\<rparr>)"
| ch_agent: "agent_id ag = k \<Longrightarrow> map_of (spaces s) (agent_space_id ag) \<noteq> None \<Longrightarrow>
     snap_change s (s\<lparr>agents := bt_put k ag (agents s)\<rparr>)"
| ch_new_session: "session_id ss = k \<Longrightarrow> map_of (spaces s) (session_space_id ss) \<noteq> None \<Longrightarrow>
     session_run_ids ss = [] \<Longrightarrow> snap_change s (s\<lparr>sessions := bt_put k ss (sessions s)\<rparr>)"
| ch_session: "session_edit f \<Longrightarrow> snap_change s (s\<lparr>sessions := bt_modify k f (sessions s)\<rparr>)"
| ch_new_run: "run_id r = k \<Longrightarrow> map_of (spaces s) (run_space_id r) \<noteq> None \<Longrightarrow>
     run_resolved_reviews r = [] \<Longrightarrow> map_of (runs s) k = None \<Longrightarrow>
     snap_change s (s\<lparr>runs := bt_put k r (runs s)\<rparr>)"
| ch_run: "run_edit f \<Longrightarrow> snap_change s (s\<lparr>runs := bt_modify k f (runs s)\<rparr>)"
| ch_new_review: "review_id rv = k \<Longrightarrow> map_of (runs s) (review_run_id rv) \<noteq> None \<Longrightarrow>
     review_state rv = permission_state.Pending \<Longrightarrow> map_of (reviews s) k = None \<Longrightarrow>
     (\<forall>r \<in> snd ` set (runs s). k \<notin> resolved_review_id ` set (run_resolved_reviews r)) \<Longrightarrow>
     snap_change s (s\<lparr>reviews := bt_put k rv (reviews s)\<rparr>)"
| ch_resolve: "map_of (reviews s) k = Some rv \<Longrightarrow> review_state rv = permission_state.Pending \<Longrightarrow>
     review_id rv' = review_id rv \<Longrightarrow> review_run_id rv' = review_run_id rv \<Longrightarrow>
     review_state rv' \<noteq> permission_state.Pending \<Longrightarrow> is_resolution k rv' e \<Longrightarrow>
     (\<And>r. run_id (f r) = run_id r \<and> run_space_id (f r) = run_space_id r \<and>
        run_resolved_reviews (f r) = run_resolved_reviews r @ [e]) \<Longrightarrow>
     snap_change s (s\<lparr>reviews := bt_put k rv' (reviews s),
       runs := bt_modify (review_run_id rv) f (runs s)\<rparr>)"
| ch_memory: "namespace_id n = k \<Longrightarrow> snap_change s (s\<lparr>memory := bt_put k n (memory s)\<rparr>)"
| ch_tree: "snap_change s (s\<lparr>task_trees := bt_put i (tree_put t (map_of (task_trees s) i)) (task_trees s)\<rparr>)"
| ch_tree_finish: "snap_change s (s\<lparr>task_trees := bt_modify i (tree_finish tid st out) (task_trees s)\<rparr>)"

section \<open>The invariant of the snapshot\<close>

definition trail_ok :: "snapshot \<Rightarrow> bool" where
  "trail_ok s \<longleftrightarrow> (\<forall>k rv. map_of (reviews s) k = Some rv \<longrightarrow> (\<forall>i r. map_of (runs s) i = Some r \<longrightarrow>
     (let es = filter (\<lambda>e. resolved_review_id e = k) (run_resolved_reviews r)
      in if i = review_run_id rv \<and> review_state rv \<noteq> permission_state.Pending
         then (\<exists>e. es = [e] \<and> is_resolution k rv e) else es = [])))"

text \<open>Every entry is stored under its own id.\<close>

definition keys_ok :: "snapshot \<Rightarrow> bool" where
  "keys_ok s \<longleftrightarrow>
     (\<forall>k x. map_of (spaces s) k = Some x \<longrightarrow> space_id x = k) \<and>
     (\<forall>k x. map_of (agents s) k = Some x \<longrightarrow> agent_id x = k) \<and>
     (\<forall>k x. map_of (sessions s) k = Some x \<longrightarrow> session_id x = k) \<and>
     (\<forall>k x. map_of (runs s) k = Some x \<longrightarrow> run_id x = k) \<and>
     (\<forall>k x. map_of (reviews s) k = Some x \<longrightarrow> review_id x = k) \<and>
     (\<forall>k x. map_of (memory s) k = Some x \<longrightarrow> namespace_id x = k)"

text \<open>Agents, sessions and runs name existing spaces, reviews existing runs.\<close>

definition refs_ok :: "snapshot \<Rightarrow> bool" where
  "refs_ok s \<longleftrightarrow>
     (\<forall>k x. map_of (agents s) k = Some x \<longrightarrow> agent_space_id x \<in> dom (map_of (spaces s))) \<and>
     (\<forall>k x. map_of (sessions s) k = Some x \<longrightarrow> session_space_id x \<in> dom (map_of (spaces s))) \<and>
     (\<forall>k x. map_of (runs s) k = Some x \<longrightarrow> run_space_id x \<in> dom (map_of (spaces s))) \<and>
     (\<forall>k x. map_of (reviews s) k = Some x \<longrightarrow> review_run_id x \<in> dom (map_of (runs s)))"

definition maps_ok :: "snapshot \<Rightarrow> bool" where
  "maps_ok s \<longleftrightarrow> bt_sorted (spaces s) \<and> bt_sorted (agents s) \<and> bt_sorted (sessions s) \<and>
     bt_sorted (runs s) \<and> bt_sorted (reviews s) \<and> bt_sorted (memory s) \<and> bt_sorted (task_trees s)"

definition sessions_ok :: "snapshot \<Rightarrow> bool" where
  "sessions_ok s \<longleftrightarrow> (\<forall>k x. map_of (sessions s) k = Some x \<longrightarrow> distinct (session_run_ids x))"

definition wf_snapshot :: "snapshot \<Rightarrow> bool" where
  "wf_snapshot s \<longleftrightarrow> schema_version s = SNAPSHOT_SCHEMA_VERSION \<and> maps_ok s \<and> keys_ok s \<and> refs_ok s \<and>
     sessions_ok s \<and> trail_ok s"

lemma wf_default_snapshot: "wf_snapshot default_snapshot"
  by (simp add: wf_snapshot_def default_snapshot_def maps_ok_def keys_ok_def refs_ok_def
      sessions_ok_def trail_ok_def bt_sorted_def)

lemma change_version: "snap_change s s' \<Longrightarrow> schema_version s' = schema_version s"
  by (cases rule: snap_change.cases) auto

lemma change_maps: "snap_change s s' \<Longrightarrow> maps_ok s \<Longrightarrow> maps_ok s'"
  by (cases rule: snap_change.cases) (auto simp: maps_ok_def bt_sorted_put bt_sorted_modify)

lemma change_keys: "snap_change s s' \<Longrightarrow> keys_ok s \<Longrightarrow> keys_ok s'"
  by (cases rule: snap_change.cases)
    (auto simp: keys_ok_def store_simps map_of_bt_modify session_edit_def run_edit_def split: if_splits)

lemma change_refs: "snap_change s s' \<Longrightarrow> refs_ok s \<Longrightarrow> refs_ok s'"
  by (cases rule: snap_change.cases)
    (auto simp: refs_ok_def store_simps map_of_bt_modify session_edit_def run_edit_def dom_def split: if_splits)

lemma change_sessions: "snap_change s s' \<Longrightarrow> sessions_ok s \<Longrightarrow> sessions_ok s'"
  by (cases rule: snap_change.cases)
    (auto simp: sessions_ok_def store_simps map_of_bt_modify session_edit_def split: if_splits)

lemma trail_edit:
  assumes "trail_ok s" and "reviews s' = reviews s"
    and "\<And>i r'. map_of (runs s') i = Some r' \<Longrightarrow> run_resolved_reviews r' = [] \<and> map_of (runs s) i = None \<or>
      (\<exists>r. map_of (runs s) i = Some r \<and> run_resolved_reviews r' = run_resolved_reviews r)"
    and "\<And>k rv. map_of (reviews s) k = Some rv \<Longrightarrow> map_of (runs s) (review_run_id rv) \<noteq> None"
  shows "trail_ok s'"
  unfolding trail_ok_def
proof (intro allI impI)
  fix k rv i r'
  assume rv: "map_of (reviews s') k = Some rv" and r': "map_of (runs s') i = Some r'"
  from rv assms(2) have rv0: "map_of (reviews s) k = Some rv" by simp
  from assms(3) [OF r'] show "let es = filter (\<lambda>e. resolved_review_id e = k) (run_resolved_reviews r')
      in if i = review_run_id rv \<and> review_state rv \<noteq> permission_state.Pending
         then (\<exists>e. es = [e] \<and> is_resolution k rv e) else es = []"
  proof (elim disjE conjE exE)
    assume "run_resolved_reviews r' = []" "map_of (runs s) i = None"
    with assms(4) [OF rv0] show ?thesis by auto
  next
    fix r assume "map_of (runs s) i = Some r" "run_resolved_reviews r' = run_resolved_reviews r"
    with assms(1) rv0 show ?thesis by (simp add: trail_ok_def)
  qed
qed

lemma trail_resolve:
  assumes tr: "trail_ok s" and rv: "map_of (reviews s) k = Some rv"
    and pend: "review_state rv = permission_state.Pending"
    and rv': "review_run_id rv' = review_run_id rv" "review_state rv' \<noteq> permission_state.Pending"
    and e: "is_resolution k rv' e"
    and f: "\<And>r. run_resolved_reviews (f r) = run_resolved_reviews r @ [e]"
  shows "trail_ok (s\<lparr>reviews := bt_put k rv' (reviews s), runs := bt_modify (review_run_id rv) f (runs s)\<rparr>)"
    (is "trail_ok ?s")
  unfolding trail_ok_def
proof (intro allI impI)
  fix j w i r'
  assume w: "map_of (reviews ?s) j = Some w" and r': "map_of (runs ?s) i = Some r'"
  from r' obtain r where r: "map_of (runs s) i = Some r"
    and r'_eq: "r' = (if i = review_run_id rv then f r else r)"
    by (auto simp: map_of_bt_modify split: if_splits)
  have eid: "resolved_review_id e = k" using e by (simp add: is_resolution_def)
  let ?goal = "let es = filter (\<lambda>e. resolved_review_id e = j) (run_resolved_reviews r')
      in if i = review_run_id w \<and> review_state w \<noteq> permission_state.Pending
         then (\<exists>e. es = [e] \<and> is_resolution j w e) else es = []"
  show ?goal
  proof (cases "j = k")
    case True
    with w have "w = rv'" by (simp add: store_simps)
    moreover have "filter (\<lambda>e. resolved_review_id e = k) (run_resolved_reviews r) = []"
      using tr rv r pend by (simp add: trail_ok_def Let_def)
    ultimately show ?thesis using True rv' e f eid by (simp add: r'_eq)
  next
    case False
    with w have "map_of (reviews s) j = Some w" by (simp add: store_simps)
    with tr r have "let es = filter (\<lambda>e. resolved_review_id e = j) (run_resolved_reviews r)
      in if i = review_run_id w \<and> review_state w \<noteq> permission_state.Pending
         then (\<exists>e. es = [e] \<and> is_resolution j w e) else es = []" by (simp add: trail_ok_def)
    moreover have "filter (\<lambda>e. resolved_review_id e = j) (run_resolved_reviews r') =
        filter (\<lambda>e. resolved_review_id e = j) (run_resolved_reviews r)"
      using False f eid by (simp add: r'_eq)
    ultimately show ?thesis by simp
  qed
qed

lemma trail_new_review:
  assumes tr: "trail_ok s" and "review_state rv = permission_state.Pending"
    and fresh: "\<forall>r \<in> snd ` set (runs s). k \<notin> resolved_review_id ` set (run_resolved_reviews r)"
  shows "trail_ok (s\<lparr>reviews := bt_put k rv (reviews s)\<rparr>)"
proof -
  have "filter (\<lambda>e. resolved_review_id e = k) (run_resolved_reviews r) = []"
    if "map_of (runs s) i = Some r" for i r
  proof -
    from that have "r \<in> snd ` set (runs s)" by (force dest: map_of_SomeD)
    with fresh show ?thesis by (auto simp: filter_empty_conv)
  qed
  with tr assms(2) show ?thesis by (auto simp: trail_ok_def store_simps)
qed

lemma trail_same: "trail_ok s \<Longrightarrow> reviews s' = reviews s \<Longrightarrow> runs s' = runs s \<Longrightarrow> trail_ok s'"
  by (simp only: trail_ok_def)

lemma refs_review_run:
  "refs_ok s \<Longrightarrow> map_of (reviews s) k = Some rv \<Longrightarrow> map_of (runs s) (review_run_id rv) \<noteq> None"
  by (simp add: refs_ok_def dom_def)

lemma change_trail: "snap_change s s' \<Longrightarrow> trail_ok s \<Longrightarrow> refs_ok s \<Longrightarrow> trail_ok s'"
proof (induction rule: snap_change.induct)
  case (ch_new_run r k s)
  note refs = refs_review_run [OF ch_new_run.prems(2)]
  show ?case
    by (rule trail_edit [where s = s])
      (use ch_new_run.hyps ch_new_run.prems(1) refs in \<open>simp_all add: store_simps split: if_splits\<close>)
next
  case (ch_run f s k)
  note refs = refs_review_run [OF ch_run.prems(2)]
  have edit: "run_resolved_reviews (f r) = run_resolved_reviews r" for r
    using ch_run.hyps by (simp add: run_edit_def)
  show ?case
  proof (rule trail_edit [where s = s])
    fix i r' assume "map_of (runs (s\<lparr>runs := bt_modify k f (runs s)\<rparr>)) i = Some r'"
    then obtain r where "map_of (runs s) i = Some r" "r' = (if i = k then f r else r)"
      by (auto simp: map_of_bt_modify split: if_splits)
    then show "run_resolved_reviews r' = [] \<and> map_of (runs s) i = None \<or>
        (\<exists>r. map_of (runs s) i = Some r \<and> run_resolved_reviews r' = run_resolved_reviews r)"
      by (simp add: edit)
  qed (use ch_run.prems(1) refs in simp_all)
next
  case (ch_new_review rv k s)
  then show ?case by (intro trail_new_review)
next
  case (ch_resolve s k rv rv' e f)
  then show ?case by (intro trail_resolve) auto
qed (erule trail_same; simp)+

lemma change_wf: "snap_change s s' \<Longrightarrow> wf_snapshot s \<Longrightarrow> wf_snapshot s'"
  unfolding wf_snapshot_def
  using change_version change_maps change_keys change_refs change_sessions change_trail by metis

lemma changes_wf: "snap_change\<^sup>*\<^sup>* s s' \<Longrightarrow> wf_snapshot s \<Longrightarrow> wf_snapshot s'"
  by (induction rule: rtranclp_induct) (auto intro: change_wf)

section \<open>Every operation is a sequence of atomic changes\<close>

lemma snap_persist_then [auth_simps]:
  "(\<And>b. snap (snd (k b)) = snap b) \<Longrightarrow> snap (snd (persist_then E k a)) = snap a"
  by (simp add: persist_then_snd)

lemma session_editI [intro]:
  "(\<And>s. session_id (f s) = session_id s) \<Longrightarrow> (\<And>s. session_space_id (f s) = session_space_id s) \<Longrightarrow>
   (\<And>s. distinct (session_run_ids s) \<Longrightarrow> distinct (session_run_ids (f s))) \<Longrightarrow> session_edit f"
  by (simp add: session_edit_def)

lemma run_editI [intro]:
  "(\<And>r. run_id (f r) = run_id r) \<Longrightarrow> (\<And>r. run_space_id (f r) = run_space_id r) \<Longrightarrow>
   (\<And>r. run_resolved_reviews (f r) = run_resolved_reviews r) \<Longrightarrow> run_edit f"
  by (simp add: run_edit_def)

lemma changes_session: "session_edit f \<Longrightarrow>
    snap_change\<^sup>*\<^sup>* (snap a) ((snap a)\<lparr>sessions := bt_modify k f (sessions (snap a))\<rparr>)"
  by (blast intro: ch_session)

lemma changes_run: "run_edit f \<Longrightarrow>
    snap_change\<^sup>*\<^sup>* (snap a) ((snap a)\<lparr>runs := bt_modify k f (runs (snap a))\<rparr>)"
  by (blast intro: ch_run)

lemma session_edit_push: "session_edit (push_run_id now i)"
  by (rule session_editI) (simp_all add: push_run_id_def)

lemma run_edit_history: "run_edit (push_history now p)"
  by (rule run_editI) (simp_all add: push_history_def)

lemma changes_transition: "snap_change\<^sup>*\<^sup>* (snap a) (snap (snd (transition_run E now ms i act decide a)))"
  by (auto simp: transition_run_def auth_simps split: option.split intro!: changes_run)

lemma changes_start_run:
  assumes "get_run a i = None"
  shows "snap_change\<^sup>*\<^sup>* (snap a) (snap (snd (start_run_with_session E now ms i sp ag spec sid a)))"
proof -
  define s1 where "s1 = (case sid of None \<Rightarrow> snap a
    | Some k \<Rightarrow> (snap a)\<lparr>sessions := bt_modify k (push_run_id now i) (sessions (snap a))\<rparr>)"
  have s1: "snap_change\<^sup>*\<^sup>* (snap a) s1" "spaces s1 = spaces (snap a)" "runs s1 = runs (snap a)"
    by (auto simp: s1_def session_edit_push intro: changes_session split: option.split)
  show ?thesis
  proof (cases "map_of (spaces (snap a)) sp = None \<or>
      (case ag of None \<Rightarrow> False | Some g \<Rightarrow> map_of (agents (snap a)) g = None)")
    case True
    then show ?thesis by (auto simp: start_run_with_session_def)
  next
    case False
    then have "snap (snd (start_run_with_session E now ms i sp ag spec sid a)) =
        s1\<lparr>runs := bt_put i (new_run i sp ag spec sid now) (runs s1)\<rparr>"
      by (auto simp: start_run_with_session_def Let_def auth_simps s1_def split: option.split)
    moreover have "snap_change s1 (s1\<lparr>runs := bt_put i (new_run i sp ag spec sid now) (runs s1)\<rparr>)"
      using False assms s1 by (intro ch_new_run) (auto simp: new_run_def get_run_def)
    ultimately show ?thesis using s1(1) by (simp add: rtranclp.rtrancl_into_rtrancl)
  qed
qed

lemma changes_open_review:
  assumes "op_fresh (OpOpenReview now ms rid i req) a"
  shows "snap_change\<^sup>*\<^sup>* (snap a) (snap (snd (open_review E now ms rid i req a)))"
proof (cases "get_run a i")
  case None
  then show ?thesis by (simp add: open_review_def)
next
  case (Some r)
  show ?thesis
  proof (cases "is_terminal (run_status r)")
    case True
    with Some show ?thesis by (simp add: open_review_def)
  next
    case False
    define f where "f = (\<lambda>r :: run. r\<lparr>run_status := run_status.AwaitingReview, run_updated_at_ms := now\<rparr>)"
    define rv where "rv = \<lparr>review_id = rid, review_run_id = i, review_request = req,
                  review_state = permission_state.Pending, review_notes = None,
                  review_created_at_ms = now, review_updated_at_ms = now\<rparr>"
    define s1 where "s1 = (snap a)\<lparr>runs := bt_modify i f (runs (snap a))\<rparr>"
    have s1: "snap_change (snap a) s1"
      unfolding s1_def by (rule ch_run) (simp add: run_edit_def f_def)
    have trails: "\<forall>r \<in> snd ` set (runs s1). rid \<notin> resolved_review_id ` set (run_resolved_reviews r)"
    proof
      fix q assume "q \<in> snd ` set (runs s1)"
      then have "q \<in> snd ` set (runs (snap a)) \<or> q \<in> f ` snd ` set (runs (snap a))"
        using bt_modify_values [of q i f] by (simp add: s1_def)
      moreover have "run_resolved_reviews (f q1) = run_resolved_reviews q1" for q1
        by (simp add: f_def)
      ultimately have "\<exists>q0 \<in> snd ` set (runs (snap a)). run_resolved_reviews q = run_resolved_reviews q0"
        by blast
      with assms show "rid \<notin> resolved_review_id ` set (run_resolved_reviews q)" by auto
    qed
    have "snap_change s1 (s1\<lparr>reviews := bt_put rid rv (reviews s1)\<rparr>)"
      using Some assms trails
      by (intro ch_new_review) (auto simp: rv_def s1_def get_run_def get_review_def map_of_bt_modify)
    moreover have "snap (snd (open_review E now ms rid i req a)) = s1\<lparr>reviews := bt_put rid rv (reviews s1)\<rparr>"
      using Some False by (simp add: open_review_def Let_def auth_simps s1_def rv_def f_def)
    ultimately show ?thesis using s1 by (metis converse_rtranclp_into_rtranclp r_into_rtranclp)
  qed
qed

lemma changes_resolve_review:
  assumes "refs_ok (snap a)" and "keys_ok (snap a)"
  shows "snap_change\<^sup>*\<^sup>* (snap a) (snap (snd (resolve_review E now ms i rid d notes a)))"
proof (cases "\<exists>rv. d \<noteq> permission_state.Pending \<and> get_review a rid = Some rv \<and> review_run_id rv = i \<and>
    review_state rv = permission_state.Pending")
  case False
  then show ?thesis by (auto simp: resolve_review_def split: option.split)
next
  case True
  then obtain rv where d: "d \<noteq> permission_state.Pending" and rv: "get_review a rid = Some rv"
    and i: "review_run_id rv = i" and pend: "review_state rv = permission_state.Pending" by blast
  from rv i assms(1) obtain r where r: "get_run a i = Some r"
    using refs_review_run [of "snap a" rid rv] by (auto simp: get_run_def get_review_def)
  define rv' where "rv' = rv\<lparr>review_state := d, review_notes := notes, review_updated_at_ms := now\<rparr>"
  define e where "e = \<lparr>resolved_review_id = rid, resolved_request = review_request rv,
      resolved_decision = d, resolved_notes = notes, resolved_at_ms = now\<rparr>"
  define f where "f = (\<lambda>r :: run. (if d = Approved then r\<lparr>run_status := run_status.Running, run_updated_at_ms := now\<rparr>
      else r\<lparr>run_updated_at_ms := now\<rparr>)\<lparr>run_resolved_reviews := run_resolved_reviews r @ [e]\<rparr>)"
  have "snap (snd (resolve_review E now ms i rid d notes a)) = (snap a)
      \<lparr>reviews := bt_put rid rv' (reviews (snap a)), runs := bt_modify (review_run_id rv) f (runs (snap a))\<rparr>"
    using d rv i pend r
    by (simp add: resolve_review_def Let_def auth_simps get_run_def bt_modify_def get_review_def
        rv'_def f_def e_def)
  moreover have "snap_change (snap a) ((snap a)
      \<lparr>reviews := bt_put rid rv' (reviews (snap a)), runs := bt_modify (review_run_id rv) f (runs (snap a))\<rparr>)"
    using rv pend d by (intro ch_resolve [where e = e])
      (auto simp: get_review_def rv'_def f_def e_def is_resolution_def)
  ultimately show ?thesis by auto
qed

lemma exec_changes:
  assumes "op_fresh x a" and "wf_snapshot (snap a)"
  shows "snap_change\<^sup>*\<^sup>* (snap a) (snap (auth_exec E x a))"
proof (cases x)
  case (OpUpsertSpace sp)
  then show ?thesis by (auto simp: upsert_space_def auth_simps intro: ch_space)
next
  case (OpUpsertAgent ag)
  then show ?thesis by (auto simp: upsert_agent_def auth_simps intro: ch_agent)
next
  case (OpGetOrCreateSession now sid sp nm)
  have "snap_change (snap a) ((snap a)\<lparr>sessions := bt_put sid (new_session sid sp nm now) (sessions (snap a))\<rparr>)"
    if "map_of (spaces (snap a)) sp \<noteq> None"
    using that by (intro ch_new_session) (auto simp: new_session_def)
  with OpGetOrCreateSession show ?thesis
    by (auto simp: get_or_create_session_def Let_def auth_simps split: option.split)
next
  case (OpStartRun now ms i sp ag spec sid)
  with assms show ?thesis by (simp add: changes_start_run)
next
  case (OpOpenReview now ms rid i req)
  with changes_open_review [of now ms rid i req a E] assms show ?thesis by simp
next
  case (OpResolveReview now ms i rid d nts)
  with assms show ?thesis by (simp add: changes_resolve_review wf_snapshot_def)
next
  case (OpAttachRun now sid i)
  then show ?thesis
    by (auto simp: attach_run_to_session_def auth_simps intro!: changes_session session_edit_push)
next
  case (OpPutMemory ns entr)
  let ?n = "(case map_of (memory (snap a)) ns of Some n \<Rightarrow> n | None \<Rightarrow> \<lparr>namespace_id = ns, namespace_entries = []\<rparr>)
      \<lparr>namespace_entries := bt_put (entry_key entr) entr (namespace_entries (case map_of (memory (snap a)) ns of
         Some n \<Rightarrow> n | None \<Rightarrow> \<lparr>namespace_id = ns, namespace_entries = []\<rparr>))\<rparr>"
  have "snap (auth_exec E x a) = (snap a)\<lparr>memory := bt_put ns ?n (memory (snap a))\<rparr>"
    using OpPutMemory by (simp add: put_memory_def Let_def auth_simps)
  moreover have "namespace_id ?n = ns"
    using assms(2) by (simp add: wf_snapshot_def keys_ok_def split: option.split)
  ultimately show ?thesis using ch_memory [of ?n ns "snap a"] by simp
next
  case (OpStartTask now ms tid i parent lbl ag fid)
  then show ?thesis by (auto simp: start_child_task_def Let_def auth_simps intro: ch_tree)
next
  case (OpCompleteTask ms i tid out success)
  then show ?thesis
    by (auto simp: complete_child_task_def Let_def auth_simps intro: ch_tree_finish split: option.split)
qed (auto simp: op_defs auth_simps changes_transition [unfolded transition_run_def Let_def] run_edit_history
    split: option.split intro!: changes_session changes_run)

end
