(* ===== verification/AuthorityRuns.thy ===== *)
theory AuthorityRuns
  imports AuthoritySteps "HOL-Library.Sublist"
begin

text \<open>
  What the operations of the authority do to a run over time: which operation may change its
  status and how, what never changes and what only grows; what reaches the journal; what a restart
  makes of it; and when the completion of a review fires.
\<close>

section \<open>What happens to a run\<close>

text \<open>
  The operations that may move a run to another status, the run, and the status they move it to.
\<close>

fun status_target :: "auth_op \<Rightarrow> (run_id \<times> (run_status \<Rightarrow> run_status option)) option" where
  "status_target (OpCancel now ms i) = Some (i, cancel_decide)"
| "status_target (OpPause now ms i) = Some (i, pause_decide)"
| "status_target (OpResume now ms i) = Some (i, resume_decide)"
| "status_target (OpMarkRunning now ms i) = Some (i, mark_running_decide)"
| "status_target (OpComplete now ms i) = Some (i, \<lambda>_. Some run_status.Succeeded)"
| "status_target (OpFail now ms i msg) = Some (i, \<lambda>_. Some (run_status.Failed msg))"
| "status_target (OpOpenReview now ms rid i req) =
     Some (i, \<lambda>st. if is_terminal st then None else Some run_status.AwaitingReview)"
| "status_target (OpResolveReview now ms i rid d notes) =
     Some (i, \<lambda>_. if d = Approved then Some run_status.Running else None)"
| "status_target _ = None"

text \<open>What is fixed for a run, and what only grows.\<close>

definition run_evolves :: "run \<Rightarrow> run \<Rightarrow> bool" where
  "run_evolves r r' \<longleftrightarrow> run_id r' = run_id r \<and> run_space_id r' = run_space_id r \<and>
     run_agent_id r' = run_agent_id r \<and> run_session_id r' = run_session_id r \<and> run_spec r' = run_spec r \<and>
     run_created_at_ms r' = run_created_at_ms r \<and> run_parent_run_id r' = run_parent_run_id r \<and>
     run_file_changes r' = run_file_changes r \<and> prefix (run_history r) (run_history r') \<and>
     prefix (run_produces r) (run_produces r') \<and> prefix (run_resolved_reviews r) (run_resolved_reviews r')"

lemma run_evolves_refl [simp]: "run_evolves r r"
  by (simp add: run_evolves_def)

lemma run_evolves_trans: "run_evolves r s \<Longrightarrow> run_evolves s t \<Longrightarrow> run_evolves r t"
  unfolding run_evolves_def by (auto intro: prefix_order.trans)

definition status_moves :: "auth_op \<Rightarrow> run_id \<Rightarrow> run \<Rightarrow> run \<Rightarrow> bool" where
  "status_moves x j r r' \<longleftrightarrow> run_status r' = run_status r \<or>
     (\<exists>d. status_target x = Some (j, d) \<and> d (run_status r) = Some (run_status r'))"

lemma status_moves_refl [simp]: "status_moves x j r r"
  by (simp add: status_moves_def)

lemma transition_evolves:
  assumes "get_run a j = Some r" and "status_target x = Some (i, decide)"
  shows "\<exists>r'. get_run (snd (transition_run E now ms i act decide a)) j = Some r' \<and> run_evolves r r' \<and>
    status_moves x j r r'"
  using assms
  by (cases "get_run a i"; cases "decide (run_status (the (get_run a i)))")
    (auto simp: transition_run_def get_run_def auth_simps map_of_bt_modify run_evolves_def status_moves_def)

lemma exec_run:
  assumes "op_fresh x a" and "get_run a j = Some r"
  shows "\<exists>r'. get_run (auth_exec E x a) j = Some r' \<and> run_evolves r r' \<and> status_moves x j r r'"
proof (cases x)
  case (OpStartRun now ms i sp ag spec sid)
  with assms show ?thesis
    by (auto simp: start_run_with_session_def Let_def auth_simps get_run_def store_simps split: option.split)
next
  case (OpOpenReview now ms rid i req)
  with assms show ?thesis
    by (auto simp: open_review_def Let_def auth_simps get_run_def map_of_bt_modify run_evolves_def
      status_moves_def split: option.split)
next
  case (OpResolveReview now ms i rid d nts)
  with assms show ?thesis
    by (auto simp: resolve_review_def Let_def auth_simps get_run_def map_of_bt_modify run_evolves_def
      status_moves_def split: option.split)
next
  case (OpGetOrCreateSession now sid sp nm)
  with assms show ?thesis
    by (auto simp: get_or_create_session_def Let_def auth_simps get_run_def split: option.split)
next
  case (OpCancel now ms i)
  then show ?thesis using transition_evolves [OF assms(2), of x i cancel_decide] by (simp add: cancel_run_def)
next
  case (OpPause now ms i)
  then show ?thesis using transition_evolves [OF assms(2), of x i pause_decide] by (simp add: pause_run_def)
next
  case (OpResume now ms i)
  then show ?thesis using transition_evolves [OF assms(2), of x i resume_decide] by (simp add: resume_run_def)
next
  case (OpMarkRunning now ms i)
  then show ?thesis using transition_evolves [OF assms(2), of x i mark_running_decide] by (simp add: mark_running_commit_def)
next
  case (OpComplete now ms i)
  then show ?thesis using transition_evolves [OF assms(2), of x i "\<lambda>_. Some run_status.Succeeded"] by (simp add: complete_commit_def)
next
  case (OpFail now ms i msg)
  then show ?thesis using transition_evolves [OF assms(2), of x i "\<lambda>_. Some (run_status.Failed msg)"] by (simp add: fail_commit_def)
next
  case (OpSetFlowId now i frid)
  with assms show ?thesis
    by (auto simp: set_run_flow_id_def auth_simps get_run_def map_of_bt_modify run_evolves_def
      status_moves_def split: option.split)
next
  case (OpSetGoal now i goal)
  with assms show ?thesis
    by (auto simp: set_run_goal_def auth_simps get_run_def map_of_bt_modify run_evolves_def
      status_moves_def split: option.split)
next
  case (OpAppendDoc now i doc)
  with assms show ?thesis
    by (auto simp: append_produced_doc_def auth_simps get_run_def map_of_bt_modify run_evolves_def
      status_moves_def split: option.split)
next
  case (OpPostInput now ms i p)
  with assms show ?thesis
    by (auto simp: post_input_def push_history_def auth_simps get_run_def map_of_bt_modify run_evolves_def
      status_moves_def split: option.split)
next
  case (OpAppendHistory now i p)
  with assms show ?thesis
    by (auto simp: append_history_def push_history_def auth_simps get_run_def map_of_bt_modify run_evolves_def
      status_moves_def split: option.split)
qed (use assms(2) in \<open>simp_all add: op_defs auth_simps get_run_def split: option.split\<close>)
lemma steps_run:
  assumes "auth_steps E a xs b" and "get_run a j = Some r"
  shows "\<exists>r'. get_run b j = Some r' \<and> run_evolves r r'"
  using assms
proof (induction arbitrary: r rule: auth_steps.induct)
  case (auth_steps_Cons x a xs b)
  from exec_run [OF auth_steps_Cons.hyps(1) auth_steps_Cons.prems]
  obtain r1 where "get_run (auth_exec E x a) j = Some r1" "run_evolves r r1" by blast
  with auth_steps_Cons.IH show ?case by (metis run_evolves_trans)
qed auto

text \<open>The operations that can move a run out of a terminal status.\<close>

fun reopens :: "auth_op \<Rightarrow> run_id \<Rightarrow> bool" where
  "reopens (OpComplete now ms i) j = (i = j)"
| "reopens (OpFail now ms i msg) j = (i = j)"
| "reopens (OpResolveReview now ms i rid d notes) j = (i = j \<and> d = Approved)"
| "reopens x j = False"

lemma terminal_decide:
  "is_terminal st \<Longrightarrow> cancel_decide st = None" "is_terminal st \<Longrightarrow> pause_decide st = None"
  "is_terminal st \<Longrightarrow> resume_decide st = None" "is_terminal st \<Longrightarrow> mark_running_decide st = None"
  by (cases st; simp)+

lemma terminal_target:
  "status_target x = Some (j, d) \<Longrightarrow> is_terminal st \<Longrightarrow> d st = Some st' \<Longrightarrow> reopens x j"
  by (cases x) (auto simp: terminal_decide split: if_splits)

lemma steps_terminal:
  assumes "auth_steps E a xs b" and "get_run a j = Some r" and "is_terminal (run_status r)"
    and "\<forall>x \<in> set xs. \<not> reopens x j"
  shows "\<exists>r'. get_run b j = Some r' \<and> run_status r' = run_status r"
  using assms
proof (induction arbitrary: r rule: auth_steps.induct)
  case (auth_steps_Cons x a xs b)
  from exec_run [OF auth_steps_Cons.hyps(1) auth_steps_Cons.prems(1)]
  obtain r1 where r1: "get_run (auth_exec E x a) j = Some r1" "status_moves x j r r1" by blast
  with auth_steps_Cons.prems terminal_target [of x j] have "run_status r1 = run_status r"
    by (auto simp: status_moves_def)
  with auth_steps_Cons.IH [OF r1(1)] auth_steps_Cons.prems show ?case by simp
qed auto

lemma wf_exec: "op_fresh x a \<Longrightarrow> wf_snapshot (snap a) \<Longrightarrow> wf_snapshot (snap (auth_exec E x a))"
  using exec_changes changes_wf by blast

lemma wf_steps: "auth_steps E a xs b \<Longrightarrow> wf_snapshot (snap a) \<Longrightarrow> wf_snapshot (snap b)"
  by (erule auth_steps_invariant [where I = "\<lambda>a. wf_snapshot (snap a)"]) (auto intro: wf_exec)

section \<open>The journal\<close>

text \<open>An operation saves at most once, and what it saves is the snapshot it leaves.\<close>

definition saved_once :: "('p, 'e) auth_env \<Rightarrow> 'p authority \<Rightarrow> 'p authority \<Rightarrow> bool" where
  "saved_once E a b \<longleftrightarrow> snap b = snap a \<and> store b = store a \<or>
     store b = snd (env_save E (snap b) (store a))"

lemma saved_transition: "saved_once E a (snd (transition_run E now ms i act decide a))"
  by (auto simp: transition_run_def saved_once_def auth_simps split: option.split)

lemma saved_resolve:
  assumes "wf_snapshot (snap a)"
  shows "saved_once E a (snd (resolve_review E now ms i rid d nts a))"
proof -
  have "get_run a (review_run_id rv) \<noteq> None" if "get_review a rid = Some rv" for rv
    using refs_review_run [of "snap a" rid rv] assms that
    by (simp add: wf_snapshot_def get_run_def get_review_def)
  then show ?thesis
    by (auto simp: resolve_review_def Let_def saved_once_def auth_simps get_run_def split: option.split)
qed

lemma exec_saves:
  assumes "wf_snapshot (snap a)"
  shows "saved_once E a (auth_exec E x a)"
proof (cases x)
  case (OpResolveReview now ms i rid d nts)
  with assms show ?thesis by (simp add: saved_resolve)
qed (auto simp: saved_transition cancel_run_def pause_run_def resume_run_def mark_running_commit_def
    complete_commit_def fail_commit_def,
  auto simp: op_defs saved_once_def auth_simps split: option.split)

definition mk_env :: "('p \<Rightarrow> 'e + snapshot) \<Rightarrow> (snapshot \<Rightarrow> 'p \<Rightarrow> 'e option \<times> 'p) \<Rightarrow> (uuid \<Rightarrow> string)
    \<Rightarrow> ('p, 'e) auth_env" where
  "mk_env ld sv disp = \<lparr>env_load = ld, env_save = sv, env_disp = disp\<rparr>"

section \<open>Restart\<close>

lemma abandon_run_idem: "abandon_run now' (abandon_run now r) = abandon_run now r"
  by (cases "run_status r") (simp_all add: abandon_run_def)

lemma abandon_run_status:
  "run_status (abandon_run now r) = (if is_abandoned r then run_status.Paused else run_status r)"
  by (cases "run_status r") (simp_all add: abandon_run_def is_abandoned_def)

lemma abandon_run_same: "\<not> is_abandoned r \<Longrightarrow> abandon_run now r = r"
  by (cases "run_status r") (simp_all add: abandon_run_def is_abandoned_def)

lemma abandon_run_frame [simp]:
  "run_id (abandon_run now r) = run_id r" "run_space_id (abandon_run now r) = run_space_id r"
  by (cases "run_status r"; simp add: abandon_run_def)+

lemma bt_map_values_comp: "bt_map_values f (bt_map_values g m) = bt_map_values (f \<circ> g) m"
  by (simp add: bt_map_values_def split_def)

lemma recover_idem: "recover_snapshot now' (recover_snapshot now s) = recover_snapshot now s"
  by (simp add: recover_snapshot_def bt_map_values_comp comp_def abandon_run_idem)

lemma recover_run:
  "map_of (runs (recover_snapshot now s)) i = map_option (abandon_run now) (map_of (runs s) i)"
  by (simp add: recover_snapshot_def store_simps)

lemma recover_same:
  assumes "length (filter (\<lambda>(_, r). is_abandoned r) (runs s)) = 0" and "length (reviews s) = 0"
  shows "recover_snapshot now s = s"
proof -
  have "bt_map_values (abandon_run now) m = m" if "filter (\<lambda>(_, r). is_abandoned r) m = []" for m :: "(run_id \<times> run) list"
    using that by (induction m) (auto simp: bt_map_values_def abandon_run_same split: if_splits)
  with assms show ?thesis by (simp add: recover_snapshot_def)
qed

lemma wf_recover:
  assumes "wf_snapshot s"
  shows "wf_snapshot (recover_snapshot now s)"
proof -
  have "keys_ok (recover_snapshot now s)" "refs_ok (recover_snapshot now s)"
    using assms
    by (auto simp: wf_snapshot_def keys_ok_def refs_ok_def recover_snapshot_def store_simps dom_def)
  moreover have "bt_sorted ([] :: (review_id \<times> pending_review) list)" by (simp add: bt_sorted_def)
  ultimately show ?thesis
    using assms by (simp add: wf_snapshot_def recover_snapshot_def maps_ok_def bt_sorted_map_values
        sessions_ok_def trail_ok_def)
qed

lemma rehydrate_inv:
  assumes "rehydrate E now p = (Inr a, q)"
  shows "\<exists>s. env_load E p = Inr s \<and> a = fresh_authority (recover_snapshot now s) q \<and>
    (recover_snapshot now s = s \<and> q = p \<or> env_save E (recover_snapshot now s) p = (None, q))"
  using assms recover_same
  by (auto simp: rehydrate_def Let_def split: sum.splits if_splits prod.splits option.splits)

section \<open>Histories\<close>

text \<open>Running a list of operations is a function; the relation adds that drawn ids are new.\<close>

fun all_fresh :: "('p, 'e) auth_env \<Rightarrow> auth_op list \<Rightarrow> 'p authority \<Rightarrow> bool" where
  "all_fresh E [] a = True"
| "all_fresh E (x # xs) a = (op_fresh x a \<and> all_fresh E xs (auth_exec E x a))"

lemma auth_steps_iff: "auth_steps E a xs b \<longleftrightarrow> all_fresh E xs a \<and> b = fold (auth_exec E) xs a"
  by (induction xs arbitrary: a) auto

text \<open>The operations of a history none of which saved what it changed: the snapshot stayed, or its save failed.\<close>

fun unsaved :: "('p, 'e) auth_env \<Rightarrow> auth_op list \<Rightarrow> 'p authority \<Rightarrow> bool" where
  "unsaved E [] a = True"
| "unsaved E (x # xs) a = (let b = auth_exec E x a in
     (snap b = snap a \<or> fst (env_save E (snap b) (store a)) \<noteq> None) \<and> unsaved E xs b)"

section \<open>Durability\<close>

text \<open>The authority over a backend that honours the persistence contract.\<close>

locale auth_durable = persistence load save norm
  for load :: "'p \<Rightarrow> ('io, 'serde) persistence_error + snapshot"
    and save :: "snapshot \<Rightarrow> 'p \<Rightarrow> ('io, 'serde) persistence_error option \<times> 'p"
    and norm :: "snapshot \<Rightarrow> snapshot" +
  fixes disp :: "uuid \<Rightarrow> string"
begin

text \<open>
  The journal holds the snapshot right after some operation of the history, and no later operation saved a change; or
  nothing was saved at all.
\<close>

lemma journal_history:
  assumes "all_fresh (mk_env load save disp) xs a" and "wf_snapshot (snap a)"
  defines "E \<equiv> mk_env load save disp"
  shows "load (store (fold (auth_exec E) xs a)) = load (store a) \<and> unsaved E xs a \<or>
    (\<exists>ys zs. xs = ys @ zs \<and> ys \<noteq> [] \<and> unsaved E zs (fold (auth_exec E) ys a) \<and>
       load (store (fold (auth_exec E) xs a)) = Inr (norm (snap (fold (auth_exec E) ys a))))"
  using assms(1,2)
proof (induction xs arbitrary: a)
  case (Cons x xs)
  let ?b = "auth_exec E x a"
  have b: "all_fresh (mk_env load save disp) xs ?b" "op_fresh x a" using Cons.prems(1) by (simp_all add: E_def)
  have wf: "wf_snapshot (snap ?b)" using wf_exec [OF b(2) Cons.prems(2)] .
  then have v: "schema_version (snap ?b) = SNAPSHOT_SCHEMA_VERSION" by (simp add: wf_snapshot_def)
  obtain r q where r: "save (snap ?b) (store a) = (r, q)" by fastforce
  have step: "load (store ?b) = Inr (norm (snap ?b)) \<or> load (store ?b) = load (store a) \<and> (snap ?b = snap a \<or> r \<noteq> None)"
  proof -
    have "snd (env_save E (snap ?b) (store a)) = q" using r by (simp add: E_def mk_env_def Let_def)
    with exec_saves [OF Cons.prems(2), of E x] consider "snap ?b = snap a" "store ?b = store a" | "store ?b = q"
      unfolding saved_once_def by blast
    then show ?thesis
    proof cases
      case 2
      then show ?thesis
        using load_after_save [of "snap ?b" "store a" q] save_err [of "snap ?b" "store a" _ q] v r by (cases r) simp_all
    qed simp
  qed
  have un: "unsaved E (x # xs) a \<longleftrightarrow> (snap ?b = snap a \<or> r \<noteq> None) \<and> unsaved E xs ?b" using r by (simp add: E_def mk_env_def Let_def)
  from Cons.IH [OF b(1) wf] show ?case
  proof (elim disjE conjE exE)
    assume l: "load (store (fold (auth_exec E) xs ?b)) = load (store ?b)" and u: "unsaved E xs ?b"
    from step show ?thesis
    proof
      assume "load (store ?b) = Inr (norm (snap ?b))"
      with l u show ?thesis by (intro disjI2 exI [of _ "[x]"] exI [of _ xs]) simp
    next
      assume "load (store ?b) = load (store a) \<and> (snap ?b = snap a \<or> r \<noteq> None)"
      with l u un show ?thesis by (intro disjI1) simp
    qed
  next
    fix ys zs
    assume "xs = ys @ zs" "unsaved E zs (fold (auth_exec E) ys ?b)"
      "load (store (fold (auth_exec E) xs ?b)) = Inr (norm (snap (fold (auth_exec E) ys ?b)))"
    then show ?thesis by (intro disjI2 exI [of _ "x # ys"] exI [of _ zs]) simp
  qed
qed simp

lemma journal_steps:
  assumes "auth_steps (mk_env load save disp) a xs b" and "\<And>s p. fst (save s p) = None"
    and "wf_snapshot (snap a)" and "load (store a) = Inr (norm (snap a))"
  shows "load (store b) = Inr (norm (snap b))"
proof -
  have same: "unsaved (mk_env load save disp) zs c \<Longrightarrow> snap (fold (auth_exec (mk_env load save disp)) zs c) = snap c" for zs c
    by (induction zs arbitrary: c) (simp_all add: assms(2) mk_env_def Let_def)
  from assms(1) have f: "all_fresh (mk_env load save disp) xs a" and b: "b = fold (auth_exec (mk_env load save disp)) xs a"
    by (simp_all add: auth_steps_iff)
  from journal_history [OF f assms(3)] same assms(4) show ?thesis by (auto simp: b)
qed

text \<open>A restart from a journal in step gives the recovery of the state that was lost.\<close>

lemma restart:
  assumes "load (store a) = Inr (norm (snap a))" and "wf_snapshot (snap a)"
    and "rehydrate (mk_env load save disp) now (store a) = (Inr b, q)"
  shows "snap b = recover_snapshot now (norm (snap a)) \<and> subs b = [] \<and> pending_resolutions b = {} \<and>
    live_task_trees b = Map.empty \<and> flow_sessions b = Map.empty"
  using rehydrate_inv [OF assms(3)] assms(1) by (auto simp: mk_env_def fresh_authority_def)

lemma restart_ok:
  assumes "load (store a) = Inr s" and "\<And>s p. fst (save s p) = None"
  shows "\<exists>b q. rehydrate (mk_env load save disp) now (store a) = (Inr b, q)"
proof -
  have "\<exists>q. save (recover_snapshot now s) (store a) = (None, q)"
    using assms(2) [of "recover_snapshot now s" "store a"] by (metis prod.collapse)
  with assms(1) show ?thesis by (auto simp: rehydrate_def mk_env_def Let_def)
qed

end

interpretation mem_auth: auth_durable mem_load mem_save "\<lambda>snap. snap" disp for disp
  by unfold_locales

section \<open>Completions\<close>

text \<open>
  Every completion that fired carries the decision and the notes of its review, which is resolved,
  and no completion fired twice.
\<close>

definition completions_ok :: "'p authority \<Rightarrow> bool" where
  "completions_ok a \<longleftrightarrow> distinct (map fst (completions a)) \<and>
     (\<forall>k res. (k, res) \<in> set (completions a) \<longrightarrow> (\<exists>rv. get_review a k = Some rv \<and>
        review_state rv \<noteq> permission_state.Pending \<and> review_state rv = res_decision res \<and>
        review_notes rv = res_notes res))"

text \<open>A review is only rewritten by the operation that resolves it.\<close>

lemma exec_review:
  assumes "op_fresh x a" and "get_review a k = Some rv" and "review_state rv \<noteq> permission_state.Pending"
  shows "get_review (auth_exec E x a) k = Some rv"
proof (cases x)
  case (OpStartRun now ms i sp ag spec sid)
  with assms show ?thesis
    by (auto simp: start_run_with_session_def Let_def auth_simps get_review_def split: option.split)
next
  case (OpOpenReview now ms rid i req)
  with assms show ?thesis
    by (auto simp: open_review_def Let_def auth_simps get_review_def store_simps split: option.split)
next
  case (OpResolveReview now ms i rid d nts)
  with assms show ?thesis
    by (auto simp: resolve_review_def Let_def auth_simps get_review_def map_of_bt_modify split: option.split)
next
  case (OpGetOrCreateSession now sid sp nm)
  with assms show ?thesis
    by (auto simp: get_or_create_session_def Let_def auth_simps get_review_def split: option.split)
qed (use assms(2) in \<open>simp_all add: op_defs auth_simps get_review_def split: option.split\<close>)

lemma exec_completions:
  "completions (auth_exec E x a) = completions a \<or>
   (\<exists>now ms i rid d nts rv. x = OpResolveReview now ms i rid d nts \<and> d \<noteq> permission_state.Pending \<and>
      get_review a rid = Some rv \<and> review_state rv = permission_state.Pending \<and>
      completions (auth_exec E x a) = completions a @ [(rid, \<lparr>res_decision = d, res_notes = nts\<rparr>)] \<and>
      get_review (auth_exec E x a) rid = Some (rv\<lparr>review_state := d, review_notes := nts, review_updated_at_ms := now\<rparr>))"
proof (cases x)
  case (OpResolveReview now ms i rid d nts)
  then show ?thesis
    by (auto simp: resolve_review_def Let_def auth_simps get_review_def map_of_bt_modify split: option.split)
qed (auto simp: op_defs auth_simps split: option.split)

lemma completions_ok_exec:
  assumes "op_fresh x a" and "completions_ok a"
  shows "completions_ok (auth_exec E x a)"
proof -
  have old: "\<exists>rv. get_review (auth_exec E x a) k = Some rv \<and> review_state rv \<noteq> permission_state.Pending \<and>
      review_state rv = res_decision res \<and> review_notes rv = res_notes res"
    if "(k, res) \<in> set (completions a)" for k res
    using that assms(2) exec_review [OF assms(1)] unfolding completions_ok_def by blast
  from exec_completions [of E x a] show ?thesis
  proof (elim disjE exE conjE)
    assume "completions (auth_exec E x a) = completions a"
    with assms(2) old show ?thesis by (simp add: completions_ok_def)
  next
    fix now ms i rid d nts rv
    assume d: "d \<noteq> permission_state.Pending" and rv: "get_review a rid = Some rv"
      "review_state rv = permission_state.Pending"
      and c: "completions (auth_exec E x a) = completions a @ [(rid, \<lparr>res_decision = d, res_notes = nts\<rparr>)]"
      and g: "get_review (auth_exec E x a) rid = Some (rv\<lparr>review_state := d, review_notes := nts, review_updated_at_ms := now\<rparr>)"
    have "rid \<notin> fst ` set (completions a)"
      using assms(2) rv by (fastforce simp: completions_ok_def)
    moreover have "distinct (map fst (completions a))" using assms(2) by (simp add: completions_ok_def)
    ultimately show ?thesis using old d c g by (auto simp: completions_ok_def)
  qed
qed

section \<open>Names of sessions\<close>

fun renames :: "auth_op \<Rightarrow> session_id \<Rightarrow> bool" where
  "renames (OpRenameSession now ms sid nm) k = (sid = k)"
| "renames x k = False"

lemma push_run_id_frame [simp]:
  "manually_named (push_run_id now i s) = manually_named s" "session_name (push_run_id now i s) = session_name s"
  by (simp_all add: push_run_id_def)

lemma exec_manual_name:
  assumes "get_session a k = Some s" and "manually_named s" and "\<not> renames x k"
  shows "\<exists>s'. get_session (auth_exec E x a) k = Some s' \<and> manually_named s' \<and> session_name s' = session_name s"
proof (cases x)
  case (OpStartRun now ms i sp ag spec sid)
  with assms show ?thesis
    by (auto simp: start_run_with_session_def Let_def auth_simps get_session_def map_of_bt_modify
        split: option.split)
next
  case (OpResolveReview now ms i rid d nts)
  with assms show ?thesis
    by (auto simp: resolve_review_def Let_def auth_simps get_session_def split: option.split)
next
  case (OpAttachRun now sid i)
  with assms show ?thesis
    by (auto simp: attach_run_to_session_def auth_simps get_session_def map_of_bt_modify)
next
  case (OpAttachFlowRun now sid frid)
  with assms show ?thesis
    by (auto simp: attach_flow_run_to_session_def auth_simps get_session_def map_of_bt_modify split: option.split)
next
  case (OpRenameSession now ms sid nm)
  with assms show ?thesis
    by (auto simp: rename_session_def auth_simps get_session_def map_of_bt_modify split: option.split)
next
  case (OpAutoName now ms sid nm)
  with assms show ?thesis
    by (auto simp: auto_name_session_def auth_simps get_session_def map_of_bt_modify split: option.split)
next
  case (OpForkPoint now sid parent fp)
  with assms show ?thesis
    by (auto simp: set_session_fork_point_def auth_simps get_session_def map_of_bt_modify split: option.split)
next
  case (OpFlushThread now sid th)
  with assms show ?thesis
    by (auto simp: flush_thread_def auth_simps get_session_def map_of_bt_modify split: option.split)
next
  case (OpNamespaces now sid tgt ns)
  with assms show ?thesis
    by (cases "k = sid") (simp_all add: update_session_namespaces_def auth_simps get_session_def map_of_bt_modify
      split: option.split)
next
  case (OpGetOrCreateSession now sid sp nm)
  with assms show ?thesis
    by (auto simp: get_or_create_session_def Let_def auth_simps get_session_def store_simps split: option.split)
qed (use assms in \<open>simp_all add: op_defs auth_simps get_session_def split: option.split\<close>)

lemma steps_manual_name:
  assumes "auth_steps E a xs b" and "get_session a k = Some s" and "manually_named s"
    and "\<forall>x \<in> set xs. \<not> renames x k"
  shows "\<exists>s'. get_session b k = Some s' \<and> manually_named s' \<and> session_name s' = session_name s"
  using assms
proof (induction arbitrary: s rule: auth_steps.induct)
  case (auth_steps_Cons x a xs b)
  from auth_steps_Cons.prems exec_manual_name [of a k s x E] obtain s1 where
    s1: "get_session (auth_exec E x a) k = Some s1" "manually_named s1" "session_name s1 = session_name s"
    by auto
  with auth_steps_Cons.IH [OF s1(1,2)] auth_steps_Cons.prems(3) show ?case by simp
qed auto

section \<open>Reviews\<close>

lemma steps_review:
  assumes "auth_steps E a xs b" and "get_review a k = Some rv" and "review_state rv \<noteq> permission_state.Pending"
  shows "get_review b k = Some rv"
  using assms by (induction rule: auth_steps.induct) (auto intro: exec_review)

lemma resolved_again:
  assumes "get_review b k = Some rv" and "review_state rv \<noteq> permission_state.Pending" and "review_run_id rv = i"
    and "d \<noteq> permission_state.Pending"
  shows "resolve_review E now ms i k d nts b = (Inl ReviewAlreadyResolved, b)"
  using assms by (simp add: resolve_review_def)

text \<open>A successful resolution, in one equation per component.\<close>

lemma resolve_review_ok:
  assumes "fst (resolve_review E now ms i rid d nts a) = Inr ()"
  shows "\<exists>rv r. d \<noteq> permission_state.Pending \<and> get_review a rid = Some rv \<and> review_run_id rv = i \<and>
    review_state rv = permission_state.Pending \<and> get_run a i = Some r \<and>
    get_review (snd (resolve_review E now ms i rid d nts a)) rid =
      Some (rv\<lparr>review_state := d, review_notes := nts, review_updated_at_ms := now\<rparr>) \<and>
    (\<exists>r'. get_run (snd (resolve_review E now ms i rid d nts a)) i = Some r' \<and>
      run_status r' = (if d = Approved then run_status.Running else run_status r))"
  using assms
  by (auto simp: resolve_review_def Let_def auth_simps get_review_def get_run_def map_of_bt_modify
      split: option.splits if_splits)

text \<open>Once a review is resolved, its completion cannot fire any more.\<close>

lemma steps_no_completion:
  assumes "auth_steps E a xs b" and "get_review a k = Some rv" and "review_state rv \<noteq> permission_state.Pending"
    and "k \<notin> fst ` set (completions a)"
  shows "k \<notin> fst ` set (completions b)"
  using assms
proof (induction rule: auth_steps.induct)
  case (auth_steps_Cons x a xs b)
  have "k \<notin> fst ` set (completions (auth_exec E x a))"
    using exec_completions [of E x a] auth_steps_Cons.prems
    by (elim disjE exE conjE) (force simp del: auth_exec.simps)+
  with auth_steps_Cons exec_review show ?case by blast
qed auto

section \<open>Delivery of run events\<close>

text \<open>The events one state has and an earlier one did not, per subscription.\<close>

definition received :: "'p authority \<Rightarrow> 'p authority \<Rightarrow> subscription_id \<Rightarrow> runtime_event list" where
  "received a b k = (case (map_of (subs a) k, map_of (subs b) k) of
     (Some s, Some s') \<Rightarrow> drop (length (sub_sent s)) (sub_sent s') | _ \<Rightarrow> [])"

definition listens :: "subscription \<Rightarrow> string list \<Rightarrow> bool" where
  "listens s topics \<longleftrightarrow> sub_topic s = ''*'' \<or> sub_topic s \<in> set topics"

lemma emit_topics_received:
  assumes "subs_ok (subs a)" and "map_of (subs a) k = Some s" and "rx_alive s"
  shows "map_of (subs (emit_topics topics ms p a)) k =
    Some (if listens s topics then deliver ms p s else s)"
  using assms scoped.emit_lookup [of "subs a" topics ms p k]
  by (simp add: emit_topics_def subs_ok_def fan_one_def listens_def)

lemma transition_delivers:
  assumes "subs_ok (subs a)" and "map_of (subs a) k = Some s" and "rx_alive s"
    and "get_run a i = Some r"
    and "fst (transition_run E now ms i act decide a) = Inr ()"
  shows "\<exists>nxt. decide (run_status r) = Some nxt \<and>
    received a (snd (transition_run E now ms i act decide a)) k =
      (if listens s (run_topics E i (run_session_id r))
       then [\<lparr>sequence = next_seq s, emitted_at_ms = ms, payload = EvRunStatus (show_id E i) (status_label nxt)
               (event_agent E r) (run_flow_run_id r) (failure_detail nxt)\<rparr>] else [])"
proof -
  from assms(4,5) obtain nxt where nxt: "decide (run_status r) = Some nxt"
    by (auto simp: transition_run_def split: option.splits)
  let ?a = "upd_run i (\<lambda>r. r\<lparr>run_status := nxt, run_updated_at_ms := now\<rparr>) a"
  have ok: "fst (env_save E (snap ?a) (store ?a)) = None"
    using assms(4,5) nxt by (auto simp: transition_run_def persist_then_def persist_def auth_simps
        split: option.splits prod.splits)
  let ?b = "?a\<lparr>store := snd (env_save E (snap ?a) (store ?a))\<rparr>"
  have "snd (transition_run E now ms i act decide a) = emit_topics (run_topics E i (run_session_id r)) ms
      (EvRunStatus (show_id E i) (status_label nxt) (event_agent E r) (run_flow_run_id r) (failure_detail nxt)) ?b"
    using assms(4) nxt ok by (simp add: transition_run_def persist_then_snd)
  with emit_topics_received [of ?b k s] assms(1-3) nxt show ?thesis
    by (simp add: received_def auth_simps deliver_def)
qed

end
