(* ===== verification/AuthorityProps.thy ===== *)
theory AuthorityProps
  imports AuthorityRuns
begin

text \<open>
  The properties of the runtime authority and of its persistence, each with a witness on a small
  concrete history where it has hypotheses.
\<close>

section \<open>A concrete history\<close>

definition demo_env :: "(in_memory_persistence, (unit, unit) persistence_error) auth_env" where
  "demo_env = mk_env mem_load mem_save (\<lambda>_. ''u'')"

abbreviation demo_run :: run_id where "demo_run \<equiv> UuidNewtype 1"
abbreviation demo_review :: review_id where "demo_review \<equiv> UuidNewtype 2"
abbreviation demo_sub :: subscription_id where "demo_sub \<equiv> UuidNewtype 3"
abbreviation demo_sid :: session_id where "demo_sid \<equiv> StringNewtype ''tab''"

definition demo_ops :: "auth_op list" where
  "demo_ops =
     [OpUpsertSpace \<lparr>space_id = UuidNewtype 7, space_name = ''s'', compaction_threshold_pct = 80,
        compaction_recency_turns = 6\<rparr>,
      OpSubscribe demo_sub ''run:u'',
      OpGetOrCreateSession 1 demo_sid (UuidNewtype 7) None,
      OpRenameSession 2 2 demo_sid ''mine'',
      OpStartRun 3 3 demo_run (UuidNewtype 7) None JNull (Some demo_sid),
      OpMarkRunning 4 4 demo_run,
      OpOpenReview 5 (\<lambda>_. 5) demo_review demo_run JNull]"

definition demo_state :: "in_memory_persistence authority" where
  "demo_state = fold (auth_exec demo_env) demo_ops in_memory"

lemma demo_steps: "auth_steps demo_env in_memory demo_ops demo_state"
proof -
  have "all_fresh demo_env demo_ops in_memory" by code_simp
  then show ?thesis by (simp add: auth_steps_iff demo_state_def)
qed

lemma demo_state_eq: "get_run demo_state demo_run \<noteq> None \<and> get_review demo_state demo_review \<noteq> None"
  by code_simp

definition demo_cancelled :: "in_memory_persistence authority" where
  "demo_cancelled = auth_exec demo_env (OpCancel 6 6 demo_run) demo_state"

lemma demo_saves: "fst (env_save demo_env s p) = None"
  by (simp add: demo_env_def mk_env_def mem_save_def)

section \<open>Runs\<close>

text \<open>
  (C1) A run in a terminal status keeps that status through every further sequence of operations,
  unless a caller approves one of its reviews or is past the status check of
  \<^verbatim>\<open>complete_run\<close>/\<^verbatim>\<open>fail_run\<close>.
\<close>

theorem terminal_run_stays:
  assumes "auth_steps E a xs b" and "get_run a j = Some r" and "is_terminal (run_status r)"
    and "\<forall>x \<in> set xs. \<not> reopens x j"
  shows "run_status_of b j = Inr (run_status r)"
  using steps_terminal [OF assms] by (auto simp: run_status_of_def)

theorem terminal_run_stays_witness:
  "(run_status_of (fold (auth_exec demo_env) [OpPause 7 7 demo_run, OpAppendHistory 8 demo_run JNull,
      OpResume 9 9 demo_run] demo_cancelled) demo_run :: unit authority_error + run_status) = Inr run_status.Cancelled"
proof -
  let ?xs = "[OpPause 7 7 demo_run, OpAppendHistory 8 demo_run JNull, OpResume 9 9 demo_run]"
  have "all_fresh demo_env ?xs demo_cancelled" by code_simp
  then have steps: "auth_steps demo_env demo_cancelled ?xs (fold (auth_exec demo_env) ?xs demo_cancelled)"
    by (simp only: auth_steps_iff)
  have run: "get_run demo_cancelled demo_run = Some (the (get_run demo_cancelled demo_run))" by code_simp
  have st: "run_status (the (get_run demo_cancelled demo_run)) = run_status.Cancelled" by code_simp
  show ?thesis using terminal_run_stays [OF steps run] unfolding st by simp
qed

text \<open>
  (C4) One operation leaves every existing run in place. Identity, space, agent, session, spec and
  creation time are fixed, history, produced documents and the approval trail only grow at their
  end, and the status changes only as the operation's own transition table says.
\<close>

theorem run_step_discipline:
  assumes "op_fresh x a" and "get_run a j = Some r"
  shows "\<exists>r'. get_run (auth_exec E x a) j = Some r' \<and> run_evolves r r' \<and>
    (run_status r' = run_status r \<or>
     (\<exists>d. status_target x = Some (j, d) \<and> d (run_status r) = Some (run_status r')))"
  using exec_run [OF assms, of E] unfolding status_moves_def .

theorem run_step_discipline_witness:
  "\<exists>r'. get_run demo_cancelled demo_run = Some r' \<and> run_evolves (the (get_run demo_state demo_run)) r'"
proof -
  have run: "get_run demo_state demo_run = Some (the (get_run demo_state demo_run))" by code_simp
  show ?thesis
    using run_step_discipline [of "OpCancel 6 6 demo_run" demo_state demo_run, OF _ run]
    unfolding demo_cancelled_def by auto
qed

text \<open>
  Approving a review that was open when its run was cancelled succeeds and sets the cancelled
  run back to running: cancelling leaves the review pending, and the resolution does not look at
  the status it overwrites.
\<close>

theorem approval_restarts_cancelled_run:
  assumes "fst (open_review E now ms rid i req a) = Inr rid" and "\<And>s p. fst (env_save E s p) = None"
    and "get_run a i = Some r"
  shows "let a1 = snd (open_review E now ms rid i req a);
             a2 = snd (cancel_run E now' ms' i a1);
             (res, a3) = resolve_review E now'' ms'' i rid Approved nts a2
         in run_status_of a2 i = Inr run_status.Cancelled \<and> res = Inr () \<and>
            run_status_of a3 i = Inr run_status.Running"
proof -
  from assms have "\<not> is_terminal (run_status r)" by (auto simp: open_review_def split: if_splits)
  with assms(2,3) show ?thesis
    by (simp add: open_review_def cancel_run_def transition_run_def resolve_review_def Let_def
        run_status_of_def get_run_def get_review_def auth_simps map_of_bt_modify store_simps
        persist_then_def persist_def split_def)
qed

theorem approval_restarts_cancelled_run_witness:
  "let a2 = snd (cancel_run demo_env 6 6 demo_run
              (snd (open_review demo_env 5 (\<lambda>_. 5) (UuidNewtype 9) demo_run JNull demo_state)));
       (res, a3) = resolve_review demo_env 8 (\<lambda>_. 8) demo_run (UuidNewtype 9) Approved None a2
   in run_status_of a2 demo_run = (Inr run_status.Cancelled :: unit authority_error + run_status) \<and> res = Inr () \<and>
      run_status_of a3 demo_run = (Inr run_status.Running :: unit authority_error + run_status)"
proof -
  have run: "get_run demo_state demo_run = Some (the (get_run demo_state demo_run))" by code_simp
  have "fst (open_review demo_env 5 (\<lambda>_. 5) (UuidNewtype 9) demo_run JNull demo_state) = Inr (UuidNewtype 9)"
    by code_simp
  from approval_restarts_cancelled_run [OF this demo_saves run] show ?thesis
    by (simp only: Let_def)
qed

text \<open>
  A completion whose status check ran before a cancellation overwrites it: the second critical
  section of \<^verbatim>\<open>complete_run\<close> turns the cancelled run into a succeeded one. Run without interruption,
  \<^verbatim>\<open>complete_run\<close> leaves a cancelled run alone.
\<close>

theorem completion_overwrites_cancel:
  assumes "get_run a i = Some r" and "\<not> is_terminal (run_status r)" and "\<And>s p. fst (env_save E s p) = None"
  shows "let a1 = snd (cancel_run E now ms i a)
    in run_status_of a1 i = Inr run_status.Cancelled \<and>
       complete_run E now' ms' i a1 = (Inr (), a1) \<and>
       run_status_of (snd (complete_commit E now' ms' i a1)) i = Inr run_status.Succeeded"
proof -
  have "cancel_decide (run_status r) = Some run_status.Cancelled"
    using assms(2) by (cases "run_status r") simp_all
  with assms show ?thesis
    by (simp add: cancel_run_def complete_run_def complete_commit_def transition_run_def Let_def
        run_status_of_def get_run_def auth_simps map_of_bt_modify)
qed

theorem completion_overwrites_cancel_witness:
  "(run_status_of (snd (complete_commit demo_env 9 9 demo_run (snd (cancel_run demo_env 8 8 demo_run demo_state))))
     demo_run :: unit authority_error + run_status) = Inr run_status.Succeeded"
proof -
  have run: "get_run demo_state demo_run = Some (the (get_run demo_state demo_run))" by code_simp
  have "\<not> is_terminal (run_status (the (get_run demo_state demo_run)))" by code_simp
  then show ?thesis
    by (rule completion_overwrites_cancel [OF run _ demo_saves, unfolded Let_def, THEN conjunct2, THEN conjunct2])
qed

section \<open>Sessions\<close>

text \<open>
  A name the user gave a session survives every sequence of operations that does not rename
  that session again; automatic naming never replaces it.
\<close>

theorem manual_name_survives:
  assumes "auth_steps E a xs b" and "get_session a k = Some s" and "manually_named s"
    and "\<forall>x \<in> set xs. \<not> renames x k"
  shows "\<exists>s'. get_session b k = Some s' \<and> manually_named s' \<and> session_name s' = session_name s"
  using assms by (rule steps_manual_name)

theorem manual_name_survives_witness:
  "\<exists>s'. get_session (auth_exec demo_env (OpAutoName 9 9 demo_sid ''auto'') demo_state) demo_sid = Some s' \<and>
     manually_named s' \<and> session_name s' = Some ''mine''"
proof -
  let ?xs = "[OpAutoName 9 9 demo_sid ''auto'']"
  have steps: "auth_steps demo_env demo_state ?xs (auth_exec demo_env (OpAutoName 9 9 demo_sid ''auto'') demo_state)"
    by (simp add: auth_steps_iff)
  have s: "get_session demo_state demo_sid = Some (the (get_session demo_state demo_sid))" by code_simp
  have m: "manually_named (the (get_session demo_state demo_sid))"
    "session_name (the (get_session demo_state demo_sid)) = Some ''mine''" by code_simp+
  from manual_name_survives [OF steps s m(1)] m(2) show ?thesis by simp
qed

section \<open>The snapshot\<close>

text \<open>
  (C2) In every state reachable from a well-formed one the snapshot is well-formed: maps sorted and
  keyed by their entries' ids, agents, sessions and runs in existing spaces, reviews on existing
  runs, no run listed twice in a session, and the approval trail of a run holding exactly one
  matching entry per resolved review and none for a pending one.
\<close>

theorem reachable_snapshot_wf:
  assumes "auth_steps E a xs b" and "wf_snapshot (snap a)"
  shows "wf_snapshot (snap b)"
  using assms by (rule wf_steps)

theorem reachable_snapshot_wf_witness: "wf_snapshot (snap demo_state)"
  by (rule reachable_snapshot_wf [OF demo_steps]) (simp add: in_memory_def fresh_authority_def wf_default_snapshot)

text \<open>
  Migration accepts exactly the versions up to the current one, stamps the current version and
  changes nothing else; a newer snapshot is refused with both version numbers.
\<close>

theorem migrate_snapshot_spec:
  "migrate_snapshot s =
     (if SNAPSHOT_SCHEMA_VERSION < schema_version s
      then Inl (FromFuture (schema_version s) SNAPSHOT_SCHEMA_VERSION)
      else Inr (s\<lparr>schema_version := SNAPSHOT_SCHEMA_VERSION\<rparr>))"
  by (rule migrate_snapshot_eq)

lemma mem_rehydrate:
  fixes E :: "(in_memory_persistence, ('io, 'serde) persistence_error) auth_env"
  assumes E: "E = mk_env mem_load mem_save disp" and ld: "env_load E p = Inr s" and wf: "wf_snapshot s"
  shows "\<exists>b q. rehydrate E now p = (Inr b, q) \<and> snap b = recover_snapshot now s \<and> env_load E q = Inr (snap b)"
proof -
  have Ef: "env_load E = mem_load" "env_save E = mem_save" by (simp_all add: E mk_env_def)
  have "mem_load (store (fresh_authority s p)) = (Inr s :: ('io, 'serde) persistence_error + snapshot)"
    using ld Ef by (simp add: fresh_authority_def)
  from mem_auth.restart_ok [OF this, of disp now] obtain b q where r: "rehydrate E now p = (Inr b, q)"
    by (auto simp: mem_save_def fresh_authority_def E)
  from rehydrate_inv [OF r] ld have b: "snap b = recover_snapshot now s"
    and q: "recover_snapshot now s = s \<and> q = p \<or>
      mem_save (recover_snapshot now s) p = (None :: ('io, 'serde) persistence_error option, q)"
    by (auto simp: Ef fresh_authority_def)
  have "schema_version (recover_snapshot now s) = SNAPSHOT_SCHEMA_VERSION"
    using wf_recover [OF wf] by (simp add: wf_snapshot_def)
  then have "env_load E q = Inr (recover_snapshot now s)"
    using q ld mem.load_after_save [of "recover_snapshot now s" p q] by (auto simp: Ef)
  with r b show ?thesis by simp
qed

section \<open>The journal\<close>

text \<open>
  (C3) What the JSON file backend holds after any history of operations from a well-formed snapshot: the file loads as the
  snapshot right after one of the operations, less what serde drops, and no later operation saved a change, for the snapshot
  stayed or the save failed; or no operation of the history saved a change and the file loads as it did before.
\<close>

theorem json_journal_in_step:
  assumes "serde_roundtrip vn enc dec" and "E = mk_env (json_store_load dec) (json_save enc empty_file) disp"
    and "auth_steps E a xs b" and "wf_snapshot (snap a)"
  shows "json_store_load dec (store b) = json_store_load dec (store a) \<and> unsaved E xs a \<or>
    (\<exists>ys zs. xs = ys @ zs \<and> ys \<noteq> [] \<and> unsaved E zs (fold (auth_exec E) ys a) \<and>
       json_store_load dec (store b) = Inr (as_stored vn (snap (fold (auth_exec E) ys a))))"
  using auth_durable.journal_history [OF auth_durable.intro [OF json_persistence [OF assms(1)]], of empty_file disp xs a] assms(2-4)
  by (simp add: auth_steps_iff)

definition demo_enc :: "snapshot \<Rightarrow> unit + snapshot" where
  "demo_enc s = Inr (as_stored id s)"

definition demo_dec :: "snapshot \<Rightarrow> unit + snapshot" where
  "demo_dec s = Inr s"

definition demo_io :: "(unit, snapshot) save_io" where
  "demo_io = \<lparr>io_open = None, io_write = None, io_sync = None, io_rename = None\<rparr>"

definition demo_disk :: "(unit, snapshot) json_store" where
  "demo_disk = (\<lparr>disk_file = None, disk_tmp = None\<rparr>, \<lambda>_. demo_io, 0)"

lemma demo_roundtrip: "serde_roundtrip id demo_enc demo_dec"
  by (simp add: serde_roundtrip_def demo_enc_def demo_dec_def)

definition demo_json_env :: "((unit, snapshot) json_store, (unit, unit) persistence_error) auth_env" where
  "demo_json_env = mk_env (json_store_load demo_dec) (json_save demo_enc default_snapshot) (\<lambda>_. ''u'')"

theorem json_journal_in_step_witness:
  "\<exists>ys zs. demo_ops = ys @ zs \<and> ys \<noteq> [] \<and>
     json_store_load demo_dec (store (fold (auth_exec demo_json_env) demo_ops (fresh_authority default_snapshot demo_disk))) =
       Inr (as_stored id (snap (fold (auth_exec demo_json_env) ys (fresh_authority default_snapshot demo_disk))))"
proof -
  let ?a = "fresh_authority default_snapshot demo_disk"
  have wf: "wf_snapshot (snap ?a)" by (simp add: fresh_authority_def wf_default_snapshot)
  have "all_fresh demo_json_env demo_ops ?a" by code_simp
  then have st: "auth_steps demo_json_env ?a demo_ops (fold (auth_exec demo_json_env) demo_ops ?a)" by (simp add: auth_steps_iff)
  have "\<not> unsaved demo_json_env demo_ops ?a" by code_simp
  with json_journal_in_step [OF demo_roundtrip demo_json_env_def st wf] show ?thesis by blast
qed

text \<open>
  A save interrupted at any point leaves a journal that is the complete old file or the
  complete new one, and an error leaves the old one.
\<close>

theorem json_save_atomic:
  "\<forall>d' \<in> set (snd (json_save_trace enc empty_file io s d)).
     disk_file d' = disk_file d \<or>
     fst (json_save_trace enc empty_file io s d) = None \<and> (\<exists>bytes. enc s = Inr bytes \<and> disk_file d' = Some bytes)"
  by (auto simp: json_save_trace_def Let_def split: sum.split option.split)

theorem json_save_atomic_witness:
  "let d' = hd (snd (json_save_trace demo_enc default_snapshot demo_io default_snapshot (fst demo_disk)))
   in disk_file d' = None \<or> disk_file d' = Some (as_stored id default_snapshot)"
proof -
  let ?ds = "snd (json_save_trace demo_enc default_snapshot demo_io default_snapshot (fst demo_disk))"
  have "hd ?ds \<in> set ?ds"
    by (simp add: json_save_trace_def demo_enc_def demo_io_def Let_def)
  with json_save_atomic [of demo_enc default_snapshot demo_io default_snapshot "fst demo_disk"]
  have "disk_file (hd ?ds) = None \<or> disk_file (hd ?ds) = Some (as_stored id default_snapshot)"
    by (force simp: demo_disk_def demo_enc_def)
  then show ?thesis by (simp only: Let_def)
qed

text \<open>
  Restarting after any history on the in-memory backend succeeds and gives the last snapshot
  with every pending, running or awaiting run paused and all reviews dropped, nothing else changed;
  the recovered snapshot is what the journal holds, and restarting once more changes nothing.
\<close>

theorem restart_recovers:
  fixes E :: "(in_memory_persistence, ('io, 'serde) persistence_error) auth_env"
  assumes E: "E = mk_env mem_load mem_save disp" and steps: "auth_steps E in_memory xs a"
  shows "\<exists>b q. rehydrate E now (store a) = (Inr b, q) \<and> snap b = recover_snapshot now (snap a) \<and>
    reviews (snap b) = [] \<and> (\<forall>i. get_run b i = map_option (abandon_run now) (get_run a i)) \<and>
    env_load E q = Inr (snap b) \<and>
    (\<exists>c q'. rehydrate E now' q = (Inr c, q') \<and> snap c = snap b)"
proof -
  have wf: "wf_snapshot (snap a)"
    by (rule wf_steps [OF steps]) (simp add: in_memory_def fresh_authority_def wf_default_snapshot)
  have Ef: "env_load E = mem_load" "env_save E = mem_save" by (simp_all add: E mk_env_def)
  have start: "mem_load (store in_memory) = (Inr (snap in_memory) :: ('io, 'serde) persistence_error + snapshot)"
    by (simp add: in_memory_def fresh_authority_def mem_load_def load_migrated_def migrate_snapshot_current
        default_in_memory_persistence_def default_snapshot_def)
  have ld: "env_load E (store a) = Inr (snap a)"
    unfolding Ef by (rule mem_auth.journal_steps [OF steps [unfolded E] _ _ start])
      (simp_all add: mem_save_def in_memory_def fresh_authority_def wf_default_snapshot)
  from mem_rehydrate [OF E ld wf] obtain b q where b: "rehydrate E now (store a) = (Inr b, q)"
    and sb: "snap b = recover_snapshot now (snap a)" and q: "env_load E q = Inr (snap b)" by blast
  have "wf_snapshot (snap b)" unfolding sb by (rule wf_recover [OF wf])
  from mem_rehydrate [OF E q this] obtain c q' where
    "rehydrate E now' q = (Inr c, q')" "snap c = recover_snapshot now' (snap b)" by blast
  with b sb q show ?thesis
    by (intro exI [of _ b] exI [of _ q] conjI exI [of _ c] exI [of _ q'])
      (simp_all add: recover_idem get_run_def recover_run, simp add: recover_snapshot_def)
qed

theorem restart_recovers_witness:
  "\<exists>b q. rehydrate demo_env 100 (store demo_state) = (Inr b, q) \<and>
     snap b = recover_snapshot 100 (snap demo_state) \<and> reviews (snap b) = []"
  using restart_recovers [OF demo_env_def demo_steps, of 100 0] by blast

text \<open>
  A memory entry the authority reports as stored is gone after the next restart on the JSON
  file backend.
\<close>

theorem put_memory_not_durable:
  assumes "serde_roundtrip vn enc dec" and "E = mk_env (json_store_load dec) (json_save enc empty_file) disp"
    and "put_memory E ns entr a = (Inr (), b)" and "rehydrate E now (store b) = (Inr c, q)"
  shows "map_of (memory (snap b)) ns \<noteq> None \<and> memory (snap c) = []"
proof -
  from assms(3) have m: "map_of (memory (snap b)) ns \<noteq> None"
    and sv: "env_save E (snap b) (store a) = (None, store b)"
    by (auto simp: put_memory_def Let_def persist_then_def persist_def store_simps
        split: prod.splits option.splits)
  have "env_load E (store b) = load_migrated (as_stored vn (snap b))"
    using persistence.save_ok [OF json_persistence [OF assms(1)]] sv unfolding assms(2) mk_env_def by simp
  with rehydrate_inv [OF assms(4)] have "memory (snap c) = []"
    by (auto simp: load_migrated_def migrate_snapshot_eq as_stored_def fresh_authority_def
        recover_snapshot_def split: sum.splits if_splits)
  with m show ?thesis by simp
qed

definition demo_entry :: memory_entry where
  "demo_entry = \<lparr>entry_key = ''k'', entry_value = JNull, entry_updated_at_ms = 1\<rparr>"

theorem put_memory_not_durable_witness:
  "\<exists>b c q. put_memory demo_json_env (StringNewtype ''ns'') demo_entry (fresh_authority default_snapshot demo_disk) = (Inr (), b) \<and>
     rehydrate demo_json_env 5 (store b) = (Inr c, q) \<and> memory (snap c) = []"
proof -
  define b where "b = snd (put_memory demo_json_env (StringNewtype ''ns'') demo_entry (fresh_authority default_snapshot demo_disk))"
  have p: "put_memory demo_json_env (StringNewtype ''ns'') demo_entry (fresh_authority default_snapshot demo_disk) = (Inr (), b)"
    unfolding b_def by (simp add: put_memory_def Let_def persist_then_def persist_def split_def demo_json_env_def
        mk_env_def json_save_def json_save_trace_def demo_enc_def demo_disk_def demo_io_def fresh_authority_def)
  have "\<exists>c q. rehydrate demo_json_env 5 (store b) = (Inr c, q)"
    unfolding b_def by (simp add: put_memory_def Let_def persist_then_def persist_def split_def demo_json_env_def
        mk_env_def json_save_def json_save_trace_def demo_enc_def demo_disk_def demo_io_def fresh_authority_def
        rehydrate_def json_store_load_def json_load_def demo_dec_def load_migrated_def migrate_snapshot_current as_stored_def
        default_snapshot_def)
  then obtain c q where r: "rehydrate demo_json_env 5 (store b) = (Inr c, q)" by blast
  from put_memory_not_durable [OF demo_roundtrip demo_json_env_def p r] p r show ?thesis by blast
qed

text \<open>
  A restart keeps the task trees of the snapshot, but the tree the runtime answers with is
  empty for every run.
\<close>

theorem restart_forgets_task_trees:
  assumes "env_load E p = Inr s" and "rehydrate E now p = (Inr a, q)"
  shows "task_trees (snap a) = task_trees s \<and> get_task_tree a i = None"
  using rehydrate_inv [OF assms(2)] assms(1)
  by (auto simp: fresh_authority_def recover_snapshot_def get_task_tree_def)

theorem restart_forgets_task_trees_witness:
  "let a = auth_exec demo_env (OpStartTask 6 6 (UuidNewtype 4) demo_run None ''t'' None None) demo_state
   in get_task_tree a demo_run \<noteq> None \<and> (\<exists>b q. rehydrate demo_env 9 (store a) = (Inr b, q) \<and>
        task_trees (snap b) \<noteq> [] \<and> get_task_tree b demo_run = None)"
proof -
  let ?a = "auth_exec demo_env (OpStartTask 6 6 (UuidNewtype 4) demo_run None ''t'' None None) demo_state"
  have t: "get_task_tree ?a demo_run \<noteq> None" "task_trees (snap ?a) \<noteq> []" by code_simp+
  have ld: "env_load demo_env (store ?a) = Inr (snap ?a)" by code_simp
  have "wf_snapshot (snap ?a)"
    by (rule wf_exec) (simp_all add: wf_steps [OF demo_steps] in_memory_def fresh_authority_def wf_default_snapshot)
  from mem_rehydrate [OF demo_env_def ld this] obtain b q where
    r: "rehydrate demo_env 9 (store ?a) = (Inr b, q)" by blast
  from restart_forgets_task_trees [OF ld r, of demo_run] t r show ?thesis by (auto simp: Let_def)
qed

text \<open>
  A failed save is reported as an error and nothing is emitted, but the change stays in memory:
  the snapshot then has what no journal has.
\<close>

theorem failed_save_keeps_change:
  assumes "env_save E ((snap a)\<lparr>spaces := bt_put (space_id sp) sp (spaces (snap a))\<rparr>) (store a) = (Some e, p)"
  shows "let (r, b) = upsert_space E sp a
    in r = Inl (Persistence e) \<and> map_of (spaces (snap b)) (space_id sp) = Some sp \<and> subs b = subs a \<and> store b = p"
  using assms by (simp add: upsert_space_def persist_then_def persist_def store_simps)

definition demo_bad_env :: "(nat, string) auth_env" where
  "demo_bad_env = mk_env (\<lambda>_. Inr default_snapshot) (\<lambda>s n. (Some ''disk full'', n)) (\<lambda>_. ''u'')"

theorem failed_save_keeps_change_witness:
  "let sp = \<lparr>space_id = UuidNewtype 7, space_name = ''s'', compaction_threshold_pct = 80, compaction_recency_turns = 6\<rparr>;
       (r, b) = upsert_space demo_bad_env sp (fresh_authority default_snapshot 0)
   in r = Inl (Persistence ''disk full'') \<and> map_of (spaces (snap b)) (space_id sp) = Some sp"
  using failed_save_keeps_change [where E = demo_bad_env and a = "fresh_authority default_snapshot 0" and
      sp = "\<lparr>space_id = UuidNewtype 7, space_name = ''s'', compaction_threshold_pct = 80, compaction_recency_turns = 6\<rparr>"
      and e = "''disk full''" and p = 0]
  by (simp add: demo_bad_env_def mk_env_def fresh_authority_def split_def Let_def)

section \<open>Reviews\<close>

lemma persist_then_ok:
  "fst (persist_then E k a) = Inr x \<longleftrightarrow>
     fst (env_save E (snap a) (store a)) = None \<and>
     fst (k (a\<lparr>store := snd (env_save E (snap a) (store a))\<rparr>)) = Inr x"
  by (auto simp: persist_then_def persist_def split: prod.split option.split)

text \<open>What a successful resolution does to the completions.\<close>

lemma resolve_completions:
  assumes "fst (resolve_review E now ms i rid d nts a) = Inr ()"
  shows "let b = snd (resolve_review E now ms i rid d nts a)
    in (if rid \<in> pending_resolutions a
        then completions b = completions a @ [(rid, \<lparr>res_decision = d, res_notes = nts\<rparr>)] \<and>
          pending_resolutions b = pending_resolutions a - {rid}
        else completions b = completions a \<and> pending_resolutions b = pending_resolutions a)"
  using assms
  by (auto simp: resolve_review_def Let_def auth_simps persist_then_ok split: option.splits if_splits)

text \<open>
  A review is resolved at most once: after a successful resolution and any further operations,
  resolving it again is refused and changes nothing.
\<close>

theorem review_resolved_once:
  assumes "fst (resolve_review E now ms i rid d nts a) = Inr ()"
    and "auth_steps E (snd (resolve_review E now ms i rid d nts a)) xs b"
    and "d' \<noteq> permission_state.Pending"
  shows "resolve_review E now' ms' i rid d' nts' b = (Inl ReviewAlreadyResolved, b)"
proof -
  from resolve_review_ok [OF assms(1)] obtain rv where d: "d \<noteq> permission_state.Pending"
    and rv: "get_review (snd (resolve_review E now ms i rid d nts a)) rid =
      Some (rv\<lparr>review_state := d, review_notes := nts, review_updated_at_ms := now\<rparr>)"
    and i: "review_run_id rv = i" by blast
  with assms(3) show ?thesis by (intro resolved_again [OF steps_review [OF assms(2) rv]]) simp_all
qed

theorem review_resolved_once_witness:
  "let b = auth_exec demo_env (OpPause 8 8 demo_run)
       (snd (resolve_review demo_env 7 (\<lambda>_. 7) demo_run demo_review Rejected None demo_state))
   in resolve_review demo_env 9 (\<lambda>_. 9) demo_run demo_review Approved None b = (Inl ReviewAlreadyResolved, b)"
proof -
  have ok: "fst (resolve_review demo_env 7 (\<lambda>_. 7) demo_run demo_review Rejected None demo_state) = Inr ()"
    by code_simp
  let ?a = "snd (resolve_review demo_env 7 (\<lambda>_. 7) demo_run demo_review Rejected None demo_state)"
  have "auth_steps demo_env ?a [OpPause 8 8 demo_run] (auth_exec demo_env (OpPause 8 8 demo_run) ?a)"
    by (simp add: auth_steps_iff)
  from review_resolved_once [OF ok this, of Approved] show ?thesis by (simp add: Let_def)
qed

text \<open>
  A resolution that goes through while the completion is registered fires it exactly once, with
  the decision and the notes.
\<close>

theorem resolution_fires_completion:
  assumes "fst (resolve_review E now ms i rid d nts a) = Inr ()" and "rid \<in> pending_resolutions a"
  shows "let b = snd (resolve_review E now ms i rid d nts a)
    in completions b = completions a @ [(rid, \<lparr>res_decision = d, res_notes = nts\<rparr>)] \<and>
       pending_resolutions b = pending_resolutions a - {rid}"
  using resolve_completions [OF assms(1)] assms(2) by (simp add: Let_def)

theorem resolution_fires_completion_witness:
  "let a = register_completion demo_review demo_state;
       b = snd (resolve_review demo_env 7 (\<lambda>_. 7) demo_run demo_review Approved None a)
   in completions b = [(demo_review, \<lparr>res_decision = Approved, res_notes = None\<rparr>)]"
proof -
  let ?a = "register_completion demo_review demo_state"
  have "fst (resolve_review demo_env 7 (\<lambda>_. 7) demo_run demo_review Approved None ?a) = Inr ()" by code_simp
  moreover have "demo_review \<in> pending_resolutions ?a" by (simp add: register_completion_def)
  moreover have "completions ?a = []" by code_simp
  ultimately show ?thesis
    using resolution_fires_completion [of demo_env 7 "\<lambda>_. 7" demo_run demo_review Approved None ?a]
    by (simp add: Let_def)
qed

text \<open>
  A review resolved between the two critical sections of \<^verbatim>\<open>open_review_with_completion\<close>
  never wakes its waiter: the sender registered afterwards does not fire in any continuation.
\<close>

theorem late_registration_never_fires:
  assumes "fst (resolve_review E now ms i rid d nts a) = Inr ()" and "rid \<notin> pending_resolutions a"
    and "rid \<notin> fst ` set (completions a)"
    and "auth_steps E (register_completion rid (snd (resolve_review E now ms i rid d nts a))) xs b"
  shows "rid \<notin> fst ` set (completions b)"
proof -
  let ?r = "register_completion rid (snd (resolve_review E now ms i rid d nts a))"
  from resolve_review_ok [OF assms(1)] obtain rv where "d \<noteq> permission_state.Pending"
    and "get_review (snd (resolve_review E now ms i rid d nts a)) rid =
      Some (rv\<lparr>review_state := d, review_notes := nts, review_updated_at_ms := now\<rparr>)" by blast
  then have "\<exists>rv. get_review ?r rid = Some rv \<and> review_state rv \<noteq> permission_state.Pending"
    by (simp add: register_completion_def get_review_def)
  moreover have "completions ?r = completions a"
    using resolve_completions [OF assms(1)] assms(2) by (simp add: Let_def register_completion_def)
  ultimately show ?thesis using steps_no_completion [OF assms(4)] assms(3) by auto
qed

theorem late_registration_never_fires_witness:
  "demo_review \<notin> fst ` set (completions (auth_exec demo_env (OpResolveReview 8 (\<lambda>_. 8) demo_run demo_review Approved None)
     (register_completion demo_review
       (snd (resolve_review demo_env 7 (\<lambda>_. 7) demo_run demo_review Approved None demo_state)))))"
proof -
  let ?x = "OpResolveReview 8 (\<lambda>_. 8) demo_run demo_review Approved None"
  let ?r = "register_completion demo_review
    (snd (resolve_review demo_env 7 (\<lambda>_. 7) demo_run demo_review Approved None demo_state))"
  have ok: "fst (resolve_review demo_env 7 (\<lambda>_. 7) demo_run demo_review Approved None demo_state) = Inr ()"
    by code_simp
  have no: "demo_review \<notin> pending_resolutions demo_state" "demo_review \<notin> fst ` set (completions demo_state)"
    by code_simp+
  have "auth_steps demo_env ?r [?x] (auth_exec demo_env ?x ?r)" by (simp add: auth_steps_iff)
  from late_registration_never_fires [OF ok no this] show ?thesis .
qed

text \<open>
  In every reachable state no completion has fired twice, and every one that fired belongs to a
  resolved review and carries its decision and its notes.
\<close>

theorem completions_consistent:
  assumes "auth_steps E a xs b" and "completions_ok a"
  shows "distinct (map fst (completions b)) \<and>
    (\<forall>k res. (k, res) \<in> set (completions b) \<longrightarrow> (\<exists>rv. get_review b k = Some rv \<and>
       review_state rv \<noteq> permission_state.Pending \<and> review_state rv = res_decision res \<and>
       review_notes rv = res_notes res))"
proof -
  have "completions_ok b"
    using assms by (rule auth_steps_invariant) (rule completions_ok_exec)
  then show ?thesis by (simp add: completions_ok_def)
qed

theorem completions_consistent_witness: "distinct (map fst (completions demo_state))"
  using completions_consistent [OF demo_steps]
  by (simp add: completions_ok_def in_memory_def fresh_authority_def)

section \<open>Events\<close>

text \<open>
  (C5) Whatever the operations, every subscription has its events numbered 0, 1, 2, \<dots> without gap
  or repetition (as 64-bit numbers), and its next number is how many it has been sent.
\<close>

theorem events_numbered:
  assumes "auth_steps E a xs b" and "subs_ok (subs a)" and "map_of (subs b) k = Some s"
  shows "map sequence (sub_sent s) = map of_nat [0..<length (sub_sent s)] \<and>
    next_seq s = of_nat (length (sub_sent s))"
proof -
  have "subs_ok (subs b)"
    using assms(1,2) by (rule auth_steps_invariant) (rule subs_ok_exec)
  with assms(3) show ?thesis by (simp add: subs_ok_def sub_numbered_def)
qed

theorem events_numbered_witness:
  "map sequence (sub_sent (the (map_of (subs demo_state) demo_sub))) = [0, 1, 2, 3]"
proof -
  have s: "map_of (subs demo_state) demo_sub = Some (the (map_of (subs demo_state) demo_sub))" by code_simp
  have l: "length (sub_sent (the (map_of (subs demo_state) demo_sub))) = 4" by code_simp
  have "subs_ok (subs in_memory)" by (simp add: in_memory_def fresh_authority_def subs_ok_def)
  from events_numbered [OF demo_steps this s] show ?thesis unfolding l by (simp add: upt_rec)
qed

text \<open>
  A status change that goes through sends each live subscriber of all events, of the run or of
  its session exactly one event, with the new status, and sends nothing to any other subscriber.
\<close>

theorem transition_event_delivery:
  assumes "subs_ok (subs a)" and "map_of (subs a) k = Some s" and "rx_alive s"
    and "get_run a i = Some r" and "fst (transition_run E now ms i act decide a) = Inr ()"
  shows "\<exists>nxt. decide (run_status r) = Some nxt \<and>
    received a (snd (transition_run E now ms i act decide a)) k =
      (if sub_topic s = ''*'' \<or> sub_topic s \<in> set (run_topics E i (run_session_id r))
       then [\<lparr>sequence = next_seq s, emitted_at_ms = ms, payload = EvRunStatus (show_id E i) (status_label nxt)
               (event_agent E r) (run_flow_run_id r) (failure_detail nxt)\<rparr>] else [])"
  using transition_delivers [OF assms] unfolding listens_def .

theorem transition_event_delivery_witness:
  "map payload (received demo_state (snd (cancel_run demo_env 6 6 demo_run demo_state)) demo_sub) =
     [EvRunStatus ''u'' ''cancelled'' None None None]"
proof -
  have "subs_ok (subs in_memory)" by (simp add: in_memory_def fresh_authority_def subs_ok_def)
  then have "subs_ok (subs demo_state)"
    by (rule auth_steps_invariant [OF demo_steps, where I = "\<lambda>a. subs_ok (subs a)"]) (rule subs_ok_exec)
  moreover have "map_of (subs demo_state) demo_sub = Some (the (map_of (subs demo_state) demo_sub))" by code_simp
  moreover have "rx_alive (the (map_of (subs demo_state) demo_sub))" by code_simp
  moreover have "get_run demo_state demo_run = Some (the (get_run demo_state demo_run))" by code_simp
  moreover have "fst (transition_run demo_env 6 6 demo_run ''cancel'' cancel_decide demo_state) = Inr ()" by code_simp
  ultimately obtain nxt where nxt: "cancel_decide (run_status (the (get_run demo_state demo_run))) = Some nxt"
    and rc: "received demo_state (snd (transition_run demo_env 6 6 demo_run ''cancel'' cancel_decide demo_state)) demo_sub =
      (if sub_topic (the (map_of (subs demo_state) demo_sub)) = ''*'' \<or>
          sub_topic (the (map_of (subs demo_state) demo_sub)) \<in>
            set (run_topics demo_env demo_run (run_session_id (the (get_run demo_state demo_run))))
       then [\<lparr>sequence = next_seq (the (map_of (subs demo_state) demo_sub)), emitted_at_ms = 6,
               payload = EvRunStatus (show_id demo_env demo_run) (status_label nxt)
               (event_agent demo_env (the (get_run demo_state demo_run)))
               (run_flow_run_id (the (get_run demo_state demo_run))) (failure_detail nxt)\<rparr>] else [])"
    by (blast dest: transition_event_delivery)
  have "cancel_decide (run_status (the (get_run demo_state demo_run))) = Some run_status.Cancelled" by code_simp
  with nxt have n: "nxt = run_status.Cancelled" by simp
  have t: "sub_topic (the (map_of (subs demo_state) demo_sub)) \<in>
      set (run_topics demo_env demo_run (run_session_id (the (get_run demo_state demo_run))))" by code_simp
  have e: "show_id demo_env demo_run = ''u''" "event_agent demo_env (the (get_run demo_state demo_run)) = None"
    "run_flow_run_id (the (get_run demo_state demo_run)) = None" by code_simp+
  show ?thesis unfolding cancel_run_def rc using t by (simp add: e n failure_detail_def del: One_nat_def)
qed

end
