(* ===== verification/FlowDef.thy ===== *)
theory FlowDef
  imports Prelude
begin

text \<open>
  Flow definitions (\<^verbatim>\<open>crates/cronymax/src/flow/definition.rs\<close>): the parsed nodes, their
  validation, the topology \<^verbatim>\<open>FlowGraph::build\<close> derives from them, the back-edge search, and the
  queries of the flow runtime. The YAML parser and file reading are parameters.

  The two maps of the topology are iterated over by the queries: they are association lists, and
  what is proved about the queries does not depend on their order.
\<close>

section \<open>Data\<close>

datatype blackboard_writer =
  AgentGenerated "string option"
| HumanInjected
| AutoSeeded string

definition default_blackboard_writer :: blackboard_writer where
  "default_blackboard_writer = AgentGenerated None"

record flow_node_output =
  out_port :: string
  routes_to :: "string option"
  out_reviewers :: "string list"
  max_cycles :: "u32 option"
  on_cycle_exhausted :: "string option"
  blackboard_key :: "string option"

record flow_node =
  fnode_id :: string
  fnode_owner :: string
  fnode_description :: "string option"
  fnode_outputs :: "flow_node_output list"
  fnode_reads :: "string list"

type_synonym port_ref = "string \<times> string"

record flow_graph =
  entry_nodes :: "string list"
  required_inputs :: "(string \<times> port_ref list) list"
  cycle_inputs :: "(string \<times> port_ref list) list"

record flow_definition =
  flow_name :: string
  flow_description :: string
  flow_agents :: "(string \<times> string) list"
  flow_nodes :: "flow_node list"
  max_review_rounds :: u32
  on_review_exhausted :: string
  reviewer_timeout_secs :: u32
  reviewer_enabled :: bool
  source_path :: string
  flow_graph :: "flow_graph option"

definition default_max_review_rounds :: u32 where "default_max_review_rounds = 3"
definition default_on_review_exhausted :: string where "default_on_review_exhausted = ''halt''"
definition default_reviewer_timeout_secs :: u32 where "default_reviewer_timeout_secs = 60"
definition default_reviewer_enabled :: bool where "default_reviewer_enabled = True"

datatype 'io flow_load_error =
  FlowIo string 'io
| FlowParse string string
| FlowValidation string string
| DuplicateNodeId string string
| UnknownRouteTarget string string string string
| UnknownReviewer string string string string
| LegacyEdgesSchema string
| UnresolvedBlackboardKey string string

section \<open>Validation\<close>

fun first_duplicate :: "string set \<Rightarrow> string list \<Rightarrow> string option" where
  "first_duplicate seen [] = None"
| "first_duplicate seen (i # is) = (if i \<in> seen then Some i else first_duplicate (insert i seen) is)"

definition quoted :: "string \<Rightarrow> string" where
  "quoted s = [CHR 0x27] @ s @ [CHR 0x27]"

text \<open>The checks of one output, in the order of the code; the first failure is the error.\<close>

definition check_route :: "string \<Rightarrow> string set \<Rightarrow> string \<Rightarrow> flow_node_output \<Rightarrow> 'io flow_load_error option" where
  "check_route path ids nid out =
     (case routes_to out of
        None \<Rightarrow> None
      | Some t \<Rightarrow> if t \<in> ids then None else Some (UnknownRouteTarget path nid (out_port out) t))"

fun check_reviewers :: "string \<Rightarrow> string set \<Rightarrow> string \<Rightarrow> string \<Rightarrow> string list \<Rightarrow> 'io flow_load_error option" where
  "check_reviewers path agts nid port [] = None"
| "check_reviewers path agts nid port (r # rs) =
     (if r \<noteq> ''human'' \<and> r \<notin> agts then Some (UnknownReviewer path nid port r)
      else check_reviewers path agts nid port rs)"

definition check_cycle_action :: "string \<Rightarrow> string \<Rightarrow> flow_node_output \<Rightarrow> 'io flow_load_error option" where
  "check_cycle_action path nid out =
     (if max_cycles out = None then None
      else (case on_cycle_exhausted out of
        None \<Rightarrow> None
      | Some act \<Rightarrow>
          if act \<noteq> ''escalate_to_human'' \<and> act \<noteq> ''halt''
          then Some (FlowValidation path (''node '' @ quoted nid @ '' port '' @ quoted (out_port out) @
            '': on_cycle_exhausted must be '' @ quoted ''escalate_to_human'' @ '' or '' @ quoted ''halt'' @
            '', got '' @ quoted act))
          else None))"

fun or_else :: "'a option \<Rightarrow> 'a option \<Rightarrow> 'a option" where
  "or_else (Some x) y = Some x"
| "or_else None y = y"

fun check_outputs :: "string \<Rightarrow> string set \<Rightarrow> string set \<Rightarrow> string \<Rightarrow> flow_node_output list \<Rightarrow> 'io flow_load_error option" where
  "check_outputs path ids agts nid [] = None"
| "check_outputs path ids agts nid (out # outs) =
     or_else (check_route path ids nid out)
       (or_else (check_reviewers path agts nid (out_port out) (out_reviewers out))
         (or_else (check_cycle_action path nid out) (check_outputs path ids agts nid outs)))"

fun check_nodes :: "string \<Rightarrow> string set \<Rightarrow> string set \<Rightarrow> flow_node list \<Rightarrow> 'io flow_load_error option" where
  "check_nodes path ids agts [] = None"
| "check_nodes path ids agts (n # ns) =
     or_else (check_outputs path ids agts (fnode_id n) (fnode_outputs n)) (check_nodes path ids agts ns)"

text \<open>Later producers of a key replace earlier ones.\<close>

definition produce_key :: "string \<Rightarrow> (string \<rightharpoonup> port_ref) \<Rightarrow> flow_node_output \<Rightarrow> (string \<rightharpoonup> port_ref)" where
  "produce_key i m out = (case blackboard_key out of None \<Rightarrow> m | Some k \<Rightarrow> m(k \<mapsto> (i, out_port out)))"

definition key_to_producer :: "flow_node list \<Rightarrow> (string \<rightharpoonup> port_ref)" where
  "key_to_producer ns = foldl (\<lambda>m n. foldl (produce_key (fnode_id n)) m (fnode_outputs n)) Map.empty ns"

fun check_keys :: "(string \<rightharpoonup> port_ref) \<Rightarrow> string \<Rightarrow> string list \<Rightarrow> 'io flow_load_error option" where
  "check_keys prods nid [] = None"
| "check_keys prods nid (k # ks) =
     (if prods k = None then Some (UnresolvedBlackboardKey nid k) else check_keys prods nid ks)"

fun check_reads :: "(string \<rightharpoonup> port_ref) \<Rightarrow> flow_node list \<Rightarrow> 'io flow_load_error option" where
  "check_reads prods [] = None"
| "check_reads prods (n # ns) = or_else (check_keys prods (fnode_id n) (fnode_reads n)) (check_reads prods ns)"

section \<open>Back edges\<close>

definition node_targets :: "flow_node \<Rightarrow> string list" where
  "node_targets n = List.map_filter routes_to (fnode_outputs n)"

definition outgoing :: "flow_node list \<Rightarrow> (string \<rightharpoonup> string list)" where
  "outgoing ns = foldl (\<lambda>m n. m(fnode_id n \<mapsto> node_targets n)) Map.empty ns"

record dfs_state =
  visited :: "string set"
  in_stack :: "string set"
  back_edges :: "(string \<times> string) set"

text \<open>
  \<^verbatim>\<open>dfs_back_edges\<close> and the loop over its targets. The fuel bounds the depth of the recursion;
  \<open>detect_back_edges\<close> gives enough, see \<open>dfs_returns\<close>.
\<close>

function (sequential) dfs_back_edges :: "nat \<Rightarrow> (string \<rightharpoonup> string list) \<Rightarrow> string \<Rightarrow> dfs_state \<Rightarrow> dfs_state option"
  and dfs_targets :: "nat \<Rightarrow> (string \<rightharpoonup> string list) \<Rightarrow> string \<Rightarrow> string list \<Rightarrow> dfs_state \<Rightarrow> dfs_state option"
where
  "dfs_back_edges 0 adj cur s = None"
| "dfs_back_edges (Suc k) adj cur s =
     (let s1 = s\<lparr>visited := insert cur (visited s), in_stack := insert cur (in_stack s)\<rparr>
      in (case dfs_targets k adj cur (case adj cur of None \<Rightarrow> [] | Some ts \<Rightarrow> ts) s1 of
            None \<Rightarrow> None
          | Some s2 \<Rightarrow> Some (s2\<lparr>in_stack := in_stack s2 - {cur}\<rparr>)))"
| "dfs_targets k adj cur [] s = Some s"
| "dfs_targets k adj cur (t # ts) s =
     (if t \<notin> visited s
      then (case dfs_back_edges k adj t s of None \<Rightarrow> None | Some s' \<Rightarrow> dfs_targets k adj cur ts s')
      else if t \<in> in_stack s
      then dfs_targets k adj cur ts (s\<lparr>back_edges := insert (cur, t) (back_edges s)\<rparr>)
      else dfs_targets k adj cur ts s)"
  by pat_completeness auto
termination
  by (relation "inv_image (less_than <*lex*> less_than)
    (\<lambda>x. case x of Inl (k, _) \<Rightarrow> (k, 0) | Inr (k, _, _, ts, _) \<Rightarrow> (k, Suc (length ts)))") auto

fun dfs_roots :: "nat \<Rightarrow> (string \<rightharpoonup> string list) \<Rightarrow> string list \<Rightarrow> dfs_state \<Rightarrow> dfs_state option" where
  "dfs_roots k adj [] s = Some s"
| "dfs_roots k adj (i # is) s =
     (if i \<notin> visited s
      then (case dfs_back_edges k adj i s of None \<Rightarrow> None | Some s' \<Rightarrow> dfs_roots k adj is s')
      else dfs_roots k adj is s)"

definition dfs_fuel :: "flow_node list \<Rightarrow> nat" where
  "dfs_fuel ns = Suc (length ns + length (concat (map node_targets ns)))"

definition detect_back_edges :: "flow_node list \<Rightarrow> (string \<times> string) set option" where
  "detect_back_edges ns = map_option back_edges
     (dfs_roots (dfs_fuel ns) (outgoing ns) (map fnode_id ns) \<lparr>visited = {}, in_stack = {}, back_edges = {}\<rparr>)"

section \<open>The topology\<close>

definition push_incoming :: "string \<Rightarrow> (string \<rightharpoonup> port_ref list) \<Rightarrow> flow_node_output \<Rightarrow> (string \<rightharpoonup> port_ref list)" where
  "push_incoming i m out = (case routes_to out of
     None \<Rightarrow> m | Some t \<Rightarrow> upd_default t [] (\<lambda>es. es @ [(i, out_port out)]) m)"

definition incoming :: "flow_node list \<Rightarrow> (string \<rightharpoonup> port_ref list)" where
  "incoming ns = foldl (\<lambda>m n. foldl (push_incoming (fnode_id n)) m (fnode_outputs n)) Map.empty ns"

definition chat_input :: port_ref where
  "chat_input = (''__chat__'', ''initial-brief'')"

text \<open>Steps 3 to 6 of \<^verbatim>\<open>FlowGraph::build\<close>, for a given set of back edges.\<close>

type_synonym input_maps = "(string \<times> port_ref list) list \<times> (string \<times> port_ref list) list"

definition classify_node :: "(string \<rightharpoonup> port_ref list) \<Rightarrow> (string \<times> string) set \<Rightarrow> input_maps \<Rightarrow> flow_node \<Rightarrow> input_maps" where
  "classify_node inc back rc n =
     (let es = (case inc (fnode_id n) of None \<Rightarrow> [] | Some es \<Rightarrow> es)
      in (hm_put (fnode_id n) (filter (\<lambda>(src, _). (src, fnode_id n) \<notin> back) es) (fst rc),
          hm_put (fnode_id n) (filter (\<lambda>(src, _). (src, fnode_id n) \<in> back) es) (snd rc)))"

definition classify :: "(string \<times> string) set \<Rightarrow> flow_node list \<Rightarrow> input_maps" where
  "classify back ns = foldl (classify_node (incoming ns) back) ([], []) ns"

definition override_node :: "(string \<rightharpoonup> port_ref) \<Rightarrow> input_maps \<Rightarrow> flow_node \<Rightarrow> input_maps" where
  "override_node prods rc n =
     (if fnode_reads n = [] then rc
      else (hm_put (fnode_id n) (List.map_filter prods (fnode_reads n)) (fst rc),
            hm_put (fnode_id n) [] (snd rc)))"

definition override_reads :: "flow_node list \<Rightarrow> input_maps \<Rightarrow> input_maps" where
  "override_reads ns rc = foldl (override_node (key_to_producer ns)) rc ns"

definition entry_ids :: "(string \<times> port_ref list) list \<Rightarrow> flow_node list \<Rightarrow> string list" where
  "entry_ids req ns = map fnode_id (filter (\<lambda>n.
     (case map_of req (fnode_id n) of None \<Rightarrow> True | Some v \<Rightarrow> v = [])) ns)"

definition inject_chat :: "string list \<Rightarrow> (string \<times> port_ref list) list \<Rightarrow> (string \<times> port_ref list) list" where
  "inject_chat entries req = foldl (\<lambda>m e.
     hm_put e ((case map_of m e of None \<Rightarrow> [] | Some v \<Rightarrow> v) @ [chat_input]) m) req entries"

definition derive_graph :: "(string \<times> string) set \<Rightarrow> flow_node list \<Rightarrow> flow_graph" where
  "derive_graph back ns =
     (case override_reads ns (classify back ns) of
        (req, cyc) \<Rightarrow>
          let entries = entry_ids req ns
          in \<lparr>entry_nodes = entries, required_inputs = inject_chat entries req, cycle_inputs = cyc\<rparr>)"

text \<open>\<open>None\<close> stands for the search running out of fuel, which \<open>build_returns\<close> excludes.\<close>

definition build :: "flow_node list \<Rightarrow> string set \<Rightarrow> string \<Rightarrow> ('io flow_load_error + flow_graph) option" where
  "build ns agts path =
     (case first_duplicate {} (map fnode_id ns) of
        Some i \<Rightarrow> Some (Inl (DuplicateNodeId path i))
      | None \<Rightarrow>
          (case check_nodes path (set (map fnode_id ns)) agts ns of
             Some e \<Rightarrow> Some (Inl e)
           | None \<Rightarrow>
               (case check_reads (key_to_producer ns) ns of
                  Some e \<Rightarrow> Some (Inl e)
                | None \<Rightarrow> map_option (\<lambda>back. Inr (derive_graph back ns)) (detect_back_edges ns))))"

section \<open>Queries\<close>

definition is_entry_node :: "flow_graph \<Rightarrow> string \<Rightarrow> bool" where
  "is_entry_node g i = (i \<in> set (entry_nodes g))"

definition required_inputs_for :: "flow_graph \<Rightarrow> string \<Rightarrow> port_ref list" where
  "required_inputs_for g i = (case map_of (required_inputs g) i of None \<Rightarrow> [] | Some v \<Rightarrow> v)"

definition cycle_inputs_for :: "flow_graph \<Rightarrow> string \<Rightarrow> port_ref list" where
  "cycle_inputs_for g i = (case map_of (cycle_inputs g) i of None \<Rightarrow> [] | Some v \<Rightarrow> v)"

definition nodes_awaiting :: "flow_graph \<Rightarrow> string \<Rightarrow> string \<Rightarrow> string list" where
  "nodes_awaiting g n p = map fst (filter (\<lambda>(_, ins). (n, p) \<in> set ins) (required_inputs g))"

definition nodes_retriggered_by :: "flow_graph \<Rightarrow> string \<Rightarrow> string \<Rightarrow> string list" where
  "nodes_retriggered_by g n p = map fst (filter (\<lambda>(_, ins). (n, p) \<in> set ins) (cycle_inputs g))"

section \<open>Loading\<close>

text \<open>\<^verbatim>\<open>load_from_str\<close>; \<open>parse\<close> is the YAML parser, its error already printed.\<close>

definition load_from_str :: "(string \<Rightarrow> string + flow_definition) \<Rightarrow> string \<Rightarrow> string
    \<Rightarrow> ('io flow_load_error + flow_definition) option" where
  "load_from_str parse yaml path =
     (if str_contains yaml ([CHR 0x0A] @ ''edges:'') \<or> str_starts_with yaml ''edges:''
      then Some (Inl (LegacyEdgesSchema path))
      else (case parse yaml of
        Inl msg \<Rightarrow> Some (Inl (FlowParse path msg))
      | Inr d \<Rightarrow>
          let def = d\<lparr>source_path := path\<rparr>
          in if on_review_exhausted def \<noteq> ''halt'' \<and> on_review_exhausted def \<noteq> ''approve''
             then Some (Inl (FlowValidation path (''on_review_exhausted must be '' @ quoted ''halt'' @ '' or '' @
                quoted ''approve'' @ '', got '' @ quoted (on_review_exhausted def))))
             else (case build (flow_nodes def) (set (map fst (flow_agents def))) path of
                None \<Rightarrow> None
              | Some (Inl e) \<Rightarrow> Some (Inl e)
              | Some (Inr g) \<Rightarrow> Some (Inr (def\<lparr>flow_graph := Some g\<rparr>)))))"

text \<open>\<^verbatim>\<open>load_from_file\<close>; \<open>read\<close> is the outcome of reading the file.\<close>

definition load_from_file :: "(string \<Rightarrow> string + flow_definition) \<Rightarrow> 'io + string \<Rightarrow> string
    \<Rightarrow> ('io flow_load_error + flow_definition) option" where
  "load_from_file parse rd path =
     (case rd of Inl e \<Rightarrow> Some (Inl (FlowIo path e)) | Inr content \<Rightarrow> load_from_str parse content path)"

section \<open>Queries of a definition\<close>

definition fnode :: "flow_definition \<Rightarrow> string \<Rightarrow> flow_node option" where
  "fnode def i = List.find (\<lambda>n. fnode_id n = i) (flow_nodes def)"

definition foutput :: "flow_definition \<Rightarrow> string \<Rightarrow> string \<Rightarrow> flow_node_output option" where
  "foutput def i port = Option.bind (fnode def i) (\<lambda>n. List.find (\<lambda>out. out_port out = port) (fnode_outputs n))"

fun find_key :: "string \<Rightarrow> flow_node list \<Rightarrow> port_ref option" where
  "find_key k [] = None"
| "find_key k (n # ns) =
     (case List.find (\<lambda>out. blackboard_key out = Some k) (fnode_outputs n) of
        Some out \<Rightarrow> Some (fnode_id n, out_port out)
      | None \<Rightarrow> find_key k ns)"

definition find_output_by_blackboard_key :: "flow_definition \<Rightarrow> string \<Rightarrow> port_ref option" where
  "find_output_by_blackboard_key def k = find_key k (flow_nodes def)"

definition pending_ports_for :: "flow_definition \<Rightarrow> string \<Rightarrow> string set \<Rightarrow> string list" where
  "pending_ports_for def i approved =
     (case fnode def i of
        None \<Rightarrow> []
      | Some n \<Rightarrow> filter (\<lambda>p. p \<notin> approved) (map out_port (fnode_outputs n)))"

section \<open>The search for back edges\<close>

text \<open>The routes of an adjacency map, and the nodes the search has left behind.\<close>

definition adj_rel :: "(string \<rightharpoonup> string list) \<Rightarrow> (string \<times> string) set" where
  "adj_rel adj = {(u, v). \<exists>ts. adj u = Some ts \<and> v \<in> set ts}"

definition finished :: "dfs_state \<Rightarrow> string set" where
  "finished s = visited s - in_stack s"

text \<open>
  The edges out of finished nodes that are not back edges stay among the finished nodes and have no
  cycle; every back edge closes a cycle of routes.
\<close>

definition dfs_inv :: "(string \<rightharpoonup> string list) \<Rightarrow> dfs_state \<Rightarrow> bool" where
  "dfs_inv adj s \<longleftrightarrow> in_stack s \<subseteq> visited s \<and>
     (\<forall>u \<in> finished s. \<forall>v. (u, v) \<in> adj_rel adj - back_edges s \<longrightarrow> v \<in> finished s) \<and>
     acyclic {(u, v) \<in> adj_rel adj - back_edges s. u \<in> finished s} \<and>
     (\<forall>(u, v) \<in> back_edges s. (u, v) \<in> adj_rel adj \<and> (v, u) \<in> (adj_rel adj)\<^sup>*)"

definition dfs_grows :: "dfs_state \<Rightarrow> dfs_state \<Rightarrow> bool" where
  "dfs_grows s s' \<longleftrightarrow> visited s \<subseteq> visited s' \<and> in_stack s' = in_stack s \<and> back_edges s \<subseteq> back_edges s'"

lemma dfs_grows_refl [simp]: "dfs_grows s s"
  by (simp add: dfs_grows_def)

lemma dfs_grows_trans: "dfs_grows s t \<Longrightarrow> dfs_grows t u \<Longrightarrow> dfs_grows s u"
  by (auto simp: dfs_grows_def)

lemma finished_grows: "dfs_grows s t \<Longrightarrow> finished s \<subseteq> finished t"
  by (auto simp: dfs_grows_def finished_def)

lemma acyclic_extend:
  assumes ac: "acyclic r" and D: "r \<subseteq> D \<times> D" and x: "x \<notin> D" and T: "T \<subseteq> D"
  shows "acyclic (r \<union> {x} \<times> T)"
proof (rule acyclicI, intro allI notI)
  have stay: "(u, v) \<in> r\<^sup>+ \<and> v \<in> D" if "(u, v) \<in> (r \<union> {x} \<times> T)\<^sup>+" "u \<in> D" for u v
    using that
  proof (induction rule: trancl_induct)
    case (base v)
    with D x show ?case by auto
  next
    case (step v w)
    with D x show ?case by (auto intro: trancl_into_trancl)
  qed
  fix u assume uu: "(u, u) \<in> (r \<union> {x} \<times> T)\<^sup>+"
  show False
  proof (cases "u \<in> D")
    case True
    with stay [OF uu] ac show ?thesis by (simp add: acyclic_def)
  next
    case False
    from uu obtain v where uv: "(u, v) \<in> r \<union> {x} \<times> T" and vu: "(v, u) \<in> (r \<union> {x} \<times> T)\<^sup>*"
      by (blast dest: tranclD)
    with D T have v: "v \<in> D" by auto
    from vu have "v = u \<or> (v, u) \<in> (r \<union> {x} \<times> T)\<^sup>+" by (metis rtranclD)
    with stay v False show ?thesis by blast
  qed
qed

lemma dfs_invD:
  assumes "dfs_inv adj s"
  shows "in_stack s \<subseteq> visited s"
    and "{(u, v) \<in> adj_rel adj - back_edges s. u \<in> finished s} \<subseteq> finished s \<times> finished s"
    and "acyclic {(u, v) \<in> adj_rel adj - back_edges s. u \<in> finished s}"
    and "\<forall>(u, v) \<in> back_edges s. (u, v) \<in> adj_rel adj \<and> (v, u) \<in> (adj_rel adj)\<^sup>*"
proof -
  note d = assms [unfolded dfs_inv_def]
  from d show "in_stack s \<subseteq> visited s" by (elim conjE)
  from d have "\<forall>u \<in> finished s. \<forall>v. (u, v) \<in> adj_rel adj - back_edges s \<longrightarrow> v \<in> finished s"
    by (elim conjE)
  then show "{(u, v) \<in> adj_rel adj - back_edges s. u \<in> finished s} \<subseteq> finished s \<times> finished s" by blast
  from d show "acyclic {(u, v) \<in> adj_rel adj - back_edges s. u \<in> finished s}" by (elim conjE)
  from d show "\<forall>(u, v) \<in> back_edges s. (u, v) \<in> adj_rel adj \<and> (v, u) \<in> (adj_rel adj)\<^sup>*" by (elim conjE)
qed

lemma dfs_finish:
  assumes inv: "dfs_inv adj s" and cur: "cur \<in> in_stack s"
    and ts: "\<forall>t. (cur, t) \<in> adj_rel adj \<longrightarrow> t \<in> finished s \<or> (cur, t) \<in> back_edges s"
  shows "dfs_inv adj (s\<lparr>in_stack := in_stack s - {cur}\<rparr>)" (is "dfs_inv adj ?s")
proof -
  have fin: "finished ?s = insert cur (finished s)" "cur \<notin> finished s"
    using dfs_invD(1) [OF inv] cur by (auto simp: finished_def)
  let ?r = "{(u, v) \<in> adj_rel adj - back_edges s. u \<in> finished s}"
  have split: "{(u, v) \<in> adj_rel adj - back_edges ?s. u \<in> finished ?s} =
      ?r \<union> {cur} \<times> {t. (cur, t) \<in> adj_rel adj - back_edges s}"
    using fin by auto
  have "acyclic (?r \<union> {cur} \<times> {t. (cur, t) \<in> adj_rel adj - back_edges s})"
  proof (rule acyclic_extend)
    show "?r \<subseteq> finished s \<times> finished s" by (rule dfs_invD(2) [OF inv])
    show "{t. (cur, t) \<in> adj_rel adj - back_edges s} \<subseteq> finished s" using ts by auto
    show "acyclic ?r" by (rule dfs_invD(3) [OF inv])
    show "cur \<notin> finished s" by (rule fin(2))
  qed
  moreover have "in_stack ?s \<subseteq> visited ?s" using dfs_invD(1) [OF inv] by auto
  moreover have "\<forall>u \<in> finished ?s. \<forall>v. (u, v) \<in> adj_rel adj - back_edges ?s \<longrightarrow> v \<in> finished ?s"
    using dfs_invD(2) [OF inv] ts unfolding fin by auto
  moreover have "\<forall>(u, v) \<in> back_edges ?s. (u, v) \<in> adj_rel adj \<and> (v, u) \<in> (adj_rel adj)\<^sup>*"
    using inv by (simp add: dfs_inv_def)
  ultimately show ?thesis unfolding dfs_inv_def split by (intro conjI)
qed

lemma dfs_back_edge:
  assumes inv: "dfs_inv adj s" and "cur \<in> in_stack s" and "(cur, t) \<in> adj_rel adj"
    and "(t, cur) \<in> (adj_rel adj)\<^sup>*"
  shows "dfs_inv adj (s\<lparr>back_edges := insert (cur, t) (back_edges s)\<rparr>)"
proof -
  have "acyclic {(u, v) \<in> adj_rel adj - insert (cur, t) (back_edges s). u \<in> finished s}"
    by (rule acyclic_subset [of "{(u, v) \<in> adj_rel adj - back_edges s. u \<in> finished s}"])
      (use inv in \<open>auto simp: dfs_inv_def\<close>)
  moreover have "finished (s\<lparr>back_edges := insert (cur, t) (back_edges s)\<rparr>) = finished s"
    by (simp add: finished_def)
  moreover have "\<forall>u \<in> finished s. \<forall>v. (u, v) \<in> adj_rel adj - insert (cur, t) (back_edges s) \<longrightarrow> v \<in> finished s"
    using inv unfolding dfs_inv_def by blast
  moreover have "\<forall>(u, v) \<in> insert (cur, t) (back_edges s). (u, v) \<in> adj_rel adj \<and> (v, u) \<in> (adj_rel adj)\<^sup>*"
    using assms by (simp add: dfs_inv_def)
  moreover have "in_stack s \<subseteq> visited s" using inv by (simp add: dfs_inv_def)
  ultimately show ?thesis unfolding dfs_inv_def by simp
qed

lemma dfs_correct:
  "dfs_back_edges k adj cur s = Some s' \<Longrightarrow> dfs_inv adj s \<Longrightarrow> cur \<notin> visited s \<Longrightarrow>
     \<forall>x \<in> in_stack s. (x, cur) \<in> (adj_rel adj)\<^sup>* \<Longrightarrow>
     dfs_inv adj s' \<and> dfs_grows s s' \<and> cur \<in> finished s'"
  "dfs_targets k adj cur ts s = Some s' \<Longrightarrow> dfs_inv adj s \<Longrightarrow> cur \<in> in_stack s \<Longrightarrow>
     \<forall>t \<in> set ts. (cur, t) \<in> adj_rel adj \<Longrightarrow> \<forall>x \<in> in_stack s. (x, cur) \<in> (adj_rel adj)\<^sup>* \<Longrightarrow>
     dfs_inv adj s' \<and> dfs_grows s s' \<and> (\<forall>t \<in> set ts. t \<in> finished s' \<or> (cur, t) \<in> back_edges s')"
proof (induction k adj cur s and k adj cur ts s arbitrary: s' and s'
    rule: dfs_back_edges_dfs_targets.induct)
  case (1 adj cur s)
  then show ?case by simp
next
  case (2 k adj cur s)
  let ?s1 = "s\<lparr>visited := insert cur (visited s), in_stack := insert cur (in_stack s)\<rparr>"
  let ?ts = "case adj cur of None \<Rightarrow> [] | Some ts \<Rightarrow> ts"
  from "2.prems"(1) obtain s2 where s2: "dfs_targets k adj cur ?ts ?s1 = Some s2"
    and s': "s' = s2\<lparr>in_stack := in_stack s2 - {cur}\<rparr>"
    by (auto simp: Let_def simp del: dfs_targets.simps split: option.splits)
  have cur: "cur \<notin> in_stack s" using "2.prems"(2,3) by (auto simp: dfs_inv_def)
  have fin: "finished ?s1 = finished s" using "2.prems"(3) cur by (auto simp: finished_def)
  have inv1: "dfs_inv adj ?s1" using "2.prems"(2) unfolding dfs_inv_def fin by auto
  have targets: "(cur, t) \<in> adj_rel adj \<longleftrightarrow> t \<in> set ?ts" for t
    by (cases "adj cur") (simp_all add: adj_rel_def)
  have ih: "dfs_inv adj s2" "dfs_grows ?s1 s2" "\<forall>t \<in> set ?ts. t \<in> finished s2 \<or> (cur, t) \<in> back_edges s2"
    using "2.IH" [OF refl s2 inv1] "2.prems"(4) targets by auto
  have in2: "in_stack s2 = insert cur (in_stack s)" and vis: "insert cur (visited s) \<subseteq> visited s2"
    using ih(2) by (auto simp: dfs_grows_def)
  have "dfs_inv adj s'" unfolding s'
    by (rule dfs_finish [OF ih(1)]) (use ih(3) targets in2 in auto)
  moreover have "dfs_grows s s'" using ih(2) cur by (auto simp: s' dfs_grows_def)
  moreover have "cur \<in> finished s'" using vis by (auto simp: s' finished_def)
  ultimately show ?case by blast
next
  case (3 k adj cur s)
  then show ?case by simp
next
  case (4 k adj cur t ts s)
  consider (new) "t \<notin> visited s" | (stacked) "t \<in> visited s" "t \<in> in_stack s"
    | (left) "t \<in> visited s" "t \<notin> in_stack s" by blast
  then show ?case
  proof cases
    case new
    with "4.prems"(1) obtain s1 where s1: "dfs_back_edges k adj t s = Some s1"
      and rest: "dfs_targets k adj cur ts s1 = Some s'" by (auto split: option.splits)
    have reach: "\<forall>x \<in> in_stack s. (x, t) \<in> (adj_rel adj)\<^sup>*"
      using "4.prems"(4,5) by (auto intro: rtrancl_into_rtrancl)
    have a: "dfs_inv adj s1" "dfs_grows s s1" "t \<in> finished s1"
      using "4.IH"(1) [OF new s1 "4.prems"(2) new reach] by auto
    have in1: "in_stack s1 = in_stack s" using a(2) by (simp add: dfs_grows_def)
    have b: "dfs_inv adj s'" "dfs_grows s1 s'" "\<forall>t \<in> set ts. t \<in> finished s' \<or> (cur, t) \<in> back_edges s'"
      using "4.IH"(2) [OF new s1 rest a(1)] "4.prems"(3-5) in1 by auto
    from a b finished_grows [OF b(2)] show ?thesis by (auto intro: dfs_grows_trans)
  next
    case stacked
    let ?s1 = "s\<lparr>back_edges := insert (cur, t) (back_edges s)\<rparr>"
    have rest: "dfs_targets k adj cur ts ?s1 = Some s'" using "4.prems"(1) stacked by simp
    have "dfs_inv adj ?s1"
      by (rule dfs_back_edge) (use "4.prems" stacked in auto)
    with "4.IH"(3) rest stacked "4.prems"(3-5)
    have b: "dfs_inv adj s'" "dfs_grows ?s1 s'" "\<forall>t \<in> set ts. t \<in> finished s' \<or> (cur, t) \<in> back_edges s'"
      by auto
    then show ?thesis by (auto simp: dfs_grows_def)
  next
    case left
    then have rest: "dfs_targets k adj cur ts s = Some s'" using "4.prems"(1) by simp
    with "4.IH"(4) left "4.prems"(2-5)
    have b: "dfs_inv adj s'" "dfs_grows s s'" "\<forall>t \<in> set ts. t \<in> finished s' \<or> (cur, t) \<in> back_edges s'"
      by auto
    moreover have "t \<in> finished s" using left by (simp add: finished_def)
    ultimately show ?thesis using finished_grows [OF b(2)] by auto
  qed
qed

text \<open>Enough fuel: the depth of the recursion is bounded by the unvisited nodes.\<close>

lemma dfs_visited_mono:
  "dfs_back_edges k adj cur s = Some s' \<Longrightarrow> insert cur (visited s) \<subseteq> visited s'"
  "dfs_targets k adj cur ts s = Some s' \<Longrightarrow> visited s \<subseteq> visited s'"
proof (induction k adj cur s and k adj cur ts s arbitrary: s' and s' rule: dfs_back_edges_dfs_targets.induct)
  case (2 k adj cur s)
  let ?s1 = "s\<lparr>visited := insert cur (visited s), in_stack := insert cur (in_stack s)\<rparr>"
  from "2.prems" obtain s2 where "dfs_targets k adj cur (case adj cur of None \<Rightarrow> [] | Some ts \<Rightarrow> ts) ?s1 = Some s2"
    and s': "s' = s2\<lparr>in_stack := in_stack s2 - {cur}\<rparr>" by (auto simp: Let_def split: option.splits)
  from "2.IH" [OF refl this(1)] s' show ?case by simp
next
  case (4 k adj cur t ts s)
  then show ?case by (auto split: if_splits option.splits)
qed auto

lemma dfs_returns:
  assumes fin: "finite U" and closed: "\<And>u ts. adj u = Some ts \<Longrightarrow> set ts \<subseteq> U"
  shows "cur \<in> U \<Longrightarrow> cur \<notin> visited s \<Longrightarrow> card (U - visited s) < k \<Longrightarrow> dfs_back_edges k adj cur s \<noteq> None"
    and "set ts \<subseteq> U \<Longrightarrow> card (U - visited s) < k \<Longrightarrow> dfs_targets k adj cur ts s \<noteq> None"
  using closed
proof (induction k adj cur s and k adj cur ts s rule: dfs_back_edges_dfs_targets.induct)
  case (2 k adj cur s)
  let ?s1 = "s\<lparr>visited := insert cur (visited s), in_stack := insert cur (in_stack s)\<rparr>"
  have "U - visited s = insert cur (U - visited ?s1)" "cur \<notin> U - visited ?s1"
    using "2.prems"(1,2) by auto
  with fin have "card (U - visited s) = Suc (card (U - visited ?s1))" by (metis card_insert_disjoint finite_Diff)
  with "2.prems"(3) have "card (U - visited ?s1) < k" by simp
  moreover have "set (case adj cur of None \<Rightarrow> [] | Some ts \<Rightarrow> ts) \<subseteq> U"
    using "2.prems"(4) [of cur] by (cases "adj cur") auto
  ultimately show ?case using "2.IH" [OF refl] "2.prems"(4) by (auto simp: Let_def split: option.split)
next
  case (4 k adj cur t ts s)
  have less: "card (U - visited s') < k" if "visited s \<subseteq> visited s'" for s'
  proof -
    from fin that have "card (U - visited s') \<le> card (U - visited s)" by (intro card_mono) auto
    with "4.prems"(2) show ?thesis by simp
  qed
  show ?case
  proof (cases "t \<in> visited s")
    case False
    with "4.IH"(1) "4.prems" obtain s1 where s1: "dfs_back_edges k adj t s = Some s1" by auto
    from dfs_visited_mono(1) [OF s1] have "card (U - visited s1) < k" by (intro less) auto
    with "4.IH"(2) [OF False s1] "4.prems" False s1 show ?thesis by auto
  next
    case True
    with "4.IH"(3,4) "4.prems" show ?thesis by (cases "t \<in> in_stack s") auto
  qed
qed auto

lemma dfs_roots_correct:
  assumes "dfs_roots k adj is s = Some s'" and "dfs_inv adj s" and "in_stack s = {}"
  shows "dfs_inv adj s' \<and> in_stack s' = {} \<and> set is \<subseteq> visited s' \<and> visited s \<subseteq> visited s'"
  using assms
proof (induction "is" arbitrary: s)
  case (Cons i "is")
  show ?case
  proof (cases "i \<in> visited s")
    case True
    with Cons show ?thesis by auto
  next
    case False
    with Cons.prems(1) obtain s1 where s1: "dfs_back_edges k adj i s = Some s1" and r: "dfs_roots k adj is s1 = Some s'"
      by (auto split: option.splits)
    from dfs_correct(1) [OF s1 Cons.prems(2) False] Cons.prems(3)
    have a: "dfs_inv adj s1" "dfs_grows s s1" "i \<in> finished s1" by auto
    have in1: "in_stack s1 = {}" using a(2) Cons.prems(3) by (simp add: dfs_grows_def)
    have "visited s \<subseteq> visited s1" "i \<in> visited s1" using a by (auto simp: dfs_grows_def finished_def)
    with Cons.IH [OF r a(1) in1] show ?thesis by auto
  qed
qed simp

lemma dfs_roots_returns:
  assumes "finite U" and "\<And>u ts. adj u = Some ts \<Longrightarrow> set ts \<subseteq> U" and "set is \<subseteq> U"
    and "card (U - visited s) < k"
  shows "dfs_roots k adj is s \<noteq> None"
  using assms(3,4)
proof (induction "is" arbitrary: s)
  case (Cons i "is")
  show ?case
  proof (cases "i \<in> visited s")
    case False
    have "dfs_back_edges k adj i s \<noteq> None"
      by (rule dfs_returns(1) [OF assms(1)]) (use assms(2) Cons.prems False in auto)
    then obtain s1 where s1: "dfs_back_edges k adj i s = Some s1" by blast
    have "card (U - visited s1) \<le> card (U - visited s)"
      using dfs_visited_mono(1) [OF s1] assms(1) by (intro card_mono) auto
    with Cons False s1 show ?thesis by simp
  qed (use Cons in simp)
qed simp

section \<open>Folds over the nodes\<close>

lemma foldl_put:
  assumes "distinct (map f ns)"
  shows "foldl (\<lambda>m n. m(f n \<mapsto> g n)) m0 ns i =
    (case List.find (\<lambda>n. f n = i) ns of None \<Rightarrow> m0 i | Some n \<Rightarrow> Some (g n))"
  using assms
proof (induction ns arbitrary: m0)
  case (Cons n ns)
  have "List.find (\<lambda>x. f x = i) ns = None" if "i = f n"
    using that Cons.prems by (simp add: find_None_iff) (metis image_eqI)
  with Cons show ?case by (auto split: option.split)
qed simp

lemma find_key_iff:
  assumes "distinct (map f ns)"
  shows "List.find (\<lambda>n. f n = i) ns = Some n \<longleftrightarrow> n \<in> set ns \<and> f n = i"
  using assms by (induction ns) auto

definition routes :: "flow_node list \<Rightarrow> (string \<times> string) set" where
  "routes ns = {(fnode_id n, t) | n t. n \<in> set ns \<and> t \<in> set (node_targets n)}"

lemma adj_rel_outgoing:
  assumes "distinct (map fnode_id ns)"
  shows "adj_rel (outgoing ns) = routes ns"
proof -
  have "outgoing ns i = map_option node_targets (List.find (\<lambda>n. fnode_id n = i) ns)" for i
    by (simp add: outgoing_def foldl_put [OF assms] split: option.split)
  then have "outgoing ns i = Some ts \<longleftrightarrow> (\<exists>n \<in> set ns. fnode_id n = i \<and> ts = node_targets n)" for i ts
    by (auto simp: find_key_iff [OF assms])
  then show ?thesis by (auto simp: adj_rel_def routes_def)
qed

lemma outgoing_targets: "outgoing ns u = Some ts \<Longrightarrow> set ts \<subseteq> set (concat (map node_targets ns))"
proof -
  have "foldl (\<lambda>m n. m(fnode_id n \<mapsto> node_targets n)) m ns u = Some ts \<Longrightarrow>
      m u = Some ts \<or> set ts \<subseteq> set (concat (map node_targets ns))" for m
    by (induction ns arbitrary: m) (fastforce split: if_splits)+
  then show "outgoing ns u = Some ts \<Longrightarrow> set ts \<subseteq> set (concat (map node_targets ns))"
    by (fastforce simp: outgoing_def)
qed

lemma detect_back_edges_spec:
  assumes "distinct (map fnode_id ns)"
  shows "\<exists>back. detect_back_edges ns = Some back \<and> acyclic (routes ns - back) \<and>
    (\<forall>(u, v) \<in> back. (u, v) \<in> routes ns \<and> (v, u) \<in> (routes ns)\<^sup>*)"
proof -
  let ?adj = "outgoing ns" and ?s = "\<lparr>visited = {}, in_stack = {}, back_edges = {}\<rparr> :: dfs_state"
  let ?U = "set (map fnode_id ns) \<union> set (concat (map node_targets ns))"
  have "card ?U \<le> length (map fnode_id ns) + length (concat (map node_targets ns))"
    by (meson add_mono card_Un_le card_length le_trans)
  then have "dfs_roots (dfs_fuel ns) ?adj (map fnode_id ns) ?s \<noteq> None"
    by (intro dfs_roots_returns [where U = ?U]) (auto simp: dfs_fuel_def dest!: outgoing_targets)
  then obtain s' where s': "dfs_roots (dfs_fuel ns) ?adj (map fnode_id ns) ?s = Some s'" by blast
  have "dfs_inv ?adj ?s" by (simp add: dfs_inv_def finished_def acyclic_def)
  from dfs_roots_correct [OF s' this] have inv: "dfs_inv ?adj s'" and st: "in_stack s' = {}"
    and all: "set (map fnode_id ns) \<subseteq> visited s'" by auto
  note R = adj_rel_outgoing [OF assms]
  have e: "routes ns - back_edges s' = {(u, v) \<in> adj_rel ?adj - back_edges s'. u \<in> finished s'}"
    using all st by (auto simp: R finished_def routes_def)
  show ?thesis
  proof (intro exI conjI)
    show "detect_back_edges ns = Some (back_edges s')" by (simp add: detect_back_edges_def s')
    show "acyclic (routes ns - back_edges s')" unfolding e by (rule dfs_invD(3) [OF inv])
    show "\<forall>(u, v) \<in> back_edges s'. (u, v) \<in> routes ns \<and> (v, u) \<in> (routes ns)\<^sup>*"
      by (rule dfs_invD(4) [OF inv, unfolded R])
  qed
qed

section \<open>The derived topology\<close>

definition incoming_list :: "flow_node list \<Rightarrow> string \<Rightarrow> port_ref list" where
  "incoming_list ns t = concat (map (\<lambda>n. map (\<lambda>out. (fnode_id n, out_port out))
     (filter (\<lambda>out. routes_to out = Some t) (fnode_outputs n))) ns)"

definition or_nil :: "'a list option \<Rightarrow> 'a list" where
  "or_nil x = (case x of None \<Rightarrow> [] | Some l \<Rightarrow> l)"

lemma or_nil_simps [simp]: "or_nil None = []" "or_nil (Some l) = l"
  by (simp_all add: or_nil_def)

lemma incoming_outputs:
  "or_nil (foldl (push_incoming i) m outs t) =
   or_nil (m t) @ map (\<lambda>out. (i, out_port out)) (filter (\<lambda>out. routes_to out = Some t) outs)"
  by (induction outs arbitrary: m) (auto simp: push_incoming_def upd_default_apply or_nil_def split: option.split)

lemma incoming_eq: "or_nil (incoming ns t) = incoming_list ns t"
proof -
  have "or_nil (foldl (\<lambda>m n. foldl (push_incoming (fnode_id n)) m (fnode_outputs n)) m ns t) =
      or_nil (m t) @ incoming_list ns t" for m
    by (induction ns arbitrary: m) (simp_all add: incoming_list_def incoming_outputs)
  then show ?thesis by (simp add: incoming_def)
qed

lemma incoming_list_routes: "(src, p) \<in> set (incoming_list ns t) \<Longrightarrow> (src, t) \<in> routes ns"
  by (force simp: incoming_list_def routes_def node_targets_def List.map_filter_def)

lemma classify_lookup:
  "map_of (fst (classify back ns)) i = (if i \<in> fnode_id ` set ns
     then Some (filter (\<lambda>(src, _). (src, i) \<notin> back) (incoming_list ns i)) else None)"
  "map_of (snd (classify back ns)) i = (if i \<in> fnode_id ` set ns
     then Some (filter (\<lambda>(src, _). (src, i) \<in> back) (incoming_list ns i)) else None)"
proof -
  have "map_of (fst (foldl (classify_node inc back) rc xs)) i = (if i \<in> fnode_id ` set xs
      then Some (filter (\<lambda>(src, _). (src, i) \<notin> back) (or_nil (inc i))) else map_of (fst rc) i) \<and>
    map_of (snd (foldl (classify_node inc back) rc xs)) i = (if i \<in> fnode_id ` set xs
      then Some (filter (\<lambda>(src, _). (src, i) \<in> back) (or_nil (inc i))) else map_of (snd rc) i)" for inc rc xs
    by (induction xs arbitrary: rc) (auto simp: classify_node_def Let_def store_simps or_nil_def)
  then show "map_of (fst (classify back ns)) i = (if i \<in> fnode_id ` set ns
     then Some (filter (\<lambda>(src, _). (src, i) \<notin> back) (incoming_list ns i)) else None)"
    "map_of (snd (classify back ns)) i = (if i \<in> fnode_id ` set ns
     then Some (filter (\<lambda>(src, _). (src, i) \<in> back) (incoming_list ns i)) else None)"
    by (simp_all add: classify_def incoming_eq)
qed

text \<open>The inputs of a node before the chat input is injected.\<close>

definition base_inputs :: "(string \<times> string) set \<Rightarrow> flow_node list \<Rightarrow> flow_node \<Rightarrow> port_ref list" where
  "base_inputs back ns n =
     (if fnode_reads n = [] then filter (\<lambda>(src, _). (src, fnode_id n) \<notin> back) (incoming_list ns (fnode_id n))
      else List.map_filter (key_to_producer ns) (fnode_reads n))"

definition loop_inputs :: "(string \<times> string) set \<Rightarrow> flow_node list \<Rightarrow> flow_node \<Rightarrow> port_ref list" where
  "loop_inputs back ns n =
     (if fnode_reads n = [] then filter (\<lambda>(src, _). (src, fnode_id n) \<in> back) (incoming_list ns (fnode_id n))
      else [])"

lemma override_frame:
  assumes "i \<notin> fnode_id ` set xs"
  shows "map_of (fst (foldl (override_node prods) rc xs)) i = map_of (fst rc) i \<and>
    map_of (snd (foldl (override_node prods) rc xs)) i = map_of (snd rc) i"
  using assms by (induction xs arbitrary: rc) (auto simp: override_node_def store_simps)

lemma override_lookup:
  assumes "distinct (map fnode_id xs)" and "n \<in> set xs"
  shows "map_of (fst (foldl (override_node prods) rc xs)) (fnode_id n) =
      (if fnode_reads n = [] then map_of (fst rc) (fnode_id n) else Some (List.map_filter prods (fnode_reads n))) \<and>
    map_of (snd (foldl (override_node prods) rc xs)) (fnode_id n) =
      (if fnode_reads n = [] then map_of (snd rc) (fnode_id n) else Some [])"
  using assms
proof (induction xs arbitrary: rc)
  case (Cons m xs)
  show ?case
  proof (cases "m = n")
    case True
    with Cons.prems have "fnode_id n \<notin> fnode_id ` set xs" by auto
    from override_frame [OF this] True show ?thesis by (simp add: override_node_def [of prods rc n] store_simps)
  next
    case False
    with Cons.prems have "n \<in> set xs" "fnode_id m \<noteq> fnode_id n" by (auto simp: rev_image_eqI)
    with Cons.IH [of "override_node prods rc m"] Cons.prems show ?thesis
      by (simp add: override_node_def [of prods rc m] store_simps)
  qed
qed simp

lemma inject_chat_lookup:
  assumes "distinct es"
  shows "map_of (inject_chat es req) i =
    (if i \<in> set es then Some (or_nil (map_of req i) @ [chat_input]) else map_of req i)"
  using assms
proof (induction es arbitrary: req)
  case (Cons e es)
  then show ?case by (auto simp: inject_chat_def store_simps or_nil_def)
qed (simp add: inject_chat_def)

lemma derive_graph_spec:
  assumes "distinct (map fnode_id ns)"
  shows "entry_nodes (derive_graph back ns) = map fnode_id (filter (\<lambda>n. base_inputs back ns n = []) ns)"
    and "n \<in> set ns \<Longrightarrow> map_of (required_inputs (derive_graph back ns)) (fnode_id n) =
      Some (if base_inputs back ns n = [] then [chat_input] else base_inputs back ns n)"
    and "n \<in> set ns \<Longrightarrow> map_of (cycle_inputs (derive_graph back ns)) (fnode_id n) = Some (loop_inputs back ns n)"
proof -
  define req where "req = fst (override_reads ns (classify back ns))"
  define cyc where "cyc = snd (override_reads ns (classify back ns))"
  have lookup: "map_of req (fnode_id n) = Some (base_inputs back ns n)"
    "map_of cyc (fnode_id n) = Some (loop_inputs back ns n)" if "n \<in> set ns" for n
    using override_lookup [OF assms that, of "key_to_producer ns" "classify back ns"] that
    by (simp_all add: req_def cyc_def override_reads_def base_inputs_def loop_inputs_def classify_lookup)
  have g: "derive_graph back ns = \<lparr>entry_nodes = entry_ids req ns,
      required_inputs = inject_chat (entry_ids req ns) req, cycle_inputs = cyc\<rparr>"
    by (simp add: derive_graph_def req_def cyc_def split_def Let_def)
  have entries: "entry_ids req ns = map fnode_id (filter (\<lambda>n. base_inputs back ns n = []) ns)"
    unfolding entry_ids_def by (rule arg_cong [where f = "map fnode_id"]) (simp add: lookup cong: filter_cong)
  then show "entry_nodes (derive_graph back ns) = map fnode_id (filter (\<lambda>n. base_inputs back ns n = []) ns)"
    by (simp add: g)
  have "distinct (entry_ids req ns)" unfolding entries using assms by (simp add: distinct_map_filter)
  moreover have "fnode_id n \<in> set (entry_ids req ns) \<longleftrightarrow> base_inputs back ns n = []" if "n \<in> set ns"
    unfolding entries using that assms by (auto simp: distinct_map dest: inj_onD)
  ultimately show "n \<in> set ns \<Longrightarrow> map_of (required_inputs (derive_graph back ns)) (fnode_id n) =
      Some (if base_inputs back ns n = [] then [chat_input] else base_inputs back ns n)"
    by (simp add: g inject_chat_lookup lookup)
  show "n \<in> set ns \<Longrightarrow> map_of (cycle_inputs (derive_graph back ns)) (fnode_id n) = Some (loop_inputs back ns n)"
    by (simp add: g lookup)
qed

section \<open>Validation\<close>

lemma first_duplicate_None: "first_duplicate seen is = None \<longleftrightarrow> distinct is \<and> set is \<inter> seen = {}"
  by (induction seen "is" rule: first_duplicate.induct) auto

lemma or_else_None [simp]: "or_else x y = None \<longleftrightarrow> x = None \<and> y = None"
  by (cases x) auto

definition output_ok :: "string set \<Rightarrow> string set \<Rightarrow> flow_node_output \<Rightarrow> bool" where
  "output_ok ids agts out \<longleftrightarrow> (\<forall>t. routes_to out = Some t \<longrightarrow> t \<in> ids) \<and>
     (\<forall>r \<in> set (out_reviewers out). r = ''human'' \<or> r \<in> agts) \<and>
     (max_cycles out \<noteq> None \<longrightarrow> on_cycle_exhausted out \<in> {None, Some ''escalate_to_human'', Some ''halt''})"

text \<open>The flows \<^verbatim>\<open>FlowGraph::build\<close> accepts.\<close>

definition valid_nodes :: "string set \<Rightarrow> flow_node list \<Rightarrow> bool" where
  "valid_nodes agts ns \<longleftrightarrow> distinct (map fnode_id ns) \<and>
     (\<forall>n \<in> set ns. \<forall>out \<in> set (fnode_outputs n). output_ok (fnode_id ` set ns) agts out) \<and>
     (\<forall>n \<in> set ns. \<forall>k \<in> set (fnode_reads n). \<exists>m \<in> set ns. \<exists>out \<in> set (fnode_outputs m). blackboard_key out = Some k)"

lemma check_reviewers_None: "check_reviewers path agts nid port rs = None \<longleftrightarrow> (\<forall>r \<in> set rs. r = ''human'' \<or> r \<in> agts)"
  by (induction rs) auto

lemma check_outputs_None:
  "check_outputs path ids agts nid outs = None \<longleftrightarrow> (\<forall>out \<in> set outs. output_ok ids agts out)"
  by (induction outs)
    (auto simp: output_ok_def check_route_def check_reviewers_None check_cycle_action_def split: option.splits)

lemma check_nodes_None:
  "check_nodes path ids agts ns = None \<longleftrightarrow> (\<forall>n \<in> set ns. \<forall>out \<in> set (fnode_outputs n). output_ok ids agts out)"
  by (induction ns) (auto simp: check_outputs_None)

lemma check_keys_None: "check_keys prods nid ks = None \<longleftrightarrow> (\<forall>k \<in> set ks. prods k \<noteq> None)"
  by (induction ks) auto

lemma check_reads_None: "check_reads prods ns = None \<longleftrightarrow> (\<forall>n \<in> set ns. \<forall>k \<in> set (fnode_reads n). prods k \<noteq> None)"
  by (induction ns) (auto simp: check_keys_None)

text \<open>The declared producers in order; the map of the code is the last one of each key.\<close>

definition producers :: "flow_node list \<Rightarrow> (string \<times> port_ref) list" where
  "producers ns = concat (map (\<lambda>n. List.map_filter
     (\<lambda>out. map_option (\<lambda>k. (k, (fnode_id n, out_port out))) (blackboard_key out)) (fnode_outputs n)) ns)"

lemma produce_key_outputs: "foldl (produce_key i) m outs = m ++ map_of (rev (List.map_filter
    (\<lambda>out. map_option (\<lambda>k. (k, (i, out_port out))) (blackboard_key out)) outs))"
  by (induction outs arbitrary: m) (auto simp: produce_key_def List.map_filter_simps map_add_def split: option.split)

lemma key_to_producer_eq: "key_to_producer ns = map_of (rev (producers ns))"
proof -
  have "foldl (\<lambda>m n. foldl (produce_key (fnode_id n)) m (fnode_outputs n)) m ns = m ++ map_of (rev (producers ns))" for m
    by (induction ns arbitrary: m) (simp_all add: producers_def produce_key_outputs map_add_assoc)
  then show ?thesis by (simp add: key_to_producer_def)
qed

lemma set_map_filter: "set (List.map_filter f xs) = {y. \<exists>x \<in> set xs. f x = Some y}"
  by (induction xs) (auto simp: List.map_filter_simps split: option.splits)

lemma in_producers: "(k, v) \<in> set (producers ns) \<longleftrightarrow>
    (\<exists>n \<in> set ns. \<exists>out \<in> set (fnode_outputs n). blackboard_key out = Some k \<and> v = (fnode_id n, out_port out))"
  by (auto simp: producers_def set_map_filter)

lemma key_to_producer_Some:
  "key_to_producer ns k = Some v \<Longrightarrow>
     \<exists>n \<in> set ns. \<exists>out \<in> set (fnode_outputs n). blackboard_key out = Some k \<and> v = (fnode_id n, out_port out)"
  by (auto simp: key_to_producer_eq in_producers dest!: map_of_SomeD)

lemma key_to_producer_None:
  "key_to_producer ns k \<noteq> None \<longleftrightarrow> (\<exists>n \<in> set ns. \<exists>out \<in> set (fnode_outputs n). blackboard_key out = Some k)"
proof -
  have "key_to_producer ns k \<noteq> None \<longleftrightarrow> (\<exists>v. (k, v) \<in> set (producers ns))"
    by (force simp: key_to_producer_eq map_of_eq_None_iff)
  then show ?thesis by (auto simp: in_producers)
qed

text \<open>Building succeeds exactly on valid flows, always returns, and derives the graph from sound back edges.\<close>

lemma build_returns: "build ns agts path \<noteq> None"
  using detect_back_edges_spec [of ns]
  by (auto simp: build_def first_duplicate_None split: option.splits)

lemma build_iff_valid:
  "(\<exists>g. build ns agts path = Some (Inr g :: 'io flow_load_error + flow_graph)) \<longleftrightarrow> valid_nodes agts ns"
proof -
  have "(\<exists>g. build ns agts path = Some (Inr g :: 'io flow_load_error + flow_graph)) \<longleftrightarrow>
      first_duplicate {} (map fnode_id ns) = None \<and>
      check_nodes path (set (map fnode_id ns)) agts ns = (None :: 'io flow_load_error option) \<and>
      check_reads (key_to_producer ns) ns = (None :: 'io flow_load_error option) \<and> detect_back_edges ns \<noteq> None"
    by (auto simp: build_def split: option.split)
  moreover have "detect_back_edges ns \<noteq> None" if "first_duplicate {} (map fnode_id ns) = None"
    using detect_back_edges_spec [of ns] that by (auto simp: first_duplicate_None)
  ultimately show ?thesis
    by (auto simp: valid_nodes_def first_duplicate_None check_nodes_None check_reads_None key_to_producer_None
        simp del: not_None_eq)
qed

lemma build_derives:
  assumes "build ns agts path = Some (Inr g)"
  shows "\<exists>back. g = derive_graph back ns \<and> acyclic (routes ns - back) \<and>
    (\<forall>(u, v) \<in> back. (u, v) \<in> routes ns \<and> (v, u) \<in> (routes ns)\<^sup>*)"
proof -
  have "valid_nodes agts ns" using assms build_iff_valid [of ns agts path] by blast
  then have "distinct (map fnode_id ns)" by (simp add: valid_nodes_def)
  from detect_back_edges_spec [OF this] obtain bk where b: "detect_back_edges ns = Some bk"
    "acyclic (routes ns - bk)" "\<forall>(u, v) \<in> bk. (u, v) \<in> routes ns \<and> (v, u) \<in> (routes ns)\<^sup>*" by blast
  with assms have "g = derive_graph bk ns" by (auto simp: build_def split: option.splits)
  with b show ?thesis by blast
qed

section \<open>Queries of a built graph\<close>

definition graph_maps_ok :: "flow_graph \<Rightarrow> bool" where
  "graph_maps_ok g \<longleftrightarrow> distinct (map fst (required_inputs g)) \<and> distinct (map fst (cycle_inputs g))"

lemma distinct_foldl_put:
  assumes "distinct (map fst (fst rc)) \<and> distinct (map fst (snd rc))"
    and "\<And>rc x. distinct (map fst (fst rc)) \<and> distinct (map fst (snd rc)) \<Longrightarrow>
      distinct (map fst (fst (f rc x))) \<and> distinct (map fst (snd (f rc x)))"
  shows "distinct (map fst (fst (foldl f rc xs))) \<and> distinct (map fst (snd (foldl f rc xs)))"
  using assms(1) by (induction xs arbitrary: rc) (simp_all add: assms(2))

lemma graph_maps_ok_derive: "graph_maps_ok (derive_graph back ns)"
proof -
  have "distinct (map fst (fst (classify back ns))) \<and> distinct (map fst (snd (classify back ns)))"
    unfolding classify_def
    by (rule distinct_foldl_put) (simp_all add: classify_node_def Let_def distinct_hm_put)
  then have "distinct (map fst (fst (override_reads ns (classify back ns)))) \<and>
      distinct (map fst (snd (override_reads ns (classify back ns))))"
    unfolding override_reads_def
    by (rule distinct_foldl_put) (simp add: override_node_def distinct_hm_put)
  moreover have "distinct (map fst (inject_chat es req))" if "distinct (map fst req)" for es req
    using that unfolding inject_chat_def by (induction es arbitrary: req) (simp_all add: distinct_hm_put)
  ultimately show ?thesis by (simp add: graph_maps_ok_def derive_graph_def split_def Let_def)
qed

lemma keys_with_input:
  assumes "distinct (map fst m)"
  shows "i \<in> set (map fst (filter (\<lambda>(_, ins). x \<in> set ins) m)) \<longleftrightarrow> x \<in> set (or_nil (map_of m i))"
  using assms
proof (induction m)
  case (Cons e m)
  obtain j ins where e: "e = (j, ins)" by force
  have "map_of m j = None" using Cons.prems by (simp add: e map_of_eq_None_iff)
  with Cons show ?case by (cases "i = j") (auto simp: e rev_image_eqI)
qed simp

lemma nodes_awaiting_iff:
  "graph_maps_ok g \<Longrightarrow> i \<in> set (nodes_awaiting g n p) \<longleftrightarrow> (n, p) \<in> set (required_inputs_for g i)"
  unfolding graph_maps_ok_def nodes_awaiting_def required_inputs_for_def or_nil_def [symmetric]
  by (intro keys_with_input) simp

lemma nodes_retriggered_iff:
  "graph_maps_ok g \<Longrightarrow> i \<in> set (nodes_retriggered_by g n p) \<longleftrightarrow> (n, p) \<in> set (cycle_inputs_for g i)"
  unfolding graph_maps_ok_def nodes_retriggered_by_def cycle_inputs_for_def or_nil_def [symmetric]
  by (intro keys_with_input) simp

text \<open>The sources a node waits for, without the chat input.\<close>

definition waits_for :: "flow_graph \<Rightarrow> (string \<times> string) set" where
  "waits_for g = {(src, i). \<exists>p. (src, p) \<in> set (required_inputs_for g i) \<and> (src, p) \<noteq> chat_input}"

text \<open>
  The nodes that come to run when every running node gets all its outputs approved: those all of
  whose required inputs are the chat input or come from such nodes.
\<close>

inductive can_start :: "flow_graph \<Rightarrow> string \<Rightarrow> bool" for g where
  can_startI: "(\<And>src p. (src, p) \<in> set (required_inputs_for g i) \<Longrightarrow> (src, p) = chat_input \<or> can_start g src) \<Longrightarrow>
    can_start g i"

lemma not_can_start_self: "can_start g i \<Longrightarrow> (i, p) \<in> set (required_inputs_for g i) \<Longrightarrow> (i, p) = chat_input"
proof (induction rule: can_start.induct)
  case (can_startI i)
  then show ?case by blast
qed

lemma can_start_wf:
  assumes "wf (waits_for g)"
  shows "can_start g i"
  using assms
proof (induction i rule: wf_induct_rule)
  case (less i)
  show ?case
  proof (rule can_startI)
    fix src p assume "(src, p) \<in> set (required_inputs_for g i)"
    then have "(src, p) = chat_input \<or> (src, i) \<in> waits_for g" by (auto simp: waits_for_def)
    with less show "(src, p) = chat_input \<or> can_start g src" by blast
  qed
qed

lemma derive_required:
  assumes "distinct (map fnode_id ns)" and "n \<in> set ns"
  shows "required_inputs_for (derive_graph back ns) (fnode_id n) =
      (if base_inputs back ns n = [] then [chat_input] else base_inputs back ns n)"
    and "cycle_inputs_for (derive_graph back ns) (fnode_id n) = loop_inputs back ns n"
  using derive_graph_spec(2,3) [OF assms] by (simp_all add: required_inputs_for_def cycle_inputs_for_def)

lemma derive_undeclared:
  assumes "distinct (map fnode_id ns)" and "i \<notin> fnode_id ` set ns"
  shows "required_inputs_for (derive_graph back ns) i = []"
proof -
  let ?req = "fst (override_reads ns (classify back ns))"
  have "map_of ?req i = None"
    using override_frame [OF assms(2), of "key_to_producer ns" "classify back ns"] assms(2)
    by (simp add: override_reads_def classify_lookup)
  moreover have "i \<notin> set (entry_ids ?req ns)" using assms(2) by (auto simp: entry_ids_def)
  moreover have "distinct (entry_ids ?req ns)" using assms(1) by (simp add: entry_ids_def distinct_map_filter)
  ultimately show ?thesis
    by (simp add: required_inputs_for_def derive_graph_def split_def Let_def inject_chat_lookup)
qed

text \<open>Without blackboard reads every wait is a declared route that is not a back edge.\<close>

lemma waits_for_routes:
  assumes "distinct (map fnode_id ns)" and "\<forall>n \<in> set ns. fnode_reads n = []"
  shows "waits_for (derive_graph back ns) \<subseteq> routes ns - back"
proof
  fix e assume e: "e \<in> waits_for (derive_graph back ns)"
  then obtain src i p where e': "e = (src, i)" and p: "(src, p) \<in> set (required_inputs_for (derive_graph back ns) i)"
    "(src, p) \<noteq> chat_input" by (auto simp: waits_for_def)
  have "i \<in> fnode_id ` set ns"
    by (rule ccontr) (use p derive_undeclared [OF assms(1)] in simp)
  then obtain n where n: "n \<in> set ns" "i = fnode_id n" by blast
  with p derive_required(1) [OF assms(1) n(1)] have "(src, p) \<in> set (base_inputs back ns n)"
    by (auto split: if_splits)
  with n assms(2) have "(src, p) \<in> set (incoming_list ns i)" "(src, i) \<notin> back"
    by (auto simp: base_inputs_def)
  with e' show "e \<in> routes ns - back" by (auto dest: incoming_list_routes)
qed

lemma finite_routes: "finite (routes ns)"
proof -
  have "routes ns = (\<Union>n \<in> set ns. (\<lambda>t. (fnode_id n, t)) ` set (node_targets n))" by (auto simp: routes_def)
  then show ?thesis by simp
qed

lemma all_can_start:
  assumes "distinct (map fnode_id ns)" and "\<forall>n \<in> set ns. fnode_reads n = []" and "acyclic (routes ns - back)"
  shows "wf (waits_for (derive_graph back ns))"
  using waits_for_routes [OF assms(1,2)] assms(3) finite_routes [of ns]
  by (meson acyclic_subset finite_Diff finite_acyclic_wf finite_subset)

end
