(* ===== verification/FlowRun.thy ===== *)
theory FlowRun
  imports FlowDef Orchestrator
begin

text \<open>
  The flow runtime (\<^verbatim>\<open>crates/cronymax/src/flow/runtime.rs\<close>): the state of the flow runs, the
  AND-join gate executed by the orchestrator, document submission, approval, rejection and
  reviewer verdicts, cycle limits, seeding, persistence and rehydration; and the trace events of
  \<^verbatim>\<open>flow/trace.rs\<close>.

  What an operation takes from outside the program (random identifiers, the clock, the outcome of
  a file-system call, the serializers) is the environment \<open>flow_env\<close>; each use takes the answer at
  the current tick and advances it. An operation maps the runtime to its result and the runtime it
  leaves, which on an error keeps the changes made before.
\<close>

section \<open>Data\<close>

datatype flow_run_status = FrPending | FrRunning | FrPaused | FrCompleted | FrCancelled | FrFailed

fun flow_is_terminal :: "flow_run_status \<Rightarrow> bool" where
  "flow_is_terminal FrCompleted = True"
| "flow_is_terminal FrCancelled = True"
| "flow_is_terminal FrFailed = True"
| "flow_is_terminal _ = False"

record flow_run_document_entry =
  fd_name :: string
  fd_doc_type :: string
  fd_producer_node :: string
  fd_current_revision :: u32

datatype port_status = PortPending | InReview | AwaitingOwner | Approved | Seeded

text \<open>\<^verbatim>\<open>unwrap_or_default\<close>: an absent port is pending.\<close>

definition port_or_default :: "port_status option \<Rightarrow> port_status" where
  "port_or_default x = (case x of None \<Rightarrow> PortPending | Some st \<Rightarrow> st)"

record invocation_trigger =
  trig_kind :: string
  approved_port :: "string option"
  from_node :: "string option"
  reviewer_doc_path :: "string option"

record invocation_record =
  invocation_id :: string
  inv_trigger :: invocation_trigger
  inv_started_at :: string

record node_run_state =
  ports :: "(string \<times> port_status) list"
  invocations :: "invocation_record list"
  port_cycles :: "string \<rightharpoonup> u32"

definition default_node_run_state :: node_run_state where
  "default_node_run_state = \<lparr>ports = [], invocations = [], port_cycles = Map.empty\<rparr>"

record review_comment =
  rc_severity :: string
  rc_message :: string
  rc_suggestion :: "string option"

record available_doc =
  ad_path :: string
  ad_doc_type :: string
  ad_revision :: u32

record blackboard_entry =
  be_doc :: available_doc
  be_written_by :: blackboard_writer

record invocation_context =
  ctx_node_id :: string
  ctx_owner :: string
  ctx_trigger :: invocation_trigger
  available_docs :: "available_doc list"
  pending_ports :: "string list"
  ctx_review_comments :: "review_comment list option"
  human_provided_keys :: "string list"

definition ctx_build_with_feedback ::
    "string \<Rightarrow> string \<Rightarrow> invocation_trigger \<Rightarrow> available_doc list \<Rightarrow> string list
      \<Rightarrow> review_comment list option \<Rightarrow> invocation_context" where
  "ctx_build_with_feedback nid own trg docs pend rcs =
     \<lparr>ctx_node_id = nid, ctx_owner = own, ctx_trigger = trg, available_docs = docs,
      pending_ports = pend, ctx_review_comments = rcs, human_provided_keys = []\<rparr>"

definition ctx_build ::
    "string \<Rightarrow> string \<Rightarrow> invocation_trigger \<Rightarrow> available_doc list \<Rightarrow> string list \<Rightarrow> invocation_context" where
  "ctx_build nid own trg docs pend = ctx_build_with_feedback nid own trg docs pend None"

datatype review_verdict = Approve | Reject

record flow_run_state =
  frs_run_id :: string
  frs_flow_id :: string
  frs_status :: flow_run_status
  frs_started_at :: string
  frs_ended_at :: "string option"
  nodes_in_flight :: "string list"
  documents :: "flow_run_document_entry list"
  frs_failure_reason :: "string option"
  initial_input :: string
  node_states :: "string \<rightharpoonup> node_run_state"
  reviewer_verdicts :: "string \<rightharpoonup> (string \<times> review_verdict) list"
  originating_session_id :: "string option"
  blackboard :: "string \<rightharpoonup> blackboard_entry"

definition new_flow_run_state :: "string \<Rightarrow> string \<Rightarrow> string \<Rightarrow> string \<Rightarrow> flow_run_state" where
  "new_flow_run_state now rid fid inp =
     \<lparr>frs_run_id = rid, frs_flow_id = fid, frs_status = FrRunning, frs_started_at = now,
      frs_ended_at = None, nodes_in_flight = [], documents = [], frs_failure_reason = None,
      initial_input = inp, node_states = Map.empty, reviewer_verdicts = Map.empty,
      originating_session_id = None, blackboard = Map.empty\<rparr>"

section \<open>Trace events\<close>

datatype trace_kind =
  RunStarted | RunCompleted | RunCancelled | RunFailed | AgentStarted | AgentScheduled | AgentEnded
| TkToolCall | TkToolResult | DocumentSubmitted | ReviewRequested | TkReviewVerdict | ReviewExhausted
| Routed | Mention | TkError

record trace_event =
  te_kind :: "trace_kind option"
  ts_ms :: int
  te_space_id :: string
  te_run_id :: string
  te_agent_id :: string
  te_tool_name :: string
  te_doc_name :: string
  te_doc_type :: string
  te_invocation_id :: "string option"
  te_pending_ports :: "string list"
  te_payload :: "json option"

text \<open>\<^verbatim>\<open>TraceEvent::now\<close>; the time is an argument.\<close>

definition trace_now :: "int \<Rightarrow> trace_kind \<Rightarrow> trace_event" where
  "trace_now ts k =
     \<lparr>te_kind = Some k, ts_ms = ts, te_space_id = [], te_run_id = [], te_agent_id = [],
      te_tool_name = [], te_doc_name = [], te_doc_type = [], te_invocation_id = None,
      te_pending_ports = [], te_payload = None\<rparr>"

section \<open>The activation pass\<close>

text \<open>
  The state every step receives, and the shared cell \<^verbatim>\<open>to_activate\<close>, which is what the engine
  threads from step to step.
\<close>

record flow_state =
  fs_run_state :: flow_run_state
  fs_graph :: flow_graph

type_synonym activations = "(string \<times> invocation_trigger) list"

definition port_of :: "flow_run_state \<Rightarrow> string \<Rightarrow> string \<Rightarrow> port_status" where
  "port_of r n p = port_or_default (Option.bind (node_states r n) (\<lambda>ns. map_of (ports ns) p))"

definition flow_step :: "string \<Rightarrow> invocation_trigger \<Rightarrow> (flow_state, activations, string) step" where
  "flow_step nid trg = \<lparr>label = nid, execute = (\<lambda>s w.
     if list_all (\<lambda>(src, p). port_of (fs_run_state s) src p = Approved)
          (required_inputs_for (fs_graph s) nid)
     then (Inr (Terminal s Completed), w @ [(nid, trg)])
     else (Inr (Terminal s (Custom ''awaiting-inputs'')), w))\<rparr>"

definition and_join_dispatch :: "node_id list \<Rightarrow> (flow_state, activations, string) step" where
  "and_join_dispatch nxt = \<lparr>label = ''__dispatch__'', execute = (\<lambda>s w.
     if nxt = [] then (Inr (Terminal s Completed), w) else (Inr (Branch s nxt), w))\<rparr>"

section \<open>The runtime\<close>

datatype 'io flow_error =
  RunNotFound string
| RunNotInMap string
| CycleLimitExceeded string string string
| OrchestratorEdge graph_error
| ActivationOrchestrator "string run_error"
| FlowIoError 'io
| FlowSerde string
| ReviewsShape string
| FlowPanic string
| FlowDiverges

type_synonym path = "string list"

record ('io, 'b) flow_env =
  env_uuid :: "nat \<Rightarrow> uuid"
  env_secs :: "nat \<Rightarrow> string"
  env_ms :: "nat \<Rightarrow> int"
  env_mkdir :: "nat \<Rightarrow> 'io option"
  env_write :: "nat \<Rightarrow> ('io \<times> 'b option) option"
  env_rename :: "nat \<Rightarrow> 'io option"
  env_read :: "nat \<Rightarrow> bool"
  env_enc :: "flow_run_state \<Rightarrow> string + 'b"
  env_dec :: "'b \<Rightarrow> string + flow_run_state"
  env_json_enc :: "json \<Rightarrow> string + 'b"
  env_json_dec :: "'b \<Rightarrow> json option"

record 'b flow_runtime =
  runs :: "(string \<times> flow_run_state) list"
  event_emitter :: bool
  emitted :: "(string \<times> json) list"
  trace_writers :: "string \<rightharpoonup> trace_event list"
  chat_sessions :: "string \<rightharpoonup> string"
  files :: "path \<rightharpoonup> 'b"
  ticks :: nat

text \<open>
  \<open>event_emitter\<close> says whether a callback is set, \<open>emitted\<close> lists its calls, \<open>trace_writers\<close> the
  events each writer was handed, \<open>files\<close> the storage directory. The error \<open>FlowDiverges\<close> stands for
  an activation pass that does not return; \<open>activation_returns\<close> shows that there is none.
\<close>

type_synonym ('io, 'b, 'a) flow_op = "'b flow_runtime \<Rightarrow> ('io flow_error + 'a) \<times> 'b flow_runtime"

text \<open>Sequencing with the question mark operator, and \<^verbatim>\<open>let _ =\<close>, which drops an error but not a panic.\<close>

definition fr_return :: "'a \<Rightarrow> ('io, 'b, 'a) flow_op" where
  "fr_return x = (\<lambda>s. (Inr x, s))"

definition fr_bind :: "('io, 'b, 'a) flow_op \<Rightarrow> ('a \<Rightarrow> ('io, 'b, 'c) flow_op) \<Rightarrow> ('io, 'b, 'c) flow_op" where
  "fr_bind m f = (\<lambda>s. case m s of (Inl e, s') \<Rightarrow> (Inl e, s') | (Inr x, s') \<Rightarrow> f x s')"

definition fr_ignore :: "('io, 'b, unit) flow_op \<Rightarrow> ('io, 'b, unit) flow_op" where
  "fr_ignore m = (\<lambda>s. case m s of
     (Inl (FlowPanic msg), s') \<Rightarrow> (Inl (FlowPanic msg), s')
   | (Inl _, s') \<Rightarrow> (Inr (), s')
   | (Inr _, s') \<Rightarrow> (Inr (), s'))"

fun fr_each :: "('a \<Rightarrow> ('io, 'b, unit) flow_op) \<Rightarrow> 'a list \<Rightarrow> ('io, 'b, unit) flow_op" where
  "fr_each f [] = fr_return ()"
| "fr_each f (x # xs) = fr_bind (f x) (\<lambda>_. fr_each f xs)"

text \<open>The loops that collect invocation contexts; \<open>None\<close> contributes nothing.\<close>

fun fr_collect :: "('a \<Rightarrow> ('io, 'b, 'c list) flow_op) \<Rightarrow> 'a list \<Rightarrow> ('io, 'b, 'c list) flow_op" where
  "fr_collect f [] = fr_return []"
| "fr_collect f (x # xs) = fr_bind (f x) (\<lambda>c. fr_bind (fr_collect f xs) (\<lambda>cs. fr_return (c @ cs)))"

definition opt_list :: "'a option \<Rightarrow> 'a list" where
  "opt_list x = (case x of None \<Rightarrow> [] | Some y \<Rightarrow> [y])"

definition fr_tick :: "(nat \<Rightarrow> 'a) \<Rightarrow> ('io, 'b, 'a) flow_op" where
  "fr_tick f = (\<lambda>s. (Inr (f (ticks s)), s\<lparr>ticks := Suc (ticks s)\<rparr>))"

definition new_flow_runtime :: "'b flow_runtime" where
  "new_flow_runtime = \<lparr>runs = [], event_emitter = False, emitted = [], trace_writers = Map.empty,
     chat_sessions = Map.empty, files = Map.empty, ticks = 0\<rparr>"

definition run_state_dir :: "string \<Rightarrow> string \<Rightarrow> path" where
  "run_state_dir fid rid = [''flows'', fid, ''runs'', rid]"

definition run_state_file :: "string \<Rightarrow> string \<Rightarrow> path" where
  "run_state_file fid rid = run_state_dir fid rid @ [''state.json'']"

definition run_reviews_file :: "string \<Rightarrow> string \<Rightarrow> path" where
  "run_reviews_file fid rid = run_state_dir fid rid @ [''reviews.json'']"

definition reviews_tmp_file :: "string \<Rightarrow> string \<Rightarrow> path" where
  "reviews_tmp_file fid rid = run_state_dir fid rid @ [''reviews.tmp'']"

definition set_event_emitter :: "'b flow_runtime \<Rightarrow> 'b flow_runtime" where
  "set_event_emitter s = s\<lparr>event_emitter := True\<rparr>"

definition fr_emit :: "string \<Rightarrow> string \<Rightarrow> 'b flow_runtime \<Rightarrow> 'b flow_runtime" where
  "fr_emit ev rid s =
     (if event_emitter s then s\<lparr>emitted := emitted s @ [(ev, JObject [(''run_id'', JString rid)])]\<rparr> else s)"

definition emit_op :: "string \<Rightarrow> string \<Rightarrow> ('io, 'b, unit) flow_op" where
  "emit_op ev rid s = (Inr (), fr_emit ev rid s)"

definition get_run :: "'b flow_runtime \<Rightarrow> string \<Rightarrow> flow_run_state option" where
  "get_run s rid = map_of (runs s) rid"

text \<open>A write through the lock of a run.\<close>

definition put_run :: "string \<Rightarrow> flow_run_state \<Rightarrow> 'b flow_runtime \<Rightarrow> 'b flow_runtime" where
  "put_run rid r s = s\<lparr>runs := hm_put rid r (runs s)\<rparr>"

definition port_status_of :: "'b flow_runtime \<Rightarrow> string \<Rightarrow> string \<Rightarrow> string \<Rightarrow> port_status" where
  "port_status_of s rid n p = (case get_run s rid of None \<Rightarrow> PortPending | Some r \<Rightarrow> port_of r n p)"

definition list_runs :: "'b flow_runtime \<Rightarrow> flow_run_state list" where
  "list_runs s = sort_key frs_run_id (map snd (runs s))"

definition trace_writer :: "'b flow_runtime \<Rightarrow> string \<Rightarrow> trace_event list option" where
  "trace_writer s rid = trace_writers s rid"

definition trace_append :: "string \<Rightarrow> trace_event \<Rightarrow> 'b flow_runtime \<Rightarrow> 'b flow_runtime" where
  "trace_append rid evt s = (case trace_writers s rid of
     None \<Rightarrow> s | Some es \<Rightarrow> s\<lparr>trace_writers := (trace_writers s)(rid \<mapsto> es @ [evt])\<rparr>)"

definition register_chat_session :: "string \<Rightarrow> string \<Rightarrow> 'b flow_runtime \<Rightarrow> 'b flow_runtime" where
  "register_chat_session rid sid s =
     (let s1 = s\<lparr>chat_sessions := (chat_sessions s)(rid \<mapsto> sid)\<rparr>
      in (case get_run s1 rid of
            None \<Rightarrow> s1
          | Some r \<Rightarrow> put_run rid (r\<lparr>originating_session_id := Some sid\<rparr>) s1))"

definition lookup_chat_session :: "'b flow_runtime \<Rightarrow> string \<Rightarrow> string option" where
  "lookup_chat_session s rid = chat_sessions s rid"

section \<open>Persistence of runs\<close>

definition fr_fail :: "'io flow_error \<Rightarrow> ('io, 'b, 'a) flow_op" where
  "fr_fail e = (\<lambda>s. (Inl e, s))"

text \<open>\<^verbatim>\<open>tokio::fs::write\<close>: an error may leave part of the contents behind.\<close>

definition write_file :: "('io, 'b) flow_env \<Rightarrow> path \<Rightarrow> 'b \<Rightarrow> ('io, 'b, unit) flow_op" where
  "write_file E p bytes = fr_bind (fr_tick (env_write E)) (\<lambda>res s.
     case res of
       None \<Rightarrow> (Inr (), s\<lparr>files := (files s)(p \<mapsto> bytes)\<rparr>)
     | Some (e, None) \<Rightarrow> (Inl (FlowIoError e), s)
     | Some (e, Some part) \<Rightarrow> (Inl (FlowIoError e), s\<lparr>files := (files s)(p \<mapsto> part)\<rparr>))"

definition create_dir_all :: "('io, 'b) flow_env \<Rightarrow> ('io, 'b, unit) flow_op" where
  "create_dir_all E = fr_bind (fr_tick (env_mkdir E)) (\<lambda>res.
     case res of None \<Rightarrow> fr_return () | Some e \<Rightarrow> fr_fail (FlowIoError e))"

definition persist_run :: "('io, 'b) flow_env \<Rightarrow> flow_run_state \<Rightarrow> ('io, 'b, unit) flow_op" where
  "persist_run E r = fr_bind (create_dir_all E) (\<lambda>_.
     case env_enc E r of
       Inl msg \<Rightarrow> fr_fail (FlowSerde msg)
     | Inr bytes \<Rightarrow> write_file E (run_state_file (frs_flow_id r) (frs_run_id r)) bytes)"

text \<open>\<^verbatim>\<open>Uuid::simple\<close>: 32 lower-case hexadecimal digits.\<close>

definition hex_digit :: "nat \<Rightarrow> char" where
  "hex_digit d = char_of (if d < 10 then 48 + d else 87 + d)"

fun hex_digits :: "nat \<Rightarrow> nat \<Rightarrow> string" where
  "hex_digits 0 n = []"
| "hex_digits (Suc k) n = hex_digits k (n div 16) @ [hex_digit (n mod 16)]"

definition uuid_simple :: "uuid \<Rightarrow> string" where
  "uuid_simple u = hex_digits 32 u"

section \<open>Updates of a run\<close>

definition touch_node :: "string \<Rightarrow> flow_run_state \<Rightarrow> flow_run_state" where
  "touch_node n r = r\<lparr>node_states := upd_default n default_node_run_state (\<lambda>ns. ns) (node_states r)\<rparr>"

definition set_port :: "string \<Rightarrow> string \<Rightarrow> port_status \<Rightarrow> flow_run_state \<Rightarrow> flow_run_state" where
  "set_port n p st r = r\<lparr>node_states := upd_default n default_node_run_state
     (\<lambda>ns. ns\<lparr>ports := hm_put p st (ports ns)\<rparr>) (node_states r)\<rparr>"

definition push_invocation :: "string \<Rightarrow> invocation_record \<Rightarrow> flow_run_state \<Rightarrow> flow_run_state" where
  "push_invocation n i r = r\<lparr>node_states := upd_default n default_node_run_state
     (\<lambda>ns. ns\<lparr>invocations := invocations ns @ [i]\<rparr>) (node_states r)\<rparr>"

definition cycles_of :: "flow_run_state \<Rightarrow> string \<Rightarrow> string \<Rightarrow> u32" where
  "cycles_of r n p = (case node_states r n of None \<Rightarrow> 0
     | Some ns \<Rightarrow> (case port_cycles ns p of None \<Rightarrow> 0 | Some c \<Rightarrow> c))"

definition bump_cycles :: "string \<Rightarrow> string \<Rightarrow> flow_run_state \<Rightarrow> flow_run_state" where
  "bump_cycles n p r = r\<lparr>node_states := upd_default n default_node_run_state
     (\<lambda>ns. ns\<lparr>port_cycles := upd_default p 0 (\<lambda>c. c + 1) (port_cycles ns)\<rparr>) (node_states r)\<rparr>"

definition put_blackboard :: "string \<Rightarrow> blackboard_entry \<Rightarrow> flow_run_state \<Rightarrow> flow_run_state" where
  "put_blackboard k e r = r\<lparr>blackboard := (blackboard r)(k \<mapsto> e)\<rparr>"

definition verdicts_of :: "flow_run_state \<Rightarrow> string \<Rightarrow> (string \<times> review_verdict) list" where
  "verdicts_of r k = (case reviewer_verdicts r k of None \<Rightarrow> [] | Some vs \<Rightarrow> vs)"

text \<open>A reviewer who already gave a verdict is ignored.\<close>

definition push_verdict :: "string \<Rightarrow> string \<Rightarrow> review_verdict \<Rightarrow> flow_run_state \<Rightarrow> flow_run_state" where
  "push_verdict k who v r = r\<lparr>reviewer_verdicts := (reviewer_verdicts r)(k \<mapsto>
     (if who \<in> fst ` set (verdicts_of r k) then verdicts_of r k else verdicts_of r k @ [(who, v)]))\<rparr>"

text \<open>The writers that lock the run, update it, release the lock and persist the copy they took.\<close>

definition mark_port_status ::
    "('io, 'b) flow_env \<Rightarrow> string \<Rightarrow> string \<Rightarrow> string \<Rightarrow> port_status \<Rightarrow> ('io, 'b, unit) flow_op" where
  "mark_port_status E rid n p st = (\<lambda>s.
     case get_run s rid of
       None \<Rightarrow> (Inl (RunNotFound rid), s)
     | Some r \<Rightarrow>
         let current = port_of r n p
         in if current = Approved \<and> st \<noteq> Approved then (Inr (), put_run rid (touch_node n r) s)
            else if current = st then (Inr (), put_run rid (touch_node n r) s)
            else persist_run E (set_port n p st r) (put_run rid (set_port n p st r) s))"

definition mark_port_status_unchecked ::
    "('io, 'b) flow_env \<Rightarrow> string \<Rightarrow> string \<Rightarrow> string \<Rightarrow> port_status \<Rightarrow> ('io, 'b, unit) flow_op" where
  "mark_port_status_unchecked E rid n p st = (\<lambda>s.
     case get_run s rid of
       None \<Rightarrow> (Inl (RunNotFound rid), s)
     | Some r \<Rightarrow> persist_run E (set_port n p st r) (put_run rid (set_port n p st r) s))"

definition record_invocation ::
    "('io, 'b) flow_env \<Rightarrow> string \<Rightarrow> string \<Rightarrow> invocation_trigger \<Rightarrow> ('io, 'b, string) flow_op" where
  "record_invocation E rid n trg = fr_bind (fr_tick (env_uuid E)) (\<lambda>u s.
     let iid = ''inv-'' @ uuid_simple u
     in (case get_run s rid of
           None \<Rightarrow> (Inl (RunNotFound rid), s)
         | Some r \<Rightarrow>
             fr_bind (fr_tick (env_secs E)) (\<lambda>now s1.
               let r1 = push_invocation n
                     \<lparr>invocation_id = iid, inv_trigger = trg, inv_started_at = now\<rparr> r
               in fr_bind (persist_run E r1) (\<lambda>_. fr_return iid) (put_run rid r1 s1)) s))"

definition increment_port_cycles ::
    "('io, 'b) flow_env \<Rightarrow> string \<Rightarrow> string \<Rightarrow> string \<Rightarrow> ('io, 'b, u32) flow_op" where
  "increment_port_cycles E rid n p = (\<lambda>s.
     case get_run s rid of
       None \<Rightarrow> (Inl (RunNotFound rid), s)
     | Some r \<Rightarrow>
         let r1 = bump_cycles n p r
         in fr_bind (persist_run E r1) (\<lambda>_. fr_return (cycles_of r1 n p)) (put_run rid r1 s))"

definition write_blackboard_entry ::
    "string \<Rightarrow> string \<Rightarrow> available_doc \<Rightarrow> blackboard_writer \<Rightarrow> 'b flow_runtime \<Rightarrow> 'b flow_runtime" where
  "write_blackboard_entry rid k d wr s =
     (case get_run s rid of
        None \<Rightarrow> s
      | Some r \<Rightarrow> put_run rid (put_blackboard k \<lparr>be_doc = d, be_written_by = wr\<rparr> r) s)"

definition trace_op :: "('io, 'b) flow_env \<Rightarrow> string \<Rightarrow> trace_kind \<Rightarrow> (trace_event \<Rightarrow> trace_event) \<Rightarrow> ('io, 'b, unit) flow_op" where
  "trace_op E rid k f = (\<lambda>s.
     case trace_writers s rid of
       None \<Rightarrow> (Inr (), s)
     | Some es \<Rightarrow> fr_bind (fr_tick (env_ms E))
         (\<lambda>ts s1. (Inr (), trace_append rid (f ((trace_now ts k)\<lparr>te_run_id := rid\<rparr>)) s1)) s)"

fun transition_kind :: "flow_run_status \<Rightarrow> trace_kind" where
  "transition_kind FrCompleted = RunCompleted"
| "transition_kind FrCancelled = RunCancelled"
| "transition_kind FrFailed = RunFailed"
| "transition_kind _ = RunStarted"

text \<open>The write of \<^verbatim>\<open>transition_run\<close>; \<open>now\<close> is only read for a terminal status.\<close>

definition end_run :: "flow_run_status \<Rightarrow> string option \<Rightarrow> string \<Rightarrow> flow_run_state \<Rightarrow> flow_run_state" where
  "end_run st why now r = r\<lparr>frs_status := st,
     frs_ended_at := (if flow_is_terminal st then Some now else frs_ended_at r),
     frs_failure_reason := (case why of None \<Rightarrow> frs_failure_reason r | Some x \<Rightarrow> Some x)\<rparr>"

definition flow_transition_run ::
    "('io, 'b) flow_env \<Rightarrow> string \<Rightarrow> flow_run_status \<Rightarrow> string option \<Rightarrow> ('io, 'b, unit) flow_op" where
  "flow_transition_run E rid st why = (\<lambda>s.
     case get_run s rid of
       None \<Rightarrow> (Inl (RunNotFound rid), s)
     | Some r \<Rightarrow>
         if flow_is_terminal (frs_status r) then (Inr (), s)
         else fr_bind (if flow_is_terminal st then fr_tick (env_secs E) else fr_return []) (\<lambda>now s1.
           let r1 = end_run st why now r
           in fr_bind (persist_run E r1) (\<lambda>_.
                fr_bind (trace_op E rid (transition_kind st) (\<lambda>e. e)) (\<lambda>_.
                  emit_op ''flow.run.changed'' rid)) (put_run rid r1 s1)) s)"

definition flow_cancel_run :: "('io, 'b) flow_env \<Rightarrow> string \<Rightarrow> ('io, 'b, unit) flow_op" where
  "flow_cancel_run E rid = flow_transition_run E rid FrCancelled None"

definition flow_complete_run :: "('io, 'b) flow_env \<Rightarrow> string \<Rightarrow> ('io, 'b, unit) flow_op" where
  "flow_complete_run E rid = flow_transition_run E rid FrCompleted None"

definition flow_fail_run :: "('io, 'b) flow_env \<Rightarrow> string \<Rightarrow> string \<Rightarrow> ('io, 'b, unit) flow_op" where
  "flow_fail_run E rid why = flow_transition_run E rid FrFailed (Some why)"

section \<open>The reviews file\<close>

text \<open>
  \<^verbatim>\<open>Value\<close> indexing with a string: writing turns null into an object and panics (\<open>None\<close>) on any
  other non-object. Objects are ordered maps.
\<close>

fun json_index_put :: "string \<Rightarrow> json \<Rightarrow> json \<Rightarrow> json option" where
  "json_index_put k v (JObject ms) = Some (JObject (bt_put k v ms))"
| "json_index_put k v JNull = Some (JObject [(k, v)])"
| "json_index_put k v _ = None"

definition empty_reviews :: json where
  "empty_reviews = json_object [(''docs'', json_object [])]"

definition draft_entry :: json where
  "draft_entry = json_object [(''current_revision'', JNumber (PosInt 0)), (''status'', JString ''DRAFT''),
     (''round_count'', JNumber (PosInt 0)), (''revisions'', JArray []), (''comments'', JArray [])]"

definition panic_index :: "'io flow_error" where
  "panic_index = FlowPanic ''cannot access key in JSON value''"

definition index_put :: "string \<Rightarrow> json \<Rightarrow> json \<Rightarrow> 'io flow_error + json" where
  "index_put k v j = (case json_index_put k v j of None \<Rightarrow> Inl panic_index | Some j' \<Rightarrow> Inr j')"

definition res_bind :: "'e + 'a \<Rightarrow> ('a \<Rightarrow> 'e + 'c) \<Rightarrow> 'e + 'c" where
  "res_bind x f = (case x of Inl e \<Rightarrow> Inl e | Inr y \<Rightarrow> f y)"

text \<open>Appending to the array at a key of an entry; \<open>what\<close> names it in the error.\<close>

definition push_array :: "string \<Rightarrow> string \<Rightarrow> json list \<Rightarrow> json \<Rightarrow> 'io flow_error + json" where
  "push_array k what xs j =
     (case j of
        JObject ms \<Rightarrow>
          (case map_of ms k of
             Some (JArray ys) \<Rightarrow> Inr (JObject (bt_put k (JArray (ys @ xs)) ms))
           | _ \<Rightarrow> Inl (ReviewsShape (''reviews.json: '' @ what @ '' is not an array'')))
      | JNull \<Rightarrow> Inl (ReviewsShape (''reviews.json: '' @ what @ '' is not an array''))
      | _ \<Rightarrow> Inl panic_index)"

text \<open>Steps shared by both writers: the object \<^verbatim>\<open>docs\<close> and the entry of a port in it.\<close>

definition update_entry :: "string \<Rightarrow> (json \<Rightarrow> 'io flow_error + json) \<Rightarrow> json \<Rightarrow> 'io flow_error + json" where
  "update_entry port f reviews = res_bind
     (if (case json_get reviews ''docs'' of None \<Rightarrow> False | Some v \<Rightarrow> json_is_object v) then Inr reviews
      else index_put ''docs'' (JObject []) reviews) (\<lambda>rv.
     (case json_get rv ''docs'' of
        Some (JObject ds) \<Rightarrow>
          res_bind (f (case map_of ds port of None \<Rightarrow> draft_entry | Some e \<Rightarrow> e))
            (\<lambda>e. index_put ''docs'' (JObject (bt_put port e ds)) rv)
      | _ \<Rightarrow> Inl (ReviewsShape ''reviews.json: docs is not an object'')))"

definition comment_json :: "string \<Rightarrow> string \<Rightarrow> review_comment \<Rightarrow> json" where
  "comment_json who now c = json_object ([(''severity'', JString (rc_severity c)), (''message'', JString (rc_message c))] @
     (case rc_suggestion c of None \<Rightarrow> [] | Some x \<Rightarrow> [(''suggestion'', JString x)]) @
     [(''reviewer'', JString who), (''timestamp'', JString now)])"

definition review_state_entry :: "string \<Rightarrow> string \<Rightarrow> string \<Rightarrow> u32 \<Rightarrow> string \<Rightarrow> json \<Rightarrow> 'io flow_error + json" where
  "review_state_entry now n sha rno st e = res_bind
     (if 0 < rno
      then res_bind (index_put ''current_revision'' (json_u32 rno) e) (\<lambda>e1.
        res_bind (push_array ''revisions'' ''revisions'' [json_object [(''rev'', json_u32 rno),
          (''submitted_at'', JString now), (''submitted_by'', JString n), (''sha'', JString sha)]] e1) (\<lambda>e2.
        if st = ''IN_REVIEW''
        then (case Option.bind (json_get e2 ''round_count'') json_as_u64 of
                None \<Rightarrow> Inr e2
              | Some c \<Rightarrow> index_put ''round_count'' (JNumber (PosInt (c + 1))) e2)
        else Inr e2))
      else Inr e) (\<lambda>e3. index_put ''status'' (JString st) e3)"

text \<open>Reading: an absent, unreadable or malformed file is the empty one.\<close>

definition read_reviews :: "('io, 'b) flow_env \<Rightarrow> path \<Rightarrow> ('io, 'b, json) flow_op" where
  "read_reviews E p = (\<lambda>s.
     case files s p of
       None \<Rightarrow> (Inr empty_reviews, s)
     | Some bytes \<Rightarrow> fr_bind (fr_tick (env_read E)) (\<lambda>ok.
         fr_return (if ok then (case env_json_dec E bytes of None \<Rightarrow> empty_reviews | Some j \<Rightarrow> j)
                    else empty_reviews)) s)"

definition write_reviews :: "('io, 'b) flow_env \<Rightarrow> string \<Rightarrow> string \<Rightarrow> json \<Rightarrow> ('io, 'b, unit) flow_op" where
  "write_reviews E fid rid j =
     (case env_json_enc E j of
        Inl msg \<Rightarrow> fr_fail (FlowSerde msg)
      | Inr bytes \<Rightarrow>
          fr_bind (write_file E (reviews_tmp_file fid rid) bytes) (\<lambda>_.
          fr_bind (fr_tick (env_rename E)) (\<lambda>res s.
            case res of
              Some e \<Rightarrow> (Inl (FlowIoError e), s)
            | None \<Rightarrow> (Inr (), s\<lparr>files := (files s)(run_reviews_file fid rid := files s (reviews_tmp_file fid rid),
                reviews_tmp_file fid rid := None)\<rparr>))))"

definition fr_lift :: "'io flow_error + 'a \<Rightarrow> ('io, 'b, 'a) flow_op" where
  "fr_lift x = (\<lambda>s. (x, s))"

definition write_review_comments ::
    "('io, 'b) flow_env \<Rightarrow> string \<Rightarrow> string \<Rightarrow> string \<Rightarrow> string \<Rightarrow> review_comment list \<Rightarrow> ('io, 'b, unit) flow_op" where
  "write_review_comments E fid rid port who cs =
     fr_bind (create_dir_all E) (\<lambda>_.
     fr_bind (read_reviews E (run_reviews_file fid rid)) (\<lambda>reviews.
     fr_bind (fr_tick (env_secs E)) (\<lambda>now.
     fr_bind (fr_lift (update_entry port (push_array ''comments'' ''comments'' (map (comment_json who now) cs)) reviews)) (\<lambda>j.
     write_reviews E fid rid j))))"

definition upsert_review_state ::
    "('io, 'b) flow_env \<Rightarrow> string \<Rightarrow> string \<Rightarrow> string \<Rightarrow> string \<Rightarrow> string \<Rightarrow> u32 \<Rightarrow> string \<Rightarrow> ('io, 'b, unit) flow_op" where
  "upsert_review_state E fid rid doc n sha rno st =
     fr_bind (create_dir_all E) (\<lambda>_.
     fr_bind (read_reviews E (run_reviews_file fid rid)) (\<lambda>reviews.
     fr_bind (fr_tick (env_secs E)) (\<lambda>now.
     fr_bind (fr_lift (update_entry doc (review_state_entry now n sha rno st) reviews)) (\<lambda>j.
     write_reviews E fid rid j))))"

text \<open>\<^verbatim>\<open>Value::pointer\<close> and the reading of one comment.\<close>

fun split_slash :: "string \<Rightarrow> string list" where
  "split_slash [] = [[]]"
| "split_slash (c # cs) = (if c = CHR ''/'' then [] # split_slash cs
     else (case split_slash cs of [] \<Rightarrow> [[c]] | t # ts \<Rightarrow> (c # t) # ts))"

fun str_replace2 :: "char \<Rightarrow> char \<Rightarrow> char \<Rightarrow> string \<Rightarrow> string" where
  "str_replace2 a b c (x # y # zs) = (if x = a \<and> y = b then c # str_replace2 a b c zs else x # str_replace2 a b c (y # zs))"
| "str_replace2 a b c xs = xs"

definition pointer_token :: "string \<Rightarrow> string" where
  "pointer_token t = str_replace2 (CHR ''~'') (CHR ''0'') (CHR ''~'') (str_replace2 (CHR ''~'') (CHR ''1'') (CHR ''/'') t)"

definition is_digit :: "char \<Rightarrow> bool" where
  "is_digit c = (48 \<le> (of_char c :: nat) \<and> (of_char c :: nat) \<le> 57)"

definition parse_index :: "string \<Rightarrow> nat option" where
  "parse_index t =
     (if t = [] \<or> \<not> list_all is_digit t \<or> (hd t = CHR ''0'' \<and> length t \<noteq> 1) then None
      else (let n = foldl (\<lambda>a c. 10 * a + (of_char c - 48)) 0 t in if n < 2 ^ 64 then Some n else None))"

fun json_pointer :: "string list \<Rightarrow> json \<Rightarrow> json option" where
  "json_pointer [] j = Some j"
| "json_pointer (t # ts) (JObject ms) = Option.bind (map_of ms (pointer_token t)) (json_pointer ts)"
| "json_pointer (t # ts) (JArray xs) = Option.bind (parse_index (pointer_token t))
     (\<lambda>i. if i < length xs then json_pointer ts (xs ! i) else None)"
| "json_pointer (t # ts) _ = None"

text \<open>The derived deserializer of \<^verbatim>\<open>ReviewComment\<close>: from an object, or from the sequence of its fields.\<close>

fun suggestion_of :: "json option \<Rightarrow> string option option" where
  "suggestion_of None = Some None"
| "suggestion_of (Some JNull) = Some None"
| "suggestion_of (Some (JString x)) = Some (Some x)"
| "suggestion_of (Some _) = None"

definition comment_of :: "json option \<Rightarrow> json option \<Rightarrow> json option \<Rightarrow> review_comment option" where
  "comment_of sev msg sug = Option.bind (Option.bind sev json_as_str) (\<lambda>x.
     Option.bind (Option.bind msg json_as_str) (\<lambda>y. Option.bind (suggestion_of sug) (\<lambda>z.
       Some \<lparr>rc_severity = x, rc_message = y, rc_suggestion = z\<rparr>)))"

fun parse_comment :: "json \<Rightarrow> review_comment option" where
  "parse_comment (JObject ms) = comment_of (map_of ms ''severity'') (map_of ms ''message'') (map_of ms ''suggestion'')"
| "parse_comment (JArray [x, y]) = comment_of (Some x) (Some y) None"
| "parse_comment (JArray [x, y, z]) = comment_of (Some x) (Some y) (Some z)"
| "parse_comment _ = None"

definition comments_at :: "string \<Rightarrow> json \<Rightarrow> review_comment list" where
  "comments_at port reviews =
     (case json_pointer (tl (split_slash (''/docs/'' @ port @ ''/comments''))) reviews of
        Some (JArray xs) \<Rightarrow> List.map_filter parse_comment xs
      | _ \<Rightarrow> [])"

definition read_review_comments ::
    "('io, 'b) flow_env \<Rightarrow> string \<Rightarrow> string \<Rightarrow> string \<Rightarrow> ('io, 'b, review_comment list) flow_op" where
  "read_review_comments E fid rid port =
     fr_bind (read_reviews E (run_reviews_file fid rid)) (\<lambda>reviews. fr_return (comments_at port reviews))"

section \<open>Scheduling a node\<close>

definition spec_path :: "string \<Rightarrow> string \<Rightarrow> string" where
  "spec_path rid name = ''.cronymax/specs/'' @ rid @ ''/'' @ name @ ''.md''"

definition doc_of_entry :: "flow_run_state \<Rightarrow> flow_run_document_entry \<Rightarrow> available_doc" where
  "doc_of_entry r d = \<lparr>ad_path = spec_path (frs_run_id r) (fd_name d), ad_doc_type = fd_doc_type d,
     ad_revision = fd_current_revision d\<rparr>"

text \<open>The ports of a node whose status satisfies \<open>P\<close>, collected into a set.\<close>

definition ports_with :: "(port_status \<Rightarrow> bool) \<Rightarrow> flow_run_state \<Rightarrow> string \<Rightarrow> string set" where
  "ports_with P r n = (case node_states r n of
     None \<Rightarrow> {}
   | Some ns \<Rightarrow> set (filter (\<lambda>p. case map_of (ports ns) p of None \<Rightarrow> False | Some st \<Rightarrow> P st) (map fst (ports ns))))"

definition docs_for :: "flow_run_state \<Rightarrow> flow_node \<Rightarrow> available_doc list" where
  "docs_for r nd = (if fnode_reads nd \<noteq> []
     then List.map_filter (\<lambda>k. map_option be_doc (blackboard r k)) (fnode_reads nd)
     else map (doc_of_entry r) (documents r))"

definition human_keys_for :: "flow_run_state \<Rightarrow> flow_node \<Rightarrow> string list" where
  "human_keys_for r nd = filter (\<lambda>k. case blackboard r k of None \<Rightarrow> False
     | Some e \<Rightarrow> be_written_by e = HumanInjected) (fnode_reads nd)"

definition build_invocation_context ::
    "('io, 'b) flow_env \<Rightarrow> string \<Rightarrow> string \<Rightarrow> invocation_trigger \<Rightarrow> flow_definition
      \<Rightarrow> ('io, 'b, invocation_context option) flow_op" where
  "build_invocation_context E rid n trg flow = (\<lambda>s.
     case get_run s rid of
       None \<Rightarrow> (Inr None, s)
     | Some r \<Rightarrow>
         (case fnode flow n of
            None \<Rightarrow> (Inr None, s)
          | Some nd \<Rightarrow>
              fr_bind (case (if trig_kind trg = ''rejected_requeue'' then approved_port trg else None) of
                         None \<Rightarrow> fr_return None
                       | Some port \<Rightarrow> fr_bind (read_review_comments E (frs_flow_id r) rid port) (\<lambda>cs. fr_return (Some cs)))
                (\<lambda>rcs. fr_return (Some ((ctx_build_with_feedback n (fnode_owner nd) trg (docs_for r nd)
                    (pending_ports_for flow n (ports_with (\<lambda>st. st = Approved \<or> st = Seeded) r n)) rcs)
                  \<lparr>human_provided_keys := human_keys_for r nd\<rparr>))) s))"

definition schedule_node_with_context ::
    "('io, 'b) flow_env \<Rightarrow> string \<Rightarrow> string \<Rightarrow> invocation_trigger \<Rightarrow> flow_definition
      \<Rightarrow> ('io, 'b, invocation_context option) flow_op" where
  "schedule_node_with_context E rid n trg flow =
     fr_bind (build_invocation_context E rid n trg flow) (\<lambda>ctx.
     fr_bind (record_invocation E rid n trg) (\<lambda>iid.
     fr_bind (trace_op E rid AgentScheduled (\<lambda>e. e\<lparr>te_agent_id := n, te_invocation_id := Some iid,
         te_pending_ports := (case ctx of None \<Rightarrow> [] | Some c \<Rightarrow> pending_ports c)\<rparr>)) (\<lambda>_.
     fr_bind (emit_op ''flow.run.changed'' rid) (\<lambda>_. fr_return ctx))))"

section \<open>The AND-join gate\<close>

definition is_node_ready :: "string \<Rightarrow> flow_run_state \<Rightarrow> flow_graph \<Rightarrow> bool" where
  "is_node_ready n r g = list_all (\<lambda>(src, p). port_of r src p = Approved \<or> port_of r src p = Seeded)
     (required_inputs_for g n)"

fun add_flow_steps ::
    "('io, 'b) flow_env \<Rightarrow> invocation_trigger \<Rightarrow> string list \<Rightarrow> (flow_state, activations, string) orchestrator
      \<Rightarrow> ('io, 'b, node_id list \<times> (flow_state, activations, string) orchestrator) flow_op" where
  "add_flow_steps E trg [] orc = fr_return ([], orc)"
| "add_flow_steps E trg (c # cs) orc = fr_bind (fr_tick (env_uuid E)) (\<lambda>u.
     fr_bind (add_flow_steps E trg cs (add_step (UuidNewtype u) (flow_step c trg) orc))
       (\<lambda>(nids, orc'). fr_return (UuidNewtype u # nids, orc')))"

fun allow_all :: "node_id \<Rightarrow> node_id list \<Rightarrow> ('s, 'w, 'e) orchestrator \<Rightarrow> graph_error + ('s, 'w, 'e) orchestrator" where
  "allow_all ent [] orc = Inr orc"
| "allow_all ent (n # ns) orc = (case allow_transition ent n orc of Inl e \<Rightarrow> Inl e | Inr orc' \<Rightarrow> allow_all ent ns orc')"

definition activation_pass ::
    "('io, 'b) flow_env \<Rightarrow> invocation_trigger \<Rightarrow> string list \<Rightarrow> flow_run_state \<Rightarrow> flow_graph
      \<Rightarrow> ('io, 'b, activations) flow_op" where
  "activation_pass E trg awaiting r g =
     fr_bind (add_flow_steps E trg awaiting new_orchestrator) (\<lambda>(nids, orc).
     fr_bind (fr_tick (env_uuid E)) (\<lambda>u.
       let ent = UuidNewtype u
       in (case allow_all ent nids (set_entry ent (add_step ent (and_join_dispatch nids) orc)) of
             Inl e \<Rightarrow> fr_fail (OrchestratorEdge e)
           | Inr orc' \<Rightarrow>
               (case Orchestrator.run orc' \<lparr>max_steps = None\<rparr> \<lparr>fs_run_state = r, fs_graph = g\<rparr> [] of
                  None \<Rightarrow> fr_fail FlowDiverges
                | Some (Inl e, _) \<Rightarrow> fr_fail (ActivationOrchestrator e)
                | Some (Inr _, acts) \<Rightarrow> fr_return acts))))"

text \<open>Human owners wait for the user on every port; agents are scheduled.\<close>

definition await_owner :: "('io, 'b) flow_env \<Rightarrow> string \<Rightarrow> string \<Rightarrow> flow_node \<Rightarrow> ('io, 'b, unit) flow_op" where
  "await_owner E rid n nd =
     fr_bind (fr_each (\<lambda>out. mark_port_status_unchecked E rid n (out_port out) AwaitingOwner) (fnode_outputs nd))
       (\<lambda>_. emit_op ''flow.run.human_input_required'' rid)"

definition activate_node ::
    "('io, 'b) flow_env \<Rightarrow> string \<Rightarrow> flow_definition \<Rightarrow> string \<times> invocation_trigger
      \<Rightarrow> ('io, 'b, invocation_context list) flow_op" where
  "activate_node E rid flow = (\<lambda>(n, trg).
     case fnode flow n of
       None \<Rightarrow> fr_return []
     | Some nd \<Rightarrow>
         if fnode_owner nd = ''human'' then fr_bind (await_owner E rid n nd) (\<lambda>_. fr_return [])
         else fr_bind (schedule_node_with_context E rid n trg flow) (\<lambda>ctx. fr_return (opt_list ctx)))"

definition and_join_trigger :: "string \<Rightarrow> string \<Rightarrow> invocation_trigger" where
  "and_join_trigger n port = \<lparr>trig_kind = ''and_join'', approved_port = Some port, from_node = Some n,
     reviewer_doc_path = None\<rparr>"

definition fire_and_join_for ::
    "('io, 'b) flow_env \<Rightarrow> string \<Rightarrow> string \<Rightarrow> string \<Rightarrow> flow_definition \<Rightarrow> flow_graph
      \<Rightarrow> ('io, 'b, invocation_context list) flow_op" where
  "fire_and_join_for E n port rid flow g = (\<lambda>s.
     if nodes_awaiting g n port = [] then (Inr [], s)
     else (case get_run s rid of
       None \<Rightarrow> (Inr [], s)
     | Some r \<Rightarrow>
         fr_bind (activation_pass E (and_join_trigger n port) (nodes_awaiting g n port) r g)
           (fr_collect (activate_node E rid flow)) s))"

section \<open>Document approval\<close>

definition flow_graph_of :: "flow_definition \<Rightarrow> 'io flow_error + flow_graph" where
  "flow_graph_of flow = (case flow_graph flow of
     None \<Rightarrow> Inl (FlowPanic ''FlowGraph not built'') | Some g \<Rightarrow> Inr g)"

text \<open>Step 2b: the document of the port, if the run has one, goes to the blackboard.\<close>

definition approve_blackboard :: "string \<Rightarrow> string \<Rightarrow> string \<Rightarrow> flow_definition \<Rightarrow> 'b flow_runtime \<Rightarrow> 'b flow_runtime" where
  "approve_blackboard rid n port flow s =
     (case Option.bind (foutput flow n port) blackboard_key of
        None \<Rightarrow> s
      | Some key \<Rightarrow>
          (case Option.bind (get_run s rid) (\<lambda>r. map_option (doc_of_entry r)
              (List.find (\<lambda>d. fd_producer_node d = n \<and> fd_doc_type d = port) (documents r))) of
             None \<Rightarrow> s
           | Some d \<Rightarrow> write_blackboard_entry rid key d (AgentGenerated (Some n)) s))"

definition update_reviews ::
    "('io, 'b) flow_env \<Rightarrow> string \<Rightarrow> string \<Rightarrow> string \<Rightarrow> string \<Rightarrow> u32 \<Rightarrow> string \<Rightarrow> ('io, 'b, unit) flow_op" where
  "update_reviews E rid port n sha rno st = (\<lambda>s.
     case get_run s rid of
       None \<Rightarrow> (Inr (), s)
     | Some r \<Rightarrow> fr_ignore (upsert_review_state E (frs_flow_id r) rid port n sha rno st) s)"

definition retrigger_node ::
    "('io, 'b) flow_env \<Rightarrow> string \<Rightarrow> string \<Rightarrow> string \<Rightarrow> flow_definition \<Rightarrow> string
      \<Rightarrow> ('io, 'b, invocation_context list) flow_op" where
  "retrigger_node E rid n port flow i =
     activate_node E rid flow (i, \<lparr>trig_kind = ''cycle_retrigger'', approved_port = Some port,
       from_node = Some n, reviewer_doc_path = None\<rparr>)"

text \<open>Step 5: the producer is invoked again while it has ports that are not approved.\<close>

definition implicit_reinvoke ::
    "('io, 'b) flow_env \<Rightarrow> string \<Rightarrow> string \<Rightarrow> string \<Rightarrow> flow_definition
      \<Rightarrow> ('io, 'b, invocation_context list) flow_op" where
  "implicit_reinvoke E rid n port flow = (\<lambda>s.
     case fnode flow n of
       None \<Rightarrow> (Inr [], s)
     | Some nd \<Rightarrow>
         if fnode_owner nd = ''human'' then (Inr [], s)
         else (case get_run s rid of
           None \<Rightarrow> (Inr [], s)
         | Some r \<Rightarrow>
             if pending_ports_for flow n (ports_with (\<lambda>st. st = Approved) r n) = [] then (Inr [], s)
             else fr_bind (schedule_node_with_context E rid n \<lparr>trig_kind = ''implicit_reinvoke'',
                 approved_port = Some port, from_node = None, reviewer_doc_path = None\<rparr> flow)
               (\<lambda>ctx. fr_return (opt_list ctx)) s))"

text \<open>What follows the write of the status (steps 2b to 5).\<close>

definition approve_tail ::
    "('io, 'b) flow_env \<Rightarrow> string \<Rightarrow> string \<Rightarrow> string \<Rightarrow> flow_definition
      \<Rightarrow> ('io, 'b, invocation_context list) flow_op" where
  "approve_tail E rid n port flow =
     fr_bind (\<lambda>s1. (Inr (), approve_blackboard rid n port flow s1)) (\<lambda>_.
     fr_bind (update_reviews E rid port n [] 0 ''APPROVED'') (\<lambda>_.
     fr_bind (fr_lift (flow_graph_of flow)) (\<lambda>g.
     fr_bind (fire_and_join_for E n port rid flow g) (\<lambda>joined.
     fr_bind (fr_collect (retrigger_node E rid n port flow) (nodes_retriggered_by g n port)) (\<lambda>cycled.
     fr_bind (implicit_reinvoke E rid n port flow) (\<lambda>again.
     fr_bind (emit_op ''flow.run.changed'' rid) (\<lambda>_.
       fr_return (joined @ cycled @ again))))))))"

definition on_document_approved ::
    "('io, 'b) flow_env \<Rightarrow> string \<Rightarrow> string \<Rightarrow> string \<Rightarrow> flow_definition
      \<Rightarrow> ('io, 'b, invocation_context list) flow_op" where
  "on_document_approved E rid n port flow = (\<lambda>s.
     if port_status_of s rid n port = Approved then (Inr [], s)
     else fr_bind (mark_port_status E rid n port Approved) (\<lambda>_. approve_tail E rid n port flow) s)"

definition on_rejected_requeue ::
    "('io, 'b) flow_env \<Rightarrow> string \<Rightarrow> string \<Rightarrow> string \<Rightarrow> flow_definition
      \<Rightarrow> ('io, 'b, invocation_context option) flow_op" where
  "on_rejected_requeue E rid n port flow =
     fr_bind (mark_port_status_unchecked E rid n port PortPending) (\<lambda>_.
     fr_bind (update_reviews E rid port n [] 0 ''CHANGES_REQUESTED'') (\<lambda>_.
     fr_bind (schedule_node_with_context E rid n \<lparr>trig_kind = ''rejected_requeue'',
         approved_port = Some port, from_node = None, reviewer_doc_path = None\<rparr> flow) (\<lambda>ctx.
     fr_bind (emit_op ''flow.run.changed'' rid) (\<lambda>_. fr_return ctx))))"

section \<open>Cycle limits and submission\<close>

definition cycle_bound :: "flow_definition \<Rightarrow> string \<Rightarrow> string \<Rightarrow> (u32 \<times> string) option" where
  "cycle_bound flow n port = Option.bind (foutput flow n port) (\<lambda>out.
     case max_cycles out of
       None \<Rightarrow> None
     | Some m \<Rightarrow> if 0 < m then Some (m, (case on_cycle_exhausted out of None \<Rightarrow> ''halt'' | Some act \<Rightarrow> act)) else None)"

definition check_cycle_limit ::
    "('io, 'b) flow_env \<Rightarrow> string \<Rightarrow> string \<Rightarrow> string \<Rightarrow> flow_definition \<Rightarrow> ('io, 'b, string option) flow_op" where
  "check_cycle_limit E rid n port flow =
     (case cycle_bound flow n port of
        None \<Rightarrow> fr_return None
      | Some (m, act) \<Rightarrow> fr_bind (increment_port_cycles E rid n port)
          (\<lambda>count. fr_return (if m < count then Some act else None)))"

definition reviewers_of :: "flow_definition \<Rightarrow> string \<Rightarrow> string \<Rightarrow> string list" where
  "reviewers_of flow n port = (case foutput flow n port of None \<Rightarrow> [] | Some out \<Rightarrow> out_reviewers out)"

definition human_pending :: "string \<Rightarrow> string \<Rightarrow> string option \<Rightarrow> invocation_context" where
  "human_pending n port path =
     \<lparr>ctx_node_id = n, ctx_owner = ''human'',
      ctx_trigger = \<lparr>trig_kind = ''human_review_pending'', approved_port = Some port, from_node = Some n,
        reviewer_doc_path = path\<rparr>,
      available_docs = [], pending_ports = [], ctx_review_comments = None, human_provided_keys = []\<rparr>"

definition reviewer_contexts :: "string \<Rightarrow> string \<Rightarrow> string \<Rightarrow> string list \<Rightarrow> invocation_context list" where
  "reviewer_contexts path n port rs =
     map (\<lambda>r. ctx_build_with_feedback r r \<lparr>trig_kind = ''reviewer_invocation'', approved_port = Some port,
         from_node = Some n, reviewer_doc_path = Some path\<rparr> [] [] None) (filter (\<lambda>r. r \<noteq> ''human'') rs) @
     (if ''human'' \<in> set rs then [human_pending n port (Some path)] else [])"

text \<open>The body of the document is not used.\<close>

definition on_document_submitted ::
    "('io, 'b) flow_env \<Rightarrow> string \<Rightarrow> string \<Rightarrow> string \<Rightarrow> flow_definition \<Rightarrow> string \<Rightarrow> u32
      \<Rightarrow> ('io, 'b, invocation_context list) flow_op" where
  "on_document_submitted E rid n port flow sha rno =
     fr_bind (check_cycle_limit E rid n port flow) (\<lambda>exceeded.
     case exceeded of
       Some act \<Rightarrow> fr_fail (CycleLimitExceeded n port act)
     | None \<Rightarrow>
         fr_bind (update_reviews E rid port n sha rno ''IN_REVIEW'') (\<lambda>_.
         fr_bind (trace_op E rid DocumentSubmitted (\<lambda>e. e\<lparr>te_agent_id := n\<rparr>)) (\<lambda>_.
         if reviewers_of flow n port = []
         then fr_bind (on_document_approved E rid n port flow) (\<lambda>ctxs.
              fr_bind (emit_op ''flow.run.changed'' rid) (\<lambda>_. fr_return ctxs))
         else fr_bind (mark_port_status E rid n port InReview) (\<lambda>_.
              fr_bind (\<lambda>s. (Inr (case get_run s rid of None \<Rightarrow> [] | Some _ \<Rightarrow> spec_path rid port), s)) (\<lambda>path.
              fr_bind (emit_op ''flow.run.changed'' rid) (\<lambda>_.
                fr_return (reviewer_contexts path n port (reviewers_of flow n port))))))))"

section \<open>Reviewer verdicts\<close>

definition verdict_key :: "string \<Rightarrow> string \<Rightarrow> string \<Rightarrow> string" where
  "verdict_key rid n port = rid @ ''/'' @ n @ ''/'' @ port"

text \<open>The tally: all reviewers that are agents approved, and one of them rejected.\<close>

definition any_rejected :: "(string \<times> review_verdict) list \<Rightarrow> bool" where
  "any_rejected vs = (Reject \<in> snd ` set vs)"

definition all_approved :: "flow_definition \<Rightarrow> string \<Rightarrow> string \<Rightarrow> (string \<times> review_verdict) list \<Rightarrow> bool" where
  "all_approved flow n port vs =
     (\<not> any_rejected vs \<and> length (filter (\<lambda>r. r \<noteq> ''human'') (reviewers_of flow n port)) \<le> length vs)"

text \<open>A failing save after the verdict is only logged.\<close>

definition persist_or_warn :: "('io, 'b) flow_env \<Rightarrow> string \<Rightarrow> ('io, 'b, unit) flow_op" where
  "persist_or_warn E rid = (\<lambda>s. case get_run s rid of
     None \<Rightarrow> (Inr (), s) | Some r \<Rightarrow> fr_ignore (persist_run E r) s)"

definition on_reviewer_verdict ::
    "('io, 'b) flow_env \<Rightarrow> string \<Rightarrow> string \<Rightarrow> string \<Rightarrow> string \<Rightarrow> review_verdict \<Rightarrow> review_comment list
      \<Rightarrow> flow_definition \<Rightarrow> ('io, 'b, invocation_context list option) flow_op" where
  "on_reviewer_verdict E rid n port who v cs flow = (\<lambda>s.
     case get_run s rid of
       None \<Rightarrow> (Inl (RunNotFound rid), s)
     | Some r0 \<Rightarrow>
         fr_bind (if cs = [] then fr_return () else write_review_comments E (frs_flow_id r0) rid port who cs) (\<lambda>_ s1.
           case get_run s1 rid of
             None \<Rightarrow> (Inl (RunNotInMap rid), s1)
           | Some r \<Rightarrow>
               let r1 = push_verdict (verdict_key rid n port) who v r;
                   vs = verdicts_of r1 (verdict_key rid n port)
               in fr_bind (persist_or_warn E rid) (\<lambda>_.
                    if any_rejected vs
                    then fr_bind (on_rejected_requeue E rid n port flow) (\<lambda>ctx. fr_return (Some (opt_list ctx)))
                    else if all_approved flow n port vs \<and> ''human'' \<notin> set (reviewers_of flow n port)
                    then fr_bind (on_document_approved E rid n port flow) (\<lambda>ctxs. fr_return (Some ctxs))
                    else if all_approved flow n port vs
                    then fr_bind (emit_op ''flow.run.changed'' rid) (\<lambda>_. fr_return (Some [human_pending n port None]))
                    else fr_return None) (put_run rid r1 s1)) s)"

section \<open>Seeding, starting and restarting\<close>

fun apply_seeds ::
    "('io, 'b) flow_env \<Rightarrow> string \<Rightarrow> flow_definition \<Rightarrow> flow_graph \<Rightarrow> (string \<times> blackboard_entry) list
      \<Rightarrow> ('io, 'b, invocation_context list) flow_op" where
  "apply_seeds E rid flow g [] = fr_return []"
| "apply_seeds E rid flow g ((key, e) # seeds) =
     fr_bind (\<lambda>s. (Inr (), write_blackboard_entry rid key (be_doc e) (be_written_by e) s)) (\<lambda>_.
     fr_bind (case find_output_by_blackboard_key flow key of
         None \<Rightarrow> fr_return []
       | Some (n, port) \<Rightarrow> fr_bind (mark_port_status_unchecked E rid n port Seeded)
           (\<lambda>_. fire_and_join_for E n port rid flow g)) (\<lambda>ctxs.
     fr_bind (apply_seeds E rid flow g seeds) (\<lambda>rest. fr_return (ctxs @ rest))))"

definition apply_seeded_entries ::
    "('io, 'b) flow_env \<Rightarrow> string \<Rightarrow> flow_definition \<Rightarrow> (string \<times> blackboard_entry) list
      \<Rightarrow> ('io, 'b, invocation_context list) flow_op" where
  "apply_seeded_entries E rid flow seeds =
     fr_bind (fr_lift (flow_graph_of flow)) (\<lambda>g. apply_seeds E rid flow g seeds)"

definition flow_start_run ::
    "('io, 'b) flow_env \<Rightarrow> flow_definition \<Rightarrow> string \<Rightarrow> ('io, 'b, string \<times> invocation_context list) flow_op" where
  "flow_start_run E flow inp =
     fr_bind (fr_tick (env_uuid E)) (\<lambda>u.
     fr_bind (fr_tick (env_secs E)) (\<lambda>now.
       let rid = ''run-'' @ uuid_simple u;
           r = set_port ''__chat__'' ''initial-brief'' Approved (new_flow_run_state now rid (flow_name flow) inp)
       in fr_bind (persist_run E r) (\<lambda>_.
          fr_bind (fr_tick (env_ms E)) (\<lambda>ts.
          fr_bind (\<lambda>s. (Inr (), fr_emit ''flow.run.changed'' rid (put_run rid r
              (s\<lparr>trace_writers := (trace_writers s)(rid \<mapsto> [(trace_now ts RunStarted)\<lparr>te_run_id := rid\<rparr>])\<rparr>)))) (\<lambda>_.
          fr_bind (fr_lift (flow_graph_of flow)) (\<lambda>g.
          fr_bind (fire_and_join_for E ''__chat__'' ''initial-brief'' rid flow g) (\<lambda>ctxs.
            fr_return (rid, ctxs))))))))"

text \<open>
  \<^verbatim>\<open>rehydrate_from_disk\<close>. \<open>entries\<close> are the entries of the directory \<^verbatim>\<open>flows\<close>: the name, whether
  it is a directory, and the run entries of its \<^verbatim>\<open>runs\<close> directory if that can be read; \<open>None\<close>
  when \<^verbatim>\<open>flows\<close> itself cannot be read.
\<close>

definition rehydrate_run :: "('io, 'b) flow_env \<Rightarrow> string \<Rightarrow> string \<Rightarrow> ('io, 'b, nat) flow_op" where
  "rehydrate_run E fid rid = (\<lambda>s.
     case files s (run_state_file fid rid) of
       None \<Rightarrow> (Inr 0, s)
     | Some bytes \<Rightarrow>
         fr_bind (fr_tick (env_read E)) (\<lambda>ok.
           case (if ok then env_dec E bytes else Inl []) of
             Inl _ \<Rightarrow> fr_return 0
           | Inr r \<Rightarrow>
               let r1 = (if frs_status r = FrRunning then r\<lparr>frs_status := FrPaused\<rparr> else r)
               in fr_bind (if frs_status r = FrRunning then fr_ignore (persist_run E r1) else fr_return ()) (\<lambda>_ s1.
                    let s2 = (case originating_session_id r1 of
                          None \<Rightarrow> s1
                        | Some sid \<Rightarrow> s1\<lparr>chat_sessions := (chat_sessions s1)(frs_run_id r1 \<mapsto> sid)\<rparr>)
                    in (Inr (if frs_status r = FrRunning then 1 else 0), put_run (frs_run_id r1) r1 s2))) s)"

fun sum_each :: "('a \<Rightarrow> ('io, 'b, nat) flow_op) \<Rightarrow> 'a list \<Rightarrow> ('io, 'b, nat) flow_op" where
  "sum_each f [] = fr_return 0"
| "sum_each f (x # xs) = fr_bind (f x) (\<lambda>m. fr_bind (sum_each f xs) (\<lambda>n. fr_return (m + n)))"

definition rehydrate_from_disk ::
    "('io, 'b) flow_env \<Rightarrow> (string \<times> bool \<times> string list option) list option \<Rightarrow> ('io, 'b, nat) flow_op" where
  "rehydrate_from_disk E entries =
     (case entries of
        None \<Rightarrow> fr_return 0
      | Some es \<Rightarrow> sum_each (\<lambda>(fid, is_dir, rs).
          if \<not> is_dir then fr_return 0
          else (case rs of None \<Rightarrow> fr_return 0 | Some rids \<Rightarrow> sum_each (rehydrate_run E fid) rids)) es)"

end
