(* ===== verification/FlowGate.thy ===== *)
theory FlowGate
  imports FlowRun
begin

text \<open>
  The AND-join gate of the flow runtime as the orchestrator executes it: with distinct identifiers
  the activation pass always returns, and what it activates are the waiting nodes whose required
  inputs are all approved, in order. This is the refinement of the pass to a filter.
\<close>

section \<open>The sequencing operators\<close>

lemma fr_bind_Inr [simp]: "m s = (Inr x, s') \<Longrightarrow> fr_bind m f s = f x s'"
  by (simp add: fr_bind_def)

lemma fr_bind_Inl [simp]: "m s = (Inl e, s') \<Longrightarrow> fr_bind m f s = (Inl e, s')"
  by (simp add: fr_bind_def)

lemma fr_return_apply [flow_simps]: "fr_return x s = (Inr x, s)"
  by (simp add: fr_return_def)

lemma fr_fail_apply [flow_simps]: "fr_fail e s = (Inl e, s)"
  by (simp add: fr_fail_def)

lemma fr_lift_apply [flow_simps]: "fr_lift x s = (x, s)"
  by (simp add: fr_lift_def)

lemma fr_tick_apply [flow_simps]: "fr_tick f s = (Inr (f (ticks s)), s\<lparr>ticks := Suc (ticks s)\<rparr>)"
  by (simp add: fr_tick_def)

lemma emit_op_apply [flow_simps]: "emit_op ev rid s = (Inr (), fr_emit ev rid s)"
  by (simp add: emit_op_def)

lemma fr_bind_cases:
  assumes "fr_bind m f s = (res, s')"
  obtains (error) e where "m s = (Inl e, s')" "res = Inl e"
  | (step) x s1 where "m s = (Inr x, s1)" "f x s1 = (res, s')"
  using assms by (cases "m s") (auto simp: fr_bind_def split: sum.splits)

section \<open>The orchestrator of a pass\<close>

text \<open>The gate of one node, and what a pass activates.\<close>

definition gate_open :: "flow_run_state \<Rightarrow> flow_graph \<Rightarrow> string \<Rightarrow> bool" where
  "gate_open r g n = list_all (\<lambda>(src, p). port_of r src p = Approved) (required_inputs_for g n)"

definition activated :: "flow_run_state \<Rightarrow> flow_graph \<Rightarrow> invocation_trigger \<Rightarrow> string list \<Rightarrow> activations" where
  "activated r g trg cs = map (\<lambda>c. (c, trg)) (filter (gate_open r g) cs)"

lemma execute_flow_step: "execute (flow_step c trg) s w =
    (if gate_open (fs_run_state s) (fs_graph s) c
     then (Inr (Terminal s Completed), w @ [(c, trg)])
     else (Inr (Terminal s (Custom ''awaiting-inputs'')), w))"
  by (simp add: flow_step_def gate_open_def)

definition step_ids :: "('io, 'b) flow_env \<Rightarrow> nat \<Rightarrow> nat \<Rightarrow> node_id list" where
  "step_ids E t k = map (\<lambda>i. UuidNewtype (env_uuid E i)) [t..<t + k]"

lemma distinct_step_ids: "inj (env_uuid E) \<Longrightarrow> distinct (step_ids E t k)"
  unfolding step_ids_def distinct_map by (auto simp: inj_def intro: inj_onI)

lemma step_ids_fresh:
  assumes "inj (env_uuid E)"
  shows "UuidNewtype (env_uuid E (t + k)) \<notin> set (step_ids E t k)"
proof
  assume "UuidNewtype (env_uuid E (t + k)) \<in> set (step_ids E t k)"
  then obtain i where "i < t + k" "env_uuid E i = env_uuid E (t + k)" by (auto simp: step_ids_def)
  with assms show False by (auto dest: injD)
qed

lemma step_ids_Suc: "step_ids E t (Suc k) = UuidNewtype (env_uuid E t) # step_ids E (Suc t) k"
proof -
  have "[t..<t + Suc k] = t # [Suc t..<Suc t + k]" using upt_conv_Cons [of t "t + Suc k"] by simp
  then show ?thesis by (simp only: step_ids_def list.map)
qed

lemma node_add_step: "node (graph (add_step nid st orc)) x = (if x = nid then Some st else node (graph orc) x)"
  by (simp add: add_step_def add_node_def node_def store_simps)

lemma add_flow_steps_spec:
  assumes "inj (env_uuid E)"
  shows "\<exists>orc'. add_flow_steps E trg cs orc s =
      (Inr (step_ids E (ticks s) (length cs), orc'), s\<lparr>ticks := ticks s + length cs\<rparr>) \<and>
    (\<forall>x. x \<notin> set (step_ids E (ticks s) (length cs)) \<longrightarrow> node (graph orc') x = node (graph orc) x) \<and>
    list_all2 (\<lambda>nid c. node (graph orc') nid = Some (flow_step c trg)) (step_ids E (ticks s) (length cs)) cs"
proof (induction cs arbitrary: orc s)
  case Nil
  then show ?case by (simp add: step_ids_def flow_simps)
next
  case (Cons c cs)
  let ?u = "UuidNewtype (env_uuid E (ticks s)) :: node_id"
  let ?s = "s\<lparr>ticks := Suc (ticks s)\<rparr>"
  from Cons [of "add_step ?u (flow_step c trg) orc" ?s] obtain orc' where
    run: "add_flow_steps E trg cs (add_step ?u (flow_step c trg) orc) ?s =
      (Inr (step_ids E (Suc (ticks s)) (length cs), orc'), s\<lparr>ticks := Suc (ticks s) + length cs\<rparr>)"
    and same: "\<forall>x. x \<notin> set (step_ids E (Suc (ticks s)) (length cs)) \<longrightarrow>
      node (graph orc') x = node (graph (add_step ?u (flow_step c trg) orc)) x"
    and all: "list_all2 (\<lambda>nid c. node (graph orc') nid = Some (flow_step c trg))
      (step_ids E (Suc (ticks s)) (length cs)) cs" by auto
  have "?u \<notin> set (step_ids E (Suc (ticks s)) (length cs))"
    using distinct_step_ids [OF assms, of "ticks s" "Suc (length cs)"] by (simp add: step_ids_Suc)
  with same all have "list_all2 (\<lambda>nid c. node (graph orc') nid = Some (flow_step c trg))
      (step_ids E (ticks s) (length (c # cs))) (c # cs)"
    by (simp add: step_ids_Suc node_add_step)
  moreover have "\<forall>x. x \<notin> set (step_ids E (ticks s) (length (c # cs))) \<longrightarrow> node (graph orc') x = node (graph orc) x"
    using same by (simp add: step_ids_Suc node_add_step)
  ultimately show ?case using run by (intro exI [of _ orc']) (simp add: step_ids_Suc flow_simps)
qed

lemma allow_all_spec:
  assumes "node (graph orc) ent \<noteq> None" and "\<forall>n \<in> set ns. node (graph orc) n \<noteq> None"
  shows "\<exists>orc'. allow_all ent ns orc = Inr orc' \<and> nodes (graph orc') = nodes (graph orc) \<and>
    entry orc' = entry orc \<and> set ns \<subseteq> set (successors (graph orc') ent) \<and>
    set (successors (graph orc) ent) \<subseteq> set (successors (graph orc') ent)"
  using assms
proof (induction ns arbitrary: orc)
  case (Cons n ns)
  obtain g where g: "add_edge ent n () (graph orc) = Inr g" and nodes: "nodes g = nodes (graph orc)"
    using Cons.prems by (auto simp: add_edge_def node_def)
  have "set (successors g ent) = insert n (set (successors (graph orc) ent))"
    using successors_add_edge [OF g] by auto
  moreover from Cons.IH [of "orc\<lparr>graph := g\<rparr>"] Cons.prems nodes obtain orc' where
    "allow_all ent ns (orc\<lparr>graph := g\<rparr>) = Inr orc'" "nodes (graph orc') = nodes g" "entry orc' = entry orc"
    "set ns \<subseteq> set (successors (graph orc') ent)" "set (successors g ent) \<subseteq> set (successors (graph orc') ent)"
    by (auto simp: node_def)
  ultimately show ?case using g nodes by (intro exI [of _ orc']) (simp add: allow_transition_def)
qed simp

lemma drains_flow_steps:
  assumes "list_all2 (\<lambda>nid c. node (graph orc) nid = Some (flow_step c trg)) ids cs" and "ids \<noteq> []"
  shows "\<exists>tr r. drains orc (map (\<lambda>k. (s, k)) ids) w tr s r
    (w @ activated (fs_run_state s) (fs_graph s) trg cs)"
  using assms
proof (induction ids cs arbitrary: w rule: list_all2_induct)
  case (Cons n ns c cs)
  let ?w = "w @ activated (fs_run_state s) (fs_graph s) trg [c]"
  have "execute (flow_step c trg) s w = (Inr (Terminal s
      (if gate_open (fs_run_state s) (fs_graph s) c then Completed else Custom ''awaiting-inputs'')), ?w)"
    by (simp add: execute_flow_step activated_def)
  then obtain r where first: "explores orc s w n [n] s r ?w" using Cons(1) by (blast intro: terminal)
  show ?case
  proof (cases "ns = []")
    case True
    with Cons(2) have "cs = []" by simp
    with first True show ?thesis by auto
  next
    case False
    with Cons.IH [of ?w] obtain tr r' where
      "drains orc (map (\<lambda>k. (s, k)) ns) ?w tr s r' (?w @ activated (fs_run_state s) (fs_graph s) trg cs)" by blast
    moreover have "?w @ activated (fs_run_state s) (fs_graph s) trg cs =
        w @ activated (fs_run_state s) (fs_graph s) trg (c # cs)" by (simp add: activated_def)
    ultimately have rest: "drains orc (map (\<lambda>k. (s, k)) ns) ?w tr s r' (w @ activated (fs_run_state s) (fs_graph s) trg (c # cs))"
      by metis
    from False obtain m ms where "ns = m # ms" by (cases ns) auto
    with rest have "drains orc ((s, m) # map (\<lambda>k. (s, k)) ms) ?w tr s r'
        (w @ activated (fs_run_state s) (fs_graph s) trg (c # cs))" by simp
    from next_branch [OF first this] \<open>ns = m # ms\<close> show ?thesis by (simp only: list.map) blast
  qed
qed simp

text \<open>The pass returns and activates exactly the open gates.\<close>

lemma activation_returns:
  assumes inj: "inj (env_uuid E)"
  shows "activation_pass E trg cs r g s =
    (Inr (activated r g trg cs), s\<lparr>ticks := Suc (ticks s + length cs)\<rparr>)"
proof -
  let ?ids = "step_ids E (ticks s) (length cs)" and ?ent = "UuidNewtype (env_uuid E (ticks s + length cs)) :: node_id"
  let ?st = "\<lparr>fs_run_state = r, fs_graph = g\<rparr>"
  from add_flow_steps_spec [OF inj, of trg cs new_orchestrator s] obtain orc1 where
    add: "add_flow_steps E trg cs new_orchestrator s = (Inr (?ids, orc1), s\<lparr>ticks := ticks s + length cs\<rparr>)"
    and steps1: "list_all2 (\<lambda>nid c. node (graph orc1) nid = Some (flow_step c trg)) ?ids cs" by blast
  have fresh: "?ent \<notin> set ?ids" by (rule step_ids_fresh [OF inj])
  define orc2 where "orc2 = set_entry ?ent (add_step ?ent (and_join_dispatch ?ids) orc1)"
  have node2: "node (graph orc2) x = (if x = ?ent then Some (and_join_dispatch ?ids) else node (graph orc1) x)" for x
    by (simp add: orc2_def set_entry_def node_add_step)
  have steps2: "list_all2 (\<lambda>nid c. node (graph orc2) nid = Some (flow_step c trg)) ?ids cs"
    using steps1 fresh by (auto simp: node2 list_all2_conv_all_nth in_set_conv_nth)
  then have "\<forall>n \<in> set ?ids. node (graph orc2) n \<noteq> None"
    by (auto simp: list_all2_conv_all_nth in_set_conv_nth)
  with allow_all_spec [of orc2 ?ent ?ids] node2 obtain orc where
    allow: "allow_all ?ent ?ids orc2 = Inr orc" and nodes: "nodes (graph orc) = nodes (graph orc2)"
    and ent: "entry orc = entry orc2" and succ: "set ?ids \<subseteq> set (successors (graph orc) ?ent)" by auto
  have node: "node (graph orc) = node (graph orc2)" by (rule ext) (simp add: node_def nodes)
  have dispatch: "node (graph orc) ?ent = Some (and_join_dispatch ?ids)" by (simp add: node node2)
  have "\<exists>tr rs. explores orc ?st [] ?ent tr ?st rs (activated r g trg cs)"
  proof (cases ?ids)
    case Nil
    then have "cs = []" by (auto simp: step_ids_def)
    then have "explores orc ?st [] ?ent [?ent] ?st Completed (activated r g trg cs)"
      using dispatch Nil by (intro terminal) (auto simp: and_join_dispatch_def activated_def)
    then show ?thesis by blast
  next
    case (Cons m ms)
    from drains_flow_steps [of orc trg ?ids cs ?st "[]"] steps2 Cons obtain tr rs where
      "drains orc (map (\<lambda>k. (?st, k)) (m # ms)) [] tr ?st rs (activated r g trg cs)"
      by (auto simp: node)
    moreover have "first_bad orc ?ent (m # ms) = None"
      using succ Cons by (auto simp: first_bad_None check_edge_def)
    ultimately have "explores orc ?st [] ?ent (?ent # tr) ?st rs (activated r g trg cs)"
      using dispatch Cons by (intro branch) (auto simp: and_join_dispatch_def)
    then show ?thesis by blast
  qed
  then obtain tr rs where ex: "explores orc ?st [] ?ent tr ?st rs (activated r g trg cs)" by blast
  have "run_loop orc None ?st [] [] ?ent 0 [] =
      Some (Inr \<lparr>final_state = ?st, reason = rs, trace = tr\<rparr>, activated r g trg cs)"
    using ex by (subst run_loop_explores_iff) simp
  moreover have "entry orc = Some ?ent" "graph_contains (graph orc) ?ent"
    using ent dispatch by (auto simp: orc2_def set_entry_def graph_contains_def node_def)
  ultimately have "Orchestrator.run orc \<lparr>max_steps = None\<rparr> ?st [] =
      Some (Inr \<lparr>final_state = ?st, reason = rs, trace = tr\<rparr>, activated r g trg cs)"
    by (simp add: Orchestrator.run_def)
  with add allow show ?thesis by (simp add: activation_pass_def orc2_def flow_simps)
qed

text \<open>So firing the gate is scheduling the open ones, one after the other.\<close>

lemma fire_and_join_eq:
  assumes "inj (env_uuid E)"
  shows "fire_and_join_for E n port rid flow g s =
    (case get_run s rid of
       None \<Rightarrow> (Inr [], s)
     | Some r \<Rightarrow>
         if nodes_awaiting g n port = [] then (Inr [], s)
         else fr_collect (activate_node E rid flow)
           (activated r g (and_join_trigger n port) (nodes_awaiting g n port))
           (s\<lparr>ticks := Suc (ticks s + length (nodes_awaiting g n port))\<rparr>))"
  by (simp add: fire_and_join_for_def activation_returns [OF assms] split: option.split)

end
