(* ===== verification/FlowSteps.thy ===== *)
theory FlowSteps
  imports FlowGate "HOL-Library.Sublist"
begin

text \<open>
  What the operations of the flow runtime can do to a run: every change goes through the few
  updates of \<open>FlowRun\<close>, so a relation that contains them (locale \<open>run_steps\<close>) relates the states
  of a run before and after every operation, and after every sequence of operations.
\<close>

section \<open>Operations that leave the runs alone\<close>

definition quiet :: "('io, 'b, 'a) flow_op \<Rightarrow> bool" where
  "quiet m \<longleftrightarrow> (\<forall>s. runs (snd (m s)) = runs s)"

lemma quietD: "quiet m \<Longrightarrow> m s = (res, s') \<Longrightarrow> runs s' = runs s"
  by (metis quiet_def snd_conv)

lemma quiet_bind [intro]: "quiet m \<Longrightarrow> (\<And>x. quiet (f x)) \<Longrightarrow> quiet (fr_bind m f)"
  by (simp add: quiet_def fr_bind_def split: prod.split sum.split) (metis snd_conv)

lemma quiet_return [intro, simp]: "quiet (fr_return x)"
  by (simp add: quiet_def flow_simps)

lemma quiet_fail [intro, simp]: "quiet (fr_fail e)"
  by (simp add: quiet_def flow_simps)

lemma quiet_lift [intro, simp]: "quiet (fr_lift x)"
  by (simp add: quiet_def flow_simps)

lemma quiet_tick [intro, simp]: "quiet (fr_tick f)"
  by (simp add: quiet_def flow_simps)

lemma runs_fr_emit [simp]: "runs (fr_emit ev rid s) = runs s"
  by (simp add: fr_emit_def)

lemma ticks_updates: "ticks (s\<lparr>ticks := t\<rparr>) = t" "s\<lparr>ticks := t, ticks := u\<rparr> = s\<lparr>ticks := u\<rparr>"
  for s :: "'b flow_runtime"
  by simp_all

lemma quiet_emit [intro, simp]: "quiet (emit_op ev rid)"
  by (simp add: quiet_def flow_simps)

lemma quiet_ignore [intro]: "quiet m \<Longrightarrow> quiet (fr_ignore m)"
  unfolding quiet_def fr_ignore_def
  by (auto split: prod.split sum.split flow_error.split) (metis snd_conv)+

lemma quiet_write_file [intro, simp]: "quiet (write_file E p bytes)"
  by (auto simp: flow_simps write_file_def quiet_def split: option.split)

lemma quiet_create_dir_all [intro, simp]: "quiet (create_dir_all E)"
  unfolding create_dir_all_def by (rule quiet_bind) (auto split: option.split)

lemma quiet_persist_run [intro, simp]: "quiet (persist_run E r)"
  unfolding persist_run_def by (rule quiet_bind) (auto split: sum.split)

lemma quiet_trace_op [intro, simp]: "quiet (trace_op E rid k f)"
  by (auto simp: flow_simps trace_op_def quiet_def trace_append_def split: option.split)

lemma quiet_read_reviews [intro, simp]: "quiet (read_reviews E p)"
  by (auto simp: flow_simps read_reviews_def quiet_def split: option.split)

lemma quiet_write_reviews [intro, simp]: "quiet (write_reviews E fid rid j)"
proof -
  have "quiet (\<lambda>s. case res of Some e \<Rightarrow> (Inl (FlowIoError e), s)
    | None \<Rightarrow> (Inr (), s\<lparr>files := (files s)(run_reviews_file fid rid := files s (reviews_tmp_file fid rid),
        reviews_tmp_file fid rid := None)\<rparr>))" for res
    by (auto simp: quiet_def split: option.split)
  then show ?thesis unfolding write_reviews_def by (auto split: sum.split)
qed

lemma quiet_write_review_comments [intro, simp]: "quiet (write_review_comments E fid rid port who cs)"
  unfolding write_review_comments_def by (intro quiet_bind) auto

lemma quiet_upsert_review_state [intro, simp]: "quiet (upsert_review_state E fid rid d n sha rno st)"
  unfolding upsert_review_state_def by (intro quiet_bind) auto

lemma quiet_read_review_comments [intro, simp]: "quiet (read_review_comments E fid rid port)"
  unfolding read_review_comments_def by (intro quiet_bind) auto

lemma quiet_get_run:
  assumes "\<And>r. quiet (f r)"
  shows "quiet (\<lambda>s. case get_run s rid of None \<Rightarrow> (x, s) | Some r \<Rightarrow> f r s)"
  using assms by (auto simp: quiet_def split: option.split)

lemma quiet_build_invocation_context [intro, simp]: "quiet (build_invocation_context E rid n trg flow)"
  unfolding build_invocation_context_def
proof (rule quiet_get_run)
  fix r :: flow_run_state
  have "quiet (case (if trig_kind trg = ''rejected_requeue'' then approved_port trg else None) of
      None \<Rightarrow> fr_return None
    | Some port \<Rightarrow> fr_bind (read_review_comments E (frs_flow_id r) rid port) (\<lambda>cs. fr_return (Some cs)))"
    by (auto split: option.split)
  note ctx = quiet_bind [OF this]
  show "quiet (\<lambda>s. case fnode flow n of None \<Rightarrow> (Inr None, s)
    | Some nd \<Rightarrow> fr_bind (case (if trig_kind trg = ''rejected_requeue'' then approved_port trg else None) of
          None \<Rightarrow> fr_return None
        | Some port \<Rightarrow> fr_bind (read_review_comments E (frs_flow_id r) rid port) (\<lambda>cs. fr_return (Some cs)))
        (\<lambda>rcs. fr_return (Some ((ctx_build_with_feedback n (fnode_owner nd) trg (docs_for r nd)
           (pending_ports_for flow n (ports_with (\<lambda>st. st = Approved \<or> st = Seeded) r n)) rcs)
           \<lparr>human_provided_keys := human_keys_for r nd\<rparr>))) s)"
  proof (cases "fnode flow n")
    case None
    then show ?thesis by (simp add: quiet_def)
  next
    case (Some nd)
    show ?thesis unfolding Some option.case by (rule ctx) (rule quiet_return)
  qed
qed

lemma quiet_update_reviews [intro, simp]: "quiet (update_reviews E rid port n sha rno st)"
  unfolding update_reviews_def by (rule quiet_get_run) auto

lemma quiet_persist_or_warn [intro, simp]: "quiet (persist_or_warn E rid)"
  unfolding persist_or_warn_def by (rule quiet_get_run) auto

lemma quiet_add_flow_steps [intro, simp]: "quiet (add_flow_steps E trg cs orc)"
  by (induction cs arbitrary: orc) (auto intro!: quiet_bind split: prod.split)

lemma quiet_activation_pass [intro, simp]: "quiet (activation_pass E trg cs r g)"
  unfolding activation_pass_def
  by (intro quiet_bind quiet_add_flow_steps) (auto simp: Let_def intro!: quiet_bind split: prod.split sum.split option.split)

section \<open>Relations that contain the updates of a run\<close>

text \<open>
  What scheduling and activating nodes do. \<open>free n p st\<close> allows the unguarded writes of a port
  status.
\<close>

locale node_steps =
  fixes R :: "flow_run_state \<Rightarrow> flow_run_state \<Rightarrow> bool"
    and free :: "string \<Rightarrow> string \<Rightarrow> port_status \<Rightarrow> bool"
  assumes R_refl: "R r r"
    and R_trans: "R r1 r2 \<Longrightarrow> R r2 r3 \<Longrightarrow> R r1 r3"
    and R_free: "free n p st \<Longrightarrow> R r (set_port n p st r)"
    and R_invocation: "R r (push_invocation n i r)"
begin

definition ext :: "'b flow_runtime \<Rightarrow> 'b flow_runtime \<Rightarrow> bool" where
  "ext s s' \<longleftrightarrow> (\<forall>rid r. get_run s rid = Some r \<longrightarrow> (\<exists>r'. get_run s' rid = Some r' \<and> R r r'))"

definition keeps :: "('io, 'b, 'a) flow_op \<Rightarrow> bool" where
  "keeps m \<longleftrightarrow> (\<forall>s. ext s (snd (m s)))"

lemma ext_refl [intro, simp]: "ext s s"
  by (auto simp: ext_def intro: R_refl)

lemma ext_trans: "ext s1 s2 \<Longrightarrow> ext s2 s3 \<Longrightarrow> ext s1 s3"
  unfolding ext_def by (meson R_trans)

lemma ext_runs: "runs s' = runs s \<Longrightarrow> ext s s'"
  by (auto simp: ext_def get_run_def intro: R_refl)

lemma ext_put: "get_run s rid = Some r \<Longrightarrow> R r r' \<Longrightarrow> ext s (put_run rid r' s)"
  by (auto simp: ext_def get_run_def put_run_def store_simps intro: R_refl)

lemma ext_put_fresh: "get_run s rid = None \<Longrightarrow> ext s (put_run rid r' s)"
  by (auto simp: ext_def get_run_def put_run_def store_simps intro: R_refl)

lemma keepsD: "keeps m \<Longrightarrow> m s = (res, s') \<Longrightarrow> ext s s'"
  by (metis keeps_def snd_conv)

lemma keeps_quiet: "quiet m \<Longrightarrow> keeps m"
  by (simp add: keeps_def quiet_def ext_runs)

lemma keeps_bind: "keeps m \<Longrightarrow> (\<And>x. keeps (f x)) \<Longrightarrow> keeps (fr_bind m f)"
  unfolding keeps_def fr_bind_def
  by (auto split: prod.split sum.split) (metis snd_conv, metis ext_trans snd_conv)

lemma keeps_get_run:
  assumes "\<And>r s. get_run s rid = Some r \<Longrightarrow> ext s (snd (f r s))"
  shows "keeps (\<lambda>s. case get_run s rid of None \<Rightarrow> (x, s) | Some r \<Rightarrow> f r s)"
  using assms by (auto simp: keeps_def split: option.split)

lemma keeps_each: "(\<And>x. x \<in> set xs \<Longrightarrow> keeps (f x)) \<Longrightarrow> keeps (fr_each f xs)"
proof (induction xs)
  case (Cons x xs)
  then show ?case unfolding fr_each.simps by (intro keeps_bind) auto
qed (auto intro: keeps_quiet)

lemma keeps_collect: "(\<And>x. x \<in> set xs \<Longrightarrow> keeps (f x)) \<Longrightarrow> keeps (fr_collect f xs)"
proof (induction xs)
  case (Cons x xs)
  then show ?case unfolding fr_collect.simps by (intro keeps_bind) (auto intro: keeps_quiet)
qed (auto intro: keeps_quiet)

text \<open>A write of the run at hand, followed by operations that leave the runs alone.\<close>

lemma ext_put_quiet: "get_run s rid = Some r \<Longrightarrow> R r r' \<Longrightarrow> quiet m \<Longrightarrow> ext s (snd (m (put_run rid r' s)))"
  by (rule ext_trans [OF ext_put]) (auto simp: quiet_def intro: ext_runs)

lemma keeps_mark_unchecked: "free n p st \<Longrightarrow> keeps (mark_port_status_unchecked E rid n p st)"
  unfolding mark_port_status_unchecked_def
  by (rule keeps_get_run) (auto simp: R_free intro: ext_put_quiet)

lemma keeps_record_invocation: "keeps (record_invocation E rid n trg)"
proof -
  have "keeps (\<lambda>s. case get_run s rid of None \<Rightarrow> (Inl (RunNotFound rid), s)
    | Some r \<Rightarrow> fr_bind (fr_tick (env_secs E)) (\<lambda>now s1.
        let r1 = push_invocation n \<lparr>invocation_id = iid, inv_trigger = trg, inv_started_at = now\<rparr> r
        in fr_bind (persist_run E r1) (\<lambda>_. fr_return iid) (put_run rid r1 s1)) s)" for iid
  proof (rule keeps_get_run)
    fix r and s :: "'a flow_runtime"
    assume s: "get_run s rid = Some r"
    let ?s = "s\<lparr>ticks := Suc (ticks s)\<rparr>"
      and ?r = "push_invocation n \<lparr>invocation_id = iid, inv_trigger = trg, inv_started_at = env_secs E (ticks s)\<rparr> r"
    have "get_run ?s rid = Some r" using s by (simp add: get_run_def)
    moreover have "quiet (fr_bind (persist_run E ?r) (\<lambda>_. fr_return iid))" by (intro quiet_bind) auto
    ultimately have "ext ?s (snd (fr_bind (persist_run E ?r) (\<lambda>_. fr_return iid) (put_run rid ?r ?s)))"
      by (intro ext_put_quiet [OF _ R_invocation])
    moreover have "ext s ?s" by (simp add: ext_runs)
    ultimately show "ext s (snd (fr_bind (fr_tick (env_secs E)) (\<lambda>now s1.
        let r1 = push_invocation n \<lparr>invocation_id = iid, inv_trigger = trg, inv_started_at = now\<rparr> r
        in fr_bind (persist_run E r1) (\<lambda>_. fr_return iid) (put_run rid r1 s1)) s))"
      by (simp add: Let_def flow_simps) (rule ext_trans)
  qed
  note step = this
  show ?thesis unfolding record_invocation_def
  proof (rule keeps_bind)
    show "keeps (fr_tick (env_uuid E))" by (rule keeps_quiet) (rule quiet_tick)
    show "keeps (\<lambda>s. let iid = ''inv-'' @ uuid_simple u in
        (case get_run s rid of None \<Rightarrow> (Inl (RunNotFound rid), s)
         | Some r \<Rightarrow> fr_bind (fr_tick (env_secs E)) (\<lambda>now s1.
             let r1 = push_invocation n \<lparr>invocation_id = iid, inv_trigger = trg, inv_started_at = now\<rparr> r
             in fr_bind (persist_run E r1) (\<lambda>_. fr_return iid) (put_run rid r1 s1)) s))" for u
      using step [of "''inv-'' @ uuid_simple u"] by (simp only: Let_def)
  qed
qed

lemma keeps_schedule: "keeps (schedule_node_with_context E rid n trg flow)"
  unfolding schedule_node_with_context_def
  by (intro keeps_bind keeps_record_invocation) (auto intro: keeps_quiet)

definition human_free :: "flow_definition \<Rightarrow> bool" where
  "human_free flow \<longleftrightarrow> (\<forall>n nd p. fnode flow n = Some nd \<and> fnode_owner nd = ''human'' \<longrightarrow> free n p AwaitingOwner)"

lemma keeps_activate_node:
  assumes "human_free flow"
  shows "keeps (activate_node E rid flow x)"
proof -
  obtain n trg where x: "x = (n, trg)" by force
  have "keeps (await_owner E rid n nd)" if "fnode flow n = Some nd" "fnode_owner nd = ''human''" for nd
    using assms that unfolding await_owner_def human_free_def
    by (intro keeps_bind keeps_each keeps_mark_unchecked) (auto intro: keeps_quiet)
  then show ?thesis unfolding x activate_node_def
    by (auto intro!: keeps_bind keeps_schedule intro: keeps_quiet split: option.split)
qed

lemma keeps_fire_and_join:
  assumes "human_free flow"
  shows "keeps (fire_and_join_for E n port rid flow g)"
proof -
  have "keeps (fr_bind (activation_pass E trg cs r g) (fr_collect (activate_node E rid flow)))" for trg cs r
    using assms by (intro keeps_bind keeps_collect keeps_activate_node) (auto intro: keeps_quiet)
  then show ?thesis unfolding fire_and_join_for_def by (auto simp: keeps_def split: option.split)
qed

lemma keeps_implicit_reinvoke: "keeps (implicit_reinvoke E rid n port flow)"
proof -
  have "keeps (fr_bind (schedule_node_with_context E rid n trg flow) (\<lambda>ctx. fr_return (opt_list ctx)))" for trg
    by (intro keeps_bind keeps_schedule) (auto intro: keeps_quiet)
  then show ?thesis unfolding implicit_reinvoke_def by (auto simp: keeps_def split: option.split)
qed

end

text \<open>
  What the other operations add; their writes of a port status never replace \<open>Approved\<close> unless
  they are free.
\<close>

locale run_steps = node_steps +
  assumes R_touch: "R r (touch_node n r)"
    and R_guarded: "port_of r n p \<noteq> Approved \<or> st = Approved \<Longrightarrow> R r (set_port n p st r)"
    and R_cycles: "R r (bump_cycles n p r)"
    and R_blackboard: "R r (put_blackboard k e r)"
    and R_verdict: "R r (push_verdict k who v r)"
    and R_session: "R r (r\<lparr>originating_session_id := sid\<rparr>)"
    and R_end: "\<not> flow_is_terminal (frs_status r) \<Longrightarrow> R r (end_run fin why now r)"
begin

lemma keeps_mark_port_status: "keeps (mark_port_status E rid n p st)"
  unfolding mark_port_status_def
  by (rule keeps_get_run) (auto simp: Let_def R_touch R_guarded intro: ext_put ext_put_quiet)

lemma keeps_increment_port_cycles: "keeps (increment_port_cycles E rid n p)"
  unfolding increment_port_cycles_def Let_def
  by (rule keeps_get_run) (auto simp: R_cycles intro!: ext_put_quiet)

lemma ext_write_blackboard_entry: "ext s (write_blackboard_entry rid k d wr s)"
  by (auto simp: write_blackboard_entry_def R_blackboard intro: ext_put split: option.split)

lemma ext_approve_blackboard: "ext s (approve_blackboard rid n port flow s)"
  by (auto simp: approve_blackboard_def ext_write_blackboard_entry split: option.split)

lemma ext_register_chat_session: "ext s (register_chat_session rid sid s)"
proof -
  let ?s = "s\<lparr>chat_sessions := (chat_sessions s)(rid \<mapsto> sid)\<rparr>"
  have "ext s ?s" by (simp add: ext_runs)
  moreover have "ext ?s (put_run rid (r\<lparr>originating_session_id := Some sid\<rparr>) ?s)"
    if "get_run ?s rid = Some r" for r
    using that R_session by (rule ext_put)
  ultimately show ?thesis
    by (auto simp: register_chat_session_def Let_def intro: ext_trans split: option.split)
qed

lemma keeps_transition: "keeps (flow_transition_run E rid st why)"
  unfolding flow_transition_run_def
proof (rule keeps_get_run)
  fix r and s :: "'a flow_runtime"
  assume s: "get_run s rid = Some r"
  let ?w = "\<lambda>now s1. let r1 = end_run st why now r
    in fr_bind (persist_run E r1) (\<lambda>_. fr_bind (trace_op E rid (transition_kind st) (\<lambda>e. e)) (\<lambda>_.
         emit_op ''flow.run.changed'' rid)) (put_run rid r1 s1)"
  have w: "ext s1 (snd (?w now s1))" if "get_run s1 rid = Some r" "\<not> flow_is_terminal (frs_status r)" for now s1
    unfolding Let_def by (rule ext_put_quiet [OF that(1) R_end [OF that(2)]]) (intro quiet_bind; simp)
  have "ext s (snd (fr_bind (if flow_is_terminal st then fr_tick (env_secs E) else fr_return []) ?w s))"
    if nt: "\<not> flow_is_terminal (frs_status r)"
  proof (cases "flow_is_terminal st")
    case True
    have "ext s (s\<lparr>ticks := Suc (ticks s)\<rparr>)" by (simp add: ext_runs)
    with w [OF _ nt, of "s\<lparr>ticks := Suc (ticks s)\<rparr>" "env_secs E (ticks s)"] s True show ?thesis
      by (simp add: get_run_def flow_simps) (rule ext_trans)
  next
    case False
    with w [OF s nt] show ?thesis by (simp add: flow_simps)
  qed
  then show "ext s (snd (if flow_is_terminal (frs_status r) then (Inr (), s)
      else fr_bind (if flow_is_terminal st then fr_tick (env_secs E) else fr_return []) ?w s))"
    by simp
qed

lemma keeps_approve_tail:
  assumes "human_free flow"
  shows "keeps (approve_tail E rid n port flow)"
proof -
  have "keeps (\<lambda>s1. (Inr (), approve_blackboard rid n port flow s1))"
    by (simp add: keeps_def ext_approve_blackboard)
  with assms show ?thesis unfolding approve_tail_def retrigger_node_def
    by (intro keeps_bind keeps_fire_and_join keeps_collect keeps_activate_node keeps_implicit_reinvoke)
      (auto intro: keeps_quiet)
qed

lemma keeps_on_document_approved:
  assumes "human_free flow"
  shows "keeps (on_document_approved E rid n port flow)"
proof -
  have "keeps (fr_bind (mark_port_status E rid n port Approved) (\<lambda>_. approve_tail E rid n port flow))"
    using assms by (intro keeps_bind keeps_mark_port_status keeps_approve_tail)
  then show ?thesis unfolding on_document_approved_def by (simp add: keeps_def)
qed

lemma keeps_on_rejected_requeue:
  assumes "free n port PortPending"
  shows "keeps (on_rejected_requeue E rid n port flow)"
  unfolding on_rejected_requeue_def using assms
  by (intro keeps_bind keeps_mark_unchecked keeps_schedule) (auto intro: keeps_quiet)

lemma keeps_check_cycle_limit: "keeps (check_cycle_limit E rid n port flow)"
  unfolding check_cycle_limit_def
  by (auto intro!: keeps_bind keeps_increment_port_cycles intro: keeps_quiet split: option.split)

lemma keeps_on_document_submitted:
  assumes "human_free flow"
  shows "keeps (on_document_submitted E rid n port flow sha rno)"
proof -
  have "quiet (\<lambda>s. (Inr (case get_run s rid of None \<Rightarrow> [] | Some _ \<Rightarrow> spec_path rid port), s))"
    by (simp add: quiet_def)
  with assms show ?thesis unfolding on_document_submitted_def
    by (intro keeps_bind keeps_check_cycle_limit)
      (auto intro!: keeps_bind keeps_mark_port_status keeps_on_document_approved intro: keeps_quiet split: option.split)
qed

lemma keeps_on_reviewer_verdict:
  assumes "human_free flow" and "free n port PortPending"
  shows "keeps (on_reviewer_verdict E rid n port who v cs flow)"
proof -
  let ?tally = "\<lambda>vs. fr_bind (persist_or_warn E rid) (\<lambda>_.
      if any_rejected vs
      then fr_bind (on_rejected_requeue E rid n port flow) (\<lambda>ctx. fr_return (Some (opt_list ctx)))
      else if all_approved flow n port vs \<and> ''human'' \<notin> set (reviewers_of flow n port)
      then fr_bind (on_document_approved E rid n port flow) (\<lambda>ctxs. fr_return (Some ctxs))
      else if all_approved flow n port vs
      then fr_bind (emit_op ''flow.run.changed'' rid) (\<lambda>_. fr_return (Some [human_pending n port None]))
      else fr_return None)"
  have tally: "keeps (?tally vs)" for vs
    by (intro keeps_bind)
      (auto intro!: keeps_bind keeps_on_rejected_requeue keeps_on_document_approved assms intro: keeps_quiet)
  have "keeps (\<lambda>s1. case get_run s1 rid of None \<Rightarrow> (Inl (RunNotInMap rid), s1)
    | Some r \<Rightarrow> let r1 = push_verdict (verdict_key rid n port) who v r; vs = verdicts_of r1 (verdict_key rid n port)
        in ?tally vs (put_run rid r1 s1))"
    unfolding Let_def
    by (rule keeps_get_run) (rule ext_trans [OF ext_put tally [unfolded keeps_def, rule_format]], assumption, rule R_verdict)
  then have "keeps (fr_bind (if cs = [] then fr_return () else write_review_comments E fid rid port who cs)
      (\<lambda>_ s1. case get_run s1 rid of None \<Rightarrow> (Inl (RunNotInMap rid), s1)
    | Some r \<Rightarrow> let r1 = push_verdict (verdict_key rid n port) who v r; vs = verdicts_of r1 (verdict_key rid n port)
        in ?tally vs (put_run rid r1 s1)))" for fid
    by (intro keeps_bind) (auto intro: keeps_quiet)
  then show ?thesis unfolding on_reviewer_verdict_def
    by (intro keeps_get_run) (simp add: keeps_def)
qed

lemma keeps_apply_seeds:
  assumes "human_free flow" and "\<And>n p. free n p Seeded"
  shows "keeps (apply_seeds E rid flow g seeds)"
proof (induction seeds)
  case (Cons sd seeds)
  obtain key e where sd: "sd = (key, e)" by force
  have "keeps (\<lambda>s. (Inr (), write_blackboard_entry rid key (be_doc e) (be_written_by e) s))"
    by (simp add: keeps_def ext_write_blackboard_entry)
  with Cons show ?case unfolding sd apply_seeds.simps
    by (intro keeps_bind) (auto intro!: keeps_bind keeps_mark_unchecked keeps_fire_and_join assms intro: keeps_quiet split: option.split)
qed (auto intro: keeps_quiet)

lemma keeps_apply_seeded_entries:
  assumes "human_free flow" and "\<And>n p. free n p Seeded"
  shows "keeps (apply_seeded_entries E rid flow seeds)"
  unfolding apply_seeded_entries_def using assms by (intro keeps_bind keeps_apply_seeds) (auto intro: keeps_quiet)

text \<open>Starting a run adds one under the identifier it draws.\<close>

lemma ext_flow_start_run:
  assumes "human_free flow" and fresh: "get_run s (''run-'' @ uuid_simple (env_uuid E (ticks s))) = None"
  shows "ext s (snd (flow_start_run E flow inp s))"
proof -
  let ?rid = "''run-'' @ uuid_simple (env_uuid E (ticks s))"
  let ?r = "set_port ''__chat__'' ''initial-brief'' Approved
    (new_flow_run_state (env_secs E (Suc (ticks s))) ?rid (flow_name flow) inp)"
  let ?s = "s\<lparr>ticks := Suc (Suc (ticks s))\<rparr>"
  let ?reg = "\<lambda>ts s2. (Inr () :: 'c flow_error + unit, fr_emit ''flow.run.changed'' ?rid (put_run ?rid ?r
      (s2\<lparr>trace_writers := (trace_writers s2)(?rid \<mapsto> [(trace_now ts RunStarted)\<lparr>te_run_id := ?rid\<rparr>])\<rparr>)))"
  let ?rest = "\<lambda>ts. fr_bind (?reg ts) (\<lambda>_. fr_bind (fr_lift (flow_graph_of flow)) (\<lambda>g.
      fr_bind (fire_and_join_for E ''__chat__'' ''initial-brief'' ?rid flow g) (\<lambda>ctxs. fr_return (?rid, ctxs))))"
  have reg: "ext s2 (snd (?reg ts s2))" if "get_run s2 ?rid = None" for ts s2
    by (rule ext_trans [OF ext_put_fresh [OF that]], rule ext_runs) (simp add: put_run_def)
  have tail: "keeps (fr_bind (fr_lift (flow_graph_of flow)) (\<lambda>g.
      fr_bind (fire_and_join_for E ''__chat__'' ''initial-brief'' ?rid flow g) (\<lambda>ctxs. fr_return (?rid, ctxs))))"
    using assms(1) by (intro keeps_bind keeps_fire_and_join) (auto intro: keeps_quiet)
  have rest: "ext s2 (snd (?rest ts s2))" if "get_run s2 ?rid = None" for ts s2
    using ext_trans [OF reg [OF that] tail [unfolded keeps_def, rule_format]] by (simp add: fr_bind_def)
  have "ext ?s (snd (fr_bind (persist_run E ?r) (\<lambda>_. fr_bind (fr_tick (env_ms E)) ?rest) ?s))"
  proof (cases "persist_run E ?r ?s")
    case (Pair res s2)
    then have runs: "runs s2 = runs s" using quietD [OF quiet_persist_run] by fastforce
    show ?thesis
    proof (cases res)
      case (Inl e)
      with Pair runs show ?thesis by (simp add: ext_runs)
    next
      case (Inr x)
      let ?s3 = "s2\<lparr>ticks := Suc (ticks s2)\<rparr>"
      have "get_run ?s3 ?rid = None" using fresh runs by (simp add: get_run_def)
      note rest [OF this, of "env_ms E (ticks s2)"]
      moreover have "ext ?s ?s3" by (rule ext_runs) (use runs in simp)
      ultimately have "ext ?s (snd (?rest (env_ms E (ticks s2)) ?s3))" by (blast intro: ext_trans)
      then show ?thesis
        by (simp only: fr_bind_Inr [where m = "persist_run E ?r", OF Pair [unfolded Inr]]
            fr_bind_Inr [where m = "fr_tick f" for f, OF fr_tick_apply])
    qed
  qed
  moreover have "ext s ?s" by (simp add: ext_runs)
  moreover have "flow_start_run E flow inp s =
      fr_bind (persist_run E ?r) (\<lambda>_. fr_bind (fr_tick (env_ms E)) ?rest) ?s"
    by (simp only: flow_start_run_def fr_bind_Inr [where m = "fr_tick f" for f, OF fr_tick_apply] Let_def ticks_updates)
  ultimately show ?thesis by (metis ext_trans)
qed

end

end
