(* ===== verification/FlowHistory.thy ===== *)
theory FlowHistory
  imports FlowSteps
begin

text \<open>
  Sequences of operations on the flow runtime, and the relations between the states of a run
  before and after any of them: what only grows, what a terminal status freezes, and approved
  ports of nodes that no human owns.
\<close>

section \<open>Commands\<close>

text \<open>The public operations, with their arguments.\<close>

datatype flow_cmd =
  CmdStart flow_definition string
| CmdCancel string
| CmdComplete string
| CmdFail string string
| CmdSubmit string string string flow_definition string u32
| CmdApprove string string string flow_definition
| CmdReject string string string flow_definition
| CmdVerdict string string string string review_verdict "review_comment list" flow_definition
| CmdSchedule string string invocation_trigger flow_definition
| CmdSeed string flow_definition "(string \<times> blackboard_entry) list"
| CmdBlackboard string string available_doc blackboard_writer
| CmdMark string string string port_status
| CmdRecord string string invocation_trigger
| CmdBump string string string
| CmdComments string string string string "review_comment list"
| CmdRegister string string
| CmdEmitter

fun flow_exec :: "('io, 'b) flow_env \<Rightarrow> flow_cmd \<Rightarrow> 'b flow_runtime \<Rightarrow> 'b flow_runtime" where
  "flow_exec E (CmdStart flow inp) s = snd (flow_start_run E flow inp s)"
| "flow_exec E (CmdCancel rid) s = snd (flow_cancel_run E rid s)"
| "flow_exec E (CmdComplete rid) s = snd (flow_complete_run E rid s)"
| "flow_exec E (CmdFail rid why) s = snd (flow_fail_run E rid why s)"
| "flow_exec E (CmdSubmit rid n p flow sha rno) s = snd (on_document_submitted E rid n p flow sha rno s)"
| "flow_exec E (CmdApprove rid n p flow) s = snd (on_document_approved E rid n p flow s)"
| "flow_exec E (CmdReject rid n p flow) s = snd (on_rejected_requeue E rid n p flow s)"
| "flow_exec E (CmdVerdict rid n p who v cs flow) s = snd (on_reviewer_verdict E rid n p who v cs flow s)"
| "flow_exec E (CmdSchedule rid n trg flow) s = snd (schedule_node_with_context E rid n trg flow s)"
| "flow_exec E (CmdSeed rid flow seeds) s = snd (apply_seeded_entries E rid flow seeds s)"
| "flow_exec E (CmdBlackboard rid k d wr) s = write_blackboard_entry rid k d wr s"
| "flow_exec E (CmdMark rid n p st) s = snd (mark_port_status E rid n p st s)"
| "flow_exec E (CmdRecord rid n trg) s = snd (record_invocation E rid n trg s)"
| "flow_exec E (CmdBump rid n p) s = snd (increment_port_cycles E rid n p s)"
| "flow_exec E (CmdComments fid rid p who cs) s = snd (write_review_comments E fid rid p who cs s)"
| "flow_exec E (CmdRegister rid sid) s = register_chat_session rid sid s"
| "flow_exec E CmdEmitter s = set_event_emitter s"

text \<open>A start draws an identifier that is not in use.\<close>

fun cmd_fresh :: "('io, 'b) flow_env \<Rightarrow> 'b flow_runtime \<Rightarrow> flow_cmd \<Rightarrow> bool" where
  "cmd_fresh E s (CmdStart flow inp) = (get_run s (''run-'' @ uuid_simple (env_uuid E (ticks s))) = None)"
| "cmd_fresh E s _ = True"

text \<open>The commands that succeed each other, every one in the environment at its tick.\<close>

inductive flow_steps :: "('io, 'b) flow_env \<Rightarrow> 'b flow_runtime \<Rightarrow> 'b flow_runtime \<Rightarrow> bool" for E where
  flow_refl: "flow_steps E s s"
| flow_step: "flow_steps E s s1 \<Longrightarrow> cmd_fresh E s1 cmd \<Longrightarrow> flow_steps E s (flow_exec E cmd s1)"

fun flow_execs :: "('io, 'b) flow_env \<Rightarrow> flow_cmd list \<Rightarrow> 'b flow_runtime \<Rightarrow> 'b flow_runtime" where
  "flow_execs E [] s = s"
| "flow_execs E (c # cs) s = flow_execs E cs (flow_exec E c s)"

fun all_fresh_cmds :: "('io, 'b) flow_env \<Rightarrow> flow_cmd list \<Rightarrow> 'b flow_runtime \<Rightarrow> bool" where
  "all_fresh_cmds E [] s = True"
| "all_fresh_cmds E (c # cs) s = (cmd_fresh E s c \<and> all_fresh_cmds E cs (flow_exec E c s))"

lemma flow_steps_execs:
  assumes "all_fresh_cmds E cs s1" and "flow_steps E s s1"
  shows "flow_steps E s (flow_execs E cs s1)"
  using assms by (induction cs arbitrary: s1) (auto intro: flow_step)

context run_steps
begin

lemma ext_exec:
  assumes free: "\<And>n p st. free n p st" and "cmd_fresh E s cmd"
  shows "ext s (flow_exec E cmd s)"
proof -
  have human: "human_free flow" for flow by (simp add: human_free_def free)
  note ops = keeps_transition keeps_on_document_submitted [OF human] keeps_on_document_approved [OF human]
    keeps_on_rejected_requeue [OF free] keeps_on_reviewer_verdict [OF human free] keeps_schedule
    keeps_apply_seeded_entries [OF human free] keeps_mark_port_status keeps_record_invocation
    keeps_increment_port_cycles keeps_quiet [OF quiet_write_review_comments]
  show ?thesis
    by (cases cmd) (use assms(2) in \<open>simp_all add: ops [unfolded keeps_def, rule_format]
      flow_cancel_run_def flow_complete_run_def flow_fail_run_def ext_write_blackboard_entry
      ext_register_chat_session ext_flow_start_run [OF human] set_event_emitter_def ext_runs\<close>)
qed

lemma ext_steps:
  assumes "\<And>n p st. free n p st" and "flow_steps E s s'"
  shows "ext s s'"
  using assms(2) by (induction rule: flow_steps.induct) (auto intro: ext_trans ext_exec [OF assms(1)])

lemma run_steps:
  assumes "\<And>n p st. free n p st" and "flow_steps E s s'" and "get_run s rid = Some r"
  shows "\<exists>r'. get_run s' rid = Some r' \<and> R r r'"
  using ext_steps [OF assms(1,2)] assms(3) by (simp add: ext_def)

end

section \<open>What only grows\<close>

definition invocations_of :: "flow_run_state \<Rightarrow> string \<Rightarrow> invocation_record list" where
  "invocations_of r n = (case node_states r n of None \<Rightarrow> [] | Some ns \<Rightarrow> invocations ns)"

text \<open>
  Identity and the document list never change, invocations and verdicts are only appended to,
  blackboard keys stay, and a terminal status is final.
\<close>

definition run_grows :: "flow_run_state \<Rightarrow> flow_run_state \<Rightarrow> bool" where
  "run_grows r r' \<longleftrightarrow>
     (frs_run_id r', frs_flow_id r', frs_started_at r', initial_input r', nodes_in_flight r') =
       (frs_run_id r, frs_flow_id r, frs_started_at r, initial_input r, nodes_in_flight r) \<and>
     documents r' = documents r \<and>
     (\<forall>n. prefix (invocations_of r n) (invocations_of r' n)) \<and>
     (\<forall>k. prefix (verdicts_of r k) (verdicts_of r' k)) \<and>
     dom (blackboard r) \<subseteq> dom (blackboard r') \<and>
     (flow_is_terminal (frs_status r) \<longrightarrow> (frs_status r', frs_ended_at r', frs_failure_reason r') =
       (frs_status r, frs_ended_at r, frs_failure_reason r))"

lemma invocations_of_upd:
  "invocations_of (r\<lparr>node_states := upd_default n default_node_run_state f (node_states r)\<rparr>) m =
     (if m = n then invocations (f (case node_states r n of None \<Rightarrow> default_node_run_state | Some ns \<Rightarrow> ns))
      else invocations_of r m)"
  by (simp add: invocations_of_def store_simps)

lemma invocations_of_default:
  "invocations_of r n = invocations (case node_states r n of None \<Rightarrow> default_node_run_state | Some ns \<Rightarrow> ns)"
  by (simp add: invocations_of_def default_node_run_state_def split: option.split)

lemma grows_node:
  assumes "\<And>ns. prefix (invocations ns) (invocations (f ns))"
  shows "run_grows r (r\<lparr>node_states := upd_default n default_node_run_state f (node_states r)\<rparr>)"
proof -
  have "prefix (invocations_of r m) (invocations_of
      (r\<lparr>node_states := upd_default n default_node_run_state f (node_states r)\<rparr>) m)" for m
    using assms by (cases "m = n") (simp_all add: invocations_of_upd invocations_of_default [of r n])
  then show ?thesis by (simp add: run_grows_def verdicts_of_def)
qed

lemma run_grows_trans:
  assumes "run_grows r1 r2" and "run_grows r2 r3"
  shows "run_grows r1 r3"
proof -
  note d = assms [unfolded run_grows_def prod.inject]
  have "prefix (invocations_of r1 n) (invocations_of r3 n)" for n
    using d by (elim conjE) (blast intro: prefix_order.trans)
  moreover have "prefix (verdicts_of r1 k) (verdicts_of r3 k)" for k
    using d by (elim conjE) (blast intro: prefix_order.trans)
  moreover have "dom (blackboard r1) \<subseteq> dom (blackboard r3)"
    using d by (elim conjE) (rule subset_trans)
  ultimately show ?thesis using d unfolding run_grows_def prod.inject by (elim conjE) (intro conjI allI impI; simp)
qed

interpretation grows: run_steps run_grows "\<lambda>_ _ _. True"
proof
  show "run_grows r1 r3" if "run_grows r1 r2" "run_grows r2 r3" for r1 r2 r3
    using that by (rule run_grows_trans)
  show "run_grows r (set_port n p st r)" for r n p st
    unfolding set_port_def by (rule grows_node) simp
  then show "run_grows r (set_port n p st r)" for r n p st .
  show "run_grows r (push_invocation n i r)" for r n i
    unfolding push_invocation_def by (rule grows_node) simp
  show "run_grows r (touch_node n r)" for r n
    unfolding touch_node_def by (rule grows_node) simp
  show "run_grows r (bump_cycles n p r)" for r n p
    unfolding bump_cycles_def by (rule grows_node) simp
  show "run_grows r (push_verdict k who v r)" for r k who v
    by (auto simp: run_grows_def push_verdict_def verdicts_of_def invocations_of_def)
qed (auto simp: run_grows_def put_blackboard_def end_run_def invocations_of_def verdicts_of_def)

section \<open>Approved ports\<close>

lemma port_of_upd:
  "port_of (r\<lparr>node_states := upd_default n default_node_run_state f (node_states r)\<rparr>) m q =
     (if m = n then port_or_default (map_of (ports (f (case node_states r n of
        None \<Rightarrow> default_node_run_state | Some ns \<Rightarrow> ns))) q) else port_of r m q)"
  by (simp add: port_of_def store_simps)

lemma port_of_default:
  "port_of r n q = port_or_default (map_of (ports (case node_states r n of
     None \<Rightarrow> default_node_run_state | Some ns \<Rightarrow> ns)) q)"
  by (simp add: port_of_def default_node_run_state_def split: option.split)

lemma port_of_set_port [flow_simps]: "port_of (set_port n p st r) m q = (if m = n \<and> q = p then st else port_of r m q)"
  by (simp add: set_port_def port_of_upd port_of_default [of r n] store_simps port_or_default_def)

lemma port_of_same [flow_simps]:
  "port_of (touch_node n r) m q = port_of r m q"
  "port_of (push_invocation n i r) m q = port_of r m q"
  "port_of (bump_cycles n p r) m q = port_of r m q"
  "port_of (put_blackboard k e r) m q = port_of r m q"
  "port_of (push_verdict k who v r) m q = port_of r m q"
  "port_of (end_run fin why now r) m q = port_of r m q"
  "port_of (r\<lparr>originating_session_id := sid\<rparr>) m q = port_of r m q"
proof -
  show "port_of (touch_node n r) m q = port_of r m q"
    by (simp add: touch_node_def port_of_upd port_of_default [of r n])
  show "port_of (push_invocation n i r) m q = port_of r m q"
    by (simp add: push_invocation_def port_of_upd port_of_default [of r n])
  show "port_of (bump_cycles n p r) m q = port_of r m q"
    by (simp add: bump_cycles_def port_of_upd port_of_default [of r n])
qed (simp_all add: put_blackboard_def push_verdict_def end_run_def port_of_def)

text \<open>Activations leave the ports of every node alone that is not the one activated.\<close>

interpretation ports_of: node_steps "\<lambda>r r'. \<forall>p. port_of r' m p = port_of r m p" "\<lambda>n p st. n \<noteq> m" for m
  by unfold_locales (simp_all add: flow_simps)

text \<open>An approved port stays approved as long as its node is not reset from outside.\<close>

interpretation approved: run_steps "\<lambda>r r'. port_of r m p = Approved \<longrightarrow> port_of r' m p = Approved"
  "\<lambda>n q st. n \<noteq> m" for m p
  by unfold_locales (auto simp: flow_simps)

end
