(* ===== verification/FlowEffects.thy ===== *)
theory FlowEffects
  imports FlowHistory
begin

text \<open>
  What the operations of the flow runtime return and leave behind when the file system answers
  (\<open>healthy\<close>): scheduling, activation, the reviews file and its comments.
\<close>

section \<open>A working environment\<close>

definition healthy :: "('io, 'b) flow_env \<Rightarrow> bool" where
  "healthy E \<longleftrightarrow> (\<forall>t. env_mkdir E t = None \<and> env_write E t = None \<and> env_rename E t = None \<and> env_read E t) \<and>
     (\<forall>r. \<exists>bytes. env_enc E r = Inr bytes) \<and> (\<forall>j. \<exists>bytes. env_json_enc E j = Inr bytes)"

lemma healthyD:
  assumes "healthy E"
  shows "env_mkdir E t = None" and "env_write E t = None" and "env_rename E t = None" and "env_read E t"
    and "\<exists>bytes. env_enc E r = Inr bytes" and "\<exists>bytes. env_json_enc E j = Inr bytes"
  using assms by (auto simp: healthy_def)

text \<open>An operation that returns.\<close>

definition returns :: "('io, 'b, 'a) flow_op \<Rightarrow> bool" where
  "returns m \<longleftrightarrow> (\<forall>s. \<exists>x s'. m s = (Inr x, s'))"

lemma returnsD: "returns m \<Longrightarrow> \<exists>x s'. m s = (Inr x, s')"
  by (simp add: returns_def)

lemma returns_bind: "returns m \<Longrightarrow> (\<And>x. returns (f x)) \<Longrightarrow> returns (fr_bind m f)"
  unfolding returns_def by (metis fr_bind_Inr)

lemma returns_basic:
  "returns (fr_return x)" "returns (fr_tick g)" "returns (emit_op ev rid)" "returns (fr_lift (Inr x))"
  by (simp_all add: returns_def flow_simps)

lemma returns_write_file:
  assumes "healthy E"
  shows "returns (write_file E p bytes)"
  unfolding write_file_def returns_def
  by (simp add: fr_bind_Inr [OF fr_tick_apply] healthyD(2) [OF assms])

lemma returns_create_dir_all: "healthy E \<Longrightarrow> returns (create_dir_all E)"
  unfolding create_dir_all_def returns_def
  by (simp add: fr_bind_Inr [OF fr_tick_apply] healthyD flow_simps)

lemma returns_persist_run:
  assumes "healthy E"
  shows "returns (persist_run E r)"
proof -
  obtain bytes where "env_enc E r = Inr bytes" using healthyD(5) [OF assms] by blast
  then show ?thesis unfolding persist_run_def
    by (intro returns_bind returns_create_dir_all) (simp_all add: assms returns_write_file)
qed

lemma returns_trace_op: "returns (trace_op E rid k f)"
  by (auto simp: returns_def trace_op_def fr_bind_Inr [OF fr_tick_apply] split: option.split)

lemma returns_read_reviews: "returns (read_reviews E p)"
  by (auto simp: returns_def read_reviews_def flow_simps split: option.split)

lemma returns_read_review_comments: "returns (read_review_comments E fid rid port)"
  unfolding read_review_comments_def by (intro returns_bind returns_read_reviews returns_basic)

section \<open>Scheduling and activating\<close>

text \<open>What an operation keeps of the run it is about: its existence, and the ports it may not touch.\<close>

definition same_ports :: "string \<Rightarrow> string \<Rightarrow> 'b flow_runtime \<Rightarrow> 'b flow_runtime \<Rightarrow> bool" where
  "same_ports rid m s s' \<longleftrightarrow> (\<forall>r. get_run s rid = Some r \<longrightarrow>
     (\<exists>r'. get_run s' rid = Some r' \<and> (\<forall>p. port_of r' m p = port_of r m p)))"

lemma build_context_returns:
  assumes "get_run s rid = Some r" and "fnode flow n = Some nd"
  shows "\<exists>ctx s'. build_invocation_context E rid n trg flow s = (Inr (Some ctx), s') \<and> runs s' = runs s \<and>
    ctx_node_id ctx = n \<and> ctx_owner ctx = fnode_owner nd \<and> ctx_trigger ctx = trg \<and>
    available_docs ctx = docs_for r nd \<and>
    pending_ports ctx = pending_ports_for flow n (ports_with (\<lambda>st. st = Approved \<or> st = Seeded) r n)"
proof -
  define read where "read = (case (if trig_kind trg = ''rejected_requeue'' then approved_port trg else None) of
      None \<Rightarrow> fr_return None
    | Some port \<Rightarrow> fr_bind (read_review_comments E (frs_flow_id r) rid port)
        (\<lambda>cs. fr_return (Some cs)))"
  have "returns read"
    unfolding read_def by (auto intro!: returns_bind returns_read_review_comments returns_basic split: option.split)
  then obtain rcs s' where rcs: "read s = (Inr rcs, s')" using returnsD by blast
  have "quiet read" unfolding read_def by (auto intro!: quiet_bind split: option.split)
  then have "runs s' = runs s" using rcs by (rule quietD)
  with assms rcs show ?thesis
    by (simp add: build_invocation_context_def read_def [symmetric] fr_return_apply ctx_build_with_feedback_def)
qed

lemma record_invocation_returns:
  assumes "healthy E" and "get_run s rid = Some r"
  shows "\<exists>iid s'. record_invocation E rid n trg s = (Inr iid, s')"
proof -
  show ?thesis using assms(2)
    by (simp add: record_invocation_def fr_bind_Inr [OF fr_tick_apply] get_run_def Let_def)
      (intro returnsD returns_bind returns_persist_run returns_basic assms(1))
qed

lemma schedule_returns:
  assumes "healthy E" and "get_run s rid = Some r" and "fnode flow n = Some nd"
  shows "\<exists>ctx s'. schedule_node_with_context E rid n trg flow s = (Inr (Some ctx), s') \<and>
    ctx_node_id ctx = n \<and> ctx_owner ctx = fnode_owner nd \<and> ctx_trigger ctx = trg \<and> available_docs ctx = docs_for r nd \<and>
    pending_ports ctx = pending_ports_for flow n (ports_with (\<lambda>st. st = Approved \<or> st = Seeded) r n)"
proof -
  from build_context_returns [OF assms(2,3), of E trg] obtain ctx s1 where
    ctx: "build_invocation_context E rid n trg flow s = (Inr (Some ctx), s1)" and runs: "runs s1 = runs s"
    and c: "ctx_node_id ctx = n \<and> ctx_owner ctx = fnode_owner nd \<and> ctx_trigger ctx = trg \<and> available_docs ctx = docs_for r nd \<and>
      pending_ports ctx = pending_ports_for flow n (ports_with (\<lambda>st. st = Approved \<or> st = Seeded) r n)" by blast
  have "get_run s1 rid = Some r" using assms(2) runs by (simp add: get_run_def)
  from record_invocation_returns [OF assms(1) this] obtain iid s2 where
    inv: "record_invocation E rid n trg s1 = (Inr iid, s2)" by blast
  from returnsD [OF returns_trace_op] obtain s3 where
    tr: "trace_op E rid AgentScheduled (\<lambda>e. e\<lparr>te_agent_id := n, te_invocation_id := Some iid,
      te_pending_ports := (case Some ctx of None \<Rightarrow> [] | Some c \<Rightarrow> pending_ports c)\<rparr>) s2 = (Inr (), s3)"
    by (metis (full_types) old.unit.exhaust)
  have "schedule_node_with_context E rid n trg flow s = (Inr (Some ctx), fr_emit ''flow.run.changed'' rid s3)"
    unfolding schedule_node_with_context_def using ctx inv tr by (simp add: flow_simps)
  with c show ?thesis by blast
qed

text \<open>The agents among some nodes: declared and not owned by a human.\<close>

definition is_agent :: "flow_definition \<Rightarrow> string \<Rightarrow> bool" where
  "is_agent flow n = (case fnode flow n of None \<Rightarrow> False | Some nd \<Rightarrow> fnode_owner nd \<noteq> ''human'')"

lemma keeps_run_exists:
  assumes "grows.keeps m" and "m s = (res, s')" and "get_run s rid = Some r"
  shows "\<exists>r'. get_run s' rid = Some r'"
  using grows.keepsD [OF assms(1,2)] assms(3) by (auto simp: grows.ext_def)

lemma mark_unchecked_returns:
  assumes "healthy E" and "get_run s rid = Some r"
  shows "\<exists>s'. mark_port_status_unchecked E rid n p st s = (Inr (), s')"
  using assms returnsD [OF returns_persist_run [OF assms(1)]]
  by (simp add: mark_port_status_unchecked_def)

lemma each_mark_returns:
  assumes "healthy E" and "get_run s rid = Some r"
  shows "\<exists>s'. fr_each (\<lambda>out. mark_port_status_unchecked E rid n (out_port out) AwaitingOwner) outs s = (Inr (), s')"
  using assms(2)
proof (induction outs arbitrary: s r)
  case (Cons out outs)
  from mark_unchecked_returns [OF assms(1) Cons.prems] obtain s1 where
    m: "mark_port_status_unchecked E rid n (out_port out) AwaitingOwner s = (Inr (), s1)" by blast
  from keeps_run_exists [OF grows.keeps_mark_unchecked m Cons.prems] obtain r1 where "get_run s1 rid = Some r1"
    by auto
  from Cons.IH [OF this] m show ?case by simp
qed (simp add: flow_simps)

lemma activate_returns:
  assumes "healthy E" and "get_run s rid = Some r"
  shows "\<exists>ctxs s'. activate_node E rid flow (n, trg) s = (Inr ctxs, s') \<and>
    map ctx_node_id ctxs = (if is_agent flow n then [n] else []) \<and> (\<forall>c \<in> set ctxs. ctx_trigger c = trg)"
proof (cases "fnode flow n")
  case None
  then show ?thesis by (simp add: activate_node_def is_agent_def flow_simps)
next
  case (Some nd)
  show ?thesis
  proof (cases "fnode_owner nd = ''human''")
    case True
    from each_mark_returns [OF assms, of n "fnode_outputs nd"] obtain s1 where
      "fr_each (\<lambda>out. mark_port_status_unchecked E rid n (out_port out) AwaitingOwner) (fnode_outputs nd) s = (Inr (), s1)"
      by blast
    with True Some show ?thesis by (simp add: activate_node_def await_owner_def is_agent_def flow_simps)
  next
    case False
    from schedule_returns [OF assms Some, of trg] obtain ctx s1 where
      "schedule_node_with_context E rid n trg flow s = (Inr (Some ctx), s1)" "ctx_node_id ctx = n" "ctx_trigger ctx = trg"
      by blast
    with False Some show ?thesis by (simp add: activate_node_def is_agent_def opt_list_def flow_simps)
  qed
qed

lemma collect_activate_returns:
  assumes "healthy E" and "get_run s rid = Some r"
  shows "\<exists>ctxs s' r'. fr_collect (activate_node E rid flow) acts s = (Inr ctxs, s') \<and> get_run s' rid = Some r' \<and>
    map ctx_node_id ctxs = filter (is_agent flow) (map fst acts) \<and>
    set (map ctx_trigger ctxs) \<subseteq> set (map snd acts)"
  using assms(2)
proof (induction acts arbitrary: s r)
  case Nil
  then show ?case by (simp add: flow_simps)
next
  case (Cons a acts)
  obtain n trg where a: "a = (n, trg)" by force
  from activate_returns [OF assms(1) Cons.prems, of flow n trg] obtain cs s1 where
    act: "activate_node E rid flow (n, trg) s = (Inr cs, s1)"
    and ids: "map ctx_node_id cs = (if is_agent flow n then [n] else [])" "\<forall>c \<in> set cs. ctx_trigger c = trg" by blast
  have "grows.keeps (activate_node E rid flow (n, trg))"
    by (rule grows.keeps_activate_node) (simp add: grows.human_free_def)
  from keeps_run_exists [OF this act Cons.prems] obtain r1 where "get_run s1 rid = Some r1" by blast
  from Cons.IH [OF this] obtain ctxs s' r' where
    "fr_collect (activate_node E rid flow) acts s1 = (Inr ctxs, s')" "get_run s' rid = Some r'"
    "map ctx_node_id ctxs = filter (is_agent flow) (map fst acts)" "set (map ctx_trigger ctxs) \<subseteq> set (map snd acts)" by blast
  with act ids show ?case by (auto simp: a flow_simps)
qed

section \<open>The reviews file\<close>

text \<open>
  The JSON values the code builds: members of objects in the order of the map, no floating-point
  numbers. On these the serializer and the parser are expected to be inverse.
\<close>

function json_value :: "json \<Rightarrow> bool" where
  "json_value JNull = True"
| "json_value (JBool _) = True"
| "json_value (JNumber n) = (case n of Float _ \<Rightarrow> False | _ \<Rightarrow> True)"
| "json_value (JString _) = True"
| "json_value (JArray xs) = (\<forall>x \<in> set xs. json_value x)"
| "json_value (JObject ms) = (bt_sorted ms \<and> (\<forall>x \<in> set (map snd ms). json_value x))"
  by pat_completeness auto
termination
proof (relation "measure size", goal_cases)
  case (3 ms x)
  then obtain k where "(k, x) \<in> set ms" by auto
  then have "size x < Suc (size_list (size_prod (\<lambda>_. 0) size) ms)"
    by (induction ms) auto
  then show ?case by simp
qed (auto simp: less_Suc_eq_le intro: size_list_estimation' order.refl)

definition json_codec :: "('io, 'b) flow_env \<Rightarrow> bool" where
  "json_codec E \<longleftrightarrow> (\<forall>j bytes. json_value j \<longrightarrow> env_json_enc E j = Inr bytes \<longrightarrow> env_json_dec E bytes = Some j)"

lemma bt_put_values:
  assumes "\<forall>x \<in> set (map snd m). P x" and "P v"
  shows "\<forall>x \<in> set (map snd (bt_put k v m)). P x"
  using assms set_bt_put [of k v m] by auto

lemma json_value_put: "json_value (JObject ms) \<Longrightarrow> json_value v \<Longrightarrow> json_value (JObject (bt_put k v ms))"
  by (simp add: bt_sorted_put) (use set_bt_put [of k v ms] in auto)

lemma json_value_object:
  assumes "\<forall>x \<in> set (map snd kvs). json_value x"
  shows "json_value (json_object kvs)"
proof -
  have "json_value (JObject (foldl (\<lambda>m (k, v). bt_put k v m) ms kvs))" if "json_value (JObject ms)" for ms
    using that assms
  proof (induction kvs arbitrary: ms)
    case (Cons kv kvs)
    obtain k v where kv: "kv = (k, v)" by force
    from Cons.prems have "json_value (JObject (bt_put k v ms))" by (intro json_value_put) (simp_all add: kv)
    from Cons.IH [OF this] Cons.prems(2) show ?case by (simp add: kv del: json_value.simps)
  qed (simp del: json_value.simps)
  moreover have "json_value (JObject [])" by (simp add: bt_sorted_def)
  ultimately show ?thesis unfolding json_object_def by blast
qed

text \<open>The shape the two writers expect and keep: an object of entries that have both arrays.\<close>

definition entry_sound :: "json \<Rightarrow> bool" where
  "entry_sound e \<longleftrightarrow> json_value e \<and> (\<exists>ms xs ys. e = JObject ms \<and> map_of ms ''comments'' = Some (JArray xs) \<and>
     map_of ms ''revisions'' = Some (JArray ys))"

definition docs_list :: "json \<Rightarrow> (string \<times> json) list" where
  "docs_list j = (case json_get j ''docs'' of Some (JObject ds) \<Rightarrow> ds | _ \<Rightarrow> [])"

definition reviews_sound :: "json \<Rightarrow> bool" where
  "reviews_sound j \<longleftrightarrow> json_value j \<and> json_is_object j \<and>
     (case json_get j ''docs'' of None \<Rightarrow> True | Some v \<Rightarrow> json_is_object v) \<and>
     (\<forall>e \<in> set (map snd (docs_list j)). entry_sound e)"

definition entry_at :: "string \<Rightarrow> json \<Rightarrow> json" where
  "entry_at port j = (case map_of (docs_list j) port of None \<Rightarrow> draft_entry | Some e \<Rightarrow> e)"

definition entry_comments :: "json \<Rightarrow> json list" where
  "entry_comments e = (case json_get e ''comments'' of Some (JArray xs) \<Rightarrow> xs | _ \<Rightarrow> [])"

lemma empty_reviews_sound: "reviews_sound empty_reviews"
  by (simp add: reviews_sound_def empty_reviews_def json_object_def docs_list_def bt_sorted_def)

lemma draft_entry_sound: "entry_sound draft_entry"
proof -
  have "json_value draft_entry" unfolding draft_entry_def by (rule json_value_object) simp
  then show ?thesis by (simp add: entry_sound_def draft_entry_def json_object_def store_simps)
qed

lemma entry_at_sound: "reviews_sound j \<Longrightarrow> entry_sound (entry_at port j)"
  by (auto simp: entry_at_def reviews_sound_def draft_entry_sound dest!: map_of_SomeD split: option.split)

lemma res_bind_Inr [simp]: "res_bind (Inr x) f = f x"
  by (simp add: res_bind_def)

lemma entry_sound_put:
  assumes "entry_sound e" and "json_value v" and "k \<noteq> ''comments''" "k \<noteq> ''revisions''"
  shows "\<exists>e'. index_put k v e = Inr e' \<and> entry_sound e' \<and> entry_comments e' = entry_comments e"
proof -
  from assms(1) obtain ms where e: "e = JObject ms" by (auto simp: entry_sound_def)
  with assms have "json_value (JObject (bt_put k v ms))"
    by (intro json_value_put) (simp_all add: entry_sound_def del: json_value.simps)
  with assms e show ?thesis
    by (simp add: index_put_def entry_sound_def entry_comments_def store_simps del: json_value.simps)
qed

lemma entry_sound_push:
  assumes "entry_sound e" and "\<forall>x \<in> set xs. json_value x" and "k = ''comments'' \<or> k = ''revisions''"
  shows "\<exists>e'. push_array k what xs e = Inr e' \<and> entry_sound e' \<and>
    entry_comments e' = (if k = ''comments'' then entry_comments e @ xs else entry_comments e)"
proof -
  from assms(1,3) obtain ms ys where e: "e = JObject ms" "map_of ms k = Some (JArray ys)"
    and ms: "json_value (JObject ms)" by (auto simp: entry_sound_def simp del: json_value.simps)
  have "\<forall>y \<in> set ys. json_value y" using ms e(2) by (force dest: map_of_SomeD)
  with ms assms(2) have "json_value (JObject (bt_put k (JArray (ys @ xs)) ms))"
    by (intro json_value_put) auto
  with assms(1,3) e show ?thesis
    by (auto simp: push_array_def entry_sound_def entry_comments_def store_simps simp del: json_value.simps)
qed

lemma update_entry_sound:
  assumes sound: "reviews_sound j" and f: "f (entry_at port j) = Inr e" and e: "entry_sound e"
  shows "\<exists>j'. update_entry port f j = Inr j' \<and> reviews_sound j' \<and> docs_list j' = bt_put port e (docs_list j)"
proof -
  from sound obtain ms where j: "j = JObject ms" by (cases j) (auto simp: reviews_sound_def)
  define ms1 where "ms1 = (if map_of ms ''docs'' = None then bt_put ''docs'' (JObject []) ms else ms)"
  have docs: "map_of ms1 ''docs'' = Some (JObject (docs_list j))"
    using sound by (auto simp: ms1_def j reviews_sound_def docs_list_def store_simps elim!: json_is_object.elims split: option.splits)
  have ms: "json_value (JObject ms)" using sound by (simp add: reviews_sound_def j del: json_value.simps)
  moreover have "json_value (JObject [])" by (simp add: bt_sorted_def)
  ultimately have ms1: "json_value (JObject ms1)" by (simp add: ms1_def json_value_put del: json_value.simps)
  then have "json_value (JObject (docs_list j))" using docs by (force dest: map_of_SomeD)
  with e have ds: "json_value (JObject (bt_put port e (docs_list j)))"
    by (intro json_value_put) (simp_all add: entry_sound_def del: json_value.simps)
  let ?j = "JObject (bt_put ''docs'' (JObject (bt_put port e (docs_list j))) ms1)"
  have "update_entry port f j = Inr ?j"
  proof -
    have "(if (case json_get j ''docs'' of None \<Rightarrow> False | Some v \<Rightarrow> json_is_object v) then Inr j
        else index_put ''docs'' (JObject []) j) = (Inr (JObject ms1) :: 'a flow_error + json)"
      using sound by (auto simp: j ms1_def reviews_sound_def index_put_def split: option.splits)
    then show ?thesis using f docs by (simp add: update_entry_def entry_at_def index_put_def)
  qed
  moreover have "docs_list ?j = bt_put port e (docs_list j)" by (simp add: docs_list_def store_simps)
  moreover have "json_value ?j" using ms1 ds by (rule json_value_put)
  moreover have "\<forall>x \<in> set (map snd (bt_put port e (docs_list j))). entry_sound x"
    using sound e by (intro bt_put_values) (auto simp: reviews_sound_def)
  ultimately show ?thesis
    by (intro exI [of _ ?j]) (simp add: reviews_sound_def store_simps del: json_value.simps)
qed

text \<open>What a reader finds in the file.\<close>

definition current_reviews :: "('io, 'b) flow_env \<Rightarrow> 'b flow_runtime \<Rightarrow> path \<Rightarrow> json" where
  "current_reviews E s p = (case files s p of None \<Rightarrow> empty_reviews
     | Some bytes \<Rightarrow> (case env_json_dec E bytes of None \<Rightarrow> empty_reviews | Some j \<Rightarrow> j))"

lemma read_reviews_healthy:
  assumes "healthy E"
  shows "\<exists>s'. read_reviews E p s = (Inr (current_reviews E s p), s') \<and> files s' = files s"
  using healthyD(4) [OF assms] by (simp add: read_reviews_def current_reviews_def flow_simps split: option.split)

lemma write_reviews_healthy:
  assumes "healthy E"
  shows "\<exists>s' bytes. write_reviews E fid rid j s = (Inr (), s') \<and> env_json_enc E j = Inr bytes \<and>
    files s' (run_reviews_file fid rid) = Some bytes"
proof -
  obtain bytes where "env_json_enc E j = Inr bytes" using healthyD(6) [OF assms] by blast
  then show ?thesis
    by (simp add: write_reviews_def write_file_def flow_simps healthyD [OF assms] run_reviews_file_def reviews_tmp_file_def)
qed

text \<open>
  Both writers succeed on a file of the expected shape and leave one; with the codec the reader
  finds what was written.
\<close>

lemma write_entry_healthy:
  assumes h: "healthy E" and sound: "reviews_sound (current_reviews E s (run_reviews_file fid rid))"
    and f: "\<And>now e. entry_sound e \<Longrightarrow> \<exists>e'. f now e = Inr e' \<and> entry_sound e' \<and>
      entry_comments e' = entry_comments e @ map (g now) cs"
  shows "\<exists>now j s'. fr_bind (create_dir_all E) (\<lambda>_.
     fr_bind (read_reviews E (run_reviews_file fid rid)) (\<lambda>reviews.
     fr_bind (fr_tick (env_secs E)) (\<lambda>now.
     fr_bind (fr_lift (update_entry port (f now) reviews)) (\<lambda>j.
     write_reviews E fid rid j)))) s = (Inr (), s') \<and> reviews_sound j \<and>
     (json_codec E \<longrightarrow> current_reviews E s' (run_reviews_file fid rid) = j) \<and>
     map_of (docs_list j) port \<noteq> None \<and>
     entry_comments (entry_at port j) =
       entry_comments (entry_at port (current_reviews E s (run_reviews_file fid rid))) @ map (g now) cs"
proof -
  let ?p = "run_reviews_file fid rid"
  let ?j = "current_reviews E s ?p"
  have dir: "create_dir_all E s = (Inr (), s\<lparr>ticks := Suc (ticks s)\<rparr>)"
    by (simp add: create_dir_all_def flow_simps healthyD [OF h])
  have "current_reviews E (s\<lparr>ticks := Suc (ticks s)\<rparr>) ?p = ?j" by (simp add: current_reviews_def)
  then obtain s1 where rd: "read_reviews E ?p (s\<lparr>ticks := Suc (ticks s)\<rparr>) = (Inr ?j, s1)"
    using read_reviews_healthy [OF h, of ?p "s\<lparr>ticks := Suc (ticks s)\<rparr>"] by auto
  let ?now = "env_secs E (ticks s1)"
  from f [OF entry_at_sound [OF sound], of ?now port] obtain e where
    e: "f ?now (entry_at port ?j) = Inr e" "entry_sound e"
    "entry_comments e = entry_comments (entry_at port ?j) @ map (g ?now) cs" by blast
  from update_entry_sound [where f = "f ?now", OF sound e(1,2)] obtain j where
    j: "update_entry port (f ?now) ?j = Inr j" "reviews_sound j" "docs_list j = bt_put port e (docs_list ?j)" by blast
  from write_reviews_healthy [OF h, of fid rid j "s1\<lparr>ticks := Suc (ticks s1)\<rparr>"] obtain s2 bytes where
    wr: "write_reviews E fid rid j (s1\<lparr>ticks := Suc (ticks s1)\<rparr>) = (Inr (), s2)"
    and bytes: "env_json_enc E j = Inr bytes" "files s2 ?p = Some bytes" by blast
  have "current_reviews E s2 ?p = j" if "json_codec E"
    using that bytes j(2) by (auto simp: current_reviews_def json_codec_def reviews_sound_def)
  moreover have "entry_at port j = e" "map_of (docs_list j) port \<noteq> None"
    by (simp_all add: entry_at_def j(3) store_simps)
  ultimately show ?thesis using dir rd j e wr
    by (intro exI [of _ ?now] exI [of _ j] exI [of _ s2]) (simp add: flow_simps)
qed

lemma push_comments:
  assumes "entry_sound e"
  shows "\<exists>e'. push_array ''comments'' what (map (comment_json who now) cs) e = Inr e' \<and> entry_sound e' \<and>
    entry_comments e' = entry_comments e @ map (comment_json who now) cs"
proof -
  have "json_value (comment_json who now c)" for c
    unfolding comment_json_def by (rule json_value_object) (auto split: option.split)
  then show ?thesis using entry_sound_push [OF assms, of "map (comment_json who now) cs" "''comments''" what] by simp
qed

lemma review_state_entry_sound:
  assumes "entry_sound e"
  shows "\<exists>e'. review_state_entry now n sha rno st e = (Inr e' :: 'io flow_error + json) \<and> entry_sound e' \<and> entry_comments e' = entry_comments e"
proof -
  have status: "\<exists>e'. index_put ''status'' (JString st) e1 = (Inr e' :: 'io flow_error + json) \<and> entry_sound e' \<and> entry_comments e' = entry_comments e"
    if "entry_sound e1" "entry_comments e1 = entry_comments e" for e1
    using entry_sound_put [OF that(1), of "JString st" "''status''"] that(2) by simp
  show ?thesis
  proof (cases "0 < rno")
    case False
    then show ?thesis using status [OF assms refl] by (simp add: review_state_entry_def)
  next
    case True
    let ?rec = "json_object [(''rev'', json_u32 rno), (''submitted_at'', JString now), (''submitted_by'', JString n),
      (''sha'', JString sha)]"
    have "json_value ?rec" by (rule json_value_object) (simp add: json_u32_def)
    moreover obtain e1 where e1: "index_put ''current_revision'' (json_u32 rno) e = (Inr e1 :: 'io flow_error + json)" "entry_sound e1"
        "entry_comments e1 = entry_comments e"
      using entry_sound_put [OF assms, of "json_u32 rno" "''current_revision''"] by (auto simp: json_u32_def)
    ultimately obtain e2 where e2: "push_array ''revisions'' ''revisions'' [?rec] e1 = (Inr e2 :: 'io flow_error + json)" "entry_sound e2"
        "entry_comments e2 = entry_comments e"
      using entry_sound_push [OF e1(2), of "[?rec]" "''revisions''" "''revisions''"] by auto
    show ?thesis
    proof (cases "if st = ''IN_REVIEW'' then Option.bind (json_get e2 ''round_count'') json_as_u64 else None")
      case None
      then show ?thesis using True e1(1) e2 status [OF e2(2,3)]
        by (auto simp: review_state_entry_def split: if_splits)
    next
      case (Some c)
      obtain e3 where "index_put ''round_count'' (JNumber (PosInt (c + 1))) e2 = (Inr e3 :: 'io flow_error + json)" "entry_sound e3"
        "entry_comments e3 = entry_comments e"
        using entry_sound_put [OF e2(2), of "JNumber (PosInt (c + 1))" "''round_count''"] e2(3) by auto
      with Some True e1(1) e2 status [of e3] show ?thesis
        by (auto simp: review_state_entry_def split: if_splits)
    qed
  qed
qed

lemma write_review_comments_healthy:
  assumes "healthy E" and "reviews_sound (current_reviews E s (run_reviews_file fid rid))"
  shows "\<exists>now j s'. write_review_comments E fid rid port who cs s = (Inr (), s') \<and> reviews_sound j \<and>
     (json_codec E \<longrightarrow> current_reviews E s' (run_reviews_file fid rid) = j) \<and> map_of (docs_list j) port \<noteq> None \<and>
     entry_comments (entry_at port j) =
       entry_comments (entry_at port (current_reviews E s (run_reviews_file fid rid))) @ map (comment_json who now) cs"
  unfolding write_review_comments_def
  by (rule write_entry_healthy [OF assms, where f = "\<lambda>now. push_array ''comments'' ''comments'' (map (comment_json who now) cs)"])
    (rule push_comments)

lemma upsert_healthy:
  assumes "healthy E" and "reviews_sound (current_reviews E s (run_reviews_file fid rid))"
  shows "\<exists>s'. upsert_review_state E fid rid port n sha rno st s = (Inr (), s')"
proof -
  have "\<exists>e'. review_state_entry now n sha rno st e = Inr e' \<and> entry_sound e' \<and>
      entry_comments e' = entry_comments e @ map (\<lambda>c :: review_comment. JNull) []"
    if "entry_sound e" for now e using review_state_entry_sound [OF that] by simp
  from write_entry_healthy [OF assms, where f = "\<lambda>now. review_state_entry now n sha rno st" and cs = "[]" and
      g = "\<lambda>now (c :: review_comment). JNull", OF this, of port]
  show ?thesis unfolding upsert_review_state_def by blast
qed

section \<open>The comments of a port\<close>

text \<open>A port whose name the JSON pointer leaves alone.\<close>

definition plain_port :: "string \<Rightarrow> bool" where
  "plain_port port \<longleftrightarrow> CHR ''/'' \<notin> set port \<and> CHR ''~'' \<notin> set port"

lemma split_slash_plain: "CHR ''/'' \<notin> set a \<Longrightarrow> split_slash (a @ CHR ''/'' # b) = a # split_slash b"
  by (induction a) auto

lemma split_slash_single: "CHR ''/'' \<notin> set a \<Longrightarrow> split_slash a = [a]"
  by (induction a) auto

lemma str_replace2_plain: "a \<notin> set xs \<Longrightarrow> str_replace2 a b c xs = xs"
  by (induction a b c xs rule: str_replace2.induct) auto

lemma pointer_token_plain: "CHR ''~'' \<notin> set t \<Longrightarrow> pointer_token t = t"
  by (simp add: pointer_token_def str_replace2_plain)

lemma pointer_tokens:
  assumes "plain_port port"
  shows "tl (split_slash (''/docs/'' @ port @ ''/comments'')) = [''docs'', port, ''comments'']"
proof -
  have "split_slash (''docs/'' @ port @ ''/comments'') = ''docs'' # split_slash (port @ ''/comments'')"
    using split_slash_plain [of "''docs''" "port @ ''/comments''"] by simp
  also have "split_slash (port @ ''/comments'') = [port, ''comments'']"
    using assms split_slash_plain [of port "''comments''"] by (simp add: plain_port_def)
  finally show ?thesis by simp
qed

lemma comments_at_plain:
  assumes sound: "reviews_sound j" and plain: "plain_port port"
  shows "comments_at port j = List.map_filter parse_comment (entry_comments (entry_at port j))"
proof -
  from sound obtain ms where j: "j = JObject ms" by (cases j) (auto simp: reviews_sound_def)
  have tok: "pointer_token ''docs'' = ''docs''" "pointer_token port = port" "pointer_token ''comments'' = ''comments''"
    using plain by (simp_all add: pointer_token_plain plain_port_def)
  note ptr = comments_at_def [of port j, unfolded pointer_tokens [OF plain]]
  show ?thesis
  proof (cases "map_of (docs_list j) port")
    case None
    then have "Option.bind (map_of ms ''docs'') (json_pointer [port, ''comments'']) = None"
      using sound by (auto simp: j reviews_sound_def docs_list_def tok split: option.splits elim!: json_is_object.elims)
    with None show ?thesis
      by (simp add: ptr [unfolded j] j tok entry_at_def entry_comments_def draft_entry_def json_object_def store_simps List.map_filter_simps)
  next
    case (Some e)
    then have "entry_sound e" using entry_at_sound [OF sound, of port] by (simp add: entry_at_def)
    then obtain es xs where e: "e = JObject es" "map_of es ''comments'' = Some (JArray xs)" by (auto simp: entry_sound_def)
    from Some have "map_of ms ''docs'' = Some (JObject (docs_list j))"
      by (auto simp: j docs_list_def split: option.splits json.splits)
    with Some e show ?thesis by (simp add: ptr [unfolded j] j tok entry_at_def entry_comments_def)
  qed
qed

lemma parse_comment_json: "parse_comment (comment_json who now c) = Some c"
  by (cases c; cases "rc_suggestion c") (simp_all add: comment_json_def json_object_def comment_of_def store_simps)

lemma map_filter_comments: "List.map_filter parse_comment (xs @ map (comment_json who now) cs) =
    List.map_filter parse_comment xs @ cs"
proof -
  have "List.map_filter parse_comment (map (comment_json who now) cs) = cs"
    by (induction cs) (simp_all add: List.map_filter_simps parse_comment_json)
  moreover have "List.map_filter parse_comment (xs @ ys) = List.map_filter parse_comment xs @ List.map_filter parse_comment ys" for ys
    by (induction xs) (simp_all add: List.map_filter_simps split: option.split)
  ultimately show ?thesis by simp
qed

lemma read_review_comments_healthy:
  assumes "healthy E"
  shows "\<exists>s'. read_review_comments E fid rid port s =
    (Inr (comments_at port (current_reviews E s (run_reviews_file fid rid))), s')"
  using read_reviews_healthy [OF assms, of "run_reviews_file fid rid" s]
  by (auto simp: read_review_comments_def flow_simps)

section \<open>Approval\<close>

lemma update_reviews_healthy:
  assumes "healthy E" and "get_run s rid = Some r"
    and "reviews_sound (current_reviews E s (run_reviews_file (frs_flow_id r) rid))"
  shows "\<exists>s'. update_reviews E rid port n sha rno st s = (Inr (), s')"
  using upsert_healthy [OF assms(1,3), of port n sha rno st] assms(2)
  by (auto simp: update_reviews_def fr_ignore_def)

lemma fire_and_join_returns:
  assumes "healthy E" and inj: "inj (env_uuid E)" and "get_run s rid = Some r"
  shows "\<exists>ctxs s' r'. fire_and_join_for E n port rid flow g s = (Inr ctxs, s') \<and> get_run s' rid = Some r' \<and>
    map ctx_node_id ctxs = filter (is_agent flow) (filter (gate_open r g) (nodes_awaiting g n port)) \<and>
    (\<forall>c \<in> set ctxs. trig_kind (ctx_trigger c) = ''and_join'')"
proof (cases "nodes_awaiting g n port = []")
  case True
  with assms show ?thesis by (simp add: fire_and_join_eq [OF inj])
next
  case False
  let ?acts = "activated r g (and_join_trigger n port) (nodes_awaiting g n port)"
  let ?s = "s\<lparr>ticks := Suc (ticks s + length (nodes_awaiting g n port))\<rparr>"
  have "get_run ?s rid = Some r" using assms(3) by (simp add: get_run_def)
  from collect_activate_returns [OF assms(1) this, of flow ?acts] obtain ctxs s' r' where
    "fr_collect (activate_node E rid flow) ?acts ?s = (Inr ctxs, s')" "get_run s' rid = Some r'"
    and ids: "map ctx_node_id ctxs = filter (is_agent flow) (map fst ?acts)"
    and trg: "set (map ctx_trigger ctxs) \<subseteq> set (map snd ?acts)" by blast
  moreover have "map fst ?acts = filter (gate_open r g) (nodes_awaiting g n port)"
    by (simp add: activated_def comp_def)
  moreover have "\<forall>c \<in> set ctxs. trig_kind (ctx_trigger c) = ''and_join''"
    using trg by (auto simp: activated_def and_join_trigger_def)
  ultimately show ?thesis using assms(3) False by (simp add: fire_and_join_eq [OF inj])
qed

lemma retrigger_returns:
  assumes "healthy E" and "get_run s rid = Some r"
  shows "\<exists>ctxs s' r'. fr_collect (retrigger_node E rid n port flow) is s = (Inr ctxs, s') \<and> get_run s' rid = Some r' \<and>
    map ctx_node_id ctxs = filter (is_agent flow) is \<and> (\<forall>c \<in> set ctxs. trig_kind (ctx_trigger c) = ''cycle_retrigger'')"
proof -
  let ?trg = "\<lparr>trig_kind = ''cycle_retrigger'', approved_port = Some port, from_node = Some n, reviewer_doc_path = None\<rparr>"
  have "fr_collect (retrigger_node E rid n port flow) is = fr_collect (activate_node E rid flow) (map (\<lambda>i. (i, ?trg)) is)"
    by (induction "is") (simp_all add: retrigger_node_def)
  with collect_activate_returns [OF assms, of flow "map (\<lambda>i. (i, ?trg)) is"]
  show ?thesis by (fastforce simp: comp_def)
qed

text \<open>The ports of an agent node that are not approved.\<close>

definition unapproved :: "flow_definition \<Rightarrow> flow_run_state \<Rightarrow> string \<Rightarrow> bool" where
  "unapproved flow r n \<longleftrightarrow> (\<exists>nd. fnode flow n = Some nd \<and>
     (\<exists>out \<in> set (fnode_outputs nd). port_of r n (out_port out) \<noteq> Approved))"

lemma in_ports_with: "p \<in> ports_with P r n \<longleftrightarrow>
    (\<exists>ns st. node_states r n = Some ns \<and> map_of (ports ns) p = Some st \<and> P st)"
  by (auto simp: ports_with_def map_of_eq_Some_iff map_of_SomeD rev_image_eqI dest: map_of_SomeD split: option.splits)

lemma approved_ports: "p \<in> ports_with (\<lambda>st. st = Approved) r n \<longleftrightarrow> port_of r n p = Approved"
  by (auto simp: in_ports_with port_of_def port_or_default_def bind_eq_Some_conv split: option.splits)

lemma pending_iff: "pending_ports_for flow n (ports_with (\<lambda>st. st = Approved) r n) = [] \<longleftrightarrow> \<not> unapproved flow r n"
  by (auto simp: pending_ports_for_def unapproved_def approved_ports filter_empty_conv split: option.split)

lemma implicit_returns:
  assumes "healthy E" and "get_run s rid = Some r"
  shows "\<exists>ctxs s'. implicit_reinvoke E rid n port flow s = (Inr ctxs, s') \<and>
    map ctx_node_id ctxs = (if is_agent flow n \<and> unapproved flow r n then [n] else []) \<and>
    (\<forall>c \<in> set ctxs. trig_kind (ctx_trigger c) = ''implicit_reinvoke'')"
proof (cases "is_agent flow n \<and> unapproved flow r n")
  case False
  then show ?thesis using assms(2)
    by (auto simp: implicit_reinvoke_def is_agent_def pending_iff split: option.splits)
next
  case True
  then obtain nd where nd: "fnode flow n = Some nd" "fnode_owner nd \<noteq> ''human''" "unapproved flow r n"
    by (auto simp: is_agent_def split: option.splits)
  from schedule_returns [OF assms nd(1), of "\<lparr>trig_kind = ''implicit_reinvoke'', approved_port = Some port,
      from_node = None, reviewer_doc_path = None\<rparr>"] obtain ctx s' where
    "schedule_node_with_context E rid n \<lparr>trig_kind = ''implicit_reinvoke'', approved_port = Some port,
      from_node = None, reviewer_doc_path = None\<rparr> flow s = (Inr (Some ctx), s')" "ctx_node_id ctx = n"
    "trig_kind (ctx_trigger ctx) = ''implicit_reinvoke''" by fastforce
  with nd assms(2) show ?thesis
    by (simp add: implicit_reinvoke_def is_agent_def pending_iff opt_list_def flow_simps)
qed

end
