(* ===== verification/FlowProps.thy ===== *)
theory FlowProps
  imports FlowEffects
begin

text \<open>
  The properties of flow definitions and of the flow runtime, with the concrete flows and runs
  they are applied to.
\<close>

section \<open>Concrete flows\<close>

definition plain_out :: "string \<Rightarrow> string option \<Rightarrow> string list \<Rightarrow> flow_node_output" where
  "plain_out p tgt revs = \<lparr>out_port = p, routes_to = tgt, out_reviewers = revs, max_cycles = None,
     on_cycle_exhausted = None, blackboard_key = None\<rparr>"

definition plain_node :: "string \<Rightarrow> string \<Rightarrow> flow_node_output list \<Rightarrow> flow_node" where
  "plain_node i own outs = \<lparr>fnode_id = i, fnode_owner = own, fnode_description = None, fnode_outputs = outs,
     fnode_reads = []\<rparr>"

text \<open>A design, an implementation and a test that reports bugs back to the implementation.\<close>

definition demo_nodes :: "flow_node list" where
  "demo_nodes =
     [plain_node ''design'' ''pm'' [plain_out ''prd'' (Some ''dev'') []],
      plain_node ''dev'' ''rd'' [plain_out ''code'' (Some ''test'') [], plain_out ''notes'' None [''pm'', ''human'']],
      plain_node ''test'' ''qa'' [(plain_out ''bugs'' (Some ''dev'') [])\<lparr>max_cycles := Some 2\<rparr>]]"

definition demo_graph :: flow_graph where
  "demo_graph = (case (build demo_nodes {''pm'', ''rd'', ''qa''} ''f'' :: (string flow_load_error + flow_graph) option) of Some (Inr g) \<Rightarrow> g
     | _ \<Rightarrow> \<lparr>entry_nodes = [], required_inputs = [], cycle_inputs = []\<rparr>)"

lemma build_demo: "build demo_nodes {''pm'', ''rd'', ''qa''} ''f'' = Some (Inr demo_graph :: string flow_load_error + flow_graph)"
  by code_simp

definition demo_flow :: flow_definition where
  "demo_flow = \<lparr>flow_name = ''f'', flow_description = [], flow_agents = [], flow_nodes = demo_nodes,
     max_review_rounds = default_max_review_rounds, on_review_exhausted = default_on_review_exhausted,
     reviewer_timeout_secs = default_reviewer_timeout_secs, reviewer_enabled = default_reviewer_enabled,
     source_path = ''f'', flow_graph = Some demo_graph\<rparr>"

section \<open>Flow definitions\<close>

text \<open>
  (C11) Building the topology of a flow always returns. It succeeds exactly when the node ids are
  distinct, every route leads to a declared node, every reviewer is a declared agent or the human,
  every exhaustion action is one of the two known, and every key that is read is produced.
\<close>

theorem build_decides_valid:
  "build ns agts path \<noteq> (None :: ('io flow_load_error + flow_graph) option) \<and>
    ((\<exists>g. build ns agts path = Some (Inr g :: 'io flow_load_error + flow_graph)) \<longleftrightarrow> valid_nodes agts ns)"
  using build_returns build_iff_valid by blast

text \<open>
  In a built flow the routes into a node that reads no keys are split by a set of back edges,
  each of which closes a cycle of routes and without which the routes have none. The other
  routes, in declaration order, are what the node requires, or the chat brief if there are none;
  the back edges are what triggers it again.
\<close>

theorem built_inputs_split:
  assumes "build ns agts path = Some (Inr g)"
  shows "\<exists>bk. acyclic (routes ns - bk) \<and> bk \<subseteq> {(u, v). (u, v) \<in> routes ns \<and> (v, u) \<in> (routes ns)\<^sup>*} \<and>
    list_all (\<lambda>n. fnode_reads n \<noteq> [] \<or>
      (let req = filter (\<lambda>(src, _). (src, fnode_id n) \<notin> bk) (incoming_list ns (fnode_id n))
       in required_inputs_for g (fnode_id n) = (if req = [] then [chat_input] else req) \<and>
          cycle_inputs_for g (fnode_id n) = filter (\<lambda>(src, _). (src, fnode_id n) \<in> bk) (incoming_list ns (fnode_id n)) \<and>
          (is_entry_node g (fnode_id n) \<longleftrightarrow> req = []))) ns"
proof -
  from build_derives [OF assms] obtain bk where g: "g = derive_graph bk ns" and ac: "acyclic (routes ns - bk)"
    and bk: "\<forall>(u, v) \<in> bk. (u, v) \<in> routes ns \<and> (v, u) \<in> (routes ns)\<^sup>*" by blast
  have d: "distinct (map fnode_id ns)" using assms build_iff_valid [of ns agts path] by (auto simp: valid_nodes_def)
  have "fnode_id n \<in> set (entry_nodes g) \<longleftrightarrow> base_inputs bk ns n = []" if "n \<in> set ns" for n
    using that d by (auto simp: g derive_graph_spec(1) [OF d] distinct_map dest: inj_onD)
  then have "fnode_reads n \<noteq> [] \<or>
      (let req = filter (\<lambda>(src, _). (src, fnode_id n) \<notin> bk) (incoming_list ns (fnode_id n))
       in required_inputs_for g (fnode_id n) = (if req = [] then [chat_input] else req) \<and>
          cycle_inputs_for g (fnode_id n) = filter (\<lambda>(src, _). (src, fnode_id n) \<in> bk) (incoming_list ns (fnode_id n)) \<and>
          (is_entry_node g (fnode_id n) \<longleftrightarrow> req = []))" if "n \<in> set ns" for n
    using derive_required [OF d that, of bk] that
    by (simp add: g base_inputs_def loop_inputs_def is_entry_node_def Let_def)
  with ac bk show ?thesis by (intro exI [of _ bk]) (auto simp: list_all_iff)
qed

theorem built_inputs_split_witness:
  "required_inputs_for demo_graph ''dev'' = [(''design'', ''prd'')] \<and> cycle_inputs_for demo_graph ''dev'' = [(''test'', ''bugs'')] \<and>
   (\<exists>bk. acyclic (routes demo_nodes - bk))"
proof -
  have "\<exists>bk. acyclic (routes demo_nodes - bk)" using built_inputs_split [OF build_demo] by blast
  moreover have "required_inputs_for demo_graph ''dev'' = [(''design'', ''prd'')]" by code_simp
  moreover have "cycle_inputs_for demo_graph ''dev'' = [(''test'', ''bugs'')]" by code_simp
  ultimately show ?thesis by blast
qed

text \<open>
  No deadlock without reads: in a flow that builds and whose nodes read no keys, the waits have
  no cycle, and every node comes to run when every node that runs gets its outputs approved.
\<close>

theorem every_node_can_start:
  assumes "build ns agts path = Some (Inr g)" and "list_all (\<lambda>n. fnode_reads n = []) ns"
  shows "wf (waits_for g) \<and> can_start g i"
proof -
  from build_derives [OF assms(1)] obtain bk where g: "g = derive_graph bk ns" "acyclic (routes ns - bk)" by blast
  have "distinct (map fnode_id ns)" using assms(1) build_iff_valid [of ns agts path] by (auto simp: valid_nodes_def)
  then have "wf (waits_for g)" using all_can_start g assms(2) by (simp add: list_all_iff)
  then show ?thesis by (simp add: can_start_wf)
qed

theorem every_node_can_start_witness: "can_start demo_graph ''test''"
  using every_node_can_start [OF build_demo] by (simp add: demo_nodes_def plain_node_def)

text \<open>A node that reads the key it produces itself.\<close>

definition deadlock_node :: flow_node where
  "deadlock_node = \<lparr>fnode_id = ''a'', fnode_owner = ''pm'', fnode_description = None,
     fnode_outputs = [(plain_out ''p'' None [])\<lparr>blackboard_key := Some ''k''\<rparr>], fnode_reads = [''k'']\<rparr>"

definition deadlock_graph :: flow_graph where
  "deadlock_graph = \<lparr>entry_nodes = [], required_inputs = [(''a'', [(''a'', ''p'')])], cycle_inputs = [(''a'', [])]\<rparr>"

text \<open>
  The inputs a node reads by key are not checked for cycles: this flow of one node builds, has
  no entry node, and the node can never start.
\<close>

theorem reads_can_deadlock:
  "build [deadlock_node] {''pm''} ''f'' = Some (Inr deadlock_graph :: string flow_load_error + flow_graph) \<and>
   entry_nodes deadlock_graph = [] \<and> \<not> can_start deadlock_graph ''a''"
proof -
  have "build [deadlock_node] {''pm''} ''f'' = Some (Inr deadlock_graph :: string flow_load_error + flow_graph)" by code_simp
  moreover have "\<not> can_start deadlock_graph ''a''"
    using not_can_start_self [of deadlock_graph "''a''" "''p''"]
    by (auto simp: deadlock_graph_def required_inputs_for_def chat_input_def)
  ultimately show ?thesis by (simp add: deadlock_graph_def)
qed

section \<open>The environment of the concrete runs\<close>

type_synonym demo_bytes = "flow_run_state + json"

definition demo_env :: "(string, demo_bytes) flow_env" where
  "demo_env = \<lparr>env_uuid = (\<lambda>t. t), env_secs = (\<lambda>_. ''0''), env_ms = (\<lambda>_. 0), env_mkdir = (\<lambda>_. None),
     env_write = (\<lambda>_. None), env_rename = (\<lambda>_. None), env_read = (\<lambda>_. True),
     env_enc = (\<lambda>r. Inr (Inl r)), env_dec = (\<lambda>x. case x of Inl r \<Rightarrow> Inr r | Inr _ \<Rightarrow> Inl []),
     env_json_enc = (\<lambda>j. Inr (Inr j)), env_json_dec = (\<lambda>x. case x of Inl _ \<Rightarrow> None | Inr j \<Rightarrow> Some j)\<rparr>"

lemma demo_env_ok: "healthy demo_env" "inj (env_uuid demo_env)" "json_codec demo_env"
  by (auto simp: healthy_def demo_env_def json_codec_def inj_def)

text \<open>A run whose brief is approved.\<close>

definition demo_run :: flow_run_state where
  "demo_run = set_port ''__chat__'' ''initial-brief'' Approved (new_flow_run_state ''0'' ''r'' ''f'' ''hi'')"

definition demo_rt :: "demo_bytes flow_runtime" where
  "demo_rt = put_run ''r'' demo_run new_flow_runtime"

lemma demo_rt_run: "get_run demo_rt ''r'' = Some demo_run"
  by (simp add: demo_rt_def put_run_def get_run_def store_simps)

lemma demo_rt_reviews: "reviews_sound (current_reviews E demo_rt p)"
  by (simp add: current_reviews_def demo_rt_def put_run_def new_flow_runtime_def empty_reviews_sound)

section \<open>The AND-join gate\<close>

text \<open>
  (C9) The activation pass, which runs one step per waiting node on the orchestrator, always returns
  and refines a filter: it activates, in order, exactly those waiting nodes whose required inputs
  are all approved, and touches nothing but its supply of identifiers.
\<close>

theorem activation_pass_refines_filter:
  assumes "inj (env_uuid E)"
  shows "activation_pass E trg (nodes_awaiting g n port) r g s =
    (Inr (map (\<lambda>c. (c, trg)) (filter (\<lambda>c. list_all (\<lambda>(src, p). port_of r src p = Approved) (required_inputs_for g c))
       (nodes_awaiting g n port))),
     s\<lparr>ticks := Suc (ticks s + length (nodes_awaiting g n port))\<rparr>)"
  using activation_returns [OF assms, of trg "nodes_awaiting g n port" r g s]
  by (simp add: activated_def gate_open_def [abs_def])

theorem activation_pass_refines_filter_witness:
  "fst (activation_pass demo_env (and_join_trigger ''__chat__'' ''initial-brief'')
     (nodes_awaiting demo_graph ''__chat__'' ''initial-brief'') demo_run demo_graph demo_rt) =
   Inr [(''design'', and_join_trigger ''__chat__'' ''initial-brief'')]"
proof -
  have "map (\<lambda>c. (c, and_join_trigger ''__chat__'' ''initial-brief''))
      (filter (\<lambda>c. list_all (\<lambda>(src, p). port_of demo_run src p = Approved) (required_inputs_for demo_graph c))
        (nodes_awaiting demo_graph ''__chat__'' ''initial-brief'')) =
      [(''design'', and_join_trigger ''__chat__'' ''initial-brief'')]" by code_simp
  then show ?thesis by (simp add: activation_pass_refines_filter [OF demo_env_ok(2)])
qed

section \<open>Approval\<close>

lemma persist_run_reviews:
  assumes "persist_run E r s = (res, s')"
  shows "current_reviews E s' (run_reviews_file fid rid) = current_reviews E s (run_reviews_file fid rid)"
proof -
  have "files s' (run_reviews_file fid rid) = files s (run_reviews_file fid rid)"
    using assms unfolding persist_run_def
    by (auto simp: create_dir_all_def write_file_def flow_simps fr_bind_def run_reviews_file_def run_state_file_def
        run_state_dir_def split: option.splits sum.splits)
  then show ?thesis by (simp add: current_reviews_def)
qed

lemma gate_open_cong: "(\<And>m q. port_of r' m q = port_of r m q) \<Longrightarrow> gate_open r' g = gate_open r g"
  by (rule ext) (simp add: gate_open_def)

lemma mark_approved:
  assumes "get_run s rid = Some r" and "port_of r n port \<noteq> Approved"
  shows "mark_port_status E rid n port Approved s =
    persist_run E (set_port n port Approved r) (put_run rid (set_port n port Approved r) s)"
  using assms by (simp add: mark_port_status_def)

lemma get_run_put [simp]: "get_run (put_run rid r s) rid = Some r"
  by (simp add: get_run_def put_run_def store_simps)

lemma approve_blackboard_run:
  assumes "get_run s rid = Some r"
  shows "\<exists>r'. get_run (approve_blackboard rid n port flow s) rid = Some r' \<and> frs_flow_id r' = frs_flow_id r \<and>
    (\<forall>m q. port_of r' m q = port_of r m q) \<and> files (approve_blackboard rid n port flow s) = files s"
  using assms
  by (auto simp: approve_blackboard_def write_blackboard_entry_def put_blackboard_def port_of_def put_run_def
      get_run_def store_simps split: option.splits)

lemma agent_free: "is_agent flow n \<Longrightarrow> ports_of.human_free n flow"
  by (auto simp: ports_of.human_free_def is_agent_def split: option.splits)

lemma ports_kept:
  assumes "ports_of.keeps n m" and "m s = (res, s')" and "get_run s rid = Some r" and "get_run s' rid = Some r'"
  shows "\<forall>p. port_of r' n p = port_of r n p"
  using ports_of.keepsD [OF assms(1,2)] assms(3,4) by (fastforce simp: ports_of.ext_def)

lemma approve_tail_returns:
  assumes h: "healthy E" and inj: "inj (env_uuid E)" and s: "get_run s rid = Some r"
    and g: "flow_graph flow = Some g" and sound: "reviews_sound (current_reviews E s (run_reviews_file (frs_flow_id r) rid))"
    and agent: "is_agent flow n"
  shows "\<exists>ctxs s'. approve_tail E rid n port flow s = (Inr ctxs, s') \<and>
    map (\<lambda>c. (ctx_node_id c, trig_kind (ctx_trigger c))) ctxs =
      map (\<lambda>i. (i, ''and_join'')) (filter (is_agent flow) (filter (gate_open r g) (nodes_awaiting g n port))) @
      map (\<lambda>i. (i, ''cycle_retrigger'')) (filter (is_agent flow) (nodes_retriggered_by g n port)) @
      (if unapproved flow r n then [(n, ''implicit_reinvoke'')] else [])"
proof -
  let ?s1 = "approve_blackboard rid n port flow s"
  from approve_blackboard_run [OF s, of n port flow] obtain r1 where r1: "get_run ?s1 rid = Some r1"
    "frs_flow_id r1 = frs_flow_id r" "files ?s1 = files s" and same: "\<And>m q. port_of r1 m q = port_of r m q" by blast
  have "reviews_sound (current_reviews E ?s1 (run_reviews_file (frs_flow_id r1) rid))"
    using sound r1 by (simp add: current_reviews_def)
  from update_reviews_healthy [OF h r1(1) this] obtain s2 where
    upd: "update_reviews E rid port n [] 0 ''APPROVED'' ?s1 = (Inr (), s2)" by blast
  then have s2: "get_run s2 rid = Some r1" using r1(1) quietD [OF quiet_update_reviews upd] by (simp add: get_run_def)
  from fire_and_join_returns [OF h inj s2, of n port flow g] obtain js s3 r3 where
    join: "fire_and_join_for E n port rid flow g s2 = (Inr js, s3)" and s3: "get_run s3 rid = Some r3"
    and js: "map ctx_node_id js = filter (is_agent flow) (filter (gate_open r1 g) (nodes_awaiting g n port))"
      "\<forall>c \<in> set js. trig_kind (ctx_trigger c) = ''and_join''" by blast
  from retrigger_returns [OF h s3, of n port flow "nodes_retriggered_by g n port"] obtain cs s4 r4 where
    cyc: "fr_collect (retrigger_node E rid n port flow) (nodes_retriggered_by g n port) s3 = (Inr cs, s4)"
    and s4: "get_run s4 rid = Some r4" and cs: "map ctx_node_id cs = filter (is_agent flow) (nodes_retriggered_by g n port)"
      "\<forall>c \<in> set cs. trig_kind (ctx_trigger c) = ''cycle_retrigger''" by blast
  from implicit_returns [OF h s4, of n port flow] obtain ag s5 where
    imp: "implicit_reinvoke E rid n port flow s4 = (Inr ag, s5)"
    and ag: "map ctx_node_id ag = (if is_agent flow n \<and> unapproved flow r4 n then [n] else [])"
      "\<forall>c \<in> set ag. trig_kind (ctx_trigger c) = ''implicit_reinvoke''" by blast
  have "\<forall>p. port_of r3 n p = port_of r1 n p"
    using ports_of.keeps_fire_and_join [OF agent_free [OF agent]] join s2 s3 by (rule ports_kept)
  moreover have "ports_of.keeps n (fr_collect (retrigger_node E rid n port flow) (nodes_retriggered_by g n port))"
    unfolding retrigger_node_def by (intro ports_of.keeps_collect ports_of.keeps_activate_node agent_free agent)
  then have "\<forall>p. port_of r4 n p = port_of r3 n p" using cyc s3 s4 by (rule ports_kept)
  ultimately have un: "unapproved flow r4 n = unapproved flow r n" by (simp add: unapproved_def same)
  have kinds: "map (\<lambda>c. (ctx_node_id c, trig_kind (ctx_trigger c))) ks = map (\<lambda>i. (i, k)) (map ctx_node_id ks)"
    if "\<forall>c \<in> set ks. trig_kind (ctx_trigger c) = k" for ks k using that by simp
  have "approve_tail E rid n port flow s = (Inr (js @ cs @ ag), fr_emit ''flow.run.changed'' rid s5)"
    using upd join cyc imp g by (simp add: approve_tail_def flow_graph_of_def flow_simps)
  then show ?thesis
    using kinds [OF js(2)] kinds [OF cs(2)] kinds [OF ag(2)] agent gate_open_cong [OF same]
    by (simp add: js(1) cs(1) ag(1) un)
qed

text \<open>
  (C8) Approving a port of an agent node of a flow with a graph, on a working file system with a readable reviews file: a port that
  is approved already changes nothing and schedules nobody; for any other the approval returns and schedules exactly the
  agents among the waiting nodes whose gate it opens, then the agents the port triggers again, then the
  producer itself while one of its ports is not approved.
\<close>

theorem approval_schedules:
  assumes "healthy E" and "inj (env_uuid E)" and "get_run s rid = Some r" and "flow_graph flow = Some g"
    and "reviews_sound (current_reviews E s (run_reviews_file (frs_flow_id r) rid))" and "is_agent flow n"
  shows "if port_of r n port = Approved then on_document_approved E rid n port flow s = (Inr [], s)
    else \<exists>ctxs s'. on_document_approved E rid n port flow s = (Inr ctxs, s') \<and>
    map (\<lambda>c. (ctx_node_id c, trig_kind (ctx_trigger c))) ctxs =
      map (\<lambda>i. (i, ''and_join'')) (filter (is_agent flow)
        (filter (gate_open (set_port n port Approved r) g) (nodes_awaiting g n port))) @
      map (\<lambda>i. (i, ''cycle_retrigger'')) (filter (is_agent flow) (nodes_retriggered_by g n port)) @
      (if unapproved flow (set_port n port Approved r) n then [(n, ''implicit_reinvoke'')] else [])"
proof (cases "port_of r n port = Approved")
  case True
  with assms(3) show ?thesis by (simp add: on_document_approved_def port_status_of_def)
next
  case False
  let ?r = "set_port n port Approved r"
  from returnsD [OF returns_persist_run [OF assms(1)]] obtain u s1 where
    p: "persist_run E ?r (put_run rid ?r s) = (Inr u, s1)" by blast
  have "get_run s1 rid = Some ?r" using quietD [OF quiet_persist_run p] by (simp add: get_run_def put_run_def store_simps)
  moreover have "reviews_sound (current_reviews E s1 (run_reviews_file (frs_flow_id ?r) rid))"
  proof -
    have "current_reviews E (put_run rid ?r s) q = current_reviews E s q" for q
      by (simp add: current_reviews_def put_run_def)
    with assms(5) show ?thesis by (simp add: persist_run_reviews [OF p]) (simp add: set_port_def)
  qed
  ultimately obtain ctxs s' where "approve_tail E rid n port flow s1 = (Inr ctxs, s')"
    "map (\<lambda>c. (ctx_node_id c, trig_kind (ctx_trigger c))) ctxs =
      map (\<lambda>i. (i, ''and_join'')) (filter (is_agent flow) (filter (gate_open ?r g) (nodes_awaiting g n port))) @
      map (\<lambda>i. (i, ''cycle_retrigger'')) (filter (is_agent flow) (nodes_retriggered_by g n port)) @
      (if unapproved flow ?r n then [(n, ''implicit_reinvoke'')] else [])"
    using approve_tail_returns [OF assms(1,2) _ assms(4) _ assms(6)] by blast
  with p assms(3) False show ?thesis
    by (simp add: on_document_approved_def port_status_of_def mark_approved)
qed

theorem approval_schedules_witness:
  "\<exists>ctxs s'. on_document_approved demo_env ''r'' ''dev'' ''code'' demo_flow demo_rt = (Inr ctxs, s') \<and>
    map (\<lambda>c. (ctx_node_id c, trig_kind (ctx_trigger c))) ctxs =
      [(''test'', ''and_join''), (''dev'', ''implicit_reinvoke'')]"
proof -
  have rhs: "map (\<lambda>i. (i, ''and_join'')) (filter (is_agent demo_flow)
        (filter (gate_open (set_port ''dev'' ''code'' Approved demo_run) demo_graph) (nodes_awaiting demo_graph ''dev'' ''code''))) @
      map (\<lambda>i. (i, ''cycle_retrigger'')) (filter (is_agent demo_flow) (nodes_retriggered_by demo_graph ''dev'' ''code'')) @
      (if unapproved demo_flow (set_port ''dev'' ''code'' Approved demo_run) ''dev'' then [(''dev'', ''implicit_reinvoke'')] else []) =
      [(''test'', ''and_join''), (''dev'', ''implicit_reinvoke'')]"
  proof -
    have "unapproved demo_flow (set_port ''dev'' ''code'' Approved demo_run) ''dev''"
      unfolding pending_iff [THEN arg_cong [where f = Not], simplified, symmetric] by code_simp
    moreover have "filter (is_agent demo_flow)
        (filter (gate_open (set_port ''dev'' ''code'' Approved demo_run) demo_graph) (nodes_awaiting demo_graph ''dev'' ''code'')) = [''test'']"
      by code_simp
    moreover have "filter (is_agent demo_flow) (nodes_retriggered_by demo_graph ''dev'' ''code'') = []" by code_simp
    ultimately show ?thesis by simp
  qed
  have "port_of demo_run ''dev'' ''code'' \<noteq> Approved" "is_agent demo_flow ''dev''" by code_simp+
  moreover have "flow_graph demo_flow = Some demo_graph" by (simp add: demo_flow_def)
  ultimately show ?thesis
    using approval_schedules [OF demo_env_ok(1,2) demo_rt_run _ demo_rt_reviews, of demo_flow demo_graph "''dev''" "''code''"]
    unfolding rhs by simp
qed

text \<open>
  An approval sticks, whatever the file system answers: once the port of an agent node has been
  approved in a run, even when the approval returned an error, the port is approved in memory, and
  approving it again changes nothing and activates nothing.
\<close>

theorem approval_sticks:
  assumes "get_run s rid = Some r" and "is_agent flow n"
    and "on_document_approved E rid n port flow s = (res, s1)"
  shows "port_status_of s1 rid n port = Approved \<and> on_document_approved E rid n port flow s1 = (Inr [], s1)"
proof -
  have "port_status_of s1 rid n port = Approved"
  proof (cases "port_of r n port = Approved")
    case True
    with assms(1,3) show ?thesis by (auto simp: on_document_approved_def port_status_of_def)
  next
    case False
    let ?r = "set_port n port Approved r"
    from False assms(1,3) have run: "fr_bind (persist_run E ?r) (\<lambda>_. approve_tail E rid n port flow) (put_run rid ?r s) = (res, s1)"
      by (simp add: on_document_approved_def port_status_of_def fr_bind_def mark_approved)
    have "approved.keeps n port (fr_bind (persist_run E ?r) (\<lambda>_. approve_tail E rid n port flow))"
      using assms(2) by (intro approved.keeps_bind approved.keeps_approve_tail approved.keeps_quiet quiet_persist_run)
        (auto simp: approved.human_free_def is_agent_def split: option.splits)
    from approved.keepsD [OF this run] have "\<exists>r'. get_run s1 rid = Some r' \<and>
        (port_of ?r n port = Approved \<longrightarrow> port_of r' n port = Approved)"
      unfolding approved.ext_def by (metis get_run_put)
    then show ?thesis by (auto simp: port_status_of_def port_of_set_port)
  qed
  then show ?thesis by (simp add: on_document_approved_def)
qed

text \<open>The same runtime on a file system that fails.\<close>

definition failing_env :: "(string, demo_bytes) flow_env" where
  "failing_env = demo_env\<lparr>env_write := (\<lambda>_. Some (''disk full'', None))\<rparr>"

theorem approval_sticks_witness:
  "fst (on_document_approved failing_env ''r'' ''design'' ''prd'' demo_flow demo_rt) = Inl (FlowIoError ''disk full'') \<and>
   fst (on_document_approved demo_env ''r'' ''design'' ''prd'' demo_flow
     (snd (on_document_approved failing_env ''r'' ''design'' ''prd'' demo_flow demo_rt))) = Inr []"
proof -
  let ?s = "snd (on_document_approved failing_env ''r'' ''design'' ''prd'' demo_flow demo_rt)"
  have agent: "is_agent demo_flow ''design''" by code_simp
  have "port_of demo_run ''design'' ''prd'' \<noteq> Approved" by code_simp
  then have "fst (on_document_approved failing_env ''r'' ''design'' ''prd'' demo_flow demo_rt) = Inl (FlowIoError ''disk full'')"
    using demo_rt_run by (simp add: on_document_approved_def port_status_of_def mark_approved fr_bind_def persist_run_def
      create_dir_all_def write_file_def failing_env_def demo_env_def flow_simps)
  moreover have "port_status_of ?s ''r'' ''design'' ''prd'' = Approved"
    using approval_sticks [OF demo_rt_run agent, of failing_env "''prd''" _ ?s] by (metis prod.collapse)
  then have "fst (on_document_approved demo_env ''r'' ''design'' ''prd'' demo_flow ?s) = Inr []"
    by (simp add: on_document_approved_def)
  ultimately show ?thesis by blast
qed

section \<open>Histories of a run\<close>

text \<open>
  (C10) Through every sequence of operations a run stays, keeps its identity, its start and its
  documents, only appends to the invocations of its nodes and to its reviewer verdicts, only adds
  blackboard keys, and once terminal keeps its status, end and failure reason.
\<close>

theorem flow_run_only_grows:
  assumes "flow_steps E s s'" and "get_run s rid = Some r"
  shows "\<exists>r'. get_run s' rid = Some r' \<and> run_grows r r'"
  using grows.run_steps [OF _ assms] by simp

theorem flow_run_only_grows_witness:
  "map_option frs_status (get_run (flow_execs demo_env [CmdComplete ''r'', CmdFail ''r'' ''late'']
     (flow_exec demo_env (CmdCancel ''r'') demo_rt)) ''r'') = Some FrCancelled"
proof -
  let ?s = "flow_exec demo_env (CmdCancel ''r'') demo_rt"
  have "map_option frs_status (get_run ?s ''r'') = Some FrCancelled" by code_simp
  then obtain r where r: "get_run ?s ''r'' = Some r" "frs_status r = FrCancelled" by blast
  have "flow_steps demo_env ?s (flow_execs demo_env [CmdComplete ''r'', CmdFail ''r'' ''late''] ?s)"
    by (rule flow_steps_execs) (auto intro: flow_refl)
  from flow_run_only_grows [OF this r(1)] r(2) show ?thesis by (auto simp: run_grows_def)
qed

lemma start_run_documents:
  assumes "flow_start_run E flow inp s = (Inr (rid, ctxs), s')"
  shows "\<exists>r. get_run s' rid = Some r \<and> documents r = []"
proof -
  let ?rid = "''run-'' @ uuid_simple (env_uuid E (ticks s))"
  let ?r = "set_port ''__chat__'' ''initial-brief'' Approved
    (new_flow_run_state (env_secs E (Suc (ticks s))) ?rid (flow_name flow) inp)"
  from assms obtain s1 g where rid: "rid = ?rid" and fire: "fire_and_join_for E ''__chat__'' ''initial-brief'' ?rid flow g
      (fr_emit ''flow.run.changed'' ?rid (put_run ?rid ?r s1)) = (Inr ctxs, s')"
    unfolding flow_start_run_def Let_def by (auto simp: flow_simps elim!: fr_bind_cases)
  have s1: "get_run (fr_emit ''flow.run.changed'' ?rid (put_run ?rid ?r s1)) ?rid = Some ?r"
    by (simp add: get_run_def put_run_def store_simps)
  have "grows.keeps (fire_and_join_for E ''__chat__'' ''initial-brief'' ?rid flow g)"
    by (rule grows.keeps_fire_and_join) (simp add: grows.human_free_def)
  from grows.keepsD [OF this fire] s1 obtain r' where "get_run s' ?rid = Some r'" "run_grows ?r r'"
    unfolding grows.ext_def by blast
  then show ?thesis by (auto simp: rid run_grows_def set_port_def new_flow_run_state_def)
qed

text \<open>
  No operation ever adds to the documents of a run: whatever happens after a run is started,
  its document list is empty and an agent whose node reads no keys is offered no document.
\<close>

theorem documents_never_recorded:
  assumes "flow_start_run E flow inp s0 = (Inr (rid, ctxs), s)" and "flow_steps E s s'"
    and "fnode flow' n = Some nd" and "fnode_reads nd = []"
  shows "\<exists>r' ctx s2. get_run s' rid = Some r' \<and> documents r' = [] \<and>
    build_invocation_context E rid n trg flow' s' = (Inr (Some ctx), s2) \<and> available_docs ctx = []"
proof -
  from start_run_documents [OF assms(1)] obtain r where r: "get_run s rid = Some r" "documents r = []" by blast
  from grows.run_steps [OF _ assms(2) r(1)] obtain r' where r': "get_run s' rid = Some r'" "run_grows r r'" by auto
  with r have "documents r' = []" by (simp add: run_grows_def)
  with r' assms(4) build_context_returns [OF r'(1) assms(3), of E trg] show ?thesis by (fastforce simp: docs_for_def)
qed

text \<open>A run of the concrete flow, its identifier and the runtime after its start.\<close>

definition started :: "string \<times> demo_bytes flow_runtime" where
  "started = (case flow_start_run demo_env demo_flow ''hi'' new_flow_runtime of
     (Inr (rid, _), s) \<Rightarrow> (rid, s) | (Inl _, s) \<Rightarrow> ([], s))"

lemma start_run_returns:
  assumes h: "healthy E" and inj: "inj (env_uuid E)" and g: "flow_graph flow = Some g"
  shows "\<exists>rid ctxs s'. flow_start_run E flow inp s = (Inr (rid, ctxs), s')"
proof -
  let ?rid = "''run-'' @ uuid_simple (env_uuid E (ticks s))"
  let ?r = "set_port ''__chat__'' ''initial-brief'' Approved
    (new_flow_run_state (env_secs E (Suc (ticks s))) ?rid (flow_name flow) inp)"
  obtain s1 where p: "persist_run E ?r (s\<lparr>ticks := Suc (Suc (ticks s))\<rparr>) = (Inr (), s1)"
    using returnsD [OF returns_persist_run [OF h]] by fastforce
  have run: "get_run (fr_emit ''flow.run.changed'' ?rid (put_run ?rid ?r s2)) ?rid = Some ?r" for s2 :: "'b flow_runtime"
    by (simp add: get_run_def put_run_def store_simps)
  let ?s2 = "s1\<lparr>ticks := Suc (ticks s1), trace_writers := (trace_writers s1)(?rid \<mapsto>
      [(trace_now (env_ms E (ticks s1)) RunStarted)\<lparr>te_run_id := ?rid\<rparr>])\<rparr>"
  from fire_and_join_returns [OF h inj run] obtain ctxs s' where
    "fire_and_join_for E ''__chat__'' ''initial-brief'' ?rid flow g
      (fr_emit ''flow.run.changed'' ?rid (put_run ?rid ?r ?s2)) = (Inr ctxs, s')" by blast
  then have "flow_start_run E flow inp s = (Inr (?rid, ctxs), s')"
    using p by (simp add: flow_start_run_def Let_def flow_simps flow_graph_of_def g)
  then show ?thesis by blast
qed

lemma started_run: "\<exists>ctxs. flow_start_run demo_env demo_flow ''hi'' new_flow_runtime = (Inr (fst started, ctxs), snd started)"
  using start_run_returns [OF demo_env_ok(1,2), of demo_flow demo_graph "''hi''" new_flow_runtime]
  by (auto simp: started_def demo_flow_def)

theorem documents_never_recorded_witness:
  "\<exists>r ctx s2. get_run (flow_exec demo_env (CmdSubmit (fst started) ''design'' ''prd'' demo_flow ''sha'' 1) (snd started)) (fst started) = Some r \<and>
     documents r = [] \<and>
     build_invocation_context demo_env (fst started) ''dev'' (and_join_trigger ''design'' ''prd'') demo_flow
       (flow_exec demo_env (CmdSubmit (fst started) ''design'' ''prd'' demo_flow ''sha'' 1) (snd started)) = (Inr (Some ctx), s2) \<and>
     available_docs ctx = []"
proof -
  obtain ctxs where st: "flow_start_run demo_env demo_flow ''hi'' new_flow_runtime = (Inr (fst started, ctxs), snd started)"
    using started_run by blast
  have "flow_steps demo_env (snd started)
      (flow_exec demo_env (CmdSubmit (fst started) ''design'' ''prd'' demo_flow ''sha'' 1) (snd started))"
    by (rule flow_step [OF flow_refl]) simp
  moreover have "\<exists>nd. fnode demo_flow ''dev'' = Some nd \<and> fnode_reads nd = []"
    by (simp add: fnode_def demo_flow_def demo_nodes_def plain_node_def)
  ultimately show ?thesis using documents_never_recorded [OF st] by blast
qed

section \<open>Seeding\<close>

lemma seeded_join_empty:
  assumes inj: "inj (env_uuid E)" and ok: "graph_maps_ok g"
    and mark: "mark_port_status_unchecked E rid n port Seeded s = (Inr (), s1)"
    and fire: "fire_and_join_for E n port rid flow g s1 = (Inr ctxs, s2)"
  shows "ctxs = []"
proof -
  from mark obtain r where r: "get_run s rid = Some r"
    and p: "persist_run E (set_port n port Seeded r) (put_run rid (set_port n port Seeded r) s) = (Inr (), s1)"
    by (auto simp: mark_port_status_unchecked_def split: option.splits)
  have s1: "get_run s1 rid = Some (set_port n port Seeded r)"
    using quietD [OF quiet_persist_run p] by (simp add: get_run_def put_run_def store_simps)
  have "\<not> gate_open (set_port n port Seeded r) g c" if "c \<in> set (nodes_awaiting g n port)" for c
    using that nodes_awaiting_iff [OF ok] by (auto simp: gate_open_def list_all_iff port_of_set_port intro!: bexI [of _ "(n, port)"])
  then have "activated (set_port n port Seeded r) g (and_join_trigger n port) (nodes_awaiting g n port) = []"
    by (simp add: activated_def)
  with fire s1 show ?thesis by (simp add: fire_and_join_eq [OF inj] flow_simps split: if_splits)
qed

text \<open>
  Seeding a run never activates anything: a seeded port does not count as approved in the
  activation pass, although it does in \<^verbatim>\<open>is_node_ready\<close>.
\<close>

theorem seeding_activates_nothing:
  assumes "inj (env_uuid E)" and "flow_graph flow = Some g" and "graph_maps_ok g"
    and "apply_seeded_entries E rid flow seeds s = (Inr ctxs, s')"
  shows "ctxs = []"
proof -
  have "apply_seeds E rid flow g seeds s = (Inr ctxs, s') \<Longrightarrow> ctxs = []" for s
  proof (induction seeds arbitrary: s ctxs)
    case (Cons sd seeds)
    obtain key e where sd: "sd = (key, e)" by force
    from Cons.prems obtain cs rest s1 s2 where
      one: "(case find_output_by_blackboard_key flow key of None \<Rightarrow> fr_return []
        | Some (n, port) \<Rightarrow> fr_bind (mark_port_status_unchecked E rid n port Seeded)
            (\<lambda>_. fire_and_join_for E n port rid flow g)) s1 = (Inr cs, s2)"
      and rest: "apply_seeds E rid flow g seeds s2 = (Inr rest, s')" "ctxs = cs @ rest"
      by (auto simp: sd flow_simps elim!: fr_bind_cases)
    from one have "cs = []"
      by (auto simp: flow_simps elim!: fr_bind_cases dest: seeded_join_empty [OF assms(1,3)] split: option.splits prod.splits)
    with Cons.IH [OF rest(1)] rest(2) show ?case by simp
  qed (simp add: flow_simps)
  with assms(2,4) show ?thesis by (simp add: apply_seeded_entries_def flow_graph_of_def flow_simps)
qed

text \<open>The concrete flow with a key on the design document.\<close>

definition keyed_flow :: flow_definition where
  "keyed_flow = demo_flow\<lparr>flow_nodes :=
     plain_node ''design'' ''pm'' [(plain_out ''prd'' (Some ''dev'') [])\<lparr>blackboard_key := Some ''prd''\<rparr>] # tl demo_nodes\<rparr>"

definition seed_doc :: blackboard_entry where
  "seed_doc = \<lparr>be_doc = \<lparr>ad_path = ''p'', ad_doc_type = ''prd'', ad_revision = 1\<rparr>, be_written_by = AutoSeeded ''old''\<rparr>"

lemma seed_demo:
  "\<exists>s'. apply_seeded_entries demo_env ''r'' keyed_flow [(''prd'', seed_doc)] demo_rt = (Inr [], s') \<and>
    map_option (\<lambda>r. is_node_ready ''dev'' r demo_graph) (get_run s' ''r'') = Some True"
proof -
  have key: "find_output_by_blackboard_key keyed_flow ''prd'' = Some (''design'', ''prd'')" by code_simp
  have nodes: "nodes_awaiting demo_graph ''design'' ''prd'' = [''dev'']" by code_simp
  let ?s0 = "write_blackboard_entry ''r'' ''prd'' (be_doc seed_doc) (be_written_by seed_doc) demo_rt"
  let ?board = "put_blackboard ''prd'' seed_doc demo_run"
  let ?r = "set_port ''design'' ''prd'' Seeded ?board"
  have s0: "get_run ?s0 ''r'' = Some ?board"
    by (simp add: write_blackboard_entry_def demo_rt_run seed_doc_def)
  obtain s1 where mark: "mark_port_status_unchecked demo_env ''r'' ''design'' ''prd'' Seeded ?s0 = (Inr (), s1)"
    using mark_unchecked_returns [OF demo_env_ok(1) s0] by blast
  then have "persist_run demo_env ?r (put_run ''r'' ?r ?s0) = (Inr (), s1)"
    by (simp only: mark_port_status_unchecked_def s0 option.case)
  from quietD [OF quiet_persist_run this] have s1: "get_run s1 ''r'' = Some ?r" by (metis get_run_put get_run_def)
  have closed: "\<not> gate_open ?r demo_graph ''dev''" and ready: "is_node_ready ''dev'' ?r demo_graph" by code_simp+
  let ?s2 = "s1\<lparr>ticks := Suc (Suc (ticks s1))\<rparr>"
  have "fire_and_join_for demo_env ''design'' ''prd'' ''r'' keyed_flow demo_graph s1 = (Inr [], ?s2)"
    using s1 closed by (simp add: fire_and_join_eq [OF demo_env_ok(2)] nodes activated_def flow_simps)
  moreover have "flow_graph keyed_flow = Some demo_graph" by (simp add: keyed_flow_def demo_flow_def)
  ultimately have "apply_seeded_entries demo_env ''r'' keyed_flow [(''prd'', seed_doc)] demo_rt = (Inr [], ?s2)"
    using mark key by (simp add: apply_seeded_entries_def flow_graph_of_def flow_simps)
  moreover have "get_run ?s2 ''r'' = Some ?r" using s1 by (simp add: get_run_def)
  ultimately show ?thesis using ready by simp
qed

theorem seeding_activates_nothing_witness:
  "\<exists>ctxs s'. apply_seeded_entries demo_env ''r'' keyed_flow [(''prd'', seed_doc)] demo_rt = (Inr ctxs, s') \<and> ctxs = [] \<and>
   map_option (\<lambda>r. is_node_ready ''dev'' r demo_graph) (get_run s' ''r'') = Some True"
proof -
  obtain ctxs s' where op: "apply_seeded_entries demo_env ''r'' keyed_flow [(''prd'', seed_doc)] demo_rt = (Inr ctxs, s')"
    and ready: "map_option (\<lambda>r. is_node_ready ''dev'' r demo_graph) (get_run s' ''r'') = Some True"
    using seed_demo by blast
  have "flow_graph keyed_flow = Some demo_graph" by (simp add: keyed_flow_def demo_flow_def)
  moreover have "graph_maps_ok demo_graph" by code_simp
  ultimately have "ctxs = []" using op by (rule seeding_activates_nothing [OF demo_env_ok(2)])
  with op ready show ?thesis by blast
qed

section \<open>Reviewer verdicts\<close>

lemma requeue_pending:
  assumes "on_rejected_requeue E rid n port flow s = (Inr ctx, s')"
  shows "port_status_of s' rid n port = PortPending" and "fnode flow n = Some nd \<Longrightarrow>
    \<exists>c. ctx = Some c \<and> ctx_node_id c = n \<and> ctx_owner c = fnode_owner nd \<and> trig_kind (ctx_trigger c) = ''rejected_requeue''"
proof -
  from assms obtain s1 s2 s3 where mark: "mark_port_status_unchecked E rid n port PortPending s = (Inr (), s1)"
    and upd: "update_reviews E rid port n [] 0 ''CHANGES_REQUESTED'' s1 = (Inr (), s2)"
    and sched: "schedule_node_with_context E rid n \<lparr>trig_kind = ''rejected_requeue'', approved_port = Some port,
      from_node = None, reviewer_doc_path = None\<rparr> flow s2 = (Inr ctx, s3)"
    and s': "s' = fr_emit ''flow.run.changed'' rid s3"
    unfolding on_rejected_requeue_def by (auto simp: flow_simps elim!: fr_bind_cases)
  from mark obtain r where r: "get_run s rid = Some r"
    and p: "persist_run E (set_port n port PortPending r) (put_run rid (set_port n port PortPending r) s) = (Inr (), s1)"
    by (auto simp: mark_port_status_unchecked_def split: option.splits)
  have s2: "get_run s2 rid = Some (set_port n port PortPending r)"
    using quietD [OF quiet_persist_run p] quietD [OF quiet_update_reviews upd]
    by (simp add: get_run_def put_run_def store_simps)
  from this ports_of.keepsD [OF ports_of.keeps_schedule sched, of n] obtain r3 where
    "get_run s3 rid = Some r3" "\<forall>p. port_of r3 n p = port_of (set_port n port PortPending r) n p"
    unfolding ports_of.ext_def by blast
  then show "port_status_of s' rid n port = PortPending" by (simp add: s' port_status_of_def get_run_def port_of_set_port)
  show "\<exists>c. ctx = Some c \<and> ctx_node_id c = n \<and> ctx_owner c = fnode_owner nd \<and> trig_kind (ctx_trigger c) = ''rejected_requeue''"
    if nd: "fnode flow n = Some nd"
  proof -
    let ?trg = "\<lparr>trig_kind = ''rejected_requeue'', approved_port = Some port, from_node = None, reviewer_doc_path = None\<rparr>"
    from build_context_returns [OF s2 nd, of E ?trg] obtain c s4 where
      "build_invocation_context E rid n ?trg flow s2 = (Inr (Some c), s4)" "ctx_node_id c = n" "ctx_owner c = fnode_owner nd"
      "ctx_trigger c = ?trg" by blast
    with sched show ?thesis unfolding schedule_node_with_context_def by (auto simp: flow_simps elim!: fr_bind_cases)
  qed
qed

lemma reviews_put [simp]: "current_reviews E (put_run rid r s) p = current_reviews E s p"
  by (simp add: current_reviews_def put_run_def)

lemma requeue_returns:
  assumes h: "healthy E" and s: "get_run s rid = Some r" and nd: "fnode flow n = Some nd"
    and sound: "reviews_sound (current_reviews E s (run_reviews_file (frs_flow_id r) rid))"
  shows "\<exists>ctx s'. on_rejected_requeue E rid n port flow s = (Inr (Some ctx), s')"
proof -
  let ?r = "set_port n port PortPending r"
  obtain s1 where p: "persist_run E ?r (put_run rid ?r s) = (Inr (), s1)"
    using returnsD [OF returns_persist_run [OF h]] by fastforce
  have s1: "get_run s1 rid = Some ?r" using quietD [OF quiet_persist_run p] by (metis get_run_put get_run_def)
  have "reviews_sound (current_reviews E s1 (run_reviews_file (frs_flow_id ?r) rid))"
    using sound by (simp add: persist_run_reviews [OF p]) (simp add: set_port_def)
  from update_reviews_healthy [OF h s1 this] obtain s2 where
    upd: "update_reviews E rid port n [] 0 ''CHANGES_REQUESTED'' s1 = (Inr (), s2)" by blast
  have s2: "get_run s2 rid = Some ?r" using s1 quietD [OF quiet_update_reviews upd] by (simp add: get_run_def)
  from schedule_returns [OF h s2 nd, of "\<lparr>trig_kind = ''rejected_requeue'', approved_port = Some port,
      from_node = None, reviewer_doc_path = None\<rparr>"] obtain ctx s3 where
    "schedule_node_with_context E rid n \<lparr>trig_kind = ''rejected_requeue'', approved_port = Some port,
      from_node = None, reviewer_doc_path = None\<rparr> flow s2 = (Inr (Some ctx), s3)" by blast
  with p s upd show ?thesis
    by (simp add: on_rejected_requeue_def mark_port_status_unchecked_def flow_simps)
qed

lemma verdicts_of_push:
  "prefix (verdicts_of r k) (verdicts_of (push_verdict k who v r) k)"
  by (simp add: push_verdict_def verdicts_of_def)

lemma any_rejected_prefix: "any_rejected xs \<Longrightarrow> prefix xs ys \<Longrightarrow> any_rejected ys"
  by (auto simp: any_rejected_def prefix_def)

text \<open>
  (C13) A rejection is never forgotten: once one reviewer rejected a port in a run, every later verdict
  on it that returns, an approval by the same reviewer included, sends the port back to pending and
  answers with exactly one agent to start: its producer, a node of the flow, with the trigger of a rejection.
\<close>

theorem rejection_is_final:
  assumes "get_run s rid = Some r" and "any_rejected (verdicts_of r (verdict_key rid n port))"
    and "flow_steps E s s'" and "on_reviewer_verdict E rid n port who v cs flow s' = (Inr out, s2)" and "fnode flow n = Some nd"
  shows "port_status_of s2 rid n port = PortPending \<and>
    (\<exists>c. out = Some [c] \<and> ctx_node_id c = n \<and> ctx_owner c = fnode_owner nd \<and> trig_kind (ctx_trigger c) = ''rejected_requeue'')"
proof -
  let ?k = "verdict_key rid n port"
  from grows.run_steps [OF _ assms(3,1)] obtain r' where r': "get_run s' rid = Some r'" "run_grows r r'" by auto
  let ?comments = "if cs = [] then fr_return () else write_review_comments E (frs_flow_id r') rid port who cs"
  have "quiet ?comments" by simp
  moreover from assms(4) r'(1) obtain s1 where c: "?comments s' = (Inr (), s1)"
    and rest: "(case get_run s1 rid of
           None \<Rightarrow> (Inl (RunNotInMap rid), s1)
         | Some r \<Rightarrow>
             let r1 = push_verdict ?k who v r; vs = verdicts_of r1 ?k
             in fr_bind (persist_or_warn E rid) (\<lambda>_.
                  if any_rejected vs
                  then fr_bind (on_rejected_requeue E rid n port flow) (\<lambda>ctx. fr_return (Some (opt_list ctx)))
                  else if all_approved flow n port vs \<and> ''human'' \<notin> set (reviewers_of flow n port)
                  then fr_bind (on_document_approved E rid n port flow) (\<lambda>ctxs. fr_return (Some ctxs))
                  else if all_approved flow n port vs
                  then fr_bind (emit_op ''flow.run.changed'' rid) (\<lambda>_. fr_return (Some [human_pending n port None]))
                  else fr_return None) (put_run rid r1 s1)) = (Inr out, s2)"
    by (auto simp: on_reviewer_verdict_def elim!: fr_bind_cases)
  ultimately have "get_run s1 rid = Some r'" using r'(1) quietD by (fastforce simp: get_run_def)
  moreover have "any_rejected (verdicts_of (push_verdict ?k who v r') ?k)"
  proof -
    have "prefix (verdicts_of r ?k) (verdicts_of r' ?k)" using r'(2) by (simp add: run_grows_def)
    from any_rejected_prefix [OF assms(2) this] show ?thesis by (rule any_rejected_prefix) (rule verdicts_of_push)
  qed
  ultimately obtain s3 ctx where "on_rejected_requeue E rid n port flow s3 = (Inr ctx, s2)" "out = Some (opt_list ctx)"
    using rest by (auto simp: Let_def flow_simps elim!: fr_bind_cases)
  then show ?thesis using requeue_pending(1) requeue_pending(2) [OF _ assms(5)] by (fastforce simp: opt_list_def)
qed

text \<open>The first verdict is a rejection, the second one an approval by the same reviewer.\<close>

definition rejected_run :: flow_run_state where
  "rejected_run = push_verdict (verdict_key ''r'' ''dev'' ''notes'') ''pm'' Reject demo_run"

definition rejected_rt :: "demo_bytes flow_runtime" where
  "rejected_rt = put_run ''r'' rejected_run new_flow_runtime"

theorem rejection_is_final_witness:
  "port_status_of (snd (on_reviewer_verdict demo_env ''r'' ''dev'' ''notes'' ''pm'' Approve [] demo_flow rejected_rt))
     ''r'' ''dev'' ''notes'' = PortPending \<and>
   (\<exists>c. fst (on_reviewer_verdict demo_env ''r'' ''dev'' ''notes'' ''pm'' Approve [] demo_flow rejected_rt) = Inr (Some [c]) \<and>
     ctx_node_id c = ''dev'')"
proof -
  let ?op = "on_reviewer_verdict demo_env ''r'' ''dev'' ''notes'' ''pm'' Approve [] demo_flow rejected_rt"
  have "get_run rejected_rt ''r'' = Some rejected_run" by (simp add: rejected_rt_def)
  moreover have "any_rejected (verdicts_of rejected_run (verdict_key ''r'' ''dev'' ''notes''))" by code_simp
  moreover have "flow_steps demo_env rejected_rt rejected_rt" by (rule flow_refl)
  moreover obtain out where "?op = (Inr out, snd ?op)"
  proof -
    obtain s1 where p: "persist_run demo_env rejected_run (put_run ''r'' rejected_run rejected_rt) = (Inr (), s1)"
      using returnsD [OF returns_persist_run [OF demo_env_ok(1)]] by fastforce
    have s1: "get_run s1 ''r'' = Some rejected_run"
      using quietD [OF quiet_persist_run p] by (metis get_run_put get_run_def)
    have "current_reviews demo_env s1 (run_reviews_file (frs_flow_id rejected_run) ''r'') = empty_reviews"
      by (simp add: persist_run_reviews [OF p]) (simp add: rejected_rt_def current_reviews_def put_run_def new_flow_runtime_def)
    moreover have "\<exists>nd. fnode demo_flow ''dev'' = Some nd"
      by (simp add: fnode_def demo_flow_def demo_nodes_def plain_node_def)
    ultimately obtain ctx s2 where "on_rejected_requeue demo_env ''r'' ''dev'' ''notes'' demo_flow s1 = (Inr (Some ctx), s2)"
      using requeue_returns [OF demo_env_ok(1) s1, of demo_flow "''dev''" _ "''notes''"] empty_reviews_sound by metis
    moreover have "push_verdict (verdict_key ''r'' ''dev'' ''notes'') ''pm'' Approve rejected_run = rejected_run"
      by (simp add: push_verdict_def rejected_run_def verdicts_of_def demo_run_def new_flow_run_state_def set_port_def)
    ultimately have "?op = (Inr (Some (opt_list (Some ctx))), s2)"
      using p \<open>get_run rejected_rt ''r'' = Some rejected_run\<close>
        \<open>any_rejected (verdicts_of rejected_run (verdict_key ''r'' ''dev'' ''notes''))\<close>
      by (simp add: on_reviewer_verdict_def flow_simps Let_def fr_bind_def persist_or_warn_def fr_ignore_def)
    with that show ?thesis by simp
  qed
  moreover obtain nd where "fnode demo_flow ''dev'' = Some nd"
    by (simp add: fnode_def demo_flow_def demo_nodes_def plain_node_def)
  ultimately have "port_status_of (snd ?op) ''r'' ''dev'' ''notes'' = PortPending \<and> (\<exists>c. out = Some [c] \<and> ctx_node_id c = ''dev'')"
    using rejection_is_final [of rejected_rt "''r''" rejected_run "''dev''" "''notes''" demo_env rejected_rt "''pm''" Approve "[]" demo_flow out "snd ?op" nd]
    by blast
  with \<open>?op = (Inr out, snd ?op)\<close> show ?thesis by (metis fst_conv)
qed

section \<open>Cycle limits\<close>

lemma less_Suc_word: "c \<noteq> - 1 \<Longrightarrow> m < c + 1 \<longleftrightarrow> m \<le> c" for c m :: u32
proof -
  assume "c \<noteq> - 1"
  then have "1 + c \<noteq> 0" by (metis add.commute add_eq_0_iff)
  then have "unat (c + 1) = Suc (unat c)" by (metis add.commute unatSuc)
  then show ?thesis by (simp add: word_less_nat_alt word_le_nat_alt less_Suc_eq_le)
qed

lemma cycles_of_bump: "cycles_of (bump_cycles n p r) n p = cycles_of r n p + 1"
  by (simp add: cycles_of_def bump_cycles_def upd_default_def default_node_run_state_def split: option.split)

text \<open>
  Every submission on a port with a cycle limit counts, and is refused with the action of the
  port exactly when the count was at the limit before; a refused one changes nothing but the count.
  (At \<open>2 ^ 32 - 1\<close> the counter itself would wrap around.)
\<close>

theorem cycle_limit_enforced:
  assumes "healthy E" and "get_run s rid = Some r" and "cycle_bound flow n port = Some (m, act)"
    and "cycles_of r n port \<noteq> - 1"
  shows "(if m \<le> cycles_of r n port
     then fst (check_cycle_limit E rid n port flow s) = Inr (Some act) \<and>
       on_document_submitted E rid n port flow sha rno s =
         (Inl (CycleLimitExceeded n port act), snd (check_cycle_limit E rid n port flow s))
     else fst (check_cycle_limit E rid n port flow s) = Inr None) \<and>
    get_run (snd (check_cycle_limit E rid n port flow s)) rid = Some (bump_cycles n port r) \<and>
    cycles_of (bump_cycles n port r) n port = cycles_of r n port + 1"
proof -
  let ?r = "bump_cycles n port r"
  obtain s1 where p: "persist_run E ?r (put_run rid ?r s) = (Inr (), s1)"
    using returnsD [OF returns_persist_run [OF assms(1)]] by fastforce
  have s1: "get_run s1 rid = Some ?r" using quietD [OF quiet_persist_run p] by (metis get_run_put get_run_def)
  have "check_cycle_limit E rid n port flow s =
      (Inr (if m \<le> cycles_of r n port then Some act else None), s1)"
    using p assms(2) less_Suc_word [OF assms(4), of m]
    by (simp add: check_cycle_limit_def assms(3) increment_port_cycles_def Let_def flow_simps fr_bind_def cycles_of_bump)
  with s1 show ?thesis by (simp add: on_document_submitted_def flow_simps cycles_of_bump)
qed

text \<open>A run in which the bug reports have used up their two rounds.\<close>

definition exhausted_run :: flow_run_state where
  "exhausted_run = bump_cycles ''test'' ''bugs'' (bump_cycles ''test'' ''bugs'' demo_run)"

theorem cycle_limit_enforced_witness:
  "fst (on_document_submitted demo_env ''r'' ''test'' ''bugs'' demo_flow ''sha'' 3 (put_run ''r'' exhausted_run new_flow_runtime)) =
   Inl (CycleLimitExceeded ''test'' ''bugs'' ''halt'')"
proof -
  have "get_run (put_run ''r'' exhausted_run (new_flow_runtime :: demo_bytes flow_runtime)) ''r'' = Some exhausted_run"
    by simp
  moreover have "cycle_bound demo_flow ''test'' ''bugs'' = Some (2, ''halt'')" by code_simp
  moreover have "cycles_of exhausted_run ''test'' ''bugs'' = 2" by code_simp
  ultimately show ?thesis
    using cycle_limit_enforced [OF demo_env_ok(1), of "put_run ''r'' exhausted_run new_flow_runtime" "''r''" exhausted_run demo_flow "''test''" "''bugs''" 2 "''halt''"]
    by simp
qed

section \<open>Restarting\<close>

text \<open>What the code relies on from serde: a run that was written is read back.\<close>

definition run_codec :: "('io, 'b) flow_env \<Rightarrow> bool" where
  "run_codec E \<longleftrightarrow> (\<forall>r bytes. env_enc E r = Inr bytes \<longrightarrow> env_dec E bytes = Inr r)"

definition paused :: "flow_run_state \<Rightarrow> flow_run_state" where
  "paused r = (if frs_status r = FrRunning then r\<lparr>frs_status := FrPaused\<rparr> else r)"

abbreviation run_dirs :: "flow_run_state \<Rightarrow> (string \<times> bool \<times> string list option) list" where
  "run_dirs r \<equiv> [(frs_flow_id r, True, Some [frs_run_id r])]"

lemma persist_run_file:
  assumes "persist_run E r s = (Inr (), s')"
  shows "\<exists>bytes. env_enc E r = Inr bytes \<and> files s' (run_state_file (frs_flow_id r) (frs_run_id r)) = Some bytes"
  using assms unfolding persist_run_def
  by (auto simp: create_dir_all_def write_file_def flow_simps fr_bind_def split: option.splits sum.splits)

lemma rehydrate_one:
  assumes h: "healthy E" and c: "run_codec E"
    and f: "files s (run_state_file (frs_flow_id r) (frs_run_id r)) = Some bytes" "env_enc E r = Inr bytes"
  shows "\<exists>s' bytes'. rehydrate_from_disk E (Some (run_dirs r)) s = (Inr (if frs_status r = FrRunning then 1 else 0), s') \<and>
    get_run s' (frs_run_id r) = Some (paused r) \<and>
    (originating_session_id r \<noteq> None \<longrightarrow> lookup_chat_session s' (frs_run_id r) = originating_session_id r) \<and>
    files s' (run_state_file (frs_flow_id r) (frs_run_id r)) = Some bytes' \<and> env_enc E (paused r) = Inr bytes'"
proof -
  let ?s = "s\<lparr>ticks := Suc (ticks s)\<rparr>"
  have dec: "env_dec E bytes = Inr r" using c f(2) by (simp add: run_codec_def)
  have ids: "frs_flow_id (paused r) = frs_flow_id r" "frs_run_id (paused r) = frs_run_id r"
    "originating_session_id (paused r) = originating_session_id r" by (simp_all add: paused_def)
  obtain s1 bytes' where save: "(if frs_status r = FrRunning then fr_ignore (persist_run E (paused r)) else fr_return ()) ?s = (Inr (), s1)"
    and b: "files s1 (run_state_file (frs_flow_id r) (frs_run_id r)) = Some bytes'" "env_enc E (paused r) = Inr bytes'"
  proof (cases "frs_status r = FrRunning")
    case True
    obtain s1 where p: "persist_run E (paused r) ?s = (Inr (), s1)"
      using returnsD [OF returns_persist_run [OF h]] by fastforce
    with persist_run_file [OF p] True that show ?thesis by (auto simp: fr_ignore_def ids)
  next
    case False
    with f that [of ?s bytes] show ?thesis by (simp add: flow_simps paused_def)
  qed
  have "rehydrate_run E (frs_flow_id r) (frs_run_id r) s =
      (Inr (if frs_status r = FrRunning then 1 else 0), put_run (frs_run_id r) (paused r)
        (case originating_session_id r of None \<Rightarrow> s1
         | Some sid \<Rightarrow> s1\<lparr>chat_sessions := (chat_sessions s1)(frs_run_id r \<mapsto> sid)\<rparr>))"
    using f(1) dec save healthyD(4) [OF h]
    by (simp add: rehydrate_run_def flow_simps paused_def [symmetric] ids Let_def split: option.split)
  then show ?thesis using b
    by (auto simp: rehydrate_from_disk_def flow_simps fr_bind_def lookup_chat_session_def put_run_def get_run_def
        store_simps split: option.split)
qed

text \<open>
  (C12) A restart brings back a run as it was last persisted, except that a running one is paused,
  and counts those; the chat session it came from is known again; and a second restart changes
  nothing more.
\<close>

theorem restart_restores_run:
  assumes "healthy E" and "run_codec E" and "persist_run E r s = (Inr (), s1)"
  shows "\<exists>s2 s3. rehydrate_from_disk E (Some (run_dirs r)) (new_flow_runtime\<lparr>files := files s1\<rparr>) =
      (Inr (if frs_status r = FrRunning then 1 else 0), s2) \<and>
    get_run s2 (frs_run_id r) = Some (if frs_status r = FrRunning then r\<lparr>frs_status := FrPaused\<rparr> else r) \<and>
    (case originating_session_id r of None \<Rightarrow> True | Some sid \<Rightarrow> lookup_chat_session s2 (frs_run_id r) = Some sid) \<and>
    rehydrate_from_disk E (Some (run_dirs r)) (new_flow_runtime\<lparr>files := files s2\<rparr>) = (Inr 0, s3) \<and>
    get_run s3 (frs_run_id r) = get_run s2 (frs_run_id r)"
proof -
  have ids: "frs_flow_id (paused r) = frs_flow_id r" "frs_run_id (paused r) = frs_run_id r" "paused (paused r) = paused r"
    "frs_status (paused r) \<noteq> FrRunning" by (simp_all add: paused_def)
  from persist_run_file [OF assms(3)] obtain bytes where "env_enc E r = Inr bytes"
    "files (new_flow_runtime\<lparr>files := files s1\<rparr>) (run_state_file (frs_flow_id r) (frs_run_id r)) = Some bytes" by auto
  from rehydrate_one [OF assms(1,2) this(2,1)] obtain s2 bytes2 where
    s2: "rehydrate_from_disk E (Some (run_dirs r)) (new_flow_runtime\<lparr>files := files s1\<rparr>) =
      (Inr (if frs_status r = FrRunning then 1 else 0), s2)" "get_run s2 (frs_run_id r) = Some (paused r)"
      "originating_session_id r \<noteq> None \<longrightarrow> lookup_chat_session s2 (frs_run_id r) = originating_session_id r"
    and f2: "files s2 (run_state_file (frs_flow_id r) (frs_run_id r)) = Some bytes2" "env_enc E (paused r) = Inr bytes2" by blast
  have "files (new_flow_runtime\<lparr>files := files s2\<rparr>) (run_state_file (frs_flow_id (paused r)) (frs_run_id (paused r))) = Some bytes2"
    using f2(1) by (simp add: ids)
  from rehydrate_one [OF assms(1,2) this f2(2)] obtain s3 where
    "rehydrate_from_disk E (Some (run_dirs r)) (new_flow_runtime\<lparr>files := files s2\<rparr>) = (Inr 0, s3)"
    "get_run s3 (frs_run_id r) = Some (paused r)" by (auto simp: ids)
  with s2 show ?thesis by (intro exI [of _ s2] exI [of _ s3]) (auto simp: paused_def split: option.split)
qed

theorem restart_restores_run_witness:
  "\<exists>s2. rehydrate_from_disk demo_env (Some (run_dirs demo_run))
      (new_flow_runtime\<lparr>files := files (snd (persist_run demo_env demo_run demo_rt))\<rparr>) = (Inr 1, s2) \<and>
    get_run s2 ''r'' = Some (demo_run\<lparr>frs_status := FrPaused\<rparr>)"
proof -
  have codec: "run_codec demo_env" by (simp add: run_codec_def demo_env_def)
  obtain s1 where p: "persist_run demo_env demo_run demo_rt = (Inr (), s1)"
    using returnsD [OF returns_persist_run [OF demo_env_ok(1)]] by fastforce
  have "frs_status demo_run = FrRunning" "frs_run_id demo_run = ''r''" by code_simp+
  with restart_restores_run [OF demo_env_ok(1) codec p] show ?thesis by (simp add: p) blast
qed

section \<open>Review comments\<close>

text \<open>
  Comments round-trip: on a reviews file of the shape the runtime writes, writing comments for a
  port whose name has no slash and no tilde succeeds, keeps the shape, and reading the port gives
  what it gave before followed by the new comments.
\<close>

theorem comments_roundtrip:
  assumes "healthy E" and "json_codec E" and "plain_port port"
    and "reviews_sound (current_reviews E s (run_reviews_file fid rid))"
  shows "\<exists>before s0 s1 s2. read_review_comments E fid rid port s = (Inr before, s0) \<and>
    write_review_comments E fid rid port who cs s = (Inr (), s1) \<and>
    reviews_sound (current_reviews E s1 (run_reviews_file fid rid)) \<and>
    read_review_comments E fid rid port s1 = (Inr (before @ cs), s2)"
proof -
  let ?p = "run_reviews_file fid rid"
  from write_review_comments_healthy [OF assms(1,4), of port who cs] assms(2) obtain now j s1 where
    w: "write_review_comments E fid rid port who cs s = (Inr (), s1)" "reviews_sound j" "current_reviews E s1 ?p = j"
    and new: "entry_comments (entry_at port j) =
      entry_comments (entry_at port (current_reviews E s ?p)) @ map (comment_json who now) cs" by blast
  have "comments_at port j = comments_at port (current_reviews E s ?p) @ cs"
    by (simp add: comments_at_plain assms(3,4) w(2) new map_filter_comments)
  with w read_review_comments_healthy [OF assms(1), of fid rid port s]
    read_review_comments_healthy [OF assms(1), of fid rid port s1] show ?thesis by metis
qed

definition demo_comment :: review_comment where
  "demo_comment = \<lparr>rc_severity = ''warn'', rc_message = ''unclear'', rc_suggestion = None\<rparr>"

theorem comments_roundtrip_witness:
  "\<exists>s0 s1 s2. read_review_comments demo_env ''f'' ''r'' ''prd'' demo_rt = (Inr [], s0) \<and>
    write_review_comments demo_env ''f'' ''r'' ''prd'' ''pm'' [demo_comment] demo_rt = (Inr (), s1) \<and>
    read_review_comments demo_env ''f'' ''r'' ''prd'' s1 = (Inr [demo_comment], s2)"
proof -
  have "plain_port ''prd''" by (simp add: plain_port_def)
  moreover have "fst (read_review_comments demo_env ''f'' ''r'' ''prd'' demo_rt) = Inr []" by code_simp
  ultimately show ?thesis
    using comments_roundtrip [OF demo_env_ok(1,3) _ demo_rt_reviews, of "''prd''" "''f''" "''r''" "''pm''" "[demo_comment]"]
    by auto
qed

text \<open>
  A port whose name has a slash: its comments are written, but the pointer the reader builds leads
  elsewhere and finds none.
\<close>

lemma slash_port_comments_lost:
  "fst (write_review_comments demo_env ''f'' ''r'' ''a/b'' ''pm'' [demo_comment] demo_rt) = Inr () \<and>
   fst (read_review_comments demo_env ''f'' ''r'' ''a/b''
     (snd (write_review_comments demo_env ''f'' ''r'' ''a/b'' ''pm'' [demo_comment] demo_rt))) = Inr []"
  by code_simp

end
