(* ===== verification/AgentTypes.thy ===== *)
theory AgentTypes
  imports Authority
begin

text \<open>
  The vocabulary of an agent loop: the requests and the streamed events of a model provider
  (\<^verbatim>\<open>llm/messages.rs\<close>, \<^verbatim>\<open>llm/provider.rs\<close>), the outcomes of a tool (\<^verbatim>\<open>agent_loop/tools.rs\<close>), and the
  world a loop runs in. The world holds the authority, the stores of the middleware and everything
  else (\<open>outside\<close>); what other tasks do while the loop waits is part of the functions that stand
  for the provider, the tools and the waiting.
\<close>

section \<open>Requests and streams\<close>

text \<open>
  A 32-bit float is its bit pattern. A counter of type \<^verbatim>\<open>usize\<close> has 64 bits where it can reach its
  bound; lengths and limits are \<open>nat\<close>.
\<close>

type_synonym f32 = "32 word"
type_synonym usize = "64 word"

definition saturating_inc :: "usize \<Rightarrow> usize" where
  "saturating_inc n = (if n = - 1 then n else n + 1)"

record tool_def =
  td_name :: string
  td_description :: string
  td_parameters :: json

datatype thinking_config =
  Adaptive bool "string option"
| Budget u32
| ReasoningEffort string

record llm_request =
  req_model :: string
  req_messages :: "chat_message list"
  req_tools :: "tool_def list"
  req_temperature :: "f32 option"
  req_reasoning_effort :: "string option"
  req_thinking :: "thinking_config option"

definition new_llm_request :: "string \<Rightarrow> chat_message list \<Rightarrow> llm_request" where
  "new_llm_request m ms = \<lparr>req_model = m, req_messages = ms, req_tools = [], req_temperature = None,
     req_reasoning_effort = None, req_thinking = None\<rparr>"

definition with_tools :: "tool_def list \<Rightarrow> llm_request \<Rightarrow> llm_request" where
  "with_tools ts r = r\<lparr>req_tools := ts\<rparr>"

definition with_thinking :: "thinking_config \<Rightarrow> llm_request \<Rightarrow> llm_request" where
  "with_thinking t r = r\<lparr>req_thinking := Some t\<rparr>"

datatype finish_reason = Stop | ToolCalls | Length | Other string

definition finish_from_str :: "string \<Rightarrow> finish_reason" where
  "finish_from_str s = (if s = ''stop'' then Stop else if s = ''tool_calls'' then ToolCalls
     else if s = ''length'' then Length else Other s)"

text \<open>The serialized form: unit variants in snake case, \<^verbatim>\<open>Other\<close> externally tagged.\<close>

fun finish_json :: "finish_reason \<Rightarrow> json" where
  "finish_json Stop = JString ''stop''"
| "finish_json ToolCalls = JString ''tool_calls''"
| "finish_json Length = JString ''length''"
| "finish_json (Other s) = json_object [(''other'', JString s)]"

datatype llm_event =
  Delta string
| ThinkingDelta string
| ToolCallDelta nat "string option" "string option" "string option"
| Usage u64 u64
| Done finish_reason
| StreamError string

text \<open>
  An error as \<^verbatim>\<open>anyhow::Error\<close> carries it: its message and those of its sources. \<^verbatim>\<open>format_error_chain\<close>
  appends each source that the text does not contain yet.
\<close>

type_synonym anyhow_error = "string \<times> string list"

definition format_error_chain :: "anyhow_error \<Rightarrow> string" where
  "format_error_chain e = foldl (\<lambda>out msg. if str_contains out msg then out else out @ '': '' @ msg)
     (fst e) (snd e)"

text \<open>A provider is what it answers to a request; a stream is the finite list of its events.\<close>

type_synonym 'w provider = "llm_request \<Rightarrow> 'w \<Rightarrow> (anyhow_error + llm_event list) \<times> 'w"

text \<open>
  The loop the auxiliary calls share: text is appended, the stream ends at \<^verbatim>\<open>Done\<close>, an error
  aborts, and everything else is skipped.
\<close>

fun collect_deltas :: "llm_event list \<Rightarrow> string \<Rightarrow> string + string" where
  "collect_deltas [] buf = Inr buf"
| "collect_deltas (Delta c # es) buf = collect_deltas es (buf @ c)"
| "collect_deltas (Done _ # es) buf = Inr buf"
| "collect_deltas (StreamError msg # es) buf = Inl msg"
| "collect_deltas (_ # es) buf = collect_deltas es buf"

text \<open>
  A memory manager is its writer, of a namespace, a key and a value; the result of a write is not
  used by any caller.
\<close>

type_synonym 'w memory_writer = "string \<Rightarrow> string \<Rightarrow> string \<Rightarrow> 'w \<Rightarrow> 'w"

definition newline :: string where "newline = [CHR 0x0A]"
definition dquote :: string where "dquote = [CHR 0x22]"

section \<open>Tools\<close>

record agent_result =
  ar_success :: bool
  ar_output :: json
  ar_error :: "string option"

text \<open>The receiver of a spawned child is a handle the environment answers.\<close>

datatype tool_outcome =
  Output json
| ToolError string
| NeedsApproval json
| ToolTerminal json
| SpawnsAgent string nat

record 'w tool_dispatcher =
  tool_definitions :: "'w \<Rightarrow> tool_def list"
  dispatch :: "tool_call \<Rightarrow> 'w \<Rightarrow> tool_outcome \<times> 'w"
  dispatch_approved :: "tool_call \<Rightarrow> 'w \<Rightarrow> tool_outcome \<times> 'w"

text \<open>The dispatcher without tools; its second method is the default one of the trait.\<close>

definition empty_dispatcher :: "'w tool_dispatcher" where
  "empty_dispatcher =
     (let d = \<lambda>call w. (ToolError (''no tool registered: '' @ call_name call), w)
      in \<lparr>tool_definitions = (\<lambda>_. []), dispatch = d, dispatch_approved = d\<rparr>)"

section \<open>The world of a loop\<close>

record token_usage =
  input_tokens :: u64
  output_tokens :: u64

definition no_usage :: token_usage where
  "no_usage = \<lparr>input_tokens = 0, output_tokens = 0\<rparr>"

text \<open>\<^verbatim>\<open>Add\<close> and \<^verbatim>\<open>AddAssign\<close>, on 64 bits.\<close>

definition usage_add :: "token_usage \<Rightarrow> token_usage \<Rightarrow> token_usage" where
  "usage_add a b = \<lparr>input_tokens = input_tokens a + input_tokens b,
     output_tokens = output_tokens a + output_tokens b\<rparr>"

text \<open>The stores of the middleware: start times, computed durations, and token totals.\<close>

record mw_stores =
  llm_start :: "run_id \<times> u64 \<rightharpoonup> nat"
  tool_start :: "string \<rightharpoonup> nat"
  llm_durations :: "run_id \<times> u64 \<rightharpoonup> u64"
  tool_durations :: "string \<rightharpoonup> u64"
  per_run :: "run_id \<rightharpoonup> token_usage"

definition empty_stores :: mw_stores where
  "empty_stores = \<lparr>llm_start = Map.empty, tool_start = Map.empty, llm_durations = Map.empty,
     tool_durations = Map.empty, per_run = Map.empty\<rparr>"

record ('p, 'x) agent_world =
  aw_auth :: "'p authority"
  aw_stores :: mw_stores
  aw_tick :: nat
  aw_outside :: 'x

text \<open>What a waiting receiver gets: a value, a closed channel, or nothing ever.\<close>

datatype 'a waited = Answer 'a | Closed | Never

text \<open>
  The environment of a loop: the authority's own environment, the clock readings and the fresh
  identifiers of the successive operations, the monotonic clock, the display of errors and the JSON
  printer and parser, and what happens while the loop waits for a review or a child.
\<close>

record ('p, 'e, 'x) agent_env =
  ae_auth :: "('p, 'e) auth_env"
  ae_clock :: "nat \<Rightarrow> nat \<Rightarrow> int"
  ae_instant :: "nat \<Rightarrow> nat"
  ae_review :: "nat \<Rightarrow> review_id"
  ae_error_text :: "'e authority_error \<Rightarrow> string"
  ae_debug :: "string \<Rightarrow> string"
  ae_json_show :: "json \<Rightarrow> string"
  ae_json_text :: "json \<Rightarrow> string + string"
  ae_json_parse :: "string \<Rightarrow> json option"
  ae_wait_review :: "review_id \<Rightarrow> ('p, 'x) agent_world \<Rightarrow> ('p, 'x) agent_world"
  ae_wait_child :: "nat \<Rightarrow> ('p, 'x) agent_world \<Rightarrow> agent_result waited \<times> ('p, 'x) agent_world"

text \<open>One operation of the authority: it reads the clock and takes one tick.\<close>

definition on_auth :: "('p, 'e, 'x) agent_env \<Rightarrow> ((nat \<Rightarrow> int) \<Rightarrow> 'p authority \<Rightarrow> 'a \<times> 'p authority)
    \<Rightarrow> ('p, 'x) agent_world \<Rightarrow> 'a \<times> ('p, 'x) agent_world" where
  "on_auth A f w = (case f (ae_clock A (aw_tick w)) (aw_auth w) of
     (r, a) \<Rightarrow> (r, w\<lparr>aw_auth := a, aw_tick := aw_tick w + 1\<rparr>))"

definition say :: "('p, 'e, 'x) agent_env \<Rightarrow> run_id \<Rightarrow> runtime_event_payload \<Rightarrow> ('p, 'x) agent_world
    \<Rightarrow> ('p, 'x) agent_world" where
  "say A i p w = snd (on_auth A (\<lambda>c a. ((), emit_for_run (ae_auth A) (c 0) i p a)) w)"

definition say_trace :: "('p, 'e, 'x) agent_env \<Rightarrow> run_id \<Rightarrow> (string \<times> json) list \<Rightarrow> ('p, 'x) agent_world
    \<Rightarrow> ('p, 'x) agent_world" where
  "say_trace A i kvs = say A i (EvTrace (show_id (ae_auth A) i) (json_object kvs))"

end
