(* ===== verification/Threads.thy ===== *)
theory Threads
  imports AgentTypes
begin

text \<open>
  The contract of a chat thread with a model provider: an assistant message that calls tools is
  followed at once by the results of its calls, one per call and in their order, and a result
  stands nowhere else. An automaton over the messages states it; its state is the calls whose
  results are still missing.
\<close>

definition answers :: "tool_call \<Rightarrow> chat_message \<Rightarrow> bool" where
  "answers c m \<longleftrightarrow> msg_role m = Tool \<and> msg_tool_call_id m = Some (call_id c) \<and> msg_name m = Some (call_name c) \<and>
     msg_tool_calls m = []"

fun thread_run :: "tool_call list \<Rightarrow> chat_message list \<Rightarrow> tool_call list option" where
  "thread_run cs [] = Some cs"
| "thread_run [] (m # ms) =
     (if msg_role m = Tool \<or> msg_role m \<noteq> Assistant \<and> msg_tool_calls m \<noteq> [] then None
      else thread_run (msg_tool_calls m) ms)"
| "thread_run (c # cs) (m # ms) = (if answers c m then thread_run cs ms else None)"

definition answered :: "chat_message list \<Rightarrow> bool" where
  "answered ms \<longleftrightarrow> thread_run [] ms = Some []"

lemma thread_run_append:
  "thread_run cs (xs @ ys) = Option.bind (thread_run cs xs) (\<lambda>ds. thread_run ds ys)"
  by (induction cs xs rule: thread_run.induct) simp_all

lemma answered_Nil [simp]: "answered []"
  by (simp add: answered_def)

lemma answered_append: "answered xs \<Longrightarrow> answered (xs @ ys) \<longleftrightarrow> answered ys"
  by (simp add: answered_def thread_run_append)

lemma answered_appendI: "answered xs \<Longrightarrow> answered ys \<Longrightarrow> answered (xs @ ys)"
  by (simp add: answered_append)

text \<open>A message that neither calls tools nor answers a call.\<close>

definition plain :: "chat_message \<Rightarrow> bool" where
  "plain m \<longleftrightarrow> msg_role m \<noteq> Tool \<and> msg_tool_calls m = []"

lemma plain_simps [simp]:
  "plain (msg_system s)" "plain (msg_user s)" "plain (msg_assistant_text s)"
  by (simp_all add: plain_def msg_system_def msg_user_def msg_assistant_text_def)

lemma answered_plain: "plain m \<Longrightarrow> answered (m # ms) \<longleftrightarrow> answered ms"
  by (cases "msg_role m") (simp_all add: answered_def plain_def)

lemma answered_single [simp]: "plain m \<Longrightarrow> answered [m]"
  by (simp add: answered_plain)

lemma thread_run_plain: "plain m \<Longrightarrow> thread_run cs (m # ms) = (if cs = [] then thread_run [] ms else None)"
  by (cases cs) (auto simp: plain_def answers_def)

text \<open>An answered thread may be cut in front of a plain message.\<close>

lemma answered_cut:
  assumes "answered (xs @ m # ys)" and "plain m"
  shows "answered xs \<and> answered (m # ys)"
proof -
  from assms(1) obtain cs where cs: "thread_run [] xs = Some cs" "thread_run cs (m # ys) = Some []"
    by (auto simp: answered_def thread_run_append bind_eq_Some_conv)
  with thread_run_plain [OF assms(2), of cs ys] have "cs = []" by (cases "cs = []") simp_all
  with cs show ?thesis by (simp add: answered_def)
qed

lemma answered_user_plain: "answered (xs @ m # ys) \<Longrightarrow> msg_role m = User \<Longrightarrow> plain m"
proof -
  assume a: "answered (xs @ m # ys)" and u: "msg_role m = User"
  then obtain cs where cs: "thread_run cs (m # ys) = Some []"
    by (auto simp: answered_def thread_run_append bind_eq_Some_conv)
  then show "plain m" by (cases cs) (use u in \<open>auto simp: plain_def answers_def split: if_splits\<close>)
qed

lemma answered_system_prefix:
  assumes "answered (xs @ ys)" and "list_all (\<lambda>m. msg_role m = System) xs"
  shows "answered xs \<and> answered ys"
  using assms
proof (induction xs)
  case (Cons m xs)
  then have "plain m" by (auto simp: answered_def plain_def split: if_splits)
  with Cons show ?case by (simp add: answered_plain)
qed simp

text \<open>The results of all calls of an assistant message.\<close>

lemma thread_run_results:
  assumes "list_all2 answers cs ms"
  shows "thread_run cs ms = Some []"
  using assms by (induction rule: list_all2_induct) simp_all

lemma answered_calls:
  assumes "list_all2 answers cs ms"
  shows "answered (msg_assistant_tool_calls cs # ms)"
  using thread_run_results [OF assms] by (simp add: answered_def msg_assistant_tool_calls_def)

lemma answers_tool_result [simp]: "answers c (msg_tool_result (call_id c) (call_name c) s)"
  by (simp add: answers_def msg_tool_result_def)

text \<open>Calls that nothing answers, in front of a plain message or at the end of the thread.\<close>

lemma unanswered_calls:
  assumes "answered xs" and "cs \<noteq> []" and "length ms < length cs" and "list_all plain [m]"
  shows "\<not> answered (xs @ msg_assistant_tool_calls cs # ms @ m # ys)"
proof -
  have run: "thread_run cs ms = None \<or> (\<exists>d ds. thread_run cs ms = Some (d # ds))"
    if "length ms < length cs" for cs ms
    using that
  proof (induction cs ms rule: thread_run.induct)
    case (1 cs)
    then show ?case by (cases cs) auto
  qed auto
  have "thread_run [] (xs @ msg_assistant_tool_calls cs # ms @ m # ys) = None"
    using run [OF assms(3)] assms(1,4)
    by (auto simp: answered_def thread_run_append msg_assistant_tool_calls_def plain_def answers_def)
  then show ?thesis by (simp add: answered_def)
qed

end
