(* ===== verification/Middleware.thy ===== *)
theory Middleware
  imports Threads
begin

text \<open>
  The middleware of an agent loop (\<^verbatim>\<open>runtime/middleware.rs\<close>): the six hooks of the trait, the chain
  that runs them in order, and the three middlewares of the default chain, which time the calls,
  accumulate the token usage of a run and emit its traces.
\<close>

section \<open>Hooks and the chain\<close>

record turn_context =
  tc_run_id :: run_id
  tc_turn :: u64
  tc_model :: string
  total_usage :: token_usage

datatype tool_gate = Allow | Block string

record 'w middleware =
  before_llm_call :: "turn_context \<Rightarrow> 'w \<Rightarrow> turn_context \<times> 'w"
  after_llm_call :: "turn_context \<Rightarrow> string \<Rightarrow> finish_reason \<Rightarrow> token_usage \<Rightarrow> 'w \<Rightarrow> 'w"
  before_tool_call :: "turn_context \<Rightarrow> tool_call \<Rightarrow> 'w \<Rightarrow> tool_gate \<times> 'w"
  after_tool_call :: "turn_context \<Rightarrow> tool_call \<Rightarrow> tool_outcome \<Rightarrow> 'w \<Rightarrow> 'w"
  before_reflection :: "turn_context \<Rightarrow> 'w \<Rightarrow> 'w"
  after_reflection :: "turn_context \<Rightarrow> string \<Rightarrow> 'w \<Rightarrow> 'w"

text \<open>The default methods of the trait.\<close>

definition no_op :: "'w middleware" where
  "no_op = \<lparr>before_llm_call = Pair, after_llm_call = (\<lambda>_ _ _ _ w. w), before_tool_call = (\<lambda>_ _ w. (Allow, w)),
     after_tool_call = (\<lambda>_ _ _ w. w), before_reflection = (\<lambda>_ w. w), after_reflection = (\<lambda>_ _ w. w)\<rparr>"

type_synonym 'w chain = "'w middleware list"

fun chain_before_llm :: "'w chain \<Rightarrow> turn_context \<Rightarrow> 'w \<Rightarrow> turn_context \<times> 'w" where
  "chain_before_llm [] ctx w = (ctx, w)"
| "chain_before_llm (m # ms) ctx w = (case before_llm_call m ctx w of (ctx', w') \<Rightarrow> chain_before_llm ms ctx' w')"

fun chain_after_llm :: "'w chain \<Rightarrow> turn_context \<Rightarrow> string \<Rightarrow> finish_reason \<Rightarrow> token_usage \<Rightarrow> 'w \<Rightarrow> 'w" where
  "chain_after_llm [] ctx t f u w = w"
| "chain_after_llm (m # ms) ctx t f u w = chain_after_llm ms ctx t f u (after_llm_call m ctx t f u w)"

text \<open>The first block wins, and the middlewares after it are not asked.\<close>

fun chain_before_tool :: "'w chain \<Rightarrow> turn_context \<Rightarrow> tool_call \<Rightarrow> 'w \<Rightarrow> tool_gate \<times> 'w" where
  "chain_before_tool [] ctx c w = (Allow, w)"
| "chain_before_tool (m # ms) ctx c w = (case before_tool_call m ctx c w of
     (Block why, w') \<Rightarrow> (Block why, w')
   | (Allow, w') \<Rightarrow> chain_before_tool ms ctx c w')"

fun chain_after_tool :: "'w chain \<Rightarrow> turn_context \<Rightarrow> tool_call \<Rightarrow> tool_outcome \<Rightarrow> 'w \<Rightarrow> 'w" where
  "chain_after_tool [] ctx c out w = w"
| "chain_after_tool (m # ms) ctx c out w = chain_after_tool ms ctx c out (after_tool_call m ctx c out w)"

fun chain_before_reflection :: "'w chain \<Rightarrow> turn_context \<Rightarrow> 'w \<Rightarrow> 'w" where
  "chain_before_reflection [] ctx w = w"
| "chain_before_reflection (m # ms) ctx w = chain_before_reflection ms ctx (before_reflection m ctx w)"

fun chain_after_reflection :: "'w chain \<Rightarrow> turn_context \<Rightarrow> string \<Rightarrow> 'w \<Rightarrow> 'w" where
  "chain_after_reflection [] ctx t w = w"
| "chain_after_reflection (m # ms) ctx t w = chain_after_reflection ms ctx t (after_reflection m ctx t w)"

section \<open>The default chain\<close>

definition upd_stores :: "(mw_stores \<Rightarrow> mw_stores) \<Rightarrow> ('p, 'x) agent_world \<Rightarrow> ('p, 'x) agent_world" where
  "upd_stores f w = w\<lparr>aw_stores := f (aw_stores w)\<rparr>"

text \<open>\<^verbatim>\<open>Instant::now\<close> takes a tick; the time elapsed since an earlier reading is never negative.\<close>

definition instant_now :: "('p, 'e, 'x) agent_env \<Rightarrow> ('p, 'x) agent_world \<Rightarrow> nat \<times> ('p, 'x) agent_world" where
  "instant_now A w = (ae_instant A (aw_tick w), w\<lparr>aw_tick := aw_tick w + 1\<rparr>)"

text \<open>\<^verbatim>\<open>TimingMiddleware\<close>.\<close>

definition timing :: "('p, 'e, 'x) agent_env \<Rightarrow> ('p, 'x) agent_world middleware" where
  "timing A = no_op\<lparr>
     before_llm_call := (\<lambda>ctx w. case instant_now A w of (t, w') \<Rightarrow>
       (ctx, upd_stores (\<lambda>s. s\<lparr>llm_start := (llm_start s)((tc_run_id ctx, tc_turn ctx) \<mapsto> t)\<rparr>) w')),
     after_llm_call := (\<lambda>ctx _ _ _ w. case llm_start (aw_stores w) (tc_run_id ctx, tc_turn ctx) of
         None \<Rightarrow> w
       | Some t0 \<Rightarrow> (case instant_now A w of (t, w') \<Rightarrow> upd_stores (\<lambda>s. s
           \<lparr>llm_start := (llm_start s)((tc_run_id ctx, tc_turn ctx) := None),
            llm_durations := (llm_durations s)((tc_run_id ctx, tc_turn ctx) \<mapsto> of_nat (t - t0))\<rparr>) w')),
     before_tool_call := (\<lambda>ctx c w. case instant_now A w of (t, w') \<Rightarrow>
       (Allow, upd_stores (\<lambda>s. s\<lparr>tool_start := (tool_start s)(call_id c \<mapsto> t)\<rparr>) w')),
     after_tool_call := (\<lambda>ctx c _ w. case tool_start (aw_stores w) (call_id c) of
         None \<Rightarrow> w
       | Some t0 \<Rightarrow> (case instant_now A w of (t, w') \<Rightarrow> upd_stores (\<lambda>s. s
           \<lparr>tool_start := (tool_start s)(call_id c := None),
            tool_durations := (tool_durations s)(call_id c \<mapsto> of_nat (t - t0))\<rparr>) w'))\<rparr>"

text \<open>\<^verbatim>\<open>TokenAccumulatorMiddleware\<close>.\<close>

definition usage_of :: "run_id \<Rightarrow> mw_stores \<Rightarrow> token_usage" where
  "usage_of i s = (case per_run s i of None \<Rightarrow> no_usage | Some u \<Rightarrow> u)"

definition token_accumulator :: "('p, 'x) agent_world middleware" where
  "token_accumulator = no_op\<lparr>
     before_llm_call := (\<lambda>ctx w. (ctx\<lparr>total_usage := usage_of (tc_run_id ctx) (aw_stores w)\<rparr>, w)),
     after_llm_call := (\<lambda>ctx _ _ u. upd_stores (\<lambda>s.
       s\<lparr>per_run := (per_run s)(tc_run_id ctx \<mapsto> usage_add (usage_of (tc_run_id ctx) s) u)\<rparr>))\<rparr>"

text \<open>\<^verbatim>\<open>TraceEmitterMiddleware\<close>.\<close>

definition duration_member :: "u64 option \<Rightarrow> (string \<times> json) list" where
  "duration_member d = (case d of None \<Rightarrow> [] | Some ms \<Rightarrow> [(''duration_ms'', json_u64 ms)])"

definition usage_member :: "token_usage \<Rightarrow> (string \<times> json) list" where
  "usage_member u = (if 0 < input_tokens u \<or> 0 < output_tokens u
     then [(''usage'', json_object [(''input_tokens'', json_u64 (input_tokens u)),
            (''output_tokens'', json_u64 (output_tokens u))])] else [])"

fun done_result :: "tool_outcome \<Rightarrow> json \<times> bool" where
  "done_result (Output v) = (v, False)"
| "done_result (ToolError e) = (json_object [(''error'', JString e)], False)"
| "done_result (ToolTerminal v) = (v, True)"
| "done_result (NeedsApproval _) = (json_object [(''error'', JString ''unexpected NeedsApproval in after_tool_call'')], False)"
| "done_result (SpawnsAgent tid _) = (json_object [(''task_id'', JString tid), (''status'', JString ''spawned'')], False)"

fun is_tool_error :: "tool_outcome \<Rightarrow> bool" where
  "is_tool_error (ToolError _) = True"
| "is_tool_error _ = False"

definition trace_emitter :: "('p, 'e, 'x) agent_env \<Rightarrow> ('p, 'x) agent_world middleware" where
  "trace_emitter A = no_op\<lparr>
     after_llm_call := (\<lambda>ctx text fin u w. say_trace A (tc_run_id ctx)
       ([(''kind'', JString ''assistant_turn''), (''turn'', json_u64 (tc_turn ctx)), (''text'', JString text),
         (''finish_reason'', finish_json fin)] @ usage_member u @
        duration_member (llm_durations (aw_stores w) (tc_run_id ctx, tc_turn ctx))) w),
     before_tool_call := (\<lambda>ctx c w. (Allow, say_trace A (tc_run_id ctx)
       [(''kind'', JString ''tool_start''), (''tool'', JString (call_name c)),
        (''tool_call_id'', JString (call_id c)), (''arguments'', JString (call_arguments c))] w)),
     after_tool_call := (\<lambda>ctx c out w. say_trace A (tc_run_id ctx)
       ([(''kind'', JString ''tool_done''), (''tool'', JString (call_name c)), (''tool_call_id'', JString (call_id c)),
         (''result'', fst (done_result out)), (''terminal'', JBool (snd (done_result out))),
         (''is_error'', JBool (is_tool_error out))] @
        duration_member (tool_durations (aw_stores w) (call_id c))) w),
     after_reflection := (\<lambda>ctx text. say_trace A (tc_run_id ctx)
       [(''kind'', JString ''reflection''), (''turn'', json_u64 (tc_turn ctx)), (''text'', JString text)])\<rparr>"

definition build_middleware_chain :: "('p, 'e, 'x) agent_env \<Rightarrow> ('p, 'x) agent_world chain" where
  "build_middleware_chain A = [timing A, token_accumulator, trace_emitter A]"

end
