(* ===== verification/AgentLoop.thy ===== *)
theory AgentLoop
  imports Middleware
begin

text \<open>
  The ReAct loop (\<^verbatim>\<open>agent_loop/react.rs\<close>): one definition per method and per phase of a turn. An
  operation gets the loop and the world and returns its result, the loop and the world it leaves.
  A loop that waits for a review nobody resolves, or for a child that never ends, does not return:
  its result is \<open>Blocked\<close>.
\<close>

section \<open>Configuration and state\<close>

datatype reflection_trigger =
  EveryNTurns nat
| OnConsecutiveFailures nat
| BothTriggers nat nat

record reflection_config =
  rc_trigger :: reflection_trigger
  rc_prompt_template :: "string option"
  rc_enabled :: bool

definition default_reflection_config :: reflection_config where
  "default_reflection_config = \<lparr>rc_trigger = EveryNTurns 4, rc_prompt_template = None, rc_enabled = True\<rparr>"

record critic_config =
  cc_model :: string
  cc_artifact_kinds :: "string list"
  cc_max_revisions :: nat
  cc_prompt_template :: "string option"

definition default_critic_config :: critic_config where
  "default_critic_config = \<lparr>cc_model = [], cc_artifact_kinds = [], cc_max_revisions = 1, cc_prompt_template = None\<rparr>"

record ('p, 'x) loop_config =
  lc_model :: string
  lc_system_prompt :: "string option"
  lc_user_input :: string
  lc_max_turns :: nat
  lc_temperature :: "f32 option"
  lc_reasoning_effort :: "string option"
  lc_llm :: "('p, 'x) agent_world provider"
  lc_tools :: "('p, 'x) agent_world tool_dispatcher"
  lc_thinking :: "thinking_config option"
  lc_initial_thread :: "chat_message list option"
  lc_session_id :: "session_id option"
  lc_reflection :: "reflection_config option"
  lc_critic :: "critic_config option"
  lc_write_namespace :: "memory_namespace_id option"
  lc_memory_manager :: "('p, 'x) agent_world memory_writer option"
  lc_middleware :: "('p, 'x) agent_world chain"
  lc_agent_name :: "string option"

record ('p, 'x) react_loop =
  rl_run_id :: run_id
  rl_config :: "('p, 'x) loop_config"
  rl_history :: "chat_message list"
  rl_turn :: u64
  consecutive_failures :: usize
  critic_revisions_remaining :: nat
  rl_agent_name :: string

definition initial_history :: "('p, 'x) loop_config \<Rightarrow> chat_message list" where
  "initial_history cfg = (case lc_initial_thread cfg of
     Some (m # ms) \<Rightarrow> (m # ms) @ [msg_user (lc_user_input cfg)]
   | _ \<Rightarrow> (case lc_system_prompt cfg of None \<Rightarrow> [] | Some s \<Rightarrow> [msg_system s]) @ [msg_user (lc_user_input cfg)])"

definition new_react_loop :: "run_id \<Rightarrow> ('p, 'x) loop_config \<Rightarrow> ('p, 'x) react_loop" where
  "new_react_loop i cfg = \<lparr>rl_run_id = i, rl_config = cfg, rl_history = initial_history cfg, rl_turn = 0,
     consecutive_failures = 0,
     critic_revisions_remaining = (case lc_critic cfg of None \<Rightarrow> 0 | Some c \<Rightarrow> cc_max_revisions c),
     rl_agent_name = (case lc_agent_name cfg of None \<Rightarrow> [] | Some n \<Rightarrow> n)\<rparr>"

datatype 'e loop_error =
  LoopAuthority "'e authority_error"
| LoopProvider anyhow_error
| MaxTurnsExceeded nat
| ReviewChannelClosed
| LoopCancelled

definition loop_error_text :: "('p, 'e, 'x) agent_env \<Rightarrow> 'e loop_error \<Rightarrow> string" where
  "loop_error_text A e = (case e of
     LoopAuthority a \<Rightarrow> ''authority error: '' @ ae_error_text A a
   | LoopProvider p \<Rightarrow> ''provider error: '' @ fst p
   | MaxTurnsExceeded n \<Rightarrow> ''loop exceeded max turns ('' @ show_nat n @ '')''
   | ReviewChannelClosed \<Rightarrow> ''review resolution channel closed before answer''
   | LoopCancelled \<Rightarrow> ''loop cancelled'')"

section \<open>Operations of the loop\<close>

datatype ('e, 'a) loop_result = Returns 'a | Fails "'e loop_error" | Blocked

type_synonym ('p, 'e, 'x, 'a) loop_op =
  "('p, 'x) react_loop \<Rightarrow> ('p, 'x) agent_world \<Rightarrow> ('e, 'a) loop_result \<times> ('p, 'x) react_loop \<times> ('p, 'x) agent_world"

definition lp_return :: "'a \<Rightarrow> ('p, 'e, 'x, 'a) loop_op" where
  "lp_return x r w = (Returns x, r, w)"

definition lp_fail :: "'e loop_error \<Rightarrow> ('p, 'e, 'x, 'a) loop_op" where
  "lp_fail e r w = (Fails e, r, w)"

definition lp_bind :: "('p, 'e, 'x, 'a) loop_op \<Rightarrow> ('a \<Rightarrow> ('p, 'e, 'x, 'b) loop_op) \<Rightarrow> ('p, 'e, 'x, 'b) loop_op" where
  "lp_bind f g r w = (case f r w of
     (Returns x, r', w') \<Rightarrow> g x r' w'
   | (Fails e, r', w') \<Rightarrow> (Fails e, r', w')
   | (Blocked, r', w') \<Rightarrow> (Blocked, r', w'))"

text \<open>Steps that only touch the world, and steps that only touch the loop.\<close>

definition lp_world :: "(('p, 'x) react_loop \<Rightarrow> ('p, 'x) agent_world \<Rightarrow> 'a \<times> ('p, 'x) agent_world) \<Rightarrow> ('p, 'e, 'x, 'a) loop_op" where
  "lp_world f r w = (case f r w of (x, w') \<Rightarrow> (Returns x, r, w'))"

definition lp_do :: "(('p, 'x) react_loop \<Rightarrow> ('p, 'x) agent_world \<Rightarrow> ('p, 'x) agent_world) \<Rightarrow> ('p, 'e, 'x, unit) loop_op" where
  "lp_do f r w = (Returns (), r, f r w)"

definition lp_modify :: "(('p, 'x) react_loop \<Rightarrow> ('p, 'x) react_loop) \<Rightarrow> ('p, 'e, 'x, unit) loop_op" where
  "lp_modify f r w = (Returns (), f r, w)"

text \<open>A step that depends on the loop and the world it starts from.\<close>

definition lp_get :: "(('p, 'x) react_loop \<Rightarrow> ('p, 'x) agent_world \<Rightarrow> ('p, 'e, 'x, 'a) loop_op) \<Rightarrow> ('p, 'e, 'x, 'a) loop_op" where
  "lp_get f r w = f r w r w"

definition push :: "chat_message \<Rightarrow> ('p, 'e, 'x, unit) loop_op" where
  "push m = lp_modify (\<lambda>r. r\<lparr>rl_history := rl_history r @ [m]\<rparr>)"

definition lp_trace :: "('p, 'e, 'x) agent_env \<Rightarrow> (string \<times> json) list \<Rightarrow> ('p, 'e, 'x, unit) loop_op" where
  "lp_trace A kvs = lp_do (\<lambda>r. say_trace A (rl_run_id r) kvs)"

text \<open>An operation of the authority with \<^verbatim>\<open>?\<close>.\<close>

definition lp_auth :: "('p, 'e, 'x) agent_env \<Rightarrow> (run_id \<Rightarrow> (nat \<Rightarrow> int) \<Rightarrow> 'p authority \<Rightarrow> ('p, 'e, 'a) auth_result)
    \<Rightarrow> ('p, 'e, 'x, 'a) loop_op" where
  "lp_auth A f r w = (case on_auth A (f (rl_run_id r)) w of
     (Inl e, w') \<Rightarrow> (Fails (LoopAuthority e), r, w')
   | (Inr x, w') \<Rightarrow> (Returns x, r, w'))"

section \<open>Waiting\<close>

text \<open>
  Other tasks run while the loop waits. It then has the answer that was sent through the completion
  of the review; a sender that is neither registered nor used was dropped.
\<close>

definition await_review :: "('p, 'e, 'x) agent_env \<Rightarrow> review_id \<Rightarrow> ('p, 'x) agent_world
    \<Rightarrow> review_resolution waited \<times> ('p, 'x) agent_world" where
  "await_review A rid w = (let w' = ae_wait_review A rid w
     in (case map_of (completions (aw_auth w')) rid of
           Some res \<Rightarrow> Answer res
         | None \<Rightarrow> if rid \<in> pending_resolutions (aw_auth w') then Never else Closed, w'))"

section \<open>Reflection\<close>

fun should_reflect :: "reflection_trigger \<Rightarrow> u64 \<Rightarrow> usize \<Rightarrow> bool" where
  "should_reflect (EveryNTurns n) turn failures = (0 < n \<and> turn mod of_nat n = 0)"
| "should_reflect (OnConsecutiveFailures n) turn failures = (0 < n \<and> n \<le> unat failures)"
| "should_reflect (BothTriggers n k) turn failures =
     (0 < n \<and> turn mod of_nat n = 0 \<or> 0 < k \<and> k \<le> unat failures)"

text \<open>The last six messages.\<close>

definition recent_messages :: "chat_message list \<Rightarrow> chat_message list" where
  "recent_messages h = drop (length h - 6) h"

text \<open>The bits of the two temperatures of the auxiliary calls, 0.3 and 0.0.\<close>

definition reflection_temperature :: f32 where "reflection_temperature = 0x3E99999A"
definition critic_temperature :: f32 where "critic_temperature = 0"

text \<open>A request without tools; a stream that fails or reports an error gives nothing.\<close>

definition ask :: "string \<Rightarrow> f32 \<Rightarrow> chat_message list \<Rightarrow> ('p, 'e, 'x, string option) loop_op" where
  "ask model temp ms = lp_world (\<lambda>r w.
     case lc_llm (rl_config r) ((new_llm_request model ms)\<lparr>req_temperature := Some temp\<rparr>) w of
       (Inl _, w') \<Rightarrow> (None, w')
     | (Inr es, w') \<Rightarrow> (case collect_deltas es [] of Inl _ \<Rightarrow> None | Inr text \<Rightarrow> Some text, w'))"

definition store_reflection :: "string \<Rightarrow> ('p, 'e, 'x, unit) loop_op" where
  "store_reflection sentinel = lp_do (\<lambda>r w.
     case (lc_write_namespace (rl_config r), lc_memory_manager (rl_config r)) of
       (Some ns, Some write) \<Rightarrow> write (string_of_id ns) (''reflect/turn_'' @ show_nat (unat (rl_turn r))) sentinel w
     | _ \<Rightarrow> w)"

text \<open>The default prompt is a text of \<^verbatim>\<open>crony/prompts\<close>.\<close>

definition run_reflection_pass :: "string \<Rightarrow> reflection_config \<Rightarrow> ('p, 'e, 'x, string option) loop_op" where
  "run_reflection_pass prompt rc = lp_get (\<lambda>r _. lp_bind
     (ask (lc_model (rl_config r)) reflection_temperature (recent_messages (rl_history r) @
        [msg_user (case rc_prompt_template rc of None \<Rightarrow> prompt | Some t \<Rightarrow> t)])) (\<lambda>answer.
     case answer of
       None \<Rightarrow> lp_return None
     | Some text \<Rightarrow>
         if text = [] then lp_return None
         else lp_bind (push (msg_system (''[REFLECTION] '' @ text))) (\<lambda>_.
              lp_bind (store_reflection (''[REFLECTION] '' @ text)) (\<lambda>_.
              lp_bind (lp_modify (\<lambda>r. r\<lparr>consecutive_failures := 0\<rparr>)) (\<lambda>_.
              lp_return (Some text))))))"

definition reflect_if_due :: "string \<Rightarrow> turn_context \<Rightarrow> ('p, 'e, 'x, unit) loop_op" where
  "reflect_if_due prompt ctx = lp_get (\<lambda>r _. case lc_reflection (rl_config r) of
     None \<Rightarrow> lp_return ()
   | Some rc \<Rightarrow>
       if rc_enabled rc \<and> should_reflect (rc_trigger rc) (rl_turn r) (consecutive_failures r)
       then lp_bind (lp_do (\<lambda>r. chain_before_reflection (lc_middleware (rl_config r)) ctx)) (\<lambda>_.
            lp_bind (run_reflection_pass prompt rc) (\<lambda>text.
            case text of
              None \<Rightarrow> lp_return ()
            | Some t \<Rightarrow> lp_do (\<lambda>r. chain_after_reflection (lc_middleware (rl_config r)) ctx t)))
       else lp_return ())"

section \<open>The request of a turn and its stream\<close>

definition turn_request :: "('p, 'x) react_loop \<Rightarrow> ('p, 'x) agent_world \<Rightarrow> llm_request" where
  "turn_request r w = \<lparr>req_model = lc_model (rl_config r), req_messages = rl_history r,
     req_tools = tool_definitions (lc_tools (rl_config r)) w, req_temperature = lc_temperature (rl_config r),
     req_reasoning_effort = lc_reasoning_effort (rl_config r), req_thinking = lc_thinking (rl_config r)\<rparr>"

definition open_stream :: "('p, 'e, 'x) agent_env \<Rightarrow> ('p, 'e, 'x, llm_event list) loop_op" where
  "open_stream A = lp_bind (lp_world (\<lambda>r w. lc_llm (rl_config r) (turn_request r w) w)) (\<lambda>res.
     case res of
       Inr es \<Rightarrow> lp_return es
     | Inl e \<Rightarrow> lp_bind (lp_trace A [(''kind'', JString ''error''), (''where'', JString ''llm.stream''),
                  (''message'', JString (format_error_chain e))]) (\<lambda>_. lp_fail (LoopProvider e)))"

record accum_call =
  ac_id :: string
  ac_name :: string
  ac_arguments :: string

record turn_acc =
  ta_text :: string
  ta_thinking :: string
  ta_calls :: "(nat \<times> accum_call) list"
  ta_finish :: "finish_reason option"
  ta_usage :: token_usage

definition new_turn_acc :: turn_acc where
  "new_turn_acc = \<lparr>ta_text = [], ta_thinking = [], ta_calls = [], ta_finish = None, ta_usage = no_usage\<rparr>"

text \<open>Empty ids and names do not overwrite.\<close>

definition overwrite :: "string option \<Rightarrow> string \<Rightarrow> string" where
  "overwrite s old = (case s of None \<Rightarrow> old | Some new \<Rightarrow> if new = [] then old else new)"

definition add_call_delta :: "nat \<Rightarrow> string option \<Rightarrow> string option \<Rightarrow> string option
    \<Rightarrow> (nat \<times> accum_call) list \<Rightarrow> (nat \<times> accum_call) list" where
  "add_call_delta k cid nm chunk calls =
     (let c = (case map_of calls k of None \<Rightarrow> \<lparr>ac_id = [], ac_name = [], ac_arguments = []\<rparr> | Some c \<Rightarrow> c)
      in bt_put k \<lparr>ac_id = overwrite cid (ac_id c), ac_name = overwrite nm (ac_name c),
           ac_arguments = ac_arguments c @ (case chunk of None \<Rightarrow> [] | Some s \<Rightarrow> s)\<rparr> calls)"

fun consume :: "('p, 'e, 'x) agent_env \<Rightarrow> run_id \<Rightarrow> string \<Rightarrow> llm_event list \<Rightarrow> turn_acc \<Rightarrow> ('p, 'x) agent_world
    \<Rightarrow> (string + turn_acc) \<times> ('p, 'x) agent_world" where
  "consume A i tid [] acc w = (Inr acc, w)"
| "consume A i tid (ThinkingDelta c # es) acc w =
     consume A i tid es (acc\<lparr>ta_thinking := ta_thinking acc @ c\<rparr>)
       (say A i (EvThinkingToken (show_id (ae_auth A) i) tid c) w)"
| "consume A i tid (Delta c # es) acc w =
     consume A i tid es (acc\<lparr>ta_text := ta_text acc @ c\<rparr>) (say A i (EvToken (show_id (ae_auth A) i) tid c) w)"
| "consume A i tid (ToolCallDelta k cid nm chunk # es) acc w =
     consume A i tid es (acc\<lparr>ta_calls := add_call_delta k cid nm chunk (ta_calls acc)\<rparr>) w"
| "consume A i tid (Usage ins outs # es) acc w =
     consume A i tid es (acc\<lparr>ta_usage := usage_add (ta_usage acc) \<lparr>input_tokens = ins, output_tokens = outs\<rparr>\<rparr>) w"
| "consume A i tid (Done fin # es) acc w = (Inr (acc\<lparr>ta_finish := Some fin\<rparr>), w)"
| "consume A i tid (StreamError msg # es) acc w = (Inl msg, w)"

definition read_stream :: "('p, 'e, 'x) agent_env \<Rightarrow> llm_event list \<Rightarrow> ('p, 'e, 'x, turn_acc) loop_op" where
  "read_stream A es = lp_bind
     (lp_world (\<lambda>r. consume A (rl_run_id r) (show_nat (unat (rl_turn r))) es new_turn_acc)) (\<lambda>res.
     case res of
       Inr acc \<Rightarrow> lp_return acc
     | Inl msg \<Rightarrow> lp_bind (lp_trace A [(''kind'', JString ''error''), (''where'', JString ''llm.stream.event''),
                    (''message'', JString msg)]) (\<lambda>_. lp_fail (LoopProvider (msg, []))))"

definition finished_calls :: "turn_acc \<Rightarrow> tool_call list" where
  "finished_calls acc = map (\<lambda>(_, c). \<lparr>call_id = ac_id c, call_name = ac_name c, call_arguments = ac_arguments c\<rparr>) (ta_calls acc)"

definition finish_of :: "turn_acc \<Rightarrow> finish_reason" where
  "finish_of acc = (case ta_finish acc of None \<Rightarrow> Stop | Some f \<Rightarrow> f)"

definition assistant_message :: "turn_acc \<Rightarrow> chat_message" where
  "assistant_message acc =
     (if finished_calls acc \<noteq> [] then msg_assistant_tool_calls (finished_calls acc)
      else if ta_text acc \<noteq> [] then msg_assistant_text (ta_text acc)
      else \<lparr>msg_role = Assistant, msg_content = Some [], msg_tool_calls = [], msg_tool_call_id = None, msg_name = None\<rparr>)"

section \<open>The critic\<close>

record critic_output =
  co_passed :: bool
  co_issues :: "string list"

text \<open>From the first opening to the last closing brace of the answer.\<close>

definition braced :: "string \<Rightarrow> string option" where
  "braced text =
     (let t = dropWhile (\<lambda>c. c \<noteq> CHR ''{'') text;
          u = dropWhile (\<lambda>c. c \<noteq> CHR ''}'') (rev t)
      in if t = [] \<or> u = [] then None else Some (rev u))"

definition critic_from_json :: "('p, 'e, 'x) agent_env \<Rightarrow> string \<Rightarrow> critic_output option" where
  "critic_from_json A text =
     Option.bind (Option.bind (braced text) (ae_json_parse A)) (\<lambda>v.
     Option.bind (json_as_bool (json_index v ''passed'')) (\<lambda>p.
     Some \<lparr>co_passed = p, co_issues = (case json_as_array (json_index v ''issues'') of
        None \<Rightarrow> [] | Some xs \<Rightarrow> List.map_filter json_as_str xs)\<rparr>))"

datatype critic_decision = Passed | NeedsRevision "string list" | MalformedResponse

definition DEFAULT_CRITIC_PROMPT :: string where
  "DEFAULT_CRITIC_PROMPT = ''Review the conversation above. Evaluate whether the task was completed '' @
     ''correctly and completely. Respond ONLY with a JSON object of the form: '' @
     ''{'' @ dquote @ ''passed'' @ dquote @ '': true|false, '' @ dquote @ ''issues'' @ dquote @ '': ['' @ dquote @
     ''...'' @ dquote @ ''], '' @ dquote @ ''confidence'' @ dquote @ '': 0.0-1.0}. '' @
     ''Do not include any prose outside the JSON.''"

definition critic_prompt :: "critic_config \<Rightarrow> string" where
  "critic_prompt cc = (case cc_prompt_template cc of None \<Rightarrow> DEFAULT_CRITIC_PROMPT | Some t \<Rightarrow> t) @
     (if cc_artifact_kinds cc = [] then [] else '' Focus on: '' @ str_join '', '' (cc_artifact_kinds cc) @ ''.'')"

definition run_critic_pass :: "('p, 'e, 'x) agent_env \<Rightarrow> critic_config \<Rightarrow> ('p, 'e, 'x, critic_decision) loop_op" where
  "run_critic_pass A cc = lp_get (\<lambda>r _. lp_bind
     (ask (cc_model cc) critic_temperature (rl_history r @ [msg_user (critic_prompt cc)])) (\<lambda>answer.
     lp_return (case answer of
       None \<Rightarrow> MalformedResponse
     | Some text \<Rightarrow> (case critic_from_json A text of
          None \<Rightarrow> MalformedResponse
        | Some out \<Rightarrow> if \<not> co_passed out \<and> co_issues out \<noteq> [] then NeedsRevision (co_issues out) else Passed))))"

text \<open>The event of a critique; revisions are counted on 32 bits.\<close>

definition critic_event :: "('p, 'e, 'x) agent_env \<Rightarrow> bool \<Rightarrow> string \<Rightarrow> u32 \<Rightarrow> u32 \<Rightarrow> ('p, 'e, 'x, unit) loop_op" where
  "critic_event A ok summary rev_no max_rev = lp_do (\<lambda>r. say A (rl_run_id r)
     (EvCriticResult (show_id (ae_auth A) (rl_run_id r)) (rl_agent_name r) ok summary rev_no max_rev))"

datatype turn_end = NextTurn | LoopDone

definition critic_issues_message :: "string list \<Rightarrow> chat_message" where
  "critic_issues_message issues = msg_user (''[CRITIC] Your output has the following issues. '' @
     ''Please revise:'' @ newline @ ''- '' @ str_join (newline @ ''- '') issues)"

definition critique :: "('p, 'e, 'x) agent_env \<Rightarrow> critic_config \<Rightarrow> ('p, 'e, 'x, turn_end) loop_op" where
  "critique A cc = (let max_rev = of_nat (cc_max_revisions cc) in
     lp_bind (run_critic_pass A cc) (\<lambda>d. case d of
       Passed \<Rightarrow> lp_get (\<lambda>r _. lp_bind (critic_event A True []
           ((max_rev - of_nat (critic_revisions_remaining r)) + 1) max_rev) (\<lambda>_. lp_return LoopDone))
     | NeedsRevision issues \<Rightarrow>
         lp_bind (lp_modify (\<lambda>r. r\<lparr>critic_revisions_remaining := critic_revisions_remaining r - 1\<rparr>)) (\<lambda>_. lp_get (\<lambda>r _.
         lp_bind (critic_event A False (str_join ''; '' issues)
           (max_rev - of_nat (critic_revisions_remaining r)) max_rev) (\<lambda>_.
         lp_bind (push (critic_issues_message issues)) (\<lambda>_. lp_return NextTurn))))
     | MalformedResponse \<Rightarrow> lp_return LoopDone))"

definition finish_stop :: "('p, 'e, 'x) agent_env \<Rightarrow> ('p, 'e, 'x, turn_end) loop_op" where
  "finish_stop A = lp_get (\<lambda>r _. case lc_critic (rl_config r) of
     None \<Rightarrow> lp_return LoopDone
   | Some cc \<Rightarrow> if 0 < critic_revisions_remaining r then critique A cc else lp_return LoopDone)"

section \<open>Tool calls\<close>

datatype tool_step_result = StepContinue | StepTerminal | StepCancelled

definition error_json :: "string \<Rightarrow> json" where
  "error_json e = json_object [(''error'', JString e)]"

text \<open>The text of a JSON value, or a hand-made object when the printer fails.\<close>

definition text_or :: "('p, 'e, 'x) agent_env \<Rightarrow> json \<Rightarrow> (string \<Rightarrow> string) \<Rightarrow> string" where
  "text_or A j fallback = (case ae_json_text A j of Inr s \<Rightarrow> s | Inl e \<Rightarrow> fallback e)"

definition error_object_text :: "string \<Rightarrow> string" where
  "error_object_text e = ''{'' @ dquote @ ''error'' @ dquote @ '':'' @ dquote @ e @ dquote @ ''}''"

definition push_result :: "('p, 'e, 'x) agent_env \<Rightarrow> tool_call \<Rightarrow> string \<Rightarrow> ('p, 'e, 'x, unit) loop_op" where
  "push_result A c text = push (msg_tool_result (call_id c) (call_name c) text)"

definition after_tool :: "turn_context \<Rightarrow> tool_call \<Rightarrow> tool_outcome \<Rightarrow> ('p, 'e, 'x, unit) loop_op" where
  "after_tool ctx c out = lp_do (\<lambda>r. chain_after_tool (lc_middleware (rl_config r)) ctx c out)"

definition approval_request :: "tool_call \<Rightarrow> json \<Rightarrow> json" where
  "approval_request c req = json_object [(''kind'', JString ''tool_call''), (''tool'', JString (call_name c)),
     (''tool_call_id'', JString (call_id c)), (''arguments'', JString (call_arguments c)), (''request'', req)]"

text \<open>A review is opened and awaited; its identifier is fresh.\<close>

definition open_tool_review :: "('p, 'e, 'x) agent_env \<Rightarrow> tool_call \<Rightarrow> json \<Rightarrow> ('p, 'e, 'x, review_id) loop_op" where
  "open_tool_review A c req = lp_get (\<lambda>r w. lp_auth A (\<lambda>i clk. open_review_with_completion (ae_auth A) (clk 0)
     (\<lambda>k. clk (k + 1)) (ae_review A (aw_tick w)) i (approval_request c req)))"

definition lp_await :: "(('p, 'x) agent_world \<Rightarrow> 'a waited \<times> ('p, 'x) agent_world) \<Rightarrow> ('p, 'e, 'x, 'a option) loop_op" where
  "lp_await f r w = (case f w of
     (Answer x, w') \<Rightarrow> (Returns (Some x), r, w')
   | (Closed, w') \<Rightarrow> (Returns None, r, w')
   | (Never, w') \<Rightarrow> (Blocked, r, w'))"

definition resolution_outcome :: "tool_call \<Rightarrow> review_resolution option \<Rightarrow> ('p, 'e, 'x, tool_outcome) loop_op" where
  "resolution_outcome c res = (case res of
     None \<Rightarrow> lp_fail ReviewChannelClosed
   | Some rs \<Rightarrow> (case res_decision rs of
        permission_state.Approved \<Rightarrow> lp_world (\<lambda>r. dispatch_approved (lc_tools (rl_config r)) c)
      | permission_state.Rejected \<Rightarrow> lp_return (ToolError (''permission denied: '' @
           (case res_notes rs of None \<Rightarrow> ''user rejected'' | Some n \<Rightarrow> n)))
      | permission_state.Deferred \<Rightarrow> lp_fail LoopCancelled
      | permission_state.Pending \<Rightarrow> lp_fail ReviewChannelClosed))"

definition approved_outcome :: "('p, 'e, 'x) agent_env \<Rightarrow> tool_call \<Rightarrow> json \<Rightarrow> ('p, 'e, 'x, tool_outcome) loop_op" where
  "approved_outcome A c req =
     lp_bind (open_tool_review A c req) (\<lambda>rid.
     lp_bind (lp_await (await_review A rid)) (resolution_outcome c))"

definition resolved_outcome :: "('p, 'e, 'x) agent_env \<Rightarrow> tool_call \<Rightarrow> ('p, 'e, 'x, tool_outcome) loop_op" where
  "resolved_outcome A c =
     lp_bind (lp_world (\<lambda>r. dispatch (lc_tools (rl_config r)) c)) (\<lambda>out.
     case out of NeedsApproval req \<Rightarrow> approved_outcome A c req | _ \<Rightarrow> lp_return out)"

definition closed_child :: agent_result where
  "closed_child = \<lparr>ar_success = False, ar_output = JNull,
     ar_error = Some ''child agent completion channel closed unexpectedly''\<rparr>"

definition child_json :: "string \<Rightarrow> agent_result \<Rightarrow> json" where
  "child_json tid ar =
     (if ar_success ar
      then json_object [(''task_id'', JString tid), (''success'', JBool True), (''output'', ar_output ar)]
      else json_object [(''task_id'', JString tid), (''success'', JBool False),
        (''error'', JString (case ar_error ar of None \<Rightarrow> ''child agent failed'' | Some e \<Rightarrow> e))])"

definition set_failures :: "(usize \<Rightarrow> usize) \<Rightarrow> ('p, 'e, 'x, unit) loop_op" where
  "set_failures f = lp_modify (\<lambda>r. r\<lparr>consecutive_failures := f (consecutive_failures r)\<rparr>)"

text \<open>The result value of an outcome and whether it ends the loop.\<close>

definition take_outcome :: "('p, 'e, 'x) agent_env \<Rightarrow> tool_outcome \<Rightarrow> ('p, 'e, 'x, json \<times> bool) loop_op" where
  "take_outcome A out = (case out of
     Output v \<Rightarrow> lp_bind (set_failures (\<lambda>_. 0)) (\<lambda>_. lp_return (v, False))
   | ToolError e \<Rightarrow> lp_bind (set_failures saturating_inc) (\<lambda>_. lp_return (error_json e, False))
   | ToolTerminal v \<Rightarrow> lp_bind (set_failures (\<lambda>_. 0)) (\<lambda>_. lp_return (v, True))
   | NeedsApproval _ \<Rightarrow> lp_return (error_json ''tool repeatedly needs approval'', False)
   | SpawnsAgent tid h \<Rightarrow> lp_bind (lp_await (ae_wait_child A h)) (\<lambda>res.
       lp_bind (set_failures (\<lambda>_. 0)) (\<lambda>_.
       lp_return (child_json tid (case res of None \<Rightarrow> closed_child | Some ar \<Rightarrow> ar), False))))"

definition run_one_tool :: "('p, 'e, 'x) agent_env \<Rightarrow> turn_context \<Rightarrow> tool_call \<Rightarrow> ('p, 'e, 'x, tool_step_result) loop_op" where
  "run_one_tool A ctx c =
     lp_bind (lp_world (\<lambda>r. chain_before_tool (lc_middleware (rl_config r)) ctx c)) (\<lambda>gate.
     case gate of
       Block why \<Rightarrow>
         lp_bind (push_result A c (text_or A (error_json why) (\<lambda>_. error_object_text why))) (\<lambda>_.
         lp_bind (after_tool ctx c (ToolError why)) (\<lambda>_. lp_return StepContinue))
     | Allow \<Rightarrow>
         lp_bind (resolved_outcome A c) (\<lambda>out.
         lp_bind (after_tool ctx c out) (\<lambda>_.
         lp_bind (take_outcome A out) (\<lambda>(v, terminal).
         lp_bind (push_result A c (text_or A v (\<lambda>e. error_object_text (''serialize tool result: '' @ e)))) (\<lambda>_.
         lp_return (if terminal then StepTerminal else StepContinue))))))"

fun run_tools :: "('p, 'e, 'x) agent_env \<Rightarrow> turn_context \<Rightarrow> tool_call list \<Rightarrow> bool \<Rightarrow> ('p, 'e, 'x, bool) loop_op" where
  "run_tools A ctx [] terminal_seen = lp_return terminal_seen"
| "run_tools A ctx (c # cs) terminal_seen = lp_bind (run_one_tool A ctx c) (\<lambda>res. case res of
     StepContinue \<Rightarrow> run_tools A ctx cs terminal_seen
   | StepTerminal \<Rightarrow> run_tools A ctx cs True
   | StepCancelled \<Rightarrow> lp_fail LoopCancelled)"

definition call_json :: "tool_call \<Rightarrow> json" where
  "call_json c = json_object [(''id'', JString (call_id c)), (''name'', JString (call_name c)),
     (''args_len'', json_u64 (of_nat (length (call_arguments c)))),
     (''args_preview'', JString (utf8_take 200 (call_arguments c)))]"

definition empty_name_message :: "('p, 'e, 'x) agent_env \<Rightarrow> tool_call \<Rightarrow> string" where
  "empty_name_message A c = ''provider returned a tool_call with empty name (id='' @ ae_debug A (call_id c) @
     '', args_len='' @ show_nat (length (call_arguments c)) @ ''). '' @
     ''This usually means the OpenAI-compatible endpoint streams tool_calls '' @
     ''in a non-standard format (e.g. via `message` instead of `delta`, or '' @
     ''omits `function.name`). The chat cannot proceed.''"

definition finish_tools :: "('p, 'e, 'x) agent_env \<Rightarrow> turn_context \<Rightarrow> tool_call list \<Rightarrow> ('p, 'e, 'x, turn_end) loop_op" where
  "finish_tools A ctx calls =
     (if calls = [] then lp_return LoopDone
      else lp_bind (lp_trace A [(''kind'', JString ''tool_calls_parsed''), (''turn'', json_u64 (tc_turn ctx)),
             (''calls'', JArray (map call_json calls))]) (\<lambda>_.
        (case List.find (\<lambda>c. call_name c = []) calls of
           Some bad \<Rightarrow> lp_bind (lp_trace A [(''kind'', JString ''error''), (''where'', JString ''react.tool_calls''),
               (''message'', JString (empty_name_message A bad))]) (\<lambda>_.
               lp_fail (LoopProvider (empty_name_message A bad, [])))
         | None \<Rightarrow> lp_bind (run_tools A ctx calls False) (\<lambda>terminal_seen.
               lp_return (if terminal_seen then LoopDone else NextTurn)))))"

section \<open>Turns and the loop\<close>

text \<open>Whether the turn may begin; a finished run ends the loop, a cancelled or paused one fails it.\<close>

definition check_status :: "('p, 'e, 'x, bool) loop_op" where
  "check_status r w = (case run_status_of (aw_auth w) (rl_run_id r) of
     Inl e \<Rightarrow> (Fails (LoopAuthority e), r, w)
   | Inr st \<Rightarrow> (case st of
        run_status.Cancelled \<Rightarrow> (Fails LoopCancelled, r, w)
      | run_status.Paused \<Rightarrow> (Fails LoopCancelled, r, w)
      | run_status.Succeeded \<Rightarrow> (Returns False, r, w)
      | run_status.Failed _ \<Rightarrow> (Returns False, r, w)
      | _ \<Rightarrow> (Returns True, r, w)))"

definition begin_turn :: "('p, 'e, 'x, turn_context) loop_op" where
  "begin_turn = lp_bind (lp_modify (\<lambda>r. r\<lparr>rl_turn := rl_turn r + 1\<rparr>)) (\<lambda>_.
     lp_world (\<lambda>r. chain_before_llm (lc_middleware (rl_config r))
       \<lparr>tc_run_id = rl_run_id r, tc_turn = rl_turn r, tc_model = lc_model (rl_config r), total_usage = no_usage\<rparr>))"

definition finish_turn :: "('p, 'e, 'x) agent_env \<Rightarrow> turn_context \<Rightarrow> turn_acc \<Rightarrow> ('p, 'e, 'x, turn_end) loop_op" where
  "finish_turn A ctx acc =
     lp_bind (push (assistant_message acc)) (\<lambda>_.
     lp_bind (lp_do (\<lambda>r. chain_after_llm (lc_middleware (rl_config r)) ctx (ta_text acc) (finish_of acc) (ta_usage acc))) (\<lambda>_.
     if finish_of acc = ToolCalls then finish_tools A ctx (finished_calls acc) else finish_stop A))"

definition one_turn :: "('p, 'e, 'x) agent_env \<Rightarrow> string \<Rightarrow> ('p, 'e, 'x, turn_end) loop_op" where
  "one_turn A prompt =
     lp_bind check_status (\<lambda>go.
     if \<not> go then lp_return LoopDone
     else lp_bind begin_turn (\<lambda>ctx.
          lp_bind (reflect_if_due prompt ctx) (\<lambda>_.
          lp_bind (open_stream A) (\<lambda>es.
          lp_bind (read_stream A es) (\<lambda>acc.
          finish_turn A ctx acc)))))"

fun drive :: "('p, 'e, 'x) agent_env \<Rightarrow> string \<Rightarrow> nat \<Rightarrow> ('p, 'e, 'x, unit) loop_op" where
  "drive A prompt 0 = lp_get (\<lambda>r _. lp_fail (MaxTurnsExceeded (lc_max_turns (rl_config r))))"
| "drive A prompt (Suc k) = lp_bind (one_turn A prompt) (\<lambda>e. case e of
     LoopDone \<Rightarrow> lp_return () | NextTurn \<Rightarrow> drive A prompt k)"

definition run_start_trace :: "('p, 'e, 'x) agent_env \<Rightarrow> ('p, 'e, 'x, unit) loop_op" where
  "run_start_trace A = lp_get (\<lambda>r w. lp_trace A [(''kind'', JString ''run_start''), (''model'', JString (lc_model (rl_config r))),
     (''system_prompt'', JString (case lc_system_prompt (rl_config r) of None \<Rightarrow> [] | Some s \<Rightarrow> s)),
     (''user_input'', JString (lc_user_input (rl_config r))),
     (''tools'', JArray (map (\<lambda>d. JString (td_name d)) (tool_definitions (lc_tools (rl_config r)) w))),
     (''turns_limit'', json_u64 (of_nat (lc_max_turns (rl_config r))))])"

definition flush_history :: "('p, 'e, 'x) agent_env \<Rightarrow> ('p, 'x) react_loop \<Rightarrow> ('p, 'x) agent_world \<Rightarrow> ('p, 'x) agent_world" where
  "flush_history A r w = (case lc_session_id (rl_config r) of
     None \<Rightarrow> w
   | Some sid \<Rightarrow> snd (on_auth A (\<lambda>c. flush_thread (ae_auth A) (c 0) sid (rl_history r)) w))"

definition close_run :: "('p, 'e, 'x) agent_env \<Rightarrow> run_id \<Rightarrow> ('e, unit) loop_result \<Rightarrow> ('p, 'x) agent_world \<Rightarrow> ('p, 'x) agent_world" where
  "close_run A i out w = (case out of
     Returns _ \<Rightarrow> snd (on_auth A (\<lambda>c. complete_run (ae_auth A) (c 0) (c 1) i) w)
   | Fails LoopCancelled \<Rightarrow> w
   | Fails e \<Rightarrow> snd (on_auth A (\<lambda>c. fail_run (ae_auth A) (c 0) (c 1) i (loop_error_text A e)) w)
   | Blocked \<Rightarrow> w)"

definition run_react_loop :: "('p, 'e, 'x) agent_env \<Rightarrow> string \<Rightarrow> ('p, 'e, 'x, unit) loop_op" where
  "run_react_loop A prompt =
     lp_bind (lp_auth A (\<lambda>i c. mark_run_running (ae_auth A) (c 0) (c 1) i)) (\<lambda>_.
     lp_bind (run_start_trace A) (\<lambda>_ r w.
       (case drive A prompt (lc_max_turns (rl_config r)) r w of
          (Blocked, r', w') \<Rightarrow> (Blocked, r', w')
        | (out, r', w') \<Rightarrow> (out, r', close_run A (rl_run_id r') out (flush_history A r' w')))))"

section \<open>The tasks that run a loop\<close>

text \<open>
  The end of \<^verbatim>\<open>spawn_agent\<close> and \<^verbatim>\<open>spawn_chat\<close> (\<^verbatim>\<open>runtime/agent_runner.rs\<close>): whatever error the loop
  returned, the run is failed once more; and what a supervisor is told of a child loop.
\<close>

definition spawn_epilogue :: "('p, 'e, 'x) agent_env \<Rightarrow> run_id \<Rightarrow> ('e, unit) loop_result \<Rightarrow> ('p, 'x) agent_world
    \<Rightarrow> ('p, 'x) agent_world" where
  "spawn_epilogue A i out w = (case out of
     Fails e \<Rightarrow> snd (on_auth A (\<lambda>c. fail_run (ae_auth A) (c 0) (c 1) i (loop_error_text A e)) w)
   | _ \<Rightarrow> w)"

definition agent_task :: "('p, 'e, 'x) agent_env \<Rightarrow> string \<Rightarrow> run_id \<Rightarrow> ('p, 'x) loop_config \<Rightarrow> ('p, 'x) agent_world
    \<Rightarrow> ('e, unit) loop_result \<times> ('p, 'x) agent_world" where
  "agent_task A prompt i cfg w = (case run_react_loop A prompt (new_react_loop i cfg) w of
     (out, _, w') \<Rightarrow> (out, spawn_epilogue A i out w'))"

definition child_result :: "('p, 'e, 'x) agent_env \<Rightarrow> run_id \<Rightarrow> ('e, unit) loop_result \<Rightarrow> agent_result option" where
  "child_result A i out = (case out of
     Returns _ \<Rightarrow> Some \<lparr>ar_success = True, ar_output = json_object [(''run_id'', JString (show_id (ae_auth A) i))], ar_error = None\<rparr>
   | Fails e \<Rightarrow> Some \<lparr>ar_success = False, ar_output = JNull, ar_error = Some (loop_error_text A e)\<rparr>
   | Blocked \<Rightarrow> None)"

end
