(* ===== verification/LoopLogic.thy ===== *)
theory LoopLogic
  imports AgentLoop "HOL-Library.Sublist"
begin

text \<open>
  Reasoning about the operations of a loop: triples with a postcondition for a normal return and
  one for a failure (nothing is said of a loop that stays blocked), and what every operation does
  to the loop's own state.
\<close>

section \<open>Triples\<close>

definition valid :: "(('p, 'x) react_loop \<Rightarrow> ('p, 'x) agent_world \<Rightarrow> bool) \<Rightarrow> ('p, 'e, 'x, 'a) loop_op
    \<Rightarrow> ('a \<Rightarrow> ('p, 'x) react_loop \<Rightarrow> ('p, 'x) agent_world \<Rightarrow> bool)
    \<Rightarrow> ('e loop_error \<Rightarrow> ('p, 'x) react_loop \<Rightarrow> ('p, 'x) agent_world \<Rightarrow> bool) \<Rightarrow> bool" where
  "valid P f Q R \<longleftrightarrow> (\<forall>r w. P r w \<longrightarrow> (case f r w of
     (Returns x, r', w') \<Rightarrow> Q x r' w' | (Fails e, r', w') \<Rightarrow> R e r' w' | (Blocked, r', w') \<Rightarrow> True))"

lemma validI:
  assumes "\<And>r w x r' w'. P r w \<Longrightarrow> f r w = (Returns x, r', w') \<Longrightarrow> Q x r' w'"
    and "\<And>r w e r' w'. P r w \<Longrightarrow> f r w = (Fails e, r', w') \<Longrightarrow> R e r' w'"
  shows "valid P f Q R"
  using assms by (auto simp: valid_def split: loop_result.splits prod.splits)

lemma valid_returns:
  assumes "valid P f Q R" and "P r w" and "f r w = (Returns x, r', w')"
  shows "Q x r' w'"
  using assms(1) [unfolded valid_def, rule_format, OF assms(2)] assms(3) by simp

lemma valid_fails:
  assumes "valid P f Q R" and "P r w" and "f r w = (Fails e, r', w')"
  shows "R e r' w'"
  using assms(1) [unfolded valid_def, rule_format, OF assms(2)] assms(3) by simp

lemma valid_weaken:
  assumes "valid P f Q R" and "\<And>r w. P' r w \<Longrightarrow> P r w" and "\<And>x r w. Q x r w \<Longrightarrow> Q' x r w"
    and "\<And>e r w. R e r w \<Longrightarrow> R' e r w"
  shows "valid P' f Q' R'"
  using assms by (fastforce simp: valid_def split: loop_result.splits prod.splits)

lemma valid_return: "(\<And>r w. P r w \<Longrightarrow> Q x r w) \<Longrightarrow> valid P (lp_return x) Q R"
  by (simp add: valid_def lp_return_def)

lemma valid_fail: "(\<And>r w. P r w \<Longrightarrow> R e r w) \<Longrightarrow> valid P (lp_fail e) Q R"
  by (simp add: valid_def lp_fail_def)

lemma valid_bind:
  assumes "valid P f M R" and "\<And>x. valid (M x) (g x) Q R"
  shows "valid P (lp_bind f g) Q R"
proof (rule validI)
  fix r w y r' w' assume P: "P r w" and b: "lp_bind f g r w = (Returns y, r', w')"
  then obtain x r1 w1 where f: "f r w = (Returns x, r1, w1)" and g: "g x r1 w1 = (Returns y, r', w')"
    by (auto simp: lp_bind_def split: loop_result.splits prod.splits)
  from valid_returns [OF assms(2) valid_returns [OF assms(1) P f] g] show "Q y r' w'" .
next
  fix r w e r' w' assume P: "P r w" and b: "lp_bind f g r w = (Fails e, r', w')"
  then consider "f r w = (Fails e, r', w')"
    | x r1 w1 where "f r w = (Returns x, r1, w1)" "g x r1 w1 = (Fails e, r', w')"
    by (auto simp: lp_bind_def split: loop_result.splits prod.splits)
  then show "R e r' w'"
    using valid_fails [OF assms(1) P] valid_fails [OF assms(2) valid_returns [OF assms(1) P]] by cases blast+
qed

lemma valid_get:
  assumes "\<And>r0 w0. P r0 w0 \<Longrightarrow> valid (\<lambda>r w. r = r0 \<and> w = w0) (f r0 w0) Q R"
  shows "valid P (lp_get f) Q R"
  using assms by (auto simp: valid_def lp_get_def)

lemma valid_pure:
  assumes "\<And>r w. P r w \<Longrightarrow> Q (fst (f r w)) r (snd (f r w))"
  shows "valid P (lp_world f) Q R"
  using assms by (force simp: valid_def lp_world_def split: prod.splits)

lemma valid_do: "(\<And>r w. P r w \<Longrightarrow> Q () r (f r w)) \<Longrightarrow> valid P (lp_do f) Q R"
  by (simp add: valid_def lp_do_def)

lemma valid_modify: "(\<And>r w. P r w \<Longrightarrow> Q () (f r) w) \<Longrightarrow> valid P (lp_modify f) Q R"
  by (simp add: valid_def lp_modify_def)

lemma valid_push: "(\<And>r w. P r w \<Longrightarrow> Q () (r\<lparr>rl_history := rl_history r @ [m]\<rparr>) w) \<Longrightarrow> valid P (push m) Q R"
  by (simp add: push_def valid_modify)


lemma valid_auth:
  assumes "\<And>r w x a. P r w \<Longrightarrow> f (rl_run_id r) (ae_clock A (aw_tick w)) (aw_auth w) = (Inr x, a) \<Longrightarrow>
      Q x r (w\<lparr>aw_auth := a, aw_tick := aw_tick w + 1\<rparr>)"
    and "\<And>r w e a. P r w \<Longrightarrow> f (rl_run_id r) (ae_clock A (aw_tick w)) (aw_auth w) = (Inl e, a) \<Longrightarrow>
      R (LoopAuthority e) r (w\<lparr>aw_auth := a, aw_tick := aw_tick w + 1\<rparr>)"
  shows "valid P (lp_auth A f) Q R"
  using assms by (auto simp: valid_def lp_auth_def on_auth_def split: prod.splits sum.splits)

lemma valid_await:
  assumes "\<And>r w x w'. P r w \<Longrightarrow> f w = (Answer x, w') \<Longrightarrow> Q (Some x) r w'"
    and "\<And>r w w'. P r w \<Longrightarrow> f w = (Closed, w') \<Longrightarrow> Q None r w'"
  shows "valid P (lp_await f) Q R"
  using assms by (auto simp: valid_def lp_await_def split: prod.splits waited.splits)

text \<open>The rules for the steps and for what joins them.\<close>

lemmas valid_steps = valid_return valid_fail valid_pure valid_do valid_modify valid_push valid_auth valid_await

section \<open>What happens to the loop\<close>

text \<open>
  Every operation leaves the run, the configuration and the name alone, only appends to the
  history, advances the turn counter by at most its own number of turns, and never adds revisions.
\<close>

definition loop_grows :: "('p, 'x) react_loop \<Rightarrow> ('p, 'x) react_loop \<Rightarrow> bool" where
  "loop_grows r r' \<longleftrightarrow> rl_run_id r' = rl_run_id r \<and> rl_config r' = rl_config r \<and> rl_agent_name r' = rl_agent_name r \<and>
     prefix (rl_history r) (rl_history r') \<and> critic_revisions_remaining r' \<le> critic_revisions_remaining r"

lemma loop_grows_refl [simp]: "loop_grows r r"
  by (simp add: loop_grows_def)

lemma loop_grows_updates [simp]:
  "loop_grows r (r\<lparr>consecutive_failures := k\<rparr>)" "loop_grows r (r\<lparr>rl_turn := t\<rparr>)"
  "loop_grows r (r\<lparr>critic_revisions_remaining := critic_revisions_remaining r - j\<rparr>)"
  "loop_grows r (r\<lparr>rl_history := rl_history r @ ms\<rparr>)"
  by (simp_all add: loop_grows_def)

lemma loop_grows_trans: "loop_grows r s \<Longrightarrow> loop_grows s t \<Longrightarrow> loop_grows r t"
  unfolding loop_grows_def by (auto intro: prefix_order.trans)

definition grows :: "('p, 'e, 'x, 'a) loop_op \<Rightarrow> bool" where
  "grows f \<longleftrightarrow> (\<forall>r w. loop_grows r (fst (snd (f r w))))"

lemma grows_run: "grows f \<Longrightarrow> f r w = (out, r', w') \<Longrightarrow> loop_grows r r'"
  by (metis grows_def fst_conv snd_conv)

lemma grows_bind [intro!]:
  assumes "grows f" and "\<And>x. grows (g x)"
  shows "grows (lp_bind f g)"
proof -
  have "loop_grows r (fst (snd (lp_bind f g r w)))" for r w
  proof (cases "f r w")
    case (fields out r1 w1)
    with grows_run [OF assms(1)] have "loop_grows r r1" by blast
    with fields assms(2) show ?thesis
      by (cases out) (auto simp: lp_bind_def grows_def intro: loop_grows_trans)
  qed
  then show ?thesis by (simp add: grows_def)
qed

lemma grows_get [intro!]: "(\<And>r0 w0. grows (f r0 w0)) \<Longrightarrow> grows (lp_get f)"
  by (simp add: grows_def lp_get_def)

lemma grows_steps [simp, intro!]:
  "grows (lp_return x)" "grows (lp_fail e)" "grows (lp_world f1)" "grows (lp_do f2)" "grows (push m)"
  "grows (lp_auth A f3)" "grows (lp_await f4)" "grows (lp_trace A kvs)" "grows (set_failures f5)"
  "grows check_status"
  by (auto simp: grows_def lp_return_def lp_fail_def lp_world_def lp_do_def push_def lp_modify_def lp_auth_def
      lp_await_def lp_trace_def set_failures_def check_status_def loop_grows_def
      split: prod.splits sum.splits waited.splits run_status.splits)

lemma grows_modify [intro!]: "(\<And>r. loop_grows r (f r)) \<Longrightarrow> grows (lp_modify f)"
  by (simp add: grows_def lp_modify_def)

lemma grows_ask [simp, intro!]: "grows (ask m t ms)"
  by (simp add: ask_def)

lemma grows_reflect [simp, intro!]: "grows (reflect_if_due prompt ctx)"
proof -
  have "grows (run_reflection_pass prompt rc)" for rc
    unfolding run_reflection_pass_def by (auto simp: store_reflection_def split: option.split)
  then show ?thesis unfolding reflect_if_due_def by (auto split: option.split)
qed

lemma grows_stream [simp, intro!]: "grows (open_stream A)" "grows (read_stream A es)"
  unfolding open_stream_def read_stream_def by (auto split: sum.split intro!: grows_bind)

lemma grows_begin [simp, intro!]: "grows begin_turn"
  unfolding begin_turn_def by auto

lemma grows_critic [simp, intro!]: "grows (finish_stop A)"
proof -
  have "grows (run_critic_pass A cc)" for cc
    unfolding run_critic_pass_def by auto
  then have "grows (critique A cc)" for cc
    unfolding critique_def critic_event_def by (auto simp: Let_def split: critic_decision.split)
  then show ?thesis unfolding finish_stop_def by (auto split: option.split)
qed

lemma grows_tool [simp, intro!]: "grows (run_one_tool A ctx c)"
proof -
  have "grows (approved_outcome A c req)" for req
    unfolding approved_outcome_def open_tool_review_def resolution_outcome_def
    by (auto split: option.split permission_state.split)
  then have "grows (resolved_outcome A c)"
    unfolding resolved_outcome_def by (auto split: tool_outcome.split)
  moreover have "grows (take_outcome A out)" for out
    unfolding take_outcome_def by (cases out) auto
  ultimately show ?thesis
    unfolding run_one_tool_def push_result_def after_tool_def by (auto split: tool_gate.split)
qed

lemma grows_tools [simp, intro!]: "grows (run_tools A ctx cs seen)"
  by (induction cs arbitrary: seen) (auto split: tool_step_result.split)

lemma grows_finish [simp, intro!]: "grows (finish_turn A ctx acc)"
proof -
  have "grows (finish_tools A ctx calls)" for calls
    unfolding finish_tools_def by (auto split: option.split)
  then show ?thesis unfolding finish_turn_def by auto
qed

lemma grows_turn [simp, intro!]: "grows (one_turn A prompt)"
  unfolding one_turn_def by auto

lemma grows_drive [simp, intro!]: "grows (drive A prompt k)"
  by (induction k) (auto split: turn_end.split)

section \<open>What a loop may do to the world\<close>

text \<open>
  A relation between the world before and after, graded by a number of provider calls: a call of
  the provider counts one, everything else the loop uses counts nothing. With \<open>R n w w'\<close> read as
  "at most \<open>n\<close> further requests were sent" the lemmas bound the requests of a loop, and a relation
  that ignores \<open>n\<close> is an invariant of the world.
\<close>

locale loop_services =
  fixes A :: "('p, 'e, 'x) agent_env"
    and cfg :: "('p, 'x) loop_config"
    and R :: "nat \<Rightarrow> ('p, 'x) agent_world \<Rightarrow> ('p, 'x) agent_world \<Rightarrow> bool"
  assumes R_refl: "R 0 w w"
    and R_trans: "R m w w1 \<Longrightarrow> R n w1 w2 \<Longrightarrow> R (m + n) w w2"
    and R_mono: "R m w w1 \<Longrightarrow> m \<le> n \<Longrightarrow> R n w w1"
    and provider: "R 1 w (snd (lc_llm cfg req w))"
    and tools: "R 0 w (snd (dispatch (lc_tools cfg) c w))" "R 0 w (snd (dispatch_approved (lc_tools cfg) c w))"
    and hooks: "R 0 w (snd (chain_before_llm (lc_middleware cfg) ctx w))"
      "R 0 w (chain_after_llm (lc_middleware cfg) ctx t f u w)"
      "R 0 w (snd (chain_before_tool (lc_middleware cfg) ctx c w))"
      "R 0 w (chain_after_tool (lc_middleware cfg) ctx c out w)"
      "R 0 w (chain_before_reflection (lc_middleware cfg) ctx w)"
      "R 0 w (chain_after_reflection (lc_middleware cfg) ctx t w)"
    and memory: "lc_memory_manager cfg = Some wr \<Longrightarrow> R 0 w (wr ns k v w)"
    and waits: "R 0 w (ae_wait_review A rid w)" "R 0 w (snd (ae_wait_child A h w))"
    and says: "R 0 w (say A i p w)"
    and asks: "R 0 w (snd (on_auth A (\<lambda>c. open_review_with_completion (ae_auth A) (c 0) (\<lambda>k. c (k + 1)) rid i q) w))"
begin

definition costs :: "nat \<Rightarrow> ('p, 'e, 'x, 'a) loop_op \<Rightarrow> bool" where
  "costs n f \<longleftrightarrow> grows f \<and> (\<forall>r w. rl_config r = cfg \<longrightarrow> R n w (snd (snd (f r w))))"

lemma R_any: "R 0 w w1 \<Longrightarrow> R n w w1"
  using R_mono [of 0 w w1 n] by simp

lemma costsI: "grows f \<Longrightarrow> (\<And>r w. rl_config r = cfg \<Longrightarrow> R n w (snd (snd (f r w)))) \<Longrightarrow> costs n f"
  by (simp add: costs_def)

lemma costs_grows: "costs n f \<Longrightarrow> grows f"
  by (simp add: costs_def)

lemma costs_run: "costs n f \<Longrightarrow> rl_config r = cfg \<Longrightarrow> f r w = (out, r', w') \<Longrightarrow> R n w w'"
  by (metis costs_def snd_conv)

lemma config_run: "grows f \<Longrightarrow> rl_config r = cfg \<Longrightarrow> f r w = (out, r', w') \<Longrightarrow> rl_config r' = cfg"
  using grows_run loop_grows_def by metis

lemma costs_mono: "costs m f \<Longrightarrow> m \<le> n \<Longrightarrow> costs n f"
  unfolding costs_def using R_mono by blast

lemma costs_bind:
  assumes f: "costs m f" and g: "\<And>x. costs n (g x)"
  shows "costs (m + n) (lp_bind f g)"
proof (rule costsI)
  show "grows (lp_bind f g)" using f g by (auto intro: costs_grows)
next
  fix r :: "('p, 'x) react_loop" and w assume c: "rl_config r = cfg"
  obtain out r1 w1 where fr: "f r w = (out, r1, w1)" by (cases "f r w") auto
  note R1 = costs_run [OF f c fr] and c1 = config_run [OF costs_grows [OF f] c fr]
  show "R (m + n) w (snd (snd (lp_bind f g r w)))"
  proof (cases out)
    case (Returns x)
    obtain out2 r2 w2 where gr: "g x r1 w1 = (out2, r2, w2)" by (cases "g x r1 w1") auto
    from R_trans [OF R1 costs_run [OF g c1 gr]] show ?thesis by (simp add: lp_bind_def fr Returns gr)
  qed (use R_mono [OF R1] in \<open>simp_all add: lp_bind_def fr\<close>)
qed

lemma costs_bind0: "costs 0 f \<Longrightarrow> (\<And>x. costs n (g x)) \<Longrightarrow> costs n (lp_bind f g)"
  using costs_bind [of 0 f n g] by simp

lemma costs_bind1:
  assumes "costs 1 f" and "\<And>x. costs 0 (g x)"
  shows "costs 1 (lp_bind f g)"
  using costs_bind [OF assms] by simp

lemma costs_get: "(\<And>r0 w0. costs n (f r0 w0)) \<Longrightarrow> costs n (lp_get f)"
  by (auto simp: costs_def lp_get_def)

lemma costs_steps [simp, intro!]:
  "costs 0 (lp_return x)" "costs 0 (lp_fail e)" "costs 0 (push m)" "costs 0 (set_failures g)" "costs 0 check_status"
  "costs 0 (lp_trace A kvs)"
  by (auto simp: costs_def lp_return_def lp_fail_def push_def lp_modify_def set_failures_def check_status_def
      lp_trace_def lp_do_def say_trace_def grows_def loop_grows_def R_refl says split: sum.splits run_status.splits)

lemma costs_modify: "(\<And>r. loop_grows r (f r)) \<Longrightarrow> costs 0 (lp_modify f)"
  by (simp add: costs_def grows_def lp_modify_def R_refl)

lemma costs_do: "(\<And>r w. rl_config r = cfg \<Longrightarrow> R 0 w (f r w)) \<Longrightarrow> costs 0 (lp_do f)"
  by (rule costsI) (simp_all add: lp_do_def)

lemma costs_world: "(\<And>r w. rl_config r = cfg \<Longrightarrow> R n w (snd (f r w))) \<Longrightarrow> costs n (lp_world f)"
  by (rule costsI) (auto simp: lp_world_def split: prod.splits dest: sndI)

lemma costs_await: "(\<And>w. R 0 w (snd (f w))) \<Longrightarrow> costs 0 (lp_await f)"
proof (rule costsI)
  fix r :: "('p, 'x) react_loop" and w assume "\<And>w. R 0 w (snd (f w))"
  then have "R 0 w (snd (f w))" .
  then show "R 0 w (snd (snd (lp_await f r w)))"
    by (auto simp: lp_await_def split: prod.splits waited.splits)
qed simp

lemma costs_consume: "R 0 w (snd (consume A i tid es acc w))"
proof (induction es arbitrary: acc w)
  case (Cons e es)
  have "R 0 w (snd (consume A i tid es acc' (say A i p w)))" for acc' p
    using R_trans [OF says Cons.IH] by simp
  with Cons.IH show ?case by (cases e) (simp_all add: R_refl)
qed (simp add: R_refl)

lemma costs_ask: "costs 1 (ask m t ms)"
  unfolding ask_def
proof (rule costs_world)
  fix r :: "('p, 'x) react_loop" and w assume c: "rl_config r = cfg"
  obtain res w1 where l: "lc_llm cfg ((new_llm_request m ms)\<lparr>req_temperature := Some t\<rparr>) w = (res, w1)" by fastforce
  with provider [of w "(new_llm_request m ms)\<lparr>req_temperature := Some t\<rparr>"] have "R 1 w w1" by simp
  with l c show "R 1 w (snd (case lc_llm (rl_config r) ((new_llm_request m ms)\<lparr>req_temperature := Some t\<rparr>) w of
       (Inl _, w') \<Rightarrow> (None, w')
     | (Inr es, w') \<Rightarrow> (case collect_deltas es [] of Inl _ \<Rightarrow> None | Inr text \<Rightarrow> Some text, w')))"
    by (cases res) simp_all
qed

lemma costs_open: "costs 1 (open_stream A)"
proof -
  have "costs 1 (lp_world (\<lambda>r w. lc_llm (rl_config r) (turn_request r w) w))"
    using provider by (intro costs_world) simp
  moreover have "costs 0 (case res of Inr es \<Rightarrow> lp_return es
     | Inl e \<Rightarrow> lp_bind (lp_trace A [(''kind'', JString ''error''), (''where'', JString ''llm.stream''),
                  (''message'', JString (format_error_chain e))]) (\<lambda>_. lp_fail (LoopProvider e)))" for res
    by (auto split: sum.split intro: costs_bind0)
  ultimately show ?thesis unfolding open_stream_def by (rule costs_bind1)
qed

lemma costs_read: "costs 0 (read_stream A es)"
  unfolding read_stream_def
  by (auto split: sum.split intro!: costs_bind0 costs_world costs_consume)

lemma costs_begin: "costs 0 begin_turn"
  unfolding begin_turn_def using hooks(1) by (intro costs_bind0 costs_modify costs_world) auto

lemma costs_reflect: "costs 1 (reflect_if_due prompt ctx)"
proof -
  have store: "costs 0 (store_reflection s)" for s
    unfolding store_reflection_def using memory by (intro costs_do) (auto split: option.split intro: R_refl)
  have "costs 0 (case answer of None \<Rightarrow> lp_return None
     | Some text \<Rightarrow> if text = [] then lp_return None
         else lp_bind (push (msg_system (''[REFLECTION] '' @ text))) (\<lambda>_.
              lp_bind (store_reflection (''[REFLECTION] '' @ text)) (\<lambda>_.
              lp_bind (lp_modify (\<lambda>r. r\<lparr>consecutive_failures := 0\<rparr>)) (\<lambda>_.
              lp_return (Some text)))))" for answer
    by (auto split: option.split intro!: costs_bind0 store costs_modify)
  then have pass: "costs 1 (run_reflection_pass prompt rc)" for rc
    unfolding run_reflection_pass_def by (intro costs_get costs_bind1 costs_ask)
  have hook: "costs 0 (lp_do (\<lambda>r. chain_before_reflection (lc_middleware (rl_config r)) ctx))"
    "costs 0 (lp_do (\<lambda>r. chain_after_reflection (lc_middleware (rl_config r)) ctx t))" for t
    using hooks(5,6) by (auto intro!: costs_do)
  have one: "costs 1 (lp_return x)" for x by (rule costs_mono) auto
  have "costs 1 (lp_bind (run_reflection_pass prompt rc) (\<lambda>text. case text of
      None \<Rightarrow> lp_return () | Some t \<Rightarrow> lp_do (\<lambda>r. chain_after_reflection (lc_middleware (rl_config r)) ctx t)))" for rc
    by (rule costs_bind1 [OF pass]) (use hook in \<open>simp split: option.split\<close>)
  with hook one show ?thesis
    unfolding reflect_if_due_def
    by (intro costs_get) (auto split: option.split intro: costs_bind0)
qed

lemma costs_approved: "costs 0 (approved_outcome A c req)"
proof -
  have opened: "costs 0 (open_tool_review A c req)"
    unfolding open_tool_review_def
  proof (rule costs_get)
    fix r0 :: "('p, 'x) react_loop" and w0 :: "('p, 'x) agent_world"
    let ?f = "\<lambda>i clk. open_review_with_completion (ae_auth A) (clk 0) (\<lambda>k. clk (k + 1))
      (ae_review A (aw_tick w0)) i (approval_request c req)"
    show "costs 0 (lp_auth A ?f)"
    proof (rule costsI)
      fix r :: "('p, 'x) react_loop" and w
      have "R 0 w (snd (on_auth A (?f (rl_run_id r)) w))" by (rule asks)
      then show "R 0 w (snd (snd (lp_auth A ?f r w)))"
        by (auto simp: lp_auth_def split: prod.splits sum.splits)
    qed simp
  qed
  have "R 0 w (snd (await_review A rid w))" for w rid
    using waits(1) by (simp add: await_review_def Let_def)
  with opened show ?thesis
    unfolding approved_outcome_def resolution_outcome_def using tools(2)
    by (intro costs_bind0 costs_await) (auto split: option.split permission_state.split intro!: costs_world)
qed

lemma costs_tool: "costs 0 (run_one_tool A ctx c)"
proof -
  have "costs 0 (resolved_outcome A c)"
    unfolding resolved_outcome_def using tools(1) costs_approved
    by (intro costs_bind0 costs_world) (auto split: tool_outcome.split)
  moreover have "costs 0 (take_outcome A out)" for out
    unfolding take_outcome_def using waits(2) by (cases out) (auto intro!: costs_bind0 costs_await)
  moreover have "costs 0 (after_tool ctx c out)" for out
    unfolding after_tool_def using hooks(4) by (intro costs_do) simp
  moreover have "costs 0 (lp_world (\<lambda>r. chain_before_tool (lc_middleware (rl_config r)) ctx c))"
    using hooks(3) by (intro costs_world) simp
  ultimately show ?thesis
    unfolding run_one_tool_def push_result_def by (auto split: tool_gate.split intro!: costs_bind0)
qed

lemma costs_tools: "costs 0 (run_tools A ctx cs seen)"
  by (induction cs arbitrary: seen) (auto split: tool_step_result.split intro!: costs_bind0 costs_tool)

lemma costs_finish_tools: "costs 0 (finish_tools A ctx calls)"
  unfolding finish_tools_def by (auto split: option.split intro!: costs_bind0 costs_tools)

text \<open>The critic spends one request, and one revision when the loop goes on.\<close>

definition critic_cost :: "('e, turn_end) loop_result \<Rightarrow> ('p, 'x) react_loop \<Rightarrow> ('p, 'x) react_loop \<Rightarrow> nat" where
  "critic_cost out r r' = (if out = Returns NextTurn then critic_revisions_remaining r - critic_revisions_remaining r'
     else critic_revisions_remaining r)"

lemma critic_run:
  assumes "rl_config r = cfg" and "run_critic_pass A cc r w = (out, r', w')"
  shows "r' = r \<and> R 1 w w' \<and> (\<exists>d. out = Returns d)"
proof -
  let ?ask = "ask (cc_model cc) critic_temperature (rl_history r @ [msg_user (critic_prompt cc)])
    :: ('p, 'e, 'x, string option) loop_op"
  obtain x w1 where a: "?ask r w = (Returns x, r, w1)"
    unfolding ask_def lp_world_def by (metis (no_types, lifting) case_prod_beta)
  from assms(2) have "r' = r" "w' = w1" "\<exists>d. out = Returns d"
    by (auto simp: run_critic_pass_def lp_get_def lp_bind_def a lp_return_def)
  with costs_run [OF costs_ask assms(1) a] show ?thesis by simp
qed

lemma stop_cost:
  assumes "rl_config r = cfg" and "finish_stop A r w = (out, r', w')"
  shows "R (critic_cost out r r') w w'"
proof (cases "lc_critic cfg = None \<or> critic_revisions_remaining r = 0")
  case True
  with assms have "w' = w" by (auto simp: finish_stop_def lp_get_def lp_return_def split: option.splits)
  then show ?thesis using R_any [OF R_refl] by simp
next
  case False
  then obtain cc where cc: "lc_critic cfg = Some cc" and pos: "0 < critic_revisions_remaining r" by auto
  obtain out1 r1 w1 where p: "run_critic_pass A cc r w = (out1, r1, w1)" by (cases "run_critic_pass A cc r w") auto
  from critic_run [OF assms(1) p] obtain d where d: "out1 = Returns d" "r1 = r" and R1: "R 1 w w1" by blast
  have said: "R 1 w (say A i q w1)" for i q using R_trans [OF R1 says] by simp
  from assms(2) cc pos have eq: "critique A cc r w = (out, r', w')" by (simp add: finish_stop_def lp_get_def assms(1))
  show ?thesis
  proof (cases d)
    case Passed
    with eq p d have "w' = say A (rl_run_id r) (EvCriticResult (show_id (ae_auth A) (rl_run_id r)) (rl_agent_name r) True []
        ((of_nat (cc_max_revisions cc) - of_nat (critic_revisions_remaining r)) + 1) (of_nat (cc_max_revisions cc))) w1"
      and "out = Returns LoopDone"
      by (auto simp: critique_def Let_def lp_bind_def lp_get_def critic_event_def lp_do_def lp_return_def)
    with R_mono [OF said] pos show ?thesis by (simp add: critic_cost_def)
  next
    case (NeedsRevision issues)
    with eq p d have "out = Returns NextTurn" "critic_revisions_remaining r' = critic_revisions_remaining r - 1"
      and "\<exists>i q. w' = say A i q w1"
      by (auto simp: critique_def Let_def lp_bind_def lp_get_def critic_event_def lp_do_def lp_return_def
          lp_modify_def push_def)
    with said pos show ?thesis by (auto simp: critic_cost_def)
  next
    case MalformedResponse
    with eq p d have "w' = w1" "out = Returns LoopDone"
      by (auto simp: critique_def Let_def lp_bind_def lp_return_def)
    with R_mono [OF R1] pos show ?thesis by (simp add: critic_cost_def)
  qed
qed

lemma finish_cost:
  assumes "rl_config r = cfg" and "finish_turn A ctx acc r w = (out, r', w')"
  shows "R (critic_cost out r r') w w'"
proof -
  let ?hook = "lp_do (\<lambda>r. chain_after_llm (lc_middleware (rl_config r)) ctx (ta_text acc) (finish_of acc) (ta_usage acc))"
  define r1 where "r1 = r\<lparr>rl_history := rl_history r @ [assistant_message acc]\<rparr>"
  define w1 where "w1 = chain_after_llm (lc_middleware cfg) ctx (ta_text acc) (finish_of acc) (ta_usage acc) w"
  have c1: "rl_config r1 = cfg" "critic_revisions_remaining r1 = critic_revisions_remaining r"
    using assms(1) by (simp_all add: r1_def)
  have R1: "R 0 w w1" unfolding w1_def by (rule hooks)
  from assms have eq: "(if finish_of acc = ToolCalls then finish_tools A ctx (finished_calls acc) else finish_stop A) r1 w1 = (out, r', w')"
    by (simp add: finish_turn_def lp_bind_def push_def lp_modify_def lp_do_def r1_def w1_def)
  have "R (critic_cost out r1 r') w1 w'"
  proof (cases "finish_of acc = ToolCalls")
    case True
    with eq costs_run [OF costs_finish_tools c1(1)] show ?thesis by (auto intro: R_any)
  next
    case False
    with eq stop_cost [OF c1(1)] show ?thesis by simp
  qed
  with R_trans [OF R1] c1 show ?thesis by (auto simp: critic_cost_def)
qed

lemma turn_cost:
  assumes "rl_config r = cfg" and "one_turn A prompt r w = (out, r', w')"
  shows "R (2 + critic_cost out r r') w w'"
proof -
  define front :: "('p, 'e, 'x, (turn_context \<times> turn_acc) option) loop_op" where
    "front = lp_bind check_status (\<lambda>go. if \<not> go then lp_return None
     else lp_bind begin_turn (\<lambda>ctx. lp_bind (reflect_if_due prompt ctx) (\<lambda>_. lp_bind (open_stream A) (\<lambda>es.
          lp_bind (read_stream A es) (\<lambda>acc. lp_return (Some (ctx, acc)))))))"
  have two: "one_turn A prompt = lp_bind front (\<lambda>x. case x of None \<Rightarrow> lp_return LoopDone
     | Some (ctx, acc) \<Rightarrow> finish_turn A ctx acc)"
    by (intro ext) (simp add: one_turn_def front_def lp_bind_def lp_return_def split: prod.splits loop_result.splits)
  have "costs 1 (lp_bind (open_stream A) (\<lambda>es. lp_bind (read_stream A es) (\<lambda>acc. lp_return (Some (ctx, acc)))))" for ctx
    by (rule costs_bind1 [OF costs_open]) (auto intro: costs_bind0 costs_read)
  then have "costs (1 + 1) (lp_bind (reflect_if_due prompt ctx) (\<lambda>_. lp_bind (open_stream A) (\<lambda>es.
      lp_bind (read_stream A es) (\<lambda>acc. lp_return (Some (ctx, acc))))))" for ctx
    by (intro costs_bind costs_reflect)
  then have rest: "costs 2 (lp_bind (reflect_if_due prompt ctx) (\<lambda>_. lp_bind (open_stream A) (\<lambda>es.
      lp_bind (read_stream A es) (\<lambda>acc. lp_return (Some (ctx, acc))))))" for ctx
    by (simp only: one_add_one)
  have "costs 2 (lp_return None)" by (rule costs_mono [of 0]) simp_all
  then have front: "costs 2 front"
    unfolding front_def by (intro costs_bind0 [OF costs_steps(5)]) (use rest in \<open>auto intro!: costs_bind0 [OF costs_begin]\<close>)
  obtain out1 r1 w1 where f: "front r w = (out1, r1, w1)" by (cases "front r w") auto
  note R1 = costs_run [OF front assms(1) f] and c1 = config_run [OF costs_grows [OF front] assms(1) f]
  have rem: "critic_revisions_remaining r1 \<le> critic_revisions_remaining r"
    using grows_run [OF costs_grows [OF front] f] by (simp add: loop_grows_def)
  have R1': "R (2 + n) w w1" for n by (rule R_mono [OF R1]) simp
  show ?thesis
  proof (cases "\<exists>ctx acc. out1 = Returns (Some (ctx, acc))")
    case True
    then obtain ctx acc where o1: "out1 = Returns (Some (ctx, acc))" by blast
    with assms(2) f have fin: "finish_turn A ctx acc r1 w1 = (out, r', w')" by (simp add: two lp_bind_def)
    have "critic_cost out r1 r' \<le> critic_cost out r r'" using rem by (simp add: critic_cost_def diff_le_mono)
    with R_trans [OF R1 finish_cost [OF c1 fin]] show ?thesis by (auto intro: R_mono)
  next
    case False
    with assms(2) f have "w' = w1"
      by (cases out1) (auto simp: two lp_bind_def lp_return_def split: option.splits)
    with R1' show ?thesis by simp
  qed
qed

text \<open>Two requests a turn, and one for each revision.\<close>

lemma drive_cost:
  assumes "rl_config r = cfg" and "drive A prompt k r w = (out, r', w')"
  shows "R (2 * k + critic_revisions_remaining r) w w'"
  using assms
proof (induction k arbitrary: r w)
  case 0
  then show ?case by (auto simp: lp_get_def lp_fail_def intro: R_any R_refl)
next
  case (Suc k)
  obtain out1 r1 w1 where t: "one_turn A prompt r w = (out1, r1, w1)" by (cases "one_turn A prompt r w") auto
  note R1 = turn_cost [OF Suc.prems(1) t]
  from grows_run [OF grows_turn t] have g: "loop_grows r r1" .
  show ?case
  proof (cases "out1 = Returns NextTurn")
    case True
    with Suc.prems(2) t have d: "drive A prompt k r1 w1 = (out, r', w')" by (simp add: lp_bind_def)
    from g Suc.prems(1) have c1: "rl_config r1 = cfg" by (simp add: loop_grows_def)
    from g have eq: "2 + critic_cost out1 r r1 + (2 * k + critic_revisions_remaining r1) = 2 * Suc k + critic_revisions_remaining r"
      using True by (simp add: critic_cost_def loop_grows_def)
    from R_trans [OF R1 Suc.IH [OF c1 d]] show ?thesis unfolding eq .
  next
    case False
    with Suc.prems(2) t have "w' = w1"
      by (cases out1) (auto simp: lp_bind_def lp_return_def split: turn_end.splits)
    with R1 False show ?thesis by (auto simp: critic_cost_def intro: R_mono)
  qed
qed

end

end
