(* ===== verification/LoopWorld.thy ===== *)
theory LoopWorld
  imports LoopLogic AuthorityRuns
begin

text \<open>
  The scripted provider of \<^verbatim>\<open>llm/mock.rs\<close>, and what a loop does to its world: the default middleware
  chain only emits events and fills its own stores, the runs of the authority stay, and the number of
  requests is bounded. The interface \<open>loop_services\<close> is interpreted here on the scripted provider, the
  default chain and the empty dispatcher.
\<close>

section \<open>The scripted provider\<close>

record mock_inner =
  scripts :: "llm_event list list"
  seen :: "llm_request list"

definition new_mock :: mock_inner where
  "new_mock = \<lparr>scripts = [], seen = []\<rparr>"

definition script_delta :: "string \<Rightarrow> llm_event list \<Rightarrow> llm_event list" where
  "script_delta c s = s @ [Delta c]"

definition script_tool_call :: "nat \<Rightarrow> string \<Rightarrow> string \<Rightarrow> string \<Rightarrow> llm_event list \<Rightarrow> llm_event list" where
  "script_tool_call k cid nm args s = s @ [ToolCallDelta k (Some cid) (Some nm) (Some args)]"

definition script_done :: "finish_reason \<Rightarrow> llm_event list \<Rightarrow> llm_event list" where
  "script_done f s = s @ [Done f]"

definition script_usage :: "u64 \<Rightarrow> u64 \<Rightarrow> llm_event list \<Rightarrow> llm_event list" where
  "script_usage ins outs s = s @ [Usage ins outs]"

definition mock_push :: "llm_event list \<Rightarrow> mock_inner \<Rightarrow> mock_inner" where
  "mock_push s m = m\<lparr>scripts := scripts m @ [s]\<rparr>"

definition mock_requests :: "mock_inner \<Rightarrow> llm_request list" where
  "mock_requests m = seen m"

text \<open>A request is recorded and takes the next script; without one the turn just stops.\<close>

definition mock_stream :: "('p, mock_inner) agent_world provider" where
  "mock_stream req w =
     (let m = aw_outside w;
          script = (case scripts m of [] \<Rightarrow> script_done Stop [] | s # _ \<Rightarrow> s)
      in (Inr script, w\<lparr>aw_outside := m\<lparr>seen := seen m @ [req], scripts := tl (scripts m)\<rparr>\<rparr>))"

section \<open>Steps that keep the snapshot\<close>

definition quiet_world :: "('p, 'x) agent_world \<Rightarrow> ('p, 'x) agent_world \<Rightarrow> bool" where
  "quiet_world w w' \<longleftrightarrow> snap (aw_auth w') = snap (aw_auth w) \<and> aw_outside w' = aw_outside w"

lemma quiet_refl [simp]: "quiet_world w w"
  by (simp add: quiet_world_def)

lemma quiet_trans: "quiet_world w w1 \<Longrightarrow> quiet_world w1 w2 \<Longrightarrow> quiet_world w w2"
  by (simp add: quiet_world_def)

lemma quiet_updates [simp]:
  "quiet_world w (w\<lparr>aw_tick := t\<rparr>)" "quiet_world w (upd_stores f w)"
  by (simp_all add: quiet_world_def upd_stores_def)

lemma quiet_say [simp]: "quiet_world w (say A i p w)" "quiet_world w (say_trace A i kvs w)"
  by (simp_all add: quiet_world_def say_trace_def say_def on_auth_def emit_for_run_def emit_topics_def)

lemma quiet_stores: "quiet_world w (upd_stores f (w\<lparr>aw_tick := t\<rparr>))"
  by (simp add: quiet_world_def upd_stores_def)

definition quiet_middleware :: "('p, 'x) agent_world middleware \<Rightarrow> bool" where
  "quiet_middleware m \<longleftrightarrow> (\<forall>w ctx t f u c out. quiet_world w (snd (before_llm_call m ctx w)) \<and>
     quiet_world w (after_llm_call m ctx t f u w) \<and> quiet_world w (snd (before_tool_call m ctx c w)) \<and>
     quiet_world w (after_tool_call m ctx c out w) \<and> quiet_world w (before_reflection m ctx w) \<and>
     quiet_world w (after_reflection m ctx t w))"

lemma quiet_hooks:
  assumes "quiet_middleware m"
  shows "before_llm_call m ctx w = (ctx1, w1) \<Longrightarrow> quiet_world w w1"
    "before_tool_call m ctx c w = (g, w1) \<Longrightarrow> quiet_world w w1"
    "quiet_world w (after_llm_call m ctx t f u w)" "quiet_world w (after_tool_call m ctx c out w)"
    "quiet_world w (before_reflection m ctx w)" "quiet_world w (after_reflection m ctx t w)"
  using assms unfolding quiet_middleware_def by (metis snd_conv)+

lemma quiet_chain:
  assumes "list_all quiet_middleware ms"
  shows "quiet_world w (snd (chain_before_llm ms ctx w))" "quiet_world w (chain_after_llm ms ctx t f u w)"
    "quiet_world w (snd (chain_before_tool ms ctx c w))" "quiet_world w (chain_after_tool ms ctx c out w)"
    "quiet_world w (chain_before_reflection ms ctx w)" "quiet_world w (chain_after_reflection ms ctx t w)"
  using assms
proof (induction ms arbitrary: w ctx)
  case (Cons m ms)
  {
    case 1
    then have m: "quiet_middleware m" and ms: "list_all quiet_middleware ms" by simp_all
    note IH = Cons.IH(1) [OF ms] and hooks = quiet_hooks [OF m]
    obtain ctx1 w1 where b: "before_llm_call m ctx w = (ctx1, w1)" by fastforce
    from quiet_trans [OF hooks(1) [OF b] IH] b show ?case by simp
  next
    case 2
    then have m: "quiet_middleware m" and ms: "list_all quiet_middleware ms" by simp_all
    note IH = Cons.IH(2) [OF ms] and hooks = quiet_hooks [OF m]
    from quiet_trans [OF hooks(3) IH] show ?case by simp
  next
    case 3
    then have m: "quiet_middleware m" and ms: "list_all quiet_middleware ms" by simp_all
    note IH = Cons.IH(3) [OF ms] and hooks = quiet_hooks [OF m]
    obtain g w1 where b: "before_tool_call m ctx c w = (g, w1)" by fastforce
    from quiet_trans [OF hooks(2) [OF b] IH] hooks(2) [OF b] b show ?case by (cases g) simp_all
  next
    case 4
    then have m: "quiet_middleware m" and ms: "list_all quiet_middleware ms" by simp_all
    note IH = Cons.IH(4) [OF ms] and hooks = quiet_hooks [OF m]
    from quiet_trans [OF hooks(4) IH] show ?case by simp
  next
    case 5
    then have m: "quiet_middleware m" and ms: "list_all quiet_middleware ms" by simp_all
    note IH = Cons.IH(5) [OF ms] and hooks = quiet_hooks [OF m]
    from quiet_trans [OF hooks(5) IH] show ?case by simp
  next
    case 6
    then have m: "quiet_middleware m" and ms: "list_all quiet_middleware ms" by simp_all
    note IH = Cons.IH(6) [OF ms] and hooks = quiet_hooks [OF m]
    from quiet_trans [OF hooks(6) IH] show ?case by simp
  }
qed simp_all

lemma quiet_default_chain: "list_all quiet_middleware (build_middleware_chain A)"
proof -
  have "quiet_middleware (timing A)"
    unfolding quiet_middleware_def timing_def
    by (simp add: no_op_def instant_now_def quiet_stores split: option.split)
  moreover have "quiet_middleware token_accumulator"
    unfolding quiet_middleware_def token_accumulator_def by (simp add: no_op_def)
  moreover have "quiet_middleware (trace_emitter A)"
    unfolding quiet_middleware_def trace_emitter_def by (simp add: no_op_def)
  ultimately show ?thesis by (simp add: build_middleware_chain_def)
qed

section \<open>Runs stay\<close>

definition keeps_runs :: "('p, 'x) agent_world \<Rightarrow> ('p, 'x) agent_world \<Rightarrow> bool" where
  "keeps_runs w w' \<longleftrightarrow> (\<forall>i. get_run (aw_auth w) i \<noteq> None \<longrightarrow> get_run (aw_auth w') i \<noteq> None)"

lemma keeps_runs_refl [simp]: "keeps_runs w w"
  by (simp add: keeps_runs_def)

lemma keeps_runs_trans: "keeps_runs w w1 \<Longrightarrow> keeps_runs w1 w2 \<Longrightarrow> keeps_runs w w2"
  by (simp add: keeps_runs_def)

lemma quiet_keeps_runs: "quiet_world w w' \<Longrightarrow> keeps_runs w w'"
  by (simp add: quiet_world_def keeps_runs_def get_run_def)

lemma get_run_register [simp]: "get_run (register_completion rid a) i = get_run a i"
  by (simp add: register_completion_def get_run_def)

lemma get_run_open_review:
  "get_run a i \<noteq> None \<Longrightarrow> get_run (snd (open_review E now ms rid j q a)) i \<noteq> None"
  by (auto simp: open_review_def Let_def auth_simps get_run_def map_of_bt_modify split: option.split)

lemma get_run_open:
  "get_run (snd (open_review_with_completion E now ms rid j q a)) i = get_run (snd (open_review E now ms rid j q a)) i"
  by (simp add: open_review_with_completion_def split: sum.split prod.split)

lemma keeps_runs_open:
  "keeps_runs w (snd (on_auth A (\<lambda>c. open_review_with_completion (ae_auth A) (c 0) (\<lambda>k. c (k + 1)) rid i q) w))"
  unfolding keeps_runs_def on_auth_def
  by (auto simp: split_def get_run_open get_run_open_review)


section \<open>The interface on the code's own parts\<close>

text \<open>An environment in which nobody else runs while the loop waits.\<close>

definition idle_env :: "('p, 'e) auth_env \<Rightarrow> (nat \<Rightarrow> nat \<Rightarrow> int) \<Rightarrow> (json \<Rightarrow> string) \<Rightarrow> ('p, 'e, 'x) agent_env" where
  "idle_env E clk shw = \<lparr>ae_auth = E, ae_clock = clk, ae_instant = (\<lambda>t. t), ae_review = (\<lambda>t. UuidNewtype t),
     ae_error_text = (\<lambda>_. ''error''), ae_debug = (\<lambda>s. s), ae_json_show = shw, ae_json_text = (\<lambda>j. Inr (shw j)),
     ae_json_parse = (\<lambda>_. None), ae_wait_review = (\<lambda>_ w. w), ae_wait_child = (\<lambda>_ w. (Closed, w))\<rparr>"

definition scripted_config :: "('p, 'e, mock_inner) agent_env \<Rightarrow> nat \<Rightarrow> critic_config option \<Rightarrow> reflection_config option
    \<Rightarrow> session_id option \<Rightarrow> ('p, mock_inner) loop_config" where
  "scripted_config A n critic rfl sid = \<lparr>lc_model = ''mock'', lc_system_prompt = Some ''sys'', lc_user_input = ''hi'',
     lc_max_turns = n, lc_temperature = None, lc_reasoning_effort = None, lc_llm = mock_stream,
     lc_tools = empty_dispatcher, lc_thinking = None, lc_initial_thread = None, lc_session_id = sid,
     lc_reflection = rfl, lc_critic = critic, lc_write_namespace = None, lc_memory_manager = None,
     lc_middleware = build_middleware_chain A, lc_agent_name = None\<rparr>"

text \<open>The requests that a scripted provider has seen.\<close>

definition asked :: "nat \<Rightarrow> ('p, mock_inner) agent_world \<Rightarrow> ('p, mock_inner) agent_world \<Rightarrow> bool" where
  "asked n w w' \<longleftrightarrow> length (seen (aw_outside w')) \<le> length (seen (aw_outside w)) + n"

lemma quiet_asked: "quiet_world w w' \<Longrightarrow> asked n w w'"
  by (simp add: quiet_world_def asked_def)

lemma on_auth_outside [simp]: "aw_outside (snd (on_auth A f w)) = aw_outside w"
  by (simp add: on_auth_def split: prod.split)

lemma empty_dispatcher_world [simp]:
  "snd (dispatch empty_dispatcher c w) = w" "snd (dispatch_approved empty_dispatcher c w) = w"
  by (simp_all add: empty_dispatcher_def Let_def)

lemma scripted_config_simps [simp]:
  "lc_llm (scripted_config A n critic rfl sid) = mock_stream"
  "lc_tools (scripted_config A n critic rfl sid) = empty_dispatcher"
  "lc_middleware (scripted_config A n critic rfl sid) = build_middleware_chain A"
  "lc_memory_manager (scripted_config A n critic rfl sid) = None"
  by (simp_all add: scripted_config_def)

lemma idle_waits [simp]:
  "ae_wait_review (idle_env E clk shw) rid w = w" "snd (ae_wait_child (idle_env E clk shw) h w) = w"
  by (simp_all add: idle_env_def)

lemma mock_world [simp]: "asked (Suc 0) w (snd (mock_stream req w))" "keeps_runs w (snd (mock_stream req w))"
  by (simp_all add: mock_stream_def Let_def asked_def keeps_runs_def)

lemma asked_auth [simp]: "asked n w (snd (on_auth A f w))"
  by (simp add: asked_def)

lemma asked_trans: "asked m w w1 \<Longrightarrow> asked n w1 w2 \<Longrightarrow> asked (m + n) w w2"
  by (simp add: asked_def)

lemma asked_mono: "asked m w w1 \<Longrightarrow> m \<le> n \<Longrightarrow> asked n w w1"
  by (simp add: asked_def)

lemmas default_chain_quiet = quiet_chain [OF quiet_default_chain]

interpretation requests: loop_services "idle_env E clk shw" "scripted_config (idle_env E clk shw) n critic rfl sid" asked
  for E clk shw n critic rfl sid
  by (unfold_locales;
    (erule (1) asked_trans | erule (1) asked_mono | simp add: quiet_asked default_chain_quiet))

interpretation stays: loop_services "idle_env E clk shw" "scripted_config (idle_env E clk shw) n critic rfl sid"
    "\<lambda>_. keeps_runs"
  for E clk shw n critic rfl sid
  by (unfold_locales;
    (erule (1) keeps_runs_trans | assumption | rule keeps_runs_open | simp add: quiet_keeps_runs default_chain_quiet))

end
