(* ===== verification/LoopThreads.thy ===== *)
theory LoopThreads
  imports LoopLogic
begin

text \<open>
  The thread a loop builds: under a provider that announces its tool calls, every complete turn
  leaves a thread in which each call is answered, and a turn that fails while it runs its tools
  leaves one that no further message can repair.
\<close>

section \<open>Streams\<close>

text \<open>What a stream adds up to, without the events it emits.\<close>

fun stream_acc :: "llm_event list \<Rightarrow> turn_acc \<Rightarrow> string + turn_acc" where
  "stream_acc [] acc = Inr acc"
| "stream_acc (ThinkingDelta c # es) acc = stream_acc es (acc\<lparr>ta_thinking := ta_thinking acc @ c\<rparr>)"
| "stream_acc (Delta c # es) acc = stream_acc es (acc\<lparr>ta_text := ta_text acc @ c\<rparr>)"
| "stream_acc (ToolCallDelta k cid nm chunk # es) acc =
     stream_acc es (acc\<lparr>ta_calls := add_call_delta k cid nm chunk (ta_calls acc)\<rparr>)"
| "stream_acc (Usage ins outs # es) acc =
     stream_acc es (acc\<lparr>ta_usage := usage_add (ta_usage acc) \<lparr>input_tokens = ins, output_tokens = outs\<rparr>\<rparr>)"
| "stream_acc (Done fin # es) acc = Inr (acc\<lparr>ta_finish := Some fin\<rparr>)"
| "stream_acc (StreamError msg # es) acc = Inl msg"

lemma consume_acc: "fst (consume A i tid es acc w) = stream_acc es acc"
  by (induction es acc arbitrary: w rule: stream_acc.induct) simp_all

text \<open>
  The provider announces its calls: a stream that carries calls ends with \<^verbatim>\<open>tool_calls\<close> and names
  every call.
\<close>

definition calls_announced :: "turn_acc \<Rightarrow> bool" where
  "calls_announced acc \<longleftrightarrow> (finished_calls acc \<noteq> [] \<longrightarrow>
     finish_of acc = ToolCalls \<and> (\<forall>c \<in> set (finished_calls acc). call_name c \<noteq> []))"

definition announces_calls :: "'w provider \<Rightarrow> bool" where
  "announces_calls llm \<longleftrightarrow> (\<forall>req w es w' acc. llm req w = (Inr es, w') \<longrightarrow>
     stream_acc es new_turn_acc = Inr acc \<longrightarrow> calls_announced acc)"

section \<open>The history after each step\<close>

text \<open>Steps that leave the history alone.\<close>

definition same_history :: "('p, 'e, 'x, 'a) loop_op \<Rightarrow> bool" where
  "same_history f \<longleftrightarrow> (\<forall>r w. rl_history (fst (snd (f r w))) = rl_history r)"

lemma same_bind [intro!]:
  "same_history f \<Longrightarrow> (\<And>x. same_history (g x)) \<Longrightarrow> same_history (lp_bind f g)"
  unfolding same_history_def lp_bind_def
  by (auto split: prod.splits loop_result.splits) (metis fst_conv snd_conv)+

lemma same_get [intro!]: "(\<And>r w. same_history (f r w)) \<Longrightarrow> same_history (lp_get f)"
  by (simp add: same_history_def lp_get_def)

lemma same_steps [simp, intro!]:
  "same_history (lp_return x)" "same_history (lp_fail e)" "same_history (lp_world f1)" "same_history (lp_do f2)"
  "same_history (lp_auth A f3)" "same_history (lp_await f4)" "same_history (lp_trace A kvs)"
  "same_history (set_failures f5)" "same_history check_status"
  by (auto simp: same_history_def lp_return_def lp_fail_def lp_world_def lp_do_def lp_modify_def lp_auth_def
      lp_await_def lp_trace_def set_failures_def check_status_def
      split: prod.splits sum.splits waited.splits run_status.splits)

lemma same_valid: "same_history f \<Longrightarrow> valid (\<lambda>r w. rl_history r = h) f (\<lambda>_ r w. rl_history r = h) (\<lambda>_ r w. rl_history r = h)"
  unfolding same_history_def by (rule validI; metis fst_conv snd_conv)

lemma same_after_tool [simp, intro!]: "same_history (after_tool ctx c out)"
  by (simp add: after_tool_def)

lemma same_outcome [simp, intro!]: "same_history (resolved_outcome A c)" "same_history (take_outcome A out)"
proof -
  have "same_history (approved_outcome A c req)" for req
    unfolding approved_outcome_def open_tool_review_def resolution_outcome_def by (auto split: option.split permission_state.split)
  then show "same_history (resolved_outcome A c)"
    unfolding resolved_outcome_def by (auto split: tool_outcome.split)
  show "same_history (take_outcome A out)"
    unfolding take_outcome_def by (cases out) auto
qed

lemma same_ask [simp, intro!]: "same_history (ask m t ms)"
  by (simp add: ask_def)

lemma same_stream [simp, intro!]: "same_history (open_stream A)" "same_history (read_stream A es)"
  unfolding open_stream_def read_stream_def by (auto split: sum.split)

lemma same_begin [simp, intro!]: "same_history begin_turn"
  by (auto simp: begin_turn_def same_history_def lp_bind_def lp_modify_def lp_world_def split: prod.splits)

text \<open>Triples over the history alone.\<close>

abbreviation hist :: "('p, 'e, 'x, 'a) loop_op \<Rightarrow> chat_message list \<Rightarrow> ('a \<Rightarrow> chat_message list \<Rightarrow> bool)
    \<Rightarrow> (chat_message list \<Rightarrow> bool) \<Rightarrow> bool" where
  "hist f h Q R \<equiv> valid (\<lambda>r w. rl_history r = h) f (\<lambda>x r w. Q x (rl_history r)) (\<lambda>e r w. R (rl_history r))"

lemma hist_same: "same_history f \<Longrightarrow> (\<And>x. Q x h) \<Longrightarrow> R h \<Longrightarrow> hist f h Q R"
  by (rule valid_weaken [OF same_valid [where h = h]]) auto

lemma hist_bind:
  assumes "hist f h M R" and "\<And>x h'. M x h' \<Longrightarrow> hist (g x) h' Q R"
  shows "hist (lp_bind f g) h Q R"
proof (rule valid_bind [OF assms(1)])
  fix x
  show "valid (\<lambda>r w. M x (rl_history r)) (g x) (\<lambda>y r w. Q y (rl_history r)) (\<lambda>e r w. R (rl_history r))"
    using assms(2) [of x] by (auto simp: valid_def)
qed

lemma hist_bind_same:
  assumes "same_history f" and "R h" and "\<And>x. hist (g x) h Q R"
  shows "hist (lp_bind f g) h Q R"
  using assms by (intro hist_bind [OF hist_same [where Q = "\<lambda>_ h'. h' = h" and R = R]]) auto

lemma hist_push: "Q () (h @ [m]) \<Longrightarrow> hist (push m) h Q R"
  by (rule valid_push) simp

lemma hist_return: "Q x h \<Longrightarrow> hist (lp_return x) h Q R"
  by (rule valid_return) simp

section \<open>Tools\<close>

text \<open>A call that completes appends its result, one that fails nothing.\<close>

lemma hist_tool:
  "hist (run_one_tool A ctx c) h (\<lambda>x h'. x \<noteq> StepCancelled \<and> (\<exists>m. answers c m \<and> h' = h @ [m])) (\<lambda>h'. h' = h)"
proof -
  let ?Q = "\<lambda>x h'. x \<noteq> StepCancelled \<and> (\<exists>m. answers c m \<and> h' = h @ [m])"
  have pushed: "hist (lp_bind (push_result A c t) (\<lambda>_. g)) h ?Q R"
    if "\<And>m. answers c m \<Longrightarrow> hist g (h @ [m]) ?Q R" for t g R
  proof (rule hist_bind)
    show "hist (push_result A c t) h (\<lambda>_ h'. \<exists>m. answers c m \<and> h' = h @ [m]) R"
      unfolding push_result_def by (rule hist_push) (use answers_tool_result in blast)
  qed (use that in blast)
  have blocked: "hist (lp_bind (after_tool ctx c out) (\<lambda>_. lp_return StepContinue)) (h @ [m]) ?Q R"
    if "answers c m" for m out R
    using that by (auto simp: valid_def after_tool_def lp_bind_def lp_do_def lp_return_def)
  show ?thesis
    unfolding run_one_tool_def
  proof (rule hist_bind_same)
    fix gate
    show "hist (case gate of
        Block why \<Rightarrow> lp_bind (push_result A c (text_or A (error_json why) (\<lambda>_. error_object_text why))) (\<lambda>_.
           lp_bind (after_tool ctx c (ToolError why)) (\<lambda>_. lp_return StepContinue))
      | Allow \<Rightarrow> lp_bind (resolved_outcome A c) (\<lambda>out. lp_bind (after_tool ctx c out) (\<lambda>_.
         lp_bind (take_outcome A out) (\<lambda>(v, terminal).
         lp_bind (push_result A c (text_or A v (\<lambda>e. error_object_text (''serialize tool result: '' @ e)))) (\<lambda>_.
         lp_return (if terminal then StepTerminal else StepContinue)))))) h ?Q (\<lambda>h'. h' = h)"
      by (cases gate) (auto intro!: pushed blocked hist_bind_same hist_return split: if_splits)
  qed simp_all
qed

lemma hist_tools:
  "hist (run_tools A ctx cs seen) h (\<lambda>_ h'. \<exists>ms. list_all2 answers cs ms \<and> h' = h @ ms)
     (\<lambda>h'. \<exists>ms. length ms < length cs \<and> h' = h @ ms)"
proof (induction cs arbitrary: seen h)
  case Nil
  then show ?case by (auto intro!: hist_return)
next
  case (Cons c cs)
  let ?R = "\<lambda>h'. \<exists>ms. length ms < length (c # cs) \<and> h' = h @ ms"
  show ?case
    unfolding run_tools.simps
  proof (rule hist_bind)
    show "hist (run_one_tool A ctx c) h (\<lambda>x h'. x \<noteq> StepCancelled \<and> (\<exists>m. answers c m \<and> h' = h @ [m])) ?R"
      by (rule valid_weaken [OF hist_tool [where h = h]]) auto
  next
    fix res h' assume "res \<noteq> StepCancelled \<and> (\<exists>m. answers c m \<and> h' = h @ [m])"
    then obtain m where m: "res \<noteq> StepCancelled" "answers c m" "h' = h @ [m]" by blast
    have rest: "hist (run_tools A ctx cs seen') h' (\<lambda>_ h'. \<exists>ms. list_all2 answers (c # cs) ms \<and> h' = h @ ms) ?R" for seen'
      by (rule valid_weaken [OF Cons.IH [where h = h']])
        (use m in \<open>force simp: list_all2_Cons1\<close>)+
    show "hist (case res of StepContinue \<Rightarrow> run_tools A ctx cs seen | StepTerminal \<Rightarrow> run_tools A ctx cs True
        | StepCancelled \<Rightarrow> lp_fail LoopCancelled) h' (\<lambda>_ h'. \<exists>ms. list_all2 answers (c # cs) ms \<and> h' = h @ ms) ?R"
      using rest m(1) by (cases res) auto
  qed
qed

section \<open>Turns\<close>

text \<open>
  A thread that ends in calls of which some are unanswered. No plain message repairs it.
\<close>

definition broken :: "chat_message list \<Rightarrow> bool" where
  "broken h \<longleftrightarrow> (\<exists>g cs ms. answered g \<and> length ms < length cs \<and> h = g @ msg_assistant_tool_calls cs # ms)"

lemma broken_stays:
  assumes "broken h" and "plain m"
  shows "\<not> answered (h @ m # ys)"
proof -
  from assms(1) obtain g cs ms where g: "answered g" "length ms < length cs" "h = g @ msg_assistant_tool_calls cs # ms"
    by (auto simp: broken_def)
  then have "cs \<noteq> []" by auto
  from unanswered_calls [OF g(1) this g(2), of m ys] assms(2) g(3) show ?thesis by simp
qed

text \<open>The phase after the assistant's message.\<close>

lemma hist_finish_tools:
  "hist (finish_tools A ctx cs) h (\<lambda>_ h'. \<exists>ms. list_all2 answers cs ms \<and> h' = h @ ms)
     (\<lambda>h'. \<exists>ms. length ms < length cs \<and> h' = h @ ms)"
proof (cases "cs = []")
  case True
  then show ?thesis by (auto simp: finish_tools_def intro!: valid_return)
next
  case False
  have "hist (lp_bind (run_tools A ctx cs False) (\<lambda>t. lp_return (if t then LoopDone else NextTurn))) h
     (\<lambda>_ h'. \<exists>ms. list_all2 answers cs ms \<and> h' = h @ ms) (\<lambda>h'. \<exists>ms. length ms < length cs \<and> h' = h @ ms)"
    by (rule hist_bind [OF hist_tools]) (rule hist_return)
  moreover have "hist (lp_fail e) h
     (\<lambda>_ h'. \<exists>ms. list_all2 answers cs ms \<and> h' = h @ ms) (\<lambda>h'. \<exists>ms. length ms < length cs \<and> h' = h @ ms)"
    for e
    using False by (auto simp: valid_def lp_fail_def)
  ultimately show ?thesis
    unfolding finish_tools_def using False
    by (auto split: option.split intro!: hist_bind_same)
qed

text \<open>With calls that all have names, the failure is not the provider's.\<close>

lemma tools_error:
  assumes "\<forall>c \<in> set cs. call_name c \<noteq> []" and "finish_tools A ctx cs r w = (Fails e, r', w')"
  shows "(\<exists>a. e = LoopAuthority a) \<or> e = ReviewChannelClosed \<or> e = LoopCancelled"
proof -
  let ?ok = "\<lambda>e. (\<exists>a. e = LoopAuthority a) \<or> e = ReviewChannelClosed \<or> e = LoopCancelled"
  let ?v = "\<lambda>f. valid (\<lambda>r w. True) f (\<lambda>_ r w. True) (\<lambda>e r w. ?ok e)"
  have b: "?v (lp_bind f g)" if "?v f" "\<And>x. ?v (g x)" for f g
    by (rule valid_bind [OF that])
  have approved: "?v (approved_outcome A c req)" for c req
    unfolding approved_outcome_def open_tool_review_def resolution_outcome_def
    by (auto split: option.split permission_state.split intro!: b valid_get valid_auth valid_await valid_return valid_fail valid_pure)
  have outcome: "?v (resolved_outcome A c)" for c
    unfolding resolved_outcome_def
    by (auto split: tool_outcome.split intro!: b valid_pure valid_return approved)
  have taken: "?v (take_outcome A out)" for out
    unfolding take_outcome_def set_failures_def
    by (cases out) (auto intro!: b valid_modify valid_return valid_await)
  have tool: "?v (run_one_tool A ctx c)" for c
    unfolding run_one_tool_def push_result_def after_tool_def
    by (auto split: tool_gate.split intro!: b valid_pure valid_push valid_do valid_return outcome taken)
  have tools: "?v (run_tools A ctx cs seen)" for seen cs
    by (induction cs arbitrary: seen)
      (auto split: tool_step_result.split intro!: b tool valid_return valid_fail)
  from assms(1) have none: "List.find (\<lambda>c. call_name c = []) cs = None" by (auto simp: find_None_iff)
  have "?v (finish_tools A ctx cs)"
    unfolding finish_tools_def lp_trace_def none by (auto intro!: b valid_do valid_return tools)
  from valid_fails [OF this _ assms(2)] show ?thesis by simp
qed

lemma hist_stop: "hist (finish_stop A) h (\<lambda>_ h'. h' = h \<or> (\<exists>s. h' = h @ [msg_user s])) (\<lambda>h'. False)"
proof (rule validI)
  fix r w x r' w'
  assume h: "rl_history r = h" and f: "finish_stop A r w = (Returns x, r', w')"
  then show "rl_history r' = h \<or> (\<exists>s. rl_history r' = h @ [msg_user s])"
    by (auto simp: finish_stop_def critique_def run_critic_pass_def ask_def critic_event_def critic_issues_message_def
        lp_get_def lp_bind_def lp_world_def lp_do_def lp_modify_def push_def lp_return_def Let_def
        split: option.splits if_splits prod.splits sum.splits critic_decision.splits) blast+
next
  fix r w e r' w'
  assume "finish_stop A r w = (Fails e, r', w')"
  then show False
    by (auto simp: finish_stop_def critique_def run_critic_pass_def ask_def critic_event_def
        lp_get_def lp_bind_def lp_world_def lp_do_def lp_modify_def push_def lp_return_def Let_def
        split: option.splits if_splits prod.splits sum.splits critic_decision.splits)
qed

lemma assistant_message_calls:
  "finished_calls acc \<noteq> [] \<Longrightarrow> assistant_message acc = msg_assistant_tool_calls (finished_calls acc)"
  "finished_calls acc = [] \<Longrightarrow> plain (assistant_message acc)"
  by (simp_all add: assistant_message_def plain_def msg_assistant_text_def)

text \<open>A turn that fails after the assistant's message has left the thread broken.\<close>

lemma finish_turn_fails:
  assumes "finish_turn A ctx acc r w = (Fails e, r', w')" and "answered (rl_history r)"
  shows "broken (rl_history r')"
proof -
  define r1 where "r1 = r\<lparr>rl_history := rl_history r @ [assistant_message acc]\<rparr>"
  obtain w1 where eq: "(if finish_of acc = ToolCalls then finish_tools A ctx (finished_calls acc) else finish_stop A) r1 w1 = (Fails e, r', w')"
    using assms(1) by (auto simp: finish_turn_def lp_bind_def push_def lp_modify_def lp_do_def r1_def)
  show ?thesis
  proof (cases "finish_of acc = ToolCalls")
    case True
    with eq have "finish_tools A ctx (finished_calls acc) r1 w1 = (Fails e, r', w')" by simp
    from valid_fails [OF hist_finish_tools refl this] obtain ms where
      ms: "length ms < length (finished_calls acc)" "rl_history r' = rl_history r1 @ ms" by blast
    then have "finished_calls acc \<noteq> []" by auto
    with ms assms(2) show ?thesis
      by (auto simp: broken_def r1_def assistant_message_calls(1))
  next
    case False
    with eq valid_fails [OF hist_stop refl] show ?thesis by fastforce
  qed
qed

lemma finish_turn_returns:
  assumes "finish_turn A ctx acc r w = (Returns x, r', w')" and "answered (rl_history r)" and "calls_announced acc"
  shows "answered (rl_history r')"
proof -
  define r1 where "r1 = r\<lparr>rl_history := rl_history r @ [assistant_message acc]\<rparr>"
  obtain w1 where eq: "(if finish_of acc = ToolCalls then finish_tools A ctx (finished_calls acc) else finish_stop A) r1 w1 = (Returns x, r', w')"
    using assms(1) by (auto simp: finish_turn_def lp_bind_def push_def lp_modify_def lp_do_def r1_def)
  show ?thesis
  proof (cases "finish_of acc = ToolCalls")
    case True
    with eq have "finish_tools A ctx (finished_calls acc) r1 w1 = (Returns x, r', w')" by simp
    from valid_returns [OF hist_finish_tools refl this] obtain ms where
      ms: "list_all2 answers (finished_calls acc) ms" "rl_history r' = rl_history r1 @ ms" by blast
    show ?thesis
    proof (cases "finished_calls acc = []")
      case True
      with ms assms(2) assistant_message_calls(2) [OF True] show ?thesis
        by (simp add: r1_def answered_append)
    next
      case False
      with ms answered_calls [OF ms(1)] assms(2) show ?thesis
        by (simp add: r1_def assistant_message_calls(1) answered_append)
    qed
  next
    case False
    with assms(3) have "plain (assistant_message acc)"
      by (auto simp: calls_announced_def assistant_message_calls)
    moreover from False eq have "finish_stop A r1 w1 = (Returns x, r', w')" by simp
    from valid_returns [OF hist_stop refl this] have
      "rl_history r' = rl_history r1 \<or> (\<exists>s. rl_history r' = rl_history r1 @ [msg_user s])" .
    ultimately show ?thesis
      using assms(2) by (auto simp: r1_def answered_append answered_plain)
  qed
qed

text \<open>The reflection only adds a system message.\<close>

lemma reflect_history:
  assumes "reflect_if_due prompt ctx r w = (out, r', w')"
  shows "(\<exists>x. out = Returns x) \<and> (rl_history r' = rl_history r \<or> (\<exists>s. rl_history r' = rl_history r @ [msg_system s]))"
  using assms
  by (auto simp: reflect_if_due_def run_reflection_pass_def ask_def store_reflection_def
      lp_get_def lp_bind_def lp_world_def lp_do_def lp_modify_def push_def lp_return_def
      split: option.splits if_splits prod.splits sum.splits) blast+

lemma reflect_answered:
  "reflect_if_due prompt ctx r w = (out, r', w') \<Longrightarrow> answered (rl_history r) \<Longrightarrow> answered (rl_history r')"
  using reflect_history by (fastforce simp: answered_append)

lemma lp_bind_cases:
  assumes "lp_bind f g r w = (out, r', w')"
  obtains (next_step) x r1 w1 where "f r w = (Returns x, r1, w1)" "g x r1 w1 = (out, r', w')"
  | (failed) e where "f r w = (Fails e, r', w')" "out = Fails e"
  | (blocked) "f r w = (Blocked, r', w')" "out = Blocked"
  using assms by (auto simp: lp_bind_def split: prod.splits loop_result.splits)

lemma same_history_run: "same_history f \<Longrightarrow> f r w = (out, r', w') \<Longrightarrow> rl_history r' = rl_history r"
  unfolding same_history_def by (metis fst_conv snd_conv)

text \<open>The part of a turn in front of its stream.\<close>

definition prelude :: "string \<Rightarrow> ('p, 'e, 'x, turn_context) loop_op" where
  "prelude prompt = lp_bind begin_turn (\<lambda>ctx. lp_bind (reflect_if_due prompt ctx) (\<lambda>_. lp_return ctx))"

lemma prelude_answered:
  assumes "prelude prompt r w = (out, r', w')" and "answered (rl_history r)"
  shows "answered (rl_history r')"
  using assms(1) unfolding prelude_def
proof (cases rule: lp_bind_cases)
  case (next_step ctx r1 w1)
  from same_history_run [OF same_begin next_step(1)] assms(2) have "answered (rl_history r1)" by simp
  with next_step(2) show ?thesis
    by (elim lp_bind_cases) (auto simp: lp_return_def dest: reflect_answered)
qed (use same_history_run [OF same_begin] assms(2) in metis)+

lemma one_turn_prelude:
  "one_turn A prompt = lp_bind check_status (\<lambda>go. if \<not> go then lp_return LoopDone
     else lp_bind (prelude prompt) (\<lambda>ctx. lp_bind (open_stream A) (\<lambda>es. lp_bind (read_stream A es) (finish_turn A ctx))))"
  by (intro ext) (simp add: one_turn_def prelude_def lp_bind_def lp_return_def split: prod.splits loop_result.splits)

lemma open_stream_returns:
  assumes "open_stream A r w = (Returns es, r', w')"
  shows "r' = r \<and> (\<exists>w1. lc_llm (rl_config r) (turn_request r w) w = (Inr es, w1))"
  using assms by (auto simp: open_stream_def lp_bind_def lp_world_def lp_return_def lp_fail_def lp_trace_def lp_do_def
      split: prod.splits sum.splits)

lemma read_stream_returns:
  assumes "read_stream A es r w = (Returns acc, r', w')"
  shows "r' = r \<and> stream_acc es new_turn_acc = Inr acc"
  using assms consume_acc [of A "rl_run_id r" "show_nat (unat (rl_turn r))" es new_turn_acc w]
  by (auto simp: read_stream_def lp_bind_def lp_world_def lp_return_def lp_fail_def lp_trace_def lp_do_def
      split: prod.splits sum.splits)

lemma stream_fails:
  "open_stream A r w = (Fails e, r', w') \<Longrightarrow> \<exists>p. e = LoopProvider p"
  "read_stream A es r w = (Fails e, r', w') \<Longrightarrow> \<exists>p. e = LoopProvider p"
  by (auto simp: open_stream_def read_stream_def lp_bind_def lp_world_def lp_return_def lp_fail_def lp_trace_def lp_do_def
      split: prod.splits sum.splits)

text \<open>A failure that keeps the thread answered: the provider's, or none of a tool.\<close>

definition clean_error :: "'e loop_error \<Rightarrow> bool" where
  "clean_error e \<longleftrightarrow> (\<exists>p. e = LoopProvider p) \<or> (\<exists>n. e = MaxTurnsExceeded n)"

lemma turn_thread:
  assumes "one_turn A prompt r w = (out, r', w')" and "answered (rl_history r)"
    and "announces_calls (lc_llm (rl_config r))"
  shows "case out of Returns x \<Rightarrow> answered (rl_history r')
    | Fails e \<Rightarrow> answered (rl_history r') \<or> \<not> clean_error e \<and> broken (rl_history r') | Blocked \<Rightarrow> True"
proof -
  let ?P = "\<lambda>c r w. rl_config r = c \<and> answered (rl_history r)"
  let ?R = "\<lambda>e r w. answered (rl_history r) \<or> \<not> clean_error e \<and> broken (rl_history r)"
  let ?c = "rl_config r"
  let ?Q = "\<lambda>x r w. answered (rl_history r)"
  have same: "valid (?P c) f (\<lambda>_. ?P c) ?R" if "same_history f" "grows f" for f c
    using that same_history_run [OF that(1)] grows_run [OF that(2)]
    by (intro validI) (auto simp: loop_grows_def)
  have pre: "valid (?P c) (prelude prompt) (\<lambda>_. ?P c) ?R" for c
  proof (rule validI)
    fix r w x r' w' assume P: "?P c r w" and run: "prelude prompt r w = (Returns x, r', w')"
    have "grows (prelude prompt)" unfolding prelude_def by auto
    from grows_run [OF this run] P prelude_answered [OF run] show "?P c r' w'" by (simp add: loop_grows_def)
  qed (use prelude_answered in blast)
  have opens: "valid (?P ?c) (open_stream A) (\<lambda>es r w. ?P ?c r w \<and> (\<forall>acc. stream_acc es new_turn_acc = Inr acc \<longrightarrow> calls_announced acc)) ?R"
  proof (rule validI)
    fix r1 w1 es r2 w2 assume P: "?P ?c r1 w1" and run: "open_stream A r1 w1 = (Returns es, r2, w2)"
    from open_stream_returns [OF run] assms(3) P show
      "?P ?c r2 w2 \<and> (\<forall>acc. stream_acc es new_turn_acc = Inr acc \<longrightarrow> calls_announced acc)"
      by (auto simp: announces_calls_def)
  qed (fastforce dest: same_history_run [OF same_stream(1)])
  have reads: "valid (\<lambda>r w. ?P ?c r w \<and> (\<forall>acc. stream_acc es new_turn_acc = Inr acc \<longrightarrow> calls_announced acc))
      (read_stream A es) (\<lambda>acc r w. ?P ?c r w \<and> calls_announced acc) ?R" for es
    by (rule validI) (use read_stream_returns same_history_run [OF same_stream(2)] in \<open>fastforce\<close>)+
  have finishes: "valid (\<lambda>r w. ?P ?c r w \<and> calls_announced acc) (finish_turn A ctx acc) ?Q ?R" for ctx acc
  proof (rule validI)
    fix r1 w1 e r2 w2
    assume P: "?P ?c r1 w1 \<and> calls_announced acc" and run: "finish_turn A ctx acc r1 w1 = (Fails e, r2, w2)"
    from finish_turn_fails [OF run] P have b: "broken (rl_history r2)" by blast
    define r3 where "r3 = r1\<lparr>rl_history := rl_history r1 @ [assistant_message acc]\<rparr>"
    obtain w3 where eq: "(if finish_of acc = ToolCalls then finish_tools A ctx (finished_calls acc) else finish_stop A) r3 w3 = (Fails e, r2, w2)"
      using run by (auto simp: finish_turn_def lp_bind_def push_def lp_modify_def lp_do_def r3_def)
    have "\<forall>c \<in> set (finished_calls acc). call_name c \<noteq> []"
      using P by (cases "finished_calls acc = []") (auto simp: calls_announced_def)
    with eq tools_error valid_fails [OF hist_stop refl] have "\<not> clean_error e"
      by (fastforce simp: clean_error_def split: if_splits)
    with b show "?R e r2 w2" by blast
  qed (use finish_turn_returns in blast)
  have "valid (?P ?c) (one_turn A prompt) ?Q ?R"
    unfolding one_turn_prelude
  proof (rule valid_bind [OF same])
    fix go
    have "valid (?P ?c) (lp_bind (prelude prompt) (\<lambda>ctx. lp_bind (open_stream A) (\<lambda>es.
        lp_bind (read_stream A es) (finish_turn A ctx)))) ?Q ?R"
      by (intro valid_bind [OF pre] valid_bind [OF opens] valid_bind [OF reads] finishes)
    then show "valid (?P ?c) (if \<not> go then lp_return LoopDone else lp_bind (prelude prompt) (\<lambda>ctx.
        lp_bind (open_stream A) (\<lambda>es. lp_bind (read_stream A es) (finish_turn A ctx)))) ?Q ?R"
      by (auto intro: valid_return)
  qed simp_all
  from this [unfolded valid_def, rule_format, of r w] assms(1,2) show ?thesis by (cases out) simp_all
qed

section \<open>The loop\<close>

text \<open>The states in which a turn begins.\<close>

inductive turn_begins :: "('p, 'e, 'x) agent_env \<Rightarrow> string \<Rightarrow> ('p, 'x) react_loop \<Rightarrow> ('p, 'x) agent_world
    \<Rightarrow> ('p, 'x) react_loop \<Rightarrow> ('p, 'x) agent_world \<Rightarrow> bool" for A prompt r w where
  first_turn: "turn_begins A prompt r w r w"
| next_turn: "turn_begins A prompt r w r1 w1 \<Longrightarrow> one_turn A prompt r1 w1 = (Returns NextTurn, r2, w2) \<Longrightarrow>
    turn_begins A prompt r w r2 w2"

lemma turn_begins_thread:
  assumes "turn_begins A prompt r w r' w'" and "answered (rl_history r)" and "announces_calls (lc_llm (rl_config r))"
  shows "answered (rl_history r') \<and> loop_grows r r'"
  using assms(1)
proof induction
  case (next_turn r1 w1 r2 w2)
  from next_turn.IH assms(3) have "announces_calls (lc_llm (rl_config r1))" by (simp add: loop_grows_def)
  with turn_thread [OF next_turn.hyps(2)] next_turn.IH grows_run [OF grows_turn next_turn.hyps(2)]
  show ?case by (auto intro: loop_grows_trans)
qed (use assms(2) in simp)

lemma drive_thread:
  assumes "drive A prompt k r w = (out, r', w')" and "answered (rl_history r)"
    and "announces_calls (lc_llm (rl_config r))"
  shows "case out of Returns x \<Rightarrow> answered (rl_history r')
    | Fails e \<Rightarrow> answered (rl_history r') \<or> \<not> clean_error e \<and> broken (rl_history r') | Blocked \<Rightarrow> True"
  using assms
proof (induction k arbitrary: r w)
  case 0
  then show ?case by (auto simp: lp_get_def lp_fail_def)
next
  case (Suc k)
  from Suc.prems(1) show ?case
    unfolding drive.simps
  proof (cases rule: lp_bind_cases)
    case (next_step x r1 w1)
    from turn_thread [OF next_step(1) Suc.prems(2,3)] have a: "answered (rl_history r1)" by simp
    from grows_run [OF grows_turn next_step(1)] Suc.prems(3) have "announces_calls (lc_llm (rl_config r1))"
      by (simp add: loop_grows_def)
    with next_step(2) a Suc.IH show ?thesis by (cases x) (auto simp: lp_return_def)
  qed (use turn_thread [OF _ Suc.prems(2,3)] in fastforce)+
qed

end
