(* ===== verification/LoopOutcome.thy ===== *)
theory LoopOutcome
  imports LoopWorld LoopThreads
begin

text \<open>
  How a loop leaves its run and its session: the status the run ends in, the thread the session
  gets, and what stands between a tool that needs approval and its dispatch.
\<close>

section \<open>Status\<close>

text \<open>The run is there and in a terminal status.\<close>

definition settled :: "'p authority \<Rightarrow> run_id \<Rightarrow> bool" where
  "settled a i \<longleftrightarrow> (\<exists>r. get_run a i = Some r \<and> is_terminal (run_status r))"

lemma run_after_transition:
  assumes "get_run a i = Some r" and "decide (run_status r) = Some st"
  shows "\<exists>r'. get_run (snd (transition_run E now ms i act decide a)) i = Some r' \<and> run_status r' = st"
  using assms by (auto simp: transition_run_def get_run_def auth_simps map_of_bt_modify)

lemma settled_complete:
  assumes "get_run a i \<noteq> None"
  shows "settled (snd (complete_run E now ms i a)) i"
proof -
  from assms obtain r where r: "get_run a i = Some r" by blast
  with run_after_transition [OF r, of "\<lambda>_. Some run_status.Succeeded" run_status.Succeeded E now ms "''complete''"]
  show ?thesis
    by (auto simp: complete_run_def complete_commit_def run_status_of_def settled_def)
qed

lemma run_failed:
  assumes "get_run a i = Some r" and "\<not> is_terminal (run_status r)"
  shows "\<exists>r'. get_run (snd (fail_run E now ms i msg a)) i = Some r' \<and> run_status r' = run_status.Failed msg"
  using run_after_transition [OF assms(1), of "\<lambda>_. Some (run_status.Failed msg)" "run_status.Failed msg" E now ms "''fail''"] assms
  by (simp add: fail_run_def fail_commit_def run_status_of_def)

lemma settled_fail:
  assumes "get_run a i \<noteq> None"
  shows "settled (snd (fail_run E now ms i msg a)) i"
proof -
  from assms obtain r where r: "get_run a i = Some r" by blast
  with run_failed [OF r, of E now ms msg] show ?thesis
    by (cases "is_terminal (run_status r)") (auto simp: fail_run_def run_status_of_def settled_def)
qed

lemma on_auth_auth: "aw_auth (snd (on_auth A f w)) = snd (f (ae_clock A (aw_tick w)) (aw_auth w))"
  by (simp add: on_auth_def split: prod.split)

lemma get_run_flush [simp]: "get_run (snd (flush_thread E now sid th a)) i = get_run a i"
  by (simp add: flush_thread_def get_run_def auth_simps split: option.split)

lemma get_run_flush_history: "get_run (aw_auth (flush_history A r w)) i = get_run (aw_auth w) i"
  by (simp add: flush_history_def on_auth_auth split: option.split)

lemma settled_close:
  assumes "get_run (aw_auth w) i \<noteq> None" and "out \<noteq> Blocked" and "out \<noteq> Fails LoopCancelled"
  shows "settled (aw_auth (close_run A i out w)) i"
proof (cases out)
  case (Fails e)
  with assms have "e \<noteq> LoopCancelled" by blast
  with Fails settled_fail [OF assms(1)] show ?thesis
    by (cases e) (auto simp: close_run_def on_auth_auth)
qed (use assms settled_complete [OF assms(1)] in \<open>auto simp: close_run_def on_auth_auth\<close>)

section \<open>The run of a loop\<close>

text \<open>Marking the run either fails, which ends everything, or the loop is driven.\<close>

lemma run_phases:
  assumes "run_react_loop A prompt r w = (out, r', w')"
  obtains (unmarked) e where "out = Fails (LoopAuthority e)" "r' = r"
      "on_auth A (\<lambda>c. mark_run_running (ae_auth A) (c 0) (c 1) (rl_run_id r)) w = (Inl e, w')"
  | (driven) w1 kvs w2 where
      "on_auth A (\<lambda>c. mark_run_running (ae_auth A) (c 0) (c 1) (rl_run_id r)) w = (Inr (), w1)"
      "drive A prompt (lc_max_turns (rl_config r)) r (say_trace A (rl_run_id r) kvs w1) = (out, r', w2)"
      "w' = (if out = Blocked then w2 else close_run A (rl_run_id r') out (flush_history A r' w2))"
  using assms unfolding run_react_loop_def
proof (cases rule: lp_bind_cases)
  case (next_step x r1 w1)
  obtain kvs where start: "run_start_trace A r1 w1 = (Returns (), r1, say_trace A (rl_run_id r1) kvs w1)"
    by (auto simp: run_start_trace_def lp_get_def lp_trace_def lp_do_def)
  from next_step(1) have r1: "r1 = r" and m: "on_auth A (\<lambda>c. mark_run_running (ae_auth A) (c 0) (c 1) (rl_run_id r)) w = (Inr (), w1)"
    by (auto simp: lp_auth_def split: prod.splits sum.splits)
  obtain out2 r2 w2 where d: "drive A prompt (lc_max_turns (rl_config r)) r (say_trace A (rl_run_id r) kvs w1) = (out2, r2, w2)"
    by (cases "drive A prompt (lc_max_turns (rl_config r)) r (say_trace A (rl_run_id r) kvs w1)") auto
  with next_step(2) start r1 have "out = out2" "r' = r2"
    "w' = (if out = Blocked then w2 else close_run A (rl_run_id r') out (flush_history A r' w2))"
    by (cases out2; auto simp: lp_bind_def)+
  with m d show ?thesis by (intro driven) auto
next
  case (failed e)
  then show ?thesis by (auto simp: lp_auth_def split: prod.splits sum.splits intro: unmarked)
next
  case blocked
  then show ?thesis by (simp add: lp_auth_def split: prod.splits sum.splits)
qed

lemma keeps_runs_mark:
  "on_auth A (\<lambda>c. mark_run_running (ae_auth A) (c 0) (c 1) i) w = (x, w1) \<Longrightarrow> keeps_runs w w1"
  by (auto simp: on_auth_def keeps_runs_def mark_run_running_def mark_running_commit_def transition_run_def get_run_def
      auth_simps map_of_bt_modify run_status_of_def persist_then_def persist_def
      split: prod.splits option.splits sum.splits if_splits)

text \<open>With a working backend the start can only be refused to a finished run.\<close>

lemma mark_refused:
  assumes "mark_run_running E now ms i a = (Inl e, a')" and "get_run a i \<noteq> None" and "\<And>s p. fst (env_save E s p) = None"
  shows "settled a' i"
proof -
  from assms(2) obtain r where r: "get_run a i = Some r" by blast
  have "mark_running_decide (run_status r) = None \<Longrightarrow> run_status r \<noteq> run_status.Running \<Longrightarrow> is_terminal (run_status r)"
    by (cases "run_status r") simp_all
  with r assms(1) show ?thesis
    using assms(3)
    by (auto simp: mark_run_running_def mark_running_commit_def transition_run_def run_status_of_def settled_def
        persist_then_def persist_def split: prod.splits if_splits option.splits) (metis fst_conv option.distinct(1))+
qed

lemma run_settles:
  assumes "loop_services A (rl_config r) (\<lambda>_. keeps_runs)" and "run_react_loop A prompt r w = (out, r', w')"
    and "get_run (aw_auth w) (rl_run_id r) \<noteq> None" and "\<And>s p. fst (env_save (ae_auth A) s p) = None"
    and "out \<noteq> Blocked" and "out \<noteq> Fails LoopCancelled"
  shows "settled (aw_auth w') (rl_run_id r)"
  using assms(2)
proof (cases rule: run_phases)
  case (unmarked e)
  then have m: "mark_run_running (ae_auth A) (ae_clock A (aw_tick w) 0) (ae_clock A (aw_tick w) 1) (rl_run_id r) (aw_auth w) =
      (Inl e, aw_auth w')"
    by (auto simp: on_auth_def split: prod.splits)
  from mark_refused [OF m assms(3,4)] show ?thesis .
next
  case (driven w1 kvs w2)
  have "keeps_runs w (say_trace A (rl_run_id r) kvs w1)"
    using keeps_runs_mark [OF driven(1)] quiet_keeps_runs [OF quiet_say(2)] by (rule keeps_runs_trans)
  moreover have "keeps_runs (say_trace A (rl_run_id r) kvs w1) w2"
    using loop_services.drive_cost [OF assms(1) refl driven(2)] .
  ultimately have "get_run (aw_auth w2) (rl_run_id r) \<noteq> None"
    using assms(3) by (auto simp: keeps_runs_def)
  then have "get_run (aw_auth (flush_history A r' w2)) (rl_run_id r) \<noteq> None" by (simp add: get_run_flush_history)
  moreover have "rl_run_id r' = rl_run_id r"
    using grows_run [OF grows_drive driven(2)] by (simp add: loop_grows_def)
  ultimately show ?thesis
    using settled_close [of "flush_history A r' w2" "rl_run_id r" out A] assms(5,6) driven(3) by simp
qed

section \<open>The session's thread\<close>

lemma close_sessions: "get_session (aw_auth (close_run A i out w)) sid = get_session (aw_auth w) sid"
proof -
  have t: "get_session (snd (transition_run E now ms i act decide a)) sid = get_session a sid" for E now ms act decide a
    by (simp add: transition_run_def get_session_def auth_simps split: option.split)
  have c: "get_session (snd (complete_run E now ms i a)) sid = get_session a sid"
    and f: "get_session (snd (fail_run E now ms i msg a)) sid = get_session a sid" for E now ms a msg
    by (simp_all add: complete_run_def complete_commit_def fail_run_def fail_commit_def t split: sum.split)
  show ?thesis by (cases out) (auto simp: close_run_def on_auth_auth c f split: loop_error.split)
qed

lemma flushed_session:
  "get_session (snd (flush_thread E now sid th a)) sid =
     map_option (\<lambda>s. s\<lparr>session_thread := th, session_updated_at_ms := now\<rparr>) (get_session a sid)"
  by (auto simp: flush_thread_def get_session_def auth_simps map_of_bt_modify split: option.split)

lemma flushed_thread:
  assumes "lc_session_id (rl_config r) = Some sid" and "session_thread_of (aw_auth (flush_history A r w)) sid = Some t"
  shows "t = rl_history r"
  using assms by (auto simp: flush_history_def session_thread_of_def on_auth_auth flushed_session)


section \<open>Approval\<close>

text \<open>A review keeps its run and its request through every operation.\<close>

lemma exec_review_fixed:
  assumes "op_fresh x a" and "get_review a k = Some rv"
  shows "\<exists>rv'. get_review (auth_exec E x a) k = Some rv' \<and> review_run_id rv' = review_run_id rv \<and>
    review_request rv' = review_request rv"
proof (cases x)
  case (OpStartRun now ms i sp ag spec sid)
  with assms show ?thesis
    by (auto simp: start_run_with_session_def Let_def auth_simps get_review_def split: option.split)
next
  case (OpOpenReview now ms rid i req)
  with assms show ?thesis
    by (auto simp: open_review_def Let_def auth_simps get_review_def store_simps split: option.split)
next
  case (OpResolveReview now ms i rid d nts)
  with assms show ?thesis
    by (auto simp: resolve_review_def Let_def auth_simps get_review_def map_of_bt_modify split: option.split)
next
  case (OpGetOrCreateSession now sid sp nm)
  with assms show ?thesis
    by (auto simp: get_or_create_session_def Let_def auth_simps get_review_def split: option.split)
qed (use assms(2) in \<open>simp_all add: op_defs auth_simps get_review_def split: option.split\<close>)

lemma steps_review_fixed:
  assumes "auth_steps E a xs b" and "get_review a k = Some rv"
  shows "\<exists>rv'. get_review b k = Some rv' \<and> review_run_id rv' = review_run_id rv \<and> review_request rv' = review_request rv"
  using assms
proof (induction arbitrary: rv rule: auth_steps.induct)
  case (auth_steps_Cons x a xs b)
  from exec_review_fixed [OF auth_steps_Cons.hyps(1) auth_steps_Cons.prems]
  obtain rv1 where "get_review (auth_exec E x a) k = Some rv1" "review_run_id rv1 = review_run_id rv"
    "review_request rv1 = review_request rv" by blast
  with auth_steps_Cons.IH show ?case by metis
qed auto

lemma completions_ok_steps: "auth_steps E a xs b \<Longrightarrow> completions_ok a \<Longrightarrow> completions_ok b"
  by (erule auth_steps_invariant [where I = completions_ok]) (auto intro: completions_ok_exec)

text \<open>Opening the review of a call.\<close>

lemma opened_review:
  assumes "open_review_with_completion E now ms rid i q a = (Inr rid', a')"
  shows "rid' = rid \<and> (\<exists>rv. get_review a' rid = Some rv \<and> review_run_id rv = i \<and> review_request rv = q) \<and>
    completions a' = completions a"
  using assms
  by (auto simp: open_review_with_completion_def open_review_def Let_def register_completion_def get_review_def
      auth_simps store_simps persist_then_def persist_def
      split: sum.splits prod.splits option.splits if_splits)

lemma opened_completions_ok:
  assumes "open_review_with_completion E now ms rid i q a = (Inr rid', a')" and "completions_ok a"
    and "get_review a rid = None"
  shows "completions_ok a'"
proof -
  have c: "completions a' = completions a" using opened_review [OF assms(1)] by blast
  have r: "get_review a' k = get_review a k" if "k \<noteq> rid" for k
    using assms(1) that
    by (auto simp: open_review_with_completion_def open_review_def Let_def register_completion_def get_review_def
        auth_simps store_simps persist_then_def persist_def
        split: sum.splits prod.splits option.splits if_splits)
  show ?thesis
    unfolding completions_ok_def c
  proof (intro conjI allI impI)
    show "distinct (map fst (completions a))" using assms(2) by (simp add: completions_ok_def)
    fix k res assume "(k, res) \<in> set (completions a)"
    with assms(2) obtain rv where rv: "get_review a k = Some rv" "review_state rv \<noteq> permission_state.Pending"
      "review_state rv = res_decision res" "review_notes rv = res_notes res"
      unfolding completions_ok_def by blast
    with assms(3) have "k \<noteq> rid" by auto
    with r rv show "\<exists>rv. get_review a' k = Some rv \<and> review_state rv \<noteq> permission_state.Pending \<and>
      review_state rv = res_decision res \<and> review_notes rv = res_notes res" by metis
  qed
qed

text \<open>What was answered is a decision of the review that was opened.\<close>

lemma approved_phases:
  fixes A :: "('p, 'e, 'x) agent_env"
  assumes "approved_outcome A c req r w = (Returns out, r', w')"
  obtains rid a1 res where
    "rid = ae_review A (aw_tick w)"
    "open_review_with_completion (ae_auth A) (ae_clock A (aw_tick w) 0) (\<lambda>k. ae_clock A (aw_tick w) (k + 1)) rid
       (rl_run_id r) (approval_request c req) (aw_auth w) = (Inr rid, a1)"
    "map_of (completions (aw_auth (ae_wait_review A rid (w\<lparr>aw_auth := a1, aw_tick := aw_tick w + 1\<rparr>)))) rid = Some res"
    "let w1 = ae_wait_review A rid (w\<lparr>aw_auth := a1, aw_tick := aw_tick w + 1\<rparr>) in
       res_decision res = permission_state.Approved \<and> dispatch_approved (lc_tools (rl_config r)) c w1 = (out, w') \<or>
       res_decision res = permission_state.Rejected \<and> w' = w1 \<and> (\<exists>why. out = ToolError why)"
proof -
  from assms obtain rid r1 w1 where o: "open_tool_review A c req r w = (Returns rid, r1, w1)"
    and rest: "lp_bind (lp_await (await_review A rid)) (resolution_outcome c) r1 w1 =
      ((Returns out, r', w') :: ('e, tool_outcome) loop_result \<times> _)"
    unfolding approved_outcome_def by (rule lp_bind_cases) auto
  from o obtain a1 where a1: "r1 = r" "w1 = w\<lparr>aw_auth := a1, aw_tick := aw_tick w + 1\<rparr>"
      "open_review_with_completion (ae_auth A) (ae_clock A (aw_tick w) 0) (\<lambda>k. ae_clock A (aw_tick w) (k + 1))
         (ae_review A (aw_tick w)) (rl_run_id r) (approval_request c req) (aw_auth w) = (Inr rid, a1)"
    by (auto simp: open_tool_review_def lp_get_def lp_auth_def on_auth_def split: prod.splits sum.splits)
  from opened_review [OF a1(3)] have rid: "rid = ae_review A (aw_tick w)" by blast
  from rest obtain res where res: "map_of (completions (aw_auth (ae_wait_review A rid w1))) rid = Some res"
    "res_decision res = permission_state.Approved \<and> dispatch_approved (lc_tools (rl_config r)) c (ae_wait_review A rid w1) = (out, w') \<or>
     res_decision res = permission_state.Rejected \<and> w' = ae_wait_review A rid w1 \<and> (\<exists>why. out = ToolError why)"
    using a1(1)
    by (cases "map_of (completions (aw_auth (ae_wait_review A rid w1))) rid")
      (auto simp: lp_bind_def lp_await_def await_review_def resolution_outcome_def Let_def lp_fail_def lp_return_def lp_world_def
        split: if_splits permission_state.splits prod.splits)
  show ?thesis
    using that [OF rid] a1 res rid by (simp add: Let_def)
qed

end
