(* ===== verification/Compaction.thy ===== *)
theory Compaction
  imports Threads
begin

text \<open>
  The compaction of a long thread (\<^verbatim>\<open>agent_loop/compaction.rs\<close>): the estimate, the split into the
  leading system messages, a middle part and the recent turns, and the call that replaces the
  middle part by its summary; and the two uses of \<^verbatim>\<open>runtime/sessions.rs\<close>.
\<close>

section \<open>Definitions\<close>

definition token_estimate :: "chat_message list \<Rightarrow> nat" where
  "token_estimate ms = sum_list (map (\<lambda>m. length (case msg_content m of None \<Rightarrow> [] | Some s \<Rightarrow> s) div 4) ms)"

definition CONTEXT_WINDOW_TOKENS :: nat where "CONTEXT_WINDOW_TOKENS = 128000"
definition DEFAULT_THRESHOLD_PCT :: u8 where "DEFAULT_THRESHOLD_PCT = 80"
definition DEFAULT_RECENCY_TURNS :: nat where "DEFAULT_RECENCY_TURNS = 6"

record compaction_result =
  cr_thread :: "chat_message list"
  cr_compacted :: bool
  cr_summary :: "string option"

text \<open>
  The walk from the end of the thread: the message at index \<open>i\<close> is the last of the prefix that is
  left, \<open>prev\<close> the role of the message after it. A user message followed by an assistant message
  counts as a turn.
\<close>

fun recency_walk :: "chat_message list \<Rightarrow> nat \<Rightarrow> nat \<Rightarrow> chat_role option \<Rightarrow> nat \<Rightarrow> nat" where
  "recency_walk [] turns seen prev end = end"
| "recency_walk (m # before) turns seen prev end =
     (if msg_role m = User
      then (let seen' = (if prev = Some Assistant then seen + 1 else seen)
            in if turns \<le> seen' then length before
               else recency_walk before turns seen' (Some (msg_role m)) end)
      else recency_walk before turns seen (Some (msg_role m)) end)"

definition split_thread :: "chat_message list \<Rightarrow> nat \<Rightarrow> nat \<times> nat" where
  "split_thread thread turns =
     (let prefix_end = length (takeWhile (\<lambda>m. msg_role m = System) thread);
          start = recency_walk (rev thread) turns 0 None (length thread)
      in (prefix_end, max start prefix_end))"

fun role_label :: "chat_role \<Rightarrow> string" where
  "role_label User = ''User''"
| "role_label Assistant = ''Assistant''"
| "role_label System = ''System''"
| "role_label Tool = ''Tool''"

definition format_for_summary :: "chat_message list \<Rightarrow> string" where
  "format_for_summary ms = str_join (newline @ newline) (map (\<lambda>m. role_label (msg_role m) @ '': '' @
     (case msg_content m of None \<Rightarrow> ''[no text]'' | Some s \<Rightarrow> s)) ms)"

definition collect_text :: "'w provider \<Rightarrow> llm_request \<Rightarrow> 'w \<Rightarrow> (anyhow_error + string) \<times> 'w" where
  "collect_text llm req w = (case llm req w of
     (Inl e, w') \<Rightarrow> (Inl e, w')
   | (Inr es, w') \<Rightarrow> (case collect_deltas es [] of
        Inl msg \<Rightarrow> (Inl (''LLM error during compaction: '' @ msg, []), w')
      | Inr text \<Rightarrow> (Inr text, w')))"

text \<open>The prompt of the summary call is a text of \<^verbatim>\<open>crony/prompts\<close>.\<close>

definition maybe_compact :: "string \<Rightarrow> chat_message list \<Rightarrow> 'w provider \<Rightarrow> string \<Rightarrow> u8 \<Rightarrow> nat \<Rightarrow> 'w
    \<Rightarrow> compaction_result \<times> 'w" where
  "maybe_compact prompt thread llm model pct turns w =
     (let unchanged = \<lparr>cr_thread = thread, cr_compacted = False, cr_summary = None\<rparr>
      in if token_estimate thread < CONTEXT_WINDOW_TOKENS * unat pct div 100 then (unchanged, w)
         else case split_thread thread turns of (prefix_end, start) \<Rightarrow>
           (let middle = drop prefix_end (take start thread)
            in if middle = [] then (unchanged, w)
               else (case collect_text llm (new_llm_request model
                         [msg_system prompt, msg_user (format_for_summary middle)]) w of
                   (Inl _, w') \<Rightarrow> (unchanged, w')
                 | (Inr summary, w') \<Rightarrow>
                     (\<lparr>cr_thread = take prefix_end thread @
                         [msg_system (''[Conversation summary]'' @ newline @ summary)] @ drop start thread,
                       cr_compacted = True, cr_summary = Some summary\<rparr>, w'))))"

section \<open>Session manager\<close>

text \<open>The helpers of \<^verbatim>\<open>runtime/sessions.rs\<close>.\<close>

record session_info =
  si_thread :: "chat_message list"
  si_read_namespace :: "memory_namespace_id option"
  si_write_namespace :: "memory_namespace_id option"

definition session_namespaces :: "session_id \<Rightarrow> 'p authority \<Rightarrow> memory_namespace_id option \<times> memory_namespace_id option" where
  "session_namespaces sid a = (case get_session a sid of None \<Rightarrow> (None, None)
     | Some s \<Rightarrow> (read_namespace s, write_namespace s))"

definition session_info_of :: "('p, 'e) auth_env \<Rightarrow> int \<Rightarrow> session_id \<Rightarrow> space_id \<Rightarrow> string option
    \<Rightarrow> 'p authority \<Rightarrow> ('p, 'e, session_info) auth_result" where
  "session_info_of E now sid sp nm a = (case get_or_create_session E now sid sp nm a of
     (Inl e, a') \<Rightarrow> (Inl e, a')
   | (Inr th, a') \<Rightarrow> (case session_namespaces sid a' of (rns, wns) \<Rightarrow>
        (Inr \<lparr>si_thread = th, si_read_namespace = rns, si_write_namespace = wns\<rparr>, a')))"

definition swap_session_namespace :: "('p, 'e) auth_env \<Rightarrow> int \<Rightarrow> session_id \<Rightarrow> string
    \<Rightarrow> memory_namespace_id \<Rightarrow> 'p authority \<Rightarrow> bool \<times> 'p authority" where
  "swap_session_namespace E now sid tgt ns a = update_session_namespaces E now sid tgt ns a"

definition flush_now :: "('p, 'e, 'x) agent_env \<Rightarrow> session_id \<Rightarrow> chat_message list
    \<Rightarrow> ('p, 'x) agent_world \<Rightarrow> ('e authority_error + unit) \<times> ('p, 'x) agent_world" where
  "flush_now A sid th = on_auth A (\<lambda>c. flush_thread (ae_auth A) (c 0) sid th)"

text \<open>The trace that tells the interface of a memory write.\<close>

definition memory_trace :: "('p, 'e, 'x) agent_env \<Rightarrow> run_id \<Rightarrow> string \<Rightarrow> string \<Rightarrow> string
    \<Rightarrow> ('p, 'x) agent_world \<Rightarrow> ('p, 'x) agent_world" where
  "memory_trace A i ns key from = say_trace A i [(''kind'', JString ''memory_write''),
     (''namespace'', JString ns), (''key'', JString key), (''source'', JString from)]"

definition thread_length :: "'p authority \<Rightarrow> session_id \<Rightarrow> nat" where
  "thread_length a sid = (case session_thread_of a sid of None \<Rightarrow> 0 | Some t \<Rightarrow> length t)"

definition store_summary :: "('p, 'e, 'x) agent_env \<Rightarrow> ('p, 'x) agent_world memory_writer option \<Rightarrow> session_id
    \<Rightarrow> run_id option \<Rightarrow> memory_namespace_id option \<Rightarrow> string \<Rightarrow> ('p, 'x) agent_world \<Rightarrow> ('p, 'x) agent_world" where
  "store_summary A mm sid i wns summary w = (case (wns, mm) of
     (Some ns, Some write) \<Rightarrow>
       (let key = ''compaction/'' @ show_nat (thread_length (aw_auth w) sid);
            w1 = write (string_of_id ns) key (ae_json_show A (json_object [(''summary'', JString summary)])) w
        in (case i of None \<Rightarrow> w1 | Some r \<Rightarrow> memory_trace A r (string_of_id ns) key ''compaction'' w1))
   | _ \<Rightarrow> w)"

definition maybe_compact_and_flush :: "('p, 'e, 'x) agent_env \<Rightarrow> string \<Rightarrow> ('p, 'x) agent_world memory_writer option
    \<Rightarrow> session_id \<Rightarrow> run_id option \<Rightarrow> chat_message list \<Rightarrow> memory_namespace_id option
    \<Rightarrow> ('p, 'x) agent_world provider \<Rightarrow> string \<Rightarrow> ('p, 'x) agent_world
    \<Rightarrow> chat_message list \<times> ('p, 'x) agent_world" where
  "maybe_compact_and_flush A prompt mm sid i thread wns llm model w =
     (if thread = [] then (thread, w)
      else case maybe_compact prompt thread llm model DEFAULT_THRESHOLD_PCT DEFAULT_RECENCY_TURNS w of
        (res, w1) \<Rightarrow>
          (cr_thread res,
           if \<not> cr_compacted res then w1
           else let w2 = snd (flush_now A sid (cr_thread res) w1)
                in (case cr_summary res of None \<Rightarrow> w2 | Some s \<Rightarrow> store_summary A mm sid i wns s w2)))"

text \<open>Reflections: the system messages that start with the sentinel.\<close>

definition is_reflection :: "chat_message \<Rightarrow> bool" where
  "is_reflection m = (msg_role m = System \<and>
     (case msg_content m of None \<Rightarrow> False | Some s \<Rightarrow> str_starts_with s ''[REFLECTION]''))"

definition reflection_indices :: "chat_message list \<Rightarrow> nat list" where
  "reflection_indices thread = filter (\<lambda>k. is_reflection (thread ! k)) [0..<length thread]"

text \<open>Every chunk of text is taken, whatever comes between; an error in the stream is skipped.\<close>

definition summary_text :: "llm_event list \<Rightarrow> string" where
  "summary_text es = str_trim (concat (map (\<lambda>e. case e of Delta c \<Rightarrow> c | _ \<Rightarrow> []) es))"

definition decay_prompt :: "string list \<Rightarrow> string" where
  "decay_prompt notes = ''Summarise the following agent self-reflection notes into one concise paragraph '' @
     ''that captures the most important insights and lessons. '' @
     ''Do not repeat each note verbatim.'' @ newline @ newline @
     str_join (newline @ newline) (map (\<lambda>(k, r). show_nat (k + 1) @ ''. '' @ r) (enumerate 0 notes))"

definition llm_summarise_reflections :: "string \<Rightarrow> string list \<Rightarrow> 'w provider \<Rightarrow> string \<Rightarrow> 'w \<Rightarrow> string \<times> 'w" where
  "llm_summarise_reflections prompt notes llm model w =
     (case llm (new_llm_request model [msg_system prompt, msg_user (decay_prompt notes)]) w of
        (Inl _, w') \<Rightarrow> (str_join '' | '' notes, w')
      | (Inr es, w') \<Rightarrow>
          (let s = summary_text es in (if s = [] then str_join '' | '' notes else s, w')))"

text \<open>The rebuilt thread: the first of the older reflections becomes the summary, the others go.\<close>

fun replace_older :: "nat list \<Rightarrow> chat_message \<Rightarrow> nat \<Rightarrow> bool \<Rightarrow> chat_message list \<Rightarrow> chat_message list" where
  "replace_older old sentinel k inserted [] = []"
| "replace_older old sentinel k inserted (m # ms) =
     (if k \<in> set old
      then (if inserted then replace_older old sentinel (k + 1) inserted ms
            else sentinel # replace_older old sentinel (k + 1) True ms)
      else m # replace_older old sentinel (k + 1) inserted ms)"

definition flush_thread_with_reflections :: "('p, 'e, 'x) agent_env \<Rightarrow> string
    \<Rightarrow> ('p, 'x) agent_world memory_writer option \<Rightarrow> session_id \<Rightarrow> run_id \<Rightarrow> chat_message list
    \<Rightarrow> memory_namespace_id option \<Rightarrow> ('p, 'x) agent_world provider \<Rightarrow> string \<Rightarrow> ('p, 'x) agent_world
    \<Rightarrow> ('e authority_error + unit) \<times> ('p, 'x) agent_world" where
  "flush_thread_with_reflections A prompt mm sid i thread wns llm model w =
     (let idx = reflection_indices thread
      in if length idx < 2 then flush_now A sid thread w
         else let old = butlast idx;
                  texts = map (\<lambda>k. case msg_content (thread ! k) of None \<Rightarrow> [] | Some s \<Rightarrow> s) old
              in (case llm_summarise_reflections prompt texts llm model w of (decay, w1) \<Rightarrow>
                   (let key = ''reflect/'' @ show_id (ae_auth A) i @ ''/decay'';
                        w2 = (case (wns, mm) of
                           (Some ns, Some write) \<Rightarrow> memory_trace A i (string_of_id ns) key ''reflection_decay''
                               (write (string_of_id ns) key decay w1)
                         | _ \<Rightarrow> w1)
                    in flush_now A sid (replace_older old (msg_system (''[REFLECTION:SUMMARY] '' @ decay)) 0 False thread) w2)))"

section \<open>The split\<close>

text \<open>The turns of a thread: user messages that an assistant message follows.\<close>

fun turn_count :: "chat_message list \<Rightarrow> nat" where
  "turn_count [] = 0"
| "turn_count [m] = 0"
| "turn_count (m # n # ms) =
     (if msg_role m = User \<and> msg_role n = Assistant then 1 else 0) + turn_count (n # ms)"

definition head_role :: "chat_message list \<Rightarrow> chat_role option" where
  "head_role ms = (case ms of [] \<Rightarrow> None | m # _ \<Rightarrow> Some (msg_role m))"

lemma turn_count_Cons:
  "turn_count (m # ms) = (if msg_role m = User \<and> head_role ms = Some Assistant then 1 else 0) + turn_count ms"
  by (cases ms) (simp_all add: head_role_def)

text \<open>An index at which the tail may start.\<close>

definition enough :: "chat_message list \<Rightarrow> nat \<Rightarrow> nat \<Rightarrow> bool" where
  "enough ms k i \<longleftrightarrow> msg_role (ms ! i) = User \<and> k \<le> turn_count (drop i ms)"

text \<open>The walk finds the last such index, and gives the end when there is none.\<close>

lemma recency_walk_spec:
  "let r = recency_walk (rev xs) k (turn_count ys) (head_role ys) e
   in r < length xs \<and> enough (xs @ ys) k r \<and> (\<forall>i. r < i \<and> i < length xs \<longrightarrow> \<not> enough (xs @ ys) k i) \<or>
      r = e \<and> (\<forall>i < length xs. \<not> enough (xs @ ys) k i)"
proof (induction xs arbitrary: ys rule: rev_induct)
  case (snoc m xs)
  have drop: "drop (length xs) ((xs @ [m]) @ ys) = m # ys" and nth: "((xs @ [m]) @ ys) ! length xs = m"
    by simp_all
  have split: "xs @ m # ys = (xs @ [m]) @ ys" by simp
  have here: "enough (xs @ m # ys) k (length xs) \<longleftrightarrow> msg_role m = User \<and> k \<le> turn_count (m # ys)"
    by (simp add: enough_def)
  have seen: "(if head_role ys = Some Assistant then turn_count ys + 1 else turn_count ys) = turn_count (m # ys)"
    if "msg_role m = User" using that by (simp add: turn_count_Cons)
  have same: "turn_count (m # ys) = turn_count ys" if "msg_role m \<noteq> User"
    using that by (simp add: turn_count_Cons)
  have hr: "head_role (m # ys) = Some (msg_role m)" by (simp add: head_role_def)
  show ?case
  proof (cases "msg_role m = User \<and> k \<le> turn_count (m # ys)")
    case True
    with here have "enough ((xs @ [m]) @ ys) k (length xs)" by simp
    moreover from True have "recency_walk (rev (xs @ [m])) k (turn_count ys) (head_role ys) e = length xs"
      using seen by (simp add: Let_def)
    ultimately show ?thesis unfolding Let_def by auto
  next
    case False
    then have "recency_walk (rev (xs @ [m])) k (turn_count ys) (head_role ys) e =
      recency_walk (rev xs) k (turn_count (m # ys)) (head_role (m # ys)) e"
      using seen same hr by (auto simp: Let_def)
    moreover from False here have no: "\<not> enough (xs @ m # ys) k (length xs)" by blast
    ultimately show ?thesis using snoc.IH [of "m # ys"] by (auto simp: Let_def less_Suc_eq)
  qed
qed simp

lemma recency_start_spec:
  fixes thread :: "chat_message list" and k :: nat
  defines "r \<equiv> recency_walk (rev thread) k 0 None (length thread)"
  shows "r < length thread \<and> enough thread k r \<and> (\<forall>i. r < i \<and> i < length thread \<longrightarrow> \<not> enough thread k i) \<or>
    r = length thread \<and> (\<forall>i < length thread. \<not> enough thread k i)"
  using recency_walk_spec [of thread k "[]" "length thread"]
  by (simp add: r_def Let_def head_role_def)

lemma turn_count_drop_le: "turn_count (drop i ms) \<le> turn_count ms"
proof (induction ms arbitrary: i)
  case (Cons m ms)
  then show ?case by (cases i) (auto simp: turn_count_Cons intro: le_SucI)
qed simp

lemma few_turns:
  assumes "turn_count thread < k"
  shows "recency_walk (rev thread) k 0 None (length thread) = length thread"
proof -
  have "\<not> enough thread k i" for i
    using turn_count_drop_le [of i thread] assms by (simp add: enough_def)
  with recency_start_spec [where thread = thread and k = k] show ?thesis by blast
qed

lemma split_bounds:
  assumes "split_thread thread k = (a, b)"
  shows "a \<le> b" "b \<le> length thread" "take a thread = takeWhile (\<lambda>m. msg_role m = System) thread"
    "b = length thread \<or> b < length thread \<and> (b = a \<or> msg_role (thread ! b) = User)"
proof -
  let ?p = "length (takeWhile (\<lambda>m. msg_role m = System) thread)"
  let ?r = "recency_walk (rev thread) k 0 None (length thread)"
  have p: "?p \<le> length thread" by (rule length_takeWhile_le)
  from assms have ab: "a = ?p" "b = max ?r ?p" by (auto simp: split_thread_def Let_def)
  from recency_start_spec [where thread = thread and k = k]
  have r: "?r \<le> length thread" "?r < length thread \<Longrightarrow> msg_role (thread ! ?r) = User"
    by (auto simp: enough_def)
  show "a \<le> b" "b \<le> length thread" using ab p r by simp_all
  show "take a thread = takeWhile (\<lambda>m. msg_role m = System) thread"
    using ab takeWhile_eq_take [of "\<lambda>m. msg_role m = System" thread] by simp
  show "b = length thread \<or> b < length thread \<and> (b = a \<or> msg_role (thread ! b) = User)"
    using ab p r by (auto simp: max_def)
qed

section \<open>What compaction keeps\<close>

text \<open>The result of a compaction that went through.\<close>

lemma maybe_compact_cases:
  assumes "maybe_compact prompt thread llm model pct turns w = (res, w')"
  shows "cr_thread res = thread \<and> \<not> cr_compacted res \<or>
    (\<exists>a b s. split_thread thread turns = (a, b) \<and> a < b \<and> cr_compacted res \<and> cr_summary res = Some s \<and>
       CONTEXT_WINDOW_TOKENS * unat pct div 100 \<le> token_estimate thread \<and>
       cr_thread res = take a thread @ [msg_system (''[Conversation summary]'' @ newline @ s)] @ drop b thread)"
proof -
  obtain a b where ab: "split_thread thread turns = (a, b)" by fastforce
  have "a < b" if "drop a (take b thread) \<noteq> []" using that by simp
  with assms ab show ?thesis
    by (auto simp: maybe_compact_def Let_def not_less split: if_splits prod.splits sum.splits)
qed

lemma answered_compacted:
  assumes "answered thread" and "split_thread thread turns = (a, b)"
  shows "answered (take a thread @ [msg_system s] @ drop b thread)"
proof -
  note sb = split_bounds [OF assms(2)]
  have sys: "list_all (\<lambda>m. msg_role m = System) (take a thread)"
    unfolding sb(3) by (auto simp: list_all_iff dest: set_takeWhileD)
  from answered_system_prefix [of "take a thread" "drop a thread"] sys assms(1)
  have pre: "answered (take a thread)" "answered (drop a thread)" by simp_all
  have "answered (drop b thread)"
  proof (cases "b = length thread \<or> b = a")
    case True
    with pre show ?thesis by auto
  next
    case False
    with sb(4) have b: "b < length thread" "msg_role (thread ! b) = User" by auto
    then have th: "thread = take b thread @ thread ! b # drop (Suc b) thread"
      by (simp add: id_take_nth_drop)
    with assms(1) have a: "answered (take b thread @ thread ! b # drop (Suc b) thread)" by simp
    from answered_cut [OF this answered_user_plain [OF this b(2)]] b show ?thesis
      by (simp add: Cons_nth_drop_Suc)
  qed
  then have "answered (msg_system s # drop b thread)" by (simp add: answered_plain)
  with answered_append [OF pre(1)] show ?thesis by simp
qed

text \<open>The decay of reflections.\<close>

lemma answered_system_plain:
  assumes "answered (xs @ m # ys)" and "msg_role m = System"
  shows "plain m"
proof -
  from assms(1) obtain cs where "thread_run cs (m # ys) = Some []"
    by (auto simp: answered_def thread_run_append bind_eq_Some_conv)
  then show ?thesis
    by (cases cs) (use assms(2) in \<open>auto simp: plain_def answers_def split: if_splits\<close>)
qed

lemma replace_older_run:
  assumes "\<forall>j \<in> set old. k \<le> j \<longrightarrow> j < k + length ms \<longrightarrow> msg_role (ms ! (j - k)) = System"
    and "thread_run cs ms = Some []" and "plain s"
  shows "thread_run cs (replace_older old s k ins ms) = Some []"
  using assms
proof (induction ms arbitrary: k cs ins)
  case (Cons m ms)
  have tail: "\<forall>j \<in> set old. Suc k \<le> j \<longrightarrow> j < Suc k + length ms \<longrightarrow> msg_role (ms ! (j - Suc k)) = System"
  proof (intro ballI impI)
    fix j assume "j \<in> set old" "Suc k \<le> j" "j < Suc k + length ms"
    with Cons.prems(1) [rule_format, of j] show "msg_role (ms ! (j - Suc k)) = System"
      by (simp add: nth_Cons' )
  qed
  show ?case
  proof (cases "k \<in> set old")
    case True
    with Cons.prems(1) have sys: "msg_role m = System" by force
    with Cons.prems(2) have cs: "cs = []" and rest: "thread_run [] ms = Some []"
      by (cases cs; auto simp: answers_def split: if_splits)+
    from Cons.IH [OF tail rest Cons.prems(3)] True cs show ?thesis
      by (simp add: thread_run_plain [OF Cons.prems(3)])
  next
    case False
    from Cons.prems(2) obtain ds where ds: "thread_run ds ms = Some []"
        "\<And>xs. thread_run cs (m # xs) = thread_run ds xs"
      by (cases cs) (auto split: if_splits)
    from Cons.IH [OF tail ds(1) Cons.prems(3)] ds(2) False show ?thesis by simp
  qed
qed simp

lemma answered_decayed:
  assumes "answered thread"
  shows "answered (replace_older (butlast (reflection_indices thread)) (msg_system s) 0 False thread)"
  unfolding answered_def
proof (rule replace_older_run)
  show "\<forall>j \<in> set (butlast (reflection_indices thread)). 0 \<le> j \<longrightarrow> j < 0 + length thread \<longrightarrow>
      msg_role (thread ! (j - 0)) = System"
    by (auto simp: reflection_indices_def is_reflection_def dest!: in_set_butlastD)
qed (use assms in \<open>simp_all add: answered_def\<close>)

end
