(* ===== verification/AgentProps.thy ===== *)
theory AgentProps
  imports LoopOutcome Compaction AuthorityProps
begin

text \<open>
  The properties of the agent loop, of the tasks that run it and of the compaction of its threads.
  The witnesses run the model: a provider that answers with a tool call and then with a text, on a
  runtime with one run that belongs to a session.
\<close>

section \<open>Concrete loops\<close>

definition demo_auth :: "in_memory_persistence authority" where
  "demo_auth = fold (auth_exec demo_env) (take 6 demo_ops) in_memory"

type_synonym demo_world = "(in_memory_persistence, unit) agent_world"

definition demo_world :: demo_world where
  "demo_world = \<lparr>aw_auth = demo_auth, aw_stores = empty_stores, aw_tick = 0, aw_outside = ()\<rparr>"

definition demo_aenv :: "(in_memory_persistence, (unit, unit) persistence_error, unit) agent_env" where
  "demo_aenv = idle_env demo_env (\<lambda>t k. int t) (\<lambda>_. ''json'')"

definition one_call :: "llm_event list" where
  "one_call = [ToolCallDelta 0 (Some ''c1'') (Some ''x'') (Some ''{}''), Done ToolCalls]"

text \<open>A call of the tool \<^verbatim>\<open>x\<close> first, then a text.\<close>

definition demo_provider :: "'w provider" where
  "demo_provider req w = (Inr (if length (req_messages req) < 3 then one_call else [Delta ''ok'', Done Stop]), w)"

definition demo_cfg :: "(in_memory_persistence, unit) loop_config" where
  "demo_cfg = \<lparr>lc_model = ''m'', lc_system_prompt = Some ''sys'', lc_user_input = ''hi'',
     lc_max_turns = 5, lc_temperature = None, lc_reasoning_effort = None, lc_llm = demo_provider,
     lc_tools = empty_dispatcher, lc_thinking = None, lc_initial_thread = None, lc_session_id = Some demo_sid,
     lc_reflection = None, lc_critic = None, lc_write_namespace = None, lc_memory_manager = None,
     lc_middleware = [], lc_agent_name = None\<rparr>"

lemma demo_announces: "announces_calls demo_provider"
  by (auto simp: announces_calls_def demo_provider_def one_call_def calls_announced_def finished_calls_def finish_of_def
      new_turn_acc_def add_call_delta_def overwrite_def split: if_splits)

lemma demo_cfg_simps [simp]: "lc_llm demo_cfg = demo_provider" "lc_initial_thread demo_cfg = None"
  by (simp_all add: demo_cfg_def)

text \<open>The thread a loop starts from.\<close>

abbreviation start_thread :: "('p, 'x) loop_config \<Rightarrow> chat_message list" where
  "start_thread cfg \<equiv> (case lc_initial_thread cfg of None \<Rightarrow> [] | Some t \<Rightarrow> t)"

lemma answered_initial:
  assumes "answered (start_thread cfg)"
  shows "answered (rl_history (new_react_loop i cfg))"
  using assms answered_append [of "start_thread cfg" "[msg_user (lc_user_input cfg)]"]
  by (auto simp: new_react_loop_def initial_history_def answered_plain split: option.splits list.splits)

lemma new_loop_config [simp]: "rl_config (new_react_loop i cfg) = cfg" "rl_run_id (new_react_loop i cfg) = i"
  "rl_history (new_react_loop i cfg) = initial_history cfg"
  by (simp_all add: new_react_loop_def)

lemma begins_grows: "turn_begins A prompt r w r' w' \<Longrightarrow> loop_grows r r'"
proof (induction rule: turn_begins.induct)
  case (next_turn r1 w1 r2 w2)
  then show ?case using grows_run [OF grows_turn] by (blast intro: loop_grows_trans)
qed simp

lemma grows_prelude: "grows (prelude prompt)"
  unfolding prelude_def by auto

text \<open>A turn that fails in its tools.\<close>

lemma prelude_returns: "\<exists>ctx. fst (prelude prompt r w :: ('e, turn_context) loop_result \<times> _) = Returns ctx"
proof -
  have "\<exists>x r1 w1. (begin_turn r w :: ('e, turn_context) loop_result \<times> _) = (Returns x, r1, w1)"
    by (auto simp: begin_turn_def lp_bind_def lp_modify_def lp_world_def split: prod.splits)
  then obtain x r1 w1 where b: "(begin_turn r w :: ('e, turn_context) loop_result \<times> _) = (Returns x, r1, w1)" by blast
  obtain out r2 w2 where f: "(reflect_if_due prompt x r1 w1 :: ('e, unit) loop_result \<times> _) = (out, r2, w2)"
    by (cases "reflect_if_due prompt x r1 w1 :: ('e, unit) loop_result \<times> _") auto
  from reflect_history [OF f] obtain u where "out = Returns u" by blast
  with b f show ?thesis by (simp add: prelude_def lp_bind_def lp_return_def)
qed

lemma bind_next:
  assumes "lp_bind f g r w = (Fails e, r', w')" and "\<And>r1 w1. f r w \<noteq> (Fails e, r1, w1)"
  obtains x r1 w1 where "f r w = (Returns x, r1, w1)" "g x r1 w1 = (Fails e, r', w')"
  using assms(1) by (rule lp_bind_cases) (use assms(2) in auto)

lemma broken_turn:
  fixes A :: "('p, 'e, 'x) agent_env"
  assumes "one_turn A prompt r w = (Fails e, r', w')"
    and "(check_status r w :: ('e, bool) loop_result \<times> _) = (Returns True, r, w)"
    and "\<forall>p. e \<noteq> LoopProvider p" and "answered (rl_history r)"
  shows "broken (rl_history r')"
proof -
  let ?rest = "\<lambda>ctx. lp_bind (open_stream A) (\<lambda>es. lp_bind (read_stream A es) (finish_turn A ctx))"
  from assms(1,2) have b: "lp_bind (prelude prompt) ?rest r w = (Fails e, r', w')"
    by (simp add: one_turn_prelude lp_bind_def)
  have "(prelude prompt r w :: ('e, turn_context) loop_result \<times> _) \<noteq> (Fails e, r1, w1)" for r1 w1
    using prelude_returns [of prompt r w, where 'e = 'e] by auto
  from bind_next [OF b this] obtain ctx r1 w1
    where p: "(prelude prompt r w :: ('e, turn_context) loop_result \<times> _) = (Returns ctx, r1, w1)"
      and q: "?rest ctx r1 w1 = (Fails e, r', w')" .
  have "open_stream A r1 w1 \<noteq> (Fails e, r2, w2)" for r2 w2
    using stream_fails(1) assms(3) by blast
  from bind_next [OF q this] obtain es r2 w2 where o: "open_stream A r1 w1 = (Returns es, r2, w2)"
    and q2: "lp_bind (read_stream A es) (finish_turn A ctx) r2 w2 = (Fails e, r', w')" .
  have "read_stream A es r2 w2 \<noteq> (Fails e, r3, w3)" for r3 w3
    using stream_fails(2) assms(3) by blast
  from bind_next [OF q2 this] obtain acc r3 w3 where a: "read_stream A es r2 w2 = (Returns acc, r3, w3)"
    and f: "finish_turn A ctx acc r3 w3 = (Fails e, r', w')" .
  from open_stream_returns [OF o] read_stream_returns [OF a] have "r3 = r1" by simp
  with finish_turn_fails [OF f] prelude_answered [OF p assms(4)] show ?thesis by simp
qed

section \<open>Requests\<close>

text \<open>
  (C14) With a provider that ends every stream that calls tools with \<^verbatim>\<open>tool_calls\<close> and names the calls,
  and a thread to start from in which every call is answered, every request of a turn carries a
  thread in which each tool call is answered at once and in order.
\<close>

theorem requests_are_answered:
  assumes "announces_calls (lc_llm cfg)" and "answered (start_thread cfg)"
    and "turn_begins A prompt (new_react_loop i cfg) w r1 w1"
    and "prelude prompt r1 w1 = (Returns ctx, r2, w2)"
  shows "answered (req_messages (turn_request r2 w2))"
proof -
  from turn_begins_thread [OF assms(3) answered_initial [OF assms(2)]] assms(1)
  have "answered (rl_history r1)" by simp
  from prelude_answered [OF assms(4) this] show ?thesis by (simp add: turn_request_def)
qed

definition demo_second :: "(in_memory_persistence, unit) react_loop \<times> demo_world" where
  "demo_second = snd (one_turn demo_aenv [] (new_react_loop demo_run demo_cfg) demo_world)"

lemma demo_second: "one_turn demo_aenv [] (new_react_loop demo_run demo_cfg) demo_world = (Returns NextTurn, demo_second)"
proof -
  have "fst (one_turn demo_aenv [] (new_react_loop demo_run demo_cfg) demo_world) = Returns NextTurn" by code_simp
  then show ?thesis by (simp add: demo_second_def prod_eq_iff)
qed

theorem requests_are_answered_witness:
  "let p = (prelude [] (fst demo_second) (snd demo_second) :: (unit, turn_context) loop_result \<times> _);
       q = turn_request (fst (snd p)) (snd (snd p))
   in answered (req_messages q) \<and> length (req_messages q) = 4"
proof -
  let ?p = "prelude [] (fst demo_second) (snd demo_second) :: (unit, turn_context) loop_result \<times> _"
  have len: "length (req_messages (turn_request (fst (snd ?p)) (snd (snd ?p)))) = 4 \<and> (case fst ?p of Returns _ \<Rightarrow> True | _ \<Rightarrow> False)"
    by code_simp
  then obtain ctx where p: "?p = (Returns ctx, fst (snd ?p), snd (snd ?p))"
    by (cases "fst ?p") (simp_all add: prod_eq_iff)
  have "turn_begins demo_aenv [] (new_react_loop demo_run demo_cfg) demo_world (fst demo_second) (snd demo_second)"
    using demo_second by (intro next_turn [OF first_turn]) simp
  from requests_are_answered [OF _ _ this p] len p show ?thesis by (simp add: demo_announces Let_def)
qed

section \<open>Threads after a run\<close>

text \<open>
  (C15) With a provider that announces its calls and an answered thread to start from, a run that returns, reaches
  its turn limit or fails in its provider leaves a thread in which every tool call is answered, that
  starts with the thread the run was given, and that is the thread of its session, if that has one.
\<close>

theorem run_leaves_answered_thread:
  assumes "announces_calls (lc_llm cfg)" and "answered (start_thread cfg)"
    and "run_react_loop A prompt (new_react_loop i cfg) w = (out, r', w')"
    and "out = Returns () \<or> (\<exists>e. out = Fails e \<and> clean_error e)"
  shows "answered (rl_history r') \<and> prefix (initial_history cfg) (rl_history r') \<and>
    (\<forall>sid t. lc_session_id cfg = Some sid \<longrightarrow> session_thread_of (aw_auth w') sid = Some t \<longrightarrow> t = rl_history r')"
proof (intro conjI allI impI)
  have "\<exists>w1 w2. drive A prompt (lc_max_turns cfg) (new_react_loop i cfg) w1 = (out, r', w2) \<and>
    w' = close_run A (rl_run_id r') out (flush_history A r' w2)"
    using assms(3)
  proof (cases rule: run_phases)
    case (unmarked e)
    with assms(4) show ?thesis by (auto simp: clean_error_def)
  next
    case (driven w1 kvs w2)
    with assms(4) show ?thesis by auto
  qed
  then obtain w1 w2 where d: "drive A prompt (lc_max_turns cfg) (new_react_loop i cfg) w1 = (out, r', w2)"
    and w': "w' = close_run A (rl_run_id r') out (flush_history A r' w2)" by blast
  from drive_thread [OF d answered_initial [OF assms(2)]] assms(1,4)
  show "answered (rl_history r')" by auto
  from grows_run [OF grows_drive d] have g: "loop_grows (new_react_loop i cfg) r'" .
  then show "prefix (initial_history cfg) (rl_history r')" by (simp add: loop_grows_def)
  fix sid t assume "lc_session_id cfg = Some sid" and t: "session_thread_of (aw_auth w') sid = Some t"
  with g have "lc_session_id (rl_config r') = Some sid" by (simp add: loop_grows_def)
  from flushed_thread [OF this] t w' show "t = rl_history r'"
    by (simp add: session_thread_of_def close_sessions)
qed

definition demo_end :: "((unit, unit) persistence_error, unit) loop_result \<times>
    (in_memory_persistence, unit) react_loop \<times> demo_world" where
  "demo_end = run_react_loop demo_aenv [] (new_react_loop demo_run demo_cfg) demo_world"

theorem run_leaves_answered_thread_witness:
  "answered (rl_history (fst (snd demo_end))) \<and> length (rl_history (fst (snd demo_end))) = 5 \<and>
   session_thread_of (aw_auth (snd (snd demo_end))) demo_sid = Some (rl_history (fst (snd demo_end)))"
proof -
  have e: "fst demo_end = Returns () \<and> length (rl_history (fst (snd demo_end))) = 5 \<and>
      session_thread_of (aw_auth (snd (snd demo_end))) demo_sid \<noteq> None"
    by code_simp
  then have run: "run_react_loop demo_aenv [] (new_react_loop demo_run demo_cfg) demo_world =
      (Returns (), fst (snd demo_end), snd (snd demo_end))"
    by (simp add: demo_end_def prod_eq_iff)
  have "lc_session_id demo_cfg = Some demo_sid" by (simp add: demo_cfg_def)
  with run_leaves_answered_thread [OF _ _ run] e show ?thesis by (auto simp: demo_announces)
qed

text \<open>
  A turn that fails for any other reason than its provider has left calls without results, and
  the thread cannot be used again: every request of a later loop that starts from it carries an
  unanswered call.
\<close>

theorem interrupted_turn_breaks_thread:
  fixes A :: "('p, 'e, 'x) agent_env"
  assumes "announces_calls (lc_llm cfg)" and "answered (start_thread cfg)"
    and "turn_begins A prompt (new_react_loop i cfg) w r1 w1"
    and "(check_status r1 w1 :: ('e, bool) loop_result \<times> _) = (Returns True, r1, w1)"
    and "one_turn A prompt r1 w1 = (Fails e, r2, w2)" and "\<forall>p. e \<noteq> LoopProvider p"
    and "lc_initial_thread cfg' = Some (rl_history r2)"
    and "turn_begins A' prompt' (new_react_loop j cfg') w3 r4 w4"
    and "prelude prompt' r4 w4 = (Returns ctx', r5, w5)"
  shows "\<not> answered (req_messages (turn_request r5 w5))"
proof -
  from turn_begins_thread [OF assms(3) answered_initial [OF assms(2)]] assms(1)
  have "answered (rl_history r1)" by simp
  then have broken: "broken (rl_history r2)"
    using broken_turn [OF assms(5,4,6)] by blast
  then have "rl_history r2 \<noteq> []" by (auto simp: broken_def)
  then have start: "initial_history cfg' = rl_history r2 @ [msg_user (lc_user_input cfg')]"
    using assms(7) by (auto simp: initial_history_def split: list.splits)
  have "loop_grows (new_react_loop j cfg') r5"
    using begins_grows [OF assms(8)] grows_run [OF grows_prelude assms(9)] by (rule loop_grows_trans)
  then obtain ys where "rl_history r5 = rl_history r2 @ msg_user (lc_user_input cfg') # ys"
    by (auto simp: loop_grows_def start prefix_def)
  with broken_stays [OF broken, of "msg_user (lc_user_input cfg')"] show ?thesis by (simp add: turn_request_def)
qed

text \<open>The user defers the review that a call of the loop opened.\<close>

definition deferring_env :: "(in_memory_persistence, (unit, unit) persistence_error, unit) agent_env" where
  "deferring_env = demo_aenv\<lparr>ae_wait_review := (\<lambda>rid w. w\<lparr>aw_auth :=
     snd (resolve_review demo_env 9 (\<lambda>_. 9) demo_run rid Deferred None (aw_auth w))\<rparr>)\<rparr>"

definition asking_cfg :: "(in_memory_persistence, unit) loop_config" where
  "asking_cfg = demo_cfg\<lparr>lc_tools := empty_dispatcher\<lparr>dispatch := (\<lambda>c w. (NeedsApproval JNull, w)),
     dispatch_approved := (\<lambda>c w. (Output JNull, w))\<rparr>\<rparr>"

definition deferred_turn :: "((unit, unit) persistence_error, turn_end) loop_result \<times>
    (in_memory_persistence, unit) react_loop \<times> demo_world" where
  "deferred_turn = one_turn deferring_env [] (new_react_loop demo_run asking_cfg) demo_world"

definition later_loop :: "(in_memory_persistence, unit) react_loop" where
  "later_loop = new_react_loop demo_run (demo_cfg\<lparr>lc_initial_thread := Some (rl_history (fst (snd deferred_turn)))\<rparr>)"

theorem interrupted_turn_breaks_thread_witness:
  "let p = (prelude [] later_loop demo_world :: (unit, turn_context) loop_result \<times> _)
   in \<not> answered (req_messages (turn_request (fst (snd p)) (snd (snd p))))"
proof -
  let ?r = "new_react_loop demo_run asking_cfg"
  let ?p = "prelude [] later_loop demo_world :: (unit, turn_context) loop_result \<times> _"
  have "fst deferred_turn = Fails LoopCancelled" by code_simp
  then have t: "one_turn deferring_env [] ?r demo_world = (Fails LoopCancelled, fst (snd deferred_turn), snd (snd deferred_turn))"
    by (simp add: deferred_turn_def prod_eq_iff)
  have c: "(check_status ?r demo_world :: ((unit, unit) persistence_error, bool) loop_result \<times> _) = (Returns True, ?r, demo_world)"
  proof -
    have "fst (check_status ?r demo_world :: ((unit, unit) persistence_error, bool) loop_result \<times> _) = Returns True"
      by code_simp
    then show ?thesis by (auto simp: check_status_def split: sum.splits run_status.splits)
  qed
  obtain ctx where p: "?p = (Returns ctx, fst (snd ?p), snd (snd ?p))"
    using prelude_returns [of "[]" later_loop demo_world, where 'e = unit] by (metis prod.collapse)
  have b: "turn_begins demo_aenv [] (new_react_loop demo_run
      (demo_cfg\<lparr>lc_initial_thread := Some (rl_history (fst (snd deferred_turn)))\<rparr>)) demo_world later_loop demo_world"
    unfolding later_loop_def by (rule first_turn)
  have "announces_calls (lc_llm asking_cfg)" "answered (start_thread asking_cfg)"
    by (simp_all add: asking_cfg_def demo_announces)
  from interrupted_turn_breaks_thread [OF this first_turn c t _ _ b p] show ?thesis by (simp add: Let_def)
qed

section \<open>Bounds\<close>

text \<open>
  (C17) A run sends at most two requests per turn of its limit, the turn's own and one reflection or
  critique, and one more per revision of its critic, however long the answers, the tools and the
  waits take.
\<close>

theorem request_bound:
  fixes A :: "('p, 'e, 'x) agent_env"
  assumes "loop_services A cfg R" and "\<And>w a t. R 0 w (w\<lparr>aw_auth := a, aw_tick := t\<rparr>)"
    and "run_react_loop A prompt (new_react_loop i cfg) w = (out, r', w')"
  shows "R (2 * lc_max_turns cfg + (case lc_critic cfg of None \<Rightarrow> 0 | Some c \<Rightarrow> cc_max_revisions c)) w w'"
proof -
  note R = loop_services.R_trans [OF assms(1)]
  have auth: "R 0 v (snd (on_auth A f v))" for f :: "(nat \<Rightarrow> int) \<Rightarrow> 'p authority \<Rightarrow> 'b \<times> 'p authority" and v
    using assms(2) by (simp add: on_auth_def split: prod.split)
  show ?thesis
    using assms(3)
  proof (cases rule: run_phases)
    case (unmarked e)
    with assms(2) have "R 0 w w'" by (auto simp: on_auth_def split: prod.splits)
    then show ?thesis by (rule loop_services.R_any [OF assms(1)])
  next
    case (driven w1 kvs w2)
    from driven(1) assms(2) have "R 0 w w1" by (auto simp: on_auth_def split: prod.splits)
    from R [OF this loop_services.says [OF assms(1)]]
    have start: "R 0 w (say_trace A i kvs w1)" by (simp add: say_trace_def)
    from loop_services.drive_cost [OF assms(1) _ driven(2)]
    have "R (2 * lc_max_turns cfg + critic_revisions_remaining (new_react_loop i cfg)) (say_trace A i kvs w1) w2" by simp
    from R [OF start this] have d: "R (2 * lc_max_turns cfg + critic_revisions_remaining (new_react_loop i cfg)) w w2" by simp
    have "R 0 w2 (flush_history A r' w2)" "R 0 v (close_run A j out v)" for j v
      using loop_services.R_refl [OF assms(1)] assms(2)
      by (auto simp: flush_history_def close_run_def on_auth_def split: option.split loop_result.split loop_error.split prod.split)
    from R [OF this] have "R 0 w2 w'"
      using loop_services.R_refl [OF assms(1)] driven(3) by (simp split: if_splits)
    from R [OF d this] show ?thesis by (simp add: new_react_loop_def)
  qed
qed

text \<open>A scripted loop of one turn.\<close>

definition bare_world :: "(in_memory_persistence, mock_inner) agent_world" where
  "bare_world = \<lparr>aw_auth = demo_auth, aw_stores = empty_stores, aw_tick = 0, aw_outside = new_mock\<rparr>"

theorem request_bound_witness:
  "let A = idle_env demo_env (\<lambda>t k. int t) (\<lambda>_. ''json'');
       cfg = scripted_config A 1 None None None;
       res = run_react_loop A [] (new_react_loop demo_run cfg) bare_world
   in length (mock_requests (aw_outside (snd (snd res)))) \<le> length (mock_requests (aw_outside bare_world)) + 2"
proof -
  let ?A = "idle_env demo_env (\<lambda>t k. int t) (\<lambda>_. ''json'')"
  let ?cfg = "scripted_config ?A 1 None None None"
  obtain out r w where run: "run_react_loop ?A [] (new_react_loop demo_run ?cfg) bare_world = (out, r, w)"
    by (cases "run_react_loop ?A [] (new_react_loop demo_run ?cfg) bare_world") auto
  have "asked 0 v (v\<lparr>aw_auth := a, aw_tick := t\<rparr>)" for v :: "(in_memory_persistence, mock_inner) agent_world" and a t
    by (simp add: asked_def)
  from request_bound [OF requests.loop_services_axioms this run] run show ?thesis
    by (simp add: asked_def mock_requests_def scripted_config_def Let_def)
qed

section \<open>Outcomes\<close>

text \<open>
  (C18) On a working backend a run whose loop came back in any other way than by cancellation is in a
  terminal status.
\<close>

theorem outcome_settles_run:
  assumes "loop_services A cfg (\<lambda>_. keeps_runs)" and "\<And>s p. fst (env_save (ae_auth A) s p) = None"
    and "get_run (aw_auth w) i \<noteq> None"
    and "run_react_loop A prompt (new_react_loop i cfg) w = (out, r', w')"
    and "out \<noteq> Blocked" and "out \<noteq> Fails LoopCancelled"
  shows "\<exists>r. get_run (aw_auth w') i = Some r \<and> is_terminal (run_status r)"
  using run_settles [OF _ assms(4) _ assms(2,5,6)] assms(1,3) by (simp add: settled_def)

text \<open>The empty dispatcher, the idle environment and the provider of the example keep every run.\<close>

lemma demo_stays: "loop_services demo_aenv demo_cfg (\<lambda>_. keeps_runs)"
  unfolding demo_aenv_def demo_cfg_def demo_provider_def
  by (unfold_locales;
    (erule (1) keeps_runs_trans | assumption | rule keeps_runs_open | simp add: quiet_keeps_runs))

theorem outcome_settles_run_witness:
  "\<exists>r. get_run (aw_auth (snd (snd demo_end))) demo_run = Some r \<and> is_terminal (run_status r)"
proof -
  have e: "fst demo_end = Returns ()" by code_simp
  then have run: "run_react_loop demo_aenv [] (new_react_loop demo_run demo_cfg) demo_world =
      (Returns (), fst (snd demo_end), snd (snd demo_end))"
    by (simp add: demo_end_def prod_eq_iff)
  have saves: "fst (env_save (ae_auth demo_aenv) s p) = None" for s p
    by (simp add: demo_aenv_def idle_env_def demo_saves)
  have there: "get_run (aw_auth demo_world) demo_run \<noteq> None" by code_simp
  show ?thesis by (rule outcome_settles_run [OF demo_stays saves there run]) simp_all
qed

text \<open>
  When the loop gives up because it found its run paused, the task that ran it fails the run, and a call that
  wants to resume it then is refused.
\<close>

theorem pause_fails_agent_run:
  assumes "run_react_loop A prompt (new_react_loop i cfg) w = (Fails LoopCancelled, r', w1)"
    and "get_run (aw_auth w1) i = Some r" and "run_status r = run_status.Paused"
    and "snd (agent_task A prompt i cfg w) = w'"
  shows "(\<exists>r2. get_run (aw_auth w') i = Some r2 \<and> run_status r2 = run_status.Failed ''loop cancelled'') \<and>
    (\<exists>e. fst (resume_run E now ms i (aw_auth w')) = Inl e)"
proof -
  from assms(1,4) have w': "w' = spawn_epilogue A i (Fails LoopCancelled) w1" by (auto simp: agent_task_def)
  from assms(3) have "\<not> is_terminal (run_status r)" by simp
  from run_failed [OF assms(2) this] have r2: "\<exists>r2. get_run (aw_auth w') i = Some r2 \<and> run_status r2 = run_status.Failed ''loop cancelled''"
    by (simp add: w' spawn_epilogue_def on_auth_auth loop_error_text_def)
  then have "\<exists>e. fst (resume_run E now ms i (aw_auth w')) = Inl e"
    by (auto simp: resume_run_def transition_run_def)
  with r2 show ?thesis by blast
qed

text \<open>The user pauses the run while the provider answers.\<close>

definition pausing_cfg :: "(in_memory_persistence, unit) loop_config" where
  "pausing_cfg = demo_cfg\<lparr>lc_llm := (\<lambda>req w. (Inr one_call, w\<lparr>aw_auth := snd (pause_run demo_env 9 9 demo_run (aw_auth w))\<rparr>))\<rparr>"

theorem pause_fails_agent_run_witness:
  "\<exists>r2. get_run (aw_auth (snd (agent_task demo_aenv [] demo_run pausing_cfg demo_world))) demo_run = Some r2 \<and>
     run_status r2 = run_status.Failed ''loop cancelled''"
proof -
  let ?res = "run_react_loop demo_aenv [] (new_react_loop demo_run pausing_cfg) demo_world"
  have e: "fst ?res = Fails LoopCancelled \<and>
      map_option run_status (get_run (aw_auth (snd (snd ?res))) demo_run) = Some run_status.Paused"
    by code_simp
  then obtain r where r: "get_run (aw_auth (snd (snd ?res))) demo_run = Some r" "run_status r = run_status.Paused" by auto
  from e have run: "?res = (Fails LoopCancelled, fst (snd ?res), snd (snd ?res))" by (simp add: prod_eq_iff)
  show ?thesis using pause_fails_agent_run [OF run r refl] by blast
qed

section \<open>Approval\<close>

text \<open>
  (C16) A call that needs approval is dispatched only after a review of exactly this call, opened for
  this run, was approved; and a rejected one is not dispatched at all: the model gets an error
  instead. Whatever other tasks do to the runtime while the loop waits.
\<close>

theorem approved_dispatch_was_reviewed:
  fixes A :: "('p, 'e, 'x) agent_env"
  assumes "approved_outcome A c req r w = (Returns out, r', w')"
    and "get_review (aw_auth w) (ae_review A (aw_tick w)) = None" and "completions_ok (aw_auth w)"
    and "\<And>rid v. \<exists>xs. auth_steps (ae_auth A) (aw_auth v) xs (aw_auth (ae_wait_review A rid v))"
  shows "\<exists>v rv. get_review (aw_auth v) (ae_review A (aw_tick w)) = Some rv \<and> review_run_id rv = rl_run_id r \<and>
    review_request rv = approval_request c req \<and>
    (review_state rv = Approved \<and> dispatch_approved (lc_tools (rl_config r)) c v = (out, w') \<or>
     review_state rv = Rejected \<and> w' = v \<and> (\<exists>why. out = ToolError why))"
proof -
  from approved_phases [OF assms(1)] obtain rid a1 res where
    rid: "rid = ae_review A (aw_tick w)" and
    o: "open_review_with_completion (ae_auth A) (ae_clock A (aw_tick w) 0) (\<lambda>k. ae_clock A (aw_tick w) (k + 1)) rid
       (rl_run_id r) (approval_request c req) (aw_auth w) = (Inr rid, a1)" and
    res: "map_of (completions (aw_auth (ae_wait_review A rid (w\<lparr>aw_auth := a1, aw_tick := aw_tick w + 1\<rparr>)))) rid = Some res"
    "let w1 = ae_wait_review A rid (w\<lparr>aw_auth := a1, aw_tick := aw_tick w + 1\<rparr>) in
       res_decision res = permission_state.Approved \<and> dispatch_approved (lc_tools (rl_config r)) c w1 = (out, w') \<or>
       res_decision res = permission_state.Rejected \<and> w' = w1 \<and> (\<exists>why. out = ToolError why)" .
  define v where "v = ae_wait_review A rid (w\<lparr>aw_auth := a1, aw_tick := aw_tick w + 1\<rparr>)"
  from assms(4) [of "w\<lparr>aw_auth := a1, aw_tick := aw_tick w + 1\<rparr>" rid]
  obtain xs where steps: "auth_steps (ae_auth A) a1 xs (aw_auth v)" by (auto simp: v_def)
  from opened_review [OF o] obtain rv where rv: "get_review a1 rid = Some rv" "review_run_id rv = rl_run_id r"
    "review_request rv = approval_request c req" by blast
  from steps_review_fixed [OF steps rv(1)] rv obtain rv' where rv': "get_review (aw_auth v) rid = Some rv'"
    "review_run_id rv' = rl_run_id r" "review_request rv' = approval_request c req" by auto
  have "completions_ok a1" using opened_completions_ok [OF o assms(3)] assms(2) rid by simp
  from completions_ok_steps [OF steps this] res(1) rv'(1) have "review_state rv' = res_decision res"
    unfolding completions_ok_def v_def by (metis map_of_SomeD option.inject)
  with rv' res(2) rid show ?thesis by (intro exI [of _ v] exI [of _ rv']) (auto simp: v_def Let_def)
qed

text \<open>The user approves the review that the loop opened.\<close>

definition approving_env :: "(in_memory_persistence, (unit, unit) persistence_error, unit) agent_env" where
  "approving_env = demo_aenv\<lparr>ae_wait_review := (\<lambda>rid w. w\<lparr>aw_auth :=
     auth_exec demo_env (OpResolveReview 9 (\<lambda>_. 9) demo_run rid Approved None) (aw_auth w)\<rparr>)\<rparr>"

definition call_x :: tool_call where
  "call_x = \<lparr>call_id = ''c1'', call_name = ''x'', call_arguments = ''{}''\<rparr>"

definition approved_call :: "((unit, unit) persistence_error, tool_outcome) loop_result \<times>
    (in_memory_persistence, unit) react_loop \<times> demo_world" where
  "approved_call = approved_outcome approving_env call_x JNull (new_react_loop demo_run asking_cfg) demo_world"

theorem approved_dispatch_was_reviewed_witness:
  "\<exists>v rv. get_review (aw_auth v) (UuidNewtype 0) = Some rv \<and> review_run_id rv = demo_run \<and>
    review_request rv = approval_request call_x JNull \<and>
    (review_state rv = Approved \<and> dispatch_approved (lc_tools asking_cfg) call_x v = (Output JNull, snd (snd approved_call)) \<or>
     review_state rv = Rejected \<and> snd (snd approved_call) = v \<and> (\<exists>why. Output JNull = ToolError why))"
proof -
  let ?r = "new_react_loop demo_run asking_cfg"
  have "fst approved_call = Returns (Output JNull)" by code_simp
  then have run: "approved_outcome approving_env call_x JNull ?r demo_world =
      (Returns (Output JNull), fst (snd approved_call), snd (snd approved_call))"
    by (simp add: approved_call_def prod_eq_iff)
  have new: "get_review (aw_auth demo_world) (ae_review approving_env (aw_tick demo_world)) = None" by code_simp
  have ok: "completions_ok (aw_auth demo_world)"
  proof -
    have "completions demo_auth = []" by code_simp
    then show ?thesis by (simp add: completions_ok_def demo_world_def)
  qed
  have wait: "\<exists>xs. auth_steps (ae_auth approving_env) (aw_auth v) xs (aw_auth (ae_wait_review approving_env rid v))" for rid v
    unfolding approving_env_def demo_aenv_def idle_env_def
    by (intro exI [of _ "[OpResolveReview 9 (\<lambda>_. 9) demo_run rid Approved None]"]) (simp add: auth_steps_iff)
  have id: "ae_review approving_env (aw_tick demo_world) = UuidNewtype 0"
    by (simp add: approving_env_def demo_aenv_def idle_env_def demo_world_def)
  from approved_dispatch_was_reviewed [OF run new ok wait] show ?thesis by (simp add: id)
qed

section \<open>Compaction\<close>

lemma turn_index:
  assumes "k \<le> turn_count ms" and "0 < k"
  shows "\<exists>i < length ms. enough ms k i"
  using assms(1)
proof (induction ms)
  case (Cons m ms)
  show ?case
  proof (cases "k \<le> turn_count ms")
    case True
    with Cons.IH obtain i where "i < length ms" "enough ms k i" by blast
    then show ?thesis by (intro exI [of _ "Suc i"]) (simp add: enough_def)
  next
    case False
    with Cons.prems have "msg_role m = User" by (simp add: turn_count_Cons split: if_splits)
    with Cons.prems show ?thesis by (intro exI [of _ 0]) (simp add: enough_def)
  qed
qed (use assms(2) in simp)

lemma split_keeps_turns:
  assumes "split_thread thread k = (a, b)" and "k \<le> turn_count thread"
  shows "k \<le> turn_count (drop b thread)"
proof (cases "k = 0")
  case False
  let ?r = "recency_walk (rev thread) k 0 None (length thread)"
  let ?p = "length (takeWhile (\<lambda>m. msg_role m = System) thread)"
  from turn_index [OF assms(2)] False recency_start_spec [where thread = thread and k = k]
  have r: "?r < length thread" "enough thread k ?r" by auto
  have "?p \<le> ?r"
  proof (rule ccontr)
    assume "\<not> ?p \<le> ?r"
    then have "thread ! ?r \<in> set (takeWhile (\<lambda>m. msg_role m = System) thread)"
      by (metis not_le nth_mem takeWhile_nth)
    with r(2) show False by (auto simp: enough_def dest: set_takeWhileD)
  qed
  with assms(1) have "b = ?r" by (auto simp: split_thread_def Let_def)
  with r(2) show ?thesis by (simp add: enough_def)
qed simp

text \<open>
  Compaction keeps an answered thread answered, keeps its leading system messages, and keeps the
  asked number of turns at its end word for word when the thread has that many.
\<close>

theorem compaction_keeps_contract:
  assumes "maybe_compact prompt thread llm model pct turns w = (res, w')" and "answered thread"
  shows "answered (cr_thread res) \<and> prefix (takeWhile (\<lambda>m. msg_role m = System) thread) (cr_thread res) \<and>
    (turns \<le> turn_count thread \<longrightarrow> (\<exists>tl. suffix tl thread \<and> suffix tl (cr_thread res) \<and> turns \<le> turn_count tl))"
proof -
  let ?pre = "takeWhile (\<lambda>m. msg_role m = System) thread"
  from maybe_compact_cases [OF assms(1)] consider "cr_thread res = thread"
    | a b s where "split_thread thread turns = (a, b)"
        "cr_thread res = take a thread @ [msg_system s] @ drop b thread"
    by blast
  then show ?thesis
  proof cases
    case 1
    then show ?thesis using assms(2) takeWhile_is_prefix by auto
  next
    case (2 a b s)
    have "suffix (drop b thread) (cr_thread res)" using 2(2) by (auto simp: suffix_def)
    moreover have "prefix ?pre (cr_thread res)" using split_bounds(3) [OF 2(1)] 2(2) by simp
    ultimately show ?thesis
      using answered_compacted [OF assms(2) 2(1)] split_keeps_turns [OF 2(1)] 2(2) suffix_drop by auto
  qed
qed

definition demo_thread :: "chat_message list" where
  "demo_thread = [msg_system ''sys'', msg_user ''a'', msg_assistant_text ''b'', msg_user ''c'', msg_assistant_text ''d'']"

definition writer_provider :: "'w provider" where
  "writer_provider req w = (Inr [Delta ''sum'', Done Stop], w)"

theorem compaction_keeps_contract_witness:
  "let res = fst (maybe_compact [] demo_thread writer_provider ''m'' 0 1 ())
   in answered (cr_thread res) \<and> cr_compacted res \<and>
      (\<exists>tl. suffix tl demo_thread \<and> suffix tl (cr_thread res) \<and> 1 \<le> turn_count tl)"
proof -
  let ?c = "maybe_compact [] demo_thread writer_provider ''m'' 0 1 ()"
  have e: "?c = (fst ?c, snd ?c)" by (rule prod.collapse [symmetric])
  have c: "cr_compacted (fst ?c)"
    by (simp add: maybe_compact_def collect_text_def writer_provider_def demo_thread_def split_thread_def Let_def
        msg_system_def msg_user_def msg_assistant_text_def)
  have a: "answered demo_thread" by (simp add: demo_thread_def answered_plain)
  have "1 \<le> turn_count demo_thread" by code_simp
  with compaction_keeps_contract [OF e a] c show ?thesis by (simp only: Let_def)
qed

text \<open>
  With fewer turns than should be kept a compaction keeps none: whatever the user and the agent
  said goes into the summary, the last question included.
\<close>

theorem compaction_forgets_short_threads:
  assumes "maybe_compact prompt thread llm model pct turns w = (res, w')"
    and "turn_count thread < turns"
    and "CONTEXT_WINDOW_TOKENS * unat pct div 100 \<le> token_estimate thread"
    and "collect_text llm (new_llm_request model [msg_system prompt,
      msg_user (format_for_summary (dropWhile (\<lambda>m. msg_role m = System) thread))]) w = (Inr summary, w')"
    and "m \<in> set thread" and "msg_role m \<noteq> System"
  shows "cr_thread res = takeWhile (\<lambda>m. msg_role m = System) thread @
    [msg_system (''[Conversation summary]'' @ newline @ summary)]"
proof -
  let ?pre = "takeWhile (\<lambda>m. msg_role m = System) thread"
  have s: "split_thread thread turns = (length ?pre, length thread)"
    using few_turns [OF assms(2)] length_takeWhile_le [of "\<lambda>m. msg_role m = System" thread]
    by (simp add: split_thread_def Let_def max_def)
  have d: "drop (length ?pre) (take (length thread) thread) = dropWhile (\<lambda>m. msg_role m = System) thread"
    by (simp add: dropWhile_eq_drop)
  have "dropWhile (\<lambda>m. msg_role m = System) thread \<noteq> []"
    using assms(5,6) by (auto simp: dropWhile_eq_Nil_conv)
  moreover have "take (length ?pre) thread = ?pre" by (simp add: takeWhile_eq_take [symmetric])
  ultimately show ?thesis
    using assms(1,3,4,5,6) unfolding maybe_compact_def Let_def s prod.case d
    by (auto simp: not_less split: if_splits)
qed

theorem compaction_forgets_short_threads_witness:
  "cr_thread (fst (maybe_compact [] (msg_system ''sys'' # [msg_user (replicate 409600 CHR ''a'')]) writer_provider ''m''
     DEFAULT_THRESHOLD_PCT DEFAULT_RECENCY_TURNS ())) =
   [msg_system ''sys'', msg_system (''[Conversation summary]'' @ newline @ ''sum'')]"
proof -
  let ?t = "msg_system ''sys'' # [msg_user (replicate 409600 CHR ''a'')]"
  let ?c = "maybe_compact [] ?t writer_provider ''m'' DEFAULT_THRESHOLD_PCT DEFAULT_RECENCY_TURNS ()"
  have e: "?c = (fst ?c, ())" by (simp only: prod_eq_iff fst_conv snd_conv unit_eq simp_thms)
  have few: "turn_count ?t < DEFAULT_RECENCY_TURNS" by (simp add: DEFAULT_RECENCY_TURNS_def msg_system_def)
  have big: "CONTEXT_WINDOW_TOKENS * unat DEFAULT_THRESHOLD_PCT div 100 \<le> token_estimate ?t"
    by (simp add: CONTEXT_WINDOW_TOKENS_def DEFAULT_THRESHOLD_PCT_def token_estimate_def msg_user_def)
  have summed: "collect_text writer_provider req () = (Inr ''sum'', ())" for req
    by (simp add: collect_text_def writer_provider_def)
  have user: "msg_user (replicate 409600 CHR ''a'') \<in> set ?t" "msg_role (msg_user (replicate 409600 CHR ''a'')) \<noteq> System"
    by (simp_all add: msg_user_def)
  from compaction_forgets_short_threads [OF e few big summed user] show ?thesis
    by (simp add: msg_system_def msg_user_def)
qed

end
