(* ===== verification/Sse.thy ===== *)
theory Sse
  imports AgentTypes
begin

text \<open>
  What the streaming clients of the language models share (\<^verbatim>\<open>llm/openai.rs\<close>, \<^verbatim>\<open>llm/anthropic.rs\<close>): the
  lossy decoding of each chunk of the response, the rolling buffer that is cut into lines, and the
  payload of a \<^verbatim>\<open>data:\<close> line. Texts are byte strings.
\<close>

section \<open>Lossy UTF-8\<close>

definition byte_at :: "nat \<Rightarrow> string \<Rightarrow> nat" where
  "byte_at k s = (if k < length s then of_char (s ! k) else 0)"

definition between :: "nat \<Rightarrow> nat \<Rightarrow> nat \<Rightarrow> bool" where
  "between a b x \<longleftrightarrow> a \<le> x \<and> x \<le> b"

definition continues_at :: "nat \<Rightarrow> string \<Rightarrow> bool" where
  "continues_at k s = between 0x80 0xBF (byte_at k s)"

text \<open>The second byte of a character of three or four bytes.\<close>

definition second_ok :: "nat \<Rightarrow> nat \<Rightarrow> bool" where
  "second_ok x y =
     (if x = 0xE0 then between 0xA0 0xBF y else if x = 0xED then between 0x80 0x9F y
      else if x = 0xF0 then between 0x90 0xBF y else if x = 0xF4 then between 0x80 0x8F y
      else between 0x80 0xBF y)"

text \<open>Whether the text starts with a character, and how many bytes it or the broken part has.\<close>

definition utf8_head :: "string \<Rightarrow> bool \<times> nat" where
  "utf8_head s =
     (let x = byte_at 0 s in
      if x < 0x80 then (True, 1)
      else if between 0xC2 0xDF x then (if continues_at 1 s then (True, 2) else (False, 1))
      else if between 0xE0 0xEF x then
        (if \<not> second_ok x (byte_at 1 s) then (False, 1)
         else if \<not> continues_at 2 s then (False, 2) else (True, 3))
      else if between 0xF0 0xF4 x then
        (if \<not> second_ok x (byte_at 1 s) then (False, 1)
         else if \<not> continues_at 2 s then (False, 2)
         else if \<not> continues_at 3 s then (False, 3) else (True, 4))
      else (False, 1))"

lemma utf8_head_pos: "0 < snd (utf8_head s)"
  by (simp add: utf8_head_def Let_def)

definition replacement_char :: string where
  "replacement_char = [CHR 0xEF, CHR 0xBF, CHR 0xBD]"

text \<open>\<^verbatim>\<open>String::from_utf8_lossy\<close>.\<close>

function utf8_lossy :: "string \<Rightarrow> string" where
  "utf8_lossy s =
     (if s = [] then [] else (case utf8_head s of (ok, n) \<Rightarrow>
        (if ok then take n s else replacement_char) @ utf8_lossy (drop n s)))"
  by pat_completeness auto
termination
proof (relation "measure length", goal_cases)
  case (2 s x y)
  then have "0 < y" using utf8_head_pos [of s] by (metis snd_conv)
  with 2(1) show ?case by (cases s) simp_all
qed simp

declare utf8_lossy.simps [simp del]

function utf8_valid :: "string \<Rightarrow> bool" where
  "utf8_valid s = (if s = [] then True else (case utf8_head s of (ok, n) \<Rightarrow> if ok then utf8_valid (drop n s) else False))"
  by pat_completeness auto
termination
proof (relation "measure length", goal_cases)
  case (2 s x y)
  then have "0 < y" using utf8_head_pos [of s] by (metis snd_conv)
  with 2(1) show ?case by (cases s) simp_all
qed simp

declare utf8_valid.simps [simp del]

lemma utf8_Nil [simp]: "utf8_lossy [] = []" "utf8_valid []"
  by (subst utf8_lossy.simps utf8_valid.simps, simp)+

text \<open>A character at the head stays one when something follows.\<close>

lemma between_le: "between a b (byte_at k s) \<Longrightarrow> 0 < a \<Longrightarrow> k < length s"
  by (auto simp: between_def byte_at_def split: if_splits)

lemma utf8_head_append:
  assumes "utf8_head s = (True, n)" and "s \<noteq> []"
  shows "n \<le> length s \<and> utf8_head (s @ t) = (True, n)"
proof -
  have at: "byte_at k (s @ t) = byte_at k s" if "k < length s" for k
    using that by (simp add: byte_at_def nth_append)
  have at0: "byte_at 0 (s @ t) = byte_at 0 s" using assms(2) by (intro at) simp
  have cont: "k < length s" if "continues_at k s" for k
    using that by (auto simp: continues_at_def dest: between_le)
  have cont': "continues_at k (s @ t)" if "continues_at k s" for k
    using that at [OF cont [OF that]] by (simp add: continues_at_def)
  have le1: "Suc 0 \<le> length s" using assms(2) by (cases s) simp_all
  let ?x = "byte_at 0 s"
  consider "?x < 0x80" | "\<not> ?x < 0x80" "between 0xC2 0xDF ?x"
    | "\<not> ?x < 0x80" "\<not> between 0xC2 0xDF ?x" "between 0xE0 0xEF ?x"
    | "\<not> ?x < 0x80" "\<not> between 0xC2 0xDF ?x" "\<not> between 0xE0 0xEF ?x" by blast
  then show ?thesis
  proof cases
    case 1
    with assms(1) le1 show ?thesis by (simp add: utf8_head_def at0)
  next
    case 2
    with assms(1) have c: "continues_at 1 s" "n = 2" by (auto simp: utf8_head_def split: if_splits)
    with 2 cont' [OF c(1)] cont [OF c(1)] show ?thesis by (simp add: utf8_head_def at0)
  next
    case 3
    with assms(1) have c: "second_ok ?x (byte_at 1 s)" "continues_at 2 s" "n = 3"
      by (auto simp: utf8_head_def split: if_splits)
    with cont have "2 < length s" by blast
    with 3 c cont' [OF c(2)] at [of 1] show ?thesis by (simp add: utf8_head_def at0)
  next
    case 4
    with assms(1) have c: "between 0xF0 0xF4 ?x" "second_ok ?x (byte_at 1 s)" "continues_at 2 s" "continues_at 3 s" "n = 4"
      by (auto simp: utf8_head_def Let_def split: if_splits)
    with cont have "3 < length s" by blast
    with 4 c cont' [OF c(3)] cont' [OF c(4)] at [of 1] show ?thesis by (simp add: utf8_head_def at0)
  qed
qed

lemma utf8_lossy_append: "utf8_valid s \<Longrightarrow> utf8_lossy (s @ t) = s @ utf8_lossy t"
proof (induction s rule: utf8_valid.induct)
  case (1 s)
  show ?case
  proof (cases "s = []")
    case False
    with 1(2) obtain n where n: "utf8_head s = (True, n)" "utf8_valid (drop n s)"
      by (subst (asm) utf8_valid.simps) (auto split: prod.splits if_splits)
    note h = utf8_head_append [OF n(1) False]
    from 1(1) [OF False n(1) [symmetric] TrueI n(2)] have IH: "utf8_lossy (drop n s @ t) = drop n s @ utf8_lossy t" .
    have "utf8_lossy (s @ t) = take n (s @ t) @ utf8_lossy (drop n (s @ t))"
      using h False by (subst utf8_lossy.simps) simp
    also have "\<dots> = take n s @ drop n s @ utf8_lossy t" using h IH by simp
    finally show ?thesis by (simp add: append_assoc [symmetric] del: append_assoc)
  qed simp
qed

lemma utf8_valid_append: "utf8_valid s \<Longrightarrow> utf8_valid t \<Longrightarrow> utf8_valid (s @ t)"
proof (induction s rule: utf8_valid.induct)
  case (1 s)
  show ?case
  proof (cases "s = []")
    case False
    with 1(2) obtain n where n: "utf8_head s = (True, n)" "utf8_valid (drop n s)"
      by (subst (asm) utf8_valid.simps) (auto split: prod.splits if_splits)
    note h = utf8_head_append [OF n(1) False]
    from 1(1) [OF False n(1) [symmetric] TrueI n(2) 1(3)] h False show ?thesis
      by (subst utf8_valid.simps) simp
  qed (use 1(3) in simp)
qed

lemma utf8_lossy_valid: "utf8_valid s \<Longrightarrow> utf8_lossy s = s"
  using utf8_lossy_append [of s "[]"] by simp

lemma utf8_valid_ascii: "list_all (\<lambda>c. (of_char c :: nat) < 128) s \<Longrightarrow> utf8_valid s"
proof (induction s)
  case (Cons c s)
  then have "utf8_head (c # s) = (True, 1)" by (simp add: utf8_head_def byte_at_def)
  with Cons show ?case by (subst utf8_valid.simps) simp
qed simp

section \<open>Lines\<close>

text \<open>
  \<^verbatim>\<open>buf.find\<close> of a line feed and \<^verbatim>\<open>drain(..=idx)\<close>: the first complete line with its line feed, and the
  rest; the loop over all complete lines, whose ends are trimmed.
\<close>

fun pop_line :: "string \<Rightarrow> (string \<times> string) option" where
  "pop_line [] = None"
| "pop_line (c # s) =
     (if c = CHR 0x0A then Some ([c], s)
      else case pop_line s of None \<Rightarrow> None | Some (l, r) \<Rightarrow> Some (c # l, r))"

definition trim_line_end :: "string \<Rightarrow> string" where
  "trim_line_end l = rev (dropWhile (\<lambda>c. c = CHR 0x0D \<or> c = CHR 0x0A) (rev l))"

lemma pop_line_length: "pop_line s = Some (l, r) \<Longrightarrow> length r < length s"
  by (induction s arbitrary: l) (fastforce split: if_splits option.splits)+

function drain_lines :: "string \<Rightarrow> string list \<times> string" where
  "drain_lines buf = (case pop_line buf of
     None \<Rightarrow> ([], buf)
   | Some (l, r) \<Rightarrow> (case drain_lines r of (ls, rest) \<Rightarrow> (trim_line_end l # ls, rest)))"
  by pat_completeness auto
termination
  by (relation "measure length") (auto dest: pop_line_length)

declare drain_lines.simps [simp del]

lemma pop_line_append: "pop_line a = Some (l, r) \<Longrightarrow> pop_line (a @ b) = Some (l, r @ b)"
  by (induction a arbitrary: l) (auto split: if_splits option.splits)

lemma pop_line_None: "pop_line a = None \<longleftrightarrow> CHR 0x0A \<notin> set a"
  by (induction a) (auto split: option.splits)

lemma pop_line_complete: "CHR 0x0A \<notin> set a \<Longrightarrow> pop_line (a @ CHR 0x0A # b) = Some (a @ [CHR 0x0A], b)"
  by (induction a) auto

lemma drain_append:
  "drain_lines (a @ b) =
     (case drain_lines a of (ls, r) \<Rightarrow> (case drain_lines (r @ b) of (ls', r') \<Rightarrow> (ls @ ls', r')))"
proof (induction a rule: drain_lines.induct)
  case (1 a)
  show ?case
  proof (cases "pop_line a")
    case None
    then show ?thesis by (subst (2) drain_lines.simps) (simp split: prod.split)
  next
    case (Some lr)
    obtain l r where lr: "lr = (l, r)" by fastforce
    from 1 [OF Some lr [symmetric]] Some lr pop_line_append [of a l r b] show ?thesis
      by (subst drain_lines.simps, subst (3) drain_lines.simps) (simp split: prod.splits)
  qed
qed

lemma drain_line:
  assumes "CHR 0x0A \<notin> set l"
  shows "drain_lines (l @ CHR 0x0A # b) = (case drain_lines b of (ls, r) \<Rightarrow> (trim_line_end (l @ [CHR 0x0A]) # ls, r))"
  using pop_line_complete [OF assms] by (subst drain_lines.simps) simp

lemma drain_Nil [simp]: "drain_lines [] = ([], [])"
  by (simp add: drain_lines.simps)

section \<open>The pump\<close>

text \<open>
  One chunk of a response body: its bytes, or an input error. A pump is given how it reports an error
  and what it does with a line, which is to emit events and to go on or to return.
\<close>

type_synonym chunk = "anyhow_error + string"
type_synonym 's line_step = "'s \<Rightarrow> string \<Rightarrow> llm_event list \<times> 's option"

fun run_lines :: "'s line_step \<Rightarrow> 's \<Rightarrow> string list \<Rightarrow> llm_event list \<times> 's option" where
  "run_lines h s [] = ([], Some s)"
| "run_lines h s (l # ls) = (case h s l of
     (es, None) \<Rightarrow> (es, None)
   | (es, Some s') \<Rightarrow> (case run_lines h s' ls of (es', res) \<Rightarrow> (es @ es', res)))"

fun pump :: "(anyhow_error \<Rightarrow> string) \<Rightarrow> 's line_step \<Rightarrow> 's \<Rightarrow> string \<Rightarrow> chunk list \<Rightarrow> llm_event list" where
  "pump fmt h s buf [] = []"
| "pump fmt h s buf (Inl e # cs) = [StreamError (''stream io: '' @ fmt e)]"
| "pump fmt h s buf (Inr c # cs) = (case drain_lines (buf @ utf8_lossy c) of (ls, rest) \<Rightarrow>
     (case run_lines h s ls of
        (es, None) \<Rightarrow> es
      | (es, Some s') \<Rightarrow> es @ pump fmt h s' rest cs))"

text \<open>\<^verbatim>\<open>strip_prefix("data: ")\<close>, or without the space, and \<^verbatim>\<open>trim_start\<close>.\<close>

definition strip_prefix :: "string \<Rightarrow> string \<Rightarrow> string option" where
  "strip_prefix p s = (if str_starts_with s p then Some (drop (length p) s) else None)"

definition str_trim_start :: "string \<Rightarrow> string" where
  "str_trim_start s = strip_front (white_space_ascii @ white_space_wide) s"

definition data_payload :: "string \<Rightarrow> string option" where
  "data_payload line = map_option str_trim_start (case strip_prefix ''data: '' line of
     Some p \<Rightarrow> Some p | None \<Rightarrow> strip_prefix ''data:'' line)"

section \<open>Chunks do not matter\<close>

lemma run_lines_append:
  "run_lines h s (ls @ ls') = (case run_lines h s ls of
     (es, None) \<Rightarrow> (es, None)
   | (es, Some s') \<Rightarrow> (case run_lines h s' ls' of (es', res) \<Rightarrow> (es @ es', res)))"
  by (induction ls arbitrary: s) (auto split: prod.splits option.splits)

lemma pump_chunks:
  "pump fmt h s buf (map Inr cs) = fst (run_lines h s (fst (drain_lines (buf @ concat (map utf8_lossy cs)))))"
  if "CHR 0x0A \<notin> set buf"
  using that
proof (induction cs arbitrary: s buf)
  case Nil
  then have "pop_line buf = None" by (simp add: pop_line_None)
  then show ?case by (simp add: drain_lines.simps)
next
  case (Cons c cs)
  obtain ls rest where d: "drain_lines (buf @ utf8_lossy c) = (ls, rest)" by fastforce
  have rest: "CHR 0x0A \<notin> set r" if "drain_lines b = (ks, r)" for b ks r
    using that
  proof (induction b arbitrary: ks rule: drain_lines.induct)
    case (1 b)
    then show ?case
      by (subst (asm) (2) drain_lines.simps) (auto simp: pop_line_None split: option.splits prod.splits)
  qed
  note IH = Cons.IH [OF rest [OF d]]
  have all: "drain_lines (buf @ concat (map utf8_lossy (c # cs))) =
      (case drain_lines (rest @ concat (map utf8_lossy cs)) of (ls', r') \<Rightarrow> (ls @ ls', r'))"
    using drain_append [of "buf @ utf8_lossy c" "concat (map utf8_lossy cs)"] d by simp
  show ?case
    using d IH unfolding all
    by (simp add: run_lines_append split: prod.splits option.splits) auto
qed

lemma pump_valid_chunks:
  assumes "list_all utf8_valid cs"
  shows "pump fmt h s [] (map Inr cs) = fst (run_lines h s (fst (drain_lines (concat cs))))"
proof -
  from assms have "map utf8_lossy cs = cs" by (induction cs) (simp_all add: utf8_lossy_valid)
  then show ?thesis by (simp add: pump_chunks)
qed

text \<open>A whole stream as one text: its lines are those of its pieces.\<close>

lemma drain_text:
  assumes "list_all (\<lambda>l. CHR 0x0A \<notin> set l) ls"
  shows "drain_lines (concat (map (\<lambda>l. l @ [CHR 0x0A]) ls)) = (map (\<lambda>l. trim_line_end (l @ [CHR 0x0A])) ls, [])"
  using assms by (induction ls) (simp_all add: drain_line)

lemma strip_front_none:
  assumes "s = [] \<or> \<not> (\<exists>w \<in> set ws. w \<noteq> [] \<and> str_starts_with s w)"
  shows "strip_front ws s = s"
proof -
  have "str_starts_with [] w \<Longrightarrow> w = []" for w by (cases w) simp_all
  with assms have "List.find (\<lambda>w. w \<noteq> [] \<and> str_starts_with s w) ws = None"
    by (auto simp: find_None_iff)
  then show ?thesis by (subst strip_front.simps) simp
qed

end
