(* ===== verification/Serde.thy ===== *)
theory Serde
  imports Prelude
begin

text \<open>
  The decoding that \<^verbatim>\<open>serde\<close> derives for the structs of the code, from a parsed JSON text. The parser
  is a parameter; it keeps the members of an object in the order of the text, repeated ones included.
\<close>

section \<open>Decoding structs\<close>

text \<open>
  What \<^verbatim>\<open>serde\<close> derives: the fields of a struct from an object, in which a repeated field is an error
  and an unknown one is skipped, or from an array. An array has no more elements than the struct has
  fields, and none is missing up to the last field without a default.
\<close>

fun struct_fields :: "nat \<Rightarrow> string list \<Rightarrow> json \<Rightarrow> json option list option" where
  "struct_fields need ks (JObject ms) =
     (if list_all (\<lambda>k. length (filter (\<lambda>(k', _). k' = k) ms) \<le> 1) ks then Some (map (map_of ms) ks) else None)"
| "struct_fields need ks (JArray js) =
     (if need \<le> length js \<and> length js \<le> length ks
      then Some (map Some js @ replicate (length ks - length js) None) else None)"
| "struct_fields need ks _ = None"

definition required :: "(json \<Rightarrow> 'a option) \<Rightarrow> json option \<Rightarrow> 'a option" where
  "required d v = (case v of None \<Rightarrow> None | Some j \<Rightarrow> d j)"

definition defaulted :: "(json \<Rightarrow> 'a option) \<Rightarrow> 'a \<Rightarrow> json option \<Rightarrow> 'a option" where
  "defaulted d a v = (case v of None \<Rightarrow> Some a | Some j \<Rightarrow> d j)"

definition nullable :: "(json \<Rightarrow> 'a option) \<Rightarrow> json \<Rightarrow> 'a option option" where
  "nullable d j = (if j = JNull then Some None else map_option Some (d j))"

abbreviation optional :: "(json \<Rightarrow> 'a option) \<Rightarrow> json option \<Rightarrow> 'a option option" where
  "optional d \<equiv> defaulted (nullable d) None"

definition each :: "(json \<Rightarrow> 'a option) \<Rightarrow> json \<Rightarrow> 'a list option" where
  "each d j = (case json_as_array j of None \<Rightarrow> None | Some js \<Rightarrow>
     (if list_all (\<lambda>j. d j \<noteq> None) js then Some (map (\<lambda>j. the (d j)) js) else None))"

definition json_u32_of :: "json \<Rightarrow> u32 option" where
  "json_u32_of j = (case json_as_u64 j of None \<Rightarrow> None
     | Some n \<Rightarrow> if unat n < 2 ^ 32 then Some (ucast n) else None)"

text \<open>A signed number of 32 bits in a \<^verbatim>\<open>json!\<close> value.\<close>

definition json_i32 :: "32 word \<Rightarrow> json" where
  "json_i32 n = JNumber (if sint n < 0 then NegInt (scast n) else PosInt (scast n))"

text \<open>A pair of texts, as an array of two.\<close>

definition string_pair :: "json \<Rightarrow> (string \<times> string) option" where
  "string_pair j = (case json_as_array j of
     Some [a, b] \<Rightarrow> (case (json_as_str a, json_as_str b) of (Some x, Some y) \<Rightarrow> Some (x, y) | _ \<Rightarrow> None)
   | _ \<Rightarrow> None)"

end
