(* ===== verification/OpenAi.thy ===== *)
theory OpenAi
  imports Sse Serde
begin

text \<open>
  The client of OpenAI-compatible services (\<^verbatim>\<open>llm/openai.rs\<close>): the request it builds, the decoding of
  a streamed chunk into the structs of the wire format, and the provider made of both. The HTTP
  client and the JSON parser are parameters.
\<close>

section \<open>The wire format of a chunk\<close>

record wire_usage =
  prompt_tokens :: u64
  completion_tokens :: u64

record wire_function_delta =
  wf_name :: "string option"
  wf_arguments :: "string option"

record wire_call_delta =
  wc_index :: u64
  wc_id :: "string option"
  wc_function :: "wire_function_delta option"

record wire_delta =
  wd_content :: "string option"
  wd_reasoning_content :: "string option"
  wd_tool_calls :: "wire_call_delta list option"

record wire_choice =
  wch_delta :: "wire_delta option"
  wch_finish_reason :: "string option"

record wire_chunk =
  wk_choices :: "wire_choice list"
  wk_usage :: "wire_usage option"

definition wire_usage_from :: "json \<Rightarrow> wire_usage option" where
  "wire_usage_from j = (case struct_fields 2 [''prompt_tokens'', ''completion_tokens''] j of
     Some [p, c] \<Rightarrow> (case (required json_as_u64 p, required json_as_u64 c) of
        (Some p, Some c) \<Rightarrow> Some \<lparr>prompt_tokens = p, completion_tokens = c\<rparr>
      | _ \<Rightarrow> None)
   | _ \<Rightarrow> None)"

definition wire_function_from :: "json \<Rightarrow> wire_function_delta option" where
  "wire_function_from j = (case struct_fields 0 [''name'', ''arguments''] j of
     Some [n, a] \<Rightarrow> (case (optional json_as_str n, optional json_as_str a) of
        (Some n, Some a) \<Rightarrow> Some \<lparr>wf_name = n, wf_arguments = a\<rparr>
      | _ \<Rightarrow> None)
   | _ \<Rightarrow> None)"

definition wire_call_from :: "json \<Rightarrow> wire_call_delta option" where
  "wire_call_from j = (case struct_fields 1 [''index'', ''id'', ''function''] j of
     Some [k, i, f] \<Rightarrow> (case (required json_as_u64 k, optional json_as_str i, optional wire_function_from f) of
        (Some k, Some i, Some f) \<Rightarrow> Some \<lparr>wc_index = k, wc_id = i, wc_function = f\<rparr>
      | _ \<Rightarrow> None)
   | _ \<Rightarrow> None)"

definition wire_delta_from :: "json \<Rightarrow> wire_delta option" where
  "wire_delta_from j = (case struct_fields 0 [''content'', ''reasoning_content'', ''tool_calls''] j of
     Some [c, r, t] \<Rightarrow> (case (optional json_as_str c, optional json_as_str r, optional (each wire_call_from) t) of
        (Some c, Some r, Some t) \<Rightarrow> Some \<lparr>wd_content = c, wd_reasoning_content = r, wd_tool_calls = t\<rparr>
      | _ \<Rightarrow> None)
   | _ \<Rightarrow> None)"

definition wire_choice_from :: "json \<Rightarrow> wire_choice option" where
  "wire_choice_from j = (case struct_fields 0 [''delta'', ''finish_reason''] j of
     Some [d, f] \<Rightarrow> (case (optional wire_delta_from d, optional json_as_str f) of
        (Some d, Some f) \<Rightarrow> Some \<lparr>wch_delta = d, wch_finish_reason = f\<rparr>
      | _ \<Rightarrow> None)
   | _ \<Rightarrow> None)"

definition wire_chunk_from :: "json \<Rightarrow> wire_chunk option" where
  "wire_chunk_from j = (case struct_fields 0 [''choices'', ''usage''] j of
     Some [c, u] \<Rightarrow> (case (defaulted (each wire_choice_from) [] c, optional wire_usage_from u) of
        (Some c, Some u) \<Rightarrow> Some \<lparr>wk_choices = c, wk_usage = u\<rparr>
      | _ \<Rightarrow> None)
   | _ \<Rightarrow> None)"

section \<open>Events of a chunk\<close>

definition nonempty :: "(string \<Rightarrow> llm_event) \<Rightarrow> string option \<Rightarrow> llm_event list" where
  "nonempty ev s = (case s of None \<Rightarrow> [] | Some t \<Rightarrow> if t = [] then [] else [ev t])"

definition call_event :: "wire_call_delta \<Rightarrow> llm_event" where
  "call_event c = ToolCallDelta (unat (wc_index c)) (wc_id c)
     (case wc_function c of None \<Rightarrow> None | Some f \<Rightarrow> wf_name f)
     (case wc_function c of None \<Rightarrow> None | Some f \<Rightarrow> wf_arguments f)"

definition delta_events :: "wire_delta \<Rightarrow> llm_event list" where
  "delta_events d = nonempty ThinkingDelta (wd_reasoning_content d) @ nonempty Delta (wd_content d) @
     (case wd_tool_calls d of None \<Rightarrow> [] | Some cs \<Rightarrow> map call_event cs)"

definition chunk_events :: "wire_chunk \<Rightarrow> llm_event list" where
  "chunk_events k =
     (case wk_usage k of None \<Rightarrow> [] | Some u \<Rightarrow> [Usage (prompt_tokens u) (completion_tokens u)]) @
     (case wk_choices k of
        [] \<Rightarrow> []
      | ch # _ \<Rightarrow> (case wch_delta ch of None \<Rightarrow> [] | Some d \<Rightarrow> delta_events d) @
          (case wch_finish_reason ch of None \<Rightarrow> [] | Some f \<Rightarrow> [Done (finish_from_str f)]))"

text \<open>A payload that does not parse emits nothing.\<close>

definition parse_chunk :: "(string \<Rightarrow> json option) \<Rightarrow> string \<Rightarrow> llm_event list" where
  "parse_chunk parse txt =
     (case parse txt of None \<Rightarrow> [] | Some j \<Rightarrow>
        (case wire_chunk_from j of None \<Rightarrow> [] | Some k \<Rightarrow> chunk_events k))"

definition openai_line :: "(string \<Rightarrow> json option) \<Rightarrow> unit line_step" where
  "openai_line parse s line =
     (if line = [] \<or> str_starts_with line '':'' then ([], Some s)
      else case data_payload line of
        None \<Rightarrow> ([], Some s)
      | Some txt \<Rightarrow>
          if txt = ''[DONE]'' then ([], None) else (parse_chunk parse txt, Some s))"

text \<open>The sources of an HTTP error are walked like those of any other.\<close>

definition format_reqwest_chain :: "anyhow_error \<Rightarrow> string" where
  "format_reqwest_chain e = format_error_chain e"

definition openai_pump :: "(string \<Rightarrow> json option) \<Rightarrow> chunk list \<Rightarrow> llm_event list" where
  "openai_pump parse = pump format_reqwest_chain (openai_line parse) () []"

section \<open>The request\<close>

text \<open>
  The serialized form of the borrowed wire structs: members in the order of the fields, those of
  absent options and of empty vectors left out. A 32-bit float is serialized by a parameter.
\<close>

definition opt_member :: "string \<Rightarrow> ('a \<Rightarrow> json) \<Rightarrow> 'a option \<Rightarrow> (string \<times> json) list" where
  "opt_member k f v = (case v of None \<Rightarrow> [] | Some a \<Rightarrow> [(k, f a)])"

definition vec_member :: "string \<Rightarrow> json list \<Rightarrow> (string \<times> json) list" where
  "vec_member k js = (if js = [] then [] else [(k, JArray js)])"

fun role_json :: "chat_role \<Rightarrow> json" where
  "role_json System = JString ''system''"
| "role_json User = JString ''user''"
| "role_json Assistant = JString ''assistant''"
| "role_json Tool = JString ''tool''"

definition wire_tool_call :: "tool_call \<Rightarrow> json" where
  "wire_tool_call c = JObject [(''id'', JString (call_id c)), (''type'', JString ''function''),
     (''function'', JObject [(''name'', JString (call_name c)), (''arguments'', JString (call_arguments c))])]"

definition wire_chat_message :: "chat_message \<Rightarrow> json" where
  "wire_chat_message m = JObject ([(''role'', role_json (msg_role m))] @
     opt_member ''content'' JString (msg_content m) @
     vec_member ''tool_calls'' (map wire_tool_call (msg_tool_calls m)) @
     opt_member ''tool_call_id'' JString (msg_tool_call_id m) @
     opt_member ''name'' JString (msg_name m))"

definition wire_tool :: "tool_def \<Rightarrow> json" where
  "wire_tool t = JObject [(''type'', JString ''function''),
     (''function'', JObject [(''name'', JString (td_name t)), (''description'', JString (td_description t)),
        (''parameters'', td_parameters t)])]"

definition budget_json :: "u32 \<Rightarrow> json" where
  "budget_json n = json_object [(''type'', JString ''enabled''), (''budget_tokens'', json_u32 n)]"

definition wire_request :: "(f32 \<Rightarrow> json) \<Rightarrow> llm_request \<Rightarrow> string \<Rightarrow> json" where
  "wire_request f32_json req default_model =
     (let tools = map wire_tool (req_tools req);
          (effort, thinking) = (case req_thinking req of
             Some (ReasoningEffort e) \<Rightarrow> (Some e, None)
           | Some (Budget n) \<Rightarrow> (None, Some (budget_json n))
           | Some (Adaptive _ _) \<Rightarrow> (None, None)
           | None \<Rightarrow> (None, None))
      in JObject
       ([(''model'', JString (if req_model req = [] then default_model else req_model req)),
         (''messages'', JArray (map wire_chat_message (req_messages req))), (''stream'', JBool True)] @
        vec_member ''tools'' tools @
        (if tools = [] then [] else [(''tool_choice'', JString ''auto'')]) @
        opt_member ''temperature'' f32_json (req_temperature req) @
        opt_member ''reasoning_effort'' JString
          (case req_reasoning_effort req of Some e \<Rightarrow> Some e | None \<Rightarrow> effort) @
        opt_member ''thinking'' (\<lambda>j. j) thinking))"

section \<open>The provider\<close>

text \<open>A request over HTTP and its response: the body is read as chunks, or as a text where it is an error.\<close>

record http_request =
  hr_url :: string
  hr_headers :: "(string \<times> string) list"
  hr_body :: json

record http_response =
  hp_status :: nat
  hp_status_text :: string
  hp_chunks :: "chunk list"
  hp_text :: "string option"

type_synonym 'w http = "http_request \<Rightarrow> 'w \<Rightarrow> (anyhow_error + http_response) \<times> 'w"

definition is_success :: "http_response \<Rightarrow> bool" where
  "is_success r \<longleftrightarrow> 200 \<le> hp_status r \<and> hp_status r < 300"

text \<open>What both clients do with a response.\<close>

definition answer_stream :: "string \<Rightarrow> (chunk list \<Rightarrow> llm_event list) \<Rightarrow> (anyhow_error + http_response) \<times> 'w
    \<Rightarrow> (anyhow_error + llm_event list) \<times> 'w" where
  "answer_stream nm run res = (case res of
     (Inl e, w) \<Rightarrow> (Inl e, w)
   | (Inr r, w) \<Rightarrow>
       (if is_success r then Inr (run (hp_chunks r))
        else Inl (nm @ '' http '' @ hp_status_text r @ '': '' @ (case hp_text r of None \<Rightarrow> [] | Some t \<Rightarrow> t), []), w))"

record openai_config =
  oc_base_url :: string
  oc_api_key :: "string option"
  oc_default_model :: string
  oc_copilot_mode :: bool

definition default_openai_config :: openai_config where
  "default_openai_config = \<lparr>oc_base_url = ''https://api.openai.com'', oc_api_key = None,
     oc_default_model = ''gpt-4o-mini'', oc_copilot_mode = False\<rparr>"

text \<open>\<^verbatim>\<open>trim_end_matches\<close> of a character and of a text: every one of them at the end is dropped.\<close>

definition trim_end :: "string \<Rightarrow> string \<Rightarrow> string" where
  "trim_end p s = rev (strip_front [rev p] (rev s))"

definition openai_url :: "openai_config \<Rightarrow> string" where
  "openai_url cfg =
     (let base = trim_end ''/v1'' (trim_end ''/'' (oc_base_url cfg))
      in if oc_copilot_mode cfg then base @ ''/chat/completions'' else base @ ''/v1/chat/completions'')"

definition openai_headers :: "openai_config \<Rightarrow> (string \<times> string) list" where
  "openai_headers cfg = [(''accept'', ''text/event-stream'')] @
     (case oc_api_key cfg of None \<Rightarrow> [] | Some k \<Rightarrow> [(''authorization'', ''Bearer '' @ k)]) @
     (if oc_copilot_mode cfg then
        [(''Editor-Version'', ''vscode/1.85.0''), (''Editor-Plugin-Version'', ''copilot-chat/0.12.0''),
         (''Copilot-Integration-Id'', ''vscode-chat''), (''User-Agent'', ''GitHubCopilotChat/0.12.0''),
         (''openai-intent'', ''conversation-panel'')]
      else [])"

definition openai_provider :: "openai_config \<Rightarrow> (f32 \<Rightarrow> json) \<Rightarrow> (string \<Rightarrow> json option) \<Rightarrow> 'w http \<Rightarrow> 'w provider" where
  "openai_provider cfg f32_json parse send req w =
     answer_stream ''openai'' (openai_pump parse)
       (send \<lparr>hr_url = openai_url cfg, hr_headers = openai_headers cfg,
          hr_body = wire_request f32_json req (oc_default_model cfg)\<rparr> w)"

end
