(* ===== verification/Anthropic.thy ===== *)
theory Anthropic
  imports OpenAi
begin

text \<open>
  The client of the Anthropic Messages API (\<^verbatim>\<open>llm/anthropic.rs\<close>): the translation of a request, the
  state machine over the server's events, and the provider. The parser of payloads and of tool
  arguments is the one of \<^verbatim>\<open>serde_json::Value\<close>.
\<close>

section \<open>The request\<close>

definition content_or :: "string option \<Rightarrow> string" where
  "content_or s = (case s of None \<Rightarrow> [] | Some t \<Rightarrow> t)"

definition text_message :: "string \<Rightarrow> string \<Rightarrow> json" where
  "text_message who t = json_object [(''role'', JString who),
     (''content'', JArray [json_object [(''type'', JString ''text''), (''text'', JString t)]])]"

definition tool_use_block :: "(string \<Rightarrow> json option) \<Rightarrow> tool_call \<Rightarrow> json" where
  "tool_use_block parse c = json_object [(''type'', JString ''tool_use''), (''id'', JString (call_id c)),
     (''name'', JString (call_name c)),
     (''input'', case parse (call_arguments c) of None \<Rightarrow> JNull | Some v \<Rightarrow> v)]"

definition translate_message :: "(string \<Rightarrow> json option) \<Rightarrow> chat_message \<Rightarrow> json list" where
  "translate_message parse m = (case msg_role m of
     System \<Rightarrow> []
   | User \<Rightarrow> [text_message ''user'' (content_or (msg_content m))]
   | Assistant \<Rightarrow>
       (if msg_tool_calls m \<noteq> [] then
          [json_object [(''role'', JString ''assistant''),
             (''content'', JArray (map (tool_use_block parse) (msg_tool_calls m)))]]
        else [text_message ''assistant'' (content_or (msg_content m))])
   | Tool \<Rightarrow> [json_object [(''role'', JString ''user''),
       (''content'', JArray [json_object [(''type'', JString ''tool_result''),
          (''tool_use_id'', JString (content_or (msg_tool_call_id m))),
          (''content'', JString (content_or (msg_content m)))]])]])"

definition translate_messages :: "(string \<Rightarrow> json option) \<Rightarrow> chat_message list \<Rightarrow> json list" where
  "translate_messages parse ms = concat (map (translate_message parse) ms)"

text \<open>\<^verbatim>\<open>find_map\<close> of the content of a system message: the first one that has a content.\<close>

fun system_text :: "chat_message list \<Rightarrow> string option" where
  "system_text [] = None"
| "system_text (m # ms) =
     (if msg_role m = System \<and> msg_content m \<noteq> None then msg_content m else system_text ms)"

definition anthropic_tool :: "tool_def \<Rightarrow> json" where
  "anthropic_tool t = json_object [(''name'', JString (td_name t)), (''description'', JString (td_description t)),
     (''input_schema'', td_parameters t)]"

text \<open>Assigning a member of an object.\<close>

fun json_put :: "string \<Rightarrow> json \<Rightarrow> json \<Rightarrow> json" where
  "json_put k v (JObject ms) = JObject (bt_put k v ms)"
| "json_put k v j = j"

definition thinking_members :: "thinking_config \<Rightarrow> json \<Rightarrow> json" where
  "thinking_members t body = (case t of
     Adaptive _ effort \<Rightarrow>
       (let b = json_put ''thinking'' (json_object [(''type'', JString ''adaptive''), (''display'', JString ''summarized'')]) body
        in case effort of None \<Rightarrow> b | Some e \<Rightarrow> json_put ''output_config'' (json_object [(''effort'', JString e)]) b)
   | Budget n \<Rightarrow> json_put ''thinking'' (budget_json n) body
   | ReasoningEffort _ \<Rightarrow> body)"

definition build_wire_request :: "(f32 \<Rightarrow> json) \<Rightarrow> (string \<Rightarrow> json option) \<Rightarrow> llm_request \<Rightarrow> string \<Rightarrow> u32 \<Rightarrow> json" where
  "build_wire_request f32_json parse req model max_tokens =
     (let tools = map anthropic_tool (req_tools req);
          b0 = json_object [(''model'', JString model), (''max_tokens'', json_u32 max_tokens),
                 (''stream'', JBool True), (''messages'', JArray (translate_messages parse (req_messages req)))];
          b1 = (case system_text (req_messages req) of None \<Rightarrow> b0 | Some s \<Rightarrow> json_put ''system'' (JString s) b0);
          b2 = (if tools = [] then b1
                else json_put ''tool_choice'' (json_object [(''type'', JString ''auto'')])
                       (json_put ''tools'' (JArray tools) b1));
          b3 = (case req_temperature req of None \<Rightarrow> b2 | Some t \<Rightarrow> json_put ''temperature'' (f32_json t) b2)
      in case req_thinking req of None \<Rightarrow> b3 | Some t \<Rightarrow> thinking_members t b3)"

section \<open>The events of the server\<close>

record accum_tool_use =
  au_id :: string
  au_name :: string
  au_input_json :: string
  au_index :: nat

datatype block_kind = TextBlock | ThinkingBlock | ToolUse nat | Redacted

record sse_state =
  block_kinds :: "(nat \<times> block_kind) list"
  tool_uses :: "(nat \<times> accum_tool_use) list"
  current_event :: string

definition new_sse_state :: sse_state where
  "new_sse_state = \<lparr>block_kinds = [], tool_uses = [], current_event = []\<rparr>"

text \<open>\<^verbatim>\<open>Value::pointer\<close> along names, and the readings of what it finds.\<close>

fun json_at :: "string list \<Rightarrow> json \<Rightarrow> json option" where
  "json_at [] j = Some j"
| "json_at (k # ks) j = (case json_get j k of None \<Rightarrow> None | Some v \<Rightarrow> json_at ks v)"

definition str_at :: "string list \<Rightarrow> string \<Rightarrow> json \<Rightarrow> string" where
  "str_at ks d j = (case json_at ks j of None \<Rightarrow> d | Some v \<Rightarrow> (case json_as_str v of None \<Rightarrow> d | Some s \<Rightarrow> s))"

definition u64_at :: "string list \<Rightarrow> json \<Rightarrow> u64 option" where
  "u64_at ks j = (case json_at ks j of None \<Rightarrow> None | Some v \<Rightarrow> json_as_u64 v)"

definition index_at :: "json \<Rightarrow> nat" where
  "index_at j = (case u64_at [''index''] j of None \<Rightarrow> 0 | Some n \<Rightarrow> unat n)"

definition positive :: "(u64 \<Rightarrow> llm_event) \<Rightarrow> u64 option \<Rightarrow> llm_event list" where
  "positive ev n = (case n of None \<Rightarrow> [] | Some k \<Rightarrow> if 0 < k then [ev k] else [])"

definition block_start :: "json \<Rightarrow> sse_state \<Rightarrow> sse_state" where
  "block_start v s =
     (let k = index_at v; ty = str_at [''content_block'', ''type''] [] v in
      if ty = ''tool_use'' then
        s\<lparr>tool_uses := bt_put k \<lparr>au_id = str_at [''content_block'', ''id''] [] v,
             au_name = str_at [''content_block'', ''name''] [] v, au_input_json = [], au_index = k\<rparr> (tool_uses s),
          block_kinds := bt_put k (ToolUse k) (block_kinds s)\<rparr>
      else s\<lparr>block_kinds := bt_put k
               (if ty = ''thinking'' then ThinkingBlock else if ty = ''redacted_thinking'' then Redacted else TextBlock)
               (block_kinds s)\<rparr>)"

definition input_delta :: "nat \<Rightarrow> string \<Rightarrow> sse_state \<Rightarrow> llm_event list \<times> sse_state" where
  "input_delta k partial s = (case map_of (tool_uses s) k of
     None \<Rightarrow> ([], s)
   | Some acc \<Rightarrow>
       (let acc' = acc\<lparr>au_input_json := au_input_json acc @ partial\<rparr>;
            is_first = length (au_input_json acc') = length partial
        in ([ToolCallDelta (au_index acc') (if is_first then Some (au_id acc') else None)
               (if is_first then Some (au_name acc') else None) (if partial = [] then None else Some partial)],
            s\<lparr>tool_uses := bt_put k acc' (tool_uses s)\<rparr>)))"

definition block_delta :: "json \<Rightarrow> sse_state \<Rightarrow> llm_event list \<times> sse_state" where
  "block_delta v s =
     (let ty = str_at [''delta'', ''type''] [] v in
      case map_of (block_kinds s) (index_at v) of
        Some ThinkingBlock \<Rightarrow>
          (if ty = ''thinking_delta'' then (nonempty ThinkingDelta (Some (str_at [''delta'', ''thinking''] [] v)), s) else ([], s))
      | Some TextBlock \<Rightarrow>
          (if ty = ''text_delta'' then (nonempty Delta (Some (str_at [''delta'', ''text''] [] v)), s) else ([], s))
      | Some (ToolUse k) \<Rightarrow>
          (if ty = ''input_json_delta'' then input_delta k (str_at [''delta'', ''partial_json''] [] v) s else ([], s))
      | _ \<Rightarrow> ([], s))"

definition block_stop :: "json \<Rightarrow> sse_state \<Rightarrow> sse_state" where
  "block_stop v s = s\<lparr>block_kinds := filter (\<lambda>(k, _). k \<noteq> index_at v) (block_kinds s)\<rparr>"

definition anthropic_finish :: "string \<Rightarrow> finish_reason" where
  "anthropic_finish s = (if s = ''end_turn'' then Stop else if s = ''tool_use'' then ToolCalls
     else if s = ''max_tokens'' then Length else Other s)"

text \<open>The events emitted, the state, and whether the stream is over; a payload that does not parse is skipped.\<close>

definition process_value :: "json \<Rightarrow> sse_state \<Rightarrow> llm_event list \<times> sse_state \<times> bool" where
  "process_value v s =
     (let kind = str_at [''type''] [] v in
      if kind = ''content_block_start'' then ([], block_start v s, False)
      else if kind = ''content_block_delta'' then (case block_delta v s of (es, s') \<Rightarrow> (es, s', False))
      else if kind = ''content_block_stop'' then ([], block_stop v s, False)
      else if kind = ''message_start'' then
        (positive (\<lambda>n. Usage n 0) (u64_at [''message'', ''usage'', ''input_tokens''] v), s, False)
      else if kind = ''message_delta'' then
        (positive (\<lambda>n. Usage 0 n) (u64_at [''usage'', ''output_tokens''] v) @
           [Done (anthropic_finish (str_at [''delta'', ''stop_reason''] ''end_turn'' v))], s, True)
      else if kind = ''message_stop'' then ([], s, True)
      else if kind = ''error'' then
        ([StreamError (str_at [''error'', ''message''] ''unknown anthropic error'' v)], s, True)
      else ([], s, False))"

definition process_sse_event :: "(string \<Rightarrow> json option) \<Rightarrow> string \<Rightarrow> sse_state \<Rightarrow> llm_event list \<times> sse_state \<times> bool" where
  "process_sse_event parse txt s = (case parse txt of None \<Rightarrow> ([], s, False) | Some v \<Rightarrow> process_value v s)"

definition anthropic_line :: "(string \<Rightarrow> json option) \<Rightarrow> sse_state line_step" where
  "anthropic_line parse s line =
     (if line = [] then ([], Some (s\<lparr>current_event := []\<rparr>))
      else if str_starts_with line '':'' then ([], Some s)
      else case strip_prefix ''event:'' line of
        Some nm \<Rightarrow> ([], Some (s\<lparr>current_event := str_trim nm\<rparr>))
      | None \<Rightarrow> (case data_payload line of
          None \<Rightarrow> ([], Some s)
        | Some txt \<Rightarrow> (case process_sse_event parse txt s of
            (es, s', over) \<Rightarrow> (es, if over then None else Some s'))))"

text \<open>An input error is displayed without its sources.\<close>

definition anthropic_pump :: "(string \<Rightarrow> json option) \<Rightarrow> chunk list \<Rightarrow> llm_event list" where
  "anthropic_pump parse = pump fst (anthropic_line parse) new_sse_state []"

section \<open>The provider\<close>

record anthropic_config =
  nc_base_url :: string
  nc_api_key :: "string option"
  nc_default_model :: string
  nc_beta_features :: "string list"
  nc_max_tokens :: u32

definition default_anthropic_config :: anthropic_config where
  "default_anthropic_config = \<lparr>nc_base_url = ''https://api.anthropic.com'', nc_api_key = None,
     nc_default_model = ''claude-3-5-sonnet-20241022'', nc_beta_features = [''interleaved-thinking-2025-05-14''],
     nc_max_tokens = 8192\<rparr>"

definition ANTHROPIC_API_VERSION :: string where
  "ANTHROPIC_API_VERSION = ''2023-06-01''"

definition anthropic_headers :: "anthropic_config \<Rightarrow> llm_request \<Rightarrow> (string \<times> string) list" where
  "anthropic_headers cfg req =
     [(''content-type'', ''application/json''), (''anthropic-version'', ANTHROPIC_API_VERSION),
      (''accept'', ''text/event-stream'')] @
     (case nc_api_key cfg of None \<Rightarrow> [] | Some k \<Rightarrow> [(''x-api-key'', k)]) @
     (if req_thinking req \<noteq> None \<and> nc_beta_features cfg \<noteq> []
      then [(''anthropic-beta'', str_join '','' (nc_beta_features cfg))] else [])"

definition anthropic_provider :: "anthropic_config \<Rightarrow> (f32 \<Rightarrow> json) \<Rightarrow> (string \<Rightarrow> json option) \<Rightarrow> 'w http \<Rightarrow> 'w provider" where
  "anthropic_provider cfg f32_json parse send req w =
     answer_stream ''anthropic'' (anthropic_pump parse)
       (send \<lparr>hr_url = trim_end ''/'' (nc_base_url cfg) @ ''/v1/messages'', hr_headers = anthropic_headers cfg req,
          hr_body = build_wire_request f32_json parse req
            (if req_model req = [] then nc_default_model cfg else req_model req) (nc_max_tokens cfg)\<rparr> w)"

end
