(* ===== verification/WireLogic.thy ===== *)
theory WireLogic
  imports Anthropic LoopThreads
begin

text \<open>
  What the two clients keep: the events do not depend on how a valid text is cut into chunks, and a
  stream in the format of the Messages API is reassembled into its blocks.
\<close>

section \<open>Chunks\<close>

lemma utf8_valid_concat: "list_all utf8_valid cs \<Longrightarrow> utf8_valid (concat cs)"
  by (induction cs) (simp_all add: utf8_valid_append)

lemma pump_cuts:
  assumes "list_all utf8_valid cs" and "list_all utf8_valid ds" and "concat cs = concat ds"
  shows "pump fmt h s [] (map Inr cs) = pump fmt h s [] (map Inr ds)"
  using assms by (simp add: pump_valid_chunks)

text \<open>A lead byte at the end of a chunk and a continuation at the start of the next.\<close>

definition two_byte_lead :: "char \<Rightarrow> bool" where
  "two_byte_lead c = between 0xC2 0xDF (of_char c)"

lemma lossy_lead: "two_byte_lead c \<Longrightarrow> utf8_lossy [c] = replacement_char"
  by (subst utf8_lossy.simps)
    (simp add: utf8_head_def two_byte_lead_def between_def byte_at_def continues_at_def)

lemma lossy_tail:
  assumes "utf8_continues c" and "utf8_valid s"
  shows "utf8_lossy (c # s) = replacement_char @ s"
  using assms utf8_lossy_valid [OF assms(2)]
  by (subst utf8_lossy.simps)
    (simp add: utf8_head_def between_def byte_at_def utf8_continues_def Let_def)

lemma pump_split_character:
  assumes "two_byte_lead x" and "utf8_continues y" and "utf8_valid a" and "utf8_valid b"
  shows "pump fmt h s [] [Inr (a @ [x]), Inr (y # b)] =
    fst (run_lines h s (fst (drain_lines (a @ replacement_char @ replacement_char @ b))))"
  using pump_chunks [of "[]" fmt h s "[a @ [x], y # b]"]
  by (simp add: utf8_lossy_append assms lossy_lead lossy_tail)

section \<open>Messages of a server\<close>

text \<open>The content of an answer: blocks with the pieces they are streamed in.\<close>

datatype content =
  TextContent "string list"
| ThinkingContent "string list"
| ToolContent string string "string list"
| RedactedContent "string list"

definition block_json :: "string \<Rightarrow> nat \<Rightarrow> (string \<times> json) list \<Rightarrow> json" where
  "block_json ty k ms = JObject ([(''type'', JString ty), (''index'', json_u64 (of_nat k))] @ ms)"

fun start_json :: "nat \<Rightarrow> content \<Rightarrow> json" where
  "start_json k (TextContent _) = block_json ''content_block_start'' k
     [(''content_block'', JObject [(''type'', JString ''text''), (''text'', JString [])])]"
| "start_json k (ThinkingContent _) = block_json ''content_block_start'' k
     [(''content_block'', JObject [(''type'', JString ''thinking''), (''thinking'', JString [])])]"
| "start_json k (ToolContent i n _) = block_json ''content_block_start'' k
     [(''content_block'', JObject [(''type'', JString ''tool_use''), (''id'', JString i), (''name'', JString n),
        (''input'', JObject [])])]"
| "start_json k (RedactedContent _) = block_json ''content_block_start'' k
     [(''content_block'', JObject [(''type'', JString ''redacted_thinking'')])]"

definition delta_json :: "nat \<Rightarrow> string \<Rightarrow> string \<Rightarrow> string \<Rightarrow> json" where
  "delta_json k ty fld p = block_json ''content_block_delta'' k
     [(''delta'', JObject [(''type'', JString ty), (fld, JString p)])]"

fun pieces_json :: "nat \<Rightarrow> content \<Rightarrow> json list" where
  "pieces_json k (TextContent ps) = map (delta_json k ''text_delta'' ''text'') ps"
| "pieces_json k (ThinkingContent ps) = map (delta_json k ''thinking_delta'' ''thinking'') ps"
| "pieces_json k (ToolContent _ _ ps) = map (delta_json k ''input_json_delta'' ''partial_json'') ps"
| "pieces_json k (RedactedContent ps) = map (delta_json k ''redacted_thinking_delta'' ''data'') ps"

definition stop_json :: "nat \<Rightarrow> json" where
  "stop_json k = block_json ''content_block_stop'' k []"

definition block_messages :: "nat \<times> content \<Rightarrow> json list" where
  "block_messages b = [start_json (fst b) (snd b)] @ pieces_json (fst b) (snd b) @ [stop_json (fst b)]"

definition message_start_json :: "u64 \<Rightarrow> json" where
  "message_start_json n = JObject [(''type'', JString ''message_start''),
     (''message'', JObject [(''usage'', JObject [(''input_tokens'', json_u64 n), (''output_tokens'', json_u64 0)])])]"

definition message_delta_json :: "string \<Rightarrow> u64 \<Rightarrow> json" where
  "message_delta_json reason n = JObject [(''type'', JString ''message_delta''),
     (''delta'', JObject [(''stop_reason'', JString reason)]),
     (''usage'', JObject [(''output_tokens'', json_u64 n)])]"

definition message_stop_json :: json where
  "message_stop_json = JObject [(''type'', JString ''message_stop'')]"

definition answer_messages :: "u64 \<Rightarrow> (nat \<times> content) list \<Rightarrow> string \<Rightarrow> u64 \<Rightarrow> json list" where
  "answer_messages ins bs reason outs = [message_start_json ins] @ concat (map block_messages bs) @
     [message_delta_json reason outs, message_stop_json]"

text \<open>The text of a stream: an \<^verbatim>\<open>event:\<close> line, a \<^verbatim>\<open>data:\<close> line and a blank line for each message.\<close>

definition message_lines :: "(json \<Rightarrow> string) \<Rightarrow> json \<Rightarrow> string list" where
  "message_lines show_json v = [''event: '' @ str_at [''type''] [] v, ''data: '' @ show_json v, []]"

definition stream_text :: "(json \<Rightarrow> string) \<Rightarrow> json list \<Rightarrow> string" where
  "stream_text show_json vs = concat (map (\<lambda>l. l @ [CHR 0x0A]) (concat (map (message_lines show_json) vs)))"

text \<open>
  What the printer and the parser promise for a message: the compact text of an object is between
  braces, has no line feed, and parses to the object.
\<close>

definition printed :: "(json \<Rightarrow> string) \<Rightarrow> (string \<Rightarrow> json option) \<Rightarrow> json \<Rightarrow> bool" where
  "printed show_json parse v \<longleftrightarrow> parse (show_json v) = Some v \<and> CHR 0x0A \<notin> set (show_json v) \<and>
     (\<exists>m. show_json v = CHR ''{'' # m @ [CHR ''}''])"

fun serve :: "json list \<Rightarrow> sse_state \<Rightarrow> llm_event list \<times> sse_state option" where
  "serve [] s = ([], Some s)"
| "serve (v # vs) s = (case process_value v s of (es, s', over) \<Rightarrow>
     if over then (es, None) else (case serve vs s' of (es', r) \<Rightarrow> (es @ es', r)))"

text \<open>The name of the current event is only logged.\<close>

lemma block_event [simp]:
  "block_start v (s\<lparr>current_event := e\<rparr>) = (block_start v s)\<lparr>current_event := e\<rparr>"
  "block_stop v (s\<lparr>current_event := e\<rparr>) = (block_stop v s)\<lparr>current_event := e\<rparr>"
  "block_delta v (s\<lparr>current_event := e\<rparr>) = (case block_delta v s of (es, s') \<Rightarrow> (es, s'\<lparr>current_event := e\<rparr>))"
  by (simp_all add: block_start_def block_stop_def block_delta_def input_delta_def Let_def
      split: option.split block_kind.split)

lemma process_value_event:
  "process_value v (s\<lparr>current_event := e\<rparr>) =
     (case process_value v s of (es, s', over) \<Rightarrow> (es, s'\<lparr>current_event := e\<rparr>, over))"
  by (simp add: process_value_def Let_def split: prod.split)

lemma block_keeps_event [simp]:
  "current_event (block_start v s) = current_event s" "current_event (block_stop v s) = current_event s"
  by (simp_all add: block_start_def block_stop_def Let_def)

lemma block_delta_keeps_event: "block_delta v s = (es, s') \<Longrightarrow> current_event s' = current_event s"
  by (auto simp: block_delta_def input_delta_def Let_def split: option.splits block_kind.splits if_splits)

lemma process_value_keeps_event: "process_value v s = (es, s', over) \<Longrightarrow> current_event s' = current_event s"
  by (auto simp: process_value_def Let_def block_delta_keeps_event split: if_splits prod.splits)

lemma data_payload_message:
  assumes "printed show_json parse v"
  shows "data_payload (''data: '' @ show_json v) = Some (show_json v)"
    and "trim_line_end (''data: '' @ show_json v @ [CHR 0x0A]) = ''data: '' @ show_json v"
proof -
  from assms obtain m where m: "show_json v = CHR ''{'' # m @ [CHR ''}'']" by (auto simp: printed_def)
  have "str_trim_start (show_json v) = show_json v"
    unfolding str_trim_start_def m
    by (rule strip_front_none) (simp add: white_space_ascii_def white_space_wide_def)
  then show "data_payload (''data: '' @ show_json v) = Some (show_json v)"
    by (simp add: data_payload_def strip_prefix_def)
  show "trim_line_end (''data: '' @ show_json v @ [CHR 0x0A]) = ''data: '' @ show_json v"
    by (simp add: trim_line_end_def m)
qed

lemma trim_line_end_prefix: "c \<noteq> CHR 0x0D \<Longrightarrow> c \<noteq> CHR 0x0A \<Longrightarrow> \<exists>r. trim_line_end (a @ c # b) = a @ c # r"
  by (auto simp: trim_line_end_def dropWhile_append)

lemma event_line:
  "anthropic_line parse s (trim_line_end (''event: '' @ ty @ [CHR 0x0A])) = ([], Some (s\<lparr>current_event := e\<rparr>))"
  if "e = str_trim (drop 6 (trim_line_end (''event: '' @ ty @ [CHR 0x0A])))"
proof -
  obtain r where r: "trim_line_end (''event:'' @ CHR '' '' # ty @ [CHR 0x0A]) = ''event:'' @ CHR '' '' # r"
    using trim_line_end_prefix [of "CHR '' ''" "''event:''" "ty @ [CHR 0x0A]"] by auto
  then have "trim_line_end (''event: '' @ ty @ [CHR 0x0A]) = ''event: '' @ r" by simp
  with that show ?thesis by (simp add: anthropic_line_def strip_prefix_def)
qed

definition trimmed :: "string \<Rightarrow> string" where
  "trimmed l = trim_line_end (l @ [CHR 0x0A])"

lemma run_message:
  assumes "printed show_json parse v" and "current_event s = []"
  shows "run_lines (anthropic_line parse) s (map trimmed (message_lines show_json v) @ ls) =
    (case process_value v s of (es, s', over) \<Rightarrow>
       if over then (es, None)
       else (case run_lines (anthropic_line parse) s' ls of (es', r) \<Rightarrow> (es @ es', r)))"
proof -
  define e where "e = str_trim (drop 6 (trim_line_end (''event: '' @ str_at [''type''] [] v @ [CHR 0x0A])))"
  obtain es s' over where pv: "process_value v s = (es, s', over)" by (cases "process_value v s")
  have s': "s'\<lparr>current_event := []\<rparr> = s'"
    using process_value_keeps_event [OF pv] assms(2) by simp
  have "process_sse_event parse (show_json v) (s\<lparr>current_event := e\<rparr>) = (es, s'\<lparr>current_event := e\<rparr>, over)"
    using assms(1) pv by (simp add: process_sse_event_def printed_def process_value_event)
  then have data: "anthropic_line parse (s\<lparr>current_event := e\<rparr>) (trimmed (''data: '' @ show_json v)) =
      (es, if over then None else Some (s'\<lparr>current_event := e\<rparr>))"
    using data_payload_message [OF assms(1)]
    by (simp add: anthropic_line_def trimmed_def strip_prefix_def split: prod.split)
  have blank: "anthropic_line parse (s'\<lparr>current_event := e\<rparr>) (trimmed []) = ([], Some s')"
    using s' by (simp add: anthropic_line_def trimmed_def trim_line_end_def)
  have event: "anthropic_line parse s (trimmed (''event: '' @ str_at [''type''] [] v)) = ([], Some (s\<lparr>current_event := e\<rparr>))"
    using event_line [OF e_def] by (simp add: trimmed_def)
  define A B where "A = trimmed (''event: '' @ str_at [''type''] [] v)" and "B = trimmed (''data: '' @ show_json v)"
  have "map trimmed (message_lines show_json v) = [A, B, trimmed []]"
    by (simp only: A_def B_def message_lines_def list.map)
  then show ?thesis
    using data blank event pv unfolding A_def [symmetric] B_def [symmetric] by (simp split: prod.split)
qed

lemma run_messages:
  assumes "list_all (printed show_json parse) vs" and "current_event s = []"
  shows "fst (run_lines (anthropic_line parse) s (map trimmed (concat (map (message_lines show_json) vs)))) = fst (serve vs s)"
  using assms
proof (induction vs arbitrary: s)
  case (Cons v vs)
  obtain es s' over where pv: "process_value v s = (es, s', over)" by (cases "process_value v s")
  with Cons.prems(2) have "current_event s' = []" by (simp add: process_value_keeps_event)
  with Cons have "fst (run_lines (anthropic_line parse) s' (map trimmed (concat (map (message_lines show_json) vs)))) = fst (serve vs s')"
    by simp
  with Cons.prems pv show ?case
    by (cases "run_lines (anthropic_line parse) s' (map trimmed (concat (map (message_lines show_json) vs)))"; cases "serve vs s'")
      (simp add: run_message)
qed simp

lemma pump_stream_text:
  assumes "list_all (printed show_json parse) vs" and "list_all (\<lambda>v. CHR 0x0A \<notin> set (str_at [''type''] [] v)) vs"
    and "list_all utf8_valid cs" and "concat cs = stream_text show_json vs"
  shows "anthropic_pump parse (map Inr cs) = fst (serve vs new_sse_state)"
proof -
  have "list_all (\<lambda>l. CHR 0x0A \<notin> set l) (concat (map (message_lines show_json) vs))"
    using assms(1,2) by (induction vs) (auto simp: message_lines_def printed_def)
  then have "fst (drain_lines (concat cs)) = map trimmed (concat (map (message_lines show_json) vs))"
    unfolding assms(4) stream_text_def by (simp add: drain_text trimmed_def [abs_def])
  moreover have "current_event new_sse_state = []" by (simp add: new_sse_state_def)
  ultimately show ?thesis
    using assms(1,3) by (simp add: anthropic_pump_def pump_valid_chunks run_messages)
qed

section \<open>Blocks\<close>

lemma serve_append:
  "serve (vs @ vs') s = (case serve vs s of (es, None) \<Rightarrow> (es, None)
     | (es, Some s') \<Rightarrow> (case serve vs' s' of (es', r) \<Rightarrow> (es @ es', r)))"
  by (induction vs arbitrary: s) (auto split: prod.splits option.splits)

fun input_events :: "nat \<Rightarrow> string \<Rightarrow> string \<Rightarrow> string \<Rightarrow> string list \<Rightarrow> llm_event list" where
  "input_events k i n sofar [] = []"
| "input_events k i n sofar (p # ps) =
     ToolCallDelta k (if sofar = [] then Some i else None) (if sofar = [] then Some n else None)
       (if p = [] then None else Some p) # input_events k i n (sofar @ p) ps"

fun block_events :: "nat \<Rightarrow> content \<Rightarrow> llm_event list" where
  "block_events k (TextContent ps) = map Delta (filter (\<lambda>p. p \<noteq> []) ps)"
| "block_events k (ThinkingContent ps) = map ThinkingDelta (filter (\<lambda>p. p \<noteq> []) ps)"
| "block_events k (ToolContent i n ps) = input_events k i n [] ps"
| "block_events k (RedactedContent ps) = []"

lemmas message_simps = process_value_def str_at_def u64_at_def index_at_def block_json_def json_u64_def

lemma index_u64: "k < 2 ^ 64 \<Longrightarrow> unat (of_nat k :: u64) = k"
  by (simp add: unat_of_nat take_bit_nat_eq_self)

lemma process_start: "k < 2 ^ 64 \<Longrightarrow> process_value (start_json k c) s = ([], block_start (start_json k c) s, False)"
  by (cases c) (simp_all add: message_simps)

lemma process_stop: "process_value (stop_json k) s = ([], block_stop (stop_json k) s, False)"
  by (simp add: message_simps stop_json_def)

lemma process_delta:
  "process_value (delta_json k ty fld p) s = (case block_delta (delta_json k ty fld p) s of (es, s') \<Rightarrow> (es, s', False))"
  by (simp add: message_simps delta_json_def)

lemma delta_fields:
  "k < 2 ^ 64 \<Longrightarrow> index_at (delta_json k ty fld p) = k"
  "str_at [''delta'', ''type''] [] (delta_json k ty fld p) = ty"
  "fld \<noteq> ''type'' \<Longrightarrow> str_at [''delta'', fld] [] (delta_json k ty fld p) = p"
  by (simp_all add: message_simps delta_json_def index_u64)

lemma serve_text:
  assumes "k < 2 ^ 64" and "map_of (block_kinds s) k = Some TextBlock"
  shows "serve (map (delta_json k ''text_delta'' ''text'') ps) s = (map Delta (filter (\<lambda>p. p \<noteq> []) ps), Some s)"
  using assms by (induction ps) (simp_all add: process_delta block_delta_def delta_fields nonempty_def)

lemma serve_thinking:
  assumes "k < 2 ^ 64" and "map_of (block_kinds s) k = Some ThinkingBlock"
  shows "serve (map (delta_json k ''thinking_delta'' ''thinking'') ps) s = (map ThinkingDelta (filter (\<lambda>p. p \<noteq> []) ps), Some s)"
  using assms by (induction ps) (simp_all add: process_delta block_delta_def delta_fields nonempty_def)

lemma serve_redacted:
  assumes "k < 2 ^ 64" and "map_of (block_kinds s) k = Some Redacted"
  shows "serve (map (delta_json k ''redacted_thinking_delta'' ''data'') ps) s = ([], Some s)"
  using assms by (induction ps) (simp_all add: process_delta block_delta_def delta_fields)

lemma serve_input:
  assumes "k < 2 ^ 64" and "map_of (block_kinds s) k = Some (ToolUse k)"
    and "map_of (tool_uses s) k = Some \<lparr>au_id = i, au_name = n, au_input_json = sofar, au_index = k\<rparr>"
  shows "\<exists>s'. serve (map (delta_json k ''input_json_delta'' ''partial_json'') ps) s = (input_events k i n sofar ps, Some s')"
  using assms
proof (induction ps arbitrary: s sofar)
  case (Cons p ps)
  let ?s = "s\<lparr>tool_uses := bt_put k \<lparr>au_id = i, au_name = n, au_input_json = sofar @ p, au_index = k\<rparr> (tool_uses s)\<rparr>"
  have "process_value (delta_json k ''input_json_delta'' ''partial_json'' p) s =
      (input_events k i n sofar [p], ?s, False)"
    using Cons.prems by (simp add: process_delta block_delta_def delta_fields input_delta_def)
  moreover obtain s' where "serve (map (delta_json k ''input_json_delta'' ''partial_json'') ps) ?s =
      (input_events k i n (sofar @ p) ps, Some s')"
    using Cons.IH [of ?s "sofar @ p"] Cons.prems by (auto simp: map_of_bt_put)
  ultimately show ?case by simp
qed simp

lemma serve_block: "k < 2 ^ 64 \<Longrightarrow> \<exists>s'. serve (block_messages (k, c)) s = (block_events k c, Some s')"
proof -
  assume k: "k < 2 ^ 64"
  let ?s = "block_start (start_json k c) s"
  have kind: "map_of (block_kinds ?s) k = Some (case c of TextContent _ \<Rightarrow> TextBlock
      | ThinkingContent _ \<Rightarrow> ThinkingBlock | ToolContent _ _ _ \<Rightarrow> ToolUse k | RedactedContent _ \<Rightarrow> Redacted)"
    using k by (cases c) (simp_all add: block_start_def message_simps map_of_bt_put index_u64)
  have use: "c = ToolContent i n ps \<Longrightarrow> map_of (tool_uses ?s) k = Some \<lparr>au_id = i, au_name = n, au_input_json = [], au_index = k\<rparr>"
    for i n ps using k by (simp add: block_start_def message_simps map_of_bt_put index_u64)
  have "\<exists>s'. serve (pieces_json k c) ?s = (block_events k c, Some s')"
    using k kind serve_input [OF k _ use]
    by (cases c) (simp_all add: serve_text serve_thinking serve_redacted)
  then show ?thesis
    using k by (auto simp: block_messages_def serve_append process_start process_stop)
qed

lemma serve_blocks:
  "list_all (\<lambda>b. fst b < 2 ^ 64) bs \<Longrightarrow>
     \<exists>s'. serve (concat (map block_messages bs)) s = (concat (map (\<lambda>b. block_events (fst b) (snd b)) bs), Some s')"
proof (induction bs arbitrary: s)
  case (Cons b bs)
  obtain k c where b: "b = (k, c)" by fastforce
  with Cons.prems obtain s1 where s1: "serve (block_messages b) s = (block_events k c, Some s1)"
    using serve_block [of k c s] by auto
  from Cons obtain s2 where "serve (concat (map block_messages bs)) s1 =
      (concat (map (\<lambda>b. block_events (fst b) (snd b)) bs), Some s2)" by fastforce
  with s1 b show ?case by (simp add: serve_append)
qed simp

text \<open>What a block adds to the accumulated turn of the loop.\<close>

fun absorb :: "nat \<times> content \<Rightarrow> turn_acc \<Rightarrow> turn_acc" where
  "absorb (k, TextContent ps) acc = acc\<lparr>ta_text := ta_text acc @ concat ps\<rparr>"
| "absorb (k, ThinkingContent ps) acc = acc\<lparr>ta_thinking := ta_thinking acc @ concat ps\<rparr>"
| "absorb (k, ToolContent i n ps) acc =
     (if ps = [] then acc
      else acc\<lparr>ta_calls := ta_calls acc @ [(k, \<lparr>ac_id = i, ac_name = n, ac_arguments = concat ps\<rparr>)]\<rparr>)"
| "absorb (k, RedactedContent ps) acc = acc"

lemma bt_put_last: "\<forall>b \<in> set m. fst b < k \<Longrightarrow> bt_put k v (m @ [(k, v')]) = m @ [(k, v)]"
  by (induction m) auto

lemma stream_texts:
  "stream_acc (map Delta ps @ es) acc = stream_acc es (acc\<lparr>ta_text := ta_text acc @ concat ps\<rparr>)"
  "stream_acc (map ThinkingDelta ps @ es) acc = stream_acc es (acc\<lparr>ta_thinking := ta_thinking acc @ concat ps\<rparr>)"
  by (induction ps arbitrary: acc) simp_all

lemma concat_nonempty: "concat (filter (\<lambda>p. p \<noteq> []) ps) = concat ps"
  by (induction ps) simp_all

lemma map_of_last: "\<forall>b \<in> set m. fst b < k \<Longrightarrow> map_of (m @ [(k :: nat, v)]) k = Some v"
  by (induction m) auto

lemma stream_input_more:
  assumes "\<forall>b \<in> set cs. fst b < k"
  shows "stream_acc (input_events k i n sofar ps @ es)
      (acc\<lparr>ta_calls := cs @ [(k, \<lparr>ac_id = i, ac_name = n, ac_arguments = sofar\<rparr>)]\<rparr>) =
    stream_acc es (acc\<lparr>ta_calls := cs @ [(k, \<lparr>ac_id = i, ac_name = n, ac_arguments = sofar @ concat ps\<rparr>)]\<rparr>)"
proof (induction ps arbitrary: sofar)
  case (Cons p ps)
  have "add_call_delta k (if sofar = [] then Some i else None) (if sofar = [] then Some n else None)
      (if p = [] then None else Some p) (cs @ [(k, \<lparr>ac_id = i, ac_name = n, ac_arguments = sofar\<rparr>)]) =
      cs @ [(k, \<lparr>ac_id = i, ac_name = n, ac_arguments = sofar @ p\<rparr>)]"
    using assms unfolding add_call_delta_def map_of_last [OF assms] by (simp add: bt_put_last overwrite_def Let_def)
  with Cons.IH [of "sofar @ p"] show ?case by simp
qed simp

lemma stream_input:
  assumes "\<forall>b \<in> set (ta_calls acc). fst b < k"
  shows "stream_acc (input_events k i n [] ps @ es) acc = stream_acc es (absorb (k, ToolContent i n ps) acc)"
proof (cases ps)
  case (Cons p ps')
  have "map_of (ta_calls acc) k = None"
    using assms by (metis fst_conv image_iff map_of_eq_None_iff order_less_irrefl)
  then have "add_call_delta k (Some i) (Some n) (if p = [] then None else Some p) (ta_calls acc) =
      ta_calls acc @ [(k, \<lparr>ac_id = i, ac_name = n, ac_arguments = p\<rparr>)]"
    using assms by (simp add: add_call_delta_def bt_put_end overwrite_def Let_def)
  then show ?thesis
    using Cons stream_input_more [OF assms, of i n p ps' es acc] by simp
qed simp

lemma stream_block:
  "\<forall>b \<in> set (ta_calls acc). fst b < k \<Longrightarrow> stream_acc (block_events k c @ es) acc = stream_acc es (absorb (k, c) acc)"
  by (cases c) (simp_all add: stream_texts concat_nonempty stream_input del: absorb.simps(3))

lemma absorb_keys: "set (ta_calls (absorb (k, c) acc)) \<subseteq> insert k (fst ` set (ta_calls acc)) \<times> UNIV"
  by (cases c) (auto intro: rev_image_eqI)

lemma stream_blocks:
  assumes "sorted_wrt (<) (map fst bs)" and "\<forall>b \<in> set (ta_calls acc). \<forall>b' \<in> set bs. fst b < fst b'"
  shows "stream_acc (concat (map (\<lambda>b. block_events (fst b) (snd b)) bs) @ es) acc = stream_acc es (fold absorb bs acc)"
  using assms
proof (induction bs arbitrary: acc)
  case (Cons b bs)
  obtain k c where b: "b = (k, c)" by fastforce
  have "\<forall>x \<in> set (ta_calls (absorb b acc)). \<forall>b' \<in> set bs. fst x < fst b'"
  proof (intro ballI)
    fix x b' assume x: "x \<in> set (ta_calls (absorb b acc))" and b': "b' \<in> set bs"
    from x absorb_keys [of k c acc] b have "fst x = k \<or> (\<exists>y \<in> set (ta_calls acc). fst y = fst x)" by fastforce
    with Cons.prems b b' show "fst x < fst b'" by fastforce
  qed
  with Cons b show ?case by (simp add: stream_block)
qed simp

end
