(* ===== verification/WireProps.thy ===== *)
theory WireProps
  imports WireLogic Compaction
begin

text \<open>
  The properties of the clients of the language models, each with a concrete instance where it has
  hypotheses.
\<close>

section \<open>Chunks\<close>

text \<open>
  (C19) How a response is cut into chunks does not matter, as long as no character is cut: both
  clients emit the same events for every division of the same text.
\<close>

theorem chunk_cuts_do_not_matter:
  assumes "list_all utf8_valid cs" and "list_all utf8_valid ds" and "concat cs = concat ds"
  shows "openai_pump parse (map Inr cs) = openai_pump parse (map Inr ds) \<and>
    anthropic_pump vparse (map Inr cs) = anthropic_pump vparse (map Inr ds)"
  using assms by (simp add: openai_pump_def anthropic_pump_def pump_cuts [OF assms])

definition hello_parse :: "string \<Rightarrow> json option" where
  "hello_parse s = (if s = ''{}'' then Some (JObject [(''usage'', JObject [(''prompt_tokens'', json_u64 3), (''completion_tokens'', json_u64 4)])])
     else if str_starts_with s ''{'' then Some (JObject [(''choices'', JArray [JObject [(''delta'', JObject [(''content'', JString (tl s))])]])])
     else None)"

theorem chunk_cuts_do_not_matter_witness:
  "let cs = [''data: {}'' @ [CHR 0x0A], ''data: {hi'' @ [CHR 0x0A]];
       ds = [''da'', ''ta: {}'' @ [CHR 0x0A] @ ''data:'', '' {hi'', [CHR 0x0A]]
   in openai_pump hello_parse (map Inr cs) = [Usage 3 4, Delta ''hi''] \<and>
      openai_pump hello_parse (map Inr ds) = [Usage 3 4, Delta ''hi'']"
proof -
  let ?cs = "[''data: {}'' @ [CHR 0x0A], ''data: {hi'' @ [CHR 0x0A]]"
  let ?ds = "[''da'', ''ta: {}'' @ [CHR 0x0A] @ ''data:'', '' {hi'', [CHR 0x0A]]"
  have v: "list_all utf8_valid ?cs" "list_all utf8_valid ?ds"
    by (simp_all add: utf8_valid_ascii)
  have c: "concat ?cs = concat ?ds" by simp
  have e: "openai_pump hello_parse (map Inr ?cs) = [Usage 3 4, Delta ''hi'']" by code_simp
  show ?thesis
    using chunk_cuts_do_not_matter [OF v c, of hello_parse hello_parse] e by (simp only: Let_def)
qed

lemma pump_lost:
  assumes "two_byte_lead x" and "utf8_continues y" and "utf8_valid a" and "utf8_valid b"
  shows "pump fmt h s [] [Inr (a @ [x]), Inr (y # b)] =
    pump fmt h s [] [Inr (a @ replacement_char @ replacement_char @ b)]"
proof -
  have r: "utf8_valid replacement_char" by code_simp
  have "utf8_valid (a @ replacement_char @ replacement_char @ b)"
    by (intro utf8_valid_append r assms(3,4))
  then have v: "list_all utf8_valid [a @ replacement_char @ replacement_char @ b]" by simp
  show ?thesis
    using pump_valid_chunks [OF v, of fmt h s] pump_split_character [OF assms, of fmt h s] by (simp del: pump.simps)
qed

text \<open>
  A character of two bytes that falls on a chunk boundary is lost: each half is decoded alone,
  and the client reads two replacement characters in its place.
\<close>

theorem split_character_is_lost:
  assumes "two_byte_lead x" and "utf8_continues y" and "utf8_valid a" and "utf8_valid b"
  shows "openai_pump parse [Inr (a @ [x]), Inr (y # b)] =
      openai_pump parse [Inr (a @ replacement_char @ replacement_char @ b)] \<and>
    anthropic_pump vparse [Inr (a @ [x]), Inr (y # b)] =
      anthropic_pump vparse [Inr (a @ replacement_char @ replacement_char @ b)]"
  by (simp add: openai_pump_def anthropic_pump_def pump_lost [OF assms] del: pump.simps)

theorem split_character_is_lost_witness:
  "let a = ''data: {caf''; b = [CHR 0x0A] in
   openai_pump hello_parse [Inr (a @ [CHR 0xC3]), Inr (CHR 0xA9 # b)] = [Delta (''caf'' @ replacement_char @ replacement_char)] \<and>
   openai_pump hello_parse [Inr (a @ [CHR 0xC3, CHR 0xA9] @ b)] = [Delta (''caf'' @ [CHR 0xC3, CHR 0xA9])]"
proof -
  let ?a = "''data: {caf''" and ?b = "[CHR 0x0A]"
  have h: "two_byte_lead (CHR 0xC3)" "utf8_continues (CHR 0xA9)" "utf8_valid ?a" "utf8_valid ?b" by code_simp+
  have e: "openai_pump hello_parse [Inr (?a @ replacement_char @ replacement_char @ ?b)] = [Delta (''caf'' @ replacement_char @ replacement_char)]"
    "openai_pump hello_parse [Inr (?a @ [CHR 0xC3, CHR 0xA9] @ ?b)] = [Delta (''caf'' @ [CHR 0xC3, CHR 0xA9])]" by code_simp+
  show ?thesis
    using split_character_is_lost [OF h, of hello_parse hello_parse] e by (simp only: Let_def)
qed

section \<open>Streams of the Messages API\<close>

fun block_text :: "content \<Rightarrow> string" where
  "block_text (TextContent ps) = concat ps"
| "block_text _ = []"

fun block_thinking :: "content \<Rightarrow> string" where
  "block_thinking (ThinkingContent ps) = concat ps"
| "block_thinking _ = []"

fun block_calls :: "content \<Rightarrow> tool_call list" where
  "block_calls (ToolContent i n ps) =
     (if ps = [] then [] else [\<lparr>call_id = i, call_name = n, call_arguments = concat ps\<rparr>])"
| "block_calls _ = []"

lemma absorbed:
  "ta_text (fold absorb bs acc) = ta_text acc @ concat (map (block_text \<circ> snd) bs) \<and>
   ta_thinking (fold absorb bs acc) = ta_thinking acc @ concat (map (block_thinking \<circ> snd) bs) \<and>
   finished_calls (fold absorb bs acc) = finished_calls acc @ concat (map (block_calls \<circ> snd) bs) \<and>
   ta_usage (fold absorb bs acc) = ta_usage acc"
proof (induction bs arbitrary: acc)
  case (Cons b bs)
  obtain k c where b: "b = (k, c)" by fastforce
  show ?case using Cons.IH [of "absorb b acc"] b by (cases c) (simp_all add: finished_calls_def)
qed simp

lemma answer_types: "list_all (\<lambda>v. CHR 0x0A \<notin> set (str_at [''type''] [] v)) (answer_messages ins bs reason outs)"
proof -
  have start: "str_at [''type''] [] (start_json k c) = ''content_block_start''" for k c
    by (cases c) (simp_all add: message_simps)
  have pieces: "v \<in> set (pieces_json k c) \<Longrightarrow> str_at [''type''] [] v = ''content_block_delta''" for v k c
    by (cases c) (auto simp: message_simps delta_json_def)
  have "v \<in> set (block_messages b) \<Longrightarrow> CHR 0x0A \<notin> set (str_at [''type''] [] v)" for v b
    by (auto simp: block_messages_def start pieces stop_json_def) (simp add: message_simps)
  then show ?thesis
    by (auto simp: answer_messages_def list_all_iff)
      (simp_all add: message_start_json_def message_delta_json_def message_stop_json_def message_simps)
qed

lemma serve_answer:
  assumes "list_all (\<lambda>b. fst b < 2 ^ 64) bs"
  shows "fst (serve (answer_messages ins bs reason outs) s) =
    positive (\<lambda>n. Usage n 0) (Some ins) @ concat (map (\<lambda>b. block_events (fst b) (snd b)) bs) @
    positive (\<lambda>n. Usage 0 n) (Some outs) @ [Done (anthropic_finish reason)]"
proof -
  obtain s1 where s1: "serve (concat (map block_messages bs)) s = (concat (map (\<lambda>b. block_events (fst b) (snd b)) bs), Some s1)"
    using serve_blocks [OF assms] by blast
  have first: "process_value (message_start_json ins) s = (positive (\<lambda>n. Usage n 0) (Some ins), s, False)"
    and last: "process_value (message_delta_json reason outs) t =
      (positive (\<lambda>n. Usage 0 n) (Some outs) @ [Done (anthropic_finish reason)], t, True)" for t
    by (simp_all add: message_simps message_start_json_def message_delta_json_def)
  show ?thesis by (simp add: answer_messages_def serve_append first last s1 split: prod.split)
qed

lemma usage_add_nothing: "usage_add u \<lparr>input_tokens = 0, output_tokens = 0\<rparr> = u"
  by (cases u) (simp add: usage_add_def)

text \<open>
  (C20) The stream of an answer is reassembled by the loop into its blocks, however it is cut: the text
  and the thinking in order, one tool call per \<^verbatim>\<open>tool_use\<close> block with its arguments joined, the
  reason and the usage. A \<^verbatim>\<open>tool_use\<close> block without an input delta leaves no call.
\<close>

theorem anthropic_answer_reassembled:
  assumes "sorted_wrt (<) (map fst bs)" and "list_all (\<lambda>b. fst b < 2 ^ 64) bs"
    and "list_all (printed show_json parse) (answer_messages ins bs reason outs)"
    and "list_all utf8_valid cs" and "concat cs = stream_text show_json (answer_messages ins bs reason outs)"
  shows "\<exists>acc. fst (consume A i tid (anthropic_pump parse (map Inr cs)) new_turn_acc w) = Inr acc \<and>
    ta_text acc = concat (map (block_text \<circ> snd) bs) \<and>
    ta_thinking acc = concat (map (block_thinking \<circ> snd) bs) \<and>
    finished_calls acc = concat (map (block_calls \<circ> snd) bs) \<and>
    finish_of acc = anthropic_finish reason \<and> ta_usage acc = \<lparr>input_tokens = ins, output_tokens = outs\<rparr>"
proof -
  have pump: "anthropic_pump parse (map Inr cs) = fst (serve (answer_messages ins bs reason outs) new_sse_state)"
    by (rule pump_stream_text [OF assms(3) answer_types assms(4,5)])
  let ?u = "\<lambda>acc. acc\<lparr>ta_usage := usage_add (ta_usage acc) \<lparr>input_tokens = ins, output_tokens = 0\<rparr>\<rparr>"
  let ?v = "\<lambda>acc. acc\<lparr>ta_usage := usage_add (ta_usage acc) \<lparr>input_tokens = 0, output_tokens = outs\<rparr>\<rparr>"
  have first: "stream_acc (positive (\<lambda>n. Usage n 0) (Some ins) @ es) acc = stream_acc es (?u acc)" for es acc
    by (cases "ins = 0") (simp_all add: positive_def usage_add_nothing word_greater_zero_iff)
  have last: "stream_acc (positive (\<lambda>n. Usage 0 n) (Some outs) @ es) acc = stream_acc es (?v acc)" for es acc
    by (cases "outs = 0") (simp_all add: positive_def usage_add_nothing word_greater_zero_iff)
  have blocks: "stream_acc (concat (map (\<lambda>b. block_events (fst b) (snd b)) bs) @ es) (?u new_turn_acc) =
      stream_acc es (fold absorb bs (?u new_turn_acc))" for es
    by (rule stream_blocks [OF assms(1)]) (simp add: new_turn_acc_def)
  show ?thesis
    unfolding consume_acc pump serve_answer [OF assms(2)] first blocks last
    using absorbed [of bs "?u new_turn_acc"]
    by (simp add: new_turn_acc_def no_usage_def usage_add_def finish_of_def finished_calls_def)
qed

definition demo_blocks :: "(nat \<times> content) list" where
  "demo_blocks = [(0, TextContent [''I '', ''look'']), (1, ToolContent ''t1'' ''ls'' [[], ''{p'', ''}'']),
     (2, ToolContent ''t2'' ''pwd'' [])]"

abbreviation demo_messages :: "json list" where
  "demo_messages \<equiv> answer_messages 5 demo_blocks ''tool_use'' 7"

definition demo_show :: "json \<Rightarrow> string" where
  "demo_show v = ''{'' @ str_at [''type''] [] v @ '':'' @ show_nat (index_at v) @ '':'' @
     str_at [''delta'', ''text''] [] v @ str_at [''delta'', ''partial_json''] [] v @ ''}''"

definition demo_parse :: "string \<Rightarrow> json option" where
  "demo_parse = map_of (map (\<lambda>v. (demo_show v, v)) demo_messages)"

theorem anthropic_answer_reassembled_witness:
  "\<forall>(A :: ('p, 'e, 'x) agent_env) tid i w. \<exists>acc. fst (consume A i tid (anthropic_pump demo_parse
      [Inr (take 100 (stream_text demo_show demo_messages)), Inr (drop 100 (stream_text demo_show demo_messages))])
      new_turn_acc w) = Inr acc \<and> ta_text acc = ''I look'' \<and>
    finished_calls acc = [\<lparr>call_id = ''t1'', call_name = ''ls'', call_arguments = ''{p}''\<rparr>] \<and> finish_of acc = ToolCalls"
proof (intro allI)
  fix A :: "('p, 'e, 'x) agent_env" and tid i w
  let ?t = "stream_text demo_show demo_messages"
  let ?cs = "[take 100 ?t, drop 100 ?t]"
  have "distinct (map demo_show demo_messages)" by code_simp
  then have "distinct (map fst (map (\<lambda>v. (demo_show v, v)) demo_messages))" by (simp add: comp_def)
  then have "demo_parse (demo_show v) = Some v" if "v \<in> set demo_messages" for v
    using that by (auto simp: demo_parse_def intro!: map_of_is_SomeI)
  moreover have "list_all (\<lambda>v. CHR 0x0A \<notin> set (demo_show v)) demo_messages" by code_simp
  ultimately have p: "list_all (printed demo_show demo_parse) demo_messages"
    by (simp add: list_all_iff printed_def) (simp add: demo_show_def)
  have "list_all (list_all (\<lambda>c. (of_char c :: nat) < 128)) ?cs" by code_simp
  then have u: "list_all utf8_valid ?cs" by (simp add: utf8_valid_ascii)
  have c: "concat ?cs = ?t" by simp
  have b: "sorted_wrt (<) (map fst demo_blocks)" "list_all (\<lambda>b. fst b < 2 ^ 64) demo_blocks"
    by (simp_all add: demo_blocks_def)
  obtain acc where "fst (consume A i tid (anthropic_pump demo_parse (map Inr ?cs)) new_turn_acc w) = Inr acc"
    "ta_text acc = concat (map (block_text \<circ> snd) demo_blocks)"
    "finished_calls acc = concat (map (block_calls \<circ> snd) demo_blocks)"
    "finish_of acc = anthropic_finish ''tool_use''"
    using anthropic_answer_reassembled [OF b p u c, of A i tid w] by blast
  then show "\<exists>acc. fst (consume A i tid (anthropic_pump demo_parse
      [Inr (take 100 (stream_text demo_show demo_messages)), Inr (drop 100 (stream_text demo_show demo_messages))])
      new_turn_acc w) = Inr acc \<and> ta_text acc = ''I look'' \<and>
    finished_calls acc = [\<lparr>call_id = ''t1'', call_name = ''ls'', call_arguments = ''{p}''\<rparr>] \<and> finish_of acc = ToolCalls"
    by (intro exI [of _ acc]) (simp add: demo_blocks_def anthropic_finish_def)
qed

section \<open>What Anthropic is not told\<close>

lemma system_text_append: "system_text (ms @ ms') = (case system_text ms of None \<Rightarrow> system_text ms' | Some t \<Rightarrow> Some t)"
  by (induction ms) (auto split: option.split)

lemma later_system_dropped:
  assumes "system_text xs \<noteq> None" and "msg_role m = System"
  shows "build_wire_request f parse (r\<lparr>req_messages := xs @ [m] @ ys\<rparr>) model n =
    build_wire_request f parse (r\<lparr>req_messages := xs @ ys\<rparr>) model n"
  using assms by (auto simp: build_wire_request_def system_text_append translate_messages_def translate_message_def)

lemma compacted_shape:
  assumes "maybe_compact prompt thread llm model pct turns w = (res, w')" and "cr_compacted res"
  shows "\<exists>s. cr_thread res = take (fst (split_thread thread turns)) thread @ [msg_system s] @
    drop (snd (split_thread thread turns)) thread"
  using assms by (auto simp: maybe_compact_def Let_def split: if_splits prod.splits sum.splits)

text \<open>
  A thread that starts with a system message forgets its summary on the way to Anthropic: after
  a compaction the request is the one of the thread without the compacted part, whatever the summary says.
\<close>

theorem anthropic_never_reads_summary:
  assumes "maybe_compact prompt (msg_system sys # thread) llm model pct turns w = (res, w')" and "cr_compacted res"
    and "split_thread (msg_system sys # thread) turns = (a, b)"
  shows "anthropic_provider cfg f parse send (req\<lparr>req_messages := cr_thread res @ later\<rparr>) v =
    anthropic_provider cfg f parse send
      (req\<lparr>req_messages := take a (msg_system sys # thread) @ drop b (msg_system sys # thread) @ later\<rparr>) v"
proof -
  let ?th = "msg_system sys # thread"
  obtain s where s: "cr_thread res = take a ?th @ [msg_system s] @ drop b ?th"
    using compacted_shape [OF assms(1,2)] assms(3) by auto
  have "system_text (take a ?th) \<noteq> None"
    unfolding split_bounds(3) [OF assms(3)] by (simp add: msg_system_def)
  from later_system_dropped [OF this, where m = "msg_system s" and ys = "drop b ?th @ later"] s show ?thesis
    by (simp add: anthropic_provider_def anthropic_headers_def msg_system_def)
qed

definition summarizer :: "string \<Rightarrow> unit provider" where
  "summarizer s req w = (Inr [Delta s, Done Stop], w)"

abbreviation told_thread :: "chat_message list" where
  "told_thread \<equiv> [msg_user ''a'', msg_assistant_text ''b'', msg_user ''c'', msg_assistant_text ''d'']"

theorem anthropic_never_reads_summary_witness:
  "\<forall>f32_null parse (send :: 'w http) v. let res = fst (maybe_compact [] (msg_system ''sys'' # told_thread) (summarizer ''the key is 7'') ''m'' 0 1 ()) in
   cr_summary res = Some ''the key is 7'' \<and>
   anthropic_provider default_anthropic_config f32_null parse send
     (new_llm_request ''m'' (cr_thread res @ [msg_user ''which key?''])) v =
   anthropic_provider default_anthropic_config f32_null parse send
     (new_llm_request ''m'' [msg_system ''sys'', msg_user ''c'', msg_assistant_text ''d'', msg_user ''which key?'']) v"
proof (intro allI)
  fix f32_null parse and send :: "'w http" and v
  let ?th = "msg_system ''sys'' # told_thread"
  let ?c = "maybe_compact [] ?th (summarizer ''the key is 7'') ''m'' 0 1 ()"
  have e: "?c = (fst ?c, snd ?c)" by (rule prod.collapse [symmetric])
  have c: "cr_compacted (fst ?c)" "cr_summary (fst ?c) = Some ''the key is 7''"
    by (simp_all add: maybe_compact_def collect_text_def summarizer_def split_thread_def Let_def
        msg_system_def msg_user_def msg_assistant_text_def)
  have s: "split_thread ?th 1 = (1, 3)" by code_simp
  have r: "(new_llm_request ''m'' ms)\<lparr>req_messages := ms'\<rparr> = new_llm_request ''m'' ms'" for ms ms'
    by (simp add: new_llm_request_def)
  from anthropic_never_reads_summary [OF e c(1) s, where req = "new_llm_request ''m'' []" and later = "[msg_user ''which key?'']"] c(2)
  show "let res = fst (maybe_compact [] (msg_system ''sys'' # told_thread) (summarizer ''the key is 7'') ''m'' 0 1 ()) in
   cr_summary res = Some ''the key is 7'' \<and>
   anthropic_provider default_anthropic_config f32_null parse send
     (new_llm_request ''m'' (cr_thread res @ [msg_user ''which key?''])) v =
   anthropic_provider default_anthropic_config f32_null parse send
     (new_llm_request ''m'' [msg_system ''sys'', msg_user ''c'', msg_assistant_text ''d'', msg_user ''which key?'']) v" by (simp add: r Let_def)
qed

end
