(* ===== verification/Paths.thy ===== *)
theory Paths
  imports Prelude
begin

text \<open>
  Paths as \<^verbatim>\<open>std::path\<close> has them on a Unix system: a path is its text, read as a list of components.
\<close>

section \<open>Components\<close>

datatype component = RootDir | CurDir | ParentDir | Normal string

definition slash :: char where "slash = CHR ''/''"
definition squote :: string where "squote = [CHR 0x27]"

fun split_path :: "string \<Rightarrow> string list" where
  "split_path [] = [[]]"
| "split_path (c # s) =
     (if c = slash then [] # split_path s
      else case split_path s of [] \<Rightarrow> [[c]] | p # ps \<Rightarrow> (c # p) # ps)"

definition is_absolute :: "string \<Rightarrow> bool" where
  "is_absolute p \<longleftrightarrow> p \<noteq> [] \<and> hd p = slash"

text \<open>Empty parts are skipped, and so is a dot that is not at the start of a relative path.\<close>

fun component_of :: "string \<Rightarrow> component option" where
  "component_of s = (if s = [] \<or> s = ''.'' then None else if s = ''..'' then Some ParentDir else Some (Normal s))"

fun option_list :: "'a option \<Rightarrow> 'a list" where
  "option_list None = []"
| "option_list (Some x) = [x]"

definition components :: "string \<Rightarrow> component list" where
  "components p =
     (let parts = split_path p
      in (if is_absolute p then [RootDir] else if hd parts = ''.'' then [CurDir] else []) @
         concat (map (option_list \<circ> component_of) parts))"

fun component_text :: "component \<Rightarrow> string" where
  "component_text RootDir = []"
| "component_text CurDir = ''.''"
| "component_text ParentDir = ''..''"
| "component_text (Normal s) = s"

text \<open>The path that pushing the components one by one builds.\<close>

definition path_of :: "component list \<Rightarrow> string" where
  "path_of cs = (if cs = [RootDir] then [slash] else str_join [slash] (map component_text cs))"

section \<open>Operations\<close>

definition path_starts_with :: "string \<Rightarrow> string \<Rightarrow> bool" where
  "path_starts_with p base \<longleftrightarrow> take (length (components base)) (components p) = components base"

text \<open>\<^verbatim>\<open>join\<close> and \<^verbatim>\<open>push\<close>: an absolute path replaces.\<close>

definition path_join :: "string \<Rightarrow> string \<Rightarrow> string" where
  "path_join a b = (if is_absolute b then b else if a = [] \<or> last a = slash then a @ b else a @ [slash] @ b)"

text \<open>One step of \<^verbatim>\<open>normalize_path\<close>; \<^verbatim>\<open>pop\<close> leaves an empty path and the root alone.\<close>

fun normal_step :: "component list \<Rightarrow> component \<Rightarrow> component list" where
  "normal_step acc ParentDir = (if acc = [] \<or> acc = [RootDir] then acc else butlast acc)"
| "normal_step acc CurDir = acc"
| "normal_step acc RootDir = [RootDir]"
| "normal_step acc (Normal s) = acc @ [Normal s]"

definition normal_components :: "string \<Rightarrow> component list" where
  "normal_components p = foldl normal_step [] (components p)"

definition normalize_path :: "string \<Rightarrow> string" where
  "normalize_path p = path_of (normal_components p)"

text \<open>
  \<^verbatim>\<open>parent\<close> of a path whose text is the one of its components, and \<^verbatim>\<open>with_extension\<close>, which cuts the
  text after the stem of the file name.
\<close>

definition path_parent :: "string \<Rightarrow> string option" where
  "path_parent p = (let cs = components p in
     if cs = [] \<or> last cs = RootDir then None else Some (path_of (butlast cs)))"

fun strip_tail :: "string \<Rightarrow> string" where
  "strip_tail [] = []"
| "strip_tail (c # r) =
     (if c = slash then strip_tail r
      else if c = CHR ''.'' \<and> r \<noteq> [] \<and> hd r = slash then strip_tail r else c # r)"

definition file_stem :: "string \<Rightarrow> string" where
  "file_stem n = (let r = dropWhile (\<lambda>c. c \<noteq> CHR ''.'') (rev n)
     in if r = [] \<or> tl r = [] then n else rev (tl r))"

definition with_extension :: "string \<Rightarrow> string \<Rightarrow> string" where
  "with_extension p ext = (let cs = components p in
     if cs = [] then p
     else case last cs of
       Normal n \<Rightarrow> (let q = rev (strip_tail (rev p))
                    in take (length q - length n) q @ file_stem n @ (if ext = [] then [] else CHR ''.'' # ext))
     | _ \<Rightarrow> p)"

section \<open>Normal paths\<close>

text \<open>What normalization leaves: no dots, and the root only in front.\<close>

definition plain_name :: "string \<Rightarrow> bool" where
  "plain_name s \<longleftrightarrow> s \<noteq> [] \<and> s \<noteq> ''.'' \<and> s \<noteq> ''..'' \<and> slash \<notin> set s"

fun normal_tail :: "component list \<Rightarrow> bool" where
  "normal_tail [] = True"
| "normal_tail (Normal s # cs) = (plain_name s \<and> normal_tail cs)"
| "normal_tail (_ # cs) = False"

definition normal_form :: "component list \<Rightarrow> bool" where
  "normal_form cs = (case cs of RootDir # r \<Rightarrow> normal_tail r | _ \<Rightarrow> normal_tail cs)"

lemma split_path_ne [simp]: "split_path s \<noteq> []"
  by (induction s) (auto split: list.split)

lemma split_path_free: "p \<in> set (split_path s) \<Longrightarrow> slash \<notin> set p"
  by (induction s arbitrary: p) (auto split: list.splits if_splits)

lemma split_path_append: "split_path (a @ slash # b) = split_path a @ split_path b"
  by (induction a) (auto split: list.split)

lemma split_path_plain: "slash \<notin> set a \<Longrightarrow> split_path a = [a]"
  by (induction a) auto

lemma normal_tail_append [simp]: "normal_tail (cs @ ds) \<longleftrightarrow> normal_tail cs \<and> normal_tail ds"
  by (induction cs rule: normal_tail.induct) auto

lemma normal_tail_butlast: "normal_tail cs \<Longrightarrow> normal_tail (butlast cs)"
  by (induction cs rule: normal_tail.induct) auto

lemma components_plain: "Normal s \<in> set (components p) \<Longrightarrow> plain_name s"
  by (auto simp: components_def plain_name_def Let_def dest: split_path_free split: if_splits)

lemma normal_step_form: "normal_form acc \<Longrightarrow> (\<And>s. c = Normal s \<Longrightarrow> plain_name s) \<Longrightarrow> normal_form (normal_step acc c)"
  by (cases c; cases acc; cases "hd acc") (auto simp: normal_form_def normal_tail_butlast butlast_append)

lemma foldl_normal_form:
  "normal_form acc \<Longrightarrow> \<forall>s. Normal s \<in> set cs \<longrightarrow> plain_name s \<Longrightarrow> normal_form (foldl normal_step acc cs)"
proof (induction cs arbitrary: acc)
  case (Cons c cs)
  from Cons.prems have "normal_form (normal_step acc c)" by (intro normal_step_form) auto
  with Cons show ?case by simp
qed simp

lemma normal_components_form: "normal_form (normal_components p)"
  unfolding normal_components_def
  by (rule foldl_normal_form) (auto simp: normal_form_def dest: components_plain)

text \<open>The text of normal components reads back as they are.\<close>

lemma split_join: "list_all (\<lambda>s. slash \<notin> set s) ns \<Longrightarrow> ns \<noteq> [] \<Longrightarrow> split_path (str_join [slash] ns) = ns"
  by (induction "[slash]" ns rule: str_join.induct) (simp_all add: split_path_plain split_path_append)

lemma tail_names: "normal_tail cs \<Longrightarrow> \<exists>ns. cs = map Normal ns \<and> list_all plain_name ns"
proof (induction cs rule: normal_tail.induct)
  case (2 s cs)
  then obtain ns where "cs = map Normal ns" "list_all plain_name ns" by auto
  with 2(2) show ?case by (intro exI [of _ "s # ns"]) simp
qed auto

lemma parts_of_names: "list_all plain_name ns \<Longrightarrow> concat (map (option_list \<circ> component_of) ns) = map Normal ns"
  by (induction ns) (auto simp: plain_name_def)

lemma components_path_of:
  assumes "normal_form cs"
  shows "components (path_of cs) = cs"
proof (cases "\<exists>r. cs = RootDir # r")
  case True
  then obtain r where r: "cs = RootDir # r" by blast
  with assms obtain ns where ns: "r = map Normal ns" "list_all plain_name ns"
    using tail_names [of r] by (auto simp: normal_form_def)
  show ?thesis
  proof (cases ns)
    case Nil
    with r ns show ?thesis by (simp add: path_of_def components_def is_absolute_def)
  next
    case (Cons n ms)
    have t: "map (component_text \<circ> Normal) ns = ns" by (simp add: comp_def)
    from Cons r ns have p: "path_of cs = slash # str_join [slash] ns"
      by (simp add: path_of_def comp_def)
    have "list_all (\<lambda>s. slash \<notin> set s) ns" using ns(2) by (auto simp: list_all_iff plain_name_def)
    with Cons have "split_path (str_join [slash] ns) = ns" by (intro split_join) auto
    then have "components (slash # str_join [slash] ns) = RootDir # map Normal ns"
      using parts_of_names [OF ns(2)] by (simp add: components_def is_absolute_def)
    with p r ns show ?thesis by simp
  qed
next
  case False
  with assms have "normal_tail cs" by (cases cs) (auto simp: normal_form_def split: component.splits)
  then obtain ns where ns: "cs = map Normal ns" "list_all plain_name ns" using tail_names by blast
  show ?thesis
  proof (cases ns)
    case Nil
    with ns show ?thesis by (simp add: path_of_def components_def is_absolute_def)
  next
    case (Cons n ms)
    from ns have p: "path_of cs = str_join [slash] ns"
      by (cases ns) (simp_all add: path_of_def comp_def)
    have "list_all (\<lambda>s. slash \<notin> set s) ns" using ns(2) by (auto simp: list_all_iff plain_name_def)
    with Cons have s: "split_path (str_join [slash] ns) = ns" by (intro split_join) auto
    from Cons ns(2) have "n \<noteq> []" "hd n \<noteq> slash" "n \<noteq> ''.''" by (auto simp: plain_name_def neq_Nil_conv)
    with Cons have "\<not> is_absolute (str_join [slash] ns)" "hd ns \<noteq> ''.''"
      by (cases ms; simp add: is_absolute_def)+
    then have "components (str_join [slash] ns) = map Normal ns"
      using parts_of_names [OF ns(2)] by (simp add: components_def s)
    with p ns show ?thesis by simp
  qed
qed

lemma components_normalize: "components (normalize_path p) = normal_components p"
  unfolding normalize_path_def by (rule components_path_of [OF normal_components_form])

lemma normalize_twice: "normalize_path (normalize_path p) = normalize_path p"
proof -
  have fold: "normal_form (acc @ cs) \<Longrightarrow> foldl normal_step acc cs = acc @ cs" if "normal_tail cs" for acc cs
    using that by (induction cs arbitrary: acc rule: normal_tail.induct) auto
  have "foldl normal_step [] cs = cs" if "normal_form cs" for cs
  proof (cases "\<exists>r. cs = RootDir # r")
    case True
    then obtain r where r: "cs = RootDir # r" by blast
    with that have "normal_tail r" by (simp add: normal_form_def)
    then have "foldl normal_step [RootDir] r = [RootDir] @ r"
      using fold [of r "[RootDir]"] by (simp add: normal_form_def)
    with r show ?thesis by simp
  next
    case False
    with that have "normal_tail cs" by (cases cs) (auto simp: normal_form_def split: component.splits)
    with fold [of cs "[]"] that show ?thesis by simp
  qed
  then show ?thesis
    using normal_components_form [of p]
    by (simp add: normalize_path_def normal_components_def [of "path_of _"] components_path_of)
qed

end
