(* ===== verification/Sandbox.thy ===== *)
theory Sandbox
  imports Paths Sse
begin

text \<open>
  The sandbox: the policy of a space and the broker that evaluates it (\<^verbatim>\<open>sandbox/policy.rs\<close>,
  \<^verbatim>\<open>sandbox/broker.rs\<close>), the shell of the host (\<^verbatim>\<open>capability/shell.rs\<close>) and its gate
  (\<^verbatim>\<open>sandbox/shell_gate.rs\<close>). The lower case of a text and the processes are parameters.
\<close>

section \<open>Policy\<close>

record sandbox_policy =
  sp_workspace_root :: string
  sp_read_paths :: "string list"
  sp_write_paths :: "string list"
  sp_deny_paths :: "string list"
  sp_allow_network :: bool

definition default_for_workspace :: "string \<Rightarrow> sandbox_policy" where
  "default_for_workspace root = \<lparr>sp_workspace_root = root, sp_read_paths = [root], sp_write_paths = [root],
     sp_deny_paths = [], sp_allow_network = False\<rparr>"

definition set_allow_network :: "bool \<Rightarrow> sandbox_policy \<Rightarrow> sandbox_policy" where
  "set_allow_network v p = p\<lparr>sp_allow_network := v\<rparr>"

definition add_read_path :: "string \<Rightarrow> sandbox_policy \<Rightarrow> sandbox_policy" where
  "add_read_path d p = p\<lparr>sp_read_paths := sp_read_paths p @ [d]\<rparr>"

definition add_write_path :: "string \<Rightarrow> sandbox_policy \<Rightarrow> sandbox_policy" where
  "add_write_path d p = p\<lparr>sp_write_paths := sp_write_paths p @ [d]\<rparr>"

definition add_deny_path :: "string \<Rightarrow> sandbox_policy \<Rightarrow> sandbox_policy" where
  "add_deny_path d p = p\<lparr>sp_deny_paths := sp_deny_paths p @ [d]\<rparr>"

definition can_read :: "sandbox_policy \<Rightarrow> string \<Rightarrow> bool" where
  "can_read p path = (if list_ex (path_starts_with path) (sp_deny_paths p) then False
     else list_ex (path_starts_with path) (sp_read_paths p))"

definition can_write :: "sandbox_policy \<Rightarrow> string \<Rightarrow> bool" where
  "can_write p path = (if list_ex (path_starts_with path) (sp_deny_paths p) then False
     else list_ex (path_starts_with path) (sp_write_paths p))"

definition to_seatbelt_profile :: "sandbox_policy \<Rightarrow> string" where
  "to_seatbelt_profile p =
     ''(version 1)'' @ newline @ ''(deny default)'' @ newline @
     concat (map (\<lambda>d. ''(allow file-read* (subpath '' @ dquote @ d @ dquote @ ''))'' @ newline) (sp_read_paths p)) @
     concat (map (\<lambda>d. ''(allow file-write* (subpath '' @ dquote @ d @ dquote @ ''))'' @ newline) (sp_write_paths p)) @
     (if sp_allow_network p then ''(allow network*)'' @ newline else []) @
     ''(allow process-exec)'' @ newline @ ''(allow process-fork)'' @ newline"

section \<open>Risk\<close>

datatype risk_level = Low | Medium | High

definition classify_command :: "(string \<Rightarrow> string) \<Rightarrow> string \<Rightarrow> risk_level" where
  "classify_command lower command =
     (let low = lower command; has = str_contains low in
      if has ''sudo '' \<or> str_trim low = ''sudo'' \<or> has ''rm -rf'' \<or> has ''rm -fr'' \<or> has ''chmod -r'' \<or> has ''chown -r''
         \<or> has ''/.ssh/'' \<or> has '' ~/.ssh'' \<or> has ''$home/.ssh'' \<or> has ''/.aws/'' \<or> has '' ~/.aws'' \<or> has ''$home/.aws''
         \<or> (has ''curl '' \<and> has ''|'' \<and> (has '' sh'' \<or> has '' bash'' \<or> has '' zsh''))
         \<or> (has ''wget '' \<and> has ''|'' \<and> (has '' sh'' \<or> has '' bash'' \<or> has '' zsh''))
      then High
      else if has ''ssh '' \<or> has ''scp '' \<or> has ''rsync '' \<or> has ''curl '' \<or> has ''wget '' \<or> has ''npm install''
         \<or> has ''pip install'' \<or> has ''brew install''
      then Medium else Low)"

definition is_network_command :: "(string \<Rightarrow> string) \<Rightarrow> string \<Rightarrow> bool" where
  "is_network_command lower command =
     list_ex (str_contains (lower command))
       [''curl '', ''wget '', ''ssh '', ''rsync '', ''nc '', ''netcat '', ''ftp '']"

section \<open>Broker\<close>

datatype actor = UserActor | AgentActor

record permission_decision =
  pd_allowed :: bool
  pd_requires_confirmation :: bool
  pd_risk :: risk_level
  pd_reason :: string
  pd_risk_reasons :: "string list"

definition decision_allow :: permission_decision where
  "decision_allow = \<lparr>pd_allowed = True, pd_requires_confirmation = False, pd_risk = Low, pd_reason = [], pd_risk_reasons = []\<rparr>"

definition decision_confirm :: "risk_level \<Rightarrow> string \<Rightarrow> string list \<Rightarrow> permission_decision" where
  "decision_confirm r why rs = \<lparr>pd_allowed = True, pd_requires_confirmation = True, pd_risk = r, pd_reason = why, pd_risk_reasons = rs\<rparr>"

definition decision_deny :: "string \<Rightarrow> permission_decision" where
  "decision_deny why = \<lparr>pd_allowed = False, pd_requires_confirmation = False, pd_risk = High, pd_reason = why, pd_risk_reasons = []\<rparr>"

definition check_exec :: "(string \<Rightarrow> string) \<Rightarrow> actor \<Rightarrow> string \<Rightarrow> sandbox_policy \<Rightarrow> permission_decision" where
  "check_exec lower who command p =
     (let risk = classify_command lower command;
          reasons = (if \<not> sp_allow_network p \<and> is_network_command lower command
            then [''network access is disabled by the active sandbox policy''] else [])
      in if risk = High then decision_confirm risk ''command requires explicit human approval''
           (reasons @ [''high-risk command pattern: `'' @ command @ ''`''])
         else if risk = Medium \<and> reasons \<noteq> [] then decision_confirm risk ''elevated-risk command'' reasons
         else if reasons \<noteq> [] then decision_confirm Medium ''policy constraint'' reasons
         else decision_allow)"

definition check_read :: "actor \<Rightarrow> string \<Rightarrow> sandbox_policy \<Rightarrow> permission_decision" where
  "check_read who path p = (if can_read p path then decision_allow
     else decision_deny (''path '' @ squote @ path @ squote @ '' is outside the readable scope''))"

definition check_write :: "actor \<Rightarrow> string \<Rightarrow> sandbox_policy \<Rightarrow> permission_decision" where
  "check_write who path p = (if can_write p path then decision_allow
     else decision_deny (''path '' @ squote @ path @ squote @ '' is outside the writable scope''))"

section \<open>Shell\<close>

record shell_request =
  sr_command :: string
  sr_cwd :: "string option"
  sr_timeout_secs :: "u32 option"
  sr_env :: "(string \<times> string) list"

datatype exit_status = Code "32 word" | Killed | Signal "32 word"

definition exit_success :: "exit_status \<Rightarrow> bool" where
  "exit_success s = (s = Code 0)"

record shell_result =
  sh_exit_status :: exit_status
  sh_stdout :: string
  sh_stderr :: string
  sh_elapsed_ms :: u64

record 'w shell_capability =
  sc_run :: "shell_request \<Rightarrow> 'w \<Rightarrow> (string + shell_result) \<times> 'w"
  sc_max_output_bytes :: nat

text \<open>
  What the operating system does with a command in a directory, with an environment, under a time
  limit: the code and the signal of the exit with both outputs, no process at all, or a timeout.
\<close>

datatype spawned =
  TimedOut
| SpawnFailed string
| Exited "32 word option" "32 word option" string string

record 'w os =
  os_env :: "string \<Rightarrow> string option"
  os_spawn :: "string \<Rightarrow> string \<Rightarrow> (string \<times> string) list \<Rightarrow> nat \<Rightarrow> 'w \<Rightarrow> (spawned \<times> u64) \<times> 'w"

definition safe_env :: "'w os \<Rightarrow> (string \<times> string) list" where
  "safe_env S = concat (map (\<lambda>k. case os_env S k of None \<Rightarrow> [] | Some v \<Rightarrow> [(k, v)])
     [''PATH'', ''HOME'', ''USER'', ''SHELL'', ''LANG'', ''LC_ALL'', ''TMPDIR'', ''TERM''])"

definition exit_status_from :: "32 word option \<Rightarrow> 32 word option \<Rightarrow> exit_status" where
  "exit_status_from code signal = (case code of Some c \<Rightarrow> Code c
     | None \<Rightarrow> (case signal of Some s \<Rightarrow> Signal s | None \<Rightarrow> Killed))"

text \<open>The cut goes back to the start of a character; the byte at the limit exists.\<close>

fun cut_back :: "string \<Rightarrow> nat \<Rightarrow> nat" where
  "cut_back b 0 = 0"
| "cut_back b (Suc n) = (if utf8_continues (b ! Suc n) then cut_back b n else Suc n)"

definition truncate_utf8 :: "string \<Rightarrow> nat \<Rightarrow> string" where
  "truncate_utf8 b n = utf8_lossy (if length b \<le> n then b else take (cut_back b n) b)"

definition DEFAULT_SHELL_TIMEOUT :: nat where "DEFAULT_SHELL_TIMEOUT = 30"

text \<open>The environment is built by setting one variable after another.\<close>

definition local_shell_run :: "'w os \<Rightarrow> string \<Rightarrow> nat \<Rightarrow> shell_request \<Rightarrow> 'w \<Rightarrow> (string + shell_result) \<times> 'w" where
  "local_shell_run S root default_timeout req w =
     (case (case sr_cwd req of
              None \<Rightarrow> Inr root
            | Some rel \<Rightarrow> (let n = normalize_path (path_join root rel) in
                if \<not> path_starts_with n root then Inl (''cwd '' @ squote @ rel @ squote @ '' escapes workspace root'') else Inr n)) of
        Inl e \<Rightarrow> (Inl e, w)
      | Inr cwd \<Rightarrow>
          (let limit = (case sr_timeout_secs req of None \<Rightarrow> default_timeout | Some n \<Rightarrow> unat n);
               env = foldl (\<lambda>m (k, v). hm_put k v m) [] (safe_env S @ sr_env req)
           in case os_spawn S cwd (sr_command req) env limit w of
             ((TimedOut, ms), w') \<Rightarrow> (Inr \<lparr>sh_exit_status = Killed, sh_stdout = [],
                sh_stderr = ''command timed out after '' @ show_nat limit @ ''s'', sh_elapsed_ms = ms\<rparr>, w')
           | ((SpawnFailed e, ms), w') \<Rightarrow> (Inl (''failed to spawn command: '' @ e), w')
           | ((Exited code sig out err, ms), w') \<Rightarrow> (Inr \<lparr>sh_exit_status = exit_status_from code sig,
                sh_stdout = truncate_utf8 out 32768, sh_stderr = truncate_utf8 err 32768, sh_elapsed_ms = ms\<rparr>, w')))"

definition local_shell :: "'w os \<Rightarrow> string \<Rightarrow> 'w shell_capability" where
  "local_shell S root = \<lparr>sc_run = local_shell_run S root DEFAULT_SHELL_TIMEOUT, sc_max_output_bytes = 32768\<rparr>"

definition policy_shell_run :: "(string \<Rightarrow> string) \<Rightarrow> 'w shell_capability \<Rightarrow> sandbox_policy \<Rightarrow> shell_request \<Rightarrow> 'w
    \<Rightarrow> (string + shell_result) \<times> 'w" where
  "policy_shell_run lower inner p req w =
     (let d = check_exec lower AgentActor (sr_command req) p in
      if \<not> pd_allowed d then
        (Inr \<lparr>sh_exit_status = Code 126, sh_stdout = [],
           sh_stderr = ''sandbox policy denied execution: '' @ pd_reason d, sh_elapsed_ms = 0\<rparr>, w)
      else sc_run inner req w)"

definition policy_shell :: "(string \<Rightarrow> string) \<Rightarrow> 'w shell_capability \<Rightarrow> sandbox_policy \<Rightarrow> 'w shell_capability" where
  "policy_shell lower inner p = \<lparr>sc_run = policy_shell_run lower inner p,
     sc_max_output_bytes = sc_max_output_bytes inner\<rparr>"

section \<open>What the gate lets through\<close>

lemma exec_always_allowed: "pd_allowed (check_exec lower who command p)"
  by (simp add: check_exec_def decision_confirm_def decision_allow_def Let_def)

lemma policy_shell_transparent: "policy_shell lower inner p = inner"
  by (cases inner) (simp add: policy_shell_def policy_shell_run_def exec_always_allowed fun_eq_iff)

lemma exec_never_needs_confirmation_iff:
  "pd_requires_confirmation (check_exec lower who command p) \<longleftrightarrow>
     classify_command lower command = High \<or> \<not> sp_allow_network p \<and> is_network_command lower command"
  by (simp add: check_exec_def decision_confirm_def decision_allow_def Let_def)

section \<open>Cutting an output\<close>

lemma cut_back_le: "cut_back b n \<le> n"
  by (induction n) auto

lemma cut_back_start: "cut_back b n = 0 \<or> \<not> utf8_continues (b ! cut_back b n)"
  by (induction n) auto

lemma utf8_head_continues:
  assumes "utf8_head s = (True, n)" and "0 < k" and "k < n"
  shows "utf8_continues (s ! k)"
proof -
  have c: "utf8_continues (s ! k)" if "continues_at k s" for k
    using that by (auto simp: continues_at_def between_def byte_at_def utf8_continues_def split: if_splits)
  have two: "utf8_continues (s ! 1)" if "second_ok x (byte_at 1 s)" for x
    using that by (auto simp: second_ok_def between_def byte_at_def utf8_continues_def split: if_splits)
  consider "n = 1" | "n = 2" "continues_at 1 s" | "n = 3" "second_ok (byte_at 0 s) (byte_at 1 s)" "continues_at 2 s"
    | "n = 4" "second_ok (byte_at 0 s) (byte_at 1 s)" "continues_at 2 s" "continues_at 3 s"
    using assms(1) by (auto simp: utf8_head_def Let_def split: if_splits)
  then show ?thesis
  proof cases
    case 1
    with assms(2,3) show ?thesis by simp
  next
    case 2
    with assms(2,3) have "k = 1" by simp
    with 2 c show ?thesis by simp
  next
    case 3
    with assms(2,3) have "k = 1 \<or> k = 2" by auto
    with 3 c two show ?thesis by auto
  next
    case 4
    with assms(2,3) have "k = 1 \<or> k = 2 \<or> k = 3" by auto
    with 4 c two show ?thesis by auto
  qed
qed

lemma utf8_head_take:
  assumes "utf8_head s = (True, n)" and "n \<le> k"
  shows "utf8_head (take k s) = (True, n)"
proof -
  have at: "byte_at j (take k s) = byte_at j s" if "j < k" for j
    using that by (simp add: byte_at_def)
  have cont: "continues_at j (take k s) = continues_at j s" if "j < k" for j
    using at [OF that] by (simp add: continues_at_def)
  have "0 < n" using utf8_head_pos [of s] assms(1) by simp
  with assms(2) have at0: "byte_at 0 (take k s) = byte_at 0 s" by (intro at) simp
  consider "n = 1" "byte_at 0 s < 0x80" | "n = 2" | "n = 3" | "n = 4"
    using assms(1) by (auto simp: utf8_head_def Let_def split: if_splits)
  then show ?thesis
  proof cases
    case 1
    then show ?thesis by (simp add: utf8_head_def at0)
  next
    case 2
    with assms(2) have "continues_at 1 (take k s) = continues_at 1 s" by (intro cont) simp
    with 2 assms(1) show ?thesis by (auto simp: utf8_head_def Let_def at0 split: if_splits)
  next
    case 3
    with assms(2) have "byte_at 1 (take k s) = byte_at 1 s" "continues_at 2 (take k s) = continues_at 2 s"
      by (intro at cont; simp)+
    with 3 assms(1) show ?thesis by (auto simp: utf8_head_def Let_def at0 split: if_splits)
  next
    case 4
    with assms(2) have "byte_at 1 (take k s) = byte_at 1 s" "continues_at 2 (take k s) = continues_at 2 s"
      "continues_at 3 (take k s) = continues_at 3 s"
      by (intro at cont; simp)+
    with 4 assms(1) show ?thesis by (auto simp: utf8_head_def Let_def at0 split: if_splits)
  qed
qed

lemma utf8_valid_take:
  assumes "utf8_valid s" and "k < length s" and "k = 0 \<or> \<not> utf8_continues (s ! k)"
  shows "utf8_valid (take k s)"
  using assms
proof (induction s arbitrary: k rule: utf8_valid.induct)
  case (1 s)
  show ?case
  proof (cases "k = 0")
    case False
    with 1(3) have "s \<noteq> []" by auto
    with 1(2) obtain n where n: "utf8_head s = (True, n)" "utf8_valid (drop n s)"
      by (subst (asm) utf8_valid.simps) (auto split: prod.splits if_splits)
    have le: "n \<le> k"
      using utf8_head_continues [OF n(1), of k] 1(4) False by (meson not_less bot_nat_0.not_eq_extremum)
    have len: "k - n < length (drop n s)" using 1(3) le by simp
    have start: "k - n = 0 \<or> \<not> utf8_continues (drop n s ! (k - n))" using 1(4) False le 1(3) by simp
    have rest: "utf8_valid (take (k - n) (drop n s))"
      using 1(1) [OF \<open>s \<noteq> []\<close> n(1) [symmetric] TrueI n(2) len start] .
    have "utf8_head (take k s) = (True, n)" by (rule utf8_head_take [OF n(1) le])
    with rest False 1(3) show ?thesis
      by (subst utf8_valid.simps) (auto simp: drop_take)
  qed simp
qed

text \<open>A valid output is cut to a prefix of whole characters, at most three bytes below the limit.\<close>

lemma cut_back_skips: "cut_back b n < k \<Longrightarrow> k \<le> n \<Longrightarrow> utf8_continues (b ! k)"
  by (induction n) (auto split: if_splits simp: le_Suc_eq)

lemma utf8_head_le: "utf8_head s = (ok, n) \<Longrightarrow> n \<le> 4"
  by (auto simp: utf8_head_def Let_def split: if_splits)

lemma utf8_valid_start:
  assumes "utf8_valid s" and "s \<noteq> []"
  shows "\<not> utf8_continues (s ! 0)"
proof -
  from assms obtain n where "utf8_head s = (True, n)"
    by (subst (asm) utf8_valid.simps) (auto split: prod.splits if_splits)
  with assms(2) show ?thesis
    by (auto simp: utf8_head_def Let_def byte_at_def between_def utf8_continues_def split: if_splits)
qed

lemma utf8_short_tails:
  assumes "utf8_valid s" and "n < length s" and "\<And>j. k < j \<Longrightarrow> j \<le> n \<Longrightarrow> utf8_continues (s ! j)"
    and "k = 0 \<or> \<not> utf8_continues (s ! k)" and "k \<le> n"
  shows "n \<le> k + 3"
  using assms
proof (induction s arbitrary: k n rule: utf8_valid.induct)
  case (1 s)
  from 1(3) have ne: "s \<noteq> []" by auto
  with 1(2) obtain h where h: "utf8_head s = (True, h)" "utf8_valid (drop h s)"
    by (subst (asm) utf8_valid.simps) (auto split: prod.splits if_splits)
  show ?case
  proof (cases "h \<le> k")
    case True
    have "n - h \<le> (k - h) + 3"
    proof (rule 1(1) [OF ne h(1) [symmetric] TrueI h(2)])
      show "n - h < length (drop h s)" using 1(3,6) True by simp
      show "utf8_continues (drop h s ! j)" if "k - h < j" "j \<le> n - h" for j
        using 1(4) [of "h + j"] that True 1(3) by simp
      show "k - h = 0 \<or> \<not> utf8_continues (drop h s ! (k - h))" using 1(5,3,6) True by auto
      show "k - h \<le> n - h" using 1(6) by simp
    qed
    with True 1(6) show ?thesis by simp
  next
    case False
    with 1(5) utf8_head_continues [OF h(1), of k] have k: "k = 0" by auto
    have "n < h"
    proof (rule ccontr)
      assume "\<not> n < h"
      with 1(3) have "drop h s \<noteq> []" by simp
      from utf8_valid_start [OF h(2) this] have "\<not> utf8_continues (s ! h)" using 1(3) \<open>\<not> n < h\<close> by simp
      with 1(4) [of h] \<open>\<not> n < h\<close> utf8_head_pos [of s] h(1) k show False by simp
    qed
    with utf8_head_le [OF h(1)] k show ?thesis by simp
  qed
qed

lemma truncate_valid:
  assumes "utf8_valid b"
  shows "\<exists>k. truncate_utf8 b n = take k b \<and> utf8_valid (take k b) \<and> k \<le> n \<and> min (length b) n \<le> k + 3"
proof (cases "length b \<le> n")
  case True
  with assms show ?thesis
    by (intro exI [of _ "length b"]) (simp add: truncate_utf8_def utf8_lossy_valid)
next
  case False
  let ?k = "cut_back b n"
  have "?k < length b" using False cut_back_le [of b n] by simp
  then have "utf8_valid (take ?k b)" by (rule utf8_valid_take [OF assms _ cut_back_start])
  moreover have "n \<le> ?k + 3"
    using False by (intro utf8_short_tails [OF assms _ cut_back_skips cut_back_start cut_back_le]) auto
  ultimately show ?thesis
    using False cut_back_le [of b n] by (intro exI [of _ ?k]) (simp add: truncate_utf8_def utf8_lossy_valid)
qed

end
