(* ===== verification/FileTools.thy ===== *)
theory FileTools
  imports Sandbox
begin

text \<open>
  The files of a workspace (\<^verbatim>\<open>capability/filesystem.rs\<close>) and the gate of the sandbox before them
  (\<^verbatim>\<open>sandbox/fs_gate.rs\<close>). The operations of the file system are parameters: they answer a value or
  the text of an error.
\<close>

section \<open>Scope\<close>

definition scope_resolve :: "string \<Rightarrow> string \<Rightarrow> string + string" where
  "scope_resolve root rel =
     (let resolved = normalize_path (path_join root rel) in
      if \<not> path_starts_with resolved root
      then Inl (''path '' @ squote @ rel @ squote @ '' escapes workspace root '' @ squote @ root @ squote)
      else Inr resolved)"

section \<open>The file system\<close>

type_synonym ('w, 'a) io = "'w \<Rightarrow> (string + 'a) \<times> 'w"

record 'w fs_ops =
  fs_read :: "string \<Rightarrow> ('w, string) io"
  fs_read_at :: "string \<Rightarrow> u64 option \<Rightarrow> u64 \<Rightarrow> ('w, string) io"
  fs_write :: "string \<Rightarrow> string \<Rightarrow> ('w, unit) io"
  fs_create_dir_all :: "string \<Rightarrow> ('w, unit) io"
  fs_read_dir :: "string \<Rightarrow> ('w, string list) io"
  fs_rename :: "string \<Rightarrow> string \<Rightarrow> ('w, unit) io"

definition io_return :: "'a \<Rightarrow> ('w, 'a) io" where
  "io_return x w = (Inr x, w)"

definition io_fail :: "string \<Rightarrow> ('w, 'a) io" where
  "io_fail e w = (Inl e, w)"

definition io_bind :: "('w, 'a) io \<Rightarrow> ('a \<Rightarrow> ('w, 'b) io) \<Rightarrow> ('w, 'b) io" where
  "io_bind f g w = (case f w of (Inl e, w') \<Rightarrow> (Inl e, w') | (Inr x, w') \<Rightarrow> g x w')"

text \<open>\<^verbatim>\<open>read_to_string\<close> refuses bytes that are no UTF-8.\<close>

definition read_to_string :: "'w fs_ops \<Rightarrow> string \<Rightarrow> ('w, string) io" where
  "read_to_string F p = io_bind (fs_read F p) (\<lambda>b.
     if utf8_valid b then io_return b else io_fail ''stream did not contain valid UTF-8'')"

section \<open>Replacing a text\<close>

text \<open>\<^verbatim>\<open>matches\<close> counts what does not overlap, from the left; an empty pattern matches around every character.\<close>

fun split_once :: "string \<Rightarrow> string \<Rightarrow> (string \<times> string) option" where
  "split_once pat [] = (if pat = [] then Some ([], []) else None)"
| "split_once pat (c # s) =
     (if str_starts_with (c # s) pat then Some ([], drop (length pat) (c # s))
      else map_option (\<lambda>(a, b). (c # a, b)) (split_once pat s))"

lemma split_once_append: "split_once pat s = Some (a, b) \<Longrightarrow> s = a @ pat @ b"
proof (induction pat s arbitrary: a rule: split_once.induct)
  case (2 pat c s)
  then show ?case by (auto simp: str_starts_with_iff split: if_splits)
qed (auto split: if_splits)

definition char_count :: "string \<Rightarrow> nat" where
  "char_count s = length (filter (\<lambda>c. \<not> utf8_continues c) s)"

function count_matches :: "string \<Rightarrow> string \<Rightarrow> nat" where
  "count_matches pat s =
     (if pat = [] then char_count s + 1
      else case split_once pat s of None \<Rightarrow> 0 | Some (a, b) \<Rightarrow> Suc (count_matches pat b))"
  by pat_completeness auto
termination
proof (relation "measure (length \<circ> snd)", goal_cases)
  case (2 pat s ab a b)
  then have "s = a @ pat @ b" by (intro split_once_append) simp
  with 2(1) show ?case by (cases pat) simp_all
qed simp

declare count_matches.simps [simp del]

definition replace_first :: "string \<Rightarrow> string \<Rightarrow> string \<Rightarrow> string" where
  "replace_first pat new s = (case split_once pat s of None \<Rightarrow> s | Some (a, b) \<Rightarrow> a @ new @ b)"

text \<open>\<^verbatim>\<open>str::lines\<close>.\<close>

definition chomp :: "string \<Rightarrow> string" where
  "chomp l = (let t = butlast l in if t \<noteq> [] \<and> last t = CHR 0x0D then butlast t else t)"

function str_lines :: "string \<Rightarrow> string list" where
  "str_lines s = (case pop_line s of
     None \<Rightarrow> if s = [] then [] else [s]
   | Some (l, r) \<Rightarrow> chomp l # str_lines r)"
  by pat_completeness auto
termination
  by (relation "measure length") (auto dest: pop_line_length)

declare str_lines.simps [simp del]

definition em_dash :: string where
  "em_dash = [CHR 0xE2, CHR 0x80, CHR 0x94]"

definition ellipsis :: string where
  "ellipsis = [CHR 0xE2, CHR 0x80, CHR 0xA6]"

definition truncate_for_error :: "string \<Rightarrow> nat \<Rightarrow> string" where
  "truncate_for_error s n = (if char_count s \<le> n then s else utf8_take n s @ ellipsis)"

fun first_difference :: "string list \<Rightarrow> string list \<Rightarrow> nat option" where
  "first_difference (a # as) (b # bs) =
     (if a \<noteq> b then Some 0 else map_option Suc (first_difference as bs))"
| "first_difference _ _ = None"

text \<open>The lines of a span, each marked when it is one of the changed ones.\<close>

definition slice :: "nat \<Rightarrow> nat \<Rightarrow> 'a list \<Rightarrow> 'a list" where
  "slice a b xs = drop a (take b xs)"

definition make_context_diff :: "string \<Rightarrow> string \<Rightarrow> string \<Rightarrow> string \<Rightarrow> string \<Rightarrow> string" where
  "make_context_diff path old_content new_content old_str new_str =
     (let old_lines = str_lines old_content; new_lines = str_lines new_content;
          start = (case first_difference old_lines new_lines of None \<Rightarrow> 0 | Some k \<Rightarrow> k);
          removed = max (length (str_lines old_str)) 1; added = max (length (str_lines new_str)) 1;
          old_start = start - 3;
          old_end = min (start + removed + 3) (length old_lines);
          new_end = min (start + added + 3) (length new_lines)
      in ''--- a/'' @ path @ newline @ ''+++ b/'' @ path @ newline @
         ''@@ -'' @ show_nat (old_start + 1) @ '','' @ show_nat (old_end - old_start) @
         '' +'' @ show_nat (old_start + 1) @ '','' @ show_nat (new_end - old_start) @ '' @@'' @ newline @
         concat (map (\<lambda>(k, l). (if start \<le> k \<and> k < start + removed then ''-'' else '' '') @ l @ newline)
           (enumerate old_start (slice old_start old_end old_lines))) @
         concat (map (\<lambda>(k, l). if start \<le> k \<and> k < start + added then ''+'' @ l @ newline else [])
           (enumerate old_start (slice old_start new_end new_lines))))"

section \<open>The local file system\<close>

record read_file_result =
  rf_path :: string
  rf_content :: string
  rf_truncated :: bool

record str_replace_result =
  rr_path :: string
  rr_diff :: string

record 'w filesystem =
  fsys_read :: "string \<Rightarrow> u64 option \<Rightarrow> u64 option \<Rightarrow> ('w, read_file_result) io"
  fsys_write :: "string \<Rightarrow> string \<Rightarrow> bool \<Rightarrow> ('w, unit) io"
  fsys_list :: "string \<Rightarrow> ('w, string list) io"
  fsys_secret :: "string \<Rightarrow> ('w, string) io"
  fsys_replace :: "string \<Rightarrow> string \<Rightarrow> string \<Rightarrow> ('w, str_replace_result) io"

definition local_read_file :: "'w fs_ops \<Rightarrow> string \<Rightarrow> u64 option \<Rightarrow> u64 option \<Rightarrow> ('w, read_file_result) io" where
  "local_read_file F path offset max_bytes =
     (if offset \<noteq> None \<or> max_bytes \<noteq> None then
        io_bind (fs_read_at F path offset (case max_bytes of None \<Rightarrow> - 1 | Some m \<Rightarrow> m)) (\<lambda>b.
          io_return \<lparr>rf_path = path, rf_content = utf8_lossy b,
            rf_truncated = (case max_bytes of None \<Rightarrow> False | Some m \<Rightarrow> unat m \<le> length b)\<rparr>)
      else io_bind (read_to_string F path) (\<lambda>c.
          io_return \<lparr>rf_path = path, rf_content = c, rf_truncated = False\<rparr>))"

definition local_write_file :: "'w fs_ops \<Rightarrow> string \<Rightarrow> string \<Rightarrow> bool \<Rightarrow> ('w, unit) io" where
  "local_write_file F path content create_dirs =
     io_bind (if create_dirs then (case path_parent path of None \<Rightarrow> io_return () | Some d \<Rightarrow> fs_create_dir_all F d)
              else io_return ())
       (\<lambda>_. fs_write F path content)"

definition local_list_dir :: "'w fs_ops \<Rightarrow> string \<Rightarrow> ('w, string list) io" where
  "local_list_dir F path = io_bind (fs_read_dir F path) (\<lambda>ns. io_return (sort (map utf8_lossy ns)))"

definition local_read_secret :: "(string \<Rightarrow> string option) \<Rightarrow> string \<Rightarrow> ('w, string) io" where
  "local_read_secret env nm = (case env nm of
     None \<Rightarrow> io_fail (''secret not found in environment: '' @ nm) | Some v \<Rightarrow> io_return v)"

definition local_str_replace :: "'w fs_ops \<Rightarrow> string \<Rightarrow> string \<Rightarrow> string \<Rightarrow> ('w, str_replace_result) io" where
  "local_str_replace F path old_str new_str = io_bind (read_to_string F path) (\<lambda>content.
     let count = count_matches old_str content in
     if count = 0 then io_fail (''str_replace: not_found '' @ em_dash @ '' '' @ squote @ truncate_for_error old_str 80 @ squote @
       '' does not appear in '' @ path)
     else if 1 < count then io_fail (''str_replace: ambiguous '' @ em_dash @ '' '' @ squote @ truncate_for_error old_str 80 @ squote @
       '' appears '' @ show_nat count @ '' times in '' @ path @ ''; use a more specific old_str'')
     else let new_content = replace_first old_str new_str content; tmp = with_extension path ''__str_replace_tmp__'' in
       io_bind (fs_write F tmp new_content) (\<lambda>_.
       io_bind (fs_rename F tmp path) (\<lambda>_.
       io_return \<lparr>rr_path = path, rr_diff = make_context_diff path content new_content old_str new_str\<rparr>)))"

definition local_filesystem :: "'w fs_ops \<Rightarrow> (string \<Rightarrow> string option) \<Rightarrow> 'w filesystem" where
  "local_filesystem F env = \<lparr>fsys_read = local_read_file F, fsys_write = local_write_file F,
     fsys_list = local_list_dir F, fsys_secret = local_read_secret env, fsys_replace = local_str_replace F\<rparr>"

section \<open>The gate\<close>

definition guarded :: "permission_decision \<Rightarrow> string \<Rightarrow> string \<Rightarrow> ('w, 'a) io \<Rightarrow> ('w, 'a) io" where
  "guarded d what path f =
     (if \<not> pd_allowed d
      then io_fail (''sandbox policy denied '' @ what @ '' access to '' @ squote @ path @ squote @ '': '' @ pd_reason d)
      else f)"

definition policy_filesystem :: "'w filesystem \<Rightarrow> sandbox_policy \<Rightarrow> 'w filesystem" where
  "policy_filesystem inner p = \<lparr>
     fsys_read = (\<lambda>path offset n. guarded (check_read AgentActor path p) ''read'' path (fsys_read inner path offset n)),
     fsys_write = (\<lambda>path content dirs. guarded (check_write AgentActor path p) ''write'' path (fsys_write inner path content dirs)),
     fsys_list = (\<lambda>path. guarded (check_read AgentActor path p) ''read'' path (fsys_list inner path)),
     fsys_secret = fsys_secret inner,
     fsys_replace = (\<lambda>path old new. guarded (check_write AgentActor path p) ''write'' path (fsys_replace inner path old new))\<rparr>"

end
