(* ===== verification/Dispatcher.thy ===== *)
theory Dispatcher
  imports FileTools Serde AgentTypes
begin

text \<open>
  The tools of an agent (\<^verbatim>\<open>capability/dispatcher.rs\<close>, \<^verbatim>\<open>capability/factory.rs\<close>): the registry of
  definitions and handlers, the gate in front of a handler, and the handlers of the shell, the files,
  the notifications and the browser.
\<close>

section \<open>The registry\<close>

type_synonym 'w handler = "string \<Rightarrow> 'w \<Rightarrow> tool_outcome \<times> 'w"

record 'w registered_tool =
  rt_def :: tool_def
  rt_handler :: "'w handler"
  rt_needs_approval :: bool

type_synonym 'w registry = "(string \<times> 'w registered_tool) list"

text \<open>Tool names are unique, so sorting the values of the hash map by name leaves no choice.\<close>

definition registry_definitions :: "'w registry \<Rightarrow> tool_def list" where
  "registry_definitions ts = sort_key td_name (map (rt_def \<circ> snd) ts)"

definition no_tool :: "tool_call \<Rightarrow> tool_outcome" where
  "no_tool call = ToolError (''no tool registered: '' @ call_name call)"

definition registry_dispatch :: "'w registry \<Rightarrow> tool_call \<Rightarrow> 'w \<Rightarrow> tool_outcome \<times> 'w" where
  "registry_dispatch ts call w = (case map_of ts (call_name call) of
     None \<Rightarrow> (no_tool call, w)
   | Some reg \<Rightarrow>
       if rt_needs_approval reg
       then (NeedsApproval (json_object [(''tool'', JString (call_name call)), (''arguments'', JString (call_arguments call))]), w)
       else rt_handler reg (call_arguments call) w)"

definition registry_dispatch_approved :: "'w registry \<Rightarrow> tool_call \<Rightarrow> 'w \<Rightarrow> tool_outcome \<times> 'w" where
  "registry_dispatch_approved ts call w = (case map_of ts (call_name call) of
     None \<Rightarrow> (no_tool call, w)
   | Some reg \<Rightarrow> rt_handler reg (call_arguments call) w)"

definition host_dispatcher :: "'w registry \<Rightarrow> 'w tool_dispatcher" where
  "host_dispatcher ts = \<lparr>tool_definitions = (\<lambda>_. registry_definitions ts), dispatch = registry_dispatch ts,
     dispatch_approved = registry_dispatch_approved ts\<rparr>"

record 'w dispatcher_builder =
  db_tools :: "'w registry"
  db_allowed :: "string list"

definition new_builder :: "'w dispatcher_builder" where
  "new_builder = \<lparr>db_tools = [], db_allowed = []\<rparr>"

definition set_allowed_tools :: "string list \<Rightarrow> 'w dispatcher_builder \<Rightarrow> 'w dispatcher_builder" where
  "set_allowed_tools names b = (if names \<noteq> [] then b\<lparr>db_allowed := names\<rparr> else b)"

definition register_tool :: "tool_def \<Rightarrow> bool \<Rightarrow> 'w handler \<Rightarrow> 'w dispatcher_builder \<Rightarrow> 'w dispatcher_builder" where
  "register_tool d approval h b =
     b\<lparr>db_tools := hm_put (td_name d) \<lparr>rt_def = d, rt_handler = h, rt_needs_approval = approval\<rparr> (db_tools b)\<rparr>"

definition build_dispatcher :: "'w dispatcher_builder \<Rightarrow> 'w registry" where
  "build_dispatcher b = (if db_allowed b = [] then db_tools b
     else filter (\<lambda>(nm, _). nm \<in> set (db_allowed b)) (db_tools b))"

section \<open>Arguments and results\<close>

text \<open>
  The parser of the arguments and the text of its errors, for a tool; what a handler does with
  arguments that do not decode, and with an operation that fails.
\<close>

record tools_env =
  te_parse :: "string \<Rightarrow> json option"
  te_error :: "string \<Rightarrow> string \<Rightarrow> string"

definition decode_args :: "tools_env \<Rightarrow> (json \<Rightarrow> 'a option) \<Rightarrow> string \<Rightarrow> 'a option" where
  "decode_args T d args = (case te_parse T args of None \<Rightarrow> None | Some j \<Rightarrow> d j)"

definition with_args :: "tools_env \<Rightarrow> string \<Rightarrow> (json \<Rightarrow> 'a option) \<Rightarrow> ('a \<Rightarrow> 'w \<Rightarrow> tool_outcome \<times> 'w) \<Rightarrow> 'w handler" where
  "with_args T tool d k args w = (case decode_args T d args of
     None \<Rightarrow> (ToolError (''invalid '' @ tool @ '' args: '' @ te_error T tool args), w)
   | Some a \<Rightarrow> k a w)"

definition io_outcome :: "string \<Rightarrow> ('a \<Rightarrow> json) \<Rightarrow> ('w, 'a) io \<Rightarrow> 'w \<Rightarrow> tool_outcome \<times> 'w" where
  "io_outcome what f op w = (case op w of
     (Inl e, w') \<Rightarrow> (ToolError (what @ '' failed: '' @ e), w')
   | (Inr x, w') \<Rightarrow> (Output (f x), w'))"

text \<open>The schema of a tool: its properties, and the required ones where they are listed.\<close>

definition typed :: "string \<Rightarrow> json" where
  "typed t = json_object [(''type'', JString t)]"

definition described :: "string \<Rightarrow> string \<Rightarrow> json" where
  "described t d = json_object [(''type'', JString t), (''description'', JString d)]"

definition with_default :: "string \<Rightarrow> string option \<Rightarrow> json \<Rightarrow> json" where
  "with_default t d v = json_object ([(''type'', JString t)] @
     (case d of None \<Rightarrow> [] | Some x \<Rightarrow> [(''description'', JString x)]) @ [(''default'', v)])"

definition schema :: "(string \<times> json) list \<Rightarrow> string list option \<Rightarrow> json" where
  "schema props req = json_object ([(''type'', JString ''object''), (''properties'', json_object props)] @
     (case req of None \<Rightarrow> [] | Some ks \<Rightarrow> [(''required'', JArray (map JString ks))]))"

section \<open>The shell\<close>

definition shell_request_from :: "json \<Rightarrow> shell_request option" where
  "shell_request_from j = (case struct_fields 3 [''command'', ''cwd'', ''timeout_secs'', ''env''] j of
     Some [c, d, t, e] \<Rightarrow> (case (required json_as_str c, optional json_as_str d, optional json_u32_of t,
          defaulted (each string_pair) [] e) of
        (Some c, Some d, Some t, Some e) \<Rightarrow> Some \<lparr>sr_command = c, sr_cwd = d, sr_timeout_secs = t, sr_env = e\<rparr>
      | _ \<Rightarrow> None)
   | _ \<Rightarrow> None)"

definition run_shell_def :: tool_def where
  "run_shell_def = \<lparr>td_name = ''run_shell'',
     td_description = ''Execute a shell command in the workspace sandbox. Returns stdout, stderr, and exit code.'',
     td_parameters = schema
       [(''command'', described ''string'' ''Shell command to run (passed to /bin/sh -c)''),
        (''cwd'', described ''string'' ''Working directory relative to workspace root''),
        (''timeout_secs'', described ''integer'' ''Execution timeout in seconds'')] (Some [''command''])\<rparr>"

definition shell_result_json :: "shell_result \<Rightarrow> json" where
  "shell_result_json r = json_object
     [(''exit_code'', json_i32 (case sh_exit_status r of Code c \<Rightarrow> c | _ \<Rightarrow> - 1)),
      (''stdout'', JString (sh_stdout r)), (''stderr'', JString (sh_stderr r)), (''elapsed_ms'', json_u64 (sh_elapsed_ms r))]"

definition run_shell_handler :: "tools_env \<Rightarrow> 'w shell_capability \<Rightarrow> 'w handler" where
  "run_shell_handler T S = with_args T ''run_shell'' shell_request_from
     (\<lambda>req. io_outcome ''shell execution'' shell_result_json (sc_run S req))"

definition register_shell :: "tools_env \<Rightarrow> 'w shell_capability \<Rightarrow> bool \<Rightarrow> 'w dispatcher_builder \<Rightarrow> 'w dispatcher_builder" where
  "register_shell T S approval = register_tool run_shell_def approval (run_shell_handler T S)"

section \<open>Files\<close>

record read_file_request =
  rq_path :: string
  rq_offset :: "u64 option"
  rq_max_bytes :: "u64 option"

record write_file_request =
  wq_path :: string
  wq_content :: string
  wq_create_dirs :: bool

record str_replace_request =
  xq_path :: string
  xq_old_str :: string
  xq_new_str :: string

definition read_file_request_from :: "json \<Rightarrow> read_file_request option" where
  "read_file_request_from j = (case struct_fields 3 [''path'', ''offset'', ''max_bytes''] j of
     Some [p, f, n] \<Rightarrow> (case (required json_as_str p, optional json_as_u64 f, optional json_as_u64 n) of
        (Some p, Some f, Some n) \<Rightarrow> Some \<lparr>rq_path = p, rq_offset = f, rq_max_bytes = n\<rparr>
      | _ \<Rightarrow> None)
   | _ \<Rightarrow> None)"

definition write_file_request_from :: "json \<Rightarrow> write_file_request option" where
  "write_file_request_from j = (case struct_fields 2 [''path'', ''content'', ''create_dirs''] j of
     Some [p, c, d] \<Rightarrow> (case (required json_as_str p, required json_as_str c, defaulted json_as_bool True d) of
        (Some p, Some c, Some d) \<Rightarrow> Some \<lparr>wq_path = p, wq_content = c, wq_create_dirs = d\<rparr>
      | _ \<Rightarrow> None)
   | _ \<Rightarrow> None)"

definition str_replace_request_from :: "json \<Rightarrow> str_replace_request option" where
  "str_replace_request_from j = (case struct_fields 3 [''path'', ''old_str'', ''new_str''] j of
     Some [p, x, y] \<Rightarrow> (case (required json_as_str p, required json_as_str x, required json_as_str y) of
        (Some p, Some x, Some y) \<Rightarrow> Some \<lparr>xq_path = p, xq_old_str = x, xq_new_str = y\<rparr>
      | _ \<Rightarrow> None)
   | _ \<Rightarrow> None)"

definition list_dir_args :: "json \<Rightarrow> string option" where
  "list_dir_args j = (case struct_fields 1 [''path''] j of Some [p] \<Rightarrow> required json_as_str p | _ \<Rightarrow> None)"

definition read_file_def :: tool_def where
  "read_file_def = \<lparr>td_name = ''read_file'',
     td_description = ''Read a file'' @ squote @ ''s content from the workspace. Path must be relative to the workspace root.'',
     td_parameters = schema [(''path'', typed ''string''), (''offset'', typed ''integer''), (''max_bytes'', typed ''integer'')]
       (Some [''path''])\<rparr>"

definition write_file_def :: tool_def where
  "write_file_def = \<lparr>td_name = ''write_file'',
     td_description = ''Write content to a workspace file. Path must be relative to the workspace root.'',
     td_parameters = schema [(''path'', typed ''string''), (''content'', typed ''string''),
       (''create_dirs'', with_default ''boolean'' None (JBool True))] (Some [''path'', ''content''])\<rparr>"

definition str_replace_def :: tool_def where
  "str_replace_def = \<lparr>td_name = ''str_replace'',
     td_description = ''Replace exactly one occurrence of `old_str` with `new_str` in a workspace file. '' @
       ''Fails with an error if `old_str` matches zero or more than one location. '' @
       ''Returns a unified diff of the change.'',
     td_parameters = schema [(''path'', described ''string'' ''File path relative to workspace root''),
       (''old_str'', described ''string'' ''Exact text to replace (must appear exactly once)''),
       (''new_str'', described ''string'' ''Replacement text'')] (Some [''path'', ''old_str'', ''new_str''])\<rparr>"

definition list_dir_def :: tool_def where
  "list_dir_def = \<lparr>td_name = ''list_dir'', td_description = ''List directory contents within the workspace.'',
     td_parameters = schema [(''path'', described ''string'' ''Directory path relative to workspace root'')] (Some [''path''])\<rparr>"

definition in_scope :: "string \<Rightarrow> string \<Rightarrow> (string \<Rightarrow> 'w \<Rightarrow> tool_outcome \<times> 'w) \<Rightarrow> 'w \<Rightarrow> tool_outcome \<times> 'w" where
  "in_scope root rel k w = (case scope_resolve root rel of
     Inl e \<Rightarrow> (ToolError (''scope violation: '' @ e), w)
   | Inr p \<Rightarrow> k p w)"

definition read_file_handler :: "tools_env \<Rightarrow> 'w filesystem \<Rightarrow> string \<Rightarrow> 'w handler" where
  "read_file_handler T F root = with_args T ''read_file'' read_file_request_from (\<lambda>q. in_scope root (rq_path q) (\<lambda>p.
     io_outcome ''read_file'' (\<lambda>r. json_object [(''path'', JString (rf_path r)), (''content'', JString (rf_content r)),
         (''truncated'', JBool (rf_truncated r))])
       (fsys_read F p (rq_offset q) (rq_max_bytes q))))"

definition write_file_handler :: "tools_env \<Rightarrow> 'w filesystem \<Rightarrow> string \<Rightarrow> 'w handler" where
  "write_file_handler T F root = with_args T ''write_file'' write_file_request_from (\<lambda>q. in_scope root (wq_path q) (\<lambda>p.
     io_outcome ''write_file'' (\<lambda>_. json_object [(''written'', JBool True)])
       (fsys_write F p (wq_content q) (wq_create_dirs q))))"

definition str_replace_handler :: "tools_env \<Rightarrow> 'w filesystem \<Rightarrow> string \<Rightarrow> 'w handler" where
  "str_replace_handler T F root = with_args T ''str_replace'' str_replace_request_from (\<lambda>q. in_scope root (xq_path q) (\<lambda>p.
     io_outcome ''str_replace'' (\<lambda>r. json_object [(''path'', JString (rr_path r)), (''diff'', JString (rr_diff r))])
       (fsys_replace F p (xq_old_str q) (xq_new_str q))))"

definition list_dir_handler :: "tools_env \<Rightarrow> 'w filesystem \<Rightarrow> string \<Rightarrow> 'w handler" where
  "list_dir_handler T F root = with_args T ''list_dir'' list_dir_args (\<lambda>q. in_scope root q (\<lambda>p.
     io_outcome ''list_dir'' (\<lambda>ns. json_object [(''entries'', JArray (map JString ns))]) (fsys_list F p)))"

definition register_filesystem :: "tools_env \<Rightarrow> 'w filesystem \<Rightarrow> string \<Rightarrow> 'w dispatcher_builder \<Rightarrow> 'w dispatcher_builder" where
  "register_filesystem T F root b =
     register_tool list_dir_def False (list_dir_handler T F root)
      (register_tool str_replace_def False (str_replace_handler T F root)
       (register_tool write_file_def False (write_file_handler T F root)
        (register_tool read_file_def False (read_file_handler T F root) b)))"

section \<open>Notifications and the browser\<close>

record notify_request =
  nq_title :: string
  nq_body :: string
  nq_badge :: "u32 option"
  nq_action :: "string option"
  nq_sound :: "string option"

record approval_prompt =
  pq_title :: string
  pq_message :: string
  pq_confirm_label :: string
  pq_deny_label :: string

datatype approval_response = PromptApproved | PromptDenied | PromptDismissed

record 'w notify_capability =
  nf_notify :: "notify_request \<Rightarrow> ('w, unit) io"
  nf_request_approval :: "approval_prompt \<Rightarrow> ('w, approval_response) io"
  nf_set_badge :: "u32 option \<Rightarrow> ('w, unit) io"

definition null_notify :: "'w notify_capability" where
  "null_notify = \<lparr>nf_notify = (\<lambda>_. io_return ()), nf_request_approval = (\<lambda>_. io_return PromptApproved),
     nf_set_badge = (\<lambda>_. io_return ())\<rparr>"

definition notify_request_from :: "json \<Rightarrow> notify_request option" where
  "notify_request_from j = (case struct_fields 5 [''title'', ''body'', ''badge'', ''action'', ''sound''] j of
     Some [t, b, n, a, s] \<Rightarrow> (case (required json_as_str t, required json_as_str b, optional json_u32_of n,
          optional json_as_str a, optional json_as_str s) of
        (Some t, Some b, Some n, Some a, Some s) \<Rightarrow>
          Some \<lparr>nq_title = t, nq_body = b, nq_badge = n, nq_action = a, nq_sound = s\<rparr>
      | _ \<Rightarrow> None)
   | _ \<Rightarrow> None)"

definition approval_prompt_from :: "json \<Rightarrow> approval_prompt option" where
  "approval_prompt_from j = (case struct_fields 2 [''title'', ''message'', ''confirm_label'', ''deny_label''] j of
     Some [t, m, c, d] \<Rightarrow> (case (required json_as_str t, required json_as_str m, defaulted json_as_str ''Allow'' c,
          defaulted json_as_str ''Deny'' d) of
        (Some t, Some m, Some c, Some d) \<Rightarrow>
          Some \<lparr>pq_title = t, pq_message = m, pq_confirm_label = c, pq_deny_label = d\<rparr>
      | _ \<Rightarrow> None)
   | _ \<Rightarrow> None)"

definition notify_def :: tool_def where
  "notify_def = \<lparr>td_name = ''notify'', td_description = ''Post a macOS notification to the user.'',
     td_parameters = schema [(''title'', typed ''string''), (''body'', typed ''string''), (''badge'', typed ''integer'')]
       (Some [''title'', ''body''])\<rparr>"

definition request_approval_def :: tool_def where
  "request_approval_def = \<lparr>td_name = ''request_approval'',
     td_description = ''Show the user a lightweight approval prompt. Returns '' @ squote @ ''approved'' @ squote @ '', '' @
       squote @ ''denied'' @ squote @ '', or '' @ squote @ ''dismissed'' @ squote @ ''.'',
     td_parameters = schema [(''title'', typed ''string''), (''message'', typed ''string'')] (Some [''title'', ''message''])\<rparr>"

fun response_text :: "approval_response \<Rightarrow> string" where
  "response_text PromptApproved = ''approved''"
| "response_text PromptDenied = ''denied''"
| "response_text PromptDismissed = ''dismissed''"

definition notify_handler :: "tools_env \<Rightarrow> 'w notify_capability \<Rightarrow> 'w handler" where
  "notify_handler T N = with_args T ''notify'' notify_request_from
     (\<lambda>q. io_outcome ''notify'' (\<lambda>_. json_object [(''sent'', JBool True)]) (nf_notify N q))"

definition request_approval_handler :: "tools_env \<Rightarrow> 'w notify_capability \<Rightarrow> 'w handler" where
  "request_approval_handler T N = with_args T ''request_approval'' approval_prompt_from
     (\<lambda>q. io_outcome ''request_approval'' (\<lambda>r. json_object [(''response'', JString (response_text r))])
        (nf_request_approval N q))"

definition register_notify :: "tools_env \<Rightarrow> 'w notify_capability \<Rightarrow> 'w dispatcher_builder \<Rightarrow> 'w dispatcher_builder" where
  "register_notify T N b = register_tool request_approval_def False (request_approval_handler T N)
     (register_tool notify_def False (notify_handler T N) b)"

text \<open>The page of the browser is the JSON value the host answers for the two flags.\<close>

definition inspect_args :: "json \<Rightarrow> (bool \<times> bool) option" where
  "inspect_args j = (case struct_fields 0 [''include_text'', ''include_dom''] j of
     Some [t, d] \<Rightarrow> (case (defaulted json_as_bool True t, defaulted json_as_bool False d) of
        (Some t, Some d) \<Rightarrow> Some (t, d) | _ \<Rightarrow> None)
   | _ \<Rightarrow> None)"

definition inspect_page_def :: tool_def where
  "inspect_page_def = \<lparr>td_name = ''inspect_page'',
     td_description = ''Return the title, URL, and visible text of the active browser tab in the current space.'',
     td_parameters = schema
       [(''include_text'', with_default ''boolean'' (Some (''Include the page'' @ squote @ ''s visible text body'')) (JBool True)),
        (''include_dom'', with_default ''boolean'' (Some ''Include a compact DOM tree (expensive)'') (JBool False))] None\<rparr>"

text \<open>Arguments that do not decode are those of \<^verbatim>\<open>Args::default()\<close>, whose flags are both false.\<close>

definition inspect_page_handler :: "tools_env \<Rightarrow> (bool \<Rightarrow> bool \<Rightarrow> ('w, json) io) \<Rightarrow> 'w handler" where
  "inspect_page_handler T inspect args w =
     (case (case decode_args T inspect_args args of None \<Rightarrow> (False, False) | Some a \<Rightarrow> a) of
        (t, d) \<Rightarrow> io_outcome ''inspect_page'' (\<lambda>j. j) (inspect t d) w)"

definition register_browser :: "tools_env \<Rightarrow> (bool \<Rightarrow> bool \<Rightarrow> ('w, json) io) \<Rightarrow> 'w dispatcher_builder \<Rightarrow> 'w dispatcher_builder" where
  "register_browser T inspect = register_tool inspect_page_def False (inspect_page_handler T inspect)"

section \<open>The factory\<close>

datatype sandbox_tier = Trusted | Sandboxed sandbox_policy

definition build_capabilities :: "tools_env \<Rightarrow> (string \<Rightarrow> string) \<Rightarrow> 'w os \<Rightarrow> 'w fs_ops \<Rightarrow> string \<Rightarrow> sandbox_tier
    \<Rightarrow> 'w dispatcher_builder" where
  "build_capabilities T lower S F root tier =
     register_notify T null_notify (case tier of
       Trusted \<Rightarrow> register_filesystem T (local_filesystem F (os_env S)) root
         (register_shell T (local_shell S root) False new_builder)
     | Sandboxed p \<Rightarrow> register_filesystem T (policy_filesystem (local_filesystem F (os_env S)) p) root
         (register_shell T (policy_shell lower (local_shell S root) p) False new_builder))"

end
