(* ===== verification/HostTools.thy ===== *)
theory HostTools
  imports Dispatcher
begin

text \<open>
  The other tools of the host: the terminal (\<^verbatim>\<open>capability/dispatcher.rs\<close>), the search in the files
  (\<^verbatim>\<open>capability/code_search.rs\<close>), the repository (\<^verbatim>\<open>capability/git.rs\<close>) and the submission of
  documents (\<^verbatim>\<open>capability/submit_document.rs\<close>). Terminals, ripgrep, the glob library, libgit2, the
  digest and the channel to the supervision loop are parameters.
\<close>

section \<open>The terminal\<close>

record terminal_args =
  ta_command :: string
  ta_cwd :: "string option"
  ta_timeout_secs :: "u64 option"

definition terminal_args_from :: "json \<Rightarrow> terminal_args option" where
  "terminal_args_from j = (case struct_fields 1 [''command'', ''cwd'', ''timeout_secs''] j of
     Some [c, d, t] \<Rightarrow> (case (required json_as_str c, optional json_as_str d, optional json_as_u64 t) of
        (Some c, Some d, Some t) \<Rightarrow> Some \<lparr>ta_command = c, ta_cwd = d, ta_timeout_secs = t\<rparr>
      | _ \<Rightarrow> None)
   | _ \<Rightarrow> None)"

text \<open>
  A session in a directory that is given a text to type: it cannot start, cannot be written to, runs
  over the limit, or ends with an output.
\<close>

datatype pty_end = PtyNotStarted string | PtyNotWritten string | PtyTimeout | PtyOutput string

definition run_terminal_def :: tool_def where
  "run_terminal_def = \<lparr>td_name = ''run_terminal'',
     td_description = ''Run a shell command in an interactive PTY in the workspace and return '' @
       ''the output. Use for build commands, test runs, or any command that '' @
       ''requires a real terminal (e.g. interactive installers). '' @
       ''Prefer `run_shell` for simple non-interactive commands.'',
     td_parameters = schema
       [(''command'', described ''string'' ''The shell command to run (passed to /bin/zsh -c)''),
        (''cwd'', described ''string'' ''Working directory (defaults to workspace root)''),
        (''timeout_secs'', described ''number'' ''Seconds to wait for the command to finish (default 60)'')]
       (Some [''command''])\<rparr>"

definition run_terminal_handler :: "tools_env \<Rightarrow> (string \<Rightarrow> string \<Rightarrow> nat \<Rightarrow> 'w \<Rightarrow> pty_end \<times> 'w) \<Rightarrow> string \<Rightarrow> 'w handler" where
  "run_terminal_handler T pty root args w = (case decode_args T terminal_args_from args of
     None \<Rightarrow> (ToolError (''run_terminal: bad args: '' @ te_error T ''run_terminal'' args), w)
   | Some a \<Rightarrow>
       (let cwd = (case ta_cwd a of None \<Rightarrow> root | Some d \<Rightarrow> d);
            secs = (case ta_timeout_secs a of None \<Rightarrow> 60 | Some n \<Rightarrow> unat n)
        in case pty cwd (ta_command a @ newline @ ''exit'' @ newline) secs w of
          (PtyNotStarted e, w') \<Rightarrow> (ToolError (''run_terminal: pty start failed: '' @ e), w')
        | (PtyNotWritten e, w') \<Rightarrow> (ToolError (''run_terminal: write failed: '' @ e), w')
        | (PtyTimeout, w') \<Rightarrow> (ToolError (''run_terminal: command timed out after '' @ show_nat secs @ ''s''), w')
        | (PtyOutput b, w') \<Rightarrow>
            (let out = utf8_lossy b in
             (Output (json_object [(''output'', JString out), (''line_count'', json_u64 (of_nat (length (str_lines out))))]), w'))))"

definition register_terminal :: "tools_env \<Rightarrow> (string \<Rightarrow> string \<Rightarrow> nat \<Rightarrow> 'w \<Rightarrow> pty_end \<times> 'w) \<Rightarrow> string
    \<Rightarrow> 'w dispatcher_builder \<Rightarrow> 'w dispatcher_builder" where
  "register_terminal T pty root = register_tool run_terminal_def False (run_terminal_handler T pty root)"

section \<open>Search\<close>

text \<open>What running ripgrep ends in; not being installed is one of the spawn errors.\<close>

datatype rg_end = RgTimeout | RgNotFound | RgSpawnError string | RgDone "32 word option" string string

definition rg_arguments :: "string \<Rightarrow> string \<Rightarrow> nat \<Rightarrow> string list" where
  "rg_arguments pattern path_glob context_lines =
     [''--json'', ''--max-count'', ''1'', ''--context'', show_nat context_lines] @
     (if path_glob = [] then [] else [''--glob'', path_glob]) @ [pattern, ''.'']"

definition text_at :: "string \<Rightarrow> json \<Rightarrow> string" where
  "text_at k data = (case json_get data k of None \<Rightarrow> [] | Some v \<Rightarrow>
     (case json_get v ''text'' of None \<Rightarrow> [] | Some t \<Rightarrow> (case json_as_str t of None \<Rightarrow> [] | Some s \<Rightarrow> s)))"

definition rg_match :: "json \<Rightarrow> json option" where
  "rg_match v =
     (let kind = (case json_get v ''type'' of None \<Rightarrow> [] | Some t \<Rightarrow> (case json_as_str t of None \<Rightarrow> [] | Some s \<Rightarrow> s))
      in if kind = ''match'' \<or> kind = ''context'' then
           (case json_get v ''data'' of
              None \<Rightarrow> None
            | Some data \<Rightarrow> Some (json_object [(''kind'', JString kind), (''path'', JString (text_at ''path'' data)),
                (''line_number'', case json_get data ''line_number'' of None \<Rightarrow> JNull | Some n \<Rightarrow> n),
                (''text'', JString (rev (dropWhile (\<lambda>c. c = CHR 0x0A) (rev (text_at ''lines'' data)))))]))
         else None)"

fun rg_results :: "(string \<Rightarrow> json option) \<Rightarrow> nat \<Rightarrow> json list \<Rightarrow> string list \<Rightarrow> json list" where
  "rg_results parse n acc [] = acc"
| "rg_results parse n acc (l # ls) =
     (if n \<le> length acc then acc
      else rg_results parse n (acc @ (case parse l of None \<Rightarrow> [] | Some v \<Rightarrow> option_list (rg_match v))) ls)"

definition run_rg_search :: "(string \<Rightarrow> json option) \<Rightarrow> (string \<Rightarrow> string list \<Rightarrow> 'w \<Rightarrow> rg_end \<times> 'w) \<Rightarrow> string
    \<Rightarrow> string \<Rightarrow> string \<Rightarrow> nat \<Rightarrow> nat \<Rightarrow> ('w, json list) io" where
  "run_rg_search parse rg root pattern path_glob context_lines max_results w =
     (case rg root (rg_arguments pattern path_glob context_lines) w of
        (RgTimeout, w') \<Rightarrow> (Inl ''rg timed out after 30 s'', w')
      | (RgNotFound, w') \<Rightarrow> (Inl ''ripgrep (`rg`) is not installed or not in PATH'', w')
      | (RgSpawnError e, w') \<Rightarrow> (Inl (''rg spawn error: '' @ e), w')
      | (RgDone code out err, w') \<Rightarrow>
          (if code = Some 2 then Inl (''rg error: '' @ utf8_lossy err)
           else Inr (rg_results parse max_results [] (str_lines (utf8_lossy out))), w'))"

definition search_args :: "json \<Rightarrow> (string \<times> string) option" where
  "search_args j = (case struct_fields 1 [''query'', ''path_glob''] j of
     Some [q, g] \<Rightarrow> (case (required json_as_str q, defaulted json_as_str [] g) of
        (Some q, Some g) \<Rightarrow> Some (q, g) | _ \<Rightarrow> None)
   | _ \<Rightarrow> None)"

definition grep_args :: "json \<Rightarrow> (string \<times> string \<times> nat) option" where
  "grep_args j = (case struct_fields 1 [''pattern'', ''path_glob'', ''context_lines''] j of
     Some [q, g, n] \<Rightarrow> (case (required json_as_str q, defaulted json_as_str [] g, defaulted json_as_u64 0 n) of
        (Some q, Some g, Some n) \<Rightarrow> Some (q, g, unat n) | _ \<Rightarrow> None)
   | _ \<Rightarrow> None)"

definition glob_args :: "json \<Rightarrow> string option" where
  "glob_args j = (case struct_fields 1 [''pattern''] j of Some [p] \<Rightarrow> required json_as_str p | _ \<Rightarrow> None)"

definition search_workspace_def :: tool_def where
  "search_workspace_def = \<lparr>td_name = ''search_workspace'',
     td_description = ''Full-text search across all workspace files using ripgrep. '' @
       ''Returns up to 20 matches with surrounding context. '' @
       ''Use `path_glob` to restrict to a sub-tree (e.g. '' @ squote @ ''src/**/*.rs'' @ squote @ '').'',
     td_parameters = schema [(''query'', described ''string'' ''Search query (regex)''),
       (''path_glob'', with_default ''string'' (Some ''Optional glob pattern to limit search scope'') (JString []))] (Some [''query''])\<rparr>"

definition grep_workspace_def :: tool_def where
  "grep_workspace_def = \<lparr>td_name = ''grep_workspace'',
     td_description = ''Search workspace files with a regex pattern via ripgrep. '' @
       ''Returns up to 50 matches. Set `context_lines` for surrounding context.'',
     td_parameters = schema [(''pattern'', described ''string'' ''Regex pattern''),
       (''path_glob'', with_default ''string'' (Some ''Optional glob to restrict to a subtree'') (JString [])),
       (''context_lines'', with_default ''integer'' (Some ''Lines of context before/after each match (default 0)'') (json_u64 0))]
       (Some [''pattern''])\<rparr>"

definition glob_files_def :: tool_def where
  "glob_files_def = \<lparr>td_name = ''glob_files'',
     td_description = ''List workspace files matching a glob pattern. '' @
       ''Respects .gitignore. Returns up to 200 paths; '' @
       ''`truncated: true` when limit exceeded.'',
     td_parameters = schema [(''pattern'', described ''string'' (''Glob pattern relative to workspace root (e.g. '' @
       squote @ ''src/**/*.rs'' @ squote @ '')''))] (Some [''pattern''])\<rparr>"

text \<open>
  The walker answers the files of the workspace in its order, or the text of an error of the pattern;
  the first ones up to the limit are kept and sorted.
\<close>

definition run_glob :: "(string \<Rightarrow> string \<Rightarrow> ('w, string list) io) \<Rightarrow> string \<Rightarrow> string \<Rightarrow> nat \<Rightarrow> ('w, string list \<times> bool) io" where
  "run_glob walk root pattern limit = io_bind (walk root pattern) (\<lambda>fs.
     io_return (sort (take limit fs), limit < length fs))"

definition matches_json :: "json list \<Rightarrow> json" where
  "matches_json ms = json_object [(''matches'', JArray ms)]"

definition register_search :: "tools_env \<Rightarrow> (string \<Rightarrow> json option) \<Rightarrow> (string \<Rightarrow> string list \<Rightarrow> 'w \<Rightarrow> rg_end \<times> 'w)
    \<Rightarrow> (string \<Rightarrow> string \<Rightarrow> ('w, string list) io) \<Rightarrow> string \<Rightarrow> 'w dispatcher_builder \<Rightarrow> 'w dispatcher_builder" where
  "register_search T parse rg walk root b =
     register_tool glob_files_def False (with_args T ''glob_files'' glob_args (\<lambda>p.
         io_outcome ''glob_files'' (\<lambda>(fs, t). json_object [(''files'', JArray (map JString fs)), (''truncated'', JBool t)])
           (run_glob walk root p 200)))
      (register_tool grep_workspace_def False (with_args T ''grep_workspace'' grep_args (\<lambda>(q, g, n).
         io_outcome ''grep_workspace'' matches_json (run_rg_search parse rg root q g n 50)))
       (register_tool search_workspace_def False (with_args T ''search_workspace'' search_args (\<lambda>(q, g).
         io_outcome ''search_workspace'' matches_json (run_rg_search parse rg root q g 3 20))) b))"

section \<open>The repository\<close>

record 'w git_ops =
  git_status :: "('w, json list) io"
  git_diff :: "string option \<Rightarrow> bool \<Rightarrow> ('w, string) io"
  git_log :: "nat \<Rightarrow> ('w, json list) io"
  git_add :: "string list \<Rightarrow> ('w, string list) io"
  git_reset :: "string list \<Rightarrow> ('w, string list) io"
  git_commit :: "string \<Rightarrow> ('w, string \<times> string list) io"
  git_branch :: "('w, string) io"
  git_push :: "string \<Rightarrow> string \<Rightarrow> ('w, nat) io"

definition git_outcome :: "string \<Rightarrow> ('a \<Rightarrow> json) \<Rightarrow> ('w, 'a) io \<Rightarrow> 'w \<Rightarrow> tool_outcome \<times> 'w" where
  "git_outcome what f op w = (case op w of
     (Inl e, w') \<Rightarrow> (ToolError (what @ '': '' @ e), w')
   | (Inr x, w') \<Rightarrow> (Output (f x), w'))"

definition diff_args :: "json \<Rightarrow> (string option \<times> bool) option" where
  "diff_args j = (case struct_fields 0 [''ref'', ''staged''] j of
     Some [r, s] \<Rightarrow> (case (optional json_as_str r, defaulted json_as_bool False s) of
        (Some r, Some s) \<Rightarrow> Some (r, s) | _ \<Rightarrow> None)
   | _ \<Rightarrow> None)"

definition log_args :: "json \<Rightarrow> nat option" where
  "log_args j = (case struct_fields 0 [''n''] j of
     Some [n] \<Rightarrow> map_option unat (defaulted json_as_u64 10 n) | _ \<Rightarrow> None)"

definition paths_args :: "json \<Rightarrow> string list option" where
  "paths_args j = (case struct_fields 1 [''paths''] j of Some [p] \<Rightarrow> required (each json_as_str) p | _ \<Rightarrow> None)"

definition commit_args :: "json \<Rightarrow> (string \<times> string option) option" where
  "commit_args j = (case struct_fields 1 [''message'', ''notes''] j of
     Some [m, n] \<Rightarrow> (case (required json_as_str m, optional json_as_str n) of
        (Some m, Some n) \<Rightarrow> Some (m, n) | _ \<Rightarrow> None)
   | _ \<Rightarrow> None)"

definition push_args :: "json \<Rightarrow> (string option \<times> string option) option" where
  "push_args j = (case struct_fields 0 [''remote'', ''branch''] j of
     Some [r, b] \<Rightarrow> (case (optional json_as_str r, optional json_as_str b) of
        (Some r, Some b) \<Rightarrow> Some (r, b) | _ \<Rightarrow> None)
   | _ \<Rightarrow> None)"

definition git_status_handler :: "'w git_ops \<Rightarrow> 'w handler" where
  "git_status_handler G args = git_outcome ''git_status'' (\<lambda>es. json_object [(''entries'', JArray es)]) (git_status G)"

definition git_diff_handler :: "tools_env \<Rightarrow> 'w git_ops \<Rightarrow> 'w handler" where
  "git_diff_handler T G args = (case (case decode_args T diff_args args of None \<Rightarrow> (None, False) | Some a \<Rightarrow> a) of
     (r, s) \<Rightarrow> git_outcome ''git_diff'' (\<lambda>d. json_object [(''diff'', JString d)]) (git_diff G r s))"

definition git_log_handler :: "tools_env \<Rightarrow> 'w git_ops \<Rightarrow> 'w handler" where
  "git_log_handler T G args = git_outcome ''git_log'' (\<lambda>cs. json_object [(''commits'', JArray cs)])
     (git_log G (case decode_args T log_args args of None \<Rightarrow> 10 | Some n \<Rightarrow> n))"

definition git_add_handler :: "tools_env \<Rightarrow> 'w git_ops \<Rightarrow> 'w handler" where
  "git_add_handler T G = with_args T ''git_add'' paths_args (\<lambda>ps.
     git_outcome ''git_add'' (\<lambda>s. json_object [(''staged'', JArray (map JString s))]) (git_add G ps))"

definition git_reset_handler :: "tools_env \<Rightarrow> 'w git_ops \<Rightarrow> 'w handler" where
  "git_reset_handler T G = with_args T ''git_reset'' paths_args (\<lambda>ps.
     git_outcome ''git_reset'' (\<lambda>s. json_object [(''unstaged'', JArray (map JString s))]) (git_reset G ps))"

definition git_commit_handler :: "tools_env \<Rightarrow> 'w git_ops \<Rightarrow> 'w handler" where
  "git_commit_handler T G = with_args T ''git_commit'' commit_args (\<lambda>(m, n).
     let msg = (case n of None \<Rightarrow> m | Some t \<Rightarrow> t) in
     git_outcome ''git_commit'' (\<lambda>(h, fs). json_object [(''hash'', JString h), (''message'', JString msg),
         (''files_changed'', JArray (map JString fs))]) (git_commit G msg))"

definition git_push_handler :: "tools_env \<Rightarrow> 'w git_ops \<Rightarrow> 'w handler" where
  "git_push_handler T G args w =
     (case (case decode_args T push_args args of None \<Rightarrow> (None, None) | Some a \<Rightarrow> a) of (r, b) \<Rightarrow>
       (let remote = (case r of None \<Rightarrow> ''origin'' | Some x \<Rightarrow> x) in
        case (case b of None \<Rightarrow> git_branch G w | Some x \<Rightarrow> (Inr x, w)) of
          (Inl e, w') \<Rightarrow> (ToolError (''git_push: cannot determine branch: '' @ e), w')
        | (Inr branch, w') \<Rightarrow> git_outcome ''git_push'' (\<lambda>n. json_object [(''remote'', JString remote),
            (''branch'', JString branch), (''commits_pushed'', json_u64 (of_nat n))]) (git_push G remote branch) w'))"

definition git_tool_defs :: "tool_def list" where
  "git_tool_defs =
     [\<lparr>td_name = ''git_status'', td_description = ''List tracked files with changes: staged, unstaged, untracked.'',
        td_parameters = schema [] (Some [])\<rparr>,
      \<lparr>td_name = ''git_diff'', td_description = ''Show unified diff of working tree vs a ref (default: HEAD). '' @
          ''Pass `staged: true` to diff staged changes vs HEAD.'',
        td_parameters = schema [(''ref'', described ''string'' ''Git ref to diff against (default: HEAD)''),
          (''staged'', described ''boolean'' ''If true, diff staged changes vs HEAD'')] (Some [])\<rparr>,
      \<lparr>td_name = ''git_log'', td_description = ''Show recent commits. `n` controls how many to return (default 10).'',
        td_parameters = schema [(''n'', with_default ''integer'' (Some ''Number of commits to return (default 10)'') (json_u64 10))] (Some [])\<rparr>,
      \<lparr>td_name = ''git_add'', td_description = ''Stage files for the next commit. Pass `paths` as a list.'',
        td_parameters = schema [(''paths'', json_object [(''type'', JString ''array''), (''items'', typed ''string''),
          (''description'', JString ''Paths to stage (relative to workspace root)'')])] (Some [''paths''])\<rparr>,
      \<lparr>td_name = ''git_reset'', td_description = ''Unstage files (non-destructive: resets index to HEAD for listed paths).'',
        td_parameters = schema [(''paths'', json_object [(''type'', JString ''array''), (''items'', typed ''string''),
          (''description'', JString ''Paths to unstage'')])] (Some [''paths''])\<rparr>,
      \<lparr>td_name = ''git_commit'', td_description = ''Create a commit from staged changes. Requires approval. '' @
          ''The reviewer may override the commit message via `notes`.'',
        td_parameters = schema [(''message'', described ''string'' ''Commit message'')] (Some [''message''])\<rparr>,
      \<lparr>td_name = ''git_push'', td_description = ''Push commits to a remote. Always requires approval. '' @
          ''Defaults to `origin` and current branch.'',
        td_parameters = schema [(''remote'', described ''string'' ''Remote name (default: origin)''),
          (''branch'', described ''string'' ''Branch name (default: current branch)'')] (Some [])\<rparr>]"

definition register_git_tools :: "tools_env \<Rightarrow> 'w git_ops \<Rightarrow> 'w dispatcher_builder \<Rightarrow> 'w dispatcher_builder" where
  "register_git_tools T G b = foldl (\<lambda>b (d, approval, h). register_tool d approval h b) b
     (zip git_tool_defs [(False, git_status_handler G), (False, git_diff_handler T G), (False, git_log_handler T G),
        (False, git_add_handler T G), (False, git_reset_handler T G), (True, git_commit_handler T G),
        (True, git_push_handler T G)])"

section \<open>Submitting a document\<close>

record document_submitted =
  ds_run_id :: string
  ds_flow_id :: string
  ds_doc_type :: string
  ds_document_id :: string
  ds_relative_path :: string
  ds_agent_id :: string
  ds_body :: string
  ds_revision :: u32
  ds_sha256 :: string

text \<open>\<^verbatim>\<open>parse::<u32>\<close>: decimal digits, after a plus sign or not, below the bound.\<close>

fun digits_value :: "nat \<Rightarrow> string \<Rightarrow> nat option" where
  "digits_value n [] = Some n"
| "digits_value n (c # s) =
     (let k = of_char c in if 48 \<le> k \<and> k \<le> (57 :: nat) then digits_value (n * 10 + (k - 48)) s else None)"

definition parse_u32 :: "string \<Rightarrow> u32 option" where
  "parse_u32 s =
     (let ds = (if s \<noteq> [] \<and> hd s = CHR ''+'' then tl s else s) in
      if ds = [] then None
      else case digits_value 0 ds of None \<Rightarrow> None | Some n \<Rightarrow> if n < 2 ^ 32 then Some (of_nat n) else None)"

text \<open>The highest revision among the names of a directory; a name shorter than the cut panics.\<close>

fun history_max :: "string \<Rightarrow> u32 \<Rightarrow> string list \<Rightarrow> u32 option" where
  "history_max prefix m [] = Some m"
| "history_max prefix m (s # ss) =
     (if \<not> str_starts_with s prefix \<or> \<not> str_starts_with (rev s) (rev ''.md'') then history_max prefix m ss
      else if length s - 3 < length prefix then None
      else history_max prefix (case parse_u32 (slice (length prefix) (length s - 3) s) of None \<Rightarrow> m | Some n \<Rightarrow> max m n) ss)"

record 'w document_env =
  de_ops :: "'w fs_ops"
  de_lock :: "string \<Rightarrow> ('w, unit) io"
  de_sha256 :: "string \<Rightarrow> string"
  de_panic :: string
  de_signal :: "document_submitted \<Rightarrow> 'w \<Rightarrow> bool \<times> 'w"

definition count_history_revisions :: "'w document_env \<Rightarrow> string \<Rightarrow> string \<Rightarrow> ('w, u32) io" where
  "count_history_revisions D dir doc_id w = (case fs_read_dir (de_ops D) dir w of
     (Inl _, w') \<Rightarrow> (Inr 0, w')
   | (Inr names, w') \<Rightarrow> (case history_max (doc_id @ ''.'') 0 (map utf8_lossy names) of
        None \<Rightarrow> (Inl (de_panic D), w') | Some m \<Rightarrow> (Inr m, w')))"

definition atomic_write :: "'w fs_ops \<Rightarrow> string \<Rightarrow> string \<Rightarrow> ('w, unit) io" where
  "atomic_write F path content = (let tmp = with_extension path ''tmp'' in
     io_bind (fs_write F tmp content) (\<lambda>_. fs_rename F tmp path))"

definition document_dirs :: "string \<Rightarrow> string option \<Rightarrow> string \<Rightarrow> string \<Rightarrow> string \<times> string \<times> string" where
  "document_dirs root cache fid rid =
     (let specs = path_join (path_join (path_join root ''.cronymax'') ''specs'') rid in
      case cache of
        Some cd \<Rightarrow> (let base = path_join (path_join cd ''flows'') fid
                    in (specs, path_join base ''history'', path_join base ''locks''))
      | None \<Rightarrow> (specs, path_join specs ''.history'', path_join specs ''.locks''))"

definition write_revision :: "'w document_env \<Rightarrow> string \<times> string \<times> string \<Rightarrow> string \<Rightarrow> string \<Rightarrow> ('w, u32 \<times> string) io" where
  "write_revision D dirs doc_id content = (case dirs of (specs, history, locks) \<Rightarrow>
     io_bind (fs_create_dir_all (de_ops D) specs) (\<lambda>_.
     io_bind (fs_create_dir_all (de_ops D) history) (\<lambda>_.
     io_bind (fs_create_dir_all (de_ops D) locks) (\<lambda>_.
     io_bind (de_lock D (path_join locks (doc_id @ ''.lock''))) (\<lambda>_.
     io_bind (count_history_revisions D history doc_id) (\<lambda>n.
     let r = n + 1 in
     io_bind (atomic_write (de_ops D) (path_join history (doc_id @ ''.'' @ show_nat (unat r) @ ''.md'')) content) (\<lambda>_.
     io_bind (atomic_write (de_ops D) (path_join specs (doc_id @ ''.md'')) content) (\<lambda>_.
     io_return (r, de_sha256 D content)))))))))"

definition persist_flow_document :: "'w document_env \<Rightarrow> string \<Rightarrow> string \<Rightarrow> string \<Rightarrow> string \<Rightarrow> string \<Rightarrow> string \<Rightarrow> string
    \<Rightarrow> string option \<Rightarrow> ('w, document_submitted) io" where
  "persist_flow_document D root fid rid aid dt title body cache w =
     (if dt = [] then (Inl ''doc_type must not be empty'', w)
      else if body = [] then (Inl ''body must not be empty'', w)
      else let content = ''---'' @ newline @ ''title: '' @ title @ newline @ ''doc_type: '' @ dt @ newline @ ''---'' @
             newline @ newline @ body
      in case write_revision D (document_dirs root cache fid rid) dt content w of
        (Inl e, w') \<Rightarrow> (Inl (''write failed: '' @ e), w')
      | (Inr (r, sha), w') \<Rightarrow> (Inr \<lparr>ds_run_id = rid, ds_flow_id = fid, ds_doc_type = dt,
          ds_document_id = dt, ds_relative_path = ''.cronymax/specs/'' @ rid @ ''/'' @ dt @ ''.md'',
          ds_agent_id = aid, ds_body = body, ds_revision = r, ds_sha256 = sha\<rparr>, w'))"

definition submit_args :: "json \<Rightarrow> (string \<times> string \<times> string) option" where
  "submit_args j = (case struct_fields 3 [''doc_type'', ''title'', ''body''] j of
     Some [d, t, b] \<Rightarrow> (case (required json_as_str d, required json_as_str t, required json_as_str b) of
        (Some d, Some t, Some b) \<Rightarrow> Some (d, t, b) | _ \<Rightarrow> None)
   | _ \<Rightarrow> None)"

definition submit_document_handler :: "tools_env \<Rightarrow> 'w document_env \<Rightarrow> string \<Rightarrow> string \<Rightarrow> string \<Rightarrow> string
    \<Rightarrow> string option \<Rightarrow> 'w handler" where
  "submit_document_handler T D root fid rid aid cache =
     with_args T ''submit_document'' submit_args (\<lambda>(d, t, b) w.
       case persist_flow_document D root fid rid aid d t b cache w of
         (Inl e, w') \<Rightarrow> (ToolError (''submit_document: '' @ e), w')
       | (Inr evt, w') \<Rightarrow> (case de_signal D evt w' of
           (False, w'') \<Rightarrow> (ToolError ''submit_document: run supervision channel is full; please retry in a moment'', w'')
         | (True, w'') \<Rightarrow> (Output (json_object [(''document_id'', JString (ds_document_id evt)),
             (''path'', JString (ds_relative_path evt)), (''revision'', json_u32 (ds_revision evt)),
             (''sha256'', JString (ds_sha256 evt))]), w'')))"

definition submit_document_def :: tool_def where
  "submit_document_def = \<lparr>td_name = ''submit_document'',
     td_description = ''Submit a document produced during this run. '' @
       ''The document is written to the workspace and queued for routing '' @
       ''to downstream agents. Use this to deliver your output.'',
     td_parameters = schema
       [(''doc_type'', described ''string'' (''Document type identifier (e.g. '' @ squote @ ''prd'' @ squote @ '', '' @
          squote @ ''implementation-plan'' @ squote @ '')'')),
        (''title'', described ''string'' ''Short human-readable title for the document''),
        (''body'', described ''string'' ''Full Markdown body of the document'')] (Some [''doc_type'', ''title'', ''body''])\<rparr>"

definition register_submit_document :: "tools_env \<Rightarrow> 'w document_env \<Rightarrow> string \<Rightarrow> string \<Rightarrow> string \<Rightarrow> string
    \<Rightarrow> string option \<Rightarrow> 'w dispatcher_builder \<Rightarrow> 'w dispatcher_builder" where
  "register_submit_document T D root fid rid aid cache =
     register_tool submit_document_def False (submit_document_handler T D root fid rid aid cache)"

end
