(* ===== verification/TestRunner.thy ===== *)
theory TestRunner
  imports HostTools
begin

text \<open>
  The test suites of a workspace (\<^verbatim>\<open>capability/test_runner.rs\<close>): their discovery in a view of the
  files, the readings of four report formats, and the tools over them. Counters have 32 bits. The
  parsers of texts, the processes and the display of a list of names are parameters.
\<close>

section \<open>Results\<close>

datatype runner_kind = Jest | Vitest | Pytest | GoTest

record test_failure =
  tf_name :: string
  tf_message :: string

record test_result =
  tr_suite :: string
  tr_runner :: runner_kind
  tr_total :: u32
  tr_passed :: u32
  tr_failed :: u32
  tr_skipped :: u32
  tr_duration_ms :: u64
  tr_failures :: "test_failure list"

record discovered_suite =
  dsu_name :: string
  dsu_runner :: runner_kind
  dsu_project_root :: string

fun runner_text :: "runner_kind \<Rightarrow> string" where
  "runner_text Jest = ''jest''"
| "runner_text Vitest = ''vitest''"
| "runner_text Pytest = ''pytest''"
| "runner_text GoTest = ''go_test''"

definition failure_json :: "test_failure \<Rightarrow> json" where
  "failure_json f = json_object [(''name'', JString (tf_name f)), (''message'', JString (tf_message f))]"

text \<open>The coverage is absent in every result.\<close>

definition test_result_json :: "test_result \<Rightarrow> json" where
  "test_result_json r = json_object [(''suite'', JString (tr_suite r)), (''runner'', JString (runner_text (tr_runner r))),
     (''total'', json_u32 (tr_total r)), (''passed'', json_u32 (tr_passed r)), (''failed'', json_u32 (tr_failed r)),
     (''skipped'', json_u32 (tr_skipped r)), (''duration_ms'', json_u64 (tr_duration_ms r)),
     (''failures'', JArray (map failure_json (tr_failures r))), (''coverage'', JNull)]"

definition suite_json :: "discovered_suite \<Rightarrow> json" where
  "suite_json s = json_object [(''name'', JString (dsu_name s)), (''runner'', JString (runner_text (dsu_runner s))),
     (''project_root'', JString (dsu_project_root s))]"

section \<open>Discovery\<close>

text \<open>A view of the files: the names in a directory, what a path is, and the text of a file.\<close>

record fs_view =
  fv_entries :: "string \<Rightarrow> string list"
  fv_is_dir :: "string \<Rightarrow> bool"
  fv_is_file :: "string \<Rightarrow> bool"
  fv_exists :: "string \<Rightarrow> bool"
  fv_text :: "string \<Rightarrow> string option"

fun object_values :: "json \<Rightarrow> json list" where
  "object_values (JObject ms) = map snd ms"
| "object_values _ = []"

definition has_dep :: "json \<Rightarrow> string \<Rightarrow> bool" where
  "has_dep v nm \<longleftrightarrow> (\<exists>k \<in> {''devDependencies'', ''dependencies''}.
     case json_get v k of None \<Rightarrow> False | Some d \<Rightarrow> json_get d nm \<noteq> None)"

definition scripts_contain :: "json \<Rightarrow> string \<Rightarrow> bool" where
  "scripts_contain v nm = (case json_get v ''scripts'' of None \<Rightarrow> False | Some s \<Rightarrow>
     list_ex (\<lambda>x. str_contains (case json_as_str x of None \<Rightarrow> [] | Some t \<Rightarrow> t) nm) (object_values s))"

definition detect_js_runner :: "(string \<Rightarrow> json option) \<Rightarrow> fs_view \<Rightarrow> string \<Rightarrow> runner_kind option" where
  "detect_js_runner parse V pkg = (case fv_text V pkg of
     None \<Rightarrow> None
   | Some raw \<Rightarrow> (case parse raw of
       None \<Rightarrow> None
     | Some v \<Rightarrow> if has_dep v ''vitest'' \<or> scripts_contain v ''vitest'' then Some Vitest
         else if has_dep v ''jest'' \<or> scripts_contain v ''jest'' then Some Jest else None))"

definition js_suite :: "(string \<Rightarrow> json option) \<Rightarrow> fs_view \<Rightarrow> string \<Rightarrow> string \<Rightarrow> discovered_suite list" where
  "js_suite parse V dir label =
     (if \<not> fv_exists V (path_join dir ''package.json'') then []
      else case detect_js_runner parse V (path_join dir ''package.json'') of
        None \<Rightarrow> []
      | Some k \<Rightarrow> [\<lparr>dsu_name = runner_text k @ '' ('' @ label @ '')'', dsu_runner = k, dsu_project_root = dir\<rparr>])"

definition has_go_tests :: "fs_view \<Rightarrow> string \<Rightarrow> bool" where
  "has_go_tests V root = list_ex (\<lambda>nm. utf8_valid nm \<and> fv_is_file V (path_join root nm) \<and> str_starts_with (rev nm) (rev ''_test.go''))
     (fv_entries V root)"

definition discover_suites :: "(string \<Rightarrow> json option) \<Rightarrow> fs_view \<Rightarrow> string \<Rightarrow> discovered_suite list" where
  "discover_suites parse V root =
     concat (map (\<lambda>nm. if fv_is_dir V (path_join root nm) then js_suite parse V (path_join root nm) (utf8_lossy nm) else [])
       (fv_entries V root)) @
     js_suite parse V root ''root'' @
     (if fv_exists V (path_join root ''pyproject.toml'') \<or> fv_exists V (path_join root ''setup.cfg'')
      then [\<lparr>dsu_name = ''pytest'', dsu_runner = Pytest, dsu_project_root = root\<rparr>] else []) @
     (if has_go_tests V root then [\<lparr>dsu_name = ''go test'', dsu_runner = GoTest, dsu_project_root = root\<rparr>] else [])"

section \<open>Reports\<close>

text \<open>\<^verbatim>\<open>json["k"]\<close> and the readings of what it finds; \<^verbatim>\<open>as u32\<close> keeps the low half.\<close>

definition count_at :: "json \<Rightarrow> string \<Rightarrow> u32" where
  "count_at j k = (case json_as_u64 (json_index j k) of None \<Rightarrow> 0 | Some n \<Rightarrow> ucast n)"

definition array_at :: "json \<Rightarrow> string \<Rightarrow> json list" where
  "array_at j k = (case json_as_array (json_index j k) of None \<Rightarrow> [] | Some xs \<Rightarrow> xs)"

definition string_at :: "json \<Rightarrow> string \<Rightarrow> string" where
  "string_at j k = (case json_as_str (json_index j k) of None \<Rightarrow> [] | Some s \<Rightarrow> s)"

definition first_message :: "json \<Rightarrow> string" where
  "first_message t = (case array_at t ''failureMessages'' of
     [] \<Rightarrow> [] | m # _ \<Rightarrow> (case json_as_str m of None \<Rightarrow> [] | Some s \<Rightarrow> s))"

definition parse_jest_output :: "(string \<Rightarrow> string + json) \<Rightarrow> string \<Rightarrow> string \<Rightarrow> u64 \<Rightarrow> string + test_result" where
  "parse_jest_output parse out err ms = (case parse out of
     Inl e \<Rightarrow> Inl (''jest JSON parse error: '' @ e @ newline @ ''stderr: '' @ utf8_lossy err)
   | Inr j \<Rightarrow>
       (let p = count_at j ''numPassedTests''; f = count_at j ''numFailedTests''; s = count_at j ''numPendingTests''
        in Inr \<lparr>tr_suite = ''jest'', tr_runner = Jest, tr_total = p + f + s, tr_passed = p, tr_failed = f, tr_skipped = s,
             tr_duration_ms = ms,
             tr_failures = concat (map (\<lambda>suite. map (\<lambda>t. \<lparr>tf_name = string_at t ''fullName'', tf_message = first_message t\<rparr>)
               (filter (\<lambda>t. json_as_str (json_index t ''status'') = Some ''failed'') (array_at suite ''testResults'')))
               (array_at j ''testResults''))\<rparr>))"

text \<open>The counters of a report that is read entry by entry.\<close>

record tally =
  ty_passed :: u32
  ty_failed :: u32
  ty_skipped :: u32
  ty_failures :: "test_failure list"

definition new_tally :: tally where
  "new_tally = \<lparr>ty_passed = 0, ty_failed = 0, ty_skipped = 0, ty_failures = []\<rparr>"

definition tally_result :: "string \<Rightarrow> runner_kind \<Rightarrow> u64 \<Rightarrow> tally \<Rightarrow> test_result" where
  "tally_result nm k ms y = \<lparr>tr_suite = nm, tr_runner = k, tr_total = ty_passed y + ty_failed y + ty_skipped y,
     tr_passed = ty_passed y, tr_failed = ty_failed y, tr_skipped = ty_skipped y, tr_duration_ms = ms,
     tr_failures = ty_failures y\<rparr>"

definition add_passed :: "tally \<Rightarrow> tally" where
  "add_passed y = y\<lparr>ty_passed := ty_passed y + 1\<rparr>"

definition add_skipped :: "tally \<Rightarrow> tally" where
  "add_skipped y = y\<lparr>ty_skipped := ty_skipped y + 1\<rparr>"

definition add_failed :: "string \<Rightarrow> string \<Rightarrow> tally \<Rightarrow> tally" where
  "add_failed nm msg y = y\<lparr>ty_failed := ty_failed y + 1, ty_failures := ty_failures y @ [\<lparr>tf_name = nm, tf_message = msg\<rparr>]\<rparr>"

definition vitest_step :: "tally \<Rightarrow> json \<Rightarrow> tally" where
  "vitest_step y t = (let st = json_as_str (json_index t ''status'') in
     if st = Some ''passed'' then add_passed y
     else if st = Some ''failed'' then
       add_failed (case json_as_str (json_index t ''fullName'') of Some s \<Rightarrow> s | None \<Rightarrow> string_at t ''title'')
         (first_message t) y
     else if st = Some ''pending'' \<or> st = Some ''skipped'' \<or> st = Some ''todo'' then add_skipped y
     else y)"

definition parse_vitest_output :: "(string \<Rightarrow> string + json) \<Rightarrow> string \<Rightarrow> u64 \<Rightarrow> string + test_result" where
  "parse_vitest_output parse out ms = (case parse out of
     Inl e \<Rightarrow> Inl (''vitest JSON parse error: '' @ e)
   | Inr j \<Rightarrow> Inr (tally_result ''vitest'' Vitest ms (foldl vitest_step new_tally
       (concat (map (\<lambda>suite. array_at suite ''assertionResults'') (array_at j ''testResults''))))))"

definition parse_pytest_output :: "(string \<Rightarrow> string + json) \<Rightarrow> string \<Rightarrow> u64 \<Rightarrow> string + test_result" where
  "parse_pytest_output parse out ms = (case parse out of
     Inl e \<Rightarrow> Inl (''pytest JSON parse error: '' @ e)
   | Inr j \<Rightarrow>
       (let s = json_index j ''summary''; p = count_at s ''passed''; f = count_at s ''failed''; k = count_at s ''skipped''
        in Inr \<lparr>tr_suite = ''pytest'', tr_runner = Pytest,
             tr_total = (case json_as_u64 (json_index s ''total'') of None \<Rightarrow> p + f + k | Some n \<Rightarrow> ucast n),
             tr_passed = p, tr_failed = f, tr_skipped = k, tr_duration_ms = ms,
             tr_failures = map (\<lambda>t. \<lparr>tf_name = string_at t ''nodeid'', tf_message = string_at (json_index t ''call'') ''longrepr''\<rparr>)
               (filter (\<lambda>t. json_as_str (json_index t ''outcome'') = Some ''failed'') (array_at j ''tests''))\<rparr>))"

text \<open>The lines of \<^verbatim>\<open>go test -json\<close>: what a test printed is kept until the test fails.\<close>

type_synonym go_state = "tally \<times> (string \<times> string list) list"

definition go_step :: "go_state \<Rightarrow> json \<Rightarrow> go_state" where
  "go_step st v = (case st of (y, outs) \<Rightarrow>
     (let act = string_at v ''Action''; nm = string_at v ''Test'' in
      if nm = [] then (y, outs)
      else if act = ''pass'' then (add_passed y, outs)
      else if act = ''fail'' then
        (add_failed nm (case map_of outs nm of None \<Rightarrow> [] | Some ls \<Rightarrow> concat ls) y, hm_remove nm outs)
      else if act = ''skip'' then (add_skipped y, outs)
      else if act = ''output'' then
        (case json_as_str (json_index v ''Output'') of
           None \<Rightarrow> (y, outs)
         | Some s \<Rightarrow> (y, hm_put nm ((case map_of outs nm of None \<Rightarrow> [] | Some ls \<Rightarrow> ls) @ [s]) outs))
      else (y, outs)))"

definition go_line :: "(string \<Rightarrow> string + json) \<Rightarrow> go_state \<Rightarrow> string \<Rightarrow> go_state" where
  "go_line parse st l = (let t = str_trim l in
     if t = [] then st else case parse t of Inl _ \<Rightarrow> st | Inr v \<Rightarrow> go_step st v)"

definition parse_go_test_output :: "(string \<Rightarrow> string + json) \<Rightarrow> string \<Rightarrow> string \<Rightarrow> u64 \<Rightarrow> string + test_result" where
  "parse_go_test_output parse utf8_error out ms =
     (if \<not> utf8_valid out then Inl (''go test output is not UTF-8: '' @ utf8_error)
      else Inr (tally_result ''go test'' GoTest ms (fst (foldl (go_line parse) (new_tally, []) (str_lines out)))))"

section \<open>Running\<close>

text \<open>A process is given its program, its arguments and its directory, and answers both outputs and a duration.\<close>

record 'w test_env =
  tv_parse :: "string \<Rightarrow> string + json"
  tv_utf8_error :: "string \<Rightarrow> string"
  tv_view :: "'w \<Rightarrow> fs_view"
  tv_run :: "string \<Rightarrow> string list \<Rightarrow> string \<Rightarrow> ('w, string \<times> string \<times> u64) io"
  tv_debug :: "string list \<Rightarrow> string"
  tv_get_report :: "string \<Rightarrow> 'w \<Rightarrow> test_result option"
  tv_set_report :: "string \<Rightarrow> test_result \<Rightarrow> 'w \<Rightarrow> 'w"

definition runner_command :: "runner_kind \<Rightarrow> string option \<Rightarrow> string \<times> string list" where
  "runner_command k flt = (let f = (case flt of None \<Rightarrow> [] | Some s \<Rightarrow> [s]) in case k of
     Jest \<Rightarrow> (''npx'', [''jest'', ''--json'', ''--forceExit''] @ map (\<lambda>s. ''--testPathPattern='' @ s) f)
   | Vitest \<Rightarrow> (''npx'', [''vitest'', ''run'', ''--reporter=json''] @ f)
   | Pytest \<Rightarrow> (''pytest'', [''--json-report'', ''--json-report-file=-''] @ f)
   | GoTest \<Rightarrow> (''go'', [''test'', ''-json''] @ (if f = [] then [''./...''] else f)))"

definition parse_report :: "'w test_env \<Rightarrow> runner_kind \<Rightarrow> string \<Rightarrow> string \<Rightarrow> u64 \<Rightarrow> string + test_result" where
  "parse_report V k out err ms = (case k of
     Jest \<Rightarrow> parse_jest_output (tv_parse V) out err ms
   | Vitest \<Rightarrow> parse_vitest_output (tv_parse V) out ms
   | Pytest \<Rightarrow> parse_pytest_output (tv_parse V) out ms
   | GoTest \<Rightarrow> parse_go_test_output (tv_parse V) (tv_utf8_error V out) out ms)"

definition run_runner :: "'w test_env \<Rightarrow> runner_kind \<Rightarrow> string \<Rightarrow> string option \<Rightarrow> ('w, test_result) io" where
  "run_runner V k dir flt = (case runner_command k flt of (prog, args) \<Rightarrow>
     io_bind (tv_run V prog args dir) (\<lambda>(out, err, ms).
       case parse_report V k out err ms of Inl e \<Rightarrow> io_fail e | Inr r \<Rightarrow> io_return r))"

definition value_parse :: "'w test_env \<Rightarrow> string \<Rightarrow> json option" where
  "value_parse V s = (case tv_parse V s of Inl _ \<Rightarrow> None | Inr j \<Rightarrow> Some j)"

definition tool_discover :: "'w test_env \<Rightarrow> string \<Rightarrow> 'w handler" where
  "tool_discover V root args w =
     (Output (JArray (map suite_json (discover_suites (value_parse V) (tv_view V w) root))), w)"

definition tool_run_suite :: "'w test_env \<Rightarrow> string \<Rightarrow> string \<Rightarrow> string option \<Rightarrow> string \<Rightarrow> 'w \<Rightarrow> tool_outcome \<times> 'w" where
  "tool_run_suite V root nm flt rid w =
     (let suites = discover_suites (value_parse V) (tv_view V w) root in
      case List.find (\<lambda>s. dsu_name s = nm) suites of
        None \<Rightarrow> (ToolError (''suite '' @ squote @ nm @ squote @ '' not found; available: '' @ tv_debug V (map dsu_name suites)), w)
      | Some s \<Rightarrow> (case run_runner V (dsu_runner s) (dsu_project_root s) flt w of
          (Inl e, w') \<Rightarrow> (ToolError (''run_suite failed: '' @ e), w')
        | (Inr r, w') \<Rightarrow> (Output (test_result_json r), tv_set_report V rid r w')))"

definition tool_get_last_report :: "'w test_env \<Rightarrow> string \<Rightarrow> 'w handler" where
  "tool_get_last_report V rid args w =
     (Output (case tv_get_report V rid w of None \<Rightarrow> JNull | Some r \<Rightarrow> test_result_json r), w)"

definition suite_args :: "json \<Rightarrow> (string \<times> string option) option" where
  "suite_args j = (case struct_fields 1 [''suite'', ''filter''] j of
     Some [s, f] \<Rightarrow> (case (required json_as_str s, optional json_as_str f) of
        (Some s, Some f) \<Rightarrow> Some (s, f) | _ \<Rightarrow> None)
   | _ \<Rightarrow> None)"

definition discover_tool_def :: tool_def where
  "discover_tool_def = \<lparr>td_name = ''test_runner_discover'',
     td_description = ''Scan the workspace for test suites (Jest, Vitest, Pytest, Go test). '' @
       ''Returns a list of DiscoveredSuite objects.'',
     td_parameters = schema [] None\<rparr>"

definition run_suite_tool_def :: tool_def where
  "run_suite_tool_def = \<lparr>td_name = ''test_runner_run_suite'',
     td_description = ''Run a test suite discovered by test_runner_discover. '' @
       ''Returns a TestRunnerResult with pass/fail counts and failure details.'',
     td_parameters = schema [(''suite'', described ''string'' ''The suite name returned by test_runner_discover''),
       (''filter'', described ''string'' ''Optional test-name or path filter (runner-specific)'')] (Some [''suite''])\<rparr>"

definition get_last_report_tool_def :: tool_def where
  "get_last_report_tool_def = \<lparr>td_name = ''test_runner_get_last_report'',
     td_description = ''Return the most recent TestRunnerResult for the current flow run, '' @
       ''or null if no test has been run yet.'',
     td_parameters = schema [] None\<rparr>"

text \<open>A reviewer gets none of them.\<close>

definition register_test_runner :: "tools_env \<Rightarrow> 'w test_env \<Rightarrow> string \<Rightarrow> string \<Rightarrow> string \<Rightarrow> 'w dispatcher_builder
    \<Rightarrow> 'w dispatcher_builder" where
  "register_test_runner T V root rid agent_kind b =
     (if agent_kind = ''reviewer'' then b
      else register_tool get_last_report_tool_def False (tool_get_last_report V rid)
       (register_tool run_suite_tool_def False
         (\<lambda>args w. case decode_args T suite_args args of
            None \<Rightarrow> (ToolError (''invalid run_suite args: '' @ te_error T ''test_runner_run_suite'' args), w)
          | Some (s, f) \<Rightarrow> tool_run_suite V root s f rid w)
        (register_tool discover_tool_def False (tool_discover V root) b)))"

section \<open>The counts of a report\<close>

definition well_counted :: "tally \<Rightarrow> bool" where
  "well_counted y \<longleftrightarrow> unat (ty_failed y) = length (ty_failures y) mod 2 ^ 32"

lemma well_counted_steps [simp]:
  "well_counted new_tally" "well_counted (add_passed y) = well_counted y" "well_counted (add_skipped y) = well_counted y"
  by (simp_all add: well_counted_def new_tally_def add_passed_def add_skipped_def)

lemma well_counted_failed: "well_counted y \<Longrightarrow> well_counted (add_failed nm msg y)"
  by (simp add: well_counted_def add_failed_def unat_word_ariths mod_simps)

lemma vitest_counted: "well_counted y \<Longrightarrow> well_counted (foldl vitest_step y ts)"
  by (induction ts arbitrary: y) (simp_all add: vitest_step_def Let_def well_counted_failed)

lemma go_counted: "well_counted (fst st) \<Longrightarrow> well_counted (fst (foldl (go_line parse) st ls))"
proof (induction ls arbitrary: st)
  case (Cons l ls)
  have "well_counted (fst (go_line parse st l))"
    using Cons.prems
    by (auto simp: go_line_def go_step_def Let_def well_counted_failed split: prod.split sum.split option.split)
  with Cons.IH show ?case by simp
qed simp

end
