(* ===== verification/ToolLogic.thy ===== *)
theory ToolLogic
  imports HostTools
begin

text \<open>
  What the file tools can reach. Two worlds that agree on the files of the workspace are told apart
  by no tool that goes through the scope.
\<close>

section \<open>Paths inside a root\<close>

abbreviation under :: "string \<Rightarrow> string \<Rightarrow> bool" where
  "under root p \<equiv> path_starts_with p root"

lemma under_refl [simp]: "under root root"
  by (simp add: path_starts_with_def)

lemma scope_resolve_under:
  assumes "scope_resolve root rel = Inr p"
  shows "under root p \<and> normalize_path p = p"
  using assms by (auto simp: scope_resolve_def Let_def normalize_twice split: if_splits)

lemma normal_path_components: "normalize_path p = p \<Longrightarrow> path_of (components p) = p"
  by (metis components_normalize normalize_path_def)

lemma normal_path_form: "normalize_path p = p \<Longrightarrow> normal_form (components p)"
  by (metis components_normalize normal_components_form)

lemma normal_form_butlast: "normal_form cs \<Longrightarrow> normal_form (butlast cs)"
  by (cases cs; cases "hd cs") (auto simp: normal_form_def normal_tail_butlast)

lemma parent_under:
  assumes "under root p" and "normalize_path p = p" and "path_parent p = Some d"
  shows "under root d \<or> under d root"
proof -
  let ?cs = "components p" and ?r = "components root"
  from assms(3) have cs: "?cs \<noteq> []" "d = path_of (butlast ?cs)" by (auto simp: path_parent_def Let_def split: if_splits)
  have d: "components d = butlast ?cs"
    using cs normal_form_butlast [OF normal_path_form [OF assms(2)]] by (simp add: components_path_of)
  from assms(1) obtain ex where ex: "?cs = ?r @ ex" by (metis path_starts_with_def append_take_drop_id)
  show ?thesis
  proof (cases ex rule: rev_cases)
    case Nil
    with ex d have "components d = butlast ?r" by simp
    then have "under d root" by (simp add: path_starts_with_def butlast_conv_take)
    then show ?thesis by simp
  next
    case (snoc ex' c)
    with ex d have "components d = ?r @ ex'" by (simp add: butlast_append)
    then show ?thesis by (simp add: path_starts_with_def)
  qed
qed

text \<open>The sibling file a replacement is written to first.\<close>

definition path_front :: "component list \<Rightarrow> string" where
  "path_front cs = (if cs = [] then [] else if cs = [RootDir] then [slash] else path_of cs @ [slash])"

lemma str_join_snoc: "ss \<noteq> [] \<Longrightarrow> str_join sep (ss @ [s]) = str_join sep ss @ sep @ s"
  by (induction sep ss rule: str_join.induct) auto

lemma path_of_snoc: "normal_form (cs @ [Normal n]) \<Longrightarrow> path_of (cs @ [Normal n]) = path_front cs @ n"
proof -
  assume "normal_form (cs @ [Normal n])"
  have e: "cs @ [Normal n] \<noteq> [RootDir]" by (cases cs) auto
  show ?thesis
  proof (cases "cs = [] \<or> cs = [RootDir]")
    case True
    then show ?thesis by (auto simp: path_of_def path_front_def)
  next
    case False
    with e show ?thesis
      by (auto simp: path_of_def path_front_def str_join_snoc)
  qed
qed

lemma strip_tail_plain:
  assumes "plain_name n" and "f = [] \<or> last f = slash"
  shows "strip_tail (rev (f @ n)) = rev (f @ n)"
proof -
  from assms(1) obtain c r where n: "rev n = c # r" by (cases "rev n") (auto simp: plain_name_def)
  with assms(1) have c: "c \<noteq> slash" by (auto simp: plain_name_def dest: arg_cong [of _ _ set])
  have "r = [] \<Longrightarrow> c \<noteq> CHR ''.''" using n assms(1) by (auto simp: plain_name_def)
  moreover have "r \<noteq> [] \<Longrightarrow> hd r \<noteq> slash"
    using n assms(1) by (metis list.set_sel(1) list.set_intros(2) plain_name_def set_rev)
  ultimately show ?thesis using n c by (auto simp: hd_append split: if_splits)
qed

lemma with_extension_sibling:
  assumes "normal_form (cs @ [Normal n])" and "plain_name (file_stem n @ CHR ''.'' # ext)" and "ext \<noteq> []"
  shows "components (with_extension (path_of (cs @ [Normal n])) ext) = cs @ [Normal (file_stem n @ CHR ''.'' # ext)]"
proof -
  have n: "plain_name n" using assms(1)
    by (cases cs; cases "hd cs") (auto simp: normal_form_def)
  have f: "path_front cs = [] \<or> last (path_front cs) = slash" by (auto simp: path_front_def)
  have form: "normal_form (cs @ [Normal (file_stem n @ CHR ''.'' # ext)])"
    using assms(1,2) by (cases cs; cases "hd cs") (auto simp: normal_form_def)
  have "with_extension (path_of (cs @ [Normal n])) ext = path_front cs @ file_stem n @ CHR ''.'' # ext"
    using components_path_of [OF assms(1)] strip_tail_plain [OF n f] assms(3)
    by (simp add: with_extension_def path_of_snoc [OF assms(1)])
  also have "\<dots> = path_of (cs @ [Normal (file_stem n @ CHR ''.'' # ext)])"
    by (simp add: path_of_snoc [OF form])
  finally show ?thesis by (simp add: components_path_of [OF form])
qed

lemma file_stem_slash: "slash \<notin> set n \<Longrightarrow> slash \<notin> set (file_stem n)"
  by (auto simp: file_stem_def Let_def dest!: set_dropWhileD list.set_sel(2) [rotated] split: if_splits)

lemma sibling_under:
  assumes "under root p" and "normalize_path p = p" and "components p \<noteq> components root"
    and "slash \<notin> set ext" and "2 \<le> length ext"
  shows "under root (with_extension p ext)"
proof -
  let ?r = "components root"
  from assms(1) obtain ex where ex: "components p = ?r @ ex" by (metis path_starts_with_def append_take_drop_id)
  with assms(3) obtain ex' c where c: "ex = ex' @ [c]" by (cases ex rule: rev_cases) auto
  note form = normal_path_form [OF assms(2)]
  show ?thesis
  proof (cases c)
    case (Normal n)
    have "plain_name n" using components_plain [of n p] ex c Normal by simp
    then have m: "plain_name (file_stem n @ CHR ''.'' # ext)"
      using assms(4,5) file_stem_slash [of n] by (auto simp: plain_name_def slash_def Cons_eq_append_conv dest: arg_cong [of _ _ length])
    have p: "p = path_of ((?r @ ex') @ [Normal n])"
      using normal_path_components [OF assms(2)] ex c Normal by simp
    have "components (with_extension p ext) = (?r @ ex') @ [Normal (file_stem n @ CHR ''.'' # ext)]"
      using with_extension_sibling [OF _ m] form ex c Normal assms(5) p by (metis append_assoc list.size(3) not_numeral_le_zero)
    then show ?thesis by (simp add: path_starts_with_def)
  qed (use assms(1) ex c in \<open>simp_all add: with_extension_def\<close>)
qed

section \<open>Agreement on a root\<close>

text \<open>
  Two file systems with the same operations on the paths under a root, and the same creation of the directories above it; and a
  root that cannot be read as a file, as a directory cannot.
\<close>

definition same_files :: "string \<Rightarrow> 'w fs_ops \<Rightarrow> 'w fs_ops \<Rightarrow> bool" where
  "same_files root F G \<longleftrightarrow>
     (\<forall>p. under root p \<longrightarrow> fs_read F p = fs_read G p \<and> fs_read_at F p = fs_read_at G p \<and> fs_write F p = fs_write G p \<and>
       fs_read_dir F p = fs_read_dir G p \<and> (\<forall>q. under root q \<longrightarrow> fs_rename F p q = fs_rename G p q)) \<and>
     (\<forall>p. under root p \<or> under p root \<longrightarrow> fs_create_dir_all F p = fs_create_dir_all G p)"

definition root_is_no_file :: "'w fs_ops \<Rightarrow> string \<Rightarrow> bool" where
  "root_is_no_file F root \<longleftrightarrow> (\<forall>p w. components p = components root \<longrightarrow> (\<exists>e. fst (fs_read F p w) = Inl e))"

lemma same_filesD:
  assumes "same_files root F G"
  shows "under root p \<Longrightarrow> fs_read F p = fs_read G p" "under root p \<Longrightarrow> fs_read_at F p = fs_read_at G p"
    "under root p \<Longrightarrow> fs_write F p = fs_write G p" "under root p \<Longrightarrow> fs_read_dir F p = fs_read_dir G p"
    "under root p \<Longrightarrow> under root q \<Longrightarrow> fs_rename F p q = fs_rename G p q"
    "under root p \<or> under p root \<Longrightarrow> fs_create_dir_all F p = fs_create_dir_all G p"
  using assms by (simp_all add: same_files_def, blast)

lemma same_replace:
  assumes "same_files root F G" and "root_is_no_file F root" and "under root p" and "normalize_path p = p"
  shows "local_str_replace F p old new = local_str_replace G p old new"
proof (cases "components p = components root")
  case True
  show ?thesis
  proof
    fix w
    from True assms(2) obtain e where "fst (fs_read F p w) = Inl e" unfolding root_is_no_file_def by blast
    moreover from this have "fst (fs_read G p w) = Inl e" using same_filesD(1) [OF assms(1,3)] by simp
    ultimately show "local_str_replace F p old new w = local_str_replace G p old new w"
      using same_filesD(1) [OF assms(1,3)]
      by (cases "fs_read G p w") (simp add: local_str_replace_def read_to_string_def io_bind_def)
  qed
next
  case False
  have "under root (with_extension p ''__str_replace_tmp__'')"
    by (rule sibling_under [OF assms(3,4) False]) (simp_all add: slash_def)
  then show ?thesis
    using same_filesD [OF assms(1)] assms(3) by (simp add: local_str_replace_def read_to_string_def Let_def cong: if_cong)
qed

text \<open>Two file services that the tools cannot tell apart.\<close>

definition same_filesystem :: "string \<Rightarrow> 'w filesystem \<Rightarrow> 'w filesystem \<Rightarrow> bool" where
  "same_filesystem root F G \<longleftrightarrow> (\<forall>p. under root p \<and> normalize_path p = p \<longrightarrow>
     fsys_read F p = fsys_read G p \<and> fsys_write F p = fsys_write G p \<and>
     fsys_list F p = fsys_list G p \<and> fsys_replace F p = fsys_replace G p)"

lemma same_local:
  assumes "same_files root F G" and "root_is_no_file F root"
  shows "same_filesystem root (local_filesystem F env) (local_filesystem G env)"
proof -
  note same = same_filesD [OF assms(1)]
  have "local_read_file F p = local_read_file G p" if "under root p" for p
    by (intro ext) (simp add: local_read_file_def read_to_string_def same(1,2) [OF that] split: option.split)
  moreover have "local_write_file F p = local_write_file G p" if "under root p" "normalize_path p = p" for p
    using same(6) [OF parent_under [OF that]]
    by (intro ext) (simp add: local_write_file_def same(3) [OF that(1)] split: option.split)
  moreover have "local_list_dir F p = local_list_dir G p" if "under root p" for p
    by (simp add: local_list_dir_def same(4) [OF that])
  moreover have "local_str_replace F p = local_str_replace G p" if "under root p" "normalize_path p = p" for p
    using same_replace [OF assms that] by (intro ext) simp
  ultimately show ?thesis by (simp add: same_filesystem_def local_filesystem_def)
qed

lemma same_policy: "same_filesystem root F G \<Longrightarrow> same_filesystem root (policy_filesystem F p) (policy_filesystem G p)"
  by (simp add: same_filesystem_def policy_filesystem_def)

lemma in_scope_cong:
  "(\<And>p. scope_resolve root rel = Inr p \<Longrightarrow> f p = g p) \<Longrightarrow> in_scope root rel f = in_scope root rel g"
  by (auto simp: in_scope_def fun_eq_iff split: sum.split)

lemma same_handlers:
  assumes "same_filesystem root F G"
  shows "read_file_handler T F root = read_file_handler T G root" "write_file_handler T F root = write_file_handler T G root"
    "str_replace_handler T F root = str_replace_handler T G root" "list_dir_handler T F root = list_dir_handler T G root"
proof -
  have s: "scope_resolve root rel = Inr p \<Longrightarrow> fsys_read F p = fsys_read G p \<and> fsys_write F p = fsys_write G p \<and>
      fsys_list F p = fsys_list G p \<and> fsys_replace F p = fsys_replace G p" for rel p
    using assms scope_resolve_under unfolding same_filesystem_def by blast
  show "read_file_handler T F root = read_file_handler T G root" "write_file_handler T F root = write_file_handler T G root"
    "str_replace_handler T F root = str_replace_handler T G root" "list_dir_handler T F root = list_dir_handler T G root"
    unfolding read_file_handler_def write_file_handler_def str_replace_handler_def list_dir_handler_def
    by (intro ext arg_cong3 [where f = "with_args T"] arg_cong2 [where f = "with_args T _ _"] arg_cong [where f = "\<lambda>k. with_args T _ _ k _"] in_scope_cong; simp add: s cong: in_scope_cong)+
qed

end
