(* ===== verification/AgentTools.thy ===== *)
theory AgentTools
  imports TestRunner ToolLogic
begin

text \<open>
  The tool set the agent runner gives a native agent of a flow (\<^verbatim>\<open>runtime/agent_runner.rs\<close>), and which
  of its calls wait for a human.
\<close>

section \<open>The tool set\<close>

text \<open>What the host provides to the tools.\<close>

record 'w host =
  ho_tools :: tools_env
  ho_lower :: "string \<Rightarrow> string"
  ho_os :: "'w os"
  ho_files :: "'w fs_ops"
  ho_tests :: "'w test_env"
  ho_documents :: "'w document_env"
  ho_value :: "string \<Rightarrow> json option"
  ho_rg :: "string \<Rightarrow> string list \<Rightarrow> 'w \<Rightarrow> rg_end \<times> 'w"
  ho_walk :: "string \<Rightarrow> string \<Rightarrow> ('w, string list) io"
  ho_git :: "'w git_ops"

record agent_place =
  ap_root :: string
  ap_tier :: sandbox_tier
  ap_flow_id :: string
  ap_flow_run_id :: string
  ap_node_id :: string
  ap_role :: string
  ap_cache_dir :: "string option"
  ap_tools :: "string list"

text \<open>A reviewer that was invoked for a document also gets the tool that submits its verdict.\<close>

definition agent_builder :: "'w host \<Rightarrow> agent_place \<Rightarrow> (tool_def \<times> 'w handler) option \<Rightarrow> 'w dispatcher_builder" where
  "agent_builder H P review =
     (let T = ho_tools H; root = ap_root P;
          b1 = build_capabilities T (ho_lower H) (ho_os H) (ho_files H) root (ap_tier P);
          b2 = register_test_runner T (ho_tests H) root (ap_flow_run_id P) (ap_role P) b1;
          b3 = register_submit_document T (ho_documents H) root (ap_flow_id P) (ap_flow_run_id P) (ap_node_id P) (ap_cache_dir P) b2;
          b4 = register_search T (ho_value H) (ho_rg H) (ho_walk H) root b3;
          b5 = register_git_tools T (ho_git H) b4;
          b6 = (case review of None \<Rightarrow> b5 | Some (d, h) \<Rightarrow> register_tool d False h b5)
      in set_allowed_tools (ap_tools P) b6)"

definition agent_tools :: "'w host \<Rightarrow> agent_place \<Rightarrow> (tool_def \<times> 'w handler) option \<Rightarrow> 'w registry" where
  "agent_tools H P review = build_dispatcher (agent_builder H P review)"

section \<open>Gates\<close>

text \<open>A handler that answers with an output or an error.\<close>

definition plain_handler :: "'w handler \<Rightarrow> bool" where
  "plain_handler h \<longleftrightarrow> (\<forall>args w. (\<exists>j. fst (h args w) = Output j) \<or> (\<exists>e. fst (h args w) = ToolError e))"

definition ungated :: "string set \<Rightarrow> 'w registry \<Rightarrow> bool" where
  "ungated G ts \<longleftrightarrow> (\<forall>nm reg. map_of ts nm = Some reg \<longrightarrow>
     (rt_needs_approval reg \<longleftrightarrow> nm \<in> G) \<and> plain_handler (rt_handler reg))"

lemma plain_io [simp, intro]: "(\<exists>j. fst (io_outcome what f op w) = Output j) \<or> (\<exists>e. fst (io_outcome what f op w) = ToolError e)"
  by (simp add: io_outcome_def split: prod.split sum.split)

lemma plain_git [simp, intro]: "(\<exists>j. fst (git_outcome what f op w) = Output j) \<or> (\<exists>e. fst (git_outcome what f op w) = ToolError e)"
  by (simp add: git_outcome_def split: prod.split sum.split)

lemma plain_args:
  "(\<And>a w. (\<exists>j. fst (k a w) = Output j) \<or> (\<exists>e. fst (k a w) = ToolError e)) \<Longrightarrow> plain_handler (with_args T tool d k)"
  by (simp add: plain_handler_def with_args_def split: option.split)

lemma plain_scope:
  "(\<And>p w. (\<exists>j. fst (k p w) = Output j) \<or> (\<exists>e. fst (k p w) = ToolError e)) \<Longrightarrow>
     (\<exists>j. fst (in_scope root rel k w) = Output j) \<or> (\<exists>e. fst (in_scope root rel k w) = ToolError e)"
  by (simp add: in_scope_def split: sum.split)

lemma plain_capabilities [simp]:
  "plain_handler (run_shell_handler T S)" "plain_handler (notify_handler T N)" "plain_handler (request_approval_handler T N)"
  "plain_handler (read_file_handler T F root)" "plain_handler (write_file_handler T F root)"
  "plain_handler (str_replace_handler T F root)" "plain_handler (list_dir_handler T F root)"
  unfolding run_shell_handler_def notify_handler_def request_approval_handler_def read_file_handler_def
    write_file_handler_def str_replace_handler_def list_dir_handler_def
  by (intro plain_args plain_io plain_scope)+

lemma plain_git_handlers [simp]:
  "plain_handler (git_status_handler G)" "plain_handler (git_diff_handler T G)" "plain_handler (git_log_handler T G)"
  "plain_handler (git_add_handler T G)" "plain_handler (git_reset_handler T G)" "plain_handler (git_commit_handler T G)"
  "plain_handler (git_push_handler T G)"
proof -
  show "plain_handler (git_status_handler G)" "plain_handler (git_diff_handler T G)" "plain_handler (git_log_handler T G)"
    unfolding git_status_handler_def git_diff_handler_def git_log_handler_def plain_handler_def
    by (auto split: prod.split)
  show "plain_handler (git_add_handler T G)" "plain_handler (git_reset_handler T G)" "plain_handler (git_commit_handler T G)"
    unfolding git_add_handler_def git_reset_handler_def git_commit_handler_def
    by (intro plain_args; auto simp: Let_def split: prod.split)+
  show "plain_handler (git_push_handler T G)"
    unfolding git_push_handler_def plain_handler_def
    by (auto simp: Let_def split: prod.split sum.split)
qed

lemma plain_document [simp]: "plain_handler (submit_document_handler T D root fid rid aid cache)"
  unfolding submit_document_handler_def
  by (intro plain_args) (simp split: prod.split sum.split bool.split)

lemma plain_tests [simp]:
  "plain_handler (tool_discover V root)" "plain_handler (tool_get_last_report V rid)"
  "plain_handler (\<lambda>args w. case decode_args T suite_args args of
       None \<Rightarrow> (ToolError (m args), w) | Some (s, f) \<Rightarrow> tool_run_suite V root s f rid w)"
  by (simp_all add: plain_handler_def tool_discover_def tool_get_last_report_def tool_run_suite_def Let_def
      split: option.split prod.split sum.split)

lemma ungated_empty [simp]: "ungated G []"
  by (simp add: ungated_def)

lemma ungated_register:
  assumes "ungated G (db_tools b)" and "approval \<longleftrightarrow> td_name d \<in> G" and "plain_handler h"
  shows "ungated G (db_tools (register_tool d approval h b))"
  using assms by (auto simp: ungated_def register_tool_def map_of_hm_put)

lemma map_of_filter_names: "map_of (filter (\<lambda>(nm, _). nm \<in> A) ts) nm = (if nm \<in> A then map_of ts nm else None)"
  by (induction ts) auto

lemma ungated_build: "ungated G (db_tools b) \<Longrightarrow> ungated G (build_dispatcher b)"
  by (auto simp: ungated_def build_dispatcher_def map_of_filter_names split: if_splits)

abbreviation asking_tools :: "string set" where
  "asking_tools \<equiv> {''git_commit'', ''git_push''}"

lemmas tool_names = run_shell_def_def read_file_def_def write_file_def_def str_replace_def_def list_dir_def_def
  notify_def_def request_approval_def_def discover_tool_def_def run_suite_tool_def_def get_last_report_tool_def_def
  submit_document_def_def search_workspace_def_def grep_workspace_def_def glob_files_def_def

lemma agent_tools_ungated:
  assumes "review = None \<or> (\<exists>d h. review = Some (d, h) \<and> td_name d \<notin> asking_tools \<and> plain_handler h)"
  shows "ungated asking_tools (agent_tools H P review)"
proof -
  have caps: "ungated asking_tools (db_tools (build_capabilities T lower S F root tier))" for T lower S F root tier
    by (cases tier; simp add: build_capabilities_def register_notify_def register_filesystem_def register_shell_def)
      (intro ungated_register; simp add: new_builder_def tool_names)+
  have tests: "ungated asking_tools (db_tools (register_test_runner T V root rid role b))"
    if "ungated asking_tools (db_tools b)" for T V root rid role b
    using that by (auto simp: register_test_runner_def tool_names intro!: ungated_register)
  have doc: "ungated asking_tools (db_tools (register_submit_document T D root fid rid aid cache b))"
    if "ungated asking_tools (db_tools b)" for T D root fid rid aid cache b
    using that by (auto simp: register_submit_document_def tool_names intro!: ungated_register)
  have search: "ungated asking_tools (db_tools (register_search T parse rg walk root b))"
    if "ungated asking_tools (db_tools b)" for T parse rg walk root b
    unfolding register_search_def
    by (intro ungated_register that plain_args; auto simp: tool_names split: prod.split)
  have git: "ungated asking_tools (db_tools (register_git_tools T G b))"
    if "ungated asking_tools (db_tools b)" for T G b
    unfolding register_git_tools_def git_tool_defs_def
    by (simp, intro ungated_register that; simp)
  show ?thesis
    using assms unfolding agent_tools_def agent_builder_def Let_def set_allowed_tools_def
    by (auto intro!: ungated_build git search doc tests caps ungated_register split: option.split)
qed

end
