(* ===== verification/Rpc.thy ===== *)
theory Rpc
  imports Sse "HOL-Library.Multiset"
begin

text \<open>
  The connection to an extension host: the frames of MessagePack-RPC (\<^verbatim>\<open>extensions/rpc/codec.rs\<close>), the
  table of handlers (\<^verbatim>\<open>extensions/rpc/server.rs\<close>) and the connection (\<^verbatim>\<open>extensions/rpc/connection.rs\<close>).
  The MessagePack library and the handlers are parameters. A connection is shared by tasks: each
  section of the code between two waits is one operation on its state.
\<close>

section \<open>Values\<close>

text \<open>\<^verbatim>\<open>rmpv::Value\<close>. A text may hold bytes that are no UTF-8; a number from zero on is \<open>MPos\<close>.\<close>

datatype mval =
  MNil
| MBool bool
| MPos u64
| MNeg "64 word"
| MFloat32 u32
| MFloat64 u64
| MString string
| MBinary string
| MArray "mval list"
| MMap "(mval \<times> mval) list"
| MExt "8 word" string

fun mval_array :: "mval \<Rightarrow> mval list option" where
  "mval_array (MArray xs) = Some xs"
| "mval_array _ = None"

fun mval_u64 :: "mval \<Rightarrow> u64 option" where
  "mval_u64 (MPos n) = Some n"
| "mval_u64 _ = None"

fun mval_i64 :: "mval \<Rightarrow> int option" where
  "mval_i64 (MPos n) = (if uint n < 2 ^ 63 then Some (uint n) else None)"
| "mval_i64 (MNeg n) = Some (sint n)"
| "mval_i64 _ = None"

fun mval_str :: "mval \<Rightarrow> string option" where
  "mval_str (MString s) = (if utf8_valid s then Some s else None)"
| "mval_str _ = None"

section \<open>Frames\<close>

datatype frame =
  FrameRequest u32 string mval
| FrameResponse u32 mval mval
| FrameNotify string mval

text \<open>What \<^verbatim>\<open>rmpv\<close> reports when it can not read a value, and what reading gives.\<close>

datatype io_kind = UnexpectedEof | OtherIo

datatype read_error = InvalidMarkerRead io_kind | InvalidDataRead io_kind | DepthLimitExceeded

record msgpack =
  mp_write :: "mval list \<Rightarrow> string + string"
  mp_read :: "string \<Rightarrow> read_error + (mval \<times> nat)"
  mp_error :: "read_error \<Rightarrow> string"

definition TYPE_REQUEST :: int where "TYPE_REQUEST = 0"
definition TYPE_RESPONSE :: int where "TYPE_RESPONSE = 1"
definition TYPE_NOTIFY :: int where "TYPE_NOTIFY = 2"

definition METHOD_CANCEL :: string where "METHOD_CANCEL = ''$/cancel''"

fun envelope :: "frame \<Rightarrow> mval list" where
  "envelope (FrameRequest i m p) = [MPos (of_int TYPE_REQUEST), MPos (ucast i), MString m, p]"
| "envelope (FrameResponse i e r) = [MPos (of_int TYPE_RESPONSE), MPos (ucast i), e, r]"
| "envelope (FrameNotify m p) = [MPos (of_int TYPE_NOTIFY), MString m, p]"

text \<open>An error of the connection: \<^verbatim>\<open>ExtensionError::Rpc\<close> with its message, or a dropped sender.\<close>

datatype rpc_error = Rpc string | RpcCancelled

definition frame_encode :: "msgpack \<Rightarrow> frame \<Rightarrow> rpc_error + string" where
  "frame_encode P f = (case mp_write P (envelope f) of Inl e \<Rightarrow> Inl (Rpc (''encode: '' @ e)) | Inr b \<Rightarrow> Inr b)"

definition is_unexpected_eof :: "read_error \<Rightarrow> bool" where
  "is_unexpected_eof e = (case e of InvalidMarkerRead k \<Rightarrow> k = UnexpectedEof | InvalidDataRead k \<Rightarrow> k = UnexpectedEof
     | DepthLimitExceeded \<Rightarrow> False)"

definition as_u32 :: "mval \<Rightarrow> string \<Rightarrow> rpc_error + u32" where
  "as_u32 v what = (case mval_u64 v of None \<Rightarrow> Inl (Rpc (what @ '' is not an unsigned integer''))
     | Some n \<Rightarrow> if uint n < 2 ^ 32 then Inr (ucast n) else Inl (Rpc (what @ '' = '' @ show_nat (unat n) @ '' overflows u32'')))"

definition as_string :: "mval \<Rightarrow> string \<Rightarrow> rpc_error + string" where
  "as_string v what = (case mval_str v of None \<Rightarrow> Inl (Rpc (what @ '' is not a string'')) | Some s \<Rightarrow> Inr s)"

definition show_int :: "int \<Rightarrow> string" where
  "show_int n = (if n < 0 then ''-'' @ show_nat (nat (- n)) else show_nat (nat n))"

definition frame_from_value :: "mval \<Rightarrow> rpc_error + frame" where
  "frame_from_value v = (case mval_array v of
     None \<Rightarrow> Inl (Rpc ''frame is not an array'')
   | Some [] \<Rightarrow> Inl (Rpc ''frame array is empty'')
   | Some (t # xs) \<Rightarrow> (case mval_i64 t of
       None \<Rightarrow> Inl (Rpc ''frame type is not an integer'')
     | Some ty \<Rightarrow>
        (if ty = TYPE_REQUEST then (case xs of
           [i, m, p] \<Rightarrow> (case as_u32 i ''request msgid'' of Inl e \<Rightarrow> Inl e
             | Inr i \<Rightarrow> (case as_string m ''request method'' of Inl e \<Rightarrow> Inl e | Inr m \<Rightarrow> Inr (FrameRequest i m p)))
         | _ \<Rightarrow> Inl (Rpc (''request frame must have 4 elements, got '' @ show_nat (length (t # xs)))))
         else if ty = TYPE_RESPONSE then (case xs of
           [i, e, r] \<Rightarrow> (case as_u32 i ''response msgid'' of Inl e \<Rightarrow> Inl e | Inr i \<Rightarrow> Inr (FrameResponse i e r))
         | _ \<Rightarrow> Inl (Rpc (''response frame must have 4 elements, got '' @ show_nat (length (t # xs)))))
         else if ty = TYPE_NOTIFY then (case xs of
           [m, p] \<Rightarrow> (case as_string m ''notify method'' of Inl e \<Rightarrow> Inl e | Inr m \<Rightarrow> Inr (FrameNotify m p))
         | _ \<Rightarrow> Inl (Rpc (''notify frame must have 3 elements, got '' @ show_nat (length (t # xs)))))
         else Inl (Rpc (''unknown frame type '' @ show_int ty)))))"

definition decode_one :: "msgpack \<Rightarrow> string \<Rightarrow> rpc_error + (frame \<times> nat) option" where
  "decode_one P buf = (case mp_read P buf of
     Inl e \<Rightarrow> if is_unexpected_eof e then Inr None else Inl (Rpc (''decode value: '' @ mp_error P e))
   | Inr (v, n) \<Rightarrow> (case frame_from_value v of Inl e \<Rightarrow> Inl e | Inr f \<Rightarrow> Inr (Some (f, n))))"

definition cancel_notify :: "u32 \<Rightarrow> frame" where
  "cancel_notify i = FrameNotify METHOD_CANCEL (MArray [MPos (ucast i)])"

definition parse_cancel :: "frame \<Rightarrow> u32 option" where
  "parse_cancel f = (case f of FrameNotify m p \<Rightarrow>
     (if m \<noteq> METHOD_CANCEL then None else case mval_array p of
        Some (v # _) \<Rightarrow> (case mval_u64 v of Some n \<Rightarrow> if uint n < 2 ^ 32 then Some (ucast n) else None | None \<Rightarrow> None)
      | _ \<Rightarrow> None)
   | _ \<Rightarrow> None)"

section \<open>Reading\<close>

text \<open>
  The inner loop of the reader: the frames at the front of the buffer, the rest, and the error that
  ended it. It has no result when the library claims to have read a value of no bytes.
\<close>

partial_function (option) drain_frames :: "msgpack \<Rightarrow> string \<Rightarrow> (frame list \<times> string \<times> rpc_error option) option" where
  "drain_frames P buf = (case decode_one P buf of
     Inl e \<Rightarrow> Some ([], buf, Some e)
   | Inr None \<Rightarrow> Some ([], buf, None)
   | Inr (Some (f, n)) \<Rightarrow> Option.bind (drain_frames P (drop n buf)) (\<lambda>(fs, r). Some (f # fs, r)))"

text \<open>The reader over the chunks of the stream, up to its end or the first error.\<close>

fun read_loop :: "msgpack \<Rightarrow> string \<Rightarrow> string list \<Rightarrow> (frame list \<times> rpc_error option) option" where
  "read_loop P buf [] = Some ([], None)"
| "read_loop P buf (c # cs) = (case drain_frames P (buf @ c) of
     None \<Rightarrow> None
   | Some (fs, r, Some e) \<Rightarrow> Some (fs, Some e)
   | Some (fs, r, None) \<Rightarrow> (case read_loop P r cs of None \<Rightarrow> None | Some (gs, e) \<Rightarrow> Some (fs @ gs, e)))"

section \<open>The connection\<close>

text \<open>
  The sender that waits in \<^verbatim>\<open>pending\<close>: open, used, or dropped. A call of \<^verbatim>\<open>request\<close> has taken its
  identifier, entered the table, written its frame or failed to, and cleaned up after a failure.
\<close>

datatype slot = SlotOpen | SlotSent "mval + mval" | SlotDropped

datatype phase = Allocated | Entered | Written | WriteFailed rpc_error | GaveUp rpc_error

record call =
  c_msgid :: u32
  c_method :: string
  c_params :: mval
  c_phase :: phase
  c_slot :: slot

text \<open>The task that answers an inbound request: its handler works, has answered, or the answer is written.\<close>

datatype task_phase = Working | Answered frame | Replied frame | ReplyFailed frame

record rpc_task =
  t_msgid :: u32
  t_method :: string
  t_params :: mval
  t_found :: bool
  t_phase :: task_phase
  t_cancelled :: bool

record rpc_server =
  rs_methods :: "string list"
  rs_notifies :: "string list"

definition new_server :: rpc_server where
  "new_server = \<lparr>rs_methods = [], rs_notifies = []\<rparr>"

definition handle :: "string \<Rightarrow> rpc_server \<Rightarrow> rpc_server" where
  "handle m s = s\<lparr>rs_methods := List.insert m (rs_methods s)\<rparr>"

definition on_notify :: "string \<Rightarrow> rpc_server \<Rightarrow> rpc_server" where
  "on_notify m s = s\<lparr>rs_notifies := List.insert m (rs_notifies s)\<rparr>"

definition handler_for :: "rpc_server \<Rightarrow> string \<Rightarrow> bool" where
  "handler_for s m \<longleftrightarrow> m \<in> set (rs_methods s)"

definition notify_handler_for :: "rpc_server \<Rightarrow> string \<Rightarrow> bool" where
  "notify_handler_for s m \<longleftrightarrow> m \<in> set (rs_notifies s)"

text \<open>
  \<open>cn_calls\<close> are the calls of \<^verbatim>\<open>request\<close> in the order of their identifiers and \<open>cn_tasks\<close> the tasks of the
  inbound requests in the order of their arrival; \<open>cn_pending\<close> and \<open>cn_in_flight\<close> refer to them by
  position. \<open>cn_output\<close> are the frames written and \<open>cn_notified\<close> the notifications handed to handlers.
\<close>

record connection =
  cn_next_msgid :: u32
  cn_pending :: "(u32 \<times> nat) list"
  cn_in_flight :: "(u32 \<times> nat) list"
  cn_handlers :: rpc_server
  cn_calls :: "call list"
  cn_tasks :: "rpc_task list"
  cn_output :: "frame list"
  cn_notified :: "(string \<times> mval) list"
  cn_reading :: bool

definition open_connection :: "rpc_server \<Rightarrow> connection" where
  "open_connection s = \<lparr>cn_next_msgid = 1, cn_pending = [], cn_in_flight = [], cn_handlers = s, cn_calls = [], cn_tasks = [],
     cn_output = [], cn_notified = [], cn_reading = True\<rparr>"

definition set_slot :: "nat \<Rightarrow> slot \<Rightarrow> connection \<Rightarrow> connection" where
  "set_slot k x c = c\<lparr>cn_calls := (cn_calls c)[k := (cn_calls c ! k)\<lparr>c_slot := x\<rparr>]\<rparr>"

definition set_phase :: "nat \<Rightarrow> phase \<Rightarrow> connection \<Rightarrow> connection" where
  "set_phase k x c = c\<lparr>cn_calls := (cn_calls c)[k := (cn_calls c ! k)\<lparr>c_phase := x\<rparr>]\<rparr>"

definition set_task :: "nat \<Rightarrow> (rpc_task \<Rightarrow> rpc_task) \<Rightarrow> connection \<Rightarrow> connection" where
  "set_task k g c = c\<lparr>cn_tasks := (cn_tasks c)[k := g (cn_tasks c ! k)]\<rparr>"

text \<open>\<^verbatim>\<open>request\<close>: an identifier, the entry in the table, the write, and the cleanup after a failed one.\<close>

definition begin_request :: "string \<Rightarrow> mval \<Rightarrow> connection \<Rightarrow> connection" where
  "begin_request m p c = c\<lparr>cn_next_msgid := cn_next_msgid c + 1,
     cn_calls := cn_calls c @ [\<lparr>c_msgid = cn_next_msgid c, c_method = m, c_params = p, c_phase = Allocated, c_slot = SlotOpen\<rparr>]\<rparr>"

definition enter_request :: "nat \<Rightarrow> connection \<Rightarrow> connection" where
  "enter_request k c =
     (let i = c_msgid (cn_calls c ! k);
          c1 = (case map_of (cn_pending c) i of None \<Rightarrow> c | Some j \<Rightarrow> set_slot j SlotDropped c)
      in set_phase k Entered (c1\<lparr>cn_pending := hm_put i k (cn_pending c1)\<rparr>))"

definition write_frame :: "msgpack \<Rightarrow> string option \<Rightarrow> frame \<Rightarrow> connection \<Rightarrow> (rpc_error + unit) \<times> connection" where
  "write_frame P io f c = (case frame_encode P f of
     Inl e \<Rightarrow> (Inl e, c)
   | Inr b \<Rightarrow> (case io of Some e \<Rightarrow> (Inl (Rpc (''write: '' @ e)), c) | None \<Rightarrow> (Inr (), c\<lparr>cn_output := cn_output c @ [f]\<rparr>)))"

definition write_request :: "msgpack \<Rightarrow> string option \<Rightarrow> nat \<Rightarrow> connection \<Rightarrow> connection" where
  "write_request P io k c =
     (let x = cn_calls c ! k in
      case write_frame P io (FrameRequest (c_msgid x) (c_method x) (c_params x)) c of
        (Inl e, c') \<Rightarrow> set_phase k (WriteFailed e) c'
      | (Inr _, c') \<Rightarrow> set_phase k Written c')"

definition forget_request :: "nat \<Rightarrow> rpc_error \<Rightarrow> connection \<Rightarrow> connection" where
  "forget_request k e c =
     (let i = c_msgid (cn_calls c ! k);
          c1 = (case map_of (cn_pending c) i of None \<Rightarrow> c | Some j \<Rightarrow> set_slot j SlotDropped c)
      in set_phase k (GaveUp e) (c1\<lparr>cn_pending := hm_remove i (cn_pending c1)\<rparr>))"

text \<open>What the caller of \<^verbatim>\<open>request\<close> gets, once it gets something.\<close>

definition request_result :: "(mval \<Rightarrow> string) \<Rightarrow> call \<Rightarrow> (rpc_error + mval) option" where
  "request_result disp x = (case c_phase x of
     GaveUp e \<Rightarrow> Some (Inl e)
   | Written \<Rightarrow> (case c_slot x of SlotOpen \<Rightarrow> None
       | SlotSent (Inr v) \<Rightarrow> Some (Inr v)
       | SlotSent (Inl v) \<Rightarrow> Some (Inl (Rpc (''rpc error from peer: '' @ disp v)))
       | SlotDropped \<Rightarrow> Some (Inl RpcCancelled))
   | _ \<Rightarrow> None)"

definition notify_peer :: "msgpack \<Rightarrow> string option \<Rightarrow> string \<Rightarrow> mval \<Rightarrow> connection \<Rightarrow> (rpc_error + unit) \<times> connection" where
  "notify_peer P io m p = write_frame P io (FrameNotify m p)"

definition cancel_peer :: "msgpack \<Rightarrow> string option \<Rightarrow> u32 \<Rightarrow> connection \<Rightarrow> (rpc_error + unit) \<times> connection" where
  "cancel_peer P io i = write_frame P io (cancel_notify i)"

text \<open>The reader hands a frame on; the task of an inbound request starts at once.\<close>

definition complete_pending :: "u32 \<Rightarrow> mval + mval \<Rightarrow> connection \<Rightarrow> connection" where
  "complete_pending i x c = (case map_of (cn_pending c) i of None \<Rightarrow> c
     | Some k \<Rightarrow> set_slot k (SlotSent x) (c\<lparr>cn_pending := hm_remove i (cn_pending c)\<rparr>))"

definition start_task :: "u32 \<Rightarrow> string \<Rightarrow> mval \<Rightarrow> connection \<Rightarrow> connection" where
  "start_task i m p c = c\<lparr>cn_in_flight := hm_put i (length (cn_tasks c)) (cn_in_flight c),
     cn_tasks := cn_tasks c @ [\<lparr>t_msgid = i, t_method = m, t_params = p, t_found = handler_for (cn_handlers c) m,
       t_phase = Working, t_cancelled = False\<rparr>]\<rparr>"

definition cancel_task :: "u32 \<Rightarrow> connection \<Rightarrow> connection" where
  "cancel_task i c = (case map_of (cn_in_flight c) i of None \<Rightarrow> c | Some k \<Rightarrow> set_task k (\<lambda>t. t\<lparr>t_cancelled := True\<rparr>) c)"

definition dispatch_frame :: "frame \<Rightarrow> connection \<Rightarrow> connection" where
  "dispatch_frame f c = (case f of
     FrameResponse i e r \<Rightarrow> complete_pending i (if e = MNil then Inr r else Inl e) c
   | FrameNotify m p \<Rightarrow> (case parse_cancel f of
       Some i \<Rightarrow> cancel_task i c
     | None \<Rightarrow> if notify_handler_for (cn_handlers c) m then c\<lparr>cn_notified := cn_notified c @ [(m, p)]\<rparr> else c)
   | FrameRequest i m p \<Rightarrow> start_task i m p c)"

text \<open>The answer of a handler, or that of a method without one; then the entry is removed and the answer written.\<close>

definition response_of :: "rpc_task \<Rightarrow> string + mval \<Rightarrow> frame" where
  "response_of t res =
     (if t_found t then (case res of Inr v \<Rightarrow> FrameResponse (t_msgid t) MNil v
        | Inl e \<Rightarrow> FrameResponse (t_msgid t) (MString e) MNil)
      else FrameResponse (t_msgid t) (MString (''rpc method `'' @ t_method t @ ''` not implemented'')) MNil)"

definition finish_task :: "nat \<Rightarrow> string + mval \<Rightarrow> connection \<Rightarrow> connection" where
  "finish_task k res c =
     (let t = cn_tasks c ! k in
      set_task k (\<lambda>t. t\<lparr>t_phase := Answered (response_of t res)\<rparr>) (c\<lparr>cn_in_flight := hm_remove (t_msgid t) (cn_in_flight c)\<rparr>))"

definition reply_task :: "msgpack \<Rightarrow> string option \<Rightarrow> nat \<Rightarrow> frame \<Rightarrow> connection \<Rightarrow> connection" where
  "reply_task P io k f c = (case write_frame P io f c of
     (Inl e, c') \<Rightarrow> set_task k (\<lambda>t. t\<lparr>t_phase := ReplyFailed f\<rparr>) c'
   | (Inr _, c') \<Rightarrow> set_task k (\<lambda>t. t\<lparr>t_phase := Replied f\<rparr>) c')"

definition fail_all_pending :: "mval \<Rightarrow> connection \<Rightarrow> connection" where
  "fail_all_pending why c = foldl (\<lambda>c (i, k). set_slot k (SlotSent (Inl why)) c) (c\<lparr>cn_pending := []\<rparr>) (cn_pending c)"

text \<open>The reader ends with the stream, with a broken read or with a broken frame.\<close>

datatype read_end = StreamClosed | ReadBroken string | FrameBroken string

fun end_reason :: "read_end \<Rightarrow> mval" where
  "end_reason StreamClosed = MString ''connection closed''"
| "end_reason (ReadBroken e) = MString (''read error: '' @ e)"
| "end_reason (FrameBroken e) = MString (''decode error: '' @ e)"

definition end_reading :: "read_end \<Rightarrow> connection \<Rightarrow> connection" where
  "end_reading r c = (fail_all_pending (end_reason r) c)\<lparr>cn_reading := False\<rparr>"

end
