(* ===== verification/RpcLogic.thy ===== *)
theory RpcLogic
  imports Rpc
begin

text \<open>
  The life of a connection as a sequence of events, one for each section of its tasks, and what each
  call of \<^verbatim>\<open>request\<close> and each inbound request keeps through it.
\<close>

section \<open>Events\<close>

datatype rpc_event =
  Begin string mval
| Enter nat
| WriteOut nat "string option"
| Forget nat
| Receive frame
| Finish nat "string + mval"
| Reply nat "string option"
| EndOf read_end
| SendNotify "string option" string mval
| SendCancel "string option" u32

definition phase_at :: "nat \<Rightarrow> connection \<Rightarrow> phase option" where
  "phase_at k c = (if k < length (cn_calls c) then Some (c_phase (cn_calls c ! k)) else None)"

definition task_at :: "nat \<Rightarrow> connection \<Rightarrow> task_phase option" where
  "task_at k c = (if k < length (cn_tasks c) then Some (t_phase (cn_tasks c ! k)) else None)"

text \<open>An event that the state of its task does not allow has no result.\<close>

fun conn_event :: "msgpack \<Rightarrow> rpc_event \<Rightarrow> connection \<Rightarrow> connection option" where
  "conn_event P (Begin m p) c = Some (begin_request m p c)"
| "conn_event P (Enter k) c = (if phase_at k c = Some Allocated then Some (enter_request k c) else None)"
| "conn_event P (WriteOut k io) c = (if phase_at k c = Some Entered then Some (write_request P io k c) else None)"
| "conn_event P (Forget k) c = (case phase_at k c of Some (WriteFailed e) \<Rightarrow> Some (forget_request k e c) | _ \<Rightarrow> None)"
| "conn_event P (Receive f) c = (if cn_reading c then Some (dispatch_frame f c) else None)"
| "conn_event P (Finish k res) c = (if task_at k c = Some Working then Some (finish_task k res c) else None)"
| "conn_event P (Reply k io) c = (case task_at k c of Some (Answered f) \<Rightarrow> Some (reply_task P io k f c) | _ \<Rightarrow> None)"
| "conn_event P (EndOf r) c = (if cn_reading c then Some (end_reading r c) else None)"
| "conn_event P (SendNotify io m p) c = Some (snd (notify_peer P io m p c))"
| "conn_event P (SendCancel io i) c = Some (snd (cancel_peer P io i c))"

fun conn_run :: "msgpack \<Rightarrow> rpc_event list \<Rightarrow> connection \<Rightarrow> connection option" where
  "conn_run P [] c = Some c"
| "conn_run P (e # es) c = Option.bind (conn_event P e c) (conn_run P es)"

inductive conn_reach :: "msgpack \<Rightarrow> rpc_server \<Rightarrow> rpc_event list \<Rightarrow> connection \<Rightarrow> bool" for P S where
  reach_open: "conn_reach P S [] (open_connection S)"
| reach_step: "conn_reach P S es c \<Longrightarrow> conn_event P e c = Some c' \<Longrightarrow> conn_reach P S (es @ [e]) c'"

lemma reach_run: "conn_reach P S es c \<Longrightarrow> conn_run P es' c = Some c' \<Longrightarrow> conn_reach P S (es @ es') c'"
proof (induction es' arbitrary: es c)
  case (Cons e es')
  then obtain c1 where c1: "conn_event P e c = Some c1" "conn_run P es' c1 = Some c'" by (auto split: bind_splits)
  from Cons.IH [OF reach_step [OF Cons.prems(1) c1(1)] c1(2)] show ?case by simp
qed simp

lemma reach_iff_run: "conn_reach P S es c \<longleftrightarrow> conn_run P es (open_connection S) = Some c"
proof
  have snoc: "conn_run P (es @ [e]) c = Option.bind (conn_run P es c) (conn_event P e)" for es e c
    by (induction es arbitrary: c) (auto split: bind_splits)
  show "conn_reach P S es c \<Longrightarrow> conn_run P es (open_connection S) = Some c"
    by (induction rule: conn_reach.induct) (auto simp: snoc)
  show "conn_run P es (open_connection S) = Some c \<Longrightarrow> conn_reach P S es c"
    using reach_run [OF reach_open] by fastforce
qed

section \<open>What the operations change\<close>

lemma set_slot_simps [simp]:
  "cn_next_msgid (set_slot k x c) = cn_next_msgid c" "cn_pending (set_slot k x c) = cn_pending c"
  "cn_in_flight (set_slot k x c) = cn_in_flight c" "cn_tasks (set_slot k x c) = cn_tasks c"
  "cn_output (set_slot k x c) = cn_output c" "cn_reading (set_slot k x c) = cn_reading c"
  "cn_handlers (set_slot k x c) = cn_handlers c" "cn_notified (set_slot k x c) = cn_notified c"
  "length (cn_calls (set_slot k x c)) = length (cn_calls c)"
  by (simp_all add: set_slot_def)

lemma set_phase_simps [simp]:
  "cn_next_msgid (set_phase k y c) = cn_next_msgid c" "cn_pending (set_phase k y c) = cn_pending c"
  "cn_in_flight (set_phase k y c) = cn_in_flight c" "cn_tasks (set_phase k y c) = cn_tasks c"
  "cn_output (set_phase k y c) = cn_output c" "cn_reading (set_phase k y c) = cn_reading c"
  "cn_handlers (set_phase k y c) = cn_handlers c" "cn_notified (set_phase k y c) = cn_notified c"
  "length (cn_calls (set_phase k y c)) = length (cn_calls c)"
  by (simp_all add: set_phase_def)

lemma set_task_simps [simp]:
  "cn_next_msgid (set_task k g c) = cn_next_msgid c" "cn_pending (set_task k g c) = cn_pending c"
  "cn_in_flight (set_task k g c) = cn_in_flight c" "cn_calls (set_task k g c) = cn_calls c"
  "cn_output (set_task k g c) = cn_output c" "cn_reading (set_task k g c) = cn_reading c"
  "cn_handlers (set_task k g c) = cn_handlers c" "cn_notified (set_task k g c) = cn_notified c"
  "length (cn_tasks (set_task k g c)) = length (cn_tasks c)"
  by (simp_all add: set_task_def)

lemma call_set_slot: "k < length (cn_calls c) \<Longrightarrow>
    cn_calls (set_slot j x c) ! k = (if j = k then (cn_calls c ! k)\<lparr>c_slot := x\<rparr> else cn_calls c ! k)"
  by (auto simp: set_slot_def nth_list_update)

lemma call_set_phase: "k < length (cn_calls c) \<Longrightarrow>
    cn_calls (set_phase j y c) ! k = (if j = k then (cn_calls c ! k)\<lparr>c_phase := y\<rparr> else cn_calls c ! k)"
  by (auto simp: set_phase_def nth_list_update)

lemma task_set_task: "k < length (cn_tasks c) \<Longrightarrow>
    cn_tasks (set_task j g c) ! k = (if j = k then g (cn_tasks c ! k) else cn_tasks c ! k)"
  by (auto simp: set_task_def nth_list_update)

lemma write_frame_simps [simp]:
  "cn_next_msgid (snd (write_frame P io f c)) = cn_next_msgid c" "cn_pending (snd (write_frame P io f c)) = cn_pending c"
  "cn_in_flight (snd (write_frame P io f c)) = cn_in_flight c" "cn_tasks (snd (write_frame P io f c)) = cn_tasks c"
  "cn_calls (snd (write_frame P io f c)) = cn_calls c" "cn_reading (snd (write_frame P io f c)) = cn_reading c"
  by (simp_all add: write_frame_def split: sum.split option.split)

lemma write_frame_eqs:
  assumes "write_frame P io f c = (r, c')"
  shows "cn_next_msgid c' = cn_next_msgid c" "cn_pending c' = cn_pending c" "cn_in_flight c' = cn_in_flight c"
    "cn_tasks c' = cn_tasks c" "cn_calls c' = cn_calls c" "cn_reading c' = cn_reading c"
    "cn_output c' = cn_output c @ (case r of Inl _ \<Rightarrow> [] | Inr _ \<Rightarrow> [f])"
  using assms by (auto simp: write_frame_def split: sum.splits option.splits)

text \<open>All waiting senders are used at once.\<close>

lemma fold_slots:
  assumes "distinct (map snd ps)" and "\<forall>(i, k) \<in> set ps. k < length (cn_calls c)"
  shows "cn_calls (foldl (\<lambda>c (i, k). set_slot k x c) c ps) =
      map (\<lambda>k. if k \<in> snd ` set ps then (cn_calls c ! k)\<lparr>c_slot := x\<rparr> else cn_calls c ! k) [0..<length (cn_calls c)]"
  using assms
proof (induction ps arbitrary: c)
  case Nil
  then show ?case by (simp add: map_nth)
next
  case (Cons p ps)
  obtain i j where p: "p = (i, j)" by fastforce
  with Cons.prems have j: "j < length (cn_calls c)" and "j \<notin> snd ` set ps" by auto
  with Cons.IH [of "set_slot j x c"] Cons.prems p show ?case
    by (auto simp: call_set_slot intro!: map_cong)
qed

lemma fold_slots_simps [simp]:
  "cn_next_msgid (foldl (\<lambda>c (i, k). set_slot k x c) c ps) = cn_next_msgid c"
  "cn_pending (foldl (\<lambda>c (i, k). set_slot k x c) c ps) = cn_pending c"
  "cn_in_flight (foldl (\<lambda>c (i, k). set_slot k x c) c ps) = cn_in_flight c"
  "cn_tasks (foldl (\<lambda>c (i, k). set_slot k x c) c ps) = cn_tasks c"
  "cn_output (foldl (\<lambda>c (i, k). set_slot k x c) c ps) = cn_output c"
  "cn_reading (foldl (\<lambda>c (i, k). set_slot k x c) c ps) = cn_reading c"
  "length (cn_calls (foldl (\<lambda>c (i, k). set_slot k x c) c ps)) = length (cn_calls c)"
  by (induction ps arbitrary: c) auto

section \<open>The table of waiting senders\<close>

definition past_entry :: "phase \<Rightarrow> bool" where
  "past_entry y = (case y of Allocated \<Rightarrow> False | GaveUp _ \<Rightarrow> False | _ \<Rightarrow> True)"

lemma past_entry_simps [simp]:
  "\<not> past_entry Allocated" "past_entry Entered" "past_entry Written" "past_entry (WriteFailed e)" "\<not> past_entry (GaveUp e)"
  by (simp_all add: past_entry_def)

definition call_waits :: "call \<Rightarrow> bool" where
  "call_waits x \<longleftrightarrow> past_entry (c_phase x) \<and> c_slot x = SlotOpen"

definition call_fine :: "call \<Rightarrow> bool" where
  "call_fine x \<longleftrightarrow> (c_phase x = Allocated \<longrightarrow> c_slot x = SlotOpen) \<and> (c_slot x = SlotOpen \<longrightarrow> c_phase x = Allocated \<or> call_waits x)"

definition waits_for :: "connection \<Rightarrow> u32 \<Rightarrow> nat \<Rightarrow> bool" where
  "waits_for c i k \<longleftrightarrow> k < length (cn_calls c) \<and> c_msgid (cn_calls c ! k) = i \<and> call_waits (cn_calls c ! k)"

definition calls_ok :: "connection \<Rightarrow> bool" where
  "calls_ok c \<longleftrightarrow> cn_next_msgid c = of_nat (Suc (length (cn_calls c))) \<and>
     (\<forall>k < length (cn_calls c). c_msgid (cn_calls c ! k) = of_nat (Suc k) \<and>
        call_fine (cn_calls c ! k)) \<and>
     distinct (map fst (cn_pending c)) \<and> (\<forall>i k. map_of (cn_pending c) i = Some k \<longleftrightarrow> waits_for c i k)"

lemma calls_okD:
  assumes "calls_ok c"
  shows "distinct (map fst (cn_pending c))" "map_of (cn_pending c) i = Some k \<longleftrightarrow> waits_for c i k"
    "k < length (cn_calls c) \<Longrightarrow> c_msgid (cn_calls c ! k) = of_nat (Suc k)"
    "k < length (cn_calls c) \<Longrightarrow> call_fine (cn_calls c ! k)"
    "cn_next_msgid c = of_nat (Suc (length (cn_calls c)))"
  using assms by (auto simp: calls_ok_def)

lemma calls_ok_same:
  assumes "calls_ok c" and "cn_next_msgid c' = cn_next_msgid c" and "cn_pending c' = cn_pending c" and "cn_calls c' = cn_calls c"
  shows "calls_ok c'"
  using assms by (simp add: calls_ok_def waits_for_def)

text \<open>A change of one call and of the table for its identifier.\<close>

lemma calls_ok_update:
  assumes c: "calls_ok c" and k: "k < length (cn_calls c)"
    and x: "c_msgid x = c_msgid (cn_calls c ! k)" "call_fine x"
    and c': "cn_next_msgid c' = cn_next_msgid c" "cn_calls c' = (cn_calls c)[k := x]"
    and d: "distinct (map fst (cn_pending c'))"
    and p: "\<And>i. i \<noteq> c_msgid x \<Longrightarrow> map_of (cn_pending c') i = map_of (cn_pending c) i"
      "map_of (cn_pending c') (c_msgid x) = (if call_waits x then Some k
         else if waits_for c (c_msgid x) k then None else map_of (cn_pending c) (c_msgid x))"
    and alone: "\<And>j. call_waits x \<Longrightarrow> waits_for c (c_msgid x) j \<Longrightarrow> j = k"
  shows "calls_ok c'"
proof -
  have other: "waits_for c' i j \<longleftrightarrow> waits_for c i j" if "j \<noteq> k" for i j
    using that c' by (simp add: waits_for_def)
  have self: "waits_for c' i k \<longleftrightarrow> i = c_msgid x \<and> call_waits x" for i
    using c' k by (auto simp: waits_for_def)
  note m = calls_okD(2) [OF c]
  have "map_of (cn_pending c') i = Some j \<longleftrightarrow> waits_for c' i j" for i j
  proof (cases "i = c_msgid x")
    case False
    with p(1) m have *: "map_of (cn_pending c') i = Some j \<longleftrightarrow> waits_for c i j" by simp
    show ?thesis
    proof (cases "j = k")
      case True
      with False x(1) have "\<not> waits_for c i k" by (auto simp: waits_for_def)
      with True * self False show ?thesis by auto
    qed (use * other in simp)
  next
    case True
    show ?thesis
    proof (cases "j = k")
      case True
      with \<open>i = c_msgid x\<close> p(2) self m show ?thesis by auto
    next
      case False
      have "waits_for c (c_msgid x) k \<Longrightarrow> waits_for c (c_msgid x) j \<Longrightarrow> False"
        using m [of "c_msgid x"] False by (metis option.inject)
      moreover have "call_waits x \<Longrightarrow> \<not> waits_for c (c_msgid x) j" using alone False by blast
      ultimately show ?thesis using False True p(2) other m by auto
    qed
  qed
  with c k x c' d show ?thesis
    by (auto simp: calls_ok_def nth_list_update)
qed

text \<open>A sender that is used or dropped leaves the table.\<close>

lemma settle_ok:
  assumes c: "calls_ok c" and k: "map_of (cn_pending c) i = Some k" and x: "x \<noteq> SlotOpen"
  shows "calls_ok (set_slot k x (c\<lparr>cn_pending := hm_remove i (cn_pending c)\<rparr>))"
proof -
  from k calls_okD(2) [OF c] have w: "waits_for c i k" by simp
  then have lt: "k < length (cn_calls c)" "c_msgid (cn_calls c ! k) = i" "call_waits (cn_calls c ! k)"
    by (auto simp: waits_for_def)
  then show ?thesis
    by (intro calls_ok_update [OF c lt(1), of "(cn_calls c ! k)\<lparr>c_slot := x\<rparr>"])
      (use w x calls_okD(1) [OF c] in \<open>auto simp: set_slot_def call_waits_def call_fine_def map_of_hm_remove distinct_hm_remove\<close>)
qed

lemma open_ok: "calls_ok (open_connection S)"
  by (simp add: calls_ok_def open_connection_def waits_for_def)

lemma begin_ok:
  assumes c: "calls_ok c"
  shows "calls_ok (begin_request m p c)"
proof -
  have "waits_for (begin_request m p c) i k \<longleftrightarrow> waits_for c i k" for i k
    by (auto simp: waits_for_def begin_request_def nth_append call_waits_def less_Suc_eq)
  with c show ?thesis
    unfolding calls_ok_def by (auto simp: begin_request_def nth_append less_Suc_eq call_fine_def)
qed

lemma set_phase_ok:
  assumes c: "calls_ok c" and k: "k < length (cn_calls c)" and y: "y \<noteq> Allocated" "c_phase (cn_calls c ! k) \<noteq> Allocated"
    and same: "past_entry y \<longleftrightarrow> past_entry (c_phase (cn_calls c ! k))"
  shows "calls_ok (set_phase k y c)"
proof -
  let ?x = "cn_calls c ! k"
  have fine: "call_fine (?x\<lparr>c_phase := y\<rparr>)"
    using y same calls_okD(4) [OF c k] by (auto simp: call_fine_def call_waits_def)
  have w: "waits_for c (c_msgid ?x) k \<longleftrightarrow> call_waits ?x" using k by (simp add: waits_for_def)
  have u: "call_waits (?x\<lparr>c_phase := y\<rparr>) \<longleftrightarrow> call_waits ?x" using same by (simp add: call_waits_def)
  have m: "map_of (cn_pending c) (c_msgid ?x) = Some k \<longleftrightarrow> call_waits ?x" using calls_okD(2) [OF c] w by simp
  show ?thesis
  proof (rule calls_ok_update [OF c k, of "?x\<lparr>c_phase := y\<rparr>"], goal_cases)
    case (8 j)
    with u m calls_okD(2) [OF c, of "c_msgid ?x" j] show ?case by auto
  qed (use y u m w fine calls_okD(1) [OF c] in \<open>auto simp: set_phase_def\<close>)
qed

lemma phase_atD: "phase_at k c = Some y \<Longrightarrow> k < length (cn_calls c) \<and> c_phase (cn_calls c ! k) = y"
  by (auto simp: phase_at_def split: if_splits)

text \<open>An identifier that is still in the table loses its sender to the new call.\<close>

definition drop_pending :: "u32 \<Rightarrow> connection \<Rightarrow> connection" where
  "drop_pending i c = (case map_of (cn_pending c) i of None \<Rightarrow> c
     | Some j \<Rightarrow> set_slot j SlotDropped (c\<lparr>cn_pending := hm_remove i (cn_pending c)\<rparr>))"

lemma drop_pending_ok: "calls_ok c \<Longrightarrow> calls_ok (drop_pending i c)"
  by (simp add: drop_pending_def settle_ok split: option.split)

lemma drop_pending_simps [simp]:
  "cn_next_msgid (drop_pending i c) = cn_next_msgid c" "length (cn_calls (drop_pending i c)) = length (cn_calls c)"
  "cn_tasks (drop_pending i c) = cn_tasks c" "cn_output (drop_pending i c) = cn_output c"
  "cn_in_flight (drop_pending i c) = cn_in_flight c" "cn_reading (drop_pending i c) = cn_reading c"
  by (simp_all add: drop_pending_def split: option.split)

lemma drop_pending_map: "map_of (cn_pending (drop_pending i c)) = (map_of (cn_pending c))(i := None)"
  by (auto simp: drop_pending_def map_of_hm_remove split: option.split)

lemma waits_unique: "calls_ok c \<Longrightarrow> waits_for c i j \<Longrightarrow> waits_for c i k \<Longrightarrow> j = k"
  using calls_okD(2) [of c i] by (metis option.inject)

lemma drop_pending_call:
  assumes "calls_ok c" and "k < length (cn_calls c)"
  shows "cn_calls (drop_pending i c) ! k =
    (if waits_for c i k then (cn_calls c ! k)\<lparr>c_slot := SlotDropped\<rparr> else cn_calls c ! k)"
proof (cases "map_of (cn_pending c) i")
  case None
  with calls_okD(2) [OF assms(1), of i] show ?thesis by (auto simp: drop_pending_def)
next
  case (Some j)
  with calls_okD(2) [OF assms(1), of i j] have "waits_for c i j" by simp
  with waits_unique [OF assms(1)] Some assms(2) show ?thesis
    by (auto simp: drop_pending_def call_set_slot)
qed

lemma enter_ok:
  assumes c: "calls_ok c" and k: "phase_at k c = Some Allocated"
  shows "calls_ok (enter_request k c)"
proof -
  from phase_atD [OF k] have lt: "k < length (cn_calls c)" and a: "c_phase (cn_calls c ! k) = Allocated" by auto
  let ?x = "cn_calls c ! k" let ?i = "c_msgid ?x" let ?d = "drop_pending ?i c"
  have o: "c_slot ?x = SlotOpen" using calls_okD(4) [OF c lt] a by (simp add: call_fine_def)
  from a have nw: "\<not> waits_for c ?i k" by (simp add: waits_for_def call_waits_def)
  then have x: "cn_calls ?d ! k = ?x" using drop_pending_call [OF c lt, of ?i] by simp
  have calls: "cn_calls (enter_request k c) = (cn_calls ?d)[k := ?x\<lparr>c_phase := Entered\<rparr>]"
    using nw calls_okD(2) [OF c, of ?i k]
    by (auto simp: enter_request_def drop_pending_def set_phase_def set_slot_def Let_def nth_list_update split: option.split)
  have pend: "cn_pending (enter_request k c) = hm_put ?i k (cn_pending c)"
    by (simp add: enter_request_def Let_def split: option.split)
  show ?thesis
  proof (rule calls_ok_update [OF drop_pending_ok [OF c, of ?i], of k "?x\<lparr>c_phase := Entered\<rparr>"], goal_cases)
    case (9 j)
    then show ?case
      using calls_okD(2) [OF drop_pending_ok [OF c, of ?i], of ?i j] by (simp add: drop_pending_map)
  qed (use lt x o calls pend calls_okD(1) [OF c] in
      \<open>simp_all add: drop_pending_map map_of_hm_put distinct_hm_put call_waits_def call_fine_def\<close>,
      simp add: enter_request_def Let_def split: option.split)
qed

lemma write_request_ok:
  assumes "calls_ok c" and "phase_at k c = Some Entered"
  shows "calls_ok (write_request P io k c)"
proof -
  from phase_atD [OF assms(2)] have k: "k < length (cn_calls c)" "c_phase (cn_calls c ! k) = Entered" by auto
  obtain r c1 where w: "write_frame P io (FrameRequest (c_msgid (cn_calls c ! k)) (c_method (cn_calls c ! k)) (c_params (cn_calls c ! k))) c = (r, c1)"
    by fastforce
  note e = write_frame_eqs [OF w]
  have "calls_ok c1" by (rule calls_ok_same [OF assms(1)]) (simp_all add: e)
  then have "calls_ok (set_phase k y c1)" if "y \<noteq> Allocated" "past_entry y" for y
    using that k by (intro set_phase_ok) (simp_all add: e)
  then show ?thesis by (simp add: write_request_def w Let_def split: sum.split)
qed

lemma hm_remove_absent: "map_of m k = None \<Longrightarrow> hm_remove k m = m"
  by (auto simp: hm_remove_def filter_id_conv map_of_eq_None_iff rev_image_eqI)

lemma forget_ok:
  assumes c: "calls_ok c" and k: "phase_at k c = Some (WriteFailed e)"
  shows "calls_ok (forget_request k e c)"
proof -
  from phase_atD [OF k] have lt: "k < length (cn_calls c)" and a: "c_phase (cn_calls c ! k) = WriteFailed e" by auto
  let ?x = "cn_calls c ! k" let ?i = "c_msgid ?x" let ?d = "drop_pending ?i c"
  have eq: "forget_request k e c = set_phase k (GaveUp e) (?d\<lparr>cn_pending := hm_remove ?i (cn_pending ?d)\<rparr>)"
    by (simp add: forget_request_def drop_pending_def Let_def hm_remove_def set_slot_def split: option.split)
  have rem: "hm_remove ?i (cn_pending ?d) = cn_pending ?d"
    by (rule hm_remove_absent) (simp add: drop_pending_map)
  have dok: "calls_ok ?d" by (rule drop_pending_ok [OF c])
  have m: "map_of (cn_pending ?d) ?i = None" by (simp add: drop_pending_map)
  have nw: "\<not> waits_for ?d ?i j" for j using calls_okD(2) [OF dok, of ?i j] m by simp
  show ?thesis unfolding eq rem
  proof (rule calls_ok_update [OF dok, of k "(cn_calls ?d ! k)\<lparr>c_phase := GaveUp e\<rparr>"], goal_cases)
    case 8
    have "c_msgid (cn_calls ?d ! k) = ?i" using drop_pending_call [OF c lt, of ?i] by simp
    then show ?case using nw by (simp add: call_waits_def)
  next
    case 3
    from nw [of k] calls_okD(3,4) [OF dok, of k] calls_okD(3) [OF c lt] lt have "c_slot (cn_calls ?d ! k) \<noteq> SlotOpen"
      using drop_pending_call [OF c lt, of ?i] a by (auto simp: waits_for_def call_waits_def call_fine_def)
    then show ?case by (simp add: call_fine_def)
  qed (use lt calls_okD(1) [OF dok] in \<open>auto simp: set_phase_def call_waits_def\<close>)
qed

lemma dispatch_ok:
  assumes "calls_ok c"
  shows "calls_ok (dispatch_frame f c)"
proof (cases f)
  case (FrameRequest i m p)
  then show ?thesis
    by (intro calls_ok_same [OF assms]) (simp_all add: dispatch_frame_def start_task_def)
next
  case (FrameResponse i e r)
  then show ?thesis
    using assms by (simp add: dispatch_frame_def complete_pending_def settle_ok split: option.split)
next
  case (FrameNotify m p)
  then show ?thesis
    by (intro calls_ok_same [OF assms]) (simp_all add: dispatch_frame_def cancel_task_def split: option.split)
qed

lemma pending_positions:
  assumes "calls_ok c"
  shows "distinct (map snd (cn_pending c))" and "\<forall>(i, k) \<in> set (cn_pending c). waits_for c i k"
proof -
  note d = calls_okD(1) [OF assms]
  show w: "\<forall>(i, k) \<in> set (cn_pending c). waits_for c i k"
    using calls_okD(2) [OF assms] d by auto
  have "inj_on snd (set (cn_pending c))"
  proof (rule inj_onI)
    fix p q assume "p \<in> set (cn_pending c)" "q \<in> set (cn_pending c)" "snd p = snd q"
    with w show "p = q" by (cases p; cases q) (fastforce simp: waits_for_def)
  qed
  moreover have "distinct (cn_pending c)" using d by (simp add: distinct_map)
  ultimately show "distinct (map snd (cn_pending c))" by (simp add: distinct_map)
qed

lemma end_reading_calls:
  assumes "calls_ok c" and "k < length (cn_calls c)"
  shows "cn_calls (end_reading r c) ! k =
    (if call_waits (cn_calls c ! k) then (cn_calls c ! k)\<lparr>c_slot := SlotSent (Inl (end_reason r))\<rparr> else cn_calls c ! k)"
proof -
  have "k \<in> snd ` set (cn_pending c) \<longleftrightarrow> call_waits (cn_calls c ! k)"
  proof
    assume "k \<in> snd ` set (cn_pending c)"
    with pending_positions(2) [OF assms(1)] show "call_waits (cn_calls c ! k)" by (auto simp: waits_for_def)
  next
    assume "call_waits (cn_calls c ! k)"
    with assms(2) have "map_of (cn_pending c) (c_msgid (cn_calls c ! k)) = Some k"
      using calls_okD(2) [OF assms(1)] by (simp add: waits_for_def)
    then show "k \<in> snd ` set (cn_pending c)" by (metis map_of_SomeD image_eqI snd_conv)
  qed
  moreover have "\<forall>(i, k) \<in> set (cn_pending c). k < length (cn_calls c)"
    using pending_positions(2) [OF assms(1)] by (auto simp: waits_for_def)
  ultimately show ?thesis
    using fold_slots [OF pending_positions(1) [OF assms(1)], of "c\<lparr>cn_pending := []\<rparr>" "SlotSent (Inl (end_reason r))"] assms(2)
    by (simp add: end_reading_def fail_all_pending_def)
qed

lemma end_reading_simps [simp]:
  "cn_next_msgid (end_reading r c) = cn_next_msgid c" "length (cn_calls (end_reading r c)) = length (cn_calls c)"
  "cn_pending (end_reading r c) = []" "cn_tasks (end_reading r c) = cn_tasks c" "cn_output (end_reading r c) = cn_output c"
  "cn_in_flight (end_reading r c) = cn_in_flight c" "\<not> cn_reading (end_reading r c)"
  by (simp_all add: end_reading_def fail_all_pending_def)

lemma end_reading_ok:
  assumes "calls_ok c"
  shows "calls_ok (end_reading r c)"
proof -
  have "\<not> waits_for (end_reading r c) i k" for i k
    by (auto simp: waits_for_def end_reading_calls [OF assms] call_waits_def)
  then show ?thesis
    using assms by (auto simp: calls_ok_def end_reading_calls [OF assms] call_waits_def call_fine_def)
qed

lemma event_ok:
  assumes "calls_ok c" and "conn_event P e c = Some c'"
  shows "calls_ok c'"
proof (cases e)
  case (Finish k res)
  with assms show ?thesis
    by (intro calls_ok_same [OF assms(1)]) (auto simp: finish_task_def Let_def split: if_splits)
next
  case (Reply k io)
  with assms show ?thesis
    by (intro calls_ok_same [OF assms(1)])
      (auto simp: reply_task_def dest: write_frame_eqs split: option.splits task_phase.splits prod.splits sum.splits)
next
  case (SendNotify io m p)
  with assms show ?thesis by (intro calls_ok_same [OF assms(1)]) (auto simp: notify_peer_def)
next
  case (SendCancel io i)
  with assms show ?thesis by (intro calls_ok_same [OF assms(1)]) (auto simp: cancel_peer_def)
qed (use assms in \<open>auto simp: begin_ok enter_ok write_request_ok forget_ok dispatch_ok end_reading_ok
    split: if_splits option.splits phase.splits\<close>)

lemma reach_ok: "conn_reach P S es c \<Longrightarrow> calls_ok c"
  by (induction rule: conn_reach.induct) (auto simp: open_ok intro: event_ok)

section \<open>The promise of a single call\<close>

text \<open>The specification: what becomes of one call, by its own identifier alone.\<close>

datatype promise = Unentered | Waiting | Kept "mval + mval" | Abandoned

fun promise_step :: "nat \<Rightarrow> rpc_event \<Rightarrow> promise \<Rightarrow> promise" where
  "promise_step k (Enter j) p = (if j = k \<and> p = Unentered then Waiting else p)"
| "promise_step k (Receive (FrameResponse i e r)) p =
     (if p = Waiting \<and> i = of_nat (Suc k) then Kept (if e = MNil then Inr r else Inl e) else p)"
| "promise_step k (EndOf r) p = (if p = Waiting then Kept (Inl (end_reason r)) else p)"
| "promise_step k (Forget j) p = (if j = k \<and> p = Waiting then Abandoned else p)"
| "promise_step k _ p = p"

definition promise :: "nat \<Rightarrow> rpc_event list \<Rightarrow> promise" where
  "promise k es = foldl (\<lambda>p e. promise_step k e p) Unentered es"

definition promise_of :: "call \<Rightarrow> promise" where
  "promise_of x = (case c_slot x of SlotSent v \<Rightarrow> Kept v | SlotDropped \<Rightarrow> Abandoned
     | SlotOpen \<Rightarrow> if c_phase x = Allocated then Unentered else Waiting)"

lemma msgids_differ:
  assumes "calls_ok c" and "length (cn_calls c) < 2 ^ 32" and "j < length (cn_calls c)" and "k < length (cn_calls c)"
    and "c_msgid (cn_calls c ! j) = c_msgid (cn_calls c ! k)"
  shows "j = k"
proof -
  have "(of_nat (Suc j) :: u32) = of_nat (Suc k)" using calls_okD(3) [OF assms(1)] assms(3-5) by simp
  then have "Suc j mod 2 ^ 32 = Suc k mod 2 ^ 32"
    by (simp add: word_of_nat_eq_iff take_bit_eq_mod del: of_nat_Suc)
  moreover have "Suc j < 2 ^ 32" "Suc k < 2 ^ 32" using assms by linarith+
  ultimately show ?thesis by simp
qed

text \<open>One event of the connection is one step of every promise.\<close>

lemma promise_of_phase: "y \<noteq> Allocated \<Longrightarrow> c_phase x \<noteq> Allocated \<Longrightarrow> promise_of (x\<lparr>c_phase := y\<rparr>) = promise_of x"
  by (simp add: promise_of_def)

lemma promise_waits: "call_fine x \<Longrightarrow> promise_of x = Waiting \<longleftrightarrow> call_waits x"
  by (cases "c_slot x") (auto simp: promise_of_def call_waits_def call_fine_def)

lemma drop_self:
  assumes "calls_ok c" and "length (cn_calls c) < 2 ^ 32" and "j < length (cn_calls c)" and "k < length (cn_calls c)"
  shows "cn_calls (drop_pending (c_msgid (cn_calls c ! j)) c) ! k =
    (if k = j \<and> call_waits (cn_calls c ! j) then (cn_calls c ! j)\<lparr>c_slot := SlotDropped\<rparr> else cn_calls c ! k)"
  using drop_pending_call [OF assms(1,4)] msgids_differ [OF assms] assms(3,4) by (auto simp: waits_for_def)

lemma enter_calls:
  assumes "calls_ok c" and "length (cn_calls c) < 2 ^ 32" and "phase_at j c = Some Allocated" and "k < length (cn_calls c)"
  shows "cn_calls (enter_request j c) ! k = (if k = j then (cn_calls c ! j)\<lparr>c_phase := Entered\<rparr> else cn_calls c ! k)"
proof -
  from phase_atD [OF assms(3)] have j: "j < length (cn_calls c)" "\<not> call_waits (cn_calls c ! j)" by (auto simp: call_waits_def)
  have "cn_calls (enter_request j c) = cn_calls (set_phase j Entered (drop_pending (c_msgid (cn_calls c ! j)) c))"
    by (simp add: enter_request_def drop_pending_def set_phase_def set_slot_def Let_def split: option.split)
  with drop_self [OF assms(1,2) j(1) assms(4)] j assms(4) show ?thesis by (cases "k = j") (auto simp: call_set_phase)
qed

lemma forget_calls:
  assumes "calls_ok c" and "length (cn_calls c) < 2 ^ 32" and "phase_at j c = Some (WriteFailed e)" and "k < length (cn_calls c)"
  shows "cn_calls (forget_request j e c) ! k = (if k = j
    then (if call_waits (cn_calls c ! j) then (cn_calls c ! j)\<lparr>c_slot := SlotDropped\<rparr> else cn_calls c ! j)\<lparr>c_phase := GaveUp e\<rparr>
    else cn_calls c ! k)"
proof -
  from phase_atD [OF assms(3)] have j: "j < length (cn_calls c)" by simp
  have "cn_calls (forget_request j e c) = cn_calls (set_phase j (GaveUp e) (drop_pending (c_msgid (cn_calls c ! j)) c))"
    by (simp add: forget_request_def drop_pending_def set_phase_def set_slot_def Let_def split: option.split)
  with drop_self [OF assms(1,2) j(1) assms(4)] j assms(4) show ?thesis by (cases "k = j") (auto simp: call_set_phase)
qed

lemma promise_event:
  assumes c: "calls_ok c" and lt: "length (cn_calls c) < 2 ^ 32" and e: "conn_event P e c = Some c'" and k: "k < length (cn_calls c)"
  shows "promise_of (cn_calls c' ! k) = promise_step k e (promise_of (cn_calls c ! k))"
proof (cases e)
  case (Begin m p)
  with e k show ?thesis by (auto simp: begin_request_def nth_append)
next
  case (Enter j)
  with e have j: "phase_at j c = Some Allocated" "c' = enter_request j c" by (auto split: if_splits)
  show ?thesis
  proof (cases "k = j")
    case True
    with phase_atD [OF j(1)] calls_okD(4) [OF c k] have "c_phase (cn_calls c ! j) = Allocated" "c_slot (cn_calls c ! j) = SlotOpen"
      by (auto simp: call_fine_def)
    with True Enter j enter_calls [OF c lt j(1) k] show ?thesis by (simp add: promise_of_def)
  qed (use Enter j enter_calls [OF c lt j(1) k] in simp)
next
  case (WriteOut j io)
  with e have j: "phase_at j c = Some Entered" "c' = write_request P io j c" by (auto split: if_splits)
  from phase_atD [OF j(1)] show ?thesis
    using WriteOut j k
    by (auto simp: write_request_def Let_def call_set_phase promise_of_phase dest!: write_frame_eqs(5) split: prod.splits sum.splits)
next
  case (Forget j)
  with e obtain why where j: "phase_at j c = Some (WriteFailed why)" "c' = forget_request j why c"
    by (auto split: option.splits phase.splits)
  show ?thesis
  proof (cases "k = j")
    case True
    with phase_atD [OF j(1)] have y: "c_phase (cn_calls c ! j) = WriteFailed why" by simp
    then have "promise_of (cn_calls c ! j) = Waiting \<longleftrightarrow> call_waits (cn_calls c ! j)" by (intro promise_waits calls_okD(4) [OF c]) (use True k in auto)
    with True Forget j y forget_calls [OF c lt j(1) k] show ?thesis by (auto simp: promise_of_def)
  qed (use Forget j forget_calls [OF c lt j(1) k] in simp)
next
  case (Receive f)
  then have c': "c' = dispatch_frame f c" using e by (auto split: if_splits)
  show ?thesis
  proof (cases f)
    case (FrameResponse i err r)
    let ?v = "if err = MNil then Inr r else Inl err"
    have w: "promise_of (cn_calls c ! k) = Waiting \<longleftrightarrow> waits_for c (of_nat (Suc k)) k"
      using promise_waits [OF calls_okD(4) [OF c k]] calls_okD(3) [OF c k] k by (simp add: waits_for_def)
    show ?thesis
    proof (cases "waits_for c i k")
      case True
      then have "i = of_nat (Suc k)" using calls_okD(3) [OF c k] by (simp add: waits_for_def)
      moreover have "cn_calls c' ! k = (cn_calls c ! k)\<lparr>c_slot := SlotSent ?v\<rparr>"
        using True calls_okD(2) [OF c, of i k] k
        by (simp add: c' FrameResponse dispatch_frame_def complete_pending_def call_set_slot)
      ultimately show ?thesis using True w Receive FrameResponse by (simp add: promise_of_def)
    next
      case False
      then have "cn_calls c' ! k = cn_calls c ! k"
        using calls_okD(2) [OF c, of i] k
        by (auto simp: c' FrameResponse dispatch_frame_def complete_pending_def call_set_slot split: option.split)
      then show ?thesis using False w Receive FrameResponse by auto
    qed
  qed (use Receive c' in \<open>auto simp: dispatch_frame_def start_task_def cancel_task_def split: option.splits\<close>)
next
  case (Finish j res)
  with e show ?thesis by (auto simp: finish_task_def Let_def split: if_splits)
next
  case (Reply j io)
  with e show ?thesis
    by (auto simp: reply_task_def dest!: write_frame_eqs(5) split: option.splits task_phase.splits prod.splits sum.splits)
next
  case (EndOf r)
  then have "c' = end_reading r c" using e by (auto split: if_splits)
  with EndOf promise_waits [OF calls_okD(4) [OF c k]] end_reading_calls [OF c k, of r] show ?thesis
    by (auto simp: promise_of_def)
next
  case (SendNotify io m p)
  with e show ?thesis by (auto simp: notify_peer_def)
next
  case (SendCancel io i)
  with e show ?thesis by (auto simp: cancel_peer_def)
qed

lemma calls_grow: "conn_event P e c = Some c' \<Longrightarrow> length (cn_calls c) \<le> length (cn_calls c')"
  by (cases e) (auto simp: begin_request_def enter_request_def write_request_def forget_request_def dispatch_frame_def complete_pending_def
      start_task_def cancel_task_def finish_task_def reply_task_def notify_peer_def cancel_peer_def Let_def
      dest!: write_frame_eqs(5) split: if_splits option.splits phase.splits task_phase.splits prod.splits sum.splits frame.splits)

lemma calls_born: "conn_event P e c = Some c' \<Longrightarrow> length (cn_calls c) \<le> k \<Longrightarrow> k < length (cn_calls c') \<Longrightarrow>
    k = length (cn_calls c) \<and> c_phase (cn_calls c' ! k) = Allocated \<and> c_slot (cn_calls c' ! k) = SlotOpen"
  by (cases e) (auto simp: begin_request_def enter_request_def write_request_def forget_request_def dispatch_frame_def complete_pending_def
      start_task_def cancel_task_def finish_task_def reply_task_def notify_peer_def cancel_peer_def Let_def nth_append
      dest!: write_frame_eqs(5) split: if_splits option.splits phase.splits task_phase.splits prod.splits sum.splits frame.splits)

lemma promise_snoc: "promise k (es @ [e]) = promise_step k e (promise k es)"
  by (simp add: promise_def)

lemma unentered_step: "e \<noteq> Enter k \<Longrightarrow> promise_step k e Unentered = Unentered"
  by (cases "(k, e, Unentered)" rule: promise_step.cases) auto

lemma promise_fresh:
  assumes "conn_reach P S es c" and "length (cn_calls c) \<le> k"
  shows "promise k es = Unentered"
  using assms
proof (induction rule: conn_reach.induct)
  case (reach_step es c e c')
  with calls_grow have "length (cn_calls c) \<le> k" by fastforce
  with reach_step have "promise k es = Unentered" by simp
  moreover have "e \<noteq> Enter k"
    using reach_step.hyps(2) \<open>length (cn_calls c) \<le> k\<close> by (auto simp: phase_at_def)
  ultimately show ?case by (simp add: promise_snoc unentered_step)
qed (simp add: promise_def)

lemma call_promise:
  assumes "conn_reach P S es c" and "length (cn_calls c) < 2 ^ 32" and "k < length (cn_calls c)"
  shows "promise_of (cn_calls c ! k) = promise k es"
  using assms
proof (induction arbitrary: k rule: conn_reach.induct)
  case (reach_step es c e c')
  have lt: "length (cn_calls c) < 2 ^ 32" using calls_grow [OF reach_step.hyps(2)] reach_step.prems(1) by simp
  show ?case
  proof (cases "k < length (cn_calls c)")
    case True
    with promise_event [OF reach_ok [OF reach_step.hyps(1)] lt reach_step.hyps(2)] reach_step.IH lt show ?thesis
      by (simp add: promise_snoc)
  next
    case False
    with calls_born [OF reach_step.hyps(2), of k] reach_step.prems
    have k: "k = length (cn_calls c)" "c_phase (cn_calls c' ! k) = Allocated" "c_slot (cn_calls c' ! k) = SlotOpen" by auto
    then have "promise k es = Unentered" using promise_fresh [OF reach_step.hyps(1)] by simp
    moreover have "e \<noteq> Enter k" using reach_step.hyps(2) k(1) by (auto simp: phase_at_def)
    ultimately show ?thesis using k
      by (simp add: promise_snoc promise_of_def unentered_step)
  qed
qed (simp add: open_connection_def)

section \<open>After the end of the stream\<close>

lemma reading_stops: "conn_event P e c = Some c' \<Longrightarrow> \<not> cn_reading c \<Longrightarrow> \<not> cn_reading c'"
  by (cases e) (auto simp: begin_request_def enter_request_def write_request_def forget_request_def
      finish_task_def reply_task_def notify_peer_def cancel_peer_def Let_def
      dest!: write_frame_eqs(6) split: if_splits option.splits phase.splits task_phase.splits prod.splits sum.splits)

lemma set_slot_call: "k < length (cn_calls c) \<Longrightarrow> c_phase (cn_calls (set_slot j x c) ! k) = c_phase (cn_calls c ! k)"
  by (simp add: call_set_slot)

lemma gave_up_stays:
  assumes c: "calls_ok c" and e: "conn_event P e c = Some c'" and k: "k < length (cn_calls c)" and g: "c_phase (cn_calls c ! k) = GaveUp why"
  shows "c_phase (cn_calls c' ! k) = GaveUp why"
proof (cases e)
  case (Receive f)
  with e k g show ?thesis
    by (cases f) (auto simp: dispatch_frame_def complete_pending_def start_task_def cancel_task_def call_set_slot split: if_splits option.splits)
next
  case (EndOf r)
  with e k g end_reading_calls [OF c k, of r] show ?thesis by (auto split: if_splits)
next
  case (Forget j)
  with e k g show ?thesis
    by (auto simp: forget_request_def Let_def call_set_phase set_slot_call dest!: phase_atD split: option.splits phase.splits)
qed (use e k g in \<open>auto simp: begin_request_def nth_append enter_request_def write_request_def finish_task_def reply_task_def
      notify_peer_def cancel_peer_def Let_def call_set_phase set_slot_call dest!: phase_atD write_frame_eqs(5)
      split: if_splits option.splits task_phase.splits prod.splits sum.splits\<close>)

text \<open>Nothing settles a call any more, unless its caller gives up.\<close>

definition stuck :: "nat \<Rightarrow> connection \<Rightarrow> bool" where
  "stuck k c \<longleftrightarrow> (k < length (cn_calls c) \<longrightarrow> promise_of (cn_calls c ! k) \<in> {Unentered, Waiting} \<or>
     (\<exists>why. c_phase (cn_calls c ! k) = GaveUp why))"

lemma stuck_event:
  assumes c: "calls_ok c" and e: "conn_event P e c = Some c'" and lt: "length (cn_calls c) < 2 ^ 32"
    and end': "\<not> cn_reading c" and s: "stuck k c"
  shows "stuck k c'"
proof (cases "k < length (cn_calls c)")
  case False
  with calls_born [OF e, of k] show ?thesis by (auto simp: stuck_def promise_of_def)
next
  case True
  show ?thesis
  proof (cases "\<exists>why. c_phase (cn_calls c ! k) = GaveUp why")
    case g: True
    with gave_up_stays [OF c e True] show ?thesis by (auto simp: stuck_def)
  next
    case False
    with s True have p: "promise_of (cn_calls c ! k) \<in> {Unentered, Waiting}" by (auto simp: stuck_def)
    show ?thesis
    proof (cases "e = Forget k")
      case f: True
      with e have "\<exists>why. c_phase (cn_calls c' ! k) = GaveUp why"
        using True by (auto simp: forget_request_def Let_def call_set_phase split: option.splits phase.splits)
      then show ?thesis by (simp add: stuck_def)
    next
      case nf: False
      have "\<forall>f. e \<noteq> Receive f" "\<forall>r. e \<noteq> EndOf r" using e end' by auto
      with nf p have "promise_step k e (promise_of (cn_calls c ! k)) \<in> {Unentered, Waiting}"
        by (cases "(k, e, promise_of (cn_calls c ! k))" rule: promise_step.cases) auto
      with promise_event [OF c lt e True] show ?thesis by (simp add: stuck_def)
    qed
  qed
qed

lemma run_keeps:
  assumes "conn_run P es c = Some c'" and "Q c" and "\<And>e c c'. Q c \<Longrightarrow> conn_event P e c = Some c' \<Longrightarrow> Q c'"
  shows "Q c'"
  using assms(1,2) by (induction es arbitrary: c) (auto split: bind_splits intro: assms(3))

lemma run_grows: "conn_run P es c = Some c' \<Longrightarrow> length (cn_calls c) \<le> length (cn_calls c')"
  by (rule run_keeps [where Q = "\<lambda>x. length (cn_calls c) \<le> length (cn_calls x)"]) (auto dest: calls_grow)

lemma stuck_run:
  assumes "calls_ok c" and "conn_run P es c = Some c'" and "length (cn_calls c') < 2 ^ 32" and "\<not> cn_reading c" and "stuck k c"
  shows "stuck k c'"
  using assms
proof (induction es arbitrary: c)
  case (Cons e es)
  then obtain c1 where c1: "conn_event P e c = Some c1" "conn_run P es c1 = Some c'" by (auto split: bind_splits)
  have "length (cn_calls c) < 2 ^ 32"
    using calls_grow [OF c1(1)] run_grows [OF c1(2)] Cons.prems(3) by linarith
  with Cons.IH [OF event_ok [OF Cons.prems(1) c1(1)] c1(2)] Cons.prems c1 reading_stops stuck_event show ?case by metis
qed simp

lemma settled_event:
  assumes "calls_ok c" and "conn_event P e c = Some c'" and "length (cn_calls c) < 2 ^ 32" and "k < length (cn_calls c)"
    and "promise_of (cn_calls c ! k) \<notin> {Unentered, Waiting}"
  shows "promise_of (cn_calls c' ! k) = promise_of (cn_calls c ! k)"
  using promise_event [OF assms(1,3,2,4)] assms(5)
  by (cases "(k, e, promise_of (cn_calls c ! k))" rule: promise_step.cases) auto

lemma settled_run:
  assumes "calls_ok c" and "conn_run P es c = Some c'" and "length (cn_calls c') < 2 ^ 32" and "k < length (cn_calls c)"
    and "promise_of (cn_calls c ! k) \<notin> {Unentered, Waiting}"
  shows "promise_of (cn_calls c' ! k) = promise_of (cn_calls c ! k)"
  using assms
proof (induction es arbitrary: c)
  case (Cons e es)
  then obtain c1 where c1: "conn_event P e c = Some c1" "conn_run P es c1 = Some c'" by (auto split: bind_splits)
  have lt: "length (cn_calls c) < 2 ^ 32" "k < length (cn_calls c1)"
    using calls_grow [OF c1(1)] run_grows [OF c1(2)] Cons.prems(3,4) by linarith+
  have eq: "promise_of (cn_calls c1 ! k) = promise_of (cn_calls c ! k)"
    by (rule settled_event [OF Cons.prems(1) c1(1) lt(1) Cons.prems(4,5)])
  with Cons.IH [OF event_ok [OF Cons.prems(1) c1(1)] c1(2) Cons.prems(3) lt(2)] Cons.prems(5) show ?case by simp
qed simp

section \<open>Answers to the peer\<close>

definition answers :: "u32 \<Rightarrow> frame \<Rightarrow> bool" where
  "answers i f = (case f of FrameResponse j _ _ \<Rightarrow> j = i | _ \<Rightarrow> False)"

definition replied :: "u32 \<Rightarrow> rpc_task \<Rightarrow> bool" where
  "replied i t \<longleftrightarrow> t_msgid t = i \<and> (case t_phase t of Replied _ \<Rightarrow> True | _ \<Rightarrow> False)"

definition requests_in :: "rpc_event list \<Rightarrow> (u32 \<times> string \<times> mval) list" where
  "requests_in es = concat (map (\<lambda>e. case e of Receive (FrameRequest i m p) \<Rightarrow> [(i, m, p)] | _ \<Rightarrow> []) es)"

definition task_fine :: "rpc_task \<Rightarrow> bool" where
  "task_fine t \<longleftrightarrow> (\<forall>f. t_phase t = Answered f \<longrightarrow> (\<exists>e r. f = FrameResponse (t_msgid t) e r))"

definition tasks_ok :: "rpc_event list \<Rightarrow> connection \<Rightarrow> bool" where
  "tasks_ok es c \<longleftrightarrow> map (\<lambda>t. (t_msgid t, t_method t, t_params t)) (cn_tasks c) = requests_in es \<and>
     list_all task_fine (cn_tasks c) \<and>
     (\<forall>i. length (filter (answers i) (cn_output c)) = length (filter (replied i) (cn_tasks c)))"

lemma filter_update: "k < length xs \<Longrightarrow>
    length (filter Q (xs[k := x])) + (if Q (xs ! k) then 1 else 0) = length (filter Q xs) + (if Q x then 1 else 0)"
proof (induction xs arbitrary: k)
  case (Cons y ys)
  then show ?case by (cases k) auto
qed simp

lemma tasks_ok_same:
  assumes "tasks_ok es c" and "cn_tasks c' = cn_tasks c" and "cn_output c' = cn_output c @ fs"
    and "\<And>i. filter (answers i) fs = []" and "requests_in (es @ [e]) = requests_in es"
  shows "tasks_ok (es @ [e]) c'"
  using assms by (simp add: tasks_ok_def)

lemma requests_in_snoc:
  "requests_in (es @ [e]) = requests_in es @ (case e of Receive (FrameRequest i m p) \<Rightarrow> [(i, m, p)] | _ \<Rightarrow> [])"
  by (simp add: requests_in_def)

lemma tasks_ok_update:
  assumes ok: "tasks_ok es c" and k: "k < length (cn_tasks c)"
    and t: "t_msgid (g (cn_tasks c ! k)) = t_msgid (cn_tasks c ! k)" "t_method (g (cn_tasks c ! k)) = t_method (cn_tasks c ! k)"
      "t_params (g (cn_tasks c ! k)) = t_params (cn_tasks c ! k)" "task_fine (g (cn_tasks c ! k))"
    and c': "cn_tasks c' = (cn_tasks c)[k := g (cn_tasks c ! k)]" "cn_output c' = cn_output c @ fs"
    and n: "\<And>i. length (filter (answers i) fs) + (if replied i (cn_tasks c ! k) then 1 else 0) = (if replied i (g (cn_tasks c ! k)) then 1 else 0)"
    and e: "requests_in (es @ [e]) = requests_in es"
  shows "tasks_ok (es @ [e]) c'"
proof -
  let ?h = "\<lambda>t. (t_msgid t, t_method t, t_params t)"
  have "map ?h (cn_tasks c') = map ?h (cn_tasks c)"
    by (rule nth_equalityI) (use k in \<open>auto simp: c' nth_list_update t\<close>)
  moreover have "list_all task_fine (cn_tasks c')"
    using ok t(4) by (auto simp: c' tasks_ok_def list_all_iff dest!: set_update_subset_insert [THEN subsetD])
  moreover have "length (filter (answers i) (cn_output c')) = length (filter (replied i) (cn_tasks c'))" for i
    using ok n [of i] filter_update [OF k, of "replied i" "g (cn_tasks c ! k)"]
    by (auto simp: c' tasks_ok_def split: if_splits)
  ultimately show ?thesis using ok by (simp add: tasks_ok_def e)
qed

lemma tasks_event:
  assumes ok: "tasks_ok es c" and ev: "conn_event P e c = Some c'"
  shows "tasks_ok (es @ [e]) c'"
proof (cases e)
  case (Receive f)
  then have c': "c' = dispatch_frame f c" using ev by (auto split: if_splits)
  show ?thesis
  proof (cases f)
    case (FrameRequest i m p)
    with ok c' Receive show ?thesis
      by (auto simp: tasks_ok_def dispatch_frame_def start_task_def requests_in_snoc task_fine_def replied_def)
  next
    case (FrameResponse i x r)
    with Receive c' show ?thesis
      by (intro tasks_ok_same [OF ok, where fs = "[]"])
        (auto simp: dispatch_frame_def complete_pending_def requests_in_snoc split: option.split)
  next
    case (FrameNotify m p)
    show ?thesis
    proof (cases "parse_cancel f")
      case None
      with FrameNotify Receive c' show ?thesis
        by (intro tasks_ok_same [OF ok, where fs = "[]"]) (auto simp: dispatch_frame_def requests_in_snoc)
    next
      case (Some i)
      show ?thesis
      proof (cases "map_of (cn_in_flight c) i")
        case None
        with Some FrameNotify Receive c' show ?thesis
          by (intro tasks_ok_same [OF ok, where fs = "[]"]) (auto simp: dispatch_frame_def cancel_task_def requests_in_snoc)
      next
        case k: (Some k)
        show ?thesis
        proof (cases "k < length (cn_tasks c)")
          case True
          with k Some FrameNotify Receive c' ok show ?thesis
            by (intro tasks_ok_update [OF ok, of k "\<lambda>t. t\<lparr>t_cancelled := True\<rparr>" _ "[]"])
              (auto simp: dispatch_frame_def cancel_task_def requests_in_snoc set_task_def replied_def task_fine_def tasks_ok_def list_all_length)
        next
          case False
          with k Some FrameNotify Receive c' show ?thesis
            by (intro tasks_ok_same [OF ok, where fs = "[]"])
              (auto simp: dispatch_frame_def cancel_task_def requests_in_snoc set_task_def list_update_beyond)
        qed
      qed
    qed
  qed
next
  case (Finish k res)
  with ev have k: "task_at k c = Some Working" "c' = finish_task k res c" by (auto split: if_splits)
  then have "k < length (cn_tasks c)" "t_phase (cn_tasks c ! k) = Working" by (auto simp: task_at_def split: if_splits)
  with k Finish show ?thesis
    by (intro tasks_ok_update [OF ok, of k "\<lambda>t. t\<lparr>t_phase := Answered (response_of (cn_tasks c ! k) res)\<rparr>" _ "[]"])
      (auto simp: finish_task_def Let_def requests_in_snoc set_task_def replied_def task_fine_def response_of_def split: sum.split)
next
  case (Reply k io)
  with ev obtain f where k: "task_at k c = Some (Answered f)" "c' = reply_task P io k f c"
    by (auto split: option.splits task_phase.splits)
  then have lt: "k < length (cn_tasks c)" and y: "t_phase (cn_tasks c ! k) = Answered f" by (auto simp: task_at_def split: if_splits)
  from ok lt have "task_fine (cn_tasks c ! k)" by (simp add: tasks_ok_def list_all_length)
  with y obtain x r where f: "f = FrameResponse (t_msgid (cn_tasks c ! k)) x r"
    unfolding task_fine_def by blast
  obtain res c1 where w: "write_frame P io f c = (res, c1)" by fastforce
  note we = write_frame_eqs [OF w]
  show ?thesis
  proof (cases res)
    case (Inl why)
    with lt y w k Reply show ?thesis
      by (intro tasks_ok_update [OF ok lt, of "\<lambda>t. t\<lparr>t_phase := ReplyFailed f\<rparr>" _ "[]"])
        (auto simp: reply_task_def requests_in_snoc set_task_def replied_def task_fine_def we)
  next
    case (Inr u)
    with lt y w k Reply f show ?thesis
      by (intro tasks_ok_update [OF ok lt, of "\<lambda>t. t\<lparr>t_phase := Replied f\<rparr>" _ "[f]"])
        (auto simp: reply_task_def requests_in_snoc set_task_def replied_def task_fine_def we answers_def)
  qed
next
  case (WriteOut k io)
  with ev obtain r c1 where "write_frame P io (FrameRequest (c_msgid (cn_calls c ! k)) (c_method (cn_calls c ! k)) (c_params (cn_calls c ! k))) c = (r, c1)"
    "c' = set_phase k (case r of Inl e \<Rightarrow> WriteFailed e | Inr _ \<Rightarrow> Written) c1"
    by (auto simp: write_request_def Let_def split: if_splits prod.splits sum.splits)
  note w = this
  note we = write_frame_eqs [OF w(1)]
  show ?thesis
    by (rule tasks_ok_same [OF ok, where fs = "case r of Inl _ \<Rightarrow> [] | Inr _ \<Rightarrow>
        [FrameRequest (c_msgid (cn_calls c ! k)) (c_method (cn_calls c ! k)) (c_params (cn_calls c ! k))]"])
      (simp_all add: w(2) we WriteOut requests_in_snoc answers_def split: sum.split)
next
  case (SendNotify io m p)
  obtain r c1 where w: "write_frame P io (FrameNotify m p) c = (r, c1)" by fastforce
  with SendNotify ev write_frame_eqs [OF w] show ?thesis
    by (intro tasks_ok_same [OF ok, where fs = "case r of Inl _ \<Rightarrow> [] | Inr _ \<Rightarrow> [FrameNotify m p]"])
      (auto simp: notify_peer_def requests_in_snoc answers_def split: sum.split)
next
  case (SendCancel io i)
  obtain r c1 where w: "write_frame P io (cancel_notify i) c = (r, c1)" by fastforce
  with SendCancel ev write_frame_eqs [OF w] show ?thesis
    by (intro tasks_ok_same [OF ok, where fs = "case r of Inl _ \<Rightarrow> [] | Inr _ \<Rightarrow> [cancel_notify i]"])
      (auto simp: cancel_peer_def requests_in_snoc answers_def cancel_notify_def split: sum.split)
qed (use ev in \<open>auto intro!: tasks_ok_same [OF ok, where fs = "[]"] simp: begin_request_def enter_request_def forget_request_def
    requests_in_snoc Let_def split: if_splits option.splits phase.splits\<close>)

lemma reach_tasks: "conn_reach P S es c \<Longrightarrow> tasks_ok es c"
proof (induction rule: conn_reach.induct)
  case reach_open
  show ?case by (simp add: tasks_ok_def open_connection_def requests_in_def)
qed (rule tasks_event)

section \<open>Frames on the wire\<close>

definition frame_fine :: "frame \<Rightarrow> bool" where
  "frame_fine f = (case f of FrameRequest i m p \<Rightarrow> utf8_valid m | FrameResponse i e r \<Rightarrow> True | FrameNotify m p \<Rightarrow> utf8_valid m)"

text \<open>
  What the library promises for the texts of some frames: it reads back the array that was written
  and no byte after it, and reports an early end on every proper part of it.
\<close>

definition msgpack_ok :: "msgpack \<Rightarrow> (frame \<times> string) list \<Rightarrow> bool" where
  "msgpack_ok P fbs \<longleftrightarrow> (\<exists>e. mp_read P [] = Inl e \<and> is_unexpected_eof e) \<and>
     (\<forall>(f, b) \<in> set fbs. mp_write P (envelope f) = Inr b \<and> (\<forall>r. mp_read P (b @ r) = Inr (MArray (envelope f), length b)) \<and>
        (\<forall>n < length b. \<exists>e. mp_read P (take n b) = Inl e \<and> is_unexpected_eof e))"

lemma u32_roundtrip [simp]: "uint (ucast (i :: u32) :: u64) < 2 ^ 32" "ucast (ucast (i :: u32) :: u64) = i"
proof -
  have "uint i < 2 ^ 32" using unsigned_less [of i] by simp
  moreover from this have "uint (ucast i :: u64) = uint i" by (simp add: unsigned_ucast_eq take_bit_eq_mod)
  ultimately show "uint (ucast i :: u64) < 2 ^ 32" by simp
  show "ucast (ucast i :: u64) = i" by (rule bit_word_eqI) (simp add: bit_ucast_iff)
qed

lemma frame_value_roundtrip: "frame_fine f \<Longrightarrow> frame_from_value (MArray (envelope f)) = Inr f"
  using u32_roundtrip
  by (cases f) (auto simp: frame_from_value_def frame_fine_def TYPE_REQUEST_def TYPE_RESPONSE_def TYPE_NOTIFY_def as_u32_def as_string_def)

lemma decode_whole:
  assumes "msgpack_ok P fbs" and "(f, b) \<in> set fbs" and "frame_fine f"
  shows "decode_one P (b @ r) = Inr (Some (f, length b))"
  using assms frame_value_roundtrip by (auto simp: msgpack_ok_def decode_one_def)

lemma decode_part:
  assumes "msgpack_ok P fbs" and "(f, b) \<in> set fbs" and "n < length b"
  shows "decode_one P (take n b) = Inr None"
  using assms by (fastforce simp: msgpack_ok_def decode_one_def)

lemma decode_nothing: "msgpack_ok P fbs \<Longrightarrow> decode_one P [] = Inr None"
  by (auto simp: msgpack_ok_def decode_one_def)

lemma texts_nonempty: "msgpack_ok P fbs \<Longrightarrow> (f, b) \<in> set fbs \<Longrightarrow> b \<noteq> []"
  by (fastforce simp: msgpack_ok_def)

text \<open>A front of the stream is some whole texts and a proper part of the next.\<close>

lemma front_split:
  assumes "concat bs = s @ t" and "\<forall>b \<in> set bs. b \<noteq> []"
  shows "\<exists>n u. n \<le> length bs \<and> s = concat (take n bs) @ u \<and> concat (drop n bs) = u @ t \<and>
     (u = [] \<or> n < length bs \<and> (\<exists>m < length (bs ! n). u = take m (bs ! n)))"
  using assms
proof (induction bs arbitrary: s)
  case (Cons b bs)
  show ?case
  proof (cases "length b \<le> length s")
    case True
    with Cons.prems(1) have b: "b = take (length b) s" by (metis append_eq_conv_conj append_take_drop_id concat.simps(2) take_all_iff take_append diff_is_0_eq take_0 append_Nil2)
    define s' where "s' = drop (length b) s"
    with b have s: "s = b @ s'" by (metis append_take_drop_id)
    with Cons.prems(1) have "concat bs = s' @ t" by simp
    from Cons.IH [OF this] Cons.prems(2) obtain n u where n: "n \<le> length bs" "s' = concat (take n bs) @ u"
      "concat (drop n bs) = u @ t" "u = [] \<or> n < length bs \<and> (\<exists>m < length (bs ! n). u = take m (bs ! n))" by auto
    then show ?thesis by (intro exI [of _ "Suc n"] exI [of _ u]) (auto simp: s)
  next
    case False
    then have "s = take (length s) b" using Cons.prems(1) by (metis append_eq_append_conv_if concat.simps(2) nat_le_linear append_eq_conv_conj)
    with False Cons.prems(1) show ?thesis by (intro exI [of _ 0] exI [of _ s]) auto
  qed
qed simp

lemma drain_front:
  assumes ok: "msgpack_ok P fbs" and fine: "list_all frame_fine (map fst fbs)" and sub: "set gbs \<subseteq> set fbs"
    and rest: "decode_one P u = Inr None"
  shows "drain_frames P (concat (map snd gbs) @ u) = Some (map fst gbs, u, None)"
  using sub
proof (induction gbs)
  case Nil
  show ?case by (subst drain_frames.simps) (simp add: rest)
next
  case (Cons g gbs)
  obtain f b where g: "g = (f, b)" by fastforce
  with Cons.prems fine have "(f, b) \<in> set fbs" "frame_fine f" by (auto simp: list_all_iff)
  from decode_whole [OF ok this] Cons g show ?case
    by (subst drain_frames.simps) simp
qed

end
