(* ===== verification/RpcProps.thy ===== *)
theory RpcProps
  imports RpcLogic
begin

text \<open>
  The properties of the connection to an extension host.
\<close>

section \<open>The stream\<close>

text \<open>
  (C24) However the stream of some frames is cut into chunks, the reader finds exactly these frames, in
  their order: it neither waits for more nor stops early, for every library that reads back what it
  wrote and reports an early end on every part of it.
\<close>

theorem frames_survive_chunking:
  assumes "msgpack_ok P (zip fs bs)" and "map (frame_encode P) fs = map Inr bs" and "list_all frame_fine fs"
    and "concat cs = concat bs"
  shows "read_loop P [] cs = Some (fs, None)"
proof -
  from assms(2) have len: "length fs = length bs" by (rule map_eq_imp_length_eq)
  have ne: "\<forall>b \<in> set bs. b \<noteq> []"
    using texts_nonempty [OF assms(1)] len by (metis in_set_impl_in_set_zip2)
  have fine: "list_all frame_fine (map fst (zip fs bs))" using assms(3) len by simp
  have "read_loop P u cs = Some (drop n fs, None)"
    if "n \<le> length bs" "concat (drop n bs) = u @ concat cs" "u = [] \<or> n < length bs \<and> (\<exists>m < length (bs ! n). u = take m (bs ! n))"
    for u n using that
  proof (induction cs arbitrary: u n)
    case Nil
    have "u = []"
    proof (rule ccontr)
      assume "u \<noteq> []"
      with Nil(3) obtain m where "n < length bs" "m < length (bs ! n)" "u = take m (bs ! n)" by auto
      with Nil(2) have "length (take m (bs ! n)) = length (bs ! n) + length (concat (drop (Suc n) bs))"
        by (metis Cons_nth_drop_Suc append_Nil2 concat.simps length_append)
      with \<open>m < length (bs ! n)\<close> show False by simp
    qed
    with Nil(2) have "\<forall>b \<in> set (drop n bs). b = []" by simp
    moreover have "\<forall>b \<in> set (drop n bs). b \<noteq> []" using ne set_drop_subset [of n bs] by blast
    ultimately have "drop n bs = []" by (cases "drop n bs") auto
    with len show ?case by simp
  next
    case (Cons c cs)
    have "concat (drop n bs) = (u @ c) @ concat cs" using Cons.prems(2) by simp
    from front_split [OF this] ne obtain k v where k: "k \<le> length (drop n bs)" "u @ c = concat (take k (drop n bs)) @ v"
      "concat (drop k (drop n bs)) = v @ concat cs"
      "v = [] \<or> k < length (drop n bs) \<and> (\<exists>m < length (drop n bs ! k). v = take m (drop n bs ! k))"
      by (metis in_set_dropD)
    let ?gbs = "take k (drop n (zip fs bs))"
    have gbs: "map fst ?gbs = take k (drop n fs)" "map snd ?gbs = take k (drop n bs)"
      using len by (simp_all add: take_map [symmetric] drop_map [symmetric])
    have part: "decode_one P v = Inr None"
      using k(4)
    proof
      assume "k < length (drop n bs) \<and> (\<exists>m < length (drop n bs ! k). v = take m (drop n bs ! k))"
      then obtain m where "n + k < length bs" "m < length (bs ! (n + k))" "v = take m (bs ! (n + k))" by auto
      moreover from this len have "(fs ! (n + k), bs ! (n + k)) \<in> set (zip fs bs)" by (auto simp: set_zip)
      ultimately show ?thesis using decode_part [OF assms(1)] by blast
    qed (simp add: decode_nothing [OF assms(1)])
    have "drain_frames P (u @ c) = Some (take k (drop n fs), v, None)"
      using drain_front [OF assms(1) fine _ part, of ?gbs] gbs k(2) by (metis set_drop_subset set_take_subset subset_trans)
    moreover have "read_loop P v cs = Some (drop (n + k) fs, None)"
      using k Cons.prems(1) by (intro Cons.IH) (auto simp: add.commute)
    moreover have "take k (drop n fs) @ drop (n + k) fs = drop n fs"
      by (metis append_take_drop_id drop_drop add.commute)
    ultimately show ?case by simp
  qed
  from this [of 0 "[]"] assms(4) show ?thesis by simp
qed

text \<open>A library for two frames, each of three bytes.\<close>

definition two_frames :: "frame list" where
  "two_frames = [FrameRequest 7 ''ping'' MNil, FrameNotify ''log'' (MArray [])]"

definition two_texts :: "string list" where
  "two_texts = [''Abc'', ''Bcd'']"

definition tiny_pack :: msgpack where
  "tiny_pack = \<lparr>mp_write = (\<lambda>v. case map_of (zip (map envelope two_frames) two_texts) v of None \<Rightarrow> Inl ''unknown'' | Some b \<Rightarrow> Inr b),
     mp_read = (\<lambda>b. if length b < 3 then Inl (InvalidDataRead UnexpectedEof)
       else case map_of (zip two_texts (map envelope two_frames)) (take 3 b) of
         None \<Rightarrow> Inl DepthLimitExceeded | Some v \<Rightarrow> Inr (MArray v, 3)),
     mp_error = (\<lambda>_. ''unreadable'')\<rparr>"

lemma tiny_ok: "msgpack_ok tiny_pack (zip two_frames two_texts)"
  by (auto simp: msgpack_ok_def tiny_pack_def two_frames_def two_texts_def is_unexpected_eof_def TYPE_REQUEST_def TYPE_NOTIFY_def)

theorem frames_survive_chunking_witness:
  "let cs = [''A'', ''bcB'', [], ''cd''] in read_loop tiny_pack [] cs = Some (two_frames, None) \<and> length two_frames = 2"
proof -
  have e: "map (frame_encode tiny_pack) two_frames = map Inr two_texts" by code_simp
  have f: "list_all frame_fine two_frames" by code_simp
  have c: "concat [''A'', ''bcB'', [], ''cd''] = concat two_texts" by code_simp
  from frames_survive_chunking [OF tiny_ok e f c] show ?thesis by (simp add: two_frames_def Let_def)
qed

section \<open>Calls\<close>

text \<open>
  (C25) As long as fewer than \<open>2 ^ 32\<close> calls were made, the shared table gives every call of
  \<^verbatim>\<open>request\<close> a promise of its own, whatever the other calls and the peer do: it is kept by the first
  response with its identifier after its entry, or by the end of the stream, and then never changes.
\<close>

theorem calls_are_private_promises:
  assumes "conn_reach P S es c" and "length (cn_calls c) < 2 ^ 32" and "k < length (cn_calls c)"
  shows "promise_of (cn_calls c ! k) = promise k es"
  using assms by (rule call_promise)

definition demo_server :: rpc_server where
  "demo_server = on_notify ''log'' (handle ''ping'' new_server)"

definition free_pack :: msgpack where
  "free_pack = \<lparr>mp_write = (\<lambda>_. Inr ''x''), mp_read = (\<lambda>_. Inl DepthLimitExceeded), mp_error = (\<lambda>_. [])\<rparr>"

definition demo_calls :: "rpc_event list" where
  "demo_calls = [Begin ''a'' MNil, Begin ''b'' MNil, Enter 1, Enter 0, WriteOut 1 None, WriteOut 0 None,
     Receive (FrameResponse 2 MNil (MBool True)), Receive (FrameResponse 2 MNil (MBool False)), Receive (FrameResponse 9 MNil MNil)]"

theorem calls_are_private_promises_witness:
  "\<exists>c. conn_reach free_pack demo_server demo_calls c \<and> promise_of (cn_calls c ! 0) = Waiting \<and>
     promise_of (cn_calls c ! 1) = Kept (Inr (MBool True))"
proof -
  have "case conn_run free_pack demo_calls (open_connection demo_server) of None \<Rightarrow> False | Some c \<Rightarrow> length (cn_calls c) = 2"
    by code_simp
  then obtain c where c: "conn_run free_pack demo_calls (open_connection demo_server) = Some c" and n: "length (cn_calls c) = 2"
    by (auto split: option.splits)
  have r: "conn_reach free_pack demo_server demo_calls c" using c by (simp add: reach_iff_run)
  have p: "promise 0 demo_calls = Waiting" "promise 1 demo_calls = Kept (Inr (MBool True))" by code_simp+
  show ?thesis
    using calls_are_private_promises [OF r, of 0] calls_are_private_promises [OF r, of 1] r n p by auto
qed

text \<open>
  (C26) After the stream has ended, of the calls whose write succeeded exactly those that had entered the table
  before the end have an answer; one that entered later has none in any later state, while there are fewer than
  \<open>2 ^ 32\<close> calls. (A call whose write fails has its error at once.)
\<close>

theorem late_calls_wait_forever:
  assumes "conn_reach P S es c" and "conn_event P (EndOf r) c = Some c1" and "conn_run P es' c1 = Some c'"
    and "length (cn_calls c') < 2 ^ 32" and "phase_at k c' = Some Written"
  shows "request_result disp (cn_calls c' ! k) = None \<longleftrightarrow> phase_at k c = None \<or> phase_at k c = Some Allocated"
proof -
  note c = reach_ok [OF assms(1)]
  from assms(2) have c1: "c1 = end_reading r c" "\<not> cn_reading c1" by (auto split: if_splits)
  note ok1 = event_ok [OF c assms(2)]
  have lt: "length (cn_calls c) < 2 ^ 32" "length (cn_calls c1) = length (cn_calls c)"
    using run_grows [OF assms(3)] assms(4) c1 by simp_all
  from phase_atD [OF assms(5)] have k: "k < length (cn_calls c')" and w: "c_phase (cn_calls c' ! k) = Written" by auto
  then have res: "request_result disp (cn_calls c' ! k) = None \<longleftrightarrow> promise_of (cn_calls c' ! k) = Waiting"
    by (auto simp: request_result_def promise_of_def split: slot.split sum.split)
  show ?thesis
  proof (cases "k < length (cn_calls c) \<and> c_phase (cn_calls c ! k) \<noteq> Allocated")
    case True
    then have in_c: "k < length (cn_calls c)" and "promise_of (cn_calls c ! k) \<noteq> Unentered"
      by (auto simp: promise_of_def split: slot.split)
    then have "promise_of (cn_calls c1 ! k) \<notin> {Unentered, Waiting}"
      using promise_event [OF c lt(1) assms(2) in_c] by auto
    moreover from this have "promise_of (cn_calls c' ! k) = promise_of (cn_calls c1 ! k)"
      using settled_run [OF ok1 assms(3,4)] in_c lt by simp
    ultimately show ?thesis using res True by (auto simp: phase_at_def)
  next
    case False
    have "stuck k c1"
    proof (cases "k < length (cn_calls c)")
      case True
      with False have "promise_of (cn_calls c ! k) = Unentered"
        using calls_okD(4) [OF c True] by (simp add: promise_of_def call_fine_def)
      with promise_event [OF c lt(1) assms(2) True] show ?thesis by (simp add: stuck_def)
    qed (simp add: stuck_def lt)
    then have "stuck k c'" by (rule stuck_run [OF ok1 assms(3,4) c1(2)])
    with k w have "promise_of (cn_calls c' ! k) = Waiting"
      by (auto simp: stuck_def promise_of_def split: slot.splits)
    with res False show ?thesis by (auto simp: phase_at_def)
  qed
qed

theorem late_calls_wait_forever_witness:
  "\<exists>c c'. conn_reach free_pack demo_server [Begin ''a'' MNil, Enter 0, WriteOut 0 None, Begin ''b'' MNil] c \<and>
     conn_run free_pack [EndOf StreamClosed, Enter 1, WriteOut 1 None] c = Some c' \<and>
     request_result (\<lambda>_. ''?'') (cn_calls c' ! 0) \<noteq> None \<and> request_result (\<lambda>_. ''?'') (cn_calls c' ! 1) = None"
proof -
  let ?es = "[Begin ''a'' MNil, Enter 0, WriteOut 0 None, Begin ''b'' MNil]" and ?es' = "[Enter 1, WriteOut 1 None]"
  let ?run = "\<lambda>es. Option.bind (conn_run free_pack es (open_connection demo_server))"
  have "case conn_run free_pack ?es (open_connection demo_server) of None \<Rightarrow> False
    | Some c \<Rightarrow> (case conn_event free_pack (EndOf StreamClosed) c of None \<Rightarrow> False
    | Some c1 \<Rightarrow> (case conn_run free_pack ?es' c1 of None \<Rightarrow> False
    | Some c' \<Rightarrow> length (cn_calls c') = 2 \<and> phase_at 0 c' = Some Written \<and> phase_at 1 c' = Some Written \<and>
        phase_at 0 c = Some Written \<and> phase_at 1 c = Some Allocated))"
    by code_simp
  then obtain c c1 c' where c: "conn_run free_pack ?es (open_connection demo_server) = Some c"
      "conn_event free_pack (EndOf StreamClosed) c = Some c1" "conn_run free_pack ?es' c1 = Some c'"
    and p: "length (cn_calls c') = 2" "phase_at 0 c' = Some Written" "phase_at 1 c' = Some Written"
      "phase_at 0 c = Some Written" "phase_at 1 c = Some Allocated"
    by (auto split: option.splits simp del: conn_run.simps conn_event.simps)
  have r: "conn_reach free_pack demo_server ?es c" using c(1) by (simp only: reach_iff_run)
  have n: "length (cn_calls c') < 2 ^ 32" using p(1) by simp
  have "conn_run free_pack (EndOf StreamClosed # ?es') c = Some c'" using c(2,3) by simp
  moreover have "request_result (\<lambda>_. ''?'') (cn_calls c' ! 0) \<noteq> None" "request_result (\<lambda>_. ''?'') (cn_calls c' ! 1) = None"
    using late_calls_wait_forever [OF r c(2,3) n p(2), of "\<lambda>_. ''?''"] late_calls_wait_forever [OF r c(2,3) n p(3), of "\<lambda>_. ''?''"] p(4,5)
    by simp_all
  ultimately show ?thesis using r by blast
qed

section \<open>Answers\<close>

text \<open>
  (C27) Every inbound request has one task, in the order of arrival, and the responses written with
  an identifier are as many as the tasks of that identifier whose answer was written: none is
  answered twice, and none without a request.
\<close>

theorem one_answer_per_request:
  assumes "conn_reach P S es c"
  shows "map (\<lambda>t. (t_msgid t, t_method t, t_params t)) (cn_tasks c) = requests_in es \<and>
    (\<forall>i. length (filter (answers i) (cn_output c)) = length (filter (replied i) (cn_tasks c)))"
  using reach_tasks [OF assms] by (simp add: tasks_ok_def)

definition demo_answers :: "rpc_event list" where
  "demo_answers = [Receive (FrameRequest 5 ''ping'' MNil), Receive (FrameRequest 6 ''nope'' MNil), Receive (cancel_notify 5),
     Finish 1 (Inr MNil), Reply 1 None, Finish 0 (Inr (MString ''pong'')), Reply 0 None]"

lemma map_fst_triples: "map (\<lambda>t. (t_msgid t, t_method t, t_params t)) ts = xs \<Longrightarrow> map t_msgid ts = map fst xs"
  by (auto simp: comp_def)

theorem one_answer_per_request_witness:
  "\<exists>c. conn_reach free_pack demo_server demo_answers c \<and> length (filter (answers 5) (cn_output c)) = 1 \<and>
     map t_msgid (cn_tasks c) = [5, 6]"
proof -
  have "case conn_run free_pack demo_answers (open_connection demo_server) of None \<Rightarrow> False
      | Some c \<Rightarrow> length (filter (replied 5) (cn_tasks c)) = 1" by code_simp
  then obtain c where c: "conn_run free_pack demo_answers (open_connection demo_server) = Some c"
    and n: "length (filter (replied 5) (cn_tasks c)) = 1"
    by (auto split: option.splits)
  have r: "conn_reach free_pack demo_server demo_answers c" using c by (simp add: reach_iff_run)
  have q: "map fst (requests_in demo_answers) = [5, 6]" by code_simp
  note o = one_answer_per_request [OF r]
  from o have "map t_msgid (cn_tasks c) = map fst (requests_in demo_answers)"
    by (intro map_fst_triples) blast
  with r o n q show ?thesis by auto
qed

text \<open>
  A cancellation does not suppress anything: the request it names is answered in full, with the
  result of its handler.
\<close>

theorem cancelled_request_is_answered:
  assumes "conn_reach P S es c" and "cn_reading c" and "map_of (cn_in_flight c) i = Some k" and "task_at k c = Some Working"
    and "t_found (cn_tasks c ! k)" and "mp_write P (envelope (FrameResponse (t_msgid (cn_tasks c ! k)) MNil v)) = Inr b"
  shows "\<exists>c'. conn_run P [Receive (cancel_notify i), Finish k (Inr v), Reply k None] c = Some c' \<and>
    t_cancelled (cn_tasks c' ! k) \<and> cn_output c' = cn_output c @ [FrameResponse (t_msgid (cn_tasks c ! k)) MNil v]"
proof -
  have k: "k < length (cn_tasks c)" using assms(4) by (simp add: task_at_def split: if_splits)
  have pc: "parse_cancel (cancel_notify i) = Some i"
    using u32_roundtrip [of i] by (simp add: parse_cancel_def cancel_notify_def)
  have d: "dispatch_frame (cancel_notify i) c = set_task k (\<lambda>t. t\<lparr>t_cancelled := True\<rparr>) c"
    using pc assms(3) by (simp add: dispatch_frame_def cancel_task_def cancel_notify_def)
  show ?thesis
    using assms(2,4,5,6) k
    by (simp add: d task_at_def finish_task_def reply_task_def write_frame_def frame_encode_def response_of_def set_task_def Let_def)
qed

theorem cancelled_request_is_answered_witness:
  "let i = 5; k = 0; c = the (conn_run free_pack [Receive (FrameRequest i ''ping'' MNil)] (open_connection demo_server)) in
   \<exists>c'. conn_run free_pack [Receive (cancel_notify i), Finish k (Inr (MBool True)), Reply k None] c = Some c' \<and>
     t_cancelled (cn_tasks c' ! k) \<and> cn_output c' = [FrameResponse i MNil (MBool True)]"
proof -
  let ?es = "[Receive (FrameRequest 5 ''ping'' MNil)]"
  define c where "c = the (conn_run free_pack ?es (open_connection demo_server))"
  have e: "conn_run free_pack ?es (open_connection demo_server) = Some c"
    by (simp add: c_def open_connection_def)
  then have r: "conn_reach free_pack demo_server ?es c" by (simp only: reach_iff_run)
  have f: "cn_reading c" "map_of (cn_in_flight c) 5 = Some 0" "task_at 0 c = Some Working" "t_found (cn_tasks c ! 0)"
      "t_msgid (cn_tasks c ! 0) = 5" "cn_output c = []"
    unfolding c_def by code_simp+
  have w: "mp_write free_pack (envelope (FrameResponse (t_msgid (cn_tasks c ! 0)) MNil (MBool True))) = Inr ''x''"
    by (simp add: free_pack_def)
  from cancelled_request_is_answered [OF r f(1-4) w] f(5,6) show ?thesis
    unfolding Let_def c_def [symmetric] by simp
qed

section \<open>Frames\<close>

lemma u64_small: "uint (n :: u64) < 2 ^ 32 \<Longrightarrow> n = ucast (ucast n :: u32)"
  by (rule unsigned_word_eqI [where ?'a = int]) (simp add: unsigned_ucast_eq take_bit_eq_mod uint_mod_distrib)

text \<open>
  (C28) A value is a frame exactly if it is the array of the frame's envelope, with any number of the
  same type tag in front and a method that is UTF-8; every other value is refused.
\<close>

theorem frames_are_their_envelopes:
  "frame_from_value v = Inr f \<longleftrightarrow>
     frame_fine f \<and> (\<exists>t. mval_i64 t = mval_i64 (hd (envelope f)) \<and> v = MArray (t # tl (envelope f)))"
proof
  assume "frame_fine f \<and> (\<exists>t. mval_i64 t = mval_i64 (hd (envelope f)) \<and> v = MArray (t # tl (envelope f)))"
  then show "frame_from_value v = Inr f"
    using u32_roundtrip
    by (cases f) (auto simp: frame_from_value_def frame_fine_def TYPE_REQUEST_def TYPE_RESPONSE_def TYPE_NOTIFY_def as_u32_def as_string_def)
next
  assume f: "frame_from_value v = Inr f"
  then obtain t xs ty where v: "v = MArray (t # xs)" "mval_i64 t = Some ty"
    by (cases v) (auto simp: frame_from_value_def split: option.splits list.splits)
  have msgid: "x = MPos (ucast j)" if "as_u32 x what = Inr j" for x what j
    using that u64_small by (cases x) (auto simp: as_u32_def split: if_splits)
  have str: "x = MString m \<and> utf8_valid m" if "as_string x what = Inr m" for x what m
    using that by (cases x) (auto simp: as_string_def split: if_splits)
  have tags: "mval_i64 (MPos (of_int TYPE_REQUEST)) = Some TYPE_REQUEST" "mval_i64 (MPos (of_int TYPE_RESPONSE)) = Some TYPE_RESPONSE"
      "mval_i64 (MPos (of_int TYPE_NOTIFY)) = Some TYPE_NOTIFY" by (simp_all add: TYPE_REQUEST_def TYPE_RESPONSE_def TYPE_NOTIFY_def)
  from f v consider
    (req) i m p where "ty = TYPE_REQUEST" "xs = [i, m, p]" "\<exists>j m'. as_u32 i ''request msgid'' = Inr j \<and> as_string m ''request method'' = Inr m' \<and> f = FrameRequest j m' p"
  | (resp) i e r where "ty = TYPE_RESPONSE" "xs = [i, e, r]" "\<exists>j. as_u32 i ''response msgid'' = Inr j \<and> f = FrameResponse j e r"
  | (ntf) m p where "ty = TYPE_NOTIFY" "xs = [m, p]" "\<exists>m'. as_string m ''notify method'' = Inr m' \<and> f = FrameNotify m' p"
    by (auto simp: frame_from_value_def split: if_splits list.splits sum.splits)
  then show "frame_fine f \<and> (\<exists>t. mval_i64 t = mval_i64 (hd (envelope f)) \<and> v = MArray (t # tl (envelope f)))"
    by cases (use v tags msgid str in \<open>auto simp: frame_fine_def\<close>)
qed

end
