(* ===== verification/Control.thy ===== *)
theory Control
  imports Events
begin

text \<open>
  The messages between the host and the runtime: requests and responses of the control channel
  (\<^verbatim>\<open>protocol/control.rs\<close>), capability calls (\<^verbatim>\<open>protocol/capabilities.rs\<close>), the envelopes
  (\<^verbatim>\<open>protocol/envelope.rs\<close>) and the versions (\<^verbatim>\<open>protocol/version.rs\<close>). The codec of the wire is a
  derived one and not modelled.
\<close>

section \<open>Versions\<close>

record protocol_version =
  v_major :: u16
  v_minor :: u16
  v_patch :: u16

definition protocol_version_new :: "u16 \<Rightarrow> u16 \<Rightarrow> u16 \<Rightarrow> protocol_version" where
  "protocol_version_new major minor patch = \<lparr>v_major = major, v_minor = minor, v_patch = patch\<rparr>"

definition is_compatible_with :: "protocol_version \<Rightarrow> protocol_version \<Rightarrow> bool" where
  "is_compatible_with v other =
     (if v_major v \<noteq> v_major other then False
      else if v_major v = 0 then v_minor v = v_minor other
      else True)"

definition show_version :: "protocol_version \<Rightarrow> string" where
  "show_version v = show_nat (unat (v_major v)) @ ''.'' @ show_nat (unat (v_minor v)) @ ''.'' @ show_nat (unat (v_patch v))"

definition PROTOCOL_VERSION :: protocol_version where
  "PROTOCOL_VERSION = protocol_version_new 0 1 0"

section \<open>Control\<close>

datatype review_decision = Approve | Reject | Defer

text \<open>
  The arguments of a constructor are the fields of the variant in their order; the long variants
  have a record.
\<close>

record start_run_request =
  sr_space_id :: string
  sr_payload :: json
  sr_session_id :: "string option"
  sr_session_name :: "string option"
  sr_agent_id :: "string option"
  sr_contribution_kind :: "string option"
  sr_child_session_id :: "string option"
  sr_goal :: "string option"

record terminal_start_request =
  ts_terminal_id :: string
  ts_workspace_root :: string
  ts_shell :: "string option"
  ts_cols :: "u16 option"
  ts_rows :: "u16 option"

record flow_review_request =
  fq_workspace_root :: string
  fq_flow_run_id :: string
  fq_node_id :: string
  fq_port :: string
  fq_provider_kind :: string
  fq_base_url :: string
  fq_api_key :: string
  fq_model :: string

datatype (plugins only: ) control_request =
  PingRequest
| Subscribe string
| Unsubscribe subscription_id
| StartRun start_run_request
| CancelRun string
| SwapMemory string string string
| PauseRun string
| ResumeRun string
| PostInput string json
| ResolveReview string string review_decision "string option"
| WorkspaceLayout string
| FileRead string string
| FileWrite string string string
| FlowList string "string option"
| FlowLoad string string
| FlowSave string string json
| ContributionList string
| ContributionEnumerate string string string
| ContributionLoad string string string
| ContributionSave string string string json
| ContributionDelete string string string
| DocTypeList string "string option"
| DocTypeLoad string "string option" string
| DocTypeSave string string string string
| DocTypeDelete string string
| TerminalStart terminal_start_request
| TerminalInput string string
| TerminalResize string u16 u16
| TerminalStop string
| DocumentList string string
| DocumentRead string string string "u32 option"
| DocumentSubmit string string string string
| DocumentSuggestionApply string string string string string string
| MentionParse string string string
| GetSpaceSnapshot string
| SessionList string
| SessionThreadInspect string string
| ListProviderModels string string string
| FlowRunGetPendingReviews string string
| GetSessionPendingActions string string
| FlowRunApprove flow_review_request
| ExtensionWebviewPost string json
| ExtensionRendererSetHeight string "32 word"
| ExtensionDeactivate string
| ExtensionViewResolve string
| ExtensionViewVisibility string bool
| ExtensionViewDispose string
| ExtensionList
| ExtensionInstall string
| ExtensionUninstall string
| ExtensionSetEnabled string bool
| ExtensionLogChannels string
| ExtensionLogRead string string "u64 option" "u64 option"
| ExtensionLogClear string string
| ExtensionLogFolder string
| FlowRunRequestChanges flow_review_request "json list"
| FlowSaveYaml string string string
| FlowSaveLayout string string string
| BlackboardInject string string string
| SessionRename string string

datatype control_error =
  UnknownRunError string
| UnknownSpaceError string
| UnknownSubscription
| InvalidRequest string
| InvalidState string
| FlowHasActiveRun
| InternalError string

datatype control_response =
  PongResponse
| Subscribed subscription_id
| Unsubscribed
| RunStarted string subscription_id
| Ack
| Data json
| SpaceSnapshot "json list" "json list"
| ErrResponse control_error

section \<open>Capabilities\<close>

datatype document_op = DocumentSubmitOp string string string | DocumentReadOp string string

datatype agent_op = LoadDefinition string | ListAgents

datatype terminal_op =
  TerminalOpen string string u16 u16
| TerminalWrite string string
| TerminalResizeOp string u16 u16
| TerminalClose string

definition default_cols :: u16 where "default_cols = 220"
definition default_rows :: u16 where "default_rows = 50"

datatype secret_op = SecretGet string | SecretSet string string | SecretDelete string

datatype notify_level = NotifyInfo | NotifyWarning | NotifyError

datatype capability_request =
  ShellCapability string "string list" "string option" "(string \<times> string) list" bool
| BrowserCapability string json
| FilesystemCapability string json
| SecretCapability string secret_op
| NotifyCapability string string notify_level
| UserApproval string string json
| DocumentCapability string string document_op
| AgentCapability string agent_op
| TerminalCapability string terminal_op

datatype capability_error =
  Unsupported string
| PermissionDenied string
| InvalidArguments string
| ExecutionFailed string
| CapabilityTimeout u64
| CapabilityInternal string

datatype capability_response = CapabilityOk json | CapabilityErr capability_error

section \<open>Envelopes\<close>

datatype correlation_tag = CorrelationTag
type_synonym correlation_id = "correlation_tag uuid_newtype"

datatype goodbye_reason = ProtocolMismatchReason | HandshakeRequiredReason | ProtocolViolation | Shutdown

datatype client_to_runtime =
  Hello protocol_version string string
| ControlCall correlation_id control_request
| CapabilityReply correlation_id capability_response
| Pong

datatype runtime_to_client =
  Welcome protocol_version string
| Goodbye goodbye_reason string
| ControlReply correlation_id control_response
| EventMessage subscription_id runtime_event
| CapabilityCall correlation_id capability_request
| Ping

datatype transport_error = Closed | TransportIo string | TransportDecode string | TransportEncode string

end
