(* ===== verification/Handlers.thy ===== *)
theory Handlers
  imports Control Authority AgentTypes
begin

text \<open>
  The handler of the control requests (\<^verbatim>\<open>runtime/handler/\<close>): its state, the helpers, the requests about
  runs, reviews, subscriptions and sessions, the tasks that carry events to the host, and the calls of
  the host's capabilities. The parser of UUIDs, serializers and formatters are parameters. A lock is
  taken and released within one operation; a task the handler starts is an entry of its state.
\<close>

section \<open>State\<close>

record 'e handler_env =
  hv_parse_uuid :: "string \<Rightarrow> uuid option"
  hv_show_error :: "'e \<Rightarrow> string"
  hv_debug_text :: "string \<Rightarrow> string"
  hv_run_json :: "run \<Rightarrow> json option"
  hv_review_json :: "pending_review \<Rightarrow> json option"
  hv_message_json :: "chat_message \<Rightarrow> json option"

text \<open>The task of a subscription: how many events it has carried, and whether it runs.\<close>

record fanout_task =
  ft_carried :: nat
  ft_running :: bool

text \<open>
  A call of a capability waits on its sender, which is in the table, was used, or was dropped; or it
  has given up.
\<close>

datatype capability_wait = WaitOpen | WaitGot capability_response | WaitFailed string

text \<open>\<open>rh_pushed\<close> are the messages put into the sink, of this and of earlier connections.\<close>

record 'p runtime_handler =
  rh_authority :: "'p authority"
  rh_sink :: bool
  rh_fanout :: "(subscription_id \<times> fanout_task) list"
  rh_pending :: "(correlation_id \<times> nat) list"
  rh_waits :: "capability_wait list"
  rh_pushed :: "runtime_to_client list"

definition new_handler :: "'p authority \<Rightarrow> 'p runtime_handler" where
  "new_handler a = \<lparr>rh_authority = a, rh_sink = False, rh_fanout = [], rh_pending = [], rh_waits = [], rh_pushed = []\<rparr>"

definition push_message :: "runtime_to_client \<Rightarrow> 'p runtime_handler \<Rightarrow> 'p runtime_handler" where
  "push_message m h = h\<lparr>rh_pushed := rh_pushed h @ [m]\<rparr>"

section \<open>Helpers\<close>

definition build_workspace_injection_block :: "string \<Rightarrow> string list \<Rightarrow> string" where
  "build_workspace_injection_block workspace tool_names =
     (let tools_line = (if tool_names = [] then ''(none)'' else str_join '', '' tool_names)
      in CHR 0x0A # ''---'' @ [CHR 0x0A] @ ''Workspace: `'' @ workspace @ ''`'' @ [CHR 0x0A] @ ''Tools available: '' @ tools_line @ [CHR 0x0A] @
         ''Use these tools to verify facts about the codebase. Never guess at structure.'')"

definition apply_anthropic_effort_override :: "thinking_config option \<Rightarrow> string option \<Rightarrow> thinking_config option" where
  "apply_anthropic_effort_override cfg override =
     (case Option.bind override (\<lambda>s. if str_trim s = [] then None else Some (str_trim s)) of
        None \<Rightarrow> cfg
      | Some eff \<Rightarrow> (case cfg of Some (Adaptive summarized _) \<Rightarrow> Some (Adaptive summarized (Some eff)) | other \<Rightarrow> other))"

definition BASE64_ALPHABET :: string where
  "BASE64_ALPHABET = ''ABCDEFGHIJKLMNOPQRSTUVWXYZabcdefghijklmnopqrstuvwxyz0123456789+/''"

definition base64_char :: "u32 \<Rightarrow> char" where
  "base64_char n = BASE64_ALPHABET ! unat n"

definition base64_group :: "u8 \<Rightarrow> u8 \<Rightarrow> u8 \<Rightarrow> u32" where
  "base64_group a b c = or (or (push_bit 16 (ucast a)) (push_bit 8 (ucast b))) (ucast c)"

fun base64_encode :: "u8 list \<Rightarrow> string" where
  "base64_encode (a # b # c # rest) =
     (let n = base64_group a b c in
      base64_char (drop_bit 18 n) # base64_char (and (drop_bit 12 n) 0x3F) # base64_char (and (drop_bit 6 n) 0x3F) # base64_char (and n 0x3F) #
        base64_encode rest)"
| "base64_encode [a, b] =
     (let n = base64_group a b 0 in [base64_char (drop_bit 18 n), base64_char (and (drop_bit 12 n) 0x3F), base64_char (and (drop_bit 6 n) 0x3F), CHR ''=''])"
| "base64_encode [a] =
     (let n = base64_group a 0 0 in base64_char (drop_bit 18 n) # base64_char (and (drop_bit 12 n) 0x3F) # ''=='')"
| "base64_encode [] = []"

definition parse_with :: "string \<Rightarrow> 'e handler_env \<Rightarrow> string \<Rightarrow> control_response + 'tag uuid_newtype" where
  "parse_with what V s = (case hv_parse_uuid V s of Some u \<Rightarrow> Inr (UuidNewtype u)
     | None \<Rightarrow> Inl (ErrResponse (InvalidRequest (''invalid '' @ what @ '' id: '' @ s))))"

definition parse_run :: "'e handler_env \<Rightarrow> string \<Rightarrow> control_response + run_id" where
  "parse_run = parse_with ''run''"

definition parse_space :: "'e handler_env \<Rightarrow> string \<Rightarrow> control_response + space_id" where
  "parse_space = parse_with ''space''"

definition parse_review :: "'e handler_env \<Rightarrow> string \<Rightarrow> control_response + review_id" where
  "parse_review = parse_with ''review''"

text \<open>\<^verbatim>\<open>{state:?}\<close>, with the escapes of a text as a parameter.\<close>

fun status_debug :: "'e handler_env \<Rightarrow> run_status \<Rightarrow> string" where
  "status_debug V run_status.Pending = ''Pending''"
| "status_debug V run_status.Running = ''Running''"
| "status_debug V run_status.Paused = ''Paused''"
| "status_debug V run_status.AwaitingReview = ''AwaitingReview''"
| "status_debug V run_status.Succeeded = ''Succeeded''"
| "status_debug V (run_status.Failed m) = ''Failed { message: '' @ hv_debug_text V m @ '' }''"
| "status_debug V run_status.Cancelled = ''Cancelled''"

definition authority_err_to_control ::
    "('p, 'e) auth_env \<Rightarrow> 'e handler_env \<Rightarrow> 'e authority_error \<Rightarrow> string option \<Rightarrow> string option \<Rightarrow> control_error" where
  "authority_err_to_control E V e space run = (case e of
     UnknownSpace i \<Rightarrow> UnknownSpaceError (case space of Some s \<Rightarrow> s | None \<Rightarrow> show_id E i)
   | UnknownRun i \<Rightarrow> UnknownRunError (case run of Some s \<Rightarrow> s | None \<Rightarrow> show_id E i)
   | UnknownReview _ \<Rightarrow> InvalidRequest ''unknown review''
   | InvalidTransition _ st act \<Rightarrow> InvalidState (''cannot '' @ act @ '' from '' @ status_debug V st)
   | ReviewAlreadyResolved \<Rightarrow> InvalidState ''review already resolved''
   | UnknownSession i \<Rightarrow> InvalidRequest (''unknown session: '' @ string_of_id i)
   | Persistence p \<Rightarrow> InternalError (''persistence: '' @ hv_show_error V p))"

section \<open>The connection\<close>

definition on_connected :: "'p runtime_handler \<Rightarrow> 'p runtime_handler" where
  "on_connected h = h\<lparr>rh_sink := True\<rparr>"

text \<open>The tasks are aborted: their receivers are dropped with them.\<close>

definition abort_task :: "subscription_id \<Rightarrow> fanout_task \<Rightarrow> 'p authority \<Rightarrow> 'p authority" where
  "abort_task i t a = (if ft_running t then drop_receiver i a else a)"

definition on_disconnected :: "'p runtime_handler \<Rightarrow> 'p runtime_handler" where
  "on_disconnected h = h\<lparr>rh_sink := False, rh_fanout := [],
     rh_authority := fold (\<lambda>(i, t). abort_task i t) (rh_fanout h) (rh_authority h)\<rparr>"

section \<open>Subscriptions\<close>

definition start_fanout :: "subscription_id \<Rightarrow> 'p runtime_handler \<Rightarrow> 'p runtime_handler" where
  "start_fanout i h = h\<lparr>rh_fanout := hm_put i \<lparr>ft_carried = 0, ft_running = True\<rparr> (rh_fanout h)\<rparr>"

definition handle_subscribe :: "subscription_id \<Rightarrow> string \<Rightarrow> 'p runtime_handler \<Rightarrow> control_response \<times> 'p runtime_handler" where
  "handle_subscribe new_id topic h =
     (if \<not> rh_sink h then (ErrResponse (InternalError ''subscribe before on_connected''), h)
      else (Subscribed new_id, start_fanout new_id (h\<lparr>rh_authority := subscribe new_id topic (rh_authority h)\<rparr>)))"

definition handle_unsubscribe :: "subscription_id \<Rightarrow> 'p runtime_handler \<Rightarrow> control_response \<times> 'p runtime_handler" where
  "handle_unsubscribe i h =
     (case unsubscribe i (rh_authority h) of (removed, a) \<Rightarrow>
        (if removed then Unsubscribed else ErrResponse UnknownSubscription,
         h\<lparr>rh_authority := a, rh_fanout := hm_remove i (rh_fanout h)\<rparr>))"

text \<open>
  One turn of the task of a subscription: it takes the next event, and puts it into the sink, or ends
  when the sink is closed. It has no turn while there is no event.
\<close>

definition carry_event :: "bool \<Rightarrow> subscription_id \<Rightarrow> 'p runtime_handler \<Rightarrow> 'p runtime_handler option" where
  "carry_event sink_open i h = (case map_of (rh_fanout h) i of
     None \<Rightarrow> None
   | Some t \<Rightarrow> if \<not> ft_running t then None else (case map_of (subs (rh_authority h)) i of
       None \<Rightarrow> Some (h\<lparr>rh_fanout := hm_put i (t\<lparr>ft_running := False\<rparr>) (rh_fanout h)\<rparr>)
     | Some s \<Rightarrow> if length (sub_sent s) \<le> ft_carried t then None
         else if sink_open then Some (push_message (EventMessage i (sub_sent s ! ft_carried t))
           (h\<lparr>rh_fanout := hm_put i (t\<lparr>ft_carried := ft_carried t + 1\<rparr>) (rh_fanout h)\<rparr>))
         else Some (h\<lparr>rh_fanout := hm_put i (t\<lparr>ft_running := False\<rparr>) (rh_fanout h),
           rh_authority := drop_receiver i (rh_authority h)\<rparr>)))"

section \<open>Runs\<close>

definition on_authority :: "('p authority \<Rightarrow> 'a \<times> 'p authority) \<Rightarrow> 'p runtime_handler \<Rightarrow> 'a \<times> 'p runtime_handler" where
  "on_authority f h = (case f (rh_authority h) of (r, a) \<Rightarrow> (r, h\<lparr>rh_authority := a\<rparr>))"

definition run_op ::
    "('p, 'e) auth_env \<Rightarrow> 'e handler_env \<Rightarrow> string \<Rightarrow> (run_id \<Rightarrow> 'p authority \<Rightarrow> ('p, 'e, unit) auth_result)
      \<Rightarrow> 'p runtime_handler \<Rightarrow> control_response \<times> 'p runtime_handler" where
  "run_op E V rid f h = (case parse_run V rid of
     Inl resp \<Rightarrow> (resp, h)
   | Inr i \<Rightarrow> (case on_authority (f i) h of
       (Inr _, h') \<Rightarrow> (Ack, h')
     | (Inl e, h') \<Rightarrow> (ErrResponse (authority_err_to_control E V e None (Some rid)), h')))"

definition handle_post_input ::
    "('p, 'e) auth_env \<Rightarrow> 'e handler_env \<Rightarrow> int \<Rightarrow> int \<Rightarrow> string \<Rightarrow> json \<Rightarrow> 'p runtime_handler \<Rightarrow> control_response \<times> 'p runtime_handler" where
  "handle_post_input E V now ms rid p = run_op E V rid (\<lambda>i. post_input E now ms i p)"

definition handle_swap_memory ::
    "('p, 'e) auth_env \<Rightarrow> int \<Rightarrow> string \<Rightarrow> string \<Rightarrow> string \<Rightarrow> 'p runtime_handler \<Rightarrow> control_response \<times> 'p runtime_handler" where
  "handle_swap_memory E now sid target ns h =
     (if target \<notin> {''read'', ''write'', ''both''}
      then (ErrResponse (InvalidRequest (''SwapMemory: unknown target '' @ [CHR 0x27] @ target @ [CHR 0x27] @ '', expected read|write|both'')), h)
      else (case on_authority (update_session_namespaces E now (StringNewtype sid) target (StringNewtype ns)) h of
        (True, h') \<Rightarrow> (Ack, h')
      | (False, h') \<Rightarrow> (ErrResponse (InvalidRequest (''SwapMemory: session '' @ [CHR 0x27] @ sid @ [CHR 0x27] @ '' not found'')), h')))"

fun permission_of :: "review_decision \<Rightarrow> permission_state" where
  "permission_of Approve = permission_state.Approved"
| "permission_of Reject = permission_state.Rejected"
| "permission_of Defer = permission_state.Deferred"

text \<open>The run and the review a decision names; an empty run is looked up.\<close>

definition review_target ::
    "'e handler_env \<Rightarrow> string \<Rightarrow> string \<Rightarrow> 'p authority \<Rightarrow> control_response + (run_id \<times> review_id)" where
  "review_target V rid vid a =
     (let run = (if rid = [] then (case parse_review V vid of
            Inl resp \<Rightarrow> Inl resp
          | Inr vw \<Rightarrow> (case run_id_for_review a vw of Some r \<Rightarrow> Inr r
              | None \<Rightarrow> Inl (ErrResponse (InvalidRequest (''unknown review: '' @ vid)))))
        else parse_run V rid)
      in case run of Inl resp \<Rightarrow> Inl resp
       | Inr r \<Rightarrow> (case parse_review V vid of Inl resp \<Rightarrow> Inl resp | Inr vw \<Rightarrow> Inr (r, vw)))"

definition resolve_via_authority ::
    "('p, 'e) auth_env \<Rightarrow> 'e handler_env \<Rightarrow> int \<Rightarrow> (nat \<Rightarrow> int) \<Rightarrow> string \<Rightarrow> run_id \<Rightarrow> review_id \<Rightarrow> review_decision \<Rightarrow> string option
      \<Rightarrow> 'p runtime_handler \<Rightarrow> control_response \<times> 'p runtime_handler" where
  "resolve_via_authority E V now ms rid r vw d notes h =
     (case on_authority (resolve_review E now ms r vw (permission_of d) notes) h of
        (Inr _, h') \<Rightarrow> (Ack, h')
      | (Inl e, h') \<Rightarrow> (ErrResponse (authority_err_to_control E V e None (Some rid)), h'))"

section \<open>Resuming a run\<close>

definition CRONY_ID :: string where "CRONY_ID = ''crony''"
definition AGENTS_PROVIDER :: string where "AGENTS_PROVIDER = ''cronymax.agents.provider''"

definition text_member :: "json \<Rightarrow> string \<Rightarrow> string option" where
  "text_member j k = Option.bind (json_get j k) json_as_str"

definition non_blank :: "string option \<Rightarrow> string option" where
  "non_blank x = Option.bind x (\<lambda>s. if s = [] then None else Some s)"

definition resolved_agent_id :: "('p, 'e) auth_env \<Rightarrow> run \<Rightarrow> string" where
  "resolved_agent_id E r = (case non_blank (text_member (run_spec r) ''agent_id'') of Some s \<Rightarrow> s
     | None \<Rightarrow> (case non_blank (map_option (show_id E) (run_agent_id r)) of Some s \<Rightarrow> s | None \<Rightarrow> CRONY_ID))"

definition is_extension_run :: "run \<Rightarrow> bool" where
  "is_extension_run r \<longleftrightarrow> non_blank (text_member (run_spec r) ''contribution_kind'') = Some AGENTS_PROVIDER"

record resume_settings =
  rs_base_url :: string
  rs_api_key :: "string option"
  rs_model :: string
  rs_provider_kind :: string
  rs_user_input :: string
  rs_workspace_root :: string
  rs_agent_id :: string

definition with_fallback :: "string \<Rightarrow> string option \<Rightarrow> string" where
  "with_fallback d x = (case x of Some s \<Rightarrow> s | None \<Rightarrow> d)"

definition resume_settings_of :: "('p, 'e) auth_env \<Rightarrow> string list \<Rightarrow> string \<Rightarrow> run \<Rightarrow> resume_settings" where
  "resume_settings_of E roots temp_dir r =
     (let llm = (\<lambda>k. Option.bind (json_get (run_spec r) ''llm'') (\<lambda>l. text_member l k)) in
      \<lparr>rs_base_url = with_fallback ''https://api.openai.com/v1'' (non_blank (llm ''base_url'')),
       rs_api_key = non_blank (llm ''api_key''),
       rs_model = with_fallback ''gpt-4o-mini'' (non_blank (llm ''model'')),
       rs_provider_kind = with_fallback ''openai_compat'' (llm ''provider_kind''),
       rs_user_input = with_fallback [] (text_member (run_spec r) ''task''),
       rs_workspace_root = (case non_blank (text_member (run_spec r) ''workspace_root'') of Some w \<Rightarrow> w
         | None \<Rightarrow> (case roots of w # _ \<Rightarrow> w | [] \<Rightarrow> temp_dir)),
       rs_agent_id = resolved_agent_id E r\<rparr>)"

text \<open>
  What an answer of \<^verbatim>\<open>handle_resume_run\<close> comes with: the settings of the loop it has started, if it has.
  \<open>provider_label\<close> is the label of an extension's provider.
\<close>

definition handle_resume_run ::
    "('p, 'e) auth_env \<Rightarrow> 'e handler_env \<Rightarrow> int \<Rightarrow> int \<Rightarrow> subscription_id \<Rightarrow> string list \<Rightarrow> string \<Rightarrow> (string \<Rightarrow> string) \<Rightarrow> string
      \<Rightarrow> 'p runtime_handler \<Rightarrow> (control_response \<times> resume_settings option) \<times> 'p runtime_handler" where
  "handle_resume_run E V now ms new_id roots temp_dir provider_label rid h =
     (case parse_run V rid of
        Inl resp \<Rightarrow> ((resp, None), h)
      | Inr i \<Rightarrow> (case get_run (rh_authority h) i of
          None \<Rightarrow> ((ErrResponse (UnknownRunError rid), None), h)
        | Some r \<Rightarrow>
            if run_status r \<noteq> run_status.Paused \<and> run_status r \<noteq> run_status.AwaitingReview then ((Ack, None), h)
            else if is_extension_run r then
              ((ErrResponse (InvalidState (''run `'' @ rid @ ''` was driven by extension provider '' @ provider_label (resolved_agent_id E r) @
                 ''; extension sessions cannot be resumed '' @ [CHR 0xE2, CHR 0x80, CHR 0x94] @ '' start a new chat'')), None), h)
            else (case on_authority (mark_run_running E now ms i) h of
              (Inl e, h') \<Rightarrow> ((ErrResponse (authority_err_to_control E V e None (Some rid)), None), h')
            | (Inr _, h') \<Rightarrow>
                (let h1 = h'\<lparr>rh_authority := subscribe new_id (run_topic E i) (rh_authority h')\<rparr>;
                     h2 = (if rh_sink h1 then start_fanout new_id h1 else h1\<lparr>rh_authority := drop_receiver new_id (rh_authority h1)\<rparr>)
                 in ((RunStarted rid new_id, Some (resume_settings_of E roots temp_dir r)), h2)))))"

section \<open>Sessions\<close>

definition value_or_null :: "json option \<Rightarrow> json" where
  "value_or_null x = (case x of Some v \<Rightarrow> v | None \<Rightarrow> JNull)"

definition handle_get_space_snapshot ::
    "('p, 'e) auth_env \<Rightarrow> 'e handler_env \<Rightarrow> string \<Rightarrow> 'p runtime_handler \<Rightarrow> control_response" where
  "handle_get_space_snapshot E V sp h = (case get_space_snapshot E (rh_authority h) sp of (rs, vs) \<Rightarrow>
     SpaceSnapshot (map (value_or_null \<circ> hv_run_json V) rs) (map (value_or_null \<circ> hv_review_json V) vs))"

definition handle_session_thread_inspect ::
    "'e handler_env \<Rightarrow> chat_message list \<Rightarrow> string \<Rightarrow> 'p runtime_handler \<Rightarrow> control_response" where
  "handle_session_thread_inspect V on_disk sid h =
     (let msgs = (case session_thread_of (rh_authority h) (StringNewtype sid) of Some th \<Rightarrow> th | None \<Rightarrow> on_disk)
      in Data (json_object [(''messages'', JArray (map (value_or_null \<circ> hv_message_json V) msgs)),
           (''turn_count'', json_u64 (of_nat (length msgs)))]))"

definition handle_session_rename ::
    "('p, 'e) auth_env \<Rightarrow> ('e authority_error \<Rightarrow> string) \<Rightarrow> int \<Rightarrow> int \<Rightarrow> string \<Rightarrow> string \<Rightarrow> 'p runtime_handler
      \<Rightarrow> control_response \<times> 'p runtime_handler" where
  "handle_session_rename E disp now ms sid name h =
     (case on_authority (rename_session E now ms (StringNewtype sid) name) h of
        (Inr _, h') \<Rightarrow> (Ack, h')
      | (Inl e, h') \<Rightarrow> (ErrResponse (InvalidRequest (disp e)), h'))"

section \<open>Capabilities of the host\<close>

text \<open>
  A call enters the table before it looks for the sink: without one it fails and its entry stays. The
  wait ends with the reply, the drop of its sender, or the limit of 120 seconds.
\<close>

definition begin_capability :: "bool \<Rightarrow> correlation_id \<Rightarrow> capability_request \<Rightarrow> 'p runtime_handler \<Rightarrow> 'p runtime_handler" where
  "begin_capability sink_open i rq h =
     (let h1 = h\<lparr>rh_pending := hm_put i (length (rh_waits h)) (rh_pending h)\<rparr> in
      if \<not> rh_sink h then h1\<lparr>rh_waits := rh_waits h @ [WaitFailed ''call_capability: no active transport sink'']\<rparr>
      else if \<not> sink_open then h1\<lparr>rh_waits := rh_waits h @ [WaitFailed ''call_capability: transport sink closed'']\<rparr>
      else push_message (CapabilityCall i rq) (h1\<lparr>rh_waits := rh_waits h @ [WaitOpen]\<rparr>))"

definition time_out_capability :: "correlation_id \<Rightarrow> nat \<Rightarrow> 'p runtime_handler \<Rightarrow> 'p runtime_handler" where
  "time_out_capability i k h = (if rh_waits h ! k = WaitOpen
     then h\<lparr>rh_waits := (rh_waits h)[k := WaitFailed ''call_capability: timed out after 120s waiting for C++ capability reply''],
       rh_pending := hm_remove i (rh_pending h)\<rparr>
     else h)"

definition handle_capability_reply :: "correlation_id \<Rightarrow> capability_response \<Rightarrow> 'p runtime_handler \<Rightarrow> 'p runtime_handler" where
  "handle_capability_reply i rp h = (case map_of (rh_pending h) i of
     None \<Rightarrow> h
   | Some k \<Rightarrow> h\<lparr>rh_pending := hm_remove i (rh_pending h),
       rh_waits := (if rh_waits h ! k = WaitOpen then (rh_waits h)[k := WaitGot rp] else rh_waits h)\<rparr>)"

end
