(* ===== verification/HandlersLogic.thy ===== *)
theory HandlersLogic
  imports Handlers AuthoritySteps
begin

text \<open>
  The handler as a state machine: requests, the tasks of the subscriptions, the calls of capabilities,
  the connection, and any operation of other tasks on the authority.
\<close>

section \<open>Subscriptions grow\<close>

text \<open>What an operation leaves of a subscription it does not open: more events, or nothing.\<close>

definition subs_grow :: "subscription_id \<Rightarrow> subscriptions \<Rightarrow> subscriptions \<Rightarrow> bool" where
  "subs_grow i m m' \<longleftrightarrow> (\<forall>s'. map_of m' i = Some s' \<longrightarrow> (\<exists>s xs. map_of m i = Some s \<and> sub_sent s' = sub_sent s @ xs))"

lemma subs_grow_refl [simp, intro]: "subs_grow i m m"
  by (auto simp: subs_grow_def)

lemma subs_grow_trans: "subs_grow i m m' \<Longrightarrow> subs_grow i m' m'' \<Longrightarrow> subs_grow i m m''"
  unfolding subs_grow_def by (metis append.assoc)

lemma fan_one_grows: "fan_one wants now p s = Some s' \<Longrightarrow> \<exists>xs. sub_sent s' = sub_sent s @ xs"
  by (auto simp: fan_one_def deliver_def split: if_splits)

lemma subs_grow_fan: "fan_spec wants now p m m' \<Longrightarrow> subs_grow i m m'"
  by (fastforce simp: fan_spec_def subs_grow_def bind_eq_Some_conv dest: fan_one_grows)

lemma subs_grow_emit_on: "subs_ok (subs a) \<Longrightarrow> subs_grow i (subs a) (subs (emit_on topic ms p a))"
  unfolding emit_on_def subs_ok_def
  by (auto simp: emit_locked_def split: prod.split intro!: subs_grow_fan emit_walk_fan_spec)

lemma subs_grow_emit_topics: "subs_ok (subs a) \<Longrightarrow> subs_grow i (subs a) (subs (emit_topics topics ms p a))"
  unfolding emit_topics_def subs_ok_def
  by (auto simp: emit_scoped_def split: prod.split intro!: subs_grow_fan emit_walk_fan_spec)

lemma subs_grow_put: "i \<noteq> k \<Longrightarrow> subs_grow i m (hm_put k s m)"
  by (auto simp: subs_grow_def store_simps)

lemma subs_grow_remove: "subs_grow i m (hm_remove k m)"
  by (auto simp: subs_grow_def store_simps split: if_splits)

lemma subs_grow_drop: "subs_grow i (subs a) (subs (drop_receiver k a))"
  by (auto simp: drop_receiver_def subs_grow_def store_simps split: option.split if_splits)

text \<open>Emissions build on stores whose subscriptions are those before.\<close>

lemma subs_grow_emit_on': "subs_ok (subs a) \<Longrightarrow> subs b = subs a \<Longrightarrow> subs_grow i (subs a) (subs (emit_on topic ms p b))"
  using subs_grow_emit_on [of b] by simp

lemma subs_grow_emit_topics': "subs_ok (subs a) \<Longrightarrow> subs b = subs a \<Longrightarrow> subs_grow i (subs a) (subs (emit_topics topics ms p b))"
  using subs_grow_emit_topics [of b] by simp

lemma subs_grow_emit_twice:
  assumes "subs_ok (subs a)" and "subs b = subs a"
  shows "subs_grow i (subs a) (subs (emit_topics t2 m2 p2 (emit_topics t1 m1 p1 b)))"
proof (rule subs_grow_trans)
  show "subs_grow i (subs a) (subs (emit_topics t1 m1 p1 b))" using assms by (rule subs_grow_emit_topics')
  have "subs_ok (subs (emit_topics t1 m1 p1 b))" using assms by (simp add: subs_ok_emit_topics)
  then show "subs_grow i (subs (emit_topics t1 m1 p1 b)) (subs (emit_topics t2 m2 p2 (emit_topics t1 m1 p1 b)))"
    by (rule subs_grow_emit_topics)
qed

lemma subs_grow_exec:
  assumes "subs_ok (subs a)" and "\<And>topic. x \<noteq> OpSubscribe i topic"
  shows "subs_grow i (subs a) (subs (auth_exec E x a))"
proof (cases x)
  case (OpDropReceiver k)
  then show ?thesis by (simp add: subs_grow_drop)
next
  case (OpOpenReview now ms rid j req)
  with assms(1) show ?thesis
    by (auto simp: open_review_def Let_def auth_simps split: option.split intro!: subs_grow_emit_twice)
next
  case (OpResolveReview now ms j rid d nts)
  with assms(1) show ?thesis
    by (auto simp: resolve_review_def Let_def auth_simps split: option.split intro: subs_grow_emit_twice subs_grow_emit_topics')
qed (use assms in \<open>auto simp: op_defs auth_simps split: option.split
    intro!: subs_grow_emit_on' subs_grow_emit_topics' subs_grow_put subs_grow_remove\<close>)

section \<open>Steps of the handler\<close>

text \<open>
  \<open>ByOthers\<close> is an operation of another task, or of a request that only runs one. A subscription is
  opened under a fresh identifier; its receiver is held by its task, and only that task drops it.
\<close>

datatype handler_op =
  ByOthers auth_op
| Connected
| Disconnected
| OnSubscribe subscription_id string
| OnUnsubscribe subscription_id
| OnResume int int subscription_id "string list" string string
| Carry bool subscription_id
| BeginCapability bool correlation_id capability_request
| TimeOut correlation_id nat
| OnCapabilityReply correlation_id capability_response

fun events_for :: "subscription_id \<Rightarrow> runtime_to_client list \<Rightarrow> runtime_event list" where
  "events_for i [] = []"
| "events_for i (EventMessage j e # ms) = (if i = j then e # events_for i ms else events_for i ms)"
| "events_for i (_ # ms) = events_for i ms"

definition unused_id :: "subscription_id \<Rightarrow> 'p runtime_handler \<Rightarrow> bool" where
  "unused_id i h \<longleftrightarrow> map_of (subs (rh_authority h)) i = None \<and> map_of (rh_fanout h) i = None \<and> events_for i (rh_pushed h) = []"

fun handler_exec :: "('p, 'e) auth_env \<Rightarrow> 'e handler_env \<Rightarrow> handler_op \<Rightarrow> 'p runtime_handler \<Rightarrow> 'p runtime_handler option" where
  "handler_exec E V (ByOthers x) h =
     (case x of OpSubscribe i _ \<Rightarrow> if unused_id i h then Some (h\<lparr>rh_authority := auth_exec E x (rh_authority h)\<rparr>) else None
      | _ \<Rightarrow> Some (h\<lparr>rh_authority := auth_exec E x (rh_authority h)\<rparr>))"
| "handler_exec E V Connected h = Some (on_connected h)"
| "handler_exec E V Disconnected h = Some (on_disconnected h)"
| "handler_exec E V (OnSubscribe i topic) h = (if unused_id i h then Some (snd (handle_subscribe i topic h)) else None)"
| "handler_exec E V (OnUnsubscribe i) h = Some (snd (handle_unsubscribe i h))"
| "handler_exec E V (OnResume now ms i roots tmp rid) h =
     (if unused_id i h then Some (snd (handle_resume_run E V now ms i roots tmp (\<lambda>a. a) rid h)) else None)"
| "handler_exec E V (Carry sink_open i) h = carry_event sink_open i h"
| "handler_exec E V (BeginCapability sink_open i rq) h = Some (begin_capability sink_open i rq h)"
| "handler_exec E V (TimeOut i k) h = Some (time_out_capability i k h)"
| "handler_exec E V (OnCapabilityReply i rp) h = Some (handle_capability_reply i rp h)"

inductive handler_reach :: "('p, 'e) auth_env \<Rightarrow> 'e handler_env \<Rightarrow> 'p authority \<Rightarrow> 'p runtime_handler \<Rightarrow> bool" for E V a where
  handler_start: "subs (a :: 'p authority) = [] \<Longrightarrow> handler_reach E V a (new_handler a)"
| handler_step: "handler_reach E V a h \<Longrightarrow> handler_exec E V x h = Some h' \<Longrightarrow> handler_reach E V a h'"

fun handler_run :: "('p, 'e) auth_env \<Rightarrow> 'e handler_env \<Rightarrow> handler_op list \<Rightarrow> 'p runtime_handler \<Rightarrow> 'p runtime_handler option" where
  "handler_run E V [] h = Some h"
| "handler_run E V (x # xs) h = Option.bind (handler_exec E V x h) (handler_run E V xs)"

lemma handler_run_reach: "handler_run E V xs h = Some h' \<Longrightarrow> handler_reach E V a h \<Longrightarrow> handler_reach E V a h'"
  by (induction xs arbitrary: h) (auto split: bind_splits intro: handler_step)

section \<open>What the host is told\<close>

definition numbered_events :: "runtime_event list \<Rightarrow> bool" where
  "numbered_events es \<longleftrightarrow> map sequence es = map of_nat [0..<length es]"

text \<open>
  Of each subscription the host is told a first part of its events; while its task is there, exactly the
  events the task has carried.
\<close>

definition fanout_ok :: "'p runtime_handler \<Rightarrow> bool" where
  "fanout_ok h \<longleftrightarrow> subs_ok (subs (rh_authority h)) \<and>
     (\<forall>i. numbered_events (events_for i (rh_pushed h))) \<and>
     (\<forall>i t s. map_of (rh_fanout h) i = Some t \<longrightarrow> map_of (subs (rh_authority h)) i = Some s \<longrightarrow>
        ft_carried t \<le> length (sub_sent s) \<and> events_for i (rh_pushed h) = take (ft_carried t) (sub_sent s))"

lemma fanout_okD:
  assumes "fanout_ok h"
  shows "subs_ok (subs (rh_authority h))" "numbered_events (events_for i (rh_pushed h))"
    "map_of (rh_fanout h) i = Some t \<Longrightarrow> map_of (subs (rh_authority h)) i = Some s \<Longrightarrow>
      ft_carried t \<le> length (sub_sent s) \<and> events_for i (rh_pushed h) = take (ft_carried t) (sub_sent s)"
  using assms by (auto simp: fanout_ok_def)

lemma events_for_append [simp]: "events_for i (a @ b) = events_for i a @ events_for i b"
  by (induction i a rule: events_for.induct) auto

lemma numbered_take:
  assumes "map sequence xs = map of_nat [0..<length xs]" and "n \<le> length xs"
  shows "numbered_events (take n xs)"
proof -
  have "map sequence (take n xs) = take n (map of_nat [0..<length xs])" by (simp add: assms(1) take_map [symmetric])
  also have "\<dots> = map of_nat [0..<n]" using assms(2) by (simp add: take_map)
  finally show ?thesis using assms(2) by (simp add: numbered_events_def)
qed

text \<open>What leaves the tasks alone and lets the subscriptions grow keeps the invariant.\<close>

lemma fanout_ok_grow:
  assumes "fanout_ok h" and "subs_ok (subs (rh_authority h'))" and "\<And>i. events_for i (rh_pushed h') = events_for i (rh_pushed h)"
    and "\<And>i t. map_of (rh_fanout h') i = Some t \<Longrightarrow> \<exists>t0. map_of (rh_fanout h) i = Some t0 \<and> ft_carried t = ft_carried t0"
    and "\<And>i. map_of (rh_fanout h') i \<noteq> None \<Longrightarrow> subs_grow i (subs (rh_authority h)) (subs (rh_authority h'))"
  shows "fanout_ok h'"
  unfolding fanout_ok_def
proof (intro conjI allI impI)
  fix i t s
  assume t: "map_of (rh_fanout h') i = Some t" and s: "map_of (subs (rh_authority h')) i = Some s"
  obtain t0 where t0: "map_of (rh_fanout h) i = Some t0" "ft_carried t = ft_carried t0" using assms(4) [OF t] by blast
  obtain s0 xs where s0: "map_of (subs (rh_authority h)) i = Some s0" "sub_sent s = sub_sent s0 @ xs"
    using assms(5) [of i] t s by (auto simp: subs_grow_def)
  from fanout_okD(3) [OF assms(1) t0(1) s0(1)] t0(2) s0(2) assms(3)
  show "ft_carried t \<le> length (sub_sent s)" and "events_for i (rh_pushed h') = take (ft_carried t) (sub_sent s)" by simp_all
qed (use assms(2,3) fanout_okD(2) [OF assms(1)] in auto)

lemma unused_idD: "unused_id i h \<Longrightarrow> map_of (subs (rh_authority h)) i = None" "unused_id i h \<Longrightarrow> map_of (rh_fanout h) i = None"
    "unused_id i h \<Longrightarrow> events_for i (rh_pushed h) = []"
  by (simp_all add: unused_id_def)

lemma fanout_ok_others:
  assumes "fanout_ok h" and "\<And>i topic. x = OpSubscribe i topic \<Longrightarrow> unused_id i h"
  shows "fanout_ok (h\<lparr>rh_authority := auth_exec E x (rh_authority h)\<rparr>)"
proof (rule fanout_ok_grow [OF assms(1)])
  fix i
  assume i: "map_of (rh_fanout (h\<lparr>rh_authority := auth_exec E x (rh_authority h)\<rparr>)) i \<noteq> None"
  show "subs_grow i (subs (rh_authority h)) (subs (rh_authority (h\<lparr>rh_authority := auth_exec E x (rh_authority h)\<rparr>)))"
  proof (cases "\<exists>topic. x = OpSubscribe i topic")
    case True
    then have "map_of (rh_fanout h) i = None" using assms(2) unused_idD(2) by blast
    with i show ?thesis by simp
  next
    case False
    then have "\<And>topic. x \<noteq> OpSubscribe i topic" by blast
    from subs_grow_exec [OF fanout_okD(1) [OF assms(1)] this] show ?thesis by simp
  qed
qed (use subs_ok_exec [OF fanout_okD(1) [OF assms(1)]] in auto)

text \<open>A subscription under a fresh identifier, with or without its task.\<close>

lemma fanout_ok_subscribe:
  assumes "fanout_ok h" and "unused_id i h"
  shows "fanout_ok (start_fanout i (h\<lparr>rh_authority := subscribe i topic (rh_authority h)\<rparr>))"
  unfolding fanout_ok_def
proof (intro conjI allI impI)
  show "subs_ok (subs (rh_authority (start_fanout i (h\<lparr>rh_authority := subscribe i topic (rh_authority h)\<rparr>))))"
    using fanout_okD(1) [OF assms(1)] by (simp add: start_fanout_def subscribe_def subs_ok_put sub_numbered_new)
  fix j t s
  assume "map_of (rh_fanout (start_fanout i (h\<lparr>rh_authority := subscribe i topic (rh_authority h)\<rparr>))) j = Some t"
    and "map_of (subs (rh_authority (start_fanout i (h\<lparr>rh_authority := subscribe i topic (rh_authority h)\<rparr>)))) j = Some s"
  then show "ft_carried t \<le> length (sub_sent s)"
    "events_for j (rh_pushed (start_fanout i (h\<lparr>rh_authority := subscribe i topic (rh_authority h)\<rparr>))) = take (ft_carried t) (sub_sent s)"
    using fanout_okD(3) [OF assms(1), of j t s] unused_idD(3) [OF assms(2)]
    by (auto simp: start_fanout_def subscribe_def store_simps split: if_splits)
qed (use fanout_okD(2) [OF assms(1)] in \<open>auto simp: start_fanout_def\<close>)

lemma subs_ok_drop_receiver: "subs_ok (subs a) \<Longrightarrow> subs_ok (subs (drop_receiver k a))"
  by (auto simp: drop_receiver_def split: option.split intro: subs_ok_drop)

lemma abort_fold:
  assumes "subs_ok (subs a)"
  shows "subs_ok (subs (fold (\<lambda>(i, t). abort_task i t) ts a)) \<and> subs_grow k (subs a) (subs (fold (\<lambda>(i, t). abort_task i t) ts a))"
  using assms
proof (induction ts arbitrary: a)
  case (Cons x ts)
  obtain i t where x: "x = (i, t)" by force
  have ok: "subs_ok (subs (abort_task i t a))" using Cons.prems by (simp add: abort_task_def subs_ok_drop_receiver)
  have "subs_grow k (subs a) (subs (abort_task i t a))" by (simp add: abort_task_def subs_grow_drop)
  with Cons.IH [OF ok] show ?case by (auto simp: x intro: subs_grow_trans)
qed simp

lemma fanout_ok_carry:
  assumes "fanout_ok h" and "carry_event sink_open i h = Some h'"
  shows "fanout_ok h'"
proof -
  from assms(2) obtain t where t: "map_of (rh_fanout h) i = Some t" "ft_running t"
    by (auto simp: carry_event_def split: option.splits if_splits)
  note ok = fanout_okD [OF assms(1)]
  show ?thesis
  proof (cases "map_of (subs (rh_authority h)) i")
    case None
    with assms(2) t have h': "h' = h\<lparr>rh_fanout := hm_put i (t\<lparr>ft_running := False\<rparr>) (rh_fanout h)\<rparr>" by (simp add: carry_event_def)
    show ?thesis by (rule fanout_ok_grow [OF assms(1)]) (use t ok(1) h' in \<open>auto simp: store_simps split: if_splits\<close>)
  next
    case (Some s)
    note ts = ok(3) [OF t(1) Some]
    from assms(2) t Some have n: "ft_carried t < length (sub_sent s)" by (auto simp: carry_event_def split: if_splits)
    show ?thesis
    proof (cases sink_open)
      case False
      with assms(2) t Some n have h': "h' = h\<lparr>rh_fanout := hm_put i (t\<lparr>ft_running := False\<rparr>) (rh_fanout h),
          rh_authority := drop_receiver i (rh_authority h)\<rparr>" by (simp add: carry_event_def)
      show ?thesis
        by (rule fanout_ok_grow [OF assms(1)]) (use t ok(1) h' in \<open>auto simp: store_simps subs_grow_drop subs_ok_drop_receiver split: if_splits\<close>)
    next
      case True
      with assms(2) t Some n have h': "h' = push_message (EventMessage i (sub_sent s ! ft_carried t))
          (h\<lparr>rh_fanout := hm_put i (t\<lparr>ft_carried := ft_carried t + 1\<rparr>) (rh_fanout h)\<rparr>)" by (simp add: carry_event_def)
      have told: "events_for i (rh_pushed h') = take (ft_carried t + 1) (sub_sent s)"
        using ts n by (simp add: h' push_message_def take_Suc_conv_app_nth)
      have other: "events_for j (rh_pushed h') = events_for j (rh_pushed h)" if "j \<noteq> i" for j
        using that by (simp add: h' push_message_def)
      have num: "numbered_events (take (ft_carried t + 1) (sub_sent s))"
        using ok(1) Some n by (intro numbered_take) (auto simp: subs_ok_def sub_numbered_def)
      show ?thesis
        unfolding fanout_ok_def
      proof (intro conjI allI impI)
        fix j
        show "numbered_events (events_for j (rh_pushed h'))" using ok(2) [of j] num told other by (cases "j = i") simp_all
        fix u r
        assume "map_of (rh_fanout h') j = Some u" "map_of (subs (rh_authority h')) j = Some r"
        then show "ft_carried u \<le> length (sub_sent r)" "events_for j (rh_pushed h') = take (ft_carried u) (sub_sent r)"
          using ok(3) [of j u r] told other Some n by (auto simp: h' push_message_def store_simps split: if_splits)
      qed (use ok(1) in \<open>simp add: h' push_message_def\<close>)
    qed
  qed
qed

lemma fanout_ok_same:
  assumes "fanout_ok h" and "rh_authority h' = rh_authority h" and "rh_fanout h' = rh_fanout h"
    and "\<And>i. events_for i (rh_pushed h') = events_for i (rh_pushed h)"
  shows "fanout_ok h'"
  by (rule fanout_ok_grow [OF assms(1)]) (use assms(2-) fanout_okD(1) [OF assms(1)] in auto)

lemma fanout_ok_unsubscribe: "fanout_ok h \<Longrightarrow> fanout_ok (snd (handle_unsubscribe i h))"
  by (rule fanout_ok_grow [of h])
    (auto simp: handle_unsubscribe_def unsubscribe_def store_simps subs_grow_remove dest: fanout_okD(1) intro: subs_ok_remove split: if_splits)

lemma fanout_ok_disconnected: "fanout_ok h \<Longrightarrow> fanout_ok (on_disconnected h)"
  by (rule fanout_ok_grow [of h]) (auto simp: on_disconnected_def dest: fanout_okD(1) abort_fold)

lemma mark_run_running_exec:
  "snd (mark_run_running E now ms i a) = a \<or> snd (mark_run_running E now ms i a) = auth_exec E (OpMarkRunning now ms i) a"
  by (auto simp: mark_run_running_def split: sum.split)

lemma fanout_ok_resume:
  assumes "fanout_ok h" and "unused_id k h"
  shows "fanout_ok (snd (handle_resume_run E V now ms k roots tmp lbl rid h))"
proof -
  define a1 where "a1 i = snd (mark_run_running E now ms i (rh_authority h))" for i
  define h1 where "h1 i = h\<lparr>rh_authority := a1 i\<rparr>" for i
  have a1: "a1 i = rh_authority h \<or> a1 i = auth_exec E (OpMarkRunning now ms i) (rh_authority h)" for i
    unfolding a1_def by (rule mark_run_running_exec)
  have ok1: "fanout_ok (h1 i)" for i
    using a1 [of i] fanout_ok_others [OF assms(1), of "OpMarkRunning now ms i" E] assms(1) by (auto simp: h1_def)
  have un1: "unused_id k (h1 i)" for i
  proof -
    have "subs_grow k (subs (rh_authority h)) (subs (a1 i))"
      using a1 [of i] subs_grow_exec [OF fanout_okD(1) [OF assms(1)], of "OpMarkRunning now ms i" k E] by auto
    then have "map_of (subs (a1 i)) k = None"
      using unused_idD(1) [OF assms(2)] by (cases "map_of (subs (a1 i)) k") (auto simp: subs_grow_def)
    then show ?thesis using assms(2) by (simp add: unused_id_def h1_def)
  qed
  have dropped: "fanout_ok ((h1 i)\<lparr>rh_authority := drop_receiver k (subscribe k topic (a1 i))\<rparr>)" for i topic
  proof (rule fanout_ok_grow [OF ok1 [of i]])
    fix j
    assume "map_of (rh_fanout ((h1 i)\<lparr>rh_authority := drop_receiver k (subscribe k topic (a1 i))\<rparr>)) j \<noteq> None"
    then have "j \<noteq> k" using unused_idD(2) [OF un1] by auto
    then show "subs_grow j (subs (rh_authority (h1 i))) (subs (rh_authority ((h1 i)\<lparr>rh_authority := drop_receiver k (subscribe k topic (a1 i))\<rparr>)))"
      by (auto simp: h1_def subscribe_def subs_grow_put intro: subs_grow_trans [OF _ subs_grow_drop])
  next
    have "subs_ok (subs (a1 i))" using fanout_okD(1) [OF ok1 [of i]] by (simp add: h1_def)
    then show "subs_ok (subs (rh_authority ((h1 i)\<lparr>rh_authority := drop_receiver k (subscribe k topic (a1 i))\<rparr>)))"
      by (simp add: subscribe_def subs_ok_put sub_numbered_new subs_ok_drop_receiver)
  qed auto
  have sub: "fanout_ok (start_fanout k ((h1 i)\<lparr>rh_authority := subscribe k topic (a1 i)\<rparr>))" for i topic
    using fanout_ok_subscribe [OF ok1 [of i] un1 [of i], of topic] by (simp add: h1_def)
  have "fanout_ok (h\<lparr>rh_authority := a\<rparr>)" "fanout_ok (start_fanout k (h\<lparr>rh_authority := subscribe k topic a\<rparr>))"
    "fanout_ok (h\<lparr>rh_authority := drop_receiver k (subscribe k topic a)\<rparr>)"
    if "mark_run_running E now ms i (rh_authority h) = (r, a)" for i topic r a
    using ok1 [of i] sub [where i = i and topic = topic] dropped [where i = i and topic = topic] that by (simp_all add: h1_def a1_def)
  with assms(1) show ?thesis
    by (auto simp: handle_resume_run_def on_authority_def Let_def split: sum.splits option.splits prod.splits)
qed

lemma fanout_ok_exec:
  assumes "fanout_ok h" and "handler_exec E V x h = Some h'"
  shows "fanout_ok h'"
proof (cases x)
  case (ByOthers y)
  with assms(2) have h': "h' = h\<lparr>rh_authority := auth_exec E y (rh_authority h)\<rparr>"
    and "\<And>i topic. y = OpSubscribe i topic \<Longrightarrow> unused_id i h"
    by (cases y; auto split: if_splits)+
  with fanout_ok_others [OF assms(1)] show ?thesis by blast
next
  case Connected
  with assms show ?thesis by (auto simp: on_connected_def intro: fanout_ok_same)
next
  case Disconnected
  with assms show ?thesis by (auto intro: fanout_ok_disconnected)
next
  case (OnSubscribe i topic)
  with assms fanout_ok_subscribe [OF assms(1), of i topic] show ?thesis by (auto simp: handle_subscribe_def split: if_splits)
next
  case (OnUnsubscribe i)
  with assms show ?thesis by (auto intro: fanout_ok_unsubscribe)
next
  case (OnResume now ms i roots tmp rid)
  with assms show ?thesis by (auto intro: fanout_ok_resume split: if_splits)
next
  case (Carry b i)
  with assms show ?thesis by (auto intro: fanout_ok_carry)
next
  case (BeginCapability b i rq)
  with assms show ?thesis by (auto simp: begin_capability_def push_message_def Let_def intro!: fanout_ok_same [OF assms(1)])
next
  case (TimeOut i k)
  with assms show ?thesis by (auto simp: time_out_capability_def intro!: fanout_ok_same [OF assms(1)])
next
  case (OnCapabilityReply i rp)
  with assms show ?thesis by (auto simp: handle_capability_reply_def intro!: fanout_ok_same [OF assms(1)] split: option.split)
qed

lemma handler_reach_ok: "handler_reach E V a h \<Longrightarrow> fanout_ok h"
proof (induction rule: handler_reach.induct)
  case handler_start
  then show ?case by (simp add: fanout_ok_def new_handler_def subs_ok_def numbered_events_def)
qed (rule fanout_ok_exec)

end
