(* ===== verification/FlowHandlers.thy ===== *)
theory FlowHandlers
  imports Handlers FlowRun Dispatcher
begin

text \<open>
  The requests about flow runs (\<^verbatim>\<open>runtime/handler/review_ops.rs\<close>, the end of \<^verbatim>\<open>run_ops.rs\<close> and of
  \<^verbatim>\<open>flow_ops.rs\<close>): the handler of \<open>Handlers\<close> beside the flow runtime of a workspace. Work that the
  handler starts is a job of its state, and running a job is an operation of its own. The files of the
  workspace and the definitions of the flows are parameters.
\<close>

section \<open>State\<close>

datatype llm_config =
  LlmOpenAi string "string option" string
| LlmAnthropic string "string option" string
| LlmCopilot "string option" string string

definition from_payload_fields :: "string \<Rightarrow> string \<Rightarrow> string option \<Rightarrow> string \<Rightarrow> llm_config" where
  "from_payload_fields kind base_url api_key model =
     (if kind = ''anthropic'' then LlmAnthropic base_url api_key model
      else if kind = ''github_copilot'' then LlmCopilot api_key model base_url
      else LlmOpenAi base_url api_key model)"

text \<open>
  \<open>rx_listening\<close> tells whether a task receives from the channel of documents: the sender \<^verbatim>\<open>doc_tx\<close> is shared
  by the agents of the run.
\<close>

record run_context =
  rx_space_id :: space_id
  rx_workspace_root :: string
  rx_flow_id :: "string option"
  rx_flow_run_id :: "string option"
  rx_session_id :: "session_id option"
  rx_llm_config :: llm_config
  rx_sandbox_tier :: sandbox_tier
  rx_cache_dir :: "string option"
  rx_listening :: bool

datatype flow_job =
  ApproveJob run_context string string string flow_definition "run_id option"
| ApproveRestoredJob run_context string string string flow_definition
| RequestChangesJob run_context string string string flow_definition "review_comment list"
| ResolveApproveJob run_context string string string
| ResolveRequeueJob run_context string string string

record ('p, 'b) flow_handler =
  fh_runtime :: "'p runtime_handler"
  fh_flows :: "'b flow_runtime"
  fh_contexts :: "(string \<times> run_context) list"
  fh_agent_runs :: "(string \<times> run_id) list"
  fh_jobs :: "flow_job list"
  fh_spawned :: "(run_context \<times> invocation_context) list"

text \<open>\<open>fe_load\<close> loads the definition of a flow, \<open>fe_document\<close> reads a file of the workspace.\<close>

record flow_handler_env =
  fe_load :: "string \<Rightarrow> string + flow_definition"
  fe_document :: "string \<Rightarrow> string option"
  fe_policy :: "sandbox_policy option"
  fe_cache_dir :: "string option"

section \<open>Requests\<close>

definition flow_run_not_found :: "string \<Rightarrow> control_response" where
  "flow_run_not_found rid = ErrResponse (InvalidRequest (''flow run '' @ [CHR 0x27] @ rid @ [CHR 0x27] @ '' not found''))"

definition flow_of_run :: "flow_handler_env \<Rightarrow> string \<Rightarrow> 'b flow_runtime \<Rightarrow> control_response + flow_definition" where
  "flow_of_run F rid s = (case FlowRun.get_run s rid of
     None \<Rightarrow> Inl (flow_run_not_found rid)
   | Some r \<Rightarrow> (case fe_load F (frs_flow_id r) of
       Inl e \<Rightarrow> Inl (ErrResponse (InvalidRequest (''failed to load flow definition: '' @ e)))
     | Inr d \<Rightarrow> Inr d))"

text \<open>After a restart the context of a run is built again from what was saved.\<close>

definition restored_context ::
    "flow_handler_env \<Rightarrow> flow_review_request \<Rightarrow> bool \<Rightarrow> ('p, 'b) flow_handler \<Rightarrow> run_context option" where
  "restored_context F q listening h =
     (let session = Option.bind (FlowRun.get_run (fh_flows h) (fq_flow_run_id q)) (\<lambda>r. map_option StringNewtype (originating_session_id r))
      in map_option (\<lambda>sp. \<lparr>rx_space_id = sp, rx_workspace_root = fq_workspace_root q,
           rx_flow_id = map_option frs_flow_id (FlowRun.get_run (fh_flows h) (fq_flow_run_id q)), rx_flow_run_id = Some (fq_flow_run_id q),
           rx_session_id = session,
           rx_llm_config = from_payload_fields (fq_provider_kind q) (fq_base_url q) (non_blank (Some (fq_api_key q))) (fq_model q),
           rx_sandbox_tier = (case fe_policy F of Some p \<Rightarrow> Sandboxed p | None \<Rightarrow> Trusted),
           rx_cache_dir = fe_cache_dir F, rx_listening = listening\<rparr>)
         (Option.bind session (space_id_for_session (rh_authority (fh_runtime h)))))"

definition add_job :: "flow_job \<Rightarrow> ('p, 'b) flow_handler \<Rightarrow> ('p, 'b) flow_handler" where
  "add_job j h = h\<lparr>fh_jobs := fh_jobs h @ [j]\<rparr>"

definition keep_context :: "string \<Rightarrow> run_context \<Rightarrow> ('p, 'b) flow_handler \<Rightarrow> ('p, 'b) flow_handler" where
  "keep_context rid c h = h\<lparr>fh_contexts := hm_put rid c (fh_contexts h)\<rparr>"

definition handle_flow_run_approve ::
    "flow_handler_env \<Rightarrow> flow_review_request \<Rightarrow> ('p, 'b) flow_handler \<Rightarrow> control_response \<times> ('p, 'b) flow_handler" where
  "handle_flow_run_approve F q h =
     (let rid = fq_flow_run_id q in
      case flow_of_run F rid (fh_flows h) of
        Inl resp \<Rightarrow> (resp, h)
      | Inr flow \<Rightarrow> (case map_of (fh_contexts h) rid of
          Some c \<Rightarrow> (Ack, add_job (ApproveJob c rid (fq_node_id q) (fq_port q) flow (map_of (fh_agent_runs h) rid)) h)
        | None \<Rightarrow> (case restored_context F q True h of
            None \<Rightarrow> (Ack, h)
          | Some c \<Rightarrow> (Ack, add_job (ApproveRestoredJob c rid (fq_node_id q) (fq_port q) flow) (keep_context rid c h)))))"

definition changes_message :: "string \<Rightarrow> string \<Rightarrow> string" where
  "changes_message port n = [CHR 0xE2, CHR 0x86, CHR 0xA9, CHR 0xEF, CHR 0xB8, CHR 0x8F] @ '' Changes requested for **'' @ port @
     ''** from **'' @ n @ ''**. Agent will revise.''"

definition approved_message :: "string \<Rightarrow> string \<Rightarrow> string" where
  "approved_message port n = [CHR 0xE2, CHR 0x9C, CHR 0x85] @ '' Approved **'' @ port @
     ''** from **'' @ n @ ''**. Downstream agents are now running.''"

text \<open>The notice in the chat that started the flow, if there is one.\<close>

definition notify_chat ::
    "('p, 'e) auth_env \<Rightarrow> int \<Rightarrow> string \<Rightarrow> string \<Rightarrow> run_id option \<Rightarrow> ('p, 'b) flow_handler \<Rightarrow> ('p, 'b) flow_handler" where
  "notify_chat A ms kind msg who h = (case who of None \<Rightarrow> h
     | Some i \<Rightarrow> h\<lparr>fh_runtime := (fh_runtime h)\<lparr>rh_authority := emit_for_run A ms i
         (EvRaw (json_object [(''event'', JString ''flow.agent.notify''), (''kind'', JString kind), (''message'', JString msg)]))
         (rh_authority (fh_runtime h))\<rparr>\<rparr>)"

definition handle_flow_run_request_changes ::
    "('p, 'e) auth_env \<Rightarrow> flow_handler_env \<Rightarrow> int \<Rightarrow> flow_review_request \<Rightarrow> json list \<Rightarrow> ('p, 'b) flow_handler
      \<Rightarrow> control_response \<times> ('p, 'b) flow_handler" where
  "handle_flow_run_request_changes A F ms q comments h =
     (let rid = fq_flow_run_id q in
      case flow_of_run F rid (fh_flows h) of
        Inl resp \<Rightarrow> (resp, h)
      | Inr flow \<Rightarrow>
          (let ctx = (case map_of (fh_contexts h) rid of
                 Some c \<Rightarrow> Some (c, h)
               | None \<Rightarrow> map_option (\<lambda>c. (c, keep_context rid c h)) (restored_context F q False h))
           in case ctx of
                None \<Rightarrow> (Ack, h)
              | Some (c, h1) \<Rightarrow>
                  (Ack, add_job (RequestChangesJob c rid (fq_node_id q) (fq_port q) flow (List.map_filter parse_comment comments))
                    (notify_chat A ms ''info'' (changes_message (fq_port q) (fq_node_id q)) (map_of (fh_agent_runs h) rid) h1))))"

text \<open>The part of \<^verbatim>\<open>handle_resolve_review\<close> about flows, before the authority is asked.\<close>

definition flow_context_of :: "('p, 'e) auth_env \<Rightarrow> string \<Rightarrow> run_id \<Rightarrow> ('p, 'b) flow_handler \<Rightarrow> run_context option" where
  "flow_context_of A rid i h = find (\<lambda>c. rx_flow_run_id c = Some rid \<or> rx_flow_run_id c = Some (show_id A i)) (map snd (fh_contexts h))"

text \<open>\<^verbatim>\<open>splitn(2, ':')\<close>.\<close>

definition split_colon :: "string \<Rightarrow> (string \<times> string) option" where
  "split_colon s = (if CHR '':'' \<in> set s then Some (takeWhile (\<lambda>c. c \<noteq> CHR '':'') s, tl (dropWhile (\<lambda>c. c \<noteq> CHR '':'') s)) else None)"

definition resolve_jobs :: "string \<Rightarrow> review_decision \<Rightarrow> run_context \<Rightarrow> flow_job list" where
  "resolve_jobs vid d c = (case split_colon vid of
     None \<Rightarrow> []
   | Some (n, port) \<Rightarrow>
       (let rid = (case rx_flow_run_id c of Some r \<Rightarrow> r | None \<Rightarrow> [])
        in if permission_of d = permission_state.Approved then [ResolveApproveJob c rid n port] else [ResolveRequeueJob c rid n port]))"

definition handle_resolve_review ::
    "('p, 'e) auth_env \<Rightarrow> 'e handler_env \<Rightarrow> int \<Rightarrow> (nat \<Rightarrow> int) \<Rightarrow> string \<Rightarrow> string \<Rightarrow> review_decision \<Rightarrow> string option
      \<Rightarrow> ('p, 'b) flow_handler \<Rightarrow> control_response \<times> ('p, 'b) flow_handler" where
  "handle_resolve_review A V now ms rid vid d notes h =
     (case review_target V rid vid (rh_authority (fh_runtime h)) of
        Inl resp \<Rightarrow> (resp, h)
      | Inr (i, vw) \<Rightarrow>
          (let h1 = (case flow_context_of A rid i h of None \<Rightarrow> h
                 | Some c \<Rightarrow> h\<lparr>fh_jobs := fh_jobs h @ resolve_jobs vid d c\<rparr>)
           in case resolve_via_authority A V now ms rid i vw d notes (fh_runtime h1) of (resp, r) \<Rightarrow> (resp, h1\<lparr>fh_runtime := r\<rparr>)))"

text \<open>A document put on the blackboard by the user: only its key and its place are recorded.\<close>

fun flow_status_debug :: "flow_run_status \<Rightarrow> string" where
  "flow_status_debug FrPending = ''Pending''"
| "flow_status_debug FrRunning = ''Running''"
| "flow_status_debug FrPaused = ''Paused''"
| "flow_status_debug FrCompleted = ''Completed''"
| "flow_status_debug FrCancelled = ''Cancelled''"
| "flow_status_debug FrFailed = ''Failed''"

definition handle_blackboard_inject :: "string \<Rightarrow> string \<Rightarrow> string \<Rightarrow> ('p, 'b) flow_handler \<Rightarrow> control_response \<times> ('p, 'b) flow_handler" where
  "handle_blackboard_inject rid key content h =
     (case map_of (fh_contexts h) rid of
        None \<Rightarrow> (ErrResponse (InvalidRequest (''no active flow run context for: '' @ rid)), h)
      | Some _ \<Rightarrow> (case FlowRun.get_run (fh_flows h) rid of
          None \<Rightarrow> (ErrResponse (InvalidRequest (''flow run not found: '' @ rid)), h)
        | Some r \<Rightarrow>
            if frs_status r \<noteq> FrRunning
            then (ErrResponse (InvalidState (''flow run '' @ rid @ '' is not running (status: '' @ flow_status_debug (frs_status r) @ '')'')), h)
            else (Ack, h\<lparr>fh_flows := write_blackboard_entry rid key
              \<lparr>ad_path = ''.cronymax/blackboard/'' @ rid @ ''/'' @ key @ ''.md'', ad_doc_type = ''injected'', ad_revision = 0\<rparr> HumanInjected (fh_flows h)\<rparr>)))"

text \<open>The ports that wait for a reviewer, of the runs that still go on.\<close>

definition review_entry :: "flow_handler_env \<Rightarrow> flow_run_state \<Rightarrow> string \<Rightarrow> string \<Rightarrow> json" where
  "review_entry F r n port =
     json_object [(''flow_run_id'', JString (frs_run_id r)), (''node_id'', JString n), (''port'', JString port),
       (''doc_path'', JString (spec_path (frs_run_id r) port)),
       (''content'', (case fe_document F (spec_path (frs_run_id r) port) of Some t \<Rightarrow> JString t | None \<Rightarrow> JNull)),
       (''originating_session_id'', (case originating_session_id r of Some s \<Rightarrow> JString s | None \<Rightarrow> JNull))]"

definition reviews_of_run :: "flow_handler_env \<Rightarrow> string list \<Rightarrow> flow_run_state \<Rightarrow> json list" where
  "reviews_of_run F ids r =
     (if flow_is_terminal (frs_status r) then []
      else concat (map (\<lambda>n. case node_states r n of None \<Rightarrow> []
        | Some ns \<Rightarrow> map (\<lambda>(port, _). review_entry F r n port) (filter (\<lambda>(_, st). st = InReview) (ports ns))) ids))"

definition handle_flow_run_get_pending_reviews ::
    "flow_handler_env \<Rightarrow> (flow_run_state \<Rightarrow> string list) \<Rightarrow> string \<Rightarrow> ('p, 'b) flow_handler \<Rightarrow> control_response" where
  "handle_flow_run_get_pending_reviews F order rid h =
     (let answer = (\<lambda>rs. Data (json_object [(''pending_reviews'', JArray (concat (map (\<lambda>r. reviews_of_run F (order r) r) rs)))])) in
      if rid = [] then answer (list_runs (fh_flows h))
      else (case FlowRun.get_run (fh_flows h) rid of None \<Rightarrow> flow_run_not_found rid | Some r \<Rightarrow> answer [r]))"

definition session_approvals :: "'e handler_env \<Rightarrow> string \<Rightarrow> snapshot \<Rightarrow> json list" where
  "session_approvals V sid s =
     (let ids = map run_id (filter (\<lambda>r. run_session_id r = Some (StringNewtype sid)) (map snd (snapshot.runs s)))
      in map (value_or_null \<circ> hv_review_json V)
           (filter (\<lambda>v. review_state v = permission_state.Pending \<and> review_run_id v \<in> set ids) (map snd (reviews s))))"

definition handle_get_session_pending_actions ::
    "'e handler_env \<Rightarrow> flow_handler_env \<Rightarrow> (flow_run_state \<Rightarrow> string list) \<Rightarrow> string \<Rightarrow> ('p, 'b) flow_handler \<Rightarrow> control_response" where
  "handle_get_session_pending_actions V F order sid h =
     Data (json_object
       [(''doc_reviews'', JArray (concat (map (\<lambda>r. reviews_of_run F (order r) r)
           (filter (\<lambda>r. originating_session_id r = Some sid) (list_runs (fh_flows h)))))),
        (''approvals'', JArray (session_approvals V sid (snap (rh_authority (fh_runtime h)))))])"

section \<open>Jobs\<close>

definition spawn_agents :: "run_context \<Rightarrow> invocation_context list \<Rightarrow> ('p, 'b) flow_handler \<Rightarrow> ('p, 'b) flow_handler" where
  "spawn_agents c is h = h\<lparr>fh_spawned := fh_spawned h @ map (Pair c) is\<rparr>"

definition approve_document ::
    "('io, 'b) flow_env \<Rightarrow> run_context \<Rightarrow> string \<Rightarrow> string \<Rightarrow> string \<Rightarrow> flow_definition \<Rightarrow> ('p, 'b) flow_handler \<Rightarrow> bool \<times> ('p, 'b) flow_handler" where
  "approve_document E c rid n port flow h =
     (case on_document_approved E rid n port flow (fh_flows h) of
        (Inr is, s) \<Rightarrow> (True, spawn_agents c is (h\<lparr>fh_flows := s\<rparr>))
      | (Inl _, s) \<Rightarrow> (False, h\<lparr>fh_flows := s\<rparr>))"

definition requeue_document ::
    "('io, 'b) flow_env \<Rightarrow> run_context \<Rightarrow> string \<Rightarrow> string \<Rightarrow> string \<Rightarrow> flow_definition \<Rightarrow> ('p, 'b) flow_handler \<Rightarrow> ('p, 'b) flow_handler" where
  "requeue_document E c rid n port flow h =
     (case on_rejected_requeue E rid n port flow (fh_flows h) of
        (Inr i, s) \<Rightarrow> spawn_agents c (opt_list i) (h\<lparr>fh_flows := s\<rparr>)
      | (Inl _, s) \<Rightarrow> h\<lparr>fh_flows := s\<rparr>)"

definition flow_of_context :: "flow_handler_env \<Rightarrow> run_context \<Rightarrow> flow_definition option" where
  "flow_of_context F c = (case fe_load F (case rx_flow_id c of Some f \<Rightarrow> f | None \<Rightarrow> []) of Inr d \<Rightarrow> Some d | Inl _ \<Rightarrow> None)"

fun run_job ::
    "('p, 'e) auth_env \<Rightarrow> flow_handler_env \<Rightarrow> ('io, 'b) flow_env \<Rightarrow> int \<Rightarrow> flow_job \<Rightarrow> ('p, 'b) flow_handler \<Rightarrow> ('p, 'b) flow_handler" where
  "run_job A F E ms (ApproveJob c rid n port flow who) h =
     (case approve_document E c rid n port flow h of
        (True, h1) \<Rightarrow> notify_chat A ms ''success'' (approved_message port n) who h1
      | (False, h1) \<Rightarrow> h1)"
| "run_job A F E ms (ApproveRestoredJob c rid n port flow) h = snd (approve_document E c rid n port flow h)"
| "run_job A F E ms (RequestChangesJob c rid n port flow cs) h =
     requeue_document E c rid n port flow
       (h\<lparr>fh_flows := snd (write_review_comments E (case rx_flow_id c of Some f \<Rightarrow> f | None \<Rightarrow> []) rid port ''human'' cs (fh_flows h))\<rparr>)"
| "run_job A F E ms (ResolveApproveJob c rid n port) h = (case flow_of_context F c of
     None \<Rightarrow> h | Some flow \<Rightarrow> snd (approve_document E c rid n port flow h))"
| "run_job A F E ms (ResolveRequeueJob c rid n port) h = (case flow_of_context F c of
     None \<Rightarrow> h | Some flow \<Rightarrow> requeue_document E c rid n port flow h)"

text \<open>A document that an agent submits reaches the flow only when its channel has a receiver.\<close>

record submitted =
  sb_run_id :: string
  sb_agent_id :: string
  sb_doc_type :: string
  sb_sha256 :: string
  sb_revision :: u32

definition supervise ::
    "flow_handler_env \<Rightarrow> ('io, 'b) flow_env \<Rightarrow> run_context \<Rightarrow> submitted \<Rightarrow> ('p, 'b) flow_handler \<Rightarrow> ('p, 'b) flow_handler" where
  "supervise F E c evt h =
     (case FlowRun.get_run (fh_flows h) (case rx_flow_run_id c of Some r \<Rightarrow> r | None \<Rightarrow> []) of
        None \<Rightarrow> h
      | Some r \<Rightarrow> (case fe_load F (frs_flow_id r) of
          Inl _ \<Rightarrow> h
        | Inr flow \<Rightarrow> (case on_document_submitted E (sb_run_id evt) (sb_agent_id evt) (sb_doc_type evt) flow (sb_sha256 evt) (sb_revision evt) (fh_flows h) of
            (Inr is, s) \<Rightarrow> spawn_agents c is (h\<lparr>fh_flows := s\<rparr>)
          | (Inl _, s) \<Rightarrow> h\<lparr>fh_flows := s\<rparr>)))"

definition signal_document ::
    "flow_handler_env \<Rightarrow> ('io, 'b) flow_env \<Rightarrow> run_context \<Rightarrow> submitted \<Rightarrow> ('p, 'b) flow_handler \<Rightarrow> bool \<times> ('p, 'b) flow_handler" where
  "signal_document F E c evt h = (if rx_listening c then (True, supervise F E c evt h) else (False, h))"

end
