(* ===== verification/Protocol.thy ===== *)
theory Protocol
  imports Control "HOL-Library.Sublist"
begin

text \<open>
  The loop that serves one connection of the host (\<^verbatim>\<open>protocol/dispatch.rs\<close>). Between two waits of the
  loop the code is one operation; the events are what it waits for: a message received, a write
  that ended, a handler that returned, a tick of the timer, and messages that other tasks push into
  the sink. The timer is a parameter: the deadline after a tick and after a reset.
\<close>

section \<open>The state of the loop\<close>

datatype dispatch_error =
  TransportFailed transport_error
| HandshakeRequired string
| ProtocolMismatch protocol_version protocol_version

type_synonym dispatch_result = "dispatch_error + unit"

text \<open>What is handed to the handler.\<close>

datatype handler_call =
  OnConnected
| HandleControl correlation_id control_request
| HandleCapabilityReply correlation_id capability_response
| OnDisconnected

text \<open>
  What the loop waits for. \<open>Greeting\<close> and \<open>Refusing\<close> and \<open>Welcoming\<close> belong to the handshake;
  \<open>Draining\<close> is a write of the priority pass with the number of writes before it; \<open>Selecting\<close> is the
  multiplexed wait and \<open>Sending\<close> a write it chose; \<open>Serving\<close> and \<open>Replying\<close> wait for the handler;
  \<open>Leaving\<close> waits for the end of \<^verbatim>\<open>on_disconnected\<close> and \<open>Flushing\<close> is a write of the last pass.
\<close>

datatype loop_phase =
  Greeting
| Refusing dispatch_error
| Welcoming
| Connecting
| Draining nat
| Selecting
| Sending
| Serving correlation_id
| Delivering
| Leaving dispatch_result
| Flushing dispatch_result
| Finished dispatch_result

record dispatch_timer =
  after_tick :: "nat \<Rightarrow> nat \<Rightarrow> nat"
  after_reset :: "nat \<Rightarrow> nat"

record dispatch_loop =
  dl_phase :: loop_phase
  dl_queue :: "runtime_to_client list"
  dl_writing :: "runtime_to_client list"
  dl_sent :: "runtime_to_client list"
  dl_calls :: "handler_call list"
  dl_deadline :: nat

text \<open>\<open>dl_writing\<close> is the message of a write that has begun and not ended, \<open>dl_sent\<close> the messages written.\<close>

definition new_loop :: dispatch_loop where
  "new_loop = \<lparr>dl_phase = Greeting, dl_queue = [], dl_writing = [], dl_sent = [], dl_calls = [], dl_deadline = 0\<rparr>"

definition enqueue :: "runtime_to_client \<Rightarrow> dispatch_loop \<Rightarrow> dispatch_loop" where
  "enqueue m s = s\<lparr>dl_queue := dl_queue s @ [m]\<rparr>"

definition call_handler :: "handler_call \<Rightarrow> loop_phase \<Rightarrow> dispatch_loop \<Rightarrow> dispatch_loop" where
  "call_handler k p s = s\<lparr>dl_calls := dl_calls s @ [k], dl_phase := p\<rparr>"

definition begin_write :: "runtime_to_client \<Rightarrow> loop_phase \<Rightarrow> dispatch_loop \<Rightarrow> dispatch_loop" where
  "begin_write m p s = s\<lparr>dl_writing := [m], dl_phase := p\<rparr>"

definition end_write :: "transport_error option \<Rightarrow> dispatch_loop \<Rightarrow> dispatch_loop" where
  "end_write io s = (case io of None \<Rightarrow> s\<lparr>dl_sent := dl_sent s @ dl_writing s, dl_writing := []\<rparr>
     | Some _ \<Rightarrow> s\<lparr>dl_writing := []\<rparr>)"

section \<open>The handshake\<close>

definition mismatch_message :: "string \<Rightarrow> string \<Rightarrow> protocol_version \<Rightarrow> string" where
  "mismatch_message name version v = ''host '' @ name @ '' '' @ version @ '' speaks protocol '' @ show_version v @
     '', runtime speaks '' @ show_version PROTOCOL_VERSION"

definition refuse :: "string \<Rightarrow> dispatch_loop \<Rightarrow> dispatch_loop" where
  "refuse what = begin_write (Goodbye HandshakeRequiredReason (''Hello required before '' @ what)) (Refusing (HandshakeRequired what))"

definition greet :: "string \<Rightarrow> transport_error + client_to_runtime \<Rightarrow> dispatch_loop \<Rightarrow> dispatch_loop" where
  "greet runtime_version r s = (case r of
     Inl e \<Rightarrow> s\<lparr>dl_phase := Finished (Inl (TransportFailed e))\<rparr>
   | Inr (Hello v name version) \<Rightarrow>
       if \<not> is_compatible_with PROTOCOL_VERSION v
       then begin_write (Goodbye ProtocolMismatchReason (mismatch_message name version v)) (Refusing (ProtocolMismatch v PROTOCOL_VERSION)) s
       else begin_write (Welcome PROTOCOL_VERSION runtime_version) Welcoming s
   | Inr (ControlCall _ _) \<Rightarrow> refuse ''Control'' s
   | Inr (CapabilityReply _ _) \<Rightarrow> refuse ''CapabilityReply'' s
   | Inr Pong \<Rightarrow> refuse ''Pong'' s)"

definition welcomed :: "transport_error option \<Rightarrow> dispatch_loop \<Rightarrow> dispatch_loop" where
  "welcomed io s = (case io of
     Some e \<Rightarrow> (end_write io s)\<lparr>dl_phase := Finished (Inl (TransportFailed e))\<rparr>
   | None \<Rightarrow> call_handler OnConnected Connecting (end_write io s))"

section \<open>The main loop\<close>

text \<open>The top of an iteration: the next write of the priority pass, or the multiplexed wait.\<close>

definition DRAIN_LIMIT :: nat where "DRAIN_LIMIT = 64"

definition drain_pass :: "nat \<Rightarrow> dispatch_loop \<Rightarrow> dispatch_loop" where
  "drain_pass drained s =
     (if drained < DRAIN_LIMIT then (case dl_queue s of
        m # q \<Rightarrow> begin_write m (Draining drained) (s\<lparr>dl_queue := q\<rparr>)
      | [] \<Rightarrow> s\<lparr>dl_phase := Selecting\<rparr>)
      else s\<lparr>dl_phase := Selecting\<rparr>)"

definition drained_one :: "transport_error option \<Rightarrow> nat \<Rightarrow> dispatch_loop \<Rightarrow> dispatch_loop" where
  "drained_one io n s = (case io of
     Some _ \<Rightarrow> (end_write io s)\<lparr>dl_phase := Selecting\<rparr>
   | None \<Rightarrow> drain_pass (n + 1) (end_write io s))"

definition leave_loop :: "dispatch_result \<Rightarrow> dispatch_loop \<Rightarrow> dispatch_loop" where
  "leave_loop r = call_handler OnDisconnected (Leaving r)"

definition select_outbound :: "dispatch_loop \<Rightarrow> dispatch_loop option" where
  "select_outbound s = (case dl_queue s of m # q \<Rightarrow> Some (begin_write m Sending (s\<lparr>dl_queue := q\<rparr>)) | [] \<Rightarrow> None)"

definition sent_one :: "transport_error option \<Rightarrow> dispatch_loop \<Rightarrow> dispatch_loop" where
  "sent_one io s = (case io of
     Some e \<Rightarrow> leave_loop (Inl (TransportFailed e)) (end_write io s)
   | None \<Rightarrow> drain_pass 0 (end_write io s))"

definition select_inbound :: "dispatch_timer \<Rightarrow> nat \<Rightarrow> transport_error + client_to_runtime \<Rightarrow> dispatch_loop \<Rightarrow> dispatch_loop" where
  "select_inbound T now r s = (case r of
     Inr (Hello _ _ _) \<Rightarrow> leave_loop (Inl (HandshakeRequired ''Hello after Welcome'')) (enqueue (Goodbye ProtocolViolation ''Hello sent twice'') s)
   | Inr (ControlCall i rq) \<Rightarrow> call_handler (HandleControl i rq) (Serving i) s
   | Inr (CapabilityReply i rp) \<Rightarrow> call_handler (HandleCapabilityReply i rp) Delivering s
   | Inr Pong \<Rightarrow> drain_pass 0 (s\<lparr>dl_deadline := after_reset T now\<rparr>)
   | Inl e \<Rightarrow> leave_loop (if e = Closed then Inr () else Inl (TransportFailed e)) s)"

definition select_tick :: "dispatch_timer \<Rightarrow> nat \<Rightarrow> dispatch_loop \<Rightarrow> dispatch_loop option" where
  "select_tick T now s =
     (if dl_deadline s \<le> now then Some (drain_pass 0 (enqueue Ping (s\<lparr>dl_deadline := after_tick T (dl_deadline s) now\<rparr>))) else None)"

definition served :: "correlation_id \<Rightarrow> control_response \<Rightarrow> dispatch_loop \<Rightarrow> dispatch_loop" where
  "served i rp s = drain_pass 0 (enqueue (ControlReply i rp) s)"

text \<open>The last pass writes what is left, whatever becomes of the writes.\<close>

definition flush_pass :: "dispatch_result \<Rightarrow> dispatch_loop \<Rightarrow> dispatch_loop" where
  "flush_pass r s = (case dl_queue s of
     m # q \<Rightarrow> begin_write m (Flushing r) (s\<lparr>dl_queue := q\<rparr>)
   | [] \<Rightarrow> s\<lparr>dl_phase := Finished r\<rparr>)"

section \<open>Events\<close>

text \<open>
  \<open>Received\<close> carries the time and what \<^verbatim>\<open>recv\<close> gave, \<open>WriteEnded\<close> the outcome of \<^verbatim>\<open>send\<close>, \<open>Returned\<close> the
  answer of \<^verbatim>\<open>handle_control\<close> and \<open>Done\<close> the end of a handler without one, with the time.
\<close>

datatype dispatch_event =
  Received nat "transport_error + client_to_runtime"
| WriteEnded "transport_error option"
| ChooseOutbound
| Tick nat
| Returned control_response
| Done nat
| Pushed runtime_to_client

text \<open>An event that the loop does not wait for has no result; the sink exists from the
  call of \<^verbatim>\<open>on_connected\<close> to the end of the loop.\<close>

fun dispatch_step :: "dispatch_timer \<Rightarrow> string \<Rightarrow> dispatch_event \<Rightarrow> dispatch_loop \<Rightarrow> dispatch_loop option" where
  "dispatch_step T rv (Received t r) s = (case dl_phase s of
     Greeting \<Rightarrow> Some (greet rv r s) | Selecting \<Rightarrow> Some (select_inbound T t r s) | _ \<Rightarrow> None)"
| "dispatch_step T rv (WriteEnded io) s = (case dl_phase s of
     Refusing e \<Rightarrow> Some ((end_write io s)\<lparr>dl_phase := Finished (Inl e)\<rparr>)
   | Welcoming \<Rightarrow> Some (welcomed io s)
   | Draining n \<Rightarrow> Some (drained_one io n s)
   | Sending \<Rightarrow> Some (sent_one io s)
   | Flushing r \<Rightarrow> Some (flush_pass r (end_write io s))
   | _ \<Rightarrow> None)"
| "dispatch_step T rv ChooseOutbound s = (case dl_phase s of Selecting \<Rightarrow> select_outbound s | _ \<Rightarrow> None)"
| "dispatch_step T rv (Tick t) s = (case dl_phase s of Selecting \<Rightarrow> select_tick T t s | _ \<Rightarrow> None)"
| "dispatch_step T rv (Returned rp) s = (case dl_phase s of Serving i \<Rightarrow> Some (served i rp s) | _ \<Rightarrow> None)"
| "dispatch_step T rv (Done t) s = (case dl_phase s of
     Connecting \<Rightarrow> Some (drain_pass 0 (s\<lparr>dl_deadline := after_reset T t\<rparr>))
   | Delivering \<Rightarrow> Some (drain_pass 0 s)
   | Leaving r \<Rightarrow> Some (flush_pass r s)
   | _ \<Rightarrow> None)"
| "dispatch_step T rv (Pushed m) s = (case dl_phase s of
     Greeting \<Rightarrow> None | Refusing _ \<Rightarrow> None | Welcoming \<Rightarrow> None | Finished _ \<Rightarrow> None | _ \<Rightarrow> Some (enqueue m s))"

fun dispatch_run :: "dispatch_timer \<Rightarrow> string \<Rightarrow> dispatch_event list \<Rightarrow> dispatch_loop \<Rightarrow> dispatch_loop option" where
  "dispatch_run T rv [] s = Some s"
| "dispatch_run T rv (e # es) s = Option.bind (dispatch_step T rv e s) (dispatch_run T rv es)"

end
