(* ===== verification/ProtocolLogic.thy ===== *)
theory ProtocolLogic
  imports Protocol
begin

text \<open>
  The reachable states of the dispatch loop, and what a session hands to the handler and puts into the
  sink, read off its events alone.
\<close>

section \<open>Reachable states\<close>

inductive loop_reach :: "dispatch_timer \<Rightarrow> string \<Rightarrow> dispatch_event list \<Rightarrow> dispatch_loop \<Rightarrow> bool" for T rv where
  loop_start: "loop_reach T rv [] new_loop"
| loop_step: "loop_reach T rv es s \<Longrightarrow> dispatch_step T rv e s = Some s' \<Longrightarrow> loop_reach T rv (es @ [e]) s'"

lemma dispatch_run_append:
  "dispatch_run T rv (es @ es') s = Option.bind (dispatch_run T rv es s) (dispatch_run T rv es')"
  by (induction es arbitrary: s) (auto split: Option.bind_split)

lemma loop_reach_run: "loop_reach T rv es s \<Longrightarrow> dispatch_run T rv es new_loop = Some s"
  by (induction rule: loop_reach.induct) (simp_all add: dispatch_run_append)

lemma loop_run_reach: "loop_reach T rv es s \<Longrightarrow> dispatch_run T rv es' s = Some s' \<Longrightarrow> loop_reach T rv (es @ es') s'"
proof (induction es' arbitrary: es s)
  case (Cons e es')
  then obtain s1 where "dispatch_step T rv e s = Some s1" "dispatch_run T rv es' s1 = Some s'" by (auto split: bind_splits)
  from Cons.IH [OF loop_step [OF Cons.prems(1) this(1)] this(2)] show ?case by simp
qed simp

lemma loop_reach_from_run: "dispatch_run T rv es new_loop = Some s \<Longrightarrow> loop_reach T rv es s"
  using loop_run_reach [OF loop_start] by fastforce

section \<open>What a session is\<close>

text \<open>The messages of the host that reach the handler, in their order.\<close>

fun handed :: "dispatch_event list \<Rightarrow> handler_call list" where
  "handed [] = []"
| "handed (Received _ (Inr (ControlCall i rq)) # es) = HandleControl i rq # handed es"
| "handed (Received _ (Inr (CapabilityReply i rp)) # es) = HandleCapabilityReply i rp # handed es"
| "handed (_ # es) = handed es"

text \<open>
  The messages put into the sink: those of other tasks, a ping at each tick, the answer to the request that
  is being served, and the farewell of a second greeting.
\<close>

definition sink_step :: "correlation_id option \<times> runtime_to_client list \<Rightarrow> dispatch_event \<Rightarrow> correlation_id option \<times> runtime_to_client list" where
  "sink_step co e = (case e of
     Received _ (Inr (ControlCall i _)) \<Rightarrow> (Some i, snd co)
   | Received _ (Inr (Hello _ _ _)) \<Rightarrow> (fst co, snd co @ [Goodbye ProtocolViolation ''Hello sent twice''])
   | Returned rp \<Rightarrow> (None, snd co @ (case fst co of Some i \<Rightarrow> [ControlReply i rp] | None \<Rightarrow> []))
   | Tick _ \<Rightarrow> (fst co, snd co @ [Ping])
   | Pushed m \<Rightarrow> (fst co, snd co @ [m])
   | _ \<Rightarrow> co)"

definition sunk :: "dispatch_event list \<Rightarrow> correlation_id option \<times> runtime_to_client list" where
  "sunk es = foldl sink_step (None, []) (tl es)"

definition outbox :: "dispatch_event list \<Rightarrow> runtime_to_client list" where
  "outbox es = snd (sunk es)"

fun failed_write :: "dispatch_event \<Rightarrow> bool" where
  "failed_write (WriteEnded (Some _)) = True"
| "failed_write _ = False"

definition lost_writes :: "dispatch_event list \<Rightarrow> nat" where
  "lost_writes es = length (filter failed_write es)"

text \<open>A host that is let in: its first message is a greeting in a compatible version, and the welcome is written.\<close>

fun admitted :: "dispatch_event list \<Rightarrow> bool" where
  "admitted (Received _ (Inr (Hello v _ _)) # WriteEnded None # _) = is_compatible_with PROTOCOL_VERSION v"
| "admitted _ = False"

fun over :: "loop_phase \<Rightarrow> bool" where
  "over (Leaving _) = True"
| "over (Flushing _) = True"
| "over (Finished _) = True"
| "over _ = False"

section \<open>The invariant of a session\<close>

fun in_handshake :: "loop_phase \<Rightarrow> bool" where
  "in_handshake Greeting = True"
| "in_handshake (Refusing _) = True"
| "in_handshake Welcoming = True"
| "in_handshake _ = False"

fun writing_phase :: "loop_phase \<Rightarrow> bool" where
  "writing_phase (Refusing _) = True"
| "writing_phase Welcoming = True"
| "writing_phase (Draining _) = True"
| "writing_phase Sending = True"
| "writing_phase (Flushing _) = True"
| "writing_phase _ = False"

text \<open>In the handshake the events are at most the greeting; after it the session is one of an admitted host, or over.\<close>

definition handshake_ok :: "string \<Rightarrow> dispatch_event list \<Rightarrow> dispatch_loop \<Rightarrow> bool" where
  "handshake_ok rv es s = (dl_calls s = [] \<and> dl_queue s = [] \<and> (case dl_phase s of
     Greeting \<Rightarrow> es = [] \<and> dl_sent s = []
   | Welcoming \<Rightarrow> (\<exists>t v n ver. es = [Received t (Inr (Hello v n ver))] \<and> is_compatible_with PROTOCOL_VERSION v) \<and>
       dl_writing s = [Welcome PROTOCOL_VERSION rv] \<and> dl_sent s = []
   | Refusing _ \<Rightarrow> length es = 1 \<and> (\<forall>es'. \<not> admitted (es @ es'))
   | Finished _ \<Rightarrow> es \<noteq> [] \<and> (\<forall>es'. \<not> admitted (es @ es'))
   | _ \<Rightarrow> False))"

definition session_ok :: "string \<Rightarrow> dispatch_event list \<Rightarrow> dispatch_loop \<Rightarrow> bool" where
  "session_ok rv es s \<longleftrightarrow> admitted es \<and> \<not> in_handshake (dl_phase s) \<and>
     dl_calls s = OnConnected # handed es @ (if over (dl_phase s) then [OnDisconnected] else []) \<and>
     subseq (dl_sent s @ dl_writing s @ dl_queue s) (Welcome PROTOCOL_VERSION rv # outbox es) \<and>
     length (dl_sent s @ dl_writing s @ dl_queue s) + lost_writes es = 1 + length (outbox es) \<and>
     take 1 (dl_sent s) = [Welcome PROTOCOL_VERSION rv] \<and>
     (\<forall>i. dl_phase s = Serving i \<longrightarrow> fst (sunk es) = Some i) \<and>
     (length (dl_writing s) = (if writing_phase (dl_phase s) then 1 else 0)) \<and>
     (\<forall>r. dl_phase s = Finished r \<longrightarrow> dl_queue s = [])"

lemma handed_append: "handed (es @ es') = handed es @ handed es'"
  by (induction es rule: handed.induct) auto

lemma sunk_snoc: "es \<noteq> [] \<Longrightarrow> sunk (es @ [e]) = sink_step (sunk es) e"
  by (simp add: sunk_def tl_append split: list.splits)

lemma admitted_append: "admitted es \<Longrightarrow> admitted (es @ es')"
  by (cases es rule: admitted.cases) auto

lemma admitted_nonempty: "admitted es \<Longrightarrow> es \<noteq> []"
  by auto

lemma lost_writes_snoc: "lost_writes (es @ [e]) = lost_writes es + (if failed_write e then 1 else 0)"
  by (simp add: lost_writes_def)

lemma subseq_drop_middle: "subseq (a @ m @ b) c \<Longrightarrow> subseq (a @ b) c"
  by (rule subseq_order.order_trans [of _ "a @ m @ b"]) (simp_all add: list_emb_append_mono list_emb_append2 del: subseq_append)

lemmas loop_op_defs = greet_def refuse_def welcomed_def drain_pass_def drained_one_def leave_loop_def select_outbound_def sent_one_def
  select_inbound_def select_tick_def served_def flush_pass_def enqueue_def call_handler_def begin_write_def end_write_def


section \<open>Every step keeps it\<close>

lemma subseq_snoc: "subseq a b \<Longrightarrow> subseq (a @ [x]) (b @ [x])"
  by simp

lemma refused_not_admitted: "\<not> is_compatible_with PROTOCOL_VERSION v \<Longrightarrow> \<not> admitted (Received t (Inr (Hello v n x)) # es)"
  by (cases "Received t (Inr (Hello v n x)) # es" rule: admitted.cases) auto

lemma handshake_step:
  assumes "handshake_ok rv es s" and "dispatch_step T rv e s = Some s'"
  shows "handshake_ok rv (es @ [e]) s' \<or> session_ok rv (es @ [e]) s'"
proof (cases "dl_phase s")
  case Greeting
  with assms obtain t r where e: "e = Received t r" and es: "es = []" by (cases e) (auto simp: handshake_ok_def)
  with assms Greeting show ?thesis
    by (cases r; cases "projr r") (auto simp: handshake_ok_def loop_op_defs refused_not_admitted split: if_splits)
next
  case (Refusing x)
  with assms obtain io where e: "e = WriteEnded io" by (cases e) (auto simp: handshake_ok_def)
  with assms Refusing show ?thesis by (cases io) (auto simp: handshake_ok_def loop_op_defs)
next
  case Welcoming
  with assms obtain io where e: "e = WriteEnded io" by (cases e) (auto simp: handshake_ok_def)
  with assms Welcoming show ?thesis
    by (cases io) (auto simp: handshake_ok_def session_ok_def loop_op_defs outbox_def sunk_def lost_writes_def sink_step_def)
next
  case (Finished r)
  with assms show ?thesis by (cases e) (auto simp: handshake_ok_def)
qed (use assms in \<open>auto simp: handshake_ok_def\<close>)

lemma session_okD:
  assumes "session_ok rv es s"
  shows "admitted es" "\<not> in_handshake (dl_phase s)" "es \<noteq> []"
    "dl_calls s = OnConnected # handed es @ (if over (dl_phase s) then [OnDisconnected] else [])"
    "subseq (dl_sent s @ dl_writing s @ dl_queue s) (Welcome PROTOCOL_VERSION rv # outbox es)"
    "length (dl_sent s @ dl_writing s @ dl_queue s) + lost_writes es = 1 + length (outbox es)"
    "take 1 (dl_sent s) = [Welcome PROTOCOL_VERSION rv]"
    "dl_phase s = Serving i \<Longrightarrow> fst (sunk es) = Some i"
    "length (dl_writing s) = (if writing_phase (dl_phase s) then 1 else 0)"
    "dl_phase s = Finished r \<Longrightarrow> dl_queue s = []"
  using assms by (auto simp: session_ok_def)

text \<open>
  The queue, the write that goes on and the messages written are one line: an operation moves its marks, puts
  a message at its end, or drops the message of a failed write.
\<close>

definition line :: "dispatch_loop \<Rightarrow> runtime_to_client list" where
  "line s = dl_sent s @ dl_writing s @ dl_queue s"

lemma passes_keep_line [simp]:
  "dl_writing s = [] \<Longrightarrow> line (drain_pass n s) = line s" "dl_writing s = [] \<Longrightarrow> line (flush_pass r s) = line s"
  "line (enqueue m s) = line s @ [m]" "line (call_handler k p s) = line s" "line (s\<lparr>dl_phase := p\<rparr>) = line s"
  "line (s\<lparr>dl_deadline := d\<rparr>) = line s" "line (end_write None s) = line s"
  by (auto simp: line_def loop_op_defs split: list.splits)

lemma passes_keep [simp]:
  "dl_sent (drain_pass n s) = dl_sent s" "dl_sent (flush_pass r s) = dl_sent s" "dl_sent (enqueue m s) = dl_sent s"
  "dl_calls (drain_pass n s) = dl_calls s" "dl_calls (flush_pass r s) = dl_calls s" "dl_calls (enqueue m s) = dl_calls s"
  "dl_calls (end_write io s) = dl_calls s" "dl_writing (end_write io s) = []" "dl_writing (enqueue m s) = dl_writing s"
  "dl_phase (enqueue m s) = dl_phase s" "dl_queue (end_write io s) = dl_queue s"
  by (auto simp: loop_op_defs split: list.splits option.splits)

lemma drain_pass_phase: "dl_writing s = [] \<Longrightarrow> (dl_phase (drain_pass n s) = Selecting \<and> dl_writing (drain_pass n s) = []) \<or>
    (dl_phase (drain_pass n s) = Draining n \<and> length (dl_writing (drain_pass n s)) = 1)"
  by (auto simp: drain_pass_def begin_write_def split: list.splits)

lemma flush_pass_phase: "dl_writing s = [] \<Longrightarrow>
    (dl_phase (flush_pass r s) = Finished r \<and> dl_writing (flush_pass r s) = [] \<and> dl_queue (flush_pass r s) = []) \<or>
    (dl_phase (flush_pass r s) = Flushing r \<and> length (dl_writing (flush_pass r s)) = 1)"
  by (auto simp: flush_pass_def begin_write_def split: list.splits)

lemma session_okI:
  assumes "session_ok rv es s" and "\<not> in_handshake (dl_phase s')" and "outbox (es @ [e]) = outbox es @ ms"
    and "(\<not> failed_write e \<and> line s' = line s @ ms) \<or>
      (failed_write e \<and> ms = [] \<and> (\<exists>a m b. line s = a @ [m] @ b \<and> line s' = a @ b))"
    and "dl_calls s' = OnConnected # handed (es @ [e]) @ (if over (dl_phase s') then [OnDisconnected] else [])"
    and "take 1 (dl_sent s') = take 1 (dl_sent s)"
    and "\<And>i. dl_phase s' = Serving i \<Longrightarrow> fst (sunk (es @ [e])) = Some i"
    and "length (dl_writing s') = (if writing_phase (dl_phase s') then 1 else 0)"
    and "\<And>r. dl_phase s' = Finished r \<Longrightarrow> dl_queue s' = []"
  shows "session_ok rv (es @ [e]) s'"
proof -
  note ok = session_okD [OF assms(1), folded line_def]
  have "subseq (line s') (Welcome PROTOCOL_VERSION rv # outbox (es @ [e])) \<and>
      length (line s') + lost_writes (es @ [e]) = 1 + length (outbox (es @ [e]))"
    using assms(4)
  proof
    assume "\<not> failed_write e \<and> line s' = line s @ ms"
    then show ?thesis using ok(5,6) assms(3) by (simp add: lost_writes_snoc list_emb_append_mono flip: append_Cons)
  next
    assume "failed_write e \<and> ms = [] \<and> (\<exists>a m b. line s = a @ [m] @ b \<and> line s' = a @ b)"
    then obtain a m b where "failed_write e" "ms = []" "line s = a @ [m] @ b" "line s' = a @ b" by blast
    then show ?thesis using ok(5,6) assms(3) subseq_drop_middle [of a "[m]" b] by (simp add: lost_writes_snoc)
  qed
  then show ?thesis
    using assms ok(7) admitted_append [OF ok(1)] by (simp add: session_ok_def line_def)
qed

lemma end_write_line:
  assumes "length (dl_writing s) = 1"
  shows "\<exists>a m b. line s = a @ [m] @ b \<and> line (end_write (Some x) s) = a @ b"
proof -
  from assms obtain m where "dl_writing s = [m]" by (cases "dl_writing s") auto
  then show ?thesis by (auto simp: line_def end_write_def)
qed

lemma take_1_append: "take 1 xs = [y] \<Longrightarrow> take 1 (xs @ zs) = [y]"
  by (cases xs) auto

lemma end_write_sent: "take 1 (dl_sent s) = [m] \<Longrightarrow> take 1 (dl_sent (end_write io s)) = take 1 (dl_sent s)"
  by (cases io; cases "dl_sent s") (auto simp: end_write_def)

lemma outbox_snoc: "es \<noteq> [] \<Longrightarrow> outbox (es @ [e]) = snd (sink_step (sunk es) e)"
  by (simp add: outbox_def sunk_snoc)

text \<open>The operations that begin a new round.\<close>

lemma session_drain:
  assumes "session_ok rv es s" and "\<not> over (dl_phase s)" and "dl_writing s1 = []" and "dl_calls s1 = dl_calls s"
    and "handed [e] = []" and "take 1 (dl_sent s1) = take 1 (dl_sent s)" and "outbox (es @ [e]) = outbox es @ ms"
    and "line s1 = line s @ ms" and "\<not> failed_write e"
  shows "session_ok rv (es @ [e]) (drain_pass n s1)"
proof (rule session_okI [OF assms(1) _ assms(7)])
  note ok = session_okD [OF assms(1)]
  note d = drain_pass_phase [OF assms(3), of n]
  show "\<not> in_handshake (dl_phase (drain_pass n s1))" using d by auto
  show "(\<not> failed_write e \<and> line (drain_pass n s1) = line s @ ms) \<or>
      (failed_write e \<and> ms = [] \<and> (\<exists>a m b. line s = a @ [m] @ b \<and> line (drain_pass n s1) = a @ b))"
    using assms by simp
  show "dl_calls (drain_pass n s1) = OnConnected # handed (es @ [e]) @ (if over (dl_phase (drain_pass n s1)) then [OnDisconnected] else [])"
    using d ok(4) assms by (auto simp: handed_append)
  show "length (dl_writing (drain_pass n s1)) = (if writing_phase (dl_phase (drain_pass n s1)) then 1 else 0)" using d by auto
qed (use assms drain_pass_phase [OF assms(3), of n] in auto)

lemma session_leave:
  assumes "session_ok rv es s" and "\<not> over (dl_phase s)" and "dl_writing s1 = []" and "dl_calls s1 = dl_calls s"
    and "handed [e] = []" and "take 1 (dl_sent s1) = take 1 (dl_sent s)" and "outbox (es @ [e]) = outbox es @ ms"
    and "(\<not> failed_write e \<and> line s1 = line s @ ms) \<or>
      (failed_write e \<and> ms = [] \<and> (\<exists>a m b. line s = a @ [m] @ b \<and> line s1 = a @ b))"
  shows "session_ok rv (es @ [e]) (leave_loop r s1)"
proof (rule session_okI [OF assms(1) _ assms(7)])
  note ok = session_okD [OF assms(1)]
  show "(\<not> failed_write e \<and> line (leave_loop r s1) = line s @ ms) \<or>
      (failed_write e \<and> ms = [] \<and> (\<exists>a m b. line s = a @ [m] @ b \<and> line (leave_loop r s1) = a @ b))"
    using assms(8) by (simp add: leave_loop_def)
  show "dl_calls (leave_loop r s1) = OnConnected # handed (es @ [e]) @ (if over (dl_phase (leave_loop r s1)) then [OnDisconnected] else [])"
    using ok(4) assms by (auto simp: handed_append leave_loop_def call_handler_def)
qed (use assms in \<open>auto simp: leave_loop_def call_handler_def\<close>)

lemma session_flush:
  assumes "session_ok rv es s" and "over (dl_phase s)" and "dl_writing s1 = []" and "dl_calls s1 = dl_calls s"
    and "handed [e] = []" and "take 1 (dl_sent s1) = take 1 (dl_sent s)" and "outbox (es @ [e]) = outbox es"
    and "(\<not> failed_write e \<and> line s1 = line s) \<or> (failed_write e \<and> (\<exists>a m b. line s = a @ [m] @ b \<and> line s1 = a @ b))"
  shows "session_ok rv (es @ [e]) (flush_pass r s1)"
proof (rule session_okI [OF assms(1), where ms = "[]"])
  note ok = session_okD [OF assms(1)]
  note d = flush_pass_phase [OF assms(3), of r]
  show "\<not> in_handshake (dl_phase (flush_pass r s1))" using d by auto
  show "(\<not> failed_write e \<and> line (flush_pass r s1) = line s @ []) \<or>
      (failed_write e \<and> [] = ([] :: runtime_to_client list) \<and> (\<exists>a m b. line s = a @ [m] @ b \<and> line (flush_pass r s1) = a @ b))"
    using assms(8) assms(3) by simp
  show "dl_calls (flush_pass r s1) = OnConnected # handed (es @ [e]) @ (if over (dl_phase (flush_pass r s1)) then [OnDisconnected] else [])"
    using d ok(4) assms by (auto simp: handed_append)
  show "length (dl_writing (flush_pass r s1)) = (if writing_phase (dl_phase (flush_pass r s1)) then 1 else 0)" using d by auto
qed (use assms flush_pass_phase [OF assms(3), of r] in auto)

text \<open>A write has one message on its way; every other phase has none.\<close>

lemma session_writing:
  assumes "session_ok rv es s"
  shows "\<not> writing_phase (dl_phase s) \<Longrightarrow> dl_writing s = []" "writing_phase (dl_phase s) \<Longrightarrow> length (dl_writing s) = 1"
  using session_okD(9) [OF assms] by auto

lemma write_line:
  assumes "length (dl_writing s) = 1"
  shows "(\<not> failed_write (WriteEnded io) \<and> line (end_write io s) = line s @ []) \<or>
    (failed_write (WriteEnded io) \<and> [] = ([] :: runtime_to_client list) \<and> (\<exists>a m b. line s = a @ [m] @ b \<and> line (end_write io s) = a @ b))"
  using end_write_line [OF assms] by (cases io) auto

lemma session_written:
  assumes ok: "session_ok rv es s" and step: "dispatch_step T rv (WriteEnded io) s = Some s'"
  shows "session_ok rv (es @ [WriteEnded io]) s'"
proof -
  note okD = session_okD [OF ok]
  have out: "outbox (es @ [WriteEnded io]) = outbox es @ []"
    using okD(3) by (simp add: outbox_snoc sink_step_def) (simp add: outbox_def)
  note sent = end_write_sent [OF okD(7), of io]
  note w = session_writing(2) [OF ok]
  show ?thesis
  proof (cases "dl_phase s")
    case (Draining n)
    show ?thesis
    proof (cases io)
      case None
      then have s': "s' = drain_pass (n + 1) (end_write None s)" using step Draining by (simp add: drained_one_def)
      show ?thesis unfolding s'
        by (rule session_drain [OF ok, where ms = "[]"]) (use Draining None out sent in auto)
    next
      case (Some x)
      then have s': "s' = (end_write (Some x) s)\<lparr>dl_phase := Selecting\<rparr>" using step Draining by (simp add: drained_one_def)
      show ?thesis unfolding s'
        by (rule session_okI [OF ok _ out])
          (use Draining Some sent okD(4) write_line [OF w, of io] in \<open>auto simp: handed_append\<close>)
    qed
  next
    case Sending
    show ?thesis
    proof (cases io)
      case None
      then have s': "s' = drain_pass 0 (end_write None s)" using step Sending by (simp add: sent_one_def)
      show ?thesis unfolding s'
        by (rule session_drain [OF ok, where ms = "[]"]) (use Sending None out sent in auto)
    next
      case (Some x)
      then have s': "s' = leave_loop (Inl (TransportFailed x)) (end_write io s)" using step Sending by (simp add: sent_one_def)
      show ?thesis unfolding s'
        by (rule session_leave [OF ok _ _ _ _ _ out write_line]) (use Sending w sent in auto)
    qed
  next
    case (Flushing r)
    then have s': "s' = flush_pass r (end_write io s)" using step by simp
    show ?thesis unfolding s'
      by (rule session_flush [OF ok]) (use Flushing sent out write_line [OF w, of io] in auto)
  qed (use okD(2) step in auto)
qed

lemma session_received:
  assumes ok: "session_ok rv es s" and step: "dispatch_step T rv (Received t r) s = Some s'"
  shows "session_ok rv (es @ [Received t r]) s'"
proof -
  note okD = session_okD [OF ok]
  from step okD(2) have sel: "dl_phase s = Selecting" and s': "s' = select_inbound T t r s" by (cases "dl_phase s"; simp)+
  note w = session_writing(1) [OF ok, unfolded sel, simplified]
  note ne = okD(3)
  show ?thesis
  proof (cases r)
    case (Inl e)
    have "outbox (es @ [Received t r]) = outbox es @ []" using ne Inl by (simp add: outbox_snoc sink_step_def) (simp add: outbox_def)
    from session_leave [OF ok _ w refl _ refl this] show ?thesis
      using Inl sel by (simp add: s' select_inbound_def)
  next
    case (Inr m)
    show ?thesis
    proof (cases m)
      case (Hello v n x)
      have "outbox (es @ [Received t r]) = outbox es @ [Goodbye ProtocolViolation ''Hello sent twice'']"
        using ne Inr Hello by (simp add: outbox_snoc sink_step_def) (simp add: outbox_def)
      from session_leave [OF ok _ _ _ _ _ this, of "enqueue (Goodbye ProtocolViolation ''Hello sent twice'') s"] show ?thesis
        using Inr Hello sel w by (simp add: s' select_inbound_def del: sunk_snoc)
    next
      case (ControlCall i rq)
      have "outbox (es @ [Received t r]) = outbox es @ []"
        using ne Inr ControlCall by (simp add: outbox_snoc sink_step_def) (simp add: outbox_def)
      then show ?thesis unfolding s'
        by (rule session_okI [OF ok, rotated])
          (use Inr ControlCall sel w okD(4) ne in \<open>auto simp: select_inbound_def call_handler_def line_def handed_append sunk_snoc sink_step_def\<close>)
    next
      case (CapabilityReply i rp)
      have "outbox (es @ [Received t r]) = outbox es @ []"
        using ne Inr CapabilityReply by (simp add: outbox_snoc sink_step_def) (simp add: outbox_def)
      then show ?thesis unfolding s'
        by (rule session_okI [OF ok, rotated])
          (use Inr CapabilityReply sel w okD(4) in \<open>auto simp: select_inbound_def call_handler_def line_def handed_append\<close>)
    next
      case Pong
      have "outbox (es @ [Received t r]) = outbox es @ []"
        using ne Inr Pong by (simp add: outbox_snoc sink_step_def) (simp add: outbox_def)
      from session_drain [OF ok _ _ _ _ _ this, of "s\<lparr>dl_deadline := after_reset T t\<rparr>"] show ?thesis
        using Inr Pong sel w by (simp add: s' select_inbound_def)
    qed
  qed
qed

lemma session_other:
  assumes ok: "session_ok rv es s" and step: "dispatch_step T rv e s = Some s'"
    and e: "e = ChooseOutbound \<or> e = Tick t \<or> e = Returned rp \<or> e = Done t \<or> e = Pushed m"
  shows "session_ok rv (es @ [e]) s'"
proof -
  note okD = session_okD [OF ok]
  note out = outbox_snoc [OF okD(3)]
  note w = session_writing(1) [OF ok]
  from e consider "e = ChooseOutbound" | "e = Tick t" | "e = Returned rp" | "e = Done t" | "e = Pushed m" by blast
  then show ?thesis
  proof cases
    case 1
    with step have sel: "dl_phase s = Selecting" by (cases "dl_phase s") auto
    with step 1 obtain m q where q: "dl_queue s = m # q" "s' = begin_write m Sending (s\<lparr>dl_queue := q\<rparr>)"
      by (auto simp: select_outbound_def split: list.splits)
    show ?thesis
      by (rule session_okI [OF ok, where ms = "[]"])
        (use 1 q sel w okD(4) out in \<open>auto simp: begin_write_def line_def handed_append sink_step_def outbox_def\<close>)
  next
    case 2
    with step have sel: "dl_phase s = Selecting" by (cases "dl_phase s") auto
    with step 2 have s': "s' = drain_pass 0 (enqueue Ping (s\<lparr>dl_deadline := after_tick T (dl_deadline s) t\<rparr>))"
      by (auto simp: select_tick_def split: if_splits)
    have "outbox (es @ [e]) = outbox es @ [Ping]" using out 2 by (simp add: sink_step_def outbox_def)
    from session_drain [OF ok _ _ _ _ _ this, of "enqueue Ping (s\<lparr>dl_deadline := after_tick T (dl_deadline s) t\<rparr>)"] show ?thesis
      using sel w 2 by (simp add: s')
  next
    case 3
    with step obtain i where sv: "dl_phase s = Serving i" "s' = served i rp s" by (cases "dl_phase s") auto
    have "outbox (es @ [e]) = outbox es @ [ControlReply i rp]" using out 3 okD(8) [OF sv(1)] by (simp add: sink_step_def outbox_def)
    from session_drain [OF ok _ _ _ _ _ this, of "enqueue (ControlReply i rp) s"] show ?thesis
      using sv w 3 by (simp add: served_def)
  next
    case 4
    have o0: "outbox (es @ [e]) = outbox es @ []" using out 4 by (simp add: sink_step_def outbox_def)
    from step 4 okD(2) consider "dl_phase s = Delivering" "s' = drain_pass 0 s"
      | "dl_phase s = Connecting" "s' = drain_pass 0 (s\<lparr>dl_deadline := after_reset T t\<rparr>)"
      | r where "dl_phase s = Leaving r" "s' = flush_pass r s"
      by (cases "dl_phase s") auto
    then show ?thesis
    proof cases
      case 1
      from session_drain [OF ok _ _ _ _ _ o0, of s] show ?thesis using 1 4 w by simp
    next
      case 2
      from session_drain [OF ok _ _ _ _ _ o0, of "s\<lparr>dl_deadline := after_reset T t\<rparr>"] show ?thesis using 2 4 w by simp
    next
      case (3 r)
      from session_flush [OF ok, of s e r] show ?thesis using 3 4 w o0 by simp
    qed
  next
    case 5
    from step 5 okD(2) have s': "s' = enqueue m s" "\<forall>r. dl_phase s \<noteq> Finished r" by (cases "dl_phase s"; auto)+
    have o1: "outbox (es @ [e]) = outbox es @ [m]" using out 5 by (simp add: sink_step_def outbox_def)
    show ?thesis
      by (rule session_okI [OF ok _ o1])
        (use 5 s' okD(2,4,8,9) sunk_snoc [OF okD(3)] in \<open>auto simp: handed_append sink_step_def\<close>)
  qed
qed

lemma session_step:
  assumes "session_ok rv es s" and "dispatch_step T rv e s = Some s'"
  shows "session_ok rv (es @ [e]) s'"
  using assms session_received session_written session_other by (cases e) metis+

lemma loop_reach_ok: "loop_reach T rv es s \<Longrightarrow> handshake_ok rv es s \<or> session_ok rv es s"
proof (induction rule: loop_reach.induct)
  case loop_start
  then show ?case by (simp add: handshake_ok_def new_loop_def)
next
  case (loop_step es s e s')
  then show ?case using handshake_step session_step by blast
qed

lemma handshake_not_admitted: "handshake_ok rv es s \<Longrightarrow> \<not> admitted es"
proof
  assume h: "handshake_ok rv es s" and a: "admitted es"
  from a obtain t v n x es' where es: "es = Received t (Inr (Hello v n x)) # WriteEnded None # es'"
    by (cases es rule: admitted.cases) auto
  from h admitted_append [OF a, of "[]"] a es show False
    by (cases "dl_phase s") (auto simp: handshake_ok_def split: loop_phase.splits)
qed

lemma session_iff: "loop_reach T rv es s \<Longrightarrow> session_ok rv es s \<longleftrightarrow> admitted es"
  using loop_reach_ok handshake_not_admitted session_okD(1) by blast

lemma session_reach: "loop_reach T rv es s \<Longrightarrow> admitted es \<Longrightarrow> session_ok rv es s"
  by (simp add: session_iff)

lemma handshake_reach: "loop_reach T rv es s \<Longrightarrow> \<not> admitted es \<Longrightarrow> handshake_ok rv es s"
  using loop_reach_ok session_iff by blast

section \<open>Requests and replies\<close>

fun reply_ids :: "runtime_to_client list \<Rightarrow> correlation_id list" where
  "reply_ids [] = []"
| "reply_ids (ControlReply i _ # ms) = i # reply_ids ms"
| "reply_ids (_ # ms) = reply_ids ms"

fun asked_ids :: "handler_call list \<Rightarrow> correlation_id list" where
  "asked_ids [] = []"
| "asked_ids (HandleControl i _ # ks) = i # asked_ids ks"
| "asked_ids (_ # ks) = asked_ids ks"

definition only_loop_replies :: "dispatch_event list \<Rightarrow> bool" where
  "only_loop_replies es \<longleftrightarrow> list_all (\<lambda>e. case e of Pushed m \<Rightarrow> reply_ids [m] = [] | _ \<Rightarrow> True) es"

lemma reply_ids_append [simp]: "reply_ids (a @ b) = reply_ids a @ reply_ids b"
  by (induction a rule: reply_ids.induct) auto

lemma asked_ids_append [simp]: "asked_ids (a @ b) = asked_ids a @ asked_ids b"
  by (induction a rule: asked_ids.induct) auto

lemma reply_ids_subseq: "subseq a b \<Longrightarrow> subseq (reply_ids a) (reply_ids b)"
proof (induction rule: list_emb.induct)
  case (list_emb_Cons xs ys y)
  then show ?case by (cases y) auto
next
  case (list_emb_Cons2 x y xs ys)
  then show ?case by (cases y) auto
qed simp

fun serving :: "loop_phase \<Rightarrow> correlation_id option" where
  "serving (Serving i) = Some i"
| "serving _ = None"

lemma passes_serve_nothing [simp]: "serving (dl_phase (drain_pass n s)) = None" "serving (dl_phase (flush_pass r s)) = None"
  by (auto simp: drain_pass_def flush_pass_def begin_write_def split: list.splits)

lemma serving_step:
  assumes "session_ok rv es s" and "dispatch_step T rv e s = Some s'" and "fst (sunk es) = serving (dl_phase s)"
  shows "fst (sunk (es @ [e])) = serving (dl_phase s')"
proof -
  note ok = session_okD(2,3) [OF assms(1)]
  from assms(2,3) ok show ?thesis
    by (cases e; cases "dl_phase s")
      (auto simp: sunk_snoc sink_step_def drained_one_def sent_one_def leave_loop_def call_handler_def select_inbound_def select_outbound_def
        select_tick_def served_def begin_write_def split: option.splits list.splits if_splits sum.splits client_to_runtime.splits)
qed

lemma replies_step:
  assumes "session_ok rv es s" and "dispatch_step T rv e s = Some s'" and "fst (sunk es) = serving (dl_phase s)"
    and "reply_ids (outbox es) @ (case serving (dl_phase s) of Some i \<Rightarrow> [i] | None \<Rightarrow> []) = asked_ids (handed es)"
    and "only_loop_replies [e]"
  shows "reply_ids (outbox (es @ [e])) @ (case serving (dl_phase s') of Some i \<Rightarrow> [i] | None \<Rightarrow> []) = asked_ids (handed (es @ [e]))"
proof -
  note ok = session_okD(2,3) [OF assms(1)]
  from assms(2-) ok show ?thesis
    by (cases e; cases "dl_phase s")
      (auto simp: outbox_def sunk_snoc sink_step_def drained_one_def sent_one_def leave_loop_def call_handler_def select_inbound_def select_outbound_def
        select_tick_def served_def begin_write_def handed_append only_loop_replies_def
        split: option.splits list.splits if_splits sum.splits client_to_runtime.splits)
qed

lemma admitted_prefix: "admitted (es @ [e]) \<Longrightarrow> \<not> admitted es \<Longrightarrow> \<exists>t v n x. es = [Received t (Inr (Hello v n x))] \<and> e = WriteEnded None"
  by (cases "es @ [e]" rule: admitted.cases) (auto simp: append_eq_Cons_conv Cons_eq_append_conv)

lemma replies_asked:
  assumes "loop_reach T rv es s" and "admitted es" and "only_loop_replies es"
  shows "fst (sunk es) = serving (dl_phase s) \<and>
    reply_ids (outbox es) @ (case serving (dl_phase s) of Some i \<Rightarrow> [i] | None \<Rightarrow> []) = asked_ids (handed es)"
  using assms
proof (induction rule: loop_reach.induct)
  case (loop_step es s e s')
  have r: "only_loop_replies es" "only_loop_replies [e]" using loop_step.prems(2) by (simp_all add: only_loop_replies_def)
  show ?case
  proof (cases "admitted es")
    case True
    note ok = session_reach [OF loop_step.hyps(1) True]
    note ih = loop_step.IH [OF True r(1)]
    from serving_step [OF ok loop_step.hyps(2)] replies_step [OF ok loop_step.hyps(2) _ _ r(2)] ih show ?thesis by blast
  next
    case False
    from admitted_prefix [OF loop_step.prems(1) False] obtain t v n x
      where es: "es = [Received t (Inr (Hello v n x))]" "e = WriteEnded None" by blast
    from handshake_reach [OF loop_step.hyps(1) False] loop_step.hyps(2) es show ?thesis
      by (cases "dl_phase s") (auto simp: handshake_ok_def welcomed_def call_handler_def outbox_def sunk_def sink_step_def)
  qed
qed simp

end
