(* ===== verification/HandlerProps.thy ===== *)
theory HandlerProps
  imports HandlersLogic FlowHandlers ProtocolLogic
begin

text \<open>The properties of the handler of the control requests, alone and behind the loop that serves the host.\<close>

section \<open>Events on the wire\<close>

fun pushed_of :: "dispatch_event list \<Rightarrow> runtime_to_client list" where
  "pushed_of [] = []"
| "pushed_of (Pushed m # es) = m # pushed_of es"
| "pushed_of (_ # es) = pushed_of es"

lemma pushed_of_append [simp]: "pushed_of (a @ b) = pushed_of a @ pushed_of b"
  by (induction a rule: pushed_of.induct) auto

lemma events_for_pushed: "events_for i (pushed_of (es @ [e])) = events_for i (pushed_of es) @ events_for i (pushed_of [e])"
  by simp

lemma sink_step_events: "events_for i (snd (sink_step co e)) = events_for i (snd co) @ events_for i (pushed_of [e])"
  by (cases e) (auto simp: sink_step_def split: sum.split client_to_runtime.split option.split)

lemma sunk_events: "events_for i (snd (foldl sink_step co es)) = events_for i (snd co) @ events_for i (pushed_of es)"
proof (induction es arbitrary: co)
  case (Cons e es)
  show ?case using Cons.IH [of "sink_step co e"] sink_step_events [of i co e] pushed_of_append [of "[e]" es] by simp
qed simp

lemma outbox_events: "admitted es \<Longrightarrow> events_for i (outbox es) = events_for i (pushed_of es)"
  by (cases es rule: admitted.cases) (auto simp: outbox_def sunk_def sunk_events sink_step_def)

text \<open>
  (C32) A session that is over and lost no write has told the host, of each of its subscriptions, events numbered
  0, 1, 2, \<dots> without a gap or a repetition, whatever the other tasks, requests and reconnections did meanwhile.
\<close>

theorem host_reads_numbered_events:
  assumes "handler_reach A V a h" and "loop_reach T rv es s" and "admitted es" and "dl_phase s = Finished r" and "lost_writes es = 0"
    and "pushed_of es = rh_pushed h"
  shows "map sequence (events_for i (dl_sent s)) = map of_nat [0..<length (events_for i (dl_sent s))]"
proof -
  have "dl_sent s = Welcome PROTOCOL_VERSION rv # outbox es"
  proof (rule subseq_same_length)
    note ok = session_okD [OF session_reach [OF assms(2,3)]]
    from ok(9) assms(4) have "dl_writing s = []" by simp
    with ok(5,6) ok(10) [OF assms(4)] assms(5)
    show "subseq (dl_sent s) (Welcome PROTOCOL_VERSION rv # outbox es)" "length (dl_sent s) = length (Welcome PROTOCOL_VERSION rv # outbox es)"
      by simp_all
  qed
  then have "events_for i (dl_sent s) = events_for i (rh_pushed h)"
    using outbox_events [OF assms(3)] assms(6) by simp
  then show ?thesis using fanout_okD(2) [OF handler_reach_ok [OF assms(1)]] by (simp add: numbered_events_def)
qed

definition demo_handler_env :: "unit handler_env" where
  "demo_handler_env = \<lparr>hv_parse_uuid = (\<lambda>s. if s = ''1'' then Some 1 else None), hv_show_error = (\<lambda>_. ''e''), hv_debug_text = (\<lambda>s. s),
     hv_run_json = (\<lambda>_. None), hv_review_json = (\<lambda>_. None), hv_message_json = (\<lambda>_. None)\<rparr>"

definition demo_auth_env :: "(unit, unit) auth_env" where
  "demo_auth_env = \<lparr>env_load = (\<lambda>_. Inl ()), env_save = (\<lambda>_ _. (None, ())), env_disp = (\<lambda>_. ''1'')\<rparr>"

definition demo_authority :: "unit authority" where
  "demo_authority = fresh_authority default_snapshot ()"

definition demo_event :: runtime_event where
  "demo_event = \<lparr>sequence = 0, emitted_at_ms = 4, payload = EvLog LogInfo ''t'' ''m''\<rparr>"

definition demo_subscribed :: "unit runtime_handler" where
  "demo_subscribed = \<lparr>rh_authority = demo_authority\<lparr>subs := [(UuidNewtype 8, \<lparr>sub_topic = ''*'', sub_sent = [demo_event], rx_alive = True, next_seq = 1\<rparr>)]\<rparr>,
     rh_sink = True, rh_fanout = [(UuidNewtype 8, \<lparr>ft_carried = 1, ft_running = True\<rparr>)], rh_pending = [], rh_waits = [],
     rh_pushed = [EventMessage (UuidNewtype 8) demo_event]\<rparr>"

lemma demo_subscribed_reach: "handler_reach demo_auth_env demo_handler_env demo_authority demo_subscribed"
proof (rule handler_run_reach)
  show "handler_reach demo_auth_env demo_handler_env demo_authority (new_handler demo_authority)"
    by (rule handler_start) (simp add: demo_authority_def fresh_authority_def)
  show "handler_run demo_auth_env demo_handler_env
      [Connected, OnSubscribe (UuidNewtype 8) ''*'', ByOthers (OpEmitLog 4 ''t'' LogInfo ''m''), Carry True (UuidNewtype 8)]
      (new_handler demo_authority) = Some demo_subscribed"
    by (simp add: new_handler_def on_connected_def unused_id_def handle_subscribe_def start_fanout_def subscribe_def
        demo_authority_def fresh_authority_def new_subscription_def emit_log_def emit_on_def emit_locked_def sub_matches_def
        deliver_def carry_event_def push_message_def demo_subscribed_def demo_event_def)
qed

definition demo_told :: "dispatch_event list" where
  "demo_told = [Received 0 (Inr (Hello (protocol_version_new 0 1 0) ''host'' ''1'')), WriteEnded None, Done 0,
     Received 3 (Inr (ControlCall (UuidNewtype 2) (Subscribe ''*''))), Pushed (EventMessage (UuidNewtype 8) demo_event),
     Returned (Subscribed (UuidNewtype 8)), WriteEnded None, WriteEnded None, Received 9 (Inl transport_error.Closed), Done 9]"

definition demo_timing :: dispatch_timer where
  "demo_timing = \<lparr>after_tick = (\<lambda>d now. d + 90000), after_reset = (\<lambda>now. now + 90000)\<rparr>"

definition demo_told_end :: dispatch_loop where
  "demo_told_end = \<lparr>dl_phase = Finished (Inr ()), dl_queue = [], dl_writing = [],
     dl_sent = [Welcome PROTOCOL_VERSION ''v'', EventMessage (UuidNewtype 8) demo_event, ControlReply (UuidNewtype 2) (Subscribed (UuidNewtype 8))],
     dl_calls = [OnConnected, HandleControl (UuidNewtype 2) (Subscribe ''*''), OnDisconnected], dl_deadline = 90000\<rparr>"

lemma demo_told_reach: "loop_reach demo_timing ''v'' demo_told demo_told_end"
  by (rule loop_reach_from_run)
    (simp add: demo_told_def demo_told_end_def demo_timing_def new_loop_def loop_op_defs DRAIN_LIMIT_def is_compatible_with_def
      protocol_version_new_def PROTOCOL_VERSION_def)

theorem host_reads_numbered_events_witness:
  "map sequence (events_for (UuidNewtype 8) (dl_sent demo_told_end)) = [0] \<and> length (events_for (UuidNewtype 8) (dl_sent demo_told_end)) = 1"
  using host_reads_numbered_events [OF demo_subscribed_reach demo_told_reach, of "Inr ()" "UuidNewtype 8"]
  by (simp add: demo_told_def demo_told_end_def demo_subscribed_def lost_writes_def is_compatible_with_def protocol_version_new_def PROTOCOL_VERSION_def)

end
