(* ===== verification/FlowHandlerProps.thy ===== *)
theory FlowHandlerProps
  imports HandlerProps FlowProps
begin

text \<open>The properties of the requests about runs, reviews and flow runs.\<close>

section \<open>Decisions about reviews\<close>

lemma resolve_via_authority_runtime:
  "resolve_via_authority A V now ms rid i vw d notes h = (resp, h') \<Longrightarrow>
     h' = h\<lparr>rh_authority := snd (resolve_review A now ms i vw (permission_of d) notes (rh_authority h))\<rparr>"
  by (auto simp: resolve_via_authority_def on_authority_def split: prod.splits sum.splits)

lemma review_target_parses:
  "review_target V rid vid a = Inr (i, vw) \<Longrightarrow> \<exists>u. hv_parse_uuid V vid = Some u"
  by (auto simp: review_target_def parse_review_def parse_with_def Let_def split: sum.splits option.splits)

text \<open>
  (C34) A decision about a document of a flow, named by its agent and its port, does nothing at all: a review must
  be named by a UUID before the flow is asked, and such a name is none. The flow runtime gets no job from
  \<^verbatim>\<open>resolve_review\<close>, unless the name is the urn form of a UUID.
\<close>

theorem decisions_never_reach_flows:
  assumes "\<And>s u. hv_parse_uuid V s = Some u \<Longrightarrow> CHR '':'' \<in> set s \<Longrightarrow> take 4 s = ''urn:''" and "take 4 vid \<noteq> ''urn:''"
    and "handle_resolve_review A V now ms rid vid d notes h = (resp, h')"
  shows "fh_jobs h' = fh_jobs h \<and> fh_flows h' = fh_flows h \<and> (CHR '':'' \<in> set vid \<longrightarrow> h' = h \<and> (\<exists>e. resp = ErrResponse e))"
proof (cases "review_target V rid vid (rh_authority (fh_runtime h))")
  case (Inl r)
  moreover have "\<exists>e. r = ErrResponse e"
    using Inl by (auto simp: review_target_def parse_review_def parse_run_def parse_with_def Let_def split: sum.splits option.splits if_splits)
  ultimately show ?thesis using assms(3) by (simp add: handle_resolve_review_def)
next
  case (Inr p)
  obtain i vw where p: "p = (i, vw)" by force
  have nocolon: "CHR '':'' \<notin> set vid" using review_target_parses [OF Inr [unfolded p]] assms(1,2) by blast
  then have "resolve_jobs vid d c = []" for c by (simp add: resolve_jobs_def split_colon_def)
  with assms(3) nocolon Inr p show ?thesis
    by (auto simp: handle_resolve_review_def split: option.splits prod.splits)
qed

lemma mark_running_reviews:
  "mark_run_running A now ms i a = (res, a') \<Longrightarrow> reviews (snap a') = reviews (snap a)"
  by (auto simp: mark_run_running_def mark_running_commit_def transition_run_def persist_then_def persist_def upd_run_def auth_simps Let_def
      split: sum.splits option.splits if_splits prod.splits)

text \<open>
  (C33) A resumed run was paused or waited for a review, is none of an extension, and could be saved as running;
  the host gets a new subscription to its events and a loop is started with its saved settings. In every other
  case no loop is started. A review that the run waits for stays open beside the new loop.
\<close>

theorem resume_starts_a_loop:
  assumes "handle_resume_run A V now ms k roots tmp lbl rid h = ((resp, job), h')"
  shows "(job = Some cfg \<longleftrightarrow>
      (\<exists>u r. hv_parse_uuid V rid = Some u \<and> Authority.get_run (rh_authority h) (UuidNewtype u) = Some r \<and>
        run_status r \<in> {run_status.Paused, run_status.AwaitingReview} \<and> \<not> is_extension_run r \<and>
        fst (mark_run_running A now ms (UuidNewtype u) (rh_authority h)) = Inr () \<and>
        cfg = resume_settings_of A roots tmp r \<and> resp = control_response.RunStarted rid k \<and>
        map_of (subs (rh_authority h')) k \<noteq> None)) \<and>
    reviews (snap (rh_authority h')) = reviews (snap (rh_authority h))"
proof (rule conjI)
  show "job = Some cfg \<longleftrightarrow>
      (\<exists>u r. hv_parse_uuid V rid = Some u \<and> Authority.get_run (rh_authority h) (UuidNewtype u) = Some r \<and>
        run_status r \<in> {run_status.Paused, run_status.AwaitingReview} \<and> \<not> is_extension_run r \<and>
        fst (mark_run_running A now ms (UuidNewtype u) (rh_authority h)) = Inr () \<and>
        cfg = resume_settings_of A roots tmp r \<and> resp = control_response.RunStarted rid k \<and>
        map_of (subs (rh_authority h')) k \<noteq> None)"
    using assms by (auto simp: handle_resume_run_def parse_run_def parse_with_def on_authority_def Let_def start_fanout_def subscribe_def
      drop_receiver_def store_simps split: sum.splits option.splits prod.splits if_splits)
  show "reviews (snap (rh_authority h')) = reviews (snap (rh_authority h))"
    using assms by (auto simp: handle_resume_run_def on_authority_def Let_def start_fanout_def subscribe_def drop_receiver_def
      dest: mark_running_reviews split: sum.splits option.splits prod.splits if_splits)
qed

section \<open>Changes requested after a restart\<close>

text \<open>The requests about the flow runs of a workspace, and the jobs they start, one after the other.\<close>

datatype flow_op_request =
  AskApprove flow_review_request
| AskChanges int flow_review_request "json list"
| AskResolve int "nat \<Rightarrow> int" string string review_decision "string option"
| AskInject string string string
| RunJob int nat
| Signal run_context submitted

fun serve_flow_op ::
    "('p, 'e) auth_env \<Rightarrow> 'e handler_env \<Rightarrow> flow_handler_env \<Rightarrow> ('io, 'b) flow_env \<Rightarrow> flow_op_request \<Rightarrow> ('p, 'b) flow_handler
      \<Rightarrow> ('p, 'b) flow_handler" where
  "serve_flow_op A V F E (AskApprove q) h = snd (handle_flow_run_approve F q h)"
| "serve_flow_op A V F E (AskChanges ms q cs) h = snd (handle_flow_run_request_changes A F ms q cs h)"
| "serve_flow_op A V F E (AskResolve now ms rid vid d notes) h = snd (handle_resolve_review A V now ms rid vid d notes h)"
| "serve_flow_op A V F E (AskInject rid key content) h = snd (handle_blackboard_inject rid key content h)"
| "serve_flow_op A V F E (RunJob ms k) h = (if k < length (fh_jobs h) then run_job A F E ms (fh_jobs h ! k) h else h)"
| "serve_flow_op A V F E (Signal c evt) h = (if c \<in> fst ` set (fh_spawned h) then snd (signal_document F E c evt h) else h)"

fun job_context :: "flow_job \<Rightarrow> run_context" where
  "job_context (ApproveJob c _ _ _ _ _) = c"
| "job_context (ApproveRestoredJob c _ _ _ _) = c"
| "job_context (RequestChangesJob c _ _ _ _ _) = c"
| "job_context (ResolveApproveJob c _ _ _) = c"
| "job_context (ResolveRequeueJob c _ _ _) = c"

text \<open>No agent of the run is heard: what is known of the run has a channel without a receiver.\<close>

definition unheard :: "string \<Rightarrow> run_context \<Rightarrow> bool" where
  "unheard rid c \<longleftrightarrow> (rx_flow_run_id c = Some rid \<longrightarrow> \<not> rx_listening c)"

definition silenced :: "string \<Rightarrow> ('p, 'b) flow_handler \<Rightarrow> bool" where
  "silenced rid h \<longleftrightarrow> map_of (fh_contexts h) rid \<noteq> None \<and> (\<forall>c \<in> snd ` set (fh_contexts h). unheard rid c) \<and>
     (\<forall>j \<in> set (fh_jobs h). unheard rid (job_context j)) \<and> (\<forall>x \<in> set (fh_spawned h). unheard rid (fst x))"

lemma in_hm_put: "c \<in> snd ` set (hm_put k v m) \<Longrightarrow> c = v \<or> c \<in> snd ` set m"
proof (induction m)
  case (Cons p m)
  obtain x y where p: "p = (x, y)" by force
  show ?case
  proof (cases "k = x")
    case True
    then have "c = v \<or> c \<in> snd ` set m" using Cons.prems by (auto simp: p)
    then show ?thesis by auto
  next
    case False
    then have "c = y \<or> c \<in> snd ` set (hm_put k v m)" using Cons.prems by (auto simp: p)
    then show ?thesis using Cons.IH by (auto simp: p)
  qed
qed simp

lemma notify_chat_frame [simp]:
  "fh_contexts (notify_chat A ms kind msg who h) = fh_contexts h" "fh_jobs (notify_chat A ms kind msg who h) = fh_jobs h"
  "fh_spawned (notify_chat A ms kind msg who h) = fh_spawned h" "fh_flows (notify_chat A ms kind msg who h) = fh_flows h"
  by (auto simp: notify_chat_def split: option.split)

lemma restored_context_run: "restored_context F q l h = Some c \<Longrightarrow> rx_flow_run_id c = Some (fq_flow_run_id q) \<and> rx_listening c = l"
  by (auto simp: restored_context_def)

text \<open>What only adds contexts, jobs and agents of other runs, or of this one without a receiver, keeps a run silenced.\<close>

lemma silenced_mono:
  assumes "silenced rid h" and "map_of (fh_contexts h') rid \<noteq> None"
    and "\<And>c. c \<in> snd ` set (fh_contexts h') \<Longrightarrow> c \<in> snd ` set (fh_contexts h) \<or> unheard rid c"
    and "\<And>j. j \<in> set (fh_jobs h') \<Longrightarrow> j \<in> set (fh_jobs h) \<or> unheard rid (job_context j)"
    and "\<And>x. x \<in> set (fh_spawned h') \<Longrightarrow> x \<in> set (fh_spawned h) \<or> unheard rid (fst x)"
  shows "silenced rid h'"
  unfolding silenced_def
proof (intro conjI ballI)
  note old = assms(1) [unfolded silenced_def]
  show "map_of (fh_contexts h') rid \<noteq> None" by (rule assms(2))
  show "unheard rid c" if "c \<in> snd ` set (fh_contexts h')" for c using assms(3) [OF that] old by blast
  show "unheard rid (job_context j)" if "j \<in> set (fh_jobs h')" for j using assms(4) [OF that] old by blast
  show "unheard rid (fst x)" if "x \<in> set (fh_spawned h')" for x using assms(5) [OF that] old by blast
qed

lemma approve_cases:
  "snd (handle_flow_run_approve F q h) = h \<or>
    (\<exists>j. snd (handle_flow_run_approve F q h) = add_job j h \<and> map_of (fh_contexts h) (fq_flow_run_id q) = Some (job_context j)) \<or>
    (\<exists>j. snd (handle_flow_run_approve F q h) = add_job j (keep_context (fq_flow_run_id q) (job_context j) h) \<and>
       map_of (fh_contexts h) (fq_flow_run_id q) = None \<and> restored_context F q True h = Some (job_context j))"
proof (cases "flow_of_run F (fq_flow_run_id q) (fh_flows h)")
  case (Inr flow)
  show ?thesis
  proof (cases "map_of (fh_contexts h) (fq_flow_run_id q)")
    case (Some c)
    have "snd (handle_flow_run_approve F q h) = add_job (ApproveJob c (fq_flow_run_id q) (fq_node_id q) (fq_port q) flow
        (map_of (fh_agent_runs h) (fq_flow_run_id q))) h"
      using Inr Some by (simp add: handle_flow_run_approve_def Let_def)
    with Some show ?thesis by (metis job_context.simps(1))
  next
    case None
    show ?thesis
    proof (cases "restored_context F q True h")
      case (Some c)
      have "snd (handle_flow_run_approve F q h) = add_job (ApproveRestoredJob c (fq_flow_run_id q) (fq_node_id q) (fq_port q) flow)
          (keep_context (fq_flow_run_id q) c h)"
        using Inr Some None by (simp add: handle_flow_run_approve_def Let_def)
      with Some None show ?thesis by (metis job_context.simps(2))
    qed (use Inr None in \<open>simp add: handle_flow_run_approve_def Let_def\<close>)
  qed
qed (simp add: handle_flow_run_approve_def Let_def)

lemma changes_cases:
  "snd (handle_flow_run_request_changes A F ms q cs h) = h \<or>
    (\<exists>j m. snd (handle_flow_run_request_changes A F ms q cs h) = add_job j (notify_chat A ms ''info'' m (map_of (fh_agent_runs h) (fq_flow_run_id q)) h) \<and>
       map_of (fh_contexts h) (fq_flow_run_id q) = Some (job_context j)) \<or>
    (\<exists>j m. snd (handle_flow_run_request_changes A F ms q cs h) = add_job j
         (notify_chat A ms ''info'' m (map_of (fh_agent_runs h) (fq_flow_run_id q)) (keep_context (fq_flow_run_id q) (job_context j) h)) \<and>
       map_of (fh_contexts h) (fq_flow_run_id q) = None \<and> restored_context F q False h = Some (job_context j))"
proof (cases "flow_of_run F (fq_flow_run_id q) (fh_flows h)")
  case (Inr flow)
  define j where "j = (\<lambda>c. RequestChangesJob c (fq_flow_run_id q) (fq_node_id q) (fq_port q) flow (List.map_filter parse_comment cs))"
  have j: "job_context (j c) = c" for c by (simp add: j_def)
  show ?thesis
  proof (cases "map_of (fh_contexts h) (fq_flow_run_id q)")
    case (Some c)
    have "snd (handle_flow_run_request_changes A F ms q cs h) = add_job (j c)
        (notify_chat A ms ''info'' (changes_message (fq_port q) (fq_node_id q)) (map_of (fh_agent_runs h) (fq_flow_run_id q)) h)"
      using Inr Some by (simp add: handle_flow_run_request_changes_def Let_def j_def)
    with Some j show ?thesis by metis
  next
    case None
    show ?thesis
    proof (cases "restored_context F q False h")
      case (Some c)
      have "snd (handle_flow_run_request_changes A F ms q cs h) = add_job (j c)
          (notify_chat A ms ''info'' (changes_message (fq_port q) (fq_node_id q)) (map_of (fh_agent_runs h) (fq_flow_run_id q)) (keep_context (fq_flow_run_id q) c h))"
        using Inr Some None by (simp add: handle_flow_run_request_changes_def Let_def j_def)
      with Some None j show ?thesis by metis
    qed (use Inr None in \<open>simp add: handle_flow_run_request_changes_def Let_def\<close>)
  qed
qed (simp add: handle_flow_run_request_changes_def Let_def)

lemma silencedD:
  assumes "silenced rid h"
  shows "map_of (fh_contexts h) rid \<noteq> None" "map_of (fh_contexts h) k = Some c \<Longrightarrow> unheard rid c"
    "j \<in> set (fh_jobs h) \<Longrightarrow> unheard rid (job_context j)" "x \<in> set (fh_spawned h) \<Longrightarrow> unheard rid (fst x)"
  using assms by (force simp: silenced_def dest: map_of_SomeD)+

lemma silenced_add:
  assumes "silenced rid h" and "unheard rid (job_context j)"
  shows "silenced rid (add_job j h)" "silenced rid (add_job j (notify_chat A ms kind msg who h))"
    "silenced rid (add_job j (keep_context k (job_context j) h))"
    "silenced rid (add_job j (notify_chat A ms kind msg who (keep_context k (job_context j) h)))"
proof -
  have ctx: "c \<in> snd ` set (hm_put k (job_context j) (fh_contexts h)) \<Longrightarrow> c \<in> snd ` set (fh_contexts h) \<or> unheard rid c" for c
    using in_hm_put assms(2) by metis
  note rest = silencedD(1) [OF assms(1)] assms(2)
  show "silenced rid (add_job j h)" "silenced rid (add_job j (notify_chat A ms kind msg who h))"
    by (rule silenced_mono [OF assms(1)]; use rest in \<open>force simp: add_job_def\<close>)+
  show "silenced rid (add_job j (keep_context k (job_context j) h))"
    "silenced rid (add_job j (notify_chat A ms kind msg who (keep_context k (job_context j) h)))"
    by (rule silenced_mono [OF assms(1)]; use rest ctx in \<open>simp add: add_job_def keep_context_def store_simps; blast?\<close>)+
qed

lemma restored_unheard:
  "restored_context F q l h = Some c \<Longrightarrow> silenced rid h \<Longrightarrow> map_of (fh_contexts h) (fq_flow_run_id q) = None \<Longrightarrow> unheard rid c"
  using restored_context_run silencedD(1) by (fastforce simp: unheard_def)

lemma silenced_approve:
  assumes "silenced rid h"
  shows "silenced rid (snd (handle_flow_run_approve F q h))"
  using approve_cases [of F q h]
proof (elim disjE exE conjE)
  fix j assume "snd (handle_flow_run_approve F q h) = add_job j h" "map_of (fh_contexts h) (fq_flow_run_id q) = Some (job_context j)"
  then show ?thesis using silenced_add(1) [OF assms silencedD(2) [OF assms]] by simp
next
  fix j assume "snd (handle_flow_run_approve F q h) = add_job j (keep_context (fq_flow_run_id q) (job_context j) h)"
    "map_of (fh_contexts h) (fq_flow_run_id q) = None" "restored_context F q True h = Some (job_context j)"
  then show ?thesis using silenced_add(3) [OF assms restored_unheard [OF _ assms]] by simp
qed (simp add: assms)

lemma silenced_changes:
  assumes "silenced rid h"
  shows "silenced rid (snd (handle_flow_run_request_changes A F ms q cs h))"
  using changes_cases [of A F ms q cs h]
proof (elim disjE exE conjE)
  fix j m assume "snd (handle_flow_run_request_changes A F ms q cs h) = add_job j (notify_chat A ms ''info'' m (map_of (fh_agent_runs h) (fq_flow_run_id q)) h)"
    "map_of (fh_contexts h) (fq_flow_run_id q) = Some (job_context j)"
  then show ?thesis using silenced_add(2) [OF assms silencedD(2) [OF assms]] by simp
next
  fix j m assume "snd (handle_flow_run_request_changes A F ms q cs h) = add_job j
      (notify_chat A ms ''info'' m (map_of (fh_agent_runs h) (fq_flow_run_id q)) (keep_context (fq_flow_run_id q) (job_context j) h))"
    "map_of (fh_contexts h) (fq_flow_run_id q) = None" "restored_context F q False h = Some (job_context j)"
  then show ?thesis using silenced_add(4) [OF assms restored_unheard [OF _ assms]] by simp
qed (simp add: assms)

lemma silenced_resolve: "silenced rid h \<Longrightarrow> silenced rid (snd (handle_resolve_review A V now ms r vid d notes h))"
proof -
  assume s: "silenced rid h"
  have found: "flow_context_of A r i h = Some c \<Longrightarrow> unheard rid c" for i c
    using s by (force simp: flow_context_of_def silenced_def find_Some_iff in_set_conv_nth)
  have jobs: "j \<in> set (resolve_jobs vid d c) \<Longrightarrow> job_context j = c" for j c
    by (auto simp: resolve_jobs_def Let_def split: option.splits if_splits)
  show ?thesis
    by (rule silenced_mono [OF s])
      (use s silencedD(1) [OF s] in \<open>auto simp: handle_resolve_review_def Let_def dest!: found jobs split: sum.splits option.splits prod.splits\<close>)
qed

lemma silenced_spawn: "silenced rid h \<Longrightarrow> unheard rid c \<Longrightarrow> silenced rid (spawn_agents c is (h\<lparr>fh_flows := s\<rparr>))"
  by (auto simp: silenced_def spawn_agents_def)

lemma silenced_flows: "silenced rid (h\<lparr>fh_flows := s\<rparr>) = silenced rid h"
  by (simp add: silenced_def)

lemma silenced_notify: "silenced rid (notify_chat A ms kind msg who h) = silenced rid h"
  by (simp add: silenced_def)

lemma silenced_approve_document: "silenced rid h \<Longrightarrow> unheard rid c \<Longrightarrow> silenced rid (snd (approve_document E c r n port flow h))"
  by (auto simp: approve_document_def silenced_flows split: prod.split sum.split intro: silenced_spawn)

lemma silenced_requeue_document: "silenced rid h \<Longrightarrow> unheard rid c \<Longrightarrow> silenced rid (requeue_document E c r n port flow h)"
  by (auto simp: requeue_document_def silenced_flows split: prod.split sum.split intro: silenced_spawn)

lemma silenced_job:
  assumes "silenced rid h" and "unheard rid (job_context j)"
  shows "silenced rid (run_job A F E ms j h)"
proof (cases j)
  case (ApproveJob c r n port flow who)
  with silenced_approve_document [OF assms(1), of c E r n port flow] assms(2) show ?thesis
    by (auto simp: silenced_notify split: prod.splits bool.splits)
next
  case (RequestChangesJob c r n port flow cs)
  with assms show ?thesis by (auto simp: silenced_flows intro: silenced_requeue_document)
qed (use assms in \<open>auto intro: silenced_approve_document silenced_requeue_document split: option.split\<close>)

lemma silenced_supervise: "silenced rid h \<Longrightarrow> unheard rid c \<Longrightarrow> silenced rid (supervise F E c evt h)"
  by (auto simp: supervise_def silenced_flows split: option.split sum.split prod.split intro: silenced_spawn)

lemma silenced_serve: "silenced rid h \<Longrightarrow> silenced rid (serve_flow_op A V F E x h)"
proof (cases x)
  case (AskInject r k c)
  assume "silenced rid h"
  with AskInject show ?thesis by (auto simp: handle_blackboard_inject_def silenced_flows split: option.split)
next
  case (RunJob ms k)
  assume "silenced rid h"
  then have "silenced rid (run_job A F E ms (fh_jobs h ! k) h)" if "k < length (fh_jobs h)"
    using silenced_job silencedD(3) nth_mem that by metis
  with RunJob \<open>silenced rid h\<close> show ?thesis by simp
next
  case (Signal c evt)
  assume "silenced rid h"
  then have "c \<in> fst ` set (fh_spawned h) \<Longrightarrow> unheard rid c" using silencedD(4) by blast
  with Signal \<open>silenced rid h\<close> show ?thesis by (auto simp: signal_document_def intro: silenced_supervise)
qed (auto intro: silenced_approve silenced_changes silenced_resolve)

text \<open>
  Changes requested on a flow run after a restart leave it a context whose channel of documents has no receiver: the
  request is acknowledged, and whatever of the requests and jobs of this theory follow, the channel refuses every
  document of an agent of the run that was started from that context. (The tool has written its files before.)
\<close>

theorem request_changes_silences_run:
  assumes "fh_contexts h = []" "fh_jobs h = []" "fh_spawned h = []"
    and "flow_of_run F (fq_flow_run_id q) (fh_flows h) = Inr flow" and "restored_context F q False h = Some c"
  shows "fst (handle_flow_run_request_changes A F ms q cs h) = Ack \<and>
    (let g = foldl (\<lambda>g (E, x). serve_flow_op A V F E x g) (snd (handle_flow_run_request_changes A F ms q cs h)) ops
     in \<forall>x \<in> set (fh_spawned g). rx_flow_run_id (fst x) = Some (fq_flow_run_id q) \<longrightarrow>
          signal_document F E (fst x) evt g = (False, g))"
proof -
  define rid where "rid = fq_flow_run_id q"
  define j where "j = RequestChangesJob c rid (fq_node_id q) (fq_port q) flow (List.map_filter parse_comment cs)"
  have h1: "handle_flow_run_request_changes A F ms q cs h =
      (Ack, add_job j (notify_chat A ms ''info'' (changes_message (fq_port q) (fq_node_id q)) (map_of (fh_agent_runs h) rid) (keep_context rid c h)))"
    using assms by (simp add: handle_flow_run_request_changes_def j_def rid_def Let_def)
  have "unheard rid c" using restored_context_run [OF assms(5)] by (simp add: unheard_def)
  then have "silenced rid (snd (handle_flow_run_request_changes A F ms q cs h))"
    using assms(1-3) by (simp add: h1 silenced_def add_job_def keep_context_def j_def store_simps)
  then have "silenced rid (foldl (\<lambda>g (E, x). serve_flow_op A V F E x g) (snd (handle_flow_run_request_changes A F ms q cs h)) ops)"
  proof (induction ops rule: rev_induct)
    case (snoc p ops)
    then show ?case by (cases p) (simp add: silenced_serve)
  qed simp
  then show ?thesis using silencedD(4) by (fastforce simp: h1 Let_def unheard_def rid_def signal_document_def)
qed

section \<open>A workspace with one flow\<close>

definition one_node_flow :: flow_definition where
  "one_node_flow = \<lparr>flow_name = ''f'', flow_description = [], flow_agents = [],
     flow_nodes = [\<lparr>fnode_id = ''pm'', fnode_owner = ''pm'', fnode_description = None,
       fnode_outputs = [\<lparr>out_port = ''prd'', routes_to = None, out_reviewers = [''human''], max_cycles = None, on_cycle_exhausted = None,
         blackboard_key = None\<rparr>], fnode_reads = []\<rparr>],
     max_review_rounds = default_max_review_rounds, on_review_exhausted = default_on_review_exhausted,
     reviewer_timeout_secs = default_reviewer_timeout_secs, reviewer_enabled = default_reviewer_enabled,
     source_path = ''f'', flow_graph = None\<rparr>"

definition one_flow_env :: "(string, unit) flow_env" where
  "one_flow_env = \<lparr>env_uuid = (\<lambda>_. 0), env_secs = (\<lambda>_. []), env_ms = (\<lambda>_. 0), env_mkdir = (\<lambda>_. None),
     env_write = (\<lambda>_. None), env_rename = (\<lambda>_. None), env_read = (\<lambda>_. True),
     env_enc = (\<lambda>r. Inr ()), env_dec = (\<lambda>x. Inl []), env_json_enc = (\<lambda>j. Inr ()), env_json_dec = (\<lambda>x. None)\<rparr>"

definition one_load_env :: flow_handler_env where
  "one_load_env = \<lparr>fe_load = (\<lambda>_. Inr one_node_flow), fe_document = (\<lambda>_. None), fe_policy = None, fe_cache_dir = None\<rparr>"

definition waiting_run :: flow_run_state where
  "waiting_run = set_port ''pm'' ''prd'' InReview ((new_flow_run_state ''0'' ''r'' ''f'' ''hi'')\<lparr>originating_session_id := Some ''tab''\<rparr>)"

definition saved_chat :: session where
  "saved_chat = \<lparr>session_id = StringNewtype ''tab'', session_space_id = UuidNewtype 7, session_name = None, session_agent_id = None,
     session_thread = [], session_run_ids = [], session_flow_run_ids = [''r''], read_namespace = None, write_namespace = None,
     parent_session_id = None, session_fork_point = None, session_created_at_ms = 1, session_updated_at_ms = 1, manually_named = False\<rparr>"

definition restarted :: "(unit, unit) flow_handler" where
  "restarted = \<lparr>fh_runtime = new_handler (fresh_authority (default_snapshot\<lparr>sessions := [(StringNewtype ''tab'', saved_chat)]\<rparr>) ()),
     fh_flows = put_run ''r'' waiting_run new_flow_runtime, fh_contexts = [], fh_agent_runs = [], fh_jobs = [], fh_spawned = []\<rparr>"

definition asked_changes :: flow_review_request where
  "asked_changes = \<lparr>fq_workspace_root = ''/w'', fq_flow_run_id = ''r'', fq_node_id = ''pm'', fq_port = ''prd'',
     fq_provider_kind = ''anthropic'', fq_base_url = [], fq_api_key = ''k'', fq_model = ''m''\<rparr>"

definition restored :: run_context where
  "restored = \<lparr>rx_space_id = UuidNewtype 7, rx_workspace_root = ''/w'', rx_flow_id = Some ''f'', rx_flow_run_id = Some ''r'',
     rx_session_id = Some (StringNewtype ''tab''), rx_llm_config = LlmAnthropic [] (Some ''k'') ''m'', rx_sandbox_tier = Trusted,
     rx_cache_dir = None, rx_listening = False\<rparr>"

lemma restarted_parts:
  "fh_contexts restarted = []" "fh_jobs restarted = []" "fh_spawned restarted = []"
  "flow_of_run one_load_env (fq_flow_run_id asked_changes) (fh_flows restarted) = Inr one_node_flow"
  "restored_context one_load_env asked_changes False restarted = Some restored"
  by (simp_all add: restarted_def asked_changes_def one_load_env_def restored_def saved_chat_def flow_of_run_def restored_context_def
      FlowRun.get_run_def put_run_def waiting_run_def new_flow_run_state_def set_port_def new_handler_def fresh_authority_def
      space_id_for_session_def get_session_def from_payload_fields_def non_blank_def store_simps)

text \<open>The job of the request asks the agent for a new document, and nobody hears of the document.\<close>

lemma asked_parts:
  "fq_flow_run_id asked_changes = ''r''" "fq_node_id asked_changes = ''pm''" "fq_port asked_changes = ''prd''" "fh_agent_runs restarted = []"
  by (simp_all add: asked_changes_def restarted_def)

lemma restarted_job:
  "snd (handle_flow_run_request_changes demo_auth_env one_load_env 4 asked_changes [] restarted) =
     restarted\<lparr>fh_contexts := [(''r'', restored)], fh_jobs := [RequestChangesJob restored ''r'' ''pm'' ''prd'' one_node_flow []]\<rparr>"
  using restarted_parts(4,5) unfolding asked_parts
  by (simp add: handle_flow_run_request_changes_def restarted_parts(1-3) asked_parts add_job_def keep_context_def notify_chat_def
      List.map_filter_def store_simps Let_def)

definition revised :: "(unit, unit) flow_handler" where
  "revised = run_job demo_auth_env one_load_env one_flow_env 5 (RequestChangesJob restored ''r'' ''pm'' ''prd'' one_node_flow [])
     (restarted\<lparr>fh_contexts := [(''r'', restored)], fh_jobs := [RequestChangesJob restored ''r'' ''pm'' ''prd'' one_node_flow []]\<rparr>)"

lemma revised_spawned: "\<exists>i. fh_spawned revised = [(restored, i)]"
proof -
  let ?s = "snd (write_review_comments one_flow_env ''f'' ''r'' ''prd'' ''human'' [] (fh_flows restarted))"
  have h: "healthy one_flow_env" by (simp add: healthy_def one_flow_env_def)
  have run: "FlowRun.get_run ?s ''r'' = Some waiting_run"
  proof -
    have "flow_runtime.runs ?s = flow_runtime.runs (fh_flows restarted)"
      by (rule quietD [OF quiet_write_review_comments prod.collapse [symmetric]])
    then show ?thesis by (simp add: FlowRun.get_run_def restarted_def put_run_def store_simps)
  qed
  have sound: "reviews_sound (current_reviews one_flow_env ?s p)" for p
    by (simp add: current_reviews_def one_flow_env_def empty_reviews_sound split: option.split)
  have nd: "fnode one_node_flow ''pm'' = Some (hd (flow_nodes one_node_flow))"
    by (simp add: fnode_def one_node_flow_def)
  from requeue_returns [OF h run nd sound, of "''prd''"] obtain c s' where
    "on_rejected_requeue one_flow_env ''r'' ''pm'' ''prd'' one_node_flow ?s = (Inr (Some c), s')" by blast
  then show ?thesis
    by (simp add: revised_def requeue_document_def restored_def restarted_parts(3) spawn_agents_def opt_list_def)
qed

theorem request_changes_silences_run_witness:
  "\<exists>x. x \<in> set (fh_spawned revised) \<and> signal_document one_load_env one_flow_env (fst x)
     \<lparr>sb_run_id = ''r'', sb_agent_id = ''pm'', sb_doc_type = ''prd'', sb_sha256 = ''0'', sb_revision = 2\<rparr> revised = (False, revised)"
proof -
  obtain x where x: "x \<in> set (fh_spawned revised)" "fst x = restored"
    using revised_spawned by auto
  have run: "serve_flow_op demo_auth_env demo_handler_env one_load_env one_flow_env (RunJob 5 0)
      (snd (handle_flow_run_request_changes demo_auth_env one_load_env 4 asked_changes [] restarted)) = revised"
    by (simp only: restarted_job revised_def) simp
  let ?evt = "\<lparr>sb_run_id = ''r'', sb_agent_id = ''pm'', sb_doc_type = ''prd'', sb_sha256 = ''0'', sb_revision = 2\<rparr>"
  have "\<forall>x \<in> set (fh_spawned revised). rx_flow_run_id (fst x) = Some ''r'' \<longrightarrow>
      signal_document one_load_env one_flow_env (fst x) ?evt revised = (False, revised)"
    using request_changes_silences_run [OF restarted_parts, of demo_auth_env 4 "[]" demo_handler_env "[(one_flow_env, RunJob 5 0)]"
        one_flow_env ?evt, THEN conjunct2] by (simp only: foldl.simps prod.case run Let_def asked_parts)
  moreover have "rx_flow_run_id (fst x) = Some ''r''" by (simp add: x(2) restored_def)
  ultimately show ?thesis using x(1) by blast
qed

theorem decisions_never_reach_flows_witness:
  "fh_jobs (snd (handle_resolve_review demo_auth_env demo_handler_env 1 (\<lambda>_. 1) ''1'' ''pm:prd'' review_decision.Approve None restarted)) = []"
proof -
  obtain resp h' where p: "handle_resolve_review demo_auth_env demo_handler_env 1 (\<lambda>_. 1) ''1'' ''pm:prd'' review_decision.Approve None restarted = (resp, h')"
    by force
  have "take 4 s = ''urn:''" if "hv_parse_uuid demo_handler_env s = Some u" "CHR '':'' \<in> set s" for s u
    using that by (simp add: demo_handler_env_def split: if_splits)
  then have "fh_jobs h' = fh_jobs restarted" by (rule decisions_never_reach_flows [OF _ _ p, THEN conjunct1]) simp_all
  then show ?thesis by (simp add: p restarted_parts)
qed

definition paused_run :: run where
  "paused_run = \<lparr>run_id = UuidNewtype 1, run_space_id = UuidNewtype 7, run_agent_id = None, run_session_id = None, run_flow_run_id = None,
     run_status = run_status.Paused, run_spec = JNull, run_history = [], run_created_at_ms = 1, run_updated_at_ms = 1, run_goal = None,
     run_parent_run_id = None, run_produces = [], run_resolved_reviews = [], run_file_changes = []\<rparr>"

definition paused_handler :: "unit runtime_handler" where
  "paused_handler = (new_handler (fresh_authority (default_snapshot\<lparr>snapshot.runs := [(UuidNewtype 1, paused_run)]\<rparr>) ()))\<lparr>rh_sink := True\<rparr>"

lemma paused_parts:
  "parse_run demo_handler_env ''1'' = Inr (UuidNewtype 1)" "Authority.get_run (rh_authority paused_handler) (UuidNewtype 1) = Some paused_run"
  "run_status paused_run = run_status.Paused" "\<not> is_extension_run paused_run"
  by (simp_all add: demo_handler_env_def paused_handler_def paused_run_def new_handler_def fresh_authority_def parse_run_def parse_with_def
      Authority.get_run_def is_extension_run_def non_blank_def text_member_def store_simps)

lemma paused_marked: "fst (mark_run_running demo_auth_env 5 5 (UuidNewtype 1) (rh_authority paused_handler)) = Inr ()"
  by code_simp

theorem resume_starts_a_loop_witness:
  "fst (fst (handle_resume_run demo_auth_env demo_handler_env 5 5 (UuidNewtype 9) [''/w''] ''/tmp'' (\<lambda>s. s) ''1'' paused_handler)) =
     control_response.RunStarted ''1'' (UuidNewtype 9)"
proof -
  obtain resp job h' where p: "handle_resume_run demo_auth_env demo_handler_env 5 5 (UuidNewtype 9) [''/w''] ''/tmp'' (\<lambda>s. s) ''1'' paused_handler = ((resp, job), h')"
    by (metis prod.exhaust)
  obtain a where a: "mark_run_running demo_auth_env 5 5 (UuidNewtype 1) (rh_authority paused_handler) = (Inr (), a)"
    using paused_marked by (metis prod.collapse)
  have "job = Some (resume_settings_of demo_auth_env [''/w''] ''/tmp'' paused_run)"
    using p by (simp add: handle_resume_run_def paused_parts [unfolded One_nat_def] on_authority_def a [unfolded One_nat_def] Let_def)
  then have "resp = control_response.RunStarted ''1'' (UuidNewtype 9)"
    by (auto dest!: resume_starts_a_loop [OF p, THEN conjunct1, THEN iffD1])
  then show ?thesis by (simp add: p)
qed

end
