(* ===== verification/ProtocolProps.thy ===== *)
theory ProtocolProps
  imports ProtocolLogic
begin

text \<open>The properties of the loop that serves the host.\<close>

section \<open>Who is served\<close>

lemma compatible_iff: "is_compatible_with PROTOCOL_VERSION v \<longleftrightarrow> v_major v = 0 \<and> v_minor v = 1"
  by (auto simp: is_compatible_with_def PROTOCOL_VERSION_def protocol_version_new_def)

lemma admitted_iff: "admitted es \<longleftrightarrow>
    (\<exists>t v name ver es'. es = Received t (Inr (Hello v name ver)) # WriteEnded None # es' \<and> is_compatible_with PROTOCOL_VERSION v)"
  by (cases es rule: admitted.cases) auto

lemma handshake_calls: "handshake_ok rv es s \<Longrightarrow> dl_calls s = []"
  by (simp add: handshake_ok_def)

text \<open>What a host that is not admitted is told.\<close>

fun goodbye_for :: "client_to_runtime \<Rightarrow> runtime_to_client" where
  "goodbye_for (Hello v name ver) = Goodbye ProtocolMismatchReason (mismatch_message name ver v)"
| "goodbye_for (ControlCall i rq) = Goodbye HandshakeRequiredReason ''Hello required before Control''"
| "goodbye_for (CapabilityReply i rp) = Goodbye HandshakeRequiredReason ''Hello required before CapabilityReply''"
| "goodbye_for Pong = Goodbye HandshakeRequiredReason ''Hello required before Pong''"

fun greets :: "client_to_runtime \<Rightarrow> bool" where
  "greets (Hello v name ver) = (v_major v = 0 \<and> v_minor v = 1)"
| "greets m = False"

lemma refused_run:
  assumes "dispatch_run T rv (Received t (Inr m) # WriteEnded io # es) new_loop = Some s" and "\<not> greets m"
  shows "es = [] \<and> dl_sent s = (if io = None then [goodbye_for m] else []) \<and> (\<exists>e. dl_phase s = Finished (Inl e))"
proof -
  have stop: "es = [] \<and> s = s'" if "dispatch_run T rv es s' = Some s" "dl_phase s' = Finished r" for s' r
  proof (cases es)
    case (Cons e es')
    with that show ?thesis by (cases e) (auto split: option.splits)
  qed (use that in simp)
  show ?thesis
    using assms
    by (cases m; cases io)
      (auto simp: loop_op_defs new_loop_def compatible_iff dest!: stop split: if_splits)
qed

text \<open>
  (C29) The handler hears of a connection exactly if the host greets first, in a version \<open>0.1\<close>, and the welcome
  could be written. From then on it is handed every request and every capability reply once and in order, and
  one farewell when the session is over; before it is handed nothing. A host that says anything else first is
  told goodbye with the reason, and nothing more, and the session ends with an error.
\<close>

theorem only_admitted_hosts_are_served:
  assumes "loop_reach T rv es s"
  shows "dl_calls s = (if \<exists>t v name ver es'. es = Received t (Inr (Hello v name ver)) # WriteEnded None # es' \<and> v_major v = 0 \<and> v_minor v = 1
     then OnConnected # handed es @ (if over (dl_phase s) then [OnDisconnected] else []) else []) \<and>
    (\<forall>t m io es'. es = Received t (Inr m) # WriteEnded io # es' \<and> \<not> greets m \<longrightarrow>
      es' = [] \<and> dl_sent s = (if io = None then [goodbye_for m] else []) \<and> (\<exists>e. dl_phase s = Finished (Inl e)))"
proof
  show "dl_calls s = (if \<exists>t v name ver es'. es = Received t (Inr (Hello v name ver)) # WriteEnded None # es' \<and> v_major v = 0 \<and> v_minor v = 1
     then OnConnected # handed es @ (if over (dl_phase s) then [OnDisconnected] else []) else [])"
  proof (cases "admitted es")
    case True
    with session_okD(4) [OF session_reach [OF assms True]] show ?thesis
      by (simp add: admitted_iff compatible_iff)
  next
    case False
    with handshake_calls [OF handshake_reach [OF assms False]] show ?thesis
      by (auto simp: admitted_iff compatible_iff)
  qed
qed (use refused_run loop_reach_run [OF assms] in blast)

definition demo_timer :: dispatch_timer where
  "demo_timer = \<lparr>after_tick = (\<lambda>d now. d + 90000), after_reset = (\<lambda>now. now + 90000)\<rparr>"

definition demo_session :: "dispatch_event list" where
  "demo_session = [Received 0 (Inr (Hello (protocol_version_new 0 1 7) ''host'' ''1'')), WriteEnded None, Done 0,
     Received 5 (Inr (ControlCall (UuidNewtype 3) PingRequest)), Pushed (CapabilityCall (UuidNewtype 9) (AgentCapability ''s'' ListAgents)),
     Returned PongResponse, WriteEnded None, WriteEnded None,
     Received 9 (Inl Closed), Done 9]"

definition demo_end :: dispatch_loop where
  "demo_end = \<lparr>dl_phase = Finished (Inr ()), dl_queue = [], dl_writing = [],
     dl_sent = [Welcome PROTOCOL_VERSION ''v'', CapabilityCall (UuidNewtype 9) (AgentCapability ''s'' ListAgents), ControlReply (UuidNewtype 3) PongResponse],
     dl_calls = [OnConnected, HandleControl (UuidNewtype 3) PingRequest, OnDisconnected], dl_deadline = 90000\<rparr>"

lemma demo_session_reach: "loop_reach demo_timer ''v'' demo_session demo_end"
  by (rule loop_reach_from_run)
    (simp add: demo_session_def demo_end_def demo_timer_def new_loop_def loop_op_defs DRAIN_LIMIT_def is_compatible_with_def protocol_version_new_def PROTOCOL_VERSION_def)

theorem only_admitted_hosts_are_served_witness:
  "(dl_calls demo_end = OnConnected # handed demo_session @ [OnDisconnected] \<and> handed demo_session = [HandleControl (UuidNewtype 3) PingRequest]) \<and>
   (\<exists>s. loop_reach demo_timer ''v'' [Received 0 (Inr Pong), WriteEnded None] s \<and> dl_sent s = [Goodbye HandshakeRequiredReason ''Hello required before Pong''])"
proof
  show "dl_calls demo_end = OnConnected # handed demo_session @ [OnDisconnected] \<and> handed demo_session = [HandleControl (UuidNewtype 3) PingRequest]"
    using only_admitted_hosts_are_served [OF demo_session_reach, THEN conjunct1]
    by (simp add: demo_session_def protocol_version_new_def) (simp add: demo_end_def)
  have "\<exists>s. loop_reach demo_timer ''v'' [Received 0 (Inr Pong), WriteEnded None] s"
    by (intro exI loop_reach_from_run) (simp add: loop_op_defs new_loop_def)
  then show "\<exists>s. loop_reach demo_timer ''v'' [Received 0 (Inr Pong), WriteEnded None] s \<and>
      dl_sent s = [Goodbye HandshakeRequiredReason ''Hello required before Pong'']"
    using only_admitted_hosts_are_served [THEN conjunct2, of demo_timer "''v''" "[Received 0 (Inr Pong), WriteEnded None]"] by fastforce
qed


section \<open>What the host gets\<close>

lemma finished_line:
  assumes "loop_reach T rv es s" and "admitted es" and "dl_phase s = Finished r"
  shows "subseq (dl_sent s) (Welcome PROTOCOL_VERSION rv # outbox es)"
    and "length (dl_sent s) + lost_writes es = 1 + length (outbox es)"
proof -
  note ok = session_okD [OF session_reach [OF assms(1,2)]]
  from ok(9) assms(3) have "dl_writing s = []" by simp
  with ok(5,6) ok(10) [OF assms(3)] show "subseq (dl_sent s) (Welcome PROTOCOL_VERSION rv # outbox es)"
    and "length (dl_sent s) + lost_writes es = 1 + length (outbox es)" by simp_all
qed

lemma finished_complete:
  assumes "loop_reach T rv es s" and "admitted es" and "dl_phase s = Finished r" and "lost_writes es = 0"
  shows "dl_sent s = Welcome PROTOCOL_VERSION rv # outbox es"
  using finished_line [OF assms(1-3)] assms(4) by (intro subseq_same_length) simp_all

text \<open>
  (C30) When a session is over, what was written is the welcome and then the messages of the sink in the order in which they
  were put there, less one message for every failed write: nothing is doubled, reordered or left behind.
\<close>

theorem host_gets_the_sink_in_order:
  assumes "loop_reach T rv es s" and "admitted es" and "dl_phase s = Finished r"
  shows "subseq (dl_sent s) (Welcome PROTOCOL_VERSION rv # outbox es) \<and> length (dl_sent s) + lost_writes es = 1 + length (outbox es) \<and>
    (lost_writes es = 0 \<longrightarrow> dl_sent s = Welcome PROTOCOL_VERSION rv # outbox es)"
  using finished_line [OF assms] finished_complete [OF assms] by blast

theorem host_gets_the_sink_in_order_witness:
  "dl_sent demo_end = Welcome PROTOCOL_VERSION ''v'' # outbox demo_session \<and> lost_writes demo_session = 0"
  using host_gets_the_sink_in_order [OF demo_session_reach, of "Inr ()"]
  by (simp add: demo_session_def lost_writes_def is_compatible_with_def protocol_version_new_def PROTOCOL_VERSION_def)
    (simp add: demo_end_def)

text \<open>
  (C31) When a session is over, the replies the host has read are those to its requests, one for each and in
  their order, as long as no write failed and no other task sends replies; with failed writes some are missing
  and the others still are in order.
\<close>

theorem every_request_has_its_reply:
  assumes "loop_reach T rv es s" and "admitted es" and "dl_phase s = Finished r" and "only_loop_replies es"
  shows "subseq (reply_ids (dl_sent s)) (asked_ids (dl_calls s)) \<and>
    (lost_writes es = 0 \<longrightarrow> reply_ids (dl_sent s) = asked_ids (dl_calls s))"
proof -
  have calls: "asked_ids (dl_calls s) = asked_ids (handed es)"
    using session_okD(4) [OF session_reach [OF assms(1,2)]] by simp
  have replies: "reply_ids (outbox es) = asked_ids (handed es)"
    using replies_asked [OF assms(1,2,4)] assms(3) by simp
  show ?thesis
    using reply_ids_subseq [OF finished_line(1) [OF assms(1-3)]] finished_complete [OF assms(1-3)] calls replies by auto
qed

theorem every_request_has_its_reply_witness:
  "reply_ids (dl_sent demo_end) = [UuidNewtype 3] \<and> reply_ids (dl_sent demo_end) = asked_ids (dl_calls demo_end)"
  using every_request_has_its_reply [OF demo_session_reach, of "Inr ()"]
  by (simp add: demo_session_def lost_writes_def only_loop_replies_def is_compatible_with_def protocol_version_new_def PROTOCOL_VERSION_def)
    (simp add: demo_end_def)

section \<open>Lost writes\<close>

text \<open>
  A write that fails in the priority pass is forgotten: the message is neither written nor queued again,
  the loop goes on, and the session can end as a clean one. The same failure of a write that the multiplexed wait
  chose ends the session with the error.
\<close>

theorem failed_drain_is_forgotten:
  assumes "loop_reach T rv es s" and "admitted es" and "dl_queue s = []"
  shows "(dl_phase s = Draining n \<longrightarrow> (\<exists>s'. loop_reach T rv (es @ [WriteEnded (Some e), Received t (Inl Closed), Done t]) s' \<and>
       dl_phase s' = Finished (Inr ()) \<and> dl_sent s' = dl_sent s \<and>
       length (dl_sent s') < 1 + length (outbox (es @ [WriteEnded (Some e), Received t (Inl Closed), Done t])))) \<and>
    (dl_phase s = Sending \<longrightarrow> (\<exists>s'. loop_reach T rv (es @ [WriteEnded (Some e), Done t]) s' \<and>
       dl_phase s' = Finished (Inl (TransportFailed e)) \<and> dl_sent s' = dl_sent s))"
proof (intro conjI impI)
  let ?t = "[WriteEnded (Some e), Received t (Inl Closed), Done t]"
  assume "dl_phase s = Draining n"
  then obtain s' where run: "dispatch_run T rv ?t s = Some s'" and s': "dl_phase s' = Finished (Inr ())" "dl_sent s' = dl_sent s"
    using assms(3) by (simp add: loop_op_defs)
  note reach = loop_run_reach [OF assms(1) run]
  have "0 < lost_writes (es @ ?t)" by (simp add: lost_writes_def)
  with finished_line(2) [OF reach admitted_append [OF assms(2)] s'(1)] have "length (dl_sent s') < 1 + length (outbox (es @ ?t))"
    by simp
  with reach s' show "\<exists>s'. loop_reach T rv (es @ ?t) s' \<and> dl_phase s' = Finished (Inr ()) \<and> dl_sent s' = dl_sent s \<and>
      length (dl_sent s') < 1 + length (outbox (es @ ?t))" by blast
next
  assume "dl_phase s = Sending"
  then obtain s' where "dispatch_run T rv [WriteEnded (Some e), Done t] s = Some s'"
    and s': "dl_phase s' = Finished (Inl (TransportFailed e))" "dl_sent s' = dl_sent s"
    using assms(3) by (simp add: loop_op_defs)
  then show "\<exists>s'. loop_reach T rv (es @ [WriteEnded (Some e), Done t]) s' \<and>
      dl_phase s' = Finished (Inl (TransportFailed e)) \<and> dl_sent s' = dl_sent s"
    using loop_run_reach [OF assms(1)] by blast
qed

definition demo_draining :: dispatch_loop where
  "demo_draining = \<lparr>dl_phase = Draining 0, dl_queue = [], dl_writing = [ControlReply (UuidNewtype 3) PongResponse],
     dl_sent = [Welcome PROTOCOL_VERSION ''v''], dl_calls = [OnConnected, HandleControl (UuidNewtype 3) PingRequest], dl_deadline = 90000\<rparr>"

definition demo_asked :: "dispatch_event list" where
  "demo_asked = [Received 0 (Inr (Hello (protocol_version_new 0 1 7) ''host'' ''1'')), WriteEnded None, Done 0,
     Received 5 (Inr (ControlCall (UuidNewtype 3) PingRequest)), Returned PongResponse]"

lemma demo_draining_reach: "loop_reach demo_timer ''v'' demo_asked demo_draining" "admitted demo_asked"
  by (rule loop_reach_from_run)
    (simp_all add: demo_asked_def demo_draining_def demo_timer_def new_loop_def loop_op_defs DRAIN_LIMIT_def is_compatible_with_def
      protocol_version_new_def PROTOCOL_VERSION_def)

theorem failed_drain_is_forgotten_witness:
  "\<exists>s'. loop_reach demo_timer ''v'' (demo_asked @ [WriteEnded (Some (TransportIo ''pipe'')), Received 6 (Inl Closed), Done 6]) s' \<and>
     dl_phase s' = Finished (Inr ()) \<and> dl_sent s' = [Welcome PROTOCOL_VERSION ''v'']"
  using failed_drain_is_forgotten [OF demo_draining_reach, of 0 "TransportIo ''pipe''" 6]
  by (auto simp: demo_draining_def)

end
