(* ===== verification/ExtValues.thy ===== *)
theory ExtValues
  imports Rpc
begin

text \<open>
  The values that cross the connection to an extension host (\<^verbatim>\<open>extensions/runtime.rs\<close>): MessagePack to JSON and
  back, and the fields of the parameters of a notification.
\<close>

section \<open>Floating-point numbers\<close>

text \<open>
  A floating-point number is its bits. A number of 64 bits is finite when its exponent is not all ones; widening one of
  32 bits is left to the machine.
\<close>

definition f64_finite :: "u64 \<Rightarrow> bool" where
  "f64_finite n \<longleftrightarrow> (unat n div 2 ^ 52) mod 2 ^ 11 \<noteq> 2 ^ 11 - 1"

definition json_f64 :: "u64 \<Rightarrow> json" where
  "json_f64 n = (if f64_finite n then JNumber (Float n) else JNull)"

definition json_i64 :: "64 word \<Rightarrow> json" where
  "json_i64 n = JNumber (if sint n < 0 then NegInt n else PosInt n)"

section \<open>The conversions\<close>

text \<open>Widening a float and the \<^verbatim>\<open>Debug\<close> text of a key are parameters.\<close>

record value_env =
  ve_widen :: "u32 \<Rightarrow> u64"
  ve_debug :: "mval \<Rightarrow> string"

definition map_key :: "value_env \<Rightarrow> mval \<Rightarrow> string" where
  "map_key V k = (case mval_str k of Some s \<Rightarrow> s | None \<Rightarrow> ve_debug V k)"

function rmpv_to_json :: "value_env \<Rightarrow> mval \<Rightarrow> json" where
  "rmpv_to_json V MNil = JNull"
| "rmpv_to_json V (MBool b) = JBool b"
| "rmpv_to_json V (MPos n) = JNumber (PosInt n)"
| "rmpv_to_json V (MNeg n) = json_i64 n"
| "rmpv_to_json V (MFloat32 f) = json_f64 (ve_widen V f)"
| "rmpv_to_json V (MFloat64 f) = json_f64 f"
| "rmpv_to_json V (MString s) = JString (if utf8_valid s then s else [])"
| "rmpv_to_json V (MBinary b) = JArray (map (\<lambda>c. json_u64 (of_char c)) b)"
| "rmpv_to_json V (MArray xs) = JArray (map (rmpv_to_json V) xs)"
| "rmpv_to_json V (MMap kvs) = json_object (map (\<lambda>kv. (map_key V (fst kv), rmpv_to_json V (snd kv))) kvs)"
| "rmpv_to_json V (MExt t b) = json_object [(''__ext_tag'', json_i64 (scast t)), (''__ext_data'', JArray (map (\<lambda>c. json_u64 (of_char c)) b))]"
  by pat_completeness auto
termination
proof (relation "measure (size \<circ> snd)", goal_cases)
  case (3 V kvs kv)
  then have "size (snd kv) < Suc (size_list (size_prod size size) kvs)"
    by (induction kvs) auto
  then show ?case by simp
qed (auto simp: less_Suc_eq_le intro: size_list_estimation' order.refl)

function json_to_rmpv :: "json \<Rightarrow> mval" where
  "json_to_rmpv JNull = MNil"
| "json_to_rmpv (JBool b) = MBool b"
| "json_to_rmpv (JNumber n) = (case n of
     PosInt i \<Rightarrow> MPos i
   | NegInt i \<Rightarrow> (if sint i < 0 then MNeg i else MPos i)
   | Float f \<Rightarrow> if f64_finite f then MFloat64 f else MNil)"
| "json_to_rmpv (JString s) = MString s"
| "json_to_rmpv (JArray xs) = MArray (map json_to_rmpv xs)"
| "json_to_rmpv (JObject ms) = MMap (map (\<lambda>kv. (MString (fst kv), json_to_rmpv (snd kv))) ms)"
  by pat_completeness auto
termination
proof (relation "measure size", goal_cases)
  case (3 ms kv)
  then have "size (snd kv) < Suc (size_list (size_prod (\<lambda>_. 0) size) ms)"
    by (induction ms) auto
  then show ?case by simp
qed (auto simp: less_Suc_eq_le intro: size_list_estimation' order.refl)

section \<open>Reading parameters\<close>

fun mval_map :: "mval \<Rightarrow> (mval \<times> mval) list option" where
  "mval_map (MMap kvs) = Some kvs"
| "mval_map _ = None"

definition lookup_field :: "mval \<Rightarrow> string \<Rightarrow> mval option" where
  "lookup_field params field = (case mval_map params of
     None \<Rightarrow> None
   | Some kvs \<Rightarrow> map_option snd (find (\<lambda>(k, v). mval_str k = Some field) kvs))"

fun first_str :: "mval list \<Rightarrow> string option" where
  "first_str (x # xs) = mval_str x"
| "first_str [] = None"

text \<open>The first member of that name that is a text, or else the first element of an array.\<close>

definition extract_str_field :: "mval \<Rightarrow> string \<Rightarrow> string option" where
  "extract_str_field params field =
     (case find (\<lambda>(k, v). mval_str k = Some field \<and> mval_str v \<noteq> None) (case mval_map params of Some kvs \<Rightarrow> kvs | None \<Rightarrow> []) of
        Some (k, v) \<Rightarrow> mval_str v
      | None \<Rightarrow> Option.bind (mval_array params) first_str)"

section \<open>The round trip\<close>

text \<open>The JSON values a Rust program holds: valid texts, finite and signed numbers, members sorted by key.\<close>

function json_held :: "json \<Rightarrow> bool" where
  "json_held JNull = True"
| "json_held (JBool _) = True"
| "json_held (JNumber n) = (case n of PosInt _ \<Rightarrow> True | NegInt i \<Rightarrow> sint i < 0 | Float f \<Rightarrow> f64_finite f)"
| "json_held (JString s) = utf8_valid s"
| "json_held (JArray xs) = (\<forall>x \<in> set xs. json_held x)"
| "json_held (JObject ms) = (bt_sorted ms \<and> (\<forall>kv \<in> set ms. utf8_valid (fst kv) \<and> json_held (snd kv)))"
  by pat_completeness auto
termination
proof (relation "measure size", goal_cases)
  case (3 ms kv)
  then have "size (snd kv) < Suc (size_list (size_prod (\<lambda>_. 0) size) ms)"
    by (induction ms) auto
  then show ?case by simp
qed (auto simp: less_Suc_eq_le intro: size_list_estimation' order.refl)

text \<open>Inserting the members of a sorted object in their order rebuilds it.\<close>

lemma json_object_sorted: "bt_sorted ms \<Longrightarrow> json_object ms = JObject ms"
proof -
  have "bt_sorted ms \<Longrightarrow> foldl (\<lambda>m (k, v). bt_put k v m) [] ms = ms"
  proof (induction ms rule: rev_induct)
    case (snoc kv ms)
    obtain k v where kv: "kv = (k, v)" by force
    have "bt_sorted ms" using snoc.prems by (auto simp: bt_sorted_def sorted_wrt_append)
    then show ?case using snoc by (simp add: kv bt_put_end bt_sorted_def sorted_wrt_append)
  qed simp
  then show "bt_sorted ms \<Longrightarrow> json_object ms = JObject ms" by (simp add: json_object_def)
qed

text \<open>(C9) A JSON value that is sent to an extension host and comes back is the value that was sent.\<close>

theorem json_survives_the_wire: "json_held j \<Longrightarrow> rmpv_to_json V (json_to_rmpv j) = j"
proof (induction j rule: json_to_rmpv.induct)
  case (5 xs)
  then have "map (rmpv_to_json V \<circ> json_to_rmpv) xs = map id xs" by (intro map_cong) auto
  then show ?case by simp
next
  case (6 ms)
  then have "map (\<lambda>kv. (fst kv, rmpv_to_json V (json_to_rmpv (snd kv)))) ms = map id ms"
    by (intro map_cong) auto
  moreover have "map (\<lambda>kv. (map_key V (MString (fst kv)), rmpv_to_json V (json_to_rmpv (snd kv)))) ms =
      map (\<lambda>kv. (fst kv, rmpv_to_json V (json_to_rmpv (snd kv)))) ms"
    using 6(2) by (intro map_cong) (auto simp: map_key_def)
  ultimately show ?case using 6(2) by (simp add: comp_def json_object_sorted)
qed (auto simp: json_i64_def json_f64_def split: json_number.splits)

theorem json_survives_the_wire_witness:
  "rmpv_to_json \<lparr>ve_widen = ucast, ve_debug = (\<lambda>_. [])\<rparr>
     (json_to_rmpv (JObject [(''a'', JNumber (NegInt (-3))), (''b'', JArray [JString ''x'', JNull])])) =
   JObject [(''a'', JNumber (NegInt (-3))), (''b'', JArray [JString ''x'', JNull])]"
  by (rule json_survives_the_wire) (simp add: bt_sorted_def, code_simp)

end
