(* ===== verification/ExtManifest.thy ===== *)
theory ExtManifest
  imports Prelude
begin

text \<open>
  The errors of the extension platform (\<^verbatim>\<open>extensions/error.rs\<close>), its activation events
  (\<^verbatim>\<open>activation.rs\<close>) and the manifest of an extension with its validation (\<^verbatim>\<open>manifest.rs\<close>). Parsing
  the JSON text of a manifest is a parameter of the theories that read one.
\<close>

section \<open>Errors\<close>

datatype extension_error =
  ManifestParse string
| ManifestInvalid string
| NamespaceReserved string
| PublisherPrefixMismatch string string
| RequiredFieldMissing string
| NotInstalled string
| AlreadyInstalled string string
| PackageError string
| NotEnabled string
| NotActivated string
| AlreadyActivated string
| UnknownActivationEvent string
| HostSpawn string
| HostCrashed string "32 word" u32
| HostHandshakeTimeout string
| RpcFailure string
| RpcMethodMissing string
| RpcCancelledError
| CapabilityDenied string
| PathCanonicalize string string
| UnknownContributionPoint string
| BadContribution string string string
| ExtIo string
| ExtJson string

type_synonym 'a ext_result = "extension_error + 'a"

definition ext_then :: "'a ext_result \<Rightarrow> ('a \<Rightarrow> 'b ext_result) \<Rightarrow> 'b ext_result" where
  "ext_then m f = (case m of Inl e \<Rightarrow> Inl e | Inr x \<Rightarrow> f x)"

lemma ext_then_Inr [simp]: "ext_then m f = Inr y \<longleftrightarrow> (\<exists>x. m = Inr x \<and> f x = Inr y)"
  by (simp add: ext_then_def split: sum.split)

text \<open>A name in backquotes, as the messages show it.\<close>

definition in_ticks :: "string \<Rightarrow> string" where
  "in_ticks s = [CHR 0x60] @ s @ [CHR 0x60]"

section \<open>Activation events\<close>

datatype activation_event =
  Startup
| Star
| OnCommand string
| OnAgentProvider string
| OnView string

definition str_strip_prefix :: "string \<Rightarrow> string \<Rightarrow> string option" where
  "str_strip_prefix p s = (if str_starts_with s p then Some (drop (length p) s) else None)"

definition with_nonempty :: "(string \<Rightarrow> activation_event) \<Rightarrow> string \<Rightarrow> activation_event option" where
  "with_nonempty ctor i = (if i = [] then None else Some (ctor i))"

definition parse_event :: "string \<Rightarrow> activation_event option" where
  "parse_event raw =
     (if raw = ''onStartup'' then Some Startup
      else if raw = ''*'' then Some Star
      else case str_strip_prefix ''onCommand:'' raw of Some i \<Rightarrow> with_nonempty OnCommand i
      | None \<Rightarrow> (case str_strip_prefix ''onAgentProvider:'' raw of Some i \<Rightarrow> with_nonempty OnAgentProvider i
      | None \<Rightarrow> (case str_strip_prefix ''onView:'' raw of Some i \<Rightarrow> with_nonempty OnView i
      | None \<Rightarrow> None)))"

fun is_eager :: "activation_event \<Rightarrow> bool" where
  "is_eager Startup = True"
| "is_eager Star = True"
| "is_eager _ = False"

fun parse_all_events :: "string list \<Rightarrow> activation_event list ext_result" where
  "parse_all_events [] = Inr []"
| "parse_all_events (raw # raws) = (case parse_event raw of
     None \<Rightarrow> Inl (UnknownActivationEvent raw)
   | Some ev \<Rightarrow> ext_then (parse_all_events raws) (\<lambda>evs. Inr (ev # evs)))"

datatype activation_trigger =
  StartupTrigger
| CommandTrigger string
| AgentProviderSelected string
| ViewOpened string

fun trigger_matches :: "activation_trigger \<Rightarrow> activation_event \<Rightarrow> bool" where
  "trigger_matches _ Star = True"
| "trigger_matches StartupTrigger Startup = True"
| "trigger_matches (CommandTrigger a) (OnCommand b) = (a = b)"
| "trigger_matches (AgentProviderSelected a) (OnAgentProvider b) = (a = b)"
| "trigger_matches (ViewOpened a) (OnView b) = (a = b)"
| "trigger_matches _ _ = False"

section \<open>Manifest\<close>

record engines =
  eng_cronymax :: string

record events_capability =
  ec_subscribe :: "string list"
  ec_emit :: "string list"

record ext_capabilities =
  cap_events :: events_capability
  cap_ignored :: "(string \<times> json) list"

record command_contribution =
  cc_id :: string
  cc_title :: string
  cc_category :: "string option"
  cc_icon :: "string option"

record config_page_contribution =
  cp_id :: string
  cp_title :: string
  cp_entry :: string

record agent_provider_contribution =
  apc_id :: string
  apc_label :: string
  apc_icon :: "string option"
  apc_description :: "string option"
  apc_supports_models :: "bool option"
  apc_supports_modes :: "bool option"
  apc_supports_mcp :: "bool option"

record renderer_csp =
  csp_connect_src :: "string list"

record content_renderer_contribution =
  cr_id :: string
  cr_mime_types :: "string list"
  cr_entry :: string
  cr_csp :: "renderer_csp option"

datatype view_target = ViewMain | ViewRight

record sidebar_view_contribution =
  sv_id :: string
  sv_title :: string
  sv_icon :: "string option"
  sv_entry :: string
  sv_target :: view_target

record contributes =
  ct_commands :: "command_contribution list"
  ct_config_schema :: "json option"
  ct_config_pages :: "config_page_contribution list"
  ct_agent_providers :: "agent_provider_contribution list"
  ct_content_renderers :: "content_renderer_contribution list"
  ct_sidebar_views :: "sidebar_view_contribution list"

record manifest =
  mf_id :: string
  mf_name :: string
  mf_version :: string
  mf_publisher :: string
  mf_engines :: engines
  mf_main :: "string option"
  mf_description :: "string option"
  mf_icon :: "string option"
  mf_repository :: "string option"
  mf_license :: "string option"
  mf_keywords :: "string list option"
  mf_activation_events :: "string list"
  mf_contributes :: contributes
  mf_capabilities :: ext_capabilities
  mf_extension_dependencies :: "string list"

definition no_contributes :: contributes where
  "no_contributes = \<lparr>ct_commands = [], ct_config_schema = None, ct_config_pages = [], ct_agent_providers = [],
     ct_content_renderers = [], ct_sidebar_views = []\<rparr>"

text \<open>\<^verbatim>\<open>Manifest::default\<close>.\<close>

definition default_manifest :: manifest where
  "default_manifest = \<lparr>mf_id = [], mf_name = [], mf_version = [], mf_publisher = [], mf_engines = \<lparr>eng_cronymax = []\<rparr>,
     mf_main = None, mf_description = None, mf_icon = None, mf_repository = None, mf_license = None, mf_keywords = None,
     mf_activation_events = [], mf_contributes = no_contributes,
     mf_capabilities = \<lparr>cap_events = \<lparr>ec_subscribe = [], ec_emit = []\<rparr>, cap_ignored = []\<rparr>,
     mf_extension_dependencies = []\<rparr>"

section \<open>Validation\<close>

definition require_field :: "string \<Rightarrow> string \<Rightarrow> unit ext_result" where
  "require_field f v = (if v = [] then Inl (RequiredFieldMissing f) else Inr ())"

definition validate_required_fields :: "manifest \<Rightarrow> unit ext_result" where
  "validate_required_fields m =
     ext_then (require_field ''id'' (mf_id m)) (\<lambda>_.
     ext_then (require_field ''name'' (mf_name m)) (\<lambda>_.
     ext_then (require_field ''version'' (mf_version m)) (\<lambda>_.
     ext_then (require_field ''publisher'' (mf_publisher m)) (\<lambda>_.
     ext_then (case mf_main m of Some p \<Rightarrow> require_field ''main'' p | None \<Rightarrow> Inr ()) (\<lambda>_.
     require_field ''engines.cronymax'' (eng_cronymax (mf_engines m)))))))"

text \<open>\<^verbatim>\<open>split_once('.')\<close>.\<close>

definition split_dot :: "string \<Rightarrow> (string \<times> string) option" where
  "split_dot s = (if CHR ''.'' \<in> set s then Some (takeWhile (\<lambda>c. c \<noteq> CHR ''.'') s, tl (dropWhile (\<lambda>c. c \<noteq> CHR ''.'') s)) else None)"

definition validate_id_format :: "manifest \<Rightarrow> unit ext_result" where
  "validate_id_format m = (case split_dot (mf_id m) of
     None \<Rightarrow> Inl (ManifestInvalid (''id '' @ in_ticks (mf_id m) @ '' must be '' @ in_ticks ''<publisher>.<name>'' @ '' (got no '' @ in_ticks ''.'' @ '')''))
   | Some (pub, name) \<Rightarrow>
       if pub \<noteq> mf_publisher m then Inl (PublisherPrefixMismatch (mf_id m) (mf_publisher m))
       else if name = [] then Inl (ManifestInvalid (''id '' @ in_ticks (mf_id m) @ '' is missing the '' @ in_ticks ''<name>'' @
         '' segment after '' @ in_ticks ''.''))
       else Inr ())"

definition validate_namespace_reserved :: "manifest \<Rightarrow> unit ext_result" where
  "validate_namespace_reserved m = (if mf_publisher m = ''cronymax''
     then Inl (NamespaceReserved (''publisher '' @ in_ticks ''cronymax'' @ '' is reserved'')) else Inr ())"

definition validate_activation_events :: "manifest \<Rightarrow> unit ext_result" where
  "validate_activation_events m = ext_then (parse_all_events (mf_activation_events m)) (\<lambda>_. Inr ())"

definition validate_manifest :: "manifest \<Rightarrow> unit ext_result" where
  "validate_manifest m =
     ext_then (validate_required_fields m) (\<lambda>_.
     ext_then (validate_id_format m) (\<lambda>_.
     ext_then (validate_namespace_reserved m) (\<lambda>_.
     validate_activation_events m)))"

text \<open>The names that belong to the platform.\<close>

definition reserved_name :: "string \<Rightarrow> bool" where
  "reserved_name s \<longleftrightarrow> str_starts_with s ''cronymax.'' \<or> s = ''cronymax''"

lemma split_dot_Some: "split_dot s = Some (a, b) \<longleftrightarrow> s = a @ CHR ''.'' # b \<and> CHR ''.'' \<notin> set a"
proof
  assume l: "split_dot s = Some (a, b)"
  then have dot: "CHR ''.'' \<in> set s" and ab: "a = takeWhile (\<lambda>c. c \<noteq> CHR ''.'') s" "b = tl (dropWhile (\<lambda>c. c \<noteq> CHR ''.'') s)"
    by (auto simp: split_dot_def split: if_splits)
  from dot have "dropWhile (\<lambda>c. c \<noteq> CHR ''.'') s = CHR ''.'' # b"
    using hd_dropWhile [of "\<lambda>c. c \<noteq> CHR ''.''" s] unfolding ab by (cases "dropWhile (\<lambda>c. c \<noteq> CHR ''.'') s") auto
  then have "s = a @ CHR ''.'' # b" unfolding ab(1) by (metis takeWhile_dropWhile_id)
  moreover have "CHR ''.'' \<notin> set a" unfolding ab(1) by (auto dest: set_takeWhileD)
  ultimately show "s = a @ CHR ''.'' # b \<and> CHR ''.'' \<notin> set a" by blast
next
  assume r: "s = a @ CHR ''.'' # b \<and> CHR ''.'' \<notin> set a"
  then have keep: "\<And>x. x \<in> set a \<Longrightarrow> x \<noteq> CHR ''.''" by auto
  have "takeWhile (\<lambda>c. c \<noteq> CHR ''.'') s = a" "dropWhile (\<lambda>c. c \<noteq> CHR ''.'') s = CHR ''.'' # b"
    using r keep by (simp_all add: takeWhile_append2 dropWhile_append2)
  with r show "split_dot s = Some (a, b)" by (simp add: split_dot_def)
qed

text \<open>What a valid manifest says of its identifier: it is of its publisher, and not of the platform.\<close>

lemma valid_id:
  assumes "validate_manifest m = Inr ()"
  shows "\<exists>name. mf_id m = mf_publisher m @ ''.'' @ name \<and> name \<noteq> []" "\<not> reserved_name (mf_id m)"
proof -
  from assms obtain name where id: "mf_id m = mf_publisher m @ CHR ''.'' # name" "name \<noteq> []" "CHR ''.'' \<notin> set (mf_publisher m)"
    and other: "mf_publisher m \<noteq> ''cronymax''"
    by (auto simp: validate_manifest_def validate_id_format_def validate_namespace_reserved_def split_dot_Some
        split: option.splits prod.splits if_splits)
  from id show "\<exists>name. mf_id m = mf_publisher m @ ''.'' @ name \<and> name \<noteq> []" by auto
  show "\<not> reserved_name (mf_id m)"
  proof
    assume "reserved_name (mf_id m)"
    moreover have "CHR ''.'' \<in> set (mf_id m)" using id(1) by simp
    ultimately obtain t where "mf_id m = ''cronymax'' @ CHR ''.'' # t"
      by (auto simp: reserved_name_def str_starts_with_iff)
    moreover have "CHR ''.'' \<notin> set ''cronymax''" by simp
    ultimately have "split_dot (mf_id m) = Some (''cronymax'', t)" unfolding split_dot_Some by blast
    moreover have "split_dot (mf_id m) = Some (mf_publisher m, name)" using id by (simp add: split_dot_Some)
    ultimately show False using other by simp
  qed
qed

text \<open>A map of distinct keys, filtered by its values.\<close>

lemma map_of_filter_values: "distinct (map fst m) \<Longrightarrow> map_of (filter (\<lambda>(_, d). P d) m) i =
    (case map_of m i of Some d \<Rightarrow> if P d then Some d else None | None \<Rightarrow> None)"
proof (induction m)
  case (Cons p m)
  obtain j d where p: "p = (j, d)" by force
  from Cons.prems have "map_of m j = None" by (simp add: p map_of_eq_None_iff)
  with Cons show ?case by (auto simp: p)
qed simp

end
