(* ===== verification/ExtRegistries.thy ===== *)
theory ExtRegistries
  imports ExtManifest
begin

text \<open>
  The tables of what running extensions have registered (\<^verbatim>\<open>extensions/api/\<close>): commands, agent providers,
  content renderers, sidebar views, webview panels, and the sinks of agent sessions. All but the last share a
  contract, the locale \<open>owned_table\<close>: an identifier has one owner, and only its owner changes or removes its
  entry.
\<close>

section \<open>The contract\<close>

locale owned_table =
  fixes owner :: "'t \<Rightarrow> string \<Rightarrow> string option"
    and enter :: "string \<Rightarrow> string \<Rightarrow> 'x \<Rightarrow> 't \<Rightarrow> 't ext_result"
    and leave :: "string \<Rightarrow> string \<Rightarrow> 't \<Rightarrow> 't ext_result"
    and clear :: "string \<Rightarrow> 't \<Rightarrow> 't"
    and wf_table :: "'t \<Rightarrow> bool"
  assumes enter_owner: "wf_table t \<Longrightarrow> enter ext i x t = Inr t' \<Longrightarrow>
      (owner t i = None \<or> owner t i = Some ext) \<and> owner t' = (owner t)(i \<mapsto> ext)"
    and leave_owner: "wf_table t \<Longrightarrow> leave ext i t = Inr t' \<Longrightarrow>
      (owner t i = None \<or> owner t i = Some ext) \<and> owner t' = (owner t)(i := None)"
    and clear_owner: "wf_table t \<Longrightarrow> owner (clear ext t) = (\<lambda>i. if owner t i = Some ext then None else owner t i)"
    and enter_wf: "wf_table t \<Longrightarrow> enter ext i x t = Inr t' \<Longrightarrow> wf_table t'"
    and leave_wf: "wf_table t \<Longrightarrow> leave ext i t = Inr t' \<Longrightarrow> wf_table t'"
    and clear_wf: "wf_table t \<Longrightarrow> wf_table (clear ext t)"

text \<open>A use of a table by an extension; a refused one changes nothing.\<close>

datatype 'x table_op = TableEnter string string 'x | TableLeave string string | TableClear string

fun table_user :: "'x table_op \<Rightarrow> string" where
  "table_user (TableEnter ext i x) = ext"
| "table_user (TableLeave ext i) = ext"
| "table_user (TableClear ext) = ext"

context owned_table
begin

fun use :: "'x table_op \<Rightarrow> 't \<Rightarrow> 't" where
  "use (TableEnter ext i x) t = (case enter ext i x t of Inr t' \<Rightarrow> t' | Inl _ \<Rightarrow> t)"
| "use (TableLeave ext i) t = (case leave ext i t of Inr t' \<Rightarrow> t' | Inl _ \<Rightarrow> t)"
| "use (TableClear ext) t = clear ext t"

definition uses :: "'x table_op list \<Rightarrow> 't \<Rightarrow> 't" where
  "uses ops t = foldl (\<lambda>t x. use x t) t ops"

lemma use_wf: "wf_table t \<Longrightarrow> wf_table (use x t)"
  by (cases x) (auto simp: clear_wf dest: enter_wf leave_wf split: sum.split)

lemma uses_wf: "wf_table t \<Longrightarrow> wf_table (uses ops t)"
  unfolding uses_def by (induction ops arbitrary: t) (auto simp: use_wf)

text \<open>Nobody else takes an identifier, or its entry, from its owner.\<close>

lemma owner_keeps:
  assumes "wf_table t" and "owner t i = Some ext" and "\<And>x. x \<in> set ops \<Longrightarrow> table_user x \<noteq> ext"
  shows "owner (uses ops t) i = Some ext"
  using assms
proof (induction ops arbitrary: t)
  case (Cons x ops)
  have "owner (use x t) i = Some ext"
  proof (cases x)
    case (TableEnter e j y)
    then show ?thesis using Cons.prems(1,2) Cons.prems(3) [of x]
      by (cases "enter e j y t") (auto dest!: enter_owner)
  next
    case (TableLeave e j)
    then show ?thesis using Cons.prems(1,2) Cons.prems(3) [of x]
      by (cases "leave e j t") (auto dest!: leave_owner)
  next
    case (TableClear e)
    then show ?thesis using Cons.prems(1,2) Cons.prems(3) [of x] by (simp add: clear_owner)
  qed
  then show ?case using Cons.IH [OF use_wf [OF Cons.prems(1)]] Cons.prems(3) by (simp add: uses_def)
qed (simp add: uses_def)

text \<open>After a clearing, and until it enters something again, an extension owns nothing.\<close>

lemma cleared_owns_nothing:
  assumes "wf_table t" and "\<And>i y. TableEnter ext i y \<notin> set ops"
  shows "owner (uses ops (clear ext t)) i \<noteq> Some ext"
proof -
  have "owner (uses ops t) i \<noteq> Some ext" if "wf_table t" "\<And>i. owner t i \<noteq> Some ext" for t i
    using that assms(2)
  proof (induction ops arbitrary: t)
    case (Cons x ops)
    have "owner (use x t) i \<noteq> Some ext" for i
    proof (cases x)
      case (TableEnter e j y)
      then show ?thesis using Cons.prems(1) Cons.prems(2) [of i] Cons.prems(3) [of j y]
        by (cases "enter e j y t") (auto dest!: enter_owner split: if_splits)
    next
      case (TableLeave e j)
      then show ?thesis using Cons.prems(1) Cons.prems(2) [of i]
        by (cases "leave e j t") (auto dest!: leave_owner split: if_splits)
    next
      case (TableClear e)
      then show ?thesis using Cons.prems(1,2) by (simp add: clear_owner)
    qed
    then show ?case using Cons.IH [of "use x t"] use_wf Cons.prems(1,3) by (simp add: uses_def)
  qed (simp add: uses_def)
  then show ?thesis using clear_wf [OF assms(1)] by (simp add: clear_owner assms(1))
qed

end
text \<open>How a map of entries that name their owner satisfies it.\<close>

definition entry_owner :: "('e \<Rightarrow> string) \<Rightarrow> (string \<times> 'e) list \<Rightarrow> string \<Rightarrow> string option" where
  "entry_owner own t i = map_option own (map_of t i)"

definition drop_owned :: "('e \<Rightarrow> string) \<Rightarrow> string \<Rightarrow> (string \<times> 'e) list \<Rightarrow> (string \<times> 'e) list" where
  "drop_owned own ext t = filter (\<lambda>(_, e). own e \<noteq> ext) t"

definition keyed :: "(string \<times> 'e) list \<Rightarrow> bool" where
  "keyed t \<longleftrightarrow> distinct (map fst t)"

lemma keyed_put [simp]: "keyed t \<Longrightarrow> keyed (hm_put i e t)" by (simp add: keyed_def distinct_hm_put)
lemma keyed_remove [simp]: "keyed t \<Longrightarrow> keyed (hm_remove i t)" by (simp add: keyed_def distinct_hm_remove)
lemma keyed_drop [simp]: "keyed t \<Longrightarrow> keyed (drop_owned own ext t)"
  by (simp add: keyed_def drop_owned_def distinct_map_filter)
lemma keyed_Nil [simp]: "keyed []" by (simp add: keyed_def)

lemma map_of_drop_owned: "keyed t \<Longrightarrow> map_of (drop_owned own ext t) i =
    (case map_of t i of Some e \<Rightarrow> if own e = ext then None else Some e | None \<Rightarrow> None)"
  by (simp add: keyed_def drop_owned_def map_of_filter_values split: option.split)

lemma entry_owner_drop: "keyed t \<Longrightarrow> entry_owner own (drop_owned own ext t) =
    (\<lambda>i. if entry_owner own t i = Some ext then None else entry_owner own t i)"
  by (auto simp: fun_eq_iff entry_owner_def map_of_drop_owned split: option.split)

lemma entry_owner_put: "entry_owner own (hm_put i e t) = (entry_owner own t)(i \<mapsto> own e)"
  by (auto simp: fun_eq_iff entry_owner_def store_simps)

lemma entry_owner_remove: "entry_owner own (hm_remove i t) = (entry_owner own t)(i := None)"
  by (auto simp: fun_eq_iff entry_owner_def store_simps)

lemmas entry_owner_simps = entry_owner_put entry_owner_remove entry_owner_drop

definition reserved_by_platform :: "string \<Rightarrow> string \<Rightarrow> extension_error" where
  "reserved_by_platform what i = NamespaceReserved (what @ in_ticks i @ '' is reserved by the platform'')"

section \<open>Commands\<close>

type_synonym command_registry = "(string \<times> string) list"

definition register_command :: "string \<Rightarrow> string \<Rightarrow> command_registry \<Rightarrow> command_registry ext_result" where
  "register_command ext i t =
     (if reserved_name i then Inl (NamespaceReserved (''command id '' @ in_ticks i @ '' is in the platform namespace''))
      else case map_of t i of
        Some existing \<Rightarrow> if existing = ext then Inr t
          else Inl (BadContribution ''cronymax.command'' ext (''command '' @ in_ticks i @ '' is already owned by '' @ in_ticks existing))
      | None \<Rightarrow> Inr (hm_put i ext t))"

definition unregister_command :: "string \<Rightarrow> string \<Rightarrow> command_registry \<Rightarrow> command_registry ext_result" where
  "unregister_command ext i t = (case map_of t i of
     Some own \<Rightarrow> if own = ext then Inr (hm_remove i t)
       else Inl (BadContribution ''cronymax.command'' ext (''command '' @ in_ticks i @ '' is owned by '' @ in_ticks own @ '', not '' @ in_ticks ext))
   | None \<Rightarrow> Inr t)"

definition unregister_commands_of :: "string \<Rightarrow> command_registry \<Rightarrow> command_registry" where
  "unregister_commands_of = drop_owned (\<lambda>own. own)"

definition command_owner :: "command_registry \<Rightarrow> string \<Rightarrow> string option" where
  "command_owner t i = map_of t i"

definition commands_for :: "string \<Rightarrow> command_registry \<Rightarrow> string list" where
  "commands_for ext t = sort (map fst (filter (\<lambda>(_, own). own = ext) t))"

definition all_commands :: "command_registry \<Rightarrow> (string \<times> string) list" where
  "all_commands t = sort_key fst t"

lemma command_owner_entry: "command_owner = entry_owner (\<lambda>own. own)"
  by (simp add: fun_eq_iff command_owner_def entry_owner_def option.map_ident)

interpretation cmd: owned_table command_owner "\<lambda>ext i (_::unit). register_command ext i" unregister_command unregister_commands_of keyed
  by unfold_locales
    (auto simp: command_owner_entry entry_owner_simps unregister_commands_of_def register_command_def unregister_command_def
      entry_owner_def fun_eq_iff store_simps split: if_splits option.splits)

section \<open>Agent providers, content renderers and sidebar views\<close>

record provider_entry =
  prv_id :: string
  prv_ext :: string
  prv_label :: string
  prv_icon :: "string option"
  prv_description :: "string option"
  prv_supports_models :: bool
  prv_supports_modes :: bool
  prv_supports_mcp :: bool

record renderer_entry =
  re_id :: string
  re_ext :: string
  re_mime_types :: "string list"
  re_entry :: string
  re_csp :: "renderer_csp option"

record sidebar_view_entry =
  sve_id :: string
  sve_ext :: string
  sve_title :: string
  sve_icon :: "string option"
  sve_entry :: string

type_synonym provider_registry = "(string \<times> provider_entry) list"
type_synonym renderer_registry = "(string \<times> renderer_entry) list"
type_synonym sidebar_registry = "(string \<times> sidebar_view_entry) list"

definition register_provider :: "provider_entry \<Rightarrow> provider_registry \<Rightarrow> provider_registry ext_result" where
  "register_provider e t =
     (if reserved_name (prv_id e) then Inl (reserved_by_platform ''agent provider id '' (prv_id e))
      else case map_of t (prv_id e) of
        Some existing \<Rightarrow> if prv_ext existing \<noteq> prv_ext e
          then Inl (BadContribution ''cronymax.agents.provider'' (prv_ext e)
            (''provider id '' @ in_ticks (prv_id e) @ '' is already owned by '' @ in_ticks (prv_ext existing)))
          else Inr (hm_put (prv_id e) e t)
      | None \<Rightarrow> Inr (hm_put (prv_id e) e t))"

definition unregister_provider :: "string \<Rightarrow> string \<Rightarrow> provider_registry \<Rightarrow> (bool \<times> provider_registry) ext_result" where
  "unregister_provider ext i t = (case map_of t i of
     None \<Rightarrow> Inr (False, t)
   | Some existing \<Rightarrow> if prv_ext existing \<noteq> ext
       then Inl (BadContribution ''cronymax.agents.provider'' ext
         (''provider '' @ in_ticks i @ '' is owned by '' @ in_ticks (prv_ext existing) @ '', not '' @ in_ticks ext))
       else Inr (True, hm_remove i t))"

definition unregister_providers_of :: "string \<Rightarrow> provider_registry \<Rightarrow> nat \<times> provider_registry" where
  "unregister_providers_of ext t = (length t - length (drop_owned prv_ext ext t), drop_owned prv_ext ext t)"

definition list_providers :: "provider_registry \<Rightarrow> provider_entry list" where
  "list_providers t = sort_key prv_id (map snd t)"

definition register_renderer :: "renderer_entry \<Rightarrow> renderer_registry \<Rightarrow> renderer_registry ext_result" where
  "register_renderer e t =
     (if reserved_name (re_id e) then Inl (reserved_by_platform ''renderer id '' (re_id e))
      else case map_of t (re_id e) of
        Some existing \<Rightarrow> if re_ext existing \<noteq> re_ext e
          then Inl (BadContribution ''cronymax.content.renderer'' (re_ext e)
            (''renderer id '' @ in_ticks (re_id e) @ '' is already owned by '' @ in_ticks (re_ext existing)))
          else Inr (hm_put (re_id e) e t)
      | None \<Rightarrow> Inr (hm_put (re_id e) e t))"

definition unregister_renderer :: "string \<Rightarrow> string \<Rightarrow> renderer_registry \<Rightarrow> (bool \<times> renderer_registry) ext_result" where
  "unregister_renderer ext i t = (case map_of t i of
     None \<Rightarrow> Inr (False, t)
   | Some existing \<Rightarrow> if re_ext existing \<noteq> ext
       then Inl (BadContribution ''cronymax.content.renderer'' ext
         (''renderer '' @ in_ticks i @ '' is owned by '' @ in_ticks (re_ext existing) @ '', not '' @ in_ticks ext))
       else Inr (True, hm_remove i t))"

definition unregister_renderers_of :: "string \<Rightarrow> renderer_registry \<Rightarrow> nat \<times> renderer_registry" where
  "unregister_renderers_of ext t = (length t - length (drop_owned re_ext ext t), drop_owned re_ext ext t)"

text \<open>The renderers of a manifest, up to the first that is refused; those before it stay.\<close>

fun ingest_renderers :: "content_renderer_contribution list \<Rightarrow> string \<Rightarrow> nat \<Rightarrow> renderer_registry \<Rightarrow> nat ext_result \<times> renderer_registry" where
  "ingest_renderers [] ext n t = (Inr n, t)"
| "ingest_renderers (d # ds) ext n t =
     (case register_renderer \<lparr>re_id = cr_id d, re_ext = ext, re_mime_types = cr_mime_types d, re_entry = cr_entry d, re_csp = cr_csp d\<rparr> t of
        Inl e \<Rightarrow> (Inl e, t)
      | Inr t' \<Rightarrow> ingest_renderers ds ext (n + 1) t')"

definition ingest_manifest :: "manifest \<Rightarrow> string \<Rightarrow> renderer_registry \<Rightarrow> nat ext_result \<times> renderer_registry" where
  "ingest_manifest m ext t = ingest_renderers (ct_content_renderers (mf_contributes m)) ext 0 t"

definition first_for_mime :: "string \<Rightarrow> renderer_registry \<Rightarrow> renderer_entry option" where
  "first_for_mime mime t = (case sort_key re_id (filter (\<lambda>e. mime \<in> set (re_mime_types e)) (map snd t)) of
     [] \<Rightarrow> None | e # _ \<Rightarrow> Some e)"

definition list_renderers :: "renderer_registry \<Rightarrow> renderer_entry list" where
  "list_renderers t = sort_key re_id (map snd t)"

definition register_sidebar :: "sidebar_view_entry \<Rightarrow> sidebar_registry \<Rightarrow> sidebar_registry ext_result" where
  "register_sidebar e t =
     (if reserved_name (sve_id e) then Inl (reserved_by_platform ''sidebar view id '' (sve_id e))
      else case map_of t (sve_id e) of
        Some existing \<Rightarrow> if sve_ext existing \<noteq> sve_ext e
          then Inl (BadContribution ''cronymax.ui.sidebar.view'' (sve_ext e)
            (''sidebar view id '' @ in_ticks (sve_id e) @ '' is already owned by '' @ in_ticks (sve_ext existing)))
          else Inr (hm_put (sve_id e) e t)
      | None \<Rightarrow> Inr (hm_put (sve_id e) e t))"

definition unregister_sidebar :: "string \<Rightarrow> string \<Rightarrow> sidebar_registry \<Rightarrow> (bool \<times> sidebar_registry) ext_result" where
  "unregister_sidebar ext i t = (case map_of t i of
     None \<Rightarrow> Inr (False, t)
   | Some existing \<Rightarrow> if sve_ext existing \<noteq> ext
       then Inl (BadContribution ''cronymax.ui.sidebar.view'' ext
         (''sidebar view '' @ in_ticks i @ '' is owned by '' @ in_ticks (sve_ext existing) @ '', not '' @ in_ticks ext))
       else Inr (True, hm_remove i t))"

definition unregister_sidebars_of :: "string \<Rightarrow> sidebar_registry \<Rightarrow> nat \<times> sidebar_registry" where
  "unregister_sidebars_of ext t = (length t - length (drop_owned sve_ext ext t), drop_owned sve_ext ext t)"

definition list_sidebars :: "sidebar_registry \<Rightarrow> sidebar_view_entry list" where
  "list_sidebars t = sort_key sve_id (map snd t)"

text \<open>What an unregistering leaves in the table.\<close>

definition left_table :: "(bool \<times> 't) ext_result \<Rightarrow> 't ext_result" where
  "left_table r = map_sum id snd r"

lemma no_owner: "f i = None \<Longrightarrow> f(i := None) = f"
  by auto

lemma register_provider_Inr: "register_provider e t = Inr t' \<longleftrightarrow> \<not> reserved_name (prv_id e) \<and>
    (entry_owner prv_ext t (prv_id e) = None \<or> entry_owner prv_ext t (prv_id e) = Some (prv_ext e)) \<and> t' = hm_put (prv_id e) e t"
  by (cases "map_of t (prv_id e)") (auto simp: register_provider_def entry_owner_def)

lemma unregister_provider_left: "left_table (unregister_provider ext i t) = Inr t' \<longleftrightarrow>
    entry_owner prv_ext t i = None \<and> t' = t \<or> entry_owner prv_ext t i = Some ext \<and> t' = hm_remove i t"
  by (cases "map_of t i") (auto simp: unregister_provider_def entry_owner_def left_table_def)

interpretation prv: owned_table "entry_owner prv_ext" "\<lambda>ext i x. register_provider (x\<lparr>prv_id := i, prv_ext := ext\<rparr>)"
    "\<lambda>ext i t. left_table (unregister_provider ext i t)" "\<lambda>ext t. snd (unregister_providers_of ext t)" keyed
  by unfold_locales (auto simp: register_provider_Inr unregister_provider_left unregister_providers_of_def entry_owner_simps no_owner)

lemma register_renderer_Inr: "register_renderer e t = Inr t' \<longleftrightarrow> \<not> reserved_name (re_id e) \<and>
    (entry_owner re_ext t (re_id e) = None \<or> entry_owner re_ext t (re_id e) = Some (re_ext e)) \<and> t' = hm_put (re_id e) e t"
  by (cases "map_of t (re_id e)") (auto simp: register_renderer_def entry_owner_def)

lemma unregister_renderer_left: "left_table (unregister_renderer ext i t) = Inr t' \<longleftrightarrow>
    entry_owner re_ext t i = None \<and> t' = t \<or> entry_owner re_ext t i = Some ext \<and> t' = hm_remove i t"
  by (cases "map_of t i") (auto simp: unregister_renderer_def entry_owner_def left_table_def)

interpretation ren: owned_table "entry_owner re_ext" "\<lambda>ext i x. register_renderer (x\<lparr>re_id := i, re_ext := ext\<rparr>)"
    "\<lambda>ext i t. left_table (unregister_renderer ext i t)" "\<lambda>ext t. snd (unregister_renderers_of ext t)" keyed
  by unfold_locales (auto simp: register_renderer_Inr unregister_renderer_left unregister_renderers_of_def entry_owner_simps no_owner)

lemma register_sidebar_Inr: "register_sidebar e t = Inr t' \<longleftrightarrow> \<not> reserved_name (sve_id e) \<and>
    (entry_owner sve_ext t (sve_id e) = None \<or> entry_owner sve_ext t (sve_id e) = Some (sve_ext e)) \<and> t' = hm_put (sve_id e) e t"
  by (cases "map_of t (sve_id e)") (auto simp: register_sidebar_def entry_owner_def)

lemma unregister_sidebar_left: "left_table (unregister_sidebar ext i t) = Inr t' \<longleftrightarrow>
    entry_owner sve_ext t i = None \<and> t' = t \<or> entry_owner sve_ext t i = Some ext \<and> t' = hm_remove i t"
  by (cases "map_of t i") (auto simp: unregister_sidebar_def entry_owner_def left_table_def)

interpretation sve: owned_table "entry_owner sve_ext" "\<lambda>ext i x. register_sidebar (x\<lparr>sve_id := i, sve_ext := ext\<rparr>)"
    "\<lambda>ext i t. left_table (unregister_sidebar ext i t)" "\<lambda>ext t. snd (unregister_sidebars_of ext t)" keyed
  by unfold_locales (auto simp: register_sidebar_Inr unregister_sidebar_left unregister_sidebars_of_def entry_owner_simps no_owner)

text \<open>A refused entry leaves the others of the manifest out, but every renderer entered is of the extension.\<close>

lemma keyed_ingest: "keyed t \<Longrightarrow> keyed (snd (ingest_renderers ds ext n t))"
  by (induction ds ext n t rule: ingest_renderers.induct) (auto simp: register_renderer_Inr split: sum.split)

lemma ingest_renderers_owner:
  "entry_owner re_ext (snd (ingest_renderers ds ext n t)) i = entry_owner re_ext t i \<or>
     entry_owner re_ext t i = None \<and> entry_owner re_ext (snd (ingest_renderers ds ext n t)) i = Some ext \<and> i \<in> cr_id ` set ds"
proof (induction ds ext n t rule: ingest_renderers.induct)
  case (2 d ds ext n t)
  show ?case
  proof (cases "register_renderer \<lparr>re_id = cr_id d, re_ext = ext, re_mime_types = cr_mime_types d, re_entry = cr_entry d, re_csp = cr_csp d\<rparr> t")
    case (Inr t')
    then have "entry_owner re_ext t' = (entry_owner re_ext t)(cr_id d \<mapsto> ext)"
      "entry_owner re_ext t (cr_id d) = None \<or> entry_owner re_ext t (cr_id d) = Some ext"
      by (auto simp: register_renderer_Inr entry_owner_simps)
    then show ?thesis using 2 [OF Inr] by (cases "i = cr_id d") (auto simp: Inr)
  qed simp
qed simp

section \<open>Webview panels\<close>

datatype panel_slot = SidebarSlot | SettingsSlot | TabSlot | ActivityBarSlot | StatusBarSlot

definition slot_from_idl :: "string \<Rightarrow> panel_slot option" where
  "slot_from_idl raw =
     (if raw = ''sidebar'' then Some SidebarSlot
      else if raw = ''settings'' then Some SettingsSlot
      else if raw = ''tab'' then Some TabSlot
      else if raw = ''activitybar'' then Some ActivityBarSlot
      else if raw = ''statusbar'' then Some StatusBarSlot
      else None)"

fun slot_idl :: "panel_slot \<Rightarrow> string" where
  "slot_idl SidebarSlot = ''sidebar''"
| "slot_idl SettingsSlot = ''settings''"
| "slot_idl TabSlot = ''tab''"
| "slot_idl ActivityBarSlot = ''activitybar''"
| "slot_idl StatusBarSlot = ''statusbar''"

lemma slot_round_trip: "slot_from_idl raw = Some s \<longleftrightarrow> raw = slot_idl s"
  by (cases s) (auto simp: slot_from_idl_def)

record panel_view =
  pv_ext :: string
  pv_id :: string
  pv_title :: string
  pv_slot :: panel_slot
  pv_entry :: string
  pv_visible :: bool

datatype webview_event =
  PanelCreated string string string string string string
| PanelDisposed string
| PanelMessage string json
| VisibilityChanged string bool

type_synonym webview_registry = "(string \<times> panel_view) list"

text \<open>\<^verbatim>\<open>trim_start_matches\<close> for the two prefixes; the characters escaped are written as two hexadecimal digits.\<close>

fun trim_dot_slashes :: "string \<Rightarrow> string" where
  "trim_dot_slashes (a # b # s) = (if a = CHR ''.'' \<and> b = CHR ''/'' then trim_dot_slashes s else a # b # s)"
| "trim_dot_slashes s = s"

definition trim_slashes :: "string \<Rightarrow> string" where
  "trim_slashes = dropWhile (\<lambda>c. c = CHR ''/'')"

definition url_escape :: "string \<Rightarrow> string" where
  "url_escape s = concat (map (\<lambda>c.
     if c = CHR ''?'' then ''%3F'' else if c = CHR ''#'' then ''%23'' else if c = CHR ''&'' then ''%26''
     else if c = CHR ''='' then ''%3D'' else if c = CHR '' '' then ''%20'' else if c = CHR ''/'' then ''%2F''
     else if c = CHR 0x5C then ''%5C'' else [c]) s)"

definition url_for_surface :: "string \<Rightarrow> string \<Rightarrow> string \<Rightarrow> string \<Rightarrow> string" where
  "url_for_surface ext surface i entry =
     ''cronymax-webview://'' @ ext @ ''/'' @ trim_slashes (trim_dot_slashes entry) @
     ''?surface='' @ url_escape surface @ ''&id='' @ url_escape i"

definition url_for :: "string \<Rightarrow> string \<Rightarrow> string \<Rightarrow> string" where
  "url_for ext panel entry = url_for_surface ext ''panel'' panel entry"

definition not_your_panel :: "string \<Rightarrow> string \<Rightarrow> panel_view \<Rightarrow> extension_error" where
  "not_your_panel ext i p = BadContribution ''cronymax.window.panel'' ext
     (''panel '' @ in_ticks i @ '' is owned by '' @ in_ticks (pv_ext p) @ '', not '' @ in_ticks ext)"

definition create_panel :: "string \<Rightarrow> string \<Rightarrow> string \<Rightarrow> panel_slot \<Rightarrow> string \<Rightarrow> webview_registry
    \<Rightarrow> panel_view ext_result \<times> webview_registry \<times> webview_event list" where
  "create_panel ext i title slot entry t =
     (if map_of t i \<noteq> None
      then (Inl (BadContribution ''cronymax.window.panel'' ext (''panel '' @ in_ticks i @ '' already exists'')), t, [])
      else let v = \<lparr>pv_ext = ext, pv_id = i, pv_title = title, pv_slot = slot, pv_entry = entry, pv_visible = False\<rparr>
           in (Inr v, hm_put i v t, [PanelCreated ext i title (slot_idl slot) entry (url_for ext i entry)]))"

definition dispose_panel :: "string \<Rightarrow> string \<Rightarrow> webview_registry \<Rightarrow> bool ext_result \<times> webview_registry \<times> webview_event list" where
  "dispose_panel ext i t = (case map_of t i of
     Some p \<Rightarrow> if pv_ext p = ext then (Inr True, hm_remove i t, [PanelDisposed i]) else (Inl (not_your_panel ext i p), t, [])
   | None \<Rightarrow> (Inr False, t, []))"

definition dispose_panels_of :: "string \<Rightarrow> webview_registry \<Rightarrow> nat \<times> webview_registry \<times> webview_event list" where
  "dispose_panels_of ext t =
     (let removed = map fst (filter (\<lambda>(_, p). pv_ext p = ext) t)
      in (length removed, drop_owned pv_ext ext t, map PanelDisposed removed))"

definition set_panel_visible :: "string \<Rightarrow> string \<Rightarrow> bool \<Rightarrow> webview_registry \<Rightarrow> unit ext_result \<times> webview_registry \<times> webview_event list" where
  "set_panel_visible ext i visible t = (case map_of t i of
     None \<Rightarrow> (Inl (BadContribution ''cronymax.window.panel'' ext (''panel '' @ in_ticks i @ '' does not exist'')), t, [])
   | Some p \<Rightarrow> if pv_ext p \<noteq> ext then (Inl (not_your_panel ext i p), t, [])
       else (Inr (), hm_put i (p\<lparr>pv_visible := visible\<rparr>) t, [VisibilityChanged i visible]))"

definition deliver_panel_message :: "string \<Rightarrow> string \<Rightarrow> json \<Rightarrow> webview_registry \<Rightarrow> unit ext_result \<times> webview_event list" where
  "deliver_panel_message ext i payload t = (case map_of t i of
     None \<Rightarrow> (Inl (BadContribution ''cronymax.window.panel'' ext (''panel '' @ in_ticks i @ '' does not exist'')), [])
   | Some p \<Rightarrow> if pv_ext p \<noteq> ext then (Inl (not_your_panel ext i p), []) else (Inr (), [PanelMessage i payload]))"

definition deliver_to_frame :: "string \<Rightarrow> json \<Rightarrow> webview_event list" where
  "deliver_to_frame frame payload = [PanelMessage frame payload]"

definition panel_owner :: "webview_registry \<Rightarrow> string \<Rightarrow> string option" where
  "panel_owner t i = map_option pv_ext (map_of t i)"

definition panels_for :: "string \<Rightarrow> webview_registry \<Rightarrow> panel_view list" where
  "panels_for ext t = sort_key pv_id (filter (\<lambda>p. pv_ext p = ext) (map snd t))"

definition panel_snapshot :: "webview_registry \<Rightarrow> panel_view list" where
  "panel_snapshot t = sort_key pv_id (map snd t)"

text \<open>The table alone, after a call on it.\<close>

definition panel_table :: "'a ext_result \<times> webview_registry \<times> webview_event list \<Rightarrow> webview_registry ext_result" where
  "panel_table r = (case r of (Inl e, _) \<Rightarrow> Inl e | (Inr _, t, _) \<Rightarrow> Inr t)"

lemma panel_owner_entry: "panel_owner = entry_owner pv_ext"
  by (simp add: fun_eq_iff panel_owner_def entry_owner_def)

lemma create_panel_Inr: "panel_table (create_panel ext i title slot entry t) = Inr t' \<longleftrightarrow> panel_owner t i = None \<and>
    t' = hm_put i \<lparr>pv_ext = ext, pv_id = i, pv_title = title, pv_slot = slot, pv_entry = entry, pv_visible = False\<rparr> t"
  by (auto simp: create_panel_def panel_table_def panel_owner_def Let_def)

lemma dispose_panel_Inr: "panel_table (dispose_panel ext i t) = Inr t' \<longleftrightarrow>
    panel_owner t i = None \<and> t' = t \<or> panel_owner t i = Some ext \<and> t' = hm_remove i t"
  by (cases "map_of t i") (auto simp: dispose_panel_def panel_table_def panel_owner_def)

interpretation pnl: owned_table panel_owner "\<lambda>ext i (title, slot, entry) t. panel_table (create_panel ext i title slot entry t)"
    "\<lambda>ext i t. panel_table (dispose_panel ext i t)" "\<lambda>ext t. fst (snd (dispose_panels_of ext t))" keyed
  by unfold_locales
    (auto simp: create_panel_Inr dispose_panel_Inr dispose_panels_of_def Let_def panel_owner_entry entry_owner_simps no_owner)

end
