(* ===== verification/ExtSessions.thy ===== *)
theory ExtSessions
  imports ExtRegistries Serde
begin

text \<open>
  The sessions extension agents run (the second half of \<^verbatim>\<open>extensions/api/agents.rs\<close>): the events of a turn, and
  the router that carries them to the dispatcher that waits for them; and the record of what is activated
  (\<^verbatim>\<open>extensions/api/lifecycle.rs\<close>).
\<close>

section \<open>Events of a session\<close>

datatype agent_session_event =
  AseText string
| AseThinking string
| AseToolCall string string json string "string option"
| AseToolCallUpdate string string json
| AsePermissionRequest string string json
| AseDone string "string option"

datatype agent_session_message = SessionEvent agent_session_event | TurnDone

text \<open>The tag of an internally tagged enum and what is left: of an object the other members, of an array the tail.\<close>

fun split_kind :: "json \<Rightarrow> (string \<times> json) option" where
  "split_kind (JObject ms) = (if length (filter (\<lambda>(k, _). k = ''kind'') ms) = 1
     then (case map_of ms ''kind'' of Some (JString t) \<Rightarrow> Some (t, JObject (filter (\<lambda>(k, _). k \<noteq> ''kind'') ms)) | _ \<Rightarrow> None)
     else None)"
| "split_kind (JArray (JString t # js)) = Some (t, JArray js)"
| "split_kind _ = None"

definition json_any :: "json \<Rightarrow> json option" where
  "json_any j = Some j"

definition session_event_from :: "json \<Rightarrow> agent_session_event option" where
  "session_event_from j = (case split_kind j of
     None \<Rightarrow> None
   | Some (t, rest) \<Rightarrow>
       if t = ''text'' then (case struct_fields 1 [''text''] rest of
           Some [x] \<Rightarrow> map_option AseText (required json_as_str x) | _ \<Rightarrow> None)
       else if t = ''thinking'' then (case struct_fields 1 [''text''] rest of
           Some [x] \<Rightarrow> map_option AseThinking (required json_as_str x) | _ \<Rightarrow> None)
       else if t = ''toolCall'' then (case struct_fields 4 [''id'', ''name'', ''input'', ''source'', ''status''] rest of
           Some [i, n, a, s, st] \<Rightarrow> (case (required json_as_str i, required json_as_str n, required json_any a, required json_as_str s,
               optional json_as_str st) of
             (Some i', Some n', Some a', Some s', Some st') \<Rightarrow> Some (AseToolCall i' n' a' s' st') | _ \<Rightarrow> None)
         | _ \<Rightarrow> None)
       else if t = ''toolCallUpdate'' then (case struct_fields 2 [''id'', ''status'', ''output''] rest of
           Some [i, s, a] \<Rightarrow> (case (required json_as_str i, required json_as_str s, defaulted json_any JNull a) of
             (Some i', Some s', Some a') \<Rightarrow> Some (AseToolCallUpdate i' s' a') | _ \<Rightarrow> None)
         | _ \<Rightarrow> None)
       else if t = ''permissionRequest'' then (case struct_fields 2 [''requestId'', ''tool'', ''options''] rest of
           Some [i, n, a] \<Rightarrow> (case (required json_as_str i, required json_as_str n, defaulted json_any JNull a) of
             (Some i', Some n', Some a') \<Rightarrow> Some (AsePermissionRequest i' n' a') | _ \<Rightarrow> None)
         | _ \<Rightarrow> None)
       else if t = ''done'' then (case struct_fields 1 [''stopReason'', ''errorMessage''] rest of
           Some [s, e] \<Rightarrow> (case (required json_as_str s, optional json_as_str e) of
             (Some s', Some e') \<Rightarrow> Some (AseDone s' e') | _ \<Rightarrow> None)
         | _ \<Rightarrow> None)
       else None)"

section \<open>The router\<close>

text \<open>
  A registered session has a sink, the sending half of a bounded channel; the channels made so far are kept by number.
  A sender waits while the channel is full, and fails when the receiver is gone.
\<close>

definition SESSION_CAPACITY :: nat where "SESSION_CAPACITY = 64"

record session_sink =
  sk_ext :: string
  sk_channel :: nat

record session_channel =
  sc_queue :: "agent_session_message list"
  sc_receiving :: bool

record session_router =
  sr_sinks :: "(string \<times> session_sink) list"
  sr_channels :: "session_channel list"

definition new_router :: session_router where
  "new_router = \<lparr>sr_sinks = [], sr_channels = []\<rparr>"

definition register_session :: "string \<Rightarrow> string \<Rightarrow> session_router \<Rightarrow> nat ext_result \<times> session_router" where
  "register_session session ext r =
     (if map_of (sr_sinks r) session \<noteq> None
      then (Inl (BadContribution ''cronymax.agents.session'' [] (''session id '' @ in_ticks session @ '' already has an active sink'')), r)
      else let c = length (sr_channels r) in
           (Inr c, r\<lparr>sr_sinks := hm_put session \<lparr>sk_ext = ext, sk_channel = c\<rparr> (sr_sinks r),
              sr_channels := sr_channels r @ [\<lparr>sc_queue = [], sc_receiving = True\<rparr>]\<rparr>))"

definition unregister_session :: "string \<Rightarrow> session_router \<Rightarrow> bool \<times> session_router" where
  "unregister_session session r = (map_of (sr_sinks r) session \<noteq> None, r\<lparr>sr_sinks := hm_remove session (sr_sinks r)\<rparr>)"

definition close_sessions_of :: "string \<Rightarrow> session_router \<Rightarrow> nat \<times> session_router" where
  "close_sessions_of ext r =
     (let kept = drop_owned sk_ext ext (sr_sinks r) in (length (sr_sinks r) - length kept, r\<lparr>sr_sinks := kept\<rparr>))"

text \<open>No result means that the sender waits for room.\<close>

definition route_message :: "string \<Rightarrow> agent_session_message \<Rightarrow> session_router \<Rightarrow> (bool ext_result \<times> session_router) option" where
  "route_message session msg r = (case map_of (sr_sinks r) session of
     None \<Rightarrow> Some (Inr False, r)
   | Some sk \<Rightarrow>
       (let c = sr_channels r ! sk_channel sk in
        if \<not> sc_receiving c
        then Some (Inl (BadContribution ''cronymax.agents.session'' [] (''session id '' @ in_ticks session @ '' channel closed'')), r)
        else if length (sc_queue c) < SESSION_CAPACITY
        then Some (Inr True, r\<lparr>sr_channels := (sr_channels r)[sk_channel sk := c\<lparr>sc_queue := sc_queue c @ [msg]\<rparr>]\<rparr>)
        else None))"

definition route_event :: "string \<Rightarrow> agent_session_event \<Rightarrow> session_router \<Rightarrow> (bool ext_result \<times> session_router) option" where
  "route_event session e = route_message session (SessionEvent e)"

definition route_turn_done :: "string \<Rightarrow> session_router \<Rightarrow> (bool ext_result \<times> session_router) option" where
  "route_turn_done session = route_message session TurnDone"

section \<open>What is activated\<close>

record activation_info =
  act_ext :: string
  act_at :: u64

type_synonym lifecycle = "(string \<times> activation_info) list"

definition is_activated :: "lifecycle \<Rightarrow> string \<Rightarrow> bool" where
  "is_activated l ext \<longleftrightarrow> map_of l ext \<noteq> None"

definition mark_activated :: "u64 \<Rightarrow> string \<Rightarrow> lifecycle \<Rightarrow> lifecycle ext_result" where
  "mark_activated now ext l =
     (if is_activated l ext then Inl (AlreadyActivated ext) else Inr (hm_put ext \<lparr>act_ext = ext, act_at = now\<rparr> l))"

definition mark_deactivated :: "string \<Rightarrow> lifecycle \<Rightarrow> lifecycle ext_result" where
  "mark_deactivated ext l = (if is_activated l ext then Inr (hm_remove ext l) else Inl (NotActivated ext))"

definition activated_ids :: "lifecycle \<Rightarrow> string list" where
  "activated_ids l = sort (map fst l)"

end
