(* ===== verification/EventBus.thy ===== *)
theory EventBus
  imports ExtManifest
begin

text \<open>
  The bus of platform events (\<^verbatim>\<open>extensions/events.rs\<close>): which extension may subscribe to a topic and
  emit on it, who is subscribed, and what an event is delivered to. A listener is the closure the subscriber
  installed; the lock of the bus is never poisoned, since nothing panics while it is held.
\<close>

section \<open>State\<close>

datatype platform_topic =
  SessionStarted | SessionEnded | MessageUserSent | MessageAssistantDelta | MessageAssistantDone | ToolInvoked | ToolCompleted
| PermissionRequested

fun topic_str :: "platform_topic \<Rightarrow> string" where
  "topic_str SessionStarted = ''cronymax.session.started''"
| "topic_str SessionEnded = ''cronymax.session.ended''"
| "topic_str MessageUserSent = ''cronymax.message.user.sent''"
| "topic_str MessageAssistantDelta = ''cronymax.message.assistant.delta''"
| "topic_str MessageAssistantDone = ''cronymax.message.assistant.done''"
| "topic_str ToolInvoked = ''cronymax.tool.invoked''"
| "topic_str ToolCompleted = ''cronymax.tool.completed''"
| "topic_str PermissionRequested = ''cronymax.permission.requested''"

record event_payload =
  evp_topic :: string
  evp_publisher :: string
  evp_data :: json

datatype emit_pattern = ExactTopic string | TopicPrefix string

text \<open>\<^verbatim>\<open>strip_suffix(".*")\<close>.\<close>

definition strip_star :: "string \<Rightarrow> string option" where
  "strip_star s = (if 2 \<le> length s \<and> drop (length s - 2) s = ''.*'' then Some (take (length s - 2) s) else None)"

definition emit_from_manifest :: "string \<Rightarrow> emit_pattern" where
  "emit_from_manifest raw = (case strip_star raw of
     Some stem \<Rightarrow> TopicPrefix (stem @ ''.'')
   | None \<Rightarrow> if raw = ''*'' then TopicPrefix [] else ExactTopic raw)"

fun emit_matches :: "emit_pattern \<Rightarrow> string \<Rightarrow> bool" where
  "emit_matches (ExactTopic t) topic = (t = topic)"
| "emit_matches (TopicPrefix p) topic = str_starts_with topic p"

record 'l subscriber_entry =
  sbe_id :: u64
  sbe_ext :: string
  sbe_listener :: 'l

record 'l event_bus =
  bus_subscribers :: "(string \<times> 'l subscriber_entry list) list"
  bus_subscribe_caps :: "(string \<times> string list) list"
  bus_emit_caps :: "(string \<times> emit_pattern list) list"
  bus_next_id :: u64

definition new_event_bus :: "'l event_bus" where
  "new_event_bus = \<lparr>bus_subscribers = [], bus_subscribe_caps = [], bus_emit_caps = [], bus_next_id = 0\<rparr>"

section \<open>Operations\<close>

definition register_extension :: "string \<Rightarrow> string list \<Rightarrow> string list \<Rightarrow> 'l event_bus \<Rightarrow> 'l event_bus" where
  "register_extension ext subscribe emit b =
     b\<lparr>bus_subscribe_caps := hm_put ext subscribe (bus_subscribe_caps b),
       bus_emit_caps := hm_put ext (map emit_from_manifest emit) (bus_emit_caps b)\<rparr>"

definition retain_entries :: "('l subscriber_entry \<Rightarrow> bool) \<Rightarrow> 'l event_bus \<Rightarrow> 'l event_bus" where
  "retain_entries P b = b\<lparr>bus_subscribers := map (\<lambda>(t, es). (t, filter P es)) (bus_subscribers b)\<rparr>"

definition unregister_extension :: "string \<Rightarrow> 'l event_bus \<Rightarrow> 'l event_bus" where
  "unregister_extension ext b = retain_entries (\<lambda>s. sbe_ext s \<noteq> ext)
     (b\<lparr>bus_subscribe_caps := hm_remove ext (bus_subscribe_caps b), bus_emit_caps := hm_remove ext (bus_emit_caps b)\<rparr>)"

definition drop_guard :: "u64 \<Rightarrow> 'l event_bus \<Rightarrow> 'l event_bus" where
  "drop_guard i = retain_entries (\<lambda>s. sbe_id s \<noteq> i)"

definition topic_entries :: "string \<Rightarrow> 'l event_bus \<Rightarrow> 'l subscriber_entry list" where
  "topic_entries t b = (case map_of (bus_subscribers b) t of Some es \<Rightarrow> es | None \<Rightarrow> [])"

definition subscribe_event :: "string \<Rightarrow> string \<Rightarrow> 'l \<Rightarrow> 'l event_bus \<Rightarrow> u64 ext_result \<times> 'l event_bus" where
  "subscribe_event ext topic l b =
     (let i = bus_next_id b; b1 = b\<lparr>bus_next_id := i + 1\<rparr> in
      if (case map_of (bus_subscribe_caps b) ext of Some ts \<Rightarrow> topic \<in> set ts | None \<Rightarrow> False)
      then (Inr i, b1\<lparr>bus_subscribers := hm_put topic (topic_entries topic b @ [\<lparr>sbe_id = i, sbe_ext = ext, sbe_listener = l\<rparr>])
          (bus_subscribers b)\<rparr>)
      else (Inl (CapabilityDenied (''extension '' @ in_ticks ext @ '' did not declare events.subscribe '' @ in_ticks topic)), b1))"

definition subscriber_count :: "string \<Rightarrow> 'l event_bus \<Rightarrow> nat" where
  "subscriber_count t b = length (topic_entries t b)"

text \<open>The listeners are cloned under the lock and called after it is released.\<close>

definition bus_fanout :: "event_payload \<Rightarrow> 'l event_bus \<Rightarrow> ('l subscriber_entry \<times> event_payload) list" where
  "bus_fanout p b = map (\<lambda>s. (s, p)) (topic_entries (evp_topic p) b)"

definition emit_from_platform :: "platform_topic \<Rightarrow> json \<Rightarrow> 'l event_bus \<Rightarrow> ('l subscriber_entry \<times> event_payload) list" where
  "emit_from_platform t d = bus_fanout \<lparr>evp_topic = topic_str t, evp_publisher = ''cronymax'', evp_data = d\<rparr>"

definition emit_from_platform_if_subscribed ::
    "platform_topic \<Rightarrow> (unit \<Rightarrow> json) \<Rightarrow> 'l event_bus \<Rightarrow> ('l subscriber_entry \<times> event_payload) list" where
  "emit_from_platform_if_subscribed t build b = (if subscriber_count (topic_str t) b = 0 then [] else emit_from_platform t (build ()) b)"

definition emit_from_extension ::
    "string \<Rightarrow> string \<Rightarrow> json \<Rightarrow> 'l event_bus \<Rightarrow> ('l subscriber_entry \<times> event_payload) list ext_result" where
  "emit_from_extension ext topic d b =
     (if reserved_name topic then Inl (NamespaceReserved (''topic '' @ in_ticks topic @ '' is reserved for the platform''))
      else if (case map_of (bus_emit_caps b) ext of Some ps \<Rightarrow> \<exists>p \<in> set ps. emit_matches p topic | None \<Rightarrow> False)
      then Inr (bus_fanout \<lparr>evp_topic = topic, evp_publisher = ext, evp_data = d\<rparr> b)
      else Inl (CapabilityDenied (''extension '' @ in_ticks ext @ '' did not declare events.emit for '' @ in_ticks topic)))"

section \<open>Histories\<close>

datatype 'l bus_op =
  BusRegister string "string list" "string list"
| BusUnregister string
| BusSubscribe string string 'l
| BusDropGuard u64

fun bus_exec :: "'l bus_op \<Rightarrow> 'l event_bus \<Rightarrow> 'l event_bus" where
  "bus_exec (BusRegister ext subscribe emit) b = register_extension ext subscribe emit b"
| "bus_exec (BusUnregister ext) b = unregister_extension ext b"
| "bus_exec (BusSubscribe ext topic l) b = snd (subscribe_event ext topic l b)"
| "bus_exec (BusDropGuard i) b = drop_guard i b"

definition bus_after :: "'l bus_op list \<Rightarrow> 'l event_bus" where
  "bus_after ops = foldl (\<lambda>b x. bus_exec x b) new_event_bus ops"

text \<open>What an extension has declared last, if it is registered.\<close>

fun declare_step :: "string \<Rightarrow> (string list \<times> string list) option \<Rightarrow> 'l bus_op \<Rightarrow> (string list \<times> string list) option" where
  "declare_step ext r (BusRegister ext' s e) = (if ext' = ext then Some (s, e) else r)"
| "declare_step ext r (BusUnregister ext') = (if ext' = ext then None else r)"
| "declare_step ext r _ = r"

definition declared :: "string \<Rightarrow> 'l bus_op list \<Rightarrow> (string list \<times> string list) option" where
  "declared ext ops = foldl (declare_step ext) None ops"

fun is_subscribe :: "'l bus_op \<Rightarrow> bool" where
  "is_subscribe (BusSubscribe _ _ _) = True"
| "is_subscribe _ = False"

definition guard_of :: "'l bus_op list \<Rightarrow> nat \<Rightarrow> u64" where
  "guard_of ops i = of_nat (length (filter is_subscribe (take i ops)))"

text \<open>
  The operation \<open>i\<close> of a history was a subscription to the topic that was declared then, and since then its extension
  was not unregistered and its guard not dropped.
\<close>

definition stands :: "'l bus_op list \<Rightarrow> string \<Rightarrow> nat \<Rightarrow> bool" where
  "stands ops t i \<longleftrightarrow> i < length ops \<and> (case ops ! i of
     BusSubscribe ext topic l \<Rightarrow> topic = t \<and> (case declared ext (take i ops) of Some (s, e) \<Rightarrow> t \<in> set s | None \<Rightarrow> False) \<and>
       BusUnregister ext \<notin> set (drop (Suc i) ops) \<and> BusDropGuard (guard_of ops i) \<notin> set (drop (Suc i) ops)
   | _ \<Rightarrow> False)"

definition subscriber_at :: "'l bus_op list \<Rightarrow> nat \<Rightarrow> 'l subscriber_entry" where
  "subscriber_at ops i = (case ops ! i of
     BusSubscribe ext topic l \<Rightarrow> \<lparr>sbe_id = guard_of ops i, sbe_ext = ext, sbe_listener = l\<rparr>)"

lemma declared_snoc: "declared ext (ops @ [x]) = declare_step ext (declared ext ops) x"
  by (simp add: declared_def)

lemma bus_after_snoc: "bus_after (ops @ [x]) = bus_exec x (bus_after ops)"
  by (simp add: bus_after_def)

lemma map_of_retained: "map_of (map (\<lambda>(t, es). (t, filter P es)) m) t = map_option (filter P) (map_of m t)"
  by (induction m) auto

lemma topic_entries_retain: "topic_entries t (retain_entries P b) = filter P (topic_entries t b)"
  by (simp add: topic_entries_def retain_entries_def map_of_retained split: option.split)

lemma bus_caps:
  "map_of (bus_subscribe_caps (bus_after ops)) ext = map_option fst (declared ext ops)"
  "map_of (bus_emit_caps (bus_after ops)) ext = map_option (map emit_from_manifest \<circ> snd) (declared ext ops)"
  "bus_next_id (bus_after ops) = guard_of ops (length ops)"
proof (induction ops rule: rev_induct)
  case (snoc x ops)
  case 1 show ?case using snoc(1)
    by (cases x) (auto simp: bus_after_snoc declared_snoc register_extension_def unregister_extension_def retain_entries_def
      subscribe_event_def drop_guard_def Let_def store_simps)
  case 2 show ?case using snoc(2)
    by (cases x) (auto simp: bus_after_snoc declared_snoc register_extension_def unregister_extension_def retain_entries_def
      subscribe_event_def drop_guard_def Let_def store_simps)
  case 3 show ?case using snoc(3)
    by (cases x) (auto simp: bus_after_snoc register_extension_def unregister_extension_def retain_entries_def
      subscribe_event_def drop_guard_def Let_def guard_of_def)
qed (auto simp: bus_after_def new_event_bus_def declared_def guard_of_def)

lemma at_old:
  assumes "i < length ops"
  shows "(ops @ [x]) ! i = ops ! i" "take i (ops @ [x]) = take i ops" "guard_of (ops @ [x]) i = guard_of ops i"
    "set (drop (Suc i) (ops @ [x])) = insert x (set (drop (Suc i) ops))" "subscriber_at (ops @ [x]) i = subscriber_at ops i"
proof -
  show g: "guard_of (ops @ [x]) i = guard_of ops i" using assms by (simp add: guard_of_def)
  show "(ops @ [x]) ! i = ops ! i" "take i (ops @ [x]) = take i ops" "set (drop (Suc i) (ops @ [x])) = insert x (set (drop (Suc i) ops))"
    using assms by (auto simp: nth_append)
  show "subscriber_at (ops @ [x]) i = subscriber_at ops i" using assms by (simp add: subscriber_at_def g nth_append split: bus_op.split)
qed

lemma stands_old:
  assumes "i < length ops"
  shows "stands (ops @ [x]) t i \<longleftrightarrow> stands ops t i \<and> x \<noteq> BusUnregister (sbe_ext (subscriber_at ops i)) \<and> x \<noteq> BusDropGuard (sbe_id (subscriber_at ops i))"
  using assms by (auto simp: stands_def at_old subscriber_at_def split: bus_op.split)

lemma stands_kept:
  "(\<And>e. x \<noteq> BusUnregister e) \<Longrightarrow> (\<And>i. x \<noteq> BusDropGuard i) \<Longrightarrow>
     filter (stands (ops @ [x]) t) [0..<length ops] = filter (stands ops t) [0..<length ops]"
  by (rule filter_cong) (auto simp: stands_old)

text \<open>The subscribers of a topic are the subscriptions that stand, in the order they were made.\<close>

lemma entries_stand: "topic_entries t (bus_after ops) = map (subscriber_at ops) (filter (stands ops t) [0..<length ops])"
proof (induction ops rule: rev_induct)
  case Nil
  then show ?case by (simp add: bus_after_def topic_entries_def new_event_bus_def)
next
  case (snoc x ops)
  let ?old = "\<lambda>P. filter (\<lambda>i. stands ops t i \<and> P (subscriber_at ops i)) [0..<length ops]"
  have map_old: "map (subscriber_at (ops @ [x])) is = map (subscriber_at ops) is" if "\<And>i. i \<in> set is \<Longrightarrow> i < length ops" for "is"
    using that by (simp add: at_old)
  have last: "stands (ops @ [x]) t (length ops) \<longleftrightarrow> (case x of BusSubscribe ext topic l \<Rightarrow> topic = t \<and>
      (case declared ext ops of Some (s, e) \<Rightarrow> t \<in> set s | None \<Rightarrow> False) | _ \<Rightarrow> False)"
    by (auto simp: stands_def split: bus_op.split)
  have retain: "filter P (map (subscriber_at ops) (filter (stands ops t) [0..<length ops])) = map (subscriber_at ops) (?old P)" for P
    by (simp add: filter_map filter_filter comp_def conj_commute)
  show ?case
  proof (cases x)
    case (BusRegister ext s e)
    then have "topic_entries t (bus_after (ops @ [x])) = topic_entries t (bus_after ops)"
      by (simp add: bus_after_snoc register_extension_def topic_entries_def)
    with snoc last BusRegister show ?thesis by (simp add: stands_kept map_old at_old)
  next
    case (BusUnregister ext)
    have "topic_entries t (bus_after (ops @ [x])) = filter (\<lambda>s. sbe_ext s \<noteq> ext) (topic_entries t (bus_after ops))"
      by (simp add: BusUnregister bus_after_snoc unregister_extension_def topic_entries_retain) (simp add: topic_entries_def)
    moreover have "filter (stands (ops @ [x]) t) [0..<length ops] = ?old (\<lambda>s. sbe_ext s \<noteq> ext)"
      by (rule filter_cong) (auto simp: stands_old BusUnregister)
    ultimately show ?thesis using last BusUnregister by (simp add: snoc retain map_old at_old)
  next
    case (BusSubscribe ext topic l)
    have "topic_entries t (bus_after (ops @ [x])) = topic_entries t (bus_after ops) @
        (if topic = t \<and> (case declared ext ops of Some (s, e) \<Rightarrow> t \<in> set s | None \<Rightarrow> False)
         then [\<lparr>sbe_id = guard_of ops (length ops), sbe_ext = ext, sbe_listener = l\<rparr>] else [])"
      by (auto simp: BusSubscribe bus_after_snoc subscribe_event_def Let_def topic_entries_def store_simps bus_caps split: option.splits)
    moreover have "subscriber_at (ops @ [x]) (length ops) = \<lparr>sbe_id = guard_of ops (length ops), sbe_ext = ext, sbe_listener = l\<rparr>"
      by (simp add: BusSubscribe subscriber_at_def guard_of_def)
    ultimately show ?thesis using snoc last BusSubscribe by (cases "topic = t") (simp_all add: stands_kept map_old at_old)
  next
    case (BusDropGuard j)
    have "topic_entries t (bus_after (ops @ [x])) = filter (\<lambda>s. sbe_id s \<noteq> j) (topic_entries t (bus_after ops))"
      by (simp add: BusDropGuard bus_after_snoc drop_guard_def topic_entries_retain)
    moreover have "filter (stands (ops @ [x]) t) [0..<length ops] = ?old (\<lambda>s. sbe_id s \<noteq> j)"
      by (rule filter_cong) (auto simp: stands_old BusDropGuard)
    ultimately show ?thesis using last BusDropGuard by (simp add: snoc retain map_old at_old)
  qed
qed


definition demo_bus_ops :: "nat bus_op list" where
  "demo_bus_ops = [BusRegister ''a.x'' [''a.x.t'', ''cronymax.session.started''] [''a.x.*''], BusSubscribe ''a.x'' ''a.x.t'' 7,
     BusSubscribe ''a.x'' ''a.x.u'' 8, BusRegister ''a.x'' [] [''a.x.*'']]"

lemma demo_bus_heard:
  "filter (stands demo_bus_ops ''a.x.t'') [0..<length demo_bus_ops] = [1]"
  "subscriber_at demo_bus_ops 1 = \<lparr>sbe_id = 0, sbe_ext = ''a.x'', sbe_listener = 7\<rparr>"
  by code_simp+

lemma demo_bus_declared:
  "declared ''a.x'' demo_bus_ops = Some ([], [''a.x.*''])" "emit_matches (emit_from_manifest ''a.x.*'') ''a.x.t''" "\<not> reserved_name ''a.x.t''"
  by (simp add: demo_bus_ops_def declared_def) code_simp+


end
