(* ===== verification/Contributions.thy ===== *)
theory Contributions
  imports ExtManifest
begin

text \<open>
  The registry of contributions (\<^verbatim>\<open>extensions/contributions/mod.rs\<close>): what the platform, the workspace and the
  manifests of the active extensions offer to the user, by kind and identifier.
\<close>

section \<open>Descriptors\<close>

definition COMMAND_KIND :: string where "COMMAND_KIND = ''cronymax.command''"
definition CONFIG_SCHEMA_KIND :: string where "CONFIG_SCHEMA_KIND = ''cronymax.config.schema''"
definition CONFIG_PAGE_KIND :: string where "CONFIG_PAGE_KIND = ''cronymax.config.page''"
definition AGENTS_PROVIDER_KIND :: string where "AGENTS_PROVIDER_KIND = ''cronymax.agents.provider''"
definition CONTENT_RENDERER_KIND :: string where "CONTENT_RENDERER_KIND = ''cronymax.content.renderer''"
definition UI_SIDEBAR_VIEW_KIND :: string where "UI_SIDEBAR_VIEW_KIND = ''cronymax.ui.sidebar.view''"

datatype contribution_owner = PlatformOwner | WorkspaceOwner | ExtensionOwner string

fun owner_ext_id :: "contribution_owner \<Rightarrow> string option" where
  "owner_ext_id (ExtensionOwner e) = Some e"
| "owner_ext_id _ = None"

record contribution_descriptor =
  cd_kind :: string
  cd_id :: string
  cd_owner :: contribution_owner
  cd_label :: string
  cd_description :: "string option"
  cd_icon :: "string option"
  cd_metadata :: json

definition new_descriptor :: "string \<Rightarrow> string \<Rightarrow> contribution_owner \<Rightarrow> string \<Rightarrow> json \<Rightarrow> contribution_descriptor" where
  "new_descriptor k i own label meta =
     \<lparr>cd_kind = k, cd_id = i, cd_owner = own, cd_label = label, cd_description = None, cd_icon = None, cd_metadata = meta\<rparr>"

text \<open>\<^verbatim>\<open>serde_json::to_value\<close> of the contributions; the object of a command loses its identifier.\<close>

definition json_opt :: "string option \<Rightarrow> json" where
  "json_opt x = (case x of Some s \<Rightarrow> JString s | None \<Rightarrow> JNull)"

definition json_flag :: "bool option \<Rightarrow> json" where
  "json_flag x = (case x of Some b \<Rightarrow> JBool b | None \<Rightarrow> JNull)"

definition command_meta :: "command_contribution \<Rightarrow> json" where
  "command_meta c = json_object [(''title'', JString (cc_title c)), (''category'', json_opt (cc_category c)), (''icon'', json_opt (cc_icon c))]"

definition page_meta :: "config_page_contribution \<Rightarrow> json" where
  "page_meta p = json_object [(''id'', JString (cp_id p)), (''title'', JString (cp_title p)), (''entry'', JString (cp_entry p))]"

definition provider_meta :: "agent_provider_contribution \<Rightarrow> json" where
  "provider_meta p = json_object [(''id'', JString (apc_id p)), (''label'', JString (apc_label p)), (''icon'', json_opt (apc_icon p)),
     (''description'', json_opt (apc_description p)), (''supportsModels'', json_flag (apc_supports_models p)),
     (''supportsModes'', json_flag (apc_supports_modes p)), (''supportsMcp'', json_flag (apc_supports_mcp p))]"

definition renderer_meta :: "content_renderer_contribution \<Rightarrow> json" where
  "renderer_meta r = json_object [(''id'', JString (cr_id r)), (''mimeTypes'', JArray (map JString (cr_mime_types r))),
     (''entry'', JString (cr_entry r)),
     (''csp'', (case cr_csp r of Some c \<Rightarrow> json_object [(''connect_src'', JArray (map JString (csp_connect_src c)))] | None \<Rightarrow> JNull))]"

fun target_str :: "view_target \<Rightarrow> string" where
  "target_str ViewMain = ''main''"
| "target_str ViewRight = ''right''"

definition view_meta :: "sidebar_view_contribution \<Rightarrow> json" where
  "view_meta v = json_object [(''id'', JString (sv_id v)), (''title'', JString (sv_title v)), (''icon'', json_opt (sv_icon v)),
     (''entry'', JString (sv_entry v)), (''target'', JString (target_str (sv_target v)))]"

section \<open>The registry\<close>

type_synonym contribution_registry = "(string \<times> (string \<times> contribution_descriptor) list) list"

definition kind_map :: "string \<Rightarrow> contribution_registry \<Rightarrow> (string \<times> contribution_descriptor) list" where
  "kind_map k r = (case map_of r k of Some m \<Rightarrow> m | None \<Rightarrow> [])"

definition get_contribution :: "contribution_registry \<Rightarrow> string \<Rightarrow> string \<Rightarrow> contribution_descriptor option" where
  "get_contribution r k i = Option.bind (map_of r k) (\<lambda>m. map_of m i)"

definition add_contribution :: "contribution_descriptor \<Rightarrow> contribution_registry \<Rightarrow> contribution_descriptor option \<times> contribution_registry" where
  "add_contribution d r = (map_of (kind_map (cd_kind d) r) (cd_id d), hm_put (cd_kind d) (hm_put (cd_id d) d (kind_map (cd_kind d) r)) r)"

definition remove_contribution :: "string \<Rightarrow> string \<Rightarrow> contribution_registry \<Rightarrow> contribution_descriptor option \<times> contribution_registry" where
  "remove_contribution k i r = (case map_of r k of
     None \<Rightarrow> (None, r)
   | Some m \<Rightarrow> (map_of m i, if hm_remove i m = [] then hm_remove k r else hm_put k (hm_remove i m) r))"

text \<open>One descriptor for each item of a manifest, in the order they are written.\<close>

definition command_descriptor :: "string \<Rightarrow> command_contribution \<Rightarrow> contribution_descriptor" where
  "command_descriptor ext c = (new_descriptor COMMAND_KIND (cc_id c) (ExtensionOwner ext) (cc_title c) (command_meta c))
     \<lparr>cd_icon := cc_icon c, cd_description := map_option (\<lambda>s. ''Category: '' @ s) (cc_category c)\<rparr>"

definition schema_descriptor :: "string \<Rightarrow> json \<Rightarrow> contribution_descriptor" where
  "schema_descriptor ext s = new_descriptor CONFIG_SCHEMA_KIND ext (ExtensionOwner ext)
     (case Option.bind (json_get s ''title'') json_as_str of Some t \<Rightarrow> t | None \<Rightarrow> ext) s"

definition page_descriptor :: "string \<Rightarrow> config_page_contribution \<Rightarrow> contribution_descriptor" where
  "page_descriptor ext p = new_descriptor CONFIG_PAGE_KIND (cp_id p) (ExtensionOwner ext) (cp_title p) (page_meta p)"

definition provider_descriptor :: "string \<Rightarrow> agent_provider_contribution \<Rightarrow> contribution_descriptor" where
  "provider_descriptor ext p = (new_descriptor AGENTS_PROVIDER_KIND (apc_id p) (ExtensionOwner ext) (apc_label p) (provider_meta p))
     \<lparr>cd_icon := apc_icon p, cd_description := apc_description p\<rparr>"

definition renderer_descriptor :: "string \<Rightarrow> content_renderer_contribution \<Rightarrow> contribution_descriptor" where
  "renderer_descriptor ext p = new_descriptor CONTENT_RENDERER_KIND (cr_id p) (ExtensionOwner ext) (str_join '', '' (cr_mime_types p)) (renderer_meta p)"

definition view_descriptor :: "string \<Rightarrow> sidebar_view_contribution \<Rightarrow> contribution_descriptor" where
  "view_descriptor ext v = (new_descriptor UI_SIDEBAR_VIEW_KIND (sv_id v) (ExtensionOwner ext) (sv_title v) (view_meta v))\<lparr>cd_icon := sv_icon v\<rparr>"

definition manifest_descriptors :: "manifest \<Rightarrow> contribution_descriptor list" where
  "manifest_descriptors m =
     (let ext = mf_id m; c = mf_contributes m in
      map (command_descriptor ext) (ct_commands c) @
      (case ct_config_schema c of Some s \<Rightarrow> [schema_descriptor ext s] | None \<Rightarrow> []) @
      map (page_descriptor ext) (ct_config_pages c) @
      map (provider_descriptor ext) (ct_agent_providers c) @
      map (renderer_descriptor ext) (ct_content_renderers c) @
      map (view_descriptor ext) (ct_sidebar_views c))"

definition ingest :: "manifest \<Rightarrow> contribution_registry \<Rightarrow> nat \<times> contribution_registry" where
  "ingest m r = (length (manifest_descriptors m), foldl (\<lambda>r d. snd (add_contribution d r)) r (manifest_descriptors m))"

definition registry_len :: "contribution_registry \<Rightarrow> nat" where
  "registry_len r = sum_list (map (\<lambda>(k, m). length m) r)"

definition retain_contributions :: "(contribution_descriptor \<Rightarrow> bool) \<Rightarrow> contribution_registry \<Rightarrow> nat \<times> contribution_registry" where
  "retain_contributions P r =
     (let kept = map (\<lambda>(k, m). (k, filter (\<lambda>(_, d). P d) m)) r
      in (registry_len r - registry_len kept, filter (\<lambda>(_, m). m \<noteq> []) kept))"

definition remove_extension :: "string \<Rightarrow> contribution_registry \<Rightarrow> nat \<times> contribution_registry" where
  "remove_extension ext = retain_contributions (\<lambda>d. owner_ext_id (cd_owner d) \<noteq> Some ext)"

definition remove_workspace :: "contribution_registry \<Rightarrow> nat \<times> contribution_registry" where
  "remove_workspace = retain_contributions (\<lambda>d. cd_owner d \<noteq> WorkspaceOwner)"

definition for_kind :: "string \<Rightarrow> contribution_registry \<Rightarrow> contribution_descriptor list" where
  "for_kind k r = map snd (kind_map k r)"

fun find_by_id :: "string \<Rightarrow> contribution_registry \<Rightarrow> contribution_descriptor option" where
  "find_by_id i [] = None"
| "find_by_id i ((k, m) # r) = (case map_of m i of Some d \<Rightarrow> Some d | None \<Rightarrow> find_by_id i r)"

definition registry_kinds :: "contribution_registry \<Rightarrow> string list" where
  "registry_kinds r = sort (map fst r)"

definition contributions_snapshot :: "contribution_registry \<Rightarrow> contribution_descriptor list" where
  "contributions_snapshot r = concat (map (\<lambda>(k, m). map snd m) r)"

section \<open>The registry as a map\<close>

text \<open>No kind and no identifier of a kind comes twice, no kind is empty, and a descriptor stands under its own names.\<close>

definition wf_contributions :: "contribution_registry \<Rightarrow> bool" where
  "wf_contributions r \<longleftrightarrow> distinct (map fst r) \<and>
     (\<forall>(k, m) \<in> set r. m \<noteq> [] \<and> distinct (map fst m) \<and> (\<forall>(i, d) \<in> set m. cd_kind d = k \<and> cd_id d = i))"

lemma wf_kind_map:
  assumes "wf_contributions r"
  shows "distinct (map fst (kind_map k r))" "(i, d) \<in> set (kind_map k r) \<Longrightarrow> cd_kind d = k \<and> cd_id d = i"
  using assms by (auto simp: wf_contributions_def kind_map_def split: option.splits dest!: map_of_SomeD)

lemma set_hm_put: "x \<in> set (hm_put k v m) \<Longrightarrow> x = (k, v) \<or> x \<in> set m"
  by (induction k v m rule: hm_put.induct) (auto split: if_splits)

lemma wf_put_kind:
  assumes "wf_contributions r" and "m \<noteq> []" and "distinct (map fst m)" and "\<forall>(i, d) \<in> set m. cd_kind d = k \<and> cd_id d = i"
  shows "wf_contributions (hm_put k m r)"
  unfolding wf_contributions_def
proof (intro conjI ballI)
  show "distinct (map fst (hm_put k m r))" using assms(1) by (simp add: wf_contributions_def distinct_hm_put)
  fix x assume "x \<in> set (hm_put k m r)"
  then have "x = (k, m) \<or> x \<in> set r" by (rule set_hm_put)
  then show "case x of (k, m) \<Rightarrow> m \<noteq> [] \<and> distinct (map fst m) \<and> (\<forall>(i, d)\<in>set m. cd_kind d = k \<and> cd_id d = i)"
    using assms by (auto simp: wf_contributions_def)
qed

lemma hm_put_ne [simp]: "hm_put k v m \<noteq> []"
  by (cases m) (auto split: if_splits)

lemma wf_add: "wf_contributions r \<Longrightarrow> wf_contributions (snd (add_contribution d r))"
  unfolding add_contribution_def snd_conv
  by (rule wf_put_kind) (auto simp: wf_kind_map distinct_hm_put dest!: set_hm_put dest: wf_kind_map(2))

lemma set_hm_remove: "set (hm_remove k m) \<subseteq> set m"
  by (auto simp: hm_remove_def)

lemma wf_remove: "wf_contributions r \<Longrightarrow> wf_contributions (snd (remove_contribution k i r))"
proof (cases "map_of r k")
  case (Some m)
  assume wf: "wf_contributions r"
  with Some have m: "distinct (map fst m)" "\<forall>(i, d) \<in> set m. cd_kind d = k \<and> cd_id d = i"
    by (auto simp: wf_contributions_def dest!: map_of_SomeD)
  have "wf_contributions (hm_remove k r)"
    using wf by (auto simp: wf_contributions_def hm_remove_def distinct_map_filter)
  moreover have "hm_remove i m \<noteq> [] \<Longrightarrow> wf_contributions (hm_put k (hm_remove i m) r)"
    using m set_hm_remove [of i m] by (intro wf_put_kind [OF wf]) (auto simp: distinct_hm_remove)
  ultimately show ?thesis using Some by (simp add: remove_contribution_def)
qed (simp add: remove_contribution_def)

lemma wf_ingest: "wf_contributions r \<Longrightarrow> wf_contributions (snd (ingest m r))"
proof -
  have "wf_contributions r \<Longrightarrow> wf_contributions (foldl (\<lambda>r d. snd (add_contribution d r)) r ds)" for ds
    by (induction ds arbitrary: r) (auto simp: wf_add)
  then show "wf_contributions r \<Longrightarrow> wf_contributions (snd (ingest m r))" by (simp add: ingest_def)
qed

lemma wf_retain: "wf_contributions r \<Longrightarrow> wf_contributions (snd (retain_contributions P r))"
  by (fastforce simp: wf_contributions_def retain_contributions_def Let_def comp_def case_prod_beta intro!: distinct_map_filter)

text \<open>What every operation does to the map from kinds and identifiers to descriptors.\<close>

lemma get_add: "get_contribution (snd (add_contribution d r)) = (\<lambda>k i. if k = cd_kind d \<and> i = cd_id d then Some d else get_contribution r k i)"
  by (auto simp: fun_eq_iff get_contribution_def add_contribution_def kind_map_def store_simps split: option.splits)

lemma fst_add: "fst (add_contribution d r) = get_contribution r (cd_kind d) (cd_id d)"
  by (simp add: get_contribution_def add_contribution_def kind_map_def split: option.split)

lemma get_remove:
  "get_contribution (snd (remove_contribution k i r)) = (\<lambda>k' i'. if k' = k \<and> i' = i then None else get_contribution r k' i')"
proof (cases "map_of r k")
  case (Some m)
  have "hm_remove i m = [] \<Longrightarrow> i' \<noteq> i \<Longrightarrow> map_of m i' = None" for i'
    using map_of_hm_remove [of i m, THEN fun_cong, of i'] by simp
  with Some show ?thesis
    by (auto simp: fun_eq_iff get_contribution_def remove_contribution_def store_simps)
qed (auto simp: fun_eq_iff get_contribution_def remove_contribution_def)

lemma get_retain:
  assumes "wf_contributions r"
  shows "get_contribution (snd (retain_contributions P r)) =
    (\<lambda>k i. case get_contribution r k i of Some d \<Rightarrow> if P d then Some d else None | None \<Rightarrow> None)"
proof -
  let ?kept = "map (\<lambda>(k, m). (k, filter (\<lambda>(_, d). P d) m)) r"
  have "distinct (map fst ?kept)" using assms by (simp add: wf_contributions_def comp_def case_prod_beta)
  then have "map_of (filter (\<lambda>(_, m). m \<noteq> []) ?kept) k = (case map_of ?kept k of Some m \<Rightarrow> if m \<noteq> [] then Some m else None | None \<Rightarrow> None)" for k
    by (rule map_of_filter_values)
  moreover have "map_of ?kept k = map_option (filter (\<lambda>(_, d). P d)) (map_of r k)" for k
    by (induction r) auto
  moreover have "map_of r k = Some m \<Longrightarrow> distinct (map fst m)" for k m
    using assms by (auto simp: wf_contributions_def dest!: map_of_SomeD)
  moreover have "map_of m i = Some d \<Longrightarrow> P d \<Longrightarrow> filter (\<lambda>(_, d). P d) m \<noteq> []" for m and i :: string and d
    by (force simp: filter_empty_conv dest: map_of_SomeD)
  ultimately show ?thesis
    by (auto simp: fun_eq_iff get_contribution_def retain_contributions_def Let_def map_of_filter_values split: option.split)
qed

definition put_all :: "contribution_descriptor list \<Rightarrow> (string \<Rightarrow> string \<Rightarrow> contribution_descriptor option)
    \<Rightarrow> string \<Rightarrow> string \<Rightarrow> contribution_descriptor option" where
  "put_all ds g k i = (case find (\<lambda>d. cd_kind d = k \<and> cd_id d = i) (rev ds) of Some d \<Rightarrow> Some d | None \<Rightarrow> g k i)"

lemma get_ingest: "get_contribution (snd (ingest m r)) = put_all (manifest_descriptors m) (get_contribution r)"
proof -
  have "get_contribution (foldl (\<lambda>r d. snd (add_contribution d r)) r ds) = put_all ds (get_contribution r)" for ds
  proof (induction ds rule: rev_induct)
    case (snoc d ds)
    then show ?case by (auto simp: fun_eq_iff get_add put_all_def)
  qed (simp add: put_all_def fun_eq_iff)
  then show ?thesis by (simp add: ingest_def)
qed

lemma manifest_owner: "d \<in> set (manifest_descriptors m) \<Longrightarrow> cd_owner d = ExtensionOwner (mf_id m)"
  by (auto simp: manifest_descriptors_def Let_def command_descriptor_def schema_descriptor_def page_descriptor_def provider_descriptor_def
      renderer_descriptor_def view_descriptor_def new_descriptor_def split: option.splits)

end
