(* ===== verification/ExtRegistry.thy ===== *)
theory ExtRegistry
  imports ExtManifest FileTools
begin

text \<open>
  The registry of installed extensions (\<^verbatim>\<open>extensions/registry.rs\<close>) and the unpacking of a package
  (\<^verbatim>\<open>extensions/package.rs\<close>): the entries in memory, the index \<^verbatim>\<open>registry.json\<close> and the directories
  below the root. The file system, the clock, the archive reader and the two JSON codecs are parameters; an
  operation returns its result, the entries it leaves and the world.
\<close>

section \<open>State\<close>

definition MANIFEST_FILENAME :: string where "MANIFEST_FILENAME = ''cronymax-extension.json''"
definition REGISTRY_FILENAME :: string where "REGISTRY_FILENAME = ''registry.json''"
definition REGISTRY_VERSION :: u32 where "REGISTRY_VERSION = 1"

datatype disabled_reason = DisabledByCrash

record registry_entry =
  rge_manifest :: manifest
  rge_dir :: string
  rge_enabled :: bool
  rge_reason :: "disabled_reason option"
  rge_installed_at :: u64

record ext_registry =
  rg_root :: string
  rg_entries :: "(string \<times> registry_entry) list"

record persisted_entry =
  pe_enabled :: bool
  pe_installed_at :: u64
  pe_reason :: "disabled_reason option"

record persisted_registry =
  ps_version :: u32
  ps_extensions :: "(string \<times> persisted_entry) list"

definition new_registry :: "string \<Rightarrow> ext_registry" where
  "new_registry root = \<lparr>rg_root = root, rg_entries = []\<rparr>"

definition registry_get :: "ext_registry \<Rightarrow> string \<Rightarrow> registry_entry option" where
  "registry_get r i = map_of (rg_entries r) i"

text \<open>
  What the registry asks of its surroundings. A walk lists what lies below a directory by its relative path, with
  the kind of each: a directory, a file, or neither. An entry of an archive has no path when its name is unsafe.
\<close>

datatype walk_kind = WalkDirectory | WalkFile | WalkOther

record archive_entry =
  ae_name :: string
  ae_path :: "string option"
  ae_is_dir :: bool
  ae_bytes :: "(string, string) sum"

record 'w reg_os =
  ro_exists :: "string \<Rightarrow> 'w \<Rightarrow> bool"
  ro_is_dir :: "string \<Rightarrow> 'w \<Rightarrow> bool"
  ro_is_file :: "string \<Rightarrow> 'w \<Rightarrow> bool"
  ro_read :: "string \<Rightarrow> ('w, string) io"
  ro_read_dir :: "string \<Rightarrow> ('w, string list) io"
  ro_create_dir_all :: "string \<Rightarrow> ('w, unit) io"
  ro_walk :: "string \<Rightarrow> ('w, (string \<times> walk_kind) list) io"
  ro_copy :: "string \<Rightarrow> string \<Rightarrow> ('w, unit) io"
  ro_remove_dir_all :: "string \<Rightarrow> ('w, unit) io"
  ro_write :: "string \<Rightarrow> string \<Rightarrow> ('w, unit) io"
  ro_rename :: "string \<Rightarrow> string \<Rightarrow> ('w, unit) io"
  ro_temp_dir_in :: "string \<Rightarrow> ('w, string) io"
  ro_archive :: "string \<Rightarrow> 'w \<Rightarrow> archive_entry list ext_result \<times> 'w"
  ro_now :: "'w \<Rightarrow> u64"
  ro_manifest :: "string \<Rightarrow> manifest ext_result"
  ro_decode :: "string \<Rightarrow> persisted_registry ext_result"
  ro_encode :: "persisted_registry \<Rightarrow> string ext_result"

section \<open>Results with effects\<close>

type_synonym ('w, 'a) ext_io = "'w \<Rightarrow> 'a ext_result \<times> 'w"

definition ext_return :: "'a \<Rightarrow> ('w, 'a) ext_io" where
  "ext_return x w = (Inr x, w)"

definition ext_lift :: "'a ext_result \<Rightarrow> ('w, 'a) ext_io" where
  "ext_lift r w = (r, w)"

definition ext_bind :: "('w, 'a) ext_io \<Rightarrow> ('a \<Rightarrow> ('w, 'b) ext_io) \<Rightarrow> ('w, 'b) ext_io" where
  "ext_bind f g w = (case f w of (Inl e, w') \<Rightarrow> (Inl e, w') | (Inr x, w') \<Rightarrow> g x w')"

text \<open>\<^verbatim>\<open>?\<close> on an \<^verbatim>\<open>io::Error\<close>.\<close>

definition ext_os :: "('w, 'a) io \<Rightarrow> ('w, 'a) ext_io" where
  "ext_os f w = (case f w of (Inl e, w') \<Rightarrow> (Inl (ExtIo e), w') | (Inr x, w') \<Rightarrow> (Inr x, w'))"

lemma ext_bind_Inr: "ext_bind f g w = (Inr y, w') \<longleftrightarrow> (\<exists>x w1. f w = (Inr x, w1) \<and> g x w1 = (Inr y, w'))"
  by (auto simp: ext_bind_def split: prod.splits sum.splits)

lemma ext_os_Inr: "ext_os f w = (Inr y, w') \<longleftrightarrow> f w = (Inr y, w')"
  by (auto simp: ext_os_def split: prod.splits sum.splits)

lemma ext_lift_Inr: "ext_lift r w = (Inr y, w') \<longleftrightarrow> r = Inr y \<and> w' = w"
  by (auto simp: ext_lift_def)

section \<open>The index\<close>

definition persisted_of :: "ext_registry \<Rightarrow> persisted_registry" where
  "persisted_of r = \<lparr>ps_version = REGISTRY_VERSION,
     ps_extensions = map (\<lambda>(i, e). (i, \<lparr>pe_enabled = rge_enabled e, pe_installed_at = rge_installed_at e, pe_reason = rge_reason e\<rparr>)) (rg_entries r)\<rparr>"

definition registry_path :: "string \<Rightarrow> string" where
  "registry_path root = path_join root REGISTRY_FILENAME"

definition load_persisted :: "'w reg_os \<Rightarrow> string \<Rightarrow> ('w, persisted_registry) ext_io" where
  "load_persisted os root w =
     (if \<not> ro_exists os (registry_path root) w then (Inr \<lparr>ps_version = REGISTRY_VERSION, ps_extensions = []\<rparr>, w)
      else ext_bind (ext_os (ro_read os (registry_path root))) (\<lambda>raw.
           ext_bind (ext_lift (ro_decode os raw)) (\<lambda>p.
             if ps_version p \<noteq> REGISTRY_VERSION
             then ext_lift (Inl (ManifestInvalid (REGISTRY_FILENAME @ '' version '' @ show_nat (unat (ps_version p)) @
               '' is not understood (expected 1)'')))
             else ext_return p)) w)"

definition save_registry :: "'w reg_os \<Rightarrow> ext_registry \<Rightarrow> ('w, unit) ext_io" where
  "save_registry os r =
     ext_bind (ext_lift (ro_encode os (persisted_of r))) (\<lambda>raw.
     ext_bind (ext_os (ro_create_dir_all os (rg_root r))) (\<lambda>_.
     ext_bind (ext_os (ro_write os (registry_path (rg_root r) @ ''.tmp'') raw)) (\<lambda>_.
     ext_os (ro_rename os (registry_path (rg_root r) @ ''.tmp'') (registry_path (rg_root r))))))"

section \<open>Scanning the root\<close>

text \<open>One directory entry: skipped unless it is a directory with a readable, parsable and valid manifest.\<close>

definition scan_dir :: "'w reg_os \<Rightarrow> persisted_registry \<Rightarrow> string \<Rightarrow> (string \<times> registry_entry) list \<Rightarrow> 'w
    \<Rightarrow> (string \<times> registry_entry) list \<times> 'w" where
  "scan_dir os p path es w =
     (let mp = path_join path MANIFEST_FILENAME in
      if \<not> ro_is_dir os path w \<or> \<not> ro_is_file os mp w then (es, w)
      else case ro_read os mp w of
        (Inl _, w') \<Rightarrow> (es, w')
      | (Inr raw, w') \<Rightarrow> (case ro_manifest os raw of
          Inl _ \<Rightarrow> (es, w')
        | Inr m \<Rightarrow> (case validate_manifest m of
            Inl _ \<Rightarrow> (es, w')
          | Inr _ \<Rightarrow>
              let (enabled, at, reason) = (case map_of (ps_extensions p) (mf_id m) of
                     Some q \<Rightarrow> (pe_enabled q, pe_installed_at q, pe_reason q)
                   | None \<Rightarrow> (True, ro_now os w', None))
              in (hm_put (mf_id m) \<lparr>rge_manifest = m, rge_dir = path, rge_enabled = enabled, rge_reason = reason,
                    rge_installed_at = at\<rparr> es, w'))))"

fun scan_dirs :: "'w reg_os \<Rightarrow> persisted_registry \<Rightarrow> string list \<Rightarrow> (string \<times> registry_entry) list \<Rightarrow> 'w
    \<Rightarrow> (string \<times> registry_entry) list \<times> 'w" where
  "scan_dirs os p [] es w = (es, w)"
| "scan_dirs os p (d # ds) es w = (let (es', w') = scan_dir os p d es w in scan_dirs os p ds es' w')"

definition refresh_registry :: "'w reg_os \<Rightarrow> ext_registry \<Rightarrow> 'w \<Rightarrow> unit ext_result \<times> ext_registry \<times> 'w" where
  "refresh_registry os r w =
     (case ext_bind (if ro_exists os (rg_root r) w then ext_return () else ext_os (ro_create_dir_all os (rg_root r))) (\<lambda>_.
           ext_bind (load_persisted os (rg_root r)) (\<lambda>p.
           ext_bind (ext_os (ro_read_dir os (rg_root r))) (\<lambda>ns. ext_return (p, ns)))) w of
        (Inl e, w') \<Rightarrow> (Inl e, r, w')
      | (Inr (p, ns), w1) \<Rightarrow>
          (let (es, w2) = scan_dirs os p (map (path_join (rg_root r)) ns) [] w1; r' = r\<lparr>rg_entries := es\<rparr>;
               (res, w3) = save_registry os r' w2
           in (res, r', w3)))"

section \<open>Installing\<close>

fun copy_entries :: "'w reg_os \<Rightarrow> string \<Rightarrow> string \<Rightarrow> (string \<times> walk_kind) list \<Rightarrow> ('w, unit) ext_io" where
  "copy_entries os source dest [] = ext_return ()"
| "copy_entries os source dest ((rel, k) # es) =
     ext_bind (if rel = [] then ext_return () else (case k of
         WalkDirectory \<Rightarrow> ext_os (ro_create_dir_all os (path_join dest rel))
       | WalkFile \<Rightarrow> ext_bind (case path_parent (path_join dest rel) of
             Some par \<Rightarrow> ext_os (ro_create_dir_all os par)
           | None \<Rightarrow> ext_return ()) (\<lambda>_. ext_os (ro_copy os (path_join source rel) (path_join dest rel)))
       | WalkOther \<Rightarrow> ext_return ())) (\<lambda>_. copy_entries os source dest es)"

definition copy_dir_recursive :: "'w reg_os \<Rightarrow> string \<Rightarrow> string \<Rightarrow> ('w, unit) ext_io" where
  "copy_dir_recursive os source dest =
     ext_bind (ext_os (ro_create_dir_all os dest)) (\<lambda>_.
     ext_bind (ext_os (ro_walk os source)) (\<lambda>es. copy_entries os source dest es))"

text \<open>The manifest of a source directory, read, parsed and validated.\<close>

definition source_manifest :: "'w reg_os \<Rightarrow> string \<Rightarrow> ('w, manifest) ext_io" where
  "source_manifest os source w =
     (let mp = path_join source MANIFEST_FILENAME in
      case ro_read os mp w of
        (Inl e, w') \<Rightarrow> (Inl (ManifestParse (''could not read manifest at '' @ mp @ '': '' @ e)), w')
      | (Inr raw, w') \<Rightarrow> (case ro_manifest os raw of
          Inl e \<Rightarrow> (Inl e, w')
        | Inr m \<Rightarrow> (ext_then (validate_manifest m) (\<lambda>_. Inr m), w')))"

definition install_extension :: "'w reg_os \<Rightarrow> string \<Rightarrow> ext_registry \<Rightarrow> 'w \<Rightarrow> registry_entry ext_result \<times> ext_registry \<times> 'w" where
  "install_extension os source r w =
     (case source_manifest os source w of
        (Inl e, w') \<Rightarrow> (Inl e, r, w')
      | (Inr m, w1) \<Rightarrow>
          (let i = mf_id m; dest = path_join (rg_root r) i in
           case map_of (rg_entries r) i of
             Some existing \<Rightarrow> (Inl (AlreadyInstalled i (mf_version (rge_manifest existing))), r, w1)
           | None \<Rightarrow>
               if ro_exists os dest w1 then (Inl (AlreadyInstalled i (mf_version m)), r, w1)
               else (case ext_bind (ext_os (ro_create_dir_all os (rg_root r))) (\<lambda>_. copy_dir_recursive os source dest) w1 of
                 (Inl e, w2) \<Rightarrow> (Inl e, r, w2)
               | (Inr _, w2) \<Rightarrow>
                   (let entry = \<lparr>rge_manifest = m, rge_dir = dest, rge_enabled = True, rge_reason = None, rge_installed_at = ro_now os w2\<rparr>;
                        r' = r\<lparr>rg_entries := hm_put i entry (rg_entries r)\<rparr>
                    in case save_registry os r' w2 of
                         (Inl e, w3) \<Rightarrow> (Inl e, r'\<lparr>rg_entries := hm_remove i (rg_entries r')\<rparr>, snd (ro_remove_dir_all os dest w3))
                       | (Inr _, w3) \<Rightarrow> (Inr entry, r', w3)))))"

section \<open>Packages\<close>

definition path_extension :: "string \<Rightarrow> string option" where
  "path_extension p = (case components p of [] \<Rightarrow> None | cs \<Rightarrow> (case last cs of
     Normal n \<Rightarrow> (let r = dropWhile (\<lambda>c. c \<noteq> CHR ''.'') (rev n)
       in if r = [] \<or> tl r = [] then None else Some (rev (takeWhile (\<lambda>c. c \<noteq> CHR ''.'') (rev n))))
   | _ \<Rightarrow> None))"

definition ascii_lower :: "string \<Rightarrow> string" where
  "ascii_lower = map (\<lambda>c. if CHR ''A'' \<le> c \<and> c \<le> CHR ''Z'' then char_of (of_char c + (32::nat)) else c)"

definition is_cmx_path :: "string \<Rightarrow> bool" where
  "is_cmx_path p \<longleftrightarrow> (case path_extension p of Some e \<Rightarrow> ascii_lower e = ''cmx'' | None \<Rightarrow> False)"

fun unpack_entries :: "'w reg_os \<Rightarrow> string \<Rightarrow> archive_entry list \<Rightarrow> ('w, unit) ext_io" where
  "unpack_entries os dest [] = ext_return ()"
| "unpack_entries os dest (a # as) = (case ae_path a of
     None \<Rightarrow> ext_lift (Inl (PackageError (''archive entry '' @ in_ticks (ae_name a) @ '' has an unsafe path'')))
   | Some rel \<Rightarrow>
       ext_bind (if ae_is_dir a then ext_os (ro_create_dir_all os (path_join dest rel))
         else ext_bind (case path_parent (path_join dest rel) of
             Some par \<Rightarrow> ext_os (ro_create_dir_all os par)
           | None \<Rightarrow> ext_return ()) (\<lambda>_. case ae_bytes a of
             Inl e \<Rightarrow> ext_lift (Inl (ExtIo e))
           | Inr b \<Rightarrow> ext_os (ro_write os (path_join dest rel) b))) (\<lambda>_. unpack_entries os dest as))"

definition locate_manifest_dir :: "'w reg_os \<Rightarrow> string \<Rightarrow> ('w, string) ext_io" where
  "locate_manifest_dir os dest w =
     (if ro_is_file os (path_join dest MANIFEST_FILENAME) w then (Inr dest, w)
      else case ro_read_dir os dest w of
        (Inl e, w') \<Rightarrow> (Inl (ExtIo e), w')
      | (Inr ns, w') \<Rightarrow> (case filter (\<lambda>p. ro_is_dir os p w' \<and> ro_is_file os (path_join p MANIFEST_FILENAME) w') (map (path_join dest) ns) of
          [p] \<Rightarrow> (Inr p, w')
        | [] \<Rightarrow> (Inl (PackageError (''archive does not contain a '' @ MANIFEST_FILENAME)), w')
        | _ \<Rightarrow> (Inl (PackageError (''archive has more than one extension root; expected a single '' @ MANIFEST_FILENAME)), w')))"

definition unpack_cmx :: "'w reg_os \<Rightarrow> string \<Rightarrow> string \<Rightarrow> ('w, string) ext_io" where
  "unpack_cmx os cmx dest =
     ext_bind (ro_archive os cmx) (\<lambda>as.
     ext_bind (ext_os (ro_create_dir_all os dest)) (\<lambda>_.
     ext_bind (unpack_entries os dest as) (\<lambda>_. locate_manifest_dir os dest)))"

text \<open>The staging directory goes when it is dropped, whatever came of the installation.\<close>

definition install_from_path :: "'w reg_os \<Rightarrow> string \<Rightarrow> ext_registry \<Rightarrow> 'w \<Rightarrow> string ext_result \<times> ext_registry \<times> 'w" where
  "install_from_path os source r w =
     (if is_cmx_path source then
        (if \<not> ro_is_file os source w then (Inl (PackageError ([CHR 0x60] @ ''.cmx'' @ [CHR 0x60] @ '' archive not found: '' @ source)), r, w)
         else case ro_temp_dir_in os (rg_root r) w of
           (Inl e, w1) \<Rightarrow> (Inl (ExtIo e), r, w1)
         | (Inr staging, w1) \<Rightarrow>
             (let (res, r', w2) = (case unpack_cmx os source staging w1 of
                  (Inl e, w2) \<Rightarrow> (Inl e, r, w2)
                | (Inr d, w2) \<Rightarrow> install_extension os d r w2)
              in (map_sum id (\<lambda>e. mf_id (rge_manifest e)) res, r', snd (ro_remove_dir_all os staging w2))))
      else (let (res, r', w') = install_extension os source r w in (map_sum id (\<lambda>e. mf_id (rge_manifest e)) res, r', w')))"

section \<open>Changing entries\<close>

definition uninstall_extension :: "'w reg_os \<Rightarrow> string \<Rightarrow> ext_registry \<Rightarrow> 'w \<Rightarrow> unit ext_result \<times> ext_registry \<times> 'w" where
  "uninstall_extension os i r w = (case map_of (rg_entries r) i of
     None \<Rightarrow> (Inl (NotInstalled i), r, w)
   | Some e \<Rightarrow>
       (let r' = r\<lparr>rg_entries := hm_remove i (rg_entries r)\<rparr>;
            (res, w') = ext_bind (if ro_exists os (rge_dir e) w then ext_os (ro_remove_dir_all os (rge_dir e)) else ext_return ())
              (\<lambda>_. save_registry os r') w
        in (res, r', w')))"

definition change_entry :: "'w reg_os \<Rightarrow> string \<Rightarrow> (registry_entry \<Rightarrow> registry_entry) \<Rightarrow> ext_registry \<Rightarrow> 'w
    \<Rightarrow> unit ext_result \<times> ext_registry \<times> 'w" where
  "change_entry os i f r w = (case map_of (rg_entries r) i of
     None \<Rightarrow> (Inl (NotInstalled i), r, w)
   | Some e \<Rightarrow> (let r' = r\<lparr>rg_entries := hm_put i (f e) (rg_entries r)\<rparr>; (res, w') = save_registry os r' w in (res, r', w')))"

definition set_extension_enabled :: "'w reg_os \<Rightarrow> string \<Rightarrow> bool \<Rightarrow> ext_registry \<Rightarrow> 'w \<Rightarrow> unit ext_result \<times> ext_registry \<times> 'w" where
  "set_extension_enabled os i b = change_entry os i (\<lambda>e. e\<lparr>rge_enabled := b, rge_reason := if b then None else rge_reason e\<rparr>)"

definition set_disabled_by_crash :: "'w reg_os \<Rightarrow> string \<Rightarrow> ext_registry \<Rightarrow> 'w \<Rightarrow> unit ext_result \<times> ext_registry \<times> 'w" where
  "set_disabled_by_crash os i = change_entry os i (\<lambda>e. e\<lparr>rge_enabled := False, rge_reason := Some DisabledByCrash\<rparr>)"

end
