(* ===== verification/ExtRuntime.thy ===== *)
theory ExtRuntime
  imports ExtValues ExtSessions EventBus Contributions ExtRegistry
begin

text \<open>
  The orchestrator of extensions (\<^verbatim>\<open>extensions/runtime.rs\<close>), its state and what a running extension may ask of
  it. The state joins the registries; a host is a Node process with its connection, known by its number, and what the
  code sends or emits is appended to a list of effects. A message of a host is handled in one step, when it is read, and a
  notification to a host counts as sent: a write that fails, which the callers only log or return, is left out.
\<close>

section \<open>State\<close>

text \<open>\<^verbatim>\<open>Display\<close> of an error; only a path that could not be resolved needs the \<^verbatim>\<open>Debug\<close> of a path.\<close>

fun error_text :: "(string \<Rightarrow> string) \<Rightarrow> extension_error \<Rightarrow> string" where
  "error_text dbg (ManifestParse s) = ''manifest parse failed: '' @ s"
| "error_text dbg (ManifestInvalid s) = ''manifest validation failed: '' @ s"
| "error_text dbg (NamespaceReserved s) = ''namespace '' @ in_ticks s @ '' is reserved by the platform''"
| "error_text dbg (PublisherPrefixMismatch i p) =
     ''publisher prefix mismatch: id '' @ in_ticks i @ '' does not start with '' @ in_ticks (p @ ''.'')"
| "error_text dbg (RequiredFieldMissing s) = ''manifest field '' @ in_ticks s @ '' is required but missing or empty''"
| "error_text dbg (NotInstalled s) = ''extension '' @ in_ticks s @ '' is not installed''"
| "error_text dbg (AlreadyInstalled s v) = ''extension '' @ in_ticks s @ '' is already installed (version '' @ in_ticks v @ '')''"
| "error_text dbg (PackageError s) = ''package '' @ in_ticks ''.cmx'' @ '': '' @ s"
| "error_text dbg (NotEnabled s) = ''extension '' @ in_ticks s @ '' is not enabled''"
| "error_text dbg (NotActivated s) = ''extension '' @ in_ticks s @ '' is not activated''"
| "error_text dbg (AlreadyActivated s) = ''extension '' @ in_ticks s @ '' is already activated''"
| "error_text dbg (UnknownActivationEvent s) = ''activation event '' @ in_ticks s @ '' is not understood''"
| "error_text dbg (HostSpawn s) = ''node host spawn failed: '' @ s"
| "error_text dbg (HostCrashed i e n) = ''node host '' @ in_ticks i @ '' crashed (exit '' @ in_ticks (show_int (sint e)) @
     ''); restarted '' @ show_nat (unat n) @ '' times''"
| "error_text dbg (HostHandshakeTimeout s) = ''node host '' @ in_ticks s @ '' did not complete handshake in time''"
| "error_text dbg (RpcFailure s) = ''rpc: '' @ s"
| "error_text dbg (RpcMethodMissing s) = ''rpc method '' @ in_ticks s @ '' not implemented''"
| "error_text dbg RpcCancelledError = ''rpc cancelled''"
| "error_text dbg (CapabilityDenied s) = ''capability '' @ in_ticks s @ '' is not granted to this extension''"
| "error_text dbg (PathCanonicalize p s) = ''path canonicalize failed: '' @ dbg p @ '': '' @ s"
| "error_text dbg (UnknownContributionPoint s) = ''contribution point '' @ in_ticks s @ '' is unknown''"
| "error_text dbg (BadContribution p i r) = ''contribution '' @ in_ticks p @ '' from '' @ in_ticks i @ '' is invalid: '' @ r"
| "error_text dbg (ExtIo s) = s"
| "error_text dbg (ExtJson s) = ''json: '' @ s"

datatype host_exit = CleanUnexpected | ExitCode "32 word" | ExitSignal "32 word"

datatype notice_level = NoticeInfo | NoticeWarn | NoticeError

datatype ext_effect =
  ContributionsChanged
| WebviewEffect webview_event
| RendererHeight string "32 word"
| NoticeEffect string notice_level string
| NotifyHost nat string mval
| LogLine string string json
| LogCleared string string
| CrashLogged string host_exit u32 u32

text \<open>A host keeps what its server captured when it was spawned; it is up while its connection is read.\<close>

record host_record =
  hr_ext :: string
  hr_manifest :: manifest
  hr_up :: bool

record ext_handle =
  eh_host :: nat
  eh_subscriptions :: "(string \<times> u64 list) list"

record 'w ext_runtime =
  rt_registry :: ext_registry
  rt_world :: 'w
  rt_contributions :: contribution_registry
  rt_lifecycle :: lifecycle
  rt_commands :: command_registry
  rt_providers :: provider_registry
  rt_renderers :: renderer_registry
  rt_sidebars :: sidebar_registry
  rt_webviews :: webview_registry
  rt_handles :: "(string \<times> ext_handle) list"
  rt_sessions :: session_router
  rt_events :: "nat event_bus"
  rt_max_restarts :: u32
  rt_restart_counts :: "(string \<times> u32) list"
  rt_restarting :: "string list"
  rt_hosts :: "host_record list"
  rt_effects :: "ext_effect list"

definition new_runtime :: "ext_registry \<Rightarrow> 'w \<Rightarrow> 'w ext_runtime" where
  "new_runtime reg w = \<lparr>rt_registry = reg, rt_world = w, rt_contributions = [], rt_lifecycle = [], rt_commands = [], rt_providers = [],
     rt_renderers = [], rt_sidebars = [], rt_webviews = [], rt_handles = [], rt_sessions = new_router, rt_events = new_event_bus,
     rt_max_restarts = 3, rt_restart_counts = [], rt_restarting = [], rt_hosts = [], rt_effects = []\<rparr>"

text \<open>
  The surroundings: the file system and its parsers, the conversions of values, the clock, whether a builder of spawn
  configurations is installed, and the log manager, if there is one, that opens a channel and writes a record.
\<close>

record 'w ext_env =
  en_os :: "'w reg_os"
  en_values :: value_env
  en_debug_path :: "string \<Rightarrow> string"
  en_now :: "'w \<Rightarrow> u64"
  en_millis :: "'w \<Rightarrow> u64"
  en_builder :: bool
  en_log :: "(string \<Rightarrow> string \<Rightarrow> unit ext_result) option"

definition emit_effects :: "ext_effect list \<Rightarrow> 'w ext_runtime \<Rightarrow> 'w ext_runtime" where
  "emit_effects fs s = s\<lparr>rt_effects := rt_effects s @ fs\<rparr>"

definition ext_active :: "'w ext_runtime \<Rightarrow> string \<Rightarrow> bool" where
  "ext_active s ext \<longleftrightarrow> is_activated (rt_lifecycle s) ext"

definition conn_for :: "'w ext_runtime \<Rightarrow> string \<Rightarrow> nat ext_result" where
  "conn_for s ext = (case map_of (rt_handles s) ext of Some h \<Rightarrow> Inr (eh_host h) | None \<Rightarrow> Inl (NotActivated ext))"

definition notify_extension :: "string \<Rightarrow> string \<Rightarrow> mval \<Rightarrow> 'w ext_runtime \<Rightarrow> unit ext_result \<times> 'w ext_runtime" where
  "notify_extension ext meth params s = (case conn_for s ext of
     Inl e \<Rightarrow> (Inl e, s) | Inr h \<Rightarrow> (Inr (), emit_effects [NotifyHost h meth params] s))"

definition mmap :: "(string \<times> mval) list \<Rightarrow> mval" where
  "mmap kvs = MMap (map (\<lambda>(k, v). (MString k, v)) kvs)"

section \<open>What an extension registers\<close>

definition str_field :: "mval \<Rightarrow> string \<Rightarrow> string ext_result" where
  "str_field params field = (case extract_str_field params field of
     Some v \<Rightarrow> Inr v | None \<Rightarrow> Inl (RpcFailure (''missing or non-string field '' @ in_ticks field @ '' in notify params'')))"

definition register_provider_handler :: "manifest \<Rightarrow> string \<Rightarrow> mval \<Rightarrow> provider_registry \<Rightarrow> provider_registry ext_result" where
  "register_provider_handler m ext params t = ext_then (str_field params ''providerId'') (\<lambda>i.
     case find (\<lambda>d. apc_id d = i) (ct_agent_providers (mf_contributes m)) of
       None \<Rightarrow> Inl (BadContribution ''cronymax.agents.provider'' ext (''provider '' @ in_ticks i @ '' not declared in manifest contributes''))
     | Some d \<Rightarrow> register_provider \<lparr>prv_id = apc_id d, prv_ext = ext, prv_label = apc_label d, prv_icon = apc_icon d,
         prv_description = apc_description d, prv_supports_models = (apc_supports_models d = Some True),
         prv_supports_modes = (apc_supports_modes d = Some True), prv_supports_mcp = (apc_supports_mcp d = Some True)\<rparr> t)"

definition register_sidebar_handler :: "manifest \<Rightarrow> string \<Rightarrow> mval \<Rightarrow> sidebar_registry \<Rightarrow> sidebar_registry ext_result" where
  "register_sidebar_handler m ext params t = ext_then (str_field params ''viewId'') (\<lambda>i.
     case find (\<lambda>d. sv_id d = i) (ct_sidebar_views (mf_contributes m)) of
       None \<Rightarrow> Inl (BadContribution ''cronymax.ui.sidebar.view'' ext (''sidebar view '' @ in_ticks i @ '' not declared in manifest contributes''))
     | Some d \<Rightarrow> register_sidebar \<lparr>sve_id = sv_id d, sve_ext = ext, sve_title = sv_title d, sve_icon = sv_icon d, sve_entry = sv_entry d\<rparr> t)"

text \<open>A registration that failed is reported to the host the extension has now.\<close>

definition report_outcome :: "'w ext_env \<Rightarrow> string \<Rightarrow> string \<Rightarrow> mval \<Rightarrow> string \<Rightarrow> unit ext_result \<Rightarrow> 'w ext_runtime
    \<Rightarrow> unit ext_result \<times> 'w ext_runtime" where
  "report_outcome E ext ep params idf res s = (case res of
     Inr _ \<Rightarrow> (Inr (), s)
   | Inl e \<Rightarrow>
       (let i = (case extract_str_field params idf of Some v \<Rightarrow> v | None \<Rightarrow> ''<unknown>'');
            payload = mmap [(''ep'', MString ep), (''id'', MString i), (''reason'', MString (error_text (en_debug_path E) e))]
        in (Inl e, snd (notify_extension ext ''extension/registerError'' payload s))))"

text \<open>A change of one table: what is registered is stored, an error leaves the table.\<close>

definition stored :: "('t \<Rightarrow> 'w ext_runtime \<Rightarrow> 'w ext_runtime) \<Rightarrow> 't ext_result \<Rightarrow> 'w ext_runtime \<Rightarrow> unit ext_result \<times> 'w ext_runtime" where
  "stored put r s = (case r of Inl e \<Rightarrow> (Inl e, s) | Inr t \<Rightarrow> (Inr (), put t s))"

definition reported :: "'w ext_env \<Rightarrow> string \<Rightarrow> string \<Rightarrow> mval \<Rightarrow> string \<Rightarrow> unit ext_result \<times> 'w ext_runtime
    \<Rightarrow> unit ext_result \<times> 'w ext_runtime" where
  "reported E ext ep params idf r = report_outcome E ext ep params idf (fst r) (snd r)"

definition on_register_provider :: "'w ext_env \<Rightarrow> string \<Rightarrow> manifest \<Rightarrow> mval \<Rightarrow> 'w ext_runtime \<Rightarrow> unit ext_result \<times> 'w ext_runtime" where
  "on_register_provider E ext m params s = reported E ext ''cronymax.agents.provider'' params ''providerId''
     (stored (\<lambda>t s. s\<lparr>rt_providers := t\<rparr>) (register_provider_handler m ext params (rt_providers s)) s)"

definition on_unregister_provider :: "string \<Rightarrow> mval \<Rightarrow> 'w ext_runtime \<Rightarrow> unit ext_result \<times> 'w ext_runtime" where
  "on_unregister_provider ext params s = stored (\<lambda>t s. s\<lparr>rt_providers := t\<rparr>)
     (ext_then (str_field params ''providerId'') (\<lambda>i. left_table (unregister_provider ext i (rt_providers s)))) s"

definition on_register_command :: "'w ext_env \<Rightarrow> string \<Rightarrow> mval \<Rightarrow> 'w ext_runtime \<Rightarrow> unit ext_result \<times> 'w ext_runtime" where
  "on_register_command E ext params s = reported E ext ''cronymax.command'' params ''commandId''
     (stored (\<lambda>t s. s\<lparr>rt_commands := t\<rparr>) (ext_then (str_field params ''commandId'') (\<lambda>i. register_command ext i (rt_commands s))) s)"

definition on_unregister_command :: "string \<Rightarrow> mval \<Rightarrow> 'w ext_runtime \<Rightarrow> unit ext_result \<times> 'w ext_runtime" where
  "on_unregister_command ext params s = stored (\<lambda>t s. s\<lparr>rt_commands := t\<rparr>)
     (ext_then (str_field params ''commandId'') (\<lambda>i. unregister_command ext i (rt_commands s))) s"

definition on_register_sidebar :: "'w ext_env \<Rightarrow> string \<Rightarrow> manifest \<Rightarrow> mval \<Rightarrow> 'w ext_runtime \<Rightarrow> unit ext_result \<times> 'w ext_runtime" where
  "on_register_sidebar E ext m params s = reported E ext ''cronymax.ui.sidebar.view'' params ''viewId''
     (stored (\<lambda>t s. s\<lparr>rt_sidebars := t\<rparr>) (register_sidebar_handler m ext params (rt_sidebars s)) s)"

definition on_unregister_sidebar :: "string \<Rightarrow> mval \<Rightarrow> 'w ext_runtime \<Rightarrow> unit ext_result \<times> 'w ext_runtime" where
  "on_unregister_sidebar ext params s = stored (\<lambda>t s. s\<lparr>rt_sidebars := t\<rparr>)
     (ext_then (str_field params ''viewId'') (\<lambda>i. left_table (unregister_sidebar ext i (rt_sidebars s)))) s"

section \<open>Agent events\<close>

definition routed :: "(bool ext_result \<times> session_router) option \<Rightarrow> 'w ext_runtime \<Rightarrow> unit ext_result \<times> 'w ext_runtime" where
  "routed r s = (case r of None \<Rightarrow> (Inr (), s) | Some (_, router) \<Rightarrow> (Inr (), s\<lparr>rt_sessions := router\<rparr>))"

text \<open>
  The session is the one the notification names. A message for a full channel waits; it is then as if it had not
  been read yet. (The texts of the errors end in the source with the value or the message of the decoder.)
\<close>

definition on_agent_event :: "'w ext_env \<Rightarrow> string \<Rightarrow> mval \<Rightarrow> 'w ext_runtime \<Rightarrow> unit ext_result \<times> 'w ext_runtime" where
  "on_agent_event E ext params s =
     (let j = rmpv_to_json (en_values E) params; from = ''agents/event from '' @ in_ticks ext in
      case j of
        JObject ms \<Rightarrow> (case Option.bind (map_of ms ''sessionId'') json_as_str of
          None \<Rightarrow> (Inl (RpcFailure (from @ '' missing string sessionId'')), s)
        | Some session \<Rightarrow> (case map_of ms ''event'' of
            None \<Rightarrow> (Inl (RpcFailure (from @ '' missing '' @ in_ticks ''event'' @ '' field'')), s)
          | Some ev \<Rightarrow> (case session_event_from ev of
              None \<Rightarrow> (Inl (RpcFailure (from @ '' failed to decode AgentEvent'')), s)
            | Some e \<Rightarrow> routed (route_event session e (rt_sessions s)) s)))
      | _ \<Rightarrow> (Inl (RpcFailure (from @ '' is not an object'')), s))"

definition on_turn_done :: "mval \<Rightarrow> 'w ext_runtime \<Rightarrow> unit ext_result \<times> 'w ext_runtime" where
  "on_turn_done params s = (case str_field params ''sessionId'' of
     Inl e \<Rightarrow> (Inl e, s) | Inr session \<Rightarrow> routed (route_turn_done session (rt_sessions s)) s)"

section \<open>Platform events\<close>

definition build_publish_frame :: "event_payload \<Rightarrow> mval" where
  "build_publish_frame p =
     mmap [(''topic'', MString (evp_topic p)), (''publisher'', MString (evp_publisher p)), (''data'', json_to_rmpv (evp_data p))]"

definition published :: "(nat subscriber_entry \<times> event_payload) list \<Rightarrow> ext_effect list" where
  "published ds = map (\<lambda>(e, p). NotifyHost (sbe_listener e) ''events/publish'' (build_publish_frame p)) ds"

definition push_guard :: "string \<Rightarrow> u64 \<Rightarrow> ext_handle \<Rightarrow> ext_handle" where
  "push_guard topic g h = h\<lparr>eh_subscriptions := hm_put topic
     ((case map_of (eh_subscriptions h) topic of Some gs \<Rightarrow> gs | None \<Rightarrow> []) @ [g]) (eh_subscriptions h)\<rparr>"

definition on_subscribe :: "string \<Rightarrow> mval \<Rightarrow> 'w ext_runtime \<Rightarrow> unit ext_result \<times> 'w ext_runtime" where
  "on_subscribe ext params s = (case str_field params ''topic'' of
     Inl e \<Rightarrow> (Inl e, s)
   | Inr topic \<Rightarrow> (case map_of (rt_handles s) ext of
       None \<Rightarrow> (Inl (NotActivated ext), s)
     | Some h \<Rightarrow> (case subscribe_event ext topic (eh_host h) (rt_events s) of
         (Inl e, b) \<Rightarrow> (Inl e, s\<lparr>rt_events := b\<rparr>)
       | (Inr g, b) \<Rightarrow> (Inr (), s\<lparr>rt_events := b, rt_handles := hm_put ext (push_guard topic g h) (rt_handles s)\<rparr>))))"

definition drop_guards :: "u64 list \<Rightarrow> 'l event_bus \<Rightarrow> 'l event_bus" where
  "drop_guards gs b = foldl (\<lambda>b g. drop_guard g b) b gs"

definition on_unsubscribe :: "string \<Rightarrow> mval \<Rightarrow> 'w ext_runtime \<Rightarrow> unit ext_result \<times> 'w ext_runtime" where
  "on_unsubscribe ext params s = (case str_field params ''topic'' of
     Inl e \<Rightarrow> (Inl e, s)
   | Inr topic \<Rightarrow> (case map_of (rt_handles s) ext of
       None \<Rightarrow> (Inr (), s)
     | Some h \<Rightarrow> (Inr (), s\<lparr>rt_handles := hm_put ext (h\<lparr>eh_subscriptions := hm_remove topic (eh_subscriptions h)\<rparr>) (rt_handles s),
         rt_events := drop_guards (case map_of (eh_subscriptions h) topic of Some gs \<Rightarrow> gs | None \<Rightarrow> []) (rt_events s)\<rparr>)))"

definition on_emit :: "'w ext_env \<Rightarrow> string \<Rightarrow> mval \<Rightarrow> 'w ext_runtime \<Rightarrow> mval ext_result \<times> 'w ext_runtime" where
  "on_emit E ext params s = (case str_field params ''topic'' of
     Inl e \<Rightarrow> (Inl e, s)
   | Inr topic \<Rightarrow>
       (let d = rmpv_to_json (en_values E) (case lookup_field params ''data'' of Some v \<Rightarrow> v | None \<Rightarrow> MNil)
        in case emit_from_extension ext topic d (rt_events s) of
             Inl e \<Rightarrow> (Inl e, s) | Inr ds \<Rightarrow> (Inr MNil, emit_effects (published ds) s)))"

section \<open>Panels and views\<close>

definition put_panels :: "'a ext_result \<times> webview_registry \<times> webview_event list \<Rightarrow> 'w ext_runtime \<Rightarrow> 'a ext_result \<times> 'w ext_runtime" where
  "put_panels r s = (case r of (res, t, evs) \<Rightarrow> (res, emit_effects (map WebviewEffect evs) (s\<lparr>rt_webviews := t\<rparr>)))"

definition on_create_panel :: "string \<Rightarrow> mval \<Rightarrow> 'w ext_runtime \<Rightarrow> mval ext_result \<times> 'w ext_runtime" where
  "on_create_panel ext params s =
     (case str_field params ''panelId'' of Inl e \<Rightarrow> (Inl e, s) | Inr i \<Rightarrow>
       (let title = (case extract_str_field params ''title'' of Some t \<Rightarrow> t | None \<Rightarrow> []) in
        case str_field params ''entry'' of Inl e \<Rightarrow> (Inl e, s) | Inr entry \<Rightarrow>
         (let slot = (case extract_str_field params ''slot'' of Some t \<Rightarrow> t | None \<Rightarrow> ''sidebar'') in
          case slot_from_idl slot of None \<Rightarrow> (Inl (RpcFailure (''unknown slot '' @ in_ticks slot)), s) | Some sl \<Rightarrow>
           (let (res, s') = put_panels (create_panel ext i title sl entry (rt_webviews s)) s in
            (map_sum id (\<lambda>v. mmap [(''panelId'', MString (pv_id v)), (''url'', MString (url_for ext (pv_id v) entry)),
               (''slot'', MString (slot_idl (pv_slot v)))]) res, s')))))"

definition on_dispose_panel :: "string \<Rightarrow> mval \<Rightarrow> 'w ext_runtime \<Rightarrow> unit ext_result \<times> 'w ext_runtime" where
  "on_dispose_panel ext params s = (case str_field params ''panelId'' of Inl e \<Rightarrow> (Inl e, s) | Inr i \<Rightarrow>
     (let (res, s') = put_panels (dispose_panel ext i (rt_webviews s)) s in (map_sum id (\<lambda>_. ()) res, s')))"

fun mval_bool :: "mval \<Rightarrow> bool option" where
  "mval_bool (MBool b) = Some b"
| "mval_bool _ = None"

definition on_set_visible :: "string \<Rightarrow> mval \<Rightarrow> 'w ext_runtime \<Rightarrow> unit ext_result \<times> 'w ext_runtime" where
  "on_set_visible ext params s = (case str_field params ''panelId'' of Inl e \<Rightarrow> (Inl e, s) | Inr i \<Rightarrow>
     put_panels (set_panel_visible ext i (Option.bind (lookup_field params ''visible'') mval_bool = Some True) (rt_webviews s)) s)"

definition payload_of :: "'w ext_env \<Rightarrow> mval \<Rightarrow> json" where
  "payload_of E params = rmpv_to_json (en_values E) (case lookup_field params ''payload'' of Some v \<Rightarrow> v | None \<Rightarrow> MNil)"

definition on_panel_message :: "'w ext_env \<Rightarrow> string \<Rightarrow> mval \<Rightarrow> 'w ext_runtime \<Rightarrow> unit ext_result \<times> 'w ext_runtime" where
  "on_panel_message E ext params s = (case str_field params ''panelId'' of Inl e \<Rightarrow> (Inl e, s) | Inr i \<Rightarrow>
     (let (res, evs) = deliver_panel_message ext i (payload_of E params) (rt_webviews s) in (res, emit_effects (map WebviewEffect evs) s)))"

definition on_view_message :: "'w ext_env \<Rightarrow> string \<Rightarrow> mval \<Rightarrow> 'w ext_runtime \<Rightarrow> unit ext_result \<times> 'w ext_runtime" where
  "on_view_message E ext params s = (case str_field params ''viewId'' of Inl e \<Rightarrow> (Inl e, s) | Inr i \<Rightarrow>
     (case map_of (rt_sidebars s) i of
        Some v \<Rightarrow> if sve_ext v = ext
          then (Inr (), emit_effects (map WebviewEffect (deliver_to_frame i (payload_of E params))) s)
          else (Inl (BadContribution ''cronymax.ui.sidebar.view'' ext (''view '' @ in_ticks i @ '' is owned by '' @ in_ticks (sve_ext v) @ '', not '' @ in_ticks ext)), s)
      | None \<Rightarrow> (Inl (BadContribution ''cronymax.ui.sidebar.view'' ext
          (''view '' @ in_ticks i @ '' has no registered provider (did you call registerWebviewViewProvider?)'')), s)))"

section \<open>Logs\<close>

definition on_log_channel :: "'w ext_env \<Rightarrow> string \<Rightarrow> mval \<Rightarrow> 'w ext_runtime \<Rightarrow> unit ext_result \<times> 'w ext_runtime" where
  "on_log_channel E ext params s = (case rmpv_to_json (en_values E) params of
     JObject ms \<Rightarrow>
       (let str = (\<lambda>k d. case Option.bind (map_of ms k) json_as_str of Some v \<Rightarrow> v | None \<Rightarrow> d); channel = str ''channel'' ''output''
        in case en_log E of
             None \<Rightarrow> (Inr (), s)
           | Some write \<Rightarrow> (case write ext channel of
               Inl e \<Rightarrow> (Inl e, s)
             | Inr _ \<Rightarrow> (Inr (), emit_effects [LogLine ext channel (json_object [(''t'', json_u64 (en_millis E (rt_world s))),
                 (''level'', JString (str ''level'' ''info'')), (''msg'', JString (str ''message'' []))])] s)))
   | _ \<Rightarrow> (Inl (RpcFailure (''log/channel from '' @ in_ticks ext @ '' is not an object'')), s))"

definition on_log_clear :: "'w ext_env \<Rightarrow> string \<Rightarrow> mval \<Rightarrow> 'w ext_runtime \<Rightarrow> mval ext_result \<times> 'w ext_runtime" where
  "on_log_clear E ext params s = (case str_field params ''channel'' of Inl e \<Rightarrow> (Inl e, s) | Inr channel \<Rightarrow>
     (case en_log E of
        None \<Rightarrow> (Inr MNil, s)
      | Some write \<Rightarrow> (case write ext channel of Inl e \<Rightarrow> (Inl e, s) | Inr _ \<Rightarrow> (Inr MNil, emit_effects [LogCleared ext channel] s))))"

section \<open>The server of an extension\<close>

text \<open>
  \<^verbatim>\<open>build_rpc_server\<close>: the notifications and the requests that a host of the extension, spawned with this manifest,
  can send. What has no handler changes nothing.
\<close>

definition on_host_notify :: "'w ext_env \<Rightarrow> string \<Rightarrow> manifest \<Rightarrow> string \<Rightarrow> mval \<Rightarrow> 'w ext_runtime \<Rightarrow> unit ext_result \<times> 'w ext_runtime" where
  "on_host_notify E ext m meth params s =
     (if meth = ''agents/registerProvider'' then on_register_provider E ext m params s
      else if meth = ''agents/unregisterProvider'' then on_unregister_provider ext params s
      else if meth = ''agents/event'' then on_agent_event E ext params s
      else if meth = ''agents/turn.done'' then on_turn_done params s
      else if meth = ''commands/register'' then on_register_command E ext params s
      else if meth = ''commands/unregister'' then on_unregister_command ext params s
      else if meth = ''sidebar/register'' then on_register_sidebar E ext m params s
      else if meth = ''sidebar/unregister'' then on_unregister_sidebar ext params s
      else if meth = ''events/subscribe'' then on_subscribe ext params s
      else if meth = ''events/unsubscribe'' then on_unsubscribe ext params s
      else if meth = ''webview/disposePanel'' then on_dispose_panel ext params s
      else if meth = ''webview/setVisible'' then on_set_visible ext params s
      else if meth = ''webview/postMessage'' then on_panel_message E ext params s
      else if meth = ''webviewView/postMessage'' then on_view_message E ext params s
      else if meth = ''log/channel'' then on_log_channel E ext params s
      else (Inr (), s))"

definition on_host_request :: "'w ext_env \<Rightarrow> string \<Rightarrow> string \<Rightarrow> mval \<Rightarrow> 'w ext_runtime \<Rightarrow> mval ext_result \<times> 'w ext_runtime" where
  "on_host_request E ext meth params s =
     (if meth = ''events/emit'' then on_emit E ext params s
      else if meth = ''webview/createPanel'' then on_create_panel ext params s
      else if meth = ''log/channelClear'' then on_log_clear E ext params s
      else (Inl (RpcMethodMissing meth), s))"

text \<open>What a host that is up sends, as a change of the state.\<close>

datatype host_message = HostNotify string mval | HostRequest string mval

fun serve_host :: "'w ext_env \<Rightarrow> string \<Rightarrow> manifest \<Rightarrow> host_message \<Rightarrow> 'w ext_runtime \<Rightarrow> 'w ext_runtime" where
  "serve_host E ext m (HostNotify meth params) s = snd (on_host_notify E ext m meth params s)"
| "serve_host E ext m (HostRequest meth params) s = snd (on_host_request E ext meth params s)"

section \<open>From a frame to its extension\<close>

text \<open>The identifier the renderer sends is that of a panel or of a view; panels are looked up first.\<close>

definition forward_panel_message :: "string \<Rightarrow> json \<Rightarrow> 'w ext_runtime \<Rightarrow> unit ext_result \<times> 'w ext_runtime" where
  "forward_panel_message i body s = (case panel_owner (rt_webviews s) i of
     Some own \<Rightarrow> notify_extension own ''webview/onDidReceiveMessage'' (mmap [(''panelId'', MString i), (''payload'', json_to_rmpv body)]) s
   | None \<Rightarrow> (case map_of (rt_sidebars s) i of
       Some v \<Rightarrow> notify_extension (sve_ext v) ''webviewView/onDidReceiveMessage''
         (mmap [(''viewId'', MString i), (''payload'', json_to_rmpv body)]) s
     | None \<Rightarrow> (Inl (BadContribution ''cronymax.window.panel'' ''<renderer>'' (''no panel or registered view with id '' @ in_ticks i)), s)))"

text \<open>A notification about a view: nothing to do when no provider is registered for it or its extension has no host.\<close>

definition notify_view :: "string \<Rightarrow> string \<Rightarrow> mval \<Rightarrow> 'w ext_runtime \<Rightarrow> unit ext_result \<times> 'w ext_runtime" where
  "notify_view i meth frame s = (case map_of (rt_sidebars s) i of
     None \<Rightarrow> (Inr (), s)
   | Some v \<Rightarrow> (case notify_extension (sve_ext v) meth frame s of
       (Inl (NotActivated _), s') \<Rightarrow> (Inr (), s')
     | r \<Rightarrow> r))"

definition resolve_view :: "string \<Rightarrow> 'w ext_runtime \<Rightarrow> unit ext_result \<times> 'w ext_runtime" where
  "resolve_view i = notify_view i ''webviewView/resolve'' (mmap [(''viewId'', MString i), (''visible'', MBool True)])"

definition dispose_view :: "string \<Rightarrow> 'w ext_runtime \<Rightarrow> unit ext_result \<times> 'w ext_runtime" where
  "dispose_view i = notify_view i ''webviewView/onDidDispose'' (mmap [(''viewId'', MString i)])"

definition change_view_visibility :: "string \<Rightarrow> bool \<Rightarrow> 'w ext_runtime \<Rightarrow> unit ext_result \<times> 'w ext_runtime" where
  "change_view_visibility i visible =
     notify_view i ''webviewView/onDidChangeVisibility'' (mmap [(''viewId'', MString i), (''visible'', MBool visible)])"

definition forward_panel_view_state :: "string \<Rightarrow> bool \<Rightarrow> bool \<Rightarrow> 'w ext_runtime \<Rightarrow> unit ext_result \<times> 'w ext_runtime" where
  "forward_panel_view_state i active visible s = (case panel_owner (rt_webviews s) i of
     None \<Rightarrow> (Inl (BadContribution ''cronymax.window.panel'' ''<renderer>'' (''panel '' @ in_ticks i @ '' does not exist'')), s)
   | Some own \<Rightarrow> notify_extension own ''webview/onDidChangeViewState''
       (mmap [(''panelId'', MString i), (''active'', MBool active), (''visible'', MBool visible)]) s)"

definition forward_renderer_height :: "string \<Rightarrow> 32 word \<Rightarrow> 'w ext_runtime \<Rightarrow> unit ext_result \<times> 'w ext_runtime" where
  "forward_renderer_height i px s = (Inr (), emit_effects [RendererHeight i px] s)"

definition forward_panel_disposed :: "string \<Rightarrow> 'w ext_runtime \<Rightarrow> unit ext_result \<times> 'w ext_runtime" where
  "forward_panel_disposed i s = (case panel_owner (rt_webviews s) i of
     None \<Rightarrow> (Inr (), s)
   | Some own \<Rightarrow> notify_extension own ''webview/onDidDispose'' (mmap [(''panelId'', MString i)])
       (snd (put_panels (dispose_panel own i (rt_webviews s)) s)))"

section \<open>The list of installed extensions\<close>

record contributes_summary =
  cs_commands :: nat
  cs_agent_providers :: nat
  cs_content_renderers :: nat
  cs_sidebar_views :: nat
  cs_config_pages :: nat
  cs_has_config_schema :: bool

record installed_extension_info =
  ie_id :: string
  ie_name :: string
  ie_version :: string
  ie_publisher :: string
  ie_description :: "string option"
  ie_icon :: "string option"
  ie_enabled :: bool
  ie_disabled_reason :: "disabled_reason option"
  ie_active :: bool
  ie_has_main :: bool
  ie_installed_at :: u64
  ie_ext_dir :: string
  ie_contributes :: contributes_summary

definition installed_info :: "'w ext_runtime \<Rightarrow> registry_entry \<Rightarrow> installed_extension_info" where
  "installed_info s e = (let m = rge_manifest e; c = mf_contributes m in
     \<lparr>ie_id = mf_id m, ie_name = mf_name m, ie_version = mf_version m, ie_publisher = mf_publisher m,
      ie_description = mf_description m, ie_icon = mf_icon m, ie_enabled = rge_enabled e, ie_disabled_reason = rge_reason e,
      ie_active = ext_active s (mf_id m), ie_has_main = (mf_main m \<noteq> None), ie_installed_at = rge_installed_at e, ie_ext_dir = rge_dir e,
      ie_contributes = \<lparr>cs_commands = length (ct_commands c), cs_agent_providers = length (ct_agent_providers c),
        cs_content_renderers = length (ct_content_renderers c), cs_sidebar_views = length (ct_sidebar_views c),
        cs_config_pages = length (ct_config_pages c), cs_has_config_schema = (ct_config_schema c \<noteq> None)\<rparr>\<rparr>)"

definition list_installed :: "'w ext_runtime \<Rightarrow> installed_extension_info list" where
  "list_installed s = sort_key ie_id (map (installed_info s \<circ> snd) (rg_entries (rt_registry s)))"

end
