(* ===== verification/ExtTasks.thy ===== *)
theory ExtTasks
  imports ExtRuntime
begin

text \<open>
  The asynchronous operations of the orchestrator (\<^verbatim>\<open>extensions/runtime.rs\<close>): activation, deactivation, the
  management actions and the recovery from crashes. A function is cut where it awaits; a section between two
  awaits is one step. A task is the stack of the functions that wait, innermost first. Tasks interleave only where they
  wait: that is coarser than the threads of the runtime, which can also switch between two locked sections.
\<close>

section \<open>Frames\<close>

type_synonym ext_ret = "string option ext_result"

text \<open>
  The first eight wait for the outside: a host to be spawned, one without a connection to shut down, the answer to
  \<^verbatim>\<open>extension/activate\<close>, a host to shut down after a failed activation, the answer to \<^verbatim>\<open>extension/deactivate\<close>, the shutdown after it, the delay before a restart, the shutdown
  of a crashed host. The others wait for the function above them.
\<close>

datatype ext_frame =
  FSpawn string manifest
| FUnconnected string
| FHandshake string nat
| FRollback extension_error
| FDeactivateAsked string ext_handle
| FDeactivateShutdown
| FBackoff string
| FRespawnShutdown string
| FActivateHosted string
| FInstalled string
| FUninstall string
| FShutdownAll "string list"
| FCrashDone string
| FRespawned string
| FDisabled string string

datatype ext_control = Await "ext_frame list" | Return ext_ret | Panicked string

type_synonym 'w ext_section = "ext_control \<times> 'w ext_runtime"

text \<open>A call whose caller waits for it under a frame, or goes on at once.\<close>

definition then_back :: "'w ext_section \<Rightarrow> ext_frame \<Rightarrow> (ext_ret \<Rightarrow> 'w ext_runtime \<Rightarrow> 'w ext_section) \<Rightarrow> 'w ext_section" where
  "then_back c f k = (case c of
     (Await fs, s) \<Rightarrow> (Await (fs @ [f]), s)
   | (Return r, s) \<Rightarrow> k r s
   | (Panicked m, s) \<Rightarrow> (Panicked m, s))"

section \<open>Clearing\<close>

definition set_host_down :: "nat \<Rightarrow> 'w ext_runtime \<Rightarrow> 'w ext_runtime" where
  "set_host_down h s = s\<lparr>rt_hosts := (rt_hosts s)[h := (rt_hosts s ! h)\<lparr>hr_up := False\<rparr>]\<rparr>"

text \<open>What a failed activation and a deactivation have in common.\<close>

definition clear_extension :: "string \<Rightarrow> 'w ext_runtime \<Rightarrow> 'w ext_runtime" where
  "clear_extension ext s =
     (let (_, panels, evs) = dispose_panels_of ext (rt_webviews s) in
      emit_effects (map WebviewEffect evs @ [ContributionsChanged])
        (s\<lparr>rt_contributions := snd (remove_extension ext (rt_contributions s)),
           rt_providers := snd (unregister_providers_of ext (rt_providers s)),
           rt_commands := unregister_commands_of ext (rt_commands s),
           rt_renderers := snd (unregister_renderers_of ext (rt_renderers s)),
           rt_sidebars := snd (unregister_sidebars_of ext (rt_sidebars s)),
           rt_webviews := panels,
           rt_events := unregister_extension ext (rt_events s)\<rparr>))"

definition handle_guards :: "ext_handle \<Rightarrow> u64 list" where
  "handle_guards h = concat (map snd (eh_subscriptions h))"

definition drop_subscriptions :: "ext_handle \<Rightarrow> 'w ext_runtime \<Rightarrow> 'w ext_runtime" where
  "drop_subscriptions h s = s\<lparr>rt_events := drop_guards (handle_guards h) (rt_events s)\<rparr>"

definition remove_handle :: "string \<Rightarrow> 'w ext_runtime \<Rightarrow> 'w ext_runtime" where
  "remove_handle ext s = s\<lparr>rt_handles := hm_remove ext (rt_handles s)\<rparr>"

section \<open>Spawning\<close>

text \<open>
  A host that was spawned serves at once; its handle replaces the one there was, whose subscriptions end and whose process is
  killed. Without a connection the host is shut down and the result is an error.
\<close>

definition spawned_host :: "string \<Rightarrow> manifest \<Rightarrow> bool ext_result \<Rightarrow> 'w ext_runtime \<Rightarrow> 'w ext_section" where
  "spawned_host ext m a s = (case a of
     Inl e \<Rightarrow> (Return (Inl e), s)
   | Inr connected \<Rightarrow>
       (let h = length (rt_hosts s) in
        if \<not> connected then (Await [FUnconnected ext], s\<lparr>rt_hosts := rt_hosts s @ [\<lparr>hr_ext = ext, hr_manifest = m, hr_up = False\<rparr>]\<rparr>)
        else let s1 = (case map_of (rt_handles s) ext of Some old \<Rightarrow> drop_subscriptions old s | None \<Rightarrow> s)
             in (Await [FHandshake ext h],
                 s1\<lparr>rt_hosts := rt_hosts s1 @ [\<lparr>hr_ext = ext, hr_manifest = m, hr_up = True\<rparr>],
                    rt_handles := hm_put ext \<lparr>eh_host = h, eh_subscriptions = []\<rparr> (rt_handles s1)\<rparr>)))"

section \<open>Activation\<close>

definition finish_activation :: "'w ext_env \<Rightarrow> string \<Rightarrow> 'w ext_runtime \<Rightarrow> 'w ext_section" where
  "finish_activation E ext s = (case mark_activated (en_now E (rt_world s)) ext (rt_lifecycle s) of
     Inr l \<Rightarrow> (Return (Inr None), s\<lparr>rt_lifecycle := l\<rparr>)
   | Inl _ \<Rightarrow> (Panicked ''checked is_activated above'', s))"

definition prepare_activation :: "string \<Rightarrow> manifest \<Rightarrow> 'w ext_runtime \<Rightarrow> 'w ext_runtime" where
  "prepare_activation ext m s =
     (let s1 = emit_effects [ContributionsChanged] (s\<lparr>rt_restart_counts := hm_remove ext (rt_restart_counts s),
            rt_contributions := snd (ingest m (rt_contributions s))\<rparr>)
      in s1\<lparr>rt_renderers := snd (ingest_manifest m ext (rt_renderers s1)),
            rt_events := register_extension ext (ec_subscribe (cap_events (mf_capabilities m))) (ec_emit (cap_events (mf_capabilities m)))
              (rt_events s1)\<rparr>)"

definition activate :: "'w ext_env \<Rightarrow> string \<Rightarrow> 'w ext_runtime \<Rightarrow> 'w ext_section" where
  "activate E ext s = (case registry_get (rt_registry s) ext of
     None \<Rightarrow> (Return (Inl (NotInstalled ext)), s)
   | Some e \<Rightarrow>
       if \<not> rge_enabled e then (Return (Inl (NotEnabled ext)), s)
       else if ext_active s ext then (Return (Inl (AlreadyActivated ext)), s)
       else let m = rge_manifest e; s1 = prepare_activation ext m s in
         if mf_main m \<noteq> None then (Await [FSpawn ext m, FActivateHosted ext], s1) else finish_activation E ext s1)"

definition rollback_activation :: "string \<Rightarrow> extension_error \<Rightarrow> 'w ext_runtime \<Rightarrow> 'w ext_section" where
  "rollback_activation ext e s =
     (let s1 = clear_extension ext (remove_handle ext s) in
      case map_of (rt_handles s) ext of
        None \<Rightarrow> (Return (Inl e), s1)
      | Some h \<Rightarrow> (Await [FRollback e], set_host_down (eh_host h) (drop_subscriptions h s1)))"

definition activate_hosted :: "'w ext_env \<Rightarrow> string \<Rightarrow> ext_ret \<Rightarrow> 'w ext_runtime \<Rightarrow> 'w ext_section" where
  "activate_hosted E ext r s = (case r of Inl e \<Rightarrow> rollback_activation ext e s | Inr _ \<Rightarrow> finish_activation E ext s)"

definition activate_default :: "'w ext_env \<Rightarrow> string \<Rightarrow> 'w ext_runtime \<Rightarrow> 'w ext_section" where
  "activate_default E ext s =
     (if \<not> en_builder E \<and> (case registry_get (rt_registry s) ext of Some e \<Rightarrow> mf_main (rge_manifest e) \<noteq> None | None \<Rightarrow> False)
      then (Return (Inl (HostSpawn ''spawn-config builder not configured (bundled Node 26 missing?)'')), s)
      else activate E ext s)"

section \<open>Deactivation\<close>

definition deactivate :: "string \<Rightarrow> 'w ext_runtime \<Rightarrow> 'w ext_section" where
  "deactivate ext s =
     (if \<not> ext_active s ext then (Return (Inl (NotActivated ext)), s)
      else let s1 = s\<lparr>rt_lifecycle := hm_remove ext (rt_lifecycle s), rt_sessions := snd (close_sessions_of ext (rt_sessions s))\<rparr>
           in case map_of (rt_handles s) ext of
                None \<Rightarrow> (Return (Inr None), clear_extension ext s1)
              | Some h \<Rightarrow> (Await [FDeactivateAsked ext h], remove_handle ext s1))"

definition deactivate_answered :: "string \<Rightarrow> ext_handle \<Rightarrow> 'w ext_runtime \<Rightarrow> 'w ext_section" where
  "deactivate_answered ext h s = (Await [FDeactivateShutdown], set_host_down (eh_host h) (drop_subscriptions h (clear_extension ext s)))"

section \<open>Management\<close>

definition put_registry :: "'a ext_result \<times> ext_registry \<times> 'w \<Rightarrow> 'w ext_runtime \<Rightarrow> 'a ext_result \<times> 'w ext_runtime" where
  "put_registry r s = (case r of (res, reg, w) \<Rightarrow> (res, s\<lparr>rt_registry := reg, rt_world := w\<rparr>))"

definition set_enabled :: "'w ext_env \<Rightarrow> string \<Rightarrow> bool \<Rightarrow> 'w ext_runtime \<Rightarrow> 'w ext_section" where
  "set_enabled E ext b s = (case put_registry (set_extension_enabled (en_os E) ext b (rt_registry s) (rt_world s)) s of
     (Inl e, s1) \<Rightarrow> (Return (Inl e), s1)
   | (Inr _, s1) \<Rightarrow>
       if b then (if ext_active s1 ext then (Return (Inr None), s1) else activate_default E ext s1)
       else (if ext_active s1 ext then deactivate ext s1 else (Return (Inr None), s1)))"

definition install_from :: "'w ext_env \<Rightarrow> string \<Rightarrow> 'w ext_runtime \<Rightarrow> 'w ext_section" where
  "install_from E source s = (case put_registry (install_from_path (en_os E) source (rt_registry s) (rt_world s)) s of
     (Inl e, s1) \<Rightarrow> (Return (Inl e), s1)
   | (Inr i, s1) \<Rightarrow> then_back (activate_default E i s1) (FInstalled i) (\<lambda>_ s. (Return (Inr (Some i)), s)))"

definition remove_installed :: "'w ext_env \<Rightarrow> string \<Rightarrow> 'w ext_runtime \<Rightarrow> 'w ext_section" where
  "remove_installed E ext s = (case put_registry (uninstall_extension (en_os E) ext (rt_registry s) (rt_world s)) s of
     (res, s1) \<Rightarrow> (Return (map_sum id (\<lambda>_. None) res), s1))"

definition uninstall :: "'w ext_env \<Rightarrow> string \<Rightarrow> 'w ext_runtime \<Rightarrow> 'w ext_section" where
  "uninstall E ext s = (if ext_active s ext then then_back (deactivate ext s) (FUninstall ext) (\<lambda>_. remove_installed E ext)
     else remove_installed E ext s)"

fun shutdown_ids :: "string list \<Rightarrow> 'w ext_runtime \<Rightarrow> 'w ext_section" where
  "shutdown_ids [] s = (Return (Inr None), s)"
| "shutdown_ids (i # is) s = then_back (deactivate i s) (FShutdownAll is) (\<lambda>_. shutdown_ids is)"

definition shutdown_all :: "'w ext_runtime \<Rightarrow> 'w ext_section" where
  "shutdown_all s = shutdown_ids (activated_ids (rt_lifecycle s)) s"

section \<open>Recovery from crashes\<close>

definition finish_disable :: "'w ext_env \<Rightarrow> string \<Rightarrow> string \<Rightarrow> 'w ext_runtime \<Rightarrow> 'w ext_section" where
  "finish_disable E ext message s =
     (let s1 = snd (put_registry (set_disabled_by_crash (en_os E) ext (rt_registry s) (rt_world s)) s)
      in (Return (Inr None), emit_effects [ContributionsChanged, NoticeEffect ext NoticeError message]
            (s1\<lparr>rt_restart_counts := hm_remove ext (rt_restart_counts s1)\<rparr>)))"

definition disable_after_crash :: "'w ext_env \<Rightarrow> string \<Rightarrow> string \<Rightarrow> 'w ext_runtime \<Rightarrow> 'w ext_section" where
  "disable_after_crash E ext message s = then_back (deactivate ext s) (FDisabled ext message) (\<lambda>_. finish_disable E ext message)"

definition respawn_host :: "'w ext_env \<Rightarrow> string \<Rightarrow> 'w ext_runtime \<Rightarrow> 'w ext_section" where
  "respawn_host E ext s =
     (let s1 = s\<lparr>rt_providers := snd (unregister_providers_of ext (rt_providers s)),
            rt_commands := unregister_commands_of ext (rt_commands s),
            rt_sidebars := snd (unregister_sidebars_of ext (rt_sidebars s))\<rparr>
      in case registry_get (rt_registry s1) ext of
           None \<Rightarrow> (Return (Inl (NotInstalled ext)), s1)
         | Some e \<Rightarrow> if \<not> en_builder E then (Return (Inl (HostSpawn ''no spawn-config builder for respawn'')), s1)
             else (Await [FSpawn ext (rge_manifest e)], s1))"

definition respawn :: "'w ext_env \<Rightarrow> string \<Rightarrow> 'w ext_runtime \<Rightarrow> 'w ext_section" where
  "respawn E ext s = (case map_of (rt_handles s) ext of
     None \<Rightarrow> respawn_host E ext s
   | Some h \<Rightarrow> (Await [FRespawnShutdown ext], set_host_down (eh_host h) (drop_subscriptions h (remove_handle ext s))))"

definition respawned :: "'w ext_env \<Rightarrow> string \<Rightarrow> ext_ret \<Rightarrow> 'w ext_runtime \<Rightarrow> 'w ext_section" where
  "respawned E ext r s = (case r of
     Inr _ \<Rightarrow> (Return (Inr None), s)
   | Inl _ \<Rightarrow> disable_after_crash E ext (''Extension '' @ [CHR 0x27] @ ext @ [CHR 0x27] @ '' failed to restart and was disabled.'') s)"

text \<open>After the delay, unless the extension was deactivated meanwhile.\<close>

definition restart_now :: "'w ext_env \<Rightarrow> string \<Rightarrow> 'w ext_runtime \<Rightarrow> 'w ext_section" where
  "restart_now E ext s = (if \<not> ext_active s ext then (Return (Inr None), s)
     else then_back (respawn E ext s) (FRespawned ext) (respawned E ext))"

definition try_restart :: "'w ext_env \<Rightarrow> string \<Rightarrow> host_exit \<Rightarrow> 'w ext_runtime \<Rightarrow> 'w ext_section" where
  "try_restart E ext exit s =
     (let count = (case map_of (rt_restart_counts s) ext of Some c \<Rightarrow> c | None \<Rightarrow> 0) + 1;
          s1 = emit_effects [CrashLogged ext exit count (rt_max_restarts s)] (s\<lparr>rt_restart_counts := hm_put ext count (rt_restart_counts s)\<rparr>)
      in if rt_max_restarts s < count
         then disable_after_crash E ext (''Extension '' @ [CHR 0x27] @ ext @ [CHR 0x27] @ '' was disabled after crashing '' @
           show_nat (unat count) @ '' times.'') s1
         else if count = 1 then restart_now E ext s1 else (Await [FBackoff ext], s1))"

definition crash_done :: "string \<Rightarrow> 'w ext_runtime \<Rightarrow> 'w ext_section" where
  "crash_done ext s = (Return (Inr None), s\<lparr>rt_restarting := removeAll ext (rt_restarting s)\<rparr>)"

definition on_host_crashed :: "'w ext_env \<Rightarrow> string \<Rightarrow> host_exit \<Rightarrow> 'w ext_runtime \<Rightarrow> 'w ext_section" where
  "on_host_crashed E ext exit s =
     (if \<not> ext_active s ext \<or> ext \<in> set (rt_restarting s) then (Return (Inr None), s)
      else then_back (try_restart E ext exit (s\<lparr>rt_restarting := ext # rt_restarting s\<rparr>)) (FCrashDone ext) (\<lambda>_. crash_done ext))"

section \<open>Tasks\<close>

text \<open>
  The answer to what the innermost frame waits for. Only spawning reads whether a connection came with the host; a
  deactivation and the shutdowns go on whatever the outcome.
\<close>

fun frame_answered :: "'w ext_env \<Rightarrow> bool ext_result \<Rightarrow> ext_frame \<Rightarrow> 'w ext_runtime \<Rightarrow> 'w ext_section" where
  "frame_answered E a (FSpawn ext m) s = spawned_host ext m a s"
| "frame_answered E a (FUnconnected ext) s = (Return (Inl (HostSpawn ''host spawned but connection unavailable'')), s)"
| "frame_answered E a (FHandshake ext h) s = (Return (map_sum id (\<lambda>_. None) a), s)"
| "frame_answered E a (FRollback e) s = (Return (Inl e), s)"
| "frame_answered E a (FDeactivateAsked ext h) s = deactivate_answered ext h s"
| "frame_answered E a FDeactivateShutdown s = (Return (Inr None), s)"
| "frame_answered E a (FBackoff ext) s = restart_now E ext s"
| "frame_answered E a (FRespawnShutdown ext) s = respawn_host E ext s"
| "frame_answered E a _ s = (Return (Inr None), s)"

text \<open>The result of the frame above.\<close>

fun resumed :: "'w ext_env \<Rightarrow> ext_ret \<Rightarrow> ext_frame \<Rightarrow> 'w ext_runtime \<Rightarrow> 'w ext_section" where
  "resumed E r (FActivateHosted ext) s = activate_hosted E ext r s"
| "resumed E r (FInstalled i) s = (Return (Inr (Some i)), s)"
| "resumed E r (FUninstall ext) s = remove_installed E ext s"
| "resumed E r (FShutdownAll is) s = shutdown_ids is s"
| "resumed E r (FCrashDone ext) s = crash_done ext s"
| "resumed E r (FRespawned ext) s = respawned E ext r s"
| "resumed E r (FDisabled ext message) s = finish_disable E ext message s"
| "resumed E r _ s = (Return r, s)"

datatype ext_task = Running "ext_frame list" | Finished ext_ret | Crashed string

fun unwind :: "'w ext_env \<Rightarrow> 'w ext_section \<Rightarrow> ext_frame list \<Rightarrow> ext_task \<times> 'w ext_runtime" where
  "unwind E (Await fs, s) gs = (Running (fs @ gs), s)"
| "unwind E (Panicked m, s) gs = (Crashed m, s)"
| "unwind E (Return r, s) [] = (Finished r, s)"
| "unwind E (Return r, s) (g # gs) = unwind E (resumed E r g s) gs"

fun task_step :: "'w ext_env \<Rightarrow> bool ext_result \<Rightarrow> ext_task \<Rightarrow> 'w ext_runtime \<Rightarrow> ext_task \<times> 'w ext_runtime" where
  "task_step E a (Running (f # fs)) s = unwind E (frame_answered E a f s) fs"
| "task_step E a t s = (t, s)"

section \<open>Histories\<close>

datatype ext_call =
  CallActivate string
| CallSetEnabled string bool
| CallInstall string
| CallUninstall string
| CallShutdownAll
| CallCrashed string host_exit

fun begin_call :: "'w ext_env \<Rightarrow> ext_call \<Rightarrow> 'w ext_runtime \<Rightarrow> 'w ext_section" where
  "begin_call E (CallActivate ext) s = activate_default E ext s"
| "begin_call E (CallSetEnabled ext b) s = set_enabled E ext b s"
| "begin_call E (CallInstall source) s = install_from E source s"
| "begin_call E (CallUninstall ext) s = uninstall E ext s"
| "begin_call E CallShutdownAll s = shutdown_all s"
| "begin_call E (CallCrashed ext exit) s = on_host_crashed E ext exit s"

text \<open>
  What can happen: a call begins a task, a waiting task gets its answer, a host that is up sends a message, a connection ends,
  a host uses much memory.
\<close>

datatype ext_label =
  Begin ext_call
| Answer nat "bool ext_result"
| FromHost nat host_message
| HostGone nat
| MemoryHigh string nat nat

definition rss_notice :: "string \<Rightarrow> nat \<Rightarrow> nat \<Rightarrow> ext_effect" where
  "rss_notice ext rss limit = NoticeEffect ext NoticeWarn (''Extension '' @ [CHR 0x27] @ ext @ [CHR 0x27] @ '' is using '' @
     show_nat (rss div 1048576) @ '' MB of memory (over the '' @ show_nat (limit div 1048576) @ '' MB soft limit).'')"

fun ext_exec :: "'w ext_env \<Rightarrow> 'w ext_runtime \<times> ext_task list \<Rightarrow> ext_label \<Rightarrow> 'w ext_runtime \<times> ext_task list" where
  "ext_exec E (s, ts) (Begin c) = (let (t, s') = unwind E (begin_call E c s) [] in (s', ts @ [t]))"
| "ext_exec E (s, ts) (Answer i a) = (if i < length ts then let (t, s') = task_step E a (ts ! i) s in (s', ts[i := t]) else (s, ts))"
| "ext_exec E (s, ts) (FromHost h msg) =
     (if h < length (rt_hosts s) \<and> hr_up (rt_hosts s ! h)
      then (serve_host E (hr_ext (rt_hosts s ! h)) (hr_manifest (rt_hosts s ! h)) msg s, ts) else (s, ts))"
| "ext_exec E (s, ts) (HostGone h) = (if h < length (rt_hosts s) then (set_host_down h s, ts) else (s, ts))"
| "ext_exec E (s, ts) (MemoryHigh ext rss limit) = (emit_effects [rss_notice ext rss limit] s, ts)"

definition ext_history :: "'w ext_env \<Rightarrow> ext_label list \<Rightarrow> 'w ext_runtime \<times> ext_task list \<Rightarrow> 'w ext_runtime \<times> ext_task list" where
  "ext_history E ls st = foldl (ext_exec E) st ls"

end
