(* ===== verification/ExtIsolation.thy ===== *)
theory ExtIsolation
  imports ExtTasks
begin

text \<open>
  What a running extension can reach: its messages leave what belongs to every other extension as it is.
\<close>

section \<open>What belongs to an extension\<close>

definition owned_part :: "('e \<Rightarrow> string) \<Rightarrow> string \<Rightarrow> (string \<times> 'e) list \<Rightarrow> (string \<times> 'e) list" where
  "owned_part own e t = filter (\<lambda>(_, x). own x = e) t"

definition owned_entries :: "string \<Rightarrow> 'l event_bus \<Rightarrow> string \<Rightarrow> 'l subscriber_entry list" where
  "owned_entries e b t = filter (\<lambda>x. sbe_ext x = e) (topic_entries t b)"

record belongings =
  bl_commands :: command_registry
  bl_providers :: provider_registry
  bl_renderers :: renderer_registry
  bl_sidebars :: sidebar_registry
  bl_panels :: webview_registry
  bl_handle :: "ext_handle option"
  bl_caps :: "string list option \<times> emit_pattern list option"
  bl_listeners :: "string \<Rightarrow> nat subscriber_entry list"
  bl_active :: bool

definition belongings_of :: "string \<Rightarrow> 'w ext_runtime \<Rightarrow> belongings" where
  "belongings_of e s = \<lparr>bl_commands = owned_part (\<lambda>x. x) e (rt_commands s), bl_providers = owned_part prv_ext e (rt_providers s),
     bl_renderers = owned_part re_ext e (rt_renderers s), bl_sidebars = owned_part sve_ext e (rt_sidebars s),
     bl_panels = owned_part pv_ext e (rt_webviews s), bl_handle = map_of (rt_handles s) e,
     bl_caps = (map_of (bus_subscribe_caps (rt_events s)) e, map_of (bus_emit_caps (rt_events s)) e),
     bl_listeners = owned_entries e (rt_events s), bl_active = ext_active s e\<rparr>"

text \<open>
  The state is well formed after \<open>n\<close> subscriptions: no identifier comes twice, the numbers of the subscriptions are
  below \<open>n\<close>, and a handle keeps guards of its own extension only.
\<close>

definition guards_own :: "'w ext_runtime \<Rightarrow> bool" where
  "guards_own s \<longleftrightarrow> (\<forall>ext h g t x. map_of (rt_handles s) ext = Some h \<longrightarrow> g \<in> set (handle_guards h) \<longrightarrow>
     x \<in> set (topic_entries t (rt_events s)) \<longrightarrow> sbe_id x = g \<longrightarrow> sbe_ext x = ext)"

definition ids_below :: "nat \<Rightarrow> 'w ext_runtime \<Rightarrow> bool" where
  "ids_below n s \<longleftrightarrow> bus_next_id (rt_events s) = of_nat n \<and>
     (\<forall>t x. x \<in> set (topic_entries t (rt_events s)) \<longrightarrow> unat (sbe_id x) < n) \<and>
     (\<forall>ext h g. map_of (rt_handles s) ext = Some h \<longrightarrow> g \<in> set (handle_guards h) \<longrightarrow> unat g < n)"

definition wf_tables :: "'w ext_runtime \<Rightarrow> bool" where
  "wf_tables s \<longleftrightarrow> keyed (rt_commands s) \<and> keyed (rt_providers s) \<and> keyed (rt_renderers s) \<and> keyed (rt_sidebars s) \<and>
     keyed (rt_webviews s) \<and> keyed (rt_lifecycle s) \<and> keyed (rt_handles s)"

definition wf_runtime :: "nat \<Rightarrow> 'w ext_runtime \<Rightarrow> bool" where
  "wf_runtime n s \<longleftrightarrow> wf_tables s \<and> ids_below n s \<and> guards_own s"

section \<open>Tables\<close>

lemma owned_part_put:
  assumes "own x \<noteq> e" and "entry_owner own t i \<noteq> Some e" and "keyed t"
  shows "owned_part own e (hm_put i x t) = owned_part own e t"
  using assms
proof (induction i x t rule: hm_put.induct)
  case (2 i x j y m)
  then show ?case by (auto simp: owned_part_def entry_owner_def keyed_def split: if_splits)
qed (simp add: owned_part_def)

lemma owned_part_remove:
  assumes "entry_owner own t i \<noteq> Some e" and "keyed t"
  shows "owned_part own e (hm_remove i t) = owned_part own e t"
proof -
  have "(i, x) \<in> set t \<Longrightarrow> own x \<noteq> e" for x
    using assms by (auto simp: entry_owner_def keyed_def map_of_eq_Some_iff)
  then show ?thesis by (auto simp: owned_part_def hm_remove_def intro!: filter_cong)
qed

lemma owned_part_drop: "e \<noteq> ext \<Longrightarrow> owned_part own e (drop_owned own ext t) = owned_part own e t"
  by (auto simp: owned_part_def drop_owned_def intro!: filter_cong)

lemma owned_part_drop_self: "owned_part own e (drop_owned own e t) = []"
  by (auto simp: owned_part_def drop_owned_def filter_empty_conv)

section \<open>Subscriptions\<close>

lemma topic_entries_drop_guards:
  "topic_entries t (drop_guards gs b) = filter (\<lambda>x. sbe_id x \<notin> set gs) (topic_entries t b)"
proof -
  have "topic_entries t (foldl (\<lambda>b g. drop_guard g b) b gs) = filter (\<lambda>x. sbe_id x \<notin> set gs) (topic_entries t b)"
    by (induction gs arbitrary: b) (auto simp: drop_guard_def topic_entries_retain intro!: filter_cong)
  then show ?thesis by (simp add: drop_guards_def)
qed

lemma drop_guards_same [simp]:
  "bus_subscribe_caps (drop_guards gs b) = bus_subscribe_caps b" "bus_emit_caps (drop_guards gs b) = bus_emit_caps b"
  "bus_next_id (drop_guards gs b) = bus_next_id b"
  unfolding drop_guards_def by (induction gs arbitrary: b) (simp_all add: drop_guard_def retain_entries_def)

lemma owned_entries_drop_guards:
  assumes "\<And>g x. g \<in> set gs \<Longrightarrow> x \<in> set (topic_entries t b) \<Longrightarrow> sbe_id x = g \<Longrightarrow> sbe_ext x \<noteq> e"
  shows "owned_entries e (drop_guards gs b) t = owned_entries e b t"
  using assms by (auto simp: owned_entries_def topic_entries_drop_guards intro!: filter_cong)

lemma topic_entries_subscribe:
  "topic_entries t (snd (subscribe_event ext topic l b)) = topic_entries t b @
     (case fst (subscribe_event ext topic l b) of
        Inr g \<Rightarrow> if t = topic then [\<lparr>sbe_id = g, sbe_ext = ext, sbe_listener = l\<rparr>] else [] | Inl _ \<Rightarrow> [])"
  by (auto simp: subscribe_event_def Let_def topic_entries_def store_simps split: option.splits)

lemma subscribe_same [simp]:
  "bus_subscribe_caps (snd (subscribe_event ext topic l b)) = bus_subscribe_caps b"
  "bus_emit_caps (snd (subscribe_event ext topic l b)) = bus_emit_caps b"
  "bus_next_id (snd (subscribe_event ext topic l b)) = bus_next_id b + 1"
  by (auto simp: subscribe_event_def Let_def)

lemma subscribe_guard: "subscribe_event ext topic l b = (Inr g, b') \<Longrightarrow> g = bus_next_id b"
  by (auto simp: subscribe_event_def Let_def split: if_splits)

section \<open>Messages of a host\<close>

lemma emit_effects_same [simp]:
  "rt_commands (emit_effects fs s) = rt_commands s" "rt_providers (emit_effects fs s) = rt_providers s"
  "rt_renderers (emit_effects fs s) = rt_renderers s" "rt_sidebars (emit_effects fs s) = rt_sidebars s"
  "rt_webviews (emit_effects fs s) = rt_webviews s" "rt_handles (emit_effects fs s) = rt_handles s"
  "rt_events (emit_effects fs s) = rt_events s" "rt_lifecycle (emit_effects fs s) = rt_lifecycle s"
  "rt_registry (emit_effects fs s) = rt_registry s" "rt_world (emit_effects fs s) = rt_world s"
  "rt_contributions (emit_effects fs s) = rt_contributions s" "rt_sessions (emit_effects fs s) = rt_sessions s"
  "rt_hosts (emit_effects fs s) = rt_hosts s" "rt_restart_counts (emit_effects fs s) = rt_restart_counts s"
  "rt_restarting (emit_effects fs s) = rt_restarting s" "rt_max_restarts (emit_effects fs s) = rt_max_restarts s"
  by (simp_all add: emit_effects_def)

text \<open>What no message of a host changes.\<close>

definition untouched :: "'w ext_runtime \<Rightarrow> 'w ext_runtime \<Rightarrow> bool" where
  "untouched s s' \<longleftrightarrow> rt_registry s' = rt_registry s \<and> rt_world s' = rt_world s \<and> rt_contributions s' = rt_contributions s \<and>
     rt_lifecycle s' = rt_lifecycle s \<and> rt_renderers s' = rt_renderers s \<and> rt_hosts s' = rt_hosts s \<and>
     rt_restart_counts s' = rt_restart_counts s \<and> rt_restarting s' = rt_restarting s \<and> rt_max_restarts s' = rt_max_restarts s"

lemma emitted_belongings [simp]: "belongings_of e (emit_effects fs s) = belongings_of e s"
  by (simp add: belongings_of_def ext_active_def)

lemma emitted_untouched [simp]: "untouched s (emit_effects fs s') = untouched s s'"
  by (simp add: untouched_def)

lemma untouched_refl [simp]: "untouched s s" by (simp add: untouched_def)

lemma emitted_wf [simp]: "wf_runtime n (emit_effects fs s) = wf_runtime n s"
  by (simp add: wf_runtime_def wf_tables_def ids_below_def guards_own_def)

text \<open>Guards numbered below \<open>n\<close>, of which no subscription is another extension's.\<close>

definition own_guards :: "string \<Rightarrow> u64 list \<Rightarrow> nat \<Rightarrow> 'w ext_runtime \<Rightarrow> bool" where
  "own_guards e gs n s \<longleftrightarrow> (\<forall>g \<in> set gs. unat g < n \<and>
     (\<forall>t x. x \<in> set (topic_entries t (rt_events s)) \<longrightarrow> sbe_id x = g \<longrightarrow> sbe_ext x = e))"

lemma emitted_guards [simp]: "own_guards e gs n (emit_effects fs s) = own_guards e gs n s"
  by (simp add: own_guards_def)

text \<open>
  A change of the state by a message of the extension \<open>ext\<close>: everything else stays, what belongs to others stays, and the
  state stays well formed with at most one subscription more.
\<close>

definition own_change :: "string \<Rightarrow> 'w ext_runtime \<Rightarrow> 'w ext_runtime \<Rightarrow> bool" where
  "own_change ext s s' \<longleftrightarrow> untouched s s' \<and> (\<forall>n e. wf_runtime n s \<longrightarrow> e \<noteq> ext \<longrightarrow> belongings_of e s' = belongings_of e s) \<and>
     (\<forall>n. wf_runtime n s \<longrightarrow> n < 2 ^ 64 - 1 \<longrightarrow> wf_runtime n s' \<or> wf_runtime (Suc n) s') \<and>
     (\<forall>n e gs. wf_runtime n s \<longrightarrow> n < 2 ^ 64 - 1 \<longrightarrow> own_guards e gs n s \<longrightarrow> own_guards e gs n s') \<and>
     map_option eh_host \<circ> map_of (rt_handles s') = map_option eh_host \<circ> map_of (rt_handles s)"

lemma own_change_refl [simp]: "own_change ext s s"
  by (auto simp: own_change_def)

lemma own_change_emit [simp]: "own_change ext s (emit_effects fs s') = own_change ext s s'"
  by (simp add: own_change_def)

lemma own_change_notify [simp]: "own_change ext s (snd (notify_extension e meth params s')) = own_change ext s s'"
  by (simp add: notify_extension_def split: sum.split)

lemma own_change_reported [simp]: "own_change ext s (snd (reported E e ep params idf r)) = own_change ext s (snd r)"
  by (cases "fst r") (simp_all add: reported_def report_outcome_def Let_def)

text \<open>A change of one table that only its owner can make.\<close>

definition own_table_change :: "('e \<Rightarrow> string) \<Rightarrow> string \<Rightarrow> (string \<times> 'e) list \<Rightarrow> (string \<times> 'e) list \<Rightarrow> bool" where
  "own_table_change own ext t t' \<longleftrightarrow> (keyed t \<longrightarrow> keyed t' \<and> (\<forall>e. e \<noteq> ext \<longrightarrow> owned_part own e t' = owned_part own e t))"

lemma own_table_change_refl [simp]: "own_table_change own ext t t"
  by (simp add: own_table_change_def)

lemma own_table_put: "own x = ext \<Longrightarrow> entry_owner own t i = None \<or> entry_owner own t i = Some ext \<Longrightarrow>
    own_table_change own ext t (hm_put i x t)"
  by (auto simp: own_table_change_def owned_part_put)

lemma own_table_remove: "entry_owner own t i = Some ext \<Longrightarrow> own_table_change own ext t (hm_remove i t)"
  by (auto simp: own_table_change_def owned_part_remove)

lemma own_change_table:
  "own_table_change (\<lambda>x. x) ext (rt_commands s) t1 \<Longrightarrow> own_change ext s (s\<lparr>rt_commands := t1\<rparr>)"
  "own_table_change prv_ext ext (rt_providers s) t2 \<Longrightarrow> own_change ext s (s\<lparr>rt_providers := t2\<rparr>)"
  "own_table_change sve_ext ext (rt_sidebars s) t3 \<Longrightarrow> own_change ext s (s\<lparr>rt_sidebars := t3\<rparr>)"
  "own_table_change pv_ext ext (rt_webviews s) t4 \<Longrightarrow> own_change ext s (s\<lparr>rt_webviews := t4\<rparr>)"
  by (auto simp: own_change_def own_table_change_def untouched_def belongings_of_def ext_active_def wf_runtime_def wf_tables_def
      ids_below_def guards_own_def own_guards_def)

lemma own_change_stored: "(\<And>t. r = Inr t \<Longrightarrow> own_change ext s (put t s)) \<Longrightarrow> own_change ext s (snd (stored put r s))"
  by (simp add: stored_def split: sum.split)

lemma own_change_panels: "own_table_change pv_ext ext (rt_webviews s) (fst (snd r)) \<Longrightarrow> own_change ext s (snd (put_panels r s))"
  by (auto simp: put_panels_def own_change_table split: prod.split)

lemma provider_change: "register_provider_handler m ext params t = Inr t' \<Longrightarrow> own_table_change prv_ext ext t t'"
  by (auto simp: register_provider_handler_def register_provider_Inr own_table_put split: option.splits)

lemma sidebar_change: "register_sidebar_handler m ext params t = Inr t' \<Longrightarrow> own_table_change sve_ext ext t t'"
  by (auto simp: register_sidebar_handler_def register_sidebar_Inr own_table_put split: option.splits)

lemma command_change: "register_command ext i t = Inr t' \<Longrightarrow> own_table_change (\<lambda>x. x) ext t t'"
  by (auto simp: register_command_def entry_owner_def own_table_put split: if_splits option.splits)

lemma uncommand_change: "unregister_command ext i t = Inr t' \<Longrightarrow> own_table_change (\<lambda>x. x) ext t t'"
  by (auto simp: unregister_command_def entry_owner_def own_table_remove split: if_splits option.splits)

lemma panel_change:
  "own_table_change pv_ext ext t (fst (snd (create_panel ext i title sl entry t)))"
  "own_table_change pv_ext ext t (fst (snd (dispose_panel ext i t)))"
  "own_table_change pv_ext ext t (fst (snd (set_panel_visible ext i v t)))"
  by (auto simp: create_panel_def dispose_panel_def set_panel_visible_def Let_def entry_owner_def
      intro!: own_table_put own_table_remove split: option.splits)

lemma own_change_sessions: "own_change ext s (snd (routed r s))"
  by (auto simp: routed_def own_change_def untouched_def belongings_of_def ext_active_def wf_runtime_def wf_tables_def
      ids_below_def guards_own_def own_guards_def split: option.split)

section \<open>Subscribing and unsubscribing\<close>

lemma guards_put: "g \<in> set (handle_guards (push_guard topic g' h)) \<Longrightarrow> g = g' \<or> g \<in> set (handle_guards h)"
proof -
  have "g \<in> set (concat (map snd (hm_put topic gs m))) \<Longrightarrow> g \<in> set gs \<or> g \<in> set (concat (map snd m))" for gs and m :: "(string \<times> u64 list) list"
    by (induction topic gs m rule: hm_put.induct) (auto split: if_splits)
  moreover have "map_of m topic = Some gs \<Longrightarrow> x \<in> set gs \<Longrightarrow> x \<in> set (concat (map snd m))" for gs x and m :: "(string \<times> u64 list) list"
    by (force dest: map_of_SomeD)
  ultimately show "g \<in> set (handle_guards (push_guard topic g' h)) \<Longrightarrow> g = g' \<or> g \<in> set (handle_guards h)"
    by (fastforce simp: handle_guards_def push_guard_def split: option.splits)
qed

lemma own_change_subscribe: "own_change ext s (snd (on_subscribe ext params s))"
proof (cases "str_field params ''topic''")
  case (Inr topic)
  show ?thesis
  proof (cases "map_of (rt_handles s) ext")
    case (Some h)
    obtain r b where sub: "subscribe_event ext topic (eh_host h) (rt_events s) = (r, b)" by force
    let ?s = "s\<lparr>rt_events := b\<rparr>"
    let ?s' = "case r of Inl _ \<Rightarrow> ?s | Inr g \<Rightarrow> ?s\<lparr>rt_handles := hm_put ext (push_guard topic g h) (rt_handles s)\<rparr>"
    have step: "snd (on_subscribe ext params s) = ?s'"
      by (simp add: on_subscribe_def Inr Some sub split: sum.split)
    have bus: "bus_subscribe_caps b = bus_subscribe_caps (rt_events s)" "bus_emit_caps b = bus_emit_caps (rt_events s)"
      "bus_next_id b = bus_next_id (rt_events s) + 1"
      using subscribe_same [of ext topic "eh_host h" "rt_events s"] by (simp_all add: sub)
    have entries: "topic_entries t b = topic_entries t (rt_events s) @
        (case r of Inr g \<Rightarrow> if t = topic then [\<lparr>sbe_id = g, sbe_ext = ext, sbe_listener = eh_host h\<rparr>] else [] | Inl _ \<Rightarrow> [])" for t
      using topic_entries_subscribe [of t ext topic "eh_host h" "rt_events s"] by (simp add: sub)
    have g: "r = Inr g \<Longrightarrow> g = bus_next_id (rt_events s)" for g
      using subscribe_guard [of ext topic "eh_host h" "rt_events s"] sub by auto
    have "untouched s ?s'" by (simp add: untouched_def split: sum.split)
    moreover have "e \<noteq> ext \<Longrightarrow> belongings_of e ?s' = belongings_of e s" for e
      by (auto simp: belongings_of_def ext_active_def bus owned_entries_def entries fun_eq_iff store_simps split: sum.split)
    moreover have "wf_runtime (Suc n) ?s'" if wf: "wf_runtime n s" and n: "n < 2 ^ 64 - 1" for n
    proof -
      have un: "unat (bus_next_id (rt_events s)) = n" using wf n by (simp add: wf_runtime_def ids_below_def unat_of_nat take_bit_nat_eq_self)
      have "ids_below (Suc n) ?s'"
        using wf un Some by (auto simp: wf_runtime_def ids_below_def bus entries less_Suc_eq store_simps dest!: g guards_put
          split: sum.splits if_splits)
      moreover have "guards_own ?s'"
        using wf un Some unfolding wf_runtime_def ids_below_def guards_own_def
        by (fastforce simp: entries store_simps dest!: g guards_put split: sum.splits if_splits)
      moreover have "wf_tables ?s'" using wf by (auto simp: wf_runtime_def wf_tables_def split: sum.split)
      ultimately show ?thesis by (simp add: wf_runtime_def)
    qed
    moreover have "own_guards e gs n ?s'" if "wf_runtime n s" "n < 2 ^ 64 - 1" "own_guards e gs n s" for n e gs
    proof -
      have "unat (bus_next_id (rt_events s)) = n"
        using that(1,2) by (simp add: wf_runtime_def ids_below_def unat_of_nat take_bit_nat_eq_self)
      with that(3) show ?thesis by (auto simp: own_guards_def entries dest!: g split: sum.splits if_splits)
    qed
    moreover have "map_option eh_host \<circ> map_of (rt_handles ?s') = map_option eh_host \<circ> map_of (rt_handles s)"
      by (auto simp: fun_eq_iff store_simps Some push_guard_def split: sum.split)
    ultimately show ?thesis unfolding step own_change_def by blast
  qed (simp add: on_subscribe_def Inr)
qed (simp add: on_subscribe_def)

lemma own_change_unsubscribe: "own_change ext s (snd (on_unsubscribe ext params s))"
proof (cases "str_field params ''topic''")
  case (Inr topic)
  show ?thesis
  proof (cases "map_of (rt_handles s) ext")
    case (Some h)
    let ?gs = "case map_of (eh_subscriptions h) topic of Some gs \<Rightarrow> gs | None \<Rightarrow> []"
    let ?h = "h\<lparr>eh_subscriptions := hm_remove topic (eh_subscriptions h)\<rparr>"
    let ?s' = "s\<lparr>rt_handles := hm_put ext ?h (rt_handles s), rt_events := drop_guards ?gs (rt_events s)\<rparr>"
    have step: "snd (on_unsubscribe ext params s) = ?s'" by (simp add: on_unsubscribe_def Inr Some)
    have gs: "g \<in> set ?gs \<Longrightarrow> g \<in> set (handle_guards h)" for g
      by (cases "map_of (eh_subscriptions h) topic") (force simp: handle_guards_def dest: map_of_SomeD)+
    have h: "g \<in> set (handle_guards ?h) \<Longrightarrow> g \<in> set (handle_guards h)" for g
      by (force simp: handle_guards_def hm_remove_def)
    have "belongings_of e ?s' = belongings_of e s" if "wf_runtime n s" "e \<noteq> ext" for n e
    proof -
      have "owned_entries e (drop_guards ?gs (rt_events s)) t = owned_entries e (rt_events s) t" for t
      proof (rule owned_entries_drop_guards)
        fix g x assume "g \<in> set ?gs" "x \<in> set (topic_entries t (rt_events s))" "sbe_id x = g"
        with gs Some that(1) have "sbe_ext x = ext" unfolding wf_runtime_def guards_own_def by blast
        with that(2) show "sbe_ext x \<noteq> e" by simp
      qed
      then show ?thesis using that(2) by (simp add: belongings_of_def ext_active_def fun_eq_iff store_simps)
    qed
    moreover have "wf_runtime n ?s'" if "wf_runtime n s" for n
      using that Some by (auto simp: wf_runtime_def wf_tables_def ids_below_def guards_own_def topic_entries_drop_guards store_simps
        dest!: h split: if_splits)
    moreover have "own_guards e gs n s \<Longrightarrow> own_guards e gs n ?s'" for n e gs
      by (auto simp: own_guards_def topic_entries_drop_guards)
    moreover have "untouched s ?s'" by (simp add: untouched_def)
    moreover have "map_option eh_host \<circ> map_of (rt_handles ?s') = map_option eh_host \<circ> map_of (rt_handles s)"
      by (auto simp: fun_eq_iff store_simps Some)
    ultimately show ?thesis unfolding step own_change_def by blast
  qed (simp add: on_unsubscribe_def Inr)
qed (simp add: on_unsubscribe_def)

section \<open>Every message\<close>

lemma own_change_serve: "own_change ext s (serve_host E ext m msg s)"
proof (cases msg)
  case (HostNotify meth params)
  have "own_change ext s (snd (on_register_provider E ext m params s))"
    by (auto simp: on_register_provider_def intro!: own_change_stored own_change_table dest: provider_change)
  moreover have "own_change ext s (snd (on_unregister_provider ext params s))"
    by (auto simp: on_unregister_provider_def unregister_provider_left intro!: own_change_stored own_change_table own_table_remove)
  moreover have "own_change ext s (snd (on_register_command E ext params s))"
    by (auto simp: on_register_command_def intro!: own_change_stored own_change_table dest: command_change)
  moreover have "own_change ext s (snd (on_unregister_command ext params s))"
    by (auto simp: on_unregister_command_def intro!: own_change_stored own_change_table dest: uncommand_change)
  moreover have "own_change ext s (snd (on_register_sidebar E ext m params s))"
    by (auto simp: on_register_sidebar_def intro!: own_change_stored own_change_table dest: sidebar_change)
  moreover have "own_change ext s (snd (on_unregister_sidebar ext params s))"
    by (auto simp: on_unregister_sidebar_def unregister_sidebar_left intro!: own_change_stored own_change_table own_table_remove)
  moreover have "own_change ext s (snd (on_agent_event E ext params s))" "own_change ext s (snd (on_turn_done params s))"
    by (auto simp: on_agent_event_def on_turn_done_def Let_def own_change_sessions split: json.split option.split sum.split)
  moreover have "own_change ext s (snd (on_dispose_panel ext params s))" "own_change ext s (snd (on_set_visible ext params s))"
    by (auto simp: on_dispose_panel_def on_set_visible_def case_prod_beta Let_def intro!: own_change_panels panel_change split: sum.split)
  moreover have "own_change ext s (snd (on_panel_message E ext params s))" "own_change ext s (snd (on_view_message E ext params s))"
    "own_change ext s (snd (on_log_channel E ext params s))"
    by (auto simp: on_panel_message_def on_view_message_def on_log_channel_def Let_def split: sum.split prod.split option.split json.split)
  ultimately show ?thesis
    using own_change_subscribe [of ext s params] own_change_unsubscribe [of ext s params] by (simp add: HostNotify on_host_notify_def)
next
  case (HostRequest meth params)
  have "own_change ext s (snd (on_create_panel ext params s))"
    by (auto simp: on_create_panel_def Let_def case_prod_beta intro!: own_change_panels panel_change split: sum.split option.split)
  moreover have "own_change ext s (snd (on_emit E ext params s))" "own_change ext s (snd (on_log_clear E ext params s))"
    by (auto simp: on_emit_def on_log_clear_def Let_def split: sum.split option.split)
  ultimately show ?thesis by (simp add: HostRequest on_host_request_def)
qed

end
