(* ===== verification/ExtLifecycle.thy ===== *)
theory ExtLifecycle
  imports ExtIsolation
begin

text \<open>
  The state of the orchestrator over every history of calls, answers and messages of hosts: it stays well formed, and
  when no two calls overlap, an extension that is not active has left nothing behind.
\<close>

section \<open>Well-formed states\<close>

lemma bus_shrinks:
  "set (topic_entries t (unregister_extension ext b)) \<subseteq> set (topic_entries t b)"
  "bus_next_id (unregister_extension ext b) = bus_next_id b"
  "topic_entries t (register_extension ext ss es b) = topic_entries t b"
  "bus_next_id (register_extension ext ss es b) = bus_next_id b"
  by (auto simp: unregister_extension_def register_extension_def topic_entries_retain)
    (auto simp: topic_entries_def retain_entries_def)

lemma wf_shrink:
  assumes "wf_runtime n s" and "wf_tables s'"
    and "\<And>t. set (topic_entries t (rt_events s')) \<subseteq> set (topic_entries t (rt_events s))"
    and "bus_next_id (rt_events s') = bus_next_id (rt_events s)"
    and "\<And>ext h. map_of (rt_handles s') ext = Some h \<Longrightarrow> map_of (rt_handles s) ext = Some h \<or> eh_subscriptions h = []"
  shows "wf_runtime n s'"
proof -
  have old: "map_of (rt_handles s) ext = Some h" if "map_of (rt_handles s') ext = Some h" "g \<in> set (handle_guards h)" for ext h g
    using assms(5) [OF that(1)] that(2) by (auto simp: handle_guards_def)
  have entries: "\<And>t x. x \<in> set (topic_entries t (rt_events s)) \<Longrightarrow> unat (sbe_id x) < n"
    and guards: "\<And>ext h g. map_of (rt_handles s) ext = Some h \<Longrightarrow> g \<in> set (handle_guards h) \<Longrightarrow> unat g < n"
    using assms(1) by (auto simp: wf_runtime_def ids_below_def)
  have "ids_below n s'"
    unfolding ids_below_def
  proof (intro conjI allI impI)
    show "bus_next_id (rt_events s') = of_nat n" using assms(1,4) by (simp add: wf_runtime_def ids_below_def)
    show "unat (sbe_id x) < n" if "x \<in> set (topic_entries t (rt_events s'))" for t x
      using subsetD [OF assms(3) that] by (rule entries)
    show "unat g < n" if "map_of (rt_handles s') ext = Some h" "g \<in> set (handle_guards h)" for ext h g
      using old [OF that] that(2) by (rule guards)
  qed
  moreover have "guards_own s'"
    unfolding guards_own_def
  proof (intro allI impI)
    fix ext h g t x
    assume "map_of (rt_handles s') ext = Some h" "g \<in> set (handle_guards h)" "x \<in> set (topic_entries t (rt_events s'))" "sbe_id x = g"
    with old assms(3) have "map_of (rt_handles s) ext = Some h" "x \<in> set (topic_entries t (rt_events s))" by blast+
    with assms(1) \<open>g \<in> _\<close> \<open>sbe_id x = g\<close> show "sbe_ext x = ext" unfolding wf_runtime_def guards_own_def by blast
  qed
  ultimately show ?thesis using assms(2) by (simp add: wf_runtime_def)
qed

lemma wf_tables_of: "wf_runtime n s \<Longrightarrow> wf_tables s"
  by (simp add: wf_runtime_def)

named_theorems wf_steps

lemma wf_clear [wf_steps]: "wf_runtime n s \<Longrightarrow> wf_runtime n (clear_extension ext s)"
  by (frule wf_tables_of, erule wf_shrink)
    (auto simp: clear_extension_def Let_def wf_tables_def dispose_panels_of_def unregister_providers_of_def
      unregister_commands_of_def unregister_renderers_of_def unregister_sidebars_of_def bus_shrinks intro: bus_shrinks(1) [THEN subsetD])

lemma wf_remove_handle [wf_steps]: "wf_runtime n s \<Longrightarrow> wf_runtime n (remove_handle ext s)"
  by (frule wf_tables_of, erule wf_shrink) (auto simp: remove_handle_def wf_tables_def store_simps split: if_splits)

lemma wf_drop_subscriptions [wf_steps]: "wf_runtime n s \<Longrightarrow> wf_runtime n (drop_subscriptions h s)"
  by (frule wf_tables_of, erule wf_shrink) (auto simp: drop_subscriptions_def wf_tables_def topic_entries_drop_guards)

lemma wf_other [wf_steps]:
  assumes "wf_runtime n s"
  shows "wf_runtime n (set_host_down h s)" "wf_runtime n (s\<lparr>rt_registry := a\<rparr>)" "wf_runtime n (s\<lparr>rt_world := b\<rparr>)"
    "wf_runtime n (s\<lparr>rt_restart_counts := c\<rparr>)" "wf_runtime n (s\<lparr>rt_restarting := d\<rparr>)" "wf_runtime n (s\<lparr>rt_sessions := e\<rparr>)"
    "wf_runtime n (s\<lparr>rt_hosts := f\<rparr>)" "wf_runtime n (s\<lparr>rt_contributions := g\<rparr>)" "wf_runtime n (emit_effects fs s)"
  using assms by (simp_all add: wf_runtime_def wf_tables_def ids_below_def guards_own_def set_host_down_def)

lemma wf_lifecycle [wf_steps]:
  assumes "wf_runtime n s"
  shows "wf_runtime n (s\<lparr>rt_lifecycle := hm_put ext a (rt_lifecycle s)\<rparr>)" "wf_runtime n (s\<lparr>rt_lifecycle := hm_remove ext (rt_lifecycle s)\<rparr>)"
  using assms by (simp_all add: wf_runtime_def wf_tables_def ids_below_def guards_own_def)

lemma wf_prepare [wf_steps]: "wf_runtime n s \<Longrightarrow> wf_runtime n (prepare_activation ext m s)"
  by (frule wf_tables_of, erule wf_shrink)
    (auto simp: prepare_activation_def Let_def wf_tables_def bus_shrinks ingest_manifest_def keyed_ingest)

lemma wf_spawned [wf_steps]: "wf_runtime n s \<Longrightarrow> wf_runtime n (snd (spawned_host ext m a s))"
proof -
  have new: "wf_runtime n s \<Longrightarrow> wf_runtime n (s\<lparr>rt_hosts := hs, rt_handles := hm_put ext \<lparr>eh_host = h, eh_subscriptions = []\<rparr> (rt_handles s)\<rparr>)"
    for s :: "'a ext_runtime" and hs h
    by (frule wf_tables_of, erule wf_shrink) (auto simp: wf_tables_def store_simps split: if_splits)
  assume "wf_runtime n s"
  then show ?thesis
    by (auto simp: spawned_host_def Let_def intro!: new wf_steps split: sum.split option.split)
qed

text \<open>Every section keeps the state well formed.\<close>

lemma wf_then_back [wf_steps]:
  assumes "wf_runtime n (snd c)" and "\<And>r s. wf_runtime n s \<Longrightarrow> wf_runtime n (snd (k r s))"
  shows "wf_runtime n (snd (then_back c f k))"
  using assms by (cases c) (auto simp: then_back_def split: ext_control.split)

lemma wf_put_registry [wf_steps]: "wf_runtime n s \<Longrightarrow> wf_runtime n (snd (put_registry r s))"
  by (auto simp: put_registry_def split: prod.split intro!: wf_steps)

lemma wf_finish_activation [wf_steps]: "wf_runtime n s \<Longrightarrow> wf_runtime n (snd (finish_activation E ext s))"
  by (auto simp: finish_activation_def mark_activated_def split: sum.split intro!: wf_steps)

lemma wf_activate [wf_steps]: "wf_runtime n s \<Longrightarrow> wf_runtime n (snd (activate_default E ext s))"
  by (auto simp: activate_default_def activate_def Let_def split: option.split intro!: wf_steps)

lemma wf_rollback [wf_steps]: "wf_runtime n s \<Longrightarrow> wf_runtime n (snd (rollback_activation ext e s))"
  by (auto simp: rollback_activation_def Let_def split: option.split intro!: wf_steps)

lemma wf_activate_hosted [wf_steps]: "wf_runtime n s \<Longrightarrow> wf_runtime n (snd (activate_hosted E ext r s))"
  by (auto simp: activate_hosted_def split: sum.split intro!: wf_steps)

lemma wf_deactivate [wf_steps]: "wf_runtime n s \<Longrightarrow> wf_runtime n (snd (deactivate ext s))"
proof -
  assume "wf_runtime n s"
  then have "wf_runtime n (s\<lparr>rt_lifecycle := hm_remove ext (rt_lifecycle s), rt_sessions := x\<rparr>)" for x
    using wf_lifecycle(2) wf_other(6) by blast
  with \<open>wf_runtime n s\<close> show ?thesis by (auto simp: deactivate_def Let_def split: option.split intro!: wf_steps)
qed

lemma wf_shutdown_ids [wf_steps]: "wf_runtime n s \<Longrightarrow> wf_runtime n (snd (shutdown_ids is s))"
  by (induction "is" arbitrary: s) (auto intro!: wf_then_back wf_deactivate)

lemma wf_finish_disable [wf_steps]: "wf_runtime n s \<Longrightarrow> wf_runtime n (snd (finish_disable E ext message s))"
  by (auto simp: finish_disable_def Let_def intro!: wf_steps)

lemma wf_disable [wf_steps]: "wf_runtime n s \<Longrightarrow> wf_runtime n (snd (disable_after_crash E ext message s))"
  by (auto simp: disable_after_crash_def intro!: wf_steps)

lemma wf_respawn_host [wf_steps]: "wf_runtime n s \<Longrightarrow> wf_runtime n (snd (respawn_host E ext s))"
proof -
  assume "wf_runtime n s"
  then have "wf_runtime n (s\<lparr>rt_providers := snd (unregister_providers_of ext (rt_providers s)),
      rt_commands := unregister_commands_of ext (rt_commands s), rt_sidebars := snd (unregister_sidebars_of ext (rt_sidebars s))\<rparr>)"
    using wf_tables_of [OF \<open>wf_runtime n s\<close>]
    by (intro wf_shrink [OF \<open>wf_runtime n s\<close>]) (auto simp: wf_tables_def unregister_providers_of_def
      unregister_commands_of_def unregister_sidebars_of_def)
  then show ?thesis by (auto simp: respawn_host_def Let_def split: option.split)
qed

lemma wf_restart [wf_steps]: "wf_runtime n s \<Longrightarrow> wf_runtime n (snd (restart_now E ext s))"
  by (auto simp: restart_now_def respawn_def respawned_def split: option.split sum.split intro!: wf_steps)

lemma wf_crashed [wf_steps]: "wf_runtime n s \<Longrightarrow> wf_runtime n (snd (on_host_crashed E ext exit s))"
  by (auto simp: on_host_crashed_def try_restart_def crash_done_def Let_def intro!: wf_steps)

lemma wf_remove_installed [wf_steps]: "wf_runtime n s \<Longrightarrow> wf_runtime n (snd (remove_installed E ext s))"
proof -
  assume "wf_runtime n s"
  then have "wf_runtime n (snd (put_registry r s))" for r :: "unit ext_result \<times> ext_registry \<times> 'a" by (rule wf_put_registry)
  then show ?thesis unfolding remove_installed_def by (metis (mono_tags, lifting) case_prod_beta snd_conv)
qed

lemma wf_begin: "wf_runtime n s \<Longrightarrow> wf_runtime n (snd (begin_call E c s))"
proof (cases c)
  case (CallSetEnabled ext b)
  assume "wf_runtime n s"
  then have "put_registry (set_extension_enabled (en_os E) ext b (rt_registry s) (rt_world s)) s = (r, s1) \<Longrightarrow> wf_runtime n s1" for r s1
    by (metis snd_conv wf_put_registry)
  with CallSetEnabled show ?thesis by (auto simp: set_enabled_def split: prod.split sum.split intro!: wf_steps)
next
  case (CallInstall source)
  assume "wf_runtime n s"
  then have "put_registry (install_from_path (en_os E) source (rt_registry s) (rt_world s)) s = (r, s1) \<Longrightarrow> wf_runtime n s1" for r s1
    by (metis snd_conv wf_put_registry)
  with CallInstall show ?thesis by (auto simp: install_from_def split: prod.split sum.split intro!: wf_steps)
qed (auto simp: uninstall_def shutdown_all_def intro!: wf_steps)

lemma wf_answered: "wf_runtime n s \<Longrightarrow> wf_runtime n (snd (frame_answered E a f s))"
  by (cases f) (auto simp: deactivate_answered_def intro!: wf_steps)

lemma wf_resumed: "wf_runtime n s \<Longrightarrow> wf_runtime n (snd (resumed E r f s))"
  by (cases f) (auto simp: respawned_def crash_done_def split: sum.split intro!: wf_steps)

lemma wf_unwind: "wf_runtime n (snd c) \<Longrightarrow> wf_runtime n (snd (unwind E c gs))"
  by (induction E c gs rule: unwind.induct) (auto intro!: wf_resumed)

lemma wf_task_step: "wf_runtime n s \<Longrightarrow> wf_runtime n (snd (task_step E a t s))"
  by (induction E a t s rule: task_step.induct) (auto intro!: wf_unwind wf_answered)

lemma wf_ext_exec:
  assumes "wf_runtime n s" and "n < 2 ^ 64 - 1"
  shows "wf_runtime n (fst (ext_exec E (s, ts) l)) \<or> wf_runtime (Suc n) (fst (ext_exec E (s, ts) l))"
proof (cases l)
  case (Begin c)
  have "wf_runtime n (snd (unwind E (begin_call E c s) []))" using assms(1) by (intro wf_unwind wf_begin)
  then show ?thesis by (simp add: Begin case_prod_beta)
next
  case (Answer i a)
  have "wf_runtime n (snd (task_step E a (ts ! i) s))" using assms(1) by (rule wf_task_step)
  then show ?thesis using assms(1) by (simp add: Answer case_prod_beta)
next
  case (FromHost h msg)
  then show ?thesis using assms own_change_serve [of "hr_ext (rt_hosts s ! h)" s E "hr_manifest (rt_hosts s ! h)" msg]
    by (auto simp: own_change_def)
qed (use assms in \<open>auto intro!: wf_steps\<close>)

lemma wf_new: "wf_runtime 0 (new_runtime reg w)"
  by (simp add: wf_runtime_def wf_tables_def ids_below_def guards_own_def new_runtime_def new_event_bus_def topic_entries_def)

lemma wf_history:
  "length ls < 2 ^ 64 \<Longrightarrow> \<exists>n \<le> length ls. wf_runtime n (fst (ext_history E ls (new_runtime reg w, [])))"
proof (induction ls rule: rev_induct)
  case (snoc l ls)
  then obtain n where n: "n \<le> length ls" "wf_runtime n (fst (ext_history E ls (new_runtime reg w, [])))" by auto
  obtain s ts where st: "ext_history E ls (new_runtime reg w, []) = (s, ts)" by force
  have "n < 2 ^ 64 - 1" using n(1) snoc.prems by simp
  from wf_ext_exec [OF n(2) [unfolded st fst_conv] this, of E ts l] n(1) show ?case
    by (auto simp: ext_history_def st [unfolded ext_history_def] intro: le_SucI exI [of _ "Suc n"])
qed (auto simp: ext_history_def wf_new)

end
