(* ===== verification/ExtSerial.thy ===== *)
theory ExtSerial
  imports ExtLifecycle
begin

text \<open>
  The invariant of the orchestrator when no two calls overlap: an extension that is not active has left nothing behind,
  and a host that is up is the one its extension's handle names. While a call waits, it holds for every extension but
  the one the call is about.
\<close>

section \<open>Nothing left behind\<close>

definition no_contributions :: "string \<Rightarrow> contribution_registry \<Rightarrow> bool" where
  "no_contributions ext r \<longleftrightarrow> (\<forall>k m. (k, m) \<in> set r \<longrightarrow> (\<forall>i d. (i, d) \<in> set m \<longrightarrow> cd_owner d \<noteq> ExtensionOwner ext))"

definition nothing :: belongings where
  "nothing = \<lparr>bl_commands = [], bl_providers = [], bl_renderers = [], bl_sidebars = [], bl_panels = [], bl_handle = None,
     bl_caps = (None, None), bl_listeners = (\<lambda>_. []), bl_active = False\<rparr>"

definition host_runs :: "nat \<Rightarrow> string \<Rightarrow> 'w ext_runtime \<Rightarrow> bool" where
  "host_runs h ext s \<longleftrightarrow> h < length (rt_hosts s) \<and> hr_ext (rt_hosts s ! h) = ext \<and> hr_up (rt_hosts s ! h)"

definition absent :: "string \<Rightarrow> 'w ext_runtime \<Rightarrow> bool" where
  "absent ext s \<longleftrightarrow> belongings_of ext s = nothing \<and> no_contributions ext (rt_contributions s) \<and> (\<forall>h. \<not> host_runs h ext s)"

definition hosted :: "string \<Rightarrow> 'w ext_runtime \<Rightarrow> bool" where
  "hosted ext s \<longleftrightarrow> (\<forall>h. host_runs h ext s \<longrightarrow> map_option eh_host (map_of (rt_handles s) ext) = Some h)"

definition quiet_frames :: "string \<Rightarrow> 'w ext_runtime \<Rightarrow> bool" where
  "quiet_frames ext s \<longleftrightarrow> (ext_active s ext \<or> absent ext s) \<and> hosted ext s"

definition idle :: "'w ext_runtime \<Rightarrow> bool" where
  "idle s \<longleftrightarrow> (\<forall>ext. quiet_frames ext s)"

definition others_quiet :: "string \<Rightarrow> 'w ext_runtime \<Rightarrow> bool" where
  "others_quiet ext s \<longleftrightarrow> (\<forall>e. e \<noteq> ext \<longrightarrow> quiet_frames e s)"

text \<open>Every entry is kept under the identifier of its manifest.\<close>

definition entries_named :: "ext_registry \<Rightarrow> bool" where
  "entries_named r \<longleftrightarrow> (\<forall>i e. map_of (rg_entries r) i = Some e \<longrightarrow> mf_id (rge_manifest e) = i)"

definition good :: "nat \<Rightarrow> 'w ext_runtime \<Rightarrow> bool" where
  "good n s \<longleftrightarrow> wf_runtime n s \<and> entries_named (rt_registry s)"

lemma idle_quiet: "idle s \<Longrightarrow> quiet_frames ext s" "idle s \<Longrightarrow> others_quiet ext s"
  by (simp_all add: idle_def others_quiet_def)

lemma idleI: "others_quiet ext s \<Longrightarrow> quiet_frames ext s \<Longrightarrow> idle s"
  by (auto simp: idle_def others_quiet_def)

section \<open>What a change leaves to an extension\<close>

definition same_for :: "string \<Rightarrow> 'w ext_runtime \<Rightarrow> 'w ext_runtime \<Rightarrow> bool" where
  "same_for e s s' \<longleftrightarrow> belongings_of e s' = belongings_of e s \<and>
     (no_contributions e (rt_contributions s) \<longrightarrow> no_contributions e (rt_contributions s')) \<and> (\<forall>h. host_runs h e s' \<longrightarrow> host_runs h e s)"

definition spares_others :: "string \<Rightarrow> 'w ext_runtime \<Rightarrow> 'w ext_runtime \<Rightarrow> bool" where
  "spares_others ext s s' \<longleftrightarrow> (\<forall>e. e \<noteq> ext \<longrightarrow> same_for e s s')"

lemma same_active: "belongings_of e s' = belongings_of e s \<Longrightarrow> ext_active s' e = ext_active s e"
  by (simp add: belongings_of_def)

lemma same_handle: "belongings_of e s' = belongings_of e s \<Longrightarrow> map_of (rt_handles s') e = map_of (rt_handles s) e"
  by (simp add: belongings_of_def)

lemma quiet_same: "same_for e s s' \<Longrightarrow> quiet_frames e s \<Longrightarrow> quiet_frames e s'"
  unfolding same_for_def quiet_frames_def absent_def hosted_def by (metis same_active same_handle)

lemma others_quiet_spared: "spares_others ext s s' \<Longrightarrow> others_quiet ext s \<Longrightarrow> others_quiet ext s'"
  by (auto simp: spares_others_def others_quiet_def intro: quiet_same)

lemma same_for_trans: "same_for e s s1 \<Longrightarrow> same_for e s1 s2 \<Longrightarrow> same_for e s s2"
  by (auto simp: same_for_def)

lemma spares_trans: "spares_others ext s s1 \<Longrightarrow> spares_others ext s1 s2 \<Longrightarrow> spares_others ext s s2"
  unfolding spares_others_def by (blast intro: same_for_trans)

lemma no_contributions_removed: "no_contributions ext (snd (remove_extension ext r))"
  by (fastforce simp: no_contributions_def remove_extension_def retain_contributions_def Let_def)

lemma no_contributions_kept: "no_contributions e r \<Longrightarrow> no_contributions e (snd (remove_extension ext r))"
  by (fastforce simp: no_contributions_def remove_extension_def retain_contributions_def Let_def)

lemma no_contributions_ingest:
  assumes "mf_id m \<noteq> e" and "no_contributions e r"
  shows "no_contributions e (snd (ingest m r))"
proof -
  have step: "no_contributions e (snd (add_contribution d r))" if "cd_owner d \<noteq> ExtensionOwner e" "no_contributions e r" for d r
  proof -
    have "(i, x) \<in> set (kind_map k r) \<Longrightarrow> cd_owner x \<noteq> ExtensionOwner e" for i x k
      using that(2) unfolding no_contributions_def kind_map_def by (cases "map_of r k") (auto dest!: map_of_SomeD)
    with that show ?thesis
      unfolding no_contributions_def add_contribution_def by (auto dest!: set_hm_put) 
  qed
  have "no_contributions e (foldl (\<lambda>r d. snd (add_contribution d r)) r ds)" if "\<forall>d \<in> set ds. cd_owner d \<noteq> ExtensionOwner e" "no_contributions e r" for ds r
    using that by (induction ds arbitrary: r) (auto intro: step)
  moreover have "\<forall>d \<in> set (manifest_descriptors m). cd_owner d \<noteq> ExtensionOwner e"
    using assms(1) by (auto simp: manifest_owner)
  ultimately show ?thesis using assms(2) by (simp add: ingest_def)
qed

lemma runs_down [simp]: "host_runs h e (set_host_down h' s) \<longleftrightarrow> host_runs h e s \<and> h \<noteq> h'"
  by (cases "h = h'") (auto simp: host_runs_def set_host_down_def)

lemma owned_renderers_ingest:
  assumes "e \<noteq> ext" and "keyed t"
  shows "owned_part re_ext e (snd (ingest_renderers ds ext n t)) = owned_part re_ext e t"
  using assms
proof (induction ds ext n t rule: ingest_renderers.induct)
  case (2 d ds ext n t)
  then show ?case by (auto simp: register_renderer_Inr owned_part_put split: sum.split)
qed simp

section \<open>The sections spare the others\<close>

lemma unregistered:
  "topic_entries t (unregister_extension ext b) = filter (\<lambda>x. sbe_ext x \<noteq> ext) (topic_entries t b)"
  "bus_subscribe_caps (unregister_extension ext b) = hm_remove ext (bus_subscribe_caps b)"
  "bus_emit_caps (unregister_extension ext b) = hm_remove ext (bus_emit_caps b)"
  by (simp_all add: unregister_extension_def topic_entries_retain) (simp_all add: topic_entries_def retain_entries_def)

lemma owned_entries_unregister: "owned_entries e (unregister_extension ext b) t = (if e = ext then [] else owned_entries e b t)"
  by (auto simp: owned_entries_def unregistered filter_empty_conv intro!: filter_cong)

lemma clear_spares: "spares_others ext s (clear_extension ext s)"
  unfolding spares_others_def same_for_def
  by (auto simp: clear_extension_def Let_def belongings_of_def ext_active_def dispose_panels_of_def unregister_providers_of_def
      unregister_commands_of_def unregister_renderers_of_def unregister_sidebars_of_def owned_part_drop owned_entries_unregister
      no_contributions_kept host_runs_def fun_eq_iff unregistered store_simps split: prod.split)

lemma cleared: "belongings_of ext (clear_extension ext s) =
    nothing\<lparr>bl_handle := map_of (rt_handles s) ext, bl_active := ext_active s ext\<rparr>"
  "no_contributions ext (rt_contributions (clear_extension ext s))"
  by (auto simp: clear_extension_def Let_def belongings_of_def nothing_def ext_active_def dispose_panels_of_def unregister_providers_of_def
      unregister_commands_of_def unregister_renderers_of_def unregister_sidebars_of_def owned_part_drop_self owned_entries_unregister
      no_contributions_removed fun_eq_iff unregistered store_simps split: prod.split)

lemma cleared_same [simp]: "rt_handles (clear_extension ext s) = rt_handles s" "host_runs h e (clear_extension ext s) = host_runs h e s"
  "ext_active (clear_extension ext s) e = ext_active s e" "rt_registry (clear_extension ext s) = rt_registry s"
  by (simp_all add: clear_extension_def Let_def host_runs_def ext_active_def split: prod.split)

lemma down_same_for: "same_for e s (set_host_down h s)"
  using runs_down [of _ e h s] by (auto simp: same_for_def belongings_of_def ext_active_def) (auto simp: set_host_down_def)

lemma down_spares: "spares_others ext s (set_host_down h s)"
  by (simp add: spares_others_def down_same_for)

lemma remove_handle_spares: "spares_others ext s (remove_handle ext s)"
  by (auto simp: spares_others_def same_for_def belongings_of_def remove_handle_def ext_active_def host_runs_def store_simps)

lemma small_same [simp]:
  "rt_handles (drop_subscriptions h s) = rt_handles s" "host_runs k e (drop_subscriptions h s) = host_runs k e s"
  "ext_active (drop_subscriptions h s) e = ext_active s e" "rt_registry (drop_subscriptions h s) = rt_registry s"
  "host_runs k e (remove_handle ext s) = host_runs k e s" "ext_active (remove_handle ext s) e = ext_active s e"
  "rt_registry (remove_handle ext s) = rt_registry s" "map_of (rt_handles (remove_handle ext s)) = (map_of (rt_handles s))(ext := None)"
  "rt_handles (set_host_down j s) = rt_handles s" "ext_active (set_host_down j s) e = ext_active s e"
  "rt_registry (set_host_down j s) = rt_registry s" "rt_contributions (set_host_down j s) = rt_contributions s"
  "rt_contributions (drop_subscriptions h s) = rt_contributions s"
  by (simp_all add: drop_subscriptions_def remove_handle_def set_host_down_def host_runs_def ext_active_def store_simps)

text \<open>Dropping guards that are the extension's own.\<close>

lemma drop_same_for:
  assumes "own_guards ext (handle_guards h) n s" and "e \<noteq> ext"
  shows "same_for e s (drop_subscriptions h s)"
proof -
  have "owned_entries e (drop_guards (handle_guards h) (rt_events s)) t = owned_entries e (rt_events s) t" for t
    using assms by (intro owned_entries_drop_guards) (auto simp: own_guards_def)
  then show ?thesis
    by (auto simp: same_for_def belongings_of_def drop_subscriptions_def ext_active_def host_runs_def fun_eq_iff)
qed

lemma drop_spares: "own_guards ext (handle_guards h) n s \<Longrightarrow> spares_others ext s (drop_subscriptions h s)"
  by (auto simp: spares_others_def drop_same_for)

lemma handle_own_guards: "wf_runtime n s \<Longrightarrow> map_of (rt_handles s) ext = Some h \<Longrightarrow> own_guards ext (handle_guards h) n s"
  by (auto simp: wf_runtime_def ids_below_def guards_own_def own_guards_def)

lemma prepare_spares:
  assumes "wf_runtime n s" and "mf_id m = ext"
  shows "spares_others ext s (prepare_activation ext m s)"
  using assms wf_tables_of [OF assms(1)] unfolding spares_others_def same_for_def
  by (auto simp: prepare_activation_def Let_def belongings_of_def ext_active_def host_runs_def ingest_manifest_def owned_renderers_ingest
      wf_tables_def no_contributions_ingest register_extension_def owned_entries_def topic_entries_def fun_eq_iff store_simps)

lemma prepared_same [simp]: "rt_handles (prepare_activation ext m s) = rt_handles s" "host_runs h e (prepare_activation ext m s) = host_runs h e s"
  "ext_active (prepare_activation ext m s) e = ext_active s e" "rt_registry (prepare_activation ext m s) = rt_registry s"
  "rt_lifecycle (prepare_activation ext m s) = rt_lifecycle s"
  by (simp_all add: prepare_activation_def Let_def host_runs_def ext_active_def)

section \<open>The invariant of a waiting call\<close>

fun calm :: "ext_frame \<Rightarrow> bool" where
  "calm (FInstalled i) = True"
| "calm (FUninstall ext) = True"
| "calm (FShutdownAll is) = True"
| "calm (FCrashDone ext) = True"
| "calm (FDisabled ext message) = True"
| "calm _ = False"

definition calm_all :: "ext_frame list \<Rightarrow> bool" where
  "calm_all fs \<longleftrightarrow> (\<forall>f \<in> set fs. calm f)"

lemma calm_all_simps [simp]: "calm_all []" "calm_all (f # fs) \<longleftrightarrow> calm f \<and> calm_all fs" "calm_all (fs @ gs) \<longleftrightarrow> calm_all fs \<and> calm_all gs"
  by (auto simp: calm_all_def)

text \<open>A host of the extension is being spawned for an activation or for a restart.\<close>

definition spawn_stage :: "string \<Rightarrow> ext_frame list \<Rightarrow> 'w ext_runtime \<Rightarrow> bool" where
  "spawn_stage ext fs s \<longleftrightarrow> (\<exists>gs. calm_all gs \<and>
     (fs = FActivateHosted ext # gs \<and> \<not> ext_active s ext \<or> fs = FRespawned ext # gs \<and> ext_active s ext))"

definition unhosted :: "string \<Rightarrow> 'w ext_runtime \<Rightarrow> bool" where
  "unhosted ext s \<longleftrightarrow> map_of (rt_handles s) ext = None \<and> (\<forall>h. \<not> host_runs h ext s)"

fun call_inv :: "nat \<Rightarrow> ext_frame list \<Rightarrow> 'w ext_runtime \<Rightarrow> bool" where
  "call_inv n (FSpawn ext m # fs) s = (spawn_stage ext fs s \<and> others_quiet ext s \<and> unhosted ext s)"
| "call_inv n (FUnconnected ext # fs) s = (spawn_stage ext fs s \<and> others_quiet ext s \<and> unhosted ext s)"
| "call_inv n (FHandshake ext h # fs) s = (spawn_stage ext fs s \<and> others_quiet ext s \<and> hosted ext s)"
| "call_inv n (FRollback e # fs) s = (calm_all fs \<and> idle s)"
| "call_inv n (FDeactivateAsked ext h # fs) s = (calm_all fs \<and> others_quiet ext s \<and> \<not> ext_active s ext \<and>
     map_of (rt_handles s) ext = None \<and> (\<forall>h'. host_runs h' ext s \<longrightarrow> h' = eh_host h) \<and> own_guards ext (handle_guards h) n s)"
| "call_inv n (FDeactivateShutdown # fs) s = (calm_all fs \<and> idle s)"
| "call_inv n (FBackoff ext # fs) s = (calm_all fs \<and> idle s)"
| "call_inv n (FRespawnShutdown ext # fs) s = (\<exists>gs. fs = FRespawned ext # gs \<and> calm_all gs \<and> others_quiet ext s \<and>
     ext_active s ext \<and> unhosted ext s)"
| "call_inv n _ s = False"

definition section_ok :: "nat \<Rightarrow> 'w ext_section \<Rightarrow> bool" where
  "section_ok n c \<longleftrightarrow> good n (snd c) \<and> (case fst c of
     Await fs \<Rightarrow> \<forall>gs. calm_all gs \<longrightarrow> call_inv n (fs @ gs) (snd c)
   | Return r \<Rightarrow> idle (snd c)
   | Panicked m \<Rightarrow> False)"

lemma section_ok_simps [simp]:
  "section_ok n (Await fs, s) \<longleftrightarrow> good n s \<and> (\<forall>gs. calm_all gs \<longrightarrow> call_inv n (fs @ gs) s)"
  "section_ok n (Return r, s) \<longleftrightarrow> good n s \<and> idle s"
  "\<not> section_ok n (Panicked m, s)"
  by (simp_all add: section_ok_def)

lemma section_then_back:
  assumes "section_ok n c" and "calm f" and "\<And>r s. good n s \<Longrightarrow> idle s \<Longrightarrow> section_ok n (k r s)"
  shows "section_ok n (then_back c f k)"
  using assms by (cases c) (auto simp: then_back_def split: ext_control.split)

lemma good_wf: "good n s \<Longrightarrow> wf_runtime n s"
  by (simp add: good_def)

lemma idle_same: "idle s \<Longrightarrow> (\<And>e. same_for e s s') \<Longrightarrow> idle s'"
  by (auto simp: idle_def intro: quiet_same)

lemma absent_cleared:
  assumes "\<not> ext_active s ext" and "unhosted ext s"
  shows "absent ext (clear_extension ext s)"
  using assms by (simp add: absent_def cleared unhosted_def nothing_def)

lemma absent_quiet: "absent ext s \<Longrightarrow> quiet_frames ext s"
  by (auto simp: quiet_frames_def hosted_def absent_def)

text \<open>Changes of fields the invariant does not read.\<close>

lemma same_fields:
  "same_for e s (s\<lparr>rt_registry := a, rt_world := b\<rparr>)" "same_for e s (s\<lparr>rt_restart_counts := c\<rparr>)" "same_for e s (s\<lparr>rt_restarting := d\<rparr>)"
  "same_for e s (s\<lparr>rt_sessions := f\<rparr>)" "same_for e s (emit_effects fs s)"
  by (auto simp: same_for_def belongings_of_def ext_active_def host_runs_def)

subsection \<open>Activation\<close>

lemma finish_activation_ok:
  assumes "good n s" and "others_quiet ext s" and "\<not> ext_active s ext" and "hosted ext s"
  shows "section_ok n (finish_activation E ext s)"
proof -
  let ?s = "s\<lparr>rt_lifecycle := hm_put ext \<lparr>act_ext = ext, act_at = en_now E (rt_world s)\<rparr> (rt_lifecycle s)\<rparr>"
  have step: "finish_activation E ext s = (Return (Inr None), ?s)"
    using assms(3) by (simp add: finish_activation_def mark_activated_def ext_active_def)
  have "spares_others ext s ?s"
    by (auto simp: spares_others_def same_for_def belongings_of_def ext_active_def is_activated_def host_runs_def store_simps)
  then have "others_quiet ext ?s" using assms(2) by (rule others_quiet_spared)
  moreover have "quiet_frames ext ?s" using assms(4) by (simp add: quiet_frames_def ext_active_def is_activated_def store_simps hosted_def host_runs_def)
  moreover have "good n ?s" using assms(1) by (auto simp: good_def intro: wf_lifecycle)
  ultimately show ?thesis by (simp add: step idleI)
qed

lemma activate_ok:
  assumes "good n s" and "idle s"
  shows "section_ok n (activate_default E ext s)"
proof -
  have "section_ok n (activate E ext s)"
  proof (cases "registry_get (rt_registry s) ext")
    case (Some e)
    let ?m = "rge_manifest e" let ?s = "prepare_activation ext ?m s"
    have m: "mf_id ?m = ext" using assms(1) Some by (auto simp: good_def entries_named_def registry_get_def)
    have g: "good n ?s" using assms(1) by (auto simp: good_def intro: wf_prepare)
    have o: "others_quiet ext ?s"
      using others_quiet_spared [OF prepare_spares [OF good_wf [OF assms(1)] m] idle_quiet(2) [OF assms(2)]] .
    show ?thesis
    proof (cases "rge_enabled e \<and> \<not> ext_active s ext")
      case True
      then have "absent ext s" using assms(2) by (auto simp: idle_def quiet_frames_def)
      then have u: "unhosted ext ?s" by (auto simp: absent_def unhosted_def nothing_def belongings_of_def)
      moreover have "hosted ext ?s" using u by (simp add: hosted_def unhosted_def)
      ultimately show ?thesis
        using True g o finish_activation_ok [OF g o, of E] by (auto simp: activate_def Some Let_def spawn_stage_def)
    qed (use assms in \<open>auto simp: activate_def Some\<close>)
  qed (use assms in \<open>simp add: activate_def\<close>)
  then show ?thesis using assms by (simp add: activate_default_def)
qed

text \<open>The end of an extension whose handle was taken out: cleared, its guards dropped, its host down.\<close>

lemma ended_idle:
  assumes "good n s" and "others_quiet ext s" and "\<not> ext_active s ext" and "map_of (rt_handles s) ext = None"
    and "\<And>h'. host_runs h' ext s \<Longrightarrow> h' = eh_host h" and "own_guards ext (handle_guards h) n s"
  shows "good n (set_host_down (eh_host h) (drop_subscriptions h (clear_extension ext s)))"
    and "idle (set_host_down (eh_host h) (drop_subscriptions h (clear_extension ext s)))"
proof -
  let ?s1 = "clear_extension ext s" let ?s2 = "drop_subscriptions h ?s1" let ?s3 = "set_host_down (eh_host h) ?s2"
  have own: "own_guards ext (handle_guards h) n ?s1"
    using assms(6) by (auto simp: own_guards_def clear_extension_def Let_def unregistered split: prod.split)
  have sp: "spares_others ext s ?s3" by (rule spares_trans [OF clear_spares spares_trans [OF drop_spares [OF own] down_spares]])
  have "belongings_of ext ?s1 = nothing" using assms(3,4) by (simp add: cleared nothing_def)
  then have "belongings_of ext ?s2 = nothing"
    by (auto simp: belongings_of_def nothing_def drop_subscriptions_def ext_active_def owned_entries_def topic_entries_drop_guards fun_eq_iff filter_empty_conv)
  then have "belongings_of ext ?s3 = nothing" using down_same_for [of ext ?s2] by (simp add: same_for_def)
  moreover have "\<not> host_runs h' ext ?s3" for h' using assms(5) by auto
  moreover have "no_contributions ext (rt_contributions ?s3)" by (simp add: cleared(2))
  ultimately have "absent ext ?s3" by (simp add: absent_def)
  then show "idle ?s3" using others_quiet_spared [OF sp assms(2)] by (auto intro: idleI absent_quiet)
  show "good n ?s3" using assms(1) by (auto simp: good_def intro: wf_steps)
qed

lemma rollback_ok:
  assumes "good n s" and "others_quiet ext s" and "\<not> ext_active s ext" and "hosted ext s"
  shows "section_ok n (rollback_activation ext e s)"
proof -
  let ?s0 = "remove_handle ext s"
  have o: "others_quiet ext ?s0" using others_quiet_spared [OF remove_handle_spares assms(2)] .
  have g: "good n ?s0" using assms(1) by (auto simp: good_def intro: wf_steps)
  show ?thesis
  proof (cases "map_of (rt_handles s) ext")
    case None
    then have "absent ext (clear_extension ext ?s0)" using assms(3,4)
      by (intro absent_cleared) (auto simp: unhosted_def hosted_def)
    then have "idle (clear_extension ext ?s0)" using others_quiet_spared [OF clear_spares o] by (auto intro: idleI absent_quiet)
    moreover have "good n (clear_extension ext ?s0)" using g by (auto simp: good_def intro: wf_steps)
    ultimately show ?thesis by (simp add: rollback_activation_def Let_def None)
  next
    case (Some h)
    have "own_guards ext (handle_guards h) n ?s0"
      using handle_own_guards [OF good_wf [OF assms(1)] Some] by (simp add: own_guards_def remove_handle_def)
    moreover have "host_runs h' ext ?s0 \<Longrightarrow> h' = eh_host h" for h' using assms(4) Some by (auto simp: hosted_def)
    ultimately show ?thesis
      using ended_idle [OF g o, of h] assms(3) by (simp add: rollback_activation_def Let_def Some)
  qed
qed

lemma activate_hosted_ok:
  assumes "good n s" and "others_quiet ext s" and "\<not> ext_active s ext" and "hosted ext s"
  shows "section_ok n (activate_hosted E ext r s)"
  using assms by (auto simp: activate_hosted_def finish_activation_ok rollback_ok split: sum.split)

subsection \<open>Deactivation and management\<close>

lemma deactivate_ok:
  assumes "good n s" and "idle s"
  shows "section_ok n (deactivate ext s)"
proof (cases "ext_active s ext")
  case True
  let ?s1 = "s\<lparr>rt_lifecycle := hm_remove ext (rt_lifecycle s), rt_sessions := snd (close_sessions_of ext (rt_sessions s))\<rparr>"
  have sp: "spares_others ext s ?s1"
    by (auto simp: spares_others_def same_for_def belongings_of_def ext_active_def is_activated_def host_runs_def store_simps)
  have g: "good n ?s1"
    using wf_other(6) [OF wf_lifecycle(2) [OF good_wf [OF assms(1)]]] assms(1) by (simp add: good_def)
  have inactive: "\<not> ext_active ?s1 ext" by (simp add: ext_active_def is_activated_def store_simps)
  have h: "hosted ext s" using assms(2) by (simp add: idle_def quiet_frames_def)
  have o: "others_quiet ext ?s1" using others_quiet_spared [OF sp idle_quiet(2) [OF assms(2)]] .
  show ?thesis
  proof (cases "map_of (rt_handles s) ext")
    case None
    then have "\<not> host_runs j ext s" for j using h by (auto simp: hosted_def)
    then have "absent ext (clear_extension ext ?s1)" using inactive None
      by (intro absent_cleared) (auto simp: unhosted_def host_runs_def)
    then have "idle (clear_extension ext ?s1)" using others_quiet_spared [OF clear_spares o] by (auto intro: idleI absent_quiet)
    moreover have "good n (clear_extension ext ?s1)" using g by (auto simp: good_def intro: wf_steps)
    ultimately show ?thesis by (simp add: deactivate_def True None Let_def)
  next
    case (Some hd)
    have "others_quiet ext (remove_handle ext ?s1)" using others_quiet_spared [OF remove_handle_spares o] .
    moreover have "good n (remove_handle ext ?s1)" using g by (auto simp: good_def intro: wf_steps)
    moreover have "own_guards ext (handle_guards hd) n (remove_handle ext ?s1)"
      using handle_own_guards [OF good_wf [OF assms(1)] Some] by (simp add: own_guards_def remove_handle_def)
    moreover have "host_runs j ext ?s1 = host_runs j ext s" for j by (simp add: host_runs_def)
    then have "host_runs j ext (remove_handle ext ?s1) \<Longrightarrow> j = eh_host hd" for j
      using h Some by (auto simp: hosted_def)
    ultimately show ?thesis using inactive by (simp add: deactivate_def True Some Let_def)
  qed
qed (use assms in \<open>simp add: deactivate_def\<close>)

lemma put_registry_ok:
  assumes "good n s" and "idle s" and "put_registry r s = (res, s')" and "entries_named (fst (snd r))"
  shows "good n s'" and "idle s'"
proof -
  obtain a b where s': "s' = s\<lparr>rt_registry := a, rt_world := b\<rparr>" "a = fst (snd r)"
    using assms(3) by (auto simp: put_registry_def split: prod.splits)
  show "idle s'" using assms(2) unfolding s' by (rule idle_same) (rule same_fields)
  have "wf_runtime n s'" unfolding s'(1) using wf_other(3) [OF wf_other(2) [OF good_wf [OF assms(1)]]] by blast
  then show "good n s'" using assms(4) by (simp add: good_def s')
qed

lemma entries_named_put: "entries_named r \<Longrightarrow> mf_id (rge_manifest e) = i \<Longrightarrow> entries_named (r\<lparr>rg_entries := hm_put i e (rg_entries r)\<rparr>)"
  by (auto simp: entries_named_def store_simps)

lemma entries_named_remove: "entries_named r \<Longrightarrow> entries_named (r\<lparr>rg_entries := hm_remove i (rg_entries r)\<rparr>)"
  by (auto simp: entries_named_def store_simps)

lemma entries_named_set:
  assumes "entries_named r" and "\<And>e. rge_manifest (f e) = rge_manifest e"
  shows "entries_named (fst (snd (change_entry os i f r w)))"
proof (cases "map_of (rg_entries r) i")
  case (Some e)
  with assms have "mf_id (rge_manifest (f e)) = i" by (simp add: entries_named_def)
  from entries_named_put [OF assms(1) this] show ?thesis by (simp add: change_entry_def Some Let_def case_prod_beta)
qed (simp add: change_entry_def assms(1))

lemma entries_named_uninstall: "entries_named r \<Longrightarrow> entries_named (fst (snd (uninstall_extension os i r w)))"
  by (auto simp: uninstall_extension_def Let_def entries_named_remove split: option.split prod.split)

lemma entries_named_install: "entries_named r \<Longrightarrow> entries_named (fst (snd (install_extension os source r w)))"
  by (auto simp: install_extension_def Let_def entries_named_def store_simps split: prod.split sum.split option.split)

lemma entries_named_install_path: "entries_named r \<Longrightarrow> entries_named (fst (snd (install_from_path os source r w)))"
  using entries_named_install by (auto simp: install_from_path_def Let_def case_prod_beta split: sum.split)

lemma set_enabled_ok:
  assumes "good n s" and "idle s"
  shows "section_ok n (set_enabled E ext b s)"
proof -
  obtain res s1 where p: "put_registry (set_extension_enabled (en_os E) ext b (rt_registry s) (rt_world s)) s = (res, s1)" by force
  have "entries_named (fst (snd (set_extension_enabled (en_os E) ext b (rt_registry s) (rt_world s))))"
    using assms(1) unfolding set_extension_enabled_def good_def by (intro entries_named_set) simp_all
  from put_registry_ok [OF assms p this] show ?thesis
    by (auto simp: set_enabled_def p deactivate_ok activate_ok split: sum.split)
qed

lemma install_ok:
  assumes "good n s" and "idle s"
  shows "section_ok n (install_from E source s)"
proof -
  obtain res s1 where p: "put_registry (install_from_path (en_os E) source (rt_registry s) (rt_world s)) s = (res, s1)" by force
  from put_registry_ok [OF assms p] assms(1) show ?thesis
    by (auto simp: install_from_def p entries_named_install_path good_def intro!: section_then_back activate_ok split: sum.split)
qed

lemma remove_installed_ok:
  assumes "good n s" and "idle s"
  shows "section_ok n (remove_installed E ext s)"
proof -
  obtain res s1 where p: "put_registry (uninstall_extension (en_os E) ext (rt_registry s) (rt_world s)) s = (res, s1)" by force
  from put_registry_ok [OF assms p] assms(1) show ?thesis
    by (auto simp: remove_installed_def p entries_named_uninstall good_def)
qed

lemma uninstall_ok:
  assumes "good n s" and "idle s"
  shows "section_ok n (uninstall E ext s)"
  using assms by (auto simp: uninstall_def intro!: section_then_back deactivate_ok remove_installed_ok)

lemma shutdown_ids_ok: "good n s \<Longrightarrow> idle s \<Longrightarrow> section_ok n (shutdown_ids is s)"
  by (induction "is" arbitrary: s) (auto intro!: section_then_back deactivate_ok)

subsection \<open>Recovery from crashes\<close>

lemma good_fields:
  assumes "good n s"
  shows "good n (s\<lparr>rt_restart_counts := c\<rparr>)" "good n (s\<lparr>rt_restarting := d\<rparr>)" "good n (emit_effects fs s)"
  using assms by (auto simp: good_def intro: wf_other)

lemma idle_fields:
  assumes "idle s"
  shows "idle (s\<lparr>rt_restart_counts := c\<rparr>)" "idle (s\<lparr>rt_restarting := d\<rparr>)" "idle (emit_effects fs s)"
  using assms by (auto intro: idle_same same_fields)

lemma finish_disable_ok:
  assumes "good n s" and "idle s"
  shows "section_ok n (finish_disable E ext message s)"
proof -
  obtain res s1 where p: "put_registry (set_disabled_by_crash (en_os E) ext (rt_registry s) (rt_world s)) s = (res, s1)" by force
  have "entries_named (fst (snd (set_disabled_by_crash (en_os E) ext (rt_registry s) (rt_world s))))"
    using assms(1) unfolding set_disabled_by_crash_def good_def by (intro entries_named_set) simp_all
  from put_registry_ok [OF assms p this] show ?thesis
    by (simp add: finish_disable_def p Let_def good_fields idle_fields)
qed

lemma disable_ok: "good n s \<Longrightarrow> idle s \<Longrightarrow> section_ok n (disable_after_crash E ext message s)"
  by (auto simp: disable_after_crash_def intro!: section_then_back deactivate_ok finish_disable_ok)

lemma active_idle: "others_quiet ext s \<Longrightarrow> ext_active s ext \<Longrightarrow> hosted ext s \<Longrightarrow> idle s"
  by (auto intro: idleI simp: quiet_frames_def)

lemma unhosted_hosted: "unhosted ext s \<Longrightarrow> hosted ext s"
  by (simp add: hosted_def unhosted_def)

lemma respawned_ok:
  assumes "good n s" and "others_quiet ext s" and "ext_active s ext" and "hosted ext s"
  shows "section_ok n (respawned E ext r s)"
  using assms active_idle [OF assms(2-4)] by (auto simp: respawned_def intro: disable_ok split: sum.split)

lemma respawn_host_ok:
  assumes "good n s" and "others_quiet ext s" and "ext_active s ext" and "unhosted ext s"
  shows "section_ok n (then_back (respawn_host E ext s) (FRespawned ext) (respawned E ext))"
proof -
  let ?s = "s\<lparr>rt_providers := snd (unregister_providers_of ext (rt_providers s)),
      rt_commands := unregister_commands_of ext (rt_commands s), rt_sidebars := snd (unregister_sidebars_of ext (rt_sidebars s))\<rparr>"
  have same: "rt_registry ?s = rt_registry s" "ext_active ?s ext = ext_active s ext" "unhosted ext ?s = unhosted ext s"
    by (simp_all add: ext_active_def unhosted_def host_runs_def)
  have "spares_others ext s ?s"
    by (auto simp: spares_others_def same_for_def belongings_of_def ext_active_def host_runs_def unregister_providers_of_def
        unregister_commands_of_def unregister_sidebars_of_def owned_part_drop)
  then have o: "others_quiet ext ?s" using assms(2) by (rule others_quiet_spared)
  have "wf_runtime n ?s"
    using wf_respawn_host [OF good_wf [OF assms(1)], of E ext] by (auto simp: respawn_host_def Let_def split: option.splits if_splits)
  then have g: "good n ?s" using assms(1) by (simp add: good_def)
  have "section_ok n (respawned E ext r ?s)" for r
    using assms(3,4) same unhosted_hosted [of ext ?s] by (intro respawned_ok [OF g o]) simp_all
  then show ?thesis
    using g o assms(3,4) same
    by (auto simp: respawn_host_def Let_def then_back_def spawn_stage_def split: option.split)
qed

lemma restart_section_ok:
  assumes "good n s" and "idle s"
  shows "section_ok n (restart_now E ext s)"
proof (cases "ext_active s ext")
  case True
  have o: "others_quiet ext s" and h: "hosted ext s" using assms(2) by (simp_all add: idle_def others_quiet_def quiet_frames_def)
  show ?thesis
  proof (cases "map_of (rt_handles s) ext")
    case None
    then have "unhosted ext s" using h by (auto simp: unhosted_def hosted_def)
    then show ?thesis using respawn_host_ok [OF assms(1) o True] by (simp add: restart_now_def True respawn_def None)
  next
    case (Some hd)
    let ?s1 = "drop_subscriptions hd (remove_handle ext s)" let ?s2 = "set_host_down (eh_host hd) ?s1"
    have own: "own_guards ext (handle_guards hd) n (remove_handle ext s)"
      using handle_own_guards [OF good_wf [OF assms(1)] Some] by (simp add: own_guards_def remove_handle_def)
    have "others_quiet ext ?s2"
      using others_quiet_spared [OF spares_trans [OF remove_handle_spares spares_trans [OF drop_spares [OF own] down_spares]] o] .
    moreover have "unhosted ext ?s2" using h Some by (auto simp: unhosted_def hosted_def)
    moreover have "good n ?s2" using assms(1) by (auto simp: good_def intro: wf_steps)
    ultimately show ?thesis using True by (simp add: restart_now_def respawn_def Some then_back_def)
  qed
qed (use assms in \<open>simp add: restart_now_def\<close>)

lemma crash_done_ok: "good n s \<Longrightarrow> idle s \<Longrightarrow> section_ok n (crash_done ext s)"
  by (simp add: crash_done_def good_fields idle_fields)

lemma crashed_ok:
  assumes "good n s" and "idle s"
  shows "section_ok n (on_host_crashed E ext exit s)"
proof -
  have "section_ok n (try_restart E ext exit s)" if "good n s" "idle s" for s
  proof -
    have "section_ok n (restart_now E ext (emit_effects fs (s\<lparr>rt_restart_counts := c\<rparr>)))"
      "section_ok n (disable_after_crash E ext message (emit_effects fs (s\<lparr>rt_restart_counts := c\<rparr>)))" for fs c message
      using that by (auto intro!: restart_section_ok disable_ok simp: good_fields idle_fields)
    then show ?thesis using that by (auto simp: try_restart_def Let_def good_fields idle_fields)
  qed
  then show ?thesis
    using assms by (auto simp: on_host_crashed_def good_fields idle_fields intro!: section_then_back crash_done_ok)
qed

section \<open>Tasks\<close>

lemma unwind_then_back: "unwind E c (f # gs) = unwind E (then_back c f (\<lambda>r. resumed E r f)) gs"
  by (cases c; cases "fst c") (auto simp: then_back_def)

lemma begin_call_ok: "good n s \<Longrightarrow> idle s \<Longrightarrow> section_ok n (begin_call E c s)"
  by (cases c) (auto simp: activate_ok set_enabled_ok install_ok uninstall_ok shutdown_all_def shutdown_ids_ok crashed_ok)

lemma resumed_ok: "calm f \<Longrightarrow> good n s \<Longrightarrow> idle s \<Longrightarrow> section_ok n (resumed E r f s)"
  by (cases f) (auto simp: remove_installed_ok shutdown_ids_ok crash_done_ok finish_disable_ok)

text \<open>What a task that was taken on leaves.\<close>

definition task_ok :: "nat \<Rightarrow> ext_task \<times> 'w ext_runtime \<Rightarrow> bool" where
  "task_ok n r \<longleftrightarrow> good n (snd r) \<and> (case fst r of
     Running fs \<Rightarrow> call_inv n fs (snd r) | Finished _ \<Rightarrow> idle (snd r) | Crashed _ \<Rightarrow> False)"

lemma unwind_ok: "section_ok n c \<Longrightarrow> calm_all gs \<Longrightarrow> task_ok n (unwind E c gs)"
  by (induction E c gs rule: unwind.induct) (auto simp: task_ok_def intro: resumed_ok)

lemma answered_ok:
  assumes "good n s" and inv: "call_inv n (f # fs) s"
  shows "task_ok n (unwind E (frame_answered E a f s) fs)"
proof -
  have spawned: "task_ok n (unwind E c fs)"
    if stage: "spawn_stage ext fs s" and o: "others_quiet ext (snd c)" and act: "ext_active (snd c) ext = ext_active s ext"
      and h: "hosted ext (snd c)" and g: "good n (snd c)"
      and await: "\<And>gs. fst c = Await gs \<Longrightarrow> spawn_stage ext fs (snd c) \<Longrightarrow> call_inv n (gs @ fs) (snd c)" and np: "\<And>m. fst c \<noteq> Panicked m"
    for c ext
  proof -
    obtain ctl s' where c: "c = (ctl, s')" by force
    from stage obtain gs where gs: "calm_all gs" "fs = FActivateHosted ext # gs \<and> \<not> ext_active s ext \<or> fs = FRespawned ext # gs \<and> ext_active s ext"
      by (auto simp: spawn_stage_def)
    show ?thesis
    proof (cases ctl)
      case (Await ws)
      then show ?thesis using await g gs act by (auto simp: c task_ok_def spawn_stage_def)
    next
      case (Return r)
      show ?thesis
        using gs(2)
      proof
        assume f: "fs = FActivateHosted ext # gs \<and> \<not> ext_active s ext"
        with g o act h have "section_ok n (activate_hosted E ext r s')" by (intro activate_hosted_ok) (simp_all add: c)
        from unwind_ok [OF this gs(1)] f show ?thesis by (simp add: c Return)
      next
        assume f: "fs = FRespawned ext # gs \<and> ext_active s ext"
        with g o act h have "section_ok n (respawned E ext r s')" by (intro respawned_ok) (simp_all add: c)
        from unwind_ok [OF this gs(1)] f show ?thesis by (simp add: c Return)
      qed
    next
      case (Panicked m)
      then show ?thesis using np [of m] by (simp add: c)
    qed
  qed
  show ?thesis
  proof (cases f)
    case (FSpawn ext m)
    let ?c = "spawned_host ext m a s"
    from inv have stage: "spawn_stage ext fs s" and o: "others_quiet ext s" and u: "unhosted ext s" by (simp_all add: FSpawn)
    have none: "map_of (rt_handles s) ext = None" using u by (simp add: unhosted_def)
    have runs': "host_runs j e (snd ?c) \<Longrightarrow> host_runs j e s \<or> (e = ext \<and> j = length (rt_hosts s) \<and> a = Inr True)" for j e
      by (auto simp: spawned_host_def Let_def none host_runs_def nth_append split: sum.splits if_splits)
    have sp: "spares_others ext s (snd ?c)"
      using runs' by (auto simp: spares_others_def same_for_def)
        (auto simp: spawned_host_def Let_def none belongings_of_def ext_active_def store_simps split: sum.splits if_splits)
    have act: "ext_active (snd ?c) e = ext_active s e" for e
      by (auto simp: spawned_host_def Let_def none ext_active_def split: sum.split)
    have h: "hosted ext (snd ?c)"
      unfolding hosted_def
    proof (intro allI impI)
      fix j assume "host_runs j ext (snd ?c)"
      then have "j = length (rt_hosts s) \<and> a = Inr True" using runs' u by (auto simp: unhosted_def)
      then show "map_option eh_host (map_of (rt_handles (snd ?c)) ext) = Some j"
        by (simp add: spawned_host_def Let_def none store_simps)
    qed
    have g: "good n (snd ?c)"
      using assms(1) wf_spawned [OF good_wf [OF assms(1)], of ext m a]
      by (auto simp: good_def spawned_host_def Let_def none split: sum.splits)
    have "call_inv n (gs @ fs) (snd ?c)" if "fst ?c = Await gs" "spawn_stage ext fs (snd ?c)" for gs
      using that others_quiet_spared [OF sp o] h u
      by (auto simp: spawned_host_def Let_def none unhosted_def host_runs_def nth_append split: sum.splits if_splits)
    moreover have "fst ?c \<noteq> Panicked m'" for m' by (auto simp: spawned_host_def Let_def split: sum.split)
    ultimately have "task_ok n (unwind E ?c fs)"
      using spawned [of ext ?c, OF stage others_quiet_spared [OF sp o] act h g] by blast
    then show ?thesis by (simp add: FSpawn)
  next
    case (FUnconnected ext)
    then show ?thesis using inv assms(1) spawned [of ext "frame_answered E a f s"] unhosted_hosted by auto
  next
    case (FHandshake ext h)
    then show ?thesis using inv assms(1) spawned [of ext "frame_answered E a f s"] by auto
  next
    case (FDeactivateAsked ext h)
    with inv have "calm_all fs" "section_ok n (deactivate_answered ext h s)"
      using ended_idle [OF assms(1), of ext h] by (auto simp: deactivate_answered_def)
    then show ?thesis by (simp add: FDeactivateAsked unwind_ok)
  next
    case (FRespawnShutdown ext)
    with inv obtain gs where gs: "fs = FRespawned ext # gs" "calm_all gs" "others_quiet ext s" "ext_active s ext" "unhosted ext s" by auto
    have "resumed E r (FRespawned ext) = respawned E ext r" for r by (simp add: fun_eq_iff)
    then have "unwind E (frame_answered E a f s) fs = unwind E (then_back (respawn_host E ext s) (FRespawned ext) (respawned E ext)) gs"
      by (simp add: FRespawnShutdown gs(1) unwind_then_back)
    then show ?thesis using unwind_ok [OF respawn_host_ok [OF assms(1) gs(3-5)] gs(2)] by simp
  qed (use assms in \<open>auto intro!: unwind_ok restart_section_ok\<close>)
qed

section \<open>Histories without overlapping calls\<close>

fun is_running :: "ext_task \<Rightarrow> bool" where
  "is_running (Running fs) = True"
| "is_running _ = False"

definition none_running :: "ext_task list \<Rightarrow> bool" where
  "none_running ts \<longleftrightarrow> list_all (\<lambda>t. \<not> is_running t) ts"

fun may_happen :: "ext_label \<Rightarrow> ext_task list \<Rightarrow> bool" where
  "may_happen (Begin c) ts = none_running ts"
| "may_happen _ ts = True"

fun calls_apart :: "'w ext_env \<Rightarrow> ext_label list \<Rightarrow> 'w ext_runtime \<times> ext_task list \<Rightarrow> bool" where
  "calls_apart E [] st = True"
| "calls_apart E (l # ls) st = (may_happen l (snd st) \<and> calls_apart E ls (ext_exec E st l))"

text \<open>Either no task runs and the state is idle, or one task runs and its invariant holds.\<close>

definition pool_ok :: "nat \<Rightarrow> 'w ext_runtime \<times> ext_task list \<Rightarrow> bool" where
  "pool_ok n st \<longleftrightarrow> good n (fst st) \<and> (\<forall>m. Crashed m \<notin> set (snd st)) \<and>
     (none_running (snd st) \<and> idle (fst st) \<or>
      (\<exists>i fs. i < length (snd st) \<and> snd st ! i = Running fs \<and> call_inv n fs (fst st) \<and>
         (\<forall>j < length (snd st). j \<noteq> i \<longrightarrow> \<not> is_running (snd st ! j))))"

lemma serve_quiet:
  assumes wf: "wf_runtime n s" and n: "n < 2 ^ 64 - 1" and h: "host_runs h ext s" and q: "quiet_frames e s"
  shows "quiet_frames e (serve_host E ext m msg s)"
proof -
  let ?s = "serve_host E ext m msg s"
  have c: "own_change ext s ?s" by (rule own_change_serve)
  then have u: "untouched s ?s" and hosts: "map_option eh_host (map_of (rt_handles ?s) e) = map_option eh_host (map_of (rt_handles s) e)"
    by (auto simp: own_change_def fun_eq_iff)
  have r: "host_runs j e ?s = host_runs j e s" for j using u by (simp add: untouched_def host_runs_def)
  have act: "ext_active ?s e = ext_active s e" using u by (simp add: untouched_def ext_active_def)
  show ?thesis
  proof (cases "ext_active s e")
    case True
    then show ?thesis using q by (simp add: quiet_frames_def act hosted_def r hosts)
  next
    case False
    then have ab: "absent e s" using q by (simp add: quiet_frames_def)
    then have "e \<noteq> ext" using h by (auto simp: absent_def)
    then have "belongings_of e ?s = belongings_of e s" using c wf unfolding own_change_def by blast
    then have "same_for e s ?s" using u r by (simp add: same_for_def untouched_def)
    then show ?thesis using q by (rule quiet_same)
  qed
qed

lemma serve_call_inv:
  assumes wf: "wf_runtime n s" and n: "n < 2 ^ 64 - 1" and h: "host_runs h ext s" and inv: "call_inv n fs s"
  shows "call_inv n fs (serve_host E ext m msg s)"
proof -
  let ?s = "serve_host E ext m msg s"
  have c: "own_change ext s ?s" by (rule own_change_serve)
  then have u: "untouched s ?s" and hosts: "map_option eh_host (map_of (rt_handles ?s) e) = map_option eh_host (map_of (rt_handles s) e)" for e
    by (auto simp: own_change_def fun_eq_iff)
  have r: "host_runs j e ?s = host_runs j e s" for j e using u by (simp add: untouched_def host_runs_def)
  have act: "ext_active ?s e = ext_active s e" for e using u by (simp add: untouched_def ext_active_def)
  have none: "map_of (rt_handles ?s) e = None \<longleftrightarrow> map_of (rt_handles s) e = None" for e
    using hosts [of e] by (metis map_option_is_None)
  have same: "idle s \<Longrightarrow> idle ?s" "others_quiet e s \<Longrightarrow> others_quiet e ?s" "hosted e ?s = hosted e s" "unhosted e ?s = unhosted e s"
    "spawn_stage e gs ?s = spawn_stage e gs s" "own_guards e g n s \<Longrightarrow> own_guards e g n ?s" for e gs g
    using serve_quiet [OF wf n h] c wf n
    by (auto simp: idle_def others_quiet_def hosted_def unhosted_def spawn_stage_def own_change_def r hosts act none)
  show ?thesis
  proof (cases fs)
    case (Cons f gs)
    show ?thesis using inv same by (cases f) (auto simp: Cons act none r)
  qed (use inv in simp)
qed

lemma call_inv_Suc: "call_inv n fs s \<Longrightarrow> call_inv (Suc n) fs s"
  by (induction n fs s rule: call_inv.induct) (auto simp: own_guards_def less_SucI)

lemma gone_call_inv:
  assumes "call_inv n fs s"
  shows "call_inv n fs (set_host_down j s)"
proof -
  have same: "idle s \<Longrightarrow> idle (set_host_down j s)" "others_quiet e s \<Longrightarrow> others_quiet e (set_host_down j s)" "hosted e s \<Longrightarrow> hosted e (set_host_down j s)"
    "unhosted e s \<Longrightarrow> unhosted e (set_host_down j s)" "spawn_stage e gs (set_host_down j s) = spawn_stage e gs s"
    "own_guards e g n s \<Longrightarrow> own_guards e g n (set_host_down j s)" for e gs g
    using quiet_same [OF down_same_for]
    by (auto simp: idle_def others_quiet_def hosted_def unhosted_def spawn_stage_def own_guards_def) (auto simp: set_host_down_def)
  show ?thesis
  proof (cases fs)
    case (Cons f gs)
    show ?thesis using assms same by (cases f) (auto simp: Cons)
  qed (use assms in simp)
qed

lemma emit_call_inv:
  assumes "call_inv n fs s"
  shows "call_inv n fs (emit_effects es s)"
proof -
  have same: "idle s \<Longrightarrow> idle (emit_effects es s)" "others_quiet e s \<Longrightarrow> others_quiet e (emit_effects es s)" "hosted e s \<Longrightarrow> hosted e (emit_effects es s)"
    "unhosted e s \<Longrightarrow> unhosted e (emit_effects es s)" "spawn_stage e gs (emit_effects es s) = spawn_stage e gs s"
    "ext_active (emit_effects es s) e = ext_active s e" "host_runs k e (emit_effects es s) = host_runs k e s" for e gs k
    using quiet_same [OF same_fields(5)]
    by (auto simp: idle_def others_quiet_def hosted_def unhosted_def spawn_stage_def host_runs_def ext_active_def)
  show ?thesis
  proof (cases fs)
    case (Cons f gs)
    show ?thesis using assms same by (cases f) (auto simp: Cons)
  qed (use assms in simp)
qed

text \<open>A change of the state that keeps the invariant, whatever task runs.\<close>

lemma pool_ok_state:
  assumes "pool_ok n (s, ts)" and "good k s'" and "idle s \<Longrightarrow> idle s'" and "\<And>fs. call_inv n fs s \<Longrightarrow> call_inv k fs s'"
  shows "pool_ok k (s', ts)"
  using assms unfolding pool_ok_def by auto

lemma none_running_nth: "none_running ts \<longleftrightarrow> (\<forall>j < length ts. \<not> is_running (ts ! j))"
  by (simp add: none_running_def list_all_length)

lemma pool_ok_task:
  assumes "task_ok n (t, s')" and "\<forall>m. Crashed m \<notin> set ts" and "i < length ts" and "\<forall>j < length ts. j \<noteq> i \<longrightarrow> \<not> is_running (ts ! j)"
  shows "pool_ok n (s', ts[i := t])"
proof -
  have c: "\<forall>m. Crashed m \<notin> set (ts[i := t])"
    using assms(1,2) set_update_subset_insert [of ts i t] by (auto simp: task_ok_def)
  show ?thesis
  proof (cases t)
    case (Running fs)
    then show ?thesis using assms c unfolding pool_ok_def by (auto simp: task_ok_def intro!: exI [of _ i])
  next
    case (Finished r)
    then show ?thesis using assms c unfolding pool_ok_def by (auto simp: task_ok_def none_running_nth nth_list_update)
  qed (use assms(1) in \<open>simp add: task_ok_def\<close>)
qed

lemma pool_ok_exec:
  assumes ok: "pool_ok n (s, ts)" and n: "n < 2 ^ 64 - 1" and apart: "may_happen l ts"
  shows "pool_ok n (ext_exec E (s, ts) l) \<or> pool_ok (Suc n) (ext_exec E (s, ts) l)"
proof (cases l)
  case (Begin c)
  then have idle: "idle s" and g: "good n s" and cr: "\<forall>m. Crashed m \<notin> set ts" and nr: "none_running ts"
    using ok apart by (auto simp: pool_ok_def none_running_nth)
  obtain t s' where t: "unwind E (begin_call E c s) [] = (t, s')" by force
  have "task_ok n (t, s')" using unwind_ok [OF begin_call_ok [OF g idle, of E c], of "[]" E] by (simp add: t)
  then have "pool_ok n (s', (ts @ [t])[length ts := t])"
    using cr nr by (intro pool_ok_task) (auto simp: task_ok_def none_running_nth nth_append)
  then show ?thesis by (simp add: Begin t)
next
  case (Answer i a)
  show ?thesis
  proof (cases "i < length ts \<and> is_running (ts ! i)")
    case True
    then obtain fs where fs: "ts ! i = Running fs" by (cases "ts ! i") auto
    with ok True have inv: "call_inv n fs s" and g: "good n s" and cr: "\<forall>m. Crashed m \<notin> set ts"
      and nr: "\<forall>j < length ts. j \<noteq> i \<longrightarrow> \<not> is_running (ts ! j)"
      unfolding pool_ok_def none_running_nth by (auto, metis is_running.simps(1) ext_task.inject(1))
    obtain f gs where f: "fs = f # gs" using inv by (cases fs) auto
    obtain t s' where t: "task_step E a (Running fs) s = (t, s')" by force
    have "task_ok n (t, s')" using answered_ok [OF g inv [unfolded f], of E a] t by (simp add: f)
    then have "pool_ok n (s', ts[i := t])" using cr nr True by (intro pool_ok_task) auto
    then show ?thesis using True by (simp add: Answer fs t)
  next
    case False
    have "task_step E a (ts ! i) s = (ts ! i, s)" if "i < length ts" using False that by (cases "ts ! i") auto
    then show ?thesis using ok by (cases "i < length ts") (simp_all add: Answer list_update_id)
  qed
next
  case (FromHost h msg)
  let ?ext = "hr_ext (rt_hosts s ! h)" let ?m = "hr_manifest (rt_hosts s ! h)" let ?s = "serve_host E ?ext ?m msg s"
  show ?thesis
  proof (cases "h < length (rt_hosts s) \<and> hr_up (rt_hosts s ! h)")
    case True
    then have h: "host_runs h ?ext s" by (simp add: host_runs_def)
    have g: "good n s" using ok by (simp add: pool_ok_def)
    have c: "own_change ?ext s ?s" by (rule own_change_serve)
    from c g n obtain k where k: "k = n \<or> k = Suc n" "good k ?s"
      unfolding own_change_def good_def untouched_def by metis
    have "pool_ok k (?s, ts)"
    proof (rule pool_ok_state [OF ok k(2)])
      show "idle s \<Longrightarrow> idle ?s" using serve_quiet [OF good_wf [OF g] n h] by (simp add: idle_def)
      show "call_inv n fs s \<Longrightarrow> call_inv k fs ?s" for fs
        using serve_call_inv [OF good_wf [OF g] n h] call_inv_Suc k(1) by blast
    qed
    then show ?thesis using True k(1) by (auto simp: FromHost)
  qed (use ok in \<open>auto simp: FromHost\<close>)
next
  case (HostGone h)
  have "pool_ok n (set_host_down h s, ts)"
    by (rule pool_ok_state [OF ok])
      (use ok in \<open>auto simp: pool_ok_def good_def intro: wf_steps idle_same down_same_for gone_call_inv\<close>)
  then show ?thesis using ok by (simp add: HostGone)
next
  case (MemoryHigh ext rss limit)
  have "pool_ok n (emit_effects [rss_notice ext rss limit] s, ts)"
    by (rule pool_ok_state [OF ok])
      (use ok in \<open>auto simp: pool_ok_def good_fields idle_fields intro: emit_call_inv\<close>)
  then show ?thesis by (simp add: MemoryHigh)
qed

lemma idle_new: "idle (new_runtime reg w)"
  by (auto simp: idle_def quiet_frames_def absent_def hosted_def host_runs_def belongings_of_def nothing_def owned_part_def owned_entries_def
      topic_entries_def new_runtime_def new_event_bus_def ext_active_def is_activated_def no_contributions_def)

lemma calls_apart_snoc: "calls_apart E (ls @ [l]) st \<longleftrightarrow>
    calls_apart E ls st \<and> may_happen l (snd (ext_history E ls st))"
  by (induction ls arbitrary: st) (auto simp: ext_history_def)

lemma pool_ok_history:
  assumes "entries_named reg"
  shows "length ls < 2 ^ 64 \<Longrightarrow> calls_apart E ls (new_runtime reg w, []) \<Longrightarrow>
    \<exists>n \<le> length ls. pool_ok n (ext_history E ls (new_runtime reg w, []))"
proof (induction ls rule: rev_induct)
  case Nil
  show ?case using assms by (simp add: ext_history_def pool_ok_def good_def wf_new idle_new none_running_def) (simp add: new_runtime_def)
next
  case (snoc l ls)
  then obtain n where n: "n \<le> length ls" "pool_ok n (ext_history E ls (new_runtime reg w, []))" by (auto simp: calls_apart_snoc)
  obtain s ts where st: "ext_history E ls (new_runtime reg w, []) = (s, ts)" by force
  have "n < 2 ^ 64 - 1" using n(1) snoc.prems(1) by simp
  from pool_ok_exec [OF n(2) [unfolded st] this, of l E] snoc.prems(2) n(1) st show ?case
    by (auto simp: calls_apart_snoc ext_history_def intro: le_SucI exI [of _ "Suc n"])
qed

end
