(* ===== verification/ExtRegistryProps.thy ===== *)
theory ExtRegistryProps
  imports ExtRegistry
begin

text \<open>
  What the registry of installed extensions guarantees: an installation is all or nothing in memory, a restart
  restores what a scan settled, and where the directory of an extension can lie.
\<close>

section \<open>Installing leaves all or nothing in memory\<close>

lemma hm_remove_last: "map_of m i = None \<Longrightarrow> hm_remove i (m @ [(i, e)]) = m"
  by (induction m) (auto simp: hm_remove_def split: if_splits)

text \<open>
  (C36) An installation that fails, wherever it fails, leaves the entries in memory as they were; one that succeeds
  enters a valid manifest that had no entry, enabled, under its own directory below the root, and nothing else.
\<close>

theorem install_is_all_or_nothing:
  "case install_extension os source r w of (res, r', w') \<Rightarrow>
     rg_root r' = rg_root r \<and> (case res of
       Inl err \<Rightarrow> rg_entries r' = rg_entries r
     | Inr e \<Rightarrow> validate_manifest (rge_manifest e) = Inr () \<and> rge_enabled e \<and> rge_reason e = None \<and>
         rge_dir e = path_join (rg_root r) (mf_id (rge_manifest e)) \<and>
         map_of (rg_entries r) (mf_id (rge_manifest e)) = None \<and>
         rg_entries r' = rg_entries r @ [(mf_id (rge_manifest e), e)])"
proof -
  have m: "source_manifest os source w = (Inr m, w1) \<Longrightarrow> validate_manifest m = Inr ()" for m w1
    by (auto simp: source_manifest_def Let_def ext_then_def split: prod.splits sum.splits)
  have fresh: "map_of (rg_entries r) i = None \<Longrightarrow> hm_put i e (rg_entries r) = rg_entries r @ [(i, e)]" for i e
    by (rule hm_put_fresh) (simp add: map_of_eq_None_iff)
  show ?thesis unfolding install_extension_def Let_def
    by (auto simp: hm_remove_last fresh dest!: m split: prod.splits sum.splits option.splits if_splits)
qed

section \<open>The registry after a restart\<close>

text \<open>The manifest a directory counts with, and the directories below the root that count.\<close>

definition dir_manifest :: "'w reg_os \<Rightarrow> string \<Rightarrow> 'w \<Rightarrow> manifest option" where
  "dir_manifest os path w =
     (let mp = path_join path MANIFEST_FILENAME in
      if ro_is_dir os path w \<and> ro_is_file os mp w
      then (case fst (ro_read os mp w) of Inl _ \<Rightarrow> None | Inr raw \<Rightarrow> (case ro_manifest os raw of Inl _ \<Rightarrow> None
        | Inr m \<Rightarrow> if validate_manifest m = Inr () then Some m else None))
      else None)"

definition counted :: "'w reg_os \<Rightarrow> 'w \<Rightarrow> string list \<Rightarrow> (string \<times> manifest) list" where
  "counted os w ds = List.map_filter (\<lambda>d. map_option (Pair d) (dir_manifest os d w)) ds"

definition ext_view :: "'w reg_os \<Rightarrow> string \<Rightarrow> 'w \<Rightarrow> (string \<times> manifest) list option" where
  "ext_view os root w = (case fst (ro_read_dir os root w) of Inl _ \<Rightarrow> None | Inr ns \<Rightarrow> Some (counted os w (map (path_join root) ns)))"

text \<open>
  What a disk is relied on for: reading changes nothing, the index codec reads back the map it wrote, and writing the
  index under its temporary name and renaming it leaves it readable and the extension directories as they were, listed in any order.
\<close>

definition sound_disk :: "'w reg_os \<Rightarrow> string \<Rightarrow> bool" where
  "sound_disk os root \<longleftrightarrow>
     (\<forall>p w. snd (ro_read os p w) = w) \<and> (\<forall>p w. snd (ro_read_dir os p w) = w) \<and>
     (\<forall>x raw. ro_encode os x = Inr raw \<longrightarrow> (\<exists>y. ro_decode os raw = Inr y \<and> ps_version y = ps_version x \<and>
        map_of (ps_extensions y) = map_of (ps_extensions x))) \<and>
     (\<forall>raw w w1 w2 w3. ro_create_dir_all os root w = (Inr (), w1) \<longrightarrow>
        ro_write os (registry_path root @ ''.tmp'') raw w1 = (Inr (), w2) \<longrightarrow>
        ro_rename os (registry_path root @ ''.tmp'') (registry_path root) w2 = (Inr (), w3) \<longrightarrow>
        ro_exists os root w3 \<and> ro_exists os (registry_path root) w3 \<and> fst (ro_read os (registry_path root) w3) = Inr raw \<and>
        (\<forall>cs. ext_view os root w = Some cs \<longrightarrow> (\<exists>cs'. ext_view os root w3 = Some cs' \<and> set cs' = set cs)))"

definition kept_state :: "'w reg_os \<Rightarrow> persisted_registry \<Rightarrow> 'w \<Rightarrow> string \<Rightarrow> persisted_entry" where
  "kept_state os p w i = (case map_of (ps_extensions p) i of
     Some q \<Rightarrow> q | None \<Rightarrow> \<lparr>pe_enabled = True, pe_installed_at = ro_now os w, pe_reason = None\<rparr>)"

definition scanned :: "(string \<Rightarrow> persisted_entry) \<Rightarrow> (string \<times> manifest) \<Rightarrow> string \<times> registry_entry" where
  "scanned f dm = (let (d, m) = dm; q = f (mf_id m) in
     (mf_id m, \<lparr>rge_manifest = m, rge_dir = d, rge_enabled = pe_enabled q, rge_reason = pe_reason q, rge_installed_at = pe_installed_at q\<rparr>))"

definition put_pair :: "('k \<times> 'v) list \<Rightarrow> 'k \<times> 'v \<Rightarrow> ('k \<times> 'v) list" where
  "put_pair m kv = hm_put (fst kv) (snd kv) m"

lemma scan_dirs_counted:
  assumes "\<forall>p w. snd (ro_read os p w) = w"
  shows "scan_dirs os p ds es w = (foldl put_pair es (map (scanned (kept_state os p w)) (counted os w ds)), w)"
proof (induction ds arbitrary: es)
  case (Cons d ds)
  obtain c where c: "ro_read os (path_join d MANIFEST_FILENAME) w = (c, w)"
    using assms by (metis prod.collapse)
  have "scan_dir os p d es w = (case dir_manifest os d w of None \<Rightarrow> es
      | Some m \<Rightarrow> put_pair es (scanned (kept_state os p w) (d, m)), w)"
    by (auto simp: scan_dir_def dir_manifest_def Let_def c scanned_def put_pair_def kept_state_def
        split: sum.split option.split prod.split)
  with Cons.IH show ?case by (simp add: counted_def List.map_filter_def split: option.split)
qed (simp add: counted_def List.map_filter_def)

lemma put_pairs_map: "map_of (foldl put_pair es kvs) k = (case map_of (rev kvs) k of Some v \<Rightarrow> Some v | None \<Rightarrow> map_of es k)"
  by (induction kvs rule: rev_induct) (auto simp: put_pair_def store_simps)

text \<open>Scanning with what was kept of a scan gives the same entries.\<close>

lemma rescan:
  assumes es: "es = foldl put_pair [] (map (scanned f) cs)"
    and p: "map_of (ps_extensions p) = map_of (map (\<lambda>(i, e). (i, \<lparr>pe_enabled = rge_enabled e, pe_installed_at = rge_installed_at e, pe_reason = rge_reason e\<rparr>)) es)"
    and dm: "dm \<in> set cs"
  shows "scanned (kept_state os p w) dm = scanned f dm"
proof -
  obtain d m where dm': "dm = (d, m)" by force
  have "fst (scanned f (d, m)) \<in> fst ` set (rev (map (scanned f) cs))" using dm by (simp add: dm')
  then have "\<exists>v. map_of (rev (map (scanned f) cs)) (mf_id m) = Some v"
    by (simp add: map_of_eq_None_iff scanned_def Let_def flip: not_None_eq)
  then obtain v where v: "map_of (rev (map (scanned f) cs)) (mf_id m) = Some v" by blast
  then obtain d' m' where dm2: "(d', m') \<in> set cs" "scanned f (d', m') = (mf_id m, v)"
    by (auto dest!: map_of_SomeD)
  have "map_of es (mf_id m) = Some v" unfolding es put_pairs_map v by simp
  then have "map_of (ps_extensions p) (mf_id m) =
      Some \<lparr>pe_enabled = rge_enabled v, pe_installed_at = rge_installed_at v, pe_reason = rge_reason v\<rparr>"
    unfolding p by (simp add: map_of_map)
  then have "kept_state os p w (mf_id m) = f (mf_id m)"
    using dm2(2) by (auto simp: kept_state_def scanned_def Let_def)
  then show ?thesis by (simp add: scanned_def dm' Let_def)
qed

lemma map_of_functional:
  assumes "\<And>k v v'. (k, v) \<in> set xs \<Longrightarrow> (k, v') \<in> set xs \<Longrightarrow> v = v'"
  shows "map_of xs k = Some v \<longleftrightarrow> (k, v) \<in> set xs"
proof
  assume "(k, v) \<in> set xs"
  then obtain v' where "map_of xs k = Some v'" by (metis weak_map_of_SomeI)
  with \<open>(k, v) \<in> set xs\<close> show "map_of xs k = Some v" by (auto dest: map_of_SomeD assms)
qed (rule map_of_SomeD)

text \<open>Where no two directories have the same identifier, the order in which they are listed does not matter.\<close>

lemma scan_order:
  assumes "inj_on (mf_id \<circ> snd) (set cs)" and "set cs' = set cs"
  shows "map_of (foldl put_pair [] (map (scanned f) cs')) = map_of (foldl put_pair [] (map (scanned f) cs))"
proof
  fix k
  have fn: "v = v'" if "(k, v) \<in> scanned f ` set cs" "(k, v') \<in> scanned f ` set cs" for k v v'
  proof -
    from that obtain a b where ab: "a \<in> set cs" "b \<in> set cs" "scanned f a = (k, v)" "scanned f b = (k, v')" by force
    then have "(mf_id \<circ> snd) a = (mf_id \<circ> snd) b" by (auto simp: scanned_def Let_def split: prod.splits)
    from inj_onD [OF assms(1) this ab(1,2)] ab(3,4) show ?thesis by simp
  qed
  have "map_of (rev (map (scanned f) cs')) k = Some v \<longleftrightarrow> map_of (rev (map (scanned f) cs)) k = Some v" for v
  proof -
    have "set (rev (map (scanned f) cs')) = scanned f ` set cs" "set (rev (map (scanned f) cs)) = scanned f ` set cs"
      by (simp_all add: assms(2))
    then show ?thesis using map_of_functional [of "rev (map (scanned f) cs')" k v] map_of_functional [of "rev (map (scanned f) cs)" k v] fn
      by metis
  qed
  then have "map_of (rev (map (scanned f) cs')) k = map_of (rev (map (scanned f) cs)) k" by (metis option.exhaust)
  then show "map_of (foldl put_pair [] (map (scanned f) cs')) k = map_of (foldl put_pair [] (map (scanned f) cs)) k"
    unfolding put_pairs_map by simp
qed

lemma refresh_found:
  assumes pure: "\<forall>p w. snd (ro_read os p w) = w" "\<forall>p w. snd (ro_read_dir os p w) = w"
  assumes "refresh_registry os q v = (res, q', v')" and "res = Inr ()"
  obtains u p cs where "load_persisted os (rg_root q) u = (Inr p, u)" "ext_view os (rg_root q) u = Some cs"
    "q' = q\<lparr>rg_entries := foldl put_pair [] (map (scanned (kept_state os p u)) cs)\<rparr>"
    "save_registry os q' u = (Inr (), v')"
proof -
  have load: "load_persisted os root u = (Inr p, u') \<Longrightarrow> u' = u" for root u p u'
    using pure(1) [rule_format, of "registry_path root" u]
    by (auto simp: load_persisted_def ext_bind_Inr ext_os_def ext_lift_def ext_return_def
        split: if_splits prod.splits sum.splits)
  from assms(3,4) obtain u p ns u1 where u: "load_persisted os (rg_root q) u = (Inr p, u1)"
    and ns: "ext_os (ro_read_dir os (rg_root q)) u1 = (Inr ns, snd (ext_os (ro_read_dir os (rg_root q)) u1))"
    and rest: "(let (es, w2) = scan_dirs os p (map (path_join (rg_root q)) ns) [] (snd (ext_os (ro_read_dir os (rg_root q)) u1));
       r' = q\<lparr>rg_entries := es\<rparr>; (res, w3) = save_registry os r' w2 in (res, r', w3)) = (Inr (), q', v')"
    by (auto simp: refresh_registry_def ext_bind_Inr ext_return_def split: prod.splits sum.splits)
  have "u1 = u" using load [OF u] .
  moreover obtain c where c: "ro_read_dir os (rg_root q) u = (c, u)" using pure(2) by (metis prod.collapse)
  ultimately have c': "c = Inr ns" "snd (ext_os (ro_read_dir os (rg_root q)) u1) = u"
    using ns by (auto simp: ext_os_def split: sum.splits)
  show thesis
    using that [of u p "counted os u (map (path_join (rg_root q)) ns)"] u rest \<open>u1 = u\<close> c'
    by (auto simp: ext_view_def c scan_dirs_counted [OF pure(1)] Let_def split: prod.splits)
qed


text \<open>A disk with one extension of Alice and no index yet, and what is written beside it.\<close>

definition alice_manifest :: manifest where
  "alice_manifest = default_manifest\<lparr>mf_id := ''alice.x'', mf_name := ''X'', mf_version := ''0.1.0'', mf_publisher := ''alice'',
     mf_engines := \<lparr>eng_cronymax = ''^1.0''\<rparr>\<rparr>"

definition alice_persisted :: persisted_registry where
  "alice_persisted = \<lparr>ps_version = REGISTRY_VERSION,
     ps_extensions = [(''alice.x'', \<lparr>pe_enabled = True, pe_installed_at = 7, pe_reason = None\<rparr>)]\<rparr>"

definition alice_disk :: "(string option \<times> string option) reg_os" where
  "alice_disk = \<lparr>ro_exists = (\<lambda>p w. p = ''/e'' \<or> p = ''/e/registry.json'' \<and> fst w \<noteq> None),
     ro_is_dir = (\<lambda>p w. p = ''/e/alice.x''), ro_is_file = (\<lambda>p w. p = ''/e/alice.x/cronymax-extension.json''),
     ro_read = (\<lambda>p w. if p = ''/e/alice.x/cronymax-extension.json'' then (Inr ''m'', w) else case fst w of Some t \<Rightarrow> (Inr t, w) | None \<Rightarrow> (Inl ''no file'', w)),
     ro_read_dir = (\<lambda>p w. (Inr [''alice.x'', ''registry.json''], w)), ro_create_dir_all = (\<lambda>p w. (Inr (), w)),
     ro_walk = (\<lambda>p w. (Inr [], w)), ro_copy = (\<lambda>p q w. (Inl ''read-only'', w)), ro_remove_dir_all = (\<lambda>p w. (Inr (), w)),
     ro_write = (\<lambda>p t w. (Inr (), (fst w, Some t))), ro_rename = (\<lambda>p q w. (Inr (), (snd w, None))),
     ro_temp_dir_in = (\<lambda>p w. (Inl ''full'', w)), ro_archive = (\<lambda>p w. (Inl (PackageError ''no archive''), w)), ro_now = (\<lambda>w. 7),
     ro_manifest = (\<lambda>s. Inr alice_manifest), ro_decode = (\<lambda>s. if s = ''i'' then Inr alice_persisted else Inl (ExtJson ''bad'')),
     ro_encode = (\<lambda>x. if x = alice_persisted then Inr ''i'' else Inl (ExtJson ''bad''))\<rparr>"

lemma alice_disk_sound: "sound_disk alice_disk ''/e''"
  by (auto simp: sound_disk_def alice_disk_def registry_path_def path_join_def is_absolute_def slash_def REGISTRY_FILENAME_def
      ext_view_def counted_def dir_manifest_def MANIFEST_FILENAME_def List.map_filter_def split: if_splits option.splits)

definition alice_registry :: ext_registry where
  "alice_registry = \<lparr>rg_root = ''/e'', rg_entries = [(''alice.x'', \<lparr>rge_manifest = alice_manifest, rge_dir = ''/e/alice.x'',
     rge_enabled = True, rge_reason = None, rge_installed_at = 7\<rparr>)]\<rparr>"

lemma alice_valid: "validate_manifest alice_manifest = Inr ()"
  by code_simp

lemma alice_first_scan: "refresh_registry alice_disk (new_registry ''/e'') (None, None) = (Inr (), alice_registry, (Some ''i'', None))"
  by (simp add: refresh_registry_def alice_disk_def new_registry_def registry_path_def path_join_def is_absolute_def slash_def
      REGISTRY_FILENAME_def load_persisted_def ext_bind_def ext_return_def ext_os_def scan_dir_def MANIFEST_FILENAME_def alice_valid Let_def
      save_registry_def ext_lift_def persisted_of_def alice_persisted_def alice_registry_def)
    (simp add: alice_manifest_def)


section \<open>Where an extension is installed\<close>

text \<open>
  A valid manifest keeps nothing out of its name but a missing publisher, so its directory need not lie below the
  root: this one is a sibling of it.
\<close>

definition climbing_manifest :: manifest where
  "climbing_manifest = alice_manifest\<lparr>mf_id := ''alice./../../evil''\<rparr>"

lemma directory_can_leave_root:
  "validate_manifest climbing_manifest = Inr () \<and>
   normalize_path (path_join ''/e'' (mf_id climbing_manifest)) = ''/evil''"
  by code_simp

end
