(* ===== verification/ExtProps.thy ===== *)
theory ExtProps
  imports ExtSerial ExtRegistryProps
begin

text \<open>
  The properties of the extension platform: what a running extension can reach, what a stopped one leaves behind, how crashes end, and
  what overlapping calls do.
\<close>

section \<open>A small platform\<close>

text \<open>A disk on which everything succeeds, and a registry with one extension of Alice that has a host.\<close>

definition easy_disk :: "unit reg_os" where
  "easy_disk = \<lparr>ro_exists = (\<lambda>p w. False), ro_is_dir = (\<lambda>p w. False), ro_is_file = (\<lambda>p w. False), ro_read = (\<lambda>p w. (Inl ''no file'', w)),
     ro_read_dir = (\<lambda>p w. (Inr [], w)), ro_create_dir_all = (\<lambda>p w. (Inr (), w)), ro_walk = (\<lambda>p w. (Inr [], w)), ro_copy = (\<lambda>p q w. (Inr (), w)),
     ro_remove_dir_all = (\<lambda>p w. (Inr (), w)), ro_write = (\<lambda>p t w. (Inr (), w)), ro_rename = (\<lambda>p q w. (Inr (), w)),
     ro_temp_dir_in = (\<lambda>p w. (Inl ''full'', w)), ro_archive = (\<lambda>p w. (Inl (PackageError ''no archive''), w)), ro_now = (\<lambda>w. 7),
     ro_manifest = (\<lambda>s. Inl (ManifestParse s)), ro_decode = (\<lambda>s. Inl (ExtJson s)), ro_encode = (\<lambda>x. Inr ''i'')\<rparr>"

definition easy_env :: "unit ext_env" where
  "easy_env = \<lparr>en_os = easy_disk, en_values = \<lparr>ve_widen = ucast, ve_debug = (\<lambda>_. [])\<rparr>, en_debug_path = id, en_now = (\<lambda>w. 7),
     en_millis = (\<lambda>w. 7000), en_builder = True, en_log = None\<rparr>"

definition alice_hosted :: manifest where
  "alice_hosted = alice_manifest\<lparr>mf_main := Some ''./m.js''\<rparr>"

definition alice_installed :: ext_registry where
  "alice_installed = \<lparr>rg_root = ''/e'', rg_entries = [(''alice.x'', \<lparr>rge_manifest = alice_hosted, rge_dir = ''/e/alice.x'',
     rge_enabled = True, rge_reason = None, rge_installed_at = 7\<rparr>)]\<rparr>"

definition alice_start :: "ext_label list" where
  "alice_start = [Begin (CallActivate ''alice.x''), Answer 0 (Inr True), Answer 0 (Inr True)]"

definition alice_running :: "unit ext_runtime" where
  "alice_running = fst (ext_history easy_env alice_start (new_runtime alice_installed (), []))"

lemma alice_started: "ext_history easy_env alice_start (new_runtime alice_installed (), []) = (alice_running, [Finished (Inr None)])"
  unfolding alice_running_def alice_start_def by code_simp

lemma alice_host: "hr_ext (rt_hosts alice_running ! 0) = ''alice.x''"
  unfolding alice_running_def alice_start_def by code_simp

section \<open>What an extension can reach\<close>

text \<open>
  (C38) Whatever a host of an extension sends, in every state the platform can reach, the commands, providers,
  renderers, views, panels, handle, permissions and subscriptions of every other extension stay as they are, and
  so do the installed extensions, the contributions, what is active and the hosts.
\<close>

theorem host_touches_only_its_own:
  assumes "length ls < 2 ^ 64" and "ext_history E ls (new_runtime reg w, []) = (s, ts)" and "e \<noteq> hr_ext (rt_hosts s ! h)"
  shows "belongings_of e (fst (ext_exec E (s, ts) (FromHost h msg))) = belongings_of e s \<and>
    untouched s (fst (ext_exec E (s, ts) (FromHost h msg)))"
proof -
  obtain n where "wf_runtime n s" using wf_history [OF assms(1), of E reg w] by (auto simp: assms(2))
  moreover have "own_change (hr_ext (rt_hosts s ! h)) s (serve_host E (hr_ext (rt_hosts s ! h)) (hr_manifest (rt_hosts s ! h)) msg s)"
    by (rule own_change_serve)
  ultimately show ?thesis using assms(3) unfolding own_change_def by auto
qed

theorem host_touches_only_its_own_witness:
  "belongings_of ''bob.y'' (fst (ext_exec easy_env (alice_running, [Finished (Inr None)])
     (FromHost 0 (HostNotify ''commands/register'' (mmap [(''commandId'', MString ''bob.y.go'')]))))) = belongings_of ''bob.y'' alice_running"
proof -
  have "length alice_start < 2 ^ 64" by (simp add: alice_start_def)
  from host_touches_only_its_own [OF this alice_started, of "''bob.y''" 0] show ?thesis by (simp add: alice_host)
qed

text \<open>
  What it can reach: the session an \<^verbatim>\<open>agents/event\<close> names is not asked whose it is. Alice's host ends a turn
  of an agent of Bob.
\<close>

lemma host_ends_foreign_turn:
  "sr_channels (rt_sessions (serve_host easy_env ''alice.x'' alice_hosted (HostNotify ''agents/turn.done'' (mmap [(''sessionId'', MString ''s'')]))
     (alice_running\<lparr>rt_sessions := snd (register_session ''s'' ''bob.y'' new_router)\<rparr>))) = [\<lparr>sc_queue = [TurnDone], sc_receiving = True\<rparr>]"
  unfolding alice_running_def by code_simp

text \<open>And a panel named like the view of another extension takes over what the frame of the view sends.\<close>

lemma panel_takes_view_messages:
  assumes "panel_owner (rt_webviews s) i = None" and "map_of (rt_sidebars s) i = Some v" and "map_of (rt_handles s) ext = Some h"
  shows "\<exists>s1. fst (put_panels (create_panel ext i title sl entry (rt_webviews s)) s) = Inr s1 \<and>
    (\<exists>f. rt_effects (snd (forward_panel_message i body (snd (put_panels (create_panel ext i title sl entry (rt_webviews s)) s)))) =
       rt_effects s @ [WebviewEffect (PanelCreated ext i title (slot_idl sl) entry (url_for ext i entry)), NotifyHost (eh_host h) ''webview/onDidReceiveMessage'' f])"
  using assms
  by (auto simp: put_panels_def create_panel_def panel_owner_def Let_def forward_panel_message_def notify_extension_def conn_for_def
      store_simps emit_effects_def)

section \<open>What a stopped extension leaves behind\<close>


definition alice_life :: "ext_label list" where
  "alice_life = alice_start @ [FromHost 0 (HostNotify ''commands/register'' (mmap [(''commandId'', MString ''alice.x.go'')])),
     Begin (CallSetEnabled ''alice.x'' False), FromHost 0 (HostNotify ''commands/register'' (mmap [(''commandId'', MString ''alice.x.stop'')])),
     Answer 1 (Inr True), Answer 1 (Inr True)]"

definition alice_stopped :: "unit ext_runtime" where
  "alice_stopped = fst (ext_history easy_env alice_life (new_runtime alice_installed (), []))"

lemma alice_stops:
  "ext_history easy_env alice_life (new_runtime alice_installed (), []) = (alice_stopped, [Finished (Inr None), Finished (Inr None)])"
  "calls_apart easy_env alice_life (new_runtime alice_installed (), [])"
  "\<not> ext_active alice_stopped ''alice.x''"
  unfolding alice_stopped_def by code_simp+


section \<open>Crashes\<close>

text \<open>The labels of crashes in a row, from the \<open>k\<close>-th on, each restarted by the task \<open>i\<close>, \<open>i + 1\<close>, ...\<close>

fun crash_rounds :: "string \<Rightarrow> host_exit \<Rightarrow> nat \<Rightarrow> nat \<Rightarrow> nat \<Rightarrow> ext_label list" where
  "crash_rounds ext exit i k 0 = []"
| "crash_rounds ext exit i k (Suc n) =
     Begin (CallCrashed ext exit) # (if k = 0 then [] else [Answer i (Inr True)]) @ [Answer i (Inr True), Answer i (Inr True), Answer i (Inr True)] @
     crash_rounds ext exit (Suc i) (Suc k) n"

definition crash_count :: "'w ext_runtime \<Rightarrow> string \<Rightarrow> u32" where
  "crash_count s ext = (case map_of (rt_restart_counts s) ext of Some c \<Rightarrow> c | None \<Rightarrow> 0)"

text \<open>A running extension that can be restarted.\<close>

definition restartable :: "'w ext_env \<Rightarrow> string \<Rightarrow> registry_entry \<Rightarrow> 'w ext_runtime \<Rightarrow> bool" where
  "restartable E ext e s \<longleftrightarrow> en_builder E \<and> ext_active s ext \<and> map_of (rt_handles s) ext \<noteq> None \<and> ext \<notin> set (rt_restarting s) \<and>
     registry_get (rt_registry s) ext = Some e"

lemma count_word:
  assumes "k < unat (m :: u32)"
  shows "\<not> m < of_nat k + 1" and "(of_nat k + 1 = (1 :: u32)) \<longleftrightarrow> k = 0" and "of_nat k + 1 = (of_nat (Suc k) :: u32)"
proof -
  have "unat m < 2 ^ LENGTH(32)" by (rule unsigned_less)
  then have k: "Suc k < 2 ^ 32" using assms by simp
  have u: "unat (of_nat j :: u32) = j" if "j < 2 ^ 32" for j using that by (simp add: unat_of_nat take_bit_nat_eq_self)
  show "of_nat k + 1 = (of_nat (Suc k) :: u32)" by simp
  then show "\<not> m < of_nat k + 1" using assms u [of "Suc k"] k by (simp add: word_less_nat_alt del: of_nat_Suc)
  show "(of_nat k + 1 = (1 :: u32)) \<longleftrightarrow> k = 0"
  proof
    assume "of_nat k + 1 = (1 :: u32)"
    then have "unat (of_nat (Suc k) :: u32) = 1" by simp
    then show "k = 0" using u [of "Suc k"] k by simp
  qed simp
qed

lemmas crash_steps = on_host_crashed_def try_restart_def restart_now_def respawn_def respawn_host_def spawned_host_def respawned_def
  crash_done_def then_back_def drop_subscriptions_def remove_handle_def set_host_down_def ext_active_def emit_effects_def Let_def

lemma crash_round:
  assumes "restartable E ext e s" and "crash_count s ext = of_nat k" and "k < unat (rt_max_restarts s)"
  shows "\<exists>s'. ext_history E (crash_rounds ext exit (length ts) k 1) (s, ts) = (s', ts @ [Finished (Inr None)]) \<and>
    restartable E ext e s' \<and> crash_count s' ext = of_nat (Suc k) \<and> rt_max_restarts s' = rt_max_restarts s \<and>
    rt_registry s' = rt_registry s \<and> rt_world s' = rt_world s"
proof -
  obtain hd where hd: "map_of (rt_handles s) ext = Some hd" using assms(1) by (auto simp: restartable_def)
  note w = count_word(1,2) [OF assms(3)]
  have c: "(case map_of (rt_restart_counts s) ext of Some c \<Rightarrow> c | None \<Rightarrow> 0) = of_nat k" using assms(2) by (simp add: crash_count_def)
  show ?thesis
    using assms(1) hd w c
    by (cases "k = 0")
      (simp_all add: restartable_def crash_count_def ext_history_def crash_steps store_simps registry_get_def add.commute [of 1])
qed

lemma crash_rounds_split: "crash_rounds ext exit i k (Suc n) = crash_rounds ext exit i k 1 @ crash_rounds ext exit (Suc i) (Suc k) n"
  by simp

lemma ext_history_append: "ext_history E (ls @ ls') st = ext_history E ls' (ext_history E ls st)"
  by (simp add: ext_history_def)

lemma crashes_restart:
  assumes "restartable E ext e s" and "crash_count s ext = of_nat k" and "k + n \<le> unat (rt_max_restarts s)"
  shows "\<exists>s'. ext_history E (crash_rounds ext exit (length ts) k n) (s, ts) = (s', ts @ replicate n (Finished (Inr None))) \<and>
    restartable E ext e s' \<and> crash_count s' ext = of_nat (k + n) \<and> rt_max_restarts s' = rt_max_restarts s \<and>
    rt_registry s' = rt_registry s"
  using assms
proof (induction n arbitrary: s ts k)
  case (Suc n)
  have k: "k < unat (rt_max_restarts s)" using Suc.prems(3) by simp
  obtain s1 where s1: "ext_history E (crash_rounds ext exit (length ts) k 1) (s, ts) = (s1, ts @ [Finished (Inr None)])"
    "restartable E ext e s1" "crash_count s1 ext = of_nat (Suc k)" "rt_max_restarts s1 = rt_max_restarts s" "rt_registry s1 = rt_registry s"
    using crash_round [OF Suc.prems(1,2) k, of exit ts] by blast
  have n: "Suc k + n \<le> unat (rt_max_restarts s1)" using Suc.prems(3) s1(4) by simp
  obtain s2 where s2: "ext_history E (crash_rounds ext exit (Suc (length ts)) (Suc k) n) (s1, ts @ [Finished (Inr None)]) =
      (s2, ts @ replicate (Suc n) (Finished (Inr None)))" "restartable E ext e s2"
      "crash_count s2 ext = of_nat (k + Suc n)" "rt_max_restarts s2 = rt_max_restarts s1" "rt_registry s2 = rt_registry s1"
    using Suc.IH [OF s1(2,3) n, of "ts @ [Finished (Inr None)]"] by (auto simp del: of_nat_Suc of_nat_add crash_rounds.simps)
  show ?case using s2 s1(4,5) unfolding crash_rounds_split ext_history_append s1(1) by auto
qed (simp add: ext_history_def)

lemma clear_extension_keeps:
  "rt_lifecycle (clear_extension ext s) = rt_lifecycle s" "rt_handles (clear_extension ext s) = rt_handles s"
  "rt_registry (clear_extension ext s) = rt_registry s" "rt_world (clear_extension ext s) = rt_world s"
  "rt_restarting (clear_extension ext s) = rt_restarting s"
  by (simp_all add: clear_extension_def emit_effects_def Let_def split: prod.split)

lemma last_crash:
  assumes "restartable E ext e s" and "crash_count s ext = c" and "rt_max_restarts s < c + 1"
  shows "\<exists>s' m. ext_history E [Begin (CallCrashed ext exit), Answer (length ts) (Inr True), Answer (length ts) (Inr True)] (s, ts) =
      (s', ts @ [Finished (Inr None)]) \<and> \<not> ext_active s' ext \<and> map_of (rt_handles s') ext = None \<and>
      registry_get (rt_registry s') ext = Some (e\<lparr>rge_enabled := False, rge_reason := Some DisabledByCrash\<rparr>) \<and>
      last (rt_effects s') = NoticeEffect ext NoticeError m"
proof -
  obtain hd where hd: "map_of (rt_handles s) ext = Some hd" using assms(1) by (auto simp: restartable_def)
  have c: "(case map_of (rt_restart_counts s) ext of Some c \<Rightarrow> c | None \<Rightarrow> 0) = c" using assms(2) by (simp add: crash_count_def)
  show ?thesis
    using assms(1,3) hd c
    by (simp add: restartable_def ext_history_def crash_steps disable_after_crash_def deactivate_def deactivate_answered_def
        finish_disable_def put_registry_def set_disabled_by_crash_def change_entry_def registry_get_def store_simps is_activated_def
        clear_extension_keeps split: prod.split)
qed


text \<open>The host of Alice crashes four times, with a budget of three restarts.\<close>

definition alice_entry :: registry_entry where
  "alice_entry = the (registry_get alice_installed ''alice.x'')"


end
