(* ===== verification/Spec2Isabelle.thy ===== *)
theory Spec2Isabelle
  imports GraphProps AuthorityProps FlowProps AgentProps WireProps ToolProps RpcProps FlowHandlerProps ProtocolProps ExtProps
begin

text \<open>
  A verification library for the Rust runtime of cronymax.

  The program. Cronymax is a browser with an agent runtime: a separate process
  (\<^verbatim>\<open>src/crates/cronymax\<close>) keeps the runs, sessions, reviews and task trees of the agents, drives
  their conversations with language models, schedules the nodes of declared flows, and runs the extensions
  in Node processes; a small graph library (\<^verbatim>\<open>src/crates/cronygraph\<close>) is used for the schedules. The library models, bottom up:

  \<^item> the graph library: \<open>CronyGraph\<close> is \<^verbatim>\<open>cronygraph/src/graph.rs\<close> (nodes, edges, cycle detection,
    topological sorting), \<open>Orchestrator\<close> is \<^verbatim>\<open>cronygraph/src/orchestration.rs\<close> (steps, transitions
    and the walk); \<open>GraphProps\<close> states their properties;
  \<^item> the runtime's state: \<open>RuntimeState\<close> is \<^verbatim>\<open>runtime/state.rs\<close> and \<^verbatim>\<open>runtime/persistence.rs\<close> (the
    snapshot, its migration, the in-memory and the JSON file backend), \<open>Events\<close> the payloads of
    \<^verbatim>\<open>protocol/events.rs\<close> and the subscriptions, \<open>Authority\<close> is \<^verbatim>\<open>runtime/authority.rs\<close>, the only
    writer of the snapshot, one definition per critical section; \<open>AuthoritySteps\<close> and
    \<open>AuthorityRuns\<close> make its operations a step relation and carry the invariants,
    \<open>AuthorityProps\<close> states the properties;
  \<^item> flows: \<open>FlowDef\<close> is \<^verbatim>\<open>flow/definition.rs\<close> (validation, the derived topology, back edges),
    \<open>FlowRun\<close> is \<^verbatim>\<open>flow/runtime.rs\<close> and \<^verbatim>\<open>flow/trace.rs\<close> (the runs of flows, their activation,
    reviews, persistence and rehydration), \<open>FlowGate\<close> the activation pass on the orchestrator,
    \<open>FlowSteps\<close>, \<open>FlowHistory\<close> and \<open>FlowEffects\<close> the step relation, the history of a run and the
    effect of each operation; \<open>FlowProps\<close> states the properties;
  \<^item> agents: \<open>AgentTypes\<close> is \<^verbatim>\<open>llm/messages.rs\<close>, \<^verbatim>\<open>llm/provider.rs\<close> and \<^verbatim>\<open>agent_loop/tools.rs\<close>,
    \<open>Threads\<close> the contract of a thread with a model provider, \<open>Compaction\<close> is
    \<^verbatim>\<open>agent_loop/compaction.rs\<close> and \<^verbatim>\<open>runtime/sessions.rs\<close>, \<open>Middleware\<close> is \<^verbatim>\<open>runtime/middleware.rs\<close>,
    \<open>AgentLoop\<close> is \<^verbatim>\<open>agent_loop/react.rs\<close> with the ends of the tasks of \<^verbatim>\<open>runtime/agent_runner.rs\<close>;
    \<open>LoopLogic\<close>, \<open>LoopThreads\<close>, \<open>LoopWorld\<close> and \<open>LoopOutcome\<close> carry the proofs about a loop, and
    \<open>LoopWorld\<close> also models the scripted provider of \<^verbatim>\<open>llm/mock.rs\<close>; \<open>AgentProps\<close> states the
    properties;
  \<^item> the clients of the language models: \<open>Sse\<close> is what their streams share (lossy decoding, lines),
    \<open>Serde\<close> the derived decoding of structs, \<open>OpenAi\<close> is \<^verbatim>\<open>llm/openai.rs\<close>, \<open>Anthropic\<close> is
    \<^verbatim>\<open>llm/anthropic.rs\<close>; \<open>WireLogic\<close> carries the proofs, with a writer of streams as the reference,
    and \<open>WireProps\<close> states the properties;
  \<^item> the tools of the agents: \<open>Paths\<close> is the path handling of the standard library they use, \<open>Sandbox\<close>
    is \<^verbatim>\<open>sandbox/\<close> with \<^verbatim>\<open>capability/shell.rs\<close>, \<open>FileTools\<close> is \<^verbatim>\<open>capability/filesystem.rs\<close> with its gate,
    \<open>Dispatcher\<close> is \<^verbatim>\<open>capability/dispatcher.rs\<close> and the factory, \<open>HostTools\<close> the terminal, search, git
    and document tools, \<open>TestRunner\<close> is \<^verbatim>\<open>capability/test_runner.rs\<close>, \<open>AgentTools\<close> the tool set the agent
    runner builds; \<open>ToolLogic\<close> carries the proofs and \<open>ToolProps\<close> states the properties;
  \<^item> the connection to the browser: \<open>Control\<close> is \<^verbatim>\<open>protocol/control.rs\<close>, \<^verbatim>\<open>envelope.rs\<close>,
    \<^verbatim>\<open>capabilities.rs\<close> and \<^verbatim>\<open>version.rs\<close>, \<open>Protocol\<close> the loop of \<^verbatim>\<open>protocol/dispatch.rs\<close>, one step per
    await; \<open>ProtocolLogic\<close> and \<open>ProtocolProps\<close> carry and state what a session does;
  \<^item> the request handlers: \<open>Handlers\<close> is \<^verbatim>\<open>runtime/handler/\<close> with its subscriptions, fan-out tasks and
    capability calls, \<open>FlowHandlers\<close> the requests about reviews and flow runs with the jobs they start;
    \<open>HandlersLogic\<close>, \<open>HandlerProps\<close> and \<open>FlowHandlerProps\<close> carry and state the properties;
  \<^item> the connection to an extension: \<open>Rpc\<close> is \<^verbatim>\<open>extensions/rpc/\<close> (codec, server, connection), \<open>RpcLogic\<close> and
    \<open>RpcProps\<close> carry and state the properties;
  \<^item> the extension platform: \<open>ExtManifest\<close> is \<^verbatim>\<open>extensions/error.rs\<close>, \<^verbatim>\<open>activation.rs\<close> and \<^verbatim>\<open>manifest.rs\<close>,
    \<open>Contributions\<close> is \<^verbatim>\<open>extensions/contributions/\<close>, \<open>EventBus\<close> is \<^verbatim>\<open>extensions/events.rs\<close>, \<open>ExtRegistries\<close> and
    \<open>ExtSessions\<close> are \<^verbatim>\<open>extensions/api/\<close>, \<open>ExtRegistry\<close> is \<^verbatim>\<open>extensions/registry.rs\<close> and the unpacking of
    \<^verbatim>\<open>package.rs\<close>, \<open>ExtValues\<close>, \<open>ExtRuntime\<close> and \<open>ExtTasks\<close> are \<^verbatim>\<open>extensions/runtime.rs\<close>: the values of a
    message, the handlers of a host's messages, and the operations that wait, as tasks cut at each await;
    \<open>ExtIsolation\<close>, \<open>ExtLifecycle\<close> and \<open>ExtSerial\<close> carry the invariants, \<open>ExtRegistryProps\<close> and \<open>ExtProps\<close>
    state the properties.

  \<open>Prelude\<close> holds what they share: sorted association lists with distinct keys for \<^verbatim>\<open>BTreeMap\<close>, maps
  in iteration order for \<^verbatim>\<open>HashMap\<close>, JSON values, string functions and identifiers.

  How the parts interact. Every request of the browser ends in operations of the authority or of the
  flow runtime. The authority saves the whole snapshot through its backend before it emits events to
  the matching subscriptions. The flow runtime builds an orchestrator per approval to find the nodes
  that can start and hands their contexts to its caller. An agent loop runs as a task: it reads and
  changes its run through the authority, asks the provider for each turn, dispatches tools, opens
  reviews and waits for their completion, and finally flushes its thread to the session. The dispatch
  loop reads the requests of the browser one by one, hands them to the handler and writes what the handler
  and the fan-out tasks put into its sink. The orchestrator of extensions starts a host per extension,
  feeds the registries from its messages and from its manifest, and clears them when it stops.

  Conventions. A struct is a record, an enum a datatype; a machine integer is a word where it can
  reach its bound and \<open>nat\<close> where it only counts elements; arithmetic wraps, as in a release build. A
  text is the list of its bytes. An operation takes its state and returns it, errors are values of a
  sum, and what the code cannot know is a parameter: \<open>auth_env\<close> holds the backend, the display of
  identifiers and of errors, the flow environment the outcome of every access to the file system, and
  \<open>agent_env\<close> the clock readings and the fresh identifiers of successive ticks, the JSON printer and
  parser, and what other tasks do while a loop waits. The JSON file backend assumes of serde that reading back
  what was written gives the snapshot without its memory, with null outputs absent and JSON values as
  their printed form parses (\<open>serde_roundtrip\<close>, \<open>as_stored\<close>). A critical section is one step, so
  interleavings of tasks are sequences of steps; the operations that release their lock in between
  (\<open>mark_run_running\<close>, \<open>complete_run\<close>, \<open>fail_run\<close>, \<open>open_review_with_completion\<close>) are split at that
  point. The six-hook middleware works on one store record per loop.

  Termination and fuel. The walk of the orchestrator without a step limit is a partial function whose
  result \<open>None\<close> is divergence; it is proved to return on acyclic transitions and under every limit.
  The depth-first searches run with fuel, and enough of it is proved: \<open>dfs_fuel\<close> of a flow is one more
  than its nodes and the targets of its routes, as every nested call visits a new one of them. A flow operation whose activation pass diverges has
  the outcome \<open>FlowDiverges\<close>, which is proved never to occur. The turns of a loop are bounded by its
  configuration; a loop that waits for an answer that never comes has the result \<open>Blocked\<close>.

  What the lemmas show. For the graph library: the walk refines a big-step specification, returns
  under the stated conditions, and the cycle search and the sort decide acyclicity. For the
  authority: the snapshot stays well-formed through every operation, the journal of a history holds the
  snapshot after one of its operations and nothing later was saved, runs move only along their transitions,
  events are numbered without gaps, reviews are resolved once and fire one completion. For flows: validation
  accepts exactly valid flows, the activation pass activates exactly the nodes whose inputs are
  approved, approvals and rejections schedule exactly the agents they should, runs only grow, restarts and
  review files round-trip, and cycle limits hold. For agents: every request carries a thread whose calls are
  answered, the requests of a run are bounded, tools that need approval run only after it, runs end in a
  terminal status, and compaction keeps what it promises where the thread is long enough. For the clients of
  the models: the events do not depend on the cuts of the stream, and an answer is read back as it was
  written. For the tools: no tool of the default factory but the shell uses a path outside the workspace,
  where a path is what the lexical check of the code takes it for (a symbolic link is followed by the
  file system and not seen by the check); exactly commits and pushes wait; the sandbox stops no command.
  For the two connections: frames and messages arrive once and in order, a request has one answer, and only
  hosts of a compatible version are served. For the handlers: the events the browser reads are numbered, and
  when a resumption starts a loop. For the extensions: deliveries follow the declared permissions, an
  installation changes the entries as a whole or not at all, a restart finds the same entries, a host
  reaches only what its extension owns, an inactive extension has left nothing behind when the calls do
  not overlap, and a host that keeps crashing is disabled after the budget. Several theorems show where the
  code does less than its comments say: they are listed as findings in the manifest.

  Interfaces. A locale states what a client needs of a provider, and each is interpreted on the
  model's own definitions: \<open>keyed_store\<close> is what a lookup sees after an insertion (all maps of the
  prelude), \<open>persistence\<close> what a load sees after a save and \<open>auth_durable\<close> what follows for the authority
  (interpreted on the in-memory backend; \<open>json_persistence\<close> is the same contract for the file backend
  under the assumption on serde), \<open>fanout\<close> what an emitter delivers (both emitters), \<open>node_steps\<close> and \<open>run_steps\<close>
  relations between the states of a flow run that its operations keep, \<open>loop_services\<close> a graded
  relation between the worlds before and after each service of a loop, interpreted on the scripted
  provider, the default middleware and the authority's own operations for the number of requests
  and for the survival of runs, and \<open>owned_table\<close> a table whose entries have one owner, which alone changes
  them, interpreted on commands, providers, renderers, sidebar views and panels.

  Limits. The tasks of an extension interleave where they await; the threads of the runtime could also
  switch between two locked sections. Identifiers that count upwards (calls of a connection, tasks and hosts of
  the orchestrator) are words, and the theorems about them hold for fewer steps than their range.

  Not modelled: the process entry, logging and configuration; the byte transport to the browser and the
  HTTP connections of the model clients; the Node child process of an extension with its health checks,
  its logs, and the storage, secret, configuration and authentication services; the packing of an archive;
  the embeddings of the memory search, which compute in floating point; and the C++ and TypeScript sources.
  They are input and output around the core. The file system, processes, git and the pseudo terminals are
  parameters of the tools. The handlers that start runs and those about files, terminals and workspaces,
  the prompt texts, the chat store, the parsers of the flow documents and the tools that start flows and
  child agents are glue between the parts above.
\<close>

end
